(* ===== verification/Prelude.thy ===== *)
theory Prelude
  imports Complex_Main "HOL-Library.Sublist"
begin

text \<open>
  Shared vocabulary of the development: the collections of rewrite rules the
  components register with, JavaScript strings as character lists (searching,
  splitting, trimming, decimal printing), and the generic lemmas on lists and
  folds that more than one component needs.  A JavaScript string is modelled as
  a list of characters; the code units the sources compare against are all ASCII.
\<close>

named_theorems io_simps \<open>how the effectful operations act on a world\<close>
named_theorems step_simps \<open>unfolding of the step functions of the state machines\<close>
named_theorems inv_defs \<open>definitions of the invariants\<close>

section \<open>Characters and strings\<close>

definition newline :: char where "newline = CHR 0x0A"

definition is_ws :: "char \<Rightarrow> bool" where
  "is_ws c \<longleftrightarrow> c \<in> {CHR 0x20, CHR 0x09, CHR 0x0A, CHR 0x0B, CHR 0x0C, CHR 0x0D}"

definition is_digit :: "char \<Rightarrow> bool" where
  "is_digit c \<longleftrightarrow> 48 \<le> (of_char c :: nat) \<and> (of_char c :: nat) \<le> 57"

definition lower_char :: "char \<Rightarrow> char" where
  "lower_char c = (if 65 \<le> (of_char c :: nat) \<and> (of_char c :: nat) \<le> 90
                   then char_of ((of_char c :: nat) + 32) else c)"

definition upper_char :: "char \<Rightarrow> char" where
  "upper_char c = (if 97 \<le> (of_char c :: nat) \<and> (of_char c :: nat) \<le> 122
                   then char_of ((of_char c :: nat) - 32) else c)"

abbreviation to_lower :: "string \<Rightarrow> string" where
  "to_lower \<equiv> map lower_char"

definition trim_start :: "string \<Rightarrow> string" where
  "trim_start = dropWhile is_ws"

definition trim :: "string \<Rightarrow> string" where
  "trim s = rev (trim_start (rev (trim_start s)))"

definition starts_with :: "string \<Rightarrow> string \<Rightarrow> bool" where
  "starts_with s p = prefix p s"

text \<open>\<open>s.includes(t)\<close> is the library's \<^const>\<open>sublist\<close>.\<close>

definition includes_str :: "string \<Rightarrow> string \<Rightarrow> bool" where
  "includes_str s t = sublist t s"

fun join :: "string \<Rightarrow> string list \<Rightarrow> string" where
  "join sep [] = []"
| "join sep [x] = x"
| "join sep (x # y # xs) = x @ sep @ join sep (y # xs)"

subsection \<open>Splitting at a separator\<close>

fun cut_first :: "'a list \<Rightarrow> 'a list \<Rightarrow> ('a list \<times> 'a list) option" where
  "cut_first sep [] = (if sep = [] then Some ([], []) else None)"
| "cut_first sep (c # cs) =
     (if prefix sep (c # cs) then Some ([], drop (length sep) (c # cs))
      else map_option (\<lambda>(a, b). (c # a, b)) (cut_first sep cs))"

lemma cut_first_Some: "cut_first sep s = Some (a, b) \<Longrightarrow> s = a @ sep @ b"
proof (induction sep s arbitrary: a b rule: cut_first.induct)
  case (1 sep)
  then show ?case by (auto split: if_splits)
next
  case (2 sep c cs)
  then show ?case
    by (auto split: if_splits simp: prefix_def)
qed

function split_str :: "'a list \<Rightarrow> 'a list \<Rightarrow> 'a list list" where
  "split_str sep s =
     (if sep = [] then map (\<lambda>c. [c]) s
      else case cut_first sep s of
             None \<Rightarrow> [s]
           | Some (a, b) \<Rightarrow> a # split_str sep b)"
  by pat_completeness auto
termination
  by (relation "measure (\<lambda>(sep, s). length s)") (auto dest!: cut_first_Some)

declare split_str.simps [simp del]

lemma split_str_None [simp]: "sep \<noteq> [] \<Longrightarrow> cut_first sep s = None \<Longrightarrow> split_str sep s = [s]"
  by (simp add: split_str.simps)

lemma split_str_Some [simp]:
  "sep \<noteq> [] \<Longrightarrow> cut_first sep s = Some (a, b) \<Longrightarrow> split_str sep s = a # split_str sep b"
  by (simp add: split_str.simps)

lemma split_str_not_Nil [simp]: "sep \<noteq> [] \<Longrightarrow> split_str sep s \<noteq> []"
  by (subst split_str.simps) (auto split: option.split)

text \<open>
  A match found in a prefix of the text is the match found in the whole text:
  what makes an incremental splitter agree with a single split at the end.
\<close>

lemma cut_first_append:
  "cut_first sep s = Some (a, b) \<Longrightarrow> cut_first sep (s @ t) = Some (a, b @ t)"
proof (induction sep s arbitrary: a b rule: cut_first.induct)
  case (1 sep)
  then show ?case by (cases t) (auto split: if_splits)
next
  case (2 sep c cs)
  show ?case
  proof (cases "prefix sep (c # cs)")
    case True
    then have "prefix sep (c # cs @ t)"
      using prefix_prefix [of sep "c # cs" t] by simp
    moreover have "length sep \<le> Suc (length cs)"
      using True prefix_length_le by fastforce
    moreover have "drop (length sep) ((c # cs) @ t) = drop (length sep) (c # cs) @ t"
      using calculation(2) by (simp del: append_Cons)
    ultimately show ?thesis
      using "2.prems" True by auto
  next
    case False
    then obtain a' where a': "cut_first sep cs = Some (a', b)" and a: "a = c # a'"
      using "2.prems" by auto
    have ih: "cut_first sep (cs @ t) = Some (a', b @ t)"
      using "2.IH" False a' by simp
    show ?thesis
    proof (cases "prefix sep (c # cs @ t)")
      case True
      obtain u where u: "cs = a' @ sep @ u" using cut_first_Some [OF a'] by blast
      have "length sep \<le> length (c # cs)" using u by simp
      then have "prefix sep (c # cs)"
        using True by (metis append_Cons prefix_length_prefix prefixI)
      with False show ?thesis by simp
    next
      case nt: False
      then show ?thesis using ih a by simp
    qed
  qed
qed

lemma split_str_append:
  assumes "sep \<noteq> []"
  shows "split_str sep (s @ t) =
           butlast (split_str sep s) @ split_str sep (last (split_str sep s) @ t)"
  using assms
proof (induction sep s rule: split_str.induct)
  case (1 sep s)
  show ?case
  proof (cases "cut_first sep s")
    case None
    then show ?thesis using "1.prems" by simp
  next
    case (Some p)
    obtain a b where p: "p = (a, b)" by (cases p)
    have e: "split_str sep s = a # split_str sep b"
      using Some p "1.prems" by simp
    have "split_str sep (s @ t) = a # split_str sep (b @ t)"
      using cut_first_append [of sep s a b t] Some p "1.prems" by simp
    also have "split_str sep (b @ t) =
        butlast (split_str sep b) @ split_str sep (last (split_str sep b) @ t)"
      using "1.IH" Some p "1.prems" by simp
    finally show ?thesis using e "1.prems" by simp
  qed
qed

lemma join_split_str:
  assumes "sep \<noteq> []"
  shows "join sep (split_str sep s) = s"
  using assms
proof (induction sep s rule: split_str.induct)
  case (1 sep s)
  show ?case
  proof (cases "cut_first sep s")
    case None
    then show ?thesis using "1.prems" by simp
  next
    case (Some p)
    obtain a b where p: "p = (a, b)" by (cases p)
    have ne: "split_str sep b \<noteq> []" using "1.prems" by simp
    have "join sep (a # split_str sep b) = a @ sep @ join sep (split_str sep b)"
      using ne by (cases "split_str sep b") auto
    then show ?thesis
      using "1.IH" Some p "1.prems" cut_first_Some [of sep s a b] by simp
  qed
qed

lemma cut_first_char:
  "c \<notin> set s \<Longrightarrow> cut_first [c] (s @ c # t) = Some (s, t)" "c \<notin> set s \<Longrightarrow> cut_first [c] s = None"
  by (induction s) auto

lemma split_join:
  "xs \<noteq> [] \<Longrightarrow> \<forall>x \<in> set xs. c \<notin> set x \<Longrightarrow> split_str [c] (join [c] xs) = xs"
proof (induction xs rule: induct_list012)
  case (3 x y zs)
  then have "cut_first [c] (join [c] (x # y # zs)) = Some (x, join [c] (y # zs))"
    by (simp add: cut_first_char)
  then show ?case using 3 by simp
qed (simp_all add: cut_first_char)

section \<open>Decimal printing\<close>

definition digit :: "nat \<Rightarrow> char" where
  "digit d = char_of (48 + d)"

definition digit_val :: "char \<Rightarrow> nat" where
  "digit_val c = of_char c - 48"

fun show_nat :: "nat \<Rightarrow> string" where
  "show_nat n = (if n < 10 then [digit n] else show_nat (n div 10) @ [digit (n mod 10)])"

declare show_nat.simps [simp del]

definition read_nat :: "string \<Rightarrow> nat" where
  "read_nat s = foldl (\<lambda>n c. 10 * n + digit_val c) 0 s"

definition show_int :: "int \<Rightarrow> string" where
  "show_int i = (if i < 0 then ''-'' @ show_nat (nat (- i)) else show_nat (nat i))"

lemma of_char_digit [simp]: "d < 10 \<Longrightarrow> (of_char (digit d) :: nat) = 48 + d"
  by (simp add: digit_def)

lemma digit_val_digit [simp]: "d < 10 \<Longrightarrow> digit_val (digit d) = d"
  by (simp add: digit_val_def)

lemma is_digit_digit [simp]: "d < 10 \<Longrightarrow> is_digit (digit d)"
  by (simp add: is_digit_def)

lemma show_nat_digits: "c \<in> set (show_nat n) \<Longrightarrow> is_digit c"
proof (induction n rule: show_nat.induct)
  case (1 n)
  then show ?case
    by (cases "n < 10") (auto simp: show_nat.simps [of n])
qed

lemma show_nat_not_Nil [simp]: "show_nat n \<noteq> []"
  by (subst show_nat.simps) simp

lemma read_show_nat [simp]: "read_nat (show_nat n) = n"
proof (induction n rule: show_nat.induct)
  case (1 n)
  then show ?case
    by (cases "n < 10") (auto simp: show_nat.simps [of n] read_nat_def)
qed

lemma show_nat_inject [simp]: "show_nat m = show_nat n \<longleftrightarrow> m = n"
  by (metis read_show_nat)

lemma is_ws_not_digit: "is_ws c \<Longrightarrow> \<not> is_digit c"
  by (auto simp: is_ws_def is_digit_def)

lemma show_nat_no_ws: "c \<in> set (show_nat n) \<Longrightarrow> \<not> is_ws c"
  using show_nat_digits is_ws_not_digit by blast

lemma trim_idem: "trim (trim s) = trim s"
proof -
  have "\<not> is_ws (hd (dropWhile is_ws t))" if "dropWhile is_ws t \<noteq> []" for t using that hd_dropWhile by blast
  show ?thesis
  proof (cases "trim s = []")
    case True
    show ?thesis unfolding True by (simp add: trim_def trim_start_def)
  next
    case False
    let ?u = "dropWhile is_ws s"
    have r: "trim s = rev (dropWhile is_ws (rev ?u))" by (simp add: trim_def trim_start_def)
    obtain w where w: "rev ?u = w @ dropWhile is_ws (rev ?u)" by (metis takeWhile_dropWhile_id)
    then have "?u = trim s @ rev w" by (metis r rev_append rev_rev_ident)
    then have h: "hd (trim s) = hd ?u" "?u \<noteq> []" using False by (metis hd_append2, auto)
    then have a: "\<not> is_ws (hd (trim s))" using hd_dropWhile by metis
    have "dropWhile is_ws (rev ?u) \<noteq> []" using False r by auto
    then have b: "\<not> is_ws (hd (rev (trim s)))" using hd_dropWhile by (metis r rev_rev_ident)
    have c: "dropWhile is_ws (trim s) = trim s" using a False by (cases "trim s") auto
    have "dropWhile is_ws (rev (trim s)) = rev (trim s)" using b False by (cases "rev (trim s)") auto
    then show ?thesis using c by (simp add: trim_def trim_start_def)
  qed
qed

section \<open>Generic lemmas on lists\<close>

lemma map_of_filter_neq: "j \<noteq> k \<Longrightarrow> map_of (filter (\<lambda>p. fst p \<noteq> k) al) j = map_of al j"
  by (induction al) auto

lemma map_of_filter_eq [simp]: "map_of (filter (\<lambda>p. fst p \<noteq> k) al) k = None"
  by (induction al) auto

lemma sum_list_concat: "sum_list (concat xss) = (\<Sum>xs\<leftarrow>xss. sum_list (xs :: nat list))"
  by (induction xss) auto

text \<open>\<open>findIndex\<close>.\<close>

fun find_index :: "('a \<Rightarrow> bool) \<Rightarrow> 'a list \<Rightarrow> nat option" where
  "find_index P [] = None"
| "find_index P (x # xs) = (if P x then Some 0 else map_option Suc (find_index P xs))"

text \<open>Writing a key of an insertion-ordered record: an existing key keeps its place.\<close>

fun al_set :: "'k \<Rightarrow> 'v \<Rightarrow> ('k \<times> 'v) list \<Rightarrow> ('k \<times> 'v) list" where
  "al_set k v [] = [(k, v)]"
| "al_set k v ((a, b) # al) = (if a = k then (a, v) # al else (a, b) # al_set k v al)"

definition al_del :: "'k \<Rightarrow> ('k \<times> 'v) list \<Rightarrow> ('k \<times> 'v) list" where
  "al_del k al = filter (\<lambda>p. fst p \<noteq> k) al"

lemma map_of_al_set [simp]: "map_of (al_set k v al) = (map_of al)(k \<mapsto> v)"
  by (induction k v al rule: al_set.induct) auto

lemma map_of_al_del [simp]: "map_of (al_del k al) = (map_of al)(k := None)"
  by (rule ext) (simp add: al_del_def map_of_filter_neq)

lemma fst_al_set: "fst ` set (al_set k v al) = insert k (fst ` set al)"
  by (induction k v al rule: al_set.induct) auto

lemma distinct_al_set: "distinct (map fst al) \<Longrightarrow> distinct (map fst (al_set k v al))"
  by (induction k v al rule: al_set.induct) (auto simp add: fst_al_set)

section \<open>Sources of fresh identifiers\<close>

text \<open>
  The contract every identifier counter of the program offers to the code that
  numbers elements with it: an identifier handed out has not been handed out
  before.  \<open>issued\<close> is the abstraction: the identifiers a state has used up.
\<close>

fun draw :: "('s \<Rightarrow> 'i \<times> 's) \<Rightarrow> nat \<Rightarrow> 's \<Rightarrow> 'i list \<times> 's" where
  "draw nxt 0 s = ([], s)"
| "draw nxt (Suc n) s =
     (let (i, s1) = nxt s; (is, s2) = draw nxt n s1 in (i # is, s2))"

locale fresh_source =
  fixes nxt :: "'s \<Rightarrow> 'i \<times> 's"
    and issued :: "'s \<Rightarrow> 'i set"
    and ok :: "'s \<Rightarrow> bool"
  assumes fresh: "ok s \<Longrightarrow> nxt s = (i, t) \<Longrightarrow> i \<notin> issued s"
    and issues: "ok s \<Longrightarrow> nxt s = (i, t) \<Longrightarrow> issued t = insert i (issued s)"
    and keeps: "ok s \<Longrightarrow> nxt s = (i, t) \<Longrightarrow> ok t"
begin

lemma draw_ok: "ok s \<Longrightarrow> draw nxt n s = (is, t) \<Longrightarrow> ok t \<and> issued t = issued s \<union> set is"
proof (induction n arbitrary: s "is" t)
  case 0
  then show ?case by simp
next
  case (Suc n)
  obtain i s1 where n1: "nxt s = (i, s1)" by fastforce
  obtain js s2 where d: "draw nxt n s1 = (js, s2)" by fastforce
  have e: "is = i # js" "t = s2" using Suc.prems(2) n1 d by simp_all
  have "ok s2 \<and> issued s2 = issued s1 \<union> set js"
    by (rule Suc.IH [OF keeps [OF Suc.prems(1) n1] d])
  then show ?case by (simp add: e issues [OF Suc.prems(1) n1])
qed

lemma draw_distinct:
  "ok s \<Longrightarrow> draw nxt n s = (is, t) \<Longrightarrow> distinct is \<and> set is \<inter> issued s = {}"
proof (induction n arbitrary: s "is" t)
  case 0
  then show ?case by simp
next
  case (Suc n)
  obtain i s1 where n1: "nxt s = (i, s1)" by fastforce
  obtain js s2 where d: "draw nxt n s1 = (js, s2)" by fastforce
  have e: "is = i # js" using Suc.prems(2) n1 d by simp
  have "distinct js \<and> set js \<inter> issued s1 = {}"
    by (rule Suc.IH [OF keeps [OF Suc.prems(1) n1] d])
  then show ?case
    unfolding e issues [OF Suc.prems(1) n1] using fresh [OF Suc.prems(1) n1] by auto
qed

lemma draw_length: "draw nxt n s = (is, t) \<Longrightarrow> length is = n"
proof (induction n arbitrary: s "is" t)
  case 0
  then show ?case by simp
next
  case (Suc n)
  obtain i s1 where n1: "nxt s = (i, s1)" by fastforce
  obtain js s2 where d: "draw nxt n s1 = (js, s2)" by fastforce
  show ?case using Suc.IH [OF d] Suc.prems n1 d by auto
qed

end

end
