(* ===== verification/Js_Value.thy ===== *)
theory Js_Value
  imports Prelude
begin

text \<open>
  The dynamic values the sources pass around as \<open>any\<close> (commands, requests,
  responses, parsed JSON), with the operators the code applies to them:
  truthiness, \<open>||\<close>, \<open>??\<close>, \<open>===\<close> against a literal and property
  access, which throws a \<open>TypeError\<close> on \<open>null\<close> and \<open>undefined\<close>.
  Numbers are rationals: rounding of doubles, NaN and the infinities are not
  modelled.  A thrown error is its message.
\<close>

datatype jv =
    JUndef
  | JNull
  | JBool bool
  | JNum rat
  | JStr string
  | JArr "jv list"
  | JObj "(string \<times> jv) list"

type_synonym exn = string

fun truthy :: "jv \<Rightarrow> bool" where
  "truthy JUndef = False"
| "truthy JNull = False"
| "truthy (JBool b) = b"
| "truthy (JNum q) = (q \<noteq> 0)"
| "truthy (JStr s) = (s \<noteq> [])"
| "truthy (JArr xs) = True"
| "truthy (JObj fs) = True"

definition js_or :: "jv \<Rightarrow> jv \<Rightarrow> jv" where
  "js_or a b = (if truthy a then a else b)"

fun nullish :: "jv \<Rightarrow> bool" where
  "nullish JUndef = True"
| "nullish JNull = True"
| "nullish _ = False"

definition js_nullor :: "jv \<Rightarrow> jv \<Rightarrow> jv" where
  "js_nullor a b = (if nullish a then b else a)"

text \<open>The value of a property that exists, \<open>undefined\<close> when it is missing.\<close>

fun fld :: "jv \<Rightarrow> string \<Rightarrow> jv" where
  "fld (JObj fs) k = (case map_of fs k of Some v \<Rightarrow> v | None \<Rightarrow> JUndef)"
| "fld (JArr xs) k = (if k = ''length'' then JNum (of_nat (length xs)) else JUndef)"
| "fld (JStr s) k = (if k = ''length'' then JNum (of_nat (length s)) else JUndef)"
| "fld _ k = JUndef"

definition type_error :: "jv \<Rightarrow> string \<Rightarrow> exn" where
  "type_error v k =
     ''Cannot read properties of '' @ (if v = JNull then ''null'' else ''undefined'')
     @ '' (reading '' @ [CHR 0x27] @ k @ [CHR 0x27] @ '')''"

text \<open>\<open>o.k\<close> and \<open>o?.k\<close>.\<close>

definition get_prop :: "jv \<Rightarrow> string \<Rightarrow> exn + jv" where
  "get_prop v k = (if nullish v then Inl (type_error v k) else Inr (fld v k))"

definition opt_prop :: "jv \<Rightarrow> string \<Rightarrow> jv" where
  "opt_prop v k = (if nullish v then JUndef else fld v k)"

text \<open>Object spread \<open>{...base, ...v}\<close>: later fields overwrite, in place.\<close>

fun obj_fields :: "jv \<Rightarrow> (string \<times> jv) list" where
  "obj_fields (JObj fs) = fs"
| "obj_fields (JArr xs) = zip (map show_nat [0..<length xs]) xs"
| "obj_fields (JStr s) = zip (map show_nat [0..<length s]) (map (\<lambda>c. JStr [c]) s)"
| "obj_fields _ = []"

definition spread :: "(string \<times> jv) list \<Rightarrow> jv \<Rightarrow> (string \<times> jv) list" where
  "spread base v = foldl (\<lambda>al (k, x). al_set k x al) base (obj_fields v)"

text \<open>A default in a destructuring or a parameter list: only for \<open>undefined\<close>.\<close>

definition with_default :: "jv \<Rightarrow> jv \<Rightarrow> jv" where
  "with_default v d = (if v = JUndef then d else v)"

text \<open>Arithmetic is modelled on numbers; other operands count as 0.\<close>

definition js_num :: "jv \<Rightarrow> rat" where
  "js_num v = (case v of JNum q \<Rightarrow> q | _ \<Rightarrow> 0)"

text \<open>\<open>v[k]\<close> for an array.\<close>

definition js_index :: "jv \<Rightarrow> nat \<Rightarrow> exn + jv" where
  "js_index v k =
     (case v of
        JArr xs \<Rightarrow> Inr (if k < length xs then xs ! k else JUndef)
      | _ \<Rightarrow> if nullish v then Inl (type_error v (show_nat k)) else Inr JUndef)"

fun js_to_string :: "(rat \<Rightarrow> string) \<Rightarrow> jv \<Rightarrow> string" where
  "js_to_string num (JStr s) = s"
| "js_to_string num (JNum q) = num q"
| "js_to_string num (JBool b) = (if b then ''true'' else ''false'')"
| "js_to_string num JUndef = ''undefined''"
| "js_to_string num JNull = ''null''"
| "js_to_string num (JArr xs) = join '','' (map (\<lambda>x. if nullish x then [] else js_to_string num x) xs)"
| "js_to_string num (JObj fs) = ''[object Object]''"

fun is_obj :: "jv \<Rightarrow> bool" where
  "is_obj (JObj _) = True"
| "is_obj _ = False"

fun the_str :: "jv \<Rightarrow> string option" where
  "the_str (JStr s) = Some s"
| "the_str _ = None"

lemma truthy_js_or: "truthy (js_or a b) \<longleftrightarrow> truthy a \<or> truthy b"
  by (simp add: js_or_def)

lemma js_or_truthy [simp]: "truthy a \<Longrightarrow> js_or a b = a"
  by (simp add: js_or_def)

lemma js_or_falsy [simp]: "\<not> truthy a \<Longrightarrow> js_or a b = b"
  by (simp add: js_or_def)

lemma get_prop_obj [simp]: "get_prop (JObj fs) k = Inr (fld (JObj fs) k)"
  by (simp add: get_prop_def)

lemma get_prop_not_nullish: "\<not> nullish v \<Longrightarrow> get_prop v k = Inr (fld v k)"
  by (simp add: get_prop_def)

lemma map_of_spread:
  "map_of (spread base v) k =
     (case map_of (rev (obj_fields v)) k of Some x \<Rightarrow> Some x | None \<Rightarrow> map_of base k)"
proof -
  have "map_of (foldl (\<lambda>al (k, x). al_set k x al) base fs) k =
     (case map_of (rev fs) k of Some x \<Rightarrow> Some x | None \<Rightarrow> map_of base k)" for fs
    by (induction fs arbitrary: base) (auto split: option.splits simp: map_add_def)
  then show ?thesis by (simp add: spread_def)
qed

text \<open>Sequencing of computations that may throw, and \<open>Math.round\<close>.\<close>

definition try_bind :: "exn + 'a \<Rightarrow> ('a \<Rightarrow> exn + 'b) \<Rightarrow> exn + 'b" where
  "try_bind m f = (case m of Inl e \<Rightarrow> Inl e | Inr x \<Rightarrow> f x)"

lemma try_bind_simps [simp]:
  "try_bind (Inl e) f = Inl e" "try_bind (Inr x) f = f x"
  by (simp_all add: try_bind_def)

definition js_round :: "rat \<Rightarrow> int" where
  "js_round q = \<lfloor>q + 1 / 2\<rfloor>"

lemma js_round_close: "\<bar>of_int (js_round q) - q\<bar> \<le> 1 / 2"
  unfolding js_round_def abs_le_iff
  using of_int_floor_le [of "q + 1 / 2"] floor_correct [of "q + 1 / 2"] by linarith

lemma js_round_mono: "p \<le> q \<Longrightarrow> js_round p \<le> js_round q"
  by (simp add: js_round_def floor_mono)

text \<open>\<open>{...v, updates}\<close>.\<close>

definition obj_with :: "jv \<Rightarrow> (string \<times> jv) list \<Rightarrow> jv" where
  "obj_with v us = JObj (spread (obj_fields v) (JObj us))"

fun try_map :: "('a \<Rightarrow> exn + 'b) \<Rightarrow> 'a list \<Rightarrow> exn + 'b list" where
  "try_map f [] = Inr []"
| "try_map f (x # xs) = try_bind (f x) (\<lambda>y. try_bind (try_map f xs) (\<lambda>ys. Inr (y # ys)))"

fun try_filter :: "('a \<Rightarrow> exn + bool) \<Rightarrow> 'a list \<Rightarrow> exn + 'a list" where
  "try_filter p [] = Inr []"
| "try_filter p (x # xs) =
     try_bind (p x) (\<lambda>b. try_bind (try_filter p xs) (\<lambda>ys. Inr (if b then x # ys else ys)))"

lemma al_set_same [simp]: "al_set k v (al_set k v al) = al_set k v al"
  by (induction k v al rule: al_set.induct) auto

lemma obj_with_one: "obj_with v [(k, x)] = JObj (al_set k x (obj_fields v))"
  by (simp add: obj_with_def spread_def)

lemma fld_obj_with [simp]: "fld (obj_with (JObj fs) [(k, x)]) j = (if j = k then x else fld (JObj fs) j)"
  by (simp add: obj_with_one)

lemma try_map_Inr: "try_map f xs = Inr ys \<longleftrightarrow> list_all2 (\<lambda>x y. f x = Inr y) xs ys"
proof (induction xs arbitrary: ys)
  case (Cons x xs)
  then show ?case
    by (cases "f x"; cases "try_map f xs") (auto simp: list_all2_Cons1)
qed auto

lemma try_map_fix: "try_map f ys = Inr ys \<longleftrightarrow> (\<forall>y \<in> set ys. f y = Inr y)"
  by (simp add: try_map_Inr list.rel_eq list_all2_same)

lemma try_map_idem:
  assumes "try_map f xs = Inr ys" "\<And>x y. x \<in> set xs \<Longrightarrow> f x = Inr y \<Longrightarrow> f y = Inr y"
  shows "try_map f ys = Inr ys"
proof -
  have "list_all2 (\<lambda>x y. f x = Inr y) xs ys" using assms(1) by (simp add: try_map_Inr)
  then have "\<forall>y \<in> set ys. \<exists>x \<in> set xs. f x = Inr y"
    by (induction rule: list_all2_induct) auto
  then have "\<forall>y \<in> set ys. f y = Inr y" using assms(2) by blast
  then show ?thesis by (simp add: try_map_fix)
qed

end
