(* ===== verification/Dom.thy ===== *)
theory Dom
  imports Js_Value
begin

text \<open>
  The document the browser scripts walk: a tree of nodes with shadow roots and
  frame documents, the attribute store the scripts mutate, and the tree queries
  they use (\<open>querySelectorAll\<close>, \<open>parentElement\<close>, \<open>contains\<close>,
  \<open>children\<close>).  A node is identified by a number, as the scripts compare
  nodes by object identity.  Attributes live in a store indexed by node, because
  every script reads attributes another pass has written.
\<close>

datatype dnode =
    Elem (nid: nat) (tag: string) (kids: "dnode list")
         (shadow: "dnode list option") (frame: "dnode list option")
  | Text (nid: nat) (text_of: string)
  | Other (nid: nat)

type_synonym attrs = "nat \<Rightarrow> (string \<times> string) list"

section \<open>Attributes\<close>

definition get_attr :: "attrs \<Rightarrow> nat \<Rightarrow> string \<Rightarrow> string option" where
  "get_attr A i k = map_of (A i) k"

definition has_attr :: "attrs \<Rightarrow> nat \<Rightarrow> string \<Rightarrow> bool" where
  "has_attr A i k \<longleftrightarrow> get_attr A i k \<noteq> None"

definition set_attr :: "attrs \<Rightarrow> nat \<Rightarrow> string \<Rightarrow> string \<Rightarrow> attrs" where
  "set_attr A i k v = A(i := al_set k v (A i))"

definition remove_attr :: "attrs \<Rightarrow> nat \<Rightarrow> string \<Rightarrow> attrs" where
  "remove_attr A i k = A(i := al_del k (A i))"

lemma get_set_attr [simp]:
  "get_attr (set_attr A i k v) j l = (if j = i \<and> l = k then Some v else get_attr A j l)"
  by (auto simp: get_attr_def set_attr_def)

lemma get_remove_attr [simp]:
  "get_attr (remove_attr A i k) j l = (if j = i \<and> l = k then None else get_attr A j l)"
  by (auto simp: get_attr_def remove_attr_def)

lemma has_set_attr [simp]:
  "has_attr (set_attr A i k v) j l \<longleftrightarrow> (j = i \<and> l = k) \<or> has_attr A j l"
  by (auto simp: has_attr_def)

lemma has_remove_attr [simp]:
  "has_attr (remove_attr A i k) j l \<longleftrightarrow> \<not> (j = i \<and> l = k) \<and> has_attr A j l"
  by (simp add: has_attr_def)

section \<open>Rectangles\<close>

text \<open>A \<open>DOMRect\<close>: position and extent, in rational pixels.\<close>

record rect =
  rleft :: rat
  rtop :: rat
  rwidth :: rat
  rheight :: rat

definition rright :: "rect \<Rightarrow> rat" where "rright r = rleft r + rwidth r"
definition rbottom :: "rect \<Rightarrow> rat" where "rbottom r = rtop r + rheight r"

section \<open>Tree queries\<close>

fun is_elem :: "dnode \<Rightarrow> bool" where
  "is_elem (Elem _ _ _ _ _) = True"
| "is_elem _ = False"

abbreviation lname :: "dnode \<Rightarrow> string" where
  "lname e \<equiv> to_lower (tag e)"

definition shadow_kids :: "dnode \<Rightarrow> dnode list" where
  "shadow_kids e = (case shadow e of None \<Rightarrow> [] | Some ss \<Rightarrow> ss)"

text \<open>\<open>querySelectorAll("*")\<close>: the elements in document order, shadow trees left out.\<close>

fun qsa :: "dnode \<Rightarrow> dnode list" where
  "qsa (Elem i t ks sh fr) = Elem i t ks sh fr # concat (map qsa ks)"
| "qsa (Text _ _) = []"
| "qsa (Other _) = []"

abbreviation qsa_all :: "dnode list \<Rightarrow> dnode list" where
  "qsa_all ns \<equiv> concat (map qsa ns)"

text \<open>All elements of the document, the shadow tree of an element right after it.\<close>

fun composed :: "dnode \<Rightarrow> dnode list" where
  "composed (Elem i t ks None fr) = Elem i t ks None fr # concat (map composed ks)"
| "composed (Elem i t ks (Some ss) fr) =
     Elem i t ks (Some ss) fr # concat (map composed ss) @ concat (map composed ks)"
| "composed (Text _ _) = []"
| "composed (Other _) = []"

abbreviation composed_all :: "dnode list \<Rightarrow> dnode list" where
  "composed_all ns \<equiv> concat (map composed ns)"

definition find_el :: "dnode list \<Rightarrow> nat \<Rightarrow> dnode option" where
  "find_el roots i = find (\<lambda>e. nid e = i) (composed_all roots)"

text \<open>
  The ancestor elements of a node, nearest first: what following
  \<open>parentElement\<close> visits.  The chain ends at a shadow root and at the document.
\<close>

fun anc :: "nat \<Rightarrow> nat list \<Rightarrow> dnode \<Rightarrow> nat list option"
  and anc_list :: "nat \<Rightarrow> nat list \<Rightarrow> dnode list \<Rightarrow> nat list option" where
  "anc i up (Elem j t ks None fr) = (if i = j then Some up else anc_list i (j # up) ks)"
| "anc i up (Elem j t ks (Some ss) fr) =
     (if i = j then Some up
      else case anc_list i [] ss of Some r \<Rightarrow> Some r | None \<Rightarrow> anc_list i (j # up) ks)"
| "anc i up (Text j s) = (if i = j then Some up else None)"
| "anc i up (Other j) = (if i = j then Some up else None)"
| "anc_list i up [] = None"
| "anc_list i up (n # ns) = (case anc i up n of Some r \<Rightarrow> Some r | None \<Rightarrow> anc_list i up ns)"

definition ancestors :: "dnode list \<Rightarrow> nat \<Rightarrow> nat list" where
  "ancestors roots i = (case anc_list i [] roots of Some r \<Rightarrow> r | None \<Rightarrow> [])"

definition parent_el :: "dnode list \<Rightarrow> nat \<Rightarrow> nat option" where
  "parent_el roots i = (case ancestors roots i of [] \<Rightarrow> None | p # _ \<Rightarrow> Some p)"

text \<open>\<open>a.contains(b)\<close>.\<close>

definition contains_el :: "dnode list \<Rightarrow> nat \<Rightarrow> nat \<Rightarrow> bool" where
  "contains_el roots a b \<longleftrightarrow> a = b \<or> a \<in> set (ancestors roots b)"

definition el_children :: "dnode list \<Rightarrow> nat \<Rightarrow> dnode list" where
  "el_children roots i = (case find_el roots i of None \<Rightarrow> [] | Some e \<Rightarrow> filter is_elem (kids e))"

definition shadow_hosts :: "dnode list \<Rightarrow> nat list" where
  "shadow_hosts roots = map nid (filter (\<lambda>e. shadow e \<noteq> None) (composed_all roots))"

section \<open>Sizes, for the worklist loops\<close>

definition own_weight :: "dnode \<Rightarrow> nat" where
  "own_weight e = Suc (length (composed_all (shadow_kids e)))"

lemma own_weight_Elem:
  "own_weight (Elem i t ks sh fr) = Suc (length (composed_all (case sh of None \<Rightarrow> [] | Some ss \<Rightarrow> ss)))"
  by (simp add: own_weight_def shadow_kids_def)

lemma sum_own_weight_qsa: "sum_list (map own_weight (qsa n)) = length (composed n)"
proof (induction n rule: qsa.induct)
  case (1 i t ks sh fr)
  have "sum_list (map own_weight (qsa_all ks)) = length (composed_all ks)"
    using 1 by (induction ks) auto
  then show ?case
    by (cases sh) (simp_all add: own_weight_Elem)
qed simp_all

lemma sum_own_weight_qsa_all:
  "sum_list (map own_weight (qsa_all ns)) = length (composed_all ns)"
  by (induction ns) (auto simp: sum_own_weight_qsa)

text \<open>
  The scripts expand a worklist: an element is processed and the elements of its
  shadow tree are spliced in right behind it.
\<close>

function expand :: "dnode list \<Rightarrow> dnode list" where
  "expand [] = []"
| "expand (e # es) = e # expand (qsa_all (shadow_kids e) @ es)"
  by pat_completeness auto
termination
  by (relation "measure (\<lambda>es. sum_list (map own_weight es))")
     (simp_all add: sum_own_weight_qsa_all own_weight_def)

lemma expand_append: "expand (xs @ ys) = expand xs @ expand ys"
proof (induction xs rule: expand.induct)
  case 1
  then show ?case by simp
next
  case (2 e es)
  then show ?case by simp
qed

text \<open>Every element of the document is visited exactly once, in composed order.\<close>

lemma expand_qsa: "expand (qsa n) = composed n"
proof (induction n rule: composed.induct)
  case (1 i t ks fr)
  have "expand (qsa_all ks) = composed_all ks"
    using 1 by (induction ks) (auto simp: expand_append)
  then show ?case by (simp add: shadow_kids_def)
next
  case (2 i t ks ss fr)
  have "expand (qsa_all ks) = composed_all ks"
    using 2(2) by (induction ks) (auto simp: expand_append)
  moreover have "expand (qsa_all ss) = composed_all ss"
    using 2(1) by (induction ss) (auto simp: expand_append)
  ultimately show ?case by (simp add: shadow_kids_def expand_append)
qed simp_all

lemma expand_qsa_all: "expand (qsa_all ns) = composed_all ns"
  by (induction ns) (auto simp: expand_append expand_qsa)

lemma composed_is_elem: "e \<in> set (composed n) \<Longrightarrow> is_elem e"
  by (induction n rule: composed.induct) auto

lemma qsa_is_elem: "e \<in> set (qsa n) \<Longrightarrow> is_elem e"
  by (induction n rule: qsa.induct) auto

end
