(* ===== verification/Frame_Bids.thy ===== *)
theory Frame_Bids
  imports Dom
begin

text \<open>
  The BrowserGym frame marker (\<open>frame_mark_elements.js\<close> and
  \<open>frame_unmark_elements.js\<close>): numbering of the elements of a frame, the ARIA
  attributes that carry the numbers, the set-of-marks flags and the polling loop
  that waits for the intersection observer.  Attributes written before an error
  is thrown stay written, so a step returns its error together with the state.
\<close>

section \<open>The frame identifier generator\<close>

definition gen_chars :: string where "gen_chars = ''abcdefghijklmnopqrstuvwxyz''"

text \<open>\<open>next()\<close>: least significant position first in \<open>_nextId\<close>, joined in reverse.\<close>

definition gen_string :: "nat list \<Rightarrow> string" where
  "gen_string ds =
     rev (map (\<lambda>i. let c = gen_chars ! (ds ! i)
                   in if i < length ds - 1 then upper_char c else c) [0..<length ds])"

fun gen_increment :: "nat list \<Rightarrow> nat list" where
  "gen_increment [] = [0]"
| "gen_increment (d # ds) =
     (if Suc d < length gen_chars then Suc d # ds else 0 # gen_increment ds)"

definition gen_next :: "nat list \<Rightarrow> string \<times> nat list" where
  "gen_next ds = (gen_string ds, gen_increment ds)"

definition gen_ok :: "nat list \<Rightarrow> bool" where
  "gen_ok ds \<longleftrightarrow> ds \<noteq> [] \<and> (\<forall>d \<in> set ds. d < 26)"

fun gen_val :: "nat list \<Rightarrow> nat" where
  "gen_val [] = 0"
| "gen_val (d # ds) = Suc d + 26 * gen_val ds"

lemma length_gen_chars [simp]: "length gen_chars = 26"
  by (simp add: gen_chars_def)

lemma gen_val_increment [simp]:
  "\<forall>d \<in> set ds. d < 26 \<Longrightarrow> gen_val (gen_increment ds) = Suc (gen_val ds)"
  by (induction ds) auto

lemma gen_ok_increment [simp]: "gen_ok ds \<Longrightarrow> gen_ok (gen_increment ds)"
proof -
  have "\<forall>d \<in> set ds. d < 26 \<Longrightarrow> (\<forall>d \<in> set (gen_increment ds). d < 26) \<and> gen_increment ds \<noteq> []" for ds
    by (induction ds) auto
  then show "gen_ok ds \<Longrightarrow> gen_ok (gen_increment ds)" unfolding gen_ok_def by blast
qed

lemma gen_val_inj:
  "\<forall>d \<in> set xs. d < 26 \<Longrightarrow> \<forall>d \<in> set ys. d < 26 \<Longrightarrow> gen_val xs = gen_val ys \<Longrightarrow> xs = ys"
proof (induction xs arbitrary: ys)
  case Nil
  then show ?case by (cases ys) auto
next
  case (Cons x xs)
  obtain y ys' where ys: "ys = y # ys'" using Cons.prems by (cases ys) auto
  have b: "x < 26" "y < 26" using Cons.prems ys by auto
  have e: "x + 26 * gen_val xs = y + 26 * gen_val ys'" using Cons.prems ys by simp
  have "(x + 26 * gen_val xs) mod 26 = (y + 26 * gen_val ys') mod 26" by (simp only: e)
  then have xy: "x = y" using b by simp
  have "xs = ys'"
    by (rule Cons.IH) (use Cons.prems ys e xy in simp_all)
  then show ?case using xy ys by simp
qed

lemma gen_char_code:
  assumes "d < 26" shows "(of_char (gen_chars ! d) :: nat) = 97 + d"
proof -
  have "map (of_char :: char \<Rightarrow> nat) gen_chars = [97..<123]"
    by code_simp
  then have "map (of_char :: char \<Rightarrow> nat) gen_chars ! d = 97 + d"
    using assms by (simp del: upt_rec_numeral)
  with assms show ?thesis by (simp del: upt_rec_numeral)
qed

lemma lower_upper_gen:
  assumes "d < 26"
  shows "lower_char (upper_char (gen_chars ! d)) = gen_chars ! d"
    and "lower_char (gen_chars ! d) = gen_chars ! d"
proof -
  have c: "(of_char (gen_chars ! d) :: nat) = 97 + d" by (rule gen_char_code [OF assms])
  have u: "(of_char (upper_char (gen_chars ! d)) :: nat) = 65 + d"
    using assms by (simp add: upper_char_def c)
  show "lower_char (upper_char (gen_chars ! d)) = gen_chars ! d"
    unfolding lower_char_def u using assms by (simp flip: c)
  show "lower_char (gen_chars ! d) = gen_chars ! d"
    by (simp add: lower_char_def c)
qed

lemma gen_string_lower:
  "gen_ok ds \<Longrightarrow> map lower_char (rev (gen_string ds)) = map (\<lambda>d. gen_chars ! d) ds"
  by (rule nth_equalityI)
     (auto simp: gen_string_def gen_ok_def Let_def lower_upper_gen)

lemma gen_string_inj:
  assumes "gen_ok xs" "gen_ok ys" "gen_string xs = gen_string ys"
  shows "xs = ys"
proof -
  have inj: "inj_on (\<lambda>d. gen_chars ! d) {..<26}"
    by (rule inj_onI) (metis gen_char_code lessThan_iff add_left_cancel)
  have "map (\<lambda>d. gen_chars ! d) xs = map (\<lambda>d. gen_chars ! d) ys"
    using assms gen_string_lower by metis
  then show ?thesis
    using assms(1,2) inj map_inj_on [of "\<lambda>d. gen_chars ! d" xs ys]
    by (auto simp: gen_ok_def intro: inj_on_subset)
qed

lemma gen_string_not_digit:
  assumes "gen_ok ds" shows "\<exists>c. c \<in> set (gen_string ds) \<and> \<not> is_digit c"
proof -
  let ?n = "length ds - 1"
  have n: "?n < length ds" "ds ! ?n < 26"
    using assms by (auto simp: gen_ok_def)
  have "gen_chars ! (ds ! ?n) \<in> set (gen_string ds)"
    using n by (auto simp: gen_string_def Let_def image_iff intro!: bexI [of _ ?n])
  moreover have "\<not> is_digit (gen_chars ! (ds ! ?n))"
    using gen_char_code [OF n(2)] by (simp add: is_digit_def)
  ultimately show ?thesis by blast
qed

lemma gen_string_neq_show_nat: "gen_ok ds \<Longrightarrow> gen_string ds \<noteq> show_nat k"
  using gen_string_not_digit show_nat_digits by metis

text \<open>The identifiers a generator state has used up: the predecessors of the state.\<close>

definition gen_issued :: "nat list \<Rightarrow> string set" where
  "gen_issued ds = {gen_string t | t. gen_ok t \<and> gen_val t < gen_val ds}"

lemma gen_issued_step:
  assumes "gen_ok ds"
  shows "gen_issued (gen_increment ds) = insert (gen_string ds) (gen_issued ds)"
proof -
  have "gen_ok t \<and> gen_val t < Suc (gen_val ds) \<longleftrightarrow>
        t = ds \<or> (gen_ok t \<and> gen_val t < gen_val ds)" for t
    using assms gen_val_inj [of t ds] by (auto simp: gen_ok_def less_Suc_eq)
  then show ?thesis
    using assms unfolding gen_issued_def gen_ok_def [of ds] by (auto simp: gen_ok_def)
qed

lemma gen_string_fresh: "gen_ok ds \<Longrightarrow> gen_string ds \<notin> gen_issued ds"
  using gen_string_inj by (force simp: gen_issued_def)

interpretation frame_ids: fresh_source gen_next gen_issued gen_ok
  by unfold_locales
     (auto simp: gen_next_def gen_string_fresh gen_issued_step)

section \<open>The frame's state and environment\<close>

text \<open>
  What the layout and scripting engines answer for a node of the frame:
  \<open>value\<close> and \<open>checked\<close> (\<^const>\<open>None\<close> where the property is undefined),
  whether \<open>onclick\<close> is set, the computed cursor, the bounding rectangle,
  \<open>outerHTML\<close>, and \<open>elementFromPoint\<close> of the document (\<^const>\<open>None\<close>)
  or of the shadow root of a host.
\<close>

record frame_env =
  fe_value :: "nat \<Rightarrow> string option"
  fe_checked :: "nat \<Rightarrow> bool option"
  fe_onclick :: "nat \<Rightarrow> bool"
  fe_cursor :: "nat \<Rightarrow> string"
  fe_rect :: "nat \<Rightarrow> rect"
  fe_outer :: "nat \<Rightarrow> string"
  fe_hit :: "nat option \<Rightarrow> rat \<Rightarrow> rat \<Rightarrow> nat option"

text \<open>The persistent part: attributes and the two counters kept on \<open>window\<close>.\<close>

record frame_win =
  fw_attrs :: attrs
  fw_counter :: "nat option"
  fw_gen :: "nat list"

text \<open>The locals of one marking pass, beside the attributes and counters.\<close>

record mark_state =
  ms_attrs :: attrs
  ms_counter :: nat
  ms_gen :: "nat list"
  ms_bids :: "string list"
  ms_som :: "nat list"
  ms_pending :: "nat list"

datatype mark_stop = Throw string | Hang

datatype capture = Nobody | SelfC | ChildC | NonDescendant

definition html_tags :: "string list" where
  "html_tags = [
    ''a'', ''abbr'', ''acronym'', ''address'', ''applet'', ''area'', ''article'', ''aside'', ''audio'',
    ''b'', ''base'', ''basefont'', ''bdi'', ''bdo'', ''big'', ''blockquote'', ''body'', ''br'', ''button'',
    ''canvas'', ''caption'', ''center'', ''cite'', ''code'', ''col'', ''colgroup'', ''data'', ''datalist'',
    ''dd'', ''del'', ''details'', ''dfn'', ''dialog'', ''dir'', ''div'', ''dl'', ''dt'', ''em'', ''embed'',
    ''fieldset'', ''figcaption'', ''figure'', ''font'', ''footer'', ''form'', ''frame'', ''frameset'',
    ''h1'', ''h2'', ''h3'', ''h4'', ''h5'', ''h6'', ''head'', ''header'', ''hgroup'', ''hr'', ''html'', ''i'',
    ''iframe'', ''img'', ''input'', ''ins'', ''kbd'', ''label'', ''legend'', ''li'', ''link'', ''main'',
    ''map'', ''mark'', ''menu'', ''meta'', ''meter'', ''nav'', ''noframes'', ''noscript'', ''object'',
    ''ol'', ''optgroup'', ''option'', ''output'', ''p'', ''param'', ''picture'', ''pre'', ''progress'',
    ''q'', ''rp'', ''rt'', ''ruby'', ''s'', ''samp'', ''script'', ''search'', ''section'', ''select'',
    ''small'', ''source'', ''span'', ''strike'', ''strong'', ''style'', ''sub'', ''summary'', ''sup'',
    ''svg'', ''table'', ''tbody'', ''td'', ''template'', ''textarea'', ''tfoot'', ''th'', ''thead'',
    ''time'', ''title'', ''tr'', ''track'', ''tt'', ''u'', ''ul'', ''var'', ''video'', ''wbr'']"

definition set_of_marks_tags :: "string list" where
  "set_of_marks_tags =
     [''input'', ''textarea'', ''select'', ''button'', ''a'', ''iframe'', ''video'', ''li'', ''td'', ''option'']"

section \<open>Which element is in the foreground\<close>

text \<open>
  \<open>elementFromPoint\<close> descends through shadow roots until the answer repeats.
  It may circle between roots, so the loop is a partial function:
  \<^const>\<open>None\<close> is "does not return", \<open>Some None\<close> is \<open>null\<close>.
\<close>

partial_function (option) hit_loop ::
  "frame_env \<Rightarrow> nat list \<Rightarrow> rat \<Rightarrow> rat \<Rightarrow> nat option \<Rightarrow> nat option \<Rightarrow> nat option option" where
  "hit_loop env hosts x y scope last_elem =
     (case fe_hit env scope x y of
        None \<Rightarrow> Some None
      | Some e \<Rightarrow>
          if e \<in> set hosts \<and> Some e \<noteq> last_elem
          then hit_loop env hosts x y (Some e) (Some e)
          else Some (Some e))"

definition who_captures_center_click :: "frame_env \<Rightarrow> dnode list \<Rightarrow> nat \<Rightarrow> capture option" where
  "who_captures_center_click env roots i =
     (let r = fe_rect env i;
          x = (rleft r + rright r) / 2;
          y = (rtop r + rbottom r) / 2
      in map_option
           (\<lambda>at_center. case at_center of
              None \<Rightarrow> Nobody
            | Some e \<Rightarrow> if e = i then SelfC
                        else if contains_el roots i e then ChildC else NonDescendant)
           (hit_loop env (shadow_hosts roots) x y None None))"

section \<open>Marking one element\<close>

definition push_bid_to_attribute :: "string \<Rightarrow> nat \<Rightarrow> string \<Rightarrow> attrs \<Rightarrow> attrs" where
  "push_bid_to_attribute bid i attr A =
     (let original = (case get_attr A i attr of None \<Rightarrow> [] | Some c \<Rightarrow> c)
      in set_attr A i attr (''browsergym_id_'' @ bid @ '' '' @ original))"

text \<open>Visibility attribute, observer registration, \<open>value\<close> and \<open>checked\<close>.\<close>

definition write_dynamic :: "frame_env \<Rightarrow> nat \<Rightarrow> attrs \<Rightarrow> attrs" where
  "write_dynamic env i A =
     (let A1 = set_attr A i ''browsergym_visibility_ratio'' ''0'';
          A2 = (case fe_value env i of None \<Rightarrow> A1 | Some v \<Rightarrow> set_attr A1 i ''value'' v)
      in case fe_checked env i of
           None \<Rightarrow> A2
         | Some True \<Rightarrow> set_attr A2 i ''checked'' []
         | Some False \<Rightarrow> remove_attr A2 i ''checked'')"

definition next_local_id :: "dnode \<Rightarrow> mark_state \<Rightarrow> string \<times> mark_state" where
  "next_local_id e s =
     (if lname e \<in> {''iframe'', ''frame''}
      then let (l, g) = gen_next (ms_gen s) in (l, s\<lparr>ms_gen := g\<rparr>)
      else (show_nat (ms_counter s), s\<lparr>ms_counter := Suc (ms_counter s)\<rparr>))"

definition assign_bid ::
  "frame_env \<Rightarrow> bool \<Rightarrow> string \<Rightarrow> string \<Rightarrow> dnode \<Rightarrow> mark_state \<Rightarrow> (mark_stop + string) \<times> mark_state" where
  "assign_bid env first_visit parent_bid bid_attr e s =
     (let cur = get_attr (ms_attrs s) (nid e) bid_attr in
      if cur \<noteq> None \<and> first_visit
      then (Inl (Throw (''Attribute '' @ bid_attr @ '' already used in element '' @ fe_outer env (nid e))), s)
      else case (case cur of None \<Rightarrow> None | Some b \<Rightarrow> if b \<in> set (ms_bids s) then None else Some b) of
        Some b \<Rightarrow> (Inr b, s\<lparr>ms_bids := b # ms_bids s\<rparr>)
      | None \<Rightarrow>
          (let (l, s1) = next_local_id e s;
               b = (if parent_bid = [] then l else parent_bid @ l)
           in (Inr b, s1\<lparr>ms_attrs := set_attr (ms_attrs s1) (nid e) bid_attr b,
                         ms_bids := b # ms_bids s1\<rparr>)))"

text \<open>The selector \<open>button, a, input[type="button"], div[role="button"]\<close>.\<close>

definition matches_button :: "attrs \<Rightarrow> dnode \<Rightarrow> bool" where
  "matches_button A e \<longleftrightarrow>
     lname e \<in> {''button'', ''a''}
     \<or> (lname e = ''input'' \<and> map_option to_lower (get_attr A (nid e) ''type'') = Some ''button'')
     \<or> (lname e = ''div'' \<and> get_attr A (nid e) ''role'' = Some ''button'')"

definition sole_child_of_marked_span :: "dnode list \<Rightarrow> attrs \<Rightarrow> nat \<Rightarrow> bool" where
  "sole_child_of_marked_span roots A i =
     (case parent_el roots i of
        None \<Rightarrow> False
      | Some p \<Rightarrow>
          (case find_el roots p of None \<Rightarrow> False | Some pe \<Rightarrow>
             lname pe = ''span'' \<and> length (el_children roots p) = 1
             \<and> (case get_attr A p ''role'' of None \<Rightarrow> False | Some r \<Rightarrow> r \<noteq> [])
             \<and> get_attr A p ''browsergym_set_of_marks'' = Some ''1''))"

fun clear_marks :: "nat list \<Rightarrow> attrs \<Rightarrow> attrs" where
  "clear_marks [] A = A"
| "clear_marks (p # ps) A =
     clear_marks ps
       (if get_attr A p ''browsergym_set_of_marks'' = Some ''1''
        then set_attr A p ''browsergym_set_of_marks'' ''0'' else A)"

definition flag_set_of_marks ::
  "frame_env \<Rightarrow> dnode list \<Rightarrow> dnode \<Rightarrow> mark_state \<Rightarrow> mark_stop option \<times> mark_state" where
  "flag_set_of_marks env roots e s =
     (let i = nid e;
          s1 = s\<lparr>ms_attrs := set_attr (ms_attrs s) i ''browsergym_set_of_marks'' ''0''\<rparr>
      in case who_captures_center_click env roots i of
           None \<Rightarrow> (Some Hang, s1)
         | Some c \<Rightarrow>
             (let r = fe_rect env i;
                  area = (rright r - rleft r) * (rbottom r - rtop r)
              in if c \<in> {SelfC, ChildC}
                    \<and> (lname e \<in> set set_of_marks_tags \<or> fe_onclick env i \<or> fe_cursor env i = ''pointer'')
                    \<and> 20 \<le> area
                    \<and> (\<forall>b \<in> set (ms_som s1). \<not> contains_el roots b i)
                    \<and> \<not> sole_child_of_marked_span roots (ms_attrs s1) i
                 then let A = set_attr (ms_attrs s1) i ''browsergym_set_of_marks'' ''1''
                      in (None, s1\<lparr>ms_attrs := clear_marks (ancestors roots i) A,
                                  ms_som := (if matches_button A e then ms_som s1 @ [i] else ms_som s1)\<rparr>)
                 else (None, s1)))"

definition mark_element ::
  "frame_env \<Rightarrow> dnode list \<Rightarrow> bool \<Rightarrow> string \<Rightarrow> string \<Rightarrow> dnode \<Rightarrow> mark_state \<Rightarrow> mark_stop option \<times> mark_state" where
  "mark_element env roots first_visit parent_bid bid_attr e s =
     (let s1 = s\<lparr>ms_attrs := write_dynamic env (nid e) (ms_attrs s),
                 ms_pending := nid e # ms_pending s\<rparr>
      in case assign_bid env first_visit parent_bid bid_attr e s1 of
           (Inl err, s2) \<Rightarrow> (Some err, s2)
         | (Inr bid, s2) \<Rightarrow>
             (let A1 = push_bid_to_attribute bid (nid e) ''aria-roledescription'' (ms_attrs s2);
                  A2 = push_bid_to_attribute bid (nid e) ''aria-description'' A1
              in flag_set_of_marks env roots e (s2\<lparr>ms_attrs := A2\<rparr>)))"

section \<open>The marking pass\<close>

text \<open>\<open>tags_to_mark\<close>: skip the element, process it, or throw.\<close>

datatype tag_choice = Process | Skip | BadTags

definition choose_tag :: "string \<Rightarrow> dnode \<Rightarrow> tag_choice" where
  "choose_tag tags_to_mark e =
     (if tags_to_mark = ''all'' then Process
      else if tags_to_mark = ''standard_html''
           then (if tag e = [] \<or> lname e \<notin> set html_tags then Skip else Process)
           else BadTags)"

function mark_loop ::
  "frame_env \<Rightarrow> dnode list \<Rightarrow> bool \<Rightarrow> string \<Rightarrow> string \<Rightarrow> string \<Rightarrow> dnode list \<Rightarrow> mark_state
     \<Rightarrow> mark_stop option \<times> mark_state" where
  "mark_loop env roots fv pb ba tags [] s = (None, s)"
| "mark_loop env roots fv pb ba tags (e # es) s =
     (let rest = qsa_all (shadow_kids e) @ es in
      case choose_tag tags e of
        BadTags \<Rightarrow> (Some (Throw (''Invalid value for parameter '' @ [CHR 0x22] @ ''tags_to_mark''
                        @ [CHR 0x22] @ '': '' @ [CHR 0x22] @ tags @ [CHR 0x22])), s)
      | Skip \<Rightarrow> mark_loop env roots fv pb ba tags rest s
      | Process \<Rightarrow>
          (case mark_element env roots fv pb ba e s of
             (Some err, s1) \<Rightarrow> (Some err, s1)
           | (None, s1) \<Rightarrow> mark_loop env roots fv pb ba tags rest s1))"
  by pat_completeness auto
termination
  by (relation "measure (\<lambda>(env, roots, fv, pb, ba, tags, es, s). sum_list (map own_weight es))")
     (simp_all add: sum_own_weight_qsa_all own_weight_def)

text \<open>
  \<open>until\<close>: an immediate check, then one check per interval until the condition
  holds or more than \<open>timeout\<close> has passed.  \<open>f t\<close> is the condition at time \<open>t\<close>
  after the start; the result is whether the promise resolves, and when.
\<close>

function until_poll :: "(nat \<Rightarrow> bool) \<Rightarrow> nat \<Rightarrow> nat \<Rightarrow> nat \<Rightarrow> bool \<times> nat" where
  "until_poll f timeout interval t =
     (if f t then (True, t)
      else if t > timeout then (False, t)
      else until_poll f timeout interval (t + max 1 interval))"
  by pat_completeness auto
termination
  by (relation "measure (\<lambda>(f, timeout, interval, t). Suc timeout - t)") auto

declare until_poll.simps [simp del]

definition until_wait :: "(nat \<Rightarrow> bool) \<Rightarrow> nat \<Rightarrow> nat \<Rightarrow> bool \<times> nat" where
  "until_wait f timeout interval =
     (if f 0 then (True, 0) else until_poll f timeout interval (max 1 interval))"

text \<open>The observer callback for one entry.\<close>

definition observe_entry :: "(rat \<Rightarrow> string) \<Rightarrow> nat \<Rightarrow> rat \<Rightarrow> mark_state \<Rightarrow> mark_state" where
  "observe_entry show_num i ratio s =
     s\<lparr>ms_attrs := set_attr (ms_attrs s) i ''browsergym_visibility_ratio''
                    (show_num (of_int (js_round (ratio * 100)) / 100)),
       ms_pending := filter (\<lambda>j. j \<noteq> i) (ms_pending s)\<rparr>"

text \<open>
  The whole script.  \<open>all_visited t\<close> tells whether the observer has reported
  every marked element \<open>t\<close> milliseconds after the wait begins.
\<close>

definition mark_frame ::
  "frame_env \<Rightarrow> (nat \<Rightarrow> bool) \<Rightarrow> dnode list \<Rightarrow> string \<Rightarrow> string \<Rightarrow> string \<Rightarrow> frame_win
     \<Rightarrow> (mark_stop + string list) \<times> frame_win" where
  "mark_frame env all_visited roots parent_bid bid_attr tags w =
     (let first_visit = (fw_counter w = None);
          s0 = \<lparr>ms_attrs = fw_attrs w,
                ms_counter = (case fw_counter w of None \<Rightarrow> 0 | Some c \<Rightarrow> c),
                ms_gen = (if first_visit then [0] else fw_gen w),
                ms_bids = [], ms_som = [], ms_pending = []\<rparr>;
          (err, s) = mark_loop env roots first_visit parent_bid bid_attr tags (qsa_all roots) s0;
          w' = \<lparr>fw_attrs = ms_attrs s, fw_counter = Some (ms_counter s), fw_gen = ms_gen s\<rparr>
      in case err of
           Some e \<Rightarrow> (Inl e, w')
         | None \<Rightarrow>
             (Inr (if fst (until_wait all_visited 1000 40) then []
                   else [''Frame marking: not all elements have been visited by the intersection_observer after 1000 ms'']),
              w'))"

section \<open>Unmarking\<close>

text \<open>\<open>content.replace(/^browsergym_id[^\s]*\s/, '')\<close>: drop the first word with its blank.\<close>

definition strip_bid :: "string \<Rightarrow> string" where
  "strip_bid c =
     (if starts_with c ''browsergym_id''
      then (case dropWhile (\<lambda>x. \<not> is_ws x) c of [] \<Rightarrow> c | _ # r \<Rightarrow> r)
      else c)"

definition pop_bid_from_attribute :: "nat \<Rightarrow> string \<Rightarrow> attrs \<Rightarrow> attrs" where
  "pop_bid_from_attribute i attr A =
     (case get_attr A i attr of
        None \<Rightarrow> A
      | Some c \<Rightarrow> if strip_bid c \<noteq> [] then set_attr A i attr (strip_bid c) else remove_attr A i attr)"

function unmark_loop :: "dnode list \<Rightarrow> attrs \<Rightarrow> attrs" where
  "unmark_loop [] A = A"
| "unmark_loop (e # es) A =
     unmark_loop (qsa_all (shadow_kids e) @ es)
       (pop_bid_from_attribute (nid e) ''aria-roledescription''
         (pop_bid_from_attribute (nid e) ''aria-description'' A))"
  by pat_completeness auto
termination
  by (relation "measure (\<lambda>(es, A). sum_list (map own_weight es))")
     (simp_all add: sum_own_weight_qsa_all own_weight_def)

definition unmark_frame :: "dnode list \<Rightarrow> frame_win \<Rightarrow> frame_win" where
  "unmark_frame roots w = w\<lparr>fw_attrs := unmark_loop (qsa_all roots) (fw_attrs w)\<rparr>"

section \<open>What the steps leave alone\<close>

definition script_attrs :: "string list" where
  "script_attrs = [''browsergym_visibility_ratio'', ''value'', ''checked'',
     ''aria-roledescription'', ''aria-description'', ''browsergym_set_of_marks'']"

lemma write_dynamic_other:
  "k \<notin> set script_attrs \<Longrightarrow> get_attr (write_dynamic env i A) j k = get_attr A j k"
  by (auto simp: write_dynamic_def script_attrs_def Let_def split: option.splits bool.splits)

lemma push_bid_other:
  "k \<noteq> attr \<Longrightarrow> get_attr (push_bid_to_attribute b i attr A) j k = get_attr A j k"
  by (simp add: push_bid_to_attribute_def Let_def)

lemma clear_marks_other:
  "k \<noteq> ''browsergym_set_of_marks'' \<Longrightarrow> get_attr (clear_marks ps A) j k = get_attr A j k"
  by (induction ps A rule: clear_marks.induct) auto

lemma flag_set_of_marks_frame:
  assumes "flag_set_of_marks env roots e s = (r, s')"
  shows "ms_counter s' = ms_counter s" "ms_gen s' = ms_gen s" "ms_bids s' = ms_bids s"
    and "k \<noteq> ''browsergym_set_of_marks'' \<Longrightarrow> get_attr (ms_attrs s') j k = get_attr (ms_attrs s) j k"
  using assms
  by (auto simp: flag_set_of_marks_def Let_def clear_marks_other split: option.splits if_splits)

section \<open>Fresh local identifiers\<close>

definition local_issued :: "mark_state \<Rightarrow> string set" where
  "local_issued s = show_nat ` {..<ms_counter s} \<union> gen_issued (ms_gen s)"

definition locals_ok :: "mark_state \<Rightarrow> bool" where
  "locals_ok s \<longleftrightarrow> gen_ok (ms_gen s)"

lemma show_nat_not_gen_issued: "show_nat k \<notin> gen_issued g"
  unfolding gen_issued_def by clarify (metis gen_string_neq_show_nat)

interpretation local_ids: fresh_source "next_local_id e" local_issued locals_ok
proof
  fix s l t
  assume ok: "locals_ok s" and n: "next_local_id e s = (l, t)"
  show "l \<notin> local_issued s"
    using n ok show_nat_not_gen_issued [of "ms_counter s" "ms_gen s"]
      gen_string_neq_show_nat [of "ms_gen s"] gen_string_fresh [of "ms_gen s"]
    by (auto simp: next_local_id_def local_issued_def locals_ok_def gen_next_def split: if_splits)
  show "local_issued t = insert l (local_issued s)"
    using n ok gen_issued_step [of "ms_gen s"]
    by (auto simp: next_local_id_def local_issued_def locals_ok_def gen_next_def
        lessThan_Suc split: if_splits)
  show "locals_ok t"
    using n ok by (auto simp: next_local_id_def locals_ok_def gen_next_def split: if_splits)
qed

text \<open>The identifiers of the frame \<open>pb\<close> handed out so far.\<close>

definition bids_issued :: "string \<Rightarrow> mark_state \<Rightarrow> string set" where
  "bids_issued pb s = (\<lambda>l. pb @ l) ` local_issued s"

lemma bids_issued_cong:
  "ms_counter s = ms_counter t \<Longrightarrow> ms_gen s = ms_gen t \<Longrightarrow> bids_issued pb s = bids_issued pb t"
  by (simp add: bids_issued_def local_issued_def)

text \<open>
  What \<open>assign_bid\<close> does when it does not throw: it keeps an identifier not seen
  in this pass, or writes one never handed out before.
\<close>

lemma assign_bid_cases:
  assumes a: "assign_bid env fv pb ba e s = (Inr b, s')" and ok: "locals_ok s"
  obtains (keep) "get_attr (ms_attrs s) (nid e) ba = Some b" "b \<notin> set (ms_bids s)"
      "s' = s\<lparr>ms_bids := b # ms_bids s\<rparr>"
    | (new) "b \<notin> bids_issued pb s" "bids_issued pb s' = insert b (bids_issued pb s)"
      "locals_ok s'" "ms_attrs s' = set_attr (ms_attrs s) (nid e) ba b"
      "ms_bids s' = b # ms_bids s"
proof -
  consider (k) "get_attr (ms_attrs s) (nid e) ba = Some b" "b \<notin> set (ms_bids s)"
      "s' = s\<lparr>ms_bids := b # ms_bids s\<rparr>"
    | (n) l s1 where "next_local_id e s = (l, s1)" "b = pb @ l"
      "s' = s1\<lparr>ms_attrs := set_attr (ms_attrs s1) (nid e) ba b, ms_bids := b # ms_bids s1\<rparr>"
    using a by (auto simp: assign_bid_def Let_def split: if_splits option.splits prod.splits)
  then show ?thesis
  proof cases
    case k
    then show ?thesis by (rule keep)
  next
    case n
    have f: "l \<notin> local_issued s" "local_issued s1 = insert l (local_issued s)" "locals_ok s1"
      using local_ids.fresh [OF ok n(1)] local_ids.issues [OF ok n(1)] local_ids.keeps [OF ok n(1)]
      by simp_all
    have s1: "ms_attrs s1 = ms_attrs s" "ms_bids s1 = ms_bids s"
      using n(1) by (auto simp: next_local_id_def gen_next_def split: if_splits)
    have li: "local_issued s' = local_issued s1" using n(3) by (simp add: local_issued_def)
    show ?thesis
    proof (rule new)
      show "b \<notin> bids_issued pb s" using f(1) n(2) by (auto simp: bids_issued_def)
      show "bids_issued pb s' = insert b (bids_issued pb s)"
        unfolding bids_issued_def li f(2) n(2) by simp
      show "locals_ok s'" using f(3) n(3) by (simp add: locals_ok_def)
    qed (use s1 n(3) in simp_all)
  qed
qed

section \<open>The identifiers of a frame are pairwise distinct\<close>

text \<open>
  \<open>D\<close> are the elements marked so far and \<open>U\<close> all elements of the frame: the marked
  ones carry distinct identifiers, exactly those collected in this pass, and no
  element carries an identifier that was never handed out.
\<close>

definition bids_inv :: "string \<Rightarrow> string \<Rightarrow> nat set \<Rightarrow> nat set \<Rightarrow> mark_state \<Rightarrow> bool" where
  "bids_inv pb ba U D s \<longleftrightarrow>
     locals_ok s
     \<and> (\<forall>i \<in> D. get_attr (ms_attrs s) i ba \<noteq> None)
     \<and> inj_on (\<lambda>i. get_attr (ms_attrs s) i ba) D
     \<and> Some ` set (ms_bids s) = (\<lambda>i. get_attr (ms_attrs s) i ba) ` D
     \<and> (\<forall>i \<in> U. \<forall>b. get_attr (ms_attrs s) i ba = Some b \<longrightarrow> b \<in> bids_issued pb s)"

lemma bids_inv_cong:
  assumes "ms_counter s = ms_counter t" "ms_gen s = ms_gen t" "ms_bids s = ms_bids t"
    and "\<And>i. get_attr (ms_attrs s) i ba = get_attr (ms_attrs t) i ba"
  shows "bids_inv pb ba U D s \<longleftrightarrow> bids_inv pb ba U D t"
  using assms bids_issued_cong [of s t pb] by (simp add: bids_inv_def locals_ok_def)

lemma assign_bid_inv:
  assumes a: "assign_bid env fv pb ba e s = (Inr b, s')"
    and inv: "bids_inv pb ba U D s" and U: "D \<subseteq> U" "nid e \<in> U" "nid e \<notin> D"
  shows "bids_inv pb ba U (insert (nid e) D) s'"
proof -
  let ?g = "\<lambda>i. get_attr (ms_attrs s) i ba"
  have ok: "locals_ok s" and iss: "\<And>i b. i \<in> U \<Longrightarrow> ?g i = Some b \<Longrightarrow> b \<in> bids_issued pb s"
    and im: "Some ` set (ms_bids s) = ?g ` D" and inj: "inj_on ?g D"
    and some: "\<forall>i \<in> D. ?g i \<noteq> None"
    using inv by (auto simp: bids_inv_def)
  show ?thesis
  using a ok proof (cases rule: assign_bid_cases)
    case keep
    have "Some b \<notin> ?g ` D" using keep(2) im by (metis imageE option.inject)
    then show ?thesis
      using inv keep U im by (auto simp: bids_inv_def bids_issued_def local_issued_def locals_ok_def)
  next
    case new
    have nb: "Some b \<notin> ?g ` D" using new(1) iss U(1) by fastforce
    have g': "get_attr (ms_attrs s') i ba = (if i = nid e then Some b else ?g i)" for i
      using new(4) by simp
    have eq: "(\<lambda>i. get_attr (ms_attrs s') i ba) ` D = ?g ` D"
      using U(3) by (intro image_cong) (auto simp: g')
    have "inj_on (\<lambda>i. get_attr (ms_attrs s') i ba) D"
      using inj U(3) by (auto simp: inj_on_def g')
    moreover have "Some b \<notin> (\<lambda>i. get_attr (ms_attrs s') i ba) ` D"
      unfolding eq by (rule nb)
    ultimately show ?thesis
      unfolding bids_inv_def using new some iss U(3)
      by (auto simp: g' eq im new(5))
  qed
qed

lemma mark_element_inv:
  assumes m: "mark_element env roots fv pb ba e s = (None, s')" and ba: "ba \<notin> set script_attrs"
    and inv: "bids_inv pb ba U D s" and U: "D \<subseteq> U" "nid e \<in> U" "nid e \<notin> D"
  shows "bids_inv pb ba U (insert (nid e) D) s'"
proof -
  let ?s1 = "s\<lparr>ms_attrs := write_dynamic env (nid e) (ms_attrs s), ms_pending := nid e # ms_pending s\<rparr>"
  have i1: "bids_inv pb ba U D ?s1"
    using inv by (subst bids_inv_cong [where t = s]) (simp_all add: write_dynamic_other [OF ba])
  obtain b s2 A where as: "assign_bid env fv pb ba e ?s1 = (Inr b, s2)"
    and A: "A = push_bid_to_attribute b (nid e) ''aria-description''
                  (push_bid_to_attribute b (nid e) ''aria-roledescription'' (ms_attrs s2))"
    and fl: "flag_set_of_marks env roots e (s2\<lparr>ms_attrs := A\<rparr>) = (None, s')"
    using m by (auto simp: mark_element_def Let_def split: prod.splits sum.splits)
  have i2: "bids_inv pb ba U (insert (nid e) D) s2"
    by (rule assign_bid_inv [OF as i1 U])
  have ne: "ba \<noteq> ''aria-description''" "ba \<noteq> ''aria-roledescription''"
      "ba \<noteq> ''browsergym_set_of_marks''"
    using ba by (auto simp: script_attrs_def)
  show ?thesis
    using i2 flag_set_of_marks_frame [OF fl] ne
    by (subst bids_inv_cong [where t = s2]) (simp_all add: A push_bid_other)
qed

lemma mark_loop_inv:
  assumes "mark_loop env roots fv pb ba tags es s = (None, s')" "ba \<notin> set script_attrs"
    and "bids_inv pb ba U D s" "D \<subseteq> U" "nid ` set (expand es) \<subseteq> U"
    and "distinct (map nid (expand es))" "nid ` set (expand es) \<inter> D = {}"
  shows "bids_inv pb ba U (D \<union> nid ` {e \<in> set (expand es). choose_tag tags e = Process}) s'"
  using assms
proof (induction env roots fv pb ba tags es s arbitrary: D rule: mark_loop.induct)
  case (1 env roots fv pb ba tags s)
  then show ?case by simp
next
  case (2 env roots fv pb ba tags e es s)
  let ?rest = "qsa_all (shadow_kids e) @ es"
  show ?case
  proof (cases "choose_tag tags e")
    case Process
    obtain s1 where m: "mark_element env roots fv pb ba e s = (None, s1)"
      and r: "mark_loop env roots fv pb ba tags ?rest s1 = (None, s')"
      using "2.prems"(1) Process by (auto split: prod.splits option.splits)
    have "bids_inv pb ba U (insert (nid e) D) s1"
      using mark_element_inv [OF m "2.prems"(2,3,4)] "2.prems"(5,7) by auto
    then have "bids_inv pb ba U (insert (nid e) D \<union> nid ` {e \<in> set (expand ?rest). choose_tag tags e = Process}) s'"
      using "2.prems" by (intro "2.IH"(1) [OF refl Process m [symmetric] refl r]) auto
    moreover have "{x \<in> set (expand (e # es)). choose_tag tags x = Process} =
        insert e {x \<in> set (expand ?rest). choose_tag tags x = Process}"
      using Process by auto
    ultimately show ?thesis by simp
  next
    case Skip
    then have r: "mark_loop env roots fv pb ba tags ?rest s = (None, s')"
      using "2.prems"(1) by simp
    have "bids_inv pb ba U (D \<union> nid ` {e \<in> set (expand ?rest). choose_tag tags e = Process}) s'"
      using "2.prems" by (intro "2.IH"(2) [OF refl Skip r]) auto
    moreover have "{x \<in> set (expand (e # es)). choose_tag tags x = Process} =
        {x \<in> set (expand ?rest). choose_tag tags x = Process}"
      using Skip by auto
    ultimately show ?thesis by simp
  next
    case BadTags
    then show ?thesis using "2.prems"(1) by simp
  qed
qed

section \<open>Marking and unmarking the ARIA attributes\<close>

definition aria_attrs :: "string list" where
  "aria_attrs = [''aria-roledescription'', ''aria-description'']"

definition no_ws :: "string \<Rightarrow> bool" where
  "no_ws s \<longleftrightarrow> (\<forall>c \<in> set s. \<not> is_ws c)"

definition content :: "attrs \<Rightarrow> nat \<Rightarrow> string \<Rightarrow> string" where
  "content A i k = (case get_attr A i k of None \<Rightarrow> [] | Some c \<Rightarrow> c)"

definition bid_pushed :: "attrs \<Rightarrow> attrs \<Rightarrow> nat \<Rightarrow> bool" where
  "bid_pushed A A' i \<longleftrightarrow> (\<exists>b. no_ws b \<and>
     (\<forall>k \<in> set aria_attrs. get_attr A' i k = Some (''browsergym_id_'' @ b @ '' '' @ content A i k)))"

lemma strip_bid_pushed:
  assumes "no_ws b" shows "strip_bid (''browsergym_id_'' @ b @ '' '' @ c) = c"
proof -
  define P where "P = ''browsergym_id_''"
  have P: "\<forall>x \<in> set P. \<not> is_ws x" "prefix ''browsergym_id'' P"
    by (simp_all add: P_def is_ws_def)
  have "dropWhile (\<lambda>x. \<not> is_ws x) ((P @ b) @ '' '' @ c) = dropWhile (\<lambda>x. \<not> is_ws x) ('' '' @ c)"
    by (rule dropWhile_append2) (use P assms in \<open>auto simp: no_ws_def\<close>)
  also have "\<dots> = '' '' @ c" by (simp add: is_ws_def)
  finally have d: "dropWhile (\<lambda>x. \<not> is_ws x) (P @ b @ '' '' @ c) = '' '' @ c" by simp
  have "prefix ''browsergym_id'' (P @ b @ '' '' @ c)" using P(2) by (rule prefix_prefix)
  then show ?thesis unfolding P_def [symmetric] strip_bid_def starts_with_def by (simp only: d) simp
qed

lemma strip_bid_other: "\<not> starts_with c ''browsergym_id'' \<Longrightarrow> strip_bid c = c"
  by (simp add: strip_bid_def)

lemma local_issued_no_ws: "l \<in> local_issued s \<Longrightarrow> no_ws l"
proof -
  have "no_ws (gen_string t)" if "gen_ok t" for t
  proof -
    have "\<not> is_ws (gen_chars ! d)" "\<not> is_ws (upper_char (gen_chars ! d))" if "d < 26" for d
    proof -
      have c: "(of_char (gen_chars ! d) :: nat) = 97 + d" by (rule gen_char_code [OF that])
      then show "\<not> is_ws (gen_chars ! d)" by (auto simp: is_ws_def)
      have "(of_char (upper_char (gen_chars ! d)) :: nat) = 65 + d"
        using that by (simp add: upper_char_def c)
      then show "\<not> is_ws (upper_char (gen_chars ! d))" by (auto simp: is_ws_def)
    qed
    then show ?thesis
      using that by (auto simp: no_ws_def gen_string_def gen_ok_def Let_def)
  qed
  then show "l \<in> local_issued s \<Longrightarrow> no_ws l"
    by (auto simp: local_issued_def gen_issued_def no_ws_def show_nat_no_ws)
qed

lemma bids_issued_no_ws: "no_ws pb \<Longrightarrow> b \<in> bids_issued pb s \<Longrightarrow> no_ws b"
  using local_issued_no_ws by (auto simp: bids_issued_def no_ws_def)

lemma mark_element_aria:
  assumes m: "mark_element env roots fv pb ba e s = (None, s')" and ba: "ba \<notin> set script_attrs"
    and inv: "bids_inv pb ba U D s" and U: "D \<subseteq> U" "nid e \<in> U" "nid e \<notin> D" and pb: "no_ws pb"
  shows "bid_pushed (ms_attrs s) (ms_attrs s') (nid e)"
    and "j \<noteq> nid e \<Longrightarrow> k \<in> set aria_attrs \<Longrightarrow> get_attr (ms_attrs s') j k = get_attr (ms_attrs s) j k"
proof -
  let ?s1 = "s\<lparr>ms_attrs := write_dynamic env (nid e) (ms_attrs s), ms_pending := nid e # ms_pending s\<rparr>"
  obtain b s2 A where as: "assign_bid env fv pb ba e ?s1 = (Inr b, s2)"
    and A: "A = push_bid_to_attribute b (nid e) ''aria-description''
                  (push_bid_to_attribute b (nid e) ''aria-roledescription'' (ms_attrs s2))"
    and fl: "flag_set_of_marks env roots e (s2\<lparr>ms_attrs := A\<rparr>) = (None, s')"
    using m by (auto simp: mark_element_def Let_def split: prod.splits sum.splits)
  have i1: "bids_inv pb ba U D ?s1"
    using inv by (subst bids_inv_cong [where t = s]) (simp_all add: write_dynamic_other [OF ba])
  have "bids_inv pb ba U (insert (nid e) D) s2" by (rule assign_bid_inv [OF as i1 U])
  moreover have "get_attr (ms_attrs s2) (nid e) ba = Some b"
    using as by (auto simp: assign_bid_def Let_def split: if_splits option.splits prod.splits)
  ultimately have nb: "no_ws b" using bids_issued_no_ws [OF pb] U(2) by (auto simp: bids_inv_def)
  have s2: "get_attr (ms_attrs s2) j k = get_attr (ms_attrs s) j k" if "k \<in> set aria_attrs" for j k
  proof -
    have k: "k \<noteq> ba" "k \<notin> {''browsergym_visibility_ratio'', ''value'', ''checked''}"
      using that ba by (auto simp: aria_attrs_def script_attrs_def)
    have "get_attr (ms_attrs s2) j k = get_attr (write_dynamic env (nid e) (ms_attrs s)) j k"
      using as k(1)
      by (auto simp: assign_bid_def next_local_id_def gen_next_def Let_def
          split: if_splits option.splits prod.splits)
    also have "\<dots> = get_attr (ms_attrs s) j k"
      using k(2) by (auto simp: write_dynamic_def Let_def split: option.splits bool.splits)
    finally show ?thesis .
  qed
  have s': "get_attr (ms_attrs s') j k = get_attr A j k" if "k \<in> set aria_attrs" for j k
    using flag_set_of_marks_frame(4) [OF fl, of k j] that by (auto simp: aria_attrs_def)
  show "bid_pushed (ms_attrs s) (ms_attrs s') (nid e)"
    unfolding bid_pushed_def using nb s' s2
    by (intro exI [of _ b])
       (auto simp: A push_bid_to_attribute_def content_def aria_attrs_def Let_def split: option.splits)
  show "j \<noteq> nid e \<Longrightarrow> k \<in> set aria_attrs \<Longrightarrow> get_attr (ms_attrs s') j k = get_attr (ms_attrs s) j k"
    using s' s2 by (auto simp: A push_bid_to_attribute_def Let_def)
qed

lemma bid_pushed_cong:
  "(\<And>k. k \<in> set aria_attrs \<Longrightarrow> get_attr A i k = get_attr B i k) \<Longrightarrow>
   (\<And>k. k \<in> set aria_attrs \<Longrightarrow> get_attr A' i k = get_attr B' i k) \<Longrightarrow>
   bid_pushed A A' i = bid_pushed B B' i"
  by (simp add: bid_pushed_def content_def)

lemma mark_loop_aria:
  assumes "mark_loop env roots fv pb ba tags es s = (None, s')" "ba \<notin> set script_attrs"
    and "bids_inv pb ba U D s" "D \<subseteq> U" "nid ` set (expand es) \<subseteq> U"
    and "distinct (map nid (expand es))" "nid ` set (expand es) \<inter> D = {}" and "no_ws pb"
  shows "(\<forall>i. i \<notin> nid ` {e \<in> set (expand es). choose_tag tags e = Process} \<longrightarrow>
            (\<forall>k \<in> set aria_attrs. get_attr (ms_attrs s') i k = get_attr (ms_attrs s) i k))
         \<and> (\<forall>e \<in> set (expand es). choose_tag tags e = Process \<longrightarrow>
            bid_pushed (ms_attrs s) (ms_attrs s') (nid e))"
  using assms
proof (induction env roots fv pb ba tags es s arbitrary: D rule: mark_loop.induct)
  case (1 env roots fv pb ba tags s)
  then show ?case by simp
next
  case (2 env roots fv pb ba tags e es s)
  let ?rest = "qsa_all (shadow_kids e) @ es"
  show ?case
  proof (cases "choose_tag tags e")
    case Process
    obtain s1 where m: "mark_element env roots fv pb ba e s = (None, s1)"
      and r: "mark_loop env roots fv pb ba tags ?rest s1 = (None, s')"
      using "2.prems"(1) Process by (auto split: prod.splits option.splits)
    have eU: "nid e \<in> U" "nid e \<notin> D" using "2.prems"(5,7) by auto
    have i1: "bids_inv pb ba U (insert (nid e) D) s1"
      by (rule mark_element_inv [OF m "2.prems"(2,3,4) eU])
    note el = mark_element_aria [OF m "2.prems"(2,3,4) eU "2.prems"(8)]
    have ih: "(\<forall>i. i \<notin> nid ` {e \<in> set (expand ?rest). choose_tag tags e = Process} \<longrightarrow>
            (\<forall>k \<in> set aria_attrs. get_attr (ms_attrs s') i k = get_attr (ms_attrs s1) i k))
         \<and> (\<forall>e \<in> set (expand ?rest). choose_tag tags e = Process \<longrightarrow>
            bid_pushed (ms_attrs s1) (ms_attrs s') (nid e))"
      using "2.prems" i1 eU
      by (intro "2.IH"(1) [OF refl Process m [symmetric] refl r, where D = "insert (nid e) D"]) auto
    have ne: "nid e \<notin> nid ` set (expand ?rest)" using "2.prems"(6) by simp
    have "bid_pushed (ms_attrs s) (ms_attrs s') (nid e)"
      using el(1) ih ne by (subst bid_pushed_cong [where B = "ms_attrs s" and B' = "ms_attrs s1"]) auto
    moreover have "bid_pushed (ms_attrs s) (ms_attrs s') (nid x)"
      if x: "x \<in> set (expand ?rest)" "choose_tag tags x = Process" for x
    proof -
      have "nid x \<noteq> nid e" using x(1) ne by (metis imageI)
      then show ?thesis
        using ih x el(2) by (subst bid_pushed_cong [where B = "ms_attrs s1" and B' = "ms_attrs s'"]) auto
    qed
    moreover have "get_attr (ms_attrs s') i k = get_attr (ms_attrs s) i k"
      if i: "i \<notin> nid ` {x \<in> set (expand (e # es)). choose_tag tags x = Process}"
        and k: "k \<in> set aria_attrs" for i k
    proof -
      have "i \<noteq> nid e" using i Process by auto
      then have "get_attr (ms_attrs s1) i k = get_attr (ms_attrs s) i k" using el(2) k by blast
      moreover have "i \<notin> nid ` {x \<in> set (expand ?rest). choose_tag tags x = Process}"
        using i by auto
      ultimately show ?thesis using ih k by simp
    qed
    ultimately show ?thesis by auto
  next
    case Skip
    then have r: "mark_loop env roots fv pb ba tags ?rest s = (None, s')"
      using "2.prems"(1) by simp
    have "(\<forall>i. i \<notin> nid ` {e \<in> set (expand ?rest). choose_tag tags e = Process} \<longrightarrow>
            (\<forall>k \<in> set aria_attrs. get_attr (ms_attrs s') i k = get_attr (ms_attrs s) i k))
         \<and> (\<forall>e \<in> set (expand ?rest). choose_tag tags e = Process \<longrightarrow>
            bid_pushed (ms_attrs s) (ms_attrs s') (nid e))"
      using "2.prems" by (intro "2.IH"(2) [OF refl Skip r]) auto
    then show ?thesis using Skip by (auto simp: image_iff)
  next
    case BadTags
    then show ?thesis using "2.prems"(1) by simp
  qed
qed

text \<open>Unmarking touches each element of the frame once.\<close>

definition popped :: "string option \<Rightarrow> string option" where
  "popped v = (case v of None \<Rightarrow> None | Some c \<Rightarrow> if strip_bid c \<noteq> [] then Some (strip_bid c) else None)"

lemma popped_pushed:
  "no_ws b \<Longrightarrow> popped (Some (''browsergym_id_'' @ b @ '' '' @ c)) = (if c = [] then None else Some c)"
  unfolding popped_def option.case strip_bid_pushed by simp

lemma pop_bid_get:
  "get_attr (pop_bid_from_attribute i attr A) j k =
     (if j = i \<and> k = attr then popped (get_attr A i attr) else get_attr A j k)"
  by (auto simp: pop_bid_from_attribute_def popped_def split: option.splits)

lemma unmark_loop_get:
  assumes "distinct (map nid (expand es))" "k \<in> set aria_attrs"
  shows "get_attr (unmark_loop es A) i k =
     (if i \<in> nid ` set (expand es) then popped (get_attr A i k) else get_attr A i k)"
  using assms
proof (induction es A rule: unmark_loop.induct)
  case (1 A)
  then show ?case by simp
next
  case (2 e es A)
  then show ?case by (auto simp: pop_bid_get aria_attrs_def)
qed

section \<open>Properties of whole passes\<close>

text \<open>
  A frame between passes: every identifier found on an element was handed out
  by the counters of this frame (clones made by the page may repeat one).
\<close>

definition start_state :: "frame_win \<Rightarrow> mark_state" where
  "start_state w =
     \<lparr>ms_attrs = fw_attrs w,
      ms_counter = (case fw_counter w of None \<Rightarrow> 0 | Some c \<Rightarrow> c),
      ms_gen = (if fw_counter w = None then [0] else fw_gen w),
      ms_bids = [], ms_som = [], ms_pending = []\<rparr>"

definition frame_ok :: "string \<Rightarrow> string \<Rightarrow> dnode list \<Rightarrow> frame_win \<Rightarrow> bool" where
  "frame_ok pb ba roots w \<longleftrightarrow>
     locals_ok (start_state w)
     \<and> (\<forall>e \<in> set (composed_all roots). \<forall>b. get_attr (fw_attrs w) (nid e) ba = Some b \<longrightarrow>
            b \<in> bids_issued pb (start_state w))"

abbreviation marked :: "string \<Rightarrow> dnode list \<Rightarrow> dnode set" where
  "marked tags roots \<equiv> {e \<in> set (composed_all roots). choose_tag tags e = Process}"

lemma mark_frame_loop:
  assumes "mark_frame env vis roots pb ba tags w = (Inr ws, w')"
  obtains s where "mark_loop env roots (fw_counter w = None) pb ba tags (qsa_all roots) (start_state w) = (None, s)"
    and "w' = \<lparr>fw_attrs = ms_attrs s, fw_counter = Some (ms_counter s), fw_gen = ms_gen s\<rparr>"
  using assms
  by (auto simp: mark_frame_def start_state_def Let_def split: prod.splits option.splits)

lemma frame_ok_inv:
  assumes "frame_ok pb ba roots w"
  shows "bids_inv pb ba (nid ` set (composed_all roots)) {} (start_state w)"
  using assms by (auto simp: frame_ok_def bids_inv_def start_state_def)

lemma mark_frame_inv:
  assumes m: "mark_frame env vis roots pb ba tags w = (Inr ws, w')"
    and ok: "frame_ok pb ba roots w" and d: "distinct (map nid (composed_all roots))"
    and ba: "ba \<notin> set script_attrs"
  obtains s where "fw_attrs w' = ms_attrs s" "frame_ok pb ba roots w'"
    and "bids_inv pb ba (nid ` set (composed_all roots)) (nid ` marked tags roots) s"
proof -
  obtain s where l: "mark_loop env roots (fw_counter w = None) pb ba tags (qsa_all roots) (start_state w) = (None, s)"
    and w': "w' = \<lparr>fw_attrs = ms_attrs s, fw_counter = Some (ms_counter s), fw_gen = ms_gen s\<rparr>"
    by (rule mark_frame_loop [OF m])
  have inv: "bids_inv pb ba (nid ` set (composed_all roots)) (nid ` marked tags roots) s"
    using mark_loop_inv [OF l ba frame_ok_inv [OF ok]] d by (simp add: expand_qsa_all)
  moreover have "frame_ok pb ba roots w'"
    using inv bids_issued_cong [of "start_state w'" s pb]
    by (auto simp: frame_ok_def bids_inv_def locals_ok_def start_state_def w')
  ultimately show ?thesis using that w' by simp
qed

lemma mark_loop_later_visit:
  "fst (mark_loop env roots False pb ba tags es s)
     \<noteq> Some (Throw (''Attribute '' @ ba @ '' already used in element '' @ x))"
proof (induction env roots "False" pb ba tags es s rule: mark_loop.induct)
  case (1 env roots pb ba tags s)
  then show ?case by simp
next
  case (2 env roots pb ba tags e es s)
  have n: "fst (mark_element env roots False pb ba e s) \<noteq>
       Some (Throw (''Attribute '' @ ba @ '' already used in element '' @ x))"
    by (auto simp: mark_element_def assign_bid_def flag_set_of_marks_def Let_def
        split: prod.splits option.splits if_splits sum.splits)
  show ?case
  proof (cases "choose_tag tags e")
    case Process
    obtain r s1 where m: "mark_element env roots False pb ba e s = (r, s1)" by fastforce
    show ?thesis
      using n m Process "2.hyps"(1) [OF refl Process m [symmetric]] by (cases r) (auto simp: Let_def)
  next
    case Skip
    then show ?thesis using "2.hyps"(2) [OF refl Skip] by simp
  next
    case BadTags
    then show ?thesis by simp
  qed
qed

text \<open>A small page on which the properties below are exercised.\<close>

definition bids_env :: frame_env where
  "bids_env = \<lparr>fe_value = (\<lambda>_. None), fe_checked = (\<lambda>_. None), fe_onclick = (\<lambda>_. False),
     fe_cursor = (\<lambda>_. ''auto''), fe_rect = (\<lambda>_. \<lparr>rleft = 0, rtop = 0, rwidth = 10, rheight = 10\<rparr>),
     fe_outer = (\<lambda>_. []), fe_hit = (\<lambda>_ _ _. None)\<rparr>"

definition bids_page :: "dnode list" where
  "bids_page = [Elem 0 ''HTML'' [Elem 1 ''A'' [] (Some [Elem 2 ''BUTTON'' [] None None]) None,
                                Elem 3 ''IFRAME'' [] None None] None None]"

definition bids_win :: frame_win where
  "bids_win = \<lparr>fw_attrs = (\<lambda>i. if i = 2 then [(''aria-description'', ''go'')] else []),
               fw_counter = None, fw_gen = []\<rparr>"

definition bids_run :: "(mark_stop + string list) \<times> frame_win" where
  "bids_run = mark_frame bids_env (\<lambda>_. True) bids_page [] ''bid'' ''all'' bids_win"

lemma bids_run: "mark_frame bids_env (\<lambda>_. True) bids_page [] ''bid'' ''all'' bids_win = (Inr [], snd bids_run)"
proof -
  have "fst bids_run = Inr []"
    by (simp add: bids_run_def mark_frame_def bids_page_def bids_win_def shadow_kids_def
        choose_tag_def mark_element_def assign_bid_def next_local_id_def gen_next_def
        flag_set_of_marks_def who_captures_center_click_def hit_loop.simps bids_env_def
        write_dynamic_def get_attr_def set_attr_def push_bid_to_attribute_def until_wait_def Let_def)
  then show ?thesis by (metis bids_run_def prod.collapse)
qed

lemma demo_ok: "frame_ok [] ''bid'' bids_page bids_win" "distinct (map nid (composed_all bids_page))"
  by (simp_all add: frame_ok_def bids_page_def bids_win_def locals_ok_def start_state_def gen_ok_def
      get_attr_def)

text \<open>
  C1. After a marking pass that returns, every marked element of the frame,
  shadow trees included, carries an identifier, no two marked elements carry the
  same one, and every identifier in the frame was handed out by the frame's
  counters (so the next pass starts from the same invariant).  Elements the page
  cloned with their identifier are told apart again.
\<close>

theorem mark_frame_bids_distinct:
  assumes m: "mark_frame env vis roots pb ba tags w = (Inr ws, w')"
    and ok: "frame_ok pb ba roots w" and d: "distinct (map nid (composed_all roots))"
    and ba: "ba \<notin> set script_attrs"
  shows "(\<forall>e \<in> marked tags roots. has_attr (fw_attrs w') (nid e) ba)
    \<and> inj_on (\<lambda>e. get_attr (fw_attrs w') (nid e) ba) (marked tags roots)
    \<and> frame_ok pb ba roots w'"
proof -
  obtain s where s: "fw_attrs w' = ms_attrs s" "frame_ok pb ba roots w'"
    and inv: "bids_inv pb ba (nid ` set (composed_all roots)) (nid ` marked tags roots) s"
    by (rule mark_frame_inv [OF m ok d ba])
  have "inj_on nid (marked tags roots)"
    using d by (auto simp: distinct_map intro: inj_on_subset)
  moreover have "inj_on (\<lambda>i. get_attr (ms_attrs s) i ba) (nid ` marked tags roots)"
    using inv by (simp add: bids_inv_def)
  ultimately have "inj_on ((\<lambda>i. get_attr (ms_attrs s) i ba) \<circ> nid) (marked tags roots)"
    by (rule comp_inj_on)
  then show ?thesis using s inv by (auto simp: bids_inv_def has_attr_def o_def)
qed

theorem mark_frame_bids_distinct_witness:
  "inj_on (\<lambda>e. get_attr (fw_attrs (snd bids_run)) (nid e) ''bid'') (marked ''all'' bids_page)"
  using mark_frame_bids_distinct [OF bids_run demo_ok] by (simp add: script_attrs_def)

text \<open>
  C33. Unmarking a frame right after marking it gives every element its ARIA
  attributes back, for texts that do not themselves start with the marker's
  prefix; the one loss is an attribute that was present and empty, which is
  removed.
\<close>

theorem unmark_restores_aria:
  assumes m: "mark_frame env vis roots pb ba tags w = (Inr ws, w')"
    and ok: "frame_ok pb ba roots w" and d: "distinct (map nid (composed_all roots))"
    and ba: "ba \<notin> set script_attrs" and pb: "no_ws pb"
    and e: "e \<in> set (composed_all roots)" and k: "k \<in> set aria_attrs"
    and own: "\<not> starts_with (content (fw_attrs w) (nid e) k) ''browsergym_id''"
  shows "get_attr (fw_attrs (unmark_frame roots w')) (nid e) k =
     (if get_attr (fw_attrs w) (nid e) k = Some [] then None else get_attr (fw_attrs w) (nid e) k)"
proof -
  obtain s where l: "mark_loop env roots (fw_counter w = None) pb ba tags (qsa_all roots) (start_state w) = (None, s)"
    and w': "w' = \<lparr>fw_attrs = ms_attrs s, fw_counter = Some (ms_counter s), fw_gen = ms_gen s\<rparr>"
    by (rule mark_frame_loop [OF m])
  have a: "(\<forall>i. i \<notin> nid ` marked tags roots \<longrightarrow>
            (\<forall>k \<in> set aria_attrs. get_attr (ms_attrs s) i k = get_attr (fw_attrs w) i k))
         \<and> (\<forall>e \<in> set (composed_all roots). choose_tag tags e = Process \<longrightarrow>
            bid_pushed (fw_attrs w) (ms_attrs s) (nid e))"
    using mark_loop_aria [OF l ba frame_ok_inv [OF ok] _ _ _ _ pb] d
    by (simp add: expand_qsa_all start_state_def)
  have u: "get_attr (fw_attrs (unmark_frame roots w')) (nid e) k = popped (get_attr (ms_attrs s) (nid e) k)"
    using unmark_loop_get [where es = "qsa_all roots" and k = k and i = "nid e"] d k e
    by (simp add: unmark_frame_def w' expand_qsa_all)
  show ?thesis
  proof (cases "nid e \<in> nid ` marked tags roots")
    case True
    then have "bid_pushed (fw_attrs w) (ms_attrs s) (nid e)" using a by auto
    then obtain b where b: "no_ws b"
      "get_attr (ms_attrs s) (nid e) k = Some (''browsergym_id_'' @ b @ '' '' @ content (fw_attrs w) (nid e) k)"
      using k unfolding bid_pushed_def by blast
    show ?thesis
      unfolding u b(2) popped_pushed [OF b(1)] by (simp add: content_def split: option.splits)
  next
    case False
    then have "get_attr (ms_attrs s) (nid e) k = get_attr (fw_attrs w) (nid e) k" using a k by simp
    then show ?thesis
      unfolding u using own by (auto simp: popped_def strip_bid_other content_def split: option.splits)
  qed
qed

theorem unmark_restores_aria_witness:
  "get_attr (fw_attrs (unmark_frame bids_page (snd bids_run))) 2 ''aria-description'' = Some ''go''"
  using unmark_restores_aria [OF bids_run demo_ok,
      of "Elem 2 ''BUTTON'' [] None None" "''aria-description''"]
  by (simp add: script_attrs_def no_ws_def bids_page_def aria_attrs_def content_def bids_win_def
      get_attr_def starts_with_def)

text \<open>
  The identifiers the frame generator hands out, from its initial state and
  for any number of calls, are pairwise distinct, and none is the decimal number
  of an ordinary element.
\<close>

theorem frame_ids_distinct:
  "distinct (fst (draw gen_next n [0])) \<and> set (fst (draw gen_next n [0])) \<inter> range show_nat = {}"
proof -
  obtain ls g where d: "draw gen_next n [0] = (ls, g)" by fastforce
  have ok: "gen_ok [0]" by (simp add: gen_ok_def)
  have "set ls \<subseteq> gen_issued g" using frame_ids.draw_ok [OF ok d] by auto
  then show ?thesis
    using frame_ids.draw_distinct [OF ok d] show_nat_not_gen_issued d by auto
qed

text \<open>
  The check that the identifier attribute is unused guards the first call
  only: whatever the first call did (it may have thrown that very error), no
  later call reports it.
\<close>

theorem attribute_clash_reported_once:
  "fst (mark_frame env' vis' roots' pb' ba' tags' (snd (mark_frame env vis roots pb ba tags w)))
     \<noteq> Inl (Throw (''Attribute '' @ ba' @ '' already used in element '' @ x))"
proof -
  define w1 where "w1 = snd (mark_frame env vis roots pb ba tags w)"
  have c: "fw_counter w1 \<noteq> None"
    by (cases "mark_loop env roots (fw_counter w = None) pb ba tags (qsa_all roots) (start_state w)")
       (simp add: w1_def mark_frame_def start_state_def Let_def split: option.splits)
  obtain r s where l: "mark_loop env' roots' False pb' ba' tags' (qsa_all roots') (start_state w1) = (r, s)"
    by fastforce
  then have "r \<noteq> Some (Throw (''Attribute '' @ ba' @ '' already used in element '' @ x))"
    using mark_loop_later_visit [of env' roots' pb' ba' tags' "qsa_all roots'" "start_state w1" x] by simp
  moreover have "fst (mark_frame env' vis' roots' pb' ba' tags' w1) =
      (case r of Some e \<Rightarrow> Inl e | None \<Rightarrow>
         Inr (if fst (until_wait vis' 1000 40) then []
              else [''Frame marking: not all elements have been visited by the intersection_observer after 1000 ms'']))"
    using c l by (auto simp: mark_frame_def start_state_def Let_def split: option.splits)
  ultimately show ?thesis unfolding w1_def [symmetric] by (auto split: option.splits)
qed

lemma until_poll_spec:
  assumes "until_poll f timeout interval t = (ok, t')" "0 < interval"
  shows "ok = f t' \<and> (ok \<or> timeout < t') \<and> t' \<le> max t (timeout + interval)
     \<and> (\<exists>n. t' = t + n * interval \<and> (\<forall>m < n. \<not> f (t + m * interval)))"
  using assms
proof (induction f timeout interval t rule: until_poll.induct)
  case (1 f timeout interval t)
  show ?case
  proof (cases "f t \<or> t > timeout")
    case True
    then have "t' = t \<and> ok = f t"
      using "1.prems" by (auto simp: until_poll.simps [of f timeout interval t] split: if_splits)
    with True show ?thesis by auto
  next
    case False
    have r: "until_poll f timeout interval (t + max 1 interval) = (ok, t')"
      using "1.prems" False by (simp add: until_poll.simps [of f timeout interval t])
    have mx: "max 1 interval = interval" using "1.prems"(2) by simp
    have ih: "ok = f t' \<and> (ok \<or> timeout < t') \<and> t' \<le> max (t + interval) (timeout + interval)
      \<and> (\<exists>n. t' = t + interval + n * interval \<and> (\<forall>m < n. \<not> f (t + interval + m * interval)))"
      using "1.IH" False r "1.prems"(2) unfolding mx by blast
    then obtain n where n: "t' = t + interval + n * interval"
      "\<forall>m < n. \<not> f (t + interval + m * interval)" by blast
    have "\<forall>m < Suc n. \<not> f (t + m * interval)"
    proof (intro allI impI)
      fix m assume "m < Suc n"
      then show "\<not> f (t + m * interval)"
        using False n(2) by (cases m) (auto simp: algebra_simps)
    qed
    moreover have "t' = t + Suc n * interval" using n(1) by simp
    ultimately have "\<exists>n. t' = t + n * interval \<and> (\<forall>m < n. \<not> f (t + m * interval))" by blast
    moreover have "t' \<le> max t (timeout + interval)" using ih False by auto
    ultimately show ?thesis using ih by blast
  qed
qed

text \<open>
  C40. The wait for the observer ends: it resolves exactly at the first poll at
  which the condition holds, or rejects at the first poll past the timeout, at
  most one interval late.
\<close>

theorem until_wait_stops:
  assumes "0 < interval"
  shows "fst (until_wait f timeout interval) = f (snd (until_wait f timeout interval))
    \<and> (fst (until_wait f timeout interval) \<or> timeout < snd (until_wait f timeout interval))
    \<and> snd (until_wait f timeout interval) \<le> timeout + interval
    \<and> (\<exists>n. snd (until_wait f timeout interval) = n * interval \<and> (\<forall>m < n. \<not> f (m * interval)))"
proof (cases "f 0")
  case True
  then show ?thesis by (auto simp: until_wait_def intro: exI [of _ 0])
next
  case False
  obtain ok t' where p: "until_poll f timeout interval interval = (ok, t')" by fastforce
  have w: "until_wait f timeout interval = (ok, t')"
    using False assms p by (simp add: until_wait_def max_def)
  note sp = until_poll_spec [OF p assms]
  then obtain n where n: "t' = interval + n * interval" "\<forall>m < n. \<not> f (interval + m * interval)" by blast
  have "\<forall>m < Suc n. \<not> f (m * interval)"
  proof (intro allI impI)
    fix m assume "m < Suc n"
    then show "\<not> f (m * interval)" using False n(2) by (cases m) auto
  qed
  moreover have "t' = Suc n * interval" using n(1) by simp
  ultimately have "\<exists>n. t' = n * interval \<and> (\<forall>m < n. \<not> f (m * interval))" by blast
  then show ?thesis using sp unfolding w fst_conv snd_conv by auto
qed

theorem until_wait_stops_witness:
  "(0::nat) < 40 \<and> snd (until_wait (\<lambda>t. 100 \<le> t) 1000 40) \<le> 1000 + 40"
  using until_wait_stops [of 40 "\<lambda>t. 100 \<le> t" 1000] by simp

end
