(* ===== verification/Page.thy ===== *)
theory Page
  imports Dom
begin

text \<open>
  What the extension's content scripts ask the browser about a page: computed
  styles, geometry, form state, event handlers, focus and hit testing.  These are
  answers of the layout engine, arguments of the model; the scripts' own
  decisions are made from them in the theories that import this one.
\<close>

record style =
  st_display :: string
  st_visibility :: string
  st_opacity :: string
  st_opacity_num :: "rat option"  \<comment> \<open>\<open>parseFloat\<close> of it, \<open>None\<close> for NaN\<close>
  st_cursor :: string
  st_position :: string

record page_env =
  pe_style :: "nat \<Rightarrow> style"
  pe_rect :: "nat \<Rightarrow> rect"
  pe_client_rects :: "nat \<Rightarrow> rect list"
  pe_offset_width :: "nat \<Rightarrow> rat"
  pe_offset_height :: "nat \<Rightarrow> rat"
  pe_inner_width :: rat
  pe_inner_height :: rat
  pe_client_width :: rat
  pe_client_height :: rat
  pe_attr_error :: "string \<Rightarrow> string option"  \<comment> \<open>what \<open>setAttribute\<close> throws for a name\<close>
  pe_read_only :: "nat \<Rightarrow> bool"  \<comment> \<open>elements whose attributes cannot be written\<close>
  pe_num :: "rat \<Rightarrow> string"  \<comment> \<open>number to string\<close>
  pe_onclick :: "nat \<Rightarrow> bool"
  pe_inline_cursor :: "nat \<Rightarrow> string"
  pe_input_type :: "nat \<Rightarrow> string"
  pe_checked :: "nat \<Rightarrow> bool"
  pe_value :: "nat \<Rightarrow> string"
  pe_selected :: "nat \<Rightarrow> bool"
  pe_text :: "nat \<Rightarrow> string option"
  pe_active :: "nat option \<Rightarrow> nat option"
  pe_body_html :: "string option"
  pe_body_text :: "string option"

section \<open>Replies\<close>

definition ok_obj :: "(string \<times> jv) list \<Rightarrow> jv" where
  "ok_obj fs = JObj ((''type'', JStr ''success'') # fs)"

definition err_obj :: "string \<Rightarrow> jv" where
  "err_obj m = JObj [(''type'', JStr ''error''), (''message'', JStr m)]"

lemma fld_ok_obj [simp]:
  "fld (ok_obj fs) k = (if k = ''type'' then JStr ''success'' else fld (JObj fs) k)"
  by (simp add: ok_obj_def)

lemma fld_err_obj [simp]: "fld (err_obj m) ''type'' = JStr ''error''" "fld (err_obj m) ''message'' = JStr m"
  by (simp_all add: err_obj_def)

section \<open>A page for concrete runs\<close>

definition demo_style :: style where
  "demo_style = \<lparr>st_display = ''block'', st_visibility = ''visible'', st_opacity = ''1'',
     st_opacity_num = Some 1, st_cursor = ''auto'', st_position = ''static''\<rparr>"

definition demo_rect :: rect where
  "demo_rect = \<lparr>rleft = 10, rtop = 10, rwidth = 50, rheight = 20\<rparr>"

definition demo_page :: page_env where
  "demo_page = \<lparr>pe_style = (\<lambda>_. demo_style), pe_rect = (\<lambda>_. demo_rect),
     pe_client_rects = (\<lambda>_. [demo_rect]), pe_offset_width = (\<lambda>_. 50), pe_offset_height = (\<lambda>_. 20),
     pe_inner_width = 800, pe_inner_height = 600, pe_client_width = 800, pe_client_height = 600,
     pe_attr_error = (\<lambda>_. None), pe_read_only = (\<lambda>_. False), pe_num = (\<lambda>_. ''1''),
     pe_onclick = (\<lambda>_. False), pe_inline_cursor = (\<lambda>_. []), pe_input_type = (\<lambda>_. ''text''),
     pe_checked = (\<lambda>_. False), pe_value = (\<lambda>_. ''v''), pe_selected = (\<lambda>_. False),
     pe_text = (\<lambda>_. None), pe_active = (\<lambda>_. None), pe_body_html = None, pe_body_text = None\<rparr>"

end
