(* ===== verification/Frame_Mark.thy ===== *)
theory Frame_Mark
  imports Page
begin

text \<open>
  The content script that marks elements for the agent
  (\<open>content/frame.mark.elements.ts\<close>): numbering with \<open>dom-tree-id\<close>, visibility
  scores, interactivity, dynamic properties, cleanup, the focus query, the
  highlight animation and the message handler.
\<close>

definition DOM_TREE_ID :: string where "DOM_TREE_ID = ''dom-tree-id''"
definition SETOFMARKS :: string where "SETOFMARKS = ''data-browsergym-setofmarks''"
definition VISIBILITY :: string where "VISIBILITY = ''data-browsergym-visibility''"

section \<open>State\<close>

text \<open>An overlay element of the animation: identifier, class, box and text.\<close>

record overlay =
  ov_id :: string
  ov_class :: string
  ov_left :: "rat option"
  ov_top :: "rat option"
  ov_size :: "(rat \<times> rat) option"
  ov_text :: jv

record fm_state =
  fm_attrs :: attrs
  fm_counter :: nat
  fm_initialized :: bool
  fm_listeners :: nat      \<comment> \<open>registrations on \<open>runtime.onMessage\<close> and \<open>beforeunload\<close>\<close>
  fm_exported :: bool      \<comment> \<open>\<open>window.browserGymContentScript\<close> is set\<close>
  fm_styles :: nat         \<comment> \<open>style elements the animation has injected\<close>
  fm_overlays :: "overlay list"

section \<open>Identifiers and visibility\<close>

definition generate_element_id :: "string \<Rightarrow> nat \<Rightarrow> string \<times> nat" where
  "generate_element_id frame_id c =
     (if frame_id \<noteq> [] then frame_id @ '':'' @ show_nat c else show_nat c, Suc c)"

definition is_element_visible :: "page_env \<Rightarrow> nat \<Rightarrow> bool" where
  "is_element_visible env i \<longleftrightarrow>
     st_display (pe_style env i) \<noteq> ''none''
     \<and> st_visibility (pe_style env i) \<noteq> ''hidden''
     \<and> st_opacity (pe_style env i) \<noteq> ''0''
     \<and> rwidth (pe_rect env i) > 0 \<and> rheight (pe_rect env i) > 0"

definition or_num :: "rat \<Rightarrow> rat \<Rightarrow> rat" where
  "or_num a b = (if a \<noteq> 0 then a else b)"

definition calculate_visibility :: "page_env \<Rightarrow> nat \<Rightarrow> rat" where
  "calculate_visibility env i =
     (if \<not> is_element_visible env i then 0
      else let r = pe_rect env i;
               score0 = (case st_opacity_num (pe_style env i) of None \<Rightarrow> 1 | Some q \<Rightarrow> or_num q 1);
               score1 = (if rwidth r * rheight r < 100 then score0 * (1 / 2) else score0);
               in_viewport = (rtop r \<ge> 0 \<and> rleft r \<ge> 0
                   \<and> rbottom r \<le> or_num (pe_inner_height env) (pe_client_height env)
                   \<and> rright r \<le> or_num (pe_inner_width env) (pe_client_width env));
               score2 = (if \<not> in_viewport then score1 * (3 / 10) else score1)
           in min 1 (max 0 score2))"

definition standard_tags :: "string list" where
  "standard_tags = [
     ''a'', ''button'', ''input'', ''textarea'', ''select'', ''option'',
     ''form'', ''label'', ''fieldset'', ''legend'',
     ''img'', ''video'', ''audio'', ''canvas'', ''svg'',
     ''div'', ''span'', ''p'', ''h1'', ''h2'', ''h3'', ''h4'', ''h5'', ''h6'',
     ''ul'', ''ol'', ''li'', ''dl'', ''dt'', ''dd'',
     ''table'', ''tr'', ''td'', ''th'', ''tbody'', ''thead'', ''tfoot'',
     ''nav'', ''header'', ''footer'', ''section'', ''article'', ''aside'',
     ''main'', ''details'', ''summary'', ''dialog'',
     ''menu'', ''menuitem'']"

definition should_mark_element :: "dnode \<Rightarrow> string \<Rightarrow> bool" where
  "should_mark_element e tags_to_mark \<longleftrightarrow>
     is_elem e \<and> (tags_to_mark = ''all'' \<or> lname e \<in> set standard_tags)"

definition is_element_interactive :: "page_env \<Rightarrow> attrs \<Rightarrow> dnode \<Rightarrow> bool" where
  "is_element_interactive env A e \<longleftrightarrow>
     lname e \<in> {''a'', ''button'', ''input'', ''textarea'', ''select'', ''option'',
                ''details'', ''summary'', ''dialog'', ''menu'', ''menuitem''}
     \<or> pe_onclick env (nid e)
     \<or> (case get_attr A (nid e) ''onclick'' of None \<Rightarrow> False | Some v \<Rightarrow> v \<noteq> [])
     \<or> pe_inline_cursor env (nid e) = ''pointer''
     \<or> (case get_attr A (nid e) ''role'' of None \<Rightarrow> False | Some r \<Rightarrow>
          r \<in> {''button'', ''link'', ''menuitem'', ''option'', ''radio'', ''checkbox'',
               ''slider'', ''spinbutton'', ''textbox'', ''combobox'', ''listbox''})"

definition bool_str :: "bool \<Rightarrow> string" where
  "bool_str b = (if b then ''true'' else ''false'')"

definition store_dynamic_properties :: "page_env \<Rightarrow> dnode \<Rightarrow> attrs \<Rightarrow> attrs" where
  "store_dynamic_properties env e A =
     (let i = nid e;
          A1 = (if lname e = ''input''
                then (if pe_input_type env i = ''checkbox'' \<or> pe_input_type env i = ''radio''
                      then set_attr A i ''data-browsergym-checked'' (bool_str (pe_checked env i))
                      else set_attr A i ''data-browsergym-value'' (pe_value env i))
                else if lname e \<in> {''textarea'', ''select''}
                then set_attr A i ''data-browsergym-value'' (pe_value env i)
                else A);
          A2 = (if lname e = ''option''
                then set_attr A1 i ''data-browsergym-selected'' (bool_str (pe_selected env i)) else A1);
          text = (case pe_text env i of None \<Rightarrow> [] | Some t \<Rightarrow> trim t)
      in if lname e \<in> {''button'', ''a'', ''label''} \<and> text \<noteq> []
         then set_attr A2 i ''data-browsergym-text'' text else A2)"

section \<open>Marking\<close>

text \<open>One element: the body of the inner \<open>try\<close>, with the warning of its \<open>catch\<close>.\<close>

definition mark_one :: "page_env \<Rightarrow> string \<Rightarrow> string \<Rightarrow> dnode \<Rightarrow> fm_state \<Rightarrow> string list \<times> fm_state" where
  "mark_one env frame_id ba e s =
     (let i = nid e;
          (id_err, s1) =
            (if \<not> has_attr (fm_attrs s) i ba
             then let (eid, c) = generate_element_id frame_id (fm_counter s)
                  in (case pe_attr_error env ba of
                        Some m \<Rightarrow> (Some m, s\<lparr>fm_counter := c\<rparr>)
                      | None \<Rightarrow> (None, s\<lparr>fm_counter := c, fm_attrs := set_attr (fm_attrs s) i ba eid\<rparr>))
             else (None, s))
      in case id_err of
           Some m \<Rightarrow> ([''Failed to mark element '' @ tag e @ '': '' @ m], s1)
         | None \<Rightarrow>
             (let A1 = set_attr (fm_attrs s1) i VISIBILITY (pe_num env (calculate_visibility env i));
                  A2 = (if is_element_interactive env A1 e then set_attr A1 i SETOFMARKS ''1'' else A1)
              in ([], s1\<lparr>fm_attrs := store_dynamic_properties env e A2\<rparr>)))"

fun mark_elements_loop ::
  "page_env \<Rightarrow> string \<Rightarrow> string \<Rightarrow> string \<Rightarrow> dnode list \<Rightarrow> fm_state \<Rightarrow> string list \<times> fm_state" where
  "mark_elements_loop env frame_id ba tags [] s = ([], s)"
| "mark_elements_loop env frame_id ba tags (e # es) s =
     (if \<not> should_mark_element e tags then mark_elements_loop env frame_id ba tags es s
      else let (w1, s1) = mark_one env frame_id ba e s;
               (w2, s2) = mark_elements_loop env frame_id ba tags es s1
           in (w1 @ w2, s2))"

fun mark_iframes_loop ::
  "page_env \<Rightarrow> string \<Rightarrow> string \<Rightarrow> dnode list \<Rightarrow> fm_state \<Rightarrow> string list \<times> fm_state" where
  "mark_iframes_loop env frame_id ba [] s = ([], s)"
| "mark_iframes_loop env frame_id ba (e # es) s =
     (if (case get_attr (fm_attrs s) (nid e) ba of None \<Rightarrow> True | Some v \<Rightarrow> v = [])
      then let (eid, c) = generate_element_id frame_id (fm_counter s);
               s1 = s\<lparr>fm_counter := c\<rparr>;
               (w1, s2) = (case pe_attr_error env ba of
                             Some m \<Rightarrow> ([''Failed to mark iframe: '' @ m], s1)
                           | None \<Rightarrow> ([], s1\<lparr>fm_attrs := set_attr (fm_attrs s1) (nid e) ba eid\<rparr>));
               (w2, s3) = mark_iframes_loop env frame_id ba es s2
           in (w1 @ w2, s3)
      else mark_iframes_loop env frame_id ba es s)"

definition iframes :: "dnode list \<Rightarrow> dnode list" where
  "iframes roots = filter (\<lambda>e. lname e \<in> {''iframe'', ''frame''}) (qsa_all roots)"

definition mark_elements ::
  "page_env \<Rightarrow> dnode list \<Rightarrow> string \<Rightarrow> string \<Rightarrow> string \<Rightarrow> fm_state \<Rightarrow> string list \<times> fm_state" where
  "mark_elements env roots frame_id ba tags s =
     (let (w1, s1) = mark_elements_loop env frame_id ba tags (qsa_all roots) s;
          (w2, s2) = mark_iframes_loop env frame_id ba (iframes roots) s1
      in (w1 @ w2, s2))"

section \<open>Unmarking\<close>

definition dynamic_attrs :: "string list" where
  "dynamic_attrs = [''data-browsergym-checked'', ''data-browsergym-value'',
                    ''data-browsergym-selected'', ''data-browsergym-text'']"

definition unmark_one :: "nat \<Rightarrow> attrs \<Rightarrow> attrs" where
  "unmark_one i A =
     foldl (\<lambda>B k. remove_attr B i k)
       (remove_attr (remove_attr A i VISIBILITY) i SETOFMARKS) dynamic_attrs"

definition unmark_elements :: "dnode list \<Rightarrow> fm_state \<Rightarrow> fm_state" where
  "unmark_elements roots s =
     (let with_bid = filter (\<lambda>e. has_attr (fm_attrs s) (nid e) DOM_TREE_ID) (qsa_all roots)
      in s\<lparr>fm_attrs := foldl (\<lambda>A e. unmark_one (nid e) A) (fm_attrs s) with_bid, fm_counter := 0\<rparr>)"

section \<open>Queries\<close>

text \<open>
  The focused element, through shadow roots.  The recursion has no bound of its
  own; exhausting the stack is an exception the caller turns into the empty string.
\<close>

partial_function (option) active_loop :: "page_env \<Rightarrow> nat list \<Rightarrow> nat option \<Rightarrow> nat option option" where
  "active_loop env hosts scope =
     (case pe_active env scope of
        None \<Rightarrow> Some None
      | Some e \<Rightarrow> if e \<in> set hosts then active_loop env hosts (Some e) else Some (Some e))"

definition get_focused_element_bid :: "page_env \<Rightarrow> dnode list \<Rightarrow> attrs \<Rightarrow> string" where
  "get_focused_element_bid env roots A =
     (case active_loop env (shadow_hosts roots) None of
        Some (Some e) \<Rightarrow> (case get_attr A e DOM_TREE_ID of None \<Rightarrow> [] | Some v \<Rightarrow> v)
      | _ \<Rightarrow> [])"

definition extract_page_content :: "page_env \<Rightarrow> string" where
  "extract_page_content env = (case pe_body_html env of None \<Rightarrow> [] | Some h \<Rightarrow> h)"

definition extract_page_content_as_text :: "page_env \<Rightarrow> string" where
  "extract_page_content_as_text env = (case pe_body_text env of None \<Rightarrow> [] | Some t \<Rightarrow> t)"

text \<open>\<open>document.querySelector([dom-tree-id="bid"])\<close>.\<close>

definition by_bid :: "dnode list \<Rightarrow> attrs \<Rightarrow> string \<Rightarrow> dnode option" where
  "by_bid roots A bid = find (\<lambda>e. get_attr A (nid e) DOM_TREE_ID = Some bid) (qsa_all roots)"

section \<open>The animation\<close>

text \<open>\<open>sx\<close>, \<open>sy\<close> are the scroll offsets, \<open>sfx\<close> the random identifier suffix.\<close>

definition animation_overlays :: "rat \<Rightarrow> rat \<Rightarrow> string \<Rightarrow> rect \<Rightarrow> string \<Rightarrow> jv \<Rightarrow> overlay list" where
  "animation_overlays sx sy sfx r icon_type banner =
     [\<lparr>ov_id = ''ai-highlight-'' @ sfx, ov_class = ''ai-highlight'',
       ov_left = Some (sx + rleft r - 3), ov_top = Some (sy + rtop r - 3),
       ov_size = Some (rwidth r + 6, rheight r + 6), ov_text = JUndef\<rparr>,
      \<lparr>ov_id = ''ai-focus-outline-'' @ sfx, ov_class = ''ai-focus-outline'',
       ov_left = Some (sx + rleft r - 5), ov_top = Some (sy + rtop r - 5),
       ov_size = Some (rwidth r + 10, rheight r + 10), ov_text = JUndef\<rparr>,
      \<lparr>ov_id = ''ai-icon-'' @ sfx, ov_class = ''ai-icon ai-'' @ icon_type @ ''-icon'',
       ov_left = Some (sx + rleft r + rwidth r + 8),
       ov_top = Some (sy + rtop r + (rheight r - 28) / 2), ov_size = None, ov_text = JUndef\<rparr>,
      \<lparr>ov_id = ''ai-banner-'' @ sfx, ov_class = ''ai-banner'',
       ov_left = None, ov_top = None, ov_size = None, ov_text = banner\<rparr>]"

definition add_animation ::
  "page_env \<Rightarrow> dnode list \<Rightarrow> rat \<Rightarrow> rat \<Rightarrow> string \<Rightarrow> string \<Rightarrow> string \<Rightarrow> jv \<Rightarrow> fm_state \<Rightarrow> jv \<times> fm_state" where
  "add_animation env roots sx sy sfx bid icon_type banner s =
     (let s1 = s\<lparr>fm_styles := Suc (fm_styles s)\<rparr>
      in case by_bid roots (fm_attrs s1) bid of
           None \<Rightarrow> (JObj [(''success'', JBool False), (''message'', JStr ''Element not found'')], s1)
         | Some e \<Rightarrow>
             (JObj [(''success'', JBool True)],
              s1\<lparr>fm_overlays := fm_overlays s1
                   @ animation_overlays sx sy sfx (pe_rect env (nid e)) icon_type banner\<rparr>))"

text \<open>The nested timers (5 s, then 0.5 s) remove the four overlays of one animation.\<close>

definition animation_expired :: "string \<Rightarrow> fm_state \<Rightarrow> fm_state" where
  "animation_expired sfx s =
     s\<lparr>fm_overlays := filter (\<lambda>ov. ov_id ov \<notin>
         {''ai-highlight-'' @ sfx, ''ai-focus-outline-'' @ sfx, ''ai-icon-'' @ sfx,
          ''ai-banner-'' @ sfx}) (fm_overlays s)\<rparr>"

section \<open>Lifecycle\<close>

definition fm_initialize :: "fm_state \<Rightarrow> fm_state" where
  "fm_initialize s =
     (if fm_initialized s then s
      else s\<lparr>fm_listeners := Suc (fm_listeners s), fm_exported := True, fm_initialized := True\<rparr>)"

definition fm_cleanup :: "dnode list \<Rightarrow> fm_state \<Rightarrow> fm_state" where
  "fm_cleanup roots s = (unmark_elements roots s)\<lparr>fm_counter := 0, fm_initialized := False\<rparr>"

section \<open>The message handler\<close>

text \<open>
  The environment of the handler: the page, the document, \<open>Date.now()\<close>, the
  scroll offsets, the random suffix, and \<open>window.DOMTreeAPI || window.CUGA_DOMTreeAPI\<close>
  with the effect of its \<open>analyzePage\<close> on the attributes.
\<close>

record handler_env =
  he_page :: page_env
  he_roots :: "dnode list"
  he_now :: rat
  he_scroll :: "rat \<times> rat"
  he_suffix :: string
  he_api :: "(jv \<Rightarrow> attrs \<Rightarrow> (exn + jv) \<times> attrs) option"

definition rect_obj :: "rect \<Rightarrow> jv" where
  "rect_obj r = JObj [(''left'', JNum (rleft r)), (''top'', JNum (rtop r)),
     (''right'', JNum (rright r)), (''bottom'', JNum (rbottom r)),
     (''width'', JNum (rwidth r)), (''height'', JNum (rheight r))]"

definition handle_mark :: "handler_env \<Rightarrow> jv \<Rightarrow> fm_state \<Rightarrow> jv \<times> fm_state" where
  "handle_mark he request s =
     (let str = js_to_string (pe_num (he_page he));
          s1 = unmark_elements (he_roots he) s;
          data = fld request ''data''
      in case get_prop data ''frameId'' of
           Inl m \<Rightarrow> (err_obj m, s1)
         | Inr frame_id \<Rightarrow>
             (let (ws, s2) = mark_elements (he_page he) (he_roots he)
                     (str (js_or frame_id (JStr [])))
                     (str (js_or (fld data ''bidAttribute'') (JStr DOM_TREE_ID)))
                     (str (js_or (fld data ''tagsToMark'') (JStr ''standard_html''))) s1
              in (ok_obj [(''warnings'', JArr (map JStr ws))], s2)))"

definition handle_rect :: "handler_env \<Rightarrow> jv \<Rightarrow> fm_state \<Rightarrow> jv" where
  "handle_rect he request s =
     (let bid = js_to_string (pe_num (he_page he)) (fld request ''bid'')
      in case by_bid (he_roots he) (fm_attrs s) bid of
           None \<Rightarrow> err_obj (''Element with dom-tree-id '' @ [CHR 0x27] @ bid @ [CHR 0x27] @ '' not found'')
         | Some e \<Rightarrow> ok_obj [(''data'', rect_obj (pe_rect (he_page he) (nid e)))])"

definition dom_tree_request :: "jv \<Rightarrow> jv" where
  "dom_tree_request data =
     JObj [(''doHighlightElements'', js_or (opt_prop data ''doHighlightElements'') (JBool False)),
           (''focusHighlightIndex'', js_or (opt_prop data ''focusHighlightIndex'') (JNum (-1))),
           (''viewportExpansion'', js_or (opt_prop data ''viewportExpansion'') (JNum 0)),
           (''debugMode'', js_or (opt_prop data ''debugMode'') (JBool False))]"

definition handle_dom_tree :: "handler_env \<Rightarrow> jv \<Rightarrow> fm_state \<Rightarrow> jv \<times> fm_state" where
  "handle_dom_tree he request s =
     (case he_api he of
        None \<Rightarrow> (err_obj ''DOM Tree API not available'', s)
      | Some api \<Rightarrow>
          (case api (dom_tree_request (fld request ''data'')) (fm_attrs s) of
             (Inl m, A) \<Rightarrow> (err_obj m, s\<lparr>fm_attrs := A\<rparr>)
           | (Inr r, A) \<Rightarrow> (ok_obj [(''data'', r)], s\<lparr>fm_attrs := A\<rparr>)))"

definition perform_select_option :: "handler_env \<Rightarrow> string \<Rightarrow> fm_state \<Rightarrow> exn + unit" where
  "perform_select_option he bid s =
     (case by_bid (he_roots he) (fm_attrs s) bid of
        None \<Rightarrow> Inl (''Element with dom-tree-id '' @ [CHR 0x27] @ bid @ [CHR 0x27] @ '' not found'')
      | Some _ \<Rightarrow> Inr ())"

definition fm_handle :: "handler_env \<Rightarrow> jv \<Rightarrow> fm_state \<Rightarrow> jv \<times> fm_state" where
  "fm_handle he request s =
     (let str = js_to_string (pe_num (he_page he)) in
      case get_prop request ''type'' of
        Inl m \<Rightarrow> (err_obj m, s)
      | Inr ty \<Rightarrow>
          if ty = JStr ''ping'' then (JObj [(''type'', JStr ''pong''), (''timestamp'', JNum (he_now he))], s)
          else if ty = JStr ''mark_elements'' then handle_mark he request s
          else if ty = JStr ''unmark_elements'' then (ok_obj [], unmark_elements (he_roots he) s)
          else if ty = JStr ''get_focused_element_bid''
            then (ok_obj [(''data'', JStr (get_focused_element_bid (he_page he) (he_roots he) (fm_attrs s)))], s)
          else if ty = JStr ''get_element_rect'' then (handle_rect he request s, s)
          else if ty = JStr ''extract_page_content''
            then (ok_obj [(''data'', JStr (if truthy (opt_prop (fld request ''data'') ''asText'')
                     then extract_page_content_as_text (he_page he)
                     else extract_page_content (he_page he)))], s)
          else if ty = JStr ''extract_dom_tree'' then handle_dom_tree he request s
          else if ty = JStr ''server_disconnected'' then (ok_obj [], unmark_elements (he_roots he) s)
          else if ty = JStr ''select_option''
            then (case perform_select_option he (str (fld request ''bid'')) s of
                    Inl m \<Rightarrow> err_obj m | Inr _ \<Rightarrow> ok_obj [], s)
          else if ty = JStr ''add_animation''
            then add_animation (he_page he) (he_roots he) (fst (he_scroll he)) (snd (he_scroll he))
                   (he_suffix he) (str (fld request ''bid'')) (str (fld request ''iconType''))
                   (fld request ''bannerText'') s
          else (err_obj (''Unknown request type: '' @ str ty), s))"

text \<open>The \<open>beforeunload\<close> listener.\<close>

definition fm_unload :: "dnode list \<Rightarrow> fm_state \<Rightarrow> fm_state" where
  "fm_unload = unmark_elements"

section \<open>What marking writes\<close>

definition mark_attrs :: "string list" where
  "mark_attrs = VISIBILITY # SETOFMARKS # dynamic_attrs"

lemma mark_attrs_names:
  "DOM_TREE_ID \<notin> set mark_attrs" "VISIBILITY \<in> set mark_attrs" "SETOFMARKS \<in> set mark_attrs"
  by (simp_all add: mark_attrs_def dynamic_attrs_def DOM_TREE_ID_def VISIBILITY_def SETOFMARKS_def)

lemma store_dynamic_other:
  "k \<notin> set mark_attrs \<or> j \<noteq> nid e \<Longrightarrow>
     get_attr (store_dynamic_properties env e A) j k = get_attr A j k"
  by (auto simp: store_dynamic_properties_def mark_attrs_def dynamic_attrs_def Let_def)

lemma mark_one_spec:
  assumes ba: "ba \<notin> set mark_attrs" and ok: "pe_attr_error env ba = None"
  shows "fst (mark_one env f ba e s) = []"
    and "fm_counter (snd (mark_one env f ba e s)) =
           (if has_attr (fm_attrs s) (nid e) ba then fm_counter s else Suc (fm_counter s))"
    and "get_attr (fm_attrs (snd (mark_one env f ba e s))) j ba =
           (if j = nid e \<and> \<not> has_attr (fm_attrs s) j ba
            then Some (fst (generate_element_id f (fm_counter s))) else get_attr (fm_attrs s) j ba)"
    and "k \<noteq> ba \<Longrightarrow> k \<notin> set mark_attrs \<or> j \<noteq> nid e \<Longrightarrow>
           get_attr (fm_attrs (snd (mark_one env f ba e s))) j k = get_attr (fm_attrs s) j k"
proof -
  have n: "ba \<noteq> VISIBILITY" "ba \<noteq> SETOFMARKS"
    using ba mark_attrs_names by metis+
  show "fst (mark_one env f ba e s) = []"
    by (simp add: mark_one_def generate_element_id_def ok Let_def)
  show "fm_counter (snd (mark_one env f ba e s)) =
           (if has_attr (fm_attrs s) (nid e) ba then fm_counter s else Suc (fm_counter s))"
    by (simp add: mark_one_def generate_element_id_def ok Let_def)
  show "get_attr (fm_attrs (snd (mark_one env f ba e s))) j ba =
           (if j = nid e \<and> \<not> has_attr (fm_attrs s) j ba
            then Some (fst (generate_element_id f (fm_counter s))) else get_attr (fm_attrs s) j ba)"
    using ba n
    by (cases "get_attr (fm_attrs s) (nid e) ba")
       (auto simp: mark_one_def generate_element_id_def ok Let_def store_dynamic_other has_attr_def)
  show "k \<noteq> ba \<Longrightarrow> k \<notin> set mark_attrs \<or> j \<noteq> nid e \<Longrightarrow>
           get_attr (fm_attrs (snd (mark_one env f ba e s))) j k = get_attr (fm_attrs s) j k"
    using mark_attrs_names
    by (auto simp: mark_one_def generate_element_id_def ok Let_def store_dynamic_other)
qed

section \<open>Identifiers handed out\<close>

definition eids_issued :: "string \<Rightarrow> nat \<Rightarrow> string set" where
  "eids_issued f c = (\<lambda>k. fst (generate_element_id f k)) ` {..<c}"

lemma generate_inj: "fst (generate_element_id f k) = fst (generate_element_id f l) \<longleftrightarrow> k = l"
  by (auto simp: generate_element_id_def)

lemma generate_not_Nil [simp]: "fst (generate_element_id f k) \<noteq> []"
  by (simp add: generate_element_id_def)

interpretation element_ids: fresh_source "generate_element_id f" "eids_issued f" "\<lambda>_. True"
proof
  fix s i t assume g: "generate_element_id f s = (i, t)"
  then have i: "i = fst (generate_element_id f s)" "t = Suc s" by (auto simp: generate_element_id_def)
  show "i \<notin> eids_issued f s" using generate_inj i(1) by (auto simp: eids_issued_def)
  show "eids_issued f t = insert i (eids_issued f s)"
    by (simp add: eids_issued_def i lessThan_Suc)
qed simp

text \<open>
  The identifiers on a page are sound for the counter: each was handed out below
  it, and no two elements share one.
\<close>

definition page_ids_ok :: "string \<Rightarrow> string \<Rightarrow> dnode list \<Rightarrow> fm_state \<Rightarrow> bool" where
  "page_ids_ok f ba es s \<longleftrightarrow>
     (\<forall>e \<in> set es. \<forall>v. get_attr (fm_attrs s) (nid e) ba = Some v \<longrightarrow> v \<in> eids_issued f (fm_counter s))
     \<and> inj_on (\<lambda>e. get_attr (fm_attrs s) (nid e) ba) {e \<in> set es. has_attr (fm_attrs s) (nid e) ba}"

text \<open>Writing a fresh identifier on an element that has none keeps the identifiers sound.\<close>

lemma page_ids_ok_fresh:
  assumes ok: "page_ids_ok f ba es s" and e: "e \<in> set es" and inj: "inj_on nid (set es)"
    and no: "\<not> has_attr (fm_attrs s) (nid e) ba"
    and c: "fm_counter t = Suc (fm_counter s)"
    and t: "\<And>j. get_attr (fm_attrs t) j ba =
       (if j = nid e then Some (fst (generate_element_id f (fm_counter s))) else get_attr (fm_attrs s) j ba)"
  shows "page_ids_ok f ba es t"
proof -
  let ?new = "fst (generate_element_id f (fm_counter s))"
  have g: "generate_element_id f (fm_counter s) = (?new, Suc (fm_counter s))"
    by (simp add: generate_element_id_def)
  have iss: "?new \<notin> eids_issued f (fm_counter s)"
      "eids_issued f (fm_counter t) = insert ?new (eids_issued f (fm_counter s))"
    using element_ids.fresh [OF _ g] element_ids.issues [OF _ g] c by simp_all
  have old: "get_attr (fm_attrs s) (nid x) ba \<noteq> Some ?new" if "x \<in> set es" for x
    using ok that iss(1) by (auto simp: page_ids_ok_def)
  have "inj_on (\<lambda>e. get_attr (fm_attrs t) (nid e) ba) {x \<in> set es. has_attr (fm_attrs t) (nid x) ba}"
  proof (rule inj_onI)
    fix x y
    assume x: "x \<in> {x \<in> set es. has_attr (fm_attrs t) (nid x) ba}"
      and y: "y \<in> {x \<in> set es. has_attr (fm_attrs t) (nid x) ba}"
      and eq: "get_attr (fm_attrs t) (nid x) ba = get_attr (fm_attrs t) (nid y) ba"
    have xs: "x \<in> set es" "y \<in> set es" using x y by auto
    consider "nid x = nid e" "nid y = nid e" | "nid x = nid e" "nid y \<noteq> nid e"
      | "nid x \<noteq> nid e" "nid y = nid e" | "nid x \<noteq> nid e" "nid y \<noteq> nid e" by blast
    then show "x = y"
    proof cases
      case 1
      then have "nid x = nid y" by simp
      then show ?thesis using inj_onD [OF inj _ xs] by blast
    next
      case 2
      then show ?thesis using eq old [OF xs(2)] by (simp add: t)
    next
      case 3
      then show ?thesis using eq old [OF xs(1)] by (simp add: t)
    next
      case 4
      then have "x \<in> {e \<in> set es. has_attr (fm_attrs s) (nid e) ba}"
          "y \<in> {e \<in> set es. has_attr (fm_attrs s) (nid e) ba}"
          "get_attr (fm_attrs s) (nid x) ba = get_attr (fm_attrs s) (nid y) ba"
        using x y eq by (simp_all add: t has_attr_def)
      then show ?thesis using ok unfolding page_ids_ok_def by (blast dest: inj_onD)
    qed
  qed
  moreover have "v \<in> eids_issued f (fm_counter t)"
    if "x \<in> set es" "get_attr (fm_attrs t) (nid x) ba = Some v" for x v
    using that ok by (auto simp: t iss(2) page_ids_ok_def split: if_splits)
  ultimately show ?thesis by (simp add: page_ids_ok_def)
qed

lemma page_ids_ok_cong:
  "fm_counter s = fm_counter t \<Longrightarrow> (\<And>j. get_attr (fm_attrs s) j ba = get_attr (fm_attrs t) j ba) \<Longrightarrow>
   page_ids_ok f ba es s \<longleftrightarrow> page_ids_ok f ba es t"
  by (simp add: page_ids_ok_def has_attr_def)

lemma mark_one_ids_ok:
  assumes "ba \<notin> set mark_attrs" "pe_attr_error env ba = None"
    and "page_ids_ok f ba es s" "e \<in> set es" "inj_on nid (set es)"
  shows "page_ids_ok f ba es (snd (mark_one env f ba e s))"
proof (cases "has_attr (fm_attrs s) (nid e) ba")
  case True
  have "page_ids_ok f ba es (snd (mark_one env f ba e s)) \<longleftrightarrow> page_ids_ok f ba es s"
  proof (rule page_ids_ok_cong)
    show "fm_counter (snd (mark_one env f ba e s)) = fm_counter s"
      using mark_one_spec(2) [OF assms(1,2)] True by simp
    show "get_attr (fm_attrs (snd (mark_one env f ba e s))) j ba = get_attr (fm_attrs s) j ba" for j
      using mark_one_spec(3) [OF assms(1,2)] True by auto
  qed
  then show ?thesis using assms(3) by simp
next
  case False
  show ?thesis
  proof (rule page_ids_ok_fresh [OF assms(3,4,5) False])
    show "fm_counter (snd (mark_one env f ba e s)) = Suc (fm_counter s)"
      using mark_one_spec(2) [OF assms(1,2)] False by simp
    show "get_attr (fm_attrs (snd (mark_one env f ba e s))) j ba = (if j = nid e
        then Some (fst (generate_element_id f (fm_counter s))) else get_attr (fm_attrs s) j ba)" for j
      using mark_one_spec(3) [OF assms(1,2)] False by auto
  qed
qed

lemma mark_elements_loop_ids:
  assumes ba: "ba \<notin> set mark_attrs" and ok: "pe_attr_error env ba = None" and inj: "inj_on nid (set all)"
  shows "page_ids_ok f ba all s \<Longrightarrow> set es \<subseteq> set all \<Longrightarrow>
     mark_elements_loop env f ba tags es s = (ws, s') \<Longrightarrow>
     ws = [] \<and> page_ids_ok f ba all s'
     \<and> (\<forall>j. has_attr (fm_attrs s) j ba \<longrightarrow> get_attr (fm_attrs s') j ba = get_attr (fm_attrs s) j ba)
     \<and> (\<forall>e \<in> set es. should_mark_element e tags \<longrightarrow> has_attr (fm_attrs s') (nid e) ba)"
proof (induction es arbitrary: s ws s')
  case Nil
  then show ?case by simp
next
  case (Cons e es)
  show ?case
  proof (cases "should_mark_element e tags")
    case False
    then show ?thesis using Cons by simp
  next
    case True
    obtain w1 s1 where m: "mark_one env f ba e s = (w1, s1)" by fastforce
    obtain w2 s2 where l: "mark_elements_loop env f ba tags es s1 = (w2, s2)" by fastforce
    have o1: "page_ids_ok f ba all s1"
      using mark_one_ids_ok [OF ba ok Cons.prems(1) _ inj, of e] Cons.prems(2) m by simp
    have ih: "w2 = [] \<and> page_ids_ok f ba all s2
       \<and> (\<forall>j. has_attr (fm_attrs s1) j ba \<longrightarrow> get_attr (fm_attrs s2) j ba = get_attr (fm_attrs s1) j ba)
       \<and> (\<forall>e \<in> set es. should_mark_element e tags \<longrightarrow> has_attr (fm_attrs s2) (nid e) ba)"
      using Cons.IH [OF o1 _ l] Cons.prems(2) by simp
    have g: "get_attr (fm_attrs s1) j ba = (if j = nid e \<and> \<not> has_attr (fm_attrs s) j ba
        then Some (fst (generate_element_id f (fm_counter s))) else get_attr (fm_attrs s) j ba)" for j
      using mark_one_spec(3) [OF ba ok, of f e s j] m by simp
    have he: "has_attr (fm_attrs s1) (nid e) ba" using g [of "nid e"] by (simp add: has_attr_def)
    have keep1: "has_attr (fm_attrs s1) j ba \<and> get_attr (fm_attrs s1) j ba = get_attr (fm_attrs s) j ba"
      if "has_attr (fm_attrs s) j ba" for j
      using g [of j] that by (auto simp: has_attr_def)
    have keep2: "has_attr (fm_attrs s2) (nid e) ba" using ih he by (simp add: has_attr_def)
    have r: "ws = w1 @ w2 \<and> s' = s2" using Cons.prems(3) True m l by simp
    have "w1 = []" using mark_one_spec(1) [OF ba ok, of f e s] m by simp
    then show ?thesis using ih r keep1 keep2 by simp
  qed
qed

lemma mark_iframes_loop_ids:
  assumes ok: "pe_attr_error env ba = None" and inj: "inj_on nid (set all)"
  shows "page_ids_ok f ba all s \<Longrightarrow> set es \<subseteq> set all \<Longrightarrow>
     mark_iframes_loop env f ba es s = (ws, s') \<Longrightarrow>
     ws = [] \<and> page_ids_ok f ba all s'
     \<and> (\<forall>x \<in> set all. has_attr (fm_attrs s) (nid x) ba \<longrightarrow> get_attr (fm_attrs s') (nid x) ba = get_attr (fm_attrs s) (nid x) ba)
     \<and> (\<forall>e \<in> set es. has_attr (fm_attrs s') (nid e) ba)"
proof (induction es arbitrary: s ws s')
  case Nil
  then show ?case by simp
next
  case (Cons e es)
  have eall: "e \<in> set all" using Cons.prems(2) by simp
  have nonempty: "get_attr (fm_attrs s) (nid e) ba \<noteq> Some []"
  proof
    assume "get_attr (fm_attrs s) (nid e) ba = Some []"
    then have "[] \<in> eids_issued f (fm_counter s)"
      using Cons.prems(1) eall unfolding page_ids_ok_def by blast
    then obtain k where "[] = fst (generate_element_id f k)" unfolding eids_issued_def by blast
    then show False using generate_not_Nil by metis
  qed
  show ?case
  proof (cases "get_attr (fm_attrs s) (nid e) ba")
    case (Some v)
    then have "mark_iframes_loop env f ba es s = (ws, s')"
      using Cons.prems(3) nonempty by simp
    then have ih: "ws = [] \<and> page_ids_ok f ba all s'
       \<and> (\<forall>x \<in> set all. has_attr (fm_attrs s) (nid x) ba \<longrightarrow> get_attr (fm_attrs s') (nid x) ba = get_attr (fm_attrs s) (nid x) ba)
       \<and> (\<forall>e \<in> set es. has_attr (fm_attrs s') (nid e) ba)"
      using Cons.IH [OF Cons.prems(1)] Cons.prems(2) by simp
    have "has_attr (fm_attrs s) (nid e) ba" using Some by (simp add: has_attr_def)
    then have "get_attr (fm_attrs s') (nid e) ba = Some v" using ih Some eall by simp
    then have "has_attr (fm_attrs s') (nid e) ba" by (simp add: has_attr_def)
    then show ?thesis using ih by simp
  next
    case None
    define s2 where "s2 = s\<lparr>fm_counter := Suc (fm_counter s),
        fm_attrs := set_attr (fm_attrs s) (nid e) ba (fst (generate_element_id f (fm_counter s)))\<rparr>"
    obtain w3 s3 where l: "mark_iframes_loop env f ba es s2 = (w3, s3)" by fastforce
    have r: "ws = w3 \<and> s' = s3"
      using Cons.prems(3) None l ok by (simp add: s2_def generate_element_id_def Let_def)
    have "page_ids_ok f ba all s2"
    proof (rule page_ids_ok_fresh [OF Cons.prems(1) eall inj])
      show "\<not> has_attr (fm_attrs s) (nid e) ba" using None by (simp add: has_attr_def)
      show "fm_counter s2 = Suc (fm_counter s)" by (simp add: s2_def)
      show "get_attr (fm_attrs s2) j ba = (if j = nid e
          then Some (fst (generate_element_id f (fm_counter s))) else get_attr (fm_attrs s) j ba)" for j
        by (simp add: s2_def)
    qed
    then have ih: "w3 = [] \<and> page_ids_ok f ba all s3
       \<and> (\<forall>x \<in> set all. has_attr (fm_attrs s2) (nid x) ba \<longrightarrow> get_attr (fm_attrs s3) (nid x) ba = get_attr (fm_attrs s2) (nid x) ba)
       \<and> (\<forall>e \<in> set es. has_attr (fm_attrs s3) (nid e) ba)"
      using Cons.IH [OF _ _ l] Cons.prems(2) by simp
    have g: "get_attr (fm_attrs s2) j ba = (if j = nid e
        then Some (fst (generate_element_id f (fm_counter s))) else get_attr (fm_attrs s) j ba)" for j
      by (simp add: s2_def)
    have "has_attr (fm_attrs s2) (nid e) ba" using g [of "nid e"] by (simp add: has_attr_def)
    then have he: "has_attr (fm_attrs s3) (nid e) ba" using ih eall by (simp add: has_attr_def)
    have keep: "has_attr (fm_attrs s2) j ba \<and> get_attr (fm_attrs s2) j ba = get_attr (fm_attrs s) j ba"
      if "has_attr (fm_attrs s) j ba" for j
    proof -
      have "j \<noteq> nid e" using that None by (auto simp: has_attr_def)
      then show ?thesis using g [of j] that by (simp add: has_attr_def)
    qed
    show ?thesis using ih r he keep by simp
  qed
qed


text \<open>
  What a run of the marking loop leaves, whatever the identifiers on the page: the
  attributes it writes, only on elements it marks, and the identifiers of the others.
\<close>

lemma mark_elements_loop_attrs:
  assumes ba: "ba \<notin> set mark_attrs" and ok: "pe_attr_error env ba = None"
  shows "mark_elements_loop env f ba tags es s = (ws, s') \<Longrightarrow>
     (\<forall>j. has_attr (fm_attrs s) j ba \<longrightarrow> get_attr (fm_attrs s') j ba = get_attr (fm_attrs s) j ba)
     \<and> (\<forall>j k. k \<noteq> ba \<longrightarrow> get_attr (fm_attrs s') j k \<noteq> get_attr (fm_attrs s) j k \<longrightarrow>
          k \<in> set mark_attrs \<and> j \<in> nid ` set es \<and> has_attr (fm_attrs s') j ba)"
proof (induction es arbitrary: s ws s')
  case Nil
  then show ?case by simp
next
  case (Cons e es)
  show ?case
  proof (cases "should_mark_element e tags")
    case False
    then have "mark_elements_loop env f ba tags es s = (ws, s')" using Cons.prems by simp
    from Cons.IH [OF this] show ?thesis by auto
  next
    case True
    obtain w1 s1 where m: "mark_one env f ba e s = (w1, s1)" by fastforce
    obtain w2 s2 where l: "mark_elements_loop env f ba tags es s1 = (w2, s2)" by fastforce
    have r: "s' = s2" using Cons.prems True m l by simp
    note ih = Cons.IH [OF l]
    have g: "get_attr (fm_attrs s1) j ba = (if j = nid e \<and> \<not> has_attr (fm_attrs s) j ba
        then Some (fst (generate_element_id f (fm_counter s))) else get_attr (fm_attrs s) j ba)" for j
      using mark_one_spec(3) [OF ba ok, of f e s j] m by simp
    have o: "k \<noteq> ba \<Longrightarrow> k \<notin> set mark_attrs \<or> j \<noteq> nid e \<Longrightarrow>
        get_attr (fm_attrs s1) j k = get_attr (fm_attrs s) j k" for j k
      using mark_one_spec(4) [OF ba ok, of k j e f s] m by simp
    have he: "has_attr (fm_attrs s1) (nid e) ba" using g [of "nid e"] by (simp add: has_attr_def)
    have kept: "has_attr (fm_attrs s2) j ba" if "has_attr (fm_attrs s1) j ba" for j
      using ih that by (simp add: has_attr_def)
    show ?thesis
    proof (intro conjI allI impI)
      fix j assume h: "has_attr (fm_attrs s) j ba"
      have "get_attr (fm_attrs s1) j ba = get_attr (fm_attrs s) j ba" using g [of j] h by simp
      then show "get_attr (fm_attrs s') j ba = get_attr (fm_attrs s) j ba"
        using ih h r by (simp add: has_attr_def)
    next
      fix j k assume k: "k \<noteq> ba" and d: "get_attr (fm_attrs s') j k \<noteq> get_attr (fm_attrs s) j k"
      consider "get_attr (fm_attrs s2) j k \<noteq> get_attr (fm_attrs s1) j k"
        | "get_attr (fm_attrs s1) j k \<noteq> get_attr (fm_attrs s) j k" using d r by metis
      then have "k \<in> set mark_attrs \<and> (j \<in> nid ` set es \<or> j = nid e) \<and> has_attr (fm_attrs s2) j ba"
      proof cases
        case 1
        then show ?thesis using ih k by blast
      next
        case 2
        then have "k \<in> set mark_attrs \<and> j = nid e" using o [OF k, of j] by blast
        then show ?thesis using kept [OF he] by simp
      qed
      then show "k \<in> set mark_attrs" "j \<in> nid ` set (e # es)" "has_attr (fm_attrs s') j ba"
        using r by auto
    qed
  qed
qed

lemma mark_iframes_loop_attrs:
  "mark_iframes_loop env f ba es s = (ws, s') \<Longrightarrow>
     (\<forall>j. has_attr (fm_attrs s) j ba \<longrightarrow> get_attr (fm_attrs s) j ba \<noteq> Some [] \<longrightarrow>
          get_attr (fm_attrs s') j ba = get_attr (fm_attrs s) j ba)
     \<and> (\<forall>j. has_attr (fm_attrs s) j ba \<longrightarrow> has_attr (fm_attrs s') j ba)
     \<and> (\<forall>j k. k \<noteq> ba \<longrightarrow> get_attr (fm_attrs s') j k = get_attr (fm_attrs s) j k)"
proof (induction es arbitrary: s ws s')
  case Nil
  then show ?case by simp
next
  case (Cons e es)
  show ?case
  proof (cases "case get_attr (fm_attrs s) (nid e) ba of None \<Rightarrow> True | Some v \<Rightarrow> v = []")
    case False
    then have "mark_iframes_loop env f ba es s = (ws, s')" using Cons.prems by simp
    from Cons.IH [OF this] show ?thesis .
  next
    case True
    define s1 where "s1 = s\<lparr>fm_counter := Suc (fm_counter s)\<rparr>"
    define s2 where "s2 = (case pe_attr_error env ba of Some m \<Rightarrow> s1
        | None \<Rightarrow> s1\<lparr>fm_attrs := set_attr (fm_attrs s1) (nid e) ba (fst (generate_element_id f (fm_counter s)))\<rparr>)"
    obtain w3 s3 where l: "mark_iframes_loop env f ba es s2 = (w3, s3)" by fastforce
    have r: "s' = s3"
      using Cons.prems True l
      by (simp add: s2_def s1_def generate_element_id_def Let_def split: option.splits prod.splits)
    have g: "get_attr (fm_attrs s2) j k = get_attr (fm_attrs s) j k" if "j \<noteq> nid e \<or> k \<noteq> ba" for j k
      using that by (auto simp: s2_def s1_def split: option.split)
    have h: "has_attr (fm_attrs s2) j ba" if "has_attr (fm_attrs s) j ba" for j
      using that by (auto simp: s2_def s1_def split: option.split)
    have "get_attr (fm_attrs s2) j ba = get_attr (fm_attrs s) j ba"
      if "get_attr (fm_attrs s) j ba \<noteq> Some []" "has_attr (fm_attrs s) j ba" for j
    proof -
      have "j \<noteq> nid e" using that True by (auto simp: has_attr_def split: option.splits)
      then show ?thesis using g by blast
    qed
    then show ?thesis using Cons.IH [OF l] r g h by (simp add: has_attr_def)
  qed
qed

lemma unmark_one_attr:
  "get_attr (unmark_one i A) j k = (if j = i \<and> k \<in> set mark_attrs then None else get_attr A j k)"
  by (auto simp: unmark_one_def mark_attrs_def dynamic_attrs_def)

lemma unmark_all_attr:
  "get_attr (foldl (\<lambda>A e. unmark_one (nid e) A) A es) j k =
     (if j \<in> nid ` set es \<and> k \<in> set mark_attrs then None else get_attr A j k)"
  by (induction es arbitrary: A) (auto simp: unmark_one_attr)

lemma unmark_elements_attr:
  "get_attr (fm_attrs (unmark_elements roots s)) j k =
     (if j \<in> nid ` set (filter (\<lambda>e. has_attr (fm_attrs s) (nid e) DOM_TREE_ID) (qsa_all roots)) \<and> k \<in> set mark_attrs
      then None else get_attr (fm_attrs s) j k)"
proof -
  have "fm_attrs (unmark_elements roots s) = foldl (\<lambda>A e. unmark_one (nid e) A) (fm_attrs s)
      (filter (\<lambda>e. has_attr (fm_attrs s) (nid e) DOM_TREE_ID) (qsa_all roots))"
    by (simp add: unmark_elements_def Let_def)
  then show ?thesis by (simp only: unmark_all_attr)
qed

lemma unmark_keeps_ids [simp]:
  "get_attr (fm_attrs (unmark_elements roots s)) j DOM_TREE_ID = get_attr (fm_attrs s) j DOM_TREE_ID"
  "fm_counter (unmark_elements roots s) = 0"
  using mark_attrs_names(1) by (simp_all add: unmark_elements_attr)
    (simp add: unmark_elements_def Let_def)

section \<open>Properties\<close>

text \<open>
  Marking a page whose identifiers are sound for the counter raises no warning and
  leaves every element that is to be marked, and every iframe, with an identifier;
  the identifiers are still sound.
\<close>

lemma sound_ids_stay:
  assumes ba: "ba \<notin> set mark_attrs" and ok: "pe_attr_error env ba = None"
    and inj: "inj_on nid (set (qsa_all roots))"
    and pre: "page_ids_ok f ba (qsa_all roots) s"
    and run: "mark_elements env roots f ba tags s = (ws, s')"
  shows "ws = [] \<and> page_ids_ok f ba (qsa_all roots) s'
     \<and> (\<forall>e \<in> set (qsa_all roots). should_mark_element e tags \<or> e \<in> set (iframes roots)
          \<longrightarrow> has_attr (fm_attrs s') (nid e) ba)
     \<and> (\<forall>e \<in> set (qsa_all roots). has_attr (fm_attrs s) (nid e) ba
          \<longrightarrow> get_attr (fm_attrs s') (nid e) ba = get_attr (fm_attrs s) (nid e) ba)"
proof -
  let ?all = "qsa_all roots"
  obtain w1 s1 where l1: "mark_elements_loop env f ba tags ?all s = (w1, s1)" by fastforce
  obtain w2 s2 where l2: "mark_iframes_loop env f ba (iframes roots) s1 = (w2, s2)" by fastforce
  have r: "ws = w1 @ w2" "s' = s2" using run l1 l2 by (simp_all add: mark_elements_def)
  note A = mark_elements_loop_ids [OF ba ok inj pre subset_refl l1]
  have sub: "set (iframes roots) \<subseteq> set ?all" by (auto simp: iframes_def)
  note B = mark_iframes_loop_ids [OF ok inj conjunct1 [OF conjunct2 [OF A]] sub l2]
  have keep: "has_attr (fm_attrs s2) (nid e) ba \<and> get_attr (fm_attrs s2) (nid e) ba = get_attr (fm_attrs s1) (nid e) ba"
    if "e \<in> set ?all" "has_attr (fm_attrs s1) (nid e) ba" for e
  proof -
    have "get_attr (fm_attrs s2) (nid e) ba = get_attr (fm_attrs s1) (nid e) ba" using B that by blast
    then show ?thesis using that(2) by (simp add: has_attr_def)
  qed
  have had: "has_attr (fm_attrs s1) j ba" if "has_attr (fm_attrs s) j ba" for j
    using A that by (simp add: has_attr_def)
  show ?thesis
  proof (intro conjI ballI impI)
    show "ws = []" using A B r by simp
    show "page_ids_ok f ba ?all s'" using B r by simp
    show "has_attr (fm_attrs s') (nid e) ba"
      if e: "e \<in> set ?all" and o: "should_mark_element e tags \<or> e \<in> set (iframes roots)" for e
      using A B r keep [OF e] e o by blast
    show "get_attr (fm_attrs s') (nid e) ba = get_attr (fm_attrs s) (nid e) ba"
      if e: "e \<in> set ?all" and h: "has_attr (fm_attrs s) (nid e) ba" for e
      using keep [OF e had [OF h]] A h r by simp
  qed
qed

definition demo_roots :: "dnode list" where
  "demo_roots = [Elem 0 ''BODY'' [Elem 1 ''BUTTON'' [] None None, Elem 2 ''IFRAME'' [] None None,
      Elem 3 ''INPUT'' [] None None] None None]"

definition fm_start :: fm_state where
  "fm_start = \<lparr>fm_attrs = (\<lambda>_. []), fm_counter = 0, fm_initialized = False, fm_listeners = 0,
     fm_exported = False, fm_styles = 0, fm_overlays = []\<rparr>"

text \<open>
  Marking a page and unmarking it leaves every attribute of every node as it was,
  the identifiers under \<open>dom-tree-id\<close> apart, when none of the attributes the marking
  writes was on the page before; the identifiers stay, and the counter is back at 0.
\<close>

theorem unmark_after_mark:
  assumes ok: "pe_attr_error env DOM_TREE_ID = None"
    and clean: "\<forall>j. \<forall>k \<in> set mark_attrs. get_attr (fm_attrs s) j k = None"
    and run: "mark_elements env roots f DOM_TREE_ID tags s = (ws, s')"
  shows "(k \<noteq> DOM_TREE_ID \<longrightarrow> get_attr (fm_attrs (unmark_elements roots s')) j k = get_attr (fm_attrs s) j k)
     \<and> get_attr (fm_attrs (unmark_elements roots s')) j DOM_TREE_ID = get_attr (fm_attrs s') j DOM_TREE_ID
     \<and> fm_counter (unmark_elements roots s') = 0"
proof -
  obtain w1 s1 where l1: "mark_elements_loop env f DOM_TREE_ID tags (qsa_all roots) s = (w1, s1)" by fastforce
  obtain w2 s2 where l2: "mark_iframes_loop env f DOM_TREE_ID (iframes roots) s1 = (w2, s2)" by fastforce
  have r: "s' = s2" using run l1 l2 by (simp add: mark_elements_def)
  note A = mark_elements_loop_attrs [OF mark_attrs_names(1) ok l1]
  note B = mark_iframes_loop_attrs [OF l2]
  let ?es = "filter (\<lambda>e. has_attr (fm_attrs s') (nid e) DOM_TREE_ID) (qsa_all roots)"
  note un = unmark_elements_attr [of roots s']
  have "get_attr (fm_attrs (unmark_elements roots s')) j k = get_attr (fm_attrs s) j k"
    if k: "k \<noteq> DOM_TREE_ID"
  proof (cases "get_attr (fm_attrs s1) j k = get_attr (fm_attrs s) j k")
    case True
    then have "get_attr (fm_attrs s') j k = get_attr (fm_attrs s) j k" using B k r by simp
    then show ?thesis using clean un [of j k] by simp
  next
    case False
    then have km: "k \<in> set mark_attrs" and "j \<in> nid ` set (qsa_all roots)"
        and "has_attr (fm_attrs s1) j DOM_TREE_ID" using A k by blast+
    then have "j \<in> nid ` set ?es" using B r by (auto simp del: set_concat)
    then show ?thesis using un [of j k] km clean by simp
  qed
  moreover have "get_attr (fm_attrs (unmark_elements roots s')) j DOM_TREE_ID = get_attr (fm_attrs s') j DOM_TREE_ID"
    using un [of j DOM_TREE_ID] mark_attrs_names(1) by simp
  ultimately show ?thesis by (simp add: unmark_elements_def Let_def)
qed

theorem unmark_after_mark_witness:
  "get_attr (fm_attrs (unmark_elements demo_roots
      (snd (mark_elements demo_page demo_roots ''f'' DOM_TREE_ID ''all'' fm_start)))) 3 VISIBILITY = None"
proof -
  obtain ws s' where r: "mark_elements demo_page demo_roots ''f'' DOM_TREE_ID ''all'' fm_start = (ws, s')"
    by fastforce
  have ok: "pe_attr_error demo_page DOM_TREE_ID = None" by (simp add: demo_page_def)
  have c: "\<forall>j. \<forall>k \<in> set mark_attrs. get_attr (fm_attrs fm_start) j k = None"
    by (simp add: fm_start_def get_attr_def)
  have n: "VISIBILITY \<noteq> DOM_TREE_ID" by (simp add: VISIBILITY_def DOM_TREE_ID_def)
  have "get_attr (fm_attrs fm_start) 3 VISIBILITY = None" by (simp add: fm_start_def get_attr_def)
  then show ?thesis using unmark_after_mark [OF ok c r, of VISIBILITY 3] r n by simp
qed

lemma mark_loop_skip:
  assumes "pe_attr_error env ba = None" "ba \<notin> set mark_attrs"
  shows "\<forall>e \<in> set es. should_mark_element e tags \<longrightarrow> has_attr (fm_attrs s) (nid e) ba \<Longrightarrow>
    mark_elements_loop env f ba tags es s = (ws, s') \<Longrightarrow>
    fm_counter s' = fm_counter s \<and> (\<forall>j. get_attr (fm_attrs s') j ba = get_attr (fm_attrs s) j ba)"
proof (induction es arbitrary: s ws s')
  case Nil
  then show ?case by simp
next
  case (Cons e es)
  show ?case
  proof (cases "should_mark_element e tags")
    case False
    then show ?thesis using Cons by simp
  next
    case True
    obtain w1 s1 where m: "mark_one env f ba e s = (w1, s1)" by fastforce
    obtain w2 s2 where l: "mark_elements_loop env f ba tags es s1 = (w2, s2)" by fastforce
    have h: "has_attr (fm_attrs s) (nid e) ba" using Cons.prems(1) True by simp
    have c: "fm_counter s1 = fm_counter s" using mark_one_spec(2) [OF assms(2,1), of f e s] m h by simp
    have g: "get_attr (fm_attrs s1) j ba = get_attr (fm_attrs s) j ba" for j
      using mark_one_spec(3) [OF assms(2,1), of f e s j] m h by auto
    have "\<forall>e \<in> set es. should_mark_element e tags \<longrightarrow> has_attr (fm_attrs s1) (nid e) ba"
      using Cons.prems(1) g by (simp add: has_attr_def)
    from Cons.IH [OF this l] show ?thesis using Cons.prems(2) True m l c g by simp
  qed
qed

lemma mark_elements_loop_append:
  "mark_elements_loop env f ba tags (es @ es') s =
     (let (w1, s1) = mark_elements_loop env f ba tags es s;
          (w2, s2) = mark_elements_loop env f ba tags es' s1 in (w1 @ w2, s2))"
  by (induction es arbitrary: s) (auto simp: Let_def split: prod.splits)

lemma mark_after_reset:
  assumes ok: "pe_attr_error env ba = None" and ba: "ba \<notin> set mark_attrs"
    and c: "fm_counter s = 0"
    and es: "qsa_all roots = pre @ e # post" "should_mark_element e tags" "\<not> has_attr (fm_attrs s) (nid e) ba"
    and pre: "\<forall>x \<in> set pre. should_mark_element x tags \<longrightarrow> has_attr (fm_attrs s) (nid x) ba"
    and run: "mark_elements env roots f ba tags s = (ws, s')"
  shows "get_attr (fm_attrs s') (nid e) ba = Some (fst (generate_element_id f 0))"
    and "get_attr (fm_attrs s) j ba \<notin> {None, Some []} \<Longrightarrow> get_attr (fm_attrs s') j ba = get_attr (fm_attrs s) j ba"
proof -
  obtain w1 s1 where l1: "mark_elements_loop env f ba tags pre s = (w1, s1)" by fastforce
  obtain w2 s2 where m: "mark_one env f ba e s1 = (w2, s2)" by fastforce
  obtain w3 s3 where l3: "mark_elements_loop env f ba tags post s2 = (w3, s3)" by fastforce
  obtain w4 s4 where l4: "mark_iframes_loop env f ba (iframes roots) s3 = (w4, s4)" by fastforce
  have r: "s' = s4"
    using run l1 m l3 l4 es unfolding mark_elements_def es(1) mark_elements_loop_append by simp
  note A = mark_loop_skip [OF ok ba pre l1]
  have g: "get_attr (fm_attrs s2) j ba = (if j = nid e then Some (fst (generate_element_id f 0))
      else get_attr (fm_attrs s) j ba)" for j
    using mark_one_spec(3) [OF ba ok, of f e s1 j] m A c es(3) by (auto simp: has_attr_def)
  note K = conjunct1 [OF mark_elements_loop_attrs [OF ba ok l3]]
    conjunct1 [OF mark_iframes_loop_attrs [OF l4]]
  have keep: "get_attr (fm_attrs s') j ba = get_attr (fm_attrs s2) j ba"
    if "get_attr (fm_attrs s2) j ba \<notin> {None, Some []}" for j
    using that K r by (simp add: has_attr_def)
  show "get_attr (fm_attrs s') (nid e) ba = Some (fst (generate_element_id f 0))"
    using keep [of "nid e"] g [of "nid e"] by simp
  show "get_attr (fm_attrs s') j ba = get_attr (fm_attrs s) j ba"
    if "get_attr (fm_attrs s) j ba \<notin> {None, Some []}"
    using keep [of j] g [of j] that es(3) by (auto simp: has_attr_def)
qed

definition mark_request :: "string \<Rightarrow> string \<Rightarrow> jv" where
  "mark_request f tags = JObj [(''type'', JStr ''mark_elements''),
     (''data'', JObj [(''frameId'', JStr f), (''bidAttribute'', JStr DOM_TREE_ID), (''tagsToMark'', JStr tags)])]"

lemma fm_handle_mark_request:
  assumes "tags \<noteq> []"
  shows "snd (fm_handle he (mark_request f tags) s) =
     snd (mark_elements (he_page he) (he_roots he) f DOM_TREE_ID tags (unmark_elements (he_roots he) s))"
proof -
  have "DOM_TREE_ID \<noteq> []" by (simp add: DOM_TREE_ID_def)
  then show ?thesis using assms
    by (simp add: fm_handle_def mark_request_def handle_mark_def get_prop_def js_or_def Let_def
        split: prod.split)
qed

text \<open>
  Every \<open>mark_elements\<close> message resets the counter before it marks, while the
  identifiers of the run before stay on the page: the first element to be marked that has
  none is numbered 0, so when an element before it carries that identifier the two share it.
\<close>

theorem remark_repeats_first_id:
  assumes "pe_attr_error (he_page he) DOM_TREE_ID = None" and tags: "tags \<noteq> []"
    and es: "qsa_all (he_roots he) = pre @ e # post" "should_mark_element e tags"
      "\<not> has_attr (fm_attrs s) (nid e) DOM_TREE_ID"
    and pre: "\<forall>x \<in> set pre. should_mark_element x tags \<longrightarrow> has_attr (fm_attrs s) (nid x) DOM_TREE_ID"
    and x: "get_attr (fm_attrs s) (nid x) DOM_TREE_ID = Some (fst (generate_element_id f 0))"
  shows "get_attr (fm_attrs (snd (fm_handle he (mark_request f tags) s))) (nid x) DOM_TREE_ID =
         get_attr (fm_attrs (snd (fm_handle he (mark_request f tags) s))) (nid e) DOM_TREE_ID
     \<and> get_attr (fm_attrs (snd (fm_handle he (mark_request f tags) s))) (nid e) DOM_TREE_ID =
         Some (fst (generate_element_id f 0))"
proof -
  let ?u = "unmark_elements (he_roots he) s"
  obtain ws s' where run: "mark_elements (he_page he) (he_roots he) f DOM_TREE_ID tags ?u = (ws, s')"
    by fastforce
  have no: "\<not> has_attr (fm_attrs ?u) (nid e) DOM_TREE_ID" using es(3) by (simp add: has_attr_def)
  have pre': "\<forall>x \<in> set pre. should_mark_element x tags \<longrightarrow> has_attr (fm_attrs ?u) (nid x) DOM_TREE_ID"
    using pre by (simp add: has_attr_def)
  note M = mark_after_reset [OF assms(1) mark_attrs_names(1) _ es(1,2) no pre' run]
  show ?thesis using M x run by (simp add: fm_handle_mark_request [OF tags])
qed

definition demo_handler :: handler_env where
  "demo_handler = \<lparr>he_page = demo_page, he_roots = demo_roots, he_now = 0, he_scroll = (0, 0),
     he_suffix = ''x'', he_api = None\<rparr>"

text \<open>A page marked once, on which the script then found a third element.\<close>

definition demo_marked :: fm_state where
  "demo_marked = fm_start\<lparr>fm_attrs := set_attr (set_attr (set_attr (\<lambda>_. []) 0 DOM_TREE_ID ''0'')
     1 DOM_TREE_ID ''1'') 2 DOM_TREE_ID ''2''\<rparr>"

theorem remark_repeats_first_id_witness:
  "get_attr (fm_attrs (snd (fm_handle demo_handler (mark_request [] ''all'') demo_marked))) 0 DOM_TREE_ID =
   get_attr (fm_attrs (snd (fm_handle demo_handler (mark_request [] ''all'') demo_marked))) 3 DOM_TREE_ID"
proof -
  let ?e = "Elem 3 ''INPUT'' [] None None" and ?x = "hd demo_roots"
  have 1: "pe_attr_error (he_page demo_handler) DOM_TREE_ID = None"
    by (simp add: demo_handler_def demo_page_def)
  have 2: "qsa_all (he_roots demo_handler) = [?x, Elem 1 ''BUTTON'' [] None None,
      Elem 2 ''IFRAME'' [] None None] @ ?e # []"
    by (simp add: demo_handler_def demo_roots_def)
  have 3: "should_mark_element ?e ''all''" by (simp add: should_mark_element_def)
  have 4: "\<not> has_attr (fm_attrs demo_marked) (nid ?e) DOM_TREE_ID"
    by (simp add: demo_marked_def) (simp add: has_attr_def get_attr_def)
  have 5: "\<forall>x \<in> set [?x, Elem 1 ''BUTTON'' [] None None, Elem 2 ''IFRAME'' [] None None].
      should_mark_element x ''all'' \<longrightarrow> has_attr (fm_attrs demo_marked) (nid x) DOM_TREE_ID"
    by (simp add: demo_marked_def demo_roots_def)
  have 6: "get_attr (fm_attrs demo_marked) (nid ?x) DOM_TREE_ID = Some (fst (generate_element_id [] 0))"
    by (simp add: demo_marked_def demo_roots_def generate_element_id_def) code_simp
  have 7: "(''all'' :: string) \<noteq> []" by simp
  have "nid ?x = 0" by (simp add: demo_roots_def)
  then show ?thesis using remark_repeats_first_id [OF 1 7 2 3 4 5 6] by simp
qed

lemma mark_loop_covers:
  assumes ba: "ba \<notin> set mark_attrs" and ok: "pe_attr_error env ba = None"
  shows "mark_elements_loop env f ba tags es s = (ws, s') \<Longrightarrow> e \<in> set es \<Longrightarrow> should_mark_element e tags
     \<Longrightarrow> has_attr (fm_attrs s') (nid e) ba"
proof (induction es arbitrary: s ws)
  case (Cons x es)
  show ?case
  proof (cases "should_mark_element x tags")
    case False
    then show ?thesis using Cons by auto
  next
    case True
    obtain w1 s1 where m: "mark_one env f ba x s = (w1, s1)" by fastforce
    obtain w2 s2 where l: "mark_elements_loop env f ba tags es s1 = (w2, s2)" by fastforce
    have r: "s' = s2" using Cons.prems(1) True m l by simp
    have "has_attr (fm_attrs s1) (nid x) ba"
      using mark_one_spec(3) [OF ba ok, of f x s "nid x"] m by (simp add: has_attr_def)
    then have "has_attr (fm_attrs s') (nid x) ba"
      using mark_elements_loop_attrs [OF ba ok l] r by (simp add: has_attr_def)
    then show ?thesis using Cons.IH [of s1 w2] l Cons.prems(2,3) r by auto
  qed
qed simp

lemma iframes_loop_covers:
  assumes ok: "pe_attr_error env ba = None"
  shows "mark_iframes_loop env f ba es s = (ws, s') \<Longrightarrow> e \<in> set es \<Longrightarrow> has_attr (fm_attrs s') (nid e) ba"
proof (induction es arbitrary: s ws)
  case (Cons x es)
  obtain s2 w2 where l: "mark_iframes_loop env f ba es s2 = (w2, s')" and h: "has_attr (fm_attrs s2) (nid x) ba"
  proof (cases "case get_attr (fm_attrs s) (nid x) ba of None \<Rightarrow> True | Some v \<Rightarrow> v = []")
    case True
    let ?t = "s\<lparr>fm_counter := Suc (fm_counter s),
        fm_attrs := set_attr (fm_attrs s) (nid x) ba (fst (generate_element_id f (fm_counter s)))\<rparr>"
    obtain w3 s3 where l: "mark_iframes_loop env f ba es ?t = (w3, s3)" by fastforce
    then have "s3 = s'"
      using Cons.prems(1) True ok by (simp add: generate_element_id_def Let_def)
    then show ?thesis using that [of ?t w3] l by (simp add: has_attr_def)
  next
    case False
    then have "mark_iframes_loop env f ba es s = (ws, s')" using Cons.prems(1) by simp
    moreover have "has_attr (fm_attrs s) (nid x) ba" using False by (auto simp: has_attr_def split: option.splits)
    ultimately show ?thesis using that by blast
  qed
  have "has_attr (fm_attrs s') (nid x) ba" using mark_iframes_loop_attrs [OF l] h by blast
  then show ?case using Cons.IH [OF l] Cons.prems(2) by auto
qed simp

text \<open>What a message to mark does to the identifiers, whatever is on the page.\<close>

lemma mark_message_covers:
  assumes ok: "pe_attr_error (he_page he) DOM_TREE_ID = None" and tags: "tags \<noteq> []"
    and t_def: "t = snd (fm_handle he (mark_request f tags) s)"
  shows "e \<in> set (qsa_all (he_roots he)) \<Longrightarrow> should_mark_element e tags \<or> e \<in> set (iframes (he_roots he))
      \<Longrightarrow> has_attr (fm_attrs t) (nid e) DOM_TREE_ID"
    and "get_attr (fm_attrs s) j DOM_TREE_ID \<notin> {None, Some []} \<Longrightarrow>
      get_attr (fm_attrs t) j DOM_TREE_ID = get_attr (fm_attrs s) j DOM_TREE_ID"
proof -
  let ?u = "unmark_elements (he_roots he) s"
  obtain w1 s1 where l1: "mark_elements_loop (he_page he) f DOM_TREE_ID tags (qsa_all (he_roots he)) ?u = (w1, s1)" by fastforce
  obtain w2 s2 where l2: "mark_iframes_loop (he_page he) f DOM_TREE_ID (iframes (he_roots he)) s1 = (w2, s2)" by fastforce
  have t: "t = s2" using l1 l2 by (simp add: t_def fm_handle_mark_request [OF tags] mark_elements_def)
  note K = conjunct1 [OF mark_elements_loop_attrs [OF mark_attrs_names(1) ok l1]] mark_iframes_loop_attrs [OF l2]
  show "has_attr (fm_attrs t) (nid e) DOM_TREE_ID"
    if "e \<in> set (qsa_all (he_roots he))" "should_mark_element e tags \<or> e \<in> set (iframes (he_roots he))"
    using that(2)
  proof
    assume "should_mark_element e tags"
    then have "has_attr (fm_attrs s1) (nid e) DOM_TREE_ID"
      by (rule mark_loop_covers [OF mark_attrs_names(1) ok l1 that(1)])
    then show ?thesis using K t by simp
  next
    assume "e \<in> set (iframes (he_roots he))"
    then show ?thesis using iframes_loop_covers [OF ok l2] t by simp
  qed
  show "get_attr (fm_attrs t) j DOM_TREE_ID = get_attr (fm_attrs s) j DOM_TREE_ID"
    if j: "get_attr (fm_attrs s) j DOM_TREE_ID \<notin> {None, Some []}"
  proof -
    have u: "get_attr (fm_attrs ?u) j DOM_TREE_ID = get_attr (fm_attrs s) j DOM_TREE_ID" by simp
    have "has_attr (fm_attrs ?u) j DOM_TREE_ID" using j by (auto simp: has_attr_def)
    then have 1: "get_attr (fm_attrs s1) j DOM_TREE_ID = get_attr (fm_attrs s) j DOM_TREE_ID" using K(1) u by simp
    then have "has_attr (fm_attrs s1) j DOM_TREE_ID" using j by (auto simp: has_attr_def)
    then show ?thesis using K(2) 1 j t by simp
  qed
qed

text \<open>
  C34. After every message to mark, on a page that takes the attribute of the identifiers, every
  element that is to be marked and every iframe has an identifier, and identifiers that were there are kept.
  After a first marking, of a page without identifiers, they are all different and below the
  counter.  After a later one they need not be: the message resets the counter, so when
  the first element to be marked that has no identifier comes after the one numbered 0, these
  two share one.
\<close>

theorem mark_elements_ids:
  assumes "pe_attr_error (he_page he) DOM_TREE_ID = None" "tags \<noteq> []" "inj_on nid (set (qsa_all (he_roots he)))"
    and "t = snd (fm_handle he (mark_request f tags) s)"
  shows "(\<forall>e \<in> set (qsa_all (he_roots he)). should_mark_element e tags \<or> e \<in> set (iframes (he_roots he))
          \<longrightarrow> has_attr (fm_attrs t) (nid e) DOM_TREE_ID)
     \<and> (\<forall>e \<in> set (qsa_all (he_roots he)). get_attr (fm_attrs s) (nid e) DOM_TREE_ID \<notin> {None, Some []}
          \<longrightarrow> get_attr (fm_attrs t) (nid e) DOM_TREE_ID = get_attr (fm_attrs s) (nid e) DOM_TREE_ID)
     \<and> ((\<forall>e \<in> set (qsa_all (he_roots he)). \<not> has_attr (fm_attrs s) (nid e) DOM_TREE_ID) \<longrightarrow>
          page_ids_ok f DOM_TREE_ID (qsa_all (he_roots he)) t)
     \<and> (\<forall>pre e post x. qsa_all (he_roots he) = pre @ e # post \<and> should_mark_element e tags
          \<and> \<not> has_attr (fm_attrs s) (nid e) DOM_TREE_ID
          \<and> (\<forall>y \<in> set pre. should_mark_element y tags \<longrightarrow> has_attr (fm_attrs s) (nid y) DOM_TREE_ID)
          \<and> get_attr (fm_attrs s) (nid x) DOM_TREE_ID = Some (fst (generate_element_id f 0)) \<longrightarrow>
          get_attr (fm_attrs t) (nid x) DOM_TREE_ID = get_attr (fm_attrs t) (nid e) DOM_TREE_ID
          \<and> has_attr (fm_attrs t) (nid e) DOM_TREE_ID)"
proof (intro conjI ballI impI allI)
  note M = mark_message_covers [OF assms(1,2,4)]
  show "has_attr (fm_attrs t) (nid e) DOM_TREE_ID"
    if "e \<in> set (qsa_all (he_roots he))" "should_mark_element e tags \<or> e \<in> set (iframes (he_roots he))" for e
    using that by (rule M(1))
  show "get_attr (fm_attrs t) (nid e) DOM_TREE_ID = get_attr (fm_attrs s) (nid e) DOM_TREE_ID"
    if "get_attr (fm_attrs s) (nid e) DOM_TREE_ID \<notin> {None, Some []}" for e
    using that by (rule M(2))
  show "page_ids_ok f DOM_TREE_ID (qsa_all (he_roots he)) t"
    if none: "\<forall>e \<in> set (qsa_all (he_roots he)). \<not> has_attr (fm_attrs s) (nid e) DOM_TREE_ID"
  proof -
    let ?u = "unmark_elements (he_roots he) s"
    obtain ws s' where run: "mark_elements (he_page he) (he_roots he) f DOM_TREE_ID tags ?u = (ws, s')" by fastforce
    have "page_ids_ok f DOM_TREE_ID (qsa_all (he_roots he)) ?u"
      using none by (auto simp: page_ids_ok_def has_attr_def inj_on_def)
    from sound_ids_stay [OF mark_attrs_names(1) assms(1,3) this run] show ?thesis
      by (simp add: assms(4) fm_handle_mark_request [OF assms(2)] run)
  qed
next
  fix pre e post x
  assume h: "qsa_all (he_roots he) = pre @ e # post \<and> should_mark_element e tags
          \<and> \<not> has_attr (fm_attrs s) (nid e) DOM_TREE_ID
          \<and> (\<forall>y \<in> set pre. should_mark_element y tags \<longrightarrow> has_attr (fm_attrs s) (nid y) DOM_TREE_ID)
          \<and> get_attr (fm_attrs s) (nid x) DOM_TREE_ID = Some (fst (generate_element_id f 0))"
  have r: "get_attr (fm_attrs t) (nid x) DOM_TREE_ID = get_attr (fm_attrs t) (nid e) DOM_TREE_ID
      \<and> get_attr (fm_attrs t) (nid e) DOM_TREE_ID = Some (fst (generate_element_id f 0))"
    unfolding assms(4) using h by (intro remark_repeats_first_id [OF assms(1,2)]) blast+
  then show "get_attr (fm_attrs t) (nid x) DOM_TREE_ID = get_attr (fm_attrs t) (nid e) DOM_TREE_ID" by simp
  show "has_attr (fm_attrs t) (nid e) DOM_TREE_ID" using r by (simp add: has_attr_def)
qed

theorem mark_elements_ids_witness:
  "has_attr (fm_attrs (snd (fm_handle demo_handler (mark_request ''f'' ''standard_html'') fm_start))) 2 DOM_TREE_ID
   \<and> page_ids_ok ''f'' DOM_TREE_ID (qsa_all demo_roots) (snd (fm_handle demo_handler (mark_request ''f'' ''standard_html'') fm_start))"
proof -
  have inj: "inj_on nid (set (qsa_all (he_roots demo_handler)))" by (simp add: demo_handler_def demo_roots_def)
  have fr: "Elem 2 ''IFRAME'' [] None None \<in> set (iframes demo_roots)" by code_simp
  then have al: "Elem 2 ''IFRAME'' [] None None \<in> set (qsa_all demo_roots)" by (simp add: iframes_def)
  have ok: "pe_attr_error (he_page demo_handler) DOM_TREE_ID = None" by (simp add: demo_handler_def demo_page_def)
  have tags: "(''standard_html'' :: string) \<noteq> []" by simp
  have roots: "he_roots demo_handler = demo_roots" by (simp add: demo_handler_def)
  have none: "\<not> has_attr (fm_attrs fm_start) j DOM_TREE_ID" for j by (simp add: fm_start_def has_attr_def get_attr_def)
  note A = mark_elements_ids [OF ok tags inj refl, where f = "''f''" and s = fm_start, unfolded roots]
  then have "has_attr (fm_attrs (snd (fm_handle demo_handler (mark_request ''f'' ''standard_html'') fm_start)))
      (nid (Elem 2 ''IFRAME'' [] None None)) DOM_TREE_ID" using fr al by blast
  then show ?thesis using A none by simp
qed

text \<open>
  The visibility score of an element is between 0 and 1, and 0 exactly for the
  elements \<open>isElementVisible\<close> rejects, when its computed opacity is not negative.
\<close>

theorem calculate_visibility_range:
  assumes "\<forall>q. st_opacity_num (pe_style env i) = Some q \<longrightarrow> 0 \<le> q"
  shows "0 \<le> calculate_visibility env i \<and> calculate_visibility env i \<le> 1
     \<and> (calculate_visibility env i = 0 \<longleftrightarrow> \<not> is_element_visible env i)"
proof (cases "is_element_visible env i")
  case False
  then show ?thesis by (simp add: calculate_visibility_def)
next
  case True
  define score0 where "score0 = (case st_opacity_num (pe_style env i) of None \<Rightarrow> 1 | Some q \<Rightarrow> or_num q 1)"
  have "0 < score0" using assms by (auto simp: score0_def or_num_def less_le split: option.split)
  then show ?thesis using True
    unfolding calculate_visibility_def Let_def score0_def [symmetric]
    by (auto simp: min_def max_def)
qed

theorem calculate_visibility_range_witness:
  "calculate_visibility demo_page 0 \<noteq> 0"
proof -
  have "\<forall>q. st_opacity_num (pe_style demo_page 0) = Some q \<longrightarrow> 0 \<le> q"
    by (simp add: demo_page_def demo_style_def)
  note A = calculate_visibility_range [OF this]
  moreover have "is_element_visible demo_page 0"
    by (simp add: is_element_visible_def demo_page_def demo_style_def demo_rect_def)
  ultimately show ?thesis by simp
qed

end
