(* ===== verification/Dom_Cache.thy ===== *)
theory Dom_Cache
  imports Page
begin

text \<open>
  Where a node sits in the page (its ancestor elements and the root it belongs to),
  and the per-analysis caches of \<open>content/page_analysis/DomCache.ts\<close>, under
  the contract every memo table of the analysis keeps: a hit and a miss give the
  same answer.
\<close>

section \<open>Places\<close>

text \<open>
  A node belongs to the document, to the shadow root of a host, or to the document
  of an iframe.  Its place is the list of its ancestor elements in that tree, nearest
  first (what following \<open>parentElement\<close> visits), with the root.
\<close>

datatype dom_root = InDoc | InShadow nat | InFrame nat

type_synonym place = "nat list \<times> dom_root"

fun places :: "nat list \<Rightarrow> dom_root \<Rightarrow> dnode \<Rightarrow> (nat \<times> place) list"
  and places_list :: "nat list \<Rightarrow> dom_root \<Rightarrow> dnode list \<Rightarrow> (nat \<times> place) list"
  and places_opt :: "dom_root \<Rightarrow> dnode list option \<Rightarrow> (nat \<times> place) list" where
  "places up r (Elem i t ks sh fr) =
     (i, (up, r)) # places_list (i # up) r ks @ places_opt (InShadow i) sh @ places_opt (InFrame i) fr"
| "places up r (Text i s) = [(i, (up, r))]"
| "places up r (Other i) = [(i, (up, r))]"
| "places_list up r [] = []"
| "places_list up r (n # ns) = places up r n @ places_list up r ns"
| "places_opt r None = []"
| "places_opt r (Some ns) = places_list [] r ns"

definition place_of :: "dnode list \<Rightarrow> nat \<Rightarrow> place" where
  "place_of roots i = (case map_of (places_list [] InDoc roots) i of Some p \<Rightarrow> p | None \<Rightarrow> ([], InDoc))"

definition parent_element :: "dnode list \<Rightarrow> nat \<Rightarrow> nat option" where
  "parent_element roots i = (case fst (place_of roots i) of [] \<Rightarrow> None | p # _ \<Rightarrow> Some p)"

text \<open>Every element of the page: the document, its shadow trees and its frames.\<close>

fun page_elems :: "dnode \<Rightarrow> dnode list"
  and page_elems_list :: "dnode list \<Rightarrow> dnode list"
  and page_elems_opt :: "dnode list option \<Rightarrow> dnode list" where
  "page_elems (Elem i t ks sh fr) =
     Elem i t ks sh fr # page_elems_list ks @ page_elems_opt sh @ page_elems_opt fr"
| "page_elems (Text i s) = []"
| "page_elems (Other i) = []"
| "page_elems_list [] = []"
| "page_elems_list (n # ns) = page_elems n @ page_elems_list ns"
| "page_elems_opt None = []"
| "page_elems_opt (Some ns) = page_elems_list ns"

definition elem_of :: "dnode list \<Rightarrow> nat \<Rightarrow> dnode option" where
  "elem_of roots i = find (\<lambda>e. nid e = i) (page_elems_list roots)"

definition child_elems :: "dnode \<Rightarrow> dnode list" where
  "child_elems e = filter is_elem (kids e)"

section \<open>Memo tables\<close>

text \<open>A table agrees with the computation it caches.\<close>

definition memo_ok :: "('m \<Rightarrow> 'k \<Rightarrow> 'v option) \<Rightarrow> ('k \<Rightarrow> 'v) \<Rightarrow> 'm \<Rightarrow> bool" where
  "memo_ok sees compute m \<longleftrightarrow> (\<forall>k v. sees m k = Some v \<longrightarrow> v = compute k)"

fun fetch_all :: "('m \<Rightarrow> 'k \<Rightarrow> 'v \<times> 'm) \<Rightarrow> 'm \<Rightarrow> 'k list \<Rightarrow> 'v list \<times> 'm" where
  "fetch_all fetch m [] = ([], m)"
| "fetch_all fetch m (k # ks) =
     (let (v, m1) = fetch m k; (vs, m2) = fetch_all fetch m1 ks in (v # vs, m2))"

locale memo_table =
  fixes sees :: "'m \<Rightarrow> 'k \<Rightarrow> 'v option"
    and fetch :: "'m \<Rightarrow> 'k \<Rightarrow> 'v \<times> 'm"
    and compute :: "'k \<Rightarrow> 'v"
  assumes hit: "sees m k = Some v \<Longrightarrow> fetch m k = (v, m)"
    and miss_value: "sees m k = None \<Longrightarrow> fst (fetch m k) = compute k"
    and miss_table: "sees m k = None \<Longrightarrow>
          sees (snd (fetch m k)) j = (if j = k then Some (compute k) else sees m j)"
begin

lemma fetch_value: "memo_ok sees compute m \<Longrightarrow> fst (fetch m k) = compute k"
  by (cases "sees m k") (auto simp: memo_ok_def hit miss_value)

lemma fetch_ok: "memo_ok sees compute m \<Longrightarrow> memo_ok sees compute (snd (fetch m k))"
  by (cases "sees m k") (auto simp: memo_ok_def hit miss_table split: if_splits)

lemma fetch_all_values:
  "memo_ok sees compute m \<Longrightarrow> fst (fetch_all fetch m ks) = map compute ks
     \<and> memo_ok sees compute (snd (fetch_all fetch m ks))"
proof (induction ks arbitrary: m)
  case Nil
  then show ?case by simp
next
  case (Cons k ks)
  obtain v m1 where f: "fetch m k = (v, m1)" by fastforce
  obtain vs m2 where g: "fetch_all fetch m1 ks = (vs, m2)" by fastforce
  have "v = compute k" "memo_ok sees compute m1"
    using fetch_value [OF Cons.prems, of k] fetch_ok [OF Cons.prems, of k] f by simp_all
  then show ?case using Cons.IH [of m1] f g by simp
qed


end

section \<open>The caches of \<open>DomCache\<close>\<close>

record dom_cache =
  dc_bounding :: "nat \<Rightarrow> rect option"
  dc_client :: "nat \<Rightarrow> rect list option"
  dc_styles :: "nat \<Rightarrow> style option"

definition clear_cache :: "dom_cache \<Rightarrow> dom_cache" where
  "clear_cache c = c\<lparr>dc_bounding := (\<lambda>_. None), dc_client := (\<lambda>_. None), dc_styles := (\<lambda>_. None)\<rparr>"

definition cached_bounding_rect :: "page_env \<Rightarrow> dom_cache \<Rightarrow> nat \<Rightarrow> rect \<times> dom_cache" where
  "cached_bounding_rect env c i =
     (case dc_bounding c i of
        Some r \<Rightarrow> (r, c)
      | None \<Rightarrow> let r = pe_rect env i in (r, c\<lparr>dc_bounding := (dc_bounding c)(i := Some r)\<rparr>))"

definition cached_computed_style :: "page_env \<Rightarrow> dom_cache \<Rightarrow> nat \<Rightarrow> style \<times> dom_cache" where
  "cached_computed_style env c i =
     (case dc_styles c i of
        Some r \<Rightarrow> (r, c)
      | None \<Rightarrow> let r = pe_style env i in (r, c\<lparr>dc_styles := (dc_styles c)(i := Some r)\<rparr>))"

definition cached_client_rects :: "page_env \<Rightarrow> dom_cache \<Rightarrow> nat \<Rightarrow> rect list \<times> dom_cache" where
  "cached_client_rects env c i =
     (case dc_client c i of
        Some r \<Rightarrow> (r, c)
      | None \<Rightarrow> let r = pe_client_rects env i in (r, c\<lparr>dc_client := (dc_client c)(i := Some r)\<rparr>))"

interpretation bounding_memo: memo_table dc_bounding "cached_bounding_rect env" "pe_rect env"
  by unfold_locales (auto simp: cached_bounding_rect_def Let_def)

interpretation style_memo: memo_table dc_styles "cached_computed_style env" "pe_style env"
  by unfold_locales (auto simp: cached_computed_style_def Let_def)

interpretation client_memo: memo_table dc_client "cached_client_rects env" "pe_client_rects env"
  by unfold_locales (auto simp: cached_client_rects_def Let_def)

text \<open>The three tables are independent, and agree with the page or are empty.\<close>

definition cache_ok :: "page_env \<Rightarrow> dom_cache \<Rightarrow> bool" where
  "cache_ok env c \<longleftrightarrow> memo_ok dc_bounding (pe_rect env) c \<and> memo_ok dc_client (pe_client_rects env) c
     \<and> memo_ok dc_styles (pe_style env) c"

lemma cache_ok_clear [simp]: "cache_ok env (clear_cache c)"
  by (simp add: cache_ok_def memo_ok_def clear_cache_def)

lemma cached_bounding_ok [simp]:
  assumes "cache_ok env c"
  shows "fst (cached_bounding_rect env c i) = pe_rect env i"
    and "cache_ok env (snd (cached_bounding_rect env c i))"
proof -
  show "fst (cached_bounding_rect env c i) = pe_rect env i"
    using assms bounding_memo.fetch_value unfolding cache_ok_def by blast
  have "dc_client (snd (cached_bounding_rect env c i)) = dc_client c"
    "dc_styles (snd (cached_bounding_rect env c i)) = dc_styles c"
    by (simp_all add: cached_bounding_rect_def Let_def split: option.split)
  then show "cache_ok env (snd (cached_bounding_rect env c i))"
    using assms bounding_memo.fetch_ok [of env c i] by (simp add: cache_ok_def memo_ok_def)
qed

lemma cached_style_ok [simp]:
  assumes "cache_ok env c"
  shows "fst (cached_computed_style env c i) = pe_style env i"
    and "cache_ok env (snd (cached_computed_style env c i))"
proof -
  show "fst (cached_computed_style env c i) = pe_style env i"
    using assms style_memo.fetch_value unfolding cache_ok_def by blast
  have "dc_client (snd (cached_computed_style env c i)) = dc_client c"
    "dc_bounding (snd (cached_computed_style env c i)) = dc_bounding c"
    by (simp_all add: cached_computed_style_def Let_def split: option.split)
  then show "cache_ok env (snd (cached_computed_style env c i))"
    using assms style_memo.fetch_ok [of env c i] by (simp add: cache_ok_def memo_ok_def)
qed

lemma cached_client_ok [simp]:
  assumes "cache_ok env c"
  shows "fst (cached_client_rects env c i) = pe_client_rects env i"
    and "cache_ok env (snd (cached_client_rects env c i))"
proof -
  show "fst (cached_client_rects env c i) = pe_client_rects env i"
    using assms client_memo.fetch_value unfolding cache_ok_def by blast
  have "dc_styles (snd (cached_client_rects env c i)) = dc_styles c"
    "dc_bounding (snd (cached_client_rects env c i)) = dc_bounding c"
    by (simp_all add: cached_client_rects_def Let_def split: option.split)
  then show "cache_ok env (snd (cached_client_rects env c i))"
    using assms client_memo.fetch_ok [of env c i] by (simp add: cache_ok_def memo_ok_def)
qed

end
