(* ===== verification/Xpath.thy ===== *)
theory Xpath
  imports Dom_Cache
begin

text \<open>
  Element paths (\<open>content/page_analysis/CachedXPathBuilder.ts\<close>): the path built
  by walking up, its cache, and what the path selects when it is evaluated from the
  document down.
\<close>

section \<open>The builder\<close>

definition node_name :: "dnode list \<Rightarrow> nat \<Rightarrow> string" where
  "node_name roots i = (case elem_of roots i of None \<Rightarrow> [] | Some e \<Rightarrow> lname e)"

fun index_of :: "nat \<Rightarrow> nat list \<Rightarrow> nat option" where
  "index_of i [] = None"
| "index_of i (j # js) = (if i = j then Some 0 else map_option Suc (index_of i js))"

definition element_position :: "dnode list \<Rightarrow> nat \<Rightarrow> nat" where
  "element_position roots i =
     (case parent_element roots i of
        None \<Rightarrow> 0
      | Some p \<Rightarrow>
          (let tag_name = node_name roots i;
               children = (case elem_of roots p of None \<Rightarrow> [] | Some pe \<Rightarrow> child_elems pe);
               siblings = filter (\<lambda>sib. lname sib = tag_name) children
           in if length siblings = 1 then 0
              else case index_of i (map nid siblings) of Some k \<Rightarrow> k + 1 | None \<Rightarrow> 0))"

text \<open>\<open>parentNode instanceof ShadowRoot\<close>; the parent node of an element is never an iframe.\<close>

definition under_shadow_root :: "dnode list \<Rightarrow> nat \<Rightarrow> bool" where
  "under_shadow_root roots i =
     (case place_of roots i of ([], InShadow h) \<Rightarrow> True | _ \<Rightarrow> False)"

definition xpath_segment :: "dnode list \<Rightarrow> nat \<Rightarrow> string" where
  "xpath_segment roots i =
     (let position = element_position roots i
      in node_name roots i @ (if position > 0 then ''['' @ show_nat position @ '']'' else []))"

fun xpath_loop :: "dnode list \<Rightarrow> bool \<Rightarrow> nat list \<Rightarrow> string list \<Rightarrow> string list" where
  "xpath_loop roots stop [] segments = segments"
| "xpath_loop roots stop (c # cs) segments =
     (if stop \<and> under_shadow_root roots c then segments
      else xpath_loop roots stop cs (xpath_segment roots c # segments))"

definition xpath_of :: "dnode list \<Rightarrow> bool \<Rightarrow> nat \<Rightarrow> string" where
  "xpath_of roots stop i = join ''/'' (xpath_loop roots stop (i # fst (place_of roots i)) [])"

type_synonym xpath_cache = "nat \<Rightarrow> string option"

definition get_xpath_tree :: "dnode list \<Rightarrow> bool \<Rightarrow> xpath_cache \<Rightarrow> nat \<Rightarrow> string \<times> xpath_cache" where
  "get_xpath_tree roots stop cache i =
     (case cache i of
        Some p \<Rightarrow> (p, cache)
      | None \<Rightarrow> let result = xpath_of roots stop i in (result, cache(i := Some result)))"

definition clear_xpath_cache :: "xpath_cache \<Rightarrow> xpath_cache" where
  "clear_xpath_cache c = (\<lambda>_. None)"

interpretation xpath_memo: memo_table "\<lambda>c. c" "get_xpath_tree roots stop" "xpath_of roots stop"
  by unfold_locales (auto simp: get_xpath_tree_def Let_def)

section \<open>Evaluating a path\<close>

text \<open>
  The child steps the paths are made of: \<open>name\<close> selects the children of that name,
  \<open>name[k]\<close> the \<open>k\<close>-th of them.
\<close>

definition parse_step :: "string \<Rightarrow> string \<times> nat option" where
  "parse_step s =
     (let rest = dropWhile (\<lambda>c. c \<noteq> CHR ''['') s
      in (takeWhile (\<lambda>c. c \<noteq> CHR ''['') s,
          if rest = [] then None else Some (read_nat (takeWhile (\<lambda>c. c \<noteq> CHR '']'') (tl rest)))))"

definition select_step :: "string \<Rightarrow> dnode list \<Rightarrow> dnode list" where
  "select_step s cs =
     (let (name, k) = parse_step s; named = filter (\<lambda>c. lname c = name) cs
      in case k of None \<Rightarrow> named | Some n \<Rightarrow> take 1 (drop (n - 1) named))"

fun select_path :: "string list \<Rightarrow> dnode list \<Rightarrow> dnode list" where
  "select_path [] cs = []"
| "select_path [s] cs = select_step s cs"
| "select_path (s # t # ss) cs = concat (map (\<lambda>e. select_path (t # ss) (child_elems e)) (select_step s cs))"

definition evaluate_xpath :: "dnode list \<Rightarrow> string \<Rightarrow> dnode list" where
  "evaluate_xpath roots p = select_path (split_str ''/'' p) (filter is_elem roots)"

section \<open>Paths down the document\<close>

text \<open>A path of elements from the document down: each one a child of the one before.\<close>

fun is_path :: "dnode list \<Rightarrow> dnode list \<Rightarrow> bool" where
  "is_path cs [] = False"
| "is_path cs [e] \<longleftrightarrow> e \<in> set cs"
| "is_path cs (e # f # es) \<longleftrightarrow> e \<in> set cs \<and> is_path (child_elems e) (f # es)"

definition page_wf :: "dnode list \<Rightarrow> bool" where
  "page_wf roots \<longleftrightarrow> distinct (map fst (places_list [] InDoc roots))"

lemma subseq_page_elems:
  "subseq (map nid (page_elems n)) (map fst (places up r n))"
  "subseq (map nid (page_elems_list ns)) (map fst (places_list up r ns))"
  "subseq (map nid (page_elems_opt sh)) (map fst (places_opt r sh))"
  by (induction n and ns and sh arbitrary: up r and up r and r
        rule: page_elems_page_elems_list_page_elems_opt.induct)
     (auto intro!: list_emb_append_mono)

lemma distinct_page_elems: "page_wf roots \<Longrightarrow> distinct (map nid (page_elems_list roots))"
  unfolding page_wf_def
  by (metis subseq_page_elems(2) subseq_conv_nths distinct_nthsI)

lemma elem_of_eq:
  assumes wf: "page_wf roots" and e: "e \<in> set (page_elems_list roots)"
  shows "elem_of roots (nid e) = Some e"
proof -
  have "find (\<lambda>x. nid x = nid e) (page_elems_list roots) \<noteq> None"
    unfolding find_None_iff using e by blast
  then obtain x where x: "find (\<lambda>x. nid x = nid e) (page_elems_list roots) = Some x" by blast
  then have "x \<in> set (page_elems_list roots)" "nid x = nid e"
    unfolding find_Some_iff by auto
  then have "x = e" using distinct_page_elems [OF wf] e unfolding distinct_map inj_on_def by blast
  then show ?thesis using x by (simp add: elem_of_def)
qed

lemma page_elems_memb:
  "e \<in> set ns \<Longrightarrow> is_elem e \<Longrightarrow> set (page_elems e) \<subseteq> set (page_elems_list ns)"
  "is_elem e \<Longrightarrow> e \<in> set (page_elems e)"
  "is_elem e \<Longrightarrow> set (page_elems_list (kids e)) \<subseteq> set (page_elems e)"
  by (induction ns) (auto elim: is_elem.elims)

lemma path_elems:
  "is_path cs p \<Longrightarrow> set cs \<subseteq> set ns \<Longrightarrow> \<forall>c \<in> set cs. is_elem c \<Longrightarrow>
     set p \<subseteq> set (page_elems_list ns)"
proof (induction cs p arbitrary: ns rule: is_path.induct)
  case (2 cs e)
  then have e: "e \<in> set ns" "is_elem e" by auto
  have "e \<in> set (page_elems_list ns)"
    using page_elems_memb(1) [OF e] page_elems_memb(2) [OF e(2)] by (rule subsetD)
  then show ?case by simp
next
  case (3 cs e f es)
  then have e: "e \<in> set ns" "is_elem e" by auto
  have "set (f # es) \<subseteq> set (page_elems_list (kids e))"
  proof (rule "3.IH")
    show "is_path (child_elems e) (f # es)" using "3.prems"(1) by simp
    show "set (child_elems e) \<subseteq> set (kids e)" "\<forall>c \<in> set (child_elems e). is_elem c"
      by (auto simp: child_elems_def)
  qed
  moreover have "set (page_elems_list (kids e)) \<subseteq> set (page_elems e)"
    "set (page_elems e) \<subseteq> set (page_elems_list ns)" "e \<in> set (page_elems e)"
    using page_elems_memb(1) [OF e] page_elems_memb(2,3) [OF e(2)] by simp_all
  ultimately have "set (f # es) \<subseteq> set (page_elems_list ns)" "e \<in> set (page_elems_list ns)" by blast+
  then show ?case by simp
qed simp

lemma places_memb:
  "e \<in> set ns \<Longrightarrow> set (places up r e) \<subseteq> set (places_list up r ns)"
  "is_elem e \<Longrightarrow> (nid e, up, r) \<in> set (places up r e)"
  "is_elem e \<Longrightarrow> set (places_list (nid e # up) r (kids e)) \<subseteq> set (places up r e)"
  by (induction ns) (auto elim: is_elem.elims)

lemma path_place:
  "is_path cs p \<Longrightarrow> set cs \<subseteq> set ns \<Longrightarrow> \<forall>c \<in> set cs. is_elem c \<Longrightarrow>
     (nid (last p), rev (map nid (butlast p)) @ up, r) \<in> set (places_list up r ns)"
proof (induction cs p arbitrary: ns up rule: is_path.induct)
  case (2 cs e)
  then have e: "e \<in> set ns" "is_elem e" by auto
  have "(nid e, up, r) \<in> set (places_list up r ns)"
    using places_memb(1) [OF e(1)] places_memb(2) [OF e(2)] by (rule subsetD)
  then show ?case by simp
next
  case (3 cs e f es)
  then have e: "e \<in> set ns" "is_elem e" by auto
  have "(nid (last (f # es)), rev (map nid (butlast (f # es))) @ (nid e # up), r)
      \<in> set (places_list (nid e # up) r (kids e))"
  proof (rule "3.IH")
    show "is_path (child_elems e) (f # es)" using "3.prems"(1) by simp
    show "set (child_elems e) \<subseteq> set (kids e)" "\<forall>c \<in> set (child_elems e). is_elem c"
      by (auto simp: child_elems_def)
  qed
  then have "(nid (last (f # es)), rev (map nid (butlast (f # es))) @ (nid e # up), r)
      \<in> set (places_list up r ns)"
    using places_memb(1) [OF e(1), of up r] places_memb(3) [OF e(2), of up r] by blast
  then show ?case by simp
qed simp

text \<open>The segment of an element among its siblings.\<close>

definition seg_in :: "dnode list \<Rightarrow> dnode \<Rightarrow> string" where
  "seg_in cs e =
     (let sibs = filter (\<lambda>s. lname s = lname e) cs
      in lname e @ (if length sibs = 1 then [] else
           case index_of (nid e) (map nid sibs) of Some k \<Rightarrow> ''['' @ show_nat (k + 1) @ '']'' | None \<Rightarrow> []))"

fun segs_in :: "dnode list \<Rightarrow> dnode list \<Rightarrow> string list" where
  "segs_in cs [] = []"
| "segs_in cs (e # es) = seg_in cs e # segs_in (child_elems e) es"

definition plain_name :: "string \<Rightarrow> bool" where
  "plain_name s \<longleftrightarrow> CHR ''/'' \<notin> set s \<and> CHR ''['' \<notin> set s"

lemma index_of_nth: "x \<in> set xs \<Longrightarrow> \<exists>k. index_of x xs = Some k \<and> k < length xs \<and> xs ! k = x"
proof (induction xs)
  case (Cons y ys)
  then show ?case by (cases "x = y") auto
qed simp

lemma parse_step_plain: "CHR ''['' \<notin> set s \<Longrightarrow> parse_step s = (s, None)"
  by (simp add: parse_step_def takeWhile_eq_all_conv dropWhile_eq_Nil_conv)

lemma parse_step_index:
  assumes "CHR ''['' \<notin> set s"
  shows "parse_step (s @ ''['' @ show_nat n @ '']'') = (s, Some n)"
proof -
  have "\<forall>c \<in> set (show_nat n). c \<noteq> CHR '']''"
    using show_nat_digits by (fastforce simp: is_digit_def)
  then have "takeWhile (\<lambda>c. c \<noteq> CHR '']'') (show_nat n @ '']'') = show_nat n"
    by (subst takeWhile_append2) auto
  moreover have "takeWhile (\<lambda>c. c \<noteq> CHR ''['') (s @ ''['' @ show_nat n @ '']'') = s"
    "dropWhile (\<lambda>c. c \<noteq> CHR ''['') (s @ ''['' @ show_nat n @ '']'') = ''['' @ show_nat n @ '']''"
    using assms by (subst takeWhile_append2 dropWhile_append2; auto)+
  ultimately show ?thesis by (simp add: parse_step_def)
qed

lemma select_seg_in:
  assumes e: "e \<in> set cs" and d: "distinct (map nid cs)" and n: "plain_name (lname e)"
  shows "select_step (seg_in cs e) cs = [e]"
proof -
  define sibs where "sibs = filter (\<lambda>s. lname s = lname e) cs"
  have es: "e \<in> set sibs" using e by (simp add: sibs_def)
  show ?thesis
  proof (cases "length sibs = 1")
    case True
    then have "sibs = [e]" using es by (cases sibs) auto
    then show ?thesis using n
      by (simp add: seg_in_def sibs_def [symmetric] select_step_def parse_step_plain plain_name_def)
  next
    case False
    obtain k where k: "index_of (nid e) (map nid sibs) = Some k" "k < length sibs" "nid (sibs ! k) = nid e"
      using index_of_nth [of "nid e" "map nid sibs"] es by auto
    have "sibs ! k \<in> set cs" using nth_mem [OF k(2)] by (simp add: sibs_def)
    then have "sibs ! k = e" using k(3) e d by (auto simp: distinct_map dest: inj_onD)
    then have "take 1 (drop k sibs) = [e]" using k(2) by (simp add: take_Suc_conv_app_nth take_drop)
    moreover have "seg_in cs e = lname e @ ''['' @ show_nat (k + 1) @ '']''"
      using False k by (simp add: seg_in_def sibs_def [symmetric])
    moreover have "parse_step (lname e @ ''['' @ show_nat (k + 1) @ '']'') = (lname e, Some (k + 1))"
      using n unfolding plain_name_def by (intro parse_step_index) blast
    ultimately show ?thesis
      unfolding select_step_def Let_def by (simp add: sibs_def [symmetric])
  qed
qed

lemma seg_in_no_slash: "plain_name (lname e) \<Longrightarrow> CHR ''/'' \<notin> set (seg_in cs e)"
proof -
  assume n: "plain_name (lname e)"
  have "CHR ''/'' \<notin> set (show_nat k)" for k
    using show_nat_digits [of "CHR ''/''" k] by (auto simp: is_digit_def)
  then show ?thesis using n by (auto simp: seg_in_def plain_name_def Let_def split: option.split)
qed

lemma segs_in_no_slash: "\<forall>x \<in> set p. plain_name (lname x) \<Longrightarrow> \<forall>s \<in> set (segs_in cs p). CHR ''/'' \<notin> set s"
  by (induction cs p rule: segs_in.induct) (auto simp: seg_in_no_slash)

lemma select_segs_in:
  "is_path cs p \<Longrightarrow> distinct (map nid cs) \<Longrightarrow> \<forall>x \<in> set p. distinct (map nid (child_elems x)) \<Longrightarrow>
   \<forall>x \<in> set p. plain_name (lname x) \<Longrightarrow> select_path (segs_in cs p) cs = [last p]"
proof (induction cs p rule: is_path.induct)
  case (2 cs e)
  then show ?case by (simp add: select_seg_in)
next
  case (3 cs e f es)
  have "select_path (segs_in (child_elems e) (f # es)) (child_elems e) = [last (f # es)]"
    using 3 by (intro "3.IH") auto
  moreover have "select_step (seg_in cs e) cs = [e]" using 3 by (simp add: select_seg_in)
  ultimately show ?case by simp
qed simp

lemma segs_in_snoc:
  "segs_in cs (q @ [e]) = segs_in cs q @ [seg_in (if q = [] then cs else child_elems (last q)) e]"
  by (induction cs q rule: segs_in.induct) auto

lemma is_path_butlast: "is_path cs (q @ [e]) \<Longrightarrow> q \<noteq> [] \<Longrightarrow> is_path cs q \<and> e \<in> set (child_elems (last q))"
proof (induction cs q rule: is_path.induct)
  case (3 cs x y ys)
  then show ?case by (cases ys) auto
qed simp_all

lemma subseq_siblings: "subseq (map nid (filter is_elem ns)) (map nid (page_elems_list ns))"
proof (induction ns)
  case (Cons n ns)
  have "subseq (map nid (filter is_elem [n])) (map nid (page_elems n))" by (cases n) auto
  from list_emb_append_mono [OF this Cons.IH] show ?case by (cases "is_elem n") simp_all
qed simp

lemma subseq_sub_elems:
  "e \<in> set (page_elems n) \<Longrightarrow> subseq (page_elems e) (page_elems n)"
  "e \<in> set (page_elems_list ns) \<Longrightarrow> subseq (page_elems e) (page_elems_list ns)"
  "e \<in> set (page_elems_opt sh) \<Longrightarrow> subseq (page_elems e) (page_elems_opt sh)"
  by (induction n and ns and sh rule: page_elems_page_elems_list_page_elems_opt.induct)
     (auto intro: subseq_drop_many list_emb_append2 subseq_rev_drop_many)

lemma distinct_children:
  assumes wf: "page_wf roots" and e: "e \<in> set (page_elems_list roots)" "is_elem e"
  shows "distinct (map nid (child_elems e))"
proof -
  have "subseq (map nid (page_elems e)) (map nid (page_elems_list roots))"
    using subseq_sub_elems(2) [OF e(1)] by (rule subseq_map)
  then have "distinct (map nid (page_elems e))"
    using distinct_page_elems [OF wf] by (metis subseq_conv_nths distinct_nthsI)
  then have "distinct (map nid (page_elems_list (kids e)))"
    using e(2) by (cases e) auto
  then show ?thesis using subseq_siblings [of "kids e"] unfolding child_elems_def
    by (metis subseq_conv_nths distinct_nthsI)
qed

section \<open>The path of an element of the document\<close>

lemma place_of_path:
  assumes wf: "page_wf roots" and p: "is_path (filter is_elem roots) p"
  shows "place_of roots (nid (last p)) = (rev (map nid (butlast p)), InDoc)"
proof -
  have "(nid (last p), rev (map nid (butlast p)) @ [], InDoc) \<in> set (places_list [] InDoc roots)"
    by (rule path_place [OF p]) auto
  then have "map_of (places_list [] InDoc roots) (nid (last p)) = Some (rev (map nid (butlast p)), InDoc)"
    using wf by (simp add: page_wf_def)
  then show ?thesis by (simp add: place_of_def)
qed

lemma path_in_page: "is_path (filter is_elem roots) p \<Longrightarrow> x \<in> set p \<Longrightarrow> x \<in> set (page_elems_list roots)"
proof -
  assume p: "is_path (filter is_elem roots) p" and x: "x \<in> set p"
  have "set p \<subseteq> set (page_elems_list roots)" by (rule path_elems [OF p]) simp_all
  then show ?thesis using x by (rule subsetD)
qed

lemma path_is_elem: "is_path cs p \<Longrightarrow> \<forall>c \<in> set cs. is_elem c \<Longrightarrow> \<forall>x \<in> set p. is_elem x"
proof (induction cs p rule: is_path.induct)
  case (3 cs e f es)
  have "\<forall>x \<in> set (f # es). is_elem x"
  proof (rule "3.IH")
    show "is_path (child_elems e) (f # es)" using "3.prems"(1) by simp
    show "\<forall>c \<in> set (child_elems e). is_elem c" by (simp add: child_elems_def)
  qed
  then show ?case using "3.prems" by simp
qed simp_all

lemma segment_of_path:
  assumes wf: "page_wf roots" and one: "filter is_elem roots = [html]"
    and p: "is_path (filter is_elem roots) (q @ [e])"
  shows "xpath_segment roots (nid e) = seg_in (if q = [] then [html] else child_elems (last q)) e"
proof -
  have pl: "place_of roots (nid e) = (rev (map nid q), InDoc)"
    using place_of_path [OF wf p] by simp
  have ee: "elem_of roots (nid e) = Some e"
    using elem_of_eq [OF wf path_in_page [OF p]] by simp
  show ?thesis
  proof (cases q rule: rev_cases)
    case Nil
    then have "e = html" using p one by simp
    then show ?thesis
      using Nil pl ee by (simp add: xpath_segment_def element_position_def parent_element_def node_name_def seg_in_def)
  next
    case (snoc q' f)
    have f: "elem_of roots (nid f) = Some f"
      using elem_of_eq [OF wf path_in_page [OF p]] snoc by simp
    have par: "parent_element roots (nid e) = Some (nid f)"
      using pl snoc by (simp add: parent_element_def)
    have nn: "node_name roots (nid e) = lname e" using ee by (simp add: node_name_def)
    have "q \<noteq> []" "last q = f" using snoc by auto
    then show ?thesis
      unfolding xpath_segment_def element_position_def seg_in_def Let_def
      by (simp add: par nn f split: option.split)
  qed
qed

lemma segments_of_path:
  assumes wf: "page_wf roots" and one: "filter is_elem roots = [html]"
  shows "is_path (filter is_elem roots) p \<Longrightarrow> map (\<lambda>x. xpath_segment roots (nid x)) p = segs_in [html] p"
proof (induction p rule: rev_induct)
  case (snoc e q)
  note seg = segment_of_path [OF wf one snoc.prems]
  show ?case
  proof (cases "q = []")
    case True
    then show ?thesis using seg by simp
  next
    case False
    then show ?thesis
      using is_path_butlast [OF snoc.prems False] snoc.IH seg by (simp add: segs_in_snoc)
  qed
qed simp

lemma path_not_shadow:
  assumes wf: "page_wf roots"
  shows "is_path (filter is_elem roots) p \<Longrightarrow> x \<in> set p \<Longrightarrow> \<not> under_shadow_root roots (nid x)"
proof (induction p rule: rev_induct)
  case (snoc e q)
  have "\<not> under_shadow_root roots (nid e)"
    using place_of_path [OF wf snoc.prems(1)] by (simp add: under_shadow_root_def split: list.split)
  then show ?case using snoc is_path_butlast [OF snoc.prems(1)] by (cases "q = []") auto
qed simp

lemma xpath_loop_plain:
  "\<forall>c \<in> set cs. \<not> (stop \<and> under_shadow_root roots c) \<Longrightarrow>
     xpath_loop roots stop cs segs = rev (map (xpath_segment roots) cs) @ segs"
  by (induction cs arbitrary: segs) auto

lemma xpath_of_path:
  assumes wf: "page_wf roots" and one: "filter is_elem roots = [html]"
    and p: "is_path (filter is_elem roots) p"
  shows "xpath_of roots True (nid (last p)) = join ''/'' (segs_in [html] p)"
proof -
  have "p \<noteq> []" using p by auto
  then have r: "rev (map nid p) = nid (last p) # rev (map nid (butlast p))"
    by (cases p rule: rev_cases) simp_all
  have ns: "\<forall>c \<in> set (rev (map nid p)). \<not> (True \<and> under_shadow_root roots c)"
    using path_not_shadow [OF wf p] unfolding set_rev set_map by blast
  have "xpath_loop roots True (nid (last p) # rev (map nid (butlast p))) [] =
      map (xpath_segment roots) (map nid p)"
    unfolding r [symmetric] xpath_loop_plain [OF ns] by (simp only: rev_map rev_rev_ident append_Nil2)
  then show ?thesis
    using segments_of_path [OF wf one p] place_of_path [OF wf p] by (simp add: xpath_of_def comp_def)
qed

section \<open>Properties\<close>

text \<open>
  C3. Round trip: the path the builder returns for an element of the document, from the
  cache or not, selects that element and no other when it is evaluated from the document
  down.
\<close>

theorem xpath_selects_element:
  assumes wf: "page_wf roots" and one: "filter is_elem roots = [html]"
    and p: "is_path (filter is_elem roots) p" and names: "\<forall>x \<in> set p. plain_name (lname x)"
    and cache: "memo_ok (\<lambda>c. c) (xpath_of roots True) cache"
  shows "evaluate_xpath roots (fst (get_xpath_tree roots True cache (nid (last p)))) = [last p]"
proof -
  have ne: "segs_in [html] p \<noteq> []" using p by (cases p) auto
  have "split_str ''/'' (join ''/'' (segs_in [html] p)) = segs_in [html] p"
    by (rule split_join [OF ne segs_in_no_slash [OF names]])
  moreover have "select_path (segs_in [html] p) [html] = [last p]"
  proof (rule select_segs_in)
    show "is_path [html] p" using p one by simp
    show "\<forall>x \<in> set p. distinct (map nid (child_elems x))"
    proof
      fix x assume x: "x \<in> set p"
      have "\<forall>c \<in> set (filter is_elem roots). is_elem c" by simp
      then have "is_elem x" using path_is_elem [OF p] x by blast
      then show "distinct (map nid (child_elems x))"
        by (rule distinct_children [OF wf path_in_page [OF p x]])
    qed
  qed (use names in simp_all)
  ultimately show ?thesis
    by (simp add: xpath_memo.fetch_value [OF cache] xpath_of_path [OF wf one p] evaluate_xpath_def one)
qed

definition demo_page_tree :: "dnode list" where
  "demo_page_tree = [Elem 0 ''HTML'' [Elem 1 ''BODY'' [Elem 2 ''DIV'' [] None None, Text 3 ''x'',
      Elem 4 ''DIV'' [Elem 5 ''A'' [] (Some [Elem 6 ''SPAN'' [] None None, Elem 7 ''P'' [] None None]) None]
        None None] None None] None None]"

theorem xpath_selects_element_witness:
  "fst (get_xpath_tree demo_page_tree True (\<lambda>_. None) 5) = ''html/body/div[2]/a''
   \<and> map nid (evaluate_xpath demo_page_tree (fst (get_xpath_tree demo_page_tree True (\<lambda>_. None) 5))) = [5]"
proof
  show "fst (get_xpath_tree demo_page_tree True (\<lambda>_. None) 5) = ''html/body/div[2]/a''" by code_simp
  let ?html = "hd demo_page_tree" and ?body = "hd (kids (hd demo_page_tree))"
  let ?p = "[?html, ?body, kids ?body ! 2, hd (kids (kids ?body ! 2))]"
  have 1: "page_wf demo_page_tree" by code_simp
  have 2: "filter is_elem demo_page_tree = [?html]" by (simp add: demo_page_tree_def)
  have 3: "is_path (filter is_elem demo_page_tree) ?p"
    by (simp add: demo_page_tree_def child_elems_def)
  have 4: "\<forall>x \<in> set ?p. plain_name (lname x)" by code_simp
  have 5: "memo_ok (\<lambda>c. c) (xpath_of demo_page_tree True) (\<lambda>_. None)" by (simp add: memo_ok_def)
  have "nid (last ?p) = 5" by (simp add: demo_page_tree_def)
  then show "map nid (evaluate_xpath demo_page_tree (fst (get_xpath_tree demo_page_tree True (\<lambda>_. None) 5))) = [5]"
    using xpath_selects_element [OF 1 2 3 4 5] by simp
qed

text \<open>
  Inside a shadow root the walk stops before it has added the segment of the
  shadow root's own child: every child of a shadow root gets the empty path, and two
  elements below different children of one root share a path when their segments below
  those children agree.
\<close>

theorem shadow_xpath_drops_root_child:
  assumes i: "place_of roots i = (up @ [c], InShadow h)" and c: "place_of roots c = ([], InShadow h)"
    and up: "\<forall>x \<in> set (i # up). fst (place_of roots x) \<noteq> []"
  shows "xpath_of roots True c = [] \<and>
     xpath_of roots True i = join ''/'' (rev (map (xpath_segment roots) (i # up)))"
proof -
  have us: "under_shadow_root roots c" using c by (simp add: under_shadow_root_def)
  have no: "\<not> under_shadow_root roots x" if "x \<in> set (i # up)" for x
  proof -
    have "fst (place_of roots x) \<noteq> []" using up that by blast
    then show ?thesis
      unfolding under_shadow_root_def by (cases "place_of roots x"; cases "fst (place_of roots x)") simp_all
  qed
  have "xpath_loop roots True (xs @ [c]) segs = rev (map (xpath_segment roots) xs) @ segs"
    if "\<forall>x \<in> set xs. \<not> under_shadow_root roots x" for xs segs
    using that by (induction xs arbitrary: segs) (simp_all add: us)
  from this [of "i # up"] no have "xpath_loop roots True ((i # up) @ [c]) [] =
      rev (map (xpath_segment roots) (i # up))" by simp
  then show ?thesis using us c i by (simp add: xpath_of_def)
qed

definition demo_shadow_tree :: "dnode list" where
  "demo_shadow_tree = [Elem 0 ''HTML'' [Elem 1 ''BODY'' [Elem 2 ''DIV'' []
      (Some [Elem 3 ''P'' [Elem 4 ''B'' [] None None] None None, Elem 5 ''P'' [Elem 6 ''B'' [] None None] None None])
      None] None None] None None]"

theorem shadow_xpath_drops_root_child_witness:
  "xpath_of demo_page_tree True 6 = [] \<and> xpath_of demo_page_tree True 7 = []
   \<and> xpath_of demo_shadow_tree True 4 = ''b''"
proof -
  have r: "place_of demo_page_tree 6 = ([], InShadow 5)" "place_of demo_page_tree 7 = ([], InShadow 5)"
    "xpath_of demo_page_tree True 6 = []" "xpath_of demo_page_tree True 7 = []" by code_simp+
  have i: "place_of demo_shadow_tree 4 = ([] @ [3], InShadow 2)"
    and c: "place_of demo_shadow_tree 3 = ([], InShadow 2)"
    and u: "\<forall>x \<in> set [4 :: nat]. fst (place_of demo_shadow_tree x) \<noteq> []" by code_simp+
  have "xpath_segment demo_shadow_tree 4 = ''b''" by code_simp
  then show ?thesis using shadow_xpath_drops_root_child [OF i c u] r by simp
qed

end
