(* ===== verification/Node_Helper.thy ===== *)
theory Node_Helper
  imports Xpath
begin

text \<open>
  Accepting, interactivity and visibility of elements
  (\<open>content/page_analysis/NodeHelper.ts\<close>).  What the page analysis asks the
  browser beyond \<open>Page\<close> is gathered in \<open>tree_env\<close>: form state, event
  listeners, hit testing and text geometry.
\<close>

record tree_env =
  te_page :: page_env
  te_roots :: "dnode list"
  te_body :: nat
  te_disabled :: "nat \<Rightarrow> bool"
  te_read_only :: "nat \<Rightarrow> bool"
  te_inert :: "nat \<Rightarrow> bool"
  te_editable :: "nat \<Rightarrow> bool"
  te_listeners :: "nat \<Rightarrow> (exn + (string \<times> nat) list) option"
    \<comment> \<open>\<open>window.getEventListeners\<close>, \<open>None\<close> when it is no function\<close>
  te_node_listeners :: "nat \<Rightarrow> (exn + string list) option"
  te_handler :: "nat \<Rightarrow> string \<Rightarrow> bool"  \<comment> \<open>\<open>typeof element[attr] === "function"\<close>\<close>
  te_hit :: "rat \<Rightarrow> rat \<Rightarrow> exn + nat option"  \<comment> \<open>\<open>document.elementFromPoint\<close>\<close>
  te_shadow_hit :: "nat \<Rightarrow> rat \<Rightarrow> rat \<Rightarrow> exn + nat option"
  te_check_visibility :: "nat \<Rightarrow> exn + bool"
  te_text_rects :: "nat \<Rightarrow> exn + rect list"

section \<open>Words of attribute values\<close>

function words_by :: "(char \<Rightarrow> bool) \<Rightarrow> string \<Rightarrow> string list" where
  "words_by sep [] = []"
| "words_by sep (c # cs) =
     (if sep c then words_by sep cs
      else (c # takeWhile (\<lambda>d. \<not> sep d) cs) # words_by sep (dropWhile (\<lambda>d. \<not> sep d) cs))"
  by pat_completeness auto
termination
  by (relation "measure (\<lambda>(sep, s). length s)") (auto simp: less_Suc_eq_le length_dropWhile_le)

definition attr_str :: "attrs \<Rightarrow> nat \<Rightarrow> string \<Rightarrow> string" where
  "attr_str A i k = (case get_attr A i k of None \<Rightarrow> [] | Some v \<Rightarrow> v)"

text \<open>\<open>classList.contains\<close>.\<close>

definition has_class :: "attrs \<Rightarrow> nat \<Rightarrow> string \<Rightarrow> bool" where
  "has_class A i k \<longleftrightarrow> k \<in> set (words_by is_ws (attr_str A i ''class''))"

section \<open>The decisions\<close>

definition always_accept :: "string list" where
  "always_accept = [''body'', ''div'', ''main'', ''article'', ''section'', ''nav'', ''header'', ''footer'']"

definition leaf_element_deny_list :: "string list" where
  "leaf_element_deny_list = [''svg'', ''script'', ''style'', ''link'', ''meta'', ''noscript'', ''template'']"

definition is_element_accepted :: "dnode \<Rightarrow> bool" where
  "is_element_accepted e \<longleftrightarrow>
     is_elem e \<and> tag e \<noteq> []
     \<and> (lname e \<in> set always_accept \<or> lname e \<notin> set leaf_element_deny_list)"

definition interactive_cursors :: "string list" where
  "interactive_cursors = [''pointer'', ''move'', ''text'', ''grab'', ''grabbing'', ''cell'', ''copy'',
     ''alias'', ''all-scroll'', ''col-resize'', ''context-menu'', ''crosshair'', ''e-resize'',
     ''ew-resize'', ''help'', ''n-resize'', ''ne-resize'', ''nesw-resize'', ''ns-resize'', ''nw-resize'',
     ''nwse-resize'', ''row-resize'', ''s-resize'', ''se-resize'', ''sw-resize'', ''vertical-text'',
     ''w-resize'', ''zoom-in'', ''zoom-out'']"

definition non_interactive_cursors :: "string list" where
  "non_interactive_cursors = [''not-allowed'', ''no-drop'', ''wait'', ''progress'', ''initial'', ''inherit'']"

definition interactive_elements :: "string list" where
  "interactive_elements = [''a'', ''button'', ''input'', ''select'', ''textarea'', ''details'',
     ''summary'', ''label'', ''option'', ''optgroup'', ''fieldset'', ''legend'']"

definition explicit_disable_tags :: "string list" where
  "explicit_disable_tags = [''disabled'', ''readonly'']"

definition interactive_roles :: "string list" where
  "interactive_roles = [''button'', ''menu'', ''menubar'', ''menuitem'', ''menuitemradio'',
     ''menuitemcheckbox'', ''radio'', ''checkbox'', ''tab'', ''switch'', ''slider'', ''spinbutton'',
     ''combobox'', ''searchbox'', ''textbox'', ''listbox'', ''option'', ''scrollbar'']"

definition interaction_events :: "string list" where
  "interaction_events = [''click'', ''mousedown'', ''mouseup'', ''keydown'', ''keyup'', ''submit'',
     ''change'', ''input'', ''focus'', ''blur'']"

definition mouse_events :: "string list" where
  "mouse_events = [''click'', ''mousedown'', ''mouseup'', ''dblclick'']"

definition common_mouse_attrs :: "string list" where
  "common_mouse_attrs = [''onclick'', ''onmousedown'', ''onmouseup'', ''ondblclick'']"

text \<open>The \<open>try\<close> block on event listeners: an exception leaves it.\<close>

definition node_listener_found :: "tree_env \<Rightarrow> nat \<Rightarrow> exn + bool" where
  "node_listener_found te i =
     (case te_node_listeners te i of
        None \<Rightarrow> Inr False
      | Some (Inl x) \<Rightarrow> Inl x
      | Some (Inr ls) \<Rightarrow> Inr (list_ex (\<lambda>ev. ev \<in> set ls) interaction_events))"

definition listener_check :: "tree_env \<Rightarrow> attrs \<Rightarrow> nat \<Rightarrow> exn + bool" where
  "listener_check te A i =
     try_bind (case te_listeners te i of
                 None \<Rightarrow> Inr False
               | Some (Inl x) \<Rightarrow> Inl x
               | Some (Inr ls) \<Rightarrow> Inr (list_ex (\<lambda>ev. case map_of ls ev of None \<Rightarrow> False | Some n \<Rightarrow> n > 0) mouse_events))
       (\<lambda>found. if found then Inr True
         else try_bind (node_listener_found te i)
           (\<lambda>found'. if found' then Inr True
             else Inr (list_ex (\<lambda>a. has_attr A i a \<or> te_handler te i a) common_mouse_attrs)))"

definition is_interactive_element :: "tree_env \<Rightarrow> attrs \<Rightarrow> dom_cache \<Rightarrow> dnode \<Rightarrow> bool \<times> dom_cache" where
  "is_interactive_element te A c e =
     (if \<not> is_elem e then (False, c) else
      let i = nid e; tag_name = lname e;
          (style, c1) = cached_computed_style (te_page te) c i;
          cursor = st_cursor style;
          role = get_attr A i ''role''; aria_role = get_attr A i ''aria-role'';
          in_roles = (\<lambda>r. case r of None \<Rightarrow> False | Some v \<Rightarrow> v \<noteq> [] \<and> v \<in> set interactive_roles)
      in (if tag_name \<noteq> ''html'' \<and> cursor \<noteq> [] \<and> cursor \<in> set interactive_cursors then True
          else if tag_name \<in> set interactive_elements then
            (if cursor \<noteq> [] \<and> cursor \<in> set non_interactive_cursors then False
             else if list_ex (\<lambda>t. has_attr A i t \<or> get_attr A i t = Some ''true'' \<or> get_attr A i t = Some [])
                       explicit_disable_tags then False
             else if te_disabled te i then False
             else if te_read_only te i then False
             else if te_inert te i then False
             else True)
          else if get_attr A i ''contenteditable'' = Some ''true'' \<or> te_editable te i then True
          else if has_class A i ''button'' \<or> has_class A i ''dropdown-toggle''
             \<or> attr_str A i ''data-index'' \<noteq> []
             \<or> get_attr A i ''data-toggle'' = Some ''dropdown''
             \<or> get_attr A i ''aria-haspopup'' = Some ''true'' then True
          else if tag_name \<in> set interactive_elements \<or> in_roles role \<or> in_roles aria_role then True
          else (case listener_check te A i of Inl _ \<Rightarrow> False | Inr found \<Rightarrow> found),
          c1))"

definition is_node_visible :: "tree_env \<Rightarrow> dom_cache \<Rightarrow> nat \<Rightarrow> bool \<times> dom_cache" where
  "is_node_visible te c i =
     (let (style, c1) = cached_computed_style (te_page te) c i
      in (pe_offset_width (te_page te) i > 0 \<and> pe_offset_height (te_page te) i > 0
          \<and> st_visibility style \<noteq> ''hidden'' \<and> st_display style \<noteq> ''none'', c1))"

section \<open>The decisions do not depend on the cache\<close>

lemma interactive_cache_ok:
  assumes "cache_ok (te_page te) c"
  shows "cache_ok (te_page te) (snd (is_interactive_element te A c e))"
proof (cases "is_elem e")
  case True
  then have "snd (is_interactive_element te A c e) = snd (cached_computed_style (te_page te) c (nid e))"
    unfolding is_interactive_element_def Let_def case_prod_beta by (simp only: if_False not_True_eq_False snd_conv)
  then show ?thesis using assms by simp
next
  case False
  then show ?thesis using assms by (simp add: is_interactive_element_def)
qed

lemma visible_cache_ok:
  assumes "cache_ok (te_page te) c"
  shows "cache_ok (te_page te) (snd (is_node_visible te c i))"
  using assms unfolding is_node_visible_def Let_def case_prod_beta by simp

lemma visible_iff:
  assumes "cache_ok (te_page te) c"
  shows "fst (is_node_visible te c i) \<longleftrightarrow>
     pe_offset_width (te_page te) i > 0 \<and> pe_offset_height (te_page te) i > 0
     \<and> st_visibility (pe_style (te_page te) i) \<noteq> ''hidden''
     \<and> st_display (pe_style (te_page te) i) \<noteq> ''none''"
  using cached_style_ok(1) [OF assms, of i] by (auto simp: is_node_visible_def split: prod.split)

text \<open>
  A form control, link or label is interactive exactly when its cursor is an
  interactive one, or its cursor is not a blocking one and it is neither disabled,
  read-only nor inert, by attribute or by property: an interactive cursor wins over a
  disabled control, and nothing else about the element is consulted.
\<close>

theorem control_interactive_iff:
  assumes cache: "cache_ok (te_page te) c" and e: "is_elem e" "lname e \<in> set interactive_elements"
  shows "fst (is_interactive_element te A c e) \<longleftrightarrow>
     (let cursor = st_cursor (pe_style (te_page te) (nid e)); i = nid e
      in cursor \<in> set interactive_cursors
         \<or> (cursor \<notin> set non_interactive_cursors \<and> \<not> has_attr A i ''disabled'' \<and> \<not> has_attr A i ''readonly''
            \<and> \<not> te_disabled te i \<and> \<not> te_read_only te i \<and> \<not> te_inert te i))"
proof -
  obtain st c1 where s: "cached_computed_style (te_page te) c (nid e) = (st, c1)" by fastforce
  have st: "st = pe_style (te_page te) (nid e)" using cached_style_ok(1) [OF cache, of "nid e"] s by simp
  have nh: "lname e \<noteq> ''html''" using e(2) by (auto simp: interactive_elements_def)
  have ne: "[] \<notin> set interactive_cursors" "[] \<notin> set non_interactive_cursors"
    by (simp_all add: interactive_cursors_def non_interactive_cursors_def)
  have dis: "list_ex (\<lambda>t. has_attr A (nid e) t \<or> get_attr A (nid e) t = Some ''true'' \<or> get_attr A (nid e) t = Some [])
      explicit_disable_tags \<longleftrightarrow> has_attr A (nid e) ''disabled'' \<or> has_attr A (nid e) ''readonly''"
    by (auto simp: explicit_disable_tags_def has_attr_def)
  have cur: "st_cursor st \<noteq> [] \<and> st_cursor st \<in> set interactive_cursors \<longleftrightarrow> st_cursor st \<in> set interactive_cursors"
    "st_cursor st \<noteq> [] \<and> st_cursor st \<in> set non_interactive_cursors \<longleftrightarrow> st_cursor st \<in> set non_interactive_cursors"
    using ne by auto
  show ?thesis
    unfolding is_interactive_element_def Let_def s dis
    by (simp add: e nh cur st [symmetric])
qed

definition demo_tree_env :: tree_env where
  "demo_tree_env = \<lparr>te_page = demo_page, te_roots = demo_page_tree, te_body = 1,
     te_disabled = (\<lambda>_. False), te_read_only = (\<lambda>_. False), te_inert = (\<lambda>_. False),
     te_editable = (\<lambda>_. False), te_listeners = (\<lambda>_. None), te_node_listeners = (\<lambda>_. None),
     te_handler = (\<lambda>_ _. False), te_hit = (\<lambda>x y. Inr (Some 5)), te_shadow_hit = (\<lambda>_ x y. Inr None),
     te_check_visibility = (\<lambda>_. Inr True), te_text_rects = (\<lambda>_. Inr [demo_rect])\<rparr>"

definition empty_cache :: dom_cache where
  "empty_cache = \<lparr>dc_bounding = (\<lambda>_. None), dc_client = (\<lambda>_. None), dc_styles = (\<lambda>_. None)\<rparr>"

lemma empty_cache_ok [simp]: "cache_ok env empty_cache"
  by (simp add: cache_ok_def memo_ok_def empty_cache_def)

theorem control_interactive_iff_witness:
  "fst (is_interactive_element demo_tree_env (\<lambda>_. []) empty_cache (Elem 5 ''A'' [] None None))
   \<and> \<not> fst (is_interactive_element demo_tree_env (set_attr (\<lambda>_. []) 5 ''disabled'' []) empty_cache
        (Elem 5 ''A'' [] None None))"
proof -
  have e: "is_elem (Elem 5 ''A'' [] None None)" "lname (Elem 5 ''A'' [] None None) \<in> set interactive_elements"
    by code_simp+
  have c: "st_cursor (pe_style (te_page demo_tree_env) 5) = ''auto''"
    by (simp add: demo_tree_env_def demo_page_def demo_style_def)
  have n: "''auto'' \<notin> set interactive_cursors" "''auto'' \<notin> set non_interactive_cursors" by code_simp+
  have p: "\<not> te_disabled demo_tree_env 5" "\<not> te_read_only demo_tree_env 5" "\<not> te_inert demo_tree_env 5"
    by (simp_all add: demo_tree_env_def)
  have h: "\<not> has_attr (\<lambda>_. []) 5 ''disabled''" "\<not> has_attr (\<lambda>_. []) 5 ''readonly''"
    "has_attr (set_attr (\<lambda>_. []) 5 ''disabled'' []) 5 ''disabled''"
    by (simp_all add: has_attr_def get_attr_def set_attr_def)
  show ?thesis
    using control_interactive_iff [OF empty_cache_ok e] c n p h by (simp add: Let_def)
qed

end
