(* ===== verification/Node_Collector.thy ===== *)
theory Node_Collector
  imports Node_Helper
begin

text \<open>
  What the analysis records of one element
  (\<open>content/page_analysis/NodeElementCollector.ts\<close>): its numeric
  \<open>dom-tree-id\<close>, allotted from a counter on the window, its path and
  attributes, whether it is visible, on top and interactive; and the visibility of text.
\<close>

section \<open>Node data\<close>

text \<open>\<open>NodeData\<close> and \<open>TextNodeData\<close> of \<open>types.d.ts\<close>; absent fields are \<open>None\<close>.\<close>

record elem_data =
  nd_tag :: string
  nd_attributes :: "(string \<times> string option) list"
  nd_xpath :: string
  nd_dom_tree_id :: nat
  nd_children :: "string list"
  nd_shadow_root :: "bool option"
  nd_visible :: "bool option"
  nd_top :: "bool option"
  nd_interactive :: "bool option"
  nd_in_viewport :: "bool option"
  nd_highlight :: "nat option"

datatype node_data = ElemData elem_data | TextData string bool

record coll_state =
  cs_attrs :: attrs
  cs_counter :: "nat option"  \<comment> \<open>\<open>window.__CUGA_DOM_TREE_ID_COUNTER\<close>\<close>
  cs_cache :: dom_cache
  cs_xpaths :: xpath_cache

section \<open>Numbering\<close>

text \<open>
  \<open>/(\d+)(?!.*\d)/\<close>: the last run of digits of the first line that has one, as
  \<open>.\<close> does not match a line terminator.
\<close>

definition is_line_end :: "char \<Rightarrow> bool" where
  "is_line_end c \<longleftrightarrow> c = CHR 0x0A \<or> c = CHR 0x0D"

definition trailing_number :: "string \<Rightarrow> nat option" where
  "trailing_number s =
     (case find (list_ex is_digit) (words_by is_line_end s) of
        None \<Rightarrow> None
      | Some line \<Rightarrow>
          Some (read_nat (rev (takeWhile is_digit (dropWhile (\<lambda>c. \<not> is_digit c) (rev line))))))"

definition counter_value :: "nat option \<Rightarrow> nat" where
  "counter_value c = (case c of None \<Rightarrow> 0 | Some n \<Rightarrow> n)"

text \<open>The number of the element, with the counter and the attribute it leaves.\<close>

definition allot_dom_tree_id :: "page_env \<Rightarrow> nat \<Rightarrow> attrs \<Rightarrow> nat option \<Rightarrow> nat \<times> attrs \<times> nat option" where
  "allot_dom_tree_id env i A counter =
     (let existing = get_attr A i ''dom-tree-id'';
          next_id = counter_value counter + 1
      in if existing \<noteq> None \<and> existing \<noteq> Some [] then
           (case trailing_number (the existing) of
              Some n \<Rightarrow> (n, A, if n > counter_value counter then Some n else counter)
            | None \<Rightarrow> (next_id, A, Some next_id))
         else (next_id,
               if pe_read_only env i then A else set_attr A i ''dom-tree-id'' (show_nat next_id),
               Some next_id))"

section \<open>Topmost elements\<close>

text \<open>The frame whose document owns a node, \<open>None\<close> for the page itself.\<close>

fun owners :: "nat option \<Rightarrow> dnode \<Rightarrow> (nat \<times> nat option) list"
  and owners_list :: "nat option \<Rightarrow> dnode list \<Rightarrow> (nat \<times> nat option) list"
  and owners_opt :: "nat option \<Rightarrow> dnode list option \<Rightarrow> (nat \<times> nat option) list" where
  "owners d (Elem i t ks sh fr) = (i, d) # owners_list d ks @ owners_opt d sh @ owners_opt (Some i) fr"
| "owners d (Text i s) = [(i, d)]"
| "owners d (Other i) = [(i, d)]"
| "owners_list d [] = []"
| "owners_list d (n # ns) = owners d n @ owners_list d ns"
| "owners_opt d None = []"
| "owners_opt d (Some ns) = owners_list d ns"

definition owner_frame :: "dnode list \<Rightarrow> nat \<Rightarrow> nat option" where
  "owner_frame roots i = (case map_of (owners_list None roots) i of Some d \<Rightarrow> d | None \<Rightarrow> None)"

text \<open>The host of the shadow root a node is in, if its root is one.\<close>

definition shadow_root_of :: "dnode list \<Rightarrow> nat \<Rightarrow> nat option" where
  "shadow_root_of roots i = (case snd (place_of roots i) of InShadow h \<Rightarrow> Some h | _ \<Rightarrow> None)"

definition document_element :: "dnode list \<Rightarrow> nat option" where
  "document_element roots = map_option nid (find is_elem roots)"

definition outside_viewport :: "page_env \<Rightarrow> rat \<Rightarrow> rect \<Rightarrow> bool" where
  "outside_viewport env vx r \<longleftrightarrow>
     rbottom r < - vx \<or> rtop r > pe_inner_height env + vx
     \<or> rright r < - vx \<or> rleft r > pe_inner_width env + vx"

text \<open>Walking up from the element hit until \<open>stop\<close> is reached.\<close>

definition hit_under :: "dnode list \<Rightarrow> nat option \<Rightarrow> nat \<Rightarrow> exn + nat option \<Rightarrow> bool" where
  "hit_under roots stop i hit =
     (case hit of
        Inl _ \<Rightarrow> True
      | Inr None \<Rightarrow> False
      | Inr (Some t) \<Rightarrow> i \<in> set (takeWhile (\<lambda>c. Some c \<noteq> stop) (t # fst (place_of roots t))))"

definition check_points :: "rect \<Rightarrow> (rat \<times> rat) list" where
  "check_points r =
     [(rleft r + rwidth r / 2, rtop r + rheight r / 2),
      (rleft r + 5, rtop r + 5),
      (rright r - 5, rbottom r - 5)]"

definition is_top_element :: "tree_env \<Rightarrow> rat \<Rightarrow> dom_cache \<Rightarrow> nat \<Rightarrow> bool \<times> dom_cache" where
  "is_top_element te vx c i =
     (if vx = - 1 then (True, c) else
      let env = te_page te; roots = te_roots te;
          (rects, c1) = cached_client_rects env c i
      in (if rects = [] then False
          else if \<not> list_ex (\<lambda>r. rwidth r > 0 \<and> rheight r > 0 \<and> \<not> outside_viewport env vx r) rects then False
          else if owner_frame roots i \<noteq> None then True
          else let r = rects ! (length rects div 2) in
            (case shadow_root_of roots i of
               Some h \<Rightarrow> hit_under roots None i
                 (te_shadow_hit te h (rleft r + rwidth r / 2) (rtop r + rheight r / 2))
             | None \<Rightarrow> list_ex (\<lambda>(x, y). hit_under roots (document_element roots) i (te_hit te x y))
                 (check_points r)),
          c1))"

section \<open>Collecting an element\<close>

definition candidate_tags :: "string list" where
  "candidate_tags = [''a'', ''button'', ''input'', ''select'', ''textarea'', ''details'', ''summary'', ''label'']"

definition is_interactive_candidate :: "attrs \<Rightarrow> dnode \<Rightarrow> bool" where
  "is_interactive_candidate A e \<longleftrightarrow>
     is_elem e \<and> (lname e \<in> set candidate_tags
       \<or> has_attr A (nid e) ''onclick'' \<or> has_attr A (nid e) ''role'' \<or> has_attr A (nid e) ''tabindex''
       \<or> has_attr A (nid e) ''aria-'' \<or> has_attr A (nid e) ''data-action''
       \<or> get_attr A (nid e) ''contenteditable'' = Some ''true'')"

definition copy_attributes :: "attrs \<Rightarrow> nat \<Rightarrow> (string \<times> string option) list \<Rightarrow> (string \<times> string option) list" where
  "copy_attributes A i al = foldl (\<lambda>al k. al_set k (get_attr A i k) al) al (map fst (A i))"

text \<open>Visibility, topmost and interactivity, each consulted only when the one before allows it.\<close>

definition inspect_element ::
  "tree_env \<Rightarrow> rat \<Rightarrow> attrs \<Rightarrow> dom_cache \<Rightarrow> dnode \<Rightarrow> bool option \<times> bool option \<times> bool option \<times> dom_cache" where
  "inspect_element te vx A c e =
     (let i = nid e; (vis, c1) = is_node_visible te c i
      in if vis
         then let (top, c2) = is_top_element te vx c1 i;
                  role = get_attr A i ''role'';
                  is_menu = (role = Some ''menu'' \<or> role = Some ''menubar'' \<or> role = Some ''listbox'')
              in if top \<or> is_menu
                 then let (int, c3) = is_interactive_element te A c2 e
                      in (Some True, Some top, Some int, c3)
                 else (Some True, Some top, None, c2)
         else (Some False, None, None, c1))"

definition collect :: "tree_env \<Rightarrow> rat \<Rightarrow> dnode \<Rightarrow> coll_state \<Rightarrow> elem_data \<times> coll_state" where
  "collect te vx e s =
     (let i = nid e;
          existing = get_attr (cs_attrs s) i ''dom-tree-id'';
          (dom_id, A, counter) = allot_dom_tree_id (te_page te) i (cs_attrs s) (cs_counter s)
      in if i = te_body te then
           (\<lparr>nd_tag = ''body'', nd_attributes = [(''dom-tree-id'', Some (show_nat dom_id))],
             nd_xpath = ''/body'', nd_dom_tree_id = dom_id, nd_children = [], nd_shadow_root = None,
             nd_visible = None, nd_top = None, nd_interactive = None, nd_in_viewport = None,
             nd_highlight = None\<rparr>,
            s\<lparr>cs_attrs := A, cs_counter := counter\<rparr>)
         else
           let (xpath, xs) = get_xpath_tree (te_roots te) True (cs_xpaths s) i;
               attributes0 = [(''dom-tree-id'',
                 Some (case existing of Some v \<Rightarrow> v | None \<Rightarrow> show_nat dom_id))];
               attributes =
                 (if is_interactive_candidate A e \<or> lname e = ''iframe'' \<or> lname e = ''body''
                  then copy_attributes A i attributes0 else attributes0);
               (vis, top, int, c) = inspect_element te vx A (cs_cache s) e
           in (\<lparr>nd_tag = lname e, nd_attributes = attributes, nd_xpath = xpath, nd_dom_tree_id = dom_id,
                 nd_children = [], nd_shadow_root = Some (shadow e \<noteq> None), nd_visible = vis,
                 nd_top = top, nd_interactive = int, nd_in_viewport = None, nd_highlight = None\<rparr>,
               \<lparr>cs_attrs = A, cs_counter = counter, cs_cache = c, cs_xpaths = xs\<rparr>))"

section \<open>Text\<close>

definition parent_visible :: "tree_env \<Rightarrow> nat \<Rightarrow> bool" where
  "parent_visible te p =
     (case te_check_visibility te p of
        Inr b \<Rightarrow> b
      | Inl _ \<Rightarrow> (let st = pe_style (te_page te) p
                 in st_display st \<noteq> ''none'' \<and> st_visibility st \<noteq> ''hidden'' \<and> st_opacity st \<noteq> ''0''))"

definition is_text_node_visible :: "tree_env \<Rightarrow> rat \<Rightarrow> nat \<Rightarrow> bool" where
  "is_text_node_visible te vx i =
     (let parent = parent_element (te_roots te) i;
          by_parent = (case parent of None \<Rightarrow> False | Some p \<Rightarrow> parent_visible te p)
      in if vx = - 1 then by_parent
         else (case te_text_rects te i of
                 Inl _ \<Rightarrow> False
               | Inr rects \<Rightarrow>
                   if rects = [] then False
                   else if \<not> list_ex (\<lambda>r. rwidth r > 0 \<and> rheight r > 0 \<and> \<not> outside_viewport (te_page te) vx r) rects
                   then False
                   else by_parent))"

section \<open>Facts about the numbering\<close>

lemma words_by_none: "\<forall>c \<in> set s. \<not> sep c \<Longrightarrow> s \<noteq> [] \<Longrightarrow> words_by sep s = [s]"
  by (cases s) (auto simp: takeWhile_eq_all_conv [THEN iffD2] dropWhile_eq_Nil_conv [THEN iffD2])

lemma trailing_number_show [simp]: "trailing_number (show_nat n) = Some n"
proof -
  have d: "\<forall>c \<in> set (show_nat n). is_digit c" using show_nat_digits by blast
  have "words_by is_line_end (show_nat n) = [show_nat n]"
    using d by (intro words_by_none) (auto simp: is_line_end_def is_digit_def)
  moreover have "list_ex is_digit (show_nat n)"
    using d by (cases "show_nat n") auto
  moreover have "dropWhile (\<lambda>c. \<not> is_digit c) (rev (show_nat n)) = rev (show_nat n)"
    using d by (cases "rev (show_nat n)") (auto simp: dropWhile_eq_self_iff)
  moreover have tw: "takeWhile is_digit (rev (show_nat n)) = rev (show_nat n)"
    using d by (simp add: takeWhile_eq_all_conv)
  ultimately show ?thesis by (simp add: trailing_number_def tw)
qed

lemma counter_value_Some [simp]: "counter_value (Some n) = n" "counter_value None = 0"
  by (simp_all add: counter_value_def)

lemma collect_numbering:
  "nd_dom_tree_id (fst (collect te vx e s)) = fst (allot_dom_tree_id (te_page te) (nid e) (cs_attrs s) (cs_counter s))"
  "cs_attrs (snd (collect te vx e s)) = fst (snd (allot_dom_tree_id (te_page te) (nid e) (cs_attrs s) (cs_counter s)))"
  "cs_counter (snd (collect te vx e s)) = snd (snd (allot_dom_tree_id (te_page te) (nid e) (cs_attrs s) (cs_counter s)))"
proof -
  obtain n A c where a: "allot_dom_tree_id (te_page te) (nid e) (cs_attrs s) (cs_counter s) = (n, A, c)"
    using prod_cases3 by blast
  obtain xp xs where x: "get_xpath_tree (te_roots te) True (cs_xpaths s) (nid e) = (xp, xs)" by fastforce
  obtain v t i k where n: "inspect_element te vx A (cs_cache s) e = (v, t, i, k)"
    using prod_cases4 by blast
  show "nd_dom_tree_id (fst (collect te vx e s)) = fst (allot_dom_tree_id (te_page te) (nid e) (cs_attrs s) (cs_counter s))"
    "cs_attrs (snd (collect te vx e s)) = fst (snd (allot_dom_tree_id (te_page te) (nid e) (cs_attrs s) (cs_counter s)))"
    "cs_counter (snd (collect te vx e s)) = snd (snd (allot_dom_tree_id (te_page te) (nid e) (cs_attrs s) (cs_counter s)))"
    unfolding collect_def Let_def a x n prod.case by simp_all
qed

text \<open>
  Numbering an element: the counter never decreases and bounds the number given; an
  element whose attribute holds no number gets one above every number the counter
  has bounded so far; an attribute that is there is left alone, one that is missing is
  written when the element can be written; and an element that could be numbered for good
  gets the same number whenever it is collected again.
\<close>

theorem collect_number:
  assumes run: "collect te vx e s = (d, s')"
  shows "counter_value (cs_counter s) \<le> counter_value (cs_counter s')
     \<and> nd_dom_tree_id d \<le> counter_value (cs_counter s')
     \<and> (trailing_number (attr_str (cs_attrs s) (nid e) ''dom-tree-id'') = None
          \<longrightarrow> counter_value (cs_counter s) < nd_dom_tree_id d)
     \<and> (attr_str (cs_attrs s) (nid e) ''dom-tree-id'' \<noteq> [] \<longrightarrow> cs_attrs s' = cs_attrs s)
     \<and> (attr_str (cs_attrs s) (nid e) ''dom-tree-id'' = [] \<and> \<not> pe_read_only (te_page te) (nid e)
          \<longrightarrow> get_attr (cs_attrs s') (nid e) ''dom-tree-id'' = Some (show_nat (nd_dom_tree_id d)))
     \<and> (\<not> pe_read_only (te_page te) (nid e)
          \<and> (trailing_number (attr_str (cs_attrs s) (nid e) ''dom-tree-id'') \<noteq> None
             \<or> attr_str (cs_attrs s) (nid e) ''dom-tree-id'' = [])
          \<and> get_attr (cs_attrs t) (nid e) ''dom-tree-id'' = get_attr (cs_attrs s') (nid e) ''dom-tree-id''
          \<longrightarrow> nd_dom_tree_id (fst (collect te vx e t)) = nd_dom_tree_id d)"
proof -
  let ?a = "get_attr (cs_attrs s) (nid e) ''dom-tree-id''" and ?c = "counter_value (cs_counter s)"
  have r: "nd_dom_tree_id d = fst (allot_dom_tree_id (te_page te) (nid e) (cs_attrs s) (cs_counter s))"
    "cs_attrs s' = fst (snd (allot_dom_tree_id (te_page te) (nid e) (cs_attrs s) (cs_counter s)))"
    "cs_counter s' = snd (snd (allot_dom_tree_id (te_page te) (nid e) (cs_attrs s) (cs_counter s)))"
    using collect_numbering [of te vx e s] run by simp_all
  have again: "fst (allot_dom_tree_id (te_page te) (nid e) A c) = n"
    if "get_attr A (nid e) ''dom-tree-id'' = Some v" "v \<noteq> []" "trailing_number v = Some n" for A c v n
    using that by (simp add: allot_dom_tree_id_def Let_def)
  show ?thesis
  proof (cases "?a = None \<or> ?a = Some []")
    case True
    then have a: "allot_dom_tree_id (te_page te) (nid e) (cs_attrs s) (cs_counter s) =
       (?c + 1, if pe_read_only (te_page te) (nid e) then cs_attrs s
          else set_attr (cs_attrs s) (nid e) ''dom-tree-id'' (show_nat (?c + 1)), Some (?c + 1))"
      by (auto simp: allot_dom_tree_id_def Let_def)
    have e: "attr_str (cs_attrs s) (nid e) ''dom-tree-id'' = []" using True by (auto simp: attr_str_def)
    show ?thesis using r by (simp add: a e collect_numbering again)
  next
    case False
    then obtain v where v: "?a = Some v" "v \<noteq> []" by auto
    have e: "attr_str (cs_attrs s) (nid e) ''dom-tree-id'' = v" using v by (simp add: attr_str_def)
    show ?thesis
    proof (cases "trailing_number v")
      case None
      then have a: "allot_dom_tree_id (te_page te) (nid e) (cs_attrs s) (cs_counter s) =
          (?c + 1, cs_attrs s, Some (?c + 1))"
        using v by (simp add: allot_dom_tree_id_def Let_def)
      show ?thesis using r v None by (simp add: a e)
    next
      case (Some n)
      then have a: "allot_dom_tree_id (te_page te) (nid e) (cs_attrs s) (cs_counter s) =
          (n, cs_attrs s, if n > ?c then Some n else cs_counter s)"
        using v by (simp add: allot_dom_tree_id_def Let_def)
      have n: "fst (allot_dom_tree_id (te_page te) (nid e) (cs_attrs t) (cs_counter t)) = n"
        if "get_attr (cs_attrs t) (nid e) ''dom-tree-id'' = ?a"
        using again [of "cs_attrs t" v n] that v Some by simp
      show ?thesis using r v Some n by (simp add: a e collect_numbering)
    qed
  qed
qed

definition demo_coll :: coll_state where
  "demo_coll = \<lparr>cs_attrs = (\<lambda>_. []), cs_counter = None, cs_cache = empty_cache, cs_xpaths = (\<lambda>_. None)\<rparr>"

theorem collect_number_witness:
  "0 < nd_dom_tree_id (fst (collect demo_tree_env 0 (Elem 2 ''DIV'' [] None None) demo_coll))"
proof -
  obtain d s' where r: "collect demo_tree_env 0 (Elem 2 ''DIV'' [] None None) demo_coll = (d, s')" by fastforce
  have n: "trailing_number (attr_str (cs_attrs demo_coll) (nid (Elem 2 ''DIV'' [] None None)) ''dom-tree-id'') = None"
    by (simp add: demo_coll_def attr_str_def get_attr_def trailing_number_def)
  have z: "counter_value (cs_counter demo_coll) = 0" by (simp add: demo_coll_def)
  show ?thesis using collect_number [OF r] n z by (simp add: r)
qed

text \<open>
  The counter does not prevent duplicates: when an element without a number is
  collected first and an element whose attribute holds the next number after it, both are
  recorded with the same number.
\<close>

theorem collect_repeats_number:
  assumes e: "get_attr (cs_attrs s) (nid e) ''dom-tree-id'' = None"
    and f: "get_attr (cs_attrs s) (nid f) ''dom-tree-id'' = Some (show_nat (counter_value (cs_counter s) + 1))"
    and r1: "collect te vx e s = (d1, s1)" and r2: "collect te vx f s1 = (d2, s2)"
  shows "nd_dom_tree_id d1 = nd_dom_tree_id d2"
proof -
  have ne: "nid e \<noteq> nid f" using e f by auto
  have d1: "nd_dom_tree_id d1 = counter_value (cs_counter s) + 1"
    using collect_numbering(1) [of te vx e s] r1 e by (simp add: allot_dom_tree_id_def)
  have "get_attr (cs_attrs s1) (nid f) ''dom-tree-id'' = get_attr (cs_attrs s) (nid f) ''dom-tree-id''"
    using collect_numbering(2) [of te vx e s] r1 e ne by (simp add: allot_dom_tree_id_def Let_def)
  then show ?thesis
    using collect_numbering(1) [of te vx f s1] r2 f d1 by (simp add: allot_dom_tree_id_def Let_def)
qed

theorem collect_repeats_number_witness:
  "\<exists>d1 s1 d2 s2. collect demo_tree_env 0 (Elem 2 ''DIV'' [] None None)
       (demo_coll\<lparr>cs_attrs := set_attr (\<lambda>_. []) 4 ''dom-tree-id'' ''1''\<rparr>) = (d1, s1)
   \<and> collect demo_tree_env 0 (Elem 4 ''DIV'' [] None None) s1 = (d2, s2)
   \<and> nd_dom_tree_id d1 = nd_dom_tree_id d2"
proof -
  let ?s = "demo_coll\<lparr>cs_attrs := set_attr (\<lambda>_. []) 4 ''dom-tree-id'' ''1''\<rparr>"
  obtain d1 s1 where r1: "collect demo_tree_env 0 (Elem 2 ''DIV'' [] None None) ?s = (d1, s1)" by fastforce
  obtain d2 s2 where r2: "collect demo_tree_env 0 (Elem 4 ''DIV'' [] None None) s1 = (d2, s2)" by fastforce
  have e: "get_attr (cs_attrs ?s) (nid (Elem 2 ''DIV'' [] None None)) ''dom-tree-id'' = None"
    by (simp add: get_attr_def set_attr_def)
  have "show_nat (counter_value (cs_counter ?s) + 1) = ''1''" unfolding demo_coll_def by code_simp
  then have f: "get_attr (cs_attrs ?s) (nid (Elem 4 ''DIV'' [] None None)) ''dom-tree-id'' =
      Some (show_nat (counter_value (cs_counter ?s) + 1))"
    by simp
  show ?thesis using collect_repeats_number [OF e f r1 r2] r1 r2 by blast
qed

end
