(* ===== verification/Throttle.thy ===== *)
theory Throttle
  imports Prelude
begin

text \<open>
  The contract of every throttle of the program: a gate that lets a call pass when at
  least \<open>interval\<close> has gone by since the last one it let pass, and what
  follows for any sequence of calls.
\<close>

text \<open>The times of the calls a gate lets pass, out of the times of all calls.\<close>

fun run_gate :: "('s \<Rightarrow> rat \<Rightarrow> bool \<times> 's) \<Rightarrow> 's \<Rightarrow> rat list \<Rightarrow> rat list \<times> 's" where
  "run_gate step s [] = ([], s)"
| "run_gate step s (t # ts) =
     (let (pass, s1) = step s t; (ps, s2) = run_gate step s1 ts
      in (if pass then t # ps else ps, s2))"

locale rate_gate =
  fixes step :: "'s \<Rightarrow> rat \<Rightarrow> bool \<times> 's"
    and last_pass :: "'s \<Rightarrow> rat"
    and interval :: rat
  assumes passes: "step s t = (True, s') \<Longrightarrow> interval \<le> t - last_pass s \<and> last_pass s' = t"
    and blocks: "step s t = (False, s') \<Longrightarrow> t - last_pass s < interval \<and> last_pass s' = last_pass s"
begin

lemma run_apart:
  "run_gate step s ts = (ps, s') \<Longrightarrow>
     successively (\<lambda>a b. interval \<le> b - a) (last_pass s # ps) \<and> last_pass s' = last (last_pass s # ps)"
proof (induction ts arbitrary: s ps s')
  case Nil
  then show ?case by simp
next
  case (Cons t ts)
  obtain b s1 where st: "step s t = (b, s1)" by fastforce
  obtain qs s2 where r: "run_gate step s1 ts = (qs, s2)" by fastforce
  note ih = Cons.IH [OF r]
  show ?case
  proof (cases b)
    case True
    then have "ps = t # qs" "s' = s2" using Cons.prems st r by simp_all
    then show ?thesis using passes [of s t s1] st True ih by simp
  next
    case False
    then have "ps = qs" "s' = s2" using Cons.prems st r by simp_all
    then show ?thesis using blocks [of s t s1] st False ih by simp
  qed
qed

text \<open>A call that is blocked comes less than \<open>interval\<close> after one that passed.\<close>

lemma blocked_reason:
  "run_gate step s ts = (ps, s') \<Longrightarrow> t \<in> set ts \<Longrightarrow> t \<notin> set ps \<Longrightarrow>
     \<exists>p \<in> set (last_pass s # ps). t - p < interval"
proof (induction ts arbitrary: s ps s')
  case Nil
  then show ?case by simp
next
  case (Cons u ts)
  obtain b s1 where st: "step s u = (b, s1)" by fastforce
  obtain qs s2 where r: "run_gate step s1 ts = (qs, s2)" by fastforce
  show ?case
  proof (cases b)
    case True
    then have e: "ps = u # qs" using Cons.prems st r by simp
    then have "t \<in> set ts" "t \<notin> set qs" using Cons.prems by auto
    from Cons.IH [OF r this] show ?thesis using passes [of s u s1] st True e by auto
  next
    case False
    then have e: "ps = qs" using Cons.prems st r by simp
    have l: "u - last_pass s < interval" "last_pass s1 = last_pass s"
      using blocks [of s u s1] st False by auto
    show ?thesis
    proof (cases "t = u")
      case True
      then show ?thesis using l by auto
    next
      case False
      then have "t \<in> set ts" "t \<notin> set qs" using Cons.prems e by auto
      from Cons.IH [OF r this] show ?thesis using l e by simp
    qed
  qed
qed

end

end
