(* ===== verification/Element_Highlighter.thy ===== *)
theory Element_Highlighter
  imports Dom_Cache Throttle
begin

text \<open>
  Drawing the highlight of one element
  (\<open>content/page_analysis/ElementHighlighter.ts\<close>): the overlay boxes, the label
  kept inside the viewport, and the repositioning on scroll and resize.
\<close>

definition HIGHLIGHT_CONTAINER_ID :: string where
  "HIGHLIGHT_CONTAINER_ID = ''playwright-highlight-container''"

record box =
  bx_left :: rat
  bx_top :: rat
  bx_width :: rat
  bx_height :: rat
  bx_shown :: bool

record drawn =
  dr_element :: nat
  dr_iframe :: "nat option"
  dr_color :: string
  dr_boxes :: "box list"
  dr_label_left :: rat
  dr_label_top :: rat
  dr_label_shown :: bool
  dr_label_font :: rat
  dr_label_text :: string
  dr_label_size :: "rat \<times> rat"

text \<open>
  The page of the highlighter: whether the container exists, what it holds, and the
  drawings with a cleanup function in \<open>_highlightCleanupFunctions\<close>, which are the
  listeners on scroll and resize too.
\<close>

record highlight_page =
  hp_container :: bool
  hp_drawn :: "drawn list"
  hp_cleanups :: "drawn list"

definition highlight_colors :: "string list" where
  "highlight_colors = [''#FF0000'', ''#00FF00'', ''#0000FF'', ''#FFA500'', ''#800080'', ''#008080'',
     ''#FF69B4'', ''#4B0082'', ''#FF4500'', ''#2E8B57'', ''#DC143C'', ''#4682B4'']"

definition iframe_offset :: "page_env \<Rightarrow> nat option \<Rightarrow> rat \<times> rat" where
  "iframe_offset env parent =
     (case parent of None \<Rightarrow> (0, 0) | Some f \<Rightarrow> (rleft (pe_rect env f), rtop (pe_rect env f)))"

definition overlay_box :: "rat \<times> rat \<Rightarrow> rect \<Rightarrow> box" where
  "overlay_box off r = \<lparr>bx_left = rleft r + fst off, bx_top = rtop r + snd off,
     bx_width = rwidth r, bx_height = rheight r, bx_shown = True\<rparr>"

definition empty_rect :: "rect \<Rightarrow> bool" where
  "empty_rect r \<longleftrightarrow> rwidth r = 0 \<or> rheight r = 0"

text \<open>The label, next to the first rectangle and clamped to the viewport.\<close>

definition label_position :: "page_env \<Rightarrow> rat \<times> rat \<Rightarrow> rat \<times> rat \<Rightarrow> rect \<Rightarrow> rat \<times> rat" where
  "label_position env off lsize r =
     (let (lw, lh) = lsize;
          first_top = rtop r + snd off; first_left = rleft r + fst off;
          (left0, top0) =
            (if rwidth r < lw + 4 \<or> rheight r < lh + 4
             then let l = first_left + rwidth r - lw
                  in (if l < fst off then first_left else l, first_top - lh - 2)
             else (first_left + rwidth r - lw - 2, first_top + 2))
      in (max 0 (min left0 (pe_inner_width env - lw)), max 0 (min top0 (pe_inner_height env - lh))))"

definition label_size :: "rat \<times> rat \<Rightarrow> rat \<times> rat" where
  "label_size measured =
     (if fst measured > 0 then fst measured else 20, if snd measured > 0 then snd measured else 16)"

text \<open>
  \<open>measured\<close> is \<open>offsetWidth\<close> and \<open>offsetHeight\<close> of the label.  The result
  is the returned index with the page.
\<close>

definition highlight_element ::
  "page_env \<Rightarrow> attrs \<Rightarrow> rat \<times> rat \<Rightarrow> nat \<Rightarrow> nat \<Rightarrow> nat option \<Rightarrow> highlight_page \<Rightarrow> nat \<times> highlight_page" where
  "highlight_element env A measured i index parent hp =
     (let hp1 = hp\<lparr>hp_container := True\<rparr>;
          rects = pe_client_rects env i
      in if rects = [] then (index, hp1)
         else
           let color = highlight_colors ! (index mod length highlight_colors);
               off = iframe_offset env parent;
               boxes = map (overlay_box off) (filter (\<lambda>r. \<not> empty_rect r) rects);
               lsize = label_size measured;
               (left, top) = label_position env off lsize (hd rects);
               label_text = (case get_attr A i ''dom-tree-id'' of
                 Some v \<Rightarrow> if v \<noteq> [] then v else show_nat index | None \<Rightarrow> show_nat index);
               d = \<lparr>dr_element = i, dr_iframe = parent, dr_color = color, dr_boxes = boxes,
                    dr_label_left = left, dr_label_top = top, dr_label_shown = True,
                    dr_label_font = min 12 (max 8 (rheight (hd rects) / 2)),
                    dr_label_text = label_text, dr_label_size = lsize\<rparr>
           in (index + 1, hp1\<lparr>hp_drawn := hp_drawn hp1 @ [d], hp_cleanups := hp_cleanups hp1 @ [d]\<rparr>))"

definition update_box :: "rat \<times> rat \<Rightarrow> rect list \<Rightarrow> nat \<Rightarrow> box \<Rightarrow> box" where
  "update_box off rects k b =
     (if k < length rects
      then (overlay_box off (rects ! k))\<lparr>bx_shown := \<not> empty_rect (rects ! k)\<rparr>
      else b\<lparr>bx_shown := False\<rparr>)"

definition update_positions :: "page_env \<Rightarrow> drawn \<Rightarrow> drawn" where
  "update_positions env d =
     (let rects = pe_client_rects env (dr_element d);
          off = iframe_offset env (dr_iframe d);
          boxes = map (\<lambda>(k, b). update_box off rects k b) (enumerate 0 (dr_boxes d));
          d1 = d\<lparr>dr_boxes := boxes\<rparr>
      in if rects \<noteq> []
         then let (left, top) = label_position env off (dr_label_size d) (hd rects)
              in d1\<lparr>dr_label_left := left, dr_label_top := top, dr_label_shown := True\<rparr>
         else d1\<lparr>dr_label_shown := False\<rparr>)"

text \<open>\<open>throttleFunction\<close>: whether the call at \<open>now\<close> is forwarded.\<close>

definition throttle_function :: "rat \<Rightarrow> rat \<Rightarrow> rat \<Rightarrow> bool \<times> rat" where
  "throttle_function delay last_call now =
     (if now - last_call < delay then (False, last_call) else (True, now))"

interpretation update_gate: rate_gate "throttle_function delay" "\<lambda>l. l" delay
  by unfold_locales (auto simp: throttle_function_def split: if_splits)

text \<open>\<open>clearHighlights\<close>: the container goes, then every cleanup function runs.\<close>

definition clear_highlights :: "highlight_page \<Rightarrow> highlight_page" where
  "clear_highlights hp = \<lparr>hp_container = False, hp_drawn = [], hp_cleanups = []\<rparr>"

section \<open>Properties\<close>

text \<open>
  A drawn label stays inside the viewport when the viewport is at least as large as
  the label, and every overlay is the box of one non-empty rectangle of the element,
  shifted by the frame it is in; an element without rectangles draws nothing.
\<close>

theorem highlight_element_draws:
  assumes run: "highlight_element env A measured i index parent hp = (n, hp')"
    and room: "fst (label_size measured) \<le> pe_inner_width env" "snd (label_size measured) \<le> pe_inner_height env"
  shows "hp_container hp' \<and>
     (pe_client_rects env i = [] \<longrightarrow> n = index \<and> hp_drawn hp' = hp_drawn hp) \<and>
     (pe_client_rects env i \<noteq> [] \<longrightarrow> n = index + 1 \<and>
       (\<exists>d. hp_drawn hp' = hp_drawn hp @ [d] \<and> hp_cleanups hp' = hp_cleanups hp @ [d]
          \<and> dr_element d = i
          \<and> dr_boxes d = map (overlay_box (iframe_offset env parent))
               (filter (\<lambda>r. \<not> empty_rect r) (pe_client_rects env i))
          \<and> 0 \<le> dr_label_left d \<and> dr_label_left d + fst (label_size measured) \<le> pe_inner_width env
          \<and> 0 \<le> dr_label_top d \<and> dr_label_top d + snd (label_size measured) \<le> pe_inner_height env
          \<and> 8 \<le> dr_label_font d \<and> dr_label_font d \<le> 12))"
proof (cases "pe_client_rects env i = []")
  case True
  then show ?thesis using run by (auto simp: highlight_element_def)
next
  case False
  obtain lw lh where sz: "label_size measured = (lw, lh)" by fastforce
  obtain left top where lp: "label_position env (iframe_offset env parent) (lw, lh) (hd (pe_client_rects env i)) = (left, top)"
    by fastforce
  have b: "0 \<le> left" "left + lw \<le> pe_inner_width env" "0 \<le> top" "top + lh \<le> pe_inner_height env"
    using lp room sz by (auto simp: label_position_def Let_def max_def min_def split: if_splits prod.splits)
  show ?thesis
    using run False b by (auto simp: highlight_element_def Let_def sz lp)
qed

theorem highlight_element_draws_witness:
  "\<exists>d. hp_drawn (snd (highlight_element demo_page (\<lambda>_. []) (0, 0) 3 0 None
          \<lparr>hp_container = False, hp_drawn = [], hp_cleanups = []\<rparr>)) = [d] \<and> 0 \<le> dr_label_left d"
proof -
  let ?hp = "\<lparr>hp_container = False, hp_drawn = [], hp_cleanups = []\<rparr>"
  obtain n hp' where r: "highlight_element demo_page (\<lambda>_. []) (0, 0) 3 0 None ?hp = (n, hp')" by fastforce
  have s: "fst (label_size (0, 0)) \<le> pe_inner_width demo_page" "snd (label_size (0, 0)) \<le> pe_inner_height demo_page"
    by (simp_all add: label_size_def demo_page_def)
  have "pe_client_rects demo_page 3 \<noteq> []" by (simp add: demo_page_def)
  then show ?thesis using highlight_element_draws [OF r s] r by auto
qed

lemma update_boxes_same:
  "\<forall>r \<in> set rects. \<not> empty_rect r \<Longrightarrow>
     map (\<lambda>(k, b). update_box off rects k b) (enumerate 0 (map (overlay_box off) rects)) = map (overlay_box off) rects"
proof (rule nth_equalityI)
  fix k
  assume r: "\<forall>r \<in> set rects. \<not> empty_rect r"
    and k: "k < length (map (\<lambda>(k, b). update_box off rects k b) (enumerate 0 (map (overlay_box off) rects)))"
  then have "k < length rects" "\<not> empty_rect (rects ! k)" by simp_all
  then show "map (\<lambda>(k, b). update_box off rects k b) (enumerate 0 (map (overlay_box off) rects)) ! k =
      map (overlay_box off) rects ! k"
    by (simp add: nth_enumerate_eq update_box_def overlay_box_def)
qed simp

text \<open>
  Repositioning against an unchanged page changes nothing when the element has no
  empty rectangle.
\<close>

theorem update_positions_stable:
  assumes run: "highlight_element env A measured i index parent hp = (n, hp')"
    and ne: "pe_client_rects env i \<noteq> []" and full: "\<forall>r \<in> set (pe_client_rects env i). \<not> empty_rect r"
  shows "update_positions env (last (hp_drawn hp')) = last (hp_drawn hp')"
proof -
  let ?r = "pe_client_rects env i" and ?off = "iframe_offset env parent"
  have f: "filter (\<lambda>r. \<not> empty_rect r) ?r = ?r" using full by simp
  obtain left top where lp: "label_position env ?off (label_size measured) (hd ?r) = (left, top)" by fastforce
  have d: "dr_element (last (hp_drawn hp')) = i" "dr_iframe (last (hp_drawn hp')) = parent"
    "dr_boxes (last (hp_drawn hp')) = map (overlay_box ?off) ?r"
    "dr_label_size (last (hp_drawn hp')) = label_size measured"
    "dr_label_left (last (hp_drawn hp')) = left" "dr_label_top (last (hp_drawn hp')) = top"
    "dr_label_shown (last (hp_drawn hp'))"
    using run ne lp by (auto simp: highlight_element_def Let_def f)
  show ?thesis
    unfolding update_positions_def Let_def d update_boxes_same [OF full] lp prod.case
    using ne d by simp
qed

theorem update_positions_stable_witness:
  "update_positions demo_page (last (hp_drawn (snd (highlight_element demo_page (\<lambda>_. []) (0, 0) 3 0 None
      \<lparr>hp_container = False, hp_drawn = [], hp_cleanups = []\<rparr>)))) =
   last (hp_drawn (snd (highlight_element demo_page (\<lambda>_. []) (0, 0) 3 0 None
      \<lparr>hp_container = False, hp_drawn = [], hp_cleanups = []\<rparr>)))"
proof -
  have "pe_client_rects demo_page 3 \<noteq> []" "\<forall>r \<in> set (pe_client_rects demo_page 3). \<not> empty_rect r"
    by (simp_all add: demo_page_def demo_rect_def empty_rect_def)
  from update_positions_stable [OF prod.collapse [symmetric] this] show ?thesis .
qed

text \<open>
  Overlays skip the empty rectangles when they are drawn and index all
  rectangles when they are repositioned: after the first scroll event, the first overlay of
  an element whose first rectangle is empty is hidden, though nothing has moved.
\<close>

theorem update_positions_hides_overlay:
  assumes run: "highlight_element env A measured i index parent hp = (n, hp')"
    and r: "pe_client_rects env i = r0 # rs" "empty_rect r0" "\<exists>r \<in> set rs. \<not> empty_rect r"
  shows "bx_shown (hd (dr_boxes (last (hp_drawn hp')))) \<and>
     \<not> bx_shown (hd (dr_boxes (update_positions env (last (hp_drawn hp')))))"
proof -
  let ?off = "iframe_offset env parent"
  obtain left top where lp: "label_position env ?off (label_size measured) r0 = (left, top)" by fastforce
  obtain q qs where q: "filter (\<lambda>r. \<not> empty_rect r) rs = q # qs"
    using r(3) by (cases "filter (\<lambda>r. \<not> empty_rect r) rs") (auto simp: filter_empty_conv)
  have d: "dr_element (last (hp_drawn hp')) = i" "dr_iframe (last (hp_drawn hp')) = parent"
    "dr_boxes (last (hp_drawn hp')) = overlay_box ?off q # map (overlay_box ?off) qs"
    using run r lp q by (auto simp: highlight_element_def Let_def)
  show ?thesis
    using r by (simp add: update_positions_def Let_def d update_box_def overlay_box_def split: prod.split)
qed

definition gap_page :: page_env where
  "gap_page = demo_page\<lparr>pe_client_rects := (\<lambda>_. [demo_rect\<lparr>rwidth := 0\<rparr>, demo_rect])\<rparr>"

theorem update_positions_hides_overlay_witness:
  "\<not> bx_shown (hd (dr_boxes (update_positions gap_page (last (hp_drawn (snd (highlight_element gap_page
      (\<lambda>_. []) (0, 0) 3 0 None \<lparr>hp_container = False, hp_drawn = [], hp_cleanups = []\<rparr>)))))))"
proof -
  have "pe_client_rects gap_page 3 = demo_rect\<lparr>rwidth := 0\<rparr> # [demo_rect]"
    "empty_rect (demo_rect\<lparr>rwidth := 0\<rparr>)" "\<exists>r \<in> set [demo_rect]. \<not> empty_rect r"
    by (simp_all add: gap_page_def empty_rect_def demo_rect_def)
  from update_positions_hides_overlay [OF prod.collapse [symmetric] this] show ?thesis by blast
qed

end
