(* ===== verification/Page_Highlighter.thy ===== *)
theory Page_Highlighter
  imports Node_Collector Element_Highlighter
begin

text \<open>
  Which collected elements get a highlight index, and which of them are drawn
  (\<open>content/page_analysis/PageHighlighter.ts\<close>).
\<close>

text \<open>A collected node: the element, the key of its data in the map, the frame it is in.\<close>

type_synonym collected = "dnode \<times> string \<times> nat option"

record ph_conf =
  pc_expansion :: rat
  pc_focus :: rat
  pc_draw :: bool
  pc_measured :: "rat \<times> rat"  \<comment> \<open>\<open>offsetWidth\<close> and \<open>offsetHeight\<close> of a label\<close>

record ph_state =
  ph_index :: nat
  ph_map :: "(string \<times> node_data) list"
  ph_cache :: dom_cache
  ph_page :: highlight_page
  ph_highlighted :: "nat list"

section \<open>Viewport\<close>

definition is_in_expanded_viewport :: "tree_env \<Rightarrow> rat \<Rightarrow> dom_cache \<Rightarrow> nat \<Rightarrow> bool \<times> dom_cache" where
  "is_in_expanded_viewport te vx c i =
     (if vx = - 1 then (True, c) else
      let env = te_page te; rects = pe_client_rects env i
      in if rects = []
         then let (r, c1) = cached_bounding_rect env c i
              in (if rwidth r = 0 \<or> rheight r = 0 then False else \<not> outside_viewport env vx r, c1)
         else (list_ex (\<lambda>r. \<not> (rwidth r = 0 \<or> rheight r = 0) \<and> \<not> outside_viewport env vx r) rects, c))"

section \<open>Distinct interactions\<close>

definition is_word_char :: "char \<Rightarrow> bool" where
  "is_word_char c \<longleftrightarrow> is_digit c \<or> c = CHR ''_''
     \<or> (let n = of_char c :: nat in (65 \<le> n \<and> n \<le> 90) \<or> (97 \<le> n \<and> n \<le> 122))"

definition interactive_class_words :: "string list" where
  "interactive_class_words = [''btn'', ''clickable'', ''menu'', ''item'', ''entry'', ''link'']"

definition known_container :: "tree_env \<Rightarrow> attrs \<Rightarrow> nat \<Rightarrow> bool" where
  "known_container te A i \<longleftrightarrow>
     node_name (te_roots te) i = ''button'' \<or> node_name (te_roots te) i = ''a''
     \<or> get_attr A i ''role'' = Some ''button''
     \<or> has_class A i ''menu'' \<or> has_class A i ''dropdown'' \<or> has_class A i ''list'' \<or> has_class A i ''toolbar''"

fun some_visible :: "tree_env \<Rightarrow> dom_cache \<Rightarrow> dnode list \<Rightarrow> bool \<times> dom_cache" where
  "some_visible te c [] = (False, c)"
| "some_visible te c (e # es) =
     (let (v, c1) = is_node_visible te c (nid e) in if v then (True, c1) else some_visible te c1 es)"

definition is_heuristically_interactive :: "tree_env \<Rightarrow> attrs \<Rightarrow> dom_cache \<Rightarrow> dnode \<Rightarrow> bool \<times> dom_cache" where
  "is_heuristically_interactive te A c e =
     (if \<not> is_elem e then (False, c) else
      let i = nid e; (vis, c1) = is_node_visible te c i
      in if \<not> vis then (False, c1)
         else
           let has_attrs = (has_attr A i ''role'' \<or> has_attr A i ''tabindex'' \<or> has_attr A i ''onclick''
                 \<or> te_handler te i ''onclick'');
               has_class_word = list_ex (\<lambda>w. w \<in> set interactive_class_words)
                 (words_by (\<lambda>ch. \<not> is_word_char ch) (to_lower (attr_str A i ''class'')));
               in_container = list_ex (known_container te A) (i # fst (place_of (te_roots te) i));
               (vis_children, c2) = some_visible te c1 (child_elems e);
               parent_body = (parent_element (te_roots te) i = Some (te_body te));
               (int, c3) = is_interactive_element te A c2 e
           in ((int \<or> has_attrs \<or> has_class_word) \<and> vis_children \<and> in_container \<and> \<not> parent_body, c3))"

definition distinct_roles :: "string list" where
  "distinct_roles = [''button'', ''link'', ''menuitem'', ''menuitemradio'', ''menuitemcheckbox'',
     ''radio'', ''checkbox'', ''tab'', ''switch'', ''slider'', ''spinbutton'', ''combobox'',
     ''searchbox'', ''textbox'', ''listbox'', ''option'', ''scrollbar'']"

definition distinct_interactive_tags :: "string list" where
  "distinct_interactive_tags = [''a'', ''button'', ''input'', ''select'', ''textarea'', ''summary'',
     ''details'', ''label'', ''option'']"

definition common_event_attrs :: "string list" where
  "common_event_attrs = [''onmousedown'', ''onmouseup'', ''onkeydown'', ''onkeyup'', ''onsubmit'',
     ''onchange'', ''oninput'', ''onfocus'', ''onblur'']"

definition is_element_distinct_interaction :: "tree_env \<Rightarrow> attrs \<Rightarrow> dom_cache \<Rightarrow> dnode \<Rightarrow> bool \<times> dom_cache" where
  "is_element_distinct_interaction te A c e =
     (if \<not> is_elem e then (False, c) else
      let i = nid e; tag_name = lname e; role = attr_str A i ''role'' in
      if tag_name = ''iframe'' then (True, c)
      else if tag_name \<in> set distinct_interactive_tags then (True, c)
      else if role \<noteq> [] \<and> role \<in> set distinct_roles then (True, c)
      else if te_editable te i \<or> get_attr A i ''contenteditable'' = Some ''true'' then (True, c)
      else if has_attr A i ''data-testid'' \<or> has_attr A i ''data-cy'' \<or> has_attr A i ''data-test'' then (True, c)
      else if has_attr A i ''onclick'' \<or> te_handler te i ''onclick'' then (True, c)
      else if (case node_listener_found te i of
                 Inl _ \<Rightarrow> False
               | Inr found \<Rightarrow> found \<or> list_ex (has_attr A i) common_event_attrs) then (True, c)
      else is_heuristically_interactive te A c e)"

section \<open>Active listbox\<close>

definition lookup_elem :: "(string \<times> node_data) list \<Rightarrow> string \<Rightarrow> elem_data option" where
  "lookup_elem m k = (case map_of m k of Some (ElemData d) \<Rightarrow> Some d | _ \<Rightarrow> None)"

definition find_active_listbox :: "attrs \<Rightarrow> (string \<times> node_data) list \<Rightarrow> collected list \<Rightarrow> nat option" where
  "find_active_listbox A m cs =
     map_option (\<lambda>(e, k, f). nid e)
       (find (\<lambda>(e, k, f). case lookup_elem m k of
            None \<Rightarrow> False
          | Some d \<Rightarrow> get_attr A (nid e) ''role'' = Some ''listbox'' \<and> nd_visible d = Some True
                        \<and> nd_in_viewport d \<noteq> Some False) cs)"

definition is_listbox_related_element :: "tree_env \<Rightarrow> attrs \<Rightarrow> nat \<Rightarrow> nat \<Rightarrow> bool" where
  "is_listbox_related_element te A i listbox \<longleftrightarrow>
     i \<noteq> listbox
     \<and> (listbox \<in> set (fst (place_of (te_roots te) i)) \<or> get_attr A i ''role'' = Some ''option'')"

section \<open>Highlighting\<close>

definition put_elem :: "string \<Rightarrow> elem_data \<Rightarrow> ph_state \<Rightarrow> ph_state" where
  "put_elem k d s = s\<lparr>ph_map := al_set k (ElemData d) (ph_map s)\<rparr>"

definition handle_highlighting ::
  "tree_env \<Rightarrow> attrs \<Rightarrow> ph_conf \<Rightarrow> dnode \<Rightarrow> string \<Rightarrow> elem_data \<Rightarrow> nat option \<Rightarrow> bool \<Rightarrow> ph_state \<Rightarrow> bool \<times> ph_state" where
  "handle_highlighting te A pc e k d parent_iframe parent_highlighted s =
     (if nd_interactive d \<noteq> Some True then (False, s)
      else
        let (should, c1) = (if \<not> parent_highlighted then (True, ph_cache s)
               else is_element_distinct_interaction te A (ph_cache s) e);
            s1 = s\<lparr>ph_cache := c1\<rparr>
        in if \<not> should then (False, s1)
           else
             let (inside, c2) = is_in_expanded_viewport te (pc_expansion pc) (ph_cache s1) (nid e);
                 d1 = d\<lparr>nd_in_viewport := Some inside\<rparr>;
                 s2 = put_elem k d1 (s1\<lparr>ph_cache := c2\<rparr>)
             in if inside \<or> pc_expansion pc = - 1
                then
                  let idx = ph_index s2;
                      s3 = put_elem k (d1\<lparr>nd_highlight := Some idx\<rparr>) (s2\<lparr>ph_index := idx + 1\<rparr>);
                      draw_it = (\<lambda>s. s\<lparr>ph_page := snd (highlight_element (te_page te) A (pc_measured pc)
                                   (nid e) idx parent_iframe (ph_page s))\<rparr>)
                  in if \<not> pc_draw pc then (False, s3)
                     else if pc_focus pc \<ge> 0
                       then (True, if pc_focus pc = of_nat idx then draw_it s3 else s3)
                     else (True, draw_it s3)
                else (False, s2))"

fun highlight_loop ::
  "tree_env \<Rightarrow> attrs \<Rightarrow> ph_conf \<Rightarrow> nat option \<Rightarrow> collected list \<Rightarrow> ph_state \<Rightarrow> ph_state" where
  "highlight_loop te A pc listbox [] s = s"
| "highlight_loop te A pc listbox ((e, k, f) # cs) s =
     (case lookup_elem (ph_map s) k of
        None \<Rightarrow> highlight_loop te A pc listbox cs s
      | Some d \<Rightarrow>
          if (case listbox of Some l \<Rightarrow> \<not> is_listbox_related_element te A (nid e) l | None \<Rightarrow> False)
          then highlight_loop te A pc listbox cs s
          else
            let parent_highlighted = (case parent_element (te_roots te) (nid e) of
                   Some p \<Rightarrow> p \<in> set (ph_highlighted s) | None \<Rightarrow> False);
                (highlighted, s1) = handle_highlighting te A pc e k d f parent_highlighted s;
                s2 = (if highlighted then s1\<lparr>ph_highlighted := ph_highlighted s1 @ [nid e]\<rparr> else s1)
            in highlight_loop te A pc listbox cs s2)"

definition highlight :: "tree_env \<Rightarrow> attrs \<Rightarrow> ph_conf \<Rightarrow> collected list \<Rightarrow> ph_state \<Rightarrow> ph_state" where
  "highlight te A pc cs s =
     highlight_loop te A pc (find_active_listbox A (ph_map s) cs) cs (s\<lparr>ph_highlighted := []\<rparr>)"

section \<open>One step\<close>

text \<open>The highlight index recorded under a key.\<close>

definition index_at :: "ph_state \<Rightarrow> string \<Rightarrow> nat option" where
  "index_at s k = (case lookup_elem (ph_map s) k of Some d \<Rightarrow> nd_highlight d | None \<Rightarrow> None)"

lemma lookup_put: "lookup_elem (ph_map (put_elem k d s)) j = (if j = k then Some d else lookup_elem (ph_map s) j)"
  by (simp add: lookup_elem_def put_elem_def)

lemma put_elem_other [simp]:
  "ph_index (put_elem k d s) = ph_index s" "ph_page (put_elem k d s) = ph_page s"
  "ph_highlighted (put_elem k d s) = ph_highlighted s" "ph_cache (put_elem k d s) = ph_cache s"
  by (simp_all add: put_elem_def)

lemma lookup_upd [simp]:
  "ph_map (s\<lparr>ph_cache := c\<rparr>) = ph_map s" "ph_map (s\<lparr>ph_index := n\<rparr>) = ph_map s"
  "ph_map (s\<lparr>ph_page := p\<rparr>) = ph_map s" "ph_map (s\<lparr>ph_highlighted := hs\<rparr>) = ph_map s"
  by simp_all

text \<open>
  What handling one element can do to the index and to the map: nothing, recording that it
  is outside the viewport, or giving it the next index.
\<close>

lemma handle_cases:
  assumes run: "handle_highlighting te A pc e k d f ph s = (hl, s')"
  shows "(\<exists>c. s' = s\<lparr>ph_cache := c\<rparr> \<and> \<not> hl) \<or>
     (\<exists>c. s' = put_elem k (d\<lparr>nd_in_viewport := Some False\<rparr>) (s\<lparr>ph_cache := c\<rparr>) \<and> \<not> hl) \<or>
     (\<exists>c v p. nd_interactive d = Some True \<and> hl = pc_draw pc \<and> (\<not> pc_draw pc \<longrightarrow> p = ph_page s) \<and>
        s' = (put_elem k (d\<lparr>nd_in_viewport := Some v, nd_highlight := Some (ph_index s)\<rparr>)
               (put_elem k (d\<lparr>nd_in_viewport := Some v\<rparr>) (s\<lparr>ph_cache := c\<rparr>)\<lparr>ph_index := ph_index s + 1\<rparr>))
              \<lparr>ph_page := p\<rparr>)"
proof -
  obtain sh c1 where sh: "(if \<not> ph then (True, ph_cache s)
               else is_element_distinct_interaction te A (ph_cache s) e) = (sh, c1)" by fastforce
  obtain v c2 where v: "is_in_expanded_viewport te (pc_expansion pc) c1 (nid e) = (v, c2)" by fastforce
  consider "nd_interactive d \<noteq> Some True" | "nd_interactive d = Some True" "\<not> sh"
    | "nd_interactive d = Some True" "sh" "\<not> (v \<or> pc_expansion pc = - 1)"
    | "nd_interactive d = Some True" "sh" "v \<or> pc_expansion pc = - 1" by blast
  then show ?thesis
  proof cases
    case 1
    then show ?thesis using run by (intro disjI1 exI [of _ "ph_cache s"]) (simp add: handle_highlighting_def)
  next
    case 2
    then show ?thesis using run sh
      by (intro disjI1 exI [of _ c1]) (simp add: handle_highlighting_def del: split_paired_Ex)
  next
    case 3
    then have "\<not> v" by simp
    then show ?thesis using run sh v 3
      by (intro disjI2 disjI1 exI [of _ c2]) (simp add: handle_highlighting_def Let_def)
  next
    case 4
    let ?s3 = "put_elem k (d\<lparr>nd_in_viewport := Some v, nd_highlight := Some (ph_index s)\<rparr>)
               (put_elem k (d\<lparr>nd_in_viewport := Some v\<rparr>) (s\<lparr>ph_cache := c2\<rparr>)\<lparr>ph_index := ph_index s + 1\<rparr>)"
    have "hl = pc_draw pc \<and> (\<exists>p. (\<not> pc_draw pc \<longrightarrow> p = ph_page s) \<and> s' = ?s3\<lparr>ph_page := p\<rparr>)"
    proof (cases "pc_draw pc")
      case False
      then have "hl = False" "s' = ?s3" using run sh v 4 by (simp_all add: handle_highlighting_def Let_def)
      then show ?thesis using False by (intro conjI exI [of _ "ph_page s"]) (simp_all add: put_elem_def)
    next
      case True
      let ?q = "snd (highlight_element (te_page te) A (pc_measured pc) (nid e) (ph_index s) f (ph_page s))"
      have "hl" "s' = ?s3\<lparr>ph_page := if pc_focus pc \<ge> 0 \<and> pc_focus pc \<noteq> of_nat (ph_index s) then ph_page s else ?q\<rparr>"
        using run sh v 4 True by (auto simp: handle_highlighting_def Let_def put_elem_def split: if_splits)
      then show ?thesis using True by blast
    qed
    then show ?thesis using 4 by blast
  qed
qed

lemma handle_index:
  assumes run: "handle_highlighting te A pc e k d f ph s = (hl, s')"
    and d: "lookup_elem (ph_map s) k = Some d" "nd_highlight d = None"
  shows "(ph_index s' = ph_index s \<and> (\<forall>j. index_at s' j = index_at s j) \<or>
      ph_index s' = Suc (ph_index s) \<and> nd_interactive d = Some True
        \<and> (\<forall>j. index_at s' j = (if j = k then Some (ph_index s) else index_at s j)))
    \<and> (\<forall>j. j \<noteq> k \<longrightarrow> lookup_elem (ph_map s') j = lookup_elem (ph_map s) j)
    \<and> (\<exists>d'. lookup_elem (ph_map s') k = Some d' \<and> nd_interactive d' = nd_interactive d)
    \<and> (\<not> pc_draw pc \<longrightarrow> \<not> hl \<and> ph_page s' = ph_page s)
    \<and> ph_highlighted s' = ph_highlighted s"
  using handle_cases [OF run]
proof (elim disjE exE conjE)
  fix c assume "s' = s\<lparr>ph_cache := c\<rparr>" "\<not> hl"
  then show ?thesis using d by (simp add: index_at_def)
next
  fix c assume s': "s' = put_elem k (d\<lparr>nd_in_viewport := Some False\<rparr>) (s\<lparr>ph_cache := c\<rparr>)" "\<not> hl"
  have "\<forall>j. index_at s' j = index_at s j" using d by (simp add: s' index_at_def lookup_put)
  then show ?thesis using d s' by (simp add: lookup_put)
next
  fix c v p
  assume i: "nd_interactive d = Some True" and hl: "hl = pc_draw pc"
    and p: "\<not> pc_draw pc \<longrightarrow> p = ph_page s"
    and s': "s' = (put_elem k (d\<lparr>nd_in_viewport := Some v, nd_highlight := Some (ph_index s)\<rparr>)
               (put_elem k (d\<lparr>nd_in_viewport := Some v\<rparr>) (s\<lparr>ph_cache := c\<rparr>)\<lparr>ph_index := ph_index s + 1\<rparr>))
              \<lparr>ph_page := p\<rparr>"
  have lk: "lookup_elem (ph_map s') j =
      (if j = k then Some (d\<lparr>nd_in_viewport := Some v, nd_highlight := Some (ph_index s)\<rparr>)
       else lookup_elem (ph_map s) j)" for j
    by (simp add: s' lookup_put)
  have ix: "index_at s' j = (if j = k then Some (ph_index s) else index_at s j)" for j
    by (simp add: index_at_def lk)
  have "ph_index s' = Suc (ph_index s)" "ph_page s' = p" "ph_highlighted s' = ph_highlighted s"
    by (simp_all add: s')
  then show ?thesis using i hl p by (simp add: lk ix)
qed

lemma highlight_loop_other:
  "k \<notin> set (map (\<lambda>c. fst (snd c)) cs) \<Longrightarrow>
     \<forall>(e, j, f) \<in> set cs. index_at s j = None \<Longrightarrow> distinct (map (\<lambda>c. fst (snd c)) cs) \<Longrightarrow>
     lookup_elem (ph_map (highlight_loop te A pc lb cs s)) k = lookup_elem (ph_map s) k"
proof (induction te A pc lb cs s rule: highlight_loop.induct)
  case (1 te A pc lb s)
  then show ?case by simp
next
  case (2 te A pc lb e j f cs s)
  show ?case
  proof (cases "lookup_elem (ph_map s) j")
    case None
    then show ?thesis using 2 by simp
  next
    case (Some d)
    show ?thesis
    proof (cases "case lb of Some l \<Rightarrow> \<not> is_listbox_related_element te A (nid e) l | None \<Rightarrow> False")
      case True
      then show ?thesis using 2 Some by simp
    next
      case False
      define ph where "ph = (case parent_element (te_roots te) (nid e) of
          Some p \<Rightarrow> p \<in> set (ph_highlighted s) | None \<Rightarrow> False)"
      obtain hl s1 where h: "handle_highlighting te A pc e j d f ph s = (hl, s1)" by fastforce
      define s2 where "s2 = (if hl then s1\<lparr>ph_highlighted := ph_highlighted s1 @ [nid e]\<rparr> else s1)"
      have nh: "nd_highlight d = None" using 2(5) Some by (simp add: index_at_def)
      note H = handle_index [OF h Some nh]
      have m: "ph_map s2 = ph_map s1" by (simp add: s2_def)
      have pre: "\<forall>(e, i, f) \<in> set cs. index_at s2 i = None"
      proof (clarify)
        fix e' i f' assume i: "(e', i, f') \<in> set cs"
        have "i \<noteq> j" using 2(6) i by force
        moreover have "index_at s i = None" using 2(5) i by auto
        ultimately show "index_at s2 i = None" using H m by (simp add: index_at_def)
      qed
      have "lookup_elem (ph_map (highlight_loop te A pc lb cs s2)) k = lookup_elem (ph_map s2) k"
        using "2.IH"(3) [OF Some False ph_def h [symmetric] refl] "2.prems" pre
        by (simp add: s2_def)
      moreover have "k \<noteq> j" using "2.prems" by simp
      ultimately show ?thesis
        using Some False h H m by (simp add: ph_def [symmetric] s2_def [symmetric] Let_def)
    qed
  qed
qed

text \<open>The elements the active listbox lets through.\<close>

definition let_through :: "tree_env \<Rightarrow> attrs \<Rightarrow> nat option \<Rightarrow> dnode \<Rightarrow> bool" where
  "let_through te A listbox e \<longleftrightarrow>
     (case listbox of Some l \<Rightarrow> is_listbox_related_element te A (nid e) l | None \<Rightarrow> True)"

definition indexed_ok :: "tree_env \<Rightarrow> attrs \<Rightarrow> nat option \<Rightarrow> collected list \<Rightarrow> ph_state \<Rightarrow> bool" where
  "indexed_ok te A listbox cs s \<longleftrightarrow>
     (\<forall>(e, k, f) \<in> set cs. index_at s k \<noteq> None \<longrightarrow>
        let_through te A listbox e \<and> (\<exists>d. lookup_elem (ph_map s) k = Some d \<and> nd_interactive d = Some True))"

lemma highlight_loop_indices:
  "distinct (map (\<lambda>c. fst (snd c)) cs) \<Longrightarrow> \<forall>(e, k, f) \<in> set cs. index_at s k = None \<Longrightarrow>
     List.map_filter (\<lambda>(e, k, f). index_at (highlight_loop te A pc lb cs s) k) cs
       = [ph_index s..<ph_index (highlight_loop te A pc lb cs s)]
     \<and> ph_index s \<le> ph_index (highlight_loop te A pc lb cs s)
     \<and> indexed_ok te A lb cs (highlight_loop te A pc lb cs s)
     \<and> (\<not> pc_draw pc \<longrightarrow> ph_page (highlight_loop te A pc lb cs s) = ph_page s)"
proof (induction te A pc lb cs s rule: highlight_loop.induct)
  case (1 te A pc lb s)
  then show ?case by (simp add: map_filter_simps indexed_ok_def)
next
  case (2 te A pc lb e j f cs s)
  have dist: "distinct (map (\<lambda>c. fst (snd c)) cs)" and jn: "j \<notin> set (map (\<lambda>c. fst (snd c)) cs)"
    and none: "\<forall>(e, k, f) \<in> set cs. index_at s k = None" and jnone: "index_at s j = None"
    using "2.prems" by auto
  have skip: ?case
    if r: "highlight_loop te A pc lb ((e, j, f) # cs) s = highlight_loop te A pc lb cs s"
      and ih: "List.map_filter (\<lambda>(e, k, f). index_at (highlight_loop te A pc lb cs s) k) cs
          = [ph_index s..<ph_index (highlight_loop te A pc lb cs s)]
        \<and> ph_index s \<le> ph_index (highlight_loop te A pc lb cs s)
        \<and> indexed_ok te A lb cs (highlight_loop te A pc lb cs s)
        \<and> (\<not> pc_draw pc \<longrightarrow> ph_page (highlight_loop te A pc lb cs s) = ph_page s)"
  proof -
    have "index_at (highlight_loop te A pc lb cs s) j = None"
      using highlight_loop_other [OF jn none dist, of te A pc lb] jnone by (simp add: index_at_def)
    then show ?thesis unfolding r using ih by (simp add: map_filter_simps indexed_ok_def)
  qed
  show ?case
  proof (cases "lookup_elem (ph_map s) j")
    case None
    show ?thesis using "2.IH"(1) [OF None dist none] None by (intro skip) simp_all
  next
    case (Some d)
    show ?thesis
    proof (cases "case lb of Some l \<Rightarrow> \<not> is_listbox_related_element te A (nid e) l | None \<Rightarrow> False")
      case True
      show ?thesis using "2.IH"(2) [OF Some True dist none] Some True by (intro skip) simp_all
    next
      case False
      define ph where "ph = (case parent_element (te_roots te) (nid e) of
          Some p \<Rightarrow> p \<in> set (ph_highlighted s) | None \<Rightarrow> False)"
      obtain hl s1 where h: "handle_highlighting te A pc e j d f ph s = (hl, s1)" by fastforce
      define s2 where "s2 = (if hl then s1\<lparr>ph_highlighted := ph_highlighted s1 @ [nid e]\<rparr> else s1)"
      define R where "R = highlight_loop te A pc lb cs s2"
      have r: "highlight_loop te A pc lb ((e, j, f) # cs) s = R"
        using Some False h by (simp add: ph_def [symmetric] s2_def [symmetric] Let_def R_def)
      have nh: "nd_highlight d = None" using jnone Some by (simp add: index_at_def)
      note H = handle_index [OF h Some nh]
      have m: "ph_map s2 = ph_map s1" "ph_index s2 = ph_index s1" "ph_page s2 = ph_page s1"
        by (simp_all add: s2_def)
      have ix: "index_at s2 k = index_at s1 k" for k by (simp add: index_at_def m)
      have pre: "\<forall>(e, i, f) \<in> set cs. index_at s2 i = None"
      proof (clarify)
        fix e' i f' assume i: "(e', i, f') \<in> set cs"
        have "i \<noteq> j" using jn i by force
        moreover have "index_at s i = None" using none i by auto
        ultimately show "index_at s2 i = None" using H m by (simp add: index_at_def)
      qed
      have ih: "List.map_filter (\<lambda>(e, k, f). index_at R k) cs = [ph_index s2..<ph_index R]
          \<and> ph_index s2 \<le> ph_index R \<and> indexed_ok te A lb cs R \<and> (\<not> pc_draw pc \<longrightarrow> ph_page R = ph_page s2)"
        using "2.IH"(3) [OF Some False ph_def h [symmetric] refl s2_def dist pre] by (simp add: R_def)
      have lkj: "lookup_elem (ph_map R) j = lookup_elem (ph_map s1) j"
        using highlight_loop_other [OF jn pre dist, of te A pc lb] by (simp add: R_def m)
      then have ixj: "index_at R j = index_at s1 j" by (simp add: index_at_def)
      have thr: "let_through te A lb e" using False by (simp add: let_through_def split: option.splits)
      have okj: "\<exists>d. lookup_elem (ph_map R) j = Some d \<and> nd_interactive d = Some True"
        if "index_at R j \<noteq> None"
        using that H lkj ixj jnone by auto
      have ok: "indexed_ok te A lb ((e, j, f) # cs) R"
        using ih thr okj unfolding indexed_ok_def by simp
      have page: "\<not> pc_draw pc \<longrightarrow> ph_page R = ph_page s" using ih H m by simp
      have "ph_index s1 = ph_index s \<and> index_at s1 j = None
          \<or> ph_index s1 = Suc (ph_index s) \<and> index_at s1 j = Some (ph_index s)"
        using H jnone by auto
      then have "List.map_filter (\<lambda>(e, k, f). index_at R k) ((e, j, f) # cs) = [ph_index s..<ph_index R]
          \<and> ph_index s \<le> ph_index R"
      proof (elim disjE conjE)
        assume "ph_index s1 = ph_index s" "index_at s1 j = None"
        then show ?thesis using ih ixj m by (simp add: map_filter_simps)
      next
        assume a: "ph_index s1 = Suc (ph_index s)" "index_at s1 j = Some (ph_index s)"
        then have "Suc (ph_index s) \<le> ph_index R" using ih m by simp
        then have "[ph_index s..<ph_index R] = ph_index s # [Suc (ph_index s)..<ph_index R]"
          by (simp add: upt_rec)
        then show ?thesis using ih ixj m a by (simp add: map_filter_simps)
      qed
      then show ?thesis unfolding r using ok page by blast
    qed
  qed
qed

section \<open>Properties\<close>

text \<open>
  Highlighting a page on which nothing has an index numbers the indexed elements
  0, 1, 2, ... in the order they were collected; only interactive elements get an index, with
  an active listbox only those inside it or with the option role; and nothing is drawn when
  drawing is off.
\<close>

theorem highlight_consecutive:
  assumes keys: "distinct (map (\<lambda>c. fst (snd c)) cs)" and fresh: "\<forall>(e, k, f) \<in> set cs. index_at s k = None"
    and zero: "ph_index s = 0"
  shows "List.map_filter (\<lambda>(e, k, f). index_at (highlight te A pc cs s) k) cs
           = [0..<ph_index (highlight te A pc cs s)]
     \<and> indexed_ok te A (find_active_listbox A (ph_map s) cs) cs (highlight te A pc cs s)
     \<and> (\<not> pc_draw pc \<longrightarrow> ph_page (highlight te A pc cs s) = ph_page s)"
proof -
  have pre: "\<forall>(e, k, f) \<in> set cs. index_at (s\<lparr>ph_highlighted := []\<rparr>) k = None"
    using fresh by (simp add: index_at_def)
  note L = highlight_loop_indices [OF keys pre, of te A pc "find_active_listbox A (ph_map s) cs"]
  then show ?thesis using zero by (simp add: highlight_def)
qed

definition demo_elem :: "string \<Rightarrow> elem_data" where
  "demo_elem t = \<lparr>nd_tag = t, nd_attributes = [], nd_xpath = [], nd_dom_tree_id = 1, nd_children = [],
     nd_shadow_root = Some False, nd_visible = Some True, nd_top = Some True,
     nd_interactive = Some True, nd_in_viewport = None, nd_highlight = None\<rparr>"

text \<open>A card that is interactive, with an interactive picture in it.\<close>

definition nest_tree :: "dnode list" where
  "nest_tree = [Elem 0 ''HTML'' [Elem 1 ''BODY'' [Elem 2 ''DIV'' [Elem 3 ''IMG'' [] None None] None None]
      None None] None None]"

definition nest_env :: tree_env where
  "nest_env = demo_tree_env\<lparr>te_roots := nest_tree\<rparr>"

definition nest_nodes :: "collected list" where
  "nest_nodes = [(Elem 2 ''DIV'' [Elem 3 ''IMG'' [] None None] None None, ''1'', None),
                 (Elem 3 ''IMG'' [] None None, ''0'', None)]"

definition nest_state :: ph_state where
  "nest_state = \<lparr>ph_index = 0, ph_map = [(''0'', ElemData (demo_elem ''img'')), (''1'', ElemData (demo_elem ''div''))],
     ph_cache = empty_cache, ph_page = \<lparr>hp_container = False, hp_drawn = [], hp_cleanups = []\<rparr>, ph_highlighted = []\<rparr>"

definition nest_conf :: "bool \<Rightarrow> ph_conf" where
  "nest_conf dr = \<lparr>pc_expansion = - 1, pc_focus = - 1, pc_draw = dr, pc_measured = (0, 0)\<rparr>"

theorem highlight_consecutive_witness:
  "indexed_ok nest_env (\<lambda>_. []) (find_active_listbox (\<lambda>_. []) (ph_map nest_state) nest_nodes) nest_nodes
     (highlight nest_env (\<lambda>_. []) (nest_conf True) nest_nodes nest_state)"
proof -
  have "distinct (map (\<lambda>c. fst (snd c)) nest_nodes)" by (simp add: nest_nodes_def)
  moreover have "\<forall>(e, k, f) \<in> set nest_nodes. index_at nest_state k = None"
    by (simp add: nest_nodes_def index_at_def nest_state_def lookup_elem_def demo_elem_def)
  moreover have "ph_index nest_state = 0" by (simp add: nest_state_def)
  ultimately show ?thesis using highlight_consecutive by blast
qed

lemma highlight_loop_undrawn:
  assumes nd: "\<not> pc_draw pc"
  shows "distinct (map (\<lambda>c. fst (snd c)) cs) \<Longrightarrow> \<forall>(e, k, f) \<in> set cs. index_at s k = None \<Longrightarrow>
    ph_highlighted s = [] \<Longrightarrow> (e, k, f) \<in> set cs \<Longrightarrow> lookup_elem (ph_map s) k = Some d \<Longrightarrow>
    nd_interactive d = Some True \<Longrightarrow> let_through te A lb e \<Longrightarrow>
    \<forall>c. fst (is_in_expanded_viewport te (pc_expansion pc) c (nid e)) \<Longrightarrow>
    index_at (highlight_loop te A pc lb cs s) k \<noteq> None"
proof (induction cs arbitrary: s)
  case Nil
  then show ?case by simp
next
  case (Cons x cs)
  obtain e' j f' where x: "x = (e', j, f')" by (cases x)
  have dist: "distinct (map (\<lambda>c. fst (snd c)) cs)" and jn: "j \<notin> set (map (\<lambda>c. fst (snd c)) cs)"
    and none: "\<forall>(e, k, f) \<in> set cs. index_at s k = None" and jnone: "index_at s j = None"
    using Cons.prems(1,2) x by auto
  have inR: "(e, k, f) \<in> set cs \<and> k \<noteq> j \<or> (e, k, f) = (e', j, f')"
    using Cons.prems(4) jn x by force
  show ?case
  proof (cases "lookup_elem (ph_map s) j")
    case None
    then have "(e, k, f) \<in> set cs" using Cons.prems(5) inR by auto
    then show ?thesis using Cons.IH [OF dist none Cons.prems(3) _ Cons.prems(5-8)] None x by simp
  next
    case (Some d')
    show ?thesis
    proof (cases "let_through te A lb e'")
      case False
      then have "(e, k, f) \<in> set cs" using Cons.prems(7) inR by auto
      moreover have "(case lb of Some l \<Rightarrow> \<not> is_listbox_related_element te A (nid e') l | None \<Rightarrow> False)"
        using False by (simp add: let_through_def split: option.splits)
      ultimately show ?thesis using Cons.IH [OF dist none Cons.prems(3) _ Cons.prems(5-8)] Some x by simp
    next
      case True
      then have lt: "\<not> (case lb of Some l \<Rightarrow> \<not> is_listbox_related_element te A (nid e') l | None \<Rightarrow> False)"
        by (simp add: let_through_def split: option.splits)
      have ph: "(case parent_element (te_roots te) (nid e') of
          Some p \<Rightarrow> p \<in> set (ph_highlighted s) | None \<Rightarrow> False) = False"
        using Cons.prems(3) by (simp split: option.split)
      obtain hl s1 where h: "handle_highlighting te A pc e' j d' f' False s = (hl, s1)" by fastforce
      have nh: "nd_highlight d' = None" using jnone Some by (simp add: index_at_def)
      note H = handle_index [OF h Some nh]
      have r: "highlight_loop te A pc lb (x # cs) s = highlight_loop te A pc lb cs s1"
        using Some lt h H nd by (simp add: x ph)
      have pre: "\<forall>(e, i, f) \<in> set cs. index_at s1 i = None"
      proof (clarify)
        fix a i b assume i: "(a, i, b) \<in> set cs"
        have "i \<noteq> j" using jn i by force
        moreover have "index_at s i = None" using none i by auto
        ultimately show "index_at s1 i = None" using H by (simp add: index_at_def)
      qed
      from inR show ?thesis
      proof (elim disjE conjE)
        assume k: "(e, k, f) \<in> set cs" "k \<noteq> j"
        have "ph_highlighted s1 = []" using H Cons.prems(3) by simp
        moreover have "lookup_elem (ph_map s1) k = Some d" using H k(2) Cons.prems(5) by simp
        ultimately show ?thesis
          unfolding r using Cons.IH [OF dist pre _ k(1) _ Cons.prems(6-8)] by blast
      next
        assume e: "(e, k, f) = (e', j, f')"
        then have d: "d' = d" using Some Cons.prems(5) by simp
        have v: "\<And>c. fst (is_in_expanded_viewport te (pc_expansion pc) c (nid e'))"
          using Cons.prems(8) e by simp
        obtain v c2 where vc: "is_in_expanded_viewport te (pc_expansion pc) (ph_cache s) (nid e') = (v, c2)"
          by fastforce
        have "v" using v [of "ph_cache s"] vc by simp
        then have "index_at s1 j \<noteq> None"
          using h Cons.prems(6) d vc nd by (auto simp: handle_highlighting_def Let_def index_at_def lookup_put)
        moreover have "index_at (highlight_loop te A pc lb cs s1) j = index_at s1 j"
          using highlight_loop_other [OF jn pre dist] by (simp add: index_at_def)
        ultimately show ?thesis unfolding r using e by simp
      qed
    qed
  qed
qed

text \<open>
  When nothing is drawn, nesting is ignored: every interactive element inside the
  viewport that the listbox lets through gets an index, also inside an element that has one
  (when drawing is on, an element nested in a highlighted one gets none unless it is a
  distinct interaction, so the same page is numbered differently).
\<close>

theorem undrawn_indexes_nested:
  assumes nd: "\<not> pc_draw pc" and keys: "distinct (map (\<lambda>c. fst (snd c)) cs)"
    and fresh: "\<forall>(e, k, f) \<in> set cs. index_at s k = None"
    and e: "(e, k, f) \<in> set cs" "lookup_elem (ph_map s) k = Some d" "nd_interactive d = Some True"
      "let_through te A (find_active_listbox A (ph_map s) cs) e"
      "\<forall>c. fst (is_in_expanded_viewport te (pc_expansion pc) c (nid e))"
  shows "index_at (highlight te A pc cs s) k \<noteq> None"
proof -
  have pre: "\<forall>(e, k, f) \<in> set cs. index_at (s\<lparr>ph_highlighted := []\<rparr>) k = None"
    using fresh by (simp add: index_at_def)
  have "lookup_elem (ph_map (s\<lparr>ph_highlighted := []\<rparr>)) k = Some d" using e(2) by simp
  from highlight_loop_undrawn [OF nd keys pre _ e(1) this e(3,4,5)] show ?thesis
    by (simp add: highlight_def)
qed

theorem undrawn_indexes_nested_witness:
  "index_at (highlight nest_env (\<lambda>_. []) (nest_conf False) nest_nodes nest_state) ''0'' \<noteq> None
   \<and> index_at (highlight nest_env (\<lambda>_. []) (nest_conf True) nest_nodes nest_state) ''0'' = None"
proof
  have nd: "\<not> pc_draw (nest_conf False)" by (simp add: nest_conf_def)
  have keys: "distinct (map (\<lambda>c. fst (snd c)) nest_nodes)" by (simp add: nest_nodes_def)
  have fresh: "\<forall>(e, k, f) \<in> set nest_nodes. index_at nest_state k = None"
    by (simp add: nest_nodes_def index_at_def nest_state_def lookup_elem_def demo_elem_def)
  have e: "(Elem 3 ''IMG'' [] None None, ''0'', None) \<in> set nest_nodes" by (simp add: nest_nodes_def)
  have d: "lookup_elem (ph_map nest_state) ''0'' = Some (demo_elem ''img'')"
    by (simp add: nest_state_def lookup_elem_def)
  have i: "nd_interactive (demo_elem ''img'') = Some True" by (simp add: demo_elem_def)
  have lb: "find_active_listbox (\<lambda>_. []) (ph_map nest_state) nest_nodes = None"
    by (simp add: find_active_listbox_def nest_nodes_def nest_state_def lookup_elem_def get_attr_def)
  have lt: "let_through nest_env (\<lambda>_. []) (find_active_listbox (\<lambda>_. []) (ph_map nest_state) nest_nodes)
      (Elem 3 ''IMG'' [] None None)"
    by (simp add: lb let_through_def)
  have v: "\<forall>c. fst (is_in_expanded_viewport nest_env (pc_expansion (nest_conf False)) c (nid (Elem 3 ''IMG'' [] None None)))"
    by (simp add: is_in_expanded_viewport_def nest_conf_def)
  show "index_at (highlight nest_env (\<lambda>_. []) (nest_conf False) nest_nodes nest_state) ''0'' \<noteq> None"
    by (rule undrawn_indexes_nested [OF nd keys fresh e d i lt v])
  show "index_at (highlight nest_env (\<lambda>_. []) (nest_conf True) nest_nodes nest_state) ''0'' = None"
    by code_simp
qed

end
