(* ===== verification/Dom_Tree.thy ===== *)
theory Dom_Tree
  imports Page_Highlighter "HOL-Library.Multiset"
begin

text \<open>
  The tree of the page handed to the agent
  (\<open>content/page_analysis/DomTree.ts\<close>): the recursive walk that allots the string
  identifiers, and the analysis around it.
\<close>

record dt_state =
  dt_coll :: coll_state
  dt_next :: nat                              \<comment> \<open>\<open>ID.current\<close>\<close>
  dt_map :: "(string \<times> node_data) list"      \<comment> \<open>\<open>DOM_HASH_MAP\<close>, in order of insertion\<close>
  dt_nodes :: "collected list"                \<comment> \<open>\<open>collectedNodes\<close>\<close>

section \<open>The checks before and after an element\<close>

text \<open>The early viewport check: whether the element is left out, and the caches it leaves.\<close>

definition early_reject :: "tree_env \<Rightarrow> rat \<Rightarrow> dnode \<Rightarrow> dt_state \<Rightarrow> bool \<times> dt_state" where
  "early_reject te vx e s =
     (if vx = - 1 \<or> shadow e \<noteq> None then (False, s)
      else
        let env = te_page te; i = nid e; cs = dt_coll s;
            (r, c1) = cached_bounding_rect env (cs_cache cs) i;
            (style, c2) = cached_computed_style env c1 i;
            fixed = (st_position style = ''fixed'' \<or> st_position style = ''sticky'');
            has_size = (pe_offset_width env i > 0 \<or> pe_offset_height env i > 0)
        in (\<not> fixed \<and> \<not> has_size \<and> outside_viewport env vx r,
            s\<lparr>dt_coll := cs\<lparr>cs_cache := c2\<rparr>\<rparr>))"

definition rich_text :: "tree_env \<Rightarrow> attrs \<Rightarrow> dnode \<Rightarrow> bool" where
  "rich_text te A e \<longleftrightarrow>
     te_editable te (nid e) \<or> get_attr A (nid e) ''contenteditable'' = Some ''true''
     \<or> attr_str A (nid e) ''id'' = ''tinymce'' \<or> has_class A (nid e) ''mce-content-body''
     \<or> (lname e = ''body'' \<and> (case get_attr A (nid e) ''data-id'' of None \<Rightarrow> False | Some v \<Rightarrow> prefix ''mce_'' v))"

text \<open>An anchor with no children, no \<open>href\<close> and no size is left out.\<close>

definition empty_anchor :: "tree_env \<Rightarrow> dnode \<Rightarrow> elem_data \<Rightarrow> dt_state \<Rightarrow> bool \<times> dt_state" where
  "empty_anchor te e d s =
     (if nd_tag d = ''a'' \<and> nd_children d = []
         \<and> (case map_of (nd_attributes d) ''href'' of Some (Some v) \<Rightarrow> v = [] | _ \<Rightarrow> True)
      then
        let env = te_page te; i = nid e; cs = dt_coll s;
            (r, c1) = cached_bounding_rect env (cs_cache cs) i
        in (\<not> ((rwidth r > 0 \<and> rheight r > 0) \<or> pe_offset_width env i > 0 \<or> pe_offset_height env i > 0),
            s\<lparr>dt_coll := cs\<lparr>cs_cache := c1\<rparr>\<rparr>)
      else (False, s))"

text \<open>Storing an element under the next identifier.\<close>

definition store_node :: "dnode \<Rightarrow> nat option \<Rightarrow> elem_data \<Rightarrow> dt_state \<Rightarrow> string option \<times> dt_state" where
  "store_node e parent_iframe d s =
     (let k = show_nat (dt_next s)
      in (Some k, s\<lparr>dt_next := dt_next s + 1, dt_map := dt_map s @ [(k, ElemData d)],
                    dt_nodes := dt_nodes s @ [(e, k, parent_iframe)]\<rparr>))"

definition collect_into :: "tree_env \<Rightarrow> rat \<Rightarrow> dnode \<Rightarrow> dt_state \<Rightarrow> elem_data \<times> dt_state" where
  "collect_into te vx e s =
     (let (d, cs) = collect te vx e (dt_coll s) in (d, s\<lparr>dt_coll := cs\<rparr>))"

definition text_node :: "tree_env \<Rightarrow> rat \<Rightarrow> nat \<Rightarrow> string \<Rightarrow> dt_state \<Rightarrow> string option \<times> dt_state" where
  "text_node te vx i txt s =
     (let content = trim txt
      in if content = [] then (None, s)
         else (case parent_element (te_roots te) i of
                 None \<Rightarrow> (None, s)
               | Some p \<Rightarrow>
                   if node_name (te_roots te) p = ''script'' then (None, s)
                   else
                     let k = show_nat (dt_next s)
                     in (Some k, s\<lparr>dt_next := dt_next s + 1,
                           dt_map := dt_map s @ [(k, TextData content (is_text_node_visible te vx i))]\<rparr>)))"

section \<open>The walk\<close>

definition cons_opt :: "'a option \<Rightarrow> 'a list \<Rightarrow> 'a list" where
  "cons_opt x xs = (case x of None \<Rightarrow> xs | Some a \<Rightarrow> a # xs)"

fun build :: "tree_env \<Rightarrow> rat \<Rightarrow> nat option \<Rightarrow> dnode \<Rightarrow> dt_state \<Rightarrow> string option \<times> dt_state"
  and build_list :: "tree_env \<Rightarrow> rat \<Rightarrow> nat option \<Rightarrow> dnode list \<Rightarrow> dt_state \<Rightarrow> string list \<times> dt_state"
  and build_opt :: "tree_env \<Rightarrow> rat \<Rightarrow> nat option \<Rightarrow> dnode list option \<Rightarrow> dt_state \<Rightarrow> string list \<times> dt_state" where
  "build te vx pf (Elem i t ks sh fr) s =
     (if attr_str (cs_attrs (dt_coll s)) i ''id'' = HIGHLIGHT_CONTAINER_ID then (None, s)
      else if i = te_body te then
        (let (d, s1) = collect_into te vx (Elem i t ks sh fr) s;
             (ids, s2) = build_list te vx None ks s1
         in store_node (Elem i t ks sh fr) None (d\<lparr>nd_children := ids\<rparr>) s2)
      else if \<not> is_element_accepted (Elem i t ks sh fr) then (None, s)
      else
        (let (out, s0) = early_reject te vx (Elem i t ks sh fr) s
         in if out then (None, s0)
            else
              (let (d, s1) = collect_into te vx (Elem i t ks sh fr) s0;
                   (ids, s2) =
                     (if to_lower t = ''iframe'' then build_opt te vx (Some i) fr s1
                      else if rich_text te (cs_attrs (dt_coll s1)) (Elem i t ks sh fr)
                      then build_list te vx pf ks s1
                      else (let (ids1, s11) = build_opt te vx pf sh s1;
                                (ids2, s12) = build_list te vx pf ks s11
                            in (ids1 @ ids2, s12)));
                   d2 = d\<lparr>nd_children := ids\<rparr>;
                   (drop_it, s3) = empty_anchor te (Elem i t ks sh fr) d2 s2
               in if drop_it then (None, s3) else store_node (Elem i t ks sh fr) pf d2 s3)))"
| "build te vx pf (Text i txt) s = text_node te vx i txt s"
| "build te vx pf (Other i) s = (None, s)"
| "build_list te vx pf [] s = ([], s)"
| "build_list te vx pf (n # ns) s =
     (let (k, s1) = build te vx pf n s; (ks, s2) = build_list te vx pf ns s1 in (cons_opt k ks, s2))"
| "build_opt te vx pf None s = ([], s)"
| "build_opt te vx pf (Some ns) s = build_list te vx pf ns s"

section \<open>The analysis\<close>

text \<open>
  What one analysis finds in the window and leaves there: attributes, the number counter
  and the drawn highlights.
\<close>

record window_state =
  ws_attrs :: attrs
  ws_counter :: "nat option"
  ws_page :: highlight_page

definition fresh_dt :: "window_state \<Rightarrow> dt_state" where
  "fresh_dt w = \<lparr>dt_coll = \<lparr>cs_attrs = ws_attrs w, cs_counter = ws_counter w, cs_cache = empty_cache,
     cs_xpaths = (\<lambda>_. None)\<rparr>, dt_next = 0, dt_map = [], dt_nodes = []\<rparr>"

definition run_build :: "tree_env \<Rightarrow> ph_conf \<Rightarrow> dnode \<Rightarrow> window_state \<Rightarrow>
    (string option \<times> (string \<times> node_data) list) \<times> window_state" where
  "run_build te pc body w =
     (let (root_id, s) = build te (pc_expansion pc) None body (fresh_dt w);
          A = cs_attrs (dt_coll s);
          h = highlight te A pc (dt_nodes s)
                \<lparr>ph_index = 0, ph_map = dt_map s, ph_cache = cs_cache (dt_coll s), ph_page = ws_page w,
                 ph_highlighted = []\<rparr>
      in ((root_id, ph_map h),
          \<lparr>ws_attrs = A, ws_counter = cs_counter (dt_coll s), ws_page = ph_page h\<rparr>))"

text \<open>\<open>buildDomTree(args)\<close>, with the defaults of its destructuring.\<close>

definition conf_of_args :: "rat \<times> rat \<Rightarrow> jv \<Rightarrow> ph_conf" where
  "conf_of_args measured args =
     \<lparr>pc_expansion = js_num (with_default (fld args ''viewportExpansion'') (JNum 0)),
      pc_focus = js_num (with_default (fld args ''focusHighlightIndex'') (JNum (- 1))),
      pc_draw = truthy (with_default (fld args ''doHighlightElements'') (JBool True)),
      pc_measured = measured\<rparr>"

definition build_dom_tree :: "tree_env \<Rightarrow> rat \<times> rat \<Rightarrow> dnode \<Rightarrow> jv \<Rightarrow> window_state \<Rightarrow>
    (string option \<times> (string \<times> node_data) list) \<times> window_state" where
  "build_dom_tree te measured body args w = run_build te (conf_of_args measured args) body w"

section \<open>What the walk adds\<close>

definition children_of :: "node_data \<Rightarrow> string list" where
  "children_of v = (case v of ElemData d \<Rightarrow> nd_children d | TextData _ _ \<Rightarrow> [])"

definition opt_list :: "'a option \<Rightarrow> 'a list" where
  "opt_list x = (case x of None \<Rightarrow> [] | Some a \<Rightarrow> [a])"

text \<open>
  \<open>adds s ids s'\<close>: from \<open>s\<close> to \<open>s'\<close> the walk has stored nodes under
  consecutive identifiers; every identifier is listed once, either as a child of one of
  those nodes or among the results \<open>ids\<close>; and a child is stored before its parent.
\<close>

definition adds :: "dt_state \<Rightarrow> string list \<Rightarrow> dt_state \<Rightarrow> bool" where
  "adds s ids s' \<longleftrightarrow>
     (\<exists>new. dt_map s' = dt_map s @ new
        \<and> dt_next s' = dt_next s + length new
        \<and> map fst new = map show_nat [dt_next s..<dt_next s']
        \<and> mset (concat (map (children_of \<circ> snd) new)) + mset ids = mset (map fst new)
        \<and> (\<forall>m v. (show_nat m, v) \<in> set new \<longrightarrow> (\<forall>c \<in> set (children_of v). \<exists>l < m. c = show_nat l))
        \<and> (\<exists>cs. dt_nodes s' = dt_nodes s @ cs \<and> map (\<lambda>c. fst (snd c)) cs =
             map fst (filter (\<lambda>(k, v). \<exists>d. v = ElemData d) new)
             \<and> (\<forall>k d. (k, ElemData d) \<in> set new \<longrightarrow> nd_highlight d = None)))"

lemma adds_refl [intro]: "dt_map s' = dt_map s \<Longrightarrow> dt_next s' = dt_next s \<Longrightarrow> dt_nodes s' = dt_nodes s \<Longrightarrow> adds s [] s'"
  by (simp add: adds_def)

lemma adds_trans:
  assumes "adds s ids1 s1" "adds s1 ids2 s2"
  shows "adds s (ids1 @ ids2) s2"
proof -
  obtain n1 c1 where 1: "dt_map s1 = dt_map s @ n1" "dt_next s1 = dt_next s + length n1"
    "map fst n1 = map show_nat [dt_next s..<dt_next s1]"
    "mset (concat (map (children_of \<circ> snd) n1)) + mset ids1 = mset (map fst n1)"
    "\<forall>m v. (show_nat m, v) \<in> set n1 \<longrightarrow> (\<forall>c \<in> set (children_of v). \<exists>l < m. c = show_nat l)"
    "dt_nodes s1 = dt_nodes s @ c1"
    "map (\<lambda>c. fst (snd c)) c1 = map fst (filter (\<lambda>(k, v). \<exists>d. v = ElemData d) n1)"
    "\<forall>k d. (k, ElemData d) \<in> set n1 \<longrightarrow> nd_highlight d = None"
    using assms(1) unfolding adds_def by blast
  obtain n2 c2 where 2: "dt_map s2 = dt_map s1 @ n2" "dt_next s2 = dt_next s1 + length n2"
    "map fst n2 = map show_nat [dt_next s1..<dt_next s2]"
    "mset (concat (map (children_of \<circ> snd) n2)) + mset ids2 = mset (map fst n2)"
    "\<forall>m v. (show_nat m, v) \<in> set n2 \<longrightarrow> (\<forall>c \<in> set (children_of v). \<exists>l < m. c = show_nat l)"
    "dt_nodes s2 = dt_nodes s1 @ c2"
    "map (\<lambda>c. fst (snd c)) c2 = map fst (filter (\<lambda>(k, v). \<exists>d. v = ElemData d) n2)"
    "\<forall>k d. (k, ElemData d) \<in> set n2 \<longrightarrow> nd_highlight d = None"
    using assms(2) unfolding adds_def by blast
  have up: "[dt_next s..<dt_next s2] = [dt_next s..<dt_next s1] @ [dt_next s1..<dt_next s2]"
    using upt_add_eq_append [of "dt_next s" "dt_next s1" "length n2"] 1(2) 2(2) by simp
  show ?thesis
    unfolding adds_def
  proof (intro exI [of _ "n1 @ n2"] conjI)
    show "dt_map s2 = dt_map s @ n1 @ n2" using 1 2 by simp
    show "dt_next s2 = dt_next s + length (n1 @ n2)" using 1 2 by simp
    show "map fst (n1 @ n2) = map show_nat [dt_next s..<dt_next s2]" using 1(3) 2(3) up by simp
    show "mset (concat (map (children_of \<circ> snd) (n1 @ n2))) + mset (ids1 @ ids2) = mset (map fst (n1 @ n2))"
      unfolding map_append concat_append mset_append 1(4) [symmetric] 2(4) [symmetric] by simp
    show "\<forall>m v. (show_nat m, v) \<in> set (n1 @ n2) \<longrightarrow> (\<forall>c \<in> set (children_of v). \<exists>l < m. c = show_nat l)"
      using 1(5) 2(5) by simp
    show "\<exists>cs. dt_nodes s2 = dt_nodes s @ cs \<and> map (\<lambda>c. fst (snd c)) cs =
        map fst (filter (\<lambda>(k, v). \<exists>d. v = ElemData d) (n1 @ n2))
        \<and> (\<forall>k d. (k, ElemData d) \<in> set (n1 @ n2) \<longrightarrow> nd_highlight d = None)"
      using 1(6,7,8) 2(6,7,8) by (intro exI [of _ "c1 @ c2"]) auto
  qed
qed

lemma adds_same:
  "adds s ids s1 \<Longrightarrow> dt_map s2 = dt_map s1 \<Longrightarrow> dt_next s2 = dt_next s1 \<Longrightarrow> dt_nodes s2 = dt_nodes s1 \<Longrightarrow>
     adds s ids s2"
  "adds s1 ids s2 \<Longrightarrow> dt_map s1 = dt_map s \<Longrightarrow> dt_next s1 = dt_next s \<Longrightarrow> dt_nodes s1 = dt_nodes s \<Longrightarrow>
     adds s ids s2"
  by (simp_all add: adds_def)

lemma adds_store:
  assumes a: "adds s ids s1" and d: "nd_children d = ids" "nd_highlight d = None"
    and st: "store_node e pf d s1 = (r, s2)"
  shows "adds s (opt_list r) s2"
proof -
  obtain new cs where 1: "dt_map s1 = dt_map s @ new" "dt_next s1 = dt_next s + length new"
    "map fst new = map show_nat [dt_next s..<dt_next s1]"
    "mset (concat (map (children_of \<circ> snd) new)) + mset ids = mset (map fst new)"
    "\<forall>m v. (show_nat m, v) \<in> set new \<longrightarrow> (\<forall>c \<in> set (children_of v). \<exists>l < m. c = show_nat l)"
    "dt_nodes s1 = dt_nodes s @ cs"
    "map (\<lambda>c. fst (snd c)) cs = map fst (filter (\<lambda>(k, v). \<exists>d. v = ElemData d) new)"
    "\<forall>k d. (k, ElemData d) \<in> set new \<longrightarrow> nd_highlight d = None"
    using a unfolding adds_def by blast
  let ?k = "show_nat (dt_next s1)"
  have s2: "r = Some ?k" "dt_next s2 = Suc (dt_next s1)" "dt_map s2 = dt_map s1 @ [(?k, ElemData d)]"
    "dt_nodes s2 = dt_nodes s1 @ [(e, ?k, pf)]"
    using st by (auto simp: store_node_def Let_def)
  have ids: "\<exists>l < dt_next s1. c = show_nat l" if "c \<in> set ids" for c
  proof -
    have "c \<in># mset (map fst new)" using that unfolding 1(4) [symmetric] by simp
    then have "c \<in> set (map show_nat [dt_next s..<dt_next s1])" using 1(3) by (metis set_mset_mset)
    then show ?thesis by auto
  qed
  show ?thesis
    unfolding adds_def
  proof (intro exI [of _ "new @ [(?k, ElemData d)]"] conjI)
    show "dt_map s2 = dt_map s @ new @ [(?k, ElemData d)]" using 1 s2 by simp
    show "dt_next s2 = dt_next s + length (new @ [(?k, ElemData d)])" using 1 s2 by simp
    show "map fst (new @ [(?k, ElemData d)]) = map show_nat [dt_next s..<dt_next s2]"
      using 1(2,3) s2(2) by simp
    have "mset (concat (map (children_of \<circ> snd) (new @ [(?k, ElemData d)]))) =
        mset (concat (map (children_of \<circ> snd) new)) + mset ids"
      using d(1) by (simp add: children_of_def)
    then show "mset (concat (map (children_of \<circ> snd) (new @ [(?k, ElemData d)]))) + mset (opt_list r) =
        mset (map fst (new @ [(?k, ElemData d)]))"
      unfolding 1(4) by (simp add: s2(1) opt_list_def)
    show "\<forall>m v. (show_nat m, v) \<in> set (new @ [(?k, ElemData d)]) \<longrightarrow>
        (\<forall>c \<in> set (children_of v). \<exists>l < m. c = show_nat l)"
      using 1(5) ids d(1) by (auto simp: children_of_def)
    show "\<exists>cs. dt_nodes s2 = dt_nodes s @ cs \<and> map (\<lambda>c. fst (snd c)) cs =
        map fst (filter (\<lambda>(k, v). \<exists>d. v = ElemData d) (new @ [(?k, ElemData d)]))
        \<and> (\<forall>k d'. (k, ElemData d') \<in> set (new @ [(?k, ElemData d)]) \<longrightarrow> nd_highlight d' = None)"
      using 1(6,7,8) s2(4) d(2) by (intro exI [of _ "cs @ [(e, ?k, pf)]"]) auto
  qed
qed

lemma adds_text:
  assumes "text_node te vx i txt s = (r, s')"
  shows "adds s (opt_list r) s'"
proof (cases "r = None")
  case True
  then have "s' = s" using assms
    by (auto simp: text_node_def Let_def split: if_splits option.splits)
  then show ?thesis using True by (auto simp: opt_list_def)
next
  case False
  then obtain v b where "r = Some (show_nat (dt_next s))"
    "s' = s\<lparr>dt_next := dt_next s + 1, dt_map := dt_map s @ [(show_nat (dt_next s), TextData v b)]\<rparr>"
    using assms by (auto simp: text_node_def Let_def split: if_splits option.splits)
  then show ?thesis
    by (auto simp: adds_def opt_list_def children_of_def
        intro!: exI [of _ "[(show_nat (dt_next s), TextData v b)]"])
qed

lemma collect_fields:
  "nd_children (fst (collect te vx e s)) = []" "nd_highlight (fst (collect te vx e s)) = None"
proof -
  obtain n A c where a: "allot_dom_tree_id (te_page te) (nid e) (cs_attrs s) (cs_counter s) = (n, A, c)"
    using prod_cases3 by blast
  obtain xp xs where x: "get_xpath_tree (te_roots te) True (cs_xpaths s) (nid e) = (xp, xs)" by fastforce
  obtain v t i k where n: "inspect_element te vx A (cs_cache s) e = (v, t, i, k)"
    using prod_cases4 by blast
  show "nd_children (fst (collect te vx e s)) = []" "nd_highlight (fst (collect te vx e s)) = None"
    unfolding collect_def Let_def a x n prod.case by simp_all
qed

lemma collect_into_adds:
  assumes "collect_into te vx e s = (d, s')"
  shows "adds s [] s' \<and> nd_children d = [] \<and> nd_highlight d = None"
proof -
  obtain d' cs where c: "collect te vx e (dt_coll s) = (d', cs)" by fastforce
  then have "d = d'" "s' = s\<lparr>dt_coll := cs\<rparr>" using assms by (simp_all add: collect_into_def)
  then show ?thesis using collect_fields [of te vx e "dt_coll s"] c by auto
qed

lemma early_reject_adds: "early_reject te vx e s = (out, s') \<Longrightarrow> adds s [] s'"
  by (auto simp: early_reject_def Let_def split: if_splits prod.splits)

lemma empty_anchor_adds:
  assumes "empty_anchor te e d s = (out, s')"
  shows "dt_map s' = dt_map s \<and> dt_next s' = dt_next s \<and> dt_nodes s' = dt_nodes s \<and> (out \<longrightarrow> nd_children d = [])"
  using assms by (auto simp: empty_anchor_def Let_def split: if_splits prod.splits)

lemma cons_opt_list: "cons_opt k ks = opt_list k @ ks"
  by (simp add: cons_opt_def opt_list_def split: option.split)

lemma build_adds:
  "build te vx pf n s = (r, s') \<Longrightarrow> adds s (opt_list r) s'"
  "build_list te vx pf ns s = (ids, s'') \<Longrightarrow> adds s ids s''"
  "build_opt te vx pf sh s = (ids', s3) \<Longrightarrow> adds s ids' s3"
proof (induction te vx pf n s and te vx pf ns s and te vx pf sh s
    arbitrary: r s' and ids s'' and ids' s3 rule: build_build_list_build_opt.induct)
  case (1 te vx pf i t ks sh fr s)
  let ?e = "Elem i t ks sh fr"
  consider (skip) "attr_str (cs_attrs (dt_coll s)) i ''id'' = HIGHLIGHT_CONTAINER_ID"
    | (body) "attr_str (cs_attrs (dt_coll s)) i ''id'' \<noteq> HIGHLIGHT_CONTAINER_ID" "i = te_body te"
    | (deny) "attr_str (cs_attrs (dt_coll s)) i ''id'' \<noteq> HIGHLIGHT_CONTAINER_ID" "i \<noteq> te_body te"
        "\<not> is_element_accepted ?e"
    | (elem) "attr_str (cs_attrs (dt_coll s)) i ''id'' \<noteq> HIGHLIGHT_CONTAINER_ID" "i \<noteq> te_body te"
        "is_element_accepted ?e" by blast
  then show ?case
  proof cases
    case skip
    then have "r = None" "s' = s" using "1.prems" by simp_all
    then show ?thesis by (auto simp: opt_list_def)
  next
    case deny
    then have "r = None" "s' = s" using "1.prems" by simp_all
    then show ?thesis by (auto simp: opt_list_def)
  next
    case body
    obtain d s1 where c: "collect_into te vx ?e s = (d, s1)" by fastforce
    obtain ids s2 where l: "build_list te vx None ks s1 = (ids, s2)" by fastforce
    have st: "store_node ?e None (d\<lparr>nd_children := ids\<rparr>) s2 = (r, s')"
      using "1.prems" body c l by simp
    have "adds s ids s2"
      using adds_trans [OF conjunct1 [OF collect_into_adds [OF c]] "1.IH"(1) [OF body c [symmetric] refl l]] by simp
    then show ?thesis
      by (rule adds_store [OF _ _ _ st]) (use collect_into_adds [OF c] in simp_all)
  next
    case elem
    obtain out s0 where ev: "early_reject te vx ?e s = (out, s0)" by fastforce
    show ?thesis
    proof (cases out)
      case True
      then have "r = None" "s' = s0" using "1.prems" elem ev by simp_all
      then show ?thesis using early_reject_adds [OF ev] by (simp add: opt_list_def)
    next
      case False
      obtain d s1 where c: "collect_into te vx ?e s0 = (d, s1)" by fastforce
      define part where "part = (if to_lower t = ''iframe'' then build_opt te vx (Some i) fr s1
            else if rich_text te (cs_attrs (dt_coll s1)) ?e then build_list te vx pf ks s1
            else (let (ids1, s11) = build_opt te vx pf sh s1; (ids2, s12) = build_list te vx pf ks s11
                  in (ids1 @ ids2, s12)))"
      obtain ids s2 where p: "part = (ids, s2)" by fastforce
      obtain dr s3 where a: "empty_anchor te ?e (d\<lparr>nd_children := ids\<rparr>) s2 = (dr, s3)" by fastforce
      have run: "(if dr then (None, s3) else store_node ?e pf (d\<lparr>nd_children := ids\<rparr>) s3) = (r, s')"
        using "1.prems" elem ev False c p a unfolding part_def by (simp add: Let_def)
      have acc: "\<not> \<not> is_element_accepted ?e" using elem by simp
      note IH = "1.IH"(2-5) [OF elem(1,2) acc ev [symmetric] refl False c [symmetric] refl]
      have "adds s1 ids s2"
      proof (cases "to_lower t = ''iframe''")
        case True
        then show ?thesis using p IH(1) unfolding part_def by simp
      next
        case nf: False
        show ?thesis
        proof (cases "rich_text te (cs_attrs (dt_coll s1)) ?e")
          case True
          then show ?thesis using p IH(2) nf unfolding part_def by simp
        next
          case nr: False
          obtain i1 s11 where b1: "build_opt te vx pf sh s1 = (i1, s11)" by fastforce
          obtain i2 s12 where b2: "build_list te vx pf ks s11 = (i2, s12)" by fastforce
          have "ids = i1 @ i2" "s2 = s12" using p nf nr b1 b2 unfolding part_def by simp_all
          then show ?thesis
            using adds_trans [OF IH(3) [OF nf nr b1] IH(4) [OF nf nr b1 [symmetric] refl b2]] by simp
        qed
      qed
      then have "adds s ids s2"
        using adds_trans [OF early_reject_adds [OF ev]
            adds_trans [OF conjunct1 [OF collect_into_adds [OF c]]]] by fastforce
      then have a3: "adds s ids s3" using adds_same(1) empty_anchor_adds [OF a] by blast
      show ?thesis
      proof (cases dr)
        case True
        then have "r = None" "s' = s3" "ids = []" using run empty_anchor_adds [OF a] by simp_all
        then show ?thesis using a3 by (simp add: opt_list_def)
      next
        case False
        then have st: "store_node ?e pf (d\<lparr>nd_children := ids\<rparr>) s3 = (r, s')" using run by simp
        show ?thesis
          by (rule adds_store [OF a3 _ _ st]) (use collect_into_adds [OF c] in simp_all)
      qed
    qed
  qed
next
  case (2 te vx pf i u s)
  then show ?case by (intro adds_text) simp
next
  case (3 te vx pf i s)
  then show ?case by (auto simp: opt_list_def)
next
  case (4 te vx pf s)
  then show ?case by auto
next
  case (5 te vx pf n ns s)
  obtain k s1 where b: "build te vx pf n s = (k, s1)" by fastforce
  obtain ks s2 where l: "build_list te vx pf ns s1 = (ks, s2)" by fastforce
  have "ids = opt_list k @ ks" "s'' = s2" using "5.prems" b l by (simp_all add: cons_opt_list)
  then show ?case using adds_trans [OF "5.IH"(1) [OF b] "5.IH"(2) [OF b [symmetric] refl l]] by simp
next
  case (6 te vx pf s)
  then show ?case by auto
next
  case (7 te vx pf ns s)
  then show ?case by simp
qed

section \<open>Highlighting keeps the tree\<close>

definition shape :: "(string \<times> node_data) list \<Rightarrow> (string \<times> string list) list" where
  "shape m = map (\<lambda>(k, v). (k, children_of v)) m"

lemma shape_al_set:
  "map_of m k = Some v \<Longrightarrow> children_of v = children_of w \<Longrightarrow> shape (al_set k w m) = shape m"
  by (induction m) (auto simp: shape_def)

lemma shape_fst: "map fst (shape m) = map fst m" "map snd (shape m) = map (children_of \<circ> snd) m"
  by (simp_all add: shape_def comp_def case_prod_beta)

lemma shape_put_elem:
  "lookup_elem (ph_map s) k = Some d \<Longrightarrow> nd_children d' = nd_children d \<Longrightarrow>
     shape (ph_map (put_elem k d' s)) = shape (ph_map s)"
proof -
  assume l: "lookup_elem (ph_map s) k = Some d" and c: "nd_children d' = nd_children d"
  have "map_of (ph_map s) k = Some (ElemData d)"
    using l by (auto simp: lookup_elem_def split: option.splits node_data.splits)
  then have "shape (al_set k (ElemData d') (ph_map s)) = shape (ph_map s)"
    using c by (intro shape_al_set) (auto simp: children_of_def)
  then show ?thesis by (simp add: put_elem_def)
qed

lemma handle_shape:
  assumes run: "handle_highlighting te A pc e k d f ph s = (hl, s')" and d: "lookup_elem (ph_map s) k = Some d"
  shows "shape (ph_map s') = shape (ph_map s)"
  using handle_cases [OF run]
proof (elim disjE exE conjE)
  fix c assume "s' = s\<lparr>ph_cache := c\<rparr>"
  then show ?thesis by simp
next
  fix c assume "s' = put_elem k (d\<lparr>nd_in_viewport := Some False\<rparr>) (s\<lparr>ph_cache := c\<rparr>)"
  then show ?thesis using shape_put_elem [of "s\<lparr>ph_cache := c\<rparr>" k d] d by simp
next
  fix c v p
  let ?s1 = "put_elem k (d\<lparr>nd_in_viewport := Some v\<rparr>) (s\<lparr>ph_cache := c\<rparr>)"
  assume s': "s' = (put_elem k (d\<lparr>nd_in_viewport := Some v, nd_highlight := Some (ph_index s)\<rparr>)
               (?s1\<lparr>ph_index := ph_index s + 1\<rparr>))\<lparr>ph_page := p\<rparr>"
  have 1: "shape (ph_map ?s1) = shape (ph_map s)"
    using shape_put_elem [of "s\<lparr>ph_cache := c\<rparr>" k d] d by simp
  have l: "lookup_elem (ph_map (?s1\<lparr>ph_index := ph_index s + 1\<rparr>)) k = Some (d\<lparr>nd_in_viewport := Some v\<rparr>)"
    by (simp add: lookup_put)
  show ?thesis unfolding s' using shape_put_elem [OF l] 1 by simp
qed

lemma highlight_loop_shape: "shape (ph_map (highlight_loop te A pc lb cs s)) = shape (ph_map s)"
proof (induction te A pc lb cs s rule: highlight_loop.induct)
  case (1 te A pc lb s)
  then show ?case by simp
next
  case (2 te A pc lb e j f cs s)
  show ?case
  proof (cases "lookup_elem (ph_map s) j")
    case None
    then show ?thesis using 2 by simp
  next
    case (Some d)
    show ?thesis
    proof (cases "case lb of Some l \<Rightarrow> \<not> is_listbox_related_element te A (nid e) l | None \<Rightarrow> False")
      case True
      then show ?thesis using 2 Some by simp
    next
      case False
      define ph where "ph = (case parent_element (te_roots te) (nid e) of
          Some p \<Rightarrow> p \<in> set (ph_highlighted s) | None \<Rightarrow> False)"
      obtain hl s1 where h: "handle_highlighting te A pc e j d f ph s = (hl, s1)" by fastforce
      define s2 where "s2 = (if hl then s1\<lparr>ph_highlighted := ph_highlighted s1 @ [nid e]\<rparr> else s1)"
      have "shape (ph_map (highlight_loop te A pc lb cs s2)) = shape (ph_map s2)"
        by (rule "2.IH"(3) [OF Some False ph_def h [symmetric] refl s2_def])
      then show ?thesis
        using Some False h handle_shape [OF h Some] by (simp add: ph_def [symmetric] s2_def Let_def)
    qed
  qed
qed

section \<open>The result of an analysis\<close>

lemma build_body:
  assumes "body = Elem i t ks sh fr" "i = te_body te"
    "attr_str (ws_attrs w) i ''id'' \<noteq> HIGHLIGHT_CONTAINER_ID"
    and "build te vx None body (fresh_dt w) = (r, s)"
  shows "0 < dt_next s \<and> r = Some (show_nat (dt_next s - 1))"
proof -
  obtain d s1 where c: "collect_into te vx body (fresh_dt w) = (d, s1)" by fastforce
  obtain ids s2 where l: "build_list te vx None ks s1 = (ids, s2)" by fastforce
  have "store_node body None (d\<lparr>nd_children := ids\<rparr>) s2 = (r, s)"
    using assms c l by (simp add: fresh_dt_def)
  then show ?thesis by (auto simp: store_node_def Let_def)
qed

definition highlight_of :: "node_data \<Rightarrow> nat option" where
  "highlight_of v = (case v of ElemData d \<Rightarrow> nd_highlight d | TextData _ _ \<Rightarrow> None)"

lemma map_filter_cong: "(\<And>x. x \<in> set xs \<Longrightarrow> f x = g x) \<Longrightarrow> List.map_filter f xs = List.map_filter g xs"
  by (induction xs) (auto simp: map_filter_simps split: option.splits)

lemma map_filter_map: "List.map_filter f (map g xs) = List.map_filter (f \<circ> g) xs"
  by (simp add: List.map_filter_def filter_map comp_def)

lemma map_filter_drop: "(\<And>x. x \<in> set xs \<Longrightarrow> \<not> P x \<Longrightarrow> f x = None) \<Longrightarrow>
    List.map_filter f (filter P xs) = List.map_filter f xs"
  by (induction xs) (auto simp: map_filter_simps split: option.splits)

lemma run_build_result:
  assumes body: "body = Elem i t ks sh fr" "i = te_body te"
    "attr_str (ws_attrs w) i ''id'' \<noteq> HIGHLIGHT_CONTAINER_ID"
    and run: "run_build te pc body w = ((root_id, m), w')"
  shows "map fst m = map show_nat [0..<length m]"
    and "0 < length m" "root_id = Some (show_nat (length m - 1))"
    and "mset (concat (map (children_of \<circ> snd) m)) + {# show_nat (length m - 1) #} = mset (map fst m)"
    and "(show_nat l, v) \<in> set m \<Longrightarrow> c \<in> set (children_of v) \<Longrightarrow> \<exists>j < l. c = show_nat j"
    and "\<exists>n. List.map_filter (highlight_of \<circ> snd) m = [0..<n]"
    and "\<not> pc_draw pc \<Longrightarrow> ws_page w' = ws_page w"
proof -
  obtain r s where b: "build te (pc_expansion pc) None body (fresh_dt w) = (r, s)" by fastforce
  define h0 where "h0 = \<lparr>ph_index = 0, ph_map = dt_map s, ph_cache = cs_cache (dt_coll s), ph_page = ws_page w,
                 ph_highlighted = []\<rparr>"
  define A where "A = cs_attrs (dt_coll s)"
  define lb where "lb = find_active_listbox A (ph_map h0) (dt_nodes s)"
  define h where "h = highlight_loop te A pc lb (dt_nodes s) h0"
  have hh: "highlight te A pc (dt_nodes s) h0 = h"
    by (simp add: highlight_def h_def lb_def h0_def)
  have res: "root_id = r" "m = ph_map h" "ws_page w' = ph_page h"
    using run b hh by (auto simp: run_build_def Let_def A_def [symmetric] h0_def [symmetric])
  have rb: "0 < dt_next s" "r = Some (show_nat (dt_next s - 1))"
    using build_body [OF body b] by simp_all
  have sh: "shape m = shape (dt_map s)"
    using highlight_loop_shape [of te A pc lb "dt_nodes s" h0] by (simp add: res h_def h0_def)
  have fm: "map fst m = map fst (dt_map s)" "map (children_of \<circ> snd) m = map (children_of \<circ> snd) (dt_map s)"
    using shape_fst sh by metis+
  have len: "length m = length (dt_map s)" using fm(1) by (metis length_map)
  have f0: "dt_map (fresh_dt w) = []" "dt_next (fresh_dt w) = 0" "dt_nodes (fresh_dt w) = []"
    by (simp_all add: fresh_dt_def)
  have "adds (fresh_dt w) (opt_list r) s" by (rule build_adds(1) [OF b])
  then have new: "dt_next s = length (dt_map s)"
    "map fst (dt_map s) = map show_nat [0..<dt_next s]"
    "mset (concat (map (children_of \<circ> snd) (dt_map s))) + mset (opt_list r) = mset (map fst (dt_map s))"
    "\<forall>m v. (show_nat m, v) \<in> set (dt_map s) \<longrightarrow> (\<forall>c \<in> set (children_of v). \<exists>l < m. c = show_nat l)"
    "map (\<lambda>c. fst (snd c)) (dt_nodes s) = map fst (filter (\<lambda>(k, v). \<exists>d. v = ElemData d) (dt_map s))"
    "\<forall>k d. (k, ElemData d) \<in> set (dt_map s) \<longrightarrow> nd_highlight d = None"
    unfolding adds_def f0 append_Nil add_0 by blast+
  show "map fst m = map show_nat [0..<length m]" using fm new len by simp
  show "0 < length m" "root_id = Some (show_nat (length m - 1))" using rb res new len by simp_all
  show "mset (concat (map (children_of \<circ> snd) m)) + {# show_nat (length m - 1) #} = mset (map fst m)"
    using new(1,3) rb by (simp add: fm len opt_list_def)
  show "\<exists>j < l. c = show_nat j" if "(show_nat l, v) \<in> set m" "c \<in> set (children_of v)"
  proof -
    have "(show_nat l, children_of v) \<in> set (shape m)" using that(1) by (force simp: shape_def)
    then obtain u where "(show_nat l, u) \<in> set (dt_map s)" "children_of u = children_of v"
      unfolding sh by (auto simp: shape_def)
    then show ?thesis using new(4) that(2) by metis
  qed
  have inj: "distinct (map fst (dt_map s))"
    unfolding new(2) by (simp add: distinct_map inj_on_def)
  have dist: "distinct (map (\<lambda>c. fst (snd c)) (dt_nodes s))"
    unfolding new(5) using inj by (rule distinct_map_filter)
  have none: "index_at h0 k = None" for k
    using new(6) by (auto simp: index_at_def lookup_elem_def h0_def dest!: map_of_SomeD
        split: option.splits node_data.splits)
  have fresh: "\<forall>(e, k, f) \<in> set (dt_nodes s). index_at h0 k = None" using none by auto
  note L = highlight_loop_indices [OF dist fresh, of te A pc lb, folded h_def]
  have h0: "ph_index h0 = 0" "ph_page h0 = ws_page w" by (simp_all add: h0_def)
  have ix: "highlight_of (snd p) = index_at h (fst p)" if "p \<in> set m" for p
  proof -
    have "map_of m (fst p) = Some (snd p)" using that inj fm(1) by (metis map_of_is_SomeI prod.collapse)
    then show ?thesis
      by (simp add: highlight_of_def index_at_def lookup_elem_def res split: node_data.split)
  qed
  have "List.map_filter (highlight_of \<circ> snd) m = List.map_filter (index_at h) (map fst m)"
    unfolding map_filter_map using ix by (intro map_filter_cong) simp
  also have "\<dots> = List.map_filter (index_at h \<circ> fst) (dt_map s)" by (simp add: fm map_filter_map)
  also have "\<dots> = List.map_filter (index_at h \<circ> fst) (filter (\<lambda>(k, v). \<exists>d. v = ElemData d) (dt_map s))"
  proof (rule map_filter_drop [symmetric])
    fix p assume p: "p \<in> set (dt_map s)" "\<not> (case p of (k, v) \<Rightarrow> \<exists>d. v = ElemData d)"
    then have mo: "map_of (dt_map s) (fst p) = Some (snd p)" using inj by (metis map_of_is_SomeI prod.collapse)
    have "fst p \<notin> set (map (\<lambda>c. fst (snd c)) (dt_nodes s))"
    proof
      assume "fst p \<in> set (map (\<lambda>c. fst (snd c)) (dt_nodes s))"
      then obtain d where "(fst p, ElemData d) \<in> set (dt_map s)" unfolding new(5) by auto
      then have "snd p = ElemData d" using mo inj by (metis map_of_is_SomeI option.inject)
      then show False using p(2) by (cases p) auto
    qed
    then have "lookup_elem (ph_map h) (fst p) = lookup_elem (dt_map s) (fst p)"
      unfolding h_def using highlight_loop_other [OF _ fresh dist, of "fst p"] by (simp add: h0_def)
    then show "(index_at h \<circ> fst) p = None"
      using mo p(2) by (cases p; cases "snd p") (auto simp: index_at_def lookup_elem_def)
  qed
  also have "\<dots> = List.map_filter (index_at h) (map (\<lambda>c. fst (snd c)) (dt_nodes s))"
    unfolding new(5) map_filter_map ..
  also have "\<dots> = List.map_filter (\<lambda>(e, k, f). index_at h k) (dt_nodes s)"
    unfolding map_filter_map by (intro map_filter_cong) auto
  finally show "\<exists>n. List.map_filter (highlight_of \<circ> snd) m = [0..<n]"
    using conjunct1 [OF L [unfolded h0]] by (intro exI [of _ "ph_index h"]) simp
  show "\<not> pc_draw pc \<Longrightarrow> ws_page w' = ws_page w" using L unfolding res h0 by blast
qed

section \<open>Properties\<close>

text \<open>
  C2. The map of an analysis is a tree: its keys are the identifiers "0", "1", ... in
  order, the root is the last of them, every other identifier is the child of exactly one
  node and listed there once, and a child has a smaller identifier than its parent.
\<close>

theorem dom_tree_is_tree:
  assumes "body = Elem i t ks sh fr" "i = te_body te"
    "attr_str (ws_attrs w) i ''id'' \<noteq> HIGHLIGHT_CONTAINER_ID"
    and "build_dom_tree te measured body args w = ((root_id, m), w')"
  shows "map fst m = map show_nat [0..<length m]
     \<and> 0 < length m \<and> root_id = Some (show_nat (length m - 1))
     \<and> mset (concat (map (children_of \<circ> snd) m)) + {# show_nat (length m - 1) #} = mset (map show_nat [0..<length m])
     \<and> (\<forall>l v c. (show_nat l, v) \<in> set m \<and> c \<in> set (children_of v) \<longrightarrow> (\<exists>j < l. c = show_nat j))"
proof -
  have run: "run_build te (conf_of_args measured args) body w = ((root_id, m), w')"
    using assms(4) by (simp add: build_dom_tree_def)
  note R = run_build_result [OF assms(1-3) run]
  have "mset (concat (map (children_of \<circ> snd) m)) + {# show_nat (length m - 1) #} = mset (map show_nat [0..<length m])"
    using R(4) unfolding R(1) .
  then show ?thesis using R(1-3,5) by blast
qed

text \<open>
  The highlight indices of an analysis, read off the map in the order of its
  identifiers, are 0, 1, 2, ... without gaps, so an index stands for one element; and an
  analysis asked not to highlight leaves the drawn highlights of the page alone.
\<close>

theorem dom_tree_highlights:
  assumes "body = Elem i t ks sh fr" "i = te_body te"
    "attr_str (ws_attrs w) i ''id'' \<noteq> HIGHLIGHT_CONTAINER_ID"
    and "build_dom_tree te measured body args w = ((root_id, m), w')"
  shows "(\<exists>n. List.map_filter (highlight_of \<circ> snd) m = [0..<n])
     \<and> (fld args ''doHighlightElements'' = JBool False \<longrightarrow> ws_page w' = ws_page w)"
proof -
  have run: "run_build te (conf_of_args measured args) body w = ((root_id, m), w')"
    using assms(4) by (simp add: build_dom_tree_def)
  note R = run_build_result(6,7) [OF assms(1-3) run]
  have "fld args ''doHighlightElements'' = JBool False \<Longrightarrow> \<not> pc_draw (conf_of_args measured args)"
    by (simp add: conf_of_args_def with_default_def)
  then show ?thesis using R by blast
qed

definition demo_window :: window_state where
  "demo_window = \<lparr>ws_attrs = (\<lambda>_. []), ws_counter = None,
     ws_page = \<lparr>hp_container = False, hp_drawn = [], hp_cleanups = []\<rparr>\<rparr>"

definition demo_body :: dnode where
  "demo_body = hd (kids (hd demo_page_tree))"

lemma demo_body_elem: "demo_body = Elem 1 ''BODY'' (kids demo_body) None None" "1 = te_body demo_tree_env"
    "attr_str (ws_attrs demo_window) 1 ''id'' \<noteq> HIGHLIGHT_CONTAINER_ID"
  by (simp_all add: demo_body_def demo_page_tree_def demo_tree_env_def demo_window_def attr_str_def get_attr_def
      HIGHLIGHT_CONTAINER_ID_def)

theorem dom_tree_is_tree_witness:
  "map fst (snd (fst (build_dom_tree demo_tree_env (0, 0) demo_body (JObj []) demo_window))) =
     map show_nat [0..<length (snd (fst (build_dom_tree demo_tree_env (0, 0) demo_body (JObj []) demo_window)))]"
proof -
  obtain r m w' where "build_dom_tree demo_tree_env (0, 0) demo_body (JObj []) demo_window = ((r, m), w')"
    using prod.exhaust by metis
  from dom_tree_is_tree [OF demo_body_elem this] this show ?thesis by simp
qed

theorem dom_tree_highlights_witness:
  "\<exists>n. List.map_filter (highlight_of \<circ> snd)
     (snd (fst (build_dom_tree demo_tree_env (0, 0) demo_body (JObj []) demo_window))) = [0..<n]"
proof -
  obtain r m w' where "build_dom_tree demo_tree_env (0, 0) demo_body (JObj []) demo_window = ((r, m), w')"
    using prod.exhaust by metis
  from dom_tree_highlights [OF demo_body_elem this] this show ?thesis by simp
qed

end
