(* ===== verification/Dom_Module.thy ===== *)
theory Dom_Module
  imports Dom_Tree
begin

text \<open>
  The module around the analysis (\<open>content/page_analysis/dom_tree_module.ts\<close>):
  its lifecycle, the window messages it answers and the API it exposes on the window.
\<close>

type_synonym dt_result = "string option \<times> (string \<times> node_data) list"

text \<open>What the module posts to the window.\<close>

datatype posted =
    PostResult string dt_result       \<comment> \<open>type of the message, \<open>success: true\<close>\<close>
  | PostError string string           \<comment> \<open>type and error, \<open>success: false\<close>\<close>
  | PostCurrent "dt_result option"

record module_state =
  dm_running :: bool
  dm_current :: "dt_result option"
  dm_listener :: bool
  dm_awaiting :: nat     \<comment> \<open>listeners on \<open>DOMContentLoaded\<close>\<close>
  dm_api :: bool         \<comment> \<open>\<open>window.DOMTreeAPI\<close>\<close>
  dm_cuga_api :: bool    \<comment> \<open>\<open>window.CUGA_DOMTreeAPI\<close>\<close>
  dm_window :: window_state
  dm_posted :: "posted list"

text \<open>The analysis the module runs: \<open>buildDomTree\<close>, which may throw.\<close>

type_synonym analysis = "jv \<Rightarrow> window_state \<Rightarrow> (exn + dt_result) \<times> window_state"

definition page_analysis :: "tree_env \<Rightarrow> rat \<times> rat \<Rightarrow> dnode \<Rightarrow> analysis" where
  "page_analysis te measured body args w =
     (let (r, w') = build_dom_tree te measured body args w in (Inr r, w'))"

definition module_clear :: "module_state \<Rightarrow> module_state" where
  "module_clear s = s\<lparr>dm_window := (dm_window s)\<lparr>ws_page := clear_highlights (ws_page (dm_window s))\<rparr>\<rparr>"

definition analyze_page :: "analysis \<Rightarrow> jv \<Rightarrow> module_state \<Rightarrow> (exn + dt_result) \<times> module_state" where
  "analyze_page anl args s =
     (let args = with_default args (JObj []);
          s1 = (if truthy (fld args ''doHighlightElements'') then module_clear s else s);
          (r, w) = anl args (dm_window s1)
      in (r, s1\<lparr>dm_window := w\<rparr>))"

definition expose_global_api :: "module_state \<Rightarrow> module_state" where
  "expose_global_api s = s\<lparr>dm_api := True, dm_cuga_api := True\<rparr>"

definition remove_global_api :: "module_state \<Rightarrow> module_state" where
  "remove_global_api s = s\<lparr>dm_api := False\<rparr>"

definition module_start :: "bool \<Rightarrow> module_state \<Rightarrow> module_state" where
  "module_start loading s =
     (if dm_running s then s
      else
        let s1 = s\<lparr>dm_running := True, dm_listener := True\<rparr>
        in if loading then s1\<lparr>dm_awaiting := dm_awaiting s1 + 1\<rparr> else expose_global_api s1)"

text \<open>The document has loaded: every listener on \<open>DOMContentLoaded\<close> runs.\<close>

definition module_loaded :: "module_state \<Rightarrow> module_state" where
  "module_loaded s = (if dm_awaiting s > 0 then expose_global_api (s\<lparr>dm_awaiting := 0\<rparr>) else s)"

definition module_stop :: "module_state \<Rightarrow> module_state" where
  "module_stop s =
     (if \<not> dm_running s then s
      else remove_global_api (module_clear (s\<lparr>dm_running := False, dm_listener := False\<rparr>)))"

definition post :: "posted \<Rightarrow> module_state \<Rightarrow> module_state" where
  "post p s = s\<lparr>dm_posted := dm_posted s @ [p]\<rparr>"

definition run_command :: "analysis \<Rightarrow> string \<Rightarrow> jv \<Rightarrow> module_state \<Rightarrow> module_state" where
  "run_command anl ty args s =
     (case analyze_page anl args s of
        (Inr r, s1) \<Rightarrow> post (PostResult ty r) (s1\<lparr>dm_current := Some r\<rparr>)
      | (Inl e, s1) \<Rightarrow> post (PostError ty e) s1)"

definition handle_analyze_command :: "analysis \<Rightarrow> jv \<Rightarrow> module_state \<Rightarrow> module_state" where
  "handle_analyze_command anl args s = run_command anl ''DOM_TREE_ANALYZE_RESULT'' args s"

definition handle_highlight_command :: "analysis \<Rightarrow> jv \<Rightarrow> module_state \<Rightarrow> module_state" where
  "handle_highlight_command anl args s =
     run_command anl ''DOM_TREE_HIGHLIGHT_RESULT''
       (JObj (al_set ''doHighlightElements'' (JBool True) (spread [] args))) s"

definition send_current_result :: "module_state \<Rightarrow> module_state" where
  "send_current_result s = post (PostCurrent (dm_current s)) s"

definition handle_message :: "analysis \<Rightarrow> bool \<Rightarrow> jv \<Rightarrow> module_state \<Rightarrow> module_state" where
  "handle_message anl from_window data s =
     (if \<not> from_window then s
      else if \<not> (truthy data \<and> (case data of JObj _ \<Rightarrow> True | JArr _ \<Rightarrow> True | _ \<Rightarrow> False)) then s
      else
        let ty = fld data ''type''; args = js_or (fld data ''args'') (JObj [])
        in if ty = JStr ''DOM_TREE_ANALYZE'' then handle_analyze_command anl args s
           else if ty = JStr ''DOM_TREE_HIGHLIGHT'' then handle_highlight_command anl args s
           else if ty = JStr ''DOM_TREE_CLEAR_HIGHLIGHTS'' then module_clear s
           else if ty = JStr ''DOM_TREE_GET_RESULT'' then send_current_result s
           else s)"

section \<open>The module as a state machine\<close>

text \<open>
  The steps the window can take with the module: the content script starts or stops it,
  the document loads, a message arrives (seen only while the listener is registered), and
  a caller of the exposed API analyses or clears.
\<close>

inductive module_step :: "analysis \<Rightarrow> module_state \<Rightarrow> module_state \<Rightarrow> bool" for anl where
  start: "module_step anl s (module_start loading s)"
| stop: "module_step anl s (module_stop s)"
| loaded: "module_step anl s (module_loaded s)"
| message: "dm_listener s \<Longrightarrow> module_step anl s (handle_message anl from_window data s)"
| analyse: "dm_api s \<or> dm_cuga_api s \<Longrightarrow> module_step anl s (snd (analyze_page anl args s))"
| clear: "dm_api s \<or> dm_cuga_api s \<Longrightarrow> module_step anl s (module_clear s)"

inductive_cases module_stepE: "module_step anl s s'"

definition module_init :: "window_state \<Rightarrow> module_state" where
  "module_init w = \<lparr>dm_running = False, dm_current = None, dm_listener = False, dm_awaiting = 0,
     dm_api = False, dm_cuga_api = False, dm_window = w, dm_posted = []\<rparr>"

definition module_reachable :: "analysis \<Rightarrow> window_state \<Rightarrow> module_state \<Rightarrow> bool" where
  "module_reachable anl w s \<longleftrightarrow> (module_step anl)\<^sup>*\<^sup>* (module_init w) s"

text \<open>
  The invariant: the listener is registered exactly while the module runs; the API is on
  the window only with its twin; and an answer is kept only when one was posted.
\<close>

definition module_inv :: "module_state \<Rightarrow> bool" where
  "module_inv s \<longleftrightarrow> dm_listener s = dm_running s \<and> (dm_api s \<longrightarrow> dm_cuga_api s)
     \<and> (\<forall>r. dm_current s = Some r \<longrightarrow> (\<exists>ty. PostResult ty r \<in> set (dm_posted s)))"

lemma analyze_page_fields:
  "dm_running (snd (analyze_page anl args s)) = dm_running s"
  "dm_listener (snd (analyze_page anl args s)) = dm_listener s"
  "dm_api (snd (analyze_page anl args s)) = dm_api s"
  "dm_cuga_api (snd (analyze_page anl args s)) = dm_cuga_api s"
  "dm_current (snd (analyze_page anl args s)) = dm_current s"
  "dm_posted (snd (analyze_page anl args s)) = dm_posted s"
  by (simp_all add: analyze_page_def module_clear_def Let_def split: prod.split)

lemma run_command_inv: "module_inv s \<Longrightarrow> module_inv (run_command anl ty args s)"
proof -
  assume i: "module_inv s"
  obtain r s1 where a: "analyze_page anl args s = (r, s1)" by fastforce
  then have f: "dm_running s1 = dm_running s" "dm_listener s1 = dm_listener s" "dm_api s1 = dm_api s"
    "dm_cuga_api s1 = dm_cuga_api s" "dm_current s1 = dm_current s" "dm_posted s1 = dm_posted s"
    using analyze_page_fields [of anl args s] by simp_all
  show ?thesis using i
    by (cases r) (auto simp: run_command_def a module_inv_def post_def f)
qed

lemma clear_inv: "module_inv s \<Longrightarrow> module_inv (module_clear s)"
  by (simp add: module_inv_def module_clear_def)

lemma message_inv: "module_inv s \<Longrightarrow> module_inv (handle_message anl fw data s)"
proof -
  assume i: "module_inv s"
  have "module_inv (handle_analyze_command anl args s)" "module_inv (handle_highlight_command anl args s)" for args
    using run_command_inv [OF i] by (simp_all add: handle_analyze_command_def handle_highlight_command_def)
  moreover have "module_inv (send_current_result s)"
    using i by (auto simp: send_current_result_def module_inv_def post_def)
  ultimately show ?thesis using i clear_inv [OF i] by (simp add: handle_message_def Let_def)
qed

lemma step_inv: "module_step anl s s' \<Longrightarrow> module_inv s \<Longrightarrow> module_inv s'"
proof (induction rule: module_step.induct)
  case (start s loading)
  then show ?case by (simp add: module_start_def expose_global_api_def module_inv_def Let_def)
next
  case (stop s)
  then show ?case by (simp add: module_stop_def remove_global_api_def module_clear_def module_inv_def)
next
  case (loaded s)
  then show ?case by (simp add: module_loaded_def expose_global_api_def module_inv_def)
next
  case (message s fw data)
  then show ?case by (simp add: message_inv)
next
  case (analyse s args)
  then show ?case unfolding module_inv_def analyze_page_fields by blast
next
  case (clear s)
  then show ?case by (simp add: clear_inv)
qed

text \<open>
  In every state the window can reach, the message listener is registered exactly
  while the module runs, and the result the module would send is one it has posted.
\<close>

theorem module_listener_iff_running:
  assumes "module_reachable anl w s"
  shows "dm_listener s = dm_running s
     \<and> (\<forall>r. dm_current s = Some r \<longrightarrow> (\<exists>ty. PostResult ty r \<in> set (dm_posted s)))"
proof -
  have "module_inv s"
    using assms unfolding module_reachable_def
  proof (induction rule: rtranclp_induct)
    case base
    then show ?case by (simp add: module_inv_def module_init_def)
  next
    case (step s s')
    then show ?case by (blast intro: step_inv)
  qed
  then show ?thesis by (simp add: module_inv_def)
qed

theorem module_listener_iff_running_witness:
  "dm_listener (module_stop (module_start False (module_init demo_window))) = False"
proof -
  let ?b = "page_analysis demo_tree_env (0, 0) demo_body"
  have "module_step ?b (module_init demo_window) (module_start False (module_init demo_window))"
    by (rule start)
  moreover have "module_step ?b (module_start False (module_init demo_window))
      (module_stop (module_start False (module_init demo_window)))" by (rule stop)
  ultimately have "module_reachable ?b demo_window (module_stop (module_start False (module_init demo_window)))"
    unfolding module_reachable_def by (meson converse_rtranclp_into_rtranclp rtranclp.rtrancl_refl)
  from module_listener_iff_running [OF this] show ?thesis
    by (simp add: module_stop_def module_start_def module_init_def expose_global_api_def remove_global_api_def module_clear_def Let_def)
qed

text \<open>
  Stopping does not undo starting: the second name of the API, \<open>CUGA_DOMTreeAPI\<close>,
  stays on the window, and a module stopped before the document has loaded exposes both
  names once it loads, without running.
\<close>

theorem module_stop_leaves_api:
  assumes "\<not> dm_running s"
  shows "dm_cuga_api (module_stop (module_start False s))
     \<and> \<not> dm_api (module_stop (module_start False s))
     \<and> dm_api (module_loaded (module_stop (module_start True s)))
     \<and> \<not> dm_running (module_loaded (module_stop (module_start True s)))"
  using assms
  by (simp add: module_stop_def module_start_def module_loaded_def expose_global_api_def remove_global_api_def
      module_clear_def Let_def)

theorem module_stop_leaves_api_witness:
  "dm_cuga_api (module_stop (module_start False (module_init demo_window)))"
  using module_stop_leaves_api [of "module_init demo_window"] by (simp add: module_init_def)

section \<open>Clearing before drawing\<close>

lemma highlight_element_extends:
  "\<exists>new. hp_drawn (snd (highlight_element env A me i idx f hp)) = hp_drawn hp @ new"
  by (auto simp: highlight_element_def Let_def split: prod.split)

lemma handle_extends:
  assumes "handle_highlighting te A pc e k d f ph s = (hl, s')"
  shows "\<exists>new. hp_drawn (ph_page s') = hp_drawn (ph_page s) @ new"
proof -
  obtain sh c1 where sh: "(if \<not> ph then (True, ph_cache s)
               else is_element_distinct_interaction te A (ph_cache s) e) = (sh, c1)" by fastforce
  obtain v c2 where v: "is_in_expanded_viewport te (pc_expansion pc) c1 (nid e) = (v, c2)" by fastforce
  show ?thesis
    using assms sh v highlight_element_extends [of "te_page te" A "pc_measured pc" "nid e" "ph_index s" f "ph_page s"]
    by (auto simp: handle_highlighting_def Let_def split: if_splits)
qed

lemma highlight_loop_extends:
  "\<exists>new. hp_drawn (ph_page (highlight_loop te A pc lb cs s)) = hp_drawn (ph_page s) @ new"
proof (induction te A pc lb cs s rule: highlight_loop.induct)
  case (1 te A pc lb s)
  then show ?case by simp
next
  case (2 te A pc lb e j f cs s)
  show ?case
  proof (cases "lookup_elem (ph_map s) j")
    case None
    then show ?thesis using 2 by simp
  next
    case (Some d)
    show ?thesis
    proof (cases "case lb of Some l \<Rightarrow> \<not> is_listbox_related_element te A (nid e) l | None \<Rightarrow> False")
      case True
      then show ?thesis using 2 Some by simp
    next
      case False
      define ph where "ph = (case parent_element (te_roots te) (nid e) of
          Some p \<Rightarrow> p \<in> set (ph_highlighted s) | None \<Rightarrow> False)"
      obtain hl s1 where h: "handle_highlighting te A pc e j d f ph s = (hl, s1)" by fastforce
      define s2 where "s2 = (if hl then s1\<lparr>ph_highlighted := ph_highlighted s1 @ [nid e]\<rparr> else s1)"
      obtain n1 where n1: "hp_drawn (ph_page s1) = hp_drawn (ph_page s) @ n1"
        using handle_extends [OF h] by blast
      obtain n2 where "hp_drawn (ph_page (highlight_loop te A pc lb cs s2)) = hp_drawn (ph_page s2) @ n2"
        using "2.IH"(3) [OF Some False ph_def h [symmetric] refl s2_def] by blast
      then have "hp_drawn (ph_page (highlight_loop te A pc lb cs s2)) = hp_drawn (ph_page s) @ (n1 @ n2)"
        using n1 by (simp add: s2_def)
      moreover have "highlight_loop te A pc lb ((e, j, f) # cs) s = highlight_loop te A pc lb cs s2"
        using Some False h by (simp add: ph_def [symmetric] s2_def Let_def)
      ultimately show ?thesis by metis
    qed
  qed
qed

lemma build_extends:
  "\<exists>new. hp_drawn (ws_page (snd (build_dom_tree te me body args w))) = hp_drawn (ws_page w) @ new"
proof -
  let ?pc = "conf_of_args me args"
  obtain r s where b: "build te (pc_expansion ?pc) None body (fresh_dt w) = (r, s)" by fastforce
  let ?A = "cs_attrs (dt_coll s)"
  let ?h = "\<lparr>ph_index = 0, ph_map = dt_map s, ph_cache = cs_cache (dt_coll s), ph_page = ws_page w,
      ph_highlighted = []\<rparr>"
  have "ws_page (snd (build_dom_tree te me body args w)) =
      ph_page (highlight_loop te ?A ?pc (find_active_listbox ?A (ph_map ?h) (dt_nodes s)) (dt_nodes s) ?h)"
    using b by (simp add: build_dom_tree_def run_build_def highlight_def Let_def)
  then show ?thesis
    using highlight_loop_extends [of te ?A ?pc _ "dt_nodes s" ?h] by simp
qed

text \<open>
  An analysis whose arguments ask for highlighting first clears the page, so only its
  own drawings are left; an analysis whose arguments do not say draws too, by the default of
  \<open>buildDomTree\<close>, but clears nothing, and the drawings of the runs before stay.
\<close>

theorem analyze_page_clears:
  assumes run: "analyze_page (page_analysis te me body) args s = (r, s')"
  shows "(\<exists>new. hp_drawn (ws_page (dm_window s')) =
      (if truthy (fld args ''doHighlightElements'') then [] else hp_drawn (ws_page (dm_window s))) @ new)
     \<and> (fld args ''doHighlightElements'' = JUndef \<longrightarrow> pc_draw (conf_of_args me args))"
proof
  let ?a = "with_default args (JObj [])"
  define s1 where "s1 = (if truthy (fld ?a ''doHighlightElements'') then module_clear s else s)"
  have f: "fld ?a ''doHighlightElements'' = fld args ''doHighlightElements''"
    by (simp add: with_default_def)
  have w: "dm_window s' = snd (build_dom_tree te me body ?a (dm_window s1))"
    using run by (auto simp: analyze_page_def page_analysis_def Let_def s1_def split: prod.splits)
  have "hp_drawn (ws_page (dm_window s1)) =
     (if truthy (fld args ''doHighlightElements'') then [] else hp_drawn (ws_page (dm_window s)))"
    by (simp add: s1_def f module_clear_def clear_highlights_def)
  then show "\<exists>new. hp_drawn (ws_page (dm_window s')) =
     (if truthy (fld args ''doHighlightElements'') then [] else hp_drawn (ws_page (dm_window s))) @ new"
    using build_extends [of te me body ?a "dm_window s1"] unfolding w by simp
  show "fld args ''doHighlightElements'' = JUndef \<longrightarrow> pc_draw (conf_of_args me args)"
    by (simp add: conf_of_args_def with_default_def)
qed

theorem analyze_page_clears_witness:
  "\<exists>new. hp_drawn (ws_page (dm_window (snd (analyze_page (page_analysis demo_tree_env (0, 0) demo_body)
      (JObj [(''doHighlightElements'', JBool True)]) (module_init demo_window))))) = [] @ new"
  using analyze_page_clears [OF prod.collapse [symmetric], of demo_tree_env "(0, 0)" demo_body
      "JObj [(''doHighlightElements'', JBool True)]" "module_init demo_window"]
  by simp

end
