(* ===== verification/Chrome_Io.thy ===== *)
theory Chrome_Io
  imports Js_Value
begin

text \<open>
  Asynchronous code against the browser's extension API.  A computation awaits calls one
  after the other; each is answered by the browser, an argument of the model that may look
  at all calls made before, with a value or with a thrown error.  The calls made are
  the trace the theorems speak of.
\<close>

datatype call =
    TabsQuery
  | TabsGet jv
  | TabsSend jv jv               \<comment> \<open>\<open>tabs.sendMessage(tabId, message)\<close>\<close>
  | Ping jv string               \<comment> \<open>a ping with a time limit, and the error when it is reached\<close>
  | Debugger jv string jv        \<comment> \<open>\<open>debugger.sendCommand({tabId}, method, params)\<close>\<close>
  | DebuggerAttach jv
  | RuntimeSend jv               \<comment> \<open>\<open>runtime.sendMessage(message)\<close>\<close>
  | Fetch string jv              \<comment> \<open>a POST of a JSON body\<close>
  | Wait nat                     \<comment> \<open>an awaited timeout\<close>
  | Schedule jv jv               \<comment> \<open>a timer set and not awaited: delay and tab\<close>

record chrome =
  ch_answer :: "call list \<Rightarrow> call \<Rightarrow> exn + jv"
  ch_num :: "rat \<Rightarrow> string"
  ch_now :: rat

type_synonym 'a io = "call list \<Rightarrow> (exn + 'a) \<times> call list"

definition ret :: "'a \<Rightarrow> 'a io" where "ret x t = (Inr x, t)"
definition throw :: "exn \<Rightarrow> 'a io" where "throw e t = (Inl e, t)"

definition io_bind :: "'a io \<Rightarrow> ('a \<Rightarrow> 'b io) \<Rightarrow> 'b io" where
  "io_bind m f t = (case m t of (Inl e, t1) \<Rightarrow> (Inl e, t1) | (Inr x, t1) \<Rightarrow> f x t1)"

definition io_catch :: "'a io \<Rightarrow> (exn \<Rightarrow> 'a io) \<Rightarrow> 'a io" where
  "io_catch m h t = (case m t of (Inl e, t1) \<Rightarrow> h e t1 | (Inr x, t1) \<Rightarrow> (Inr x, t1))"

definition lift_exn :: "exn + 'a \<Rightarrow> 'a io" where
  "lift_exn r t = (r, t)"

definition await_call :: "chrome \<Rightarrow> call \<Rightarrow> jv io" where
  "await_call ch c t = (ch_answer ch t c, t @ [c])"

text \<open>A timer is set and, for \<open>Wait\<close>, has gone off: neither throws.\<close>

definition note_call :: "call \<Rightarrow> unit io" where
  "note_call c t = (Inr (), t @ [c])"

section \<open>Rules\<close>


text \<open>Computations that only use calls of a kind, and those that never throw.\<close>

definition only_calls :: "(call \<Rightarrow> bool) \<Rightarrow> 'a io \<Rightarrow> bool" where
  "only_calls P m \<longleftrightarrow> (\<forall>t r t'. m t = (r, t') \<longrightarrow> (\<exists>new. t' = t @ new \<and> (\<forall>c \<in> set new. P c)))"

definition no_throw :: "'a io \<Rightarrow> bool" where
  "no_throw m \<longleftrightarrow> (\<forall>t. \<exists>x t'. m t = (Inr x, t'))"

named_theorems io_rules

lemma only_ret [io_rules]: "only_calls P (ret x)"
  by (simp add: only_calls_def ret_def)

lemma only_throw [io_rules]: "only_calls P (throw e)"
  by (simp add: only_calls_def throw_def)

lemma only_lift [io_rules]: "only_calls P (lift_exn r)"
  by (simp add: only_calls_def lift_exn_def)

lemma only_await [io_rules]: "P c \<Longrightarrow> only_calls P (await_call ch c)"
  by (simp add: only_calls_def await_call_def)

lemma only_note [io_rules]: "P c \<Longrightarrow> only_calls P (note_call c)"
  by (simp add: only_calls_def note_call_def)

lemma only_bind [io_rules]:
  assumes "only_calls P m" "\<And>x. only_calls P (f x)"
  shows "only_calls P (io_bind m f)"
  unfolding only_calls_def
proof (intro allI impI)
  fix t r t' assume run: "io_bind m f t = (r, t')"
  obtain q t1 where m: "m t = (q, t1)" by fastforce
  obtain n1 where n1: "t1 = t @ n1" "\<forall>c \<in> set n1. P c"
    using assms(1) m unfolding only_calls_def by blast
  show "\<exists>new. t' = t @ new \<and> (\<forall>c \<in> set new. P c)"
  proof (cases q)
    case (Inl e)
    then show ?thesis using run m n1 by (auto simp: io_bind_def)
  next
    case (Inr x)
    then have "f x t1 = (r, t')" using run m by (simp add: io_bind_def)
    then obtain n2 where "t' = t1 @ n2" "\<forall>c \<in> set n2. P c"
      using assms(2) unfolding only_calls_def by blast
    then show ?thesis using n1 by (intro exI [of _ "n1 @ n2"]) auto
  qed
qed

lemma only_catch [io_rules]:
  assumes "only_calls P m" "\<And>e. only_calls P (h e)"
  shows "only_calls P (io_catch m h)"
  unfolding only_calls_def
proof (intro allI impI)
  fix t r t' assume run: "io_catch m h t = (r, t')"
  obtain q t1 where m: "m t = (q, t1)" by fastforce
  obtain n1 where n1: "t1 = t @ n1" "\<forall>c \<in> set n1. P c"
    using assms(1) m unfolding only_calls_def by blast
  show "\<exists>new. t' = t @ new \<and> (\<forall>c \<in> set new. P c)"
  proof (cases q)
    case (Inr e)
    then show ?thesis using run m n1 by (auto simp: io_catch_def)
  next
    case (Inl x)
    then have "h x t1 = (r, t')" using run m by (simp add: io_catch_def)
    then obtain n2 where "t' = t1 @ n2" "\<forall>c \<in> set n2. P c"
      using assms(2) unfolding only_calls_def by blast
    then show ?thesis using n1 by (intro exI [of _ "n1 @ n2"]) auto
  qed
qed

lemma only_weaken: "only_calls P m \<Longrightarrow> (\<And>c. P c \<Longrightarrow> Q c) \<Longrightarrow> only_calls Q m"
  unfolding only_calls_def by meson

lemma no_throw_ret [io_rules]: "no_throw (ret x)"
  by (simp add: no_throw_def ret_def)

lemma no_throw_catch [io_rules]:
  assumes "\<And>e. no_throw (h e)"
  shows "no_throw (io_catch m h)"
  unfolding no_throw_def
proof
  fix t
  obtain q t1 where "m t = (q, t1)" by fastforce
  then show "\<exists>x t'. io_catch m h t = (Inr x, t')"
    using assms unfolding no_throw_def by (cases q) (auto simp: io_catch_def)
qed

lemma no_throw_bind [io_rules]:
  assumes "no_throw m" "\<And>x. no_throw (f x)"
  shows "no_throw (io_bind m f)"
  unfolding no_throw_def
proof
  fix t
  obtain x t1 where m: "m t = (Inr x, t1)" using assms(1) unfolding no_throw_def by blast
  obtain y t2 where "f x t1 = (Inr y, t2)" using assms(2) unfolding no_throw_def by blast
  then show "\<exists>x t'. io_bind m f t = (Inr x, t')" using m by (simp add: io_bind_def)
qed

text \<open>Running a computation that ended well.\<close>

lemma bind_Inr: "io_bind m f t = (Inr y, t') \<longleftrightarrow> (\<exists>x t1. m t = (Inr x, t1) \<and> f x t1 = (Inr y, t'))"
  by (auto simp: io_bind_def split: prod.splits sum.splits)

lemma ret_Inr [simp]: "ret x t = (Inr y, t') \<longleftrightarrow> y = x \<and> t' = t"
  by (auto simp: ret_def)

lemma throw_Inr [simp]: "throw e t \<noteq> (Inr y, t')"
  by (simp add: throw_def)

lemma await_Inr [simp]: "await_call ch c t = (Inr y, t') \<longleftrightarrow> ch_answer ch t c = Inr y \<and> t' = t @ [c]"
  by (auto simp: await_call_def)

lemma note_Inr [simp]: "note_call c t = (Inr y, t') \<longleftrightarrow> t' = t @ [c]"
  by (auto simp: note_call_def)

text \<open>Running a computation that threw.\<close>

lemma bind_Inl: "io_bind m f t = (Inl e, t') \<longleftrightarrow>
    m t = (Inl e, t') \<or> (\<exists>x t1. m t = (Inr x, t1) \<and> f x t1 = (Inl e, t'))"
  by (auto simp: io_bind_def split: prod.splits sum.splits)

lemma catch_Inl: "io_catch m h t = (Inl e, t') \<longleftrightarrow> (\<exists>d t1. m t = (Inl d, t1) \<and> h d t1 = (Inl e, t'))"
  by (auto simp: io_catch_def split: prod.splits sum.splits)

lemma throw_Inl [simp]: "throw d t = (Inl e, t') \<longleftrightarrow> e = d \<and> t' = t"
  by (auto simp: throw_def)

lemma note_Inl [simp]: "note_call c t \<noteq> (Inl e, t')"
  by (simp add: note_call_def)

lemma lift_Inr [simp]: "lift_exn r t = (Inr y, t') \<longleftrightarrow> r = Inr y \<and> t' = t"
  by (auto simp: lift_exn_def)

end
