(* ===== verification/Http_Stream.thy ===== *)
theory Http_Stream
  imports Chrome_Io
begin

text \<open>
  The background worker that executes the backend's commands in the active tab
  (\<open>worker/http.stream.module.ts\<close>): one handler per command, over the DevTools
  protocol and the content script.
\<close>

definition str :: "chrome \<Rightarrow> jv \<Rightarrow> string" where
  "str ch v = js_to_string (ch_num ch) v"

definition success_obj :: "(string \<times> jv) list \<Rightarrow> jv" where
  "success_obj fs = JObj ((''type'', JStr ''success'') # fs)"

definition error_obj :: "string \<Rightarrow> jv" where
  "error_obj m = JObj [(''type'', JStr ''error''), (''message'', JStr m)]"

section \<open>The tab, its content script and its debugger\<close>

definition get_active_tab :: "chrome \<Rightarrow> jv io" where
  "get_active_tab ch =
     io_bind (await_call ch TabsQuery) (\<lambda>tabs.
     io_bind (lift_exn (js_index tabs 0)) (\<lambda>tab.
     ret (js_or tab JNull)))"

definition require_active_tab :: "chrome \<Rightarrow> jv io" where
  "require_active_tab ch =
     io_bind (get_active_tab ch) (\<lambda>tab.
     if \<not> truthy tab then throw ''No active tab found'' else ret tab)"

text \<open>A ping: the error of the runtime or of the time limit, or the check of the answer.\<close>

definition ping_script :: "chrome \<Rightarrow> jv \<Rightarrow> string \<Rightarrow> string \<Rightarrow> unit io" where
  "ping_script ch tab timeout invalid =
     io_bind (await_call ch (Ping tab timeout)) (\<lambda>response.
     if truthy response \<and> fld response ''type'' = JStr ''pong'' then ret () else throw invalid)"

definition restricted_url :: "string \<Rightarrow> bool" where
  "restricted_url u \<longleftrightarrow> prefix ''chrome://'' u \<or> prefix ''chrome-extension://'' u"

definition check_tab :: "chrome \<Rightarrow> jv \<Rightarrow> unit io" where
  "check_tab ch tab_id =
     io_bind (await_call ch (TabsGet tab_id)) (\<lambda>tab.
     if \<not> truthy tab then throw ''Cannot inject content script into restricted page''
     else case fld tab ''url'' of
            JStr u \<Rightarrow> if restricted_url u then throw ''Cannot inject content script into restricted page''
                      else ret ()
          | v \<Rightarrow> throw (type_error v ''startsWith''))"

definition ensure_content_script_injected :: "chrome \<Rightarrow> jv \<Rightarrow> unit io" where
  "ensure_content_script_injected ch tab_id =
     io_catch
       (io_bind (check_tab ch tab_id) (\<lambda>_.
        ping_script ch tab_id ''Content script ping timeout'' ''Invalid ping response''))
       (\<lambda>_. io_bind (note_call (Wait 1000)) (\<lambda>_.
        io_catch
          (ping_script ch tab_id ''Content script verification timeout''
             ''Content script injection verification failed'')
          (\<lambda>e. throw (''Content script not available: '' @ e))))"

definition includes_attached :: "string \<Rightarrow> bool" where
  "includes_attached m \<longleftrightarrow> includes_str m ''already attached'' \<or> includes_str m ''Already attached''"

definition ensure_debugger_attached :: "chrome \<Rightarrow> jv \<Rightarrow> unit io" where
  "ensure_debugger_attached ch tab_id =
     io_catch (io_bind (await_call ch (DebuggerAttach tab_id)) (\<lambda>_. ret ()))
       (\<lambda>e. if includes_attached e then ret ()
            else throw ''Chrome debugger not attached and could not attach'')"

definition get_element_rect :: "chrome \<Rightarrow> jv \<Rightarrow> jv \<Rightarrow> jv io" where
  "get_element_rect ch tab_id bid =
     io_catch
       (io_bind (ensure_content_script_injected ch tab_id) (\<lambda>_.
        io_bind (await_call ch (TabsSend tab_id (JObj [(''type'', JStr ''get_element_rect''), (''bid'', bid)]))) (\<lambda>response.
        ret (if truthy response \<and> fld response ''type'' = JStr ''success'' \<and> truthy (fld response ''data'')
             then fld response ''data'' else JNull))))
       (\<lambda>_. ret JNull)"

definition bid_query :: "string \<Rightarrow> string" where
  "bid_query bid = ''[dom-tree-id='' @ [CHR 0x22] @ bid @ [CHR 0x22] @ '']''"

definition find_element_by_dom_tree_id :: "chrome \<Rightarrow> jv \<Rightarrow> jv \<Rightarrow> jv io" where
  "find_element_by_dom_tree_id ch tab_id bid =
     io_bind (await_call ch (Debugger tab_id ''DOM.getDocument'' JUndef)) (\<lambda>_.
     io_bind (await_call ch (Debugger tab_id ''DOM.performSearch''
       (JObj [(''query'', JStr (bid_query (str ch bid)))]))) (\<lambda>found.
     io_bind (lift_exn (get_prop found ''searchId'')) (\<lambda>search_id.
     if \<not> truthy search_id then throw ''Search failed''
     else
       io_bind (await_call ch (Debugger tab_id ''DOM.getSearchResults''
         (JObj [(''searchId'', search_id), (''fromIndex'', JNum 0), (''toIndex'', JNum 1)]))) (\<lambda>results.
       io_bind (await_call ch (Debugger tab_id ''DOM.discardSearchResults''
         (JObj [(''searchId'', search_id)]))) (\<lambda>_.
       io_bind (lift_exn (get_prop results ''nodeIds'')) (\<lambda>ids.
       if \<not> truthy ids \<or> fld ids ''length'' = JNum 0 then ret JNull
       else lift_exn (js_index ids 0)))))))"

section \<open>Browser commands\<close>

definition mouse_event :: "string \<Rightarrow> rat \<Rightarrow> rat \<Rightarrow> jv \<Rightarrow> jv" where
  "mouse_event ty x y button =
     JObj [(''type'', JStr ty), (''x'', JNum x), (''y'', JNum y), (''button'', button), (''clickCount'', JNum 1)]"

text \<open>The position of the first \<open>"for"\<close> in the flat list of names and values.\<close>

definition label_target :: "chrome \<Rightarrow> jv \<Rightarrow> jv \<Rightarrow> jv io" where
  "label_target ch tab_id node_id =
     io_catch
       (io_bind (await_call ch (Debugger tab_id ''DOM.describeNode'' (JObj [(''nodeId'', node_id)]))) (\<lambda>info.
        let node = opt_prop info ''node'';
            name = opt_prop node ''nodeName'';
            attrs = js_nullor (opt_prop node ''attributes'') (JArr [])
        in case (name, attrs) of
             (JStr n, JArr al) \<Rightarrow>
               if n \<noteq> [] \<and> to_lower n = ''label'' \<and> al \<noteq> []
               then (case find_index (\<lambda>v. v = JStr ''for'') al of
                  Some k \<Rightarrow>
                    if k + 1 < length al \<and> truthy (al ! (k + 1))
                    then io_bind (await_call ch (Debugger tab_id ''DOM.getDocument'' JUndef)) (\<lambda>doc.
                         io_bind (lift_exn (try_bind (get_prop doc ''root'') (\<lambda>r. get_prop r ''nodeId''))) (\<lambda>root_id.
                         io_bind (await_call ch (Debugger tab_id ''DOM.querySelector''
                           (JObj [(''nodeId'', root_id), (''selector'', JStr (''#'' @ str ch (al ! (k + 1))))]))) (\<lambda>res.
                         ret (if truthy res \<and> truthy (fld res ''nodeId'') then fld res ''nodeId'' else node_id))))
                    else ret node_id
                | None \<Rightarrow> ret node_id)
               else ret node_id
           | _ \<Rightarrow> ret node_id))
       (\<lambda>_. ret node_id)"

definition rect_center :: "jv \<Rightarrow> rat \<times> rat" where
  "rect_center r =
     (of_int (js_round (js_num (fld r ''left'') + js_num (fld r ''width'') / 2)),
      of_int (js_round (js_num (fld r ''top'') + js_num (fld r ''height'') / 2)))"

text \<open>The centre of the border quad, \<open>[xTL, yTL, xTR, yTR, xBR, yBR, xBL, yBL]\<close>.\<close>

definition border_center :: "jv list \<Rightarrow> rat \<times> rat" where
  "border_center b =
     (let co = (\<lambda>k. if k < length b then js_num (b ! k) else 0);
          xs = [co 0, co 2, co 4, co 6]; ys = [co 1, co 3, co 5, co 7]
      in (of_int (js_round ((foldr min (tl xs) (hd xs) + foldr max (tl xs) (hd xs)) / 2)),
          of_int (js_round ((foldr min (tl ys) (hd ys) + foldr max (tl ys) (hd ys)) / 2))))"

definition click_center :: "jv \<Rightarrow> jv \<Rightarrow> exn + rat \<times> rat" where
  "click_center rect model =
     (if truthy rect then Inr (rect_center rect)
      else case fld model ''border'' of
             JArr b \<Rightarrow> Inr (border_center b)
           | v \<Rightarrow> if nullish v then Inl (type_error v ''0'') else Inr (border_center []))"

definition press_and_release :: "chrome \<Rightarrow> jv \<Rightarrow> rat \<times> rat \<Rightarrow> jv \<Rightarrow> jv io" where
  "press_and_release ch tab_id p button =
     io_bind (await_call ch (Debugger tab_id ''Input.dispatchMouseEvent''
       (mouse_event ''mousePressed'' (fst p) (snd p) button))) (\<lambda>_.
     io_bind (await_call ch (Debugger tab_id ''Input.dispatchMouseEvent''
       (mouse_event ''mouseReleased'' (fst p) (snd p) button))) (\<lambda>_.
     ret (JObj [(''success'', JBool True),
       (''position'', JObj [(''x'', JNum (fst p)), (''y'', JNum (snd p))])])))"

definition handle_click_command :: "chrome \<Rightarrow> jv \<Rightarrow> jv io" where
  "handle_click_command ch args =
     io_bind (require_active_tab ch) (\<lambda>tab.
     io_bind (lift_exn (get_prop args ''bid'')) (\<lambda>bid.
     let button = with_default (fld args ''button'') (JStr ''left''); tab_id = fld tab ''id'' in
     if \<not> truthy bid then throw ''BID is required for click command''
     else
       io_bind (find_element_by_dom_tree_id ch tab_id bid) (\<lambda>node.
       if \<not> truthy node
       then throw (''Element with BID '' @ [CHR 0x27] @ str ch bid @ [CHR 0x27] @ '' not found'')
       else
         io_bind (label_target ch tab_id node) (\<lambda>node_id.
         io_bind (await_call ch (Debugger tab_id ''DOM.getBoxModel'' (JObj [(''nodeId'', node_id)]))) (\<lambda>box.
         if \<not> truthy box \<or> \<not> truthy (fld box ''model'') then throw ''Could not get element bounding box''
         else
           io_bind (get_element_rect ch tab_id bid) (\<lambda>rect.
           io_bind (lift_exn (click_center rect (fld box ''model''))) (\<lambda>p.
           press_and_release ch tab_id p button)))))))"

definition key_event :: "string \<Rightarrow> char \<Rightarrow> jv" where
  "key_event ty c = JObj [(''type'', JStr ty), (''text'', JStr [c]), (''key'', JStr [c]),
     (''code'', JStr (''Key'' @ [upper_char c]))]"

definition named_key :: "string \<Rightarrow> rat \<Rightarrow> string \<Rightarrow> jv" where
  "named_key ty vk k = JObj [(''type'', JStr ty), (''windowsVirtualKeyCode'', JNum vk),
     (''code'', JStr k), (''key'', JStr k)]"

definition send_key :: "chrome \<Rightarrow> jv \<Rightarrow> jv \<Rightarrow> unit io" where
  "send_key ch tab_id ev =
     io_bind (await_call ch (Debugger tab_id ''Input.dispatchKeyEvent'' ev)) (\<lambda>_. ret ())"

fun type_chars :: "chrome \<Rightarrow> jv \<Rightarrow> string \<Rightarrow> unit io" where
  "type_chars ch tab_id [] = ret ()"
| "type_chars ch tab_id (c # cs) =
     io_bind (send_key ch tab_id (key_event ''keyDown'' c)) (\<lambda>_.
     io_bind (send_key ch tab_id (key_event ''keyUp'' c)) (\<lambda>_.
     io_bind (note_call (Wait 10)) (\<lambda>_.
     type_chars ch tab_id cs)))"

text \<open>
  The characters of the value; a value without a \<open>length\<close>, as a number, types none
  (an array in place of a string is not modelled).
\<close>

definition typed_text :: "jv \<Rightarrow> string" where
  "typed_text v = (case v of JStr s \<Rightarrow> s | _ \<Rightarrow> [])"

definition handle_type_command :: "chrome \<Rightarrow> jv \<Rightarrow> jv io" where
  "handle_type_command ch args =
     io_bind (require_active_tab ch) (\<lambda>tab.
     io_bind (lift_exn (get_prop args ''bid'')) (\<lambda>bid.
     let val = fld args ''value''; press_enter = with_default (fld args ''press_enter'') (JBool False);
         tab_id = fld tab ''id'' in
     if \<not> truthy bid then throw ''BID is required for type command''
     else if \<not> truthy val then throw ''Value is required for type command''
     else
       io_bind (find_element_by_dom_tree_id ch tab_id bid) (\<lambda>node.
       if \<not> truthy node
       then throw (''Element with BID '' @ [CHR 0x27] @ str ch bid @ [CHR 0x27] @ '' not found'')
       else
         io_bind (await_call ch (Debugger tab_id ''DOM.focus'' (JObj [(''nodeId'', node)]))) (\<lambda>_.
         io_bind (send_key ch tab_id (named_key ''keyDown'' 46 ''Delete'')) (\<lambda>_.
         io_bind (type_chars ch tab_id (typed_text val)) (\<lambda>_.
         io_bind (if truthy press_enter
                  then io_bind (send_key ch tab_id (named_key ''keyDown'' 13 ''Enter''))
                         (\<lambda>_. send_key ch tab_id (named_key ''keyUp'' 13 ''Enter''))
                  else ret ()) (\<lambda>_.
         ret (JObj [(''success'', JBool True), (''value'', val), (''press_enter'', press_enter)]))))))))"

definition handle_add_animation :: "chrome \<Rightarrow> jv \<Rightarrow> jv io" where
  "handle_add_animation ch args =
     io_bind (require_active_tab ch) (\<lambda>tab.
     io_bind (ensure_content_script_injected ch (fld tab ''id'')) (\<lambda>_.
     io_bind (lift_exn (get_prop args ''bid'')) (\<lambda>bid.
     await_call ch (TabsSend (fld tab ''id'') (JObj [(''type'', JStr ''add_animation''), (''bid'', bid),
       (''iconType'', fld args ''icon_type''), (''bannerText'', fld args ''banner_text'')])))))"

definition handle_select_option :: "chrome \<Rightarrow> jv \<Rightarrow> jv io" where
  "handle_select_option ch args =
     io_bind (require_active_tab ch) (\<lambda>tab.
     io_bind (ensure_content_script_injected ch (fld tab ''id'')) (\<lambda>_.
     io_bind (lift_exn (get_prop args ''bid'')) (\<lambda>bid.
     await_call ch (TabsSend (fld tab ''id'') (JObj [(''type'', JStr ''select_option''), (''bid'', bid),
       (''options'', fld args ''options'')])))))"

text \<open>\<open>e.message || String(e)\<close>.\<close>

definition err_text :: "exn \<Rightarrow> string" where
  "err_text e = (if e \<noteq> [] then e else ''Error'')"

definition handle_browser_command :: "chrome \<Rightarrow> jv \<Rightarrow> jv \<Rightarrow> jv io" where
  "handle_browser_command ch command args =
     io_catch
       (if command = JStr ''click'' then handle_click_command ch args
        else if command = JStr ''type'' then handle_type_command ch args
        else if command = JStr ''add_animation'' then handle_add_animation ch args
        else if command = JStr ''select_option'' then handle_select_option ch args
        else ret (error_obj (''Unknown browser command: '' @ str ch command)))
       (\<lambda>e. ret (error_obj (err_text e)))"

section \<open>Extraction commands\<close>

text \<open>The shape the extraction handlers share: an error of any step is the reply.\<close>

definition with_tab :: "chrome \<Rightarrow> (jv \<Rightarrow> jv io) \<Rightarrow> jv io" where
  "with_tab ch body = io_catch (io_bind (require_active_tab ch) body) (\<lambda>e. ret (error_obj e))"

text \<open>Ask the content script, after making sure it is there.\<close>

definition ask_script :: "chrome \<Rightarrow> jv \<Rightarrow> exn + jv \<Rightarrow> jv io" where
  "ask_script ch tab_id message =
     io_bind (ensure_content_script_injected ch tab_id) (\<lambda>_.
     io_bind (lift_exn message) (\<lambda>m. await_call ch (TabsSend tab_id m)))"

definition handle_mark_elements :: "chrome \<Rightarrow> jv \<Rightarrow> jv io" where
  "handle_mark_elements ch data =
     with_tab ch (\<lambda>tab.
       io_bind (ask_script ch (fld tab ''id'')
         (try_bind (get_prop data ''frameId'') (\<lambda>frame_id.
            Inr (JObj [(''type'', JStr ''mark_elements''),
              (''data'', JObj [(''frameId'', js_or frame_id (JStr [])),
                 (''bidAttribute'', js_or (fld data ''bid_attribute'') (JStr ''dom-tree-id'')),
                 (''tagsToMark'', js_or (fld data ''tags_to_mark'') (JStr ''standard_html''))])])))) (\<lambda>response.
       io_bind (lift_exn (get_prop response ''warnings'')) (\<lambda>w.
       ret (success_obj [(''warnings'', js_or w (JArr []))]))))"

definition handle_unmark_elements :: "chrome \<Rightarrow> jv io" where
  "handle_unmark_elements ch =
     with_tab ch (\<lambda>tab.
       io_bind (ask_script ch (fld tab ''id'') (Inr (JObj [(''type'', JStr ''unmark_elements'')]))) (\<lambda>_.
       ret (success_obj [])))"

definition not_false :: "jv \<Rightarrow> jv" where
  "not_false v = JBool (v \<noteq> JBool False)"

definition handle_extract_dom_snapshot :: "chrome \<Rightarrow> jv \<Rightarrow> jv io" where
  "handle_extract_dom_snapshot ch data =
     with_tab ch (\<lambda>tab.
       io_bind (ensure_debugger_attached ch (fld tab ''id'')) (\<lambda>_.
       io_bind (lift_exn (get_prop data ''computed_styles'')) (\<lambda>cs.
       io_bind (await_call ch (Debugger (fld tab ''id'') ''DOMSnapshot.captureSnapshot''
         (JObj [(''computedStyles'', js_or cs (JArr [])),
                (''includeDOMRects'', not_false (fld data ''include_dom_rects'')),
                (''includePaintOrder'', not_false (fld data ''include_paint_order''))]))) (\<lambda>snap.
       ret (success_obj [(''data'', snap)])))))"

definition handle_extract_accessibility_tree :: "chrome \<Rightarrow> jv io" where
  "handle_extract_accessibility_tree ch =
     with_tab ch (\<lambda>tab.
       io_bind (ensure_debugger_attached ch (fld tab ''id'')) (\<lambda>_.
       io_bind (await_call ch (Debugger (fld tab ''id'') ''Accessibility.getFullAXTree'' JUndef)) (\<lambda>tree.
       ret (success_obj [(''data'', tree)]))))"

definition cleanup_delay :: "jv \<Rightarrow> jv" where
  "cleanup_delay data =
     (case (truthy data, fld data ''cleanup_delay_ms'') of (True, JNum q) \<Rightarrow> JNum q | _ \<Rightarrow> JNum 3000)"

definition handle_extract_screenshot :: "chrome \<Rightarrow> jv \<Rightarrow> jv io" where
  "handle_extract_screenshot ch data =
     with_tab ch (\<lambda>tab.
       io_bind (ensure_debugger_attached ch (fld tab ''id'')) (\<lambda>_.
       io_bind (lift_exn (get_prop data ''format'')) (\<lambda>format.
       io_bind (await_call ch (Debugger (fld tab ''id'') ''Page.captureScreenshot''
         (JObj [(''format'', js_or format (JStr ''png'')),
                (''quality'', js_or (fld data ''quality'') (JNum 100))]))) (\<lambda>shot.
       io_bind (note_call (Schedule (cleanup_delay data) (fld tab ''id''))) (\<lambda>_.
       io_bind (lift_exn (get_prop shot ''data'')) (\<lambda>d.
       ret (success_obj [(''data'', d)])))))))"

text \<open>The timer of a screenshot: unmark the elements, ignoring errors.\<close>

definition screenshot_cleanup :: "chrome \<Rightarrow> jv \<Rightarrow> unit io" where
  "screenshot_cleanup ch tab_id =
     io_catch (io_bind (ask_script ch tab_id (Inr (JObj [(''type'', JStr ''unmark_elements'')]))) (\<lambda>_. ret ()))
       (\<lambda>_. ret ())"

definition handle_extract_focused_element_bid :: "chrome \<Rightarrow> jv \<Rightarrow> jv io" where
  "handle_extract_focused_element_bid ch data =
     with_tab ch (\<lambda>tab.
       io_bind (ask_script ch (fld tab ''id'')
         (try_bind (get_prop data ''bid_attribute'') (\<lambda>ba.
            Inr (JObj [(''type'', JStr ''get_focused_element_bid''),
              (''data'', JObj [(''bidAttribute'', js_or ba (JStr ''dom-tree-id''))])])))) (\<lambda>response.
       io_bind (lift_exn (get_prop response ''data'')) (\<lambda>d.
       ret (success_obj [(''data'', js_or d (JStr []))]))))"

definition handle_extract_dom_tree :: "chrome \<Rightarrow> jv \<Rightarrow> jv io" where
  "handle_extract_dom_tree ch data =
     with_tab ch (\<lambda>tab.
       io_bind (ask_script ch (fld tab ''id'')
         (try_bind (get_prop data ''do_highlight_elements'') (\<lambda>dh.
            Inr (JObj [(''type'', JStr ''extract_dom_tree''),
              (''data'', JObj [(''doHighlightElements'', js_or dh (JBool False)),
                 (''focusHighlightIndex'', js_or (fld data ''focus_highlight_index'') (JNum (- 1))),
                 (''viewportExpansion'', js_or (fld data ''viewport_expansion'') (JNum 0)),
                 (''debugMode'', js_or (fld data ''debug_mode'') (JBool False))])])))) (\<lambda>response.
       io_bind (lift_exn (get_prop response ''data'')) (\<lambda>d.
       ret (success_obj [(''data'', js_or d JNull)]))))"

definition handle_extract_page_content :: "chrome \<Rightarrow> jv \<Rightarrow> jv io" where
  "handle_extract_page_content ch data =
     with_tab ch (\<lambda>tab.
       io_bind (ask_script ch (fld tab ''id'')
         (try_bind (get_prop data ''as_text'') (\<lambda>as_text.
            Inr (JObj [(''type'', JStr ''extract_page_content''),
              (''data'', JObj [(''asText'', js_or as_text (JBool False))])])))) (\<lambda>response.
       io_bind (lift_exn (get_prop response ''data'')) (\<lambda>d.
       ret (success_obj [(''data'', js_or d (JStr []))]))))"

definition handle_get_active_tab_url :: "chrome \<Rightarrow> jv io" where
  "handle_get_active_tab_url ch = with_tab ch (\<lambda>tab. ret (success_obj [(''data'', fld tab ''url'')]))"

definition handle_get_active_tab_title :: "chrome \<Rightarrow> jv io" where
  "handle_get_active_tab_title ch =
     with_tab ch (\<lambda>tab. ret (success_obj [(''data'', js_nullor (fld tab ''title'') (JStr []))]))"

section \<open>The command dispatcher\<close>

definition execute_command :: "chrome \<Rightarrow> jv \<Rightarrow> jv io" where
  "execute_command ch cmd =
     io_bind (lift_exn (get_prop cmd ''type'')) (\<lambda>ty.
     let data = fld cmd ''data'' in
     if ty = JStr ''ping'' then ret (JObj [(''type'', JStr ''pong''), (''timestamp'', JNum (ch_now ch))])
     else if ty = JStr ''mark_elements'' then handle_mark_elements ch data
     else if ty = JStr ''unmark_elements'' then handle_unmark_elements ch
     else if ty = JStr ''extract_dom_snapshot'' then handle_extract_dom_snapshot ch data
     else if ty = JStr ''extract_accessibility_tree'' then handle_extract_accessibility_tree ch
     else if ty = JStr ''extract_dom_tree'' then handle_extract_dom_tree ch data
     else if ty = JStr ''extract_screenshot'' then handle_extract_screenshot ch data
     else if ty = JStr ''extract_focused_element_bid'' then handle_extract_focused_element_bid ch data
     else if ty = JStr ''extract_page_content'' then handle_extract_page_content ch data
     else if ty = JStr ''get_active_tab_url'' then handle_get_active_tab_url ch
     else if ty = JStr ''get_active_tab_title'' then handle_get_active_tab_title ch
     else if ty = JStr ''browser_command'' then handle_browser_command ch (fld cmd ''command'') (fld cmd ''args'')
     else ret (error_obj (''Unknown command type: '' @ str ch ty)))"

definition server_base :: string where "server_base = ''http://localhost:7860''"

definition send_command_result :: "chrome \<Rightarrow> string \<Rightarrow> jv \<Rightarrow> jv \<Rightarrow> unit io" where
  "send_command_result ch base request_id result =
     io_catch
       (io_bind (await_call ch (Fetch (base @ ''/extension/command_result'')
          (JObj (spread [(''request_id'', request_id)] result)))) (\<lambda>_. ret ()))
       (\<lambda>_. ret ())"

text \<open>
  The state of the worker: the event source, whether it is connected, and the
  queries of popups waiting for an agent response.
\<close>

record http_state =
  hs_source :: bool
  hs_connected :: bool
  hs_pending :: "string list"
  hs_listeners :: nat

definition hs_start :: "http_state \<Rightarrow> http_state" where
  "hs_start s = s\<lparr>hs_source := True, hs_listeners := Suc (hs_listeners s)\<rparr>"

definition hs_stop :: "http_state \<Rightarrow> http_state" where
  "hs_stop s = s\<lparr>hs_source := False, hs_connected := False\<rparr>"

definition hs_open :: "http_state \<Rightarrow> http_state" where "hs_open s = s\<lparr>hs_connected := True\<rparr>"
definition hs_error :: "http_state \<Rightarrow> http_state" where "hs_error s = s\<lparr>hs_connected := False\<rparr>"

definition forward_message :: "chrome \<Rightarrow> jv \<Rightarrow> unit io" where
  "forward_message ch data =
     io_catch (io_bind (await_call ch (RuntimeSend (JObj (spread [(''source'', JStr ''background'')] data)))) (\<lambda>_. ret ()))
       (\<lambda>_. ret ())"

definition agent_message :: "jv \<Rightarrow> bool" where
  "agent_message cmd \<longleftrightarrow> fld cmd ''type'' = JStr ''agent_response'' \<or> fld cmd ''type'' = JStr ''agent_complete''
     \<or> fld cmd ''type'' = JStr ''agent_error''"

text \<open>\<open>eventSource.onmessage\<close>, with \<open>JSON.parse\<close> an argument.\<close>

definition on_message :: "chrome \<Rightarrow> string \<Rightarrow> (string \<Rightarrow> exn + jv) \<Rightarrow> string \<Rightarrow> http_state \<Rightarrow> call list \<Rightarrow>
    http_state \<times> call list" where
  "on_message ch base parse event_data s t =
     (case parse event_data of
        Inl e \<Rightarrow> (s, t)
      | Inr cmd \<Rightarrow>
          if nullish cmd then (s, t)
          else if agent_message cmd
          then (case fld cmd ''request_id'' of
                  JStr r \<Rightarrow> (s\<lparr>hs_pending := removeAll r (hs_pending s)\<rparr>, snd (forward_message ch cmd t))
                | _ \<Rightarrow> (s, snd (forward_message ch cmd t)))
          else (s, snd (io_bind (execute_command ch cmd)
                  (\<lambda>result. send_command_result ch base (fld cmd ''request_id'') result) t)))"

section \<open>What the handlers may call\<close>

lemma only_if [io_rules]:
  "(c \<Longrightarrow> only_calls P m) \<Longrightarrow> (\<not> c \<Longrightarrow> only_calls P n) \<Longrightarrow> only_calls P (if c then m else n)"
  by simp

definition no_attach :: "call \<Rightarrow> bool" where
  "no_attach c \<longleftrightarrow> (case c of DebuggerAttach _ \<Rightarrow> False | _ \<Rightarrow> True)"

definition no_input :: "call \<Rightarrow> bool" where
  "no_input c \<longleftrightarrow> (case c of
     Debugger tab m ps \<Rightarrow> m \<noteq> ''Input.dispatchMouseEvent'' \<and> m \<noteq> ''Input.dispatchKeyEvent''
   | DebuggerAttach _ \<Rightarrow> False | _ \<Rightarrow> True)"

lemma no_input_attach: "no_input c \<Longrightarrow> no_attach c"
  by (simp add: no_input_def no_attach_def split: call.splits)

lemma only_tab: "P TabsQuery \<Longrightarrow> only_calls P (require_active_tab ch)"
  unfolding require_active_tab_def get_active_tab_def by (intro io_rules allI)

lemma only_ping: "P (Ping tab_id to) \<Longrightarrow> only_calls P (ping_script ch tab_id to bad)"
  unfolding ping_script_def by (intro io_rules)

lemma only_check: "P (TabsGet tab_id) \<Longrightarrow> only_calls P (check_tab ch tab_id)"
  unfolding check_tab_def by (intro io_rules) (auto split: jv.split intro: io_rules)

lemma only_ensure: "(\<And>c. no_input c \<Longrightarrow> P c) \<Longrightarrow> only_calls P (ensure_content_script_injected ch tab_id)"
  unfolding ensure_content_script_injected_def
  by (intro io_rules only_check only_ping) (simp_all add: no_input_def)

lemma only_rect: "(\<And>c. no_input c \<Longrightarrow> P c) \<Longrightarrow> only_calls P (get_element_rect ch tab_id bid)"
  unfolding get_element_rect_def by (intro io_rules only_ensure) (simp_all add: no_input_def)

lemma only_find: "(\<And>c. no_input c \<Longrightarrow> P c) \<Longrightarrow> only_calls P (find_element_by_dom_tree_id ch tab_id bid)"
  unfolding find_element_by_dom_tree_id_def by (intro io_rules) (simp_all add: no_input_def)

lemma only_label: "(\<And>c. no_input c \<Longrightarrow> P c) \<Longrightarrow> only_calls P (label_target ch tab_id n)"
  unfolding label_target_def Let_def
  by (intro io_rules) (auto split: jv.split option.split intro!: io_rules simp: no_input_def)

lemma only_press:
  "(\<And>ps. P (Debugger tab_id ''Input.dispatchMouseEvent'' ps)) \<Longrightarrow> only_calls P (press_and_release ch tab_id p b)"
  unfolding press_and_release_def by (intro io_rules)

lemma only_key: "P (Debugger tab_id ''Input.dispatchKeyEvent'' ev) \<Longrightarrow> only_calls P (send_key ch tab_id ev)"
  unfolding send_key_def by (intro io_rules)

lemma only_type_chars:
  "(\<And>ev. P (Debugger tab_id ''Input.dispatchKeyEvent'' ev)) \<Longrightarrow> P (Wait 10) \<Longrightarrow> only_calls P (type_chars ch tab_id cs)"
  by (induction cs) (auto intro!: io_rules only_key)

lemma only_ask: "(\<And>c. no_input c \<Longrightarrow> P c) \<Longrightarrow> only_calls P (ask_script ch tab_id m)"
  unfolding ask_script_def by (intro io_rules only_ensure) (simp_all add: no_input_def)

lemma attach_free_click: "only_calls no_attach (handle_click_command ch args)"
  unfolding handle_click_command_def Let_def
  by (intro io_rules only_tab only_find only_label only_rect only_press)
     (auto intro: no_input_attach simp: no_attach_def [of "Debugger a b c" for a b c] no_attach_def [of "Wait n" for n]
        no_attach_def [of TabsQuery] no_attach_def [of "TabsSend a b" for a b])

lemma attach_free_type: "only_calls no_attach (handle_type_command ch args)"
  unfolding handle_type_command_def Let_def
  by (intro io_rules only_tab only_find only_key only_type_chars)
     (auto intro: no_input_attach simp: no_attach_def [of "Debugger a b c" for a b c] no_attach_def [of "Wait n" for n]
        no_attach_def [of TabsQuery] no_attach_def [of "TabsSend a b" for a b])

lemma attach_free_animation: "only_calls no_attach (handle_add_animation ch args)"
  unfolding handle_add_animation_def Let_def
  by (intro io_rules only_tab only_ensure)
     (auto intro: no_input_attach simp: no_attach_def [of "Debugger a b c" for a b c] no_attach_def [of "Wait n" for n]
        no_attach_def [of TabsQuery] no_attach_def [of "TabsSend a b" for a b])

lemma attach_free_select: "only_calls no_attach (handle_select_option ch args)"
  unfolding handle_select_option_def Let_def
  by (intro io_rules only_tab only_ensure)
     (auto intro: no_input_attach simp: no_attach_def [of "Debugger a b c" for a b c] no_attach_def [of "Wait n" for n]
        no_attach_def [of TabsQuery] no_attach_def [of "TabsSend a b" for a b])

section \<open>Properties\<close>

lemma no_throw_with_tab [io_rules]: "no_throw (with_tab ch body)"
  unfolding with_tab_def by (intro io_rules)

lemma no_throw_if [io_rules]: "(c \<Longrightarrow> no_throw m) \<Longrightarrow> (\<not> c \<Longrightarrow> no_throw n) \<Longrightarrow> no_throw (if c then m else n)"
  by simp

lemma no_throw_dispatch:
  assumes "\<not> nullish cmd" shows "no_throw (execute_command ch cmd)"
proof -
  have "no_throw (lift_exn (get_prop cmd ''type''))"
    using assms by (simp add: no_throw_def lift_exn_def get_prop_def)
  then show ?thesis
    unfolding execute_command_def handle_mark_elements_def handle_unmark_elements_def
      handle_extract_dom_snapshot_def handle_extract_accessibility_tree_def handle_extract_dom_tree_def
      handle_extract_screenshot_def handle_extract_focused_element_bid_def handle_extract_page_content_def
      handle_get_active_tab_url_def handle_get_active_tab_title_def handle_browser_command_def Let_def
    by (intro io_rules)
qed

text \<open>
  C39. The dispatcher always has a reply: whatever the browser answers or throws, a
  command that is an object is executed to a value, never to an exception.
\<close>

theorem execute_command_replies:
  assumes "\<not> nullish cmd"
  shows "\<exists>r t'. execute_command ch cmd t = (Inr r, t')"
  using no_throw_dispatch [OF assms, of ch] unfolding no_throw_def by blast

definition silent_chrome :: chrome where
  "silent_chrome = \<lparr>ch_answer = (\<lambda>_ _. Inl ''no browser''), ch_num = (\<lambda>_. ''0''), ch_now = 0\<rparr>"

theorem execute_command_replies_witness:
  "\<exists>r t'. execute_command silent_chrome (JObj [(''type'', JStr ''extract_screenshot'')]) [] = (Inr r, t')"
  by (rule execute_command_replies) simp

text \<open>
  Browser commands never attach the debugger, although a click and a typed text are
  sent through it: of the command handlers only the snapshot, the accessibility tree and
  the screenshot attach it, so a click works only after one of them.
\<close>

theorem browser_commands_never_attach:
  "only_calls no_attach (handle_browser_command ch command args)"
  unfolding handle_browser_command_def
  by (intro io_rules attach_free_click attach_free_type attach_free_animation attach_free_select)

lemma only_new: "only_calls P m \<Longrightarrow> m t = (r, t') \<Longrightarrow> \<exists>new. t' = t @ new \<and> (\<forall>c \<in> set new. P c)"
  unfolding only_calls_def by blast

lemma rect_center_close:
  "\<bar>fst (rect_center r) - (js_num (fld r ''left'') + js_num (fld r ''width'') / 2)\<bar> \<le> 1 / 2"
  "\<bar>snd (rect_center r) - (js_num (fld r ''top'') + js_num (fld r ''height'') / 2)\<bar> \<le> 1 / 2"
  unfolding rect_center_def fst_conv snd_conv by (rule js_round_close)+

lemma append_steps: "t1 = t @ a \<Longrightarrow> t2 = t1 @ b \<Longrightarrow> t2 = t @ (a @ b)"
  by simp

lemma find_new:
  "find_element_by_dom_tree_id ch tab_id bid t = (r, t') \<Longrightarrow> \<exists>new. t' = t @ new \<and> (\<forall>c \<in> set new. no_input c)"
  by (rule only_new [OF only_find])

lemma press_Inr:
  "press_and_release ch tab_id p b t = (Inr r, t') \<Longrightarrow>
     t' = t @ [Debugger tab_id ''Input.dispatchMouseEvent'' (mouse_event ''mousePressed'' (fst p) (snd p) b),
               Debugger tab_id ''Input.dispatchMouseEvent'' (mouse_event ''mouseReleased'' (fst p) (snd p) b)]
     \<and> r = JObj [(''success'', JBool True), (''position'', JObj [(''x'', JNum (fst p)), (''y'', JNum (snd p))])]"
  by (auto simp: press_and_release_def bind_Inr)

text \<open>
  The rectangle that was measured: the data of a successful answer to the message that asks the
  content script for it, if the calls \<open>cs\<close> since \<open>t\<close> end with that message.
\<close>

definition rect_call :: "jv \<Rightarrow> jv \<Rightarrow> call" where
  "rect_call tab_id bid = TabsSend tab_id (JObj [(''type'', JStr ''get_element_rect''), (''bid'', bid)])"

definition measured_rect :: "chrome \<Rightarrow> call list \<Rightarrow> jv \<Rightarrow> jv \<Rightarrow> call list \<Rightarrow> jv" where
  "measured_rect ch t tab_id bid cs =
     (if cs \<noteq> [] \<and> last cs = rect_call tab_id bid
      then (case ch_answer ch (t @ butlast cs) (rect_call tab_id bid) of
              Inr response \<Rightarrow>
                if truthy response \<and> fld response ''type'' = JStr ''success'' \<and> truthy (fld response ''data'')
                then fld response ''data'' else JNull
            | Inl _ \<Rightarrow> JNull)
      else JNull)"

definition no_message :: "call \<Rightarrow> bool" where
  "no_message c \<longleftrightarrow> (case c of TabsSend _ _ \<Rightarrow> False | _ \<Rightarrow> True)"

lemma ensure_no_message: "only_calls no_message (ensure_content_script_injected ch tab_id)"
  unfolding ensure_content_script_injected_def
  by (intro io_rules only_check only_ping) (simp_all add: no_message_def)

lemma rect_measured:
  assumes "get_element_rect ch tab_id bid t = (Inr rect, t')"
  shows "\<exists>cs. t' = t @ cs \<and> rect = measured_rect ch t tab_id bid cs"
proof -
  obtain q t1 where e: "ensure_content_script_injected ch tab_id t = (q, t1)" by fastforce
  obtain n where n: "t1 = t @ n" "\<forall>c \<in> set n. no_message c" using only_new [OF ensure_no_message e] by blast
  show ?thesis
  proof (cases q)
    case (Inl x)
    have "no_message (last n)" if "n \<noteq> []" using n(2) last_in_set [OF that] by blast
    moreover have "\<not> no_message (rect_call tab_id bid)" by (simp add: rect_call_def no_message_def)
    ultimately have "n = [] \<or> last n \<noteq> rect_call tab_id bid" by metis
    then have "measured_rect ch t tab_id bid n = JNull" by (auto simp: measured_rect_def)
    moreover have "get_element_rect ch tab_id bid t = (Inr JNull, t1)"
      unfolding get_element_rect_def io_catch_def io_bind_def e Inl ret_def by simp
    ultimately show ?thesis using n(1) assms by (metis Pair_inject sum.inject(2))
  next
    case (Inr u)
    let ?m = "rect_call tab_id bid"
    have "get_element_rect ch tab_id bid t = (Inr (case ch_answer ch t1 ?m of
              Inr response \<Rightarrow>
                if truthy response \<and> fld response ''type'' = JStr ''success'' \<and> truthy (fld response ''data'')
                then fld response ''data'' else JNull
            | Inl _ \<Rightarrow> JNull), t1 @ [?m])"
      unfolding get_element_rect_def io_catch_def io_bind_def e Inr ret_def await_call_def rect_call_def
      by (cases "ch_answer ch t1 (TabsSend tab_id (JObj [(''type'', JStr ''get_element_rect''), (''bid'', bid)]))") simp_all
    moreover have "measured_rect ch t tab_id bid (n @ [?m]) = (case ch_answer ch t1 ?m of
              Inr response \<Rightarrow>
                if truthy response \<and> fld response ''type'' = JStr ''success'' \<and> truthy (fld response ''data'')
                then fld response ''data'' else JNull
            | Inl _ \<Rightarrow> JNull)" by (simp add: measured_rect_def n(1))
    moreover have "t1 @ [?m] = t @ (n @ [?m])" using n(1) by simp
    ultimately show ?thesis using assms by (metis Pair_inject sum.inject(2))
  qed
qed

lemma border_center_close:
  assumes "b = map JNum [x1, y1, x2, y2, x3, y3, x4, y4]"
  shows "\<bar>fst (border_center b) - (Min {x1, x2, x3, x4} + Max {x1, x2, x3, x4}) / 2\<bar> \<le> 1 / 2"
    and "\<bar>snd (border_center b) - (Min {y1, y2, y3, y4} + Max {y1, y2, y3, y4}) / 2\<bar> \<le> 1 / 2"
proof -
  have m: "Min {u, v, w, z} = min v (min w (min z u))" "Max {u, v, w, z} = max v (max w (max z u))" for u v w z :: rat
    by (simp_all add: min.assoc min.commute min.left_commute max.assoc max.commute max.left_commute)
  define xs where "xs = (min x2 (min x3 (min x4 x1)) + max x2 (max x3 (max x4 x1))) / 2"
  define ys where "ys = (min y2 (min y3 (min y4 y1)) + max y2 (max y3 (max y4 y1))) / 2"
  have e: "border_center b = (of_int (js_round xs), of_int (js_round ys))"
    by (simp add: assms border_center_def Let_def xs_def ys_def js_num_def)
  show "\<bar>fst (border_center b) - (Min {x1, x2, x3, x4} + Max {x1, x2, x3, x4}) / 2\<bar> \<le> 1 / 2"
    unfolding m e fst_conv xs_def [symmetric] by (rule js_round_close)
  show "\<bar>snd (border_center b) - (Min {y1, y2, y3, y4} + Max {y1, y2, y3, y4}) / 2\<bar> \<le> 1 / 2"
    unfolding m e snd_conv ys_def [symmetric] by (rule js_round_close)
qed

text \<open>
  C38. A click that succeeds finds the element of the identifier, asks for its box, or for that of the
  control of a label, and for its rectangle, and ends with a press and a release of the
  requested button at one point, the one it reports, without other input.  The point is
  settled by the answers of the browser: it is within half a pixel of the centre of the rectangle
  the content script gave for that identifier, and without such an answer of the centre of the border
  in the answer with the box.
\<close>

theorem click_presses_and_releases:
  assumes run: "handle_click_command ch args t = (Inr r, t')"
    and button: "button = with_default (fld args ''button'') (JStr ''left'')"
  shows "\<exists>tab t1 node t2 node_id before box between p.
       require_active_tab ch t = (Inr tab, t1)
     \<and> find_element_by_dom_tree_id ch (fld tab ''id'') (fld args ''bid'') t1 = (Inr node, t2)
     \<and> label_target ch (fld tab ''id'') node t2 = (Inr node_id, t @ before)
     \<and> ch_answer ch (t @ before) (Debugger (fld tab ''id'') ''DOM.getBoxModel'' (JObj [(''nodeId'', node_id)])) = Inr box
     \<and> t' = t @ before @ Debugger (fld tab ''id'') ''DOM.getBoxModel'' (JObj [(''nodeId'', node_id)]) # between
         @ [Debugger (fld tab ''id'') ''Input.dispatchMouseEvent'' (mouse_event ''mousePressed'' (fst p) (snd p) button),
            Debugger (fld tab ''id'') ''Input.dispatchMouseEvent'' (mouse_event ''mouseReleased'' (fst p) (snd p) button)]
     \<and> (\<forall>c \<in> set (before @ between). no_input c)
     \<and> r = JObj [(''success'', JBool True), (''position'', JObj [(''x'', JNum (fst p)), (''y'', JNum (snd p))])]
     \<and> (let rect = measured_rect ch (t @ before @ [Debugger (fld tab ''id'') ''DOM.getBoxModel'' (JObj [(''nodeId'', node_id)])])
                     (fld tab ''id'') (fld args ''bid'') between
        in (truthy rect \<longrightarrow>
              \<bar>fst p - (js_num (fld rect ''left'') + js_num (fld rect ''width'') / 2)\<bar> \<le> 1 / 2
              \<and> \<bar>snd p - (js_num (fld rect ''top'') + js_num (fld rect ''height'') / 2)\<bar> \<le> 1 / 2)
         \<and> (\<forall>x1 y1 x2 y2 x3 y3 x4 y4.
              \<not> truthy rect \<and> fld (fld box ''model'') ''border'' = JArr (map JNum [x1, y1, x2, y2, x3, y3, x4, y4]) \<longrightarrow>
              \<bar>fst p - (Min {x1, x2, x3, x4} + Max {x1, x2, x3, x4}) / 2\<bar> \<le> 1 / 2
              \<and> \<bar>snd p - (Min {y1, y2, y3, y4} + Max {y1, y2, y3, y4}) / 2\<bar> \<le> 1 / 2))"
proof -
  obtain tab t1 where 1: "require_active_tab ch t = (Inr tab, t1)"
    and r1: "io_bind (lift_exn (get_prop args ''bid'')) (\<lambda>bid.
     let button = with_default (fld args ''button'') (JStr ''left''); tab_id = fld tab ''id'' in
     if \<not> truthy bid then throw ''BID is required for click command''
     else
       io_bind (find_element_by_dom_tree_id ch tab_id bid) (\<lambda>node.
       if \<not> truthy node
       then throw (''Element with BID '' @ [CHR 0x27] @ str ch bid @ [CHR 0x27] @ '' not found'')
       else
         io_bind (label_target ch tab_id node) (\<lambda>node_id.
         io_bind (await_call ch (Debugger tab_id ''DOM.getBoxModel'' (JObj [(''nodeId'', node_id)]))) (\<lambda>box.
         if \<not> truthy box \<or> \<not> truthy (fld box ''model'') then throw ''Could not get element bounding box''
         else
           io_bind (get_element_rect ch tab_id bid) (\<lambda>rect.
           io_bind (lift_exn (click_center rect (fld box ''model''))) (\<lambda>p.
           press_and_release ch tab_id p button)))))) t1 = (Inr r, t')"
    using run unfolding handle_click_command_def bind_Inr by blast
  let ?id = "fld tab ''id''" and ?bid = "fld args ''bid''"
  obtain node t2 node_id t3 box t4 rect t5 p where
    2: "find_element_by_dom_tree_id ch ?id ?bid t1 = (Inr node, t2)"
    and 3: "label_target ch ?id node t2 = (Inr node_id, t3)"
    and 4: "ch_answer ch t3 (Debugger ?id ''DOM.getBoxModel'' (JObj [(''nodeId'', node_id)])) = Inr box"
      "t4 = t3 @ [Debugger ?id ''DOM.getBoxModel'' (JObj [(''nodeId'', node_id)])]"
    and 5: "get_element_rect ch ?id ?bid t4 = (Inr rect, t5)"
    and 6: "click_center rect (fld box ''model'') = Inr p"
    and 7: "press_and_release ch ?id p button t5 = (Inr r, t')"
    using r1 unfolding Let_def button by (auto simp: bind_Inr get_prop_def split: if_splits)
  obtain n1 where n1: "t1 = t @ n1" "\<forall>c \<in> set n1. no_input c"
    using only_new [OF only_tab 1, of no_input] by (auto simp: no_input_def)
  obtain n2 where n2: "t2 = t1 @ n2" "\<forall>c \<in> set n2. no_input c"
    using find_new [OF 2] by blast
  obtain n3 where n3: "t3 = t2 @ n3" "\<forall>c \<in> set n3. no_input c"
    using only_new [OF only_label 3, of no_input] by blast
  obtain n5 where n5: "t5 = t4 @ n5" "\<forall>c \<in> set n5. no_input c"
    using only_new [OF only_rect 5, of no_input] by blast
  have rect: "rect = measured_rect ch t4 ?id ?bid n5"
    using rect_measured [OF 5] n5(1) by auto
  let ?before = "n1 @ n2 @ n3"
  have t3: "t3 = t @ ?before" using n1 n2 n3 by simp
  have center: "truthy rect \<Longrightarrow> p = rect_center rect"
    "\<not> truthy rect \<and> fld (fld box ''model'') ''border'' = JArr b \<Longrightarrow> p = border_center b" for b
    using 6 by (simp_all add: click_center_def)
  have points: "(truthy rect \<longrightarrow>
              \<bar>fst p - (js_num (fld rect ''left'') + js_num (fld rect ''width'') / 2)\<bar> \<le> 1 / 2
              \<and> \<bar>snd p - (js_num (fld rect ''top'') + js_num (fld rect ''height'') / 2)\<bar> \<le> 1 / 2)
         \<and> (\<forall>x1 y1 x2 y2 x3 y3 x4 y4.
              \<not> truthy rect \<and> fld (fld box ''model'') ''border'' = JArr (map JNum [x1, y1, x2, y2, x3, y3, x4, y4]) \<longrightarrow>
              \<bar>fst p - (Min {x1, x2, x3, x4} + Max {x1, x2, x3, x4}) / 2\<bar> \<le> 1 / 2
              \<and> \<bar>snd p - (Min {y1, y2, y3, y4} + Max {y1, y2, y3, y4}) / 2\<bar> \<le> 1 / 2)"
    using center(1) rect_center_close center(2) border_center_close [OF refl] by metis
  show ?thesis
  proof (intro exI conjI)
    show "require_active_tab ch t = (Inr tab, t1)" by (rule 1)
    show "find_element_by_dom_tree_id ch ?id ?bid t1 = (Inr node, t2)" by (rule 2)
    show "label_target ch ?id node t2 = (Inr node_id, t @ ?before)" using 3 t3 by simp
    show "ch_answer ch (t @ ?before) (Debugger ?id ''DOM.getBoxModel'' (JObj [(''nodeId'', node_id)])) = Inr box"
      using 4(1) t3 by simp
    show "t' = t @ ?before @ Debugger ?id ''DOM.getBoxModel'' (JObj [(''nodeId'', node_id)]) # n5
         @ [Debugger ?id ''Input.dispatchMouseEvent'' (mouse_event ''mousePressed'' (fst p) (snd p) button),
            Debugger ?id ''Input.dispatchMouseEvent'' (mouse_event ''mouseReleased'' (fst p) (snd p) button)]"
      using press_Inr [OF 7] n5(1) 4(2) t3 by simp
    show "\<forall>c \<in> set (?before @ n5). no_input c" using n1 n2 n3 n5 by auto
    show "r = JObj [(''success'', JBool True), (''position'', JObj [(''x'', JNum (fst p)), (''y'', JNum (snd p))])]"
      using press_Inr [OF 7] by simp
    show "let rect = measured_rect ch (t @ ?before @ [Debugger ?id ''DOM.getBoxModel'' (JObj [(''nodeId'', node_id)])])
                     ?id ?bid n5
        in (truthy rect \<longrightarrow>
              \<bar>fst p - (js_num (fld rect ''left'') + js_num (fld rect ''width'') / 2)\<bar> \<le> 1 / 2
              \<and> \<bar>snd p - (js_num (fld rect ''top'') + js_num (fld rect ''height'') / 2)\<bar> \<le> 1 / 2)
         \<and> (\<forall>x1 y1 x2 y2 x3 y3 x4 y4.
              \<not> truthy rect \<and> fld (fld box ''model'') ''border'' = JArr (map JNum [x1, y1, x2, y2, x3, y3, x4, y4]) \<longrightarrow>
              \<bar>fst p - (Min {x1, x2, x3, x4} + Max {x1, x2, x3, x4}) / 2\<bar> \<le> 1 / 2
              \<and> \<bar>snd p - (Min {y1, y2, y3, y4} + Max {y1, y2, y3, y4}) / 2\<bar> \<le> 1 / 2)"
      using points rect 4(2) t3 by (simp only: Let_def append_assoc)
  qed
qed

definition demo_answer :: "call \<Rightarrow> exn + jv" where
  "demo_answer c =
     (case c of
        TabsQuery \<Rightarrow> Inr (JArr [JObj [(''id'', JNum 1), (''url'', JStr ''https://a'')]])
      | TabsGet tab \<Rightarrow> Inr (JObj [(''id'', JNum 1), (''url'', JStr ''https://a'')])
      | Ping tab to \<Rightarrow> Inr (JObj [(''type'', JStr ''pong'')])
      | TabsSend tab m \<Rightarrow> Inr (JObj [(''type'', JStr ''success''), (''data'', JObj [(''left'', JNum 10),
           (''top'', JNum 20), (''width'', JNum 5), (''height'', JNum 8)])])
      | Debugger tab m ps \<Rightarrow>
          (if m = ''DOM.performSearch'' then Inr (JObj [(''searchId'', JStr ''s'')])
           else if m = ''DOM.getSearchResults'' then Inr (JObj [(''nodeIds'', JArr [JNum 7])])
           else if m = ''DOM.getBoxModel'' then Inr (JObj [(''model'', JObj [(''border'', JArr [])])])
           else Inr JNull)
      | _ \<Rightarrow> Inr JUndef)"

definition demo_chrome :: chrome where
  "demo_chrome = \<lparr>ch_answer = (\<lambda>_. demo_answer), ch_num = (\<lambda>_. ''1''), ch_now = 0\<rparr>"

definition demo_args :: jv where
  "demo_args = JObj [(''bid'', JStr ''4''), (''value'', JStr ''hi''), (''press_enter'', JBool True)]"

theorem click_presses_and_releases_witness:
  "\<exists>before between p t'. handle_click_command demo_chrome demo_args [] =
      (Inr (JObj [(''success'', JBool True), (''position'', JObj [(''x'', JNum (fst p)), (''y'', JNum (snd p))])]), t')
     \<and> t' = before @ between
         @ [Debugger (JNum 1) ''Input.dispatchMouseEvent'' (mouse_event ''mousePressed'' (fst p) (snd p) (JStr ''left'')),
            Debugger (JNum 1) ''Input.dispatchMouseEvent'' (mouse_event ''mouseReleased'' (fst p) (snd p) (JStr ''left''))]"
proof -
  have s: "isl (fst (handle_click_command demo_chrome demo_args [])) = False" by code_simp
  have b: "JStr ''left'' = with_default (fld demo_args ''button'') (JStr ''left'')"
    by (simp add: demo_args_def with_default_def)
  have a: "require_active_tab demo_chrome [] = (Inr tab, t1) \<Longrightarrow> fld tab ''id'' = JNum 1" for tab t1
    by (auto simp: require_active_tab_def get_active_tab_def bind_Inr demo_chrome_def demo_answer_def lift_exn_def
        js_index_def get_prop_def split: if_splits)
  obtain r t' where r: "handle_click_command demo_chrome demo_args [] = (Inr r, t')"
    using s by (metis isl_def prod.collapse sum.collapse(2))
  obtain tab t1 before box between p node_id where
    "require_active_tab demo_chrome [] = (Inr tab, t1)"
    "t' = before @ Debugger (fld tab ''id'') ''DOM.getBoxModel'' (JObj [(''nodeId'', node_id)]) # between
         @ [Debugger (fld tab ''id'') ''Input.dispatchMouseEvent'' (mouse_event ''mousePressed'' (fst p) (snd p) (JStr ''left'')),
            Debugger (fld tab ''id'') ''Input.dispatchMouseEvent'' (mouse_event ''mouseReleased'' (fst p) (snd p) (JStr ''left''))]"
    "r = JObj [(''success'', JBool True), (''position'', JObj [(''x'', JNum (fst p)), (''y'', JNum (snd p))])]"
    using click_presses_and_releases [OF r b] by (simp only: append_Nil) blast
  then show ?thesis
    using r a [of tab t1] by (intro exI [of _ before] exI [of _ "Debugger (JNum 1) ''DOM.getBoxModel'' (JObj [(''nodeId'', node_id)]) # between"]
      exI [of _ p] exI [of _ t']) simp
qed

fun key_of :: "call \<Rightarrow> jv option" where
  "key_of (Debugger tab m ps) = (if m = ''Input.dispatchKeyEvent'' then Some ps else None)"
| "key_of _ = None"

abbreviation keys_of :: "call list \<Rightarrow> jv list" where
  "keys_of \<equiv> List.map_filter key_of"

lemma keys_none: "\<forall>c \<in> set cs. no_input c \<Longrightarrow> keys_of cs = []"
proof (induction cs)
  case (Cons c cs)
  then have "key_of c = None" by (cases c) (auto simp: no_input_def)
  then show ?case using Cons by (simp add: map_filter_simps)
qed (simp add: map_filter_simps)

lemma map_filter_append: "List.map_filter f (xs @ ys) = List.map_filter f xs @ List.map_filter f ys"
  by (simp add: List.map_filter_def)

lemma send_key_Inr: "send_key ch tab_id ev t = (Inr u, t') \<Longrightarrow> t' = t @ [Debugger tab_id ''Input.dispatchKeyEvent'' ev]"
  by (auto simp: send_key_def bind_Inr)

lemma type_chars_keys:
  "type_chars ch tab_id cs t = (Inr u, t') \<Longrightarrow>
     \<exists>new. t' = t @ new \<and> keys_of new = concat (map (\<lambda>c. [key_event ''keyDown'' c, key_event ''keyUp'' c]) cs)"
proof (induction cs arbitrary: t)
  case Nil
  then show ?case by (simp add: map_filter_simps)
next
  case (Cons c cs)
  obtain u1 t1 u2 t2 t3 where 1: "send_key ch tab_id (key_event ''keyDown'' c) t = (Inr u1, t1)"
    and 2: "send_key ch tab_id (key_event ''keyUp'' c) t1 = (Inr u2, t2)"
    and 3: "t3 = t2 @ [Wait 10]" "type_chars ch tab_id cs t3 = (Inr u, t')"
    using Cons.prems by (auto simp: bind_Inr)
  obtain new where new: "t' = t3 @ new" "keys_of new = concat (map (\<lambda>c. [key_event ''keyDown'' c, key_event ''keyUp'' c]) cs)"
    using Cons.IH [OF 3(2)] by blast
  let ?d = "Debugger tab_id ''Input.dispatchKeyEvent''"
  have "t' = t @ ([?d (key_event ''keyDown'' c), ?d (key_event ''keyUp'' c), Wait 10] @ new)"
    using send_key_Inr [OF 1] send_key_Inr [OF 2] 3(1) new(1) by simp
  moreover have "keys_of ([?d (key_event ''keyDown'' c), ?d (key_event ''keyUp'' c), Wait 10] @ new) =
      concat (map (\<lambda>c. [key_event ''keyDown'' c, key_event ''keyUp'' c]) (c # cs))"
    using new(2) by (simp add: map_filter_append map_filter_simps)
  ultimately show ?case by blast
qed

text \<open>
  A text that is typed successfully sends exactly these key events, in order: Delete
  down, each character of the value down and up, and Enter down and up when asked for; the
  reply repeats the value.
\<close>

theorem type_sends_keys:
  assumes run: "handle_type_command ch args t = (Inr r, t')"
  shows "\<exists>new. t' = t @ new
     \<and> keys_of new = named_key ''keyDown'' 46 ''Delete''
         # concat (map (\<lambda>c. [key_event ''keyDown'' c, key_event ''keyUp'' c]) (typed_text (fld args ''value'')))
         @ (if truthy (fld args ''press_enter'')
            then [named_key ''keyDown'' 13 ''Enter'', named_key ''keyUp'' 13 ''Enter''] else [])
     \<and> fld r ''value'' = fld args ''value''"
proof -
  let ?pe = "with_default (fld args ''press_enter'') (JBool False)"
  have pe: "truthy ?pe = truthy (fld args ''press_enter'')" by (simp add: with_default_def)
  obtain tab t1 bid node t2 where 1: "require_active_tab ch t = (Inr tab, t1)"
    and 2: "find_element_by_dom_tree_id ch (fld tab ''id'') bid t1 = (Inr node, t2)"
    and r: "io_bind (await_call ch (Debugger (fld tab ''id'') ''DOM.focus'' (JObj [(''nodeId'', node)]))) (\<lambda>_.
         io_bind (send_key ch (fld tab ''id'') (named_key ''keyDown'' 46 ''Delete'')) (\<lambda>_.
         io_bind (type_chars ch (fld tab ''id'') (typed_text (fld args ''value''))) (\<lambda>_.
         io_bind (if truthy ?pe
                  then io_bind (send_key ch (fld tab ''id'') (named_key ''keyDown'' 13 ''Enter''))
                         (\<lambda>_. send_key ch (fld tab ''id'') (named_key ''keyUp'' 13 ''Enter''))
                  else ret ()) (\<lambda>_.
         ret (JObj [(''success'', JBool True), (''value'', fld args ''value''), (''press_enter'', ?pe)]))))) t2 = (Inr r, t')"
    using run unfolding handle_type_command_def Let_def by (auto simp: bind_Inr [of "require_active_tab ch"]
        bind_Inr [of "lift_exn x" for x] bind_Inr [of "find_element_by_dom_tree_id ch x y" for x y] split: if_splits)
  let ?d = "Debugger (fld tab ''id'') ''Input.dispatchKeyEvent''"
  let ?f = "Debugger (fld tab ''id'') ''DOM.focus'' (JObj [(''nodeId'', node)])"
  obtain u3 t3 u4 t4 u5 where 3: "send_key ch (fld tab ''id'') (named_key ''keyDown'' 46 ''Delete'') (t2 @ [?f]) = (Inr u3, t3)"
    and 4: "type_chars ch (fld tab ''id'') (typed_text (fld args ''value'')) t3 = (Inr u4, t4)"
    and 5: "(if truthy ?pe
                  then io_bind (send_key ch (fld tab ''id'') (named_key ''keyDown'' 13 ''Enter''))
                         (\<lambda>_. send_key ch (fld tab ''id'') (named_key ''keyUp'' 13 ''Enter''))
                  else ret ()) t4 = (Inr u5, t')"
    and rr: "r = JObj [(''success'', JBool True), (''value'', fld args ''value''), (''press_enter'', ?pe)]"
    using r by (auto simp: bind_Inr [of "await_call ch c" for c] bind_Inr [of "send_key ch x (named_key ''keyDown'' 46 y)" for x y]
        bind_Inr [of "type_chars ch x y" for x y] bind_Inr [of "if c then a else b" for c a b])
  obtain n1 where n1: "t1 = t @ n1" "\<forall>c \<in> set n1. no_input c"
    using only_new [OF only_tab 1, of no_input] by (auto simp: no_input_def)
  obtain n2 where n2: "t2 = t1 @ n2" "\<forall>c \<in> set n2. no_input c" using find_new [OF 2] by blast
  obtain n4 where n4: "t4 = t3 @ n4"
    "keys_of n4 = concat (map (\<lambda>c. [key_event ''keyDown'' c, key_event ''keyUp'' c]) (typed_text (fld args ''value'')))"
    using type_chars_keys [OF 4] by blast
  obtain n5 where n5: "t' = t4 @ n5" "keys_of n5 = (if truthy (fld args ''press_enter'')
            then [named_key ''keyDown'' 13 ''Enter'', named_key ''keyUp'' 13 ''Enter''] else [])"
  proof (cases "truthy (fld args ''press_enter'')")
    case True
    then obtain u t6 where a: "send_key ch (fld tab ''id'') (named_key ''keyDown'' 13 ''Enter'') t4 = (Inr u, t6)"
      and b: "send_key ch (fld tab ''id'') (named_key ''keyUp'' 13 ''Enter'') t6 = (Inr u5, t')"
      using 5 pe by (auto simp: bind_Inr)
    have "t' = t4 @ [?d (named_key ''keyDown'' 13 ''Enter''), ?d (named_key ''keyUp'' 13 ''Enter'')]"
      using send_key_Inr [OF a] send_key_Inr [OF b] by simp
    then show ?thesis using that True by (simp add: map_filter_simps)
  next
    case False
    then have "t' = t4 @ []" using 5 pe by simp
    then show ?thesis using that False by (simp add: map_filter_simps)
  qed
  let ?new = "n1 @ n2 @ [?f, ?d (named_key ''keyDown'' 46 ''Delete'')] @ n4 @ n5"
  have "t' = t @ ?new" using n1 n2 send_key_Inr [OF 3] n4(1) n5(1) by simp
  moreover have "keys_of ?new = named_key ''keyDown'' 46 ''Delete''
         # concat (map (\<lambda>c. [key_event ''keyDown'' c, key_event ''keyUp'' c]) (typed_text (fld args ''value'')))
         @ (if truthy (fld args ''press_enter'')
            then [named_key ''keyDown'' 13 ''Enter'', named_key ''keyUp'' 13 ''Enter''] else [])"
    using keys_none [OF n1(2)] keys_none [OF n2(2)] n4(2) n5(2)
    by (simp add: map_filter_append map_filter_simps)
  moreover have "fld r ''value'' = fld args ''value''" by (simp add: rr)
  ultimately show ?thesis by blast
qed

theorem type_sends_keys_witness:
  "\<exists>r new. handle_type_command demo_chrome demo_args [] = (Inr r, new) \<and> fld r ''value'' = JStr ''hi''"
proof -
  have s: "isl (fst (handle_type_command demo_chrome demo_args [])) = False" by code_simp
  obtain r t' where r: "handle_type_command demo_chrome demo_args [] = (Inr r, t')"
    using s by (metis isl_def prod.collapse sum.collapse(2))
  from type_sends_keys [OF r] r show ?thesis by (auto simp: demo_args_def)
qed

text \<open>
  Whatever goes wrong while the content script is sought, the caller sees one error,
  of the last ping; the error a restricted page raises is swallowed, and such a page passes
  when its second ping is answered.
\<close>

theorem ensure_script_error:
  "(ensure_content_script_injected ch tab_id t = (Inl e, t') \<longrightarrow> (\<exists>m. e = ''Content script not available: '' @ m))
   \<and> (ch_answer ch t (TabsGet tab_id) = Inr tab \<and> truthy tab \<and> fld tab ''url'' = JStr u \<and> restricted_url u
        \<and> ch_answer ch (t @ [TabsGet tab_id, Wait 1000]) (Ping tab_id ''Content script verification timeout'') = Inr p
        \<and> truthy p \<and> fld p ''type'' = JStr ''pong''
      \<longrightarrow> fst (ensure_content_script_injected ch tab_id t) = Inr ())"
proof (intro conjI impI)
  assume "ensure_content_script_injected ch tab_id t = (Inl e, t')"
  then show "\<exists>m. e = ''Content script not available: '' @ m"
    unfolding ensure_content_script_injected_def catch_Inl bind_Inl [of "note_call c" for c] by auto
next
  assume a: "ch_answer ch t (TabsGet tab_id) = Inr tab \<and> truthy tab \<and> fld tab ''url'' = JStr u \<and> restricted_url u
        \<and> ch_answer ch (t @ [TabsGet tab_id, Wait 1000]) (Ping tab_id ''Content script verification timeout'') = Inr p
        \<and> truthy p \<and> fld p ''type'' = JStr ''pong''"
  have c: "check_tab ch tab_id t = (Inl ''Cannot inject content script into restricted page'', t @ [TabsGet tab_id])"
    using a by (simp add: check_tab_def io_bind_def await_call_def throw_def)
  show "fst (ensure_content_script_injected ch tab_id t) = Inr ()"
    using a by (simp add: ensure_content_script_injected_def io_catch_def io_bind_def c note_call_def ping_script_def
        await_call_def ret_def)
qed

definition settings_chrome :: chrome where
  "settings_chrome = demo_chrome\<lparr>ch_answer := (\<lambda>_ c. case c of
     TabsGet tab \<Rightarrow> Inr (JObj [(''url'', JStr ''chrome://settings'')]) | _ \<Rightarrow> demo_answer c)\<rparr>"

theorem ensure_script_error_witness:
  "fst (ensure_content_script_injected settings_chrome (JNum 1) []) = Inr ()"
proof -
  let ?tab = "JObj [(''url'', JStr ''chrome://settings'')]" and ?p = "JObj [(''type'', JStr ''pong'')]"
  have "ch_answer settings_chrome [] (TabsGet (JNum 1)) = Inr ?tab" "truthy ?tab"
    "fld ?tab ''url'' = JStr ''chrome://settings''" "restricted_url ''chrome://settings''"
    "ch_answer settings_chrome ([] @ [TabsGet (JNum 1), Wait 1000]) (Ping (JNum 1) ''Content script verification timeout'') = Inr ?p"
    "truthy ?p" "fld ?p ''type'' = JStr ''pong''"
    by (simp_all add: settings_chrome_def demo_answer_def restricted_url_def)
  then show ?thesis using ensure_script_error [of settings_chrome "JNum 1" "[]"] by blast
qed

end
