(* ===== verification/Stream_Framing.thy ===== *)
theory Stream_Framing
  imports Prelude
begin

text \<open>
  Reading a text that arrives in pieces.  The readers of the program keep what has come
  in since the last separator in a buffer, append each chunk, split, handle the complete
  parts and keep the last one.  \<open>chunked\<close> states the contract of such a reader:
  what it has handed out and what it keeps depend on the text only, not on where the
  network cut it.  A chunk is the text the stream decoder returned for it.
\<close>

section \<open>The contract\<close>

fun feed_all :: "('b \<Rightarrow> 'c list \<Rightarrow> 'f list \<times> 'b) \<Rightarrow> 'b \<Rightarrow> 'c list list \<Rightarrow> 'f list \<times> 'b" where
  "feed_all push b [] = ([], b)"
| "feed_all push b (c # cs) =
     (let (fs, b1) = push b c; (gs, b2) = feed_all push b1 cs in (fs @ gs, b2))"

locale chunked =
  fixes push :: "'b \<Rightarrow> 'c list \<Rightarrow> 'f list \<times> 'b"
    and ok :: "'b \<Rightarrow> bool"
  assumes keeps: "ok b \<Longrightarrow> push b c = (fs, b') \<Longrightarrow> ok b'"
    and empty: "ok b \<Longrightarrow> push b [] = ([], b)"
    and joins: "ok b \<Longrightarrow> push b c = (fs, b1) \<Longrightarrow> push b1 d = (gs, b2) \<Longrightarrow> push b (c @ d) = (fs @ gs, b2)"
begin

lemma feed_all_push: "ok b \<Longrightarrow> feed_all push b cs = push b (concat cs)"
proof (induction cs arbitrary: b)
  case Nil
  show ?case by (simp add: Nil empty)
next
  case (Cons c cs)
  obtain fs b1 where 1: "push b c = (fs, b1)" by fastforce
  obtain gs b2 where 2: "push b1 (concat cs) = (gs, b2)" by fastforce
  have "feed_all push b1 cs = (gs, b2)" using Cons.IH [OF keeps [OF Cons.prems 1]] 2 by simp
  then show ?case using 1 joins [OF Cons.prems 1 2] by simp
qed

lemma chunks_irrelevant: "ok b \<Longrightarrow> concat cs = concat ds \<Longrightarrow> feed_all push b cs = feed_all push b ds"
  by (simp add: feed_all_push)

end

section \<open>Splitting at a separator\<close>

text \<open>
  \<open>buffer += chunk; parts = buffer.split(sep); buffer = parts.pop() || ''\<close>: the last
  part is never missing, so the alternative only replaces the empty string by itself.
\<close>

definition feed :: "string \<Rightarrow> string \<Rightarrow> string \<Rightarrow> string list \<times> string" where
  "feed sep buffer chunk =
     (let parts = split_str sep (buffer @ chunk) in (butlast parts, last parts))"

definition no_sep :: "string \<Rightarrow> string \<Rightarrow> bool" where
  "no_sep sep buffer \<longleftrightarrow> split_str sep buffer = [buffer]"

lemma last_split_no_sep:
  assumes "sep \<noteq> []" shows "split_str sep (last (split_str sep s)) = [last (split_str sep s)]"
  using assms
proof (induction sep s rule: split_str.induct)
  case (1 sep s)
  show ?case
  proof (cases "cut_first sep s")
    case None
    then show ?thesis using 1 by simp
  next
    case (Some p)
    obtain a b where p: "p = (a, b)" by (cases p)
    then show ?thesis using 1 Some by simp
  qed
qed

lemma feed_chunked:
  assumes "sep \<noteq> []" shows "chunked (feed sep) (no_sep sep)"
proof
  fix b c fs b' assume "feed sep b c = (fs, b')"
  then show "no_sep sep b'"
    using last_split_no_sep [OF assms, of "b @ c"] by (auto simp: feed_def no_sep_def Let_def)
next
  fix b assume "no_sep sep b"
  then show "feed sep b [] = ([], b)" by (simp add: feed_def no_sep_def)
next
  fix b c fs b1 d gs b2
  assume 1: "feed sep b c = (fs, b1)" and 2: "feed sep b1 d = (gs, b2)"
  have "split_str sep ((b @ c) @ d) = fs @ split_str sep (b1 @ d)"
    using 1 split_str_append [OF assms, of "b @ c" d] by (auto simp: feed_def Let_def)
  then show "feed sep b (c @ d) = (fs @ gs, b2)"
    using 2 assms by (auto simp: feed_def Let_def butlast_append)
qed

text \<open>The two readers: JSON lines, and blocks of an event stream.\<close>

abbreviation feed_lines :: "string \<Rightarrow> string \<Rightarrow> string list \<times> string" where
  "feed_lines \<equiv> feed [newline]"

abbreviation feed_blocks :: "string \<Rightarrow> string \<Rightarrow> string list \<times> string" where
  "feed_blocks \<equiv> feed [newline, newline]"

interpretation line_reader: chunked feed_lines "no_sep [newline]"
  by (rule feed_chunked) simp

interpretation block_reader: chunked feed_blocks "no_sep [newline, newline]"
  by (rule feed_chunked) simp

lemma no_sep_Nil [simp]: "sep \<noteq> [] \<Longrightarrow> no_sep sep []"
  by (simp add: no_sep_def)

end
