(* ===== verification/Agent_Query.thy ===== *)
theory Agent_Query
  imports Http_Stream Stream_Framing
begin

text \<open>
  The agent query of \<open>worker/http.stream.module.ts\<close>: a message of the popup is posted
  to the server, whose answer is a stream of JSON lines that are forwarded to the popup one
  by one, until a line says the agent is done or the stream ends.  \<open>JSON.parse\<close>, the
  answers of the browser and the chunks of the stream are arguments; a stream ends, or
  fails with an error.
\<close>

record body_stream =
  bs_chunks :: "string list"
  bs_error :: "exn option"

definition envelope :: "jv \<Rightarrow> jv" where
  "envelope data = JObj (spread [(''source'', JStr ''background'')] data)"

definition agent_done :: "jv \<Rightarrow> bool" where
  "agent_done ty \<longleftrightarrow> ty = JStr ''agent_complete'' \<or> ty = JStr ''agent_error''"

text \<open>
  One line: what cannot be parsed, or is \<open>null\<close> (whose \<open>type\<close> throws), is
  skipped; a failing forward is ignored.  The result says whether the query is over.
\<close>

definition process_line :: "chrome \<Rightarrow> (string \<Rightarrow> exn + jv) \<Rightarrow> string \<Rightarrow> bool io" where
  "process_line ch parse line =
     (if trim line = [] then ret False
      else io_catch
        (io_bind (lift_exn (parse line)) (\<lambda>data.
         io_bind (lift_exn (get_prop data ''type'')) (\<lambda>ty.
         io_bind (io_catch (io_bind (await_call ch (RuntimeSend (envelope data))) (\<lambda>_. ret ()))
                    (\<lambda>_. ret ())) (\<lambda>_.
         ret (agent_done ty)))))
        (\<lambda>_. ret False))"

fun process_lines :: "chrome \<Rightarrow> (string \<Rightarrow> exn + jv) \<Rightarrow> string list \<Rightarrow> bool io" where
  "process_lines ch parse [] = ret False"
| "process_lines ch parse (l # ls) =
     io_bind (process_line ch parse l) (\<lambda>fin. if fin then ret True else process_lines ch parse ls)"

definition query_success :: "string \<Rightarrow> jv" where
  "query_success m = JObj [(''type'', JStr ''success''), (''message'', JStr m)]"

text \<open>The reading loop with what follows it: the rest of the buffer is forwarded too.\<close>

fun read_agent :: "chrome \<Rightarrow> (string \<Rightarrow> exn + jv) \<Rightarrow> exn option \<Rightarrow> string \<Rightarrow> string list \<Rightarrow> jv io" where
  "read_agent ch parse err buffer [] =
     (case err of
        Some e \<Rightarrow> throw e
      | None \<Rightarrow> io_bind (process_line ch parse buffer) (\<lambda>_.
          ret (query_success ''Agent query stream completed'')))"
| "read_agent ch parse err buffer (c # cs) =
     (let (lines, rest) = feed_lines buffer c
      in io_bind (process_lines ch parse lines) (\<lambda>fin.
         if fin then ret (query_success ''Agent query completed'')
         else read_agent ch parse err rest cs))"

definition handle_agent_query ::
  "chrome \<Rightarrow> (string \<Rightarrow> exn + jv) \<Rightarrow> (jv \<Rightarrow> body_stream option) \<Rightarrow> string \<Rightarrow> jv \<Rightarrow> jv io" where
  "handle_agent_query ch parse body request_id query =
     io_catch
       (io_bind (await_call ch (Fetch (server_base @ ''/extension/agent_query'')
          (JObj [(''query'', query), (''request_id'', JStr request_id)]))) (\<lambda>response.
        if \<not> truthy (fld response ''ok'')
        then throw (''Failed to send agent query: '' @ str ch (fld response ''statusText''))
        else case body response of
               None \<Rightarrow> throw ''No response body reader available''
             | Some b \<Rightarrow> read_agent ch parse (bs_error b) [] (bs_chunks b)))
       (\<lambda>e. throw (err_text e))"

definition handle_popup_message ::
  "chrome \<Rightarrow> (string \<Rightarrow> exn + jv) \<Rightarrow> (jv \<Rightarrow> body_stream option) \<Rightarrow> string \<Rightarrow> http_state \<Rightarrow> jv \<Rightarrow> jv io" where
  "handle_popup_message ch parse body request_id s request =
     (if fld request ''type'' = JStr ''ping''
      then ret (JObj [(''type'', JStr ''pong''), (''connected'', JBool (hs_connected s))])
      else if fld request ''type'' = JStr ''send_agent_query''
      then (if \<not> hs_connected s then throw ''Not connected to backend server''
            else handle_agent_query ch parse body request_id (fld request ''query''))
      else throw (''Unknown popup message type: '' @ str ch (fld request ''type'')))"

text \<open>
  The listener: \<open>None\<close> when the message is not the popup's, otherwise the answer
  sent back and the calls made.  The message is an object.
\<close>

definition popup_listener ::
  "chrome \<Rightarrow> (string \<Rightarrow> exn + jv) \<Rightarrow> (jv \<Rightarrow> body_stream option) \<Rightarrow> string \<Rightarrow> http_state \<Rightarrow> jv \<Rightarrow> call list
     \<Rightarrow> (jv \<times> call list) option" where
  "popup_listener ch parse body request_id s request t =
     (if fld request ''source'' \<noteq> JStr ''popup'' then None
      else Some (case handle_popup_message ch parse body request_id s request t of
                   (Inr response, t') \<Rightarrow> (response, t')
                 | (Inl e, t') \<Rightarrow> (error_obj e, t')))"

section \<open>What a stream comes to\<close>

text \<open>The payloads of a list of lines up to the one that ends the query.\<close>

definition payload :: "(string \<Rightarrow> exn + jv) \<Rightarrow> string \<Rightarrow> jv option" where
  "payload parse line =
     (if trim line = [] then None
      else case parse line of Inl _ \<Rightarrow> None | Inr d \<Rightarrow> if nullish d then None else Some d)"

fun agent_payloads :: "(string \<Rightarrow> exn + jv) \<Rightarrow> string list \<Rightarrow> jv list \<times> bool" where
  "agent_payloads parse [] = ([], False)"
| "agent_payloads parse (l # ls) =
     (case payload parse l of
        None \<Rightarrow> agent_payloads parse ls
      | Some d \<Rightarrow>
          if agent_done (fld d ''type'') then ([d], True)
          else (let (ds, fin) = agent_payloads parse ls in (d # ds, fin)))"

abbreviation sends :: "jv list \<Rightarrow> call list" where
  "sends ds \<equiv> map (\<lambda>d. RuntimeSend (envelope d)) ds"

lemma process_line_payload:
  "process_line ch parse l t =
     (case payload parse l of
        None \<Rightarrow> (Inr False, t)
      | Some d \<Rightarrow> (Inr (agent_done (fld d ''type'')), t @ sends [d]))"
  by (auto simp: process_line_def payload_def io_catch_def io_bind_def lift_exn_def ret_def get_prop_def
      await_call_def split: sum.splits)

lemma process_lines_payloads:
  "process_lines ch parse ls t =
     (let (ds, fin) = agent_payloads parse ls in (Inr fin, t @ sends ds))"
proof (induction ls arbitrary: t)
  case Nil
  then show ?case by (simp add: ret_def)
next
  case (Cons l ls)
  show ?case
    by (cases "payload parse l") (auto simp: io_bind_def process_line_payload Cons.IH ret_def Let_def split: prod.splits)
qed

lemma agent_payloads_append:
  "agent_payloads parse (ls @ ms) =
     (let (ds, fin) = agent_payloads parse ls
      in if fin then (ds, True) else let (es, fin') = agent_payloads parse ms in (ds @ es, fin'))"
  by (induction ls) (auto split: option.splits prod.splits)

definition final_payload :: "(string \<Rightarrow> exn + jv) \<Rightarrow> exn option \<Rightarrow> bool \<Rightarrow> string \<Rightarrow> jv list" where
  "final_payload parse err fin rest =
     (if fin \<or> err \<noteq> None then [] else case payload parse rest of None \<Rightarrow> [] | Some d \<Rightarrow> [d])"

definition agent_outcome :: "exn option \<Rightarrow> bool \<Rightarrow> exn + jv" where
  "agent_outcome err fin =
     (if fin then Inr (query_success ''Agent query completed'')
      else case err of None \<Rightarrow> Inr (query_success ''Agent query stream completed'') | Some e \<Rightarrow> Inl e)"

lemma read_agent_payloads:
  assumes "feed_all feed_lines b cs = (lines, rest)" "agent_payloads parse lines = (ds, fin)"
  shows "read_agent ch parse err b cs t =
     (agent_outcome err fin, t @ sends (ds @ final_payload parse err fin rest))"
  using assms
proof (induction cs arbitrary: b t lines rest ds fin)
  case Nil
  then show ?case
    by (cases "payload parse b")
      (auto simp: agent_outcome_def final_payload_def io_bind_def process_line_payload ret_def throw_def split: option.splits)
next
  case (Cons c cs)
  obtain l1 b1 where 1: "feed_lines b c = (l1, b1)" by fastforce
  obtain l2 b2 where 2: "feed_all feed_lines b1 cs = (l2, b2)" by fastforce
  have l: "lines = l1 @ l2" "rest = b2" using Cons.prems(1) 1 2 by simp_all
  obtain d1 f1 where 3: "agent_payloads parse l1 = (d1, f1)" by fastforce
  obtain d2 f2 where 4: "agent_payloads parse l2 = (d2, f2)" by fastforce
  show ?case
  proof (cases f1)
    case True
    then have "ds = d1" "fin" using Cons.prems(2) l 3 by (simp_all add: agent_payloads_append)
    then show ?thesis using True 1 3
      by (simp add: io_bind_def process_lines_payloads ret_def agent_outcome_def final_payload_def)
  next
    case False
    then have "ds = d1 @ d2" "fin = f2" using Cons.prems(2) l 3 4 by (simp_all add: agent_payloads_append)
    then show ?thesis
      using False 1 3 Cons.IH [OF 2 4] l by (simp add: io_bind_def process_lines_payloads)
  qed
qed

lemma handle_agent_query_fed:
  assumes "ch_answer ch t (Fetch (server_base @ ''/extension/agent_query'')
      (JObj [(''query'', query), (''request_id'', JStr rid)])) = Inr response"
    and "truthy (fld response ''ok'')" "body response = Some b"
    and "feed_all feed_lines [] (bs_chunks b) = (lines, rest)"
    and "agent_payloads parse lines = (ds, fin)"
  shows "handle_agent_query ch parse body rid query t =
     (map_sum err_text id (agent_outcome (bs_error b) fin),
      t @ Fetch (server_base @ ''/extension/agent_query'') (JObj [(''query'', query), (''request_id'', JStr rid)])
        # sends (ds @ final_payload parse (bs_error b) fin rest))"
  using assms(1-3) read_agent_payloads [OF assms(4,5)]
  by (auto simp: handle_agent_query_def io_catch_def io_bind_def await_call_def throw_def split: sum.splits)

lemma feed_lines_split:
  "split_str [newline] (concat cs) = lines @ [rest] \<Longrightarrow> feed_all feed_lines [] cs = (lines, rest)"
  using line_reader.feed_all_push [of "[]" cs] by (simp add: feed_def)

text \<open>
  What a query comes to depends on the text of the answer only, not on the chunks it
  came in: the payloads of its lines are forwarded in order up to the first that ends the
  query, and otherwise also what follows the last line break; the query then succeeds, or
  fails with the error the stream ended in.
\<close>

theorem agent_query_forwards:
  assumes "ch_answer ch t (Fetch (server_base @ ''/extension/agent_query'')
      (JObj [(''query'', query), (''request_id'', JStr rid)])) = Inr response"
    and "truthy (fld response ''ok'')" "body response = Some b"
    and "split_str [newline] (concat (bs_chunks b)) = lines @ [rest]"
    and "agent_payloads parse lines = (ds, fin)"
  shows "handle_agent_query ch parse body rid query t =
     (map_sum err_text id (agent_outcome (bs_error b) fin),
      t @ Fetch (server_base @ ''/extension/agent_query'') (JObj [(''query'', query), (''request_id'', JStr rid)])
        # sends (ds @ final_payload parse (bs_error b) fin rest))"
  by (rule handle_agent_query_fed [where body = body and response = response, OF assms(1-3) feed_lines_split [OF assms(4)] assms(5)])

definition demo_parse :: "string \<Rightarrow> exn + jv" where
  "demo_parse l = (if l = ''go'' then Inr (JObj [(''type'', JStr ''agent_response'')])
     else if l = ''end'' then Inr (JObj [(''type'', JStr ''agent_complete'')]) else Inl ''Unexpected token'')"

definition demo_server :: chrome where
  "demo_server = \<lparr>ch_answer = (\<lambda>_ _. Inr (JObj [(''ok'', JBool True)])), ch_num = (\<lambda>_. ''0''), ch_now = 0\<rparr>"

theorem agent_query_forwards_witness:
  "fst (handle_agent_query demo_server demo_parse
     (\<lambda>_. Some \<lparr>bs_chunks = [''g'', ''o'' @ [newline] @ ''en'', ''d'' @ [newline] @ ''go'', [newline]], bs_error = None\<rparr>)
     ''r'' (JStr ''q'') []) = Inr (query_success ''Agent query completed'')"
proof -
  have s: "split_str [newline] (''go'' @ [newline] @ ''end'' @ [newline] @ ''go'' @ [newline]) = [''go'', ''end'', ''go''] @ [[]]"
    by (simp add: newline_def)
  have p: "agent_payloads demo_parse [''go'', ''end'', ''go''] =
      ([JObj [(''type'', JStr ''agent_response'')], JObj [(''type'', JStr ''agent_complete'')]], True)"
    by (simp add: payload_def demo_parse_def agent_done_def trim_def trim_start_def is_ws_def)
  show ?thesis
    using agent_query_forwards [of demo_server "[]" "JStr ''q''" "''r''" "JObj [(''ok'', JBool True)]"
        "\<lambda>_. Some \<lparr>bs_chunks = [''g'', ''o'' @ [newline] @ ''en'', ''d'' @ [newline] @ ''go'', [newline]], bs_error = None\<rparr>"
        "\<lparr>bs_chunks = [''g'', ''o'' @ [newline] @ ''en'', ''d'' @ [newline] @ ''go'', [newline]], bs_error = None\<rparr>"
        "[''go'', ''end'', ''go'']" "[]" demo_parse] s p
    by (simp add: demo_server_def agent_outcome_def)
qed

end
