(* ===== verification/Chat_Events.thy ===== *)
theory Chat_Events
  imports Js_Value Stream_Framing
begin

text \<open>
  The event stream of the chat (\<open>parseCugaStream\<close> in
  \<open>carbon-chat/customSendMessage.ts\<close>) and the helpers of
  \<open>carbon-chat/carbonChatHelpers.ts\<close> that turn the data of an event into reasoning
  steps, answers and approval cards.  \<open>JSON.parse\<close>, \<open>JSON.stringify\<close>, number
  printing and the constants of the chat library are arguments; non-ASCII literals are
  written by their UTF-8 bytes.
\<close>

record chat_env =
  ce_parse :: "string \<Rightarrow> exn + jv"
  ce_pretty :: "jv \<Rightarrow> string"
  ce_num :: "rat \<Rightarrow> string"
  ce_text :: jv
  ce_card :: jv
  ce_button :: jv
  ce_custom_event :: jv
  ce_open :: jv
  ce_close :: jv
  ce_bot :: jv
  ce_input_text :: jv

abbreviation nl :: string where "nl \<equiv> [newline]"
abbreviation nlnl :: string where "nlnl \<equiv> [newline, newline]"

section \<open>The event stream\<close>

record cuga_event =
  ev_name :: string
  ev_data :: string

text \<open>
  \<open>currentEvent\<close>: both fields may be missing.  It is only reset when an event is
  handed out, so half an event waits for the next block.
\<close>

type_synonym partial_event = "string option \<times> string option"

definition read_line :: "partial_event \<Rightarrow> string \<Rightarrow> partial_event" where
  "read_line cur line =
     (if starts_with line ''event: '' then (Some (trim (drop 7 line)), snd cur)
      else if starts_with line ''data: '' then (fst cur, Some (drop 6 line))
      else cur)"

definition read_block :: "partial_event \<Rightarrow> string \<Rightarrow> cuga_event list \<times> partial_event" where
  "read_block cur block =
     (if trim block = [] then ([], cur)
      else case foldl read_line cur (split_str nl block) of
             (Some name, Some data) \<Rightarrow>
               if name \<noteq> [] then ([\<lparr>ev_name = name, ev_data = data\<rparr>], (None, None))
               else ([], (Some name, Some data))
           | cur' \<Rightarrow> ([], cur'))"

fun read_blocks :: "partial_event \<Rightarrow> string list \<Rightarrow> cuga_event list \<times> partial_event" where
  "read_blocks cur [] = ([], cur)"
| "read_blocks cur (b # bs) =
     (let (es, cur1) = read_block cur b; (fs, cur2) = read_blocks cur1 bs in (es @ fs, cur2))"

text \<open>
  The events the generator yields for the chunks of a body.  What is left in the buffer
  at the end is not looked at.
\<close>

fun read_events :: "string \<Rightarrow> partial_event \<Rightarrow> string list \<Rightarrow> cuga_event list" where
  "read_events buffer cur [] = []"
| "read_events buffer cur (c # cs) =
     (let (blocks, rest) = feed_blocks buffer c; (es, cur1) = read_blocks cur blocks
      in es @ read_events rest cur1 cs)"

definition parse_cuga_stream :: "string list \<Rightarrow> cuga_event list" where
  "parse_cuga_stream chunks = read_events [] (None, None) chunks"

section \<open>Helpers\<close>

definition template :: "chat_env \<Rightarrow> jv \<Rightarrow> string" where
  "template E v = js_to_string (ce_num E) v"

text \<open>The lazy group of \<open>/data: (.+?)(?:\\n\\n|$)/s\<close>.\<close>

fun lazy_data :: "string \<Rightarrow> string" where
  "lazy_data [] = []"
| "lazy_data (c # cs) = (if cs = [] \<or> prefix nlnl cs then [c] else c # lazy_data cs)"

definition extract_event_data :: "string \<Rightarrow> string" where
  "extract_event_data event_data =
     (case cut_first ''data: '' event_data of
        Some (_, rest) \<Rightarrow> if rest \<noteq> [] then trim (lazy_data rest) else event_data
      | None \<Rightarrow> event_data)"

definition fence :: string where "fence = replicate 3 CHR 0x60"

definition parse_reasoning_step_content :: "chat_env \<Rightarrow> string \<Rightarrow> string \<Rightarrow> string \<times> string" where
  "parse_reasoning_step_content E data title =
     (case ce_parse E data of
        Inl _ \<Rightarrow> (title, data)
      | Inr parsed \<Rightarrow>
          if nullish parsed then (title, data)
          else
            let with_summary = (\<lambda>c. if truthy (fld parsed ''summary'')
                                    then template E (fld parsed ''summary'') @ nlnl @ c else c)
            in (title,
                if truthy (fld parsed ''code'')
                then with_summary (fence @ ''python'' @ nl @ template E (fld parsed ''code'') @ nl @ fence)
                else if truthy (fld parsed ''execution_output'')
                then with_summary (''**Execution Output:**'' @ nl @ fence @ nl
                       @ template E (fld parsed ''execution_output'') @ nl @ fence)
                else fence @ ''json'' @ nl @ ce_pretty E parsed @ nl @ fence))"

definition reasoning_step :: "string \<Rightarrow> string \<Rightarrow> jv \<Rightarrow> jv" where
  "reasoning_step title content open_state =
     JObj [(''title'', JStr title), (''content'', JStr content), (''open_state'', open_state)]"

definition response_user_profile :: "chat_env \<Rightarrow> jv" where
  "response_user_profile E =
     JObj [(''id'', JStr ''cuga-agent''), (''nickname'', JStr ''CUGA''), (''user_type'', ce_bot E),
           (''profile_picture_url'', JStr ''https://avatars.githubusercontent.com/u/230847519?s=200&v=4'')]"

record policy_info =
  pi_response_content :: jv
  pi_reasoning :: jv
  pi_type :: jv
  pi_name :: jv
  pi_is_playbook :: bool
  pi_playbook_content :: jv

record answer_result =
  ar_text :: jv
  ar_policy :: "policy_info option"
  ar_approval :: jv
  ar_data :: jv

text \<open>\<open>v?.[0]\<close>.\<close>

definition opt_first :: "jv \<Rightarrow> jv" where
  "opt_first v =
     (case v of JArr (x # _) \<Rightarrow> x | JStr (c # _) \<Rightarrow> JStr [c] | JObj fs \<Rightarrow> fld v ''0'' | _ \<Rightarrow> JUndef)"

definition policy_info_of :: "jv \<Rightarrow> policy_info" where
  "policy_info_of policy =
     (let md = fld policy ''metadata''; playbook = (fld policy ''policy_type'' = JStr ''playbook'')
      in \<lparr>pi_response_content =
            js_or (js_or (opt_prop md ''response_content'') (fld policy ''content''))
              (JStr (if playbook then [] else ''This action is not allowed.'')),
          pi_reasoning = js_or (opt_prop md ''policy_reasoning'') (JStr ''Policy triggered''),
          pi_type = js_or (js_or (fld policy ''policy_type'') (opt_prop md ''policy_type'')) (JStr ''unknown''),
          pi_name = js_or (js_or (fld policy ''policy_name'') (opt_prop md ''policy_name'')) (JStr ''Policy''),
          pi_is_playbook = playbook,
          pi_playbook_content =
            js_or (js_or (opt_prop md ''playbook_guidance'') (opt_prop md ''playbook_content'')) (fld policy ''content'')\<rparr>)"

definition book_sign :: string where
  "book_sign = [CHR 0xF0, CHR 0x9F, CHR 0x93, CHR 0x96]"

definition shield_sign :: string where
  "shield_sign = [CHR 0xF0, CHR 0x9F, CHR 0x9B, CHR 0xA1, CHR 0xEF, CHR 0xB8, CHR 0x8F]"

definition hand_sign :: string where
  "hand_sign = [CHR 0xE2, CHR 0x9C, CHR 0x8B]"

definition playbook_text :: "chat_env \<Rightarrow> jv \<Rightarrow> policy_info \<Rightarrow> string" where
  "playbook_text E acc info =
     template E (js_or acc (JStr ''Following the playbook to guide you through this process.''))
     @ nlnl @ ''> ###### '' @ book_sign @ '' *Playbook Information*'' @ nl @ ''>'' @ nl
     @ ''> *Playbook Name:* **'' @ template E (pi_name info) @ ''**'' @ nl @ ''>'' @ nl
     @ ''> *Reasoning:* '' @ template E (pi_reasoning info)"

definition policy_text :: "chat_env \<Rightarrow> policy_info \<Rightarrow> string" where
  "policy_text E info =
     template E (pi_response_content info)
     @ nlnl @ ''> ###### '' @ shield_sign @ '' *Policy Information*'' @ nl @ ''>'' @ nl
     @ ''> *Policy Name:* **'' @ template E (pi_name info) @ ''**'' @ nl @ ''>'' @ nl
     @ ''> *Policy Type:* '' @ [CHR 0x60] @ template E (pi_type info) @ [CHR 0x60] @ nl @ ''>'' @ nl
     @ ''> *Reasoning:* '' @ template E (pi_reasoning info)"

definition parse_answer_event_data :: "chat_env \<Rightarrow> string \<Rightarrow> jv \<Rightarrow> answer_result" where
  "parse_answer_event_data E data acc =
     (let none = \<lparr>ar_text = acc, ar_policy = None, ar_approval = JBool False, ar_data = JNull\<rparr>;
          failed = none\<lparr>ar_text := js_or acc (JStr data)\<rparr>
      in case ce_parse E data of
           Inl _ \<Rightarrow> failed
         | Inr parsed \<Rightarrow>
             if nullish parsed then failed
             else
               let outer = fld parsed ''data'';
                   inner = (case outer of
                       JStr s \<Rightarrow> (case ce_parse E s of Inr v \<Rightarrow> v | Inl _ \<Rightarrow> outer)
                     | _ \<Rightarrow> outer);
                   policy = (if opt_prop inner ''type'' = JStr ''policy'' then inner
                             else js_nullor (opt_first (fld parsed ''active_policies'')) JNull)
               in if truthy policy \<and> (truthy (fld policy ''policy_blocked'') \<or> truthy (fld policy ''policy_matched''))
                  then
                    let info = policy_info_of policy;
                        approval = (if fld policy ''policy_type'' = JStr ''tool_approval''
                                    then opt_prop (fld policy ''metadata'') ''approval_required'' else JBool False);
                        r = none\<lparr>ar_policy := Some info, ar_data := policy, ar_approval := approval\<rparr>
                    in if truthy approval then r
                       else r\<lparr>ar_text := JStr (if pi_is_playbook info then playbook_text E acc info
                                               else policy_text E info)\<rparr>
                  else none\<lparr>ar_text := js_or acc (case inner of JStr s \<Rightarrow> inner
                                                  | _ \<Rightarrow> js_nullor outer (JStr data))\<rparr>)"

text \<open>Methods of arrays on dynamic values; on other values the call throws.\<close>

definition has_items :: "jv \<Rightarrow> bool" where
  "has_items v \<longleftrightarrow> (case fld v ''length'' of JNum q \<Rightarrow> 0 < q | _ \<Rightarrow> False)"

definition not_function :: "string \<Rightarrow> exn" where
  "not_function what = what @ '' is not a function''"

definition js_join :: "chat_env \<Rightarrow> string \<Rightarrow> jv \<Rightarrow> string \<Rightarrow> exn + string" where
  "js_join E what v sep =
     (case v of
        JArr xs \<Rightarrow> Inr (join sep (map (\<lambda>x. if nullish x then [] else template E x) xs))
      | _ \<Rightarrow> Inl (not_function (what @ ''.join'')))"

definition js_includes :: "string \<Rightarrow> jv \<Rightarrow> string \<Rightarrow> exn + bool" where
  "js_includes what v s =
     (case v of
        JArr xs \<Rightarrow> Inr (JStr s \<in> set xs)
      | JStr t \<Rightarrow> Inr (includes_str t s)
      | _ \<Rightarrow> Inl (not_function (what @ ''.includes'')))"

definition text_item :: "chat_env \<Rightarrow> jv \<Rightarrow> jv" where
  "text_item E v = JObj [(''response_type'', ce_text E), (''text'', v)]"

definition approval_button :: "chat_env \<Rightarrow> string \<Rightarrow> string \<Rightarrow> bool \<Rightarrow> string \<Rightarrow> jv" where
  "approval_button E kind label approved thread_id =
     JObj [(''kind'', JStr kind), (''label'', JStr label), (''button_type'', ce_custom_event E),
           (''response_type'', ce_button E), (''custom_event_name'', JStr ''tool_approval_response''),
           (''user_defined'', JObj [(''approved'', JBool approved), (''thread_id'', JStr thread_id)])]"

definition code_preview_items :: "chat_env \<Rightarrow> string \<Rightarrow> jv \<Rightarrow> exn + jv list" where
  "code_preview_items E what code =
     (if has_items code then
        try_bind (js_join E what code nl) (\<lambda>c.
        Inr [text_item E (JStr ''**Code Preview:**''),
             text_item E (JStr (fence @ ''python'' @ nl @ c @ nl @ fence))])
      else Inr [])"

definition build_tool_approval_card :: "chat_env \<Rightarrow> policy_info \<Rightarrow> jv \<Rightarrow> string \<Rightarrow> exn + jv list \<times> jv list" where
  "build_tool_approval_card E info policy thread_id =
     (let md = fld policy ''metadata'';
          list = (\<lambda>k. js_or (opt_prop md k) (JArr []));
          tools = list ''required_tools''; apps = list ''required_apps''; code = list ''code_preview'';
          msg = js_or (opt_prop md ''approval_message'')
                  (JStr ''This tool requires your approval before execution.'')
      in try_bind
           (if has_items tools then
              try_bind (js_includes ''toolsList'' tools ''*'') (\<lambda>all.
              if all then Inr [text_item E (JStr ''**Tools requiring approval:** All tools'')]
              else try_bind (js_join E ''toolsList'' tools '', '') (\<lambda>s.
                Inr [text_item E (JStr (''**Tools requiring approval:** '' @ s))]))
            else Inr []) (\<lambda>t.
         try_bind
           (if has_items apps then
              try_bind (js_join E ''appsList'' apps '', '') (\<lambda>s.
                Inr [text_item E (JStr (''**Apps requiring approval:** '' @ s))])
            else Inr []) (\<lambda>a.
         try_bind (code_preview_items E ''codePreview'' code) (\<lambda>c.
         Inr ([text_item E (JStr (''### '' @ hand_sign @ '' '' @ template E (pi_name info))), text_item E msg] @ t @ a @ c,
              [approval_button E ''primary'' ''Approve & Execute'' True thread_id,
               approval_button E ''danger'' ''Deny'' False thread_id])))))"

section \<open>Properties of the stream\<close>

lemma read_blocks_append:
  "read_blocks cur (bs @ cs) =
     (let (es, cur1) = read_blocks cur bs; (fs, cur2) = read_blocks cur1 cs in (es @ fs, cur2))"
  by (induction bs arbitrary: cur) (simp_all split: prod.splits)

lemma read_events_blocks:
  "feed_all feed_blocks b cs = (blocks, rest) \<Longrightarrow> read_events b cur cs = fst (read_blocks cur blocks)"
proof (induction cs arbitrary: b cur blocks)
  case Nil
  then show ?case by simp
next
  case (Cons c cs)
  obtain b1 r1 where 1: "feed_blocks b c = (b1, r1)" by fastforce
  obtain b2 r2 where 2: "feed_all feed_blocks r1 cs = (b2, r2)" by fastforce
  have "blocks = b1 @ b2" "rest = r2" using Cons.prems 1 2 by simp_all
  then show ?case
    using Cons.IH [of r1 b2] 1 2 by (simp add: read_blocks_append split: prod.split)
qed

lemma parse_cuga_stream_text:
  "parse_cuga_stream cs = fst (read_blocks (None, None) (butlast (split_str nlnl (concat cs))))"
proof -
  obtain blocks rest where f: "feed_all feed_blocks [] cs = (blocks, rest)" by fastforce
  have "blocks = butlast (split_str nlnl (concat cs))"
    using f block_reader.feed_all_push [of "[]" cs] by (simp add: feed_def Let_def)
  then show ?thesis using read_events_blocks [OF f] by (simp add: parse_cuga_stream_def)
qed

lemma cut_at_blank_line:
  assumes "newline \<notin> set y" shows "cut_first nlnl (y @ nlnl @ s) = Some (y, s)"
  using assms by (induction y) auto

lemma cut_block:
  assumes "newline \<notin> set x" "newline \<notin> set y" "y \<noteq> []"
  shows "cut_first nlnl (x @ newline # y @ nlnl @ s) = Some (x @ newline # y, s)"
  using assms(1)
proof (induction x)
  case Nil
  obtain c ys where y: "y = c # ys" using assms(3) by (cases y) auto
  have "\<not> prefix nlnl (newline # y @ nlnl @ s)" using assms(2) y by auto
  then show ?case using cut_at_blank_line [OF assms(2), of s] by simp
next
  case (Cons c x)
  then show ?case by auto
qed

lemma trim_start_Nil: "trim_start s = [] \<longleftrightarrow> (\<forall>c \<in> set s. is_ws c)"
  by (simp add: trim_start_def dropWhile_eq_Nil_conv)

lemma trim_not_Nil:
  assumes "\<not> is_ws c" shows "trim (c # s) \<noteq> []"
  using assms trim_start_Nil [of "rev s @ [c]"] by (simp add: trim_def trim_start_def)

definition encode_event :: "cuga_event \<Rightarrow> string" where
  "encode_event e = ''event: '' @ ev_name e @ nl @ ''data: '' @ ev_data e @ nlnl"

definition plain_event :: "cuga_event \<Rightarrow> bool" where
  "plain_event e \<longleftrightarrow> ev_name e \<noteq> [] \<and> trim (ev_name e) = ev_name e
     \<and> newline \<notin> set (ev_name e) \<and> newline \<notin> set (ev_data e)"

lemma read_block_event:
  assumes "plain_event e"
  shows "read_block (None, None) (''event: '' @ ev_name e @ nl @ ''data: '' @ ev_data e) = ([e], (None, None))"
proof -
  let ?lines = "[''event: '' @ ev_name e, ''data: '' @ ev_data e]"
  have "\<forall>x \<in> set ?lines. newline \<notin> set x"
    using assms by (auto simp: plain_event_def newline_def)
  then have s: "split_str nl (join nl ?lines) = ?lines" by (intro split_join) simp_all
  have t: "trim (''event: '' @ ev_name e @ nl @ ''data: '' @ ev_data e) \<noteq> []"
    using trim_not_Nil [of "CHR ''e''"] by (simp add: is_ws_def)
  have "foldl read_line (None, None) ?lines = (Some (ev_name e), Some (ev_data e))"
    using assms by (simp add: read_line_def starts_with_def plain_event_def)
  then show ?thesis using s t assms by (simp add: read_block_def plain_event_def)
qed

lemma split_encoded:
  assumes "plain_event e"
  shows "split_str nlnl (encode_event e @ s) =
     (''event: '' @ ev_name e @ nl @ ''data: '' @ ev_data e) # split_str nlnl s"
proof -
  have "newline \<notin> set (''event: '' @ ev_name e)" "newline \<notin> set (''data: '' @ ev_data e)"
    using assms by (auto simp: plain_event_def newline_def)
  from cut_block [OF this, of s]
  have "cut_first nlnl (encode_event e @ s) = Some (''event: '' @ ev_name e @ nl @ ''data: '' @ ev_data e, s)"
    by (simp add: encode_event_def)
  then show ?thesis by simp
qed



end
