(* ===== verification/Chat_Send.thy ===== *)
theory Chat_Send
  imports Chat_Events
begin

text \<open>
  \<open>customSendMessage\<close>: one request of the chat.  It opens a message, posts the
  request, and turns the events of the answer into reasoning steps shown as they come and
  one ending.  What it does is a list of effects.  The reply of the server and the moment
  the user cancels are arguments; the values of \<open>steps\<close> handed to the chat are those
  at the time of the call.  The data of an event is a string, the only kind
  \<open>parseCugaStream\<close> yields.
\<close>

record js_error =
  er_name :: string
  er_message :: string

datatype chat_effect =
    AddMessage jv
  | AddChunk jv
  | PostStream jv string bool bool
  | PostStop string

text \<open>The reply to the request; a body is its chunks and the error it breaks off with.\<close>

datatype stream_reply =
    Rejected js_error
  | NotOk jv string
  | NoBody
  | Streams "string list" "js_error option"

record send_state =
  ss_steps :: "jv list"
  ss_text :: jv
  ss_title :: string
  ss_content :: string

datatype send_next = Continue send_state | Finished | Failed js_error

section \<open>What is shown\<close>

definition simple_message :: "chat_env \<Rightarrow> jv \<Rightarrow> jv" where
  "simple_message E item = JObj [(''output'', JObj [(''generic'', JArr [item])])]"

definition card_item :: "chat_env \<Rightarrow> jv list \<Rightarrow> jv list \<Rightarrow> jv" where
  "card_item E body footer = JObj [(''body'', JArr body), (''footer'', JArr footer), (''response_type'', ce_card E)]"

definition reasoning_options :: "chat_env \<Rightarrow> jv list \<Rightarrow> jv" where
  "reasoning_options E steps =
     JObj [(''reasoning'', JObj [(''steps'', JArr steps)]), (''response_user_profile'', response_user_profile E)]"

definition partial_chunk :: "chat_env \<Rightarrow> string \<Rightarrow> jv list \<Rightarrow> jv" where
  "partial_chunk E rid steps =
     JObj [(''partial_item'', JObj [(''response_type'', ce_text E), (''text'', JStr []),
              (''streaming_metadata'', JObj [(''id'', JStr ''text-stream''), (''cancellable'', JBool True)])]),
           (''partial_response'', JObj [(''message_options'', reasoning_options E steps)]),
           (''streaming_metadata'', JObj [(''response_id'', JStr rid)])]"

definition complete_item :: "chat_env \<Rightarrow> jv \<Rightarrow> jv" where
  "complete_item E text =
     JObj [(''response_type'', ce_text E), (''text'', text),
           (''streaming_metadata'', JObj [(''id'', JStr ''text-stream'')])]"

text \<open>The two chunks that finalize a message; options carry the steps when there are any.\<close>

definition finalize :: "chat_env \<Rightarrow> string \<Rightarrow> jv list \<Rightarrow> jv \<Rightarrow> chat_effect list" where
  "finalize E rid steps text =
     [AddChunk (JObj [(''complete_item'', complete_item E text),
        (''streaming_metadata'', JObj [(''response_id'', JStr rid)])]),
      AddChunk (JObj [(''final_response'', JObj [(''id'', JStr rid),
        (''output'', JObj [(''generic'', JArr [complete_item E text])]),
        (''message_options'', if steps \<noteq> [] then reasoning_options E steps
           else JObj [(''response_user_profile'', response_user_profile E)])])])]"

section \<open>One event\<close>

text \<open>The step that is still open joins the collected ones when it has a title and content.\<close>

definition flush_step :: "chat_env \<Rightarrow> send_state \<Rightarrow> jv list" where
  "flush_step E s =
     (if ss_title s \<noteq> [] \<and> ss_content s \<noteq> []
      then ss_steps s @ [reasoning_step (ss_title s) (ss_content s) (ce_open E)] else ss_steps s)"

definition open_step :: "chat_env \<Rightarrow> string \<Rightarrow> string \<Rightarrow> string \<Rightarrow> send_state \<Rightarrow> chat_effect list \<times> send_next" where
  "open_step E rid data label s =
     (let steps = flush_step E s; (title, content) = parse_reasoning_step_content E data label
      in (if content \<noteq> []
          then [AddChunk (partial_chunk E rid (steps @ [JObj [(''title'', JStr title), (''content'', JStr content)]]))]
          else [],
          Continue (s\<lparr>ss_steps := steps, ss_title := title, ss_content := content\<rparr>)))"

definition closed_step :: "chat_env \<Rightarrow> string \<Rightarrow> string \<Rightarrow> string \<Rightarrow> send_state \<Rightarrow> chat_effect list \<times> send_next" where
  "closed_step E rid title content s =
     (let steps = ss_steps s @ [reasoning_step title content (ce_close E)]
      in ([AddChunk (partial_chunk E rid steps)], Continue (s\<lparr>ss_steps := steps\<rparr>)))"

definition js_ne_list :: "jv \<Rightarrow> bool" where
  "js_ne_list v \<longleftrightarrow> truthy v \<and> has_items v"

definition tool_items :: "chat_env \<Rightarrow> jv \<Rightarrow> exn + jv list" where
  "tool_items E tool =
     (if \<not> truthy tool then Inr []
      else try_bind
        (if js_ne_list (fld tool ''required_tools'') then
           try_bind (js_join E ''toolData.required_tools'' (fld tool ''required_tools'') '', '') (\<lambda>r.
           Inr [text_item E (JStr (''**Required Tools:** '' @ r))])
         else Inr []) (\<lambda>r.
        try_bind
        (if js_ne_list (fld tool ''code_preview'')
         then code_preview_items E ''toolData.code_preview'' (fld tool ''code_preview'') else Inr []) (\<lambda>c.
        Inr (r @ c @ (if truthy (fld tool ''policy_name'')
                      then [text_item E (JStr (''**Policy:** '' @ template E (fld tool ''policy_name'')))]
                      else [])))))"

definition action_button :: "chat_env \<Rightarrow> string \<Rightarrow> jv \<Rightarrow> bool \<Rightarrow> string \<Rightarrow> jv \<Rightarrow> jv" where
  "action_button E kind label approved tid action =
     JObj [(''kind'', JStr kind), (''label'', label), (''button_type'', ce_custom_event E),
           (''response_type'', ce_button E), (''custom_event_name'', JStr ''suggest_human_action''),
           (''user_defined'', JObj [(''action_id'', fld action ''action_id''), (''approved'', JBool approved),
              (''thread_id'', JStr tid), (''callback_url'', fld action ''callback_url''),
              (''return_to'', fld action ''return_to'')])]"

definition suggest_card :: "chat_env \<Rightarrow> string \<Rightarrow> string \<Rightarrow> exn + jv" where
  "suggest_card E tid data =
     try_bind (ce_parse E data) (\<lambda>action.
     try_bind (get_prop action ''action_name'') (\<lambda>name.
     try_bind (tool_items E (opt_prop (fld action ''additional_data'') ''tool'')) (\<lambda>tool.
     let body = [text_item E (JStr (''### '' @ template E (js_or name (JStr ''Action Required''))))]
           @ (if truthy (fld action ''description'') then [text_item E (fld action ''description'')] else [])
           @ tool;
         kind = (if fld action ''color'' = JStr ''danger'' then ''danger'' else ''primary'');
         footer = (if truthy (fld action ''button_text'')
                   then [action_button E kind (fld action ''button_text'') True tid action] else [])
           @ (if fld action ''type'' = JStr ''confirmation''
              then [action_button E ''secondary'' (JStr ''Cancel'') False tid action] else [])
     in Inr (simple_message E (card_item E body footer)))))"

definition send_event :: "chat_env \<Rightarrow> string \<Rightarrow> string \<Rightarrow> cuga_event \<Rightarrow> send_state \<Rightarrow> chat_effect list \<times> send_next" where
  "send_event E rid tid e s =
     (let name = ev_name e; data = ev_data e
      in if name = ''CodeAgent'' then open_step E rid data ''Code Agent'' s
         else if name \<in> {''CodeAgent_Reasoning'', ''Thinking'', ''Planning'', ''Analyzing''}
         then open_step E rid data (map (\<lambda>c. if c = CHR ''_'' then CHR '' '' else c) name) s
         else if name \<in> {''ToolCall'', ''Action''}
         then closed_step E rid name (fence @ ''json'' @ nl @ data @ nl @ fence) s
         else if name = ''SuggestHumanActions''
         then (case suggest_card E tid data of
                 Inr m \<Rightarrow> ([AddMessage m], Finished)
               | Inl _ \<Rightarrow> ([], Continue s))
         else if name = ''FinalAnswerAgent''
         then ([], Continue (s\<lparr>ss_text :=
                 (case ce_parse E data of
                    Inl _ \<Rightarrow> JStr data
                  | Inr parsed \<Rightarrow> if nullish parsed then JStr data
                      else js_or (js_or (fld parsed ''final_answer'') (fld parsed ''data'')) (JStr data))\<rparr>))
         else if name \<in> {''Answer'', ''FinalAnswer''}
         then (let r = parse_answer_event_data E data (ss_text s)
               in case (truthy (ar_approval r) \<and> truthy (ar_data r), ar_policy r) of
                    (True, Some info) \<Rightarrow>
                      (case build_tool_approval_card E info (ar_data r) tid of
                         Inr (body, footer) \<Rightarrow> ([AddMessage (simple_message E (card_item E body footer))], Finished)
                       | Inl m \<Rightarrow> ([], Failed \<lparr>er_name = ''TypeError'', er_message = m\<rparr>))
                  | _ \<Rightarrow> (finalize E rid (flush_step E s) (ar_text r), Finished))
         else if name = ''Error''
         then ([AddMessage (simple_message E (text_item E (JStr (''Error: '' @ data))))], Finished)
         else if name \<in> {''Complete'', ''Done''}
         then (finalize E rid
                 (if ss_title s \<noteq> [] then ss_steps s @ [reasoning_step (ss_title s) (ss_content s) (ce_open E)]
                  else ss_steps s)
                 (js_or (ss_text s) (JStr ''Task completed.'')), Finished)
         else if data \<noteq> [] then closed_step E rid name data s
         else ([], Continue s))"

section \<open>The request\<close>

text \<open>
  The signal is aborted once \<open>n\<close> events have been taken, or never.  The abort handler
  posts a stop for the thread; the loop notices before the next event.
\<close>

definition aborted :: "nat option \<Rightarrow> nat \<Rightarrow> bool" where
  "aborted ab k \<longleftrightarrow> (case ab of Some n \<Rightarrow> n \<le> k | None \<Rightarrow> False)"

fun send_loop ::
  "chat_env \<Rightarrow> string \<Rightarrow> string \<Rightarrow> nat option \<Rightarrow> js_error option \<Rightarrow> nat \<Rightarrow> cuga_event list \<Rightarrow> send_state
     \<Rightarrow> chat_effect list \<times> js_error option" where
  "send_loop E rid tid ab err k [] s =
     (let stop = (if aborted ab k then [PostStop tid] else [])
      in case err of
           Some e \<Rightarrow> (stop, Some e)
         | None \<Rightarrow> (stop @ (if aborted ab k then []
                            else finalize E rid (ss_steps s) (js_or (ss_text s) (JStr ''Response completed.''))), None))"
| "send_loop E rid tid ab err k (e # es) s =
     (if aborted ab k then ([PostStop tid], None)
      else case send_event E rid tid e s of
             (out, Continue s') \<Rightarrow>
               (let (outs, r) = send_loop E rid tid ab err (Suc k) es s' in (out @ outs, r))
           | (out, Finished) \<Rightarrow> (out, None)
           | (out, Failed x) \<Rightarrow> (out, Some x))"

definition start_send :: send_state where
  "start_send = \<lparr>ss_steps = [], ss_text = JStr [], ss_title = [], ss_content = []\<rparr>"

definition error_message :: "chat_env \<Rightarrow> string \<Rightarrow> js_error \<Rightarrow> chat_effect" where
  "error_message E url e =
     AddMessage (simple_message E (text_item E (JStr
       (if er_name e = ''AbortError'' then ''Request was cancelled.''
        else ''Error: '' @ (if er_message e \<noteq> [] then er_message e else ''Failed to connect to CUGA backend'')
          @ ''. Backend URL: '' @ url
          @ ''. Check that the backend is running and reachable (e.g. CORS, firewall, proxy).''))))"

definition shell_chunk :: "chat_env \<Rightarrow> string \<Rightarrow> chat_effect" where
  "shell_chunk E rid = AddChunk (partial_chunk E rid [])"

definition stop_if :: "string \<Rightarrow> bool \<Rightarrow> chat_effect list" where
  "stop_if tid b = (if b then [PostStop tid] else [])"

definition custom_send_message ::
  "chat_env \<Rightarrow> string \<Rightarrow> string \<Rightarrow> string \<Rightarrow> string \<Rightarrow> jv \<Rightarrow> bool \<Rightarrow> bool \<Rightarrow> nat option \<Rightarrow> stream_reply
     \<Rightarrow> chat_effect list" where
  "custom_send_message E url tid rid text action use_draft disable_history ab reply =
     (let msg = trim text in
      if msg = [] \<and> \<not> truthy action then []
      else
        let post = PostStream (js_or action (JObj [(''query'', JStr msg)])) tid use_draft disable_history;
            (outs, failure) =
              (case reply of
                 Rejected e \<Rightarrow> (stop_if tid (aborted ab 0), Some e)
               | NotOk status body \<Rightarrow> (stop_if tid (aborted ab 0),
                   Some \<lparr>er_name = ''Error'', er_message = ''HTTP error! status: '' @ template E status
                          @ '', message: '' @ body\<rparr>)
               | NoBody \<Rightarrow> (stop_if tid (aborted ab 0), Some \<lparr>er_name = ''Error'', er_message = ''No response body''\<rparr>)
               | Streams chunks err \<Rightarrow>
                   send_loop E rid tid ab err 0 (parse_cuga_stream chunks) start_send)
        in [shell_chunk E rid, post] @ outs
           @ (case failure of None \<Rightarrow> [] | Some e \<Rightarrow> [error_message E url e]))"

section \<open>How a request ends\<close>

definition progress :: "chat_env \<Rightarrow> string \<Rightarrow> chat_effect \<Rightarrow> bool" where
  "progress E rid x \<longleftrightarrow> (\<exists>steps. x = AddChunk (partial_chunk E rid steps))"

text \<open>
  A request ends with the two chunks that finalize its message, or with one message of its
  own (a card or an error), or, when it was cancelled, with the request to stop, which an
  error message may follow.
\<close>

definition send_ending :: "chat_env \<Rightarrow> string \<Rightarrow> string \<Rightarrow> nat option \<Rightarrow> chat_effect list \<Rightarrow> bool" where
  "send_ending E rid tid ab xs \<longleftrightarrow>
     (\<exists>steps text. xs = finalize E rid steps text) \<or> (\<exists>m. xs = [AddMessage m])
     \<or> (ab \<noteq> None \<and> (xs = [PostStop tid] \<or> (\<exists>m. xs = [PostStop tid, AddMessage m])))"

lemma open_step_shape:
  "open_step E rid data label s = (out, n) \<Longrightarrow> (\<exists>s'. n = Continue s') \<and> (\<forall>x \<in> set out. progress E rid x)"
  by (auto simp: open_step_def progress_def Let_def split: prod.splits if_splits)

lemma closed_step_shape:
  "closed_step E rid title content s = (out, n) \<Longrightarrow> (\<exists>s'. n = Continue s') \<and> (\<forall>x \<in> set out. progress E rid x)"
  by (auto simp: closed_step_def progress_def Let_def)

definition event_shape :: "chat_env \<Rightarrow> string \<Rightarrow> chat_effect list \<Rightarrow> send_next \<Rightarrow> bool" where
  "event_shape E rid out n \<longleftrightarrow>
     (case n of
        Continue s' \<Rightarrow> \<forall>x \<in> set out. progress E rid x
      | Finished \<Rightarrow> (\<exists>steps text. out = finalize E rid steps text) \<or> (\<exists>m. out = [AddMessage m])
      | Failed x \<Rightarrow> out = [])"

lemma event_shape_intros:
  "open_step E rid data label s = (out, n) \<Longrightarrow> event_shape E rid out n"
  "closed_step E rid title content s = (out, n) \<Longrightarrow> event_shape E rid out n"
  "event_shape E rid [] (Continue s')" "event_shape E rid [] (Failed x)"
  "event_shape E rid [AddMessage m] Finished" "event_shape E rid (finalize E rid steps text) Finished"
  using open_step_shape [of E rid data label s out n] closed_step_shape [of E rid title content s out n]
  by (auto simp: event_shape_def)

lemma send_event_shape:
  assumes "send_event E rid tid e s = (out, n)" shows "event_shape E rid out n"
  using assms unfolding send_event_def Let_def
  by (auto split: if_splits sum.splits prod.splits option.splits bool.splits intro: event_shape_intros)

lemma send_loop_ending:
  assumes "send_loop E rid tid ab err k es s = (outs, r)"
  shows "\<exists>ps xs. outs = ps @ xs \<and> (\<forall>p \<in> set ps. progress E rid p)
     \<and> (case r of None \<Rightarrow> send_ending E rid tid ab xs
        | Some e \<Rightarrow> xs = [] \<or> (ab \<noteq> None \<and> xs = [PostStop tid]))"
  using assms
proof (induction es arbitrary: k s outs r)
  case Nil
  then show ?case
    by (intro exI [of _ "[]"] exI [of _ outs])
      (auto simp: aborted_def send_ending_def Let_def split: option.splits if_splits)
next
  case (Cons e es)
  show ?case
  proof (cases "aborted ab k")
    case True
    then show ?thesis using Cons.prems
      by (intro exI [of _ "[]"] exI [of _ outs]) (auto simp: aborted_def send_ending_def split: option.splits)
  next
    case False
    obtain out n where st: "send_event E rid tid e s = (out, n)" by fastforce
    note sh = send_event_shape [OF st]
    show ?thesis
    proof (cases n)
      case (Continue s')
      obtain outs2 r2 where l: "send_loop E rid tid ab err (Suc k) es s' = (outs2, r2)" by fastforce
      have o: "outs = out @ outs2" "r = r2" using Cons.prems False st Continue l by simp_all
      obtain ps xs where px: "outs2 = ps @ xs" "\<forall>p \<in> set ps. progress E rid p"
        "case r of None \<Rightarrow> send_ending E rid tid ab xs | Some e \<Rightarrow> xs = [] \<or> (ab \<noteq> None \<and> xs = [PostStop tid])"
        using Cons.IH [OF l] o by blast
      show ?thesis
        using sh Continue o px by (intro exI [of _ "out @ ps"] exI [of _ xs]) (auto simp: event_shape_def)
    next
      case Finished
      then show ?thesis
        using sh Cons.prems False st
        by (intro exI [of _ "[]"] exI [of _ outs]) (auto simp: event_shape_def send_ending_def)
    next
      case (Failed x)
      then show ?thesis using sh Cons.prems False st by (intro exI [of _ "[]"]) (auto simp: event_shape_def)
    qed
  qed
qed

text \<open>
  C30. Every request that is sent opens its message, posts itself, shows progress under its
  own identifier and then ends exactly once: with the finalized message, with one card or
  error message, or, only when the user cancelled, with the request to stop.
\<close>

theorem send_message_ends:
  assumes "trim text \<noteq> [] \<or> truthy action"
  shows "\<exists>ps xs. custom_send_message E url tid rid text action draft nohist ab reply =
       shell_chunk E rid # PostStream (js_or action (JObj [(''query'', JStr (trim text))])) tid draft nohist # ps @ xs
     \<and> (\<forall>p \<in> set ps. progress E rid p) \<and> send_ending E rid tid ab xs"
proof -
  define outcome where "outcome =
     (case reply of
        Rejected e \<Rightarrow> (stop_if tid (aborted ab 0), Some e)
      | NotOk status body \<Rightarrow> (stop_if tid (aborted ab 0),
          Some \<lparr>er_name = ''Error'', er_message = ''HTTP error! status: '' @ template E status
                 @ '', message: '' @ body\<rparr>)
      | NoBody \<Rightarrow> (stop_if tid (aborted ab 0), Some \<lparr>er_name = ''Error'', er_message = ''No response body''\<rparr>)
      | Streams chunks err \<Rightarrow> send_loop E rid tid ab err 0 (parse_cuga_stream chunks) start_send)"
  obtain outs failure where o: "outcome = (outs, failure)" by fastforce
  let ?err = "case failure of None \<Rightarrow> [] | Some e \<Rightarrow> [error_message E url e]"
  have "custom_send_message E url tid rid text action draft nohist ab reply =
      [shell_chunk E rid, PostStream (js_or action (JObj [(''query'', JStr (trim text))])) tid draft nohist] @ outs @ ?err"
    using assms o unfolding custom_send_message_def outcome_def Let_def by (simp split: prod.split)
  moreover have "\<exists>ps xs. outs = ps @ xs \<and> (\<forall>p \<in> set ps. progress E rid p)
     \<and> (case failure of None \<Rightarrow> send_ending E rid tid ab xs
        | Some e \<Rightarrow> xs = [] \<or> (ab \<noteq> None \<and> xs = [PostStop tid]))"
  proof (cases "\<exists>chunks err. reply = Streams chunks err")
    case True
    then show ?thesis using o send_loop_ending [of E rid tid ab _ 0] by (auto simp: outcome_def)
  next
    case False
    then have "outs = stop_if tid (aborted ab 0)" "failure \<noteq> None"
      using o by (auto simp: outcome_def split: stream_reply.splits)
    then show ?thesis
      by (intro exI [of _ "[]"] exI [of _ outs]) (auto simp: stop_if_def aborted_def split: option.splits)
  qed
  then obtain ps xs where "outs = ps @ xs" "\<forall>p \<in> set ps. progress E rid p"
    and "case failure of None \<Rightarrow> send_ending E rid tid ab xs
        | Some e \<Rightarrow> xs = [] \<or> (ab \<noteq> None \<and> xs = [PostStop tid])" by blast
  moreover from this(3) have "send_ending E rid tid ab (xs @ ?err)"
    by (cases failure) (auto simp: send_ending_def error_message_def)
  ultimately show ?thesis by (intro exI [of _ ps] exI [of _ "xs @ ?err"]) simp
qed

definition demo_chat :: chat_env where
  "demo_chat = \<lparr>ce_parse = (\<lambda>_. Inl ''Unexpected token''), ce_pretty = (\<lambda>_. ''{}''), ce_num = (\<lambda>_. ''0''),
     ce_text = JStr ''text'', ce_card = JStr ''card'', ce_button = JStr ''button'',
     ce_custom_event = JStr ''custom_event'', ce_open = JStr ''open'', ce_close = JStr ''close'',
     ce_bot = JStr ''bot'', ce_input_text = JStr ''text''\<rparr>"

theorem send_message_ends_witness:
  "\<exists>ps xs. custom_send_message demo_chat ''http://h'' ''t'' ''r'' ''hello'' JUndef False False None NoBody =
       shell_chunk demo_chat ''r'' # PostStream (JObj [(''query'', JStr ''hello'')]) ''t'' False False # ps @ xs
     \<and> (\<forall>p \<in> set ps. progress demo_chat ''r'' p) \<and> send_ending demo_chat ''r'' ''t'' None xs"
proof -
  have t: "trim ''hello'' = ''hello''" by (simp add: trim_def trim_start_def is_ws_def)
  show ?thesis
    using send_message_ends [of "''hello''" JUndef demo_chat "''http://h''" "''t''" "''r''" False False None NoBody]
    by (simp add: t)
qed

section \<open>The step that is still open\<close>

text \<open>
  A reasoning step stays open until the next one begins.  A tool call does not close
  it: the call is shown without it and stands before it in the final message, although it
  came after it.  And a stream that ends without an answer or a completion event is
  finalized without the open step, which a completion event would have kept.
\<close>

theorem tool_call_overtakes_step:
  assumes "ss_title s \<noteq> []" "ss_content s \<noteq> []"
  shows "(let tool = reasoning_step ''ToolCall'' (fence @ ''json'' @ nl @ d @ nl @ fence) (ce_close E);
             thought = reasoning_step (ss_title s) (ss_content s) (ce_open E)
         in send_loop E rid tid None err k
              [\<lparr>ev_name = ''ToolCall'', ev_data = d\<rparr>, \<lparr>ev_name = ''Complete'', ev_data = x\<rparr>] s
            = (AddChunk (partial_chunk E rid (ss_steps s @ [tool]))
                 # finalize E rid (ss_steps s @ [tool, thought]) (js_or (ss_text s) (JStr ''Task completed.'')), None))
     \<and> send_loop E rid tid None None k [] s
         = (finalize E rid (ss_steps s) (js_or (ss_text s) (JStr ''Response completed.'')), None)"
  using assms by (simp add: Let_def aborted_def send_event_def closed_step_def)

theorem tool_call_overtakes_step_witness:
  "snd (send_loop demo_chat ''r'' ''t'' None None 0
      [\<lparr>ev_name = ''ToolCall'', ev_data = ''{}''\<rparr>, \<lparr>ev_name = ''Complete'', ev_data = []\<rparr>]
      (start_send\<lparr>ss_title := ''Thinking'', ss_content := ''x''\<rparr>)) = None"
  using tool_call_overtakes_step [of "start_send\<lparr>ss_title := ''Thinking'', ss_content := ''x''\<rparr>" "''{}''"
      demo_chat "''r''" "''t''" None 0 "[]"]
  by (simp add: Let_def)

end
