(* ===== verification/Chat_History.thy ===== *)
theory Chat_History
  imports Chat_Send
begin

text \<open>
  \<open>carbon-chat/customLoadHistory.ts\<close>: the stored events of a conversation are replayed
  into history items, one per user message and one per answer; without events the stored
  messages are shown.  The replies of the server and the random part of identifiers are
  arguments.  The properties compare the replay with the live request of
  \<open>Chat_Send\<close>.
\<close>

record stream_event =
  se_name :: string
  se_data :: string
  se_time :: string

record conversation_message =
  cm_role :: string
  cm_content :: jv
  cm_time :: string

text \<open>A reply: the request may throw, fail, or answer with JSON, which may be missing.\<close>

datatype 'a fetch_reply = Thrown | BadStatus | BadJson | Ok_reply 'a

record history_item =
  hi_message :: jv
  hi_time :: string

record history_state =
  hs_items :: "history_item list"
  hs_steps :: "jv list"
  hs_answer :: jv

text \<open>\<open>generateMessageId\<close>, with the random suffix of the \<open>k\<close>-th identifier.\<close>

definition generate_message_id :: "(nat \<Rightarrow> string) \<Rightarrow> nat \<Rightarrow> string \<Rightarrow> string \<Rightarrow> string" where
  "generate_message_id rnd k timestamp pre = ''msg-'' @ timestamp @ ''-'' @ pre @ ''-'' @ rnd k"

definition no_underscores :: "string \<Rightarrow> string" where
  "no_underscores s = map (\<lambda>c. if c = CHR ''_'' then CHR '' '' else c) s"

definition history_options :: "chat_env \<Rightarrow> jv list \<Rightarrow> jv" where
  "history_options E steps =
     (if steps \<noteq> [] then reasoning_options E steps
      else JObj [(''response_user_profile'', response_user_profile E)])"

definition assistant_message :: "chat_env \<Rightarrow> string \<Rightarrow> jv list \<Rightarrow> jv \<Rightarrow> jv" where
  "assistant_message E ident steps item =
     JObj [(''id'', JStr ident), (''output'', JObj [(''generic'', JArr [item])]),
           (''message_options'', history_options E steps)]"

definition user_message :: "chat_env \<Rightarrow> string \<Rightarrow> jv \<Rightarrow> jv" where
  "user_message E ident text =
     JObj [(''id'', JStr ident), (''input'', JObj [(''text'', text), (''message_type'', ce_input_text E)])]"

text \<open>One event; building a card may throw, which ends the replay.\<close>

definition history_event ::
  "chat_env \<Rightarrow> (nat \<Rightarrow> string) \<Rightarrow> string \<Rightarrow> stream_event \<Rightarrow> history_state \<Rightarrow> exn + history_state" where
  "history_event E rnd tid e s =
     (let data = extract_event_data (se_data e); name = se_name e;
          ident = generate_message_id rnd (length (hs_items s)) (se_time e);
          push = (\<lambda>m. hs_items s @ [\<lparr>hi_message = m, hi_time = se_time e\<rparr>])
      in if name = ''UserMessage''
         then Inr (s\<lparr>hs_items := push (user_message E (ident ''user'') (JStr data))\<rparr>)
         else if name = ''FinalAnswerAgent''
         then Inr (s\<lparr>hs_answer :=
                (case ce_parse E data of
                   Inl _ \<Rightarrow> JStr data
                 | Inr parsed \<Rightarrow> if nullish parsed then JStr data
                     else js_or (js_or (fld parsed ''final_answer'') (fld parsed ''data'')) (JStr data))\<rparr>)
         else if name \<in> {''CodeAgent'', ''CodeAgent_Reasoning'', ''Thinking'', ''Planning'', ''Analyzing''}
         then (let (title, content) = parse_reasoning_step_content E data (no_underscores name)
               in Inr (s\<lparr>hs_steps := hs_steps s @ [reasoning_step title content (ce_open E)]\<rparr>))
         else if name \<in> {''Answer'', ''FinalAnswer''}
         then (let r = parse_answer_event_data E data (hs_answer s);
                   done = (\<lambda>item. s\<lparr>hs_items := push (assistant_message E (ident ''assistant'') (hs_steps s) item),
                                    hs_steps := [], hs_answer := JStr []\<rparr>)
               in case (truthy (ar_approval r) \<and> truthy (ar_data r) \<and> tid \<noteq> [], ar_policy r) of
                    (True, Some info) \<Rightarrow>
                      try_bind (build_tool_approval_card E info (ar_data r) tid) (\<lambda>(body, footer).
                        Inr (done (card_item E body footer)))
                  | _ \<Rightarrow> Inr (done (text_item E (ar_text r))))
         else Inr (s\<lparr>hs_steps := hs_steps s @ [reasoning_step (no_underscores name) data (ce_open E)]\<rparr>))"

fun history_events ::
  "chat_env \<Rightarrow> (nat \<Rightarrow> string) \<Rightarrow> string \<Rightarrow> stream_event list \<Rightarrow> history_state \<Rightarrow> exn + history_state" where
  "history_events E rnd tid [] s = Inr s"
| "history_events E rnd tid (e # es) s =
     try_bind (history_event E rnd tid e s) (\<lambda>s1. history_events E rnd tid es s1)"

definition basic_message :: "chat_env \<Rightarrow> (nat \<Rightarrow> string) \<Rightarrow> nat \<Rightarrow> conversation_message \<Rightarrow> history_item" where
  "basic_message E rnd k m =
     (let ident = generate_message_id rnd k (cm_time m) ''msg''
      in \<lparr>hi_message = (if cm_role m = ''user'' \<or> cm_role m = ''human''
                        then user_message E ident (cm_content m)
                        else assistant_message E ident [] (text_item E (cm_content m))),
          hi_time = cm_time m\<rparr>)"

definition load_basic_messages ::
  "chat_env \<Rightarrow> (nat \<Rightarrow> string) \<Rightarrow> conversation_message list option fetch_reply \<Rightarrow> history_item list" where
  "load_basic_messages E rnd reply =
     (case reply of
        Ok_reply ms \<Rightarrow> (let ms = (case ms of Some ms \<Rightarrow> ms | None \<Rightarrow> [])
                        in map (\<lambda>(k, m). basic_message E rnd k m) (enumerate 0 ms))
      | _ \<Rightarrow> [])"

definition custom_load_history ::
  "chat_env \<Rightarrow> (nat \<Rightarrow> string) \<Rightarrow> string \<Rightarrow> stream_event list option fetch_reply
     \<Rightarrow> conversation_message list option fetch_reply \<Rightarrow> history_item list" where
  "custom_load_history E rnd tid events_reply messages_reply =
     (if tid = [] then []
      else case events_reply of
             Thrown \<Rightarrow> []
           | BadJson \<Rightarrow> []
           | BadStatus \<Rightarrow> load_basic_messages E rnd messages_reply
           | Ok_reply es \<Rightarrow>
               (let events = (case es of Some es \<Rightarrow> es | None \<Rightarrow> [])
                in if events = [] then load_basic_messages E rnd messages_reply
                   else case history_events E rnd tid events \<lparr>hs_items = [], hs_steps = [], hs_answer = JStr []\<rparr> of
                          Inl _ \<Rightarrow> []
                        | Inr s \<Rightarrow> hs_items s))"

section \<open>What a replay shows\<close>

definition shown_event :: "stream_event \<Rightarrow> bool" where
  "shown_event e \<longleftrightarrow> se_name e \<in> {''UserMessage'', ''Answer'', ''FinalAnswer''}"

definition step_event :: "stream_event \<Rightarrow> bool" where
  "step_event e \<longleftrightarrow> \<not> shown_event e \<and> se_name e \<noteq> ''FinalAnswerAgent''"

definition event_step :: "chat_env \<Rightarrow> stream_event \<Rightarrow> jv" where
  "event_step E e =
     (let data = extract_event_data (se_data e); name = se_name e
      in if name \<in> {''CodeAgent'', ''CodeAgent_Reasoning'', ''Thinking'', ''Planning'', ''Analyzing''}
         then (let (t, c) = parse_reasoning_step_content E data (no_underscores name) in reasoning_step t c (ce_open E))
         else reasoning_step (no_underscores name) data (ce_open E))"

definition item_steps :: "history_item \<Rightarrow> jv list" where
  "item_steps i =
     (case fld (fld (fld (hi_message i) ''message_options'') ''reasoning'') ''steps'' of JArr xs \<Rightarrow> xs | _ \<Rightarrow> [])"

lemma item_steps_messages [simp]:
  "item_steps \<lparr>hi_message = assistant_message E ident steps item, hi_time = t\<rparr> = steps"
  "item_steps \<lparr>hi_message = user_message E ident text, hi_time = t\<rparr> = []"
  by (auto simp: item_steps_def assistant_message_def user_message_def history_options_def reasoning_options_def)

definition all_steps :: "history_state \<Rightarrow> jv list" where
  "all_steps s = concat (map item_steps (hs_items s)) @ hs_steps s"

lemma history_event_answer:
  assumes n: "se_name e \<in> {''Answer'', ''FinalAnswer''}" and run: "history_event E rnd tid e s = Inr s'"
  shows "\<exists>it. s' = s\<lparr>hs_items := hs_items s @ [\<lparr>hi_message = assistant_message E
             (generate_message_id rnd (length (hs_items s)) (se_time e) ''assistant'') (hs_steps s) it,
             hi_time = se_time e\<rparr>], hs_steps := [], hs_answer := JStr []\<rparr>"
proof -
  have m: "se_name e \<noteq> ''UserMessage''" "se_name e \<noteq> ''FinalAnswerAgent''"
    "se_name e \<notin> {''CodeAgent'', ''CodeAgent_Reasoning'', ''Thinking'', ''Planning'', ''Analyzing''}"
    using n by auto
  show ?thesis
    using run n unfolding history_event_def Let_def if_not_P [OF m(1)] if_not_P [OF m(2)] if_not_P [OF m(3)] if_P [OF n]
    by (simp only: try_bind_def split: option.splits bool.splits sum.splits prod.splits) blast+
qed

lemma history_event_effect:
  assumes "history_event E rnd tid e s = Inr s'"
  shows "map hi_time (hs_items s') = map hi_time (hs_items s) @ (if shown_event e then [se_time e] else [])
     \<and> all_steps s' = all_steps s @ (if step_event e then [event_step E e] else [])"
proof (cases "se_name e \<in> {''Answer'', ''FinalAnswer''}")
  case True
  then have k: "shown_event e" "\<not> step_event e" by (auto simp: shown_event_def step_event_def)
  obtain it where "s' = s\<lparr>hs_items := hs_items s @ [\<lparr>hi_message = assistant_message E
             (generate_message_id rnd (length (hs_items s)) (se_time e) ''assistant'') (hs_steps s) it,
             hi_time = se_time e\<rparr>], hs_steps := [], hs_answer := JStr []\<rparr>"
    using history_event_answer [OF True assms] by blast
  then show ?thesis using k by (simp add: all_steps_def)
next
  case False
  then show ?thesis using assms
    by (auto simp: history_event_def Let_def shown_event_def step_event_def event_step_def all_steps_def
        split: if_splits prod.splits)
qed

text \<open>
  A replay that succeeds shows one item per user message and per answer, in the order
  and with the times of the stored events, and loses no reasoning step on the way: the
  steps of its items, followed by those after the last answer, are those of the step
  events in order.  The steps after the last answer are in no item.
\<close>

theorem history_shows_events:
  assumes "history_events E rnd tid es \<lparr>hs_items = [], hs_steps = [], hs_answer = JStr []\<rparr> = Inr s"
  shows "map hi_time (hs_items s) = map se_time (filter shown_event es)
     \<and> concat (map item_steps (hs_items s)) @ hs_steps s = map (event_step E) (filter step_event es)"
proof -
  have "map hi_time (hs_items s) = map hi_time (hs_items s0) @ map se_time (filter shown_event es)
     \<and> all_steps s = all_steps s0 @ map (event_step E) (filter step_event es)"
    if "history_events E rnd tid es s0 = Inr s" for s0
    using that
  proof (induction es arbitrary: s0)
    case Nil
    then show ?case by simp
  next
    case (Cons e es)
    then obtain s1 where "history_event E rnd tid e s0 = Inr s1" "history_events E rnd tid es s1 = Inr s"
      by (auto simp: try_bind_def split: sum.splits)
    with Cons.IH [of s1] history_event_effect [of E rnd tid e s0 s1] show ?case by simp
  qed
  from this [OF assms] show ?thesis by (simp add: all_steps_def)
qed

definition demo_history :: "stream_event list" where
  "demo_history = [\<lparr>se_name = ''UserMessage'', se_data = ''hi'', se_time = ''1''\<rparr>,
     \<lparr>se_name = ''Thinking'', se_data = ''hm'', se_time = ''2''\<rparr>,
     \<lparr>se_name = ''Answer'', se_data = ''42'', se_time = ''3''\<rparr>]"

lemma demo_history_runs:
  "\<exists>s. history_events demo_chat (\<lambda>_. ''x'') ''t'' demo_history \<lparr>hs_items = [], hs_steps = [], hs_answer = JStr []\<rparr> = Inr s"
  by (simp add: demo_history_def history_event_def Let_def parse_answer_event_data_def demo_chat_def
      parse_reasoning_step_content_def split: option.split)

theorem history_shows_events_witness:
  "\<exists>s. history_events demo_chat (\<lambda>_. ''x'') ''t'' demo_history \<lparr>hs_items = [], hs_steps = [], hs_answer = JStr []\<rparr> = Inr s
     \<and> map hi_time (hs_items s) = [''1'', ''3'']"
proof -
  obtain s where r: "history_events demo_chat (\<lambda>_. ''x'') ''t'' demo_history
      \<lparr>hs_items = [], hs_steps = [], hs_answer = JStr []\<rparr> = Inr s" using demo_history_runs by blast
  show ?thesis using history_shows_events [OF r] r by (simp add: demo_history_def shown_event_def)
qed

section \<open>Replay and live request\<close>

text \<open>How an event that ends nothing changes the text collected for the answer.\<close>

definition text_after :: "chat_env \<Rightarrow> cuga_event \<Rightarrow> jv \<Rightarrow> jv" where
  "text_after E e t =
     (if ev_name e = ''FinalAnswerAgent''
      then (case ce_parse E (ev_data e) of
              Inl _ \<Rightarrow> JStr (ev_data e)
            | Inr parsed \<Rightarrow> if nullish parsed then JStr (ev_data e)
                else js_or (js_or (fld parsed ''final_answer'') (fld parsed ''data'')) (JStr (ev_data e)))
      else t)"

definition inner_event :: "cuga_event \<Rightarrow> bool" where
  "inner_event e \<longleftrightarrow> ev_name e \<notin> {''UserMessage'', ''Answer'', ''FinalAnswer'', ''SuggestHumanActions'',
      ''Error'', ''Complete'', ''Done''}"

text \<open>
  What the server stores of an event it sends (\<open>event_stream\<close> in
  src/src/cuga/backend/server/main.py): the text of the message and of the answer as
  they are, and of every other event the encoded event.
\<close>

definition stored :: "string \<Rightarrow> cuga_event \<Rightarrow> stream_event" where
  "stored t e =
     \<lparr>se_name = ev_name e,
      se_data = (if ev_name e \<in> {''Answer'', ''UserMessage''} then ev_data e else encode_event e), se_time = t\<rparr>"

definition one_line :: "string \<Rightarrow> bool" where
  "one_line s \<longleftrightarrow> newline \<notin> set s \<and> trim s = s"

lemma lazy_line: "newline \<notin> set d \<Longrightarrow> d \<noteq> [] \<Longrightarrow> lazy_data (d @ nlnl) = d"
proof (induction d)
  case (Cons c d)
  then show ?case by (cases d) auto
qed simp

lemma extract_stored:
  assumes "ev_name e = ''FinalAnswerAgent''" "one_line (ev_data e)"
  shows "extract_event_data (se_data (stored t e)) = ev_data e"
proof -
  have "cut_first ''data: '' (encode_event e) = Some (''event: FinalAnswerAgent'' @ nl, ev_data e @ nlnl)"
    using assms(1) by (simp add: encode_event_def newline_def)
  moreover have "trim (lazy_data (ev_data e @ nlnl)) = ev_data e"
  proof (cases "ev_data e = []")
    case True
    then show ?thesis by (simp add: newline_def trim_def trim_start_def is_ws_def)
  next
    case False
    then show ?thesis using assms(2) by (simp add: lazy_line one_line_def)
  qed
  ultimately show ?thesis using assms(1) by (simp add: stored_def extract_event_data_def)
qed

lemma inner_event_live:
  assumes "inner_event e"
  shows "\<exists>out s'. send_event E rid tid e s = (out, Continue s') \<and> ss_text s' = text_after E e (ss_text s)"
  using assms unfolding inner_event_def
  by (auto simp: send_event_def Let_def text_after_def open_step_def closed_step_def split: prod.splits)

lemma inner_event_replay:
  assumes "inner_event e" "ev_name e = ''FinalAnswerAgent'' \<longrightarrow> one_line (ev_data e)"
  shows "\<exists>s'. history_event E rnd tid (stored t e) s = Inr s'
     \<and> hs_answer s' = text_after E e (hs_answer s) \<and> hs_items s' = hs_items s"
proof (cases "ev_name e = ''FinalAnswerAgent''")
  case True
  then show ?thesis
    using extract_stored [OF True, of t] assms(2)
    by (simp add: history_event_def Let_def text_after_def) (simp add: stored_def)
next
  case False
  have n: "se_name (stored t e) = ev_name e" by (simp add: stored_def)
  show ?thesis
    using assms(1) False unfolding inner_event_def
    by (auto simp: history_event_def n Let_def text_after_def split: prod.splits)
qed

lemma answer_approval_acc:
  "ar_approval (parse_answer_event_data E d acc) = ar_approval (parse_answer_event_data E d acc')"
  by (auto simp: parse_answer_event_data_def Let_def split: sum.splits)

text \<open>
  C29. The replay of a conversation agrees with the live chat on the answer.  The events are
  a message, events of which none ends the request or asks for suggestions and those of the final
  answer are in one trimmed line, and an answer that asks for no approval; the server stores
  them as it does.  Then the live request finalizes its message with one text, the replay
  shows the message and one answer, and both texts are read from the same text
  collected before: the live one from the answer, the replayed one from the answer run through
  \<open>extractEventData\<close>.  They are equal if the answer nowhere holds \<open>data: \<close>; from one
  that does the replay cuts what stands before it.
\<close>

theorem replay_shows_live_answer:
  assumes es: "\<forall>e \<in> set es. inner_event e \<and> (ev_name e = ''FinalAnswerAgent'' \<longrightarrow> one_line (ev_data e))"
    and a: "ev_name a = ''Answer''"
      "\<not> truthy (ar_approval (parse_answer_event_data E (ev_data a) (JStr [])))"
      "\<not> truthy (ar_approval (parse_answer_event_data E (extract_event_data (ev_data a)) (JStr [])))"
    and u: "ev_name u = ''UserMessage''"
  shows "\<exists>ps steps live shown acc uident ident opts s.
      send_loop E rid tid None err 0 (es @ [a]) start_send = (ps @ finalize E rid steps live, None)
    \<and> history_events E rnd tid (map (stored t) (u # es @ [a])) \<lparr>hs_items = [], hs_steps = [], hs_answer = JStr []\<rparr> = Inr s
    \<and> hs_items s = [\<lparr>hi_message = user_message E uident (JStr (extract_event_data (ev_data u))), hi_time = t\<rparr>,
                    \<lparr>hi_message = assistant_message E ident opts (text_item E shown), hi_time = t\<rparr>]
    \<and> live = ar_text (parse_answer_event_data E (ev_data a) acc)
    \<and> shown = ar_text (parse_answer_event_data E (extract_event_data (ev_data a)) acc)
    \<and> (cut_first ''data: '' (ev_data a) = None \<longrightarrow> shown = live)"
proof -
  let ?x = "extract_event_data (ev_data a)"
  have ap: "\<not> truthy (ar_approval (parse_answer_event_data E (ev_data a) acc))"
    "\<not> truthy (ar_approval (parse_answer_event_data E ?x acc))" for acc
    using a(2,3) answer_approval_acc [of E _ acc "JStr []"] by simp_all
  have "\<exists>ps steps ident opts acc s'.
      send_loop E rid tid None err k (es @ [a]) s
        = (ps @ finalize E rid steps (ar_text (parse_answer_event_data E (ev_data a) acc)), None)
    \<and> history_events E rnd tid (map (stored t) (es @ [a])) h = Inr s'
    \<and> hs_items s' = hs_items h @ [\<lparr>hi_message = assistant_message E ident opts
          (text_item E (ar_text (parse_answer_event_data E ?x acc))), hi_time = t\<rparr>]"
    if "ss_text s = hs_answer h" for s h k
    using es that
  proof (induction es arbitrary: s h k)
    case Nil
    let ?r = "parse_answer_event_data E (ev_data a) (ss_text s)"
    let ?q = "parse_answer_event_data E ?x (ss_text s)"
    have "send_event E rid tid a s = (finalize E rid (flush_step E s) (ar_text ?r), Finished)"
      using ap(1) [of "ss_text s"] a(1) by (simp add: send_event_def Let_def)
    moreover obtain ident s' where "history_event E rnd tid (stored t a) h = Inr s'" "hs_items s' =
        hs_items h @ [\<lparr>hi_message = assistant_message E ident (hs_steps h) (text_item E (ar_text ?q)), hi_time = t\<rparr>]"
      using ap(2) [of "hs_answer h"] a(1) Nil.prems(2) by (simp add: history_event_def stored_def Let_def)
    ultimately show ?case
      by (intro exI [of _ "[]"] exI [of _ "flush_step E s"] exI [of _ ident]
            exI [of _ "hs_steps h"] exI [of _ "ss_text s"] exI [of _ s']) (simp add: aborted_def)
  next
    case (Cons e es)
    then have e: "inner_event e" "ev_name e = ''FinalAnswerAgent'' \<longrightarrow> one_line (ev_data e)" by simp_all
    obtain out s1 where l: "send_event E rid tid e s = (out, Continue s1)" "ss_text s1 = text_after E e (ss_text s)"
      using inner_event_live [OF e(1)] by blast
    obtain h1 where h: "history_event E rnd tid (stored t e) h = Inr h1"
        "hs_answer h1 = text_after E e (hs_answer h)" "hs_items h1 = hs_items h"
      using inner_event_replay [OF e] by blast
    have "ss_text s1 = hs_answer h1" using l(2) h(2) Cons.prems(2) by simp
    from Cons.IH [OF _ this, of "Suc k"] Cons.prems(1) obtain ps steps ident opts acc s' where
      "send_loop E rid tid None err (Suc k) (es @ [a]) s1
         = (ps @ finalize E rid steps (ar_text (parse_answer_event_data E (ev_data a) acc)), None)"
      "history_events E rnd tid (map (stored t) (es @ [a])) h1 = Inr s'"
      "hs_items s' = hs_items h1 @ [\<lparr>hi_message = assistant_message E ident opts
          (text_item E (ar_text (parse_answer_event_data E ?x acc))), hi_time = t\<rparr>]"
      by auto
    then show ?case
      using l(1) h(1,3) by (intro exI [of _ "out @ ps"] exI) (auto simp: aborted_def)
  qed
  note run = this
  define h0 where "h0 = \<lparr>hs_items = [], hs_steps = [], hs_answer = JStr []\<rparr>"
  define uid where "uid = generate_message_id rnd 0 t ''user''"
  define h1 where "h1 = h0\<lparr>hs_items := [\<lparr>hi_message = user_message E uid (JStr (extract_event_data (ev_data u))), hi_time = t\<rparr>]\<rparr>"
  have first: "history_event E rnd tid (stored t u) h0 = Inr h1"
    using u by (simp add: history_event_def stored_def h0_def h1_def uid_def Let_def)
  have eq: "cut_first ''data: '' (ev_data a) = None \<Longrightarrow> ?x = ev_data a" by (simp add: extract_event_data_def)
  obtain ps steps ident opts acc s' where
    "send_loop E rid tid None err 0 (es @ [a]) start_send
       = (ps @ finalize E rid steps (ar_text (parse_answer_event_data E (ev_data a) acc)), None)"
    "history_events E rnd tid (map (stored t) (es @ [a])) h1 = Inr s'"
    "hs_items s' = hs_items h1 @ [\<lparr>hi_message = assistant_message E ident opts
        (text_item E (ar_text (parse_answer_event_data E ?x acc))), hi_time = t\<rparr>]"
    using run [of start_send h1 0] by (auto simp: start_send_def h1_def h0_def)
  then show ?thesis
    using first eq unfolding h0_def [symmetric]
    by (intro exI [of _ ps] exI [of _ steps] exI [of _ "ar_text (parse_answer_event_data E (ev_data a) acc)"]
          exI [of _ "ar_text (parse_answer_event_data E ?x acc)"] exI [of _ acc] exI [of _ uid] exI [of _ ident]
          exI [of _ opts] exI [of _ s'])
      (auto simp: h1_def h0_def)
qed

theorem replay_shows_live_answer_witness:
  "\<exists>live s uident ident opts.
      history_events demo_chat (\<lambda>_. ''x'') ''t''
        (map (stored ''1'') (\<lparr>ev_name = ''UserMessage'', ev_data = ''hi''\<rparr> #
           [\<lparr>ev_name = ''FinalAnswerAgent'', ev_data = ''41''\<rparr>] @ [\<lparr>ev_name = ''Answer'', ev_data = ''42''\<rparr>]))
        \<lparr>hs_items = [], hs_steps = [], hs_answer = JStr []\<rparr> = Inr s
    \<and> hs_items s = [\<lparr>hi_message = user_message demo_chat uident (JStr ''hi''), hi_time = ''1''\<rparr>,
                    \<lparr>hi_message = assistant_message demo_chat ident opts (text_item demo_chat live), hi_time = ''1''\<rparr>]"
proof -
  have "\<forall>e \<in> set [\<lparr>ev_name = ''FinalAnswerAgent'', ev_data = ''41''\<rparr>].
      inner_event e \<and> (ev_name e = ''FinalAnswerAgent'' \<longrightarrow> one_line (ev_data e))"
    by (simp add: inner_event_def one_line_def newline_def trim_def trim_start_def is_ws_def)
  moreover have x: "extract_event_data ''42'' = ''42''" "extract_event_data ''hi'' = ''hi''" by (simp_all add: extract_event_data_def)
  moreover have "\<not> truthy (ar_approval (parse_answer_event_data demo_chat ''42'' (JStr [])))"
    by (simp add: parse_answer_event_data_def demo_chat_def)
  ultimately show ?thesis
    using replay_shows_live_answer [of "[\<lparr>ev_name = ''FinalAnswerAgent'', ev_data = ''41''\<rparr>]" "\<lparr>ev_name = ''Answer'', ev_data = ''42''\<rparr>"
        demo_chat "\<lparr>ev_name = ''UserMessage'', ev_data = ''hi''\<rparr>" "''r''" "''t''" None "\<lambda>_. ''x''" "''1''"]
    by fastforce
qed

text \<open>An answer with \<open>data: \<close> in it, of which the replay shows the end only.\<close>

lemma replay_cuts_answer:
  assumes "\<And>s. ce_parse E s = Inl m"
  shows "ar_text (parse_answer_event_data E ''see data: 42'' (JStr [])) = JStr ''see data: 42''
    \<and> ar_text (parse_answer_event_data E (extract_event_data ''see data: 42'') (JStr [])) = JStr ''42''"
  using assms by (simp add: parse_answer_event_data_def extract_event_data_def js_or_def trim_def trim_start_def is_ws_def)

end
