(* ===== verification/Chat_Api.thy ===== *)
theory Chat_Api
  imports Js_Value
begin

text \<open>
  \<open>frontend/src/api.ts\<close> and \<open>auth.ts\<close>: where the back end is, the one fetch that
  every request goes through, with its redirect to the login page, the requests of the
  client, and the session helpers.  The network is an argument that may look at the
  requests made before.  The body of a request is the value that is stringified.
\<close>

section \<open>Percent encoding\<close>

text \<open>
  \<open>encodeURIComponent\<close> of a character and of a string: a character outside the
  unreserved ones becomes the escapes of its UTF-8 bytes.
\<close>

definition hex_digit :: "nat \<Rightarrow> char" where
  "hex_digit d = (if d < 10 then char_of (48 + d) else char_of (55 + d))"

definition hex_val :: "char \<Rightarrow> nat" where
  "hex_val c = (if of_char c < (58 :: nat) then of_char c - 48 else of_char c - 55)"

definition is_alnum :: "char \<Rightarrow> bool" where
  "is_alnum c \<longleftrightarrow> is_digit c \<or> (65 \<le> (of_char c :: nat) \<and> (of_char c :: nat) \<le> 90)
     \<or> (97 \<le> (of_char c :: nat) \<and> (of_char c :: nat) \<le> 122)"

definition unreserved :: "char \<Rightarrow> bool" where
  "unreserved c \<longleftrightarrow> is_alnum c \<or> c \<in> {CHR ''-'', CHR ''_'', CHR ''.'', CHR ''!'', CHR ''~'', CHR ''*'',
     CHR 0x27, CHR ''('', CHR '')''}"

definition escape_byte :: "nat \<Rightarrow> string" where
  "escape_byte n = [CHR 0x25, hex_digit (n div 16), hex_digit (n mod 16)]"

definition escape_char :: "char \<Rightarrow> string" where
  "escape_char c =
     (let n = of_char c :: nat
      in if n < 128 then escape_byte n else escape_byte (192 + n div 64) @ escape_byte (128 + n mod 64))"

definition encode_uri_component :: "string \<Rightarrow> string" where
  "encode_uri_component s = concat (map (\<lambda>c. if unreserved c then [c] else escape_char c) s)"

text \<open>The form encoding of \<open>URLSearchParams\<close>.\<close>

definition form_encode :: "string \<Rightarrow> string" where
  "form_encode s = concat (map (\<lambda>c. if is_alnum c \<or> c \<in> {CHR ''*'', CHR ''-'', CHR ''.'', CHR ''_''} then [c]
     else if c = CHR '' '' then ''+'' else escape_char c) s)"

definition search_params :: "(string \<times> string) list \<Rightarrow> string" where
  "search_params ps = join ''&'' (map (\<lambda>(k, v). form_encode k @ ''='' @ form_encode v) ps)"

section \<open>Requests\<close>

record location =
  lo_hostname :: string
  lo_protocol :: string
  lo_origin :: string
  lo_port :: string

text \<open>\<open>None\<close> stands for a process without a window.\<close>

definition get_api_base_url :: "location option \<Rightarrow> string" where
  "get_api_base_url l =
     (case l of
        None \<Rightarrow> ''http://localhost:7860''
      | Some l \<Rightarrow>
          if lo_hostname l \<noteq> ''localhost'' \<and> lo_hostname l \<noteq> ''127.0.0.1'' then lo_origin l
          else if lo_port l = ''3002'' then lo_origin l
          else lo_protocol l @ ''//'' @ lo_hostname l @ '':7860'')"

record request =
  rq_url :: string
  rq_method :: string
  rq_headers :: "(string \<times> string) list"
  rq_body :: "jv option"

definition get_request :: "string \<Rightarrow> request" where
  "get_request u = \<lparr>rq_url = u, rq_method = ''GET'', rq_headers = [], rq_body = None\<rparr>"

definition json_header :: "(string \<times> string) list" where
  "json_header = [(''Content-Type'', ''application/json'')]"

definition json_request :: "string \<Rightarrow> string \<Rightarrow> jv \<Rightarrow> request" where
  "json_request meth u body = \<lparr>rq_url = u, rq_method = meth, rq_headers = json_header, rq_body = Some body\<rparr>"

definition post_auth_callback :: "string \<Rightarrow> string \<Rightarrow> string \<Rightarrow> request" where
  "post_auth_callback base code state =
     json_request ''POST'' (base @ ''/auth/callback'') (JObj [(''code'', JStr code), (''state'', JStr state)])"

definition post_auth_logout :: "string \<Rightarrow> request" where
  "post_auth_logout base = (get_request (base @ ''/auth/logout''))\<lparr>rq_method := ''POST''\<rparr>"

definition get_agent_context :: request where
  "get_agent_context = get_request ''/api/agent/context''"

definition get_agent_state :: "string \<Rightarrow> request" where
  "get_agent_state tid = (get_request (''/api/agent/state?thread_id='' @ encode_uri_component tid))
     \<lparr>rq_headers := [(''X-Thread-ID'', tid)]\<rparr>"

definition post_stop :: "string \<Rightarrow> string \<Rightarrow> request" where
  "post_stop base tid = \<lparr>rq_url = base @ ''/stop'', rq_method = ''POST'',
     rq_headers = json_header @ [(''X-Thread-ID'', tid)], rq_body = None\<rparr>"

definition post_stream :: "jv \<Rightarrow> string \<Rightarrow> bool \<Rightarrow> bool \<Rightarrow> request" where
  "post_stream body tid use_draft disable_history =
     \<lparr>rq_url = ''/stream'', rq_method = ''POST'',
      rq_headers = json_header @ [(''X-Thread-ID'', tid)]
        @ (if use_draft then [(''X-Use-Draft'', ''true'')] else [])
        @ (if disable_history then [(''X-Disable-History'', ''true'')] else []),
      rq_body = Some body\<rparr>"

definition get_conversation_stream_events :: "string \<Rightarrow> request" where
  "get_conversation_stream_events tid =
     get_request (''/api/conversation-stream-events/'' @ tid @ ''?agent_id=cuga-default&user_id=default_user'')"

definition get_conversation_messages :: "string \<Rightarrow> request" where
  "get_conversation_messages tid =
     get_request (''/api/conversation-messages/'' @ tid @ ''?agent_id=cuga-default&user_id=default_user'')"

definition draft_query :: "bool \<Rightarrow> string" where
  "draft_query draft = (if draft then ''?draft=1'' else [])"

text \<open>An optional agent: \<open>None\<close> and the empty name add nothing.\<close>

definition agent_query :: "string option \<Rightarrow> string" where
  "agent_query agent =
     (case agent of Some a \<Rightarrow> if a \<noteq> [] then ''?agent_id='' @ encode_uri_component a else [] | None \<Rightarrow> [])"

definition get_manage_config :: "bool \<Rightarrow> request" where
  "get_manage_config draft = get_request (''/api/manage/config'' @ draft_query draft)"

definition get_manage_config_version :: "string \<Rightarrow> request" where
  "get_manage_config_version version = get_request (''/api/manage/config?version='' @ encode_uri_component version)"

definition get_llm_models :: "string \<Rightarrow> bool \<Rightarrow> string \<Rightarrow> request" where
  "get_llm_models api_key disable_ssl provider =
     (let q = search_params ((if disable_ssl then [(''disable_ssl'', ''true'')] else [])
                @ (if provider \<noteq> [] then [(''provider'', provider)] else []))
      in (get_request (''/api/manage/llm/models'' @ (if q \<noteq> [] then ''?'' @ q else [])))
           \<lparr>rq_headers := (if api_key \<noteq> [] then [(''X-LLM-API-Key'', api_key)] else [])\<rparr>)"

definition get_manage_config_history :: request where
  "get_manage_config_history = get_request ''/api/manage/config/history''"

definition post_manage_config_draft :: "jv \<Rightarrow> request" where
  "post_manage_config_draft config = json_request ''POST'' ''/api/manage/config/draft'' (JObj [(''config'', config)])"

definition patch_manage_config_draft_llm :: "jv \<Rightarrow> string option \<Rightarrow> request" where
  "patch_manage_config_draft_llm llm agent =
     json_request ''PATCH'' (''/api/manage/config/draft/llm'' @ agent_query agent) (JObj [(''llm'', llm)])"

definition patch_manage_config_draft_tools :: "jv \<Rightarrow> string option \<Rightarrow> request" where
  "patch_manage_config_draft_tools tools agent =
     json_request ''PATCH'' (''/api/manage/config/draft/tools'' @ agent_query agent) (JObj [(''tools'', tools)])"

definition patch_manage_config_draft_policies :: "jv \<Rightarrow> string option \<Rightarrow> request" where
  "patch_manage_config_draft_policies policies agent =
     json_request ''PATCH'' (''/api/manage/config/draft/policies'' @ agent_query agent) (JObj [(''policies'', policies)])"

definition post_manage_config :: "jv \<Rightarrow> request" where
  "post_manage_config config = json_request ''POST'' ''/api/manage/config'' (JObj [(''config'', config)])"

definition get_tools_list :: "bool \<Rightarrow> request" where
  "get_tools_list draft = get_request (''/api/tools/list'' @ draft_query draft)"

definition get_conversation_threads :: request where
  "get_conversation_threads = get_request ''/api/conversation-threads?agent_id=cuga-default''"

definition get_conversations :: request where
  "get_conversations = get_request ''/api/conversations''"

definition delete_conversation :: "string \<Rightarrow> request" where
  "delete_conversation tid =
     (get_request (''/api/conversations/'' @ tid @ ''?agent_id=cuga-default''))\<lparr>rq_method := ''DELETE''\<rparr>"

definition get_workspace_tree :: request where
  "get_workspace_tree = get_request ''/api/workspace/tree''"

definition get_workspace_file :: "string \<Rightarrow> request" where
  "get_workspace_file path = get_request (''/api/workspace/file?path='' @ encode_uri_component path)"

definition get_workspace_download :: "string \<Rightarrow> request" where
  "get_workspace_download path = get_request (''/api/workspace/download?path='' @ encode_uri_component path)"

definition get_agents :: request where
  "get_agents = get_request ''/api/agents''"

definition get_secrets :: "string option \<Rightarrow> request" where
  "get_secrets agent = get_request (''/api/secrets'' @ agent_query agent)"

definition get_secrets_config :: request where
  "get_secrets_config = get_request ''/api/secrets/config''"

definition create_secret :: "jv \<Rightarrow> jv \<Rightarrow> jv \<Rightarrow> jv \<Rightarrow> jv \<Rightarrow> request" where
  "create_secret ident val description tags agent =
     json_request ''POST'' ''/api/secrets'' (JObj [(''id'', ident), (''value'', val), (''description'', description),
       (''tags'', tags), (''agent_id'', agent)])"

definition update_secret :: "string \<Rightarrow> jv \<Rightarrow> jv \<Rightarrow> jv \<Rightarrow> request" where
  "update_secret ident val description tags =
     json_request ''PUT'' (''/api/secrets/'' @ encode_uri_component ident)
       (JObj [(''value'', val), (''description'', description), (''tags'', tags)])"

definition delete_secret :: "string \<Rightarrow> request" where
  "delete_secret ident = (get_request (''/api/secrets/'' @ encode_uri_component ident))\<lparr>rq_method := ''DELETE''\<rparr>"

section \<open>The fetch of the client\<close>

text \<open>
  What the module keeps, the page it has sent the browser to, the address shown, and the
  requests made.  Cookies go with every request.
\<close>

record response =
  rs_status :: nat
  rs_json :: "exn + jv"
  rs_text :: string

record api_state =
  ap_auth :: "bool option"
  ap_href :: "jv option"
  ap_shown :: string
  ap_sent :: "request list"

type_synonym network = "request list \<Rightarrow> request \<Rightarrow> exn + response"

definition net_fetch :: "network \<Rightarrow> request \<Rightarrow> api_state \<Rightarrow> (exn + response) \<times> api_state" where
  "net_fetch net rq s = (net (ap_sent s) rq, s\<lparr>ap_sent := ap_sent s @ [rq]\<rparr>)"

definition get_auth_config :: "location option \<Rightarrow> network \<Rightarrow> api_state \<Rightarrow> (exn + bool) \<times> api_state" where
  "get_auth_config l net s =
     (case ap_auth s of
        Some b \<Rightarrow> (Inr b, s)
      | None \<Rightarrow>
          (case net_fetch net (get_request (get_api_base_url l @ ''/api/auth/config'')) s of
             (Inl e, s1) \<Rightarrow> (Inl e, s1)
           | (Inr res, s1) \<Rightarrow>
               (case get_prop (case rs_json res of Inl _ \<Rightarrow> JObj [(''enabled'', JBool False)] | Inr v \<Rightarrow> v) ''enabled'' of
                  Inl e \<Rightarrow> (Inl e, s1)
                | Inr v \<Rightarrow> (Inr (truthy v), s1\<lparr>ap_auth := Some (truthy v)\<rparr>))))"

definition full_url :: "string \<Rightarrow> string \<Rightarrow> string" where
  "full_url base u =
     (if \<not> starts_with u ''http'' then base @ (if starts_with u ''/'' then [] else ''/'') @ u else u)"

definition api_fetch :: "location option \<Rightarrow> network \<Rightarrow> request \<Rightarrow> api_state \<Rightarrow> (exn + response) \<times> api_state" where
  "api_fetch l net rq s =
     (let base = get_api_base_url l
      in case net_fetch net (rq\<lparr>rq_url := full_url base (rq_url rq)\<rparr>) s of
           (Inl e, s1) \<Rightarrow> (Inl e, s1)
         | (Inr res, s1) \<Rightarrow>
             if rs_status res = 401
             then (case get_auth_config l net s1 of
                     (Inl e, s2) \<Rightarrow> (Inl e, s2)
                   | (Inr enabled, s2) \<Rightarrow>
                       (Inr res, if enabled then s2\<lparr>ap_href := Some (JStr (base @ ''/auth/login''))\<rparr> else s2))
             else (Inr res, s1))"

section \<open>The session\<close>

definition rs_ok :: "response \<Rightarrow> bool" where
  "rs_ok r \<longleftrightarrow> 200 \<le> rs_status r \<and> rs_status r \<le> 299"

text \<open>The page's address is its path and its decoded query parameters.\<close>

definition handle_oidc_callback ::
  "location option \<Rightarrow> network \<Rightarrow> string \<Rightarrow> (string \<times> string) list \<Rightarrow> string \<Rightarrow> string \<Rightarrow> api_state
     \<Rightarrow> (exn + unit) \<times> api_state" where
  "handle_oidc_callback l net path params code state s =
     (case api_fetch l net (post_auth_callback (get_api_base_url l) code state) s of
        (Inl e, s1) \<Rightarrow> (Inl e, s1)
      | (Inr res, s1) \<Rightarrow>
          if \<not> rs_ok res
          then (Inl (''Auth callback failed: '' @ show_nat (rs_status res) @ '' '' @ rs_text res), s1)
          else (let ps = filter (\<lambda>(k, v). k \<noteq> ''code'' \<and> k \<noteq> ''state'') params
                in (Inr (), s1\<lparr>ap_shown := path @ (if ps = [] then [] else ''?'' @ search_params ps)\<rparr>)))"

definition check_auth_status :: "location option \<Rightarrow> network \<Rightarrow> api_state \<Rightarrow> (exn + unit) \<times> api_state" where
  "check_auth_status l net s =
     (case api_fetch l net get_agent_context s of
        (Inl e, s1) \<Rightarrow> (Inl e, s1)
      | (Inr res, s1) \<Rightarrow> (if rs_status res = 401 then Inl ''Not authenticated'' else Inr (), s1))"

definition logout :: "location option \<Rightarrow> network \<Rightarrow> api_state \<Rightarrow> (exn + unit) \<times> api_state" where
  "logout l net s =
     (case api_fetch l net (post_auth_logout (get_api_base_url l)) s of
        (Inl e, s1) \<Rightarrow> (Inl e, s1)
      | (Inr res, s1) \<Rightarrow>
          (let end_url = (case rs_json res of Inl _ \<Rightarrow> JNull
                          | Inr data \<Rightarrow> js_nullor (opt_prop data ''end_session_url'') JNull)
           in (Inr (), s1\<lparr>ap_href := Some (if truthy end_url then end_url else JStr ''/'')\<rparr>)))"

section \<open>Properties\<close>

lemma get_auth_config_spec:
  assumes "get_auth_config l net s = (r, s')"
  shows "ap_href s' = ap_href s \<and> (\<forall>b. ap_auth s = Some b \<longrightarrow> r = Inr b \<and> s' = s) \<and> (\<forall>b. r = Inr b \<longrightarrow> ap_auth s' = Some b)"
  using assms by (auto simp: get_auth_config_def net_fetch_def split: option.splits sum.splits prod.splits)

text \<open>
  One fetch: the browser is sent to the login page exactly when the answer is a 401 and
  authentication is configured; once the configuration is known it never changes and is
  never asked for again, so every later call makes one request; and a call that is
  answered with a 401 has learnt the configuration.
\<close>

theorem api_fetch_redirects:
  assumes run: "api_fetch l net rq s = (r, s')"
  shows "(ap_href s' \<noteq> ap_href s \<longrightarrow> (\<exists>res. r = Inr res \<and> rs_status res = 401) \<and> ap_auth s' = Some True)
     \<and> (\<forall>res. r = Inr res \<and> rs_status res = 401 \<longrightarrow>
          (\<exists>b. ap_auth s' = Some b \<and> (b \<longrightarrow> ap_href s' = Some (JStr (get_api_base_url l @ ''/auth/login'')))
             \<and> (\<not> b \<longrightarrow> ap_href s' = ap_href s)))
     \<and> (\<forall>b. ap_auth s = Some b \<longrightarrow> ap_auth s' = Some b
          \<and> ap_sent s' = ap_sent s @ [rq\<lparr>rq_url := full_url (get_api_base_url l) (rq_url rq)\<rparr>])"
proof -
  let ?rq = "rq\<lparr>rq_url := full_url (get_api_base_url l) (rq_url rq)\<rparr>"
  let ?s1 = "s\<lparr>ap_sent := ap_sent s @ [?rq]\<rparr>"
  show ?thesis
  proof (cases "net (ap_sent s) ?rq")
    case (Inl e)
    then show ?thesis using run by (auto simp: api_fetch_def net_fetch_def Let_def)
  next
    case (Inr res)
    show ?thesis
    proof (cases "rs_status res = 401")
      case True
      obtain q s2 where g: "get_auth_config l net ?s1 = (q, s2)" by fastforce
      note sp = get_auth_config_spec [OF g]
      have "net_fetch net ?rq s = (Inr res, ?s1)" by (simp add: net_fetch_def Inr)
      then have "(r, s') = (case q of Inl e \<Rightarrow> (Inl e, s2)
          | Inr b \<Rightarrow> (Inr res, if b then s2\<lparr>ap_href := Some (JStr (get_api_base_url l @ ''/auth/login''))\<rparr> else s2))"
        using run True g by (cases q) (simp_all add: api_fetch_def Let_def)
      then show ?thesis using sp True by (cases q) (auto split: if_splits)
    next
      case False
      then show ?thesis using run Inr by (auto simp: api_fetch_def net_fetch_def Let_def)
    qed
  qed
qed

definition demo_net :: network where
  "demo_net sent rq =
     (if rq_url rq = ''http://localhost:7860/api/auth/config''
      then Inr \<lparr>rs_status = 200, rs_json = Inr (JObj [(''enabled'', JBool True)]), rs_text = []\<rparr>
      else Inr \<lparr>rs_status = 401, rs_json = Inl ''no body'', rs_text = []\<rparr>)"

theorem api_fetch_redirects_witness:
  "ap_href (snd (api_fetch None demo_net get_agents \<lparr>ap_auth = None, ap_href = None, ap_shown = [], ap_sent = []\<rparr>))
     = Some (JStr ''http://localhost:7860/auth/login'')"
proof -
  let ?s = "\<lparr>ap_auth = None, ap_href = None, ap_shown = [], ap_sent = []\<rparr> :: api_state"
  obtain r s' where run: "api_fetch None demo_net get_agents ?s = (r, s')" by fastforce
  have "r = Inr \<lparr>rs_status = 401, rs_json = Inl ''no body'', rs_text = []\<rparr> \<and> ap_auth s' = Some True"
    using run by (simp add: api_fetch_def net_fetch_def get_auth_config_def demo_net_def get_agents_def get_request_def
        full_url_def starts_with_def get_api_base_url_def Let_def) auto
  then show ?thesis
    using api_fetch_redirects [OF run] run by (auto simp: get_api_base_url_def)
qed

subsection \<open>Encoded parts of a URL\<close>

fun decode_uri_component :: "string \<Rightarrow> string" where
  "decode_uri_component [] = []"
| "decode_uri_component (c # cs) =
     (if c \<noteq> CHR 0x25 then c # decode_uri_component cs
      else case cs of
             a # b # rest \<Rightarrow>
               (let n = 16 * hex_val a + hex_val b
                in if n < 128 then char_of n # decode_uri_component rest
                   else (case rest of
                           _ # d # e # rest' \<Rightarrow>
                             char_of (64 * (n - 192) + (16 * hex_val d + hex_val e - 128)) # decode_uri_component rest'
                         | _ \<Rightarrow> []))
           | _ \<Rightarrow> [])"

lemma hex_val_digit [simp]: "d < 16 \<Longrightarrow> hex_val (hex_digit d) = d"
  by (auto simp: hex_val_def hex_digit_def)

lemma hex_digit_alnum: "d < 16 \<Longrightarrow> is_alnum (hex_digit d)"
  by (auto simp: hex_digit_def is_alnum_def is_digit_def)

lemma hex_val_byte: "n < 256 \<Longrightarrow> 16 * hex_val (hex_digit (n div 16)) + hex_val (hex_digit (n mod 16)) = n"
  by simp

lemma unreserved_not_percent: "unreserved c \<Longrightarrow> c \<noteq> CHR 0x25"
  by (auto simp: unreserved_def is_alnum_def is_digit_def)

lemma decode_escape: "decode_uri_component (escape_char c @ r) = c # decode_uri_component r"
proof (cases "(of_char c :: nat) < 128")
  case True
  then show ?thesis by (simp add: escape_char_def escape_byte_def Let_def)
next
  case False
  define n where "n = (of_char c :: nat)"
  have n: "128 \<le> n" "n < 256" using False nat_of_char_less_256 [of c] by (simp_all add: n_def)
  have b: "192 + n div 64 < 256" "128 + n mod 64 < 256" "\<not> 192 + n div 64 < 128" using n by simp_all
  have "64 * (192 + n div 64 - 192) + (128 + n mod 64 - 128) = n" by simp
  then have "char_of (64 * (192 + n div 64 - 192) + (128 + n mod 64 - 128)) = c" by (simp add: n_def)
  then show ?thesis
    using False hex_val_byte [OF b(1)] hex_val_byte [OF b(2)] b(3)
    by (simp add: escape_char_def escape_byte_def Let_def n_def [symmetric] del: hex_val_digit)
qed

lemma decode_encode [simp]: "decode_uri_component (encode_uri_component s) = s"
  by (induction s) (auto simp: encode_uri_component_def decode_escape unreserved_not_percent)

definition url_delimiters :: "char set" where
  "url_delimiters = {CHR ''/'', CHR ''?'', CHR ''&'', CHR ''='', CHR ''#'', CHR '' ''}"

lemma unreserved_not_delimiter: "unreserved c \<Longrightarrow> c \<notin> url_delimiters"
  by (auto simp: unreserved_def is_alnum_def is_digit_def url_delimiters_def)

lemma escape_byte_not_delimiter: "n < 256 \<Longrightarrow> set (escape_byte n) \<inter> url_delimiters = {}"
  using hex_digit_alnum [of "n div 16"] hex_digit_alnum [of "n mod 16"]
    unreserved_not_delimiter [of "hex_digit (n div 16)"] unreserved_not_delimiter [of "hex_digit (n mod 16)"]
  by (auto simp: escape_byte_def unreserved_def) (simp add: url_delimiters_def)

lemma encode_not_delimiter: "set (encode_uri_component s) \<inter> url_delimiters = {}"
proof -
  have "set (escape_char c) \<inter> url_delimiters = {}" for c
  proof -
    have "(of_char c :: nat) < 4 * 64" using nat_of_char_less_256 [of c] by simp
    then have "(of_char c :: nat) div 64 < 4" by (rule less_mult_imp_div_less)
    then show ?thesis
      using escape_byte_not_delimiter [of "of_char c"] escape_byte_not_delimiter [of "192 + of_char c div 64"]
        escape_byte_not_delimiter [of "128 + of_char c mod 64"] nat_of_char_less_256 [of c]
      by (simp add: escape_char_def Let_def Int_Un_distrib2)
  qed
  then show ?thesis
    using unreserved_not_delimiter by (fastforce simp: encode_uri_component_def split: if_splits)
qed

text \<open>
  The file of a workspace request and the secret of a secret request are named
  exactly: the rest of the URL decodes to the path or the identifier given, and holds no
  character that would end it or begin another part, so no two of them are confused.
\<close>

theorem encoded_urls_name_exactly:
  "(\<exists>e. rq_url (get_workspace_file path) = ''/api/workspace/file?path='' @ e
      \<and> decode_uri_component e = path \<and> set e \<inter> url_delimiters = {})
   \<and> (\<exists>e. rq_url (delete_secret ident) = ''/api/secrets/'' @ e
      \<and> decode_uri_component e = ident \<and> set e \<inter> url_delimiters = {})"
  using encode_not_delimiter by (auto simp: get_workspace_file_def get_request_def delete_secret_def)

end
