(* ===== verification/Workspace.thy ===== *)
theory Workspace
  imports Js_Value Throttle "HOL-Library.Multiset"
begin

text \<open>
  The workspace tree of the side panel.  \<open>workspaceThrottle.ts\<close> replaces the
  page's \<open>fetch\<close> by one that rejects calls for the tree that come too soon;
  \<open>workspaceService.ts\<close> caches the tree, shares a pending request and delays
  a call that comes too soon.  The service is a state machine over the calls of its
  clients, the timers they wait for and the answers of the server, in any order; a client
  is a number.  Times are milliseconds.
\<close>

definition min_interval :: rat where "min_interval = 3000"

section \<open>The throttled fetch\<close>

datatype fetch_verdict = Blocked exn | Passed

definition throttled_fetch :: "(rat \<Rightarrow> string) \<Rightarrow> string \<Rightarrow> rat \<Rightarrow> rat \<Rightarrow> fetch_verdict \<times> rat" where
  "throttled_fetch num url now prev =
     (if includes_str url ''/api/workspace/tree''
      then (let since = now - prev
            in if since < min_interval
               then (Blocked (''Workspace API call throttled. Wait '' @ num (min_interval - since)
                       @ ''ms before retrying.''), prev)
               else (Passed, now))
      else (Passed, prev))"

fun run_fetches :: "(rat \<Rightarrow> string) \<Rightarrow> (string \<times> rat) list \<Rightarrow> rat \<Rightarrow> (string \<times> rat) list" where
  "run_fetches num [] prev = []"
| "run_fetches num ((url, now) # cs) prev =
     (let (v, prev1) = throttled_fetch num url now prev
      in (if v = Passed then [(url, now)] else []) @ run_fetches num cs prev1)"

abbreviation tree_call :: "string \<times> rat \<Rightarrow> bool" where
  "tree_call c \<equiv> includes_str (fst c) ''/api/workspace/tree''"

text \<open>The gate the calls for the tree go through.\<close>

definition tree_gate :: "rat \<Rightarrow> rat \<Rightarrow> bool \<times> rat" where
  "tree_gate prev now = (if now - prev < min_interval then (False, prev) else (True, now))"

interpretation tree_throttle: rate_gate tree_gate "\<lambda>prev. prev" min_interval
  by unfold_locales (auto simp: tree_gate_def split: if_splits)

lemma run_fetches_gate:
  "map snd (filter tree_call (run_fetches num cs prev)) = fst (run_gate tree_gate prev (map snd (filter tree_call cs)))"
  by (induction num cs prev rule: run_fetches.induct)
    (auto simp: throttled_fetch_def tree_gate_def Let_def split: prod.splits)

lemma run_fetches_others:
  "filter (\<lambda>c. \<not> tree_call c) (run_fetches num cs prev) = filter (\<lambda>c. \<not> tree_call c) cs"
  by (induction num cs prev rule: run_fetches.induct) (auto simp: throttled_fetch_def Let_def)

text \<open>
  Whatever is fetched when, the requests for the workspace tree that reach the
  network are at least three seconds apart, and all other requests reach it unchanged and
  in order.
\<close>

theorem tree_calls_apart:
  "successively (\<lambda>a b. min_interval \<le> b - a) (0 # map snd (filter tree_call (run_fetches num cs 0)))
   \<and> filter (\<lambda>c. \<not> tree_call c) (run_fetches num cs 0) = filter (\<lambda>c. \<not> tree_call c) cs"
  using tree_throttle.run_apart [of 0 "map snd (filter tree_call cs)"]
  by (cases "run_gate tree_gate 0 (map snd (filter tree_call cs))") (simp add: run_fetches_gate run_fetches_others)

section \<open>The service\<close>

record workspace_data =
  wd_tree :: jv
  wd_time :: rat

record service =
  sv_last :: rat
  sv_cache :: "workspace_data option"
  sv_pending :: "nat option"
  sv_listeners :: "nat list"
  sv_waiting :: "(nat \<times> rat) list"          \<comment> \<open>clients in a timeout, until when\<close>
  sv_flying :: "nat list"                    \<comment> \<open>clients whose request is under way\<close>
  sv_joined :: "(nat \<times> nat) list"           \<comment> \<open>clients that wait for the request of another\<close>
  sv_results :: "(nat \<times> workspace_data) list"
  sv_delivered :: "(nat \<times> workspace_data) list"
  sv_started :: "rat list"                    \<comment> \<open>when requests were made\<close>

definition service_init :: service where
  "service_init = \<lparr>sv_last = 0, sv_cache = None, sv_pending = None, sv_listeners = [], sv_waiting = [],
     sv_flying = [], sv_joined = [], sv_results = [], sv_delivered = [], sv_started = []\<rparr>"

definition subscribe :: "nat \<Rightarrow> service \<Rightarrow> service" where
  "subscribe k s =
     s\<lparr>sv_listeners := (if k \<in> set (sv_listeners s) then sv_listeners s else sv_listeners s @ [k]),
       sv_delivered := sv_delivered s @ (case sv_cache s of Some d \<Rightarrow> [(k, d)] | None \<Rightarrow> [])\<rparr>"

definition unsubscribe :: "nat \<Rightarrow> service \<Rightarrow> service" where
  "unsubscribe k s = s\<lparr>sv_listeners := removeAll k (sv_listeners s)\<rparr>"

definition notify_listeners :: "workspace_data \<Rightarrow> service \<Rightarrow> service" where
  "notify_listeners d s = s\<lparr>sv_delivered := sv_delivered s @ map (\<lambda>k. (k, d)) (sv_listeners s)\<rparr>"

definition start_request :: "nat \<Rightarrow> rat \<Rightarrow> service \<Rightarrow> service" where
  "start_request c now s =
     s\<lparr>sv_pending := Some c, sv_flying := sv_flying s @ [c], sv_started := sv_started s @ [now]\<rparr>"

definition service_call :: "nat \<Rightarrow> bool \<Rightarrow> rat \<Rightarrow> service \<Rightarrow> service" where
  "service_call c force now s =
     (let since = now - sv_last s
      in case (force, sv_cache s, since < min_interval) of
           (False, Some d, True) \<Rightarrow> s\<lparr>sv_results := sv_results s @ [(c, d)]\<rparr>
         | _ \<Rightarrow>
             (case sv_pending s of
                Some r \<Rightarrow> s\<lparr>sv_joined := sv_joined s @ [(c, r)]\<rparr>
              | None \<Rightarrow>
                  if since < min_interval
                  then s\<lparr>sv_waiting := sv_waiting s @ [(c, now + (min_interval - since))]\<rparr>
                  else start_request c now s))"

definition service_wake :: "nat \<Rightarrow> rat \<Rightarrow> rat \<Rightarrow> service \<Rightarrow> service" where
  "service_wake c due now s = start_request c now (s\<lparr>sv_waiting := remove1 (c, due) (sv_waiting s)\<rparr>)"

text \<open>\<open>fetchWorkspaceData\<close>: the answer is an error (of the fetch, or a bad status) or JSON.\<close>

definition fetched_data :: "exn + jv \<Rightarrow> rat \<Rightarrow> workspace_data option \<Rightarrow> workspace_data" where
  "fetched_data answer now cache =
     (let failed = (case cache of Some d \<Rightarrow> d | None \<Rightarrow> \<lparr>wd_tree = JArr [], wd_time = now\<rparr>)
      in case answer of
           Inl _ \<Rightarrow> failed
         | Inr data \<Rightarrow> if nullish data then failed
             else \<lparr>wd_tree = js_or (fld data ''tree'') (JArr []), wd_time = now\<rparr>)"

definition service_answer :: "nat \<Rightarrow> exn + jv \<Rightarrow> rat \<Rightarrow> service \<Rightarrow> service" where
  "service_answer c answer now s =
     (let d = fetched_data answer now (sv_cache s);
          s1 = notify_listeners d (s\<lparr>sv_cache := Some d, sv_last := now\<rparr>)
      in s1\<lparr>sv_pending := None, sv_flying := remove1 c (sv_flying s),
            sv_joined := filter (\<lambda>(b, r). r \<noteq> c) (sv_joined s),
            sv_results := sv_results s @ (c, d) # map (\<lambda>(b, r). (b, d)) (filter (\<lambda>(b, r). r = c) (sv_joined s))\<rparr>)"

definition clear_service_cache :: "service \<Rightarrow> service" where
  "clear_service_cache s = s\<lparr>sv_cache := None, sv_last := 0\<rparr>"

text \<open>
  The states reachable at a time, with the clients that have called; \<open>force\<close> says
  whether forced calls occur.  \<open>clearCache\<close> is for tests and is left out.
\<close>

inductive service_run :: "bool \<Rightarrow> rat \<Rightarrow> nat list \<Rightarrow> service \<Rightarrow> bool" for force where
  start: "min_interval \<le> now \<Longrightarrow> service_run force now [] service_init"
| later: "service_run force t cs s \<Longrightarrow> t \<le> now \<Longrightarrow> service_run force now cs s"
| call: "service_run force now cs s \<Longrightarrow> (f \<longrightarrow> force) \<Longrightarrow> service_run force now (cs @ [c]) (service_call c f now s)"
| wake: "service_run force now cs s \<Longrightarrow> (c, due) \<in> set (sv_waiting s) \<Longrightarrow> due \<le> now
    \<Longrightarrow> service_run force now cs (service_wake c due now s)"
| answered: "service_run force now cs s \<Longrightarrow> c \<in> set (sv_flying s)
    \<Longrightarrow> service_run force now cs (service_answer c a now s)"
| subscribed: "service_run force now cs s \<Longrightarrow> service_run force now cs (subscribe k s)"
| unsubscribed: "service_run force now cs s \<Longrightarrow> service_run force now cs (unsubscribe k s)"

lemmas service_defs = service_call_def service_wake_def service_answer_def start_request_def subscribe_def
  unsubscribe_def notify_listeners_def

subsection \<open>No client is lost\<close>

definition clients_kept :: "nat list \<Rightarrow> service \<Rightarrow> bool" where
  "clients_kept cs s \<longleftrightarrow>
     mset cs = mset (map fst (sv_results s)) + mset (map fst (sv_waiting s)) + mset (sv_flying s)
       + mset (map fst (sv_joined s))
     \<and> (\<forall>(b, r) \<in> set (sv_joined s). r \<in> set (sv_flying s))
     \<and> (\<forall>r. sv_pending s = Some r \<longrightarrow> r \<in> set (sv_flying s))"

lemma clients_kept_call: "clients_kept cs s \<Longrightarrow> clients_kept (cs @ [c]) (service_call c f now s)"
  by (cases f) (auto simp: clients_kept_def service_call_def start_request_def Let_def
      split: option.splits bool.splits if_splits)

lemma clients_kept_wake:
  assumes "clients_kept cs s" "(c, due) \<in> set (sv_waiting s)"
  shows "clients_kept cs (service_wake c due now s)"
proof -
  have "mset (sv_waiting s) = add_mset (c, due) (mset (remove1 (c, due) (sv_waiting s)))"
    using assms(2) by simp
  from arg_cong [OF this, of "image_mset fst"]
  have "mset (map fst (sv_waiting s)) = add_mset c (mset (map fst (remove1 (c, due) (sv_waiting s))))"
    by (simp only: image_mset_add_mset mset_map fst_conv)
  then show ?thesis using assms(1) by (auto simp: clients_kept_def service_wake_def start_request_def)
qed

lemma mset_fst_split:
  "mset (map fst xs) = mset (map fst (filter (\<lambda>(b, r). r = c) xs)) + mset (map fst (filter (\<lambda>(b, r). r \<noteq> c) xs))"
  by (induction xs) auto

lemma clients_kept_answer:
  assumes k: "clients_kept cs s" and c: "c \<in> set (sv_flying s)"
  shows "clients_kept cs (service_answer c a now s)"
proof -
  let ?d = "fetched_data a now (sv_cache s)"
  let ?mine = "filter (\<lambda>(b, r). r = c) (sv_joined s)" and ?rest = "filter (\<lambda>(b, r). r \<noteq> c) (sv_joined s)"
  have f: "mset (sv_flying s) = {# c #} + mset (remove1 c (sv_flying s))" using c by simp
  have "\<forall>(b, r) \<in> set ?rest. r \<in> set (remove1 c (sv_flying s))"
    using k by (auto simp: clients_kept_def in_set_remove1)
  moreover have "mset cs = mset (map fst (sv_results s @ (c, ?d) # map (\<lambda>(b, r). (b, ?d)) ?mine))
      + mset (map fst (sv_waiting s)) + mset (remove1 c (sv_flying s)) + mset (map fst ?rest)"
  proof -
    have a: "mset cs = mset (map fst (sv_results s)) + mset (map fst (sv_waiting s)) + mset (sv_flying s)
        + mset (map fst (sv_joined s))" using k by (simp add: clients_kept_def)
    have r: "mset (map fst (sv_results s @ (c, ?d) # map (\<lambda>(b, r). (b, ?d)) ?mine))
        = mset (map fst (sv_results s)) + ({# c #} + mset (map fst ?mine))"
      by (simp add: case_prod_beta comp_def)
    show ?thesis unfolding a r f mset_fst_split [of "sv_joined s" c] by (simp only: ac_simps)
  qed
  ultimately show ?thesis
    unfolding clients_kept_def service_answer_def notify_listeners_def Let_def by simp
qed

text \<open>
  No client of the service is lost: at any time each call has returned, waits for its
  timer, has a request under way, or waits for a request that is under way; and every
  answer, an error included, returns data to all the calls that wait for it.
\<close>

theorem service_keeps_clients:
  assumes "service_run force now cs s"
  shows "mset cs = mset (map fst (sv_results s)) + mset (map fst (sv_waiting s)) + mset (sv_flying s)
       + mset (map fst (sv_joined s))
     \<and> (\<forall>(b, r) \<in> set (sv_joined s). r \<in> set (sv_flying s))"
proof -
  have "clients_kept cs s"
    using assms
  proof (induction rule: service_run.induct)
    case (start now)
    then show ?case by (simp add: clients_kept_def service_init_def)
  next
    case (subscribed now cs s k)
    then show ?case by (simp add: clients_kept_def subscribe_def)
  next
    case (unsubscribed now cs s k)
    then show ?case by (simp add: clients_kept_def unsubscribe_def)
  qed (simp_all add: clients_kept_call clients_kept_wake clients_kept_answer)
  then show ?thesis by (simp add: clients_kept_def)
qed

theorem service_keeps_clients_witness:
  "mset [7 :: nat] = mset (map fst (sv_results (service_call 7 True 5000 service_init)))
     + mset (map fst (sv_waiting (service_call 7 True 5000 service_init)))
     + mset (sv_flying (service_call 7 True 5000 service_init))
     + mset (map fst (sv_joined (service_call 7 True 5000 service_init)))"
proof -
  have "service_run True 5000 ([] @ [7]) (service_call 7 True 5000 service_init)"
    by (intro service_run.call service_run.start) (simp_all add: min_interval_def)
  from service_keeps_clients [OF this] show ?thesis by simp
qed

subsection \<open>How far apart requests are\<close>

definition calm :: "rat \<Rightarrow> service \<Rightarrow> bool" where
  "calm now s \<longleftrightarrow>
     sv_waiting s = [] \<and> min_interval \<le> now \<and> sv_last s \<le> now \<and> (sv_cache s = None \<longrightarrow> sv_last s = 0)
     \<and> sv_flying s = (case sv_pending s of None \<Rightarrow> [] | Some r \<Rightarrow> [r])
     \<and> successively (\<lambda>a b. min_interval \<le> b - a) (sv_started s)
     \<and> (sv_started s \<noteq> [] \<longrightarrow> last (sv_started s) \<le> (if sv_pending s = None then sv_last s else now))"

lemma calm_call: "calm now s \<Longrightarrow> calm now (service_call c False now s)"
  by (auto simp: calm_def service_call_def start_request_def Let_def successively_append_iff
      split: option.splits bool.splits if_splits)

lemma calm_answer: "calm now s \<Longrightarrow> c \<in> set (sv_flying s) \<Longrightarrow> calm now (service_answer c a now s)"
  by (auto simp: calm_def service_answer_def notify_listeners_def Let_def split: option.splits)

text \<open>
  C36. As long as no call is forced, the service itself makes no two requests less than
  three seconds apart, and never has two under way.
\<close>

theorem unforced_requests_apart:
  assumes "service_run False now cs s"
  shows "successively (\<lambda>a b. min_interval \<le> b - a) (sv_started s) \<and> length (sv_flying s) \<le> 1"
proof -
  have "calm now s"
    using assms
  proof (induction rule: service_run.induct)
    case (start now)
    then show ?case by (simp add: calm_def service_init_def min_interval_def)
  next
    case (later t cs s now)
    then show ?case by (cases "sv_pending s") (auto simp: calm_def)
  next
    case (call now cs s f c)
    then show ?case using calm_call by simp
  next
    case (wake now cs s c due)
    then show ?case by (simp add: calm_def)
  next
    case (answered now cs s c a)
    then show ?case using calm_answer by simp
  next
    case (subscribed now cs s k)
    then show ?case by (cases "sv_pending s") (simp_all add: calm_def subscribe_def)
  next
    case (unsubscribed now cs s k)
    then show ?case by (cases "sv_pending s") (simp_all add: calm_def unsubscribe_def)
  qed
  then show ?thesis by (auto simp: calm_def split: option.splits)
qed

theorem unforced_requests_apart_witness:
  "length (sv_flying (service_call 7 False 5000 service_init)) \<le> 1"
proof -
  have "service_run False 5000 ([] @ [7]) (service_call 7 False 5000 service_init)"
    by (intro service_run.call service_run.start) (simp_all add: min_interval_def)
  from unforced_requests_apart [OF this] show ?thesis by simp
qed

text \<open>
  Two forced calls within three seconds of an answer wait for the same moment and both
  make a request then: nothing looks at the pending request again after the timeout.  So
  the service does call the tree more often than once in three seconds.
\<close>

theorem forced_requests_together:
  "\<exists>s. service_run True 13100 [1, 2, 3] s \<and> sv_started s = [10000, 13100, 13100] \<and> sv_flying s = [2, 3]"
proof -
  define s1 where "s1 = service_call 1 True 10000 service_init"
  define s2 where "s2 = service_answer 1 (Inr (JObj [])) 10100 s1"
  define s3 where "s3 = service_call 3 True 10100 (service_call 2 True 10100 s2)"
  define s4 where "s4 = service_wake 3 13100 13100 (service_wake 2 13100 13100 s3)"
  have e1: "s1 = service_init\<lparr>sv_pending := Some 1, sv_flying := [1], sv_started := [10000]\<rparr>"
    by (simp add: s1_def service_call_def start_request_def service_init_def min_interval_def)
  have e2: "sv_last s2 = 10100" "sv_pending s2 = None" "sv_waiting s2 = []" "sv_flying s2 = []" "sv_started s2 = [10000]"
    by (simp_all add: s2_def e1 service_answer_def notify_listeners_def service_init_def Let_def)
  have e3: "sv_waiting s3 = [(2, 13100), (3, 13100)]" "sv_flying s3 = []" "sv_started s3 = [10000]"
    using e2 by (simp_all add: s3_def service_call_def min_interval_def Let_def)
  have "service_run True 10000 [1] s1"
    using service_run.call [OF service_run.start [of 10000 True], of True 1] by (simp add: s1_def min_interval_def)
  then have "service_run True 10100 [1] s1" by (rule service_run.later [of _ 10000]) simp_all
  then have "service_run True 10100 [1] s2"
    unfolding s2_def by (rule service_run.answered) (simp add: e1)
  then have "service_run True 10100 (([1] @ [2]) @ [3]) s3"
    unfolding s3_def by (intro service_run.call) simp_all
  then have "service_run True 13100 (([1] @ [2]) @ [3]) s3" by (rule service_run.later [of _ 10100]) simp_all
  then have "service_run True 13100 [1, 2, 3] s3" by simp
  then have "service_run True 13100 [1, 2, 3] s4"
    unfolding s4_def by (intro service_run.wake) (simp_all add: e3 service_wake_def start_request_def)
  moreover have "sv_started s4 = [10000, 13100, 13100]" "sv_flying s4 = [2, 3]"
    by (simp_all add: s4_def e3 service_wake_def start_request_def)
  ultimately show ?thesis by blast
qed

end
