(* ===== verification/Card_State.thy ===== *)
theory Card_State
  imports Js_Value
begin

text \<open>
  The state of the card component, \<open>agentic_chat/src/CardManager.tsx\<close>, behind the
  interface it puts on the window, and the variables it collects from the answers.  A
  React component reads the state of its last rendering and writes the next one: the
  \<open>seen\<close> fields are what the functions of the interface read, and rendering makes
  them current.  Identifiers of steps and clocks are arguments.
\<close>

record card_step =
  kd_id :: string
  kd_title :: string
  kd_content :: jv
  kd_time :: rat
  kd_completed :: bool

record cards =
  ca_steps :: "card_step list"
  ca_card :: "string option"
  ca_complete :: bool
  ca_stopped :: bool
  ca_collapsed :: bool
  ca_final :: bool
  ca_index :: nat
  ca_inplace :: bool
  ca_details :: "string list"
  ca_code :: "string list"
  ca_emitted :: "string list"        \<comment> \<open>final answers announced\<close>
  ca_seen_steps :: "card_step list"
  ca_seen_complete :: bool
  ca_seen_inplace :: bool

definition cards_init :: cards where
  "cards_init = \<lparr>ca_steps = [], ca_card = None, ca_complete = False, ca_stopped = False, ca_collapsed = False,
     ca_final = False, ca_index = 0, ca_inplace = True, ca_details = [], ca_code = [], ca_emitted = [],
     ca_seen_steps = [], ca_seen_complete = False, ca_seen_inplace = True\<rparr>"

definition render_cards :: "cards \<Rightarrow> cards" where
  "render_cards s = s\<lparr>ca_seen_steps := ca_steps s, ca_seen_complete := ca_complete s, ca_seen_inplace := ca_inplace s\<rparr>"

definition rendered :: "cards \<Rightarrow> bool" where
  "rendered s \<longleftrightarrow> ca_seen_steps s = ca_steps s \<and> ca_seen_complete s = ca_complete s \<and> ca_seen_inplace s = ca_inplace s"

definition mark_step_completed :: "string \<Rightarrow> cards \<Rightarrow> cards" where
  "mark_step_completed ident s =
     s\<lparr>ca_steps := map (\<lambda>x. if kd_id x = ident then x\<lparr>kd_completed := True\<rparr> else x) (ca_steps s)\<rparr>"

section \<open>The interface\<close>

definition add_step :: "(rat \<Rightarrow> string) \<Rightarrow> string \<Rightarrow> rat \<Rightarrow> string \<Rightarrow> jv \<Rightarrow> cards \<Rightarrow> cards" where
  "add_step num ident now title content s =
     (let new = \<lparr>kd_id = ident, kd_title = title, kd_content = content, kd_time = now, kd_completed = False\<rparr>;
          s1 = s\<lparr>ca_steps := ca_steps s @ [new],
                 ca_card := (if ca_steps s = [] then Some (''card-'' @ num now) else ca_card s),
                 ca_index := (if ca_seen_inplace s
                              then if ca_seen_steps s \<noteq> [] then Suc (ca_index s) else 0 else ca_index s)\<rparr>;
          s2 = (if title = ''SuggestHumanActions''
                then s1\<lparr>ca_details := List.insert ident (ca_details s1), ca_collapsed := True\<rparr> else s1)
      in if title = ''Answer''
         then s2\<lparr>ca_final := True, ca_collapsed := True, ca_details := List.insert ident (ca_details s2),
                 ca_emitted := ca_emitted s2 @ [ident]\<rparr>
         else s2)"

definition stop_processing :: "cards \<Rightarrow> cards" where
  "stop_processing s =
     s\<lparr>ca_stopped := True, ca_complete := True, ca_collapsed := True, ca_details := [], ca_code := []\<rparr>"

definition is_processing_stopped :: "cards \<Rightarrow> bool" where
  "is_processing_stopped s = ca_seen_complete s"

definition set_processing_complete :: "bool \<Rightarrow> cards \<Rightarrow> cards" where
  "set_processing_complete b s = s\<lparr>ca_complete := b\<rparr>"

definition force_reset :: "cards \<Rightarrow> cards" where
  "force_reset s =
     s\<lparr>ca_steps := [], ca_complete := False, ca_card := None, ca_collapsed := False, ca_final := False,
       ca_index := 0, ca_stopped := False, ca_details := [], ca_code := []\<rparr>"

definition has_step_with_title :: "string \<Rightarrow> cards \<Rightarrow> bool" where
  "has_step_with_title title s = list_ex (\<lambda>x. kd_title x = title) (ca_seen_steps s)"

definition toggle_code_preview :: "string \<Rightarrow> cards \<Rightarrow> cards" where
  "toggle_code_preview ident s =
     s\<lparr>ca_code := (if ident \<in> set (ca_code s) then removeAll ident (ca_code s) else ident # ca_code s)\<rparr>"

section \<open>Variables of the answers\<close>

record turn =
  tu_id :: string
  tu_title :: string
  tu_time :: rat
  tu_variables :: jv

record variable_state =
  va_history :: "turn list"
  va_selected :: "string option"
  va_global :: jv

text \<open>The variables of a step; an object without keys counts as none.\<close>

definition content_variables :: "(string \<Rightarrow> exn + jv) \<Rightarrow> jv \<Rightarrow> jv" where
  "content_variables parse content =
     (let vars = (\<lambda>p. if truthy (fld p ''variables'') then fld p ''variables'' else JObj [])
      in case content of
           JStr c \<Rightarrow> (case parse c of Inl _ \<Rightarrow> JObj [] | Inr p \<Rightarrow> if nullish p then JObj [] else vars p)
         | JObj fs \<Rightarrow> vars content
         | _ \<Rightarrow> JObj [])"

definition step_variables :: "(string \<Rightarrow> exn + jv) \<Rightarrow> card_step \<Rightarrow> jv option" where
  "step_variables parse st =
     (if kd_title st \<noteq> ''Answer'' \<and> kd_title st \<noteq> ''FinalAnswerAgent'' then None
      else let v = content_variables parse (kd_content st) in if obj_fields v \<noteq> [] then Some v else None)"

fun turns_from :: "(string \<Rightarrow> exn + jv) \<Rightarrow> nat \<Rightarrow> card_step list \<Rightarrow> turn list" where
  "turns_from parse k [] = []"
| "turns_from parse k (st # sts) =
     (case step_variables parse st of
        Some v \<Rightarrow> \<lparr>tu_id = kd_id st, tu_title = ''Turn '' @ show_nat k, tu_time = kd_time st, tu_variables = v\<rparr>
          # turns_from parse (Suc k) sts
      | None \<Rightarrow> turns_from parse k sts)"

definition history_changed :: "(jv \<Rightarrow> string) \<Rightarrow> turn list \<Rightarrow> turn list \<Rightarrow> bool" where
  "history_changed stringify old new \<longleftrightarrow>
     length old \<noteq> length new
     \<or> list_ex (\<lambda>(a, b). tu_id a \<noteq> tu_id b \<or> stringify (tu_variables a) \<noteq> stringify (tu_variables b)) (zip old new)"

text \<open>The effect that runs when the steps have changed, with what its closure saw.\<close>

definition select_turn :: "turn list \<Rightarrow> turn list \<Rightarrow> string option \<Rightarrow> string option" where
  "select_turn new seen current =
     (let keep = (\<lambda>ts. case current of Some c \<Rightarrow> list_ex (\<lambda>e. tu_id e = c) ts | None \<Rightarrow> False)
      in if new \<noteq> [] then (if keep new then current else Some (tu_id (last new)))
         else if seen \<noteq> [] then (if keep seen then current else Some (tu_id (last seen)))
         else None)"

definition global_variables :: "turn list \<Rightarrow> string option \<Rightarrow> jv \<Rightarrow> jv" where
  "global_variables history selected old =
     (case selected of
        Some i \<Rightarrow> (case filter (\<lambda>e. tu_id e = i) history of e # _ \<Rightarrow> tu_variables e | [] \<Rightarrow> old)
      | None \<Rightarrow> if history \<noteq> [] then tu_variables (last history) else JObj [])"

definition update_variables ::
  "(string \<Rightarrow> exn + jv) \<Rightarrow> (jv \<Rightarrow> string) \<Rightarrow> card_step list \<Rightarrow> variable_state \<Rightarrow> variable_state" where
  "update_variables parse stringify sts v =
     (let new = turns_from parse 0 sts;
          history = (if history_changed stringify (va_history v) new then new else va_history v);
          selected = select_turn new (va_history v) (va_selected v)
      in v\<lparr>va_history := history, va_selected := selected,
           va_global := global_variables history selected (va_global v)\<rparr>)"

section \<open>Properties\<close>

definition index_ok :: "cards \<Rightarrow> bool" where
  "index_ok s \<longleftrightarrow> rendered s \<and> ca_inplace s \<and> ca_index s = length (ca_steps s) - 1
     \<and> (ca_card s \<noteq> None \<longleftrightarrow> ca_steps s \<noteq> [])"

lemma add_step_steps:
  "map kd_title (ca_steps (add_step num ident now title content s)) = map kd_title (ca_steps s) @ [title]"
  "ca_complete (add_step num ident now title content s) = ca_complete s"
  by (simp_all add: add_step_def Let_def)

lemma render_idem [simp]: "rendered (render_cards s)"
  by (simp add: rendered_def render_cards_def)

text \<open>
  While every step is rendered before the next one is added, the card on view is the
  last step and there is a card exactly when there are steps.  Several steps added
  before a rendering, as for events that arrive together, leave the first of them on view,
  because the index is counted from the steps of the last rendering.
\<close>

theorem card_shows_last_step:
  assumes "index_ok s"
  shows "index_ok (render_cards (add_step num ident now title content s))
     \<and> (ca_steps s = [] \<longrightarrow>
          ca_index (foldl (\<lambda>c (i, t, x). add_step num i now t x c) s new) = 0
          \<and> map kd_title (ca_steps (foldl (\<lambda>c (i, t, x). add_step num i now t x c) s new)) = map (\<lambda>(i, t, x). t) new)"
proof (intro conjI impI)
  show "index_ok (render_cards (add_step num ident now title content s))"
    using assms by (auto simp: index_ok_def add_step_def Let_def rendered_def render_cards_def)
  assume e: "ca_steps s = []"
  have seen: "ca_seen_steps (add_step num i now t x c) = ca_seen_steps c"
    "ca_seen_inplace (add_step num i now t x c) = ca_seen_inplace c" for i t x c
    by (simp_all add: add_step_def Let_def)
  have idx: "ca_seen_steps c = [] \<Longrightarrow> ca_seen_inplace c \<Longrightarrow> ca_index (add_step num i now t x c) = 0" for i t x c
    by (simp add: add_step_def Let_def)
  have "ca_index (foldl (\<lambda>c (i, t, x). add_step num i now t x c) c new) = 0
      \<and> map kd_title (ca_steps (foldl (\<lambda>c (i, t, x). add_step num i now t x c) c new))
        = map kd_title (ca_steps c) @ map (\<lambda>(i, t, x). t) new"
    if "ca_seen_steps c = []" "ca_seen_inplace c" "ca_index c = 0" for c
    using that
  proof (induction new arbitrary: c)
    case (Cons a new)
    obtain i t x where a: "a = (i, t, x)" by (cases a)
    show ?case
      using Cons.IH [of "add_step num i now t x c"] Cons.prems by (simp add: a seen idx add_step_steps)
  qed simp
  moreover have "ca_seen_steps s = []" "ca_seen_inplace s" "ca_index s = 0"
    using assms e by (simp_all add: index_ok_def rendered_def)
  ultimately show "ca_index (foldl (\<lambda>c (i, t, x). add_step num i now t x c) s new) = 0"
    "map kd_title (ca_steps (foldl (\<lambda>c (i, t, x). add_step num i now t x c) s new)) = map (\<lambda>(i, t, x). t) new"
    using e by simp_all
qed

theorem card_shows_last_step_witness:
  "index_ok (render_cards (add_step (\<lambda>_. ''0'') ''s'' 0 ''Thinking'' (JStr ''x'') cards_init))"
proof -
  have "index_ok cards_init" by (simp add: index_ok_def rendered_def render_cards_def cards_init_def)
  from card_shows_last_step [OF this] show ?thesis by blast
qed

lemma turns_from_ids: "map tu_id (turns_from parse k sts) = map kd_id (filter (\<lambda>x. step_variables parse x \<noteq> None) sts)"
  by (induction sts arbitrary: k) (auto split: option.split)

lemma turns_from_titles:
  "map tu_title (turns_from parse k sts) = map (\<lambda>i. ''Turn '' @ show_nat i) [k..<k + length (turns_from parse k sts)]"
proof (induction sts arbitrary: k)
  case (Cons st sts)
  then show ?case
    by (cases "step_variables parse st") (simp_all add: upt_conv_Cons del: upt_Suc)
qed simp

lemma history_same_ids: "\<not> history_changed stringify old new \<Longrightarrow> map tu_id old = map tu_id new"
proof -
  have "map tu_id old = map tu_id new"
    if "length old = length new"
      "\<not> list_ex (\<lambda>(a, b). tu_id a \<noteq> tu_id b \<or> stringify (tu_variables a) \<noteq> stringify (tu_variables b)) (zip old new)"
    using that by (induction old new rule: list_induct2) auto
  then show "\<not> history_changed stringify old new \<Longrightarrow> map tu_id old = map tu_id new"
    by (auto simp: history_changed_def)
qed

text \<open>
  Each update of the variables lists one turn per answer with variables, in the order
  of the steps, and selects one of them.  A reset of the cards, which leaves no steps,
  empties that list although the code says it is preserved; the selection then names a
  turn that is gone, and the variables on view are still those of before.
\<close>

theorem variables_after_update:
  "map tu_id (va_history (update_variables parse stringify sts v)) =
     map kd_id (filter (\<lambda>x. step_variables parse x \<noteq> None) sts)
   \<and> (filter (\<lambda>x. step_variables parse x \<noteq> None) sts \<noteq> [] \<longrightarrow>
        (\<exists>i. va_selected (update_variables parse stringify sts v) = Some i
           \<and> i \<in> set (map tu_id (va_history (update_variables parse stringify sts v)))))
   \<and> (va_history v \<noteq> [] \<and> va_selected v = Some (tu_id (last (va_history v))) \<longrightarrow>
        va_history (update_variables parse stringify (ca_steps (force_reset s)) v) = []
        \<and> va_selected (update_variables parse stringify (ca_steps (force_reset s)) v) = va_selected v
        \<and> va_global (update_variables parse stringify (ca_steps (force_reset s)) v) = va_global v)"
proof (intro conjI impI)
  let ?new = "turns_from parse 0 sts" and ?u = "update_variables parse stringify sts v"
  show ids: "map tu_id (va_history ?u) = map kd_id (filter (\<lambda>x. step_variables parse x \<noteq> None) sts)"
    using history_same_ids [of stringify "va_history v" ?new] turns_from_ids [of parse 0 sts]
    by (simp add: update_variables_def Let_def)
  assume "filter (\<lambda>x. step_variables parse x \<noteq> None) sts \<noteq> []"
  then have ne: "?new \<noteq> []" using turns_from_ids [of parse 0 sts] by (metis Nil_is_map_conv)
  have "va_selected ?u = select_turn ?new (va_history v) (va_selected v)"
    by (simp add: update_variables_def Let_def)
  moreover have "\<exists>i. select_turn ?new (va_history v) (va_selected v) = Some i \<and> i \<in> set (map tu_id ?new)"
    using ne by (auto simp: select_turn_def Let_def list_ex_iff split: option.splits)
  moreover have "set (map tu_id ?new) = set (map tu_id (va_history ?u))"
    using ids turns_from_ids [of parse 0 sts] by simp
  ultimately show "\<exists>i. va_selected ?u = Some i \<and> i \<in> set (map tu_id (va_history ?u))" by metis
next
  assume v: "va_history v \<noteq> [] \<and> va_selected v = Some (tu_id (last (va_history v)))"
  let ?r = "update_variables parse stringify (ca_steps (force_reset s)) v"
  have c: "history_changed stringify (va_history v) []" using v by (simp add: history_changed_def)
  show "va_history ?r = []" using c by (simp add: update_variables_def force_reset_def Let_def)
  show sel: "va_selected ?r = va_selected v"
    using v by (auto simp: update_variables_def force_reset_def select_turn_def list_ex_iff Let_def)
  show "va_global ?r = va_global v"
    using c v sel by (simp add: update_variables_def force_reset_def global_variables_def Let_def)
qed

theorem variables_after_update_witness:
  "va_history (update_variables (\<lambda>_. Inl ''bad'') (\<lambda>_. []) (ca_steps (force_reset cards_init))
     \<lparr>va_history = [\<lparr>tu_id = ''a'', tu_title = ''Turn 0'', tu_time = 0, tu_variables = JObj [(''x'', JNum 1)]\<rparr>],
      va_selected = Some ''a'', va_global = JObj [(''x'', JNum 1)]\<rparr>) = []"
  using variables_after_update [of "\<lambda>_. Inl ''bad''" "\<lambda>_. []" "[]"
      "\<lparr>va_history = [\<lparr>tu_id = ''a'', tu_title = ''Turn 0'', tu_time = 0, tu_variables = JObj [(''x'', JNum 1)]\<rparr>],
      va_selected = Some ''a'', va_global = JObj [(''x'', JNum 1)]\<rparr>" cards_init]
  by simp

end
