(* ===== verification/Card_Text.thy ===== *)
theory Card_Text
  imports Card_State
begin

text \<open>
  What the cards of \<open>agentic_chat/src/CardManager.tsx\<close> say of a step: how the content
  of a step is read, by the filter of the lists, by a card and by the details of a card,
  and the description and the heading a card gets from it.  A description is the markup
  the code puts into the page as it is, or a drawing of code or reasoning, or nothing.
  \<open>JSON.parse\<close>, \<open>JSON.stringify\<close> and the printing of numbers are arguments; symbols
  are written by their bytes.
\<close>

section \<open>The content of a step\<close>

text \<open>The filter of the lists: a lone field \<open>data\<close> is unwrapped.\<close>

definition lone_data :: "jv \<Rightarrow> jv option" where
  "lone_data p = (case p of JObj [(k, d)] \<Rightarrow> if k = ''data'' then Some d else None | _ \<Rightarrow> None)"

definition filter_content :: "(string \<Rightarrow> exn + jv) \<Rightarrow> jv \<Rightarrow> jv" where
  "filter_content parse content =
     (case content of
        JStr c \<Rightarrow>
          (case parse c of
             Inl _ \<Rightarrow> content
           | Inr p \<Rightarrow> if nullish p then content else (case lone_data p of Some d \<Rightarrow> d | None \<Rightarrow> p))
      | _ \<Rightarrow> content)"

definition policy_object :: "jv \<Rightarrow> bool" where
  "policy_object v \<longleftrightarrow> is_obj v \<and> fld v ''type'' = JStr ''policy''"

definition policy_answer :: "jv \<Rightarrow> jv \<Rightarrow> jv" where
  "policy_answer q e = js_or (fld q ''content'') (js_or (fld q ''response_content'') e)"

text \<open>The data next to variables, and the policies in force.\<close>

definition data_and_policies :: "(string \<Rightarrow> exn + jv) \<Rightarrow> jv \<Rightarrow> jv \<times> jv" where
  "data_and_policies parse p =
     (let d = fld p ''data''; others = js_or (fld p ''active_policies'') (JArr [])
      in case d of
           JStr s \<Rightarrow>
             (case parse s of
                Inr q \<Rightarrow> if policy_object q then (policy_answer q d, JArr [q]) else (d, others)
              | Inl _ \<Rightarrow> (d, others))
         | _ \<Rightarrow> if policy_object d then (policy_answer d (JStr []), JArr [d]) else (d, others))"

definition has_variables :: "jv \<Rightarrow> bool" where
  "has_variables p \<longleftrightarrow> fld p ''data'' \<noteq> JUndef \<and> truthy (fld p ''variables'')"

definition content_with_variables :: "(string \<Rightarrow> exn + jv) \<Rightarrow> string \<Rightarrow> jv \<Rightarrow> jv" where
  "content_with_variables parse title p =
     (let (d, policies) = data_and_policies parse p;
          others = [(''variables'', fld p ''variables''), (''active_policies'', policies)]
      in if title = ''Answer'' \<or> title = ''FinalAnswerAgent'' then JObj ((''final_answer'', d) # others)
         else (case fld p ''data'' of
                 JObj fs \<Rightarrow> obj_with (JObj fs) others
               | JNull \<Rightarrow> obj_with JNull others
               | _ \<Rightarrow> JObj ((''data'', d) # others)))"

text \<open>Data alone: a policy becomes an answer, of a playbook an empty one in the details.\<close>

definition data_content :: "(string \<Rightarrow> exn + jv) \<Rightarrow> bool \<Rightarrow> jv \<Rightarrow> jv" where
  "data_content parse details d =
     (let answer = (\<lambda>q. JObj
            [(''final_answer'', if details \<and> fld q ''policy_type'' = JStr ''playbook'' then JStr []
                               else policy_answer q (JStr [])),
             (''active_policies'', JArr [q])])
      in case d of
           JStr s \<Rightarrow> (case parse s of Inr q \<Rightarrow> if policy_object q then answer q else d | Inl _ \<Rightarrow> d)
         | _ \<Rightarrow> if policy_object d then answer d else d)"

definition card_content :: "(string \<Rightarrow> exn + jv) \<Rightarrow> string \<Rightarrow> jv \<Rightarrow> jv" where
  "card_content parse title content =
     (case content of
        JStr c \<Rightarrow>
          (case parse c of
             Inl _ \<Rightarrow> content
           | Inr p \<Rightarrow>
               if nullish p then content
               else if has_variables p then content_with_variables parse title p
               else (case lone_data p of Some d \<Rightarrow> data_content parse False d | None \<Rightarrow> p))
      | _ \<Rightarrow> content)"

definition details_content :: "(string \<Rightarrow> exn + jv) \<Rightarrow> string \<Rightarrow> jv \<Rightarrow> jv" where
  "details_content parse title content =
     (case content of
        JStr c \<Rightarrow>
          (case parse c of
             Inl _ \<Rightarrow> content
           | Inr p \<Rightarrow>
               if nullish p then content
               else if has_variables p then content_with_variables parse title p
               else (case lone_data p of
                       Some d \<Rightarrow> data_content parse True d
                     | None \<Rightarrow>
                         if truthy (fld p ''active_policies'')
                         then obj_with p [(''active_policies'', fld p ''active_policies'')] else p))
      | _ \<Rightarrow> content)"

section \<open>Markup\<close>

definition highlight_span :: "string \<Rightarrow> string \<Rightarrow> string" where
  "highlight_span weight t =
     ''<span style='' @ [CHR 0x22] @ ''color:#4e00ec; font-weight:'' @ weight @ '';'' @ [CHR 0x22] @ ''>'' @ t @ ''</span>''"

abbreviation bold_span :: "string \<Rightarrow> string" where
  "bold_span \<equiv> highlight_span '' 600''"

abbreviation medium_span :: "string \<Rightarrow> string" where
  "medium_span \<equiv> highlight_span ''500''"

definition coloured_span :: "string \<Rightarrow> string \<Rightarrow> string" where
  "coloured_span colour t =
     ''<span style='' @ [CHR 0x22] @ ''color: '' @ colour @ ''; font-weight: 600;'' @ [CHR 0x22] @ ''>'' @ t @ ''</span>''"

definition ive :: string where "ive = ''I'' @ [CHR 0x27] @ ''ve ''"

definition im :: string where "im = ''I'' @ [CHR 0x27] @ ''m ''"

definition not_a_function :: "string \<Rightarrow> exn" where
  "not_a_function f = f @ '' is not a function''"

text \<open>\<open>d.length > n ? d.substring(0, n) + "..." : d\<close>, put into a text.\<close>

definition preview_text :: "(rat \<Rightarrow> string) \<Rightarrow> string \<Rightarrow> nat \<Rightarrow> jv \<Rightarrow> exn + string" where
  "preview_text num name n d =
     (if js_num (fld d ''length'') > of_nat n
      then (case d of
              JStr s \<Rightarrow> Inr (take n s @ ''...'')
            | _ \<Rightarrow> Inl (not_a_function (name @ ''.substring'')))
      else Inr (js_to_string num d))"

datatype description =
    Markup string
  | Code_View "string list" nat bool bool bool "(string list \<times> bool \<times> bool) option"
  | Reasoning_View string bool bool
  | Hidden

section \<open>Descriptions\<close>

definition describe_plan :: "(rat \<Rightarrow> string) \<Rightarrow> jv \<Rightarrow> exn + description" where
  "describe_plan num p =
     try_bind (get_prop p ''subtasks_progress'') (\<lambda>progress.
       let next_task = fld p ''next_subtask'' in
       if truthy progress \<and> truthy next_task then
         (case progress of
            JArr xs \<Rightarrow>
              let completed = length (filter (\<lambda>x. x = JStr ''completed'') xs); total = length xs;
                  ending = (if truthy (fld p ''conclude_task'') then ''The task is ready to be concluded.''
                            else ''Next up: '' @ bold_span (js_to_string num next_task))
              in Inr (Markup (im @ ''managing the overall task progress. '' @
                   (if total = 0
                    then ''There'' @ [CHR 0x27] @ ''s '' @ bold_span ''one next task'' @ ''. '' @ ending
                    else ''Currently '' @ bold_span (show_nat completed @ '' out of '' @ show_nat total @ '' subtasks'')
                         @ '' are completed. '' @ ending)))
          | _ \<Rightarrow> Inl (not_a_function ''parsedContent.subtasks_progress.filter''))
       else Inr (Markup (im @ ''analyzing the task structure and planning the execution approach.'')))"

definition describe_decomposition :: "(rat \<Rightarrow> string) \<Rightarrow> jv \<Rightarrow> exn + description" where
  "describe_decomposition num p =
     try_bind (get_prop p ''task_decomposition'') (\<lambda>d.
       let count = js_or (opt_prop d ''length'') (JNum 0) in
       Inr (Markup (ive @ ''broken down your request into '' @ bold_span (js_to_string num count @ '' manageable steps'')
         @ ''. Each step is designed to work with specific applications and accomplish a specific part of your overall goal.'')))"

definition describe_api_planner :: "(rat \<Rightarrow> string) \<Rightarrow> jv \<Rightarrow> exn + description" where
  "describe_api_planner num p =
     try_bind (get_prop p ''action'') (\<lambda>action.
       let coder = fld p ''action_input_coder_agent''; shortlist = fld p ''action_input_shortlisting_agent'';
           conclude = fld p ''action_input_conclude_task'';
           apis = im @ ''analyzing available APIs'';
           ready = im @ ''ready to provide you with the final answer based on all the work completed so far.'';
           reflecting = Inr (Markup (im @ ''reflecting on the code and planning the next steps in the workflow.''))
       in if truthy action \<and> (truthy coder \<or> truthy shortlist \<or> truthy conclude) then
            if action = JStr ''CoderAgent'' then
              Inr (Markup (im @ ''preparing to write code for you. The task involves: '' @
                bold_span (js_to_string num (js_or (opt_prop coder ''task_description'') (JStr ''Code generation task'')))))
            else if action = JStr ''ApiShortlistingAgent'' then
              let t = opt_prop shortlist ''task_description'' in
              if truthy t then try_bind (preview_text num ''taskDesc'' 60 t) (\<lambda>v. Inr (Markup (apis @ '', '' @ medium_span v)))
              else Inr (Markup (apis @ '' to find the best options for your request. This will help me understand what tools are available to accomplish your task.''))
            else if action = JStr ''ConcludeTask'' then
              let t = opt_prop conclude ''final_response'' in
              if truthy t then try_bind (preview_text num ''taskDesc'' 60 t) (\<lambda>v. Inr (Markup (ready @ '' '' @ medium_span v)))
              else Inr (Markup ready)
            else reflecting
          else reflecting)"

definition stop_sign :: string where "stop_sign = [CHR 0xF0, CHR 0x9F, CHR 0x9B, CHR 0x91]"
definition open_book :: string where "open_book = [CHR 0xF0, CHR 0x9F, CHR 0x93, CHR 0x96]"
definition wrench :: string where "wrench = [CHR 0xF0, CHR 0x9F, CHR 0x94, CHR 0xA7]"
definition raised_hand :: string where "raised_hand = [CHR 0xE2, CHR 0x9C, CHR 0x8B]"
definition clipboard_sign :: string where "clipboard_sign = [CHR 0xF0, CHR 0x9F, CHR 0x93, CHR 0x8B]"
definition shield :: string where "shield = [CHR 0xF0, CHR 0x9F, CHR 0x9B, CHR 0xA1, CHR 0xEF, CHR 0xB8, CHR 0x8F]"

definition policy_icon :: "bool \<Rightarrow> jv \<Rightarrow> string" where
  "policy_icon blocked kind =
     (if blocked then stop_sign else if kind = JStr ''playbook'' then open_book
      else if kind = JStr ''tool_guide'' then wrench else if kind = JStr ''tool_approval'' then raised_hand
      else clipboard_sign)"

definition policy_action :: "bool \<Rightarrow> jv \<Rightarrow> string" where
  "policy_action blocked kind =
     (if blocked then ''Blocked'' else if kind = JStr ''playbook'' then ''Activated''
      else if kind = JStr ''tool_guide'' then ''Enriched'' else if kind = JStr ''tool_approval'' then ''Requires Approval''
      else ''Active'')"

definition describe_policy :: "(rat \<Rightarrow> string) \<Rightarrow> jv \<Rightarrow> exn + description" where
  "describe_policy num p =
     (if truthy p \<and> fld p ''type'' = JStr ''policy'' then
        let name = js_or (fld p ''policy_name'') (JStr ''Policy'');
            kind = js_or (fld p ''policy_type'') (JStr ''unknown'');
            blocked = truthy (fld p ''policy_blocked'')
        in Inr (Markup (coloured_span (if blocked then ''#ff6b6b'' else ''#3b82f6'')
                          (policy_icon blocked kind @ '' Policy '' @ policy_action blocked kind)
             @ '' - '' @ bold_span (js_to_string num name) @ '' ('' @ js_to_string num kind @ '')''))
      else Inr (Markup ''Policy enforcement in progress...''))"

definition describe_policy_block :: "(rat \<Rightarrow> string) \<Rightarrow> jv \<Rightarrow> exn + description" where
  "describe_policy_block num p =
     (if truthy p \<and> fld p ''type'' = JStr ''policy_block'' then
        let name = js_or (opt_prop (fld p ''metadata'') ''policy_name'') (JStr ''Security Policy'')
        in Inr (Markup (coloured_span ''#ff6b6b'' (shield @ '' Intent Blocked'') @ '' - Your request was blocked by ''
             @ bold_span (js_to_string num name) @ '' for security reasons.''))
      else Inr (Markup ''Policy enforcement in progress...''))"

definition describe_policy_playbook :: "(rat \<Rightarrow> string) \<Rightarrow> jv \<Rightarrow> exn + description" where
  "describe_policy_playbook num p =
     (if truthy p \<and> fld p ''type'' = JStr ''policy_playbook'' then
        let name = js_or (opt_prop (fld p ''metadata'') ''policy_name'') (JStr ''Workflow Playbook'')
        in Inr (Markup (coloured_span ''#3b82f6'' (open_book @ '' Playbook Activated'') @ '' - Following ''
             @ bold_span (js_to_string num name) @ '' to guide you through this process.''))
      else Inr (Markup ''A security policy has been applied to your request.''))"


text \<open>Whether a field holds more than blanks; \<open>trim\<close> exists for texts only.\<close>

definition trimmed_filled :: "string \<Rightarrow> jv \<Rightarrow> exn + bool" where
  "trimmed_filled name v =
     (if truthy v
      then (case v of JStr s \<Rightarrow> Inr (trim s \<noteq> []) | _ \<Rightarrow> Inl (not_a_function (name @ ''.trim'')))
      else Inr False)"

definition newline :: string where "newline = [CHR 0x0A]"

definition code_lines :: "jv \<Rightarrow> string list" where
  "code_lines v = (case v of JStr s \<Rightarrow> split_str newline s | _ \<Rightarrow> [])"

text \<open>The output of a run: its first lines, whether there is more, and whether it is expanded.\<close>

definition output_view :: "string list \<Rightarrow> string \<Rightarrow> jv \<Rightarrow> (string list \<times> bool \<times> bool) option" where
  "output_view expanded ident v =
     (case v of
        JStr s \<Rightarrow>
          if s = [] then None
          else
            let output = trim s; rows = split_str newline output; wide = ident @ ''_output'' \<in> set expanded
            in Some (if wide then rows else take 3 rows, length rows > 3 \<or> length output > 300, wide)
      | _ \<Rightarrow> None)"

definition describe_code :: "string list \<Rightarrow> string \<Rightarrow> jv \<Rightarrow> exn + description" where
  "describe_code expanded ident p =
     try_bind (get_prop p ''code'') (\<lambda>code.
     try_bind (trimmed_filled ''parsedContent.code'' code) (\<lambda>has_code.
     let output = fld p ''execution_output'' in
     try_bind (trimmed_filled ''parsedContent.execution_output'' output) (\<lambda>has_output.
       if has_code \<or> has_output then
         let rows = (if has_code then code_lines code else []); wide = ident \<in> set expanded
         in Inr (Code_View (if wide then rows else take 4 rows) (length rows) (length rows > 4) wide
                   (truthy output) (output_view expanded ident output))
       else Inr Hidden)))"

definition describe_reasoning :: "string list \<Rightarrow> string \<Rightarrow> jv \<Rightarrow> exn + description" where
  "describe_reasoning expanded ident p =
     (case p of
        JStr s \<Rightarrow>
          if s = [] then Inr Hidden
          else let wide = ident \<in> set expanded
               in Inr (Reasoning_View (if wide then s else take 200 s) (length s > 200) wide)
      | _ \<Rightarrow> Inr Hidden)"

text \<open>\<open>result[0]\<close> of a value that is not nullish.\<close>

definition first_entry :: "jv \<Rightarrow> jv" where
  "first_entry v =
     (case v of
        JArr (x # _) \<Rightarrow> x
      | JStr (c # _) \<Rightarrow> JStr [c]
      | JObj fs \<Rightarrow> fld (JObj fs) ''0''
      | _ \<Rightarrow> JUndef)"

definition describe_shortlister :: "(rat \<Rightarrow> string) \<Rightarrow> jv \<Rightarrow> exn + description" where
  "describe_shortlister num p =
     try_bind (get_prop p ''result'') (\<lambda>result.
       if truthy result then
         let top = first_entry result;
             score = js_or (opt_prop top ''relevance_score'') (JNum 0);
             name = js_or (opt_prop top ''name'') (js_or (opt_prop top ''title'') (JStr ''Unknown API''))
         in try_bind (preview_text num ''apiName'' 30 name) (\<lambda>shown.
              Inr (Markup (ive @ ''analyzed and shortlisted ''
                @ bold_span (js_to_string num (fld result ''length'') @ '' relevant APIs'')
                @ '' for your request. The top match is '' @ bold_span shown @ '' with a ''
                @ bold_span (num (of_int (js_round (js_num score * 100))) @ ''% relevance score'') @ ''.'')))
       else Inr (Markup (im @ ''analyzing available APIs to find the most relevant ones for your request.'')))"

definition describe_task_analyzer :: "(rat \<Rightarrow> string) \<Rightarrow> jv \<Rightarrow> exn + description" where
  "describe_task_analyzer num p =
     (case p of
        JArr apps \<Rightarrow>
          try_bind (try_map (\<lambda>app. try_bind (get_prop app ''name'') (\<lambda>n. Inr (bold_span (js_to_string num n)))) apps)
            (\<lambda>names. Inr (Markup (ive @ ''identified ''
               @ bold_span (show_nat (length apps) @ '' integrated applications'')
               @ '' that can help with your request: '' @ join '', '' names
               @ ''. These apps are ready to be used in the workflow.'')))
      | _ \<Rightarrow> Inr (Markup (im @ ''analyzing the available applications to understand what tools we can use.'')))"

definition describe_qa :: "(rat \<Rightarrow> string) \<Rightarrow> jv \<Rightarrow> exn + description" where
  "describe_qa num p =
     try_bind (get_prop p ''name'') (\<lambda>name.
       let answer = fld p ''answer'' in
       if truthy name \<and> truthy answer then
         (case answer of
            JStr a \<Rightarrow>
              Inr (Markup (ive @ ''analyzed the question '' @ [CHR 0x22] @ bold_span (js_to_string num name) @ [CHR 0x22]
                @ '' and provided a comprehensive answer with ''
                @ bold_span (show_nat (length (split_str '' '' a)) @ '' words'') @ ''.''))
          | _ \<Rightarrow> Inl (not_a_function ''parsedContent.answer.split''))
       else Inr (Markup (im @ ''processing a question and preparing a detailed answer.'')))"

definition describe_final_answer :: "jv \<Rightarrow> exn + description" where
  "describe_final_answer p =
     try_bind (get_prop p ''final_answer'') (\<lambda>a.
       Inr (Markup (if truthy a then ive @ ''completed your request and prepared the final answer.''
                    else im @ ''preparing the final answer to your request.'')))"

definition describe_reuse :: "jv \<Rightarrow> exn + description" where
  "describe_reuse p =
     (case p of
        JStr s \<Rightarrow> Inr (Markup (hd (split_str newline s)))
      | _ \<Rightarrow> Inr (Markup ''Save and reuse operation completed.''))"

definition describe_human_actions :: "jv \<Rightarrow> exn + description" where
  "describe_human_actions p =
     try_bind (get_prop p ''action_id'') (\<lambda>a.
       Inr (Markup (if truthy a
         then im @ ''waiting for your input to continue. Please review the suggested action and let me know how you''
              @ [CHR 0x27] @ ''d like to proceed.''
         else im @ ''preparing suggestions for your next action.'')))"

text \<open>\<open>JSON.stringify\<close> of \<open>undefined\<close> is \<open>undefined\<close>, which has no length.\<close>

definition describe_code_planner :: "(rat \<Rightarrow> string) \<Rightarrow> (jv \<Rightarrow> string) \<Rightarrow> jv \<Rightarrow> exn + description" where
  "describe_code_planner num stringify p =
     (if p = JUndef then Inl (type_error JUndef ''length'')
      else try_bind (preview_text num ''contentPreview'' 80 (case p of JStr s \<Rightarrow> p | _ \<Rightarrow> JStr (stringify p))) (\<lambda>v.
        Inr (Markup (ive @ ''generated a plan for the coding agent to follow. Plan preview: '' @ medium_span v))))"

definition case_description ::
  "(rat \<Rightarrow> string) \<Rightarrow> (jv \<Rightarrow> string) \<Rightarrow> string list \<Rightarrow> string \<Rightarrow> string \<Rightarrow> jv \<Rightarrow> exn + description" where
  "case_description num stringify expanded ident title p =
     (if title = ''PlanControllerAgent'' then describe_plan num p
      else if title = ''TaskDecompositionAgent'' then describe_decomposition num p
      else if title = ''APIPlannerAgent'' then describe_api_planner num p
      else if title = ''Policy'' then describe_policy num p
      else if title = ''PolicyBlock'' then describe_policy_block num p
      else if title = ''PolicyPlaybook'' then describe_policy_playbook num p
      else if title = ''CodeAgent'' then describe_code expanded ident p
      else if title = ''CodeAgent_Reasoning'' then describe_reasoning expanded ident p
      else if title = ''ShortlisterAgent'' then describe_shortlister num p
      else if title = ''TaskAnalyzerAgent'' then describe_task_analyzer num p
      else if title = ''PlannerAgent'' then
        Inr (Markup (im @ ''planning the next action in the workflow. This involves determining the best approach to continue working on your request.''))
      else if title = ''QaAgent'' then describe_qa num p
      else if title = ''FinalAnswerAgent'' then describe_final_answer p
      else if title = ''ReuseAgent'' then describe_reuse p
      else if title = ''SuggestHumanActions'' then describe_human_actions p
      else if title = ''APICodePlannerAgent'' then describe_code_planner num stringify p
      else Inr (Markup []))"

section \<open>Filter and heading\<close>

text \<open>The filter keeps the descriptions of the first rendering, where nothing is expanded.\<close>

definition should_render_step ::
  "(string \<Rightarrow> exn + jv) \<Rightarrow> (rat \<Rightarrow> string) \<Rightarrow> (jv \<Rightarrow> string) \<Rightarrow> card_step \<Rightarrow> exn + bool" where
  "should_render_step parse num stringify st =
     (if kd_title st = ''simple_text'' then Inr True
      else try_bind (case_description num stringify [] (kd_id st) (kd_title st) (filter_content parse (kd_content st)))
             (\<lambda>d. Inr (d \<noteq> Hidden)))"

datatype heading = Heading string | Waiting_For_Input

definition title_map :: "(string \<times> heading) list" where
  "title_map =
     [(''TaskDecompositionAgent'', Heading ''Decomposed task into steps''),
      (''TaskAnalyzerAgent'', Heading ''Analyzed available applications''),
      (''PlanControllerAgent'', Heading ''Controlled task execution''),
      (''SuggestHumanActions'', Waiting_For_Input),
      (''APIPlannerAgent'', Heading ''Planned API actions''),
      (''APICodePlannerAgent'', Heading ''Planned steps for coding agent''),
      (''CodeAgent_Reasoning'', Heading ''Reasoning about approach''),
      (''ShortlisterAgent'', Heading ''Shortlisted relevant APIs''),
      (''QaAgent'', Heading ''Answered question''),
      (''FinalAnswerAgent'', Heading ''Completed final answer''),
      (''Answer'', Heading ''Answer'')]"

definition map_step_title :: "string \<Rightarrow> jv \<Rightarrow> exn + heading" where
  "map_step_title title p =
     (if title = ''CodeAgent'' \<and> truthy p then
        try_bind (trimmed_filled ''parsedContent.execution_output'' (fld p ''execution_output'')) (\<lambda>ran.
          Inr (Heading (if ran then ''Executed Code'' else ''Generated Code'')))
      else Inr (case map_of title_map title of Some h \<Rightarrow> h | None \<Rightarrow> Heading title))"

end
