(* ===== verification/Card_Details.thy ===== *)
theory Card_Details
  imports Card_Text
begin

text \<open>
  The details of a card, \<open>renderStepContent\<close> of \<open>agentic_chat/src/CardManager.tsx\<close>:
  the elements it makes of a step, with the answer, the guide of a playbook and the
  reasons of the policies.  The components it hands the content to are constructors; the
  Markdown library and \<open>JSON.stringify\<close> are arguments; styles are left out.  Whatever
  throws is caught and shows nothing.
\<close>

datatype policy_note = Policy_Note bool string jv string jv

datatype detail =
    Tool_Flow jv
  | Task_Status jv
  | Task_Steps jv
  | Action_Status jv
  | Expandable string jv
  | Coder_Output jv
  | Policy_Panel bool string jv string
  | Policy_Block jv
  | Policy_Playbook jv
  | Rendered_Text string
  | Shortlister jv
  | App_Analyzer jv
  | Action_Agent jv
  | Plain_Content jv
  | Qa_Agent jv
  | Answer_Panel "string option" jv "policy_note list"
  | Followup_Action jv
  | Invalid_Action

section \<open>The text of an answer\<close>

text \<open>The body of a fenced block of HTML that is the whole text.\<close>

definition fence :: string where "fence = ''```''"

definition html_block :: "string \<Rightarrow> string option" where
  "html_block s =
     (if starts_with s (fence @ ''html'') then
        let rest = drop 7 s; body = take (length rest - 4) rest; run = takeWhile is_ws body
        in if 4 \<le> length rest \<and> drop (length rest - 4) rest = newline @ fence \<and> CHR 0x0A \<in> set run
           then Some (rev (takeWhile (\<lambda>c. c \<noteq> CHR 0x0A) (rev run)) @ dropWhile is_ws body)
           else None
      else None)"

fun has_tag :: "string \<Rightarrow> bool" where
  "has_tag (a # c # r) \<longleftrightarrow>
     a = CHR 0x3C \<and> lower_char c \<in> set ''abcdefghijklmnopqrstuvwxyz'' \<and> CHR 0x3E \<in> set r \<or> has_tag (c # r)"
| "has_tag _ \<longleftrightarrow> False"

definition rendered_answer :: "(rat \<Rightarrow> string) \<Rightarrow> (string \<Rightarrow> string) \<Rightarrow> jv \<Rightarrow> string" where
  "rendered_answer num marked v =
     (case v of
        JStr s \<Rightarrow> (case html_block s of Some h \<Rightarrow> h | None \<Rightarrow> if has_tag s then s else marked s)
      | _ \<Rightarrow> marked (js_to_string num v))"

section \<open>Policies of an answer\<close>

fun find_playbook :: "jv list \<Rightarrow> exn + jv option" where
  "find_playbook [] = Inr None"
| "find_playbook (q # qs) =
     try_bind (get_prop q ''policy_type'') (\<lambda>t. if t = JStr ''playbook'' then Inr (Some q) else find_playbook qs)"

text \<open>\<open>content.replace\<close> of the title line of a guide and an empty line after it.\<close>

definition strip_guide_title :: "string \<Rightarrow> string" where
  "strip_guide_title s =
     (if starts_with s (''## '' @ open_book) then
        (case dropWhile (\<lambda>c. c \<noteq> CHR 0x0A) s of
           [] \<Rightarrow> s
         | _ # rest \<Rightarrow> (case rest of c # r \<Rightarrow> if c = CHR 0x0A then r else rest | [] \<Rightarrow> []))
      else s)"

definition playbook_guide :: "jv \<Rightarrow> exn + jv" where
  "playbook_guide q =
     (let m = fld q ''metadata'';
          guide = js_or (opt_prop m ''playbook_content'') (js_or (opt_prop m ''playbook_guidance'') (JStr []))
      in if \<not> truthy guide \<and> truthy (fld q ''content'')
         then (case fld q ''content'' of
                 JStr s \<Rightarrow> Inr (JStr (strip_guide_title s))
               | _ \<Rightarrow> Inl (not_a_function ''content.replace''))
         else Inr guide)"

definition information_sign :: string where "information_sign = [CHR 0xE2, CHR 0x84, CHR 0xB9, CHR 0xEF, CHR 0xB8, CHR 0x8F]"
definition sparkles :: string where "sparkles = [CHR 0xE2, CHR 0x9C, CHR 0xA8]"

definition note_icon :: "jv \<Rightarrow> string" where
  "note_icon kind =
     (if kind = JStr ''intent_guard'' then information_sign else if kind = JStr ''playbook'' then open_book
      else if kind = JStr ''tool_guide'' then wrench else if kind = JStr ''tool_approval'' then raised_hand
      else if kind = JStr ''output_formatter'' then sparkles else clipboard_sign)"

text \<open>\<open>policyType.replace("_", " ")\<close> replaces the first underscore.\<close>

definition spaced_once :: "string \<Rightarrow> string" where
  "spaced_once s = (case cut_first ''_'' s of Some (a, b) \<Rightarrow> a @ '' '' @ b | None \<Rightarrow> s)"

definition note_of_policy :: "jv \<Rightarrow> exn + policy_note option" where
  "note_of_policy q =
     try_bind (get_prop q ''metadata'') (\<lambda>m.
       let reason = js_or (opt_prop m ''policy_reasoning'') (JStr []);
           kind = js_or (fld q ''policy_type'') (JStr ''unknown'');
           name = js_or (fld q ''policy_name'') (JStr ''Unknown Policy'');
           blocked = truthy (fld q ''policy_blocked'')
       in if \<not> truthy reason then Inr None
          else (case kind of
                  JStr k \<Rightarrow> Inr (Some (Policy_Note blocked (if blocked then ''Blocked'' else note_icon kind) name (spaced_once k) reason))
                | _ \<Rightarrow> Inl (not_a_function ''policyType.replace'')))"

definition policy_notes :: "jv list \<Rightarrow> exn + policy_note list" where
  "policy_notes qs = try_bind (try_map note_of_policy qs) (\<lambda>ns. Inr (List.map_filter id ns))"

section \<open>The answer\<close>

text \<open>The answer of the final answer agent, which stands for every other under a playbook.\<close>

definition final_agent_answer :: "(string \<Rightarrow> exn + jv) \<Rightarrow> card_step \<Rightarrow> jv" where
  "final_agent_answer parse st =
     (let v = (case kd_content st of JStr c \<Rightarrow> parse c | v \<Rightarrow> Inr v)
      in case v of
           Inl _ \<Rightarrow> JNull
         | Inr w \<Rightarrow> if nullish w then JNull else js_or (fld w ''final_answer'') JNull)"

definition playbook_answer :: "(string \<Rightarrow> exn + jv) \<Rightarrow> card_step list option \<Rightarrow> jv" where
  "playbook_answer parse sts =
     (case sts of
        Some ss \<Rightarrow> (case List.find (\<lambda>x. kd_title x = ''FinalAnswerAgent'') ss of
                      Some st \<Rightarrow> final_agent_answer parse st
                    | None \<Rightarrow> JNull)
      | None \<Rightarrow> JNull)"

definition answer_and_policies :: "jv \<Rightarrow> jv \<times> jv" where
  "answer_and_policies p =
     (let a = js_or (fld p ''final_answer'') (case p of JStr _ \<Rightarrow> p | _ \<Rightarrow> JNull);
          policies = js_or (fld p ''active_policies'') (JArr []);
          d = fld p ''data''
      in if policy_object d
         then (if fld d ''policy_type'' \<noteq> JStr ''playbook'' \<and> \<not> truthy a
               then js_or (fld d ''content'') (js_or (opt_prop (fld d ''metadata'') ''response_content'') JNull) else a,
               JArr [d])
         else (a, policies))"

text \<open>Without an answer the guide and the policies are shown when there are any.\<close>

definition unanswered_panel :: "jv \<Rightarrow> jv list \<Rightarrow> exn + detail option" where
  "unanswered_panel guide qs =
     (if truthy guide \<or> qs \<noteq> [] then try_bind (policy_notes qs) (\<lambda>ns. Inr (Some (Answer_Panel None guide ns))) else Inr None)"

definition answer_panel ::
  "(string \<Rightarrow> exn + jv) \<Rightarrow> (rat \<Rightarrow> string) \<Rightarrow> (string \<Rightarrow> string) \<Rightarrow> string \<Rightarrow> card_step list option \<Rightarrow> jv \<Rightarrow> exn + detail option" where
  "answer_panel parse num marked title sts p =
     (if \<not> truthy p then Inr None
      else let (a, policies) = answer_and_policies p in
        (case policies of
           JArr qs \<Rightarrow>
             try_bind (find_playbook qs) (\<lambda>playbook.
             try_bind (case playbook of Some q \<Rightarrow> playbook_guide q | None \<Rightarrow> Inr (JStr [])) (\<lambda>guide.
             let answer = (if title = ''Answer'' \<and> playbook \<noteq> None then playbook_answer parse sts else a) in
             if truthy answer then
               try_bind (policy_notes qs) (\<lambda>ns. Inr (Some (Answer_Panel (Some (rendered_answer num marked answer)) guide ns)))
             else unanswered_panel guide qs))
         | _ \<Rightarrow> Inl (not_a_function ''activePolicies.find'')))"

section \<open>The details of a step\<close>

definition json_block :: "(jv \<Rightarrow> string) \<Rightarrow> jv \<Rightarrow> jv" where
  "json_block pretty p =
     (case p of
        JObj _ \<Rightarrow> JStr (fence @ ''json'' @ newline @ pretty p @ newline @ fence)
      | JArr _ \<Rightarrow> JStr (fence @ ''json'' @ newline @ pretty p @ newline @ fence)
      | _ \<Rightarrow> if truthy p then p else JStr [])"

definition policy_panel :: "(jv \<Rightarrow> string) \<Rightarrow> jv \<Rightarrow> detail option" where
  "policy_panel pretty p =
     (if truthy p \<and> fld p ''type'' = JStr ''policy'' then
        let blocked = truthy (fld p ''policy_blocked'')
        in Some (Policy_Panel blocked (policy_icon blocked (js_or (fld p ''policy_type'') (JStr ''unknown'')))
                   (js_or (fld p ''policy_name'') (JStr ''Unknown Policy'')) (pretty p))
      else None)"

definition action_panel :: "jv \<Rightarrow> detail option" where
  "action_panel p =
     (if truthy (fld p ''action'')
         \<and> (truthy (fld p ''action_input_coder_agent'') \<or> truthy (fld p ''action_input_shortlisting_agent'')
            \<or> truthy (fld p ''action_input_conclude_task''))
      then Some (Action_Status p) else Some (Expandable ''Code Reflection'' p))"

definition when_truthy :: "jv \<Rightarrow> detail \<Rightarrow> exn + detail option" where
  "when_truthy p d = Inr (if truthy p then Some d else None)"

definition main_element ::
  "(string \<Rightarrow> exn + jv) \<Rightarrow> (rat \<Rightarrow> string) \<Rightarrow> (jv \<Rightarrow> string) \<Rightarrow> (string \<Rightarrow> string) \<Rightarrow> card_step list option \<Rightarrow>
   string \<Rightarrow> jv \<Rightarrow> exn + detail option" where
  "main_element parse num pretty marked sts title p =
     (if title = ''PlanControllerAgent'' then
        try_bind (get_prop p ''subtasks_progress'') (\<lambda>progress.
          when_truthy (if truthy progress then fld p ''next_subtask'' else progress) (Task_Status p))
      else if title = ''TaskDecompositionAgent'' then Inr (Some (Task_Steps p))
      else if title = ''APIPlannerAgent'' then try_bind (get_prop p ''action'') (\<lambda>_. Inr (action_panel p))
      else if title = ''CodeAgent'' then
        try_bind (get_prop p ''code'') (\<lambda>code. when_truthy (js_or code (fld p ''execution_output'')) (Coder_Output p))
      else if title = ''Policy'' then Inr (policy_panel pretty p)
      else if title = ''PolicyBlock'' then
        Inr (if truthy p \<and> fld p ''type'' = JStr ''policy_block'' then Some (Policy_Block p) else None)
      else if title = ''PolicyPlaybook'' then
        Inr (if truthy p \<and> fld p ''type'' = JStr ''policy_playbook'' then Some (Policy_Playbook p) else None)
      else if title = ''CodeAgent_Reasoning'' then
        (case p of
           JStr s \<Rightarrow> Inr (Some (Rendered_Text (marked s)))
         | _ \<Rightarrow> when_truthy p (Rendered_Text (marked (pretty p))))
      else if title = ''ShortlisterAgent'' then when_truthy p (Shortlister p)
      else if title = ''TaskAnalyzerAgent'' then Inr (case p of JArr _ \<Rightarrow> Some (App_Analyzer p) | _ \<Rightarrow> None)
      else if title = ''PlannerAgent'' then when_truthy p (Action_Agent p)
      else if title = ''simple_text_box'' then when_truthy p (Plain_Content p)
      else if title = ''QaAgent'' then when_truthy p (Qa_Agent p)
      else if title = ''Answer'' \<or> title = ''FinalAnswerAgent'' then answer_panel parse num marked title sts p
      else if title = ''SuggestHumanActions'' then
        Inr (Some (if truthy p \<and> truthy (fld p ''action_id'') then Followup_Action p else Invalid_Action))
      else Inr (Some (Expandable title (json_block pretty p))))"

definition tool_flow :: "string \<Rightarrow> jv \<Rightarrow> detail list" where
  "tool_flow title p =
     (let t = opt_prop (fld p ''additional_data'') ''tool'' in
      if title \<noteq> ''SuggestHumanActions'' \<and> truthy p \<and> truthy (fld p ''additional_data'') \<and> truthy t
      then [Tool_Flow t] else [])"

text \<open>No result when it throws or when it waits for a response.\<close>

definition render_step_content ::
  "(string \<Rightarrow> exn + jv) \<Rightarrow> (rat \<Rightarrow> string) \<Rightarrow> (jv \<Rightarrow> string) \<Rightarrow> (string \<Rightarrow> string) \<Rightarrow> card_step \<Rightarrow> card_step list option \<Rightarrow>
   detail list option" where
  "render_step_content parse num pretty marked st sts =
     (let p = details_content parse (kd_title st) (kd_content st)
      in if kd_title st = ''WaitForResponse'' then None
         else (case main_element parse num pretty marked sts (kd_title st) p of
                 Inl _ \<Rightarrow> None
               | Inr m \<Rightarrow> Some (tool_flow (kd_title st) p @ (case m of Some d \<Rightarrow> [d] | None \<Rightarrow> []))))"


section \<open>Properties\<close>

lemma html_block_fenced:
  assumes "body = [] \<or> \<not> is_ws (hd body)"
  shows "html_block (fence @ ''html'' @ newline @ body @ newline @ fence) = Some body"
proof -
  have r: "drop 7 (fence @ ''html'' @ newline @ body @ newline @ fence) = newline @ body @ newline @ fence"
    by (simp add: fence_def newline_def)
  have l: "length (newline @ body @ newline @ fence) - 4 = Suc (length body)"
    by (simp add: fence_def newline_def)
  have t: "take (Suc (length body)) (newline @ body @ newline @ fence) = CHR 0x0A # body"
    "drop (Suc (length body)) (newline @ body @ newline @ fence) = newline @ fence"
    by (simp_all add: newline_def)
  have w: "takeWhile is_ws body = []" "dropWhile is_ws body = body"
    using assms by (cases body; simp)+
  have "starts_with (fence @ ''html'' @ newline @ body @ newline @ fence) (fence @ ''html'')"
    by (simp add: starts_with_def fence_def)
  then show ?thesis
    unfolding html_block_def Let_def r l t using w by (simp add: is_ws_def fence_def newline_def)
qed

lemma answer_content:
  assumes "parse c = Inr p" "fld p ''data'' = JStr a" "\<forall>q. parse a = Inr q \<longrightarrow> \<not> policy_object q"
    "truthy (fld p ''variables'')" "fld p ''active_policies'' = JArr qs"
  shows "details_content parse ''Answer'' (JStr c) =
     JObj [(''final_answer'', JStr a), (''variables'', fld p ''variables''), (''active_policies'', JArr qs)]"
proof -
  have "\<not> nullish p" using assms(2) by (cases p) simp_all
  moreover have "has_variables p" using assms(2,4) by (simp add: has_variables_def)
  moreover have "data_and_policies parse p = (JStr a, JArr qs)"
    using assms(2,3,5) by (simp add: data_and_policies_def Let_def split: sum.split)
  ultimately show ?thesis using assms(1) by (simp add: details_content_def content_with_variables_def)
qed

text \<open>
  C18. The answer of an answer step is the text next to its variables, unless a playbook is
  among its policies: then it is the answer of the step of the final answer agent, if
  there is one that holds it at the top, and otherwise no answer is shown at all, although
  the step carries one.  The guide of the playbook is shown beside it and never
  as the answer.
\<close>

theorem answer_of_card:
  assumes "kd_title st = ''Answer''" "kd_content st = JStr c" "parse c = Inr p" "fld p ''data'' = JStr a" "a \<noteq> []"
    "\<forall>q. parse a = Inr q \<longrightarrow> \<not> policy_object q" "truthy (fld p ''variables'')" "fld p ''active_policies'' = JArr qs"
    "find_playbook qs = Inr playbook" "policy_notes qs = Inr ns"
  shows "(playbook = None \<longrightarrow>
       render_step_content parse num pretty marked st sts = Some [Answer_Panel (Some (rendered_answer num marked (JStr a))) (JStr []) ns])
   \<and> (playbook = Some q \<and> playbook_guide q = Inr guide \<longrightarrow>
       render_step_content parse num pretty marked st (Some ss) =
         Some [Answer_Panel
           (case List.find (\<lambda>x. kd_title x = ''FinalAnswerAgent'') ss of
              Some f \<Rightarrow> if truthy (final_agent_answer parse f) then Some (rendered_answer num marked (final_agent_answer parse f)) else None
            | None \<Rightarrow> None) guide ns])"
proof -
  let ?p = "JObj [(''final_answer'', JStr a), (''variables'', fld p ''variables''), (''active_policies'', JArr qs)]"
  have content: "details_content parse ''Answer'' (JStr c) = ?p"
    using assms(3,4,6,7,8) by (rule answer_content)
  have answer: "answer_and_policies ?p = (JStr a, JArr qs)"
    using assms(5) by (simp add: answer_and_policies_def policy_object_def)
  have tools: "tool_flow ''Answer'' ?p = []" by (simp add: tool_flow_def)
  have main: "main_element parse num pretty marked s ''Answer'' ?p = answer_panel parse num marked ''Answer'' s ?p" for s
    by (simp add: main_element_def)
  have details: "render_step_content parse num pretty marked st s =
      (case answer_panel parse num marked ''Answer'' s ?p of Inl _ \<Rightarrow> None | Inr m \<Rightarrow> Some (case m of Some d \<Rightarrow> [d] | None \<Rightarrow> []))" for s
    unfolding render_step_content_def assms(1,2) content Let_def tools main by (simp cong: sum.case_cong)
  have nonempty: "playbook \<noteq> None \<Longrightarrow> qs \<noteq> []" using assms(9) by auto
  show ?thesis
    unfolding details answer_panel_def unanswered_panel_def answer
    using assms(5,9,10) nonempty by (auto simp: playbook_answer_def split: option.split)
qed


theorem answer_of_card_witness:
  "render_step_content (\<lambda>t. if t = ''c'' then Inr (JObj [(''data'', JStr ''done''), (''variables'', JObj []),
         (''active_policies'', JArr [JObj [(''policy_type'', JStr ''playbook'')]])]) else Inl ''no JSON'')
       (\<lambda>_. ''0'') (\<lambda>_. []) (\<lambda>t. t)
       \<lparr>kd_id = ''a'', kd_title = ''Answer'', kd_content = JStr ''c'', kd_time = 0, kd_completed = False\<rparr> (Some []) =
     Some [Answer_Panel None (JStr []) []]"
proof -
  let ?q = "JObj [(''policy_type'', JStr ''playbook'')]"
  let ?p = "JObj [(''data'', JStr ''done''), (''variables'', JObj []), (''active_policies'', JArr [?q])]"
  let ?parse = "\<lambda>t. if t = ''c'' then Inr ?p else (Inl ''no JSON'' :: exn + jv)"
  let ?st = "\<lparr>kd_id = ''a'', kd_title = ''Answer'', kd_content = JStr ''c'', kd_time = 0, kd_completed = False\<rparr>"
  have "find_playbook [?q] = Inr (Some ?q)" "policy_notes [?q] = Inr []" "playbook_guide ?q = Inr (JStr [])"
    by (simp_all add: policy_notes_def note_of_policy_def playbook_guide_def get_prop_def opt_prop_def List.map_filter_def)
  then show ?thesis
    using answer_of_card [where st = ?st and parse = ?parse and c = "''c''" and p = ?p and a = "''done''" and qs = "[?q]"
        and playbook = "Some ?q" and ns = "[]" and q = ?q and guide = "JStr []" and ss = "[]"]
    by simp
qed

end
