(* ===== verification/Card_View.thy ===== *)
theory Card_View
  imports Card_Details "HOL-Library.Multiset"
begin

text \<open>
  What \<open>agentic_chat/src/CardManager.tsx\<close> draws of its state: the three lists the steps
  are sorted into, the card of a step, and the sections of the view while a request runs,
  once it is answered, waits for the user, or was stopped, in both view modes.  The
  remaining handlers, and the states the handlers reach.  The styles of the sections and
  the number of steps in their titles are left out.
\<close>

record card_env =
  ce_parse :: "string \<Rightarrow> exn + jv"
  ce_num :: "rat \<Rightarrow> string"
  ce_stringify :: "jv \<Rightarrow> string"
  ce_pretty :: "jv \<Rightarrow> string"
  ce_marked :: "string \<Rightarrow> string"

definition renders :: "card_env \<Rightarrow> card_step \<Rightarrow> exn + bool" where
  "renders env st = should_render_step (ce_parse env) (ce_num env) (ce_stringify env) st"

section \<open>The lists\<close>

definition pending_action :: "card_step \<Rightarrow> bool" where
  "pending_action st \<longleftrightarrow> kd_title st = ''SuggestHumanActions'' \<and> \<not> kd_completed st"

definition final_answer_steps :: "card_env \<Rightarrow> card_step list \<Rightarrow> exn + card_step list" where
  "final_answer_steps env sts =
     try_filter (\<lambda>st. if kd_title st = ''Answer'' then renders env st else Inr False) sts"

definition user_action_steps :: "card_env \<Rightarrow> card_step list \<Rightarrow> exn + card_step list" where
  "user_action_steps env sts =
     try_filter (\<lambda>st. if pending_action st then renders env st else Inr False) sts"

definition reasoning_steps :: "card_env \<Rightarrow> card_step list \<Rightarrow> exn + card_step list" where
  "reasoning_steps env sts =
     try_filter (\<lambda>st. if kd_title st \<noteq> ''Answer'' \<and> \<not> pending_action st then renders env st else Inr False) sts"

section \<open>Sections\<close>

datatype view_section =
    Reasoning "card_step list" bool
  | Listed "card_step list"
  | Current card_step bool
  | Interrupted
  | Thinking

fun section_steps :: "view_section \<Rightarrow> card_step list" where
  "section_steps (Reasoning xs _) = xs"
| "section_steps (Listed xs) = xs"
| "section_steps (Current st _) = [st]"
| "section_steps _ = []"

definition current_card :: "cards \<Rightarrow> card_step list \<Rightarrow> card_step option" where
  "current_card s actions =
     (if \<not> ca_stopped s \<and> ca_inplace s \<and> \<not> ca_final s \<and> actions = [] \<and> ca_index s < length (ca_steps s)
      then Some (ca_steps s ! ca_index s) else None)"

definition is_loading :: "cards \<Rightarrow> card_step list \<Rightarrow> bool" where
  "is_loading s actions \<longleftrightarrow>
     \<not> ca_stopped s \<and> ca_steps s \<noteq> [] \<and> \<not> ca_complete s \<and> \<not> ca_final s \<and> actions = []
     \<and> \<not> list_ex (\<lambda>st. kd_title st = ''Error'') (ca_steps s)"

definition reasoning_section :: "cards \<Rightarrow> card_step list \<Rightarrow> view_section list" where
  "reasoning_section s xs = (if xs \<noteq> [] then [Reasoning xs (ca_collapsed s)] else [])"

definition append_sections :: "cards \<Rightarrow> card_step list \<Rightarrow> card_step list \<Rightarrow> view_section list" where
  "append_sections s finals reasons =
     (if ca_steps s = [] then []
      else if ca_final s then reasoning_section s reasons @ [Listed finals]
      else [Listed (ca_steps s)])"

definition inplace_sections ::
  "cards \<Rightarrow> card_step list \<Rightarrow> card_step list \<Rightarrow> card_step list \<Rightarrow> view_section list" where
  "inplace_sections s finals actions reasons =
     (if ca_final s \<or> actions \<noteq> [] then reasoning_section s reasons else [])
     @ (case current_card s actions of Some st \<Rightarrow> [Current st (is_loading s actions)] | None \<Rightarrow> [])
     @ [Listed finals, Listed actions]
     @ (if is_loading s actions \<and> current_card s actions = None then [Thinking] else [])"

definition card_sections :: "card_env \<Rightarrow> cards \<Rightarrow> exn + view_section list" where
  "card_sections env s =
     try_bind (final_answer_steps env (ca_steps s)) (\<lambda>finals.
     try_bind (user_action_steps env (ca_steps s)) (\<lambda>actions.
     try_bind (reasoning_steps env (ca_steps s)) (\<lambda>reasons.
       Inr (if ca_stopped s then reasoning_section s (ca_steps s) @ [Interrupted]
            else if ca_inplace s then inplace_sections s finals actions reasons
            else append_sections s finals reasons))))"

section \<open>Cards\<close>

datatype card_view =
    Text_Card string jv
  | Step_Card string heading description "detail list option" bool

definition render_step_card :: "card_env \<Rightarrow> cards \<Rightarrow> bool \<Rightarrow> card_step \<Rightarrow> exn + card_view option" where
  "render_step_card env s current st =
     (let p = card_content (ce_parse env) (kd_title st) (kd_content st)
      in if kd_title st = ''simple_text'' then Inr (Some (Text_Card (kd_id st) (kd_content st)))
         else try_bind (case_description (ce_num env) (ce_stringify env) (ca_code s) (kd_id st) (kd_title st) p) (\<lambda>d.
           if d = Hidden then Inr None
           else try_bind (map_step_title (kd_title st) p) (\<lambda>h.
             Inr (Some (Step_Card (kd_id st) h d
               (if kd_id st \<in> set (ca_details s)
                then render_step_content (ce_parse env) (ce_num env) (ce_pretty env) (ce_marked env) st (Some (ca_steps s))
                else None) current)))))"

definition section_cards :: "card_env \<Rightarrow> cards \<Rightarrow> view_section \<Rightarrow> exn + card_view list" where
  "section_cards env s sec =
     try_bind (try_map (render_step_card env s (case sec of Current _ _ \<Rightarrow> True | _ \<Rightarrow> False)) (section_steps sec)) (\<lambda>cs.
       Inr (List.map_filter id cs))"

definition cards_page :: "card_env \<Rightarrow> cards \<Rightarrow> exn + (view_section \<times> card_view list) list" where
  "cards_page env s =
     try_bind (card_sections env s) (\<lambda>secs.
       try_map (\<lambda>sec. try_bind (section_cards env s sec) (\<lambda>cs. Inr (sec, cs))) secs)"

section \<open>The remaining handlers, and reachable states\<close>

definition toggle_details :: "string \<Rightarrow> cards \<Rightarrow> cards" where
  "toggle_details ident s =
     s\<lparr>ca_details := (if ident \<in> set (ca_details s) then removeAll ident (ca_details s) else ident # ca_details s)\<rparr>"

definition toggle_reasoning :: "cards \<Rightarrow> cards" where
  "toggle_reasoning s = s\<lparr>ca_collapsed := \<not> ca_collapsed s\<rparr>"

definition set_view_mode :: "bool \<Rightarrow> cards \<Rightarrow> cards" where
  "set_view_mode inplace s = s\<lparr>ca_inplace := inplace\<rparr>"

inductive cards_step :: "cards \<Rightarrow> cards \<Rightarrow> bool" where
  added: "cards_step s (add_step num ident now title content s)"
| stopped: "cards_step s (stop_processing s)"
| completed: "cards_step s (set_processing_complete b s)"
| reset: "cards_step s (force_reset s)"
| acted: "cards_step s (mark_step_completed ident s)"
| previewed: "cards_step s (toggle_code_preview ident s)"
| detailed: "cards_step s (toggle_details ident s)"
| collapsed: "cards_step s (toggle_reasoning s)"
| mode: "cards_step s (set_view_mode b s)"
| rendered_step: "cards_step s (render_cards s)"

inductive cards_reachable :: "cards \<Rightarrow> bool" where
  start: "cards_reachable cards_init"
| step: "cards_reachable s \<Longrightarrow> cards_step s s' \<Longrightarrow> cards_reachable s'"

section \<open>Properties\<close>

text \<open>A final answer is announced exactly while there is a step with one.\<close>

definition final_consistent :: "cards \<Rightarrow> bool" where
  "final_consistent s \<longleftrightarrow> (ca_final s \<longleftrightarrow> ''Answer'' \<in> kd_title ` set (ca_steps s))"

lemma final_consistent_step:
  assumes "cards_step s s'" "final_consistent s"
  shows "final_consistent s'"
  using assms(1)
proof (cases rule: cards_step.cases)
  case (added num ident now title content)
  then show ?thesis using assms(2) by (auto simp: final_consistent_def add_step_def Let_def)
next
  case (acted ident)
  have "map kd_title (ca_steps s') = map kd_title (ca_steps s)" by (simp add: acted mark_step_completed_def)
  then have "kd_title ` set (ca_steps s') = kd_title ` set (ca_steps s)" by (metis list.set_map)
  moreover have "ca_final s' = ca_final s" by (simp add: acted mark_step_completed_def)
  ultimately show ?thesis using assms(2) by (simp add: final_consistent_def)
qed (use assms(2) in \<open>simp_all add: final_consistent_def stop_processing_def set_processing_complete_def force_reset_def
      toggle_code_preview_def toggle_details_def toggle_reasoning_def set_view_mode_def render_cards_def\<close>)

lemma reachable_final: "cards_reachable s \<Longrightarrow> final_consistent s"
proof (induction rule: cards_reachable.induct)
  case start
  then show ?case by (simp add: final_consistent_def cards_init_def)
qed (rule final_consistent_step)


text \<open>A filter that may throw, against the plain filter.\<close>

lemma try_filter_Inr: "try_filter p xs = Inr ys \<longleftrightarrow> (\<forall>x \<in> set xs. \<exists>b. p x = Inr b) \<and> ys = filter (\<lambda>x. p x = Inr True) xs"
proof (induction xs arbitrary: ys)
  case (Cons x xs)
  show ?case
  proof (cases "p x")
    case (Inr b)
    then show ?thesis using Cons by (cases "try_filter p xs") auto
  qed simp
qed auto

lemma try_filter_Inl: "(\<exists>e. try_filter p xs = Inl e) \<longleftrightarrow> (\<exists>x \<in> set xs. \<exists>e. p x = Inl e)"
proof -
  have "(\<exists>e. try_filter p xs = Inl e) \<longleftrightarrow> \<not> (\<exists>ys. try_filter p xs = Inr ys)"
    by (cases "try_filter p xs") auto
  also have "\<dots> \<longleftrightarrow> (\<exists>x \<in> set xs. \<nexists>b. p x = Inr b)" by (simp add: try_filter_Inr)
  also have "\<dots> \<longleftrightarrow> (\<exists>x \<in> set xs. \<exists>e. p x = Inl e)"
    by (intro bex_cong refl) (metis sum.exhaust sum.distinct(1))
  finally show ?thesis .
qed

definition final_step :: "card_step \<Rightarrow> bool" where
  "final_step st \<longleftrightarrow> kd_title st = ''Answer''"

lemma final_not_pending: "final_step st \<Longrightarrow> \<not> pending_action st"
  by (simp add: final_step_def pending_action_def)

definition drawn_steps :: "card_env \<Rightarrow> card_step list \<Rightarrow> card_step list" where
  "drawn_steps env sts = filter (\<lambda>st. renders env st = Inr True) sts"

definition all_render :: "card_env \<Rightarrow> card_step list \<Rightarrow> bool" where
  "all_render env sts \<longleftrightarrow> (\<forall>st \<in> set sts. \<exists>b. renders env st = Inr b)"

lemma lists_of_steps:
  assumes "final_answer_steps env sts = Inr finals" "user_action_steps env sts = Inr actions"
    "reasoning_steps env sts = Inr reasons"
  shows "all_render env sts" "finals = filter final_step (drawn_steps env sts)"
    "actions = filter pending_action (drawn_steps env sts)"
    "reasons = filter (\<lambda>st. \<not> final_step st \<and> \<not> pending_action st) (drawn_steps env sts)"
proof -
  note a = assms [unfolded final_answer_steps_def user_action_steps_def reasoning_steps_def try_filter_Inr]
  show "all_render env sts"
    unfolding all_render_def
  proof
    fix st assume "st \<in> set sts"
    then show "\<exists>b. renders env st = Inr b"
      using a by (cases "kd_title st = ''Answer''"; cases "pending_action st") fastforce+
  qed
  have f: "filter (\<lambda>x. (if q x then renders env x else Inr False) = Inr True) sts = filter q (drawn_steps env sts)" for q
    by (simp add: drawn_steps_def) (rule filter_cong, auto split: if_splits)
  show "finals = filter final_step (drawn_steps env sts)"
    using a(1) f [of "\<lambda>x. kd_title x = ''Answer''"] by (simp add: final_step_def [abs_def])
  show "actions = filter pending_action (drawn_steps env sts)" using a(2) f [of pending_action] by simp
  show "reasons = filter (\<lambda>st. \<not> final_step st \<and> \<not> pending_action st) (drawn_steps env sts)"
    using a(3) f [of "\<lambda>x. kd_title x \<noteq> ''Answer'' \<and> \<not> pending_action x"] by (simp add: final_step_def)
qed

lemma lists_defined:
  assumes "all_render env sts"
  shows "\<exists>finals actions reasons. final_answer_steps env sts = Inr finals \<and> user_action_steps env sts = Inr actions
     \<and> reasoning_steps env sts = Inr reasons"
  using assms
  by (auto simp: all_render_def final_answer_steps_def user_action_steps_def reasoning_steps_def try_filter_Inr)

lemma sections_defined: "(\<exists>secs. card_sections env s = Inr secs) \<longleftrightarrow> all_render env (ca_steps s)"
proof
  assume "\<exists>secs. card_sections env s = Inr secs"
  then obtain finals actions reasons where "final_answer_steps env (ca_steps s) = Inr finals"
    "user_action_steps env (ca_steps s) = Inr actions" "reasoning_steps env (ca_steps s) = Inr reasons"
    by (auto simp: card_sections_def try_bind_def split: sum.splits)
  then show "all_render env (ca_steps s)" by (rule lists_of_steps)
next
  assume "all_render env (ca_steps s)"
  from lists_defined [OF this] show "\<exists>secs. card_sections env s = Inr secs"
    by (auto simp: card_sections_def)
qed

text \<open>The sections by the lists, for every case of the state.\<close>

lemma sections_are:
  assumes "card_sections env s = Inr secs"
  shows "secs =
     (let d = drawn_steps env (ca_steps s); finals = filter final_step d; actions = filter pending_action d;
          reasons = filter (\<lambda>st. \<not> final_step st \<and> \<not> pending_action st) d
      in if ca_stopped s then reasoning_section s (ca_steps s) @ [Interrupted]
         else if ca_inplace s then inplace_sections s finals actions reasons
         else append_sections s finals reasons)"
proof -
  obtain finals actions reasons where l: "final_answer_steps env (ca_steps s) = Inr finals"
    "user_action_steps env (ca_steps s) = Inr actions" "reasoning_steps env (ca_steps s) = Inr reasons"
    using assms by (auto simp: card_sections_def try_bind_def split: sum.splits)
  then have "secs = (if ca_stopped s then reasoning_section s (ca_steps s) @ [Interrupted]
         else if ca_inplace s then inplace_sections s finals actions reasons
         else append_sections s finals reasons)"
    using assms by (simp add: card_sections_def)
  then show ?thesis using lists_of_steps [OF l] by (simp add: Let_def)
qed

abbreviation shown :: "view_section list \<Rightarrow> card_step list" where
  "shown secs \<equiv> concat (map section_steps secs)"

lemma shown_reasoning [simp]: "shown (reasoning_section s xs) = xs"
  by (simp add: reasoning_section_def)

lemma mset_three_way:
  assumes "\<And>x. P x \<Longrightarrow> \<not> Q x"
  shows "mset (filter (\<lambda>x. \<not> P x \<and> \<not> Q x) xs) + mset (filter P xs) + mset (filter Q xs) = mset xs"
  using assms by (induction xs) (auto simp: ac_simps)

text \<open>
  C16. Stopped, the view shows all steps.  In place, once there is an answer or an action the
  user has to take, it shows every step that is drawn exactly once, and before that the one
  step the index names and nothing else.  In the other mode it shows all steps before the
  answer, and after it every drawn step but the actions that wait for the user, which
  are nowhere to be seen.
\<close>

theorem cards_account_for_steps:
  assumes "cards_reachable s" "card_sections env s = Inr secs"
  shows "(ca_stopped s \<longrightarrow> shown secs = ca_steps s)
     \<and> (\<not> ca_stopped s \<and> ca_inplace s \<and> (ca_final s \<or> (\<exists>x \<in> set (drawn_steps env (ca_steps s)). pending_action x)) \<longrightarrow>
          mset (shown secs) = mset (drawn_steps env (ca_steps s)))
     \<and> (\<not> ca_stopped s \<and> ca_inplace s \<and> \<not> ca_final s \<and> (\<forall>x \<in> set (drawn_steps env (ca_steps s)). \<not> pending_action x) \<longrightarrow>
          shown secs = (if ca_index s < length (ca_steps s) then [ca_steps s ! ca_index s] else []))
     \<and> (\<not> ca_stopped s \<and> \<not> ca_inplace s \<and> \<not> ca_final s \<longrightarrow> shown secs = ca_steps s)
     \<and> (\<not> ca_stopped s \<and> \<not> ca_inplace s \<and> ca_final s \<longrightarrow>
          mset (shown secs) = mset (filter (\<lambda>x. \<not> pending_action x) (drawn_steps env (ca_steps s))))"
proof -
  let ?d = "drawn_steps env (ca_steps s)"
  let ?f = "filter final_step ?d" and ?a = "filter pending_action ?d"
  let ?r = "filter (\<lambda>st. \<not> final_step st \<and> \<not> pending_action st) ?d"
  note secs = sections_are [OF assms(2), unfolded Let_def]
  note parts = mset_three_way [of final_step pending_action, OF final_not_pending]
  have steps: "ca_final s \<longleftrightarrow> (\<exists>x \<in> set (ca_steps s). final_step x)"
    using reachable_final [OF assms(1)] by (simp add: final_consistent_def final_step_def image_iff eq_commute [of "''Answer''"])
  then have none: "\<not> ca_final s \<Longrightarrow> ?f = []" by (auto simp: drawn_steps_def filter_empty_conv)
  have actions: "?a = [] \<longleftrightarrow> (\<forall>x \<in> set ?d. \<not> pending_action x)" by (simp add: filter_empty_conv)
  have thinking: "shown (if b then [Thinking] else []) = []" for b by simp
  show ?thesis
  proof (intro conjI impI)
    assume "ca_stopped s"
    then show "shown secs = ca_steps s" by (simp add: secs)
  next
    assume c: "\<not> ca_stopped s \<and> ca_inplace s \<and> (ca_final s \<or> (\<exists>x \<in> set ?d. pending_action x))"
    then have "current_card s ?a = None" "ca_final s \<or> ?a \<noteq> []" using actions by (auto simp: current_card_def)
    then have "shown secs = ?r @ ?f @ ?a" using c by (simp add: secs inplace_sections_def)
    then show "mset (shown secs) = mset ?d" using parts [of ?d] by (simp add: ac_simps)
  next
    assume c: "\<not> ca_stopped s \<and> ca_inplace s \<and> \<not> ca_final s \<and> (\<forall>x \<in> set ?d. \<not> pending_action x)"
    then show "shown secs = (if ca_index s < length (ca_steps s) then [ca_steps s ! ca_index s] else [])"
      using none actions by (simp add: secs inplace_sections_def current_card_def del: filter_filter)
  next
    assume c: "\<not> ca_stopped s \<and> \<not> ca_inplace s \<and> \<not> ca_final s"
    then show "shown secs = ca_steps s" by (simp add: secs append_sections_def)
  next
    assume c: "\<not> ca_stopped s \<and> \<not> ca_inplace s \<and> ca_final s"
    then have "ca_steps s \<noteq> []" using steps by auto
    then have "shown secs = ?r @ ?f" using c by (simp add: secs append_sections_def)
    moreover have "mset (filter (\<lambda>x. \<not> pending_action x) ?d) = mset ?r + mset ?f"
      using parts [of "filter (\<lambda>x. \<not> pending_action x) ?d"] final_not_pending
      by (simp add: conj_commute cong: conj_cong filter_cong)
    ultimately show "mset (shown secs) = mset (filter (\<lambda>x. \<not> pending_action x) ?d)" by simp
  qed
qed


theorem cards_account_for_steps_witness:
  "\<exists>s secs. cards_reachable s
     \<and> card_sections \<lparr>ce_parse = \<lambda>_. Inl ''no JSON'', ce_num = \<lambda>_. ''0'', ce_stringify = \<lambda>_. [], ce_pretty = \<lambda>_. [], ce_marked = \<lambda>t. t\<rparr> s = Inr secs
     \<and> map kd_title (ca_steps s) = [''SuggestHumanActions'', ''Answer''] \<and> map kd_title (shown secs) = [''Answer'']"
proof -
  let ?e = "\<lparr>ce_parse = \<lambda>_. Inl ''no JSON'', ce_num = \<lambda>_. ''0'', ce_stringify = \<lambda>_. [], ce_pretty = \<lambda>_. [], ce_marked = \<lambda>t. t\<rparr>"
  let ?a = "add_step (\<lambda>_. ''0'') ''a'' 0 ''SuggestHumanActions'' (JStr ''x'') cards_init"
  let ?b = "add_step (\<lambda>_. ''0'') ''b'' 1 ''Answer'' (JStr ''y'') ?a"
  let ?s = "set_view_mode False ?b"
  let ?st = "\<lparr>kd_id = ''a'', kd_title = ''SuggestHumanActions'', kd_content = JStr ''x'', kd_time = 0, kd_completed = False\<rparr>"
  let ?an = "\<lparr>kd_id = ''b'', kd_title = ''Answer'', kd_content = JStr ''y'', kd_time = 1, kd_completed = False\<rparr>"
  have r: "cards_reachable ?s" 
    by (rule cards_reachable.step [OF cards_reachable.step [OF cards_reachable.step [OF cards_reachable.start
          cards_step.added] cards_step.added] cards_step.mode])
  have steps: "ca_steps ?s = [?st, ?an]" "\<not> ca_stopped ?s" "\<not> ca_inplace ?s" "ca_final ?s"
    by (simp_all add: set_view_mode_def add_step_def cards_init_def Let_def)
  have d: "renders ?e ?st = Inr True" "renders ?e ?an = Inr True"
    by (simp_all add: renders_def should_render_step_def case_description_def describe_human_actions_def filter_content_def
        get_prop_def)
  then have dr: "drawn_steps ?e (ca_steps ?s) = [?st, ?an]" unfolding steps by (simp add: drawn_steps_def)
  have "all_render ?e (ca_steps ?s)" unfolding steps using d by (auto simp: all_render_def)
  then obtain secs where secs: "card_sections ?e ?s = Inr secs" using sections_defined by blast
  have "mset (shown secs) = mset (filter (\<lambda>x. \<not> pending_action x) (drawn_steps ?e (ca_steps ?s)))"
    using cards_account_for_steps [OF r secs] steps by blast
  then have "shown secs = [?an]" unfolding dr by (simp add: pending_action_def)
  then have "map kd_title (shown secs) = [''Answer'']" by simp
  moreover have "map kd_title (ca_steps ?s) = [''SuggestHumanActions'', ''Answer'']" unfolding steps by simp
  ultimately show ?thesis using r secs by (intro exI [of _ ?s] exI [of _ secs] conjI)
qed

text \<open>Titles whose description reads a field of the content, and those that may throw.\<close>

definition reading_titles :: "string list" where
  "reading_titles =
     [''PlanControllerAgent'', ''TaskDecompositionAgent'', ''APIPlannerAgent'', ''CodeAgent'', ''ShortlisterAgent'',
      ''QaAgent'', ''FinalAnswerAgent'', ''SuggestHumanActions'']"

lemma describe_null:
  "\<exists>e. describe_plan num JNull = Inl e" "\<exists>e. describe_decomposition num JNull = Inl e"
  "\<exists>e. describe_api_planner num JNull = Inl e" "\<exists>e. describe_code expanded ident JNull = Inl e"
  "\<exists>e. describe_shortlister num JNull = Inl e" "\<exists>e. describe_qa num JNull = Inl e"
  "\<exists>e. describe_final_answer JNull = Inl e" "\<exists>e. describe_human_actions JNull = Inl e"
  by (simp_all add: describe_plan_def describe_decomposition_def describe_api_planner_def describe_code_def
      describe_shortlister_def describe_qa_def describe_final_answer_def describe_human_actions_def get_prop_def)

lemma reading_titles_throw:
  assumes "title \<in> set reading_titles"
  shows "\<exists>e. case_description num stringify expanded ident title JNull = Inl e"
proof -
  have "title = ''PlanControllerAgent'' \<or> title = ''TaskDecompositionAgent'' \<or> title = ''APIPlannerAgent''
    \<or> title = ''CodeAgent'' \<or> title = ''ShortlisterAgent'' \<or> title = ''QaAgent'' \<or> title = ''FinalAnswerAgent''
    \<or> title = ''SuggestHumanActions''"
    using assms unfolding reading_titles_def by simp
  then show ?thesis by (elim disjE) (simp_all add: case_description_def describe_null)
qed

lemma inr_if:
  "(c \<Longrightarrow> \<exists>d. a = Inr d) \<Longrightarrow> (\<not> c \<Longrightarrow> \<exists>d. b = Inr d) \<Longrightarrow> \<exists>d. (if c then a else b) = Inr d"
  by simp

lemma other_titles_describe:
  assumes "title \<notin> set reading_titles" "title \<noteq> ''TaskAnalyzerAgent''" "title \<noteq> ''APICodePlannerAgent''"
  shows "\<exists>d. case_description num stringify expanded ident title p = Inr d"
proof -
  have "\<exists>d. describe_policy num p = Inr d" "\<exists>d. describe_policy_block num p = Inr d"
    "\<exists>d. describe_policy_playbook num p = Inr d" "\<exists>d. describe_reasoning expanded ident p = Inr d"
    "\<exists>d. describe_reuse p = Inr d"
    by (simp_all add: describe_policy_def describe_policy_block_def describe_policy_playbook_def describe_reasoning_def
        describe_reuse_def Let_def split: jv.split)
  moreover have "title \<noteq> ''PlanControllerAgent''" "title \<noteq> ''TaskDecompositionAgent''" "title \<noteq> ''APIPlannerAgent''"
    "title \<noteq> ''CodeAgent''" "title \<noteq> ''ShortlisterAgent''" "title \<noteq> ''QaAgent''" "title \<noteq> ''FinalAnswerAgent''"
    "title \<noteq> ''SuggestHumanActions''"
    using assms(1) by (auto simp: reading_titles_def)
  ultimately show ?thesis
    unfolding case_description_def using assms(2,3) by (intro inr_if) simp_all
qed

lemma throwing_step:
  assumes "kd_content st = JStr c" "ce_parse env c = Inr (JObj [(''data'', JNull)])" "kd_title st \<in> set reading_titles"
  shows "\<exists>e. renders env st = Inl e"
proof -
  have "kd_title st \<noteq> ''simple_text''" using assms(3) by (auto simp: reading_titles_def)
  moreover have "filter_content (ce_parse env) (kd_content st) = JNull"
    using assms(1,2) by (simp add: filter_content_def lone_data_def)
  ultimately show ?thesis
    using reading_titles_throw [OF assms(3), of "ce_num env" "ce_stringify env" "[]" "kd_id st"]
    by (auto simp: renders_def should_render_step_def)
qed

lemma sections_throw: "(\<exists>e. card_sections env s = Inl e) \<longleftrightarrow> (\<exists>st \<in> set (ca_steps s). \<exists>e. renders env st = Inl e)"
proof -
  have "(\<exists>e. card_sections env s = Inl e) \<longleftrightarrow> \<not> (\<exists>secs. card_sections env s = Inr secs)"
    by (cases "card_sections env s") auto
  also have "\<dots> \<longleftrightarrow> (\<exists>st \<in> set (ca_steps s). \<nexists>b. renders env st = Inr b)"
    by (simp add: sections_defined all_render_def)
  also have "\<dots> \<longleftrightarrow> (\<exists>st \<in> set (ca_steps s). \<exists>e. renders env st = Inl e)"
    by (intro bex_cong refl) (metis sum.exhaust sum.distinct(1))
  finally show ?thesis .
qed

lemma page_throws: "\<exists>e. card_sections env s = Inl e \<Longrightarrow> \<exists>e. cards_page env s = Inl e"
  by (auto simp: cards_page_def)

text \<open>The two other descriptions that can throw, and on what.\<close>

lemma analyzer_throws:
  "(\<exists>e. describe_task_analyzer num p = Inl e) \<longleftrightarrow> (\<exists>apps. p = JArr apps \<and> list_ex nullish apps)"
proof -
  have "(\<exists>e. try_map (\<lambda>app. try_bind (get_prop app ''name'') (\<lambda>n. Inr (bold_span (js_to_string num n)))) apps = Inl e)
      \<longleftrightarrow> list_ex nullish apps" for apps
  proof (induction apps)
    case (Cons x xs)
    then show ?case
      by (cases "try_map (\<lambda>app. try_bind (get_prop app ''name'') (\<lambda>n. Inr (bold_span (js_to_string num n)))) xs")
        (auto simp: get_prop_def)
  qed simp
  moreover have "(\<exists>e. try_bind r (\<lambda>x. Inr (f x)) = Inl e) \<longleftrightarrow> (\<exists>e. r = Inl e)" for r :: "exn + string list" and f :: "string list \<Rightarrow> description"
    by (cases r) simp_all
  ultimately show ?thesis by (cases p) (simp_all add: describe_task_analyzer_def)
qed

lemma planner_throws: "(\<exists>e. describe_code_planner num stringify p = Inl e) \<longleftrightarrow> p = JUndef"
  by (auto simp: describe_code_planner_def preview_text_def split: jv.split)

definition malformed :: "string \<Rightarrow> jv \<Rightarrow> bool" where
  "malformed title p \<longleftrightarrow>
     title = ''TaskAnalyzerAgent'' \<and> (\<exists>apps. p = JArr apps \<and> list_ex nullish apps)
     \<or> title = ''APICodePlannerAgent'' \<and> p = JUndef"

lemma renders_throws_iff:
  "(\<exists>e. renders env st = Inl e) \<longleftrightarrow>
     kd_title st \<noteq> ''simple_text''
     \<and> (\<exists>e. case_description (ce_num env) (ce_stringify env) [] (kd_id st) (kd_title st) (filter_content (ce_parse env) (kd_content st)) = Inl e)"
  by (cases "case_description (ce_num env) (ce_stringify env) [] (kd_id st) (kd_title st) (filter_content (ce_parse env) (kd_content st))")
    (auto simp: renders_def should_render_step_def)

lemma other_titles_throw:
  assumes "kd_title st \<notin> set reading_titles"
  shows "(\<exists>e. renders env st = Inl e) \<longleftrightarrow> malformed (kd_title st) (filter_content (ce_parse env) (kd_content st))"
proof (cases "kd_title st = ''TaskAnalyzerAgent'' \<or> kd_title st = ''APICodePlannerAgent''")
  case True
  then show ?thesis
    using analyzer_throws [of "ce_num env"] planner_throws [of "ce_num env" "ce_stringify env"]
    by (elim disjE) (simp_all add: renders_throws_iff case_description_def malformed_def)
next
  case False
  then obtain d where "case_description (ce_num env) (ce_stringify env) [] (kd_id st) (kd_title st)
      (filter_content (ce_parse env) (kd_content st)) = Inr d"
    using other_titles_describe [OF assms] by blast
  then show ?thesis using False by (simp add: renders_throws_iff malformed_def)
qed

lemma null_data_throws:
  assumes "kd_content st = JStr c" "ce_parse env c = Inr (JObj [(''data'', JNull)])"
  shows "(\<exists>e. renders env st = Inl e) \<longleftrightarrow> kd_title st \<in> set reading_titles"
proof (cases "kd_title st \<in> set reading_titles")
  case False
  moreover have "filter_content (ce_parse env) (kd_content st) = JNull"
    using assms by (simp add: filter_content_def lone_data_def)
  ultimately show ?thesis by (simp add: other_titles_throw malformed_def)
qed (use throwing_step [OF assms] in simp)

text \<open>No step leaves the cards, or changes its title or content, but by a reset.\<close>

lemma steps_stay:
  assumes "cards_step s s'" "st \<in> set (ca_steps s)"
  shows "s' = force_reset s \<or> (\<exists>x \<in> set (ca_steps s'). kd_title x = kd_title st \<and> kd_content x = kd_content st)"
  using assms(1)
proof (cases rule: cards_step.cases)
  case (added num ident now title content)
  then show ?thesis using assms(2) by (auto simp: add_step_def Let_def)
next
  case (acted ident)
  then have "(if kd_id st = ident then st\<lparr>kd_completed := True\<rparr> else st) \<in> set (ca_steps s')"
    using assms(2) by (auto simp: mark_step_completed_def)
  then show ?thesis by (intro disjI2 bexI) auto
qed (use assms(2) in \<open>auto simp: stop_processing_def set_processing_complete_def toggle_code_preview_def toggle_details_def
      toggle_reasoning_def set_view_mode_def render_cards_def\<close>)

text \<open>
  C31. A step whose content is an object with the data null, under one of the eight titles whose description
  reads a field of it, makes the drawing of the page throw, and whatever is done to the cards it
  still throws, unless they are reset, after which they are drawn.  Of steps with the data null
  exactly those under these titles throw when they are drawn.  Steps under other titles throw in
  two cases only: applications of the task analyzer with a missing entry, and a plan for the coding agent without any
  content.
\<close>

theorem malformed_step_blanks_cards:
  assumes "st \<in> set (ca_steps s)" "kd_content st = JStr c" "ce_parse env c = Inr (JObj [(''data'', JNull)])"
    "kd_title st \<in> set reading_titles"
  shows "(\<exists>e. cards_page env s = Inl e)
     \<and> (\<forall>s'. cards_step s s' \<longrightarrow> s' = force_reset s \<or> (\<exists>e. cards_page env s' = Inl e))
     \<and> (\<exists>page. cards_page env (force_reset s) = Inr page)
     \<and> (\<forall>x. kd_content x = JStr c \<longrightarrow> ((\<exists>e. renders env x = Inl e) \<longleftrightarrow> kd_title x \<in> set reading_titles))
     \<and> (\<forall>x. kd_title x \<notin> set reading_titles \<longrightarrow>
          ((\<exists>e. renders env x = Inl e) \<longleftrightarrow> malformed (kd_title x) (filter_content (ce_parse env) (kd_content x))))"
proof (intro conjI allI impI)
  have t: "\<exists>e. renders env x = Inl e" if "kd_title x = kd_title st" "kd_content x = kd_content st" for x
    using throwing_step [of x c env] that assms(2-4) by simp
  show "\<exists>e. cards_page env s = Inl e"
    using assms(1) t [of st] by (intro page_throws) (auto simp: sections_throw)
  show "s' = force_reset s \<or> (\<exists>e. cards_page env s' = Inl e)" if stp: "cards_step s s'" for s'
  proof (cases "s' = force_reset s")
    case False
    then obtain x where "x \<in> set (ca_steps s')" "kd_title x = kd_title st" "kd_content x = kd_content st"
      using steps_stay [OF stp assms(1)] by blast
    then have "\<exists>e. cards_page env s' = Inl e" using t [of x] by (intro page_throws) (auto simp: sections_throw)
    then show ?thesis by simp
  qed simp
  show "\<exists>page. cards_page env (force_reset s) = Inr page"
    by (simp add: cards_page_def card_sections_def final_answer_steps_def user_action_steps_def reasoning_steps_def
        inplace_sections_def append_sections_def reasoning_section_def current_card_def is_loading_def section_cards_def
        force_reset_def)
  show "(\<exists>e. renders env x = Inl e) \<longleftrightarrow> kd_title x \<in> set reading_titles" if "kd_content x = JStr c" for x
    by (rule null_data_throws [OF that assms(3)])
  show "(\<exists>e. renders env x = Inl e) \<longleftrightarrow> malformed (kd_title x) (filter_content (ce_parse env) (kd_content x))"
    if "kd_title x \<notin> set reading_titles" for x
    by (rule other_titles_throw [OF that])
qed

theorem malformed_step_blanks_cards_witness:
  "\<exists>e. cards_page \<lparr>ce_parse = \<lambda>_. Inr (JObj [(''data'', JNull)]), ce_num = \<lambda>_. ''0'', ce_stringify = \<lambda>_. [],
       ce_pretty = \<lambda>_. [], ce_marked = \<lambda>t. t\<rparr>
     (add_step (\<lambda>_. ''0'') ''a'' 0 ''QaAgent'' (JStr ''q'') cards_init) = Inl e"
proof -
  let ?e = "\<lparr>ce_parse = \<lambda>_. Inr (JObj [(''data'', JNull)]), ce_num = \<lambda>_. ''0'', ce_stringify = \<lambda>_. [],
       ce_pretty = \<lambda>_. [], ce_marked = \<lambda>t. t\<rparr>"
  let ?st = "\<lparr>kd_id = ''a'', kd_title = ''QaAgent'', kd_content = JStr ''q'', kd_time = 0, kd_completed = False\<rparr>"
  have "?st \<in> set (ca_steps (add_step (\<lambda>_. ''0'') ''a'' 0 ''QaAgent'' (JStr ''q'') cards_init))"
    by (simp add: add_step_def cards_init_def Let_def)
  then show ?thesis
    using malformed_step_blanks_cards [of ?st "add_step (\<lambda>_. ''0'') ''a'' 0 ''QaAgent'' (JStr ''q'') cards_init" "''q''" ?e]
    by (simp add: reading_titles_def)
qed

text \<open>
  The filter of the lists and the card read the same content when there are no variables
  next to the data and no policy inside it.  With variables they do not: the filter then
  looks for the code of a code step beside the data, finds none and drops the step,
  whose card would show the code.
\<close>

theorem filter_against_card:
  assumes "ce_parse env c = Inr p"
  shows "(\<not> has_variables p \<and> (\<forall>d. lone_data p = Some d \<longrightarrow> data_content (ce_parse env) False d = d) \<longrightarrow>
          card_content (ce_parse env) title (JStr c) = filter_content (ce_parse env) (JStr c))
     \<and> (p = JObj [(''data'', JObj [(''code'', JStr code)]), (''variables'', vars)] \<and> trim code \<noteq> [] \<and> truthy vars \<and>
        kd_title st = ''CodeAgent'' \<and> kd_content st = JStr c \<longrightarrow>
          renders env st = Inr False
          \<and> (\<exists>rows n more wide d. render_step_card env s b st =
               Inr (Some (Step_Card (kd_id st) (Heading ''Generated Code'') (Code_View rows n more wide False None) d b))))"
proof (intro conjI impI)
  assume "\<not> has_variables p \<and> (\<forall>d. lone_data p = Some d \<longrightarrow> data_content (ce_parse env) False d = d)"
  then show "card_content (ce_parse env) title (JStr c) = filter_content (ce_parse env) (JStr c)"
    using assms by (simp add: card_content_def filter_content_def split: option.split)
next
  assume c: "p = JObj [(''data'', JObj [(''code'', JStr code)]), (''variables'', vars)] \<and> trim code \<noteq> [] \<and> truthy vars
    \<and> kd_title st = ''CodeAgent'' \<and> kd_content st = JStr c"
  show "renders env st = Inr False"
    using c assms
    by (simp add: renders_def should_render_step_def filter_content_def lone_data_def case_description_def describe_code_def
        trimmed_filled_def Let_def)
  have code: "code \<noteq> []" using c by (auto simp: trim_def trim_start_def)
  have "\<exists>o1. card_content (ce_parse env) ''CodeAgent'' (JStr c) = o1 \<and> is_obj o1 \<and> fld o1 ''code'' = JStr code
      \<and> fld o1 ''execution_output'' = JUndef"
    using c assms
    by (simp add: card_content_def has_variables_def content_with_variables_def data_and_policies_def policy_object_def
        obj_with_def spread_def Let_def split: prod.split)
  then show "\<exists>rows n more wide d. render_step_card env s b st =
      Inr (Some (Step_Card (kd_id st) (Heading ''Generated Code'') (Code_View rows n more wide False None) d b))"
    using c code
    by (cases "card_content (ce_parse env) ''CodeAgent'' (JStr c)")
      (auto simp: render_step_card_def case_description_def describe_code_def trimmed_filled_def map_step_title_def
        output_view_def Let_def simp del: fld.simps)
qed

theorem filter_against_card_witness:
  "renders \<lparr>ce_parse = \<lambda>_. Inr (JObj [(''data'', JObj [(''code'', JStr ''x'')]), (''variables'', JObj [])]), ce_num = \<lambda>_. ''0'',
       ce_stringify = \<lambda>_. [], ce_pretty = \<lambda>_. [], ce_marked = \<lambda>t. t\<rparr>
     \<lparr>kd_id = ''a'', kd_title = ''CodeAgent'', kd_content = JStr ''c'', kd_time = 0, kd_completed = False\<rparr> = Inr False"
  using filter_against_card [where env = "\<lparr>ce_parse = \<lambda>_. Inr (JObj [(''data'', JObj [(''code'', JStr ''x'')]), (''variables'', JObj [])]),
      ce_num = \<lambda>_. ''0'', ce_stringify = \<lambda>_. [], ce_pretty = \<lambda>_. [], ce_marked = \<lambda>t. t\<rparr>" and c = "''c''" and code = "''x''"
      and vars = "JObj []" and st = "\<lparr>kd_id = ''a'', kd_title = ''CodeAgent'', kd_content = JStr ''c'', kd_time = 0, kd_completed = False\<rparr>"]
  by (simp add: trim_def trim_start_def is_ws_def)

end
