(* ===== verification/Streaming.thy ===== *)
theory Streaming
  imports Js_Value "HOL-Library.Multiset"
begin

text \<open>
  \<open>agentic_chat/src/StreamingManager.ts\<close> and \<open>StreamManager.tsx\<close>.  A manager
  runs one stream after the other; what the event source, the back end and the
  microtask queue do comes as steps in any order, each for a run, the number of a start.
  A run is pending until its promise is settled, settled until \<open>startStream\<close> has
  looked at the outcome and cleaned up, and finished then.  The log holds the calls of the
  owner's callbacks.
\<close>

datatype stream_callback =
    StepAdded jv string
  | CompleteCalled
  | StopCalled
  | ErrorCalled string

text \<open>An error: its name and its message.\<close>

type_synonym stream_failure = "string \<times> string"

record manager =
  sm_streaming :: bool
  sm_stop :: bool
  sm_controller :: "nat option"
  sm_runs :: nat                                    \<comment> \<open>starts so far\<close>
  sm_pending :: "nat list"
  sm_settled :: "(nat \<times> stream_failure option) list"
  sm_finished :: "nat list"
  sm_stopping :: nat                                \<comment> \<open>stop requests not yet answered\<close>
  sm_log :: "stream_callback list"

definition manager_init :: manager where
  "manager_init = \<lparr>sm_streaming = False, sm_stop = False, sm_controller = None, sm_runs = 0, sm_pending = [],
     sm_settled = [], sm_finished = [], sm_stopping = 0, sm_log = []\<rparr>"

definition note_callback :: "stream_callback \<Rightarrow> manager \<Rightarrow> manager" where
  "note_callback x s = s\<lparr>sm_log := sm_log s @ [x]\<rparr>"

definition stream_cleanup :: "manager \<Rightarrow> manager" where
  "stream_cleanup s = s\<lparr>sm_streaming := False, sm_stop := False, sm_controller := None\<rparr>"

definition start_stream :: "manager \<Rightarrow> manager" where
  "start_stream s =
     (if sm_streaming s then s
      else s\<lparr>sm_streaming := True, sm_stop := False, sm_controller := Some (sm_runs s),
             sm_runs := Suc (sm_runs s), sm_pending := sm_pending s @ [sm_runs s]\<rparr>)"

text \<open>A promise is settled once; settling it again has no effect.\<close>

definition settle :: "nat \<Rightarrow> stream_failure option \<Rightarrow> manager \<Rightarrow> manager" where
  "settle n r s =
     (if n \<in> set (sm_pending s)
      then s\<lparr>sm_pending := remove1 n (sm_pending s), sm_settled := sm_settled s @ [(n, r)]\<rparr> else s)"

definition stream_open :: "manager \<Rightarrow> manager" where
  "stream_open s = (if \<not> sm_stop s then note_callback (StepAdded (JStr ''simple_text'') ''Processing request...'') s else s)"

text \<open>\<open>parseStreamEvent\<close>: the event source hands out strings.\<close>

definition parse_stream_event :: "(jv \<Rightarrow> string) \<Rightarrow> jv \<Rightarrow> jv \<Rightarrow> jv \<times> string" where
  "parse_stream_event stringify ev data = (ev, case data of JStr s \<Rightarrow> s | _ \<Rightarrow> stringify data)"

definition stream_message :: "nat \<Rightarrow> string \<Rightarrow> string \<Rightarrow> manager \<Rightarrow> manager" where
  "stream_message n ev data s =
     (if sm_stop s then s
      else if ev = ''Stopped'' \<or> ev = ''stop'' then settle n None (note_callback StopCalled (s\<lparr>sm_stop := True\<rparr>))
      else if ev = ''Complete'' \<or> ev = ''complete'' then settle n None (note_callback CompleteCalled s)
      else let (title, content) = parse_stream_event (\<lambda>_. []) (JStr ev) (JStr data)
           in note_callback (StepAdded title content) s)"

definition stream_close :: "nat \<Rightarrow> manager \<Rightarrow> manager" where
  "stream_close n s = settle n None (if \<not> sm_stop s then note_callback CompleteCalled s else s)"

definition stream_error :: "nat \<Rightarrow> stream_failure \<Rightarrow> manager \<Rightarrow> manager" where
  "stream_error n e s =
     (if fst e = ''AbortError'' then settle n None s
      else settle n (Some e) (note_callback (ErrorCalled (snd e)) s))"

text \<open>The promise of the event source is rejected.\<close>

definition source_rejected :: "nat \<Rightarrow> stream_failure \<Rightarrow> manager \<Rightarrow> manager" where
  "source_rejected n e s = settle n (if fst e = ''AbortError'' then None else Some e) s"

text \<open>\<open>startStream\<close> goes on after the await: its catch and finally clauses.\<close>

definition finish_stream :: "nat \<Rightarrow> stream_failure option \<Rightarrow> manager \<Rightarrow> manager" where
  "finish_stream n r s =
     (let s1 = s\<lparr>sm_settled := remove1 (n, r) (sm_settled s), sm_finished := sm_finished s @ [n]\<rparr>
      in stream_cleanup (case r of
           Some e \<Rightarrow> if fst e \<noteq> ''AbortError'' then note_callback (ErrorCalled (snd e)) s1 else s1
         | None \<Rightarrow> s1))"

text \<open>\<open>stopStream\<close> up to the request to the back end, and after it.\<close>

definition stop_stream :: "manager \<Rightarrow> manager" where
  "stop_stream s = (if \<not> sm_streaming s then s else s\<lparr>sm_stop := True, sm_stopping := Suc (sm_stopping s)\<rparr>)"

definition stop_answered :: "manager \<Rightarrow> manager" where
  "stop_answered s = stream_cleanup (note_callback StopCalled (s\<lparr>sm_stopping := sm_stopping s - 1\<rparr>))"

inductive manager_step :: "manager \<Rightarrow> manager \<Rightarrow> bool" where
  "manager_step s (start_stream s)"
| "manager_step s (stop_stream s)"
| "0 < sm_stopping s \<Longrightarrow> manager_step s (stop_answered s)"
| "n < sm_runs s \<Longrightarrow> manager_step s (stream_open s)"
| "n < sm_runs s \<Longrightarrow> manager_step s (stream_message n ev data s)"
| "n < sm_runs s \<Longrightarrow> manager_step s (stream_close n s)"
| "n < sm_runs s \<Longrightarrow> manager_step s (stream_error n e s)"
| "n < sm_runs s \<Longrightarrow> manager_step s (source_rejected n e s)"
| "(n, r) \<in> set (sm_settled s) \<Longrightarrow> manager_step s (finish_stream n r s)"

inductive manager_reachable :: "manager \<Rightarrow> bool" where
  init: "manager_reachable manager_init"
| step: "manager_reachable s \<Longrightarrow> manager_step s s' \<Longrightarrow> manager_reachable s'"

inductive_cases manager_stepE: "manager_step s s'"

lemmas manager_defs = start_stream_def stop_stream_def stop_answered_def stream_open_def stream_message_def
  stream_close_def stream_error_def source_rejected_def finish_stream_def stream_cleanup_def note_callback_def

section \<open>The simulated stream\<close>

text \<open>
  \<open>simulateFakeStream\<close>: the reply for the file, and the step during whose delay the
  user stops, if any: the timer is cleared then, so the loop never goes on.
\<close>

fun fake_steps :: "(jv \<Rightarrow> string) \<Rightarrow> nat option \<Rightarrow> nat \<Rightarrow> jv list \<Rightarrow> stream_callback list" where
  "fake_steps stringify stop k [] = [CompleteCalled]"
| "fake_steps stringify stop k (st # sts) =
     (if stop = Some k then [StopCalled]
      else if nullish st then [ErrorCalled (type_error st ''name'')]
      else (case parse_stream_event stringify (fld st ''name'') (fld st ''data'') of
              (title, content) \<Rightarrow>
                if fld st ''name'' = JStr ''Stopped'' then StopCalled else StepAdded title content)
           # fake_steps stringify stop (Suc k) sts)"

definition fake_format_error :: string where
  "fake_format_error = ''Invalid fake stream data format. Expected { steps: [{ name: string, data: any }] }''"

definition simulate_fake_stream :: "(jv \<Rightarrow> string) \<Rightarrow> nat option \<Rightarrow> string + jv \<Rightarrow> stream_callback list" where
  "simulate_fake_stream stringify stop reply =
     (case reply of
        Inl m \<Rightarrow> [ErrorCalled m]
      | Inr data \<Rightarrow>
          (case get_prop data ''steps'' of
             Inl m \<Rightarrow> [ErrorCalled m]
           | Inr (JArr sts) \<Rightarrow> StepAdded (JStr ''simple_text'') ''Simulating stream from JSON file...''
               # fake_steps stringify stop 0 sts
           | _ \<Rightarrow> [ErrorCalled fake_format_error]))"

section \<open>The shared stream state\<close>

text \<open>\<open>StreamManager.tsx\<close>: the flag, its listeners and what they were told.\<close>

record stream_state =
  tm_streaming :: bool
  tm_listeners :: "nat list"
  tm_controller :: "nat option"
  tm_aborted :: "nat list"
  tm_told :: "(nat \<times> bool) list"

definition set_streaming :: "bool \<Rightarrow> stream_state \<Rightarrow> stream_state" where
  "set_streaming b s = s\<lparr>tm_streaming := b, tm_told := tm_told s @ map (\<lambda>k. (k, b)) (tm_listeners s)\<rparr>"

definition tm_subscribe :: "nat \<Rightarrow> stream_state \<Rightarrow> stream_state" where
  "tm_subscribe k s = s\<lparr>tm_listeners := (if k \<in> set (tm_listeners s) then tm_listeners s else tm_listeners s @ [k])\<rparr>"

definition tm_unsubscribe :: "nat \<Rightarrow> stream_state \<Rightarrow> stream_state" where
  "tm_unsubscribe k s = s\<lparr>tm_listeners := removeAll k (tm_listeners s)\<rparr>"

definition set_abort_controller :: "nat option \<Rightarrow> stream_state \<Rightarrow> stream_state" where
  "set_abort_controller c s = s\<lparr>tm_controller := c\<rparr>"

text \<open>Stopping aborts the controller; whatever the server answers, the flag is cleared.\<close>

definition tm_stop_stream :: "stream_state \<Rightarrow> stream_state" where
  "tm_stop_stream s =
     set_streaming False (case tm_controller s of Some c \<Rightarrow> s\<lparr>tm_aborted := tm_aborted s @ [c]\<rparr> | None \<Rightarrow> s)"

section \<open>Properties\<close>

definition runs_kept :: "manager \<Rightarrow> bool" where
  "runs_kept s \<longleftrightarrow>
     (sm_controller s \<noteq> None \<longleftrightarrow> sm_streaming s)
     \<and> mset [0..<sm_runs s] = mset (sm_pending s) + mset (map fst (sm_settled s)) + mset (sm_finished s)"

lemma runs_kept_settle: "runs_kept s \<Longrightarrow> runs_kept (settle n r s)"
  by (auto simp: runs_kept_def settle_def)

lemma runs_kept_finish:
  assumes "runs_kept s" "(n, r) \<in> set (sm_settled s)"
  shows "runs_kept (finish_stream n r s)"
proof -
  have "mset (sm_settled s) = add_mset (n, r) (mset (remove1 (n, r) (sm_settled s)))" using assms(2) by simp
  from arg_cong [OF this, of "image_mset fst"]
  have "mset (map fst (sm_settled s)) = add_mset n (mset (map fst (remove1 (n, r) (sm_settled s))))"
    by (simp only: image_mset_add_mset mset_map fst_conv)
  then show ?thesis using assms(1)
    by (auto simp: runs_kept_def finish_stream_def stream_cleanup_def note_callback_def Let_def split: option.splits)
qed

lemma runs_kept_update [simp]:
  "runs_kept (note_callback x s) \<longleftrightarrow> runs_kept s" "runs_kept (s\<lparr>sm_stop := b\<rparr>) \<longleftrightarrow> runs_kept s"
  by (simp_all add: runs_kept_def note_callback_def)

lemma runs_kept_cleanup: "runs_kept s \<Longrightarrow> runs_kept (stream_cleanup s)"
  by (simp add: runs_kept_def stream_cleanup_def)

lemma runs_kept_start: "runs_kept s \<Longrightarrow> runs_kept (start_stream s)"
  by (simp add: runs_kept_def start_stream_def atLeast0_lessThan_Suc)

lemma runs_kept_stop: "runs_kept s \<Longrightarrow> runs_kept (stop_stream s)"
  by (simp add: runs_kept_def stop_stream_def)

lemma runs_kept_stop_answered: "runs_kept s \<Longrightarrow> runs_kept (stop_answered s)"
  unfolding stop_answered_def
  by (intro runs_kept_cleanup) (simp add: runs_kept_def note_callback_def)

lemma runs_kept_message: "runs_kept s \<Longrightarrow> runs_kept (stream_message n ev data s)"
  by (simp add: stream_message_def runs_kept_settle parse_stream_event_def Let_def)

lemma runs_kept_step: "runs_kept s \<Longrightarrow> manager_step s s' \<Longrightarrow> runs_kept s'"
  by (erule manager_stepE)
    (simp_all add: runs_kept_start runs_kept_stop runs_kept_stop_answered runs_kept_message runs_kept_finish
      runs_kept_settle stream_open_def stream_close_def stream_error_def source_rejected_def)

text \<open>
  In every state the manager can reach it holds an abort controller exactly while it
  says it is streaming, and every start is accounted for once: its promise is pending,
  settled, or its run has been cleaned up, never twice.
\<close>

theorem manager_runs_accounted:
  assumes "manager_reachable s"
  shows "(sm_controller s \<noteq> None \<longleftrightarrow> sm_streaming s)
     \<and> mset [0..<sm_runs s] = mset (sm_pending s) + mset (map fst (sm_settled s)) + mset (sm_finished s)"
proof -
  have "runs_kept s"
    using assms
  proof (induction rule: manager_reachable.induct)
    case init
    then show ?case by (simp add: runs_kept_def manager_init_def)
  next
    case (step s s')
    then show ?case using runs_kept_step by blast
  qed
  then show ?thesis by (simp add: runs_kept_def)
qed

theorem manager_runs_accounted_witness:
  "sm_controller (start_stream manager_init) \<noteq> None \<longleftrightarrow> sm_streaming (start_stream manager_init)"
  using manager_runs_accounted [OF manager_reachable.step [OF manager_reachable.init manager_step.intros(1)]] by blast

text \<open>
  Three things the owner of a manager sees: a completion message and then the end of
  the connection report completion twice; a failing stream reports its error twice; and
  when a stopped run settles after the next one has started, its clean-up marks the
  manager idle while the next run is still under way.
\<close>

theorem manager_reports_twice:
  assumes idle: "\<not> sm_streaming s" and fresh: "sm_runs s \<notin> set (sm_pending s)" and e: "fst e \<noteq> ''AbortError''"
  shows "(let n = sm_runs s; s1 = start_stream s
     in sm_log (stream_close n (stream_message n ''Complete'' [] s1)) = sm_log s @ [CompleteCalled, CompleteCalled]
      \<and> sm_log (finish_stream n (Some e) (stream_error n e s1)) = sm_log s @ [ErrorCalled (snd e), ErrorCalled (snd e)]
      \<and> (let s2 = start_stream (stop_answered (stop_stream s1))
         in sm_streaming s2 \<and> Suc n \<in> set (sm_pending s2)
            \<and> \<not> sm_streaming (finish_stream n None (source_rejected n (''AbortError'', []) s2))
            \<and> Suc n \<in> set (sm_pending (finish_stream n None (source_rejected n (''AbortError'', []) s2)))))"
  using assms by (simp add: manager_defs settle_def Let_def split: prod.splits)

theorem manager_reports_twice_witness:
  "sm_log (stream_close 0 (stream_message 0 ''Complete'' [] (start_stream manager_init))) = [CompleteCalled, CompleteCalled]"
  using manager_reports_twice [of manager_init "(''TypeError'', ''failed'')"] by (simp add: manager_init_def Let_def)

end
