(* ===== verification/Workflow_Stream.thy ===== *)
theory Workflow_Stream
  imports Agent_Query Card_State Streaming
begin

text \<open>
  The older chat client, \<open>agentic_chat/src/StreamingWorkflow.ts\<close> with
  \<open>customSendMessage.ts\<close> and \<open>renderUserDefinedResponse.tsx\<close>: a request
  streamed from the server, the simulated stream, and the stream that comes through the
  extension's worker.  Steps go to the cards of \<open>Card_State\<close> when the component is
  mounted.  The event source, the user's stop, identifiers, clocks and the HTML texts are
  arguments; what is done to the chat is a list of effects.
\<close>

record workflow_env =
  we_num :: "rat \<Rightarrow> string"
  we_stringify :: "jv \<Rightarrow> string"
  we_id :: "nat \<Rightarrow> string"              \<comment> \<open>identifier of the \<open>k\<close>-th step\<close>
  we_now :: "nat \<Rightarrow> rat"
  we_profile :: jv
  we_stopped_html :: string
  we_stopped_fake_html :: string
  we_error_text :: string         \<comment> \<open>a cross mark and \<open>An error occurred\<close>\<close>
  we_welcome :: string

definition cards_add :: "workflow_env \<Rightarrow> string \<Rightarrow> jv \<Rightarrow> cards \<Rightarrow> cards" where
  "cards_add E title content c =
     (let k = length (ca_steps c) in add_step (we_num E) (we_id E k) (we_now E k) title content c)"

text \<open>\<open>getCurrentStep\<close>: the data to show, and what the event does to the cards.\<close>

definition get_current_step :: "string \<Rightarrow> jv \<Rightarrow> cards option \<Rightarrow> jv \<times> cards option" where
  "get_current_step ev data c =
     (if ev = ''__interrupt__'' then (JUndef, c)
      else if ev = ''Stopped'' then (data, map_option stop_processing c)
      else (data, c))"

section \<open>A request to the server\<close>

datatype workflow_effect =
    ChatMessage jv
  | PostRequest jv "(string \<times> string) list"

definition chat_text :: "workflow_env \<Rightarrow> string \<Rightarrow> string \<Rightarrow> workflow_effect" where
  "chat_text E ident txt = ChatMessage (JObj
     [(''message_options'', JObj [(''response_user_profile'', we_profile E)]),
      (''output'', JObj [(''generic'', JArr [JObj [(''id'', JStr ident), (''response_type'', JStr ''text''),
         (''text'', JStr txt)]])])])"

text \<open>\<open>addStreamMessage\<close>: steps go to the cards only, texts to the chat.\<close>

definition add_stream_message ::
  "workflow_env \<Rightarrow> string \<Rightarrow> string \<Rightarrow> jv \<Rightarrow> bool \<Rightarrow> cards option \<Rightarrow> workflow_effect list \<times> cards option" where
  "add_stream_message E wid title data is_text c =
     (if c \<noteq> None \<and> \<not> is_text then ([], map_option (cards_add E title data) c)
      else if is_text
      then ([chat_text E (wid @ title) (case data of JStr s \<Rightarrow> s | _ \<Rightarrow> we_stringify E data)], c)
      else ([], c))"

datatype source_event = SourceOpen | SourceMessage string jv | SourceClose | SourceError string

text \<open>One event of the source; nothing is done once the stream is aborted.\<close>

definition source_event_step ::
  "workflow_env \<Rightarrow> string \<Rightarrow> bool \<Rightarrow> source_event \<Rightarrow> cards option \<Rightarrow> workflow_effect list \<times> cards option" where
  "source_event_step E wid stopped ev c =
     (if stopped then ([], c)
      else case ev of
             SourceMessage name data \<Rightarrow>
               (let (cur, c1) = get_current_step name data c
                in if truthy cur then add_stream_message E wid name cur False c1 else ([], c1))
           | SourceError m \<Rightarrow>
               add_stream_message E wid ''error'' (JStr (''An error occurred during processing: '' @ m)) True c
           | _ \<Rightarrow> ([], c))"

definition is_aborted :: "nat option \<Rightarrow> nat \<Rightarrow> bool" where
  "is_aborted ab k \<longleftrightarrow> (case ab of Some n \<Rightarrow> n \<le> k | None \<Rightarrow> False)"

fun source_events ::
  "workflow_env \<Rightarrow> string \<Rightarrow> nat option \<Rightarrow> nat \<Rightarrow> source_event list \<Rightarrow> cards option \<Rightarrow> workflow_effect list \<times> cards option" where
  "source_events E wid ab k [] c = ([], c)"
| "source_events E wid ab k (ev # evs) c =
     (let (out, c1) = source_event_step E wid (is_aborted ab k) ev c;
          (outs, c2) = source_events E wid ab (Suc k) evs (map_option render_cards c1)
      in (out @ outs, c2))"

record workflow_result =
  wr_effects :: "workflow_effect list"
  wr_cards :: "cards option"
  wr_stream :: stream_state
  wr_error :: "stream_failure option"

text \<open>
  \<open>fetchStreamingData\<close>: the stop comes after a number of events, \<open>ab\<close>; a stop before
  the first event ends the initial delay.  \<open>failure\<close> is how the source's promise is rejected.
\<close>

definition fetch_streaming_data ::
  "workflow_env \<Rightarrow> string \<Rightarrow> nat \<Rightarrow> string \<Rightarrow> jv \<Rightarrow> string option \<Rightarrow> bool \<Rightarrow> nat option \<Rightarrow> source_event list
     \<Rightarrow> stream_failure option \<Rightarrow> cards option \<Rightarrow> stream_state \<Rightarrow> workflow_result" where
  "fetch_streaming_data E wid ctl query action tid use_draft ab evs failure c st =
     (let st1 = set_streaming True (set_abort_controller (Some ctl) st);
          early = (ab = Some 0);
          post = PostRequest (if query \<noteq> [] then JObj [(''query'', JStr query)] else action)
            ([(''Content-Type'', ''application/json'')]
             @ (case tid of Some t \<Rightarrow> if t \<noteq> [] then [(''X-Thread-ID'', t)] else [] | None \<Rightarrow> [])
             @ (if use_draft then [(''X-Use-Draft'', ''true'')] else []));
          (outs, c1) = (if early then ([], c) else source_events E wid ab 0 evs c);
          outs1 = (if early then [] else post # outs);
          fail = (if early then Some (''Error'', ''Aborted'') else failure);
          (outs2, c2, err) =
            (case fail of
               None \<Rightarrow> ([], c1, None)
             | Some f \<Rightarrow>
                 if fst f = ''AbortError'' \<or> snd f = ''Aborted'' \<or> is_aborted ab (length evs)
                 then (let (o1, k1) = add_stream_message E wid ''stopped'' (JStr (we_stopped_html E)) True c1
                       in (o1, k1, None))
                 else (let (o1, k1) = add_stream_message E wid ''error''
                             (JStr (we_error_text E @ '': '' @ snd f)) True c1
                       in (o1, map_option (set_processing_complete True) k1, Some f)))
      in \<lparr>wr_effects = outs1 @ outs2, wr_cards = c2,
          wr_stream = set_abort_controller None (set_streaming False st1), wr_error = err\<rparr>)"

section \<open>The simulated stream\<close>

definition fake_message :: "workflow_env \<Rightarrow> string \<Rightarrow> jv \<Rightarrow> jv \<Rightarrow> workflow_effect" where
  "fake_message E wid title data = ChatMessage (JObj
     [(''message_options'', JObj [(''response_user_profile'', we_profile E)]),
      (''output'', JObj [(''generic'', JArr [JObj [(''id'', JStr (wid @ js_to_string (we_num E) title)),
         (''response_type'', JStr ''user_defined''),
         (''user_defined'', JObj [(''user_defined_type'', JStr ''my_unique_identifier''), (''data'', data),
            (''step_title'', title)])]])])])"

text \<open>
  The loop over the steps, whose names are strings; a stop during the delay of step
  \<open>n\<close> rejects the delay.  \<open>False\<close> says the loop was stopped.
\<close>

fun fake_workflow_steps ::
  "workflow_env \<Rightarrow> string \<Rightarrow> nat option \<Rightarrow> nat \<Rightarrow> (string \<times> jv) list \<Rightarrow> cards option
     \<Rightarrow> workflow_effect list \<times> cards option \<times> bool" where
  "fake_workflow_steps E wid ab k [] c = ([], c, True)"
| "fake_workflow_steps E wid ab k ((name, data) # sts) c =
     (if is_aborted ab k then ([], c, False)
      else
        let (cur, c1) = get_current_step name data c;
            out = (if c1 = None then [fake_message E wid (JStr name) cur] else []);
            c2 = map_option (\<lambda>x. render_cards (cards_add E name cur x)) c1;
            (outs, c3, done) = fake_workflow_steps E wid ab (Suc k) sts c2
        in (out @ outs, c3, done))"

definition fake_workflow ::
  "workflow_env \<Rightarrow> string \<Rightarrow> nat \<Rightarrow> nat option \<Rightarrow> stream_failure + (string \<times> jv) list \<Rightarrow> cards option \<Rightarrow> stream_state
     \<Rightarrow> workflow_result" where
  "fake_workflow E wid ctl ab reply c st =
     (let st1 = set_streaming True (set_abort_controller (Some ctl) st);
          (outs, c1, err) =
            (case reply of
               Inl f \<Rightarrow>
                 if fst f = ''AbortError'' \<or> is_aborted ab 0
                 then ([chat_text E (wid @ ''_stopped'') (we_stopped_fake_html E)], c, None)
                 else ([chat_text E (wid @ ''_error'') (we_error_text E @ '' while processing your request.'')], c, Some f)
             | Inr sts \<Rightarrow>
                 (let (outs, c1, done) = (if ab = Some 0 then ([], c, False) else fake_workflow_steps E wid ab 0 sts c)
                  in (outs @ (if done then [] else [chat_text E (wid @ ''_stopped'') (we_stopped_fake_html E)]), c1, None)))
      in \<lparr>wr_effects = outs, wr_cards = c1, wr_stream = set_abort_controller None (set_streaming False st1),
          wr_error = err\<rparr>)"

section \<open>The stream through the worker\<close>

text \<open>Waiting for the card component: when it is found, or \<open>None\<close> past the limit.\<close>

function wait_for_interface :: "(nat \<Rightarrow> bool) \<Rightarrow> nat \<Rightarrow> nat \<Rightarrow> nat \<Rightarrow> nat option" where
  "wait_for_interface ready timeout interval t =
     (if t < timeout
      then if ready t then Some t else wait_for_interface ready timeout interval (t + max 1 interval)
      else None)"
  by pat_completeness auto
termination by (relation "measure (\<lambda>(_, timeout, _, t). timeout - t)") auto

declare wait_for_interface.simps [simp del]

text \<open>\<open>raw.split(/\\r?\\n/)\<close>.\<close>

definition strip_cr :: "string \<Rightarrow> string" where
  "strip_cr l = (if l \<noteq> [] \<and> last l = CHR 0x0D then butlast l else l)"

definition split_lines :: "string \<Rightarrow> string list" where
  "split_lines s = (let ls = split_str [newline] s in map strip_cr (butlast ls) @ [last ls])"

definition sse_line :: "string \<times> string list \<Rightarrow> string \<Rightarrow> string \<times> string list" where
  "sse_line p line =
     (if starts_with line ''event:'' then (trim (drop 6 line), snd p)
      else if starts_with line ''data:'' then (fst p, snd p @ [trim (drop 5 line)])
      else if trim line \<noteq> [] then (fst p, snd p @ [trim line])
      else p)"

definition parse_sse_content :: "string \<Rightarrow> string \<times> string" where
  "parse_sse_content raw =
     (let (name, ls) = foldl sse_line (''Message'', []) (split_lines raw) in (name, join [newline] ls))"

record side_state =
  sd_cards :: "cards option"
  sd_stopped :: bool
  sd_listening :: bool
  sd_text :: string

definition agent_response :: "workflow_env \<Rightarrow> string \<Rightarrow> side_state \<Rightarrow> side_state" where
  "agent_response E raw s =
     (let (name, data) = parse_sse_content raw;
          s1 = (case sd_cards s of
                  Some c \<Rightarrow>
                    if \<not> sd_stopped s \<and> \<not> is_processing_stopped c
                    then (let (cur, c1) = get_current_step name (JStr data) (Some c)
                          in if \<not> truthy cur then s\<lparr>sd_cards := c1\<rparr>
                             else if name = ''Stopped''
                             then s\<lparr>sd_cards := map_option stop_processing c1, sd_stopped := True\<rparr>
                             else if \<not> (\<exists>x \<in> set_option c1. has_step_with_title name x)
                             then s\<lparr>sd_cards := map_option (cards_add E name cur) c1\<rparr>
                             else s\<lparr>sd_cards := c1\<rparr>)
                    else s
                | None \<Rightarrow> s)
      in s1\<lparr>sd_text := sd_text s1 @ data\<rparr>)"

definition finish_side :: "side_state \<Rightarrow> side_state" where
  "finish_side s =
     s\<lparr>sd_cards := (if \<not> sd_stopped s then map_option (set_processing_complete True) (sd_cards s) else sd_cards s),
       sd_listening := False\<rparr>"

text \<open>
  The listener, with the rendering that follows a message.  Content that is not a string
  makes it throw, which changes nothing.
\<close>

definition side_listener :: "workflow_env \<Rightarrow> side_state \<Rightarrow> jv \<Rightarrow> side_state" where
  "side_listener E s message =
     (if \<not> sd_listening s \<or> \<not> truthy message \<or> fld message ''source'' \<noteq> JStr ''background'' then s
      else
        let s1 =
          (if fld message ''type'' = JStr ''agent_response''
           then (case js_nullor (fld message ''content'') (JStr []) of
                   JStr raw \<Rightarrow> agent_response E raw s | _ \<Rightarrow> s)
           else if fld message ''type'' = JStr ''agent_complete'' then finish_side s
           else if fld message ''type'' = JStr ''agent_error''
           then finish_side (s\<lparr>sd_cards := map_option (cards_add E ''Error Occurred''
                  (JStr (''An error occurred during processing: ''
                     @ js_to_string (we_num E) (fld message ''message'')))) (sd_cards s)\<rparr>)
           else s)
        in s1\<lparr>sd_cards := map_option render_cards (sd_cards s1)\<rparr>)"

text \<open>
  \<open>streamViaBackground\<close>: what it does before the first message, \<open>None\<close> for an empty
  query, and what the answer to its own message does: an error ends the processing, and
  the listener stays.
\<close>

definition stream_via_background :: "workflow_env \<Rightarrow> string \<Rightarrow> cards option \<Rightarrow> (side_state \<times> jv) option" where
  "stream_via_background E query c =
     (if trim query = [] then None
      else Some (\<lparr>sd_cards = map_option (\<lambda>x. render_cards (cards_add E ''Connection Established''
                      (JStr ''Processing request and preparing response...'') x)) c,
                  sd_stopped = False, sd_listening = True, sd_text = []\<rparr>,
                JObj [(''source'', JStr ''popup''), (''type'', JStr ''send_agent_query''), (''query'', JStr query)]))"

definition dispatch_answered :: "workflow_env \<Rightarrow> exn + jv \<Rightarrow> side_state \<Rightarrow> side_state" where
  "dispatch_answered E answer s =
     (let fail = (\<lambda>txt. s\<lparr>sd_cards := map_option (\<lambda>c. render_cards (set_processing_complete True
                       (cards_add E ''Error Occurred'' txt c))) (sd_cards s)\<rparr>)
      in case answer of
           Inl m \<Rightarrow> fail (JStr (''An error occurred: '' @ (if m \<noteq> [] then m else ''Failed to dispatch query'')))
         | Inr r \<Rightarrow> if opt_prop r ''type'' = JStr ''error''
                    then fail (js_or (fld r ''message'') (JStr ''Background error'')) else s)"

section \<open>Sending a message\<close>

record card_manager_state =
  cm_show :: bool
  cm_instance :: bool

definition set_card_manager_state :: "bool \<Rightarrow> bool \<Rightarrow> card_manager_state \<Rightarrow> card_manager_state" where
  "set_card_manager_state b inst s = s\<lparr>cm_show := b, cm_instance := (inst \<or> cm_instance s)\<rparr>"

definition reset_card_manager_state :: "card_manager_state \<Rightarrow> card_manager_state" where
  "reset_card_manager_state s = \<lparr>cm_show = False, cm_instance = False\<rparr>"

text \<open>What a message is rendered as: \<open>Some True\<close> for the cards, \<open>Some False\<close> for nothing.\<close>

definition render_user_defined :: "jv \<Rightarrow> card_manager_state \<Rightarrow> bool option" where
  "render_user_defined item s =
     (if truthy item \<and> opt_prop (fld item ''user_defined'') ''user_defined_type'' = JStr ''my_unique_identifier''
      then Some (cm_show s \<and> cm_instance s \<and> truthy (fld (fld item ''user_defined'') ''isCardManager''))
      else None)"

definition welcome_message :: "workflow_env \<Rightarrow> workflow_effect" where
  "welcome_message E = ChatMessage (JObj
     [(''message_options'', JObj [(''response_user_profile'', we_profile E)]),
      (''output'', JObj [(''generic'', JArr [JObj [(''response_type'', JStr ''text''), (''text'', JStr (we_welcome E))]])])])"

definition host_message :: "workflow_env \<Rightarrow> string \<Rightarrow> workflow_effect" where
  "host_message E ident = ChatMessage (JObj
     [(''message_options'', JObj [(''response_user_profile'', we_profile E)]),
      (''output'', JObj [(''generic'', JArr [JObj [(''id'', JStr ident), (''response_type'', JStr ''user_defined''),
         (''user_defined'', JObj [(''user_defined_type'', JStr ''my_unique_identifier''),
            (''isCardManager'', JBool True)])]])])])"


text \<open>
  What a request meets: the simulated stream when it is switched on, the abort controller,
  the stop, the events and the failure of the source.
\<close>

record workflow_world =
  wd_fake :: "(stream_failure + (string \<times> jv) list) option"
  wd_controller :: nat
  wd_stop :: "nat option"
  wd_events :: "source_event list"
  wd_failure :: "stream_failure option"

definition workflow_request ::
  "workflow_env \<Rightarrow> workflow_world \<Rightarrow> string \<Rightarrow> string \<Rightarrow> cards option \<Rightarrow> stream_state \<Rightarrow> workflow_result" where
  "workflow_request E w wid query c st =
     (case wd_fake w of
        Some reply \<Rightarrow> fake_workflow E wid (wd_controller w) (wd_stop w) reply c st
      | None \<Rightarrow> fetch_streaming_data E wid (wd_controller w) query JNull None False (wd_stop w) (wd_events w)
                  (wd_failure w) c st)"

definition only_effects :: "workflow_effect list \<Rightarrow> cards option \<Rightarrow> stream_state \<Rightarrow> workflow_result" where
  "only_effects out c st = \<lparr>wr_effects = out, wr_cards = c, wr_stream = st, wr_error = None\<rparr>"

text \<open>\<open>customSendMessage\<close>: \<open>input\<close> is the text of the request, \<open>ident\<close> names the host message.\<close>

definition chat_send_message ::
  "workflow_env \<Rightarrow> workflow_world \<Rightarrow> string \<Rightarrow> string \<Rightarrow> string option \<Rightarrow> cards option \<Rightarrow> stream_state
     \<Rightarrow> card_manager_state \<Rightarrow> workflow_result \<times> card_manager_state" where
  "chat_send_message E w ident wid input c st cm =
     (if input = Some [] then (only_effects [welcome_message E] c st, cm)
      else
        let r = workflow_request E w wid (case input of Some q \<Rightarrow> q | None \<Rightarrow> []) c st
        in (r\<lparr>wr_effects := host_message E ident # wr_effects r\<rparr>,
            set_card_manager_state True True (reset_card_manager_state cm)))"

text \<open>\<open>customStreamMessage\<close>, up to the first message of the worker.\<close>

definition chat_stream_message ::
  "workflow_env \<Rightarrow> string option \<Rightarrow> cards option \<Rightarrow> workflow_effect list \<times> (side_state \<times> jv) option" where
  "chat_stream_message E input c =
     (if input = Some [] then ([welcome_message E], None)
      else ([], stream_via_background E (case input of Some q \<Rightarrow> q | None \<Rightarrow> []) c))"

section \<open>What the worker's stream shows\<close>

text \<open>
  The contract of the listener, over what a user sees: the titles of the steps, whether
  the processing is over and whether the listener is still there.
\<close>

type_synonym side_view = "string list \<times> bool \<times> bool"

definition side_abs :: "side_state \<Rightarrow> side_view option" where
  "side_abs s = map_option (\<lambda>c. (map kd_title (ca_steps c), ca_complete c, sd_listening s)) (sd_cards s)"

definition side_ok :: "side_state \<Rightarrow> bool" where
  "side_ok s \<longleftrightarrow> (case sd_cards s of Some c \<Rightarrow> rendered c \<and> (sd_stopped s \<longrightarrow> ca_complete c) | None \<Rightarrow> False)"

definition view_response :: "string \<Rightarrow> side_view \<Rightarrow> side_view" where
  "view_response raw v =
     (let (ts, fin, on) = v; (name, data) = parse_sse_content raw
      in if fin \<or> name = ''__interrupt__'' then v
         else if name = ''Stopped'' then (ts, True, on)
         else if data = [] \<or> name \<in> set ts then v
         else (ts @ [name], fin, on))"

fun side_view :: "side_view \<Rightarrow> jv \<Rightarrow> side_view" where
  "side_view (ts, fin, on) d =
     (if \<not> on \<or> fld d ''source'' \<noteq> JStr ''background'' then (ts, fin, on)
      else if fld d ''type'' = JStr ''agent_response''
      then (case js_nullor (fld d ''content'') (JStr []) of
              JStr raw \<Rightarrow> view_response raw (ts, fin, on) | _ \<Rightarrow> (ts, fin, on))
      else if fld d ''type'' = JStr ''agent_complete'' then (ts, True, False)
      else if fld d ''type'' = JStr ''agent_error'' then (ts @ [''Error Occurred''], True, False)
      else (ts, fin, on))"

text \<open>The messages that end the listener, and those that stop the processing.\<close>

definition closes :: "jv \<Rightarrow> bool" where
  "closes m \<longleftrightarrow> fld m ''source'' = JStr ''background''
     \<and> (fld m ''type'' = JStr ''agent_complete'' \<or> fld m ''type'' = JStr ''agent_error'')"

definition stops :: "jv \<Rightarrow> bool" where
  "stops m \<longleftrightarrow> fld m ''source'' = JStr ''background'' \<and> fld m ''type'' = JStr ''agent_response''
     \<and> (case js_nullor (fld m ''content'') (JStr []) of JStr raw \<Rightarrow> fst (parse_sse_content raw) = ''Stopped'' | _ \<Rightarrow> False)"

lemma view_response_stop:
  "snd (view_response raw (ts, fin, on)) = (fin \<or> fst (parse_sse_content raw) = ''Stopped'', on)"
  by (auto simp: view_response_def split: prod.split)

lemma side_view_ends:
  "snd (side_view (ts, fin, True) m) = (if closes m then (True, False) else (fin \<or> stops m, True))"
proof (cases "fld m ''source'' = JStr ''background'' \<and> fld m ''type'' = JStr ''agent_response''")
  case True
  then show ?thesis
    by (cases "js_nullor (fld m ''content'') (JStr [])") (simp_all add: closes_def stops_def view_response_stop)
next
  case False
  then show ?thesis by (cases "fld m ''source'' = JStr ''background''") (simp_all add: closes_def stops_def)
qed

lemma side_view_off: "foldl side_view (ts, fin, False) ms = (ts, fin, False)"
  by (induction ms) simp_all

lemma side_views_end:
  "foldl side_view (ts, fin, True) ms = (us, over, on) \<Longrightarrow>
     on = (\<not> list_ex closes ms) \<and> (on \<longrightarrow> over = (fin \<or> list_ex stops ms)) \<and> (\<not> on \<longrightarrow> over)"
proof (induction ms arbitrary: ts fin)
  case (Cons m ms)
  obtain ts1 where v: "side_view (ts, fin, True) m = (ts1, if closes m then (True, False) else (fin \<or> stops m, True))"
    using side_view_ends [of ts fin m] by (cases "side_view (ts, fin, True) m") (simp del: side_view.simps)
  show ?case
  proof (cases "closes m")
    case True
    then have "foldl side_view (ts, fin, True) (m # ms) = (ts1, True, False)"
      using v side_view_off [of ts1 True ms] by (simp del: side_view.simps)
    then show ?thesis using Cons.prems True by simp
  next
    case False
    then have "foldl side_view (ts, fin, True) (m # ms) = foldl side_view (ts1, fin \<or> stops m, True) ms"
      using v by (simp del: side_view.simps)
    then show ?thesis using Cons.prems Cons.IH [of ts1 "fin \<or> stops m"] False by simp
  qed
qed simp

lemma cards_add_view [simp]:
  "map kd_title (ca_steps (cards_add E title x c)) = map kd_title (ca_steps c) @ [title]"
  "ca_complete (cards_add E title x c) = ca_complete c"
  by (simp_all add: cards_add_def Let_def add_step_steps)

lemma render_view [simp]:
  "ca_steps (render_cards c) = ca_steps c" "ca_complete (render_cards c) = ca_complete c"
  by (simp_all add: render_cards_def)

lemma stop_view [simp]: "ca_steps (stop_processing c) = ca_steps c" "ca_complete (stop_processing c)"
  by (simp_all add: stop_processing_def)

lemma complete_view [simp]:
  "ca_steps (set_processing_complete b c) = ca_steps c" "ca_complete (set_processing_complete b c) = b"
  by (simp_all add: set_processing_complete_def)

lemma has_step_view: "rendered c \<Longrightarrow> has_step_with_title n c \<longleftrightarrow> n \<in> set (map kd_title (ca_steps c))"
  by (auto simp: rendered_def has_step_with_title_def list_ex_iff)

lemma stopped_view: "rendered c \<Longrightarrow> is_processing_stopped c = ca_complete c"
  by (simp add: rendered_def is_processing_stopped_def)

lemma agent_response_view:
  assumes "side_ok s" "side_abs s = Some v"
  shows "side_abs (agent_response E raw s) = Some (view_response raw v)"
    and "\<exists>c. sd_cards (agent_response E raw s) = Some c \<and> (sd_stopped (agent_response E raw s) \<longrightarrow> ca_complete c)"
proof -
  obtain c where c: "sd_cards s = Some c" "rendered c" "sd_stopped s \<longrightarrow> ca_complete c"
    using assms(1) by (auto simp: side_ok_def split: option.splits)
  have v: "v = (map kd_title (ca_steps c), ca_complete c, sd_listening s)"
    using assms(2) c(1) by (simp add: side_abs_def)
  obtain name data where p: "parse_sse_content raw = (name, data)" by fastforce
  have "side_abs (agent_response E raw s) = Some (view_response raw v)
    \<and> (\<exists>c. sd_cards (agent_response E raw s) = Some c \<and> (sd_stopped (agent_response E raw s) \<longrightarrow> ca_complete c))"
  proof (cases "ca_complete c")
    case True
    then show ?thesis
      using c p by (auto simp: agent_response_def view_response_def v side_abs_def stopped_view)
  next
    case False
    then show ?thesis
      using c p has_step_view [OF c(2), of name]
      by (simp add: agent_response_def view_response_def v side_abs_def stopped_view get_current_step_def)
  qed
  then show "side_abs (agent_response E raw s) = Some (view_response raw v)"
    "\<exists>c. sd_cards (agent_response E raw s) = Some c \<and> (sd_stopped (agent_response E raw s) \<longrightarrow> ca_complete c)"
    by blast+
qed


lemma render_side: "side_abs (s\<lparr>sd_cards := map_option render_cards (sd_cards s)\<rparr>) = side_abs s"
  by (cases "sd_cards s") (simp_all add: side_abs_def)

lemma side_listener_step:
  assumes "side_ok s" "side_abs s = Some v"
  shows "side_ok (side_listener E s m) \<and> side_abs (side_listener E s m) = Some (side_view v m)"
proof (cases "sd_listening s \<and> fld m ''source'' = JStr ''background''")
  case False
  then have "side_listener E s m = s" by (auto simp: side_listener_def)
  moreover have "side_view v m = v" using assms(2) False by (auto simp: side_abs_def)
  ultimately show ?thesis using assms(1,2) by simp
next
  case True
  obtain c where c: "sd_cards s = Some c" "rendered c" "sd_stopped s \<longrightarrow> ca_complete c"
    using assms(1) by (auto simp: side_ok_def split: option.splits)
  have v: "v = (map kd_title (ca_steps c), ca_complete c, True)"
    using assms(2) c(1) True by (simp add: side_abs_def)
  have t: "truthy m" using True by (cases m) auto
  consider (response) raw where "fld m ''type'' = JStr ''agent_response''" "js_nullor (fld m ''content'') (JStr []) = JStr raw"
    | (other) "fld m ''type'' = JStr ''agent_response''" "\<nexists>raw. js_nullor (fld m ''content'') (JStr []) = JStr raw"
    | (rest) "fld m ''type'' \<noteq> JStr ''agent_response''" by blast
  then show ?thesis
  proof cases
    case response
    then have l: "side_listener E s m =
        (agent_response E raw s)\<lparr>sd_cards := map_option render_cards (sd_cards (agent_response E raw s))\<rparr>"
      using True t by (simp add: side_listener_def Let_def)
    have "side_view v m = view_response raw v" using response v True by simp
    then show ?thesis
      using agent_response_view [OF assms(1,2), of E raw] unfolding l
      by (auto simp: render_side side_ok_def)
  next
    case other
    then have l: "side_listener E s m = s\<lparr>sd_cards := map_option render_cards (sd_cards s)\<rparr>"
      using True t by (auto simp: side_listener_def split: jv.splits)
    moreover have "side_view v m = v" using other v by (auto split: jv.splits)
    ultimately show ?thesis using assms(2) c render_side [of s] by (simp add: side_ok_def)
  next
    case rest
    then show ?thesis
      using True t c by (auto simp: side_listener_def v side_abs_def side_ok_def finish_side_def)
  qed
qed

lemma side_listener_steps:
  assumes "side_ok s" "side_abs s = Some v"
  shows "side_ok (foldl (side_listener E) s ms) \<and> side_abs (foldl (side_listener E) s ms) = Some (foldl side_view v ms)"
  using assms
proof (induction ms arbitrary: s v)
  case (Cons m ms)
  then show ?case using side_listener_step [OF Cons.prems(1,2), of E m] Cons.IH by simp
qed simp

lemma dispatch_answered_view:
  assumes "side_abs s = Some (ts, fin, on)"
  shows "side_abs (dispatch_answered E (Inr r) s) = Some
     (if opt_prop r ''type'' = JStr ''error'' then (ts @ [''Error Occurred''], True, on) else (ts, fin, on))"
  using assms by (auto simp: dispatch_answered_def side_abs_def Let_def)

definition answer_of :: "exn + jv \<Rightarrow> jv" where
  "answer_of res = (case res of Inr x \<Rightarrow> x | Inl e \<Rightarrow> error_obj e)"

lemma popup_agent_query:
  assumes "hs_connected hs" "handle_agent_query ch parse body rid (JStr query) [] = (res, t)"
  shows "popup_listener ch parse body rid hs
     (JObj [(''source'', JStr ''popup''), (''type'', JStr ''send_agent_query''), (''query'', JStr query)]) []
     = Some (answer_of res, t)"
  using assms by (cases res) (simp_all add: popup_listener_def handle_popup_message_def answer_of_def)

lemma answer_of_outcome:
  "opt_prop (answer_of (map_sum err_text id (agent_outcome err fin))) ''type'' = JStr ''error''
     \<longleftrightarrow> \<not> fin \<and> err \<noteq> None"
  by (auto simp: answer_of_def agent_outcome_def query_success_def opt_prop_def error_obj_def split: option.split)

text \<open>The messages a trace sends to the other parts of the extension.\<close>

definition sent_messages :: "call list \<Rightarrow> jv list" where
  "sent_messages t = concat (map (\<lambda>c. case c of RuntimeSend m \<Rightarrow> [m] | _ \<Rightarrow> []) t)"

lemma sent_messages_sends: "sent_messages (sends ds) = map envelope ds"
  by (induction ds) (simp_all add: sent_messages_def)

text \<open>
  A query from the chat to its cards: what the chat asks, what the worker forwards of the
  server's answer, what the listener shows of it, and what the worker's own answer adds.
\<close>

definition side_query ::
  "workflow_env \<Rightarrow> chrome \<Rightarrow> (string \<Rightarrow> exn + jv) \<Rightarrow> (jv \<Rightarrow> body_stream option) \<Rightarrow> string \<Rightarrow> http_state
     \<Rightarrow> string \<Rightarrow> cards \<Rightarrow> side_view option" where
  "side_query E ch parse body rid hs query c =
     (case stream_via_background E query (Some c) of
        None \<Rightarrow> None
      | Some (s, m) \<Rightarrow>
          (case popup_listener ch parse body rid hs m [] of
             None \<Rightarrow> None
           | Some (response, t) \<Rightarrow>
               side_abs (dispatch_answered E (Inr response) (foldl (side_listener E) s (sent_messages t)))))"

text \<open>
  C21. What a query that is not blank shows, when the worker is connected and the server
  answers with a stream, from the chat through the worker back to the cards: after the
  first step, one step for each new title among the events forwarded, up to a message that
  closes the query or stops the processing.  The listener is removed exactly if a closing
  message is forwarded.  If none is, the listener stays, and the processing is over only if it
  was before, if an event Stopped was forwarded, or if the stream broke off before the line
  that ends it: a stream that just ends leaves both running.
\<close>

theorem query_steps_shown:
  assumes "trim query \<noteq> []" "hs_connected hs"
    and "ch_answer ch [] (Fetch (server_base @ ''/extension/agent_query'')
      (JObj [(''query'', JStr query), (''request_id'', JStr rid)])) = Inr response"
    and "truthy (fld response ''ok'')" "body response = Some b"
    and "split_str [newline] (concat (bs_chunks b)) = lines @ [rest]"
    and "agent_payloads parse lines = (ds, fin)"
    and "ms = map envelope (ds @ final_payload parse (bs_error b) fin rest)"
    and "foldl side_view (map kd_title (ca_steps c) @ [''Connection Established''], ca_complete c, True) ms = (ts, over, on)"
  shows "side_query E ch parse body rid hs query c =
     Some (if \<not> fin \<and> bs_error b \<noteq> None then (ts @ [''Error Occurred''], True, on) else (ts, over, on))
     \<and> (on \<longleftrightarrow> \<not> list_ex closes ms)
     \<and> (on \<longrightarrow> (over \<longleftrightarrow> ca_complete c \<or> list_ex stops ms))"
proof -
  let ?ds = "ds @ final_payload parse (bs_error b) fin rest"
  let ?m = "JObj [(''source'', JStr ''popup''), (''type'', JStr ''send_agent_query''), (''query'', JStr query)]"
  let ?s = "\<lparr>sd_cards = Some (render_cards (cards_add E ''Connection Established''
      (JStr ''Processing request and preparing response...'') c)), sd_stopped = False, sd_listening = True, sd_text = []\<rparr>"
  let ?r = "answer_of (map_sum err_text id (agent_outcome (bs_error b) fin))"
  note h = handle_agent_query_fed [where body = body and response = response, OF assms(3-5) feed_lines_split [OF assms(6)] assms(7)]
  note rt = popup_agent_query [OF assms(2) h]
  have sent: "sent_messages ([] @ Fetch u x # sends ?ds) = ms" for u x
    using sent_messages_sends [of ?ds] assms(8) by (simp add: sent_messages_def)
  have "side_abs (foldl (side_listener E) ?s ms) = Some (ts, over, on)"
    using side_listener_steps [of ?s _ E ms] assms(9) by (simp add: side_ok_def side_abs_def)
  from dispatch_answered_view [OF this, of E ?r]
  have "side_query E ch parse body rid hs query c =
      Some (if \<not> fin \<and> bs_error b \<noteq> None then (ts @ [''Error Occurred''], True, on) else (ts, over, on))"
    using assms(1) by (simp only: side_query_def stream_via_background_def rt sent answer_of_outcome if_False
      option.case prod.case option.map)
  then show ?thesis using side_views_end [OF assms(9)] by blast
qed


definition demo_line :: "string \<Rightarrow> exn + jv" where
  "demo_line l = (if l = ''go''
     then Inr (JObj [(''type'', JStr ''agent_response''), (''content'', JStr (''event: Plan'' @ [newline] @ ''data: x''))])
     else Inl ''Unexpected token'')"

definition demo_workflow :: workflow_env where
  "demo_workflow = \<lparr>we_num = \<lambda>_. ''0'', we_stringify = \<lambda>_. [], we_id = \<lambda>_. ''i'', we_now = \<lambda>_. 0, we_profile = JUndef,
     we_stopped_html = [], we_stopped_fake_html = [], we_error_text = [], we_welcome = []\<rparr>"

definition demo_connected :: http_state where
  "demo_connected = \<lparr>hs_source = True, hs_connected = True, hs_pending = [], hs_listeners = 1\<rparr>"

theorem query_steps_shown_witness:
  "side_query demo_workflow demo_server demo_line
     (\<lambda>_. Some \<lparr>bs_chunks = [''g'', ''o'' @ [newline] @ ''go'' @ [newline]], bs_error = None\<rparr>) ''r''
     demo_connected ''q'' cards_init
   = Some ([''Connection Established'', ''Plan''], False, True)"
proof -
  let ?d = "JObj [(''type'', JStr ''agent_response''), (''content'', JStr (''event: Plan'' @ [newline] @ ''data: x''))]"
  have s: "split_str [newline] (''go'' @ [newline] @ ''go'' @ [newline]) = [''go'', ''go''] @ [[]]"
    by (simp add: newline_def)
  have p: "agent_payloads demo_line [''go'', ''go''] = ([?d, ?d], False)"
    by (simp add: payload_def demo_line_def agent_done_def trim_def trim_start_def is_ws_def)
  have f: "final_payload demo_line None False [] = []" by (simp add: final_payload_def payload_def trim_def trim_start_def)
  have e: "parse_sse_content (''event: Plan'' @ [newline] @ ''data: x'') = (''Plan'', ''x'')"
    by (simp add: parse_sse_content_def split_lines_def strip_cr_def sse_line_def newline_def starts_with_def
        trim_def trim_start_def is_ws_def)
  have v: "foldl side_view ([''Connection Established''], False, True) [envelope ?d, envelope ?d] =
      ([''Connection Established'', ''Plan''], False, True)"
    using e by (simp add: view_response_def js_nullor_def envelope_def spread_def)
  let ?b = "\<lparr>bs_chunks = [''g'', ''o'' @ [newline] @ ''go'' @ [newline]], bs_error = None\<rparr>"
  have "side_query demo_workflow demo_server demo_line (\<lambda>_. Some ?b) ''r'' demo_connected ''q'' cards_init
    = Some (if \<not> False \<and> bs_error ?b \<noteq> None then ([''Connection Established'', ''Plan''] @ [''Error Occurred''], True, True)
        else ([''Connection Established'', ''Plan''], False, True))
    \<and> (True \<longleftrightarrow> \<not> list_ex closes [envelope ?d, envelope ?d])
    \<and> (True \<longrightarrow> (False \<longleftrightarrow> ca_complete cards_init \<or> list_ex stops [envelope ?d, envelope ?d]))"
  proof (rule query_steps_shown [where response = "JObj [(''ok'', JBool True)]" and b = ?b
        and lines = "[''go'', ''go'']" and rest = "[]" and ds = "[?d, ?d]"])
    show "trim ''q'' \<noteq> []" by (simp add: trim_def trim_start_def is_ws_def)
    show "split_str [newline] (concat (bs_chunks ?b)) = [''go'', ''go''] @ [[]]" using s by simp
    show "[envelope ?d, envelope ?d] = map envelope ([?d, ?d] @ final_payload demo_line (bs_error ?b) False [])"
      using f by simp
    show "foldl side_view (map kd_title (ca_steps cards_init) @ [''Connection Established''], ca_complete cards_init, True)
        [envelope ?d, envelope ?d] = ([''Connection Established'', ''Plan''], False, True)"
      using v by (simp add: cards_init_def del: foldl_Cons)
  qed (use p in \<open>simp_all add: demo_server_def demo_connected_def\<close>)
  then show ?thesis by simp
qed

section \<open>What a request to the server shows\<close>

definition shown_event :: "source_event \<Rightarrow> string list" where
  "shown_event ev =
     (case ev of SourceMessage name data \<Rightarrow> if name \<noteq> ''__interrupt__'' \<and> truthy data then [name] else [] | _ \<Rightarrow> [])"

definition before_stop :: "nat option \<Rightarrow> 'a list \<Rightarrow> 'a list" where
  "before_stop ab evs = (case ab of Some n \<Rightarrow> take n evs | None \<Rightarrow> evs)"

lemma get_current_step_titles:
  "map kd_title (ca_steps c1) = map kd_title (ca_steps c) \<and> cur = (if name = ''__interrupt__'' then JUndef else data)"
  if "get_current_step name data (Some c) = (cur, Some c1)"
  using that by (auto simp: get_current_step_def split: if_splits)

lemma get_current_step_some: "\<exists>c1. get_current_step name data (Some c) = (fst (get_current_step name data (Some c)), Some c1)"
  by (simp add: get_current_step_def)

lemma source_event_step_titles:
  "\<exists>c'. snd (source_event_step E wid stopped ev (Some c)) = Some c'
     \<and> map kd_title (ca_steps c') = map kd_title (ca_steps c) @ (if stopped then [] else shown_event ev)"
proof (cases ev)
  case (SourceMessage name data)
  obtain cur c1 where g: "get_current_step name data (Some c) = (cur, Some c1)"
    using get_current_step_some by metis
  show ?thesis
    using get_current_step_titles [OF g] g
    by (auto simp: SourceMessage source_event_step_def shown_event_def add_stream_message_def)
qed (auto simp: source_event_step_def shown_event_def add_stream_message_def)

lemma source_events_titles:
  "\<exists>c'. snd (source_events E wid ab k evs (Some c)) = Some c'
     \<and> map kd_title (ca_steps c') = map kd_title (ca_steps c)
       @ concat (map shown_event (before_stop (map_option (\<lambda>n. n - k) ab) evs))"
proof (induction evs arbitrary: k c)
  case Nil
  show ?case by (simp add: before_stop_def split: option.split)
next
  case (Cons ev evs)
  obtain c1 where 1: "snd (source_event_step E wid (is_aborted ab k) ev (Some c)) = Some c1"
    "map kd_title (ca_steps c1) = map kd_title (ca_steps c) @ (if is_aborted ab k then [] else shown_event ev)"
    using source_event_step_titles by metis
  obtain c2 where 2: "snd (source_events E wid ab (Suc k) evs (Some (render_cards c1))) = Some c2"
    "map kd_title (ca_steps c2) = map kd_title (ca_steps (render_cards c1))
       @ concat (map shown_event (before_stop (map_option (\<lambda>n. n - Suc k) ab) evs))"
    using Cons.IH by metis
  have "concat (map shown_event (before_stop (map_option (\<lambda>n. n - k) ab) (ev # evs))) =
      (if is_aborted ab k then [] else shown_event ev)
      @ concat (map shown_event (before_stop (map_option (\<lambda>n. n - Suc k) ab) evs))"
    by (auto simp: before_stop_def is_aborted_def take_Cons' split: option.split)
  then show ?case
    using 1 2 by (auto simp: split_beta split: prod.splits)
qed

text \<open>
  C22. A request to the server adds one step for each event that came before the stop and is
  neither an interruption nor empty, in order and repeated titles included; whatever
  happens, the streaming flag is cleared and the abort controller forgotten; it fails only
  with the failure of the source when nobody stopped it, and then the processing is over.
\<close>

theorem request_steps_shown:
  assumes "wd_fake w = None"
  shows "(\<exists>c'. wr_cards (workflow_request E w wid query (Some c) st) = Some c'
      \<and> map kd_title (ca_steps c') = map kd_title (ca_steps c) @ concat (map shown_event (before_stop (wd_stop w) (wd_events w)))
      \<and> (wr_error (workflow_request E w wid query (Some c) st) \<noteq> None \<longrightarrow> ca_complete c'))
    \<and> \<not> tm_streaming (wr_stream (workflow_request E w wid query (Some c) st))
    \<and> tm_controller (wr_stream (workflow_request E w wid query (Some c) st)) = None
    \<and> wr_error (workflow_request E w wid query (Some c) st) =
       (case wd_failure w of
          Some f \<Rightarrow> if fst f = ''AbortError'' \<or> snd f = ''Aborted'' \<or> is_aborted (wd_stop w) (length (wd_events w))
                    then None else Some f
        | None \<Rightarrow> None)"
proof -
  obtain c' where c': "snd (source_events E wid (wd_stop w) 0 (wd_events w) (Some c)) = Some c'"
    "map kd_title (ca_steps c') = map kd_title (ca_steps c) @ concat (map shown_event (before_stop (wd_stop w) (wd_events w)))"
    using source_events_titles [of E wid "wd_stop w" 0 "wd_events w" c] by (auto simp: option.map_ident)
  have early: "wd_stop w = Some 0 \<Longrightarrow> concat (map shown_event (before_stop (wd_stop w) (wd_events w))) = []"
    by (simp add: before_stop_def)
  show ?thesis
    using c' early assms
    by (auto simp: workflow_request_def fetch_streaming_data_def Let_def split_beta add_stream_message_def
        set_streaming_def set_abort_controller_def is_aborted_def split: option.split prod.splits)
qed

theorem request_steps_shown_witness:
  "wr_error (workflow_request demo_workflow \<lparr>wd_fake = None, wd_controller = 1, wd_stop = None,
     wd_events = [SourceOpen, SourceMessage ''Plan'' (JStr ''x''), SourceMessage ''Plan'' (JStr ''y'')],
     wd_failure = Some (''Error'', ''gone'')\<rparr> ''w'' ''q'' (Some cards_init)
     \<lparr>tm_streaming = False, tm_listeners = [], tm_controller = None, tm_aborted = [], tm_told = []\<rparr>) = Some (''Error'', ''gone'')"
  using request_steps_shown [of "\<lparr>wd_fake = None, wd_controller = 1, wd_stop = None,
     wd_events = [SourceOpen, SourceMessage ''Plan'' (JStr ''x''), SourceMessage ''Plan'' (JStr ''y'')],
     wd_failure = Some (''Error'', ''gone'')\<rparr>" demo_workflow "''w''" "''q''" cards_init
     "\<lparr>tm_streaming = False, tm_listeners = [], tm_controller = None, tm_aborted = [], tm_told = []\<rparr>"]
  by (simp add: is_aborted_def)

end
