(* ===== verification/Followup.thy ===== *)
theory Followup
  imports Card_View Workflow_Stream
begin

text \<open>
  The actions the agent asks the user for: \<open>agentic_chat/src/Followup.tsx\<close>, a form for a
  text, a choice, a button or an approval, and how the cards of \<open>CardManager.tsx\<close> contain
  it.  The form is a component with a state of its own, which lives as long as it
  is drawn at the same place: the second part joins the cards with the forms that
  are mounted in them.  Patterns, clocks and the description of the browser are arguments.
\<close>

record action_env =
  ae_num :: "rat \<Rightarrow> string"
  ae_iso :: "rat \<Rightarrow> string"                      \<comment> \<open>\<open>toISOString\<close>\<close>
  ae_client :: jv                                 \<comment> \<open>\<open>client_info\<close>\<close>
  ae_matches :: "jv \<Rightarrow> string \<Rightarrow> exn + bool"     \<comment> \<open>\<open>new RegExp(p).test(s)\<close>\<close>

section \<open>The form\<close>

record action_form =
  fo_response :: string
  fo_selected :: "jv list"
  fo_submitted :: bool
  fo_waiting :: bool
  fo_start :: rat

definition form_mounted :: "rat \<Rightarrow> action_form" where
  "form_mounted now = \<lparr>fo_response = [], fo_selected = [], fo_submitted = False, fo_waiting = True, fo_start = now\<rparr>"

definition min_selections :: "jv \<Rightarrow> rat" where
  "min_selections p = js_num (with_default (fld p ''min_selections'') (JNum 1))"

definition is_required :: "jv \<Rightarrow> bool" where
  "is_required p \<longleftrightarrow> truthy (with_default (fld p ''required'') (JBool True))"

definition at_most_selected :: "jv \<Rightarrow> action_form \<Rightarrow> bool" where
  "at_most_selected p f \<longleftrightarrow>
     truthy (fld p ''max_selections'') \<and> js_num (fld p ''max_selections'') \<le> of_nat (length (fo_selected f))"

text \<open>\<open>(options || [])\<close>, which has to be an array.\<close>

definition action_options :: "jv \<Rightarrow> exn + jv list" where
  "action_options p =
     (case js_or (fld p ''options'') (JArr []) of JArr os \<Rightarrow> Inr os | _ \<Rightarrow> Inl ''(options || []).filter is not a function'')"

definition selected_options :: "jv \<Rightarrow> jv list \<Rightarrow> exn + jv list" where
  "selected_options p vs =
     try_bind (action_options p) (\<lambda>os.
       try_filter (\<lambda>opt. try_bind (get_prop opt ''value'') (\<lambda>v. Inr (v \<in> set vs))) os)"

definition create_response :: "action_env \<Rightarrow> rat \<Rightarrow> jv \<Rightarrow> action_form \<Rightarrow> (string \<times> jv) list \<Rightarrow> jv" where
  "create_response E now p f ans = obj_with (JObj
     [(''action_id'', fld p ''action_id''), (''response_type'', fld p ''type''),
      (''timestamp'', JStr (ae_iso E now)), (''response_time_ms'', JNum (now - fo_start f)),
      (''client_info'', ae_client E)]) ans"

text \<open>What the handlers leave of the form, and the response they call back with.\<close>

definition handle_submit_action ::
  "action_env \<Rightarrow> rat \<Rightarrow> jv \<Rightarrow> (string \<times> jv) list \<Rightarrow> action_form \<Rightarrow> action_form \<times> jv option" where
  "handle_submit_action E now p ans f =
     (if fo_submitted f then (f, None)
      else (f\<lparr>fo_submitted := True\<rparr>, Some (create_response E now p f ans)))"

definition text_accepted :: "action_env \<Rightarrow> jv \<Rightarrow> string \<Rightarrow> bool" where
  "text_accepted E p s \<longleftrightarrow>
     \<not> (trim s = [] \<and> is_required p)
     \<and> (truthy (fld p ''validation_pattern'') \<longrightarrow> ae_matches E (fld p ''validation_pattern'') s = Inr True)
     \<and> \<not> (truthy (fld p ''min_length'') \<and> of_nat (length s) < js_num (fld p ''min_length''))
     \<and> \<not> (truthy (fld p ''max_length'') \<and> js_num (fld p ''max_length'') < of_nat (length s))"

definition handle_text_submit :: "action_env \<Rightarrow> rat \<Rightarrow> jv \<Rightarrow> action_form \<Rightarrow> action_form \<times> jv option" where
  "handle_text_submit E now p f =
     (if text_accepted E p (fo_response f)
      then handle_submit_action E now p [(''text_response'', JStr (fo_response f))] f
      else (f, None))"

definition handle_button_click :: "action_env \<Rightarrow> rat \<Rightarrow> jv \<Rightarrow> action_form \<Rightarrow> action_form \<times> jv option" where
  "handle_button_click E now p f = handle_submit_action E now p [(''button_clicked'', JBool True)] f"

definition handle_confirmation :: "action_env \<Rightarrow> rat \<Rightarrow> jv \<Rightarrow> bool \<Rightarrow> action_form \<Rightarrow> action_form \<times> jv option" where
  "handle_confirmation E now p b f = handle_submit_action E now p [(''confirmed'', JBool b)] f"

definition submit_selection ::
  "action_env \<Rightarrow> rat \<Rightarrow> jv \<Rightarrow> jv list \<Rightarrow> action_form \<Rightarrow> action_form \<times> jv option" where
  "submit_selection E now p vs f =
     (case selected_options p vs of
        Inl e \<Rightarrow> (f, None)
      | Inr os \<Rightarrow> handle_submit_action E now p [(''selected_values'', JArr vs), (''selected_options'', JArr os)] f)"

definition handle_select_change :: "action_env \<Rightarrow> rat \<Rightarrow> jv \<Rightarrow> jv \<Rightarrow> action_form \<Rightarrow> action_form \<times> jv option" where
  "handle_select_change E now p v f =
     (let vs = fo_selected f; multi = (fld p ''type'' = JStr ''multi_select'')
      in if multi \<and> v \<notin> set vs \<and> at_most_selected p f then (f, None)
         else
           let new = (if multi then if v \<in> set vs then filter (\<lambda>x. x \<noteq> v) vs else vs @ [v] else [v]);
               f1 = f\<lparr>fo_selected := new\<rparr>
           in if fld p ''type'' = JStr ''select'' then submit_selection E now p new f1 else (f1, None))"

definition handle_multi_select_submit :: "action_env \<Rightarrow> rat \<Rightarrow> jv \<Rightarrow> action_form \<Rightarrow> action_form \<times> jv option" where
  "handle_multi_select_submit E now p f =
     (if of_nat (length (fo_selected f)) < min_selections p then (f, None)
      else submit_selection E now p (fo_selected f) f)"

datatype form_event =
    Waited
  | Typed_Response string
  | Text_Submit
  | Button_Click
  | Confirmation bool
  | Select_Change jv
  | Multi_Select_Submit

fun form_do :: "action_env \<Rightarrow> rat \<Rightarrow> jv \<Rightarrow> form_event \<Rightarrow> action_form \<Rightarrow> action_form \<times> jv option" where
  "form_do E now p Waited f = (f\<lparr>fo_waiting := False\<rparr>, None)"
| "form_do E now p (Typed_Response s) f = (f\<lparr>fo_response := s\<rparr>, None)"
| "form_do E now p Text_Submit f = handle_text_submit E now p f"
| "form_do E now p Button_Click f = handle_button_click E now p f"
| "form_do E now p (Confirmation b) f = handle_confirmation E now p b f"
| "form_do E now p (Select_Change v) f = handle_select_change E now p v f"
| "form_do E now p Multi_Select_Submit f = handle_multi_select_submit E now p f"

section \<open>What the form shows\<close>

datatype form_part =
    Loading_Note
  | Submitted_Note
  | Action_Button string
  | Response_Area string string jv
  | Length_Count bool nat jv
  | Submit_Text bool
  | Option_Button jv jv bool
  | Option_Check jv jv bool bool
  | Selected_Count bool nat jv
  | Submit_Selected nat bool
  | Tools_To_Approve "jv list"
  | Code_To_Approve string
  | Agents_To_Approve "jv list"
  | Agent_Tasks jv
  | Confirm_Button string
  | Cancel_Button string
  | Unsupported_Action jv

text \<open>A list of an approval; what has a length and is no array cannot be drawn.\<close>

definition approval_list :: "jv \<Rightarrow> string \<Rightarrow> exn + jv list" where
  "approval_list tool k =
     (let v = js_or (opt_prop tool k) (JArr [])
      in if 0 < js_num (fld v ''length'')
         then (case v of JArr xs \<Rightarrow> Inr xs | _ \<Rightarrow> Inl ''is not a function'') else Inr [])"

definition shown_items :: "jv list \<Rightarrow> (jv list \<Rightarrow> form_part) \<Rightarrow> form_part list" where
  "shown_items xs part = (if xs \<noteq> [] then [part xs] else [])"

definition confirmation_parts :: "(rat \<Rightarrow> string) \<Rightarrow> jv \<Rightarrow> exn + form_part list" where
  "confirmation_parts num p =
     (let tool = opt_prop (fld p ''additional_data'') ''tool'';
          tool_approval = (fld p ''action_id'' = JStr ''tool_approval'');
          agent_approval = (fld p ''action_id'' = JStr ''agent_approval'');
          tasks = js_or (opt_prop tool ''task_descriptions'') (JStr []);
          buttons =
            [Confirm_Button (if tool_approval then ''Approve & Execute''
               else if agent_approval then ''Approve & Execute Agents'' else ''Confirm''),
             Cancel_Button (if tool_approval \<or> agent_approval then ''Deny'' else ''Cancel'')]
      in if tool_approval then
           try_bind (approval_list tool ''required_tools'') (\<lambda>tools.
           try_bind (approval_list tool ''code_preview'') (\<lambda>code.
             Inr (shown_items tools Tools_To_Approve
               @ shown_items code (\<lambda>c. Code_To_Approve (join newline (map (js_to_string num) c))) @ buttons)))
         else if agent_approval then
           try_bind (approval_list tool ''agent_names'') (\<lambda>agents.
             Inr ((if agents = [] then []
                   else Agents_To_Approve agents # (if truthy tasks then [Agent_Tasks tasks] else [])) @ buttons))
         else Inr buttons)"

text \<open>\<open>renderActionContent\<close>.\<close>

definition action_content :: "(rat \<Rightarrow> string) \<Rightarrow> jv \<Rightarrow> action_form \<Rightarrow> exn + form_part list" where
  "action_content num p f =
     (let kind = fld p ''type''; vs = fo_selected f; longest = fld p ''max_length'';
          most = fld p ''max_selections''
      in if fo_waiting f then Inr [Loading_Note]
         else if fo_submitted f then Inr [Submitted_Note]
         else if kind = JStr ''button'' then
           Inr [Action_Button (js_to_string num (js_or (fld p ''button_text'') (fld p ''action_name'')))]
         else if kind = JStr ''text_input'' \<or> kind = JStr ''natural_language'' then
           Inr ([Response_Area (fo_response f)
                   (js_to_string num (js_or (fld p ''placeholder'') (JStr ''Enter your response...''))) longest]
                @ (if truthy longest
                   then [Length_Count (js_num longest * 4 / 5 < of_nat (length (fo_response f)))
                           (length (fo_response f)) longest]
                   else [])
                @ [Submit_Text (trim (fo_response f) = [] \<and> is_required p)])
         else if kind = JStr ''select'' then
           try_bind (action_options p) (\<lambda>os.
             try_map (\<lambda>opt. try_bind (get_prop opt ''value'') (\<lambda>v. Inr (Option_Button opt v (v \<in> set vs)))) os)
         else if kind = JStr ''multi_select'' then
           try_bind (action_options p) (\<lambda>os.
           try_bind (try_map (\<lambda>opt. try_bind (get_prop opt ''value'') (\<lambda>v.
               Inr (Option_Check opt v (v \<in> set vs) (v \<notin> set vs \<and> at_most_selected p f)))) os) (\<lambda>checks.
             Inr (checks
                  @ (if truthy most then [Selected_Count (most = JNum (of_nat (length vs))) (length vs) most] else [])
                  @ [Submit_Selected (length vs) (of_nat (length vs) < min_selections p)])))
         else if kind = JStr ''confirmation'' then confirmation_parts num p
         else Inr [Unsupported_Action kind])"

text \<open>The title, the mark of a required action and the description, once it has loaded.\<close>

definition action_header :: "jv \<Rightarrow> action_form \<Rightarrow> (jv \<times> bool \<times> jv) option" where
  "action_header p f =
     (if fo_waiting f then None
      else Some (fld p ''action_name'', is_required p,
                 if truthy (fld p ''description'') then fld p ''description'' else JUndef))"

text \<open>The events a part lets the user cause.\<close>

fun part_allows :: "form_part \<Rightarrow> form_event \<Rightarrow> bool" where
  "part_allows (Action_Button _) ev \<longleftrightarrow> ev = Button_Click"
| "part_allows (Response_Area _ _ _) ev \<longleftrightarrow> (case ev of Typed_Response s \<Rightarrow> True | _ \<Rightarrow> False)"
| "part_allows (Submit_Text off) ev \<longleftrightarrow> ev = Text_Submit \<and> \<not> off"
| "part_allows (Option_Button _ v _) ev \<longleftrightarrow> ev = Select_Change v"
| "part_allows (Option_Check _ v _ off) ev \<longleftrightarrow> ev = Select_Change v \<and> \<not> off"
| "part_allows (Submit_Selected _ off) ev \<longleftrightarrow> ev = Multi_Select_Submit \<and> \<not> off"
| "part_allows (Confirm_Button _) ev \<longleftrightarrow> ev = Confirmation True"
| "part_allows (Cancel_Button _) ev \<longleftrightarrow> ev = Confirmation False"
| "part_allows _ ev \<longleftrightarrow> False"

definition form_allows :: "(rat \<Rightarrow> string) \<Rightarrow> jv \<Rightarrow> action_form \<Rightarrow> form_event \<Rightarrow> bool" where
  "form_allows num p f ev \<longleftrightarrow>
     ev = Waited \<and> fo_waiting f
     \<or> (case action_content num p f of Inr parts \<Rightarrow> list_ex (\<lambda>x. part_allows x ev) parts | Inl _ \<Rightarrow> False)"

section \<open>The forms in the cards\<close>

text \<open>
  Where a card is drawn: a component keeps its state only while it stays in the same
  list or container of the page, under the same step.
\<close>

datatype place = In_Reasoning | In_List | In_Current | In_Note

fun section_place :: "view_section \<Rightarrow> place" where
  "section_place (Reasoning _ _) = In_Reasoning"
| "section_place (Listed _) = In_List"
| "section_place (Current _ _) = In_Current"
| "section_place _ = In_Note"

type_synonym mount = "(bool \<times> bool \<times> place) \<times> string"

fun card_actions :: "card_view \<Rightarrow> (string \<times> jv) list" where
  "card_actions (Step_Card ident _ _ (Some ds) _) =
     List.map_filter (\<lambda>d. case d of Followup_Action p \<Rightarrow> Some (ident, p) | _ \<Rightarrow> None) ds"
| "card_actions _ = []"

definition page_actions :: "cards \<Rightarrow> (view_section \<times> card_view list) list \<Rightarrow> (mount \<times> jv) list" where
  "page_actions c page =
     concat (map (\<lambda>(sec, cs). map (\<lambda>(ident, p). (((ca_stopped c, ca_inplace c, section_place sec), ident), p))
                (concat (map card_actions cs))) page)"

text \<open>The forms after a rendering; when it throws, nothing stays mounted.\<close>

definition mount_forms ::
  "card_env \<Rightarrow> rat \<Rightarrow> cards \<Rightarrow> (mount \<times> jv \<times> action_form) list \<Rightarrow> (mount \<times> jv \<times> action_form) list" where
  "mount_forms env now c old =
     (case cards_page env c of
        Inl e \<Rightarrow> []
      | Inr page \<Rightarrow>
          map (\<lambda>(k, p). (k, p, case map_of old k of Some (q, f) \<Rightarrow> f | None \<Rightarrow> form_mounted now)) (page_actions c page))"

record actions_state =
  as_cards :: cards
  as_forms :: "(mount \<times> jv \<times> action_form) list"
  as_posts :: "(string \<times> workflow_effect) list"   \<comment> \<open>the step that was answered, and the request\<close>

definition actions_init :: actions_state where
  "actions_init = \<lparr>as_cards = cards_init, as_forms = [], as_posts = []\<rparr>"

definition draw_cards :: "card_env \<Rightarrow> rat \<Rightarrow> actions_state \<Rightarrow> actions_state" where
  "draw_cards env now s =
     s\<lparr>as_cards := render_cards (as_cards s), as_forms := mount_forms env now (as_cards s) (as_forms s)\<rparr>"

text \<open>The request an answer makes: no query, and the answer as the body.\<close>

record action_session =
  ss_thread :: "string option"
  ss_draft :: bool

definition answer_post :: "action_session \<Rightarrow> jv \<Rightarrow> workflow_effect" where
  "answer_post ses d = PostRequest d
     ([(''Content-Type'', ''application/json'')]
      @ (case ss_thread ses of Some t \<Rightarrow> if t \<noteq> [] then [(''X-Thread-ID'', t)] else [] | None \<Rightarrow> [])
      @ (if ss_draft ses then [(''X-Use-Draft'', ''true'')] else []))"

definition answered :: "action_session \<Rightarrow> string \<Rightarrow> jv option \<Rightarrow> actions_state \<Rightarrow> actions_state" where
  "answered ses ident d s =
     (case d of
        None \<Rightarrow> s
      | Some d \<Rightarrow> s\<lparr>as_cards := mark_step_completed ident (as_cards s), as_posts := as_posts s @ [(ident, answer_post ses d)]\<rparr>)"

definition form_used ::
  "action_env \<Rightarrow> action_session \<Rightarrow> rat \<Rightarrow> mount \<Rightarrow> form_event \<Rightarrow> actions_state \<Rightarrow> actions_state" where
  "form_used E ses now k ev s =
     (case map_of (as_forms s) k of
        None \<Rightarrow> s
      | Some (p, f) \<Rightarrow>
          if form_allows (ae_num E) p f ev
          then let (f', d) = form_do E now p ev f
               in answered ses (snd k) d (s\<lparr>as_forms := map (\<lambda>(j, q, g). (j, q, if j = k then f' else g)) (as_forms s)\<rparr>)
          else s)"

text \<open>What else happens to the cards: the interface on the window and their buttons.\<close>

datatype cards_event =
    Ev_Add string rat string jv
  | Ev_Stop
  | Ev_Complete bool
  | Ev_Reset
  | Ev_Code string
  | Ev_Details string
  | Ev_Reasoning
  | Ev_Mode bool

fun cards_do :: "(rat \<Rightarrow> string) \<Rightarrow> cards_event \<Rightarrow> cards \<Rightarrow> cards" where
  "cards_do num (Ev_Add ident now title content) c = add_step num ident now title content c"
| "cards_do num Ev_Stop c = stop_processing c"
| "cards_do num (Ev_Complete b) c = set_processing_complete b c"
| "cards_do num Ev_Reset c = force_reset c"
| "cards_do num (Ev_Code ident) c = toggle_code_preview ident c"
| "cards_do num (Ev_Details ident) c = toggle_details ident c"
| "cards_do num Ev_Reasoning c = toggle_reasoning c"
| "cards_do num (Ev_Mode b) c = set_view_mode b c"

datatype actions_event = Cards_Changed cards_event | Cards_Drawn rat | Form_Used rat mount form_event

fun actions_do :: "card_env \<Rightarrow> action_env \<Rightarrow> action_session \<Rightarrow> actions_event \<Rightarrow> actions_state \<Rightarrow> actions_state" where
  "actions_do env E ses (Cards_Changed ev) s = s\<lparr>as_cards := cards_do (ae_num E) ev (as_cards s)\<rparr>"
| "actions_do env E ses (Cards_Drawn now) s = draw_cards env now s"
| "actions_do env E ses (Form_Used now k ev) s = draw_cards env now (form_used E ses now k ev s)"

definition actions_run :: "card_env \<Rightarrow> action_env \<Rightarrow> action_session \<Rightarrow> actions_event list \<Rightarrow> actions_state" where
  "actions_run env E ses evs = foldl (\<lambda>s ev. actions_do env E ses ev s) actions_init evs"

section \<open>Properties\<close>

text \<open>Whatever a user can do to a form, with the answers it has called back.\<close>

inductive form_run :: "action_env \<Rightarrow> jv \<Rightarrow> action_form \<Rightarrow> jv list \<Rightarrow> bool" for E p where
  start: "form_run E p (form_mounted now) []"
| step: "form_run E p f ds \<Longrightarrow> form_allows (ae_num E) p f ev \<Longrightarrow> form_do E now p ev f = (f', d)
     \<Longrightarrow> form_run E p f' (ds @ (case d of Some x \<Rightarrow> [x] | None \<Rightarrow> []))"

text \<open>What an action accepts as its answer, by its kind.\<close>

definition offered_value :: "jv \<Rightarrow> jv \<Rightarrow> bool" where
  "offered_value p v \<longleftrightarrow> (\<exists>os opt. action_options p = Inr os \<and> opt \<in> set os \<and> get_prop opt ''value'' = Inr v)"

definition selection_allowed :: "jv \<Rightarrow> jv list \<Rightarrow> bool" where
  "selection_allowed p vs \<longleftrightarrow> distinct vs \<and> (\<forall>v \<in> set vs. offered_value p v)
     \<and> (truthy (fld p ''max_selections'') \<and> vs \<noteq> [] \<longrightarrow> of_nat (length vs) < js_num (fld p ''max_selections'') + 1)"

fun kind_fits :: "action_env \<Rightarrow> jv \<Rightarrow> string \<Rightarrow> jv \<Rightarrow> bool" where
  "kind_fits E p k d \<longleftrightarrow>
     (if k = ''button'' then fld d ''button_clicked'' = JBool True
      else if k = ''text_input'' \<or> k = ''natural_language''
      then \<exists>s. fld d ''text_response'' = JStr s \<and> text_accepted E p s
      else if k = ''select'' then \<exists>v. fld d ''selected_values'' = JArr [v] \<and> offered_value p v
      else if k = ''multi_select'' then
        \<exists>vs. fld d ''selected_values'' = JArr vs \<and> selection_allowed p vs \<and> min_selections p \<le> of_nat (length vs)
      else k = ''confirmation'' \<and> (\<exists>b. fld d ''confirmed'' = JBool b))"

definition answer_fits :: "action_env \<Rightarrow> jv \<Rightarrow> jv \<Rightarrow> bool" where
  "answer_fits E p d \<longleftrightarrow>
     fld d ''action_id'' = fld p ''action_id'' \<and> fld d ''response_type'' = fld p ''type''
     \<and> (\<exists>k. fld p ''type'' = JStr k \<and> kind_fits E p k d)"

lemma map_of_response:
  "fld (create_response E now p f ans) k = (case map_of (rev ans) k of Some x \<Rightarrow> x | None \<Rightarrow>
     fld (JObj [(''action_id'', fld p ''action_id''), (''response_type'', fld p ''type''),
      (''timestamp'', JStr (ae_iso E now)), (''response_time_ms'', JNum (now - fo_start f)),
      (''client_info'', ae_client E)]) k)"
  by (simp add: create_response_def obj_with_def map_of_spread split: option.splits)

lemma action_kinds:
  "part_allows (Agents_To_Approve xs) ev \<longleftrightarrow> False" "part_allows (Tools_To_Approve xs) ev \<longleftrightarrow> False"
  by simp_all

lemma confirmation_allows:
  assumes "confirmation_parts num p = Inr parts" "x \<in> set parts" "part_allows x ev"
  shows "ev = Confirmation True \<or> ev = Confirmation False"
  using assms
  by (auto simp: confirmation_parts_def Let_def shown_items_def try_bind_def split: if_splits sum.splits)

lemma options_allow:
  assumes "try_map (\<lambda>opt. try_bind (get_prop opt ''value'') (\<lambda>v. Inr (part opt v))) os = Inr parts" "x \<in> set parts"
  shows "\<exists>opt v. opt \<in> set os \<and> get_prop opt ''value'' = Inr v \<and> x = part opt v"
proof -
  obtain i where i: "i < length parts" "x = parts ! i" using assms(2) by (auto simp: in_set_conv_nth)
  then have "os ! i \<in> set os" "try_bind (get_prop (os ! i) ''value'') (\<lambda>v. Inr (part (os ! i) v)) = Inr x"
    using assms(1) by (auto simp: try_map_Inr list_all2_conv_all_nth)
  then obtain opt where "opt \<in> set os" "try_bind (get_prop opt ''value'') (\<lambda>v. Inr (part opt v)) = Inr x" by blast
  then show ?thesis by (cases "get_prop opt ''value''") auto
qed

lemma allowed_event:
  assumes "form_allows num p f ev" "ev \<noteq> Waited"
  shows "\<not> fo_waiting f \<and> \<not> fo_submitted f
     \<and> (case ev of
          Typed_Response s \<Rightarrow> fld p ''type'' \<in> {JStr ''text_input'', JStr ''natural_language''}
        | Text_Submit \<Rightarrow> fld p ''type'' \<in> {JStr ''text_input'', JStr ''natural_language''}
        | Button_Click \<Rightarrow> fld p ''type'' = JStr ''button''
        | Confirmation b \<Rightarrow> fld p ''type'' = JStr ''confirmation''
        | Select_Change v \<Rightarrow> fld p ''type'' \<in> {JStr ''select'', JStr ''multi_select''} \<and> offered_value p v
        | Multi_Select_Submit \<Rightarrow> fld p ''type'' = JStr ''multi_select''
        | _ \<Rightarrow> False)"
proof -
  obtain parts x where c: "action_content num p f = Inr parts" "x \<in> set parts" "part_allows x ev"
    using assms by (auto simp: form_allows_def list_ex_iff split: sum.splits)
  have shown: "\<not> fo_waiting f" "\<not> fo_submitted f"
  proof -
    show w: "\<not> fo_waiting f" using c by (intro notI) (auto simp: action_content_def)
    show "\<not> fo_submitted f" using c w by (intro notI) (auto simp: action_content_def)
  qed
  note content = c(1) [unfolded action_content_def Let_def, simplified shown if_False]
  consider (b) "fld p ''type'' = JStr ''button''" | (t) "fld p ''type'' \<in> {JStr ''text_input'', JStr ''natural_language''}"
    | (s) "fld p ''type'' = JStr ''select''" | (m) "fld p ''type'' = JStr ''multi_select''"
    | (a) "fld p ''type'' = JStr ''confirmation''"
    | (u) "parts = [Unsupported_Action (fld p ''type'')]"
    using content by (auto split: if_splits)
  then show ?thesis
  proof cases
    case b
    then show ?thesis using content c(2,3) shown by (auto split: form_event.splits)
  next
    case t
    then show ?thesis using content c(2,3) shown by (auto split: form_event.splits if_splits)
  next
    case s
    then obtain os where os: "action_options p = Inr os" "try_map (\<lambda>opt. try_bind (get_prop opt ''value'')
        (\<lambda>v. Inr (Option_Button opt v (v \<in> set (fo_selected f))))) os = Inr parts"
      using content by (cases "action_options p") auto
    then obtain opt v where "opt \<in> set os" "get_prop opt ''value'' = Inr v" "x = Option_Button opt v (v \<in> set (fo_selected f))"
      using options_allow [OF os(2) c(2)] by blast
    then show ?thesis using c(3) os(1) s shown by (auto simp: offered_value_def)
  next
    case m
    then obtain os checks where os: "action_options p = Inr os" "try_map (\<lambda>opt. try_bind (get_prop opt ''value'')
        (\<lambda>v. Inr (Option_Check opt v (v \<in> set (fo_selected f)) (v \<notin> set (fo_selected f) \<and> at_most_selected p f)))) os = Inr checks"
      and parts: "x \<in> set checks \<or> (\<exists>n b. x = Submit_Selected n b) \<or> (\<exists>b n q. x = Selected_Count b n q)"
      using content c(2) by (cases "action_options p") (auto simp: try_bind_def split: sum.splits if_splits)
    from parts show ?thesis
    proof (elim disjE exE)
      assume "x \<in> set checks"
      then obtain opt v off ch where "opt \<in> set os" "get_prop opt ''value'' = Inr v" "x = Option_Check opt v ch off"
        using options_allow [OF os(2)] by blast
      then show ?thesis using c(3) os(1) m shown by (auto simp: offered_value_def)
    qed (use c(3) m shown in auto)
  next
    case a
    then have "confirmation_parts num p = Inr parts" using content by simp
    from confirmation_allows [OF this \<open>x \<in> set parts\<close> \<open>part_allows x ev\<close>] show ?thesis using a shown by auto
  next
    case u
    then show ?thesis using c(2,3) by simp
  qed
qed

lemma response_fits:
  assumes "fld p ''type'' = JStr k" "set (map fst ans) \<inter> {''action_id'', ''response_type''} = {}"
    "kind_fits E p k (create_response E now p f ans)"
  shows "answer_fits E p (create_response E now p f ans)"
proof -
  have "map_of (rev ans) ''action_id'' = None" "map_of (rev ans) ''response_type'' = None"
    using assms(2) by (auto simp: map_of_eq_None_iff)
  then show ?thesis using assms(1,3) by (simp add: answer_fits_def map_of_response del: kind_fits.simps)
qed

definition run_ok :: "action_env \<Rightarrow> jv \<Rightarrow> action_form \<Rightarrow> jv list \<Rightarrow> bool" where
  "run_ok E p f ds \<longleftrightarrow>
     (fo_submitted f \<longleftrightarrow> ds \<noteq> []) \<and> length ds \<le> 1 \<and> (\<forall>d \<in> set ds. answer_fits E p d)
     \<and> (fld p ''type'' = JStr ''multi_select'' \<longrightarrow> selection_allowed p (fo_selected f))"

lemma submitted_ok:
  assumes "run_ok E p f ds" "\<not> fo_submitted f" "answer_fits E p (create_response E now p f ans)"
    "handle_submit_action E now p ans f = (f', d)"
  shows "run_ok E p f' (ds @ (case d of Some x \<Rightarrow> [x] | None \<Rightarrow> []))"
  using assms by (auto simp: run_ok_def handle_submit_action_def)

lemma selection_ok:
  assumes "run_ok E p f ds" "\<not> fo_submitted f" "submit_selection E now p vs f = (f', d)"
    "fld p ''type'' = JStr ''select'' \<and> (\<exists>v. vs = [v] \<and> offered_value p v)
     \<or> fld p ''type'' = JStr ''multi_select'' \<and> selection_allowed p vs \<and> min_selections p \<le> of_nat (length vs)"
  shows "run_ok E p f' (ds @ (case d of Some x \<Rightarrow> [x] | None \<Rightarrow> []))"
proof (cases "selected_options p vs")
  case (Inl e)
  then show ?thesis using assms(1,3) by (auto simp: submit_selection_def)
next
  case (Inr os)
  have "answer_fits E p (create_response E now p f [(''selected_values'', JArr vs), (''selected_options'', JArr os)])"
    using assms(4) by (elim disjE conjE exE; intro response_fits) (auto simp: map_of_response)
  then show ?thesis using assms(1-3) Inr by (intro submitted_ok) (auto simp: submit_selection_def)
qed

lemma toggled_allowed:
  assumes "selection_allowed p vs" "offered_value p v"
    "v \<in> set vs \<or> \<not> (truthy (fld p ''max_selections'') \<and> js_num (fld p ''max_selections'') \<le> of_nat (length vs))"
  shows "selection_allowed p (if v \<in> set vs then filter (\<lambda>x. x \<noteq> v) vs else vs @ [v])"
proof (cases "v \<in> set vs")
  case True
  then have "vs \<noteq> []" by auto
  have le: "(of_nat (length (filter (\<lambda>x. x \<noteq> v) vs)) :: rat) \<le> of_nat (length vs)"
    by (simp only: of_nat_le_iff length_filter_le)
  have "of_nat (length (filter (\<lambda>x. x \<noteq> v) vs)) < js_num (fld p ''max_selections'') + 1"
    if "truthy (fld p ''max_selections'')"
    using that assms(1) \<open>vs \<noteq> []\<close> le_less_trans [OF le] by (simp add: selection_allowed_def)
  then show ?thesis using assms(1) True by (auto simp: selection_allowed_def)
next
  case False
  then show ?thesis using assms by (auto simp: selection_allowed_def)
qed

lemma run_ok_step:
  assumes "run_ok E p f ds" "form_allows (ae_num E) p f ev" "form_do E now p ev f = (f', d)"
  shows "run_ok E p f' (ds @ (case d of Some x \<Rightarrow> [x] | None \<Rightarrow> []))"
proof (cases "ev = Waited")
  case True
  then show ?thesis using assms(1,3) by (auto simp: run_ok_def)
next
  case False
  note al = allowed_event [OF assms(2) False]
  then have open_form: "\<not> fo_submitted f" by simp
  show ?thesis
  proof (cases ev)
    case (Typed_Response s)
    then show ?thesis using assms(1,3) by (auto simp: run_ok_def)
  next
    case Text_Submit
    show ?thesis
    proof (cases "text_accepted E p (fo_response f)")
      case True
      then have "answer_fits E p (create_response E now p f [(''text_response'', JStr (fo_response f))])"
        using al Text_Submit by (auto intro!: response_fits simp: map_of_response)
      then show ?thesis using submitted_ok [OF assms(1) open_form] assms(3) Text_Submit True
        by (simp add: handle_text_submit_def)
    qed (use assms(1,3) Text_Submit in \<open>auto simp: handle_text_submit_def\<close>)
  next
    case Button_Click
    then have "answer_fits E p (create_response E now p f [(''button_clicked'', JBool True)])"
      using al by (intro response_fits) (auto simp: map_of_response)
    then show ?thesis using submitted_ok [OF assms(1) open_form] assms(3) Button_Click
      by (simp add: handle_button_click_def)
  next
    case (Confirmation b)
    then have "answer_fits E p (create_response E now p f [(''confirmed'', JBool b)])"
      using al by (intro response_fits) (auto simp: map_of_response)
    then show ?thesis using submitted_ok [OF assms(1) open_form] assms(3) Confirmation
      by (simp add: handle_confirmation_def)
  next
    case Multi_Select_Submit
    then have m: "fld p ''type'' = JStr ''multi_select''" using al by simp
    show ?thesis
    proof (cases "of_nat (length (fo_selected f)) < min_selections p")
      case False
      then show ?thesis using assms(1,3) Multi_Select_Submit m open_form
        by (intro selection_ok [where vs = "fo_selected f" and f = f and now = now])
          (auto simp: handle_multi_select_submit_def run_ok_def)
    qed (use assms(1,3) Multi_Select_Submit in \<open>auto simp: handle_multi_select_submit_def\<close>)
  next
    case (Select_Change v)
    then have v: "offered_value p v" and kinds: "fld p ''type'' \<in> {JStr ''select'', JStr ''multi_select''}" using al by simp_all
    show ?thesis
    proof (cases "fld p ''type'' = JStr ''select''")
      case True
      have "run_ok E p (f\<lparr>fo_selected := [v]\<rparr>) ds" using assms(1) True by (simp add: run_ok_def)
      then show ?thesis using assms(3) Select_Change True v open_form
        by (intro selection_ok [where vs = "[v]" and f = "f\<lparr>fo_selected := [v]\<rparr>" and now = now])
          (auto simp: handle_select_change_def Let_def)
    next
      case False
      then have m: "fld p ''type'' = JStr ''multi_select''" using kinds by simp
      then show ?thesis using assms(1,3) Select_Change toggled_allowed [OF _ v, of "fo_selected f"]
        by (auto simp: handle_select_change_def Let_def run_ok_def at_most_selected_def split: if_splits)
    qed
  qed (use False in simp)
qed

lemma run_ok_reached: "form_run E p f ds \<Longrightarrow> run_ok E p f ds"
proof (induction rule: form_run.induct)
  case (start now)
  then show ?case by (simp add: run_ok_def form_mounted_def selection_allowed_def)
qed (rule run_ok_step)

text \<open>
  C20. A form calls back at most once while it is mounted, and then shows that it has, and
  what it calls back with fits the action it was asked for: the identifier and the kind of
  the action, and by the kind a text that meets the requirements, one offered value, or
  different offered values, not fewer than the least number and, where there is a
  greatest number, none more than it has room for, a click, or a yes or no.
\<close>

theorem form_answers_fit:
  assumes "form_run E p f ds"
  shows "length ds \<le> 1 \<and> (fo_submitted f \<longleftrightarrow> ds \<noteq> []) \<and> (\<forall>d \<in> set ds. answer_fits E p d)"
  using run_ok_reached [OF assms] by (simp add: run_ok_def)

theorem form_answers_fit_witness:
  "\<exists>f d. form_run \<lparr>ae_num = \<lambda>_. ''0'', ae_iso = \<lambda>_. ''now'', ae_client = JNull, ae_matches = \<lambda>_ _. Inr True\<rparr>
       (JObj [(''action_id'', JStr ''a''), (''type'', JStr ''confirmation'')]) f [d]
     \<and> fld d ''confirmed'' = JBool True \<and> fo_submitted f"
proof -
  let ?E = "\<lparr>ae_num = \<lambda>_. ''0'', ae_iso = \<lambda>_. ''now'', ae_client = JNull, ae_matches = \<lambda>_ _. Inr True\<rparr>"
  let ?p = "JObj [(''action_id'', JStr ''a''), (''type'', JStr ''confirmation'')]"
  let ?f = "(form_mounted 0)\<lparr>fo_waiting := False\<rparr>"
  let ?d = "create_response ?E 1 ?p ?f [(''confirmed'', JBool True)]"
  have a: "form_run ?E ?p ?f []"
    using form_run.step [of ?E ?p "form_mounted 0" "[]" Waited 0 ?f None, OF form_run.start]
    by (simp add: form_allows_def form_mounted_def)
  have "form_allows (ae_num ?E) ?p ?f (Confirmation True)"
    by (simp add: form_allows_def form_mounted_def action_content_def confirmation_parts_def)
  from form_run.step [OF a this, of 1 "?f\<lparr>fo_submitted := True\<rparr>" "Some ?d"]
  have b: "form_run ?E ?p (?f\<lparr>fo_submitted := True\<rparr>) [?d]"
    by (simp add: handle_confirmation_def handle_submit_action_def form_mounted_def)
  have "fo_submitted (?f\<lparr>fo_submitted := True\<rparr>)" "answer_fits ?E ?p ?d" using form_answers_fit [OF b] by simp_all
  then have "fld ?d ''confirmed'' = JBool True" by (simp add: map_of_response)
  with b \<open>fo_submitted (?f\<lparr>fo_submitted := True\<rparr>)\<close> show ?thesis by blast
qed

section \<open>An answer and the card it came from\<close>

text \<open>What marking a step as completed does to a step.\<close>

definition done_step :: "string \<Rightarrow> card_step \<Rightarrow> card_step" where
  "done_step ident x = (if kd_id x = ident then x\<lparr>kd_completed := True\<rparr> else x)"

lemma done_step_fields [simp]:
  "kd_id (done_step i x) = kd_id x" "kd_title (done_step i x) = kd_title x" "kd_content (done_step i x) = kd_content x"
  "renders env (done_step i x) = renders env x"
  by (simp_all add: done_step_def renders_def should_render_step_def)

lemma marked_steps: "ca_steps (mark_step_completed i c) = map (done_step i) (ca_steps c)"
  by (simp add: mark_step_completed_def done_step_def)

lemma drawn_marked:
  "drawn_steps env (ca_steps (mark_step_completed i c)) = map (done_step i) (drawn_steps env (ca_steps c))"
  by (simp add: drawn_steps_def marked_steps filter_map comp_def)

lemma all_render_marked:
  "all_render env (ca_steps (mark_step_completed i c)) \<longleftrightarrow> all_render env (ca_steps c)"
  by (simp add: all_render_def marked_steps)

lemma mark_keeps:
  "ca_stopped (mark_step_completed i c) = ca_stopped c" "ca_inplace (mark_step_completed i c) = ca_inplace c"
  "ca_final (mark_step_completed i c) = ca_final c" "ca_index (mark_step_completed i c) = ca_index c"
  "ca_details (mark_step_completed i c) = ca_details c" "ca_code (mark_step_completed i c) = ca_code c"
  "length (ca_steps (mark_step_completed i c)) = length (ca_steps c)"
  by (simp_all add: mark_step_completed_def)

text \<open>The step is drawn, and its details are a form for the action \<open>p\<close>.\<close>

definition asks :: "card_env \<Rightarrow> cards \<Rightarrow> card_step \<Rightarrow> jv \<Rightarrow> bool" where
  "asks env c st p \<longleftrightarrow>
     kd_title st = ''SuggestHumanActions'' \<and> renders env st = Inr True \<and> kd_id st \<in> set (ca_details c)
     \<and> details_content (ce_parse env) (kd_title st) (kd_content st) = p \<and> truthy p \<and> truthy (fld p ''action_id'')
     \<and> \<not> nullish (card_content (ce_parse env) (kd_title st) (kd_content st))"

lemma card_of_action:
  assumes "asks env c st p"
  shows "\<exists>h d. render_step_card env c b st = Inr (Some (Step_Card (kd_id st) h d (Some [Followup_Action p]) b))"
  using assms
  by (auto simp: asks_def render_step_card_def Let_def case_description_def describe_human_actions_def get_prop_def
      map_step_title_def render_step_content_def main_element_def tool_flow_def)

text \<open>Once the action is answered, the card of the step is the current one and the only one.\<close>

lemma sections_after_answer:
  assumes "all_render env (ca_steps c)" "\<not> ca_stopped c" "ca_inplace c" "\<not> ca_final c" "final_consistent c"
    "ca_index c < length (ca_steps c)" "kd_id (ca_steps c ! ca_index c) = ident"
    "\<forall>x \<in> set (drawn_steps env (ca_steps c)). pending_action x \<longrightarrow> kd_id x = ident"
  shows "\<exists>l. card_sections env (mark_step_completed ident c) =
     Inr [Current ((ca_steps c ! ca_index c)\<lparr>kd_completed := True\<rparr>) l, Listed [], Listed []]"
proof -
  let ?c = "mark_step_completed ident c"
  let ?d = "drawn_steps env (ca_steps ?c)"
  obtain secs where secs: "card_sections env ?c = Inr secs"
    using assms(1) sections_defined [of env ?c] by (auto simp: all_render_marked)
  have acts: "filter pending_action ?d = []"
    using assms(8) by (auto simp: drawn_marked filter_empty_conv pending_action_def done_step_def split: if_splits)
  have "\<forall>x \<in> set (ca_steps c). kd_title x \<noteq> ''Answer''" using assms(4,5) by (force simp: final_consistent_def)
  then have fins: "filter final_step ?d = []"
    by (simp add: drawn_steps_def marked_steps filter_empty_conv final_step_def)
  have cur: "current_card ?c [] = Some ((ca_steps c ! ca_index c)\<lparr>kd_completed := True\<rparr>)"
    using assms by (simp add: current_card_def mark_keeps marked_steps done_step_def)
  show ?thesis
    using sections_are [OF secs] secs assms(2-4)
    by (simp add: Let_def acts fins mark_keeps inplace_sections_def cur)
qed

lemma one_form:
  assumes "card_sections env c = Inr [Current st l, Listed [], Listed []]" "asks env c st p" "\<not> ca_stopped c" "ca_inplace c"
  shows "mount_forms env now c old = [(((False, True, In_Current), kd_id st), p,
     case map_of old ((False, True, In_Current), kd_id st) of Some (q, f) \<Rightarrow> f | None \<Rightarrow> form_mounted now)]"
proof -
  obtain h d where r: "render_step_card env c True st = Inr (Some (Step_Card (kd_id st) h d (Some [Followup_Action p]) True))"
    using card_of_action [OF assms(2)] by blast
  have page: "cards_page env c = Inr [(Current st l, [Step_Card (kd_id st) h d (Some [Followup_Action p]) True]),
      (Listed [], []), (Listed [], [])]"
    by (simp add: cards_page_def assms(1) section_cards_def r List.map_filter_def)
  show ?thesis using assms(3,4) by (simp add: mount_forms_def page page_actions_def List.map_filter_def)
qed

lemma rendered_fields [simp]:
  "ca_steps (render_cards c) = ca_steps c" "ca_stopped (render_cards c) = ca_stopped c" "ca_complete (render_cards c) = ca_complete c"
  "ca_collapsed (render_cards c) = ca_collapsed c" "ca_final (render_cards c) = ca_final c" "ca_index (render_cards c) = ca_index c"
  "ca_inplace (render_cards c) = ca_inplace c" "ca_details (render_cards c) = ca_details c" "ca_code (render_cards c) = ca_code c"
  by (simp_all add: render_cards_def)

lemma page_rendered: "cards_page env (render_cards c) = cards_page env c"
proof -
  have "render_step_card env (render_cards c) = render_step_card env c"
    by (intro ext) (unfold render_step_card_def rendered_fields, rule refl)
  then have "section_cards env (render_cards c) sec = section_cards env c sec" for sec
    by (simp add: section_cards_def)
  moreover have "card_sections env (render_cards c) = card_sections env c"
    unfolding card_sections_def reasoning_section_def inplace_sections_def append_sections_def current_card_def
      is_loading_def rendered_fields by (rule refl)
  ultimately show ?thesis by (simp add: cards_page_def)
qed

lemma mount_rendered: "mount_forms env now (render_cards c) old = mount_forms env now c old"
proof -
  have "page_actions (render_cards c) = page_actions c" by (rule ext) (simp add: page_actions_def)
  then show ?thesis unfolding mount_forms_def page_rendered by (rule ssubst) (rule refl)
qed

lemma confirmation_offered:
  assumes "fld p ''type'' = JStr ''confirmation''" "confirmation_parts num p = Inr parts"
    "\<not> fo_waiting f" "\<not> fo_submitted f"
  shows "form_allows num p f (Confirmation b)"
proof -
  have "list_ex (\<lambda>x. part_allows x (Confirmation b)) parts"
    using assms(2) by (cases b) (auto simp: confirmation_parts_def Let_def shown_items_def try_bind_def split: if_splits sum.splits)
  then show ?thesis using assms by (simp add: form_allows_def action_content_def)
qed

lemma confirmation_drawn:
  assumes "form_allows num p f (Confirmation b)"
  shows "fld p ''type'' = JStr ''confirmation'' \<and> \<not> fo_waiting f \<and> \<not> fo_submitted f
     \<and> (\<exists>parts. confirmation_parts num p = Inr parts)"
proof -
  have a: "fld p ''type'' = JStr ''confirmation''" "\<not> fo_waiting f" "\<not> fo_submitted f"
    using allowed_event [OF assms] by simp_all
  then show ?thesis using assms by (auto simp: form_allows_def action_content_def split: sum.splits)
qed

lemma confirm_used:
  assumes "map_of (as_forms s) k = Some (p, f)" "form_allows (ae_num E) p f (Confirmation b)"
  shows "as_posts (form_used E ses now k (Confirmation b) s) =
      as_posts s @ [(snd k, answer_post ses (create_response E now p f [(''confirmed'', JBool b)]))]"
    and "as_cards (form_used E ses now k (Confirmation b) s) = mark_step_completed (snd k) (as_cards s)"
  using assms confirmation_drawn [OF assms(2)]
  by (simp_all add: form_used_def handle_confirmation_def handle_submit_action_def answered_def)

lemma map_of_used:
  "map_of (as_forms (form_used E ses now k ev s)) j = None \<longleftrightarrow> map_of (as_forms s) j = None"
proof -
  have "fst ` set (as_forms (form_used E ses now k ev s)) = fst ` set (as_forms s)"
    by (auto simp: form_used_def answered_def Let_def split_beta image_image split: option.splits)
  then show ?thesis by (metis map_of_eq_None_iff)
qed

lemma no_current_form:
  assumes "\<not> ca_stopped c" "ca_inplace c" "filter pending_action (drawn_steps env (ca_steps c)) \<noteq> []"
  shows "map_of (mount_forms env now c old) ((a, b, In_Current), ident) = None"
proof (cases "cards_page env c")
  case (Inr page)
  then obtain secs where secs: "card_sections env c = Inr secs" 
    and page: "try_map (\<lambda>sec. try_bind (section_cards env c sec) (\<lambda>cs. Inr (sec, cs))) secs = Inr page"
    by (cases "card_sections env c") (auto simp: cards_page_def)
  have "current_card c (filter pending_action (drawn_steps env (ca_steps c))) = None"
    using assms(3) by (simp add: current_card_def)
  then have no: "\<forall>sec \<in> set secs. section_place sec \<noteq> In_Current"
    using sections_are [OF secs] assms by (auto simp: Let_def inplace_sections_def reasoning_section_def split: if_splits)
  have "fst ` set page \<subseteq> set secs"
  proof
    fix sec assume "sec \<in> fst ` set page"
    then obtain i where i: "i < length page" "sec = fst (page ! i)" by (auto simp: in_set_conv_nth)
    then have "try_bind (section_cards env c (secs ! i)) (\<lambda>cs. Inr (secs ! i, cs)) = Inr (page ! i)" "i < length secs"
      using page by (auto simp: try_map_Inr list_all2_conv_all_nth)
    then show "sec \<in> set secs" using i(2) by (cases "section_cards env c (secs ! i)"; cases "page ! i") auto
  qed
  with no have "((a, b, In_Current), ident) \<notin> fst ` set (page_actions c page)" by (fastforce simp: page_actions_def)
  then show ?thesis by (auto simp: mount_forms_def Inr map_of_eq_None_iff split_beta image_image)
qed (simp add: mount_forms_def)

text \<open>
  C19. A user who answers the one action that waits, at the end of the steps shown in place,
  makes one request with the answer as its body; but the card of the step then
  becomes the current one, which is drawn elsewhere, and so with a new form that has not been
  answered: when it has loaded, another answer, also the opposite one, makes another request.
\<close>

theorem answered_action_asks_again:
  assumes drawn: "as_forms s = mount_forms env t (as_cards s) old" "all_render env (ca_steps (as_cards s))"
    and running: "\<not> ca_stopped (as_cards s)" "ca_inplace (as_cards s)" "\<not> ca_final (as_cards s)" "final_consistent (as_cards s)"
    and last_step: "ca_index (as_cards s) < length (ca_steps (as_cards s))" "ca_steps (as_cards s) ! ca_index (as_cards s) = st"
    and waits: "asks env (as_cards s) st p" "\<not> kd_completed st"
      "\<forall>x \<in> set (drawn_steps env (ca_steps (as_cards s))). pending_action x \<longrightarrow> kd_id x = kd_id st"
    and form: "map_of (as_forms s) ((False, True, In_List), kd_id st) = Some (p, f)"
      "form_allows (ae_num E) p f (Confirmation b)"
    and s1: "s1 = actions_do env E ses (Form_Used now ((False, True, In_List), kd_id st) (Confirmation b)) s"
    and s2: "s2 = actions_do env E ses (Form_Used now2 ((False, True, In_Current), kd_id st) Waited) s1"
    and s3: "s3 = actions_do env E ses (Form_Used now3 ((False, True, In_Current), kd_id st) (Confirmation b')) s2"
  shows "as_posts s1 = as_posts s @ [(kd_id st, answer_post ses (create_response E now p f [(''confirmed'', JBool b)]))]
     \<and> as_forms s1 = [(((False, True, In_Current), kd_id st), p, form_mounted now)]
     \<and> as_posts s3 = as_posts s1
          @ [(kd_id st, answer_post ses (create_response E now3 p (form_mounted now) [(''confirmed'', JBool b')]))]"
proof -
  let ?k = "((False, True, In_Current), kd_id st)"
  let ?c = "mark_step_completed (kd_id st) (as_cards s)"
  note kind = confirmation_drawn [OF form(2)]
  let ?u = "form_used E ses now ((False, True, In_List), kd_id st) (Confirmation b) s"
  have c1: "as_cards s1 = render_cards ?c" and p1: "as_posts s1 = as_posts ?u"
    and f1: "as_forms s1 = mount_forms env now ?c (as_forms ?u)"
    using confirm_used(2) [OF form] by (simp_all add: s1 draw_cards_def)
  obtain l where secs: "card_sections env ?c = Inr [Current (st\<lparr>kd_completed := True\<rparr>) l, Listed [], Listed []]"
    using sections_after_answer [OF drawn(2) running last_step(1) _ waits(3)] last_step(2) by auto
  have asks: "asks env ?c (st\<lparr>kd_completed := True\<rparr>) p"
    using waits(1) done_step_fields(4) [of env "kd_id st" st] by (auto simp: asks_def mark_keeps done_step_def)
  have one: "mount_forms env n ?c fs = [(?k, p, case map_of fs ?k of Some (q, f) \<Rightarrow> f | None \<Rightarrow> form_mounted n)]" for n fs
    using one_form [OF secs asks] running(1,2) by (simp add: mark_keeps)
  have "st \<in> set (filter pending_action (drawn_steps env (ca_steps (as_cards s))))"
    using waits(1,2) last_step nth_mem [OF last_step(1)] by (simp add: asks_def pending_action_def drawn_steps_def)
  then have "map_of (as_forms ?u) ?k = None"
    unfolding map_of_used drawn(1) by (intro no_current_form running) (auto simp: filter_empty_conv)
  then have fresh: "as_forms s1 = [(?k, p, form_mounted now)]" by (simp add: f1 one)
  have "form_used E ses now2 ?k Waited s1 = s1\<lparr>as_forms := [(?k, p, (form_mounted now)\<lparr>fo_waiting := False\<rparr>)]\<rparr>"
    by (simp add: form_used_def fresh form_allows_def form_mounted_def answered_def)
  then have two: "as_forms s2 = [(?k, p, (form_mounted now)\<lparr>fo_waiting := False\<rparr>)]" "as_posts s2 = as_posts s1"
    by (simp_all add: s2 draw_cards_def c1 mount_rendered one)
  have "form_allows (ae_num E) p ((form_mounted now)\<lparr>fo_waiting := False\<rparr>) (Confirmation b')"
    using kind by (auto intro: confirmation_offered simp: form_mounted_def)
  from confirm_used(1) [OF _ this, of s2 ?k ses now3] two
  have "as_posts s3 = as_posts s1 @ [(kd_id st, answer_post ses
      (create_response E now3 p ((form_mounted now)\<lparr>fo_waiting := False\<rparr>) [(''confirmed'', JBool b')]))]"
    by (simp add: s3 draw_cards_def)
  moreover have "create_response E now3 p ((form_mounted now)\<lparr>fo_waiting := False\<rparr>) = create_response E now3 p (form_mounted now)"
    by (rule ext) (simp add: create_response_def)
  ultimately show ?thesis using fresh p1 confirm_used(1) [OF form] by simp
qed

text \<open>The request of an answer is the one a request to the server makes of it.\<close>

lemma answer_is_fetched:
  "ab \<noteq> Some 0 \<Longrightarrow> \<exists>rest. wr_effects (fetch_streaming_data W wid ctl [] d (ss_thread ses) (ss_draft ses) ab evs failure c st) =
     answer_post ses d # rest"
  by (auto simp: fetch_streaming_data_def answer_post_def Let_def split_beta)

theorem answered_action_asks_again_witness:
  "\<exists>env E ses evs d d'. as_posts (actions_run env E ses evs) = [(''a'', answer_post ses d), (''a'', answer_post ses d')]
     \<and> fld d ''confirmed'' = JBool True \<and> fld d' ''confirmed'' = JBool False"
proof -
  let ?env = "\<lparr>ce_parse = \<lambda>_. Inl ''no JSON'', ce_num = \<lambda>_. ''0'', ce_stringify = \<lambda>_. [], ce_pretty = \<lambda>_. [], ce_marked = \<lambda>t. t\<rparr>"
  let ?E = "\<lparr>ae_num = \<lambda>_. ''0'', ae_iso = \<lambda>_. ''now'', ae_client = JNull, ae_matches = \<lambda>_ _. Inr True\<rparr>"
  let ?ses = "\<lparr>ss_thread = Some ''t'', ss_draft = False\<rparr>"
  let ?p = "JObj [(''action_id'', JStr ''tool_approval''), (''type'', JStr ''confirmation'')]"
  let ?st = "\<lparr>kd_id = ''a'', kd_title = ''SuggestHumanActions'', kd_content = ?p, kd_time = 0, kd_completed = False\<rparr>"
  let ?l = "((False, True, In_List), ''a'')" and ?k = "((False, True, In_Current), ''a'')"
  let ?evs = "[Cards_Changed (Ev_Add ''a'' 0 ''SuggestHumanActions'' ?p), Cards_Drawn 0, Form_Used 1 ?l Waited]"
  let ?more = "[Form_Used 2 ?l (Confirmation True), Form_Used 3 ?k Waited, Form_Used 4 ?k (Confirmation False)]"
  let ?s = "actions_run ?env ?E ?ses ?evs"
  let ?f = "(form_mounted 0)\<lparr>fo_waiting := False\<rparr>"
  have forms: "as_forms ?s = [(?l, ?p, ?f)]" by code_simp
  have drawn: "as_forms ?s = mount_forms ?env 1 (as_cards ?s) [(?l, ?p, ?f)]" by code_simp
  have posts: "as_posts ?s = []" by code_simp
  have cards: "ca_steps (as_cards ?s) = [?st]" "\<not> ca_stopped (as_cards ?s)" "ca_inplace (as_cards ?s)" "\<not> ca_final (as_cards ?s)"
    "ca_index (as_cards ?s) = 0" "ca_details (as_cards ?s) = [''a'']"
    by code_simp+
  have asks: "asks ?env (as_cards ?s) ?st ?p" by code_simp
  have render: "all_render ?env [?st]" by (auto simp: all_render_def asks [unfolded asks_def])
  let ?s1 = "actions_do ?env ?E ?ses (Form_Used 2 ?l (Confirmation True)) ?s"
  let ?s2 = "actions_do ?env ?E ?ses (Form_Used 3 ?k Waited) ?s1"
  let ?s3 = "actions_do ?env ?E ?ses (Form_Used 4 ?k (Confirmation False)) ?s2"
  have fc: "final_consistent (as_cards ?s)" and r: "all_render ?env (ca_steps (as_cards ?s))"
    and i: "ca_index (as_cards ?s) < length (ca_steps (as_cards ?s))" "ca_steps (as_cards ?s) ! ca_index (as_cards ?s) = ?st"
    using cards render by (simp_all add: final_consistent_def)
  have only: "\<forall>x \<in> set (drawn_steps ?env (ca_steps (as_cards ?s))). pending_action x \<longrightarrow> kd_id x = kd_id ?st"
    unfolding cards(1) by (simp add: drawn_steps_def)
  have lk: "map_of (as_forms ?s) ((False, True, In_List), kd_id ?st) = Some (?p, ?f)" unfolding forms by simp
  have al: "form_allows (ae_num ?E) ?p ?f (Confirmation True)"
    by code_simp
  note t = answered_action_asks_again [where ses = ?ses and now = 2 and ?now2.0 = 3 and ?now3.0 = 4 and b' = False,
      OF drawn r cards(2-4) fc i asks _ only lk al refl refl refl]
  have "as_posts ?s3 = [(''a'', answer_post ?ses (create_response ?E 2 ?p ?f [(''confirmed'', JBool True)])),
      (''a'', answer_post ?ses (create_response ?E 4 ?p (form_mounted 2) [(''confirmed'', JBool False)]))]"
    using t posts by (simp only: card_step.select_convs not_False_eq_True simp_thms append.simps)
  moreover have "?s3 = actions_run ?env ?E ?ses (?evs @ ?more)" by (simp add: actions_run_def)
  moreover have "fld (create_response ?E 2 ?p ?f [(''confirmed'', JBool True)]) ''confirmed'' = JBool True"
    "fld (create_response ?E 4 ?p (form_mounted 2) [(''confirmed'', JBool False)]) ''confirmed'' = JBool False"
    by (simp_all add: map_of_response)
  ultimately show ?thesis by metis
qed

end
