(* ===== verification/File_Reference.thy ===== *)
theory File_Reference
  imports Js_Value
begin

text \<open>
  References to workspace files in the older chat: which file a typed \<open>@\<close> offers and
  what selecting one does to a plain input, \<open>agentic_chat/src/FileAutocomplete.tsx\<close>.
  The functions on trees, searches and triggers are the ones \<open>CustomChat.tsx\<close> has as
  well.  A listener keeps the files of the rendering it was installed in.
\<close>

record file_entry =
  fe_name :: string
  fe_path :: string

datatype file_node = FileNode bool string string "file_node list option"   \<comment> \<open>a file?, name, path, children\<close>

fun extract_files :: "file_node list \<Rightarrow> file_entry list" where
  "extract_files [] = []"
| "extract_files (FileNode is_file name path children # ns) =
     (if is_file then [\<lparr>fe_name = name, fe_path = path\<rparr>]
      else case children of Some cs \<Rightarrow> extract_files cs | None \<Rightarrow> []) @ extract_files ns"

text \<open>\<open>allFiles.filter(...).slice(0, 10)\<close>; an empty search offers all files.\<close>

definition matches_file :: "string \<Rightarrow> file_entry \<Rightarrow> bool" where
  "matches_file term f \<longleftrightarrow>
     includes_str (to_lower (fe_name f)) (to_lower term) \<or> includes_str (to_lower (fe_path f)) (to_lower term)"

definition offered_files :: "file_entry list \<Rightarrow> string \<Rightarrow> file_entry list" where
  "offered_files files term = take 10 (if term = [] then files else filter (matches_file term) files)"

text \<open>The text before and after the last \<open>@\<close>.\<close>

fun cut_last_at :: "string \<Rightarrow> (string \<times> string) option" where
  "cut_last_at [] = None"
| "cut_last_at (c # cs) =
     (case cut_last_at cs of
        Some (a, b) \<Rightarrow> Some (c # a, b)
      | None \<Rightarrow> if c = CHR ''@'' then Some ([], cs) else None)"

definition search_term :: "string \<Rightarrow> string" where
  "search_term after = takeWhile (\<lambda>c. \<not> is_ws c) after"

text \<open>The search an input asks for: its last \<open>@\<close> starts it or follows a blank.\<close>

definition file_trigger :: "string \<Rightarrow> string option" where
  "file_trigger v =
     (case cut_last_at v of
        Some (before, after) \<Rightarrow> if before = [] \<or> is_ws (last before) then Some (search_term after) else None
      | None \<Rightarrow> None)"

text \<open>\<open>handleFileSelect\<close> on the value of the text area.\<close>

definition select_in_text :: "string \<Rightarrow> string \<Rightarrow> string option" where
  "select_in_text v path =
     (case cut_last_at v of
        Some (before, after) \<Rightarrow> Some (before @ ''./'' @ path @ drop (length (search_term after)) after)
      | None \<Rightarrow> None)"

section \<open>The component\<close>

record autocomplete =
  au_files :: "file_entry list"
  au_suggestions :: "file_entry list"
  au_show :: bool
  au_index :: nat
  au_busy :: bool                 \<comment> \<open>until the next animation frame\<close>
  au_last :: string
  au_mock :: bool
  au_disabled :: bool
  au_listeners :: "file_entry list list"   \<comment> \<open>per listener, the files it was installed with\<close>
  au_selected :: "string list"    \<comment> \<open>paths told to the parent\<close>

definition au_init :: "bool \<Rightarrow> autocomplete" where
  "au_init disabled = \<lparr>au_files = [], au_suggestions = [], au_show = False, au_index = 0, au_busy = False, au_last = [],
     au_mock = False, au_disabled = disabled, au_listeners = (if disabled then [] else [[]]), au_selected = []\<rparr>"

definition mock_files :: "file_entry list" where
  "mock_files = map (\<lambda>n. \<lparr>fe_name = n, fe_path = ''cuga_workspace/'' @ n\<rparr>)
     [''top_opportunities_arkansas.txt'', ''top_10_opportunities_arkansas.txt'', ''top_3_opportunities_arkansas.txt'',
      ''analysis_report.md'', ''data_export.json'']"

definition load_workspace_files :: "exn + file_node list \<Rightarrow> autocomplete \<Rightarrow> autocomplete" where
  "load_workspace_files r s =
     (case r of
        Inr tree \<Rightarrow> s\<lparr>au_files := extract_files tree\<rparr>
      | Inl _ \<Rightarrow> if au_mock s then s else s\<lparr>au_mock := True, au_files := mock_files\<rparr>)"

text \<open>\<open>handleInputChange\<close> of a rendering with the given files.\<close>

definition handle_input_change :: "file_entry list \<Rightarrow> string \<Rightarrow> autocomplete \<Rightarrow> autocomplete" where
  "handle_input_change files v s =
     (if au_busy s \<or> v = au_last s then s
      else
        let s1 = s\<lparr>au_busy := True, au_last := v\<rparr>
        in case file_trigger v of
             Some term \<Rightarrow>
               (let filtered = offered_files files (trim term)
                in if filtered \<noteq> [] then s1\<lparr>au_suggestions := filtered, au_index := 0, au_show := True\<rparr>
                   else s1\<lparr>au_show := False\<rparr>)
           | None \<Rightarrow> s1\<lparr>au_show := False\<rparr>)"

text \<open>An input event reaches every listener installed so far.\<close>

definition input_event :: "string \<Rightarrow> autocomplete \<Rightarrow> autocomplete" where
  "input_event v s = fold (\<lambda>files. handle_input_change files v) (au_listeners s) s"

definition animation_frame :: "autocomplete \<Rightarrow> autocomplete" where
  "animation_frame s = s\<lparr>au_busy := False\<rparr>"

text \<open>
  Selecting a file, with the text area's value: \<open>None\<close> when the chat has no such text
  area.  Writing the value raises an input event first.
\<close>

definition select_file :: "string option \<Rightarrow> file_entry \<Rightarrow> autocomplete \<Rightarrow> string option \<times> autocomplete" where
  "select_file area f s =
     (case area of
        None \<Rightarrow> (area, s)
      | Some v \<Rightarrow> (case select_in_text v (fe_path f) of
                     None \<Rightarrow> (area, s)
                   | Some new \<Rightarrow> (Some new, (input_event new s)\<lparr>au_last := new, au_show := False,
                                    au_selected := au_selected s @ [fe_path f]\<rparr>)))"

datatype nav_key = ArrowDown | ArrowUp | EnterKey | TabKey | EscapeKey | OtherKey

definition key_down :: "string option \<Rightarrow> nav_key \<Rightarrow> autocomplete \<Rightarrow> string option \<times> autocomplete" where
  "key_down area k s =
     (if au_disabled s \<or> \<not> au_show s \<or> au_suggestions s = [] then (area, s)
      else
        let n = length (au_suggestions s)
        in case k of
             ArrowDown \<Rightarrow> (area, s\<lparr>au_index := (au_index s + 1) mod n\<rparr>)
           | ArrowUp \<Rightarrow> (area, s\<lparr>au_index := (au_index s + n - 1) mod n\<rparr>)
           | EscapeKey \<Rightarrow> (area, s\<lparr>au_show := False\<rparr>)
           | OtherKey \<Rightarrow> (area, s)
           | _ \<Rightarrow> if au_index s < n then select_file area (au_suggestions s ! au_index s) s else (area, s))"

text \<open>A change of \<open>disabled\<close>: enabling installs another listener, none is ever removed.\<close>

definition set_disabled :: "bool \<Rightarrow> autocomplete \<Rightarrow> autocomplete" where
  "set_disabled b s =
     (if b = au_disabled s then s
      else s\<lparr>au_disabled := b, au_listeners := (if b then au_listeners s else au_listeners s @ [au_files s])\<rparr>)"

inductive au_step :: "autocomplete \<Rightarrow> autocomplete \<Rightarrow> bool" where
  au_load: "au_listeners s \<noteq> [] \<Longrightarrow> au_step s (load_workspace_files r s)"
| au_input: "au_step s (input_event v s)"
| au_frame: "au_step s (animation_frame s)"
| au_key: "au_step s (snd (key_down area k s))"
| au_click: "au_show s \<Longrightarrow> f \<in> set (au_suggestions s) \<Longrightarrow> au_step s (snd (select_file area f s))"
| au_hover: "au_show s \<Longrightarrow> i < length (au_suggestions s) \<Longrightarrow> au_step s (s\<lparr>au_index := i\<rparr>)"
| au_toggle: "au_step s (set_disabled b s)"


section \<open>Properties\<close>

lemma cut_last_at_iff:
  "cut_last_at v = Some (a, b) \<longleftrightarrow> v = a @ CHR ''@'' # b \<and> CHR ''@'' \<notin> set b"
  "cut_last_at v = None \<longleftrightarrow> CHR ''@'' \<notin> set v"
proof -
  have "(case cut_last_at v of Some (a, b) \<Rightarrow> v = a @ CHR ''@'' # b \<and> CHR ''@'' \<notin> set b | None \<Rightarrow> CHR ''@'' \<notin> set v)"
    by (induction v) (auto split: option.splits)
  moreover have "a @ CHR ''@'' # b = a' @ CHR ''@'' # b' \<Longrightarrow> CHR ''@'' \<notin> set b \<Longrightarrow> CHR ''@'' \<notin> set b' \<Longrightarrow> a = a' \<and> b = b'"
    for a' b' by (auto simp: append_eq_append_conv2 append_eq_Cons_conv Cons_eq_append_conv)
  ultimately show "cut_last_at v = Some (a, b) \<longleftrightarrow> v = a @ CHR ''@'' # b \<and> CHR ''@'' \<notin> set b"
    "cut_last_at v = None \<longleftrightarrow> CHR ''@'' \<notin> set v"
    by (fastforce split: option.splits)+
qed

lemma search_term_drop:
  obtains rest where "after = search_term after @ rest" "rest = [] \<or> is_ws (hd rest)"
    "drop (length (search_term after)) after = rest"
proof (rule that)
  show "after = search_term after @ dropWhile (\<lambda>c. \<not> is_ws c) after" by (simp add: search_term_def)
  show "dropWhile (\<lambda>c. \<not> is_ws c) after = [] \<or> is_ws (hd (dropWhile (\<lambda>c. \<not> is_ws c) after))"
    using hd_dropWhile by blast
  show "drop (length (search_term after)) after = dropWhile (\<lambda>c. \<not> is_ws c) after"
    by (simp add: search_term_def dropWhile_eq_drop)
qed

text \<open>What is offered: at most ten files of the workspace, in its order, that match.\<close>

lemma offered_files_spec:
  "length (offered_files files t) \<le> 10"
  "f \<in> set (offered_files files t) \<Longrightarrow> f \<in> set files \<and> (t = [] \<or> matches_file t f)"
  by (auto simp: offered_files_def dest: in_set_takeD split: if_splits)

text \<open>
  When a search is open, selecting a file replaces exactly the search, its \<open>@\<close>
  included, by the file's path; what stands before and after it stays.
\<close>

theorem selection_replaces_search:
  assumes "file_trigger v = Some t"
  shows "\<exists>before rest. v = before @ CHR ''@'' # t @ rest \<and> (before = [] \<or> is_ws (last before))
     \<and> (rest = [] \<or> is_ws (hd rest)) \<and> (\<forall>c \<in> set t. \<not> is_ws c)
     \<and> select_in_text v path = Some (before @ ''./'' @ path @ rest)"
proof -
  obtain a b where c: "cut_last_at v = Some (a, b)" "t = search_term b" "a = [] \<or> is_ws (last a)"
    using assms by (auto simp: file_trigger_def split: option.splits if_splits)
  obtain rest where r: "b = search_term b @ rest" "rest = [] \<or> is_ws (hd rest)" "drop (length (search_term b)) b = rest"
    by (rule search_term_drop)
  have "v = a @ CHR ''@'' # t @ rest" using c(1,2) r(1) cut_last_at_iff(1) by metis
  moreover have "\<forall>c \<in> set t. \<not> is_ws c" using c(2) by (auto simp: search_term_def dest: set_takeWhileD)
  ultimately show ?thesis using c r by (auto simp: select_in_text_def)
qed

theorem selection_replaces_search_witness:
  "select_in_text ''read @rep now'' ''out/report.md'' = Some ''read ./out/report.md now''
   \<and> (\<exists>before rest. ''read @rep now'' = before @ CHR ''@'' # ''rep'' @ rest)"
proof -
  have "file_trigger ''read @rep now'' = Some ''rep''"
    by (simp add: file_trigger_def search_term_def is_ws_def)
  from selection_replaces_search [OF this, of "''out/report.md''"] show ?thesis
    by (auto simp: select_in_text_def search_term_def is_ws_def)
qed

definition deaf :: "autocomplete \<Rightarrow> bool" where
  "deaf s \<longleftrightarrow> (case au_listeners s of fs # _ \<Rightarrow> fs = [] | [] \<Rightarrow> au_files s = [])
     \<and> \<not> au_show s \<and> au_suggestions s = [] \<and> au_selected s = []"

lemma input_event_busy: "au_busy s \<Longrightarrow> fold (\<lambda>files. handle_input_change files v) ls s = s"
  by (induction ls) (simp_all add: handle_input_change_def)

lemma input_event_same: "v = au_last s \<Longrightarrow> fold (\<lambda>files. handle_input_change files v) ls s = s"
  by (induction ls) (simp_all add: handle_input_change_def)

lemma handle_no_files:
  "handle_input_change [] v s =
     (if au_busy s \<or> v = au_last s then s else s\<lparr>au_busy := True, au_last := v, au_show := False\<rparr>)"
  by (auto simp: handle_input_change_def offered_files_def Let_def split: option.split)

lemma deaf_input: "deaf s \<Longrightarrow> deaf (input_event v s)"
  by (cases "au_listeners s")
    (auto simp: deaf_def input_event_def handle_no_files input_event_busy input_event_same)

lemma deaf_step: "au_step s s' \<Longrightarrow> deaf s \<Longrightarrow> deaf s'"
proof (induction rule: au_step.induct)
  case (au_input s v)
  then show ?case by (rule deaf_input)
qed (auto simp: deaf_def load_workspace_files_def animation_frame_def key_down_def set_disabled_def split: sum.splits list.splits)

lemma deaf_init: "deaf (au_init b)"
  by (simp add: deaf_def au_init_def)

text \<open>
  The file search of this component offers nothing, ever: the first listener keeps the
  files of the rendering it was installed in, when none were loaded, and takes every
  input; later listeners find the input taken.
\<close>

theorem suggestions_never_shown:
  assumes "au_step\<^sup>*\<^sup>* (au_init disabled) s"
  shows "\<not> au_show s \<and> au_suggestions s = [] \<and> au_selected s = []
     \<and> \<not> au_show (input_event v s)"
proof -
  have "deaf s" using assms by induction (auto simp: deaf_init intro: deaf_step)
  then show ?thesis using deaf_input [of s v] by (simp add: deaf_def)
qed

theorem suggestions_never_shown_witness:
  "\<not> au_show (input_event ''@''
     (load_workspace_files (Inr [FileNode True ''a.txt'' ''a.txt'' None]) (au_init False)))"
proof -
  have "au_step\<^sup>*\<^sup>* (au_init False) (load_workspace_files (Inr [FileNode True ''a.txt'' ''a.txt'' None]) (au_init False))"
    by (intro r_into_rtranclp au_load) (simp add: au_init_def)
  from suggestions_never_shown [OF this] show ?thesis by blast
qed

end
