(* ===== verification/Chat_Input.thy ===== *)
theory Chat_Input
  imports File_Reference
begin

text \<open>
  The chat container, \<open>agentic_chat/src/CustomChat.tsx\<close>: the editable input with its
  file references, sending, restarting and the suggestions.  The contents of the input are
  texts, line breaks, which Shift+Enter makes, and references, which the browser lets nest; a reference shows the file's name and
  a multiplication sign on its remove button.  A request is under way until it settles;
  identifiers are arguments.  The two copies of the thread's identifier are one field.
\<close>

datatype piece =
    Txt string
  | Break                                  \<comment> \<open>a line break, which has no text\<close>
  | Chip string string "piece list"        \<comment> \<open>path, name, what it shows\<close>

definition times_sign :: char where "times_sign = CHR 0xD7"

fun piece_text :: "piece \<Rightarrow> string" where
  "piece_text (Txt s) = s"
| "piece_text Break = []"
| "piece_text (Chip path name inner) = concat (map piece_text inner) @ [times_sign]"

definition content_text :: "piece list \<Rightarrow> string" where
  "content_text ps = concat (map piece_text ps)"

text \<open>\<open>querySelectorAll('.inline-file-reference')\<close>: path, name and text of each.\<close>

fun chips :: "piece list \<Rightarrow> (string \<times> string \<times> string) list" where
  "chips [] = []"
| "chips (Txt s # ps) = chips ps"
| "chips (Break # ps) = chips ps"
| "chips (Chip path name inner # ps) =
     (path, name, piece_text (Chip path name inner)) # chips inner @ chips ps"

definition file_chips :: "piece list \<Rightarrow> (string \<times> string \<times> string) list" where
  "file_chips ps = filter (\<lambda>(p, n, _). p \<noteq> [] \<and> n \<noteq> []) (chips ps)"

section \<open>The text that is sent\<close>

text \<open>\<open>s.replace(pattern, r)\<close>: the first occurrence, with the patterns of \<open>$\<close> in \<open>r\<close>.\<close>

fun expand_dollar :: "string \<Rightarrow> string \<Rightarrow> string \<Rightarrow> string \<Rightarrow> string" where
  "expand_dollar pre m post [] = []"
| "expand_dollar pre m post [c] = [c]"
| "expand_dollar pre m post (c # d # cs) =
     (if c \<noteq> CHR ''$'' then c # expand_dollar pre m post (d # cs)
      else if d = CHR ''$'' then CHR ''$'' # expand_dollar pre m post cs
      else if d = CHR ''&'' then m @ expand_dollar pre m post cs
      else if d = CHR 0x60 then pre @ expand_dollar pre m post cs
      else if d = CHR 0x27 then post @ expand_dollar pre m post cs
      else c # expand_dollar pre m post (d # cs))"

definition replace_first :: "string \<Rightarrow> string \<Rightarrow> string \<Rightarrow> string" where
  "replace_first s pattern r =
     (case cut_first pattern s of
        Some (a, b) \<Rightarrow> a @ expand_dollar a pattern b r @ b
      | None \<Rightarrow> s)"

definition processed_text :: "piece list \<Rightarrow> string" where
  "processed_text ps =
     foldl (\<lambda>s (path, name, shown). replace_first s shown (''./'' @ path)) (trim (content_text ps)) (file_chips ps)"

section \<open>The state of the chat\<close>

datatype chat_message = UserMessage "piece list" | CardMessage

record chat_run =
  cr_id :: nat
  cr_text :: string
  cr_thread :: string

record chat_state =
  ch_messages :: "chat_message list"
  ch_input :: "piece list"
  ch_value :: string
  ch_processing :: bool
  ch_open :: bool
  ch_query :: string
  ch_all :: "file_entry list"
  ch_filtered :: "file_entry list"
  ch_index :: nat
  ch_chosen :: "(file_entry \<times> string) list"
  ch_thread :: string
  ch_examples :: bool
  ch_started :: bool
  ch_followups :: "string list"
  ch_last_query :: string
  ch_runs :: "chat_run list"          \<comment> \<open>requests under way\<close>
  ch_next :: nat
  ch_timers :: "bool list"            \<comment> \<open>suggestions to be sent, with what they saw of the processing\<close>
  ch_resets :: nat

definition chat_init :: "string \<Rightarrow> bool \<Rightarrow> chat_state" where
  "chat_init thread started =
     \<lparr>ch_messages = [], ch_input = [], ch_value = [], ch_processing = False, ch_open = False, ch_query = [],
      ch_all = [], ch_filtered = [], ch_index = 0, ch_chosen = [], ch_thread = thread, ch_examples = True,
      ch_started = started, ch_followups = [], ch_last_query = [], ch_runs = [], ch_next = 0, ch_timers = [], ch_resets = 0\<rparr>"

text \<open>The effect that filters the files, run when the search or the files have changed.\<close>

definition refilter :: "chat_state \<Rightarrow> chat_state" where
  "refilter s =
     (if \<not> ch_open s then s\<lparr>ch_filtered := []\<rparr>
      else s\<lparr>ch_filtered := offered_files (ch_all s) (ch_query s), ch_index := 0\<rparr>)"

definition set_search :: "bool \<Rightarrow> string \<Rightarrow> chat_state \<Rightarrow> chat_state" where
  "set_search shown query s =
     (let s1 = s\<lparr>ch_open := shown, ch_query := query\<rparr>
      in if shown = ch_open s \<and> query = ch_query s then s1 else refilter s1)"

definition load_files :: "file_node list \<Rightarrow> chat_state \<Rightarrow> chat_state" where
  "load_files tree s = refilter (s\<lparr>ch_all := extract_files tree\<rparr>)"

definition chosen_files :: "(nat \<Rightarrow> string) \<Rightarrow> (file_entry \<times> string) list \<Rightarrow> piece list \<Rightarrow> (file_entry \<times> string) list" where
  "chosen_files fresh old ps =
     map (\<lambda>(k, path, name, _).
            (\<lparr>fe_name = name, fe_path = path\<rparr>,
             case find (\<lambda>(f, _). fe_path f = path) old of Some (_, i) \<Rightarrow> i | None \<Rightarrow> fresh k))
         (enumerate 0 (file_chips ps))"

text \<open>\<open>handleContentEditableInput\<close>, for the contents \<open>ps\<close>.\<close>

definition handle_content_input :: "(nat \<Rightarrow> string) \<Rightarrow> piece list \<Rightarrow> chat_state \<Rightarrow> chat_state" where
  "handle_content_input fresh ps s =
     (let t = content_text ps;
          s1 = s\<lparr>ch_input := ps, ch_value := t, ch_examples := (trim t = [])\<rparr>;
          s2 = (case file_trigger t of
                  Some q \<Rightarrow> set_search True q s1
                | None \<Rightarrow> set_search False (ch_query s1) s1)
      in s2\<lparr>ch_chosen := chosen_files fresh (ch_chosen s) ps\<rparr>)"

text \<open>
  Putting a reference in the place of the search: the first \<open>@\<close> of the first text
  that has one, and as many characters after it as the search has.
\<close>

fun replace_first_at :: "nat \<Rightarrow> piece \<Rightarrow> piece list \<Rightarrow> piece list option" where
  "replace_first_at n chip [] = None"
| "replace_first_at n chip (Txt s # ps) =
     (case cut_first ''@'' s of
        Some (a, b) \<Rightarrow> Some (Txt a # chip # Txt '' '' # Txt (drop n b) # ps)
      | None \<Rightarrow> map_option ((#) (Txt s)) (replace_first_at n chip ps))"
| "replace_first_at n chip (Break # ps) = map_option ((#) Break) (replace_first_at n chip ps)"
| "replace_first_at n chip (Chip path name inner # ps) =
     (case replace_first_at n chip inner of
        Some inner' \<Rightarrow> Some (Chip path name inner' # ps)
      | None \<Rightarrow> map_option ((#) (Chip path name inner)) (replace_first_at n chip ps))"

text \<open>The search is closed first, but the input handler decides anew, in the same rendering.\<close>

definition handle_file_select :: "(nat \<Rightarrow> string) \<Rightarrow> string \<Rightarrow> chat_state \<Rightarrow> chat_state" where
  "handle_file_select fresh path s =
     (case find (\<lambda>f. fe_path f = path) (ch_all s) of
        None \<Rightarrow> s
      | Some f \<Rightarrow>
          (case cut_last_at (content_text (ch_input s)) of
             None \<Rightarrow> s
           | Some (_, after) \<Rightarrow>
               (let new = (case replace_first_at (length (search_term after)) (Chip path (fe_name f) [Txt (fe_name f)]) (ch_input s) of
                             Some ps \<Rightarrow> ps | None \<Rightarrow> ch_input s)
                in handle_content_input fresh new s)))"

section \<open>Sending and restarting\<close>

text \<open>\<open>seen\<close> is the processing flag of the rendering the handler belongs to.\<close>

definition handle_send :: "bool \<Rightarrow> string \<Rightarrow> chat_state \<Rightarrow> chat_state" where
  "handle_send seen new_thread s =
     (if trim (content_text (ch_input s)) = [] \<or> seen then s
      else
        let t = processed_text (ch_input s);
            thread = (if ch_thread s \<noteq> [] then ch_thread s else new_thread)
        in s\<lparr>ch_messages := ch_messages s @ [UserMessage (ch_input s), CardMessage], ch_started := True,
             ch_last_query := t, ch_followups := [], ch_input := [], ch_value := [], ch_chosen := [],
             ch_examples := False, ch_processing := True, ch_thread := thread,
             ch_runs := ch_runs s @ [\<lparr>cr_id = ch_next s, cr_text = t, cr_thread = thread\<rparr>], ch_next := Suc (ch_next s)\<rparr>)"

definition settle_run :: "nat \<Rightarrow> chat_state \<Rightarrow> chat_state" where
  "settle_run i s =
     (if i \<in> cr_id ` set (ch_runs s)
      then s\<lparr>ch_runs := filter (\<lambda>r. cr_id r \<noteq> i) (ch_runs s), ch_processing := False\<rparr> else s)"

text \<open>
  \<open>handleRestart\<close>, before and after the server's answer, which may be an error.  It does not
  touch the input, but where the chat goes back to its first screen, that has an input of its own.
\<close>

definition begin_restart :: "string \<Rightarrow> chat_state \<Rightarrow> chat_state" where
  "begin_restart new_thread s = s\<lparr>ch_thread := new_thread, ch_resets := Suc (ch_resets s)\<rparr>"

definition finish_restart :: "bool \<Rightarrow> chat_state \<Rightarrow> chat_state" where
  "finish_restart advanced s =
     (if ch_resets s = 0 then s
      else s\<lparr>ch_resets := ch_resets s - 1, ch_messages := [], ch_started := (advanced \<and> ch_started s),
             ch_input := (if \<not> advanced \<and> ch_started s then [] else ch_input s),
             ch_processing := False, ch_value := [], ch_examples := True, ch_followups := [], ch_last_query := []\<rparr>)"

section \<open>Suggestions\<close>

definition generate_followups :: "string \<Rightarrow> string list" where
  "generate_followups query =
     (let q = to_lower query
      in if includes_str q ''from contacts.txt show me which users belong to the crm system''
         then [''show me details of first one'', ''Show me details of Sarah'']
         else if includes_str q ''show me details of'' \<or> includes_str q ''details of sarah''
                 \<or> includes_str q ''details of first one''
         then [''How many employees work at her company'' @ [CHR 0x27] @ ''s account'',
               ''Which percentile is her account'' @ [CHR 0x27] @ ''s revenue across all accounts?'']
         else [])"

definition final_answer_complete :: "chat_state \<Rightarrow> chat_state" where
  "final_answer_complete s =
     (if ch_last_query s \<noteq> [] then s\<lparr>ch_followups := generate_followups (ch_last_query s)\<rparr> else s)"

definition example_click :: "(nat \<Rightarrow> string) \<Rightarrow> string \<Rightarrow> chat_state \<Rightarrow> chat_state" where
  "example_click fresh utterance s = handle_content_input fresh [Txt utterance] s"

text \<open>A suggestion is put into the input and sent a moment later by the same rendering.\<close>

definition followup_click :: "(nat \<Rightarrow> string) \<Rightarrow> string \<Rightarrow> chat_state \<Rightarrow> chat_state" where
  "followup_click fresh suggestion s =
     (let s1 = handle_content_input fresh [Txt suggestion] (s\<lparr>ch_followups := []\<rparr>)
      in s1\<lparr>ch_timers := ch_timers s @ [ch_processing s]\<rparr>)"

definition followup_timer :: "string \<Rightarrow> chat_state \<Rightarrow> chat_state" where
  "followup_timer new_thread s =
     (case ch_timers s of [] \<Rightarrow> s | seen # rest \<Rightarrow> handle_send seen new_thread (s\<lparr>ch_timers := rest\<rparr>))"

definition input_focus :: "chat_state \<Rightarrow> chat_state" where
  "input_focus s = (if trim (ch_value s) = [] then s\<lparr>ch_examples := True\<rparr> else s)"

section \<open>Keys\<close>

text \<open>Removing the reference at a place of the contents.\<close>

definition remove_chip :: "(nat \<Rightarrow> string) \<Rightarrow> nat \<Rightarrow> chat_state \<Rightarrow> chat_state" where
  "remove_chip fresh k s =
     (case drop k (ch_input s) of
        Chip p n inner # rest \<Rightarrow> handle_content_input fresh (take k (ch_input s) @ rest) s
      | _ \<Rightarrow> s)"

text \<open>
  \<open>handleKeyPress\<close>: \<open>inside\<close> is the place of the reference the cursor is in.
  The result says whether the browser's own action is left to it.
\<close>

definition key_outside :: "(nat \<Rightarrow> string) \<Rightarrow> string \<Rightarrow> string \<Rightarrow> bool \<Rightarrow> chat_state \<Rightarrow> bool \<times> chat_state" where
  "key_outside fresh new_thread key shift s =
     (let n = length (ch_filtered s); menu = (ch_open s \<and> ch_filtered s \<noteq> [])
      in if menu \<and> key = ''ArrowDown'' then (False, s\<lparr>ch_index := (ch_index s + 1) mod n\<rparr>)
         else if menu \<and> key = ''ArrowUp'' then (False, s\<lparr>ch_index := (ch_index s + n - 1) mod n\<rparr>)
         else if menu \<and> (key = ''Enter'' \<or> key = ''Tab'')
         then (False, handle_file_select fresh (fe_path (ch_filtered s ! ch_index s)) s)
         else if menu \<and> key = ''Escape'' then (False, set_search False (ch_query s) s)
         else if key = ''Enter'' \<and> \<not> shift then (False, handle_send (ch_processing s) new_thread s)
         else (True, s))"

definition handle_key_press ::
  "(nat \<Rightarrow> string) \<Rightarrow> string \<Rightarrow> nat option \<Rightarrow> string \<Rightarrow> bool \<Rightarrow> bool \<Rightarrow> chat_state \<Rightarrow> bool \<times> chat_state" where
  "handle_key_press fresh new_thread inside key ctrl shift s =
     (case inside of
        Some k \<Rightarrow>
          if key \<in> {''Backspace'', ''Delete''} then (False, remove_chip fresh k s)
          else if key \<notin> {''ArrowLeft'', ''ArrowRight'', ''ArrowUp'', ''ArrowDown'', ''Home'', ''End'', ''PageUp'', ''PageDown''}
                  \<and> \<not> ctrl
          then (False, s)
          else key_outside fresh new_thread key shift s
      | None \<Rightarrow> key_outside fresh new_thread key shift s)"

section \<open>The chat as a machine\<close>

datatype chat_event =
    EditTo "piece list"
  | PressKey "nat option" string bool bool
  | SelectFile string
  | SendClick
  | Settled nat
  | BeginRestart
  | FinishRestart bool
  | FilesLoaded "file_node list"
  | FinalAnswer
  | ExampleClick string
  | FollowupClick string
  | FollowupTimer
  | InputFocus
  | HoverFile nat

text \<open>One event: \<open>fresh\<close> names references, \<open>thread\<close> the threads drawn, by the event's number.\<close>

definition chat_do :: "(nat \<Rightarrow> string) \<Rightarrow> (nat \<Rightarrow> string) \<Rightarrow> nat \<Rightarrow> chat_event \<Rightarrow> chat_state \<Rightarrow> chat_state" where
  "chat_do fresh thread k ev s =
     (case ev of
        EditTo ps \<Rightarrow> handle_content_input fresh ps s
      | PressKey inside key ctrl shift \<Rightarrow> snd (handle_key_press fresh (thread k) inside key ctrl shift s)
      | SelectFile path \<Rightarrow> (if ch_open s \<and> path \<in> fe_path ` set (ch_filtered s) then handle_file_select fresh path s else s)
      | SendClick \<Rightarrow> (if trim (ch_value s) = [] \<or> ch_processing s then s else handle_send (ch_processing s) (thread k) s)
      | Settled i \<Rightarrow> settle_run i s
      | BeginRestart \<Rightarrow> begin_restart (thread k) s
      | FinishRestart advanced \<Rightarrow> finish_restart advanced s
      | FilesLoaded tree \<Rightarrow> load_files tree s
      | FinalAnswer \<Rightarrow> final_answer_complete s
      | ExampleClick u \<Rightarrow> example_click fresh u s
      | FollowupClick q \<Rightarrow> (if q \<in> set (ch_followups s) then followup_click fresh q s else s)
      | FollowupTimer \<Rightarrow> followup_timer (thread k) s
      | InputFocus \<Rightarrow> input_focus s
      | HoverFile i \<Rightarrow> (if ch_open s \<and> i < length (ch_filtered s) then s\<lparr>ch_index := i\<rparr> else s))"

fun chat_run_events :: "(nat \<Rightarrow> string) \<Rightarrow> (nat \<Rightarrow> string) \<Rightarrow> nat \<Rightarrow> chat_event list \<Rightarrow> chat_state \<Rightarrow> chat_state" where
  "chat_run_events fresh thread k [] s = s"
| "chat_run_events fresh thread k (ev # evs) s =
     chat_run_events fresh thread (Suc k) evs (chat_do fresh thread k ev s)"


section \<open>What is sent\<close>

definition trim_end :: "string \<Rightarrow> string" where
  "trim_end s = rev (trim_start (rev s))"

lemma trim_start_append: "(\<exists>c \<in> set m. \<not> is_ws c) \<Longrightarrow> trim_start (m @ b) = trim_start m @ b"
  unfolding trim_start_def using dropWhile_append1 by metis

lemma trim_around:
  assumes "m \<noteq> []" "\<not> is_ws (hd m)" "\<not> is_ws (last m)"
  shows "trim (a @ m @ b) = trim_start a @ m @ trim_end b"
proof -
  have s: "trim_start (a @ m @ b) = trim_start a @ m @ b"
  proof (cases "\<exists>c \<in> set a. \<not> is_ws c")
    case True
    then show ?thesis by (simp add: trim_start_append)
  next
    case False
    then have "trim_start a = []" "trim_start (a @ m @ b) = trim_start (m @ b)"
      by (simp_all add: trim_start_def dropWhile_append2)
    then show ?thesis using assms by (cases m) (simp_all add: trim_start_def)
  qed
  have "trim_start (rev b @ rev m @ rev (trim_start a)) = trim_start (rev b) @ rev m @ rev (trim_start a)"
  proof (cases "\<exists>c \<in> set (rev b). \<not> is_ws c")
    case True
    then show ?thesis by (simp add: trim_start_append)
  next
    case False
    have "trim_start (rev b) = []" using False by (simp add: trim_start_def)
    moreover have "trim_start (rev b @ rev m @ rev (trim_start a)) = trim_start (rev m @ rev (trim_start a))"
      unfolding trim_start_def by (rule dropWhile_append2) (use False in auto)
    moreover have "rev m = last m # rev (butlast m)"
      using assms(1) by (metis append_butlast_last_id rev_eq_Cons_iff rev_rev_ident)
    moreover have "trim_start ((last m # rev (butlast m)) @ x) = (last m # rev (butlast m)) @ x" for x
      using assms(3) by (simp add: trim_start_def)
    ultimately show ?thesis by (metis append_Nil)
  qed
  then show ?thesis by (simp add: trim_def s trim_end_def)
qed

lemma cut_first_marked: "c \<notin> set a \<Longrightarrow> c \<notin> set n \<Longrightarrow> cut_first (n @ [c]) (a @ n @ c # b) = Some (a, b)"
proof (induction a)
  case Nil
  then show ?case by (cases n) (auto simp: prefix_def)
next
  case (Cons x a)
  have "\<not> prefix (n @ [c]) (x # a @ n @ c # b)"
  proof
    assume "prefix (n @ [c]) (x # a @ n @ c # b)"
    then obtain u where "x # a @ n @ c # b = n @ c # u" by (auto simp: prefix_def)
    then have "takeWhile (\<lambda>y. y \<noteq> c) ((x # a @ n) @ c # b) = takeWhile (\<lambda>y. y \<noteq> c) (n @ c # u)" by simp
    moreover have "takeWhile (\<lambda>y. y \<noteq> c) ((x # a @ n) @ c # b) = (x # a @ n) @ takeWhile (\<lambda>y. y \<noteq> c) (c # b)"
      by (rule takeWhile_append2) (use Cons.prems in auto)
    moreover have "takeWhile (\<lambda>y. y \<noteq> c) (n @ c # u) = n @ takeWhile (\<lambda>y. y \<noteq> c) (c # u)"
      by (rule takeWhile_append2) (use Cons.prems in auto)
    ultimately have "length (x # a @ n) = length n" by simp
    then show False by simp
  qed
  then show ?case using Cons by simp
qed

lemma expand_dollar_none: "CHR ''$'' \<notin> set r \<Longrightarrow> expand_dollar a m b r = r"
  by (induction a m b r rule: expand_dollar.induct) auto

text \<open>
  An input in which the references can be found again: they show their file's name, no
  text, name or path has the sign of the remove button, no path a dollar sign, which
  \<open>replace\<close> would interpret, no name begins and no path ends with a blank.
\<close>

definition plain_piece :: "piece \<Rightarrow> bool" where
  "plain_piece p \<longleftrightarrow>
     (case p of
        Txt s \<Rightarrow> times_sign \<notin> set s
      | Break \<Rightarrow> True
      | Chip path name inner \<Rightarrow> inner = [Txt name] \<and> path \<noteq> [] \<and> name \<noteq> [] \<and> times_sign \<notin> set path \<union> set name
          \<and> CHR ''$'' \<notin> set path \<and> \<not> is_ws (hd name) \<and> \<not> is_ws (last path))"

definition sent_piece :: "piece \<Rightarrow> string" where
  "sent_piece p = (case p of Txt s \<Rightarrow> s | Break \<Rightarrow> [] | Chip path name inner \<Rightarrow> ''./'' @ path)"

lemma sent_piece_simps [simp]:
  "sent_piece (Txt s) = s" "sent_piece Break = []" "sent_piece (Chip path name inner) = ''./'' @ path"
  by (simp_all add: sent_piece_def)

lemma replace_chips:
  assumes "list_all plain_piece ps" "times_sign \<notin> set pre"
  shows "foldl (\<lambda>s (path, name, shown). replace_first s shown (''./'' @ path)) (trim (pre @ content_text ps)) (file_chips ps)
    = trim (pre @ concat (map sent_piece ps))"
  using assms
proof (induction ps arbitrary: pre)
  case Nil
  then show ?case by (simp add: content_text_def file_chips_def)
next
  case (Cons p ps)
  show ?case
  proof (cases p)
    case (Txt s)
    then show ?thesis
      using Cons.IH [of "pre @ s"] Cons.prems
      by (simp add: plain_piece_def content_text_def file_chips_def)
  next
    case Break
    then show ?thesis
      using Cons.IH [of pre] Cons.prems by (simp add: content_text_def file_chips_def)
  next
    case (Chip path name inner)
    have f: "inner = [Txt name]" "path \<noteq> []" "name \<noteq> []" "times_sign \<notin> set path" "times_sign \<notin> set name"
      "CHR ''$'' \<notin> set path" "\<not> is_ws (hd name)" "\<not> is_ws (last path)"
      using Cons.prems(1) Chip by (auto simp: plain_piece_def)
    let ?rest = "content_text ps"
    have w: "\<not> is_ws times_sign" by (simp add: times_sign_def is_ws_def)
    have t: "trim (pre @ content_text (p # ps)) = trim_start pre @ (name @ [times_sign]) @ trim_end ?rest"
      using trim_around [of "name @ [times_sign]" pre ?rest] f(3,7) w by (simp add: Chip f(1) content_text_def)
    have "times_sign \<notin> set (trim_start pre)"
      using Cons.prems(2) by (auto simp: trim_start_def dest: set_dropWhileD)
    then have c: "cut_first (name @ [times_sign]) (trim_start pre @ (name @ [times_sign]) @ trim_end ?rest)
        = Some (trim_start pre, trim_end ?rest)"
      using f(5) by (simp add: cut_first_marked)
    have e: "expand_dollar (trim_start pre) (name @ [times_sign]) (trim_end ?rest) (''./'' @ path) = ''./'' @ path"
      by (rule expand_dollar_none) (use f(6) in simp)
    have "replace_first (trim (pre @ content_text (p # ps))) (name @ [times_sign]) (''./'' @ path)
        = trim_start pre @ (''./'' @ path) @ trim_end ?rest"
      by (simp only: t replace_first_def c e option.case prod.case)
    also have "\<dots> = trim ((pre @ ''./'' @ path) @ ?rest)"
      using trim_around [of "''./'' @ path" pre ?rest] f(2,8) by (simp add: is_ws_def)
    finally have r: "replace_first (trim (pre @ content_text (p # ps))) (name @ [times_sign]) (''./'' @ path)
        = trim ((pre @ ''./'' @ path) @ ?rest)" .
    have fc: "file_chips (p # ps) = (path, name, name @ [times_sign]) # file_chips ps"
      using f(1-3) by (simp add: Chip file_chips_def)
    have "times_sign \<notin> set (pre @ ''./'' @ path)" using Cons.prems(2) f(4) by (simp add: times_sign_def)
    then show ?thesis
      using Cons.IH [of "pre @ ''./'' @ path"] Cons.prems(1)
      by (simp only: fc r foldl.simps prod.case) (simp add: Chip)
  qed
qed

text \<open>
  C28. What is sent is the text of the input, its pieces one after the other, with every
  reference written as \<open>./\<close> and the path of its file and blanks at the ends removed; line
  breaks are left out, so that lines run together.  This holds as long as no text, name or path has the
  sign of the remove button, no path a dollar sign, no name begins and no path ends with a
  blank, and the references show their file's name.
\<close>

theorem sent_text_names_files:
  assumes "list_all plain_piece ps"
  shows "processed_text ps = trim (concat (map sent_piece ps))"
  using replace_chips [OF assms, of "[]"] by (simp add: processed_text_def)

theorem sent_text_names_files_witness:
  "processed_text [Txt '' show '', Chip ''out/a.txt'' ''a.txt'' [Txt ''a.txt''], Break, Txt ''and '', Chip ''b/a.txt'' ''a.txt'' [Txt ''a.txt'']]
     = trim '' show ./out/a.txtand ./b/a.txt''"
  using sent_text_names_files [of "[Txt '' show '', Chip ''out/a.txt'' ''a.txt'' [Txt ''a.txt''], Break, Txt ''and '', Chip ''b/a.txt'' ''a.txt'' [Txt ''a.txt'']]"]
  by (simp add: plain_piece_def times_sign_def is_ws_def)


section \<open>Selecting a file\<close>

text \<open>
  Selecting a file in a plain text puts the reference at the first \<open>@\<close> of the
  text.  That replaces the search when there is no other; with an earlier \<open>@\<close>, as in
  an address, the reference lands there, eats as many characters as the search has, and
  the search itself stays.
\<close>

theorem selection_hits_first_at:
  assumes "ch_input s = [Txt v]" "find (\<lambda>f. fe_path f = path) (ch_all s) = Some f"
    and "v = a @ CHR ''@'' # b" "CHR ''@'' \<notin> set a" "file_trigger v = Some t"
  shows "ch_input (handle_file_select fresh path s) =
      [Txt a, Chip path (fe_name f) [Txt (fe_name f)], Txt '' '', Txt (drop (length t) b)]
    \<and> (CHR ''@'' \<notin> set b \<longrightarrow> b = t @ drop (length t) b)
    \<and> (\<forall>x rest. b = x @ CHR ''@'' # t @ rest \<and> length t \<le> length x \<longrightarrow>
         drop (length t) b = drop (length t) x @ CHR ''@'' # t @ rest)"
proof -
  obtain before after where l: "cut_last_at v = Some (before, after)" "t = search_term after"
    using assms(5) by (auto simp: file_trigger_def split: option.splits if_splits)
  have c: "cut_first ''@'' v = Some (a, b)"
    using cut_first_char(1) [of "CHR ''@''" a b] assms(3,4) by simp
  have input: "ch_input (handle_content_input fr ps st) = ps" for fr ps st
    by (simp add: handle_content_input_def set_search_def refilter_def Let_def split: option.split)
  have "content_text (ch_input s) = v" by (simp add: assms(1) content_text_def)
  then have "ch_input (handle_file_select fresh path s) =
      [Txt a, Chip path (fe_name f) [Txt (fe_name f)], Txt '' '', Txt (drop (length t) b)]"
    using assms(1,2) l c by (simp add: handle_file_select_def input)
  moreover have "b = t @ drop (length t) b" if "CHR ''@'' \<notin> set b"
  proof -
    have "cut_last_at v = Some (a, b)" using that assms(3) by (simp add: cut_last_at_iff)
    then have "after = b" using l(1) by simp
    obtain rest where "after = search_term after @ rest" "drop (length (search_term after)) after = rest"
      by (rule search_term_drop)
    then show ?thesis using l(2) \<open>after = b\<close> by metis
  qed
  ultimately show ?thesis by auto
qed

definition demo_chat :: "string \<Rightarrow> chat_state" where
  "demo_chat v = (chat_init ''t'' True)\<lparr>ch_input := [Txt v], ch_all := [\<lparr>fe_name = ''fi.txt'', fe_path = ''fi.txt''\<rparr>]\<rparr>"

theorem selection_hits_first_at_witness:
  "content_text (ch_input (handle_file_select (\<lambda>_. []) ''fi.txt'' (demo_chat ''ask ann@x.org on @fi'')))
     = ''ask annfi.txt'' @ [times_sign] @ '' org on @fi''"
proof -
  have t: "file_trigger ''ask ann@x.org on @fi'' = Some ''fi''"
    by (simp add: file_trigger_def search_term_def is_ws_def)
  have "ch_input (handle_file_select (\<lambda>_. []) ''fi.txt'' (demo_chat ''ask ann@x.org on @fi'')) =
      [Txt ''ask ann'', Chip ''fi.txt'' (fe_name \<lparr>fe_name = ''fi.txt'', fe_path = ''fi.txt''\<rparr>)
         [Txt (fe_name \<lparr>fe_name = ''fi.txt'', fe_path = ''fi.txt''\<rparr>)], Txt '' '', Txt (drop (length ''fi'') ''x.org on @fi'')]"
    by (rule conjunct1 [OF selection_hits_first_at [OF _ _ _ _ t]]) (simp_all add: demo_chat_def chat_init_def)
  then show ?thesis by (simp add: content_text_def del: drop_append)
qed

section \<open>The chat over all events\<close>

definition menu_ok :: "chat_state \<Rightarrow> bool" where
  "menu_ok s \<longleftrightarrow> (ch_filtered s \<noteq> [] \<longrightarrow> ch_open s \<and> ch_index s < length (ch_filtered s))
     \<and> length (ch_filtered s) \<le> 10"

definition chosen_ok :: "chat_state \<Rightarrow> bool" where
  "chosen_ok s \<longleftrightarrow> ch_input s = []
     \<or> map (\<lambda>(f, i). (fe_path f, fe_name f)) (ch_chosen s) = map (\<lambda>(p, n, t). (p, n)) (file_chips (ch_input s))"

definition quiet :: "chat_state \<Rightarrow> bool" where
  "quiet s \<longleftrightarrow> length (ch_runs s) \<le> 1 \<and> (ch_processing s \<longleftrightarrow> ch_runs s \<noteq> [])"

definition runs_ok :: "chat_state \<Rightarrow> bool" where
  "runs_ok s \<longleftrightarrow> distinct (map cr_id (ch_runs s)) \<and> (\<forall>r \<in> set (ch_runs s). cr_id r < ch_next s \<and> cr_text r \<noteq> [])"

lemma input_keeps [simp]:
  "ch_runs (handle_content_input fresh ps s) = ch_runs s"
  "ch_processing (handle_content_input fresh ps s) = ch_processing s"
  "ch_messages (handle_content_input fresh ps s) = ch_messages s"
  "ch_input (handle_content_input fresh ps s) = ps"
  "ch_value (handle_content_input fresh ps s) = content_text ps"
  "ch_timers (handle_content_input fresh ps s) = ch_timers s"
  "ch_next (handle_content_input fresh ps s) = ch_next s"
  by (simp_all add: handle_content_input_def set_search_def refilter_def Let_def split: option.split)

lemma search_keeps [simp]:
  "ch_runs (set_search b q s) = ch_runs s" "ch_processing (set_search b q s) = ch_processing s"
  "ch_messages (set_search b q s) = ch_messages s" "ch_input (set_search b q s) = ch_input s"
  "ch_chosen (set_search b q s) = ch_chosen s" "ch_next (set_search b q s) = ch_next s"
  by (simp_all add: set_search_def refilter_def Let_def)

lemma select_keeps [simp]:
  "ch_runs (handle_file_select fresh path s) = ch_runs s"
  "ch_processing (handle_file_select fresh path s) = ch_processing s"
  "ch_messages (handle_file_select fresh path s) = ch_messages s"
  by (simp_all add: handle_file_select_def Let_def split: option.split prod.split)

lemma remove_keeps [simp]:
  "ch_runs (remove_chip fresh k s) = ch_runs s" "ch_processing (remove_chip fresh k s) = ch_processing s"
  "ch_messages (remove_chip fresh k s) = ch_messages s"
  by (simp_all add: remove_chip_def split: list.split piece.split)

lemma quiet_send: "quiet s \<Longrightarrow> seen = ch_processing s \<Longrightarrow> quiet (handle_send seen t s)"
  by (auto simp: handle_send_def quiet_def Let_def)

lemma quiet_settle: "quiet s \<Longrightarrow> quiet (settle_run i s)"
proof -
  assume q: "quiet s"
  show ?thesis
  proof (cases "ch_runs s")
    case (Cons r rs)
    then have "rs = []" using q by (simp add: quiet_def)
    then show ?thesis using q Cons by (auto simp: settle_run_def quiet_def)
  qed (use q in \<open>simp add: settle_run_def\<close>)
qed

lemma snd_if: "(c \<Longrightarrow> P (snd a)) \<Longrightarrow> (\<not> c \<Longrightarrow> P (snd b)) \<Longrightarrow> P (snd (if c then a else b))"
  by simp

text \<open>What a key can do to the state.\<close>

lemma key_cases:
  assumes "P s"
    and "\<And>i. i < length (ch_filtered s) \<Longrightarrow> P (s\<lparr>ch_index := i\<rparr>)"
    and "\<And>path. P (handle_file_select fresh path s)"
    and "P (set_search False (ch_query s) s)"
    and "P (handle_send (ch_processing s) t s)"
    and "\<And>k. P (remove_chip fresh k s)"
  shows "P (snd (handle_key_press fresh t inside key ctrl shift s))"
proof -
  have out: "P (snd (key_outside fresh t key shift s))"
    unfolding key_outside_def Let_def
    by (intro snd_if [where P = P]; unfold snd_conv;
        (rule assms(1) assms(3-6) | (rule assms(2), rule mod_less_divisor, simp)))
  show ?thesis
    unfolding handle_key_press_def
    by (cases inside) (simp_all only: option.case out, (intro snd_if [where P = P] out; use assms in \<open>simp only: snd_conv\<close>)+)
qed

lemma quiet_same: "ch_runs s' = ch_runs s \<and> ch_processing s' = ch_processing s \<Longrightarrow> quiet s \<Longrightarrow> quiet s'"
  by (simp add: quiet_def)

lemma quiet_key: "quiet s \<Longrightarrow> quiet (snd (handle_key_press fresh t inside key ctrl shift s))"
  by (rule key_cases) (auto intro: quiet_send quiet_same [of _ s])

definition calm_event :: "chat_event \<Rightarrow> bool" where
  "calm_event ev \<longleftrightarrow> (case ev of FinishRestart _ \<Rightarrow> False | FollowupTimer \<Rightarrow> False | _ \<Rightarrow> True)"

lemma quiet_do: "calm_event ev \<Longrightarrow> quiet s \<Longrightarrow> quiet (chat_do fresh thread k ev s)"
proof (cases ev)
  case (PressKey i key c sh)
  then show "quiet s \<Longrightarrow> ?thesis" by (simp add: chat_do_def quiet_key)
next
  case (Settled i)
  then show "quiet s \<Longrightarrow> ?thesis" by (simp add: chat_do_def quiet_settle)
next
  case SendClick
  then show "quiet s \<Longrightarrow> ?thesis" using quiet_send [of s False] by (simp add: chat_do_def)
qed (erule quiet_same [rotated], simp add: chat_do_def calm_event_def begin_restart_def load_files_def refilter_def
      final_answer_complete_def example_click_def followup_click_def input_focus_def Let_def)+


text \<open>
  As long as no restart is completed and no suggestion is sent, at most one request is
  under way, and the chat shows itself busy exactly then.
\<close>

theorem chat_one_request:
  assumes "list_all calm_event evs"
  shows "length (ch_runs (chat_run_events fresh thread 0 evs (chat_init t started))) \<le> 1
    \<and> (ch_processing (chat_run_events fresh thread 0 evs (chat_init t started))
        \<longleftrightarrow> ch_runs (chat_run_events fresh thread 0 evs (chat_init t started)) \<noteq> [])"
proof -
  have "quiet (chat_run_events fresh thread k evs s)" if "quiet s" for k s
    using assms that by (induction evs arbitrary: k s) (simp_all add: quiet_do)
  moreover have "quiet (chat_init t started)" by (simp add: quiet_def chat_init_def)
  ultimately show ?thesis unfolding quiet_def by blast
qed

theorem chat_one_request_witness:
  "length (ch_runs (chat_run_events (\<lambda>_. []) (\<lambda>_. ''n'') 0 [EditTo [Txt ''a''], SendClick, EditTo [Txt ''b''], SendClick]
     (chat_init ''t'' True))) \<le> 1"
  using chat_one_request [of "[EditTo [Txt ''a''], SendClick, EditTo [Txt ''b''], SendClick]" "\<lambda>_. []" "\<lambda>_. ''n''" "''t''" True]
  by (simp add: calm_event_def)

text \<open>
  A restart does not stop the request under way: a second one can be sent next to it,
  in the new thread; when the old one settles, the chat counts as idle, and a third can be
  sent while the second is still under way.
\<close>

theorem restart_leaves_request:
  "map cr_thread (ch_runs (chat_run_events (\<lambda>_. []) (\<lambda>_. ''new'') 0
      [EditTo [Txt ''a''], SendClick, BeginRestart, FinishRestart False, EditTo [Txt ''b''], SendClick]
      (chat_init ''old'' False))) = [''old'', ''new'']
   \<and> \<not> ch_processing (chat_run_events (\<lambda>_. []) (\<lambda>_. ''new'') 0
      [EditTo [Txt ''a''], SendClick, BeginRestart, FinishRestart False, EditTo [Txt ''b''], SendClick, Settled 0]
      (chat_init ''old'' False))
   \<and> map cr_text (ch_runs (chat_run_events (\<lambda>_. []) (\<lambda>_. ''new'') 0
      [EditTo [Txt ''a''], SendClick, BeginRestart, FinishRestart False, EditTo [Txt ''b''], SendClick, Settled 0,
       EditTo [Txt ''c''], SendClick] (chat_init ''old'' False))) = [''b'', ''c'']"
  by (simp add: chat_do_def handle_content_input_def set_search_def refilter_def file_trigger_def content_text_def
      handle_send_def settle_run_def begin_restart_def finish_restart_def chat_init_def processed_text_def file_chips_def
      trim_def trim_start_def is_ws_def chosen_files_def Let_def)

fun paired :: "chat_message list \<Rightarrow> bool" where
  "paired [] = True"
| "paired (UserMessage ps # CardMessage # ms) = paired ms"
| "paired _ = False"

lemma paired_append: "paired ms \<Longrightarrow> paired (ms @ [UserMessage ps, CardMessage])"
  by (induction ms rule: paired.induct) simp_all

definition chat_ok :: "chat_state \<Rightarrow> bool" where
  "chat_ok s \<longleftrightarrow> menu_ok s \<and> chosen_ok s \<and> runs_ok s \<and> paired (ch_messages s)"

lemma replace_first_nonempty: "s \<noteq> [] \<Longrightarrow> replace_first s m (''./'' @ p) \<noteq> []"
  by (auto simp: replace_first_def split: option.split)

lemma processed_nonempty:
  assumes "trim (content_text ps) \<noteq> []"
  shows "processed_text ps \<noteq> []"
proof -
  have "foldl (\<lambda>s (path, name, shown). replace_first s shown (''./'' @ path)) t cs \<noteq> []" if "t \<noteq> []" for t and cs :: "(string \<times> string \<times> string) list"
    using that
  proof (induction cs arbitrary: t)
    case (Cons c cs)
    obtain p n m where "c = (p, n, m)" by (cases c)
    then show ?case using Cons replace_first_nonempty [of t m p] by (simp del: append.simps)
  qed simp
  then show ?thesis using assms by (simp add: processed_text_def)
qed

lemma chosen_files_paths: "map (\<lambda>(f, i). (fe_path f, fe_name f)) (chosen_files fresh old ps) = map (\<lambda>(p, n, t). (p, n)) (file_chips ps)"
proof -
  have "map (\<lambda>(f, i). (fe_path f, fe_name f)) (chosen_files fresh old ps)
      = map (\<lambda>(p, n, t). (p, n)) (map snd (enumerate 0 (file_chips ps)))"
    by (simp only: chosen_files_def map_map) (auto split: option.split)
  then show ?thesis by simp
qed

lemma offered_length: "length (offered_files files t) \<le> 10"
  by (rule offered_files_spec(1))

lemma menu_search: "menu_ok s \<Longrightarrow> menu_ok (set_search b q s)"
  using offered_length [of "ch_all s" q] by (auto simp: menu_ok_def set_search_def refilter_def Let_def)

lemma menu_load: "menu_ok (load_files tree s)"
  using offered_length by (auto simp: menu_ok_def load_files_def refilter_def)

lemma menu_cong:
  "ch_filtered s' = ch_filtered s \<Longrightarrow> ch_open s' = ch_open s \<Longrightarrow> ch_index s' = ch_index s \<Longrightarrow> menu_ok s \<Longrightarrow> menu_ok s'"
  by (simp add: menu_ok_def)

lemma ok_input: "chat_ok s \<Longrightarrow> chat_ok (handle_content_input fresh ps s)"
proof -
  assume s: "chat_ok s"
  have "menu_ok (handle_content_input fresh ps s)"
  proof -
    have m: "menu_ok (s\<lparr>ch_input := ps, ch_value := v, ch_examples := e\<rparr>)" for v e
      using s by (simp add: chat_ok_def menu_ok_def)
    have "menu_ok (t\<lparr>ch_chosen := c\<rparr>) = menu_ok t" for t c by (simp add: menu_ok_def)
    then show ?thesis by (simp add: handle_content_input_def Let_def menu_search [OF m] split: option.split)
  qed
  moreover have "runs_ok (handle_content_input fresh ps s)"
    using s by (simp add: chat_ok_def runs_ok_def)
  moreover have "chosen_ok (handle_content_input fresh ps s)"
    using chosen_files_paths by (simp add: chosen_ok_def) (simp add: handle_content_input_def Let_def)
  ultimately show ?thesis using s by (simp add: chat_ok_def)
qed

lemma ok_search: "chat_ok s \<Longrightarrow> chat_ok (set_search b q s)"
  using menu_search [of s b q] by (simp add: chat_ok_def chosen_ok_def runs_ok_def)

lemma ok_select: "chat_ok s \<Longrightarrow> chat_ok (handle_file_select fresh path s)"
  by (simp add: handle_file_select_def ok_input Let_def split: option.split prod.split)

lemma ok_remove: "chat_ok s \<Longrightarrow> chat_ok (remove_chip fresh k s)"
  by (simp add: remove_chip_def ok_input split: list.split piece.split)

lemma ok_send: "chat_ok s \<Longrightarrow> chat_ok (handle_send seen t s)"
  by (auto simp: handle_send_def chat_ok_def menu_ok_def chosen_ok_def runs_ok_def file_chips_def paired_append
      processed_nonempty Let_def)

lemma ok_settle: "chat_ok s \<Longrightarrow> chat_ok (settle_run i s)"
  by (auto simp: settle_run_def chat_ok_def menu_ok_def chosen_ok_def runs_ok_def distinct_map_filter)

lemma ok_index: "chat_ok s \<Longrightarrow> i < length (ch_filtered s) \<Longrightarrow> chat_ok (s\<lparr>ch_index := i\<rparr>)"
  by (auto simp: chat_ok_def menu_ok_def chosen_ok_def runs_ok_def)

lemma ok_key: "chat_ok s \<Longrightarrow> chat_ok (snd (handle_key_press fresh t inside key ctrl shift s))"
  by (rule key_cases [where P = chat_ok])
    (simp_all add: ok_index ok_select ok_search ok_send ok_remove)

lemma ok_do: "chat_ok s \<Longrightarrow> chat_ok (chat_do fresh thread k ev s)"
proof (cases ev)
  case (FilesLoaded tree)
  moreover assume "chat_ok s"
  ultimately show ?thesis using menu_load [of tree s]
    by (simp add: chat_do_def chat_ok_def chosen_ok_def runs_ok_def) (simp add: load_files_def refilter_def)
next
  case (FollowupClick q)
  moreover assume "chat_ok s"
  then have "chat_ok (s\<lparr>ch_followups := []\<rparr>)" by (simp add: chat_ok_def menu_ok_def chosen_ok_def runs_ok_def)
  from ok_input [OF this, where fresh = fresh and ps = "[Txt q]"] have "chat_ok (followup_click fresh q s)"
    by (simp add: followup_click_def Let_def chat_ok_def menu_ok_def chosen_ok_def runs_ok_def)
  ultimately show ?thesis using \<open>chat_ok s\<close> by (simp add: chat_do_def)
next
  case FollowupTimer
  moreover assume s: "chat_ok s"
  have "chat_ok (s\<lparr>ch_timers := ts\<rparr>)" for ts using s by (simp add: chat_ok_def menu_ok_def chosen_ok_def runs_ok_def)
  then have "chat_ok (followup_timer (thread k) s)"
    using s by (simp add: followup_timer_def ok_send split: list.split)
  ultimately show ?thesis by (simp add: chat_do_def)
next
  case (HoverFile i)
  then show "chat_ok s \<Longrightarrow> ?thesis" by (simp add: chat_do_def ok_index)
qed (simp_all add: chat_do_def ok_input ok_select ok_send ok_settle ok_key example_click_def,
    simp_all add: chat_ok_def menu_ok_def chosen_ok_def runs_ok_def begin_restart_def finish_restart_def
      final_answer_complete_def input_focus_def)

text \<open>
  C27. Whatever happens, the selection of the menu points at a file of the list, which has
  at most ten; the files recorded as chosen are those the input refers to, unless it is empty; messages come in
  pairs of a question and its card; and the requests under way are different and none is
  empty.
\<close>

theorem chat_state_consistent:
  "let s = chat_run_events fresh thread 0 evs (chat_init t started)
   in (ch_filtered s = [] \<or> ch_open s \<and> ch_index s < length (ch_filtered s)) \<and> length (ch_filtered s) \<le> 10
    \<and> (ch_input s = []
       \<or> map (\<lambda>(f, i). (fe_path f, fe_name f)) (ch_chosen s) = map (\<lambda>(p, n, x). (p, n)) (file_chips (ch_input s)))
    \<and> paired (ch_messages s)
    \<and> distinct (map cr_id (ch_runs s)) \<and> [] \<notin> cr_text ` set (ch_runs s)"
proof -
  have "chat_ok (chat_run_events fresh thread k evs s)" if "chat_ok s" for k s
    using that by (induction evs arbitrary: k s) (simp_all add: ok_do)
  moreover have "chat_ok (chat_init t started)"
    by (simp add: chat_ok_def menu_ok_def chosen_ok_def runs_ok_def chat_init_def file_chips_def)
  ultimately have "chat_ok (chat_run_events fresh thread 0 evs (chat_init t started))" by simp
  then show ?thesis unfolding Let_def chat_ok_def menu_ok_def chosen_ok_def runs_ok_def by fastforce
qed

end
