(* ===== verification/Policies.thy ===== *)
theory Policies
  imports Js_Value
begin

text \<open>
  The policies dialog, \<open>agentic_chat/src/PoliciesConfig.tsx\<close>: loading, normalising,
  editing and saving the policies of the agent, and its input of tags.  Policies are
  parsed JSON and keep the fields the dialog does not know.  The answers of the server,
  \<open>JSON.parse\<close> and clocks are arguments.
\<close>

section \<open>The input of tags\<close>

record tag_input =
  tg_values :: "string list"
  tg_text :: string

definition add_tag :: "string \<Rightarrow> tag_input \<Rightarrow> tag_input" where
  "add_tag tag s =
     (let t = trim tag
      in s\<lparr>tg_values := (if t \<noteq> [] \<and> t \<notin> set (tg_values s) then tg_values s @ [t] else tg_values s), tg_text := []\<rparr>)"

definition remove_tag :: "nat \<Rightarrow> tag_input \<Rightarrow> tag_input" where
  "remove_tag i s = s\<lparr>tg_values := take i (tg_values s) @ drop (Suc i) (tg_values s)\<rparr>"

definition tag_key :: "string \<Rightarrow> tag_input \<Rightarrow> tag_input" where
  "tag_key key s =
     (if key = ''Enter'' \<or> key = '','' then add_tag (tg_text s) s
      else if key = ''Backspace'' \<and> tg_text s = [] \<and> tg_values s \<noteq> [] then remove_tag (length (tg_values s) - 1) s
      else s)"

definition tag_blur :: "tag_input \<Rightarrow> tag_input" where
  "tag_blur s = (if trim (tg_text s) \<noteq> [] then add_tag (tg_text s) s else s)"

datatype tag_event = TagText string | TagKey string | TagBlur | TagRemove nat

definition tag_do :: "tag_event \<Rightarrow> tag_input \<Rightarrow> tag_input" where
  "tag_do ev s =
     (case ev of TagText t \<Rightarrow> s\<lparr>tg_text := t\<rparr> | TagKey k \<Rightarrow> tag_key k s | TagBlur \<Rightarrow> tag_blur s | TagRemove i \<Rightarrow> remove_tag i s)"

section \<open>Policies and their triggers\<close>

definition mapped_array :: "string \<Rightarrow> jv \<Rightarrow> exn + jv list" where
  "mapped_array what v =
     (case v of JArr xs \<Rightarrow> Inr xs
      | _ \<Rightarrow> if nullish v then Inl (type_error v ''map'') else Inl (what @ ''.map is not a function''))"

definition normalized_value :: "jv \<Rightarrow> jv" where
  "normalized_value v = (case v of JArr xs \<Rightarrow> JArr xs | JStr s \<Rightarrow> JArr [JStr s] | _ \<Rightarrow> JArr [])"

definition normalize_trigger :: "jv \<Rightarrow> exn + jv" where
  "normalize_trigger t =
     try_bind (get_prop t ''type'') (\<lambda>ty.
       Inr (if ty = JStr ''natural_language'' \<and> fld t ''value'' \<noteq> JUndef
            then obj_with t [(''value'', normalized_value (fld t ''value''))] else t))"

definition normalize_policy :: "jv \<Rightarrow> exn + jv" where
  "normalize_policy p =
     try_bind (get_prop p ''triggers'') (\<lambda>ts.
     try_bind (mapped_array ''policy.triggers'' ts) (\<lambda>ts.
     try_bind (try_map normalize_trigger ts) (\<lambda>ts.
       Inr (obj_with p [(''triggers'', JArr ts)]))))"

section \<open>The dialog\<close>

datatype save_status = SaveIdle | Saving | SaveSuccess | SaveError

record policies_state =
  pc_enable :: jv
  pc_policies :: "jv list"
  pc_expanded :: "jv option"
  pc_status :: save_status
  pc_loading :: bool
  pc_tools :: jv
  pc_apps :: jv
  pc_toast :: "(string \<times> jv) option"      \<comment> \<open>title and subtitle\<close>
  pc_told :: "jv list"                    \<comment> \<open>told to the parent\<close>
  pc_closed :: bool

definition policies_init :: policies_state where
  "policies_init = \<lparr>pc_enable = JBool True, pc_policies = [], pc_expanded = None, pc_status = SaveIdle, pc_loading = True,
     pc_tools = JArr [], pc_apps = JArr [], pc_toast = None, pc_told = [], pc_closed = False\<rparr>"

text \<open>An answer of the server: whether it is a success, and its text.\<close>

record reply =
  re_ok :: bool
  re_text :: string

definition read_config :: "(string \<Rightarrow> exn + jv) \<Rightarrow> string \<Rightarrow> exn + (jv \<times> jv list)" where
  "read_config parse body =
     try_bind (parse body) (\<lambda>data.
     try_bind (get_prop data ''config'') (\<lambda>config.
       let pd = js_or (fld (js_or config (JObj [])) ''policies'') (JObj [])
       in try_bind (mapped_array ''(intermediate value)'' (js_nullor (fld pd ''policies'') (JArr []))) (\<lambda>ps.
          try_bind (try_map normalize_policy ps) (\<lambda>ps.
            Inr (js_nullor (fld pd ''enablePolicies'') (JBool True), ps)))))"

definition load_config :: "(string \<Rightarrow> exn + jv) \<Rightarrow> exn + reply \<Rightarrow> policies_state \<Rightarrow> policies_state" where
  "load_config parse r s =
     (let done = s\<lparr>pc_loading := False\<rparr>
      in case r of
           Inl _ \<Rightarrow> done
         | Inr rep \<Rightarrow>
             if \<not> re_ok rep then done
             else case read_config parse (re_text rep) of
                    Inl _ \<Rightarrow> done
                  | Inr (enable, ps) \<Rightarrow> done\<lparr>pc_enable := enable, pc_policies := ps\<rparr>)"

definition load_tools :: "(string \<Rightarrow> exn + jv) \<Rightarrow> exn + reply \<Rightarrow> policies_state \<Rightarrow> policies_state" where
  "load_tools parse r s =
     (case r of
        Inl _ \<Rightarrow> s
      | Inr rep \<Rightarrow>
          if \<not> re_ok rep then s
          else case try_bind (parse (re_text rep)) (\<lambda>d. try_bind (get_prop d ''tools'') (\<lambda>t. Inr (t, fld d ''apps''))) of
                 Inl _ \<Rightarrow> s
               | Inr (t, a) \<Rightarrow> s\<lparr>pc_tools := js_or t (JArr []), pc_apps := js_or a (JArr [])\<rparr>)"

text \<open>\<open>importPolicies\<close>: the text of the file; the result is what the alert says.\<close>

datatype import_alert = Imported nat | InvalidFormat | ImportFailed

definition import_policies :: "(string \<Rightarrow> exn + jv) \<Rightarrow> string \<Rightarrow> policies_state \<Rightarrow> import_alert \<times> policies_state" where
  "import_policies parse body s =
     (case try_bind (parse body) (\<lambda>d. try_bind (get_prop d ''policies'') (\<lambda>ps. Inr (d, ps))) of
        Inl _ \<Rightarrow> (ImportFailed, s)
      | Inr (d, JArr ps) \<Rightarrow>
          (case try_map normalize_policy ps of
             Inl _ \<Rightarrow> (ImportFailed, s)
           | Inr qs \<Rightarrow> (Imported (length qs),
               s\<lparr>pc_enable := js_nullor (fld d ''enablePolicies'') (pc_enable s), pc_policies := qs\<rparr>))
      | Inr _ \<Rightarrow> (InvalidFormat, s))"

section \<open>Saving\<close>

datatype manage_request = GetConfig | PatchPolicies jv | PostConfig jv

definition save_error_text :: "(string \<Rightarrow> exn + jv) \<Rightarrow> string \<Rightarrow> string \<Rightarrow> jv" where
  "save_error_text parse body d =
     (case try_bind (parse body) (\<lambda>e. try_bind (get_prop e ''error'') (\<lambda>x.
             Inr (js_or (js_or x (fld e ''message'')) (JStr d)))) of
        Inr v \<Rightarrow> v
      | Inl _ \<Rightarrow> JStr (if body \<noteq> [] then body else d))"

definition save_failed :: "string \<Rightarrow> jv \<Rightarrow> policies_state \<Rightarrow> policies_state" where
  "save_failed title m s = s\<lparr>pc_status := SaveError, pc_toast := Some (title, m)\<rparr>"

definition policies_json :: "jv \<Rightarrow> jv list \<Rightarrow> jv" where
  "policies_json enable ps = JObj [(''enablePolicies'', enable), (''policies'', JArr ps)]"

definition save_answered :: "(string \<Rightarrow> exn + jv) \<Rightarrow> jv \<Rightarrow> nat \<Rightarrow> exn + reply \<Rightarrow> policies_state \<Rightarrow> policies_state" where
  "save_answered parse cfg n r s =
     (case r of
        Inl e \<Rightarrow> save_failed ''Save failed'' (JStr e) s
      | Inr rep \<Rightarrow>
          if re_ok rep
          then s\<lparr>pc_status := SaveSuccess,
                 pc_toast := Some (''Policies saved successfully'',
                   JStr (show_nat n @ '' '' @ (if n = 1 then ''policy'' else ''policies'') @ '' saved'')),
                 pc_told := pc_told s @ [cfg]\<rparr>
          else save_failed ''Save failed'' (save_error_text parse (re_text rep) ''Failed to save policies'') s)"

text \<open>
  \<open>saveConfig\<close>, of the rendering \<open>seen\<close>; \<open>s\<close> is the state after the
  focused input was left.  The result starts with the requests made.  Outside the draft
  mode the whole configuration is loaded first and written back.
\<close>

definition save_config ::
  "(string \<Rightarrow> exn + jv) \<Rightarrow> bool \<Rightarrow> exn + reply \<Rightarrow> exn + reply \<Rightarrow> policies_state \<Rightarrow> policies_state
     \<Rightarrow> manage_request list \<times> policies_state" where
  "save_config parse draft loaded answer seen s =
     (case try_map normalize_policy (pc_policies seen) of
        Inl e \<Rightarrow> ([], save_failed ''Save failed'' (JStr e) s)
      | Inr ps \<Rightarrow>
          let cfg = policies_json (pc_enable seen) ps; n = length ps
          in if draft then ([PatchPolicies cfg], save_answered parse cfg n answer s)
             else case loaded of
                    Inl e \<Rightarrow> ([GetConfig], save_failed ''Save failed'' (JStr e) s)
                  | Inr rep \<Rightarrow>
                      if \<not> re_ok rep
                      then ([GetConfig], save_failed ''Save aborted''
                              (save_error_text parse (re_text rep) ''Failed to load existing configuration'') s)
                      else case try_bind (parse (re_text rep)) (\<lambda>d. get_prop d ''config'') of
                             Inl e \<Rightarrow> ([GetConfig], save_failed ''Save failed'' (JStr e) s)
                           | Inr c \<Rightarrow>
                               let full = obj_with (js_or c (JObj [])) [(''policies'', cfg)]
                               in ([GetConfig, PostConfig full], save_answered parse cfg n answer s))"

definition save_timer :: "policies_state \<Rightarrow> policies_state" where
  "save_timer s = s\<lparr>pc_status := SaveIdle, pc_closed := (pc_closed s \<or> pc_status s = SaveSuccess)\<rparr>"

section \<open>Editing\<close>

definition keyword_trigger :: "string \<Rightarrow> jv list \<Rightarrow> jv \<Rightarrow> jv" where
  "keyword_trigger target ks operator = JObj [(''type'', JStr ''keyword''), (''value'', JArr ks), (''target'', JStr target),
     (''case_sensitive'', JBool False), (''operator'', operator)]"

definition nl_trigger :: "string \<Rightarrow> jv" where
  "nl_trigger target = JObj [(''type'', JStr ''natural_language''), (''value'', JArr []), (''target'', JStr target),
     (''threshold'', JNum (7 / 10))]"

definition new_policy :: "string \<Rightarrow> string \<Rightarrow> string \<Rightarrow> string \<Rightarrow> jv list \<Rightarrow> (string \<times> jv) list \<Rightarrow> jv" where
  "new_policy ident name description ty triggers own =
     JObj ([(''id'', JStr ident), (''name'', JStr name), (''description'', JStr description),
        (''policy_type'', JStr ty), (''enabled'', JBool True), (''triggers'', JArr triggers)] @ own @ [(''priority'', JNum 50)])"

definition add_policy :: "jv \<Rightarrow> policies_state \<Rightarrow> policies_state" where
  "add_policy p s = s\<lparr>pc_policies := pc_policies s @ [p]\<rparr>"

definition add_intent_guard :: "string \<Rightarrow> policies_state \<Rightarrow> policies_state" where
  "add_intent_guard now = add_policy (new_policy (''guard_'' @ now) ''New Intent Guard''
     ''Blocks or modifies specific user intents'' ''intent_guard'' [keyword_trigger ''intent'' [] (JStr ''and'')]
     [(''response'', JObj [(''response_type'', JStr ''natural_language''), (''content'', JStr ''This action is not allowed.'')]),
      (''allow_override'', JBool False)])"

definition add_playbook :: "string \<Rightarrow> policies_state \<Rightarrow> policies_state" where
  "add_playbook now = add_policy (new_policy (''playbook_'' @ now) ''New Playbook''
     ''Step-by-step guidance for a task'' ''playbook'' [keyword_trigger ''intent'' [] (JStr ''and'')]
     [(''markdown_content'', JStr (join [newline] [''# Task Guide'', [], ''## Steps:'', [], ''1. First step'', ''2. Second step'', ''3. Third step''])),
      (''steps'', JArr [JObj [(''step_number'', JNum 1), (''instruction'', JStr ''First step''),
         (''expected_outcome'', JStr ''Step 1 complete''), (''tools_allowed'', JArr [])]])])"

definition add_tool_guide :: "string \<Rightarrow> policies_state \<Rightarrow> policies_state" where
  "add_tool_guide now = add_policy (new_policy (''tool_guide_'' @ now) ''New Tool Guide''
     ''Add additional context to tool descriptions'' ''tool_guide'' [JObj [(''type'', JStr ''always'')]]
     [(''target_tools'', JArr [JStr ''*'']), (''target_apps'', JUndef),
      (''guide_content'', JStr (join [newline] [''## Additional Guidelines'', [], ''- Follow best practices'', ''- Consider security implications''])),
      (''prepend'', JBool False)])"

definition add_tool_approval :: "string \<Rightarrow> policies_state \<Rightarrow> policies_state" where
  "add_tool_approval now = add_policy (new_policy (''tool_approval_'' @ now) ''New Tool Approval''
     ''Require approval before executing specific tools'' ''tool_approval'' []
     [(''required_tools'', JArr []), (''required_apps'', JUndef),
      (''approval_message'', JStr ''This tool requires your approval before execution.''),
      (''show_code_preview'', JBool True), (''auto_approve_after'', JUndef)])"

definition add_output_formatter :: "string \<Rightarrow> policies_state \<Rightarrow> policies_state" where
  "add_output_formatter now = add_policy (new_policy (''output_formatter_'' @ now) ''New Output Formatter''
     ''Format the final AI message output'' ''output_formatter'' [keyword_trigger ''agent_response'' [] (JStr ''and'')]
     [(''format_type'', JStr ''markdown''),
      (''format_config'', JStr ''Format the response in a clear, structured way with proper headings and bullet points.'')])"

definition update_policy :: "jv \<Rightarrow> (string \<times> jv) list \<Rightarrow> policies_state \<Rightarrow> policies_state" where
  "update_policy ident us s =
     s\<lparr>pc_policies := map (\<lambda>p. if fld p ''id'' = ident then obj_with p us else p) (pc_policies s)\<rparr>"

definition remove_policy :: "jv \<Rightarrow> policies_state \<Rightarrow> policies_state" where
  "remove_policy ident s = s\<lparr>pc_policies := filter (\<lambda>p. fld p ''id'' \<noteq> ident) (pc_policies s)\<rparr>"

definition policies_of_type :: "string \<Rightarrow> policies_state \<Rightarrow> jv list" where
  "policies_of_type ty s = filter (\<lambda>p. fld p ''policy_type'' = JStr ty) (pc_policies s)"

definition toggle_expanded :: "jv \<Rightarrow> policies_state \<Rightarrow> policies_state" where
  "toggle_expanded ident s = s\<lparr>pc_expanded := (if pc_expanded s = Some ident then None else Some ident)\<rparr>"

text \<open>The triggers of a policy, as the dialog reads and writes them.\<close>

definition trigger_type :: "string \<Rightarrow> jv \<Rightarrow> bool" where
  "trigger_type ty t \<longleftrightarrow> fld t ''type'' = JStr ty"

definition keywords_of :: "jv list \<Rightarrow> jv list" where
  "keywords_of ts =
     (case find (trigger_type ''keyword'') ts of
        Some t \<Rightarrow> (case fld t ''value'' of JArr ks \<Rightarrow> ks | _ \<Rightarrow> []) | None \<Rightarrow> [])"

definition set_keywords :: "string \<Rightarrow> jv list \<Rightarrow> jv list \<Rightarrow> jv list" where
  "set_keywords target ks ts =
     filter (\<lambda>t. \<not> trigger_type ''keyword'' t) ts
     @ (if ks \<noteq> []
        then [keyword_trigger target ks
                (case find (trigger_type ''keyword'') ts of
                   Some t \<Rightarrow> js_or (fld t ''operator'') (JStr ''and'') | None \<Rightarrow> JStr ''and'')]
        else [])"

definition set_in_triggers :: "string \<Rightarrow> string \<Rightarrow> jv \<Rightarrow> jv list \<Rightarrow> jv list" where
  "set_in_triggers ty k v ts = map (\<lambda>t. if trigger_type ty t then obj_with t [(k, v)] else t) ts"

definition nl_values :: "jv list \<Rightarrow> jv list" where
  "nl_values ts =
     (case find (trigger_type ''natural_language'') ts of
        None \<Rightarrow> []
      | Some t \<Rightarrow> (case fld t ''value'' of JArr vs \<Rightarrow> vs | v \<Rightarrow> if truthy v then [v] else []))"

definition add_nl_trigger :: "string \<Rightarrow> jv list \<Rightarrow> jv list" where
  "add_nl_trigger target ts = ts @ [nl_trigger target]"

definition remove_nl_trigger :: "jv list \<Rightarrow> jv list" where
  "remove_nl_trigger ts = filter (\<lambda>t. \<not> trigger_type ''natural_language'' t) ts"

text \<open>The playbook's choice of the kind of trigger, and edits of its first trigger.\<close>

definition set_trigger_kind :: "bool \<Rightarrow> jv list" where
  "set_trigger_kind nl = [if nl then nl_trigger ''intent'' else keyword_trigger ''intent'' [] (JStr ''and'')]"

definition set_first_trigger :: "string \<Rightarrow> jv \<Rightarrow> jv list \<Rightarrow> jv list" where
  "set_first_trigger k v ts = (case ts of [] \<Rightarrow> [] | t # rest \<Rightarrow> obj_with t [(k, v)] # rest)"

definition edit_triggers :: "jv \<Rightarrow> (jv list \<Rightarrow> jv list) \<Rightarrow> policies_state \<Rightarrow> policies_state" where
  "edit_triggers p f s =
     update_policy (fld p ''id'') [(''triggers'', JArr (f (case fld p ''triggers'' of JArr ts \<Rightarrow> ts | _ \<Rightarrow> [])))] s"

definition optional_list :: "jv list \<Rightarrow> jv" where
  "optional_list xs = (if xs \<noteq> [] then JArr xs else JUndef)"

definition auto_approve_value :: "jv \<Rightarrow> jv" where
  "auto_approve_value v = (case v of JNum q \<Rightarrow> if q > 0 then JNum q else JUndef | _ \<Rightarrow> JUndef)"

definition priority_value :: "jv \<Rightarrow> jv" where
  "priority_value v = (case v of JNum q \<Rightarrow> JNum q | _ \<Rightarrow> JNum 0)"

section \<open>Properties\<close>

definition array_valued :: "jv \<Rightarrow> bool" where
  "array_valued t \<longleftrightarrow> (trigger_type ''natural_language'' t \<longrightarrow> fld t ''value'' = JUndef \<or> (\<exists>vs. fld t ''value'' = JArr vs))"

lemma normalize_trigger_idem:
  assumes "normalize_trigger t = Inr u"
  shows "normalize_trigger u = Inr u \<and> array_valued u"
proof (cases "fld t ''type'' = JStr ''natural_language'' \<and> fld t ''value'' \<noteq> JUndef")
  case True
  then obtain fs where t: "t = JObj fs" by (cases t) (auto split: if_splits)
  have u: "u = obj_with (JObj fs) [(''value'', normalized_value (fld t ''value''))]"
    using assms True t by (simp add: normalize_trigger_def)
  obtain vs where v: "normalized_value (fld t ''value'') = JArr vs"
    by (cases "fld t ''value''") (simp_all add: normalized_value_def)
  have w: "normalized_value (JArr vs) = JArr vs" by (simp add: normalized_value_def)
  have "fld u ''value'' = JArr vs" using u v by simp
  moreover have "fld u ''type'' = JStr ''natural_language''" using u True t by simp
  moreover have "obj_with u [(''value'', JArr vs)] = u" by (simp add: u v obj_with_one)
  moreover have "get_prop u ''type'' = Inr (fld u ''type'')" by (simp add: u obj_with_one)
  ultimately show ?thesis by (simp add: normalize_trigger_def array_valued_def w)
next
  case False
  then have "u = t" using assms by (cases "nullish t") (auto simp: normalize_trigger_def get_prop_def split: if_splits)
  then show ?thesis using assms False by (auto simp: array_valued_def trigger_type_def)
qed

lemma normalize_policy_form:
  assumes "normalize_policy p = Inr q"
  obtains fs ts us where "p = JObj fs" "fld p ''triggers'' = JArr ts" "try_map normalize_trigger ts = Inr us"
    "q = obj_with p [(''triggers'', JArr us)]"
proof -
  have n: "\<not> nullish p" using assms by (auto simp: normalize_policy_def get_prop_def)
  then obtain fs where p: "p = JObj fs"
    using assms by (cases p) (auto simp: normalize_policy_def get_prop_def mapped_array_def)
  obtain ts where ts: "fld p ''triggers'' = JArr ts"
    using assms p by (cases "fld p ''triggers''") (auto simp: normalize_policy_def mapped_array_def)
  obtain us where "try_map normalize_trigger ts = Inr us"
    using assms p ts by (cases "try_map normalize_trigger ts") (auto simp: normalize_policy_def mapped_array_def)
  then show ?thesis using assms p ts that by (auto simp: normalize_policy_def mapped_array_def)
qed

lemma normalize_policy_triggers:
  assumes "normalize_policy p = Inr q"
  shows "normalize_policy q = Inr q \<and> (\<exists>us. fld q ''triggers'' = JArr us \<and> (\<forall>t \<in> set us. array_valued t))
    \<and> (\<forall>k. k \<noteq> ''triggers'' \<longrightarrow> fld q k = fld p k)"
proof -
  obtain fs ts us where f: "p = JObj fs" "fld p ''triggers'' = JArr ts" "try_map normalize_trigger ts = Inr us"
    "q = obj_with p [(''triggers'', JArr us)]" by (rule normalize_policy_form [OF assms])
  have u: "try_map normalize_trigger us = Inr us"
    by (rule try_map_idem [OF f(3)]) (use normalize_trigger_idem in blast)
  have q: "q = JObj (al_set ''triggers'' (JArr us) fs)" by (simp add: f(1,4) obj_with_one)
  have "\<forall>t \<in> set us. array_valued t" using u normalize_trigger_idem by (auto simp: try_map_fix)
  moreover have "normalize_policy q = Inr q"
    by (simp add: normalize_policy_def q mapped_array_def u obj_with_one)
  ultimately show ?thesis by (auto simp: q f(1))
qed

text \<open>
  C25. Policies that were saved load back as they were sent: normalised, which normalising
  again does not change, with every natural language trigger an array; the fields of a
  policy other than its triggers, and the sections of the configuration other than the
  policies, are as they were.
\<close>

theorem saved_policies_load_back:
  assumes "fst (save_config parse False (Inr loaded) answer seen s) = [GetConfig, PostConfig full]"
    and "parse body = Inr (JObj [(''config'', full)])" "\<not> nullish (pc_enable seen)"
  shows "\<exists>qs old. list_all2 (\<lambda>p q. normalize_policy p = Inr q \<and> (\<forall>k. k \<noteq> ''triggers'' \<longrightarrow> fld q k = fld p k))
              (pc_policies seen) qs
     \<and> pc_policies (load_config parse (Inr \<lparr>re_ok = True, re_text = body\<rparr>) u) = qs
     \<and> pc_enable (load_config parse (Inr \<lparr>re_ok = True, re_text = body\<rparr>) u) = pc_enable seen
     \<and> (\<forall>q \<in> set qs. \<exists>ts. fld q ''triggers'' = JArr ts \<and> (\<forall>t \<in> set ts. array_valued t))
     \<and> parse (re_text loaded) = Inr old
     \<and> (\<forall>cs k. fld old ''config'' = JObj cs \<and> k \<noteq> ''policies'' \<longrightarrow> fld full k = fld (JObj cs) k)"
proof -
  obtain qs where q: "try_map normalize_policy (pc_policies seen) = Inr qs"
    using assms(1) by (cases "try_map normalize_policy (pc_policies seen)") (simp_all add: save_config_def)
  let ?cfg = "policies_json (pc_enable seen) qs"
  obtain old where o: "parse (re_text loaded) = Inr old" "\<not> nullish old"
    and f: "full = obj_with (js_or (fld old ''config'') (JObj [])) [(''policies'', ?cfg)]"
    using assms(1) q by (cases "parse (re_text loaded)") (auto simp: save_config_def Let_def get_prop_def split: if_splits)
  have fp: "fld full ''policies'' = ?cfg" "is_obj full" by (simp_all add: f obj_with_one)
  have n: "list_all2 (\<lambda>p q. normalize_policy p = Inr q) (pc_policies seen) qs" using q by (simp add: try_map_Inr)
  have again: "try_map normalize_policy qs = Inr qs"
    by (rule try_map_idem [OF q]) (use normalize_policy_triggers in blast)
  have r: "read_config parse body = Inr (pc_enable seen, qs)"
  proof -
    have t: "js_or full (JObj []) = full" using fp(2) by (cases full) simp_all
    have "truthy ?cfg" by (simp add: policies_json_def)
    then show ?thesis
      using assms(2,3) again t fp(1)
      by (simp add: read_config_def Let_def policies_json_def js_nullor_def mapped_array_def)
  qed
  have "pc_policies (load_config parse (Inr \<lparr>re_ok = True, re_text = body\<rparr>) u) = qs"
    "pc_enable (load_config parse (Inr \<lparr>re_ok = True, re_text = body\<rparr>) u) = pc_enable seen"
    using r by (simp_all add: load_config_def)
  moreover have "list_all2 (\<lambda>p q. normalize_policy p = Inr q \<and> (\<forall>k. k \<noteq> ''triggers'' \<longrightarrow> fld q k = fld p k)) (pc_policies seen) qs"
    using n by (rule list_all2_mono) (use normalize_policy_triggers in blast)
  moreover have "\<forall>q \<in> set qs. \<exists>ts. fld q ''triggers'' = JArr ts \<and> (\<forall>t \<in> set ts. array_valued t)"
    using again normalize_policy_triggers by (fastforce simp: try_map_fix)
  moreover have "\<forall>cs k. fld old ''config'' = JObj cs \<and> k \<noteq> ''policies'' \<longrightarrow> fld full k = fld (JObj cs) k"
    by (auto simp: f)
  ultimately show ?thesis using o(1) by blast
qed

definition demo_policies :: policies_state where
  "demo_policies = policies_init\<lparr>pc_policies := [JObj [(''id'', JStr ''p''),
     (''triggers'', JArr [JObj [(''type'', JStr ''natural_language''), (''value'', JStr ''refund'')]])]]\<rparr>"

definition demo_config :: jv where
  "demo_config = JObj [(''tools'', JArr []), (''policies'', policies_json (JBool True) [JObj [(''id'', JStr ''p''),
     (''triggers'', JArr [JObj [(''type'', JStr ''natural_language''), (''value'', JArr [JStr ''refund''])]])]])]"

definition demo_json :: "string \<Rightarrow> exn + jv" where
  "demo_json t = (if t = ''old'' then Inr (JObj [(''config'', JObj [(''tools'', JArr [])])])
     else if t = ''new'' then Inr (JObj [(''config'', demo_config)]) else Inl ''Unexpected token'')"

theorem saved_policies_load_back_witness:
  "pc_enable (load_config demo_json (Inr \<lparr>re_ok = True, re_text = ''new''\<rparr>) policies_init) = JBool True"
proof -
  have "fst (save_config demo_json False (Inr \<lparr>re_ok = True, re_text = ''old''\<rparr>) (Inl ''gone'') demo_policies demo_policies)
      = [GetConfig, PostConfig demo_config]"
    by (simp add: save_config_def demo_policies_def policies_init_def demo_json_def demo_config_def normalize_policy_def
        mapped_array_def normalize_trigger_def normalized_value_def obj_with_one Let_def)
  moreover have "demo_json ''new'' = Inr (JObj [(''config'', demo_config)])" by (simp add: demo_json_def)
  moreover have "\<not> nullish (pc_enable demo_policies)" by (simp add: demo_policies_def policies_init_def)
  ultimately show ?thesis
    using saved_policies_load_back [of demo_json "\<lparr>re_ok = True, re_text = ''old''\<rparr>" "Inl ''gone''" demo_policies demo_policies
        demo_config "''new''" policies_init] by (auto simp: demo_policies_def policies_init_def)
qed


definition load_fails :: "(string \<Rightarrow> exn + jv) \<Rightarrow> exn + reply \<Rightarrow> bool" where
  "load_fails parse r \<longleftrightarrow>
     (case r of Inl _ \<Rightarrow> True | Inr rep \<Rightarrow> \<not> re_ok rep \<or> (case read_config parse (re_text rep) of Inl _ \<Rightarrow> True | Inr _ \<Rightarrow> False))"

text \<open>
  When loading fails, by the network, the server or a policy that cannot be read, the
  dialog shows no policies and may be saved all the same: the draft's policies are then
  replaced by none, and so are those of a configuration that can be read at that moment.
\<close>

theorem failed_load_saves_nothing:
  assumes "load_fails parse r" "parse (re_text now) = Inr (JObj [(''config'', JObj cs)])" "re_ok now"
  shows "pc_policies (load_config parse r policies_init) = []
    \<and> pc_status (load_config parse r policies_init) = SaveIdle
    \<and> fst (save_config parse True loaded answer (load_config parse r policies_init) s)
        = [PatchPolicies (policies_json (JBool True) [])]
    \<and> fst (save_config parse False (Inr now) answer (load_config parse r policies_init) s)
        = [GetConfig, PostConfig (obj_with (JObj cs) [(''policies'', policies_json (JBool True) [])])]"
proof -
  have l: "load_config parse r policies_init = policies_init\<lparr>pc_loading := False\<rparr>"
    using assms(1) by (auto simp: load_fails_def load_config_def Let_def split: sum.splits)
  show ?thesis
    unfolding l using assms(2,3) by (simp add: save_config_def policies_init_def Let_def)
qed

theorem failed_load_saves_nothing_witness:
  "fst (save_config demo_json True (Inl ''gone'') (Inl ''gone'') (load_config demo_json (Inl ''gone'') policies_init) policies_init)
     = [PatchPolicies (policies_json (JBool True) [])]"
  using failed_load_saves_nothing [of demo_json "Inl ''gone''" "\<lparr>re_ok = True, re_text = ''old''\<rparr>" "[(''tools'', JArr [])]"
      "Inl ''gone''" "Inl ''gone''" policies_init]
  by (simp add: load_fails_def demo_json_def)

text \<open>
  A new list of keywords is what the dialog then reads, and leaves the other triggers
  alone; but the trigger is made anew, so it is no longer case sensitive, and once the last
  keyword was removed the operator is \<open>and\<close> again.
\<close>

theorem keyword_edit:
  "keywords_of (set_keywords target ks ts) = ks
   \<and> filter (\<lambda>t. \<not> trigger_type ''keyword'' t) (set_keywords target ks ts) = filter (\<lambda>t. \<not> trigger_type ''keyword'' t) ts
   \<and> (\<forall>t \<in> set (set_keywords target ks ts). trigger_type ''keyword'' t \<longrightarrow> fld t ''case_sensitive'' = JBool False)
   \<and> (ks \<noteq> [] \<longrightarrow>
       map (\<lambda>t. fld t ''operator'') (filter (trigger_type ''keyword'') (set_keywords target ks (set_keywords target [] ts))) = [JStr ''and''])"
proof -
  have new: "trigger_type ''keyword'' (keyword_trigger target ks v)" for ks v
    by (simp add: trigger_type_def keyword_trigger_def)
  have none: "find (trigger_type ''keyword'') (filter (\<lambda>t. \<not> trigger_type ''keyword'' t) ts) = None"
    by (simp add: find_None_iff)
  have app: "find P (xs @ ys) = (case find P xs of Some x \<Rightarrow> Some x | None \<Rightarrow> find P ys)" for P and xs ys :: "jv list"
    by (induction xs) auto
  have fs: "fld (keyword_trigger target ks v) ''value'' = JArr ks"
    "fld (keyword_trigger target ks v) ''case_sensitive'' = JBool False"
    "fld (keyword_trigger target ks v) ''operator'' = v" for v
    by (simp_all add: keyword_trigger_def)
  have none': "filter (trigger_type ''keyword'') (filter (\<lambda>t. \<not> trigger_type ''keyword'' t) ts) = []"
    by (simp add: filter_empty_conv)
  show ?thesis
    using new by (auto simp: set_keywords_def keywords_of_def app none none' fs)
qed

theorem keyword_edit_witness:
  "map (\<lambda>t. fld t ''case_sensitive'') (set_keywords ''intent'' [JStr ''a'', JStr ''b'']
     [JObj [(''type'', JStr ''keyword''), (''value'', JArr [JStr ''a'']), (''case_sensitive'', JBool True)]]) = [JBool False]
   \<and> keywords_of (set_keywords ''intent'' [JStr ''a'', JStr ''b'']
     [JObj [(''type'', JStr ''keyword''), (''value'', JArr [JStr ''a'']), (''case_sensitive'', JBool True)]]) = [JStr ''a'', JStr ''b'']"
  using keyword_edit [of "''intent''" "[JStr ''a'', JStr ''b'']"
      "[JObj [(''type'', JStr ''keyword''), (''value'', JArr [JStr ''a'']), (''case_sensitive'', JBool True)]]"]
  by (simp add: set_keywords_def trigger_type_def keyword_trigger_def)

definition tags_ok :: "string list \<Rightarrow> bool" where
  "tags_ok ts \<longleftrightarrow> distinct ts \<and> (\<forall>t \<in> set ts. t \<noteq> [] \<and> trim t = t)"

lemma tags_ok_add: "tags_ok (tg_values s) \<Longrightarrow> tags_ok (tg_values (add_tag t s))"
  by (auto simp: add_tag_def tags_ok_def trim_idem Let_def)

lemma tags_ok_remove: "tags_ok (tg_values s) \<Longrightarrow> tags_ok (tg_values (remove_tag i s))"
proof -
  assume t: "tags_ok (tg_values s)"
  have "distinct (take i ts @ drop (Suc i) ts)" if "distinct ts" for ts :: "string list"
    using that by (auto simp: distinct_append in_set_conv_nth nth_eq_iff_index_eq)
  then show ?thesis using t by (auto simp: remove_tag_def tags_ok_def dest: in_set_takeD in_set_dropD)
qed

text \<open>
  However tags are typed, entered with Enter or a comma, left or removed: they stay
  pairwise different, trimmed and non-empty.
\<close>

theorem tags_stay_distinct:
  assumes "tags_ok (tg_values s)"
  shows "tags_ok (tg_values (fold tag_do evs s))"
  using assms
proof (induction evs arbitrary: s)
  case (Cons ev evs)
  have "tags_ok (tg_values (tag_do ev s))"
    using Cons.prems by (cases ev) (simp_all add: tag_do_def tag_key_def tag_blur_def tags_ok_add tags_ok_remove)
  then show ?case using Cons.IH by simp
qed simp

theorem tags_stay_distinct_witness:
  "tags_ok (tg_values (fold tag_do [TagText '' a '', TagKey ''Enter'', TagText ''a'', TagKey '','', TagBlur]
     \<lparr>tg_values = [], tg_text = []\<rparr>))"
  by (rule tags_stay_distinct) (simp add: tags_ok_def)

end
