(* ===== verification/Policy_Forms.thy ===== *)
theory Policy_Forms
  imports Policies
begin

text \<open>
  The forms of the policies dialog, \<open>agentic_chat/src/PoliciesConfig.tsx\<close>: what is drawn of the
  policies of each kind, which edits the drawn controls allow, and the type every policy keeps.
  The selection of several tools or apps is a component of the library: what it reports is any
  list of different items among those it offers.  Replies have their declared shape.
\<close>

section \<open>Parts of a policy\<close>

definition triggers_of :: "jv \<Rightarrow> jv list" where
  "triggers_of p = (case fld p ''triggers'' of JArr ts \<Rightarrow> ts | _ \<Rightarrow> [])"

definition list_of :: "jv \<Rightarrow> jv list" where
  "list_of v = (case v of JArr xs \<Rightarrow> xs | _ \<Rightarrow> [])"

definition counted :: "nat \<Rightarrow> string \<Rightarrow> string" where
  "counted n what = show_nat n @ '' '' @ what @ (if n \<noteq> 1 then ''s'' else [])"

definition priority_text :: "(rat \<Rightarrow> string) \<Rightarrow> jv \<Rightarrow> string" where
  "priority_text num p = ''Priority: '' @ js_to_string num (fld p ''priority'')"

definition ai_trigger :: "jv \<Rightarrow> string list" where
  "ai_trigger p = (if \<exists>t \<in> set (triggers_of p). trigger_type ''natural_language'' t then [''AI trigger''] else [])"

definition keyword_count :: "jv \<Rightarrow> string list" where
  "keyword_count p = (let n = length (keywords_of (triggers_of p)) in if 0 < n then [counted n ''keyword''] else [])"

definition operator_of :: "jv list \<Rightarrow> jv" where
  "operator_of ts =
     (case find (trigger_type ''keyword'') ts of Some t \<Rightarrow> js_or (fld t ''operator'') (JStr ''and'') | None \<Rightarrow> JStr ''and'')"

text \<open>The choice of the operator is there for more than one keyword.\<close>

definition operator_choice :: "jv \<Rightarrow> jv option" where
  "operator_choice p = (if 1 < length (keywords_of (triggers_of p)) then Some (operator_of (triggers_of p)) else None)"

definition threshold_of :: "jv \<Rightarrow> jv" where
  "threshold_of t = js_or (fld t ''threshold'') (JNum (7 / 10))"

definition nl_part :: "jv \<Rightarrow> (jv list \<times> jv) option" where
  "nl_part p =
     (case find (trigger_type ''natural_language'') (triggers_of p) of
        Some t \<Rightarrow> Some (nl_values (triggers_of p), threshold_of t) | None \<Rightarrow> None)"

section \<open>What is drawn\<close>

text \<open>The header of every policy; the summary is there while it is collapsed.\<close>

record 'b policy_card =
  po_enabled :: bool
  po_name :: jv
  po_summary :: "string list"
  po_body :: "'b option"

definition policy_card_of :: "policies_state \<Rightarrow> string list \<Rightarrow> 'b \<Rightarrow> jv \<Rightarrow> 'b policy_card" where
  "policy_card_of s summary body p =
     (let x = (pc_expanded s = Some (fld p ''id''))
      in \<lparr>po_enabled = truthy (fld p ''enabled''), po_name = fld p ''name'', po_summary = (if x then [] else summary),
          po_body = (if x then Some body else None)\<rparr>)"

record guard_body =
  gu_description :: jv
  gu_keywords :: "jv list"
  gu_operator :: "jv option"
  gu_nl :: "(jv list \<times> jv) option"
  gu_response :: jv
  gu_priority :: jv
  gu_override :: bool

definition draw_guard :: "(rat \<Rightarrow> string) \<Rightarrow> policies_state \<Rightarrow> jv \<Rightarrow> guard_body policy_card" where
  "draw_guard num s p =
     policy_card_of s (keyword_count p @ ai_trigger p @ [priority_text num p])
       \<lparr>gu_description = fld p ''description'', gu_keywords = keywords_of (triggers_of p), gu_operator = operator_choice p,
        gu_nl = nl_part p, gu_response = fld (fld p ''response'') ''content'', gu_priority = fld p ''priority'',
        gu_override = truthy (fld p ''allow_override'')\<rparr> p"

datatype playbook_triggers =
    Keyword_Triggers "jv list" "jv option"
  | Language_Triggers "jv list" jv
  | No_Triggers

record playbook_body =
  pb_description :: jv
  pb_kind :: string
  pb_triggers :: playbook_triggers
  pb_markdown :: jv
  pb_priority :: jv

definition first_is :: "string \<Rightarrow> jv \<Rightarrow> bool" where
  "first_is ty p = (case triggers_of p of t # _ \<Rightarrow> trigger_type ty t | [] \<Rightarrow> False)"

definition first_values :: "jv list \<Rightarrow> jv list" where
  "first_values ts = (case ts of t # _ \<Rightarrow> (case fld t ''value'' of JArr vs \<Rightarrow> vs | v \<Rightarrow> if truthy v then [v] else []) | [] \<Rightarrow> [])"

definition draw_playbook :: "policies_state \<Rightarrow> jv \<Rightarrow> playbook_body policy_card" where
  "draw_playbook s p =
     policy_card_of s
       (counted (length (list_of (fld p ''steps''))) ''step''
        # (if triggers_of p = [] then []
           else [if first_is ''natural_language'' p then ''AI trigger'' else counted (length (keywords_of (triggers_of p))) ''keyword'']))
       \<lparr>pb_description = fld p ''description'', pb_kind = (if first_is ''natural_language'' p then ''natural_language'' else ''keyword''),
        pb_triggers =
          (if first_is ''keyword'' p then Keyword_Triggers (keywords_of (triggers_of p)) (operator_choice p)
           else if first_is ''natural_language'' p
             then Language_Triggers (first_values (triggers_of p)) (threshold_of (hd (triggers_of p)))
           else No_Triggers),
        pb_markdown = fld p ''markdown_content'', pb_priority = fld p ''priority''\<rparr> p"

text \<open>The items of a selection, and those selected at first: the offered ones among the stored.\<close>

definition offered_names :: "jv \<Rightarrow> jv list" where
  "offered_names v = map (\<lambda>x. fld x ''name'') (list_of v)"

definition first_selected :: "jv \<Rightarrow> jv \<Rightarrow> jv list" where
  "first_selected offered stored = filter (\<lambda>n. n \<in> set (list_of stored)) (offered_names offered)"

record guide_body =
  gb_description :: jv
  gb_tools :: "jv list"
  gb_apps :: "jv list"
  gb_content :: jv
  gb_prepend :: bool
  gb_priority :: jv

definition guide_summary :: "(rat \<Rightarrow> string) \<Rightarrow> jv \<Rightarrow> string list" where
  "guide_summary num p =
     (let ts = list_of (fld p ''target_tools''); as = list_of (fld p ''target_apps'')
      in [if JStr ''*'' \<in> set ts then ''All tools'' else show_nat (length ts) @ '' tool(s)'']
         @ (if as \<noteq> [] then [show_nat (length as) @ '' app(s)''] else []) @ [priority_text num p])"

definition draw_guide :: "(rat \<Rightarrow> string) \<Rightarrow> policies_state \<Rightarrow> jv \<Rightarrow> guide_body policy_card" where
  "draw_guide num s p =
     policy_card_of s (guide_summary num p)
       \<lparr>gb_description = fld p ''description'', gb_tools = first_selected (pc_tools s) (fld p ''target_tools''),
        gb_apps = first_selected (pc_apps s) (fld p ''target_apps''), gb_content = fld p ''guide_content'',
        gb_prepend = truthy (fld p ''prepend''), gb_priority = fld p ''priority''\<rparr> p"

record approval_body =
  ab_description :: jv
  ab_tools :: "jv list"
  ab_apps :: "jv list"
  ab_message :: jv
  ab_preview :: bool
  ab_after :: jv
  ab_priority :: jv

definition approval_summary :: "(rat \<Rightarrow> string) \<Rightarrow> jv \<Rightarrow> string list" where
  "approval_summary num p =
     (let ts = list_of (fld p ''required_tools''); as = list_of (fld p ''required_apps'')
      in [if ts = [] then ''No tools selected'' else if JStr ''*'' \<in> set ts then ''All tools'' else show_nat (length ts) @ '' tool(s)'']
         @ (if as \<noteq> [] then [show_nat (length as) @ '' app(s)''] else []) @ [priority_text num p])"

definition draw_approval :: "(rat \<Rightarrow> string) \<Rightarrow> policies_state \<Rightarrow> jv \<Rightarrow> approval_body policy_card" where
  "draw_approval num s p =
     policy_card_of s (approval_summary num p)
       \<lparr>ab_description = fld p ''description'', ab_tools = first_selected (pc_tools s) (fld p ''required_tools''),
        ab_apps = first_selected (pc_apps s) (fld p ''required_apps''),
        ab_message = js_or (fld p ''approval_message'') (JStr []), ab_preview = truthy (fld p ''show_code_preview''),
        ab_after = js_or (fld p ''auto_approve_after'') (JNum 0), ab_priority = fld p ''priority''\<rparr> p"

record formatter_body =
  fb_description :: jv
  fb_keywords :: "jv list"
  fb_operator :: "jv option"
  fb_nl :: "(jv list \<times> jv) option"
  fb_type :: jv
  fb_label :: string
  fb_config :: jv
  fb_rows :: nat
  fb_priority :: jv

definition format_name :: "jv \<Rightarrow> string" where
  "format_name p =
     (if fld p ''format_type'' = JStr ''direct'' then ''Direct''
      else if fld p ''format_type'' = JStr ''markdown'' then ''Markdown (LLM)'' else ''JSON (LLM)'')"

definition config_label :: "jv \<Rightarrow> string" where
  "config_label p =
     (if fld p ''format_type'' = JStr ''direct'' then ''Direct Answer String''
      else if fld p ''format_type'' = JStr ''markdown'' then ''Formatting Instructions (Markdown)'' else ''JSON Schema'')"

definition draw_formatter :: "(rat \<Rightarrow> string) \<Rightarrow> policies_state \<Rightarrow> jv \<Rightarrow> formatter_body policy_card" where
  "draw_formatter num s p =
     policy_card_of s ([format_name p] @ keyword_count p @ ai_trigger p @ [priority_text num p])
       \<lparr>fb_description = fld p ''description'', fb_keywords = keywords_of (triggers_of p), fb_operator = operator_choice p,
        fb_nl = nl_part p, fb_type = fld p ''format_type'', fb_label = config_label p, fb_config = fld p ''format_config'',
        fb_rows = (if fld p ''format_type'' = JStr ''json_schema'' then 12 else if fld p ''format_type'' = JStr ''direct'' then 4 else 8),
        fb_priority = fld p ''priority''\<rparr> p"

text \<open>The tabs with their counts; while the policies are loading there is one line only.\<close>

definition tab_labels :: "policies_state \<Rightarrow> string list option" where
  "tab_labels s =
     (if pc_loading s then None
      else Some (map (\<lambda>(l, ty). l @ '' ('' @ show_nat (length (policies_of_type ty s)) @ '')'')
        [(''Intent Guards'', ''intent_guard''), (''Playbooks'', ''playbook''), (''Tool Guide'', ''tool_guide''),
         (''Tool Approval'', ''tool_approval''), (''Output Formatter'', ''output_formatter'')]))"

section \<open>Edits\<close>

datatype policy_edit =
    Enable_All bool
  | Add_New string string
  | Policy_Expand jv
  | Policy_Remove jv
  | Policy_Enabled jv bool
  | Policy_Text jv string string
  | Policy_Flag jv string bool
  | Policy_Priority jv jv
  | Keywords_Changed jv "string list"
  | Keyword_Operator jv string
  | Nl_Values jv "string list"
  | Nl_Threshold jv rat
  | Nl_Added jv
  | Nl_Removed jv
  | Kind_Chosen jv bool
  | First_Values jv "string list"
  | First_Threshold jv rat
  | Response_Text jv string
  | Tools_Chosen jv "jv list"
  | Apps_Chosen jv "jv list"
  | Approval_Message jv string
  | Auto_Approve jv jv
  | Format_Chosen jv string

definition add_new :: "string \<Rightarrow> string \<Rightarrow> policies_state \<Rightarrow> policies_state" where
  "add_new ty now =
     (if ty = ''intent_guard'' then add_intent_guard now else if ty = ''playbook'' then add_playbook now
      else if ty = ''tool_guide'' then add_tool_guide now else if ty = ''tool_approval'' then add_tool_approval now
      else add_output_formatter now)"

definition trigger_target :: "jv \<Rightarrow> string" where
  "trigger_target p = (if fld p ''policy_type'' = JStr ''output_formatter'' then ''agent_response'' else ''intent'')"

text \<open>The keywords of a playbook are put into its trigger; those of the other kinds make a new one.\<close>

definition keywords_edit :: "jv \<Rightarrow> string list \<Rightarrow> jv list \<Rightarrow> jv list" where
  "keywords_edit p ks =
     (if fld p ''policy_type'' = JStr ''playbook'' then set_in_triggers ''keyword'' ''value'' (JArr (map JStr ks))
      else set_keywords (trigger_target p) (map JStr ks))"

definition tools_key :: "jv \<Rightarrow> string" where
  "tools_key p = (if fld p ''policy_type'' = JStr ''tool_guide'' then ''target_tools'' else ''required_tools'')"

definition apps_key :: "jv \<Rightarrow> string" where
  "apps_key p = (if fld p ''policy_type'' = JStr ''tool_guide'' then ''target_apps'' else ''required_apps'')"

definition find_policy :: "jv \<Rightarrow> policies_state \<Rightarrow> jv option" where
  "find_policy i s = find (\<lambda>p. fld p ''id'' = i) (pc_policies s)"

text \<open>What an edit of a drawn policy writes into it; the triggers are those that are drawn.\<close>

fun edit_fields :: "jv \<Rightarrow> policy_edit \<Rightarrow> (string \<times> jv) list" where
  "edit_fields p (Policy_Enabled i b) = [(''enabled'', JBool b)]"
| "edit_fields p (Policy_Text i k t) = [(k, JStr t)]"
| "edit_fields p (Policy_Flag i k b) = [(k, JBool b)]"
| "edit_fields p (Policy_Priority i v) = [(''priority'', priority_value v)]"
| "edit_fields p (Keywords_Changed i ks) = [(''triggers'', JArr (keywords_edit p ks (triggers_of p)))]"
| "edit_fields p (Keyword_Operator i w) = [(''triggers'', JArr (set_in_triggers ''keyword'' ''operator'' (JStr w) (triggers_of p)))]"
| "edit_fields p (Nl_Values i vs) =
     [(''triggers'', JArr (set_in_triggers ''natural_language'' ''value'' (JArr (map JStr vs)) (triggers_of p)))]"
| "edit_fields p (Nl_Threshold i q) =
     [(''triggers'', JArr (set_in_triggers ''natural_language'' ''threshold'' (JNum q) (triggers_of p)))]"
| "edit_fields p (Nl_Added i) = [(''triggers'', JArr (add_nl_trigger (trigger_target p) (triggers_of p)))]"
| "edit_fields p (Nl_Removed i) = [(''triggers'', JArr (remove_nl_trigger (triggers_of p)))]"
| "edit_fields p (Kind_Chosen i nl) = [(''triggers'', JArr (set_trigger_kind nl))]"
| "edit_fields p (First_Values i vs) = [(''triggers'', JArr (set_first_trigger ''value'' (JArr (map JStr vs)) (triggers_of p)))]"
| "edit_fields p (First_Threshold i q) = [(''triggers'', JArr (set_first_trigger ''threshold'' (JNum q) (triggers_of p)))]"
| "edit_fields p (Response_Text i t) = [(''response'', obj_with (fld p ''response'') [(''content'', JStr t)])]"
| "edit_fields p (Tools_Chosen i xs) = [(tools_key p, JArr xs)]"
| "edit_fields p (Apps_Chosen i xs) = [(apps_key p, optional_list xs)]"
| "edit_fields p (Approval_Message i t) = [(''approval_message'', if t = [] then JUndef else JStr t)]"
| "edit_fields p (Auto_Approve i v) = [(''auto_approve_after'', auto_approve_value v)]"
| "edit_fields p (Format_Chosen i t) = [(''format_type'', JStr t)]"
| "edit_fields p _ = []"

fun edit_target :: "policy_edit \<Rightarrow> jv option" where
  "edit_target (Enable_All b) = None"
| "edit_target (Add_New t n) = None"
| "edit_target (Policy_Expand i) = Some i"
| "edit_target (Policy_Remove i) = Some i"
| "edit_target (Policy_Enabled i b) = Some i"
| "edit_target (Policy_Text i k t) = Some i"
| "edit_target (Policy_Flag i k b) = Some i"
| "edit_target (Policy_Priority i v) = Some i"
| "edit_target (Keywords_Changed i ks) = Some i"
| "edit_target (Keyword_Operator i w) = Some i"
| "edit_target (Nl_Values i vs) = Some i"
| "edit_target (Nl_Threshold i q) = Some i"
| "edit_target (Nl_Added i) = Some i"
| "edit_target (Nl_Removed i) = Some i"
| "edit_target (Kind_Chosen i b) = Some i"
| "edit_target (First_Values i vs) = Some i"
| "edit_target (First_Threshold i q) = Some i"
| "edit_target (Response_Text i t) = Some i"
| "edit_target (Tools_Chosen i xs) = Some i"
| "edit_target (Apps_Chosen i xs) = Some i"
| "edit_target (Approval_Message i t) = Some i"
| "edit_target (Auto_Approve i v) = Some i"
| "edit_target (Format_Chosen i t) = Some i"

definition policies_do :: "policy_edit \<Rightarrow> policies_state \<Rightarrow> policies_state" where
  "policies_do e s =
     (case e of
        Enable_All b \<Rightarrow> s\<lparr>pc_enable := JBool b\<rparr>
      | Add_New ty now \<Rightarrow> add_new ty now s
      | Policy_Expand i \<Rightarrow> toggle_expanded i s
      | Policy_Remove i \<Rightarrow> remove_policy i s
      | _ \<Rightarrow> (case edit_target e of
               Some i \<Rightarrow> (case find_policy i s of Some p \<Rightarrow> update_policy i (edit_fields p e) s | None \<Rightarrow> s)
             | None \<Rightarrow> s))"

section \<open>Controls\<close>

definition kind_is :: "string list \<Rightarrow> jv \<Rightarrow> bool" where
  "kind_is tys p \<longleftrightarrow> fld p ''policy_type'' \<in> JStr ` set tys"

text \<open>The texts and boxes of each kind.\<close>

definition own_text :: "jv \<Rightarrow> string \<Rightarrow> bool" where
  "own_text p k \<longleftrightarrow> k = ''description'' \<or> k = ''markdown_content'' \<and> kind_is [''playbook''] p
     \<or> k = ''guide_content'' \<and> kind_is [''tool_guide''] p \<or> k = ''format_config'' \<and> kind_is [''output_formatter''] p"

definition own_flag :: "jv \<Rightarrow> string \<Rightarrow> bool" where
  "own_flag p k \<longleftrightarrow> k = ''allow_override'' \<and> kind_is [''intent_guard''] p \<or> k = ''prepend'' \<and> kind_is [''tool_guide''] p
     \<or> k = ''show_code_preview'' \<and> kind_is [''tool_approval''] p"

definition slider_value :: "rat \<Rightarrow> bool" where
  "slider_value q \<longleftrightarrow> 1 / 2 \<le> q \<and> q \<le> 1"

text \<open>The controls of an expanded policy; an input of a number reports one, or the empty text.\<close>

definition body_allows :: "policies_state \<Rightarrow> jv \<Rightarrow> policy_edit \<Rightarrow> bool" where
  "body_allows s p e =
     (case e of
        Policy_Text i k t \<Rightarrow> own_text p k
      | Policy_Flag i k b \<Rightarrow> own_flag p k
      | Policy_Priority i v \<Rightarrow> (case v of JNum q \<Rightarrow> True | JStr t \<Rightarrow> t = [] | _ \<Rightarrow> False)
      | Keywords_Changed i ks \<Rightarrow> tags_ok ks \<and> (kind_is [''intent_guard'', ''output_formatter''] p \<or> kind_is [''playbook''] p \<and> first_is ''keyword'' p)
      | Keyword_Operator i w \<Rightarrow> w \<in> {''and'', ''or''} \<and> operator_choice p \<noteq> None
          \<and> (kind_is [''intent_guard'', ''output_formatter''] p \<or> kind_is [''playbook''] p \<and> first_is ''keyword'' p)
      | Nl_Values i vs \<Rightarrow> tags_ok vs \<and> kind_is [''intent_guard'', ''output_formatter''] p \<and> nl_part p \<noteq> None
      | Nl_Threshold i q \<Rightarrow> slider_value q \<and> kind_is [''intent_guard'', ''output_formatter''] p \<and> nl_part p \<noteq> None
      | Nl_Added i \<Rightarrow> kind_is [''intent_guard'', ''output_formatter''] p \<and> nl_part p = None
      | Nl_Removed i \<Rightarrow> kind_is [''intent_guard'', ''output_formatter''] p \<and> nl_part p \<noteq> None
      | Kind_Chosen i nl \<Rightarrow> kind_is [''playbook''] p \<and> nl \<noteq> first_is ''natural_language'' p
      | First_Values i vs \<Rightarrow> tags_ok vs \<and> kind_is [''playbook''] p \<and> first_is ''natural_language'' p
      | First_Threshold i q \<Rightarrow> slider_value q \<and> kind_is [''playbook''] p \<and> first_is ''natural_language'' p
      | Response_Text i t \<Rightarrow> kind_is [''intent_guard''] p
      | Tools_Chosen i xs \<Rightarrow> kind_is [''tool_guide'', ''tool_approval''] p \<and> distinct xs \<and> set xs \<subseteq> set (offered_names (pc_tools s))
      | Apps_Chosen i xs \<Rightarrow> kind_is [''tool_guide'', ''tool_approval''] p \<and> distinct xs \<and> set xs \<subseteq> set (offered_names (pc_apps s))
      | Approval_Message i t \<Rightarrow> kind_is [''tool_approval''] p
      | Auto_Approve i v \<Rightarrow> kind_is [''tool_approval''] p
      | Format_Chosen i t \<Rightarrow> kind_is [''output_formatter''] p \<and> t \<in> {''markdown'', ''json_schema'', ''direct''}
      | _ \<Rightarrow> False)"

text \<open>
  The switch and the arrow of a policy are always there; the rest is disabled while the switch is off.
  A new policy has an identifier with the clock, which moves on between two presses.
\<close>

definition policies_allows :: "policies_state \<Rightarrow> policy_edit \<Rightarrow> bool" where
  "policies_allows s e \<longleftrightarrow> \<not> pc_loading s \<and>
     (case e of
        Enable_All b \<Rightarrow> True
      | Policy_Expand i \<Rightarrow> find_policy i s \<noteq> None
      | Add_New ty now \<Rightarrow> truthy (pc_enable s) \<and> (\<forall>p \<in> set (pc_policies (add_new ty now (s\<lparr>pc_policies := []\<rparr>))). find_policy (fld p ''id'') s = None)
      | _ \<Rightarrow> truthy (pc_enable s) \<and>
          (case edit_target e of
             None \<Rightarrow> False
           | Some i \<Rightarrow> (case find_policy i s of
                 None \<Rightarrow> False
               | Some p \<Rightarrow> (case e of Policy_Remove i \<Rightarrow> True | Policy_Enabled i b \<Rightarrow> True
                            | Policy_Text i k t \<Rightarrow> k = ''name'' \<or> pc_expanded s = Some i \<and> body_allows s p e
                            | _ \<Rightarrow> pc_expanded s = Some i \<and> body_allows s p e))))"


section \<open>The type of a policy\<close>

definition is_string :: "jv \<Rightarrow> bool" where
  "is_string v \<longleftrightarrow> the_str v \<noteq> None"

definition is_boolean :: "jv \<Rightarrow> bool" where
  "is_boolean v = (case v of JBool b \<Rightarrow> True | _ \<Rightarrow> False)"

definition is_number :: "jv \<Rightarrow> bool" where
  "is_number v = (case v of JNum q \<Rightarrow> True | _ \<Rightarrow> False)"

definition strings :: "jv \<Rightarrow> bool" where
  "strings v = (case v of JArr xs \<Rightarrow> list_all is_string xs | _ \<Rightarrow> False)"

definition optional :: "(jv \<Rightarrow> bool) \<Rightarrow> jv \<Rightarrow> bool" where
  "optional P v \<longleftrightarrow> v = JUndef \<or> P v"

definition trigger_typed :: "jv \<Rightarrow> bool" where
  "trigger_typed t \<longleftrightarrow> is_obj t
     \<and> fld t ''type'' \<in> {JStr ''keyword'', JStr ''natural_language'', JStr ''app'', JStr ''always''}
     \<and> optional (\<lambda>v. is_string v \<or> strings v) (fld t ''value'') \<and> optional is_string (fld t ''target'')
     \<and> optional is_boolean (fld t ''case_sensitive'') \<and> optional is_number (fld t ''threshold'')
     \<and> optional (\<lambda>v. v \<in> {JStr ''and'', JStr ''or''}) (fld t ''operator'')"

definition guard_typed :: "jv \<Rightarrow> bool" where
  "guard_typed p \<longleftrightarrow> is_obj (fld p ''response'') \<and> is_string (fld (fld p ''response'') ''content'') \<and> is_boolean (fld p ''allow_override'')"

definition playbook_typed :: "jv \<Rightarrow> bool" where
  "playbook_typed p \<longleftrightarrow> is_string (fld p ''markdown_content'') \<and> (\<exists>xs. fld p ''steps'' = JArr xs)"

definition guide_typed :: "jv \<Rightarrow> bool" where
  "guide_typed p \<longleftrightarrow> strings (fld p ''target_tools'') \<and> optional strings (fld p ''target_apps'')
     \<and> is_string (fld p ''guide_content'') \<and> is_boolean (fld p ''prepend'')"

definition approval_typed :: "jv \<Rightarrow> bool" where
  "approval_typed p \<longleftrightarrow> strings (fld p ''required_tools'') \<and> optional strings (fld p ''required_apps'')
     \<and> optional is_string (fld p ''approval_message'') \<and> is_boolean (fld p ''show_code_preview'')
     \<and> optional is_number (fld p ''auto_approve_after'')"

definition formatter_typed :: "jv \<Rightarrow> bool" where
  "formatter_typed p \<longleftrightarrow> fld p ''format_type'' \<in> {JStr ''markdown'', JStr ''json_schema'', JStr ''direct''} \<and> is_string (fld p ''format_config'')"

definition kind_typed :: "jv \<Rightarrow> bool" where
  "kind_typed p \<longleftrightarrow>
     (if kind_is [''intent_guard''] p then guard_typed p else if kind_is [''playbook''] p then playbook_typed p
      else if kind_is [''tool_guide''] p then guide_typed p else if kind_is [''tool_approval''] p then approval_typed p
      else kind_is [''output_formatter''] p \<and> formatter_typed p)"

definition policy_typed :: "jv \<Rightarrow> bool" where
  "policy_typed p \<longleftrightarrow> is_obj p \<and> is_string (fld p ''id'') \<and> is_string (fld p ''name'') \<and> is_string (fld p ''description'')
     \<and> is_boolean (fld p ''enabled'') \<and> is_number (fld p ''priority'')
     \<and> (\<exists>ts. fld p ''triggers'' = JArr ts \<and> list_all trigger_typed ts) \<and> kind_typed p"

definition policies_typed :: "policies_state \<Rightarrow> bool" where
  "policies_typed s \<longleftrightarrow> list_all policy_typed (pc_policies s) \<and> distinct (map (\<lambda>p. fld p ''id'') (pc_policies s))
     \<and> list_all is_string (offered_names (pc_tools s)) \<and> list_all is_string (offered_names (pc_apps s))"

lemma typed_values [simp]:
  "is_string (JStr t)" "is_boolean (JBool b)" "is_number (JNum q)" "strings (JArr xs) = list_all is_string xs"
  "optional P JUndef" "is_obj (JObj fs)"
  by (simp_all add: is_string_def is_boolean_def is_number_def strings_def optional_def)

lemma strings_map [simp]: "list_all is_string (map JStr ks)"
  by (simp add: list_all_iff)

lemma fld_with [simp]: "is_obj p \<Longrightarrow> fld (obj_with p [(k, v)]) j = (if j = k then v else fld p j)"
  by (cases p) simp_all

lemma is_obj_with [simp]: "is_obj (obj_with p us)"
  by (simp add: obj_with_def)

lemma keyword_typed [simp]:
  "v \<in> {JStr ''and'', JStr ''or''} \<Longrightarrow> list_all is_string ks \<Longrightarrow> trigger_typed (keyword_trigger target ks v)"
  by (auto simp: trigger_typed_def keyword_trigger_def optional_def)

lemma nl_typed [simp]: "trigger_typed (nl_trigger target)"
  by (simp add: trigger_typed_def nl_trigger_def optional_def)

lemma trigger_put:
  assumes "trigger_typed t"
    "k = ''value'' \<and> strings v \<or> k = ''threshold'' \<and> is_number v \<or> k = ''operator'' \<and> v \<in> {JStr ''and'', JStr ''or''}"
  shows "trigger_typed (obj_with t [(k, v)])"
proof -
  have o: "is_obj t" using assms(1) by (simp add: trigger_typed_def)
  from assms(2) show ?thesis
    by (elim disjE conjE; use assms(1) o in \<open>simp add: trigger_typed_def optional_def\<close>)
qed

lemma operator_typed: "trigger_typed t \<Longrightarrow> js_or (fld t ''operator'') (JStr ''and'') \<in> {JStr ''and'', JStr ''or''}"
  by (auto simp: trigger_typed_def optional_def js_or_def)

lemma set_keywords_typed:
  assumes "list_all trigger_typed ts" "list_all is_string ks"
  shows "list_all trigger_typed (set_keywords target ks ts)"
proof -
  have "trigger_typed t" if "find (trigger_type ''keyword'') ts = Some t" for t
    using that assms(1) by (auto simp: find_Some_iff list_all_iff)
  then show ?thesis
    using assms operator_typed by (auto simp: set_keywords_def list_all_iff split: option.split)
qed

lemma set_in_typed:
  assumes "list_all trigger_typed ts"
    "k = ''value'' \<and> strings v \<or> k = ''threshold'' \<and> is_number v \<or> k = ''operator'' \<and> v \<in> {JStr ''and'', JStr ''or''}"
  shows "list_all trigger_typed (set_in_triggers ty k v ts)" "list_all trigger_typed (set_first_trigger k v ts)"
  using assms trigger_put [OF _ assms(2)]
  by (auto simp: set_in_triggers_def set_first_trigger_def list_all_iff split: list.split)

lemma kinds_typed: "list_all trigger_typed (set_trigger_kind nl)"
  by (simp add: set_trigger_kind_def)

lemma keywords_edit_typed:
  "list_all trigger_typed ts \<Longrightarrow> list_all trigger_typed (keywords_edit p ks ts)"
  unfolding keywords_edit_def using set_in_typed(1) [of ts "''value''" "JArr (map JStr ks)"] set_keywords_typed by simp

lemma triggers_typed: "policy_typed p \<Longrightarrow> list_all trigger_typed (triggers_of p)"
  by (auto simp: policy_typed_def triggers_of_def)

lemmas trigger_edits_typed = keywords_edit_typed set_in_typed kinds_typed

lemma nl_edits_typed:
  "list_all trigger_typed ts \<Longrightarrow> list_all trigger_typed (add_nl_trigger target ts)"
  "list_all trigger_typed ts \<Longrightarrow> list_all trigger_typed (remove_nl_trigger ts)"
  by (auto simp: add_nl_trigger_def remove_nl_trigger_def list_all_iff)

text \<open>Writing one field of a policy: those all kinds have, and those of a kind.\<close>

definition common_keys :: "string list" where
  "common_keys = [''id'', ''name'', ''description'', ''enabled'', ''priority'', ''triggers'']"

lemma kind_typed_put: "is_obj p \<Longrightarrow> k \<in> set common_keys \<Longrightarrow> kind_typed (obj_with p [(k, v)]) = kind_typed p"
  unfolding common_keys_def
  by (simp only: list.set insert_iff empty_iff, elim disjE;
      simp add: kind_typed_def kind_is_def guard_typed_def playbook_typed_def guide_typed_def approval_typed_def formatter_typed_def)

lemma put_triggers: "policy_typed p \<Longrightarrow> list_all trigger_typed ts \<Longrightarrow> policy_typed (obj_with p [(''triggers'', JArr ts)])"
  using kind_typed_put [of p "''triggers''"] by (simp add: policy_typed_def common_keys_def)

lemma put_common:
  assumes "policy_typed p"
    "k = ''enabled'' \<and> is_boolean v \<or> k \<in> {''name'', ''description''} \<and> is_string v \<or> k = ''priority'' \<and> is_number v"
  shows "policy_typed (obj_with p [(k, v)])"
  using assms(2) kind_typed_put [of p k v] assms(1)
  by (elim disjE conjE; simp add: policy_typed_def common_keys_def; elim disjE; simp)

lemma put_own:
  assumes "policy_typed p" "k \<notin> set common_keys" "kind_typed (obj_with p [(k, v)])"
  shows "policy_typed (obj_with p [(k, v)])"
  using assms by (auto simp: policy_typed_def common_keys_def)


lemmas kind_defs = kind_typed_def kind_is_def guard_typed_def playbook_typed_def guide_typed_def approval_typed_def formatter_typed_def

lemma own_text_typed: "policy_typed p \<Longrightarrow> own_text p k \<Longrightarrow> policy_typed (obj_with p [(k, JStr t)])"
  unfolding own_text_def
  by (elim disjE conjE; (rule put_common; simp; fail)?; rule put_own; simp add: common_keys_def policy_typed_def kind_defs)

lemma own_flag_typed: "policy_typed p \<Longrightarrow> own_flag p k \<Longrightarrow> policy_typed (obj_with p [(k, JBool b)])"
  unfolding own_flag_def
  by (elim disjE conjE; rule put_own; simp add: common_keys_def policy_typed_def kind_defs)

lemma response_typed: "policy_typed p \<Longrightarrow> kind_is [''intent_guard''] p \<Longrightarrow>
    policy_typed (obj_with p [(''response'', obj_with (fld p ''response'') [(''content'', JStr t)])])"
  by (rule put_own; simp add: common_keys_def policy_typed_def kind_defs)

lemma tools_typed: "policy_typed p \<Longrightarrow> kind_is [''tool_guide'', ''tool_approval''] p \<Longrightarrow> list_all is_string xs \<Longrightarrow>
    policy_typed (obj_with p [(tools_key p, JArr xs)])"
  by (rule put_own; auto simp: tools_key_def common_keys_def policy_typed_def kind_defs)

lemma apps_typed: "policy_typed p \<Longrightarrow> kind_is [''tool_guide'', ''tool_approval''] p \<Longrightarrow> list_all is_string xs \<Longrightarrow>
    policy_typed (obj_with p [(apps_key p, optional_list xs)])"
  by (rule put_own; auto simp: apps_key_def optional_list_def common_keys_def policy_typed_def kind_defs optional_def [of _ "JArr xs"])

lemma approval_fields_typed:
  assumes "policy_typed p" "kind_is [''tool_approval''] p"
  shows "policy_typed (obj_with p [(''approval_message'', if t = [] then JUndef else JStr t)])"
    "policy_typed (obj_with p [(''auto_approve_after'', auto_approve_value v)])"
  by (rule put_own [OF assms(1)]; use assms in \<open>auto simp: auto_approve_value_def common_keys_def policy_typed_def kind_defs
      optional_def [of _ "JStr t"] optional_def [of _ "JNum _"] split: jv.split\<close>)+

lemma format_typed: "policy_typed p \<Longrightarrow> kind_is [''output_formatter''] p \<Longrightarrow> t \<in> {''markdown'', ''json_schema'', ''direct''} \<Longrightarrow>
    policy_typed (obj_with p [(''format_type'', JStr t)])"
  by (rule put_own; auto simp: common_keys_def policy_typed_def kind_defs)

lemma priority_typed: "policy_typed p \<Longrightarrow> policy_typed (obj_with p [(''priority'', priority_value v)])"
  by (rule put_common) (auto simp: priority_value_def split: jv.split)

lemma chosen_strings: "list_all is_string ys \<Longrightarrow> set xs \<subseteq> set ys \<Longrightarrow> list_all is_string xs"
  by (auto simp: list_all_iff)

lemma body_edit_typed:
  assumes "policies_typed s" "policy_typed p" "body_allows s p e"
  shows "policy_typed (obj_with p (edit_fields p e))"
  using assms(3)
  by (cases e)
    (auto simp: body_allows_def assms(2) own_text_typed own_flag_typed response_typed approval_fields_typed format_typed priority_typed
      triggers_typed keywords_edit_typed set_in_typed kinds_typed nl_edits_typed
      intro!: put_triggers tools_typed apps_typed dest: chosen_strings [rotated]
      simp: assms(1) [unfolded policies_typed_def])


lemma always_typed: "trigger_typed (JObj [(''type'', JStr ''always'')])"
  by (simp add: trigger_typed_def)

lemma added_typed: "p \<in> set (pc_policies (add_new ty now (s\<lparr>pc_policies := []\<rparr>))) \<Longrightarrow> policy_typed p"
  by (auto simp: add_new_def add_intent_guard_def add_playbook_def add_tool_guide_def add_tool_approval_def add_output_formatter_def
      add_policy_def new_policy_def policy_typed_def kind_defs always_typed optional_def [of _ "JStr _"] simp del: join.simps split: if_splits)

lemma add_new_appends:
  "\<exists>p. pc_policies (add_new ty now s) = pc_policies s @ [p] \<and> pc_policies (add_new ty now (s\<lparr>pc_policies := []\<rparr>)) = [p]
     \<and> pc_tools (add_new ty now s) = pc_tools s \<and> pc_apps (add_new ty now s) = pc_apps s \<and> pc_loading (add_new ty now s) = pc_loading s"
  by (simp add: add_new_def add_intent_guard_def add_playbook_def add_tool_guide_def add_tool_approval_def add_output_formatter_def add_policy_def)

lemma find_policy_Some: "find_policy i s = Some p \<Longrightarrow> p \<in> set (pc_policies s) \<and> fld p ''id'' = i"
  by (auto simp: find_policy_def find_Some_iff)

lemma find_policy_only:
  assumes "policies_typed s" "find_policy i s = Some p" "q \<in> set (pc_policies s)" "fld q ''id'' = i"
  shows "q = p"
  using assms find_policy_Some [OF assms(2)] by (auto simp: policies_typed_def distinct_map inj_on_def)

lemma find_policy_None: "find_policy i s = None \<longleftrightarrow> i \<notin> (\<lambda>p. fld p ''id'') ` set (pc_policies s)"
  by (auto simp: find_policy_def find_None_iff)

text \<open>An edit of a policy replaces it in its place.\<close>

definition edits_one :: "policy_edit \<Rightarrow> bool" where
  "edits_one e \<longleftrightarrow> (case e of Enable_All b \<Rightarrow> False | Add_New t n \<Rightarrow> False | Policy_Expand i \<Rightarrow> False | Policy_Remove i \<Rightarrow> False | _ \<Rightarrow> True)"

lemma policies_do_edit:
  assumes "edits_one e" "edit_target e = Some i" "find_policy i s = Some p"
  shows "policies_do e s = update_policy i (edit_fields p e) s"
  using assms by (cases e) (simp_all add: policies_do_def edits_one_def)

lemma allowed_edit:
  assumes "edits_one e" "policies_allows s e"
  shows "\<exists>i p. edit_target e = Some i \<and> find_policy i s = Some p
     \<and> (body_allows s p e \<or> (\<exists>b. e = Policy_Enabled i b) \<or> (\<exists>t. e = Policy_Text i ''name'' t))"
  using assms
  by (cases e) (auto simp: policies_allows_def edits_one_def split: option.splits)

lemma edit_keeps_id: "edits_one e \<Longrightarrow> body_allows s p e \<or> (\<exists>b. e = Policy_Enabled i b) \<or> (\<exists>t. e = Policy_Text i ''name'' t) \<Longrightarrow>
    is_obj p \<Longrightarrow> fld (obj_with p (edit_fields p e)) ''id'' = fld p ''id''"
  by (cases e) (auto simp: edits_one_def body_allows_def own_text_def own_flag_def tools_key_def apps_key_def)

lemma edit_typed:
  assumes "policies_typed s" "edits_one e" "policies_allows s e"
  obtains i p where "edit_target e = Some i" "find_policy i s = Some p" "policies_do e s = update_policy i (edit_fields p e) s"
    "policy_typed (obj_with p (edit_fields p e))" "fld (obj_with p (edit_fields p e)) ''id'' = i"
proof -
  obtain i p where e: "edit_target e = Some i" "find_policy i s = Some p"
    "body_allows s p e \<or> (\<exists>b. e = Policy_Enabled i b) \<or> (\<exists>t. e = Policy_Text i ''name'' t)"
    using allowed_edit [OF assms(2,3)] by blast
  have p: "policy_typed p" "fld p ''id'' = i" using find_policy_Some [OF e(2)] assms(1) by (auto simp: policies_typed_def list_all_iff)
  have "policy_typed (obj_with p (edit_fields p e))"
    using e(3) body_edit_typed [OF assms(1) p(1)] put_common [OF p(1)] by auto
  moreover have "fld (obj_with p (edit_fields p e)) ''id'' = i"
    using edit_keeps_id [OF assms(2) e(3)] p by (simp add: policy_typed_def)
  ultimately show ?thesis using that [OF e(1,2) policies_do_edit [OF assms(2) e(1,2)]] by blast
qed

lemma updated_typed:
  assumes "policies_typed s" "find_policy i s = Some p" "policy_typed q" "fld q ''id'' = i" "q = obj_with p us"
  shows "policies_typed (update_policy i us s)"
proof -
  let ?f = "\<lambda>x. if fld x ''id'' = i then obj_with x us else x"
  have f: "?f x = (if fld x ''id'' = i then q else x)" if "x \<in> set (pc_policies s)" for x
    using find_policy_only [OF assms(1,2) that] assms(5) by auto
  have "map (\<lambda>x. fld (?f x) ''id'') (pc_policies s) = map (\<lambda>x. fld x ''id'') (pc_policies s)"
    using f assms(4) by (intro map_cong) auto
  moreover have "list_all policy_typed (map ?f (pc_policies s))"
    using f assms(1,3) by (auto simp: list_all_iff policies_typed_def)
  moreover have "distinct (map (\<lambda>x. fld x ''id'') (pc_policies s))" using assms(1) by (simp add: policies_typed_def)
  ultimately have "distinct (map (\<lambda>x. fld (?f x) ''id'') (pc_policies s))" "list_all policy_typed (map ?f (pc_policies s))"
    by (simp_all only:)
  then show ?thesis using assms(1) by (simp add: update_policy_def policies_typed_def comp_def)
qed

lemma step_typed: "policies_typed s \<Longrightarrow> policies_allows s e \<Longrightarrow> policies_typed (policies_do e s)"
proof -
  assume ty: "policies_typed s" and al: "policies_allows s e"
  show ?thesis
  proof (cases "edits_one e")
    case True
    obtain i p where "find_policy i s = Some p" "policies_do e s = update_policy i (edit_fields p e) s"
      "policy_typed (obj_with p (edit_fields p e))" "fld (obj_with p (edit_fields p e)) ''id'' = i"
      using edit_typed [OF ty True al] by blast
    then show ?thesis using updated_typed [OF ty] by metis
  next
    case False
    show ?thesis
    proof (cases e)
      case (Add_New t n)
      obtain p where p: "pc_policies (add_new t n s) = pc_policies s @ [p]" "pc_policies (add_new t n (s\<lparr>pc_policies := []\<rparr>)) = [p]"
        "pc_tools (add_new t n s) = pc_tools s" "pc_apps (add_new t n s) = pc_apps s"
        using add_new_appends [of t n s] by blast
      have "find_policy (fld p ''id'') s = None" using al p(2) by (simp add: policies_allows_def Add_New)
      then show ?thesis using ty p(1,3,4) added_typed [of p t n s] p(2)
        by (auto simp: policies_do_def Add_New policies_typed_def find_policy_None)
    next
      case (Policy_Remove i)
      then show ?thesis using ty
        by (auto simp: policies_do_def remove_policy_def policies_typed_def list_all_iff distinct_map inj_on_def)
    qed (use False ty in \<open>auto simp: policies_do_def edits_one_def policies_typed_def toggle_expanded_def\<close>)
  qed
qed

text \<open>All that is reached by edits that the controls allow.\<close>

inductive edited :: "policies_state \<Rightarrow> policies_state \<Rightarrow> bool" for s where
  unedited: "edited s s"
| once_more: "edited s t \<Longrightarrow> policies_allows t e \<Longrightarrow> edited s (policies_do e t)"

lemma edited_typed: "edited s t \<Longrightarrow> policies_typed s \<Longrightarrow> policies_typed t"
  by (induction rule: edited.induct) (auto intro: step_typed)


section \<open>Properties\<close>

lemma normalize_trigger_typed: "trigger_typed t \<Longrightarrow> \<exists>u. normalize_trigger t = Inr u"
proof -
  assume "trigger_typed t"
  then obtain fs where "t = JObj fs" by (cases t) (auto simp: trigger_typed_def)
  then show ?thesis by (simp add: normalize_trigger_def)
qed

lemma try_map_defined: "\<forall>x \<in> set xs. \<exists>y. f x = Inr y \<Longrightarrow> \<exists>ys. try_map f xs = Inr ys"
  by (induction xs) auto

lemma normalize_typed: "policy_typed p \<Longrightarrow> \<exists>q. normalize_policy p = Inr q"
proof -
  assume p: "policy_typed p"
  then obtain ts fs where ts: "fld p ''triggers'' = JArr ts" "list_all trigger_typed ts" and fs: "p = JObj fs"
    by (cases p) (auto simp: policy_typed_def)
  obtain us where "try_map normalize_trigger ts = Inr us"
    using try_map_defined [of ts normalize_trigger] normalize_trigger_typed ts(2) by (auto simp: list_all_iff)
  then show ?thesis using ts(1) fs by (simp add: normalize_policy_def mapped_array_def)
qed

lemma normalize_all: "list_all policy_typed ps \<Longrightarrow> \<exists>qs. try_map normalize_policy ps = Inr qs"
  by (rule try_map_defined) (auto simp: list_all_iff intro: normalize_typed)

text \<open>
  C6. Whatever is edited, added and removed through the controls that are drawn and enabled: every
  policy keeps the type that is declared for its kind, the policies keep different
  identifiers, and the list is one that can be normalised for saving.
\<close>

theorem policies_stay_typed:
  assumes "edited s t" "policies_typed s"
  shows "list_all policy_typed (pc_policies t) \<and> distinct (map (\<lambda>p. fld p ''id'') (pc_policies t))
     \<and> (\<exists>ps. try_map normalize_policy (pc_policies t) = Inr ps)"
  using edited_typed [OF assms] normalize_all by (auto simp: policies_typed_def)

theorem policies_stay_typed_witness:
  "\<exists>t. edited (policies_init\<lparr>pc_loading := False\<rparr>) t \<and> length (pc_policies t) = 1 \<and> list_all policy_typed (pc_policies t)"
proof -
  let ?s = "policies_init\<lparr>pc_loading := False\<rparr>"
  have "policies_allows ?s (Add_New ''playbook'' ''7'')"
    by (simp add: policies_allows_def policies_init_def find_policy_def)
  then have e: "edited ?s (policies_do (Add_New ''playbook'' ''7'') ?s)" by (rule edited.once_more [OF edited.unedited])
  have "policies_typed ?s" by (simp add: policies_typed_def policies_init_def offered_names_def list_of_def)
  from policies_stay_typed [OF e this] e show ?thesis
    by (intro exI [of _ "policies_do (Add_New ''playbook'' ''7'') ?s"])
      (simp add: policies_do_def add_new_def add_playbook_def add_policy_def policies_init_def)
qed

text \<open>
  An edit changes one policy at most: the others stay as they are and in their order, and a new
  policy is put at the end.  While the policies are switched off, no control changes any.
\<close>

theorem edit_touches_one:
  assumes "policies_typed s" "policies_allows s e"
  shows "(\<forall>i. edit_target e = Some i \<longrightarrow>
            filter (\<lambda>p. fld p ''id'' \<noteq> i) (pc_policies (policies_do e s)) = filter (\<lambda>p. fld p ''id'' \<noteq> i) (pc_policies s))
     \<and> (edit_target e = None \<longrightarrow> take (length (pc_policies s)) (pc_policies (policies_do e s)) = pc_policies s)
     \<and> (\<not> truthy (pc_enable s) \<longrightarrow> pc_policies (policies_do e s) = pc_policies s)"
proof (cases "edits_one e")
  case True
  obtain i p where i: "edit_target e = Some i" "policies_do e s = update_policy i (edit_fields p e) s"
    "fld (obj_with p (edit_fields p e)) ''id'' = i" "find_policy i s = Some p"
    using edit_typed [OF assms(1) True assms(2)] by blast
  have "filter (\<lambda>x. fld x ''id'' \<noteq> i) (map (\<lambda>x. if fld x ''id'' = i then obj_with x (edit_fields p e) else x) xs)
      = filter (\<lambda>x. fld x ''id'' \<noteq> i) xs" if "\<forall>x \<in> set xs. fld x ''id'' = i \<longrightarrow> x = p" for xs
    using that i(3) by (induction xs) auto
  moreover have "\<forall>x \<in> set (pc_policies s). fld x ''id'' = i \<longrightarrow> x = p" using find_policy_only [OF assms(1) i(4)] by blast
  moreover have "truthy (pc_enable s)" using assms(2) True by (cases e) (auto simp: policies_allows_def edits_one_def)
  ultimately show ?thesis using i(1,2) by (simp add: update_policy_def)
next
  case False
  show ?thesis
  proof (cases e)
    case (Add_New t n)
    then show ?thesis using add_new_appends [of t n s] assms(2) by (auto simp: policies_do_def policies_allows_def)
  qed (use False assms(2) in \<open>auto simp: policies_do_def edits_one_def remove_policy_def toggle_expanded_def policies_allows_def\<close>)
qed

theorem edit_touches_one_witness:
  "pc_policies (policies_do (Policy_Expand (JStr ''guard_1'')) (add_intent_guard ''1'' (policies_init\<lparr>pc_loading := False, pc_enable := JBool False\<rparr>)))
     = pc_policies (add_intent_guard ''1'' (policies_init\<lparr>pc_loading := False, pc_enable := JBool False\<rparr>))"
proof -
  let ?s = "add_intent_guard ''1'' (policies_init\<lparr>pc_loading := False, pc_enable := JBool False\<rparr>)"
  have "list_all policy_typed (pc_policies ?s)"
    using added_typed [of _ "''intent_guard''" "''1''" ?s]
    by (auto simp: list_all_iff add_new_def add_intent_guard_def add_policy_def policies_init_def)
  then have t: "policies_typed ?s"
    by (simp add: policies_typed_def add_intent_guard_def add_policy_def policies_init_def offered_names_def list_of_def)
  have a: "policies_allows ?s (Policy_Expand (JStr ''guard_1''))"
    by (simp add: policies_allows_def add_intent_guard_def add_policy_def policies_init_def find_policy_def new_policy_def)
  have "\<not> truthy (pc_enable ?s)" by (simp add: add_intent_guard_def add_policy_def)
  then show ?thesis using edit_touches_one [OF t a] by blast
qed

definition for_all_tools :: "jv \<Rightarrow> bool" where
  "for_all_tools p \<longleftrightarrow> JStr ''*'' \<in> set (list_of (fld p (tools_key p)))"

lemma edit_no_star:
  assumes "body_allows s p e" "is_obj p" "JStr ''*'' \<notin> set (offered_names (pc_tools s))" "kind_is [''tool_guide'', ''tool_approval''] p"
    "for_all_tools (obj_with p (edit_fields p e))"
  shows "for_all_tools p \<and> (\<forall>i xs. e \<noteq> Tools_Chosen i xs)"
  using assms
  by (cases e) (auto simp: body_allows_def for_all_tools_def tools_key_def apps_key_def kind_is_def own_text_def own_flag_def list_of_def)


lemma in_updated: "q \<in> set (pc_policies (update_policy i us s)) \<Longrightarrow> \<exists>p \<in> set (pc_policies s). q = (if fld p ''id'' = i then obj_with p us else p)"
  by (auto simp: update_policy_def)

lemma choice_fields: "is_obj p \<Longrightarrow> tools_key (obj_with p (edit_fields p (Tools_Chosen i xs))) = tools_key p"
  by (simp add: tools_key_def)

text \<open>
  A guide or an approval for all tools is one no more as soon as a tool is chosen: exactly the
  chosen tools are stored, so those the server does not offer any more are dropped as well.  And
  no edit makes it one again, unless the server offers a tool whose name is the star.
\<close>

theorem all_tools_lost:
  assumes "policies_typed s" "policies_allows s e" "JStr ''*'' \<notin> set (offered_names (pc_tools s))" "\<forall>ty now. e \<noteq> Add_New ty now"
    "q \<in> set (pc_policies (policies_do e s))" "kind_is [''tool_guide'', ''tool_approval''] q"
  shows "(for_all_tools q \<longrightarrow> (\<forall>i xs. e \<noteq> Tools_Chosen i xs \<or> i \<noteq> fld q ''id'')
           \<and> (\<exists>p \<in> set (pc_policies s). fld p ''id'' = fld q ''id'' \<and> for_all_tools p))
     \<and> (\<forall>xs. e = Tools_Chosen (fld q ''id'') xs \<longrightarrow> list_of (fld q (tools_key q)) = xs)"
proof (cases "edits_one e")
  case True
  obtain i p where i: "edit_target e = Some i" "policies_do e s = update_policy i (edit_fields p e) s" "find_policy i s = Some p"
    "fld (obj_with p (edit_fields p e)) ''id'' = i" "policy_typed (obj_with p (edit_fields p e))"
    using edit_typed [OF assms(1) True assms(2)] by blast
  obtain p' where p': "p' \<in> set (pc_policies s)" "q = (if fld p' ''id'' = i then obj_with p' (edit_fields p e) else p')"
    using in_updated assms(5) unfolding i(2) by metis
  have o: "is_obj p" using find_policy_Some [OF i(3)] assms(1) by (auto simp: policies_typed_def list_all_iff policy_typed_def)
  show ?thesis
  proof (cases "fld p' ''id'' = i")
    case same: True
    then have pp: "p' = p" "q = obj_with p (edit_fields p e)" using find_policy_only [OF assms(1) i(3) p'(1)] p'(2) by auto
    have a: "body_allows s p e \<or> (\<exists>b. e = Policy_Enabled i b) \<or> (\<exists>t. e = Policy_Text i ''name'' t)"
      using allowed_edit [OF True assms(2)] i(1,3) by auto
    have k: "kind_is [''tool_guide'', ''tool_approval''] p"
      using assms(6) a o pp(2) by (cases e) (auto simp: kind_is_def body_allows_def own_text_def own_flag_def tools_key_def apps_key_def)
    have "for_all_tools q \<longrightarrow> for_all_tools p \<and> (\<forall>i xs. e \<noteq> Tools_Chosen i xs)"
      using a
    proof (elim disjE)
      assume "body_allows s p e"
      from edit_no_star [OF this o assms(3) k] show ?thesis unfolding pp(2) by blast
    qed (auto simp: pp(2) o for_all_tools_def tools_key_def)
    moreover have "list_of (fld q (tools_key q)) = xs" if "e = Tools_Chosen j xs" for j xs
      using that o choice_fields [OF o] by (simp add: pp(2) list_of_def)
    ultimately show ?thesis using p'(1) pp(1) same i(4) by (auto simp: pp(2))
  next
    case False
    then show ?thesis using p' i(1) by auto
  qed
next
  case False
  then show ?thesis using assms(4,5) by (cases e) (auto simp: policies_do_def edits_one_def remove_policy_def toggle_expanded_def)
qed

theorem all_tools_lost_witness:
  "let s = (add_tool_guide ''1'' (policies_init\<lparr>pc_loading := False, pc_tools := JArr [JObj [(''name'', JStr ''crm'')]]\<rparr>))
             \<lparr>pc_expanded := Some (JStr ''tool_guide_1'')\<rparr>
   in list_all for_all_tools (pc_policies s)
      \<and> (\<forall>q \<in> set (pc_policies (policies_do (Tools_Chosen (JStr ''tool_guide_1'') [JStr ''crm'']) s)). \<not> for_all_tools q)"
proof -
  let ?s = "(add_tool_guide ''1'' (policies_init\<lparr>pc_loading := False, pc_tools := JArr [JObj [(''name'', JStr ''crm'')]]\<rparr>))
             \<lparr>pc_expanded := Some (JStr ''tool_guide_1'')\<rparr>"
  let ?e = "Tools_Chosen (JStr ''tool_guide_1'') [JStr ''crm'']"
  have ps: "pc_policies ?s = pc_policies (add_new ''tool_guide'' ''1'' (?s\<lparr>pc_policies := []\<rparr>))"
    by (simp add: add_new_def add_tool_guide_def add_policy_def policies_init_def)
  have "list_all policy_typed (pc_policies ?s)" unfolding ps using added_typed [of _ "''tool_guide''" "''1''" ?s] by (auto simp: list_all_iff)
  then have t: "policies_typed ?s"
    by (simp add: policies_typed_def add_tool_guide_def add_policy_def policies_init_def offered_names_def list_of_def)
  have a: "policies_allows ?s ?e"
    by (simp add: policies_allows_def add_tool_guide_def add_policy_def policies_init_def find_policy_def new_policy_def body_allows_def
        kind_is_def offered_names_def list_of_def)
  have n: "JStr ''*'' \<notin> set (offered_names (pc_tools ?s))" "\<forall>ty now. ?e \<noteq> Add_New ty now"
    by (simp_all add: add_tool_guide_def add_policy_def offered_names_def list_of_def)
  have k: "kind_is [''tool_guide'', ''tool_approval''] q \<and> fld q ''id'' = JStr ''tool_guide_1''" if "q \<in> set (pc_policies (policies_do ?e ?s))" for q
    using that by (auto simp: policies_do_def find_policy_def update_policy_def add_tool_guide_def add_policy_def policies_init_def
        new_policy_def kind_is_def tools_key_def)
  have "\<not> for_all_tools q" if "q \<in> set (pc_policies (policies_do ?e ?s))" for q
    using all_tools_lost [OF t a n that] k [OF that] by auto
  moreover have "list_all for_all_tools (pc_policies ?s)"
    by (simp add: add_tool_guide_def add_policy_def policies_init_def new_policy_def for_all_tools_def tools_key_def list_of_def)
  ultimately show ?thesis by (simp only: Let_def) blast
qed

end
