(* ===== verification/Manage.thy ===== *)
theory Manage
  imports Js_Value
begin

text \<open>
  The manage page, \<open>frontend/src/ManagePage.tsx\<close>: the configuration of an agent in
  five sections, read from the server's draft or the published version, edited, saved to
  the draft piece by piece and published, with the masking of secrets and the normalisation
  of tools.  Number printing and the answers of the server are arguments.
\<close>

section \<open>Secrets\<close>

definition is_secret_ref :: "jv \<Rightarrow> bool" where
  "is_secret_ref v =
     (case v of
        JStr s \<Rightarrow> starts_with s ''db://'' \<or> starts_with s ''vault://'' \<or> starts_with s ''aws://'' \<or> starts_with s ''env://''
      | _ \<Rightarrow> False)"

definition bullets :: string where
  "bullets = concat (replicate 8 [CHR 0xE2, CHR 0x80, CHR 0xA2])"

definition is_auth :: "(string \<times> jv) list \<Rightarrow> bool" where
  "is_auth fs \<longleftrightarrow> the_str (fld (JObj fs) ''type'') \<noteq> None"

definition sensitive_key :: "(string \<times> jv) list \<Rightarrow> string \<Rightarrow> bool" where
  "sensitive_key fs k \<longleftrightarrow>
     (let lower = to_lower k in lower = ''api_key'' \<or> (is_auth fs \<and> (lower = ''value'' \<or> lower = ''key'')))"

definition plain_secret :: "jv \<Rightarrow> bool" where
  "plain_secret v \<longleftrightarrow> (case v of JStr s \<Rightarrow> s \<noteq> [] \<and> \<not> is_secret_ref v | _ \<Rightarrow> False)"

fun mask_secrets :: "jv \<Rightarrow> jv" where
  "mask_secrets (JArr xs) = JArr (map mask_secrets xs)"
| "mask_secrets (JObj fs) =
     JObj (map (\<lambda>p. (fst p, if sensitive_key fs (fst p) \<and> plain_secret (snd p) then JStr bullets
                             else mask_secrets (snd p))) fs)"
| "mask_secrets v = v"

text \<open>The references to the saved secrets, by their source and the mode of the store.\<close>

definition secret_ref :: "(rat \<Rightarrow> string) \<Rightarrow> string \<Rightarrow> jv \<Rightarrow> jv" where
  "secret_ref num mode s =
     (let ident = js_to_string num (fld s ''id''); source = fld s ''source''
      in if source = JStr ''vault'' \<or> mode = ''vault'' then JStr (''vault://secret/'' @ ident @ ''#value'')
         else if source = JStr ''env'' then fld s ''id''
         else if source = JStr ''aws'' then JStr (''aws://'' @ ident)
         else JStr (''db://'' @ ident))"

definition slug_char :: "char \<Rightarrow> char" where
  "slug_char c = (if (97 \<le> (of_char c :: nat) \<and> (of_char c :: nat) \<le> 122) \<or> is_digit c \<or> c = CHR ''-'' then c else CHR ''-'')"

text \<open>\<open>replace(/\\s+/g, "-")\<close>: every run of blanks becomes one hyphen.\<close>

fun join_blanks :: "string \<Rightarrow> string" where
  "join_blanks [] = []"
| "join_blanks (c # cs) =
     (if is_ws c then (case cs of d # _ \<Rightarrow> if is_ws d then join_blanks cs else CHR ''-'' # join_blanks cs | [] \<Rightarrow> ''-'')
      else c # join_blanks cs)"

definition secret_slug :: "string \<Rightarrow> string \<Rightarrow> string" where
  "secret_slug now key =
     (let s = map slug_char (join_blanks (to_lower (trim key))) in if s \<noteq> [] then s else ''llm-api-key-'' @ now)"

section \<open>Tools\<close>

definition normalize_auth :: "jv \<Rightarrow> jv" where
  "normalize_auth v =
     (case v of JStr s \<Rightarrow> if s \<noteq> [] then JObj [(''type'', JStr ''bearer''), (''value'', v)] else v | _ \<Rightarrow> v)"

definition tool_transport :: "jv \<Rightarrow> string \<Rightarrow> jv" where
  "tool_transport t d = js_or (fld t ''transport'') (JStr d)"

definition tool_command :: "(rat \<Rightarrow> string) \<Rightarrow> jv \<Rightarrow> string" where
  "tool_command num t = (if nullish (fld t ''command'') then [] else trim (js_to_string num (fld t ''command'')))"

definition tool_type :: "jv \<Rightarrow> string" where
  "tool_type t = (if fld t ''type'' = JStr ''openapi'' then ''openapi'' else ''mcp'')"

definition tool_include :: "jv \<Rightarrow> (string \<times> jv) list" where
  "tool_include t = (case fld t ''include'' of JArr (x # xs) \<Rightarrow> [(''include'', JArr (x # xs))] | _ \<Rightarrow> [])"

definition tool_run :: "(rat \<Rightarrow> string) \<Rightarrow> jv \<Rightarrow> (string \<times> jv) list" where
  "tool_run num t =
     (if tool_command num t \<noteq> []
      then [(''command'', JStr (tool_command num t)), (''args'', case fld t ''args'' of JArr as \<Rightarrow> JArr as | _ \<Rightarrow> JArr []),
            (''transport'', tool_transport t ''stdio'')]
      else if tool_type t = ''mcp'' \<and> truthy (fld t ''url'') then [(''transport'', tool_transport t ''sse'')] else [])"

definition normalize_tool :: "(rat \<Rightarrow> string) \<Rightarrow> jv \<Rightarrow> exn + jv" where
  "normalize_tool num t =
     (if nullish t then Inl (type_error t ''type'')
      else Inr (JObj (
             [(''name'', js_nullor (fld t ''name'') (JStr (tool_type t))), (''type'', JStr (tool_type t)),
              (''url'', js_or (fld t ''url'') JUndef), (''description'', fld t ''description''),
              (''auth'', normalize_auth (fld t ''auth''))]
             @ tool_include t @ tool_run num t)))"

text \<open>The tools of a configuration; what is not an array is left as it is.\<close>

definition normalize_tools_of :: "(rat \<Rightarrow> string) \<Rightarrow> jv \<Rightarrow> exn + jv" where
  "normalize_tools_of num v =
     (case v of JArr ts \<Rightarrow> try_bind (try_map (normalize_tool num) ts) (\<lambda>us. Inr (JArr us)) | _ \<Rightarrow> Inr v)"

section \<open>The sections of a configuration\<close>

record sections =
  sc_llm :: jv
  sc_tools :: jv
  sc_flags :: jv
  sc_home :: jv
  sc_policies :: jv

definition default_home :: jv where
  "default_home = JObj [(''isOn'', JBool True), (''greeting'', JStr ''Hello, how can I help you today?''),
     (''starters'', JArr [JStr ''Hi, what can you do for me?''])]"

definition default_llm :: jv where
  "default_llm = JObj [(''provider'', JStr ''openai''), (''api_key'', JStr []), (''auth_type'', JStr ''api_key''),
     (''auth_header_name'', JStr ''Authorization''), (''base_url'', JStr []), (''model'', JStr []),
     (''temperature'', JNum (1 / 10)), (''disable_ssl'', JBool False)]"

definition default_flags :: jv where
  "default_flags = JObj [(''enable_todos'', JBool True), (''reflection'', JBool False), (''max_steps'', JNum 70),
     (''shortlisting_tool_threshold'', JNum 35)]"

definition no_policies :: jv where
  "no_policies = JObj [(''enablePolicies'', JBool True), (''policies'', JArr [])]"

definition default_sections :: sections where
  "default_sections = \<lparr>sc_llm = default_llm, sc_tools = JArr [], sc_flags = default_flags, sc_home = default_home,
     sc_policies = JUndef\<rparr>"

text \<open>\<open>Object.assign(out, config)\<close>, on the sections.\<close>

definition overlay_sections :: "jv \<Rightarrow> sections \<Rightarrow> sections" where
  "overlay_sections config b =
     (let own = (\<lambda>k d. case map_of (obj_fields config) k of Some v \<Rightarrow> v | None \<Rightarrow> d)
      in \<lparr>sc_llm = own ''llm'' (sc_llm b), sc_tools = own ''tools'' (sc_tools b), sc_flags = own ''feature_flags'' (sc_flags b),
          sc_home = own ''homescreen'' (sc_home b), sc_policies = own ''policies'' (sc_policies b)\<rparr>)"

definition home_of :: "jv \<Rightarrow> jv" where
  "home_of hs = JObj
     [(''isOn'', js_nullor (fld hs ''isOn'') (JBool True)),
      (''greeting'', js_nullor (fld hs ''greeting'') (fld default_home ''greeting'')),
      (''starters'', case fld hs ''starters'' of
                       JArr xs \<Rightarrow> JArr (filter (\<lambda>x. the_str x \<noteq> None) (take 4 xs))
                     | _ \<Rightarrow> fld default_home ''starters'')]"

text \<open>Policies that are there are taken to be an object.\<close>

definition repaired_policies :: "jv \<Rightarrow> jv" where
  "repaired_policies p =
     (if \<not> truthy p then p
      else
        let p1 = (if \<not> truthy (fld p ''enablePolicies'') \<and> fld p ''enablePolicies'' \<noteq> JBool False
                  then obj_with p [(''enablePolicies'', JBool True)] else p)
        in case fld p1 ''policies'' of JArr _ \<Rightarrow> p1 | _ \<Rightarrow> obj_with p1 [(''policies'', JArr [])])"

definition read_sections :: "(rat \<Rightarrow> string) \<Rightarrow> sections \<Rightarrow> jv \<Rightarrow> exn + sections" where
  "read_sections num b config =
     (let o1 = overlay_sections config b
      in try_bind (normalize_tools_of num (sc_tools o1)) (\<lambda>ts.
         Inr (o1\<lparr>sc_tools := ts, sc_policies := repaired_policies (sc_policies o1),
                 sc_home := (if truthy (fld config ''homescreen'') then home_of (fld config ''homescreen'') else sc_home o1)\<rparr>)))"

text \<open>What is put on the screen.\<close>

definition shown_sections :: "sections \<Rightarrow> sections" where
  "shown_sections o1 =
     \<lparr>sc_llm = js_nullor (sc_llm o1) default_llm,
      sc_tools = (case sc_tools o1 of JArr ts \<Rightarrow> JArr ts | _ \<Rightarrow> JArr []),
      sc_flags = js_nullor (sc_flags o1) default_flags,
      sc_home = js_nullor (sc_home o1) default_home,
      sc_policies = js_nullor (sc_policies o1) no_policies\<rparr>"

definition assemble_config :: "sections \<Rightarrow> jv" where
  "assemble_config s = JObj [(''llm'', sc_llm s), (''tools'', sc_tools s), (''feature_flags'', sc_flags s),
     (''homescreen'', sc_home s), (''policies'', sc_policies s)]"

section \<open>The page\<close>

record http_reply =
  hr_ok :: bool
  hr_status :: nat
  hr_status_text :: string
  hr_json :: "exn + jv"

datatype manage_call = PostDraft jv | PatchTools jv | PatchLlm jv | PostPublish jv

datatype toast = Toast string string jv          \<comment> \<open>kind, title, subtitle\<close>

record manage_state =
  mg_sec :: sections
  mg_version :: jv
  mg_load_error :: "string option"
  mg_apps :: jv
  mg_tools_list :: jv
  mg_history :: jv
  mg_toasts :: "toast list"
  mg_status :: nat                  \<comment> \<open>0 idle, 1 saving, 2 success, 3 error\<close>
  mg_skip :: bool
  mg_timer :: "jv option"           \<comment> \<open>tools that are going to be saved to the draft\<close>
  mg_pending :: "sections list"     \<comment> \<open>full saves that are going to be made, with what they saw\<close>
  mg_importing :: bool
  mg_calls :: "manage_call list"

definition manage_init :: manage_state where
  "manage_init = \<lparr>mg_sec = default_sections\<lparr>sc_policies := no_policies\<rparr>, mg_version = JNull, mg_load_error = None,
     mg_apps = JArr [], mg_tools_list = JArr [], mg_history = JArr [], mg_toasts = [], mg_status = 0, mg_skip = True,
     mg_timer = None, mg_pending = [], mg_importing = False, mg_calls = []\<rparr>"

definition add_toast :: "string \<Rightarrow> string \<Rightarrow> jv \<Rightarrow> manage_state \<Rightarrow> manage_state" where
  "add_toast kind title m s = s\<lparr>mg_toasts := mg_toasts s @ [Toast kind title m]\<rparr>"

definition status_text :: "http_reply \<Rightarrow> string" where
  "status_text r = '' ('' @ show_nat (hr_status r) @ '' '' @ hr_status_text r @ '')''"

text \<open>Setting the tools runs the effect that saves them half a second later, unless it is told to skip.\<close>

definition set_sections :: "sections \<Rightarrow> manage_state \<Rightarrow> manage_state" where
  "set_sections o1 s = s\<lparr>mg_sec := o1, mg_timer := (if mg_skip s then None else Some (sc_tools o1))\<rparr>"

definition set_tools :: "jv \<Rightarrow> manage_state \<Rightarrow> manage_state" where
  "set_tools ts s = set_sections ((mg_sec s)\<lparr>sc_tools := ts\<rparr>) s"

section \<open>Loading\<close>

definition has_fields :: "jv \<Rightarrow> bool" where
  "has_fields v \<longleftrightarrow> truthy v \<and> obj_fields v \<noteq> []"

definition draft_part :: "(rat \<Rightarrow> string) \<Rightarrow> jv \<Rightarrow> exn + (sections \<times> jv)" where
  "draft_part num data =
     try_bind (get_prop data ''version'') (\<lambda>version.
       let config = fld data ''config''
       in if version = JStr ''draft'' \<or> has_fields config
          then try_bind (if truthy config then read_sections num default_sections config else Inr default_sections) (\<lambda>o1.
               Inr (o1, if version = JStr ''draft'' then JStr ''draft'' else js_nullor version JNull))
          else Inr (default_sections, JNull))"

definition published_part :: "(rat \<Rightarrow> string) \<Rightarrow> sections \<Rightarrow> jv \<Rightarrow> exn + (sections \<times> jv)" where
  "published_part num b data =
     try_bind (get_prop data ''config'') (\<lambda>config.
     try_bind (if has_fields config then read_sections num b config else Inr b) (\<lambda>o1.
       Inr (o1, case fld data ''version'' of JNum n \<Rightarrow> JNum n | _ \<Rightarrow> JNull)))"

definition load_warnings :: "http_reply \<Rightarrow> http_reply \<Rightarrow> toast list" where
  "load_warnings draft tools_list =
     (if \<not> hr_ok draft \<and> 400 \<le> hr_status draft
      then [Toast ''error'' ''Load Error'' (JStr (''Failed to load draft config'' @ status_text draft))] else [])
     @ (if \<not> hr_ok tools_list \<and> 400 \<le> hr_status tools_list
        then [Toast ''warning'' ''Load Warning'' (JStr (''Failed to load tools list'' @ status_text tools_list))] else [])"

definition connected_tool :: "jv \<Rightarrow> jv" where
  "connected_tool t = obj_with t [(''id'', js_nullor (fld t ''id'') (fld t ''name''))]"

definition listed_tools :: "jv \<Rightarrow> exn + jv" where
  "listed_tools d =
     (case js_nullor (fld d ''tools'') (JArr []) of
        JArr ts \<Rightarrow> try_bind (try_map (\<lambda>t. try_bind (get_prop t ''id'') (\<lambda>_. Inr (connected_tool t))) ts) (\<lambda>us. Inr (JArr us))
      | _ \<Rightarrow> Inl ''map is not a function'')"

text \<open>The list of tools; its apps are taken over before its tools, which can throw.\<close>

definition put_tools_list :: "http_reply \<Rightarrow> manage_state \<Rightarrow> exn option \<times> manage_state" where
  "put_tools_list r s =
     (if hr_ok r
      then (case try_bind (hr_json r) (\<lambda>d. try_bind (get_prop d ''apps'') (\<lambda>a. Inr (d, a))) of
              Inl m \<Rightarrow> (Some m, s)
            | Inr (d, a) \<Rightarrow>
                let s1 = s\<lparr>mg_apps := js_nullor a (JArr [])\<rparr>
                in (case listed_tools d of
                      Inl m \<Rightarrow> (Some m, s1) | Inr ts \<Rightarrow> (None, s1\<lparr>mg_tools_list := ts\<rparr>)))
      else (None, s\<lparr>mg_apps := JArr [], mg_tools_list := JArr []\<rparr>))"

text \<open>
  \<open>loadLatest\<close>: the draft, else the published version; both requests of the first
  step fail together.  Reading the published version is left out when the draft is there.
\<close>

definition load_failed :: "string \<Rightarrow> toast list \<Rightarrow> manage_state \<Rightarrow> manage_state" where
  "load_failed m ws s = s\<lparr>mg_load_error := Some m, mg_toasts := mg_toasts s @ ws @ [Toast ''error'' ''Load Error'' (JStr m)],
     mg_skip := False\<rparr>"

definition load_latest ::
  "(rat \<Rightarrow> string) \<Rightarrow> exn + http_reply \<times> http_reply \<Rightarrow> exn + http_reply \<Rightarrow> manage_state \<Rightarrow> manage_state" where
  "load_latest num first published s =
     (case first of
        Inl m \<Rightarrow> load_failed m [] s
      | Inr (draft, tools_list) \<Rightarrow>
          let ws = load_warnings draft tools_list
          in case (if hr_ok draft then try_bind (hr_json draft) (draft_part num) else Inr (default_sections, JNull)) of
               Inl m \<Rightarrow> load_failed m ws s
             | Inr (o1, v1) \<Rightarrow>
                 (case (if v1 \<noteq> JNull then Inr (o1, v1, [])
                        else try_bind published (\<lambda>r.
                               if hr_ok r
                               then try_bind (hr_json r) (\<lambda>d. try_bind (published_part num o1 d) (\<lambda>(o2, v2). Inr (o2, v2, [])))
                               else Inr (o1, JNull, if 400 \<le> hr_status r
                                      then [Toast ''error'' ''Load Error'' (JStr (''Failed to load published config'' @ status_text r))]
                                      else []))) of
                    Inl m \<Rightarrow> load_failed m ws s
                  | Inr (o2, v2, ws2) \<Rightarrow>
                      (case put_tools_list tools_list s of
                         (Some m, s1) \<Rightarrow> load_failed m (ws @ ws2) s1
                       | (None, s1) \<Rightarrow>
                           s1\<lparr>mg_sec := shown_sections o2, mg_timer := None, mg_version := v2, mg_load_error := None,
                              mg_skip := False, mg_toasts := mg_toasts s @ ws @ ws2\<rparr>)))"

section \<open>Saving\<close>

definition error_fields :: "jv \<Rightarrow> string \<Rightarrow> jv" where
  "error_fields e d = js_or (js_or (opt_prop e ''error'') (opt_prop e ''message'')) (JStr d)"

definition tool_error_toasts :: "(rat \<Rightarrow> string) \<Rightarrow> string \<Rightarrow> bool \<Rightarrow> jv \<Rightarrow> toast list" where
  "tool_error_toasts num title with_type errors =
     map (\<lambda>(name, e).
            let m = error_fields e ''Unknown error'';
                ty = (if with_type \<and> truthy (opt_prop e ''type'') then '' ('' @ js_to_string num (fld e ''type'') @ '')'' else [])
            in Toast ''warning'' (title @ name) (if with_type then JStr (js_to_string num m @ ty) else m))
       (obj_fields errors)"

definition draft_answered :: "(rat \<Rightarrow> string) \<Rightarrow> exn + http_reply \<Rightarrow> manage_state \<Rightarrow> manage_state" where
  "draft_answered num r s =
     (case r of
        Inl m \<Rightarrow> add_toast ''error'' ''Draft Save Failed'' (JStr m) s
      | Inr rep \<Rightarrow>
          if \<not> hr_ok rep then add_toast ''error'' ''Draft Save Failed'' (JStr (''Failed to save draft'' @ status_text rep)) s
          else
            let data = (case hr_json rep of Inr d \<Rightarrow> d | Inl _ \<Rightarrow> JObj []); s1 = s\<lparr>mg_version := JStr ''draft''\<rparr>
            in if nullish data then add_toast ''error'' ''Draft Save Failed'' (JStr (type_error data ''status'')) s1
               else if fld data ''status'' = JStr ''partial''
                  \<and> (truthy (fld data ''tool_errors'') \<or> truthy (fld data ''policy_errors''))
               then add_toast ''info'' ''Draft saved with warnings''
                      (js_or (fld data ''message'') (JStr ''Some tools or policies failed to load''))
                      (s1\<lparr>mg_toasts := mg_toasts s1
                          @ (if truthy (fld data ''tool_errors'')
                             then tool_error_toasts num ''Tool failed: '' True (fld data ''tool_errors'') else [])
                          @ (if truthy (fld data ''policy_errors'')
                             then map (\<lambda>e. Toast ''warning'' ''Policy error'' (JStr (js_to_string num e)))
                                    (case fld data ''policy_errors'' of JArr es \<Rightarrow> es | e \<Rightarrow> [e]) else [])\<rparr>)
               else add_toast ''success'' ''Draft saved'' (JStr ''Your changes have been saved to draft'') s1)"

text \<open>\<open>performDraftSave\<close> of the rendering that had the sections \<open>seen\<close>.\<close>

definition perform_draft_save ::
  "(rat \<Rightarrow> string) \<Rightarrow> exn + http_reply \<Rightarrow> sections \<Rightarrow> manage_state \<Rightarrow> manage_state" where
  "perform_draft_save num r seen s = draft_answered num r (s\<lparr>mg_calls := mg_calls s @ [PostDraft (assemble_config seen)]\<rparr>)"

text \<open>The language model's settings are read from a reference, so these are the ones on the screen.\<close>

definition save_llm_draft :: "exn + http_reply \<Rightarrow> manage_state \<Rightarrow> manage_state" where
  "save_llm_draft r s =
     (let s1 = s\<lparr>mg_calls := mg_calls s @ [PatchLlm (sc_llm (mg_sec s))]\<rparr>
      in case r of
           Inl m \<Rightarrow> add_toast ''error'' ''Draft Save Failed'' (JStr m) s1
         | Inr rep \<Rightarrow>
             if hr_ok rep then add_toast ''success'' ''Draft saved'' (JStr ''LLM settings saved to draft'')
                                 (s1\<lparr>mg_version := JStr ''draft''\<rparr>)
             else add_toast ''error'' ''Draft Save Failed'' (JStr (''Failed to save LLM'' @ status_text rep)) s1)"

definition tools_timer :: "(rat \<Rightarrow> string) \<Rightarrow> exn + http_reply \<Rightarrow> manage_state \<Rightarrow> manage_state" where
  "tools_timer num r s =
     (case mg_timer s of
        None \<Rightarrow> s
      | Some ts \<Rightarrow>
          let s1 = s\<lparr>mg_timer := None, mg_calls := mg_calls s @ [PatchTools ts]\<rparr>
          in case r of
               Inl m \<Rightarrow> add_toast ''error'' ''Draft Save Failed'' (JStr m) s1
             | Inr rep \<Rightarrow>
                 if \<not> hr_ok rep then add_toast ''error'' ''Draft Save Failed'' (JStr (''Failed to save tools'' @ status_text rep)) s1
                 else
                   let data = (case hr_json rep of Inr d \<Rightarrow> d | Inl _ \<Rightarrow> JObj []); s2 = s1\<lparr>mg_version := JStr ''draft''\<rparr>
                   in if nullish data then add_toast ''error'' ''Draft Save Failed'' (JStr (type_error data ''status'')) s2
                      else if fld data ''status'' = JStr ''partial'' \<and> truthy (fld data ''tool_errors'')
                      then s2\<lparr>mg_toasts := mg_toasts s2 @ tool_error_toasts num ''Tool: '' False (fld data ''tool_errors'')\<rparr>
                      else add_toast ''success'' ''Draft saved'' (JStr ''Tools saved to draft'') s2)"

text \<open>
  \<open>saveConfig\<close>, which publishes.  An entry that is \<open>null\<close> throws after the toasts
  of the entries before it.
\<close>

definition toasts_until_null :: "string \<Rightarrow> ('a \<times> jv) list \<Rightarrow> ('a \<times> jv \<Rightarrow> toast) \<Rightarrow> toast list \<times> exn option" where
  "toasts_until_null k xs f =
     (map f (takeWhile (\<lambda>x. \<not> nullish (snd x)) xs),
      case dropWhile (\<lambda>x. \<not> nullish (snd x)) xs of [] \<Rightarrow> None | x # _ \<Rightarrow> Some (type_error (snd x) k))"

definition publish_errors :: "(rat \<Rightarrow> string) \<Rightarrow> jv \<Rightarrow> toast list \<times> exn option" where
  "publish_errors num errors =
     toasts_until_null ''error'' (obj_fields errors)
       (\<lambda>(name, e). Toast ''warning'' (''Tool initialization failed: '' @ name)
          (JStr (js_to_string num (error_fields e ''Unknown error'')
             @ (if truthy (fld e ''type'') then '' ('' @ js_to_string num (fld e ''type'') @ '')'' else []))))"

definition legacy_errors :: "jv list \<Rightarrow> toast list \<times> exn option" where
  "legacy_errors es =
     toasts_until_null ''message'' (map (\<lambda>e. ((), e)) es)
       (\<lambda>(_, e). Toast ''warning'' ''Partial save error''
          (case e of JStr _ \<Rightarrow> e | _ \<Rightarrow> js_or (js_or (fld e ''message'') (fld e ''error'')) (JStr ''Unknown error'')))"

definition publish_done :: "(rat \<Rightarrow> string) \<Rightarrow> jv \<Rightarrow> manage_state \<Rightarrow> exn option \<times> manage_state" where
  "publish_done num data s =
     (let partial = (fld data ''status'' = JStr ''partial'' \<and> truthy (fld data ''tool_errors''));
          (ts1, e1) = (if partial then publish_errors num (fld data ''tool_errors'') else ([], None));
          s1 = s\<lparr>mg_toasts := mg_toasts s @ ts1\<rparr>
      in if e1 \<noteq> None then (e1, s1)
         else
           let s2 = (if partial
                     then add_toast ''info'' ''Configuration partially saved''
                            (js_or (fld data ''message'') (JStr (show_nat (length (obj_fields (fld data ''tool_errors'')))
                               @ '' tool(s) failed to initialize''))) s1
                     else s1);
               legacy = (case fld data ''partial_errors'' of JArr es \<Rightarrow> es | _ \<Rightarrow> []);
               (ts2, e2) = legacy_errors legacy;
               s3 = s2\<lparr>mg_toasts := mg_toasts s2 @ ts2\<rparr>
           in if e2 \<noteq> None then (e2, s3)
              else
                let s4 = s3\<lparr>mg_version := (case fld data ''version'' of JNum n \<Rightarrow> JNum n | _ \<Rightarrow> JStr ''draft''), mg_status := 2\<rparr>
                in (None, if \<not> partial \<and> (truthy (fld data ''partial_errors'') \<longrightarrow> fld (fld data ''partial_errors'') ''length'' = JNum 0)
                          then add_toast ''success'' ''Configuration saved''
                                 (JStr ''Your configuration has been saved successfully'') s4
                          else s4))"

definition publish_answered :: "(rat \<Rightarrow> string) \<Rightarrow> exn + http_reply \<Rightarrow> manage_state \<Rightarrow> manage_state" where
  "publish_answered num r s =
     (let fail = (\<lambda>title m u. add_toast ''error'' title m (u\<lparr>mg_status := 3\<rparr>))
      in case r of
           Inl m \<Rightarrow> fail ''Network Error'' (JStr m) s
         | Inr rep \<Rightarrow>
             if \<not> hr_ok rep
             then let d = JStr (''Failed to save configuration'' @ status_text rep)
                  in fail ''Save Failed''
                       (case hr_json rep of
                          Inr e \<Rightarrow> if nullish e then d else js_or (js_or (fld e ''error'') (fld e ''message'')) d
                        | Inl _ \<Rightarrow> d) s
             else case hr_json rep of
                    Inl m \<Rightarrow> fail ''Network Error'' (JStr m) s
                  | Inr data \<Rightarrow>
                      if nullish data then fail ''Network Error'' (JStr (type_error data ''status'')) s
                      else case publish_done num data s of
                             (Some m, u) \<Rightarrow> fail ''Network Error'' (JStr m) u
                           | (None, u) \<Rightarrow> u)"

definition save_published :: "(rat \<Rightarrow> string) \<Rightarrow> exn + http_reply \<Rightarrow> manage_state \<Rightarrow> manage_state" where
  "save_published num r s =
     (let o1 = (mg_sec s)\<lparr>sc_policies := (if truthy (sc_policies (mg_sec s)) then sc_policies (mg_sec s) else no_policies)\<rparr>
      in publish_answered num r (s\<lparr>mg_calls := mg_calls s @ [PostPublish (assemble_config o1)]\<rparr>))"

section \<open>Versions, edits and imports\<close>

definition put_version :: "(rat \<Rightarrow> string) \<Rightarrow> jv \<Rightarrow> jv \<Rightarrow> manage_state \<Rightarrow> exn + manage_state" where
  "put_version num config version s =
     (let next = overlay_sections config default_sections
      in try_bind (normalize_tools_of num (sc_tools next)) (\<lambda>ts.
           Inr ((set_sections (shown_sections (next\<lparr>sc_tools := ts\<rparr>)) s)\<lparr>mg_version := version\<rparr>)))"

definition load_version :: "(rat \<Rightarrow> string) \<Rightarrow> nat \<Rightarrow> exn + http_reply \<Rightarrow> manage_state \<Rightarrow> manage_state" where
  "load_version num v r s =
     (let fail = (\<lambda>m. add_toast ''error'' ''Load Error'' (JStr m) (s\<lparr>mg_status := 3\<rparr>))
      in case r of
           Inl m \<Rightarrow> fail m
         | Inr rep \<Rightarrow>
             if \<not> hr_ok rep then fail (''Failed to load version '' @ show_nat v @ status_text rep)
             else case try_bind (hr_json rep) (\<lambda>d. try_bind (get_prop d ''config'') (\<lambda>c. put_version num c (JNum (of_nat v)) s)) of
                    Inl m \<Rightarrow> fail m
                  | Inr s1 \<Rightarrow> add_toast ''success'' ''Version Loaded'' (JStr (''Loaded version '' @ show_nat v)) s1)"

text \<open>An edit of a flag or of the welcome screen: the new value, and a full save by the old rendering.\<close>

definition toggle_flag :: "string \<Rightarrow> jv \<Rightarrow> manage_state \<Rightarrow> manage_state" where
  "toggle_flag k v s = s\<lparr>mg_sec := (mg_sec s)\<lparr>sc_flags := obj_with (sc_flags (mg_sec s)) [(k, v)]\<rparr>,
     mg_pending := mg_pending s @ [mg_sec s]\<rparr>"

definition toggle_home :: "jv \<Rightarrow> manage_state \<Rightarrow> manage_state" where
  "toggle_home v s = s\<lparr>mg_sec := (mg_sec s)\<lparr>sc_home := obj_with (js_nullor (sc_home (mg_sec s)) default_home) [(''isOn'', v)]\<rparr>,
     mg_pending := mg_pending s @ [mg_sec s]\<rparr>"

definition pending_save :: "(rat \<Rightarrow> string) \<Rightarrow> exn + http_reply \<Rightarrow> manage_state \<Rightarrow> manage_state" where
  "pending_save num r s =
     (case mg_pending s of [] \<Rightarrow> s | seen # rest \<Rightarrow> perform_draft_save num r seen (s\<lparr>mg_pending := rest\<rparr>))"

definition update_llm :: "string \<Rightarrow> jv \<Rightarrow> manage_state \<Rightarrow> manage_state" where
  "update_llm k v s = s\<lparr>mg_sec := (mg_sec s)\<lparr>sc_llm := obj_with (sc_llm (mg_sec s)) [(k, v)]\<rparr>\<rparr>"

definition select_provider :: "string \<Rightarrow> jv \<Rightarrow> jv" where
  "select_provider ident prev =
     (let next = obj_with prev [(''provider'', JStr ident)];
          model = truthy (fld prev ''model''); base = truthy (fld prev ''base_url'')
      in if ident = ''groq'' then obj_with next [(''base_url'', JStr [])]
         else if ident = ''openai'' \<and> \<not> (model \<and> base)
         then obj_with next ((if model then [] else [(''model'', JStr ''gpt-4o'')]) @ (if base then [] else [(''base_url'', JStr [])]))
         else if ident = ''litellm'' \<and> \<not> (model \<and> base)
         then obj_with next (if base then [] else [(''base_url'', JStr ''http://localhost:4000'')])
         else next)"

definition update_starter :: "nat \<Rightarrow> string \<Rightarrow> jv \<Rightarrow> jv" where
  "update_starter i v home =
     (let old = (case js_nullor (opt_prop home ''starters'') (fld default_home ''starters'') of JArr xs \<Rightarrow> xs | _ \<Rightarrow> []);
          padded = old @ replicate (Suc i - length old) (JStr [])
      in obj_with (js_nullor home default_home) [(''starters'', JArr (take 4 (padded[i := JStr v])))])"

definition import_sections :: "(rat \<Rightarrow> string) \<Rightarrow> jv \<Rightarrow> exn + sections" where
  "import_sections num raw =
     try_bind (get_prop raw ''llm'') (\<lambda>llm.
     try_bind (case fld raw ''tools'' of JArr ts \<Rightarrow> normalize_tools_of num (JArr ts) | _ \<Rightarrow> Inr (JArr [])) (\<lambda>ts.
       let is_object = (\<lambda>v. case v of JObj _ \<Rightarrow> True | JArr _ \<Rightarrow> True | _ \<Rightarrow> False);
           p = fld raw ''policies''
       in Inr \<lparr>sc_llm = (if is_object llm then obj_with default_llm (obj_fields llm) else default_llm),
               sc_tools = ts,
               sc_flags = (if is_object (fld raw ''feature_flags'')
                           then obj_with default_flags (obj_fields (fld raw ''feature_flags'')) else default_flags),
               sc_home = (if is_object (fld raw ''homescreen'') then home_of (fld raw ''homescreen'') else default_home),
               sc_policies =
                 (case p of
                    JArr ps \<Rightarrow> JObj [(''enablePolicies'', JBool True), (''policies'', p)]
                  | JObj fs \<Rightarrow>
                      if ''policies'' \<in> fst ` set fs
                      then JObj [(''enablePolicies'', js_nullor (fld p ''enablePolicies'') (JBool True)),
                                 (''policies'', case fld p ''policies'' of JArr ps \<Rightarrow> JArr ps | _ \<Rightarrow> JArr [])]
                      else no_policies
                  | _ \<Rightarrow> no_policies)\<rparr>))"

text \<open>An import puts the sections on the screen and saves them to the draft.\<close>

definition handle_import ::
  "(rat \<Rightarrow> string) \<Rightarrow> exn + jv \<Rightarrow> exn + http_reply \<Rightarrow> manage_state \<Rightarrow> manage_state" where
  "handle_import num raw r s =
     (case try_bind raw (import_sections num) of
        Inl _ \<Rightarrow> add_toast ''error'' ''Import failed'' (JStr ''Invalid JSON'') s
      | Inr o1 \<Rightarrow> perform_draft_save num r o1 ((set_sections o1 s)\<lparr>mg_importing := True\<rparr>))"

definition policies_by_type :: "jv list \<Rightarrow> (jv \<times> nat) list" where
  "policies_by_type ps =
     foldl (\<lambda>al p. let t = js_nullor (opt_prop p ''policy_type'') (JStr ''other'')
                   in al_set t (Suc (case map_of al t of Some n \<Rightarrow> n | None \<Rightarrow> 0)) al) [] ps"

section \<open>Properties\<close>

text \<open>
  A secret in the clear, said without the code's own test: a non-empty text that is no
  reference, under the name of a key of a model, or as the value or key of an
  authentication, that is of an object whose type is a text.
\<close>

definition secret_field :: "(string \<times> jv) list \<Rightarrow> string \<Rightarrow> bool" where
  "secret_field fs k \<longleftrightarrow>
     to_lower k = ''api_key'' \<or> to_lower k \<in> {''value'', ''key''} \<and> (\<exists>t. fld (JObj fs) ''type'' = JStr t)"

fun shows_secret :: "jv \<Rightarrow> bool" where
  "shows_secret (JArr xs) = list_ex shows_secret xs"
| "shows_secret (JObj fs) =
     list_ex (\<lambda>p. secret_field fs (fst p) \<and> plain_secret (snd p) \<and> snd p \<noteq> JStr bullets \<or> shows_secret (snd p)) fs"
| "shows_secret v = False"

lemma secret_field_masked: "secret_field = sensitive_key"
proof -
  have "is_auth fs \<longleftrightarrow> (\<exists>t. fld (JObj fs) ''type'' = JStr t)" for fs
    unfolding is_auth_def by (cases "fld (JObj fs) ''type''") simp_all
  then show ?thesis by (auto simp: secret_field_def sensitive_key_def fun_eq_iff Let_def)
qed

lemma is_auth_map:
  assumes "\<And>p. p \<in> set fs \<Longrightarrow> fst p = ''type'' \<Longrightarrow> the_str (f p) = the_str (snd p)"
  shows "is_auth (map (\<lambda>p. (fst p, f p)) fs) = is_auth fs"
  using assms
proof (induction fs)
  case (Cons p fs)
  show ?case
  proof (cases "fst p = ''type''")
    case True
    then show ?thesis using Cons.prems [of p] by (cases p) (simp add: is_auth_def)
  next
    case False
    then show ?thesis using Cons by (cases p) (simp add: is_auth_def)
  qed
qed (simp add: is_auth_def)

lemma type_not_sensitive: "\<not> sensitive_key fs ''type''"
  by (simp add: sensitive_key_def lower_char_def Let_def)

definition masked :: "(string \<times> jv) list \<Rightarrow> string \<times> jv \<Rightarrow> jv" where
  "masked fs p = (if sensitive_key fs (fst p) \<and> plain_secret (snd p) then JStr bullets else mask_secrets (snd p))"

lemma mask_obj: "mask_secrets (JObj fs) = JObj (map (\<lambda>p. (fst p, masked fs p)) fs)"
  by (simp add: masked_def)

lemma mask_str: "the_str (mask_secrets v) = the_str v"
  by (cases v) simp_all

lemma masked_type: "fst p = ''type'' \<Longrightarrow> the_str (masked fs p) = the_str (snd p)"
  using type_not_sensitive [of fs] by (simp add: masked_def mask_str)

lemma sensitive_masked: "sensitive_key (map (\<lambda>p. (fst p, masked gs p)) fs) = sensitive_key fs"
proof -
  have "is_auth (map (\<lambda>p. (fst p, masked gs p)) fs) = is_auth fs"
    by (rule is_auth_map) (rule masked_type)
  then show ?thesis by (auto simp only: sensitive_key_def fun_eq_iff)
qed

lemma mask_plain: "plain_secret (mask_secrets v) = plain_secret v"
  by (cases v) (simp_all add: plain_secret_def)

lemma mask_bullets: "plain_secret (JStr bullets)"
  by (simp add: plain_secret_def is_secret_ref_def bullets_def starts_with_def numeral_eq_Suc)

lemma mask_shows_none: "\<not> shows_secret (mask_secrets v)"
proof (induction v)
  case (JObj fs)
  have ih: "\<not> shows_secret (mask_secrets (snd p))" if "p \<in> set fs" for p
    using JObj [of p "snd p"] that by (cases p) auto
  have "\<not> (sensitive_key fs (fst p) \<and> plain_secret (masked fs p) \<and> masked fs p \<noteq> JStr bullets) \<and> \<not> shows_secret (masked fs p)"
    if "p \<in> set fs" for p
    using ih [OF that] by (simp add: masked_def mask_plain)
  then show ?case
    by (simp add: mask_obj secret_field_masked sensitive_masked list_ex_iff del: mask_secrets.simps)
qed (auto simp: list_ex_iff)

lemma mask_fixes: "\<not> shows_secret v \<Longrightarrow> mask_secrets v = v"
proof (induction v)
  case (JObj fs)
  have "masked fs p = snd p" if "p \<in> set fs" for p
  proof -
    have "\<not> shows_secret (snd p)" "sensitive_key fs (fst p) \<and> plain_secret (snd p) \<longrightarrow> snd p = JStr bullets"
      using JObj.prems that by (auto simp: list_ex_iff secret_field_masked)
    moreover have "mask_secrets (snd p) = snd p" if "\<not> shows_secret (snd p)"
      using JObj.IH [of p "snd p"] that \<open>p \<in> set fs\<close> by (cases p) auto
    ultimately show ?thesis by (auto simp: masked_def)
  qed
  then have "map (\<lambda>p. (fst p, masked fs p)) fs = map id fs" by (intro map_cong) auto
  then show ?case by (simp add: mask_obj del: mask_secrets.simps)
qed (auto simp: list_ex_iff map_idI)

text \<open>
  The places in a configuration: a path of positions of fields and entries.  The outline of a
  value is its kind, with the names of its fields or the number of its entries, and all of
  it if it is neither an object nor an array.
\<close>

fun at_place :: "nat list \<Rightarrow> jv \<Rightarrow> jv option" where
  "at_place [] v = Some v"
| "at_place (n # p) (JArr xs) = (if n < length xs then at_place p (xs ! n) else None)"
| "at_place (n # p) (JObj fs) = (if n < length fs then at_place p (snd (fs ! n)) else None)"
| "at_place (n # p) v = None"

fun secret_at :: "nat list \<Rightarrow> jv \<Rightarrow> bool" where
  "secret_at (n # p) (JArr xs) = (n < length xs \<and> secret_at p (xs ! n))"
| "secret_at (n # p) (JObj fs) =
     (n < length fs \<and> (if p = [] then secret_field fs (fst (fs ! n)) \<and> plain_secret (snd (fs ! n))
                       else secret_at p (snd (fs ! n))))"
| "secret_at p v = False"

fun outline :: "jv \<Rightarrow> jv" where
  "outline (JArr xs) = JArr (map (\<lambda>_. JUndef) xs)"
| "outline (JObj fs) = JObj (map (\<lambda>p. (fst p, JUndef)) fs)"
| "outline v = v"

lemma outline_masked: "outline (mask_secrets v) = outline v"
  by (cases v) (simp_all add: comp_def)

lemma text_has_no_places: "plain_secret v \<Longrightarrow> p \<noteq> [] \<Longrightarrow> at_place p v = None \<and> \<not> secret_at p v"
  by (cases v; cases p) (simp_all add: plain_secret_def)

lemma masked_at:
  "at_place p (mask_secrets v) = (if secret_at p v then Some (JStr bullets) else map_option mask_secrets (at_place p v))"
proof (induction p arbitrary: v)
  case (Cons n p)
  show ?case
  proof (cases v)
    case (JObj fs)
    have at: "at_place (n # p) (mask_secrets v) = (if n < length fs then at_place p (masked fs (fs ! n)) else None)"
      unfolding JObj mask_obj by simp
    show ?thesis
    proof (cases "n < length fs \<and> secret_field fs (fst (fs ! n)) \<and> plain_secret (snd (fs ! n))")
      case True
      then show ?thesis
        using at text_has_no_places [of "snd (fs ! n)" p] text_has_no_places [OF mask_bullets, of p]
        by (cases "p = []") (simp_all add: JObj masked_def secret_field_masked)
    next
      case False
      then have "n < length fs \<Longrightarrow> masked fs (fs ! n) = mask_secrets (snd (fs ! n))"
        by (auto simp: masked_def secret_field_masked)
      then show ?thesis using at False Cons.IH by (auto simp: JObj)
    qed
  qed (simp_all add: Cons.IH)
qed simp

text \<open>
  C23. What is shown and downloaded of a version holds no secret in the clear, and masking
  changes nothing else, place by place: it has the same places, the text of a secret has
  become the mask, and every other place has the same object with the same fields, array of
  the same length or plain value.  But a tool whose authentication is a bare text, which the
  page accepts, is shown with it, and a downloaded configuration that is imported again
  puts the mask in the place of the key.
\<close>

theorem mask_hides_secrets:
  "\<not> shows_secret (mask_secrets v)
   \<and> (at_place p (mask_secrets v) = None \<longleftrightarrow> at_place p v = None)
   \<and> (\<forall>w. at_place p (mask_secrets v) = Some w \<longrightarrow>
        (if secret_at p v then w = JStr bullets else Some (outline w) = map_option outline (at_place p v)))
   \<and> (\<not> shows_secret v \<longrightarrow> mask_secrets v = v)
   \<and> mask_secrets (JObj [(''auth'', JStr token)]) = JObj [(''auth'', JStr token)]
   \<and> (plain_secret (JStr key) \<longrightarrow>
       (\<exists>o1. import_sections num (mask_secrets (JObj [(''llm'', JObj [(''api_key'', JStr key)])])) = Inr o1
          \<and> fld (sc_llm o1) ''api_key'' = JStr bullets))"
proof (intro conjI impI allI)
  have "secret_at p v \<Longrightarrow> at_place p v \<noteq> None"
    by (induction p v rule: secret_at.induct) (auto split: if_splits)
  then show "at_place p (mask_secrets v) = None \<longleftrightarrow> at_place p v = None" by (auto simp: masked_at)
  show "if secret_at p v then w = JStr bullets else Some (outline w) = map_option outline (at_place p v)"
    if "at_place p (mask_secrets v) = Some w" for w
    using that by (auto simp: masked_at outline_masked split: if_splits)
  show "mask_secrets (JObj [(''auth'', JStr token)]) = JObj [(''auth'', JStr token)]"
    by (simp add: sensitive_key_def is_auth_def lower_char_def)
  assume "plain_secret (JStr key)"
  then have m: "mask_secrets (JObj [(''llm'', JObj [(''api_key'', JStr key)])]) = JObj [(''llm'', JObj [(''api_key'', JStr bullets)])]"
    by (simp add: sensitive_key_def is_auth_def lower_char_def plain_secret_def)
  show "\<exists>o1. import_sections num (mask_secrets (JObj [(''llm'', JObj [(''api_key'', JStr key)])])) = Inr o1
          \<and> fld (sc_llm o1) ''api_key'' = JStr bullets"
    unfolding m by (simp add: import_sections_def default_llm_def obj_with_def spread_def Let_def)
qed (use mask_shows_none mask_fixes in auto)

theorem mask_hides_secrets_witness:
  "mask_secrets (JObj [(''provider'', JStr ''openai''), (''api_key'', JStr ''db://k'')]) =
     JObj [(''provider'', JStr ''openai''), (''api_key'', JStr ''db://k'')]"
proof -
  have "\<not> shows_secret (JObj [(''provider'', JStr ''openai''), (''api_key'', JStr ''db://k'')])"
    by (simp add: plain_secret_def is_secret_ref_def starts_with_def secret_field_def lower_char_def)
  then show ?thesis using mask_hides_secrets by blast
qed

section \<open>Tools and drafts\<close>

lemma map_of_include:
  "map_of (tool_include t) k =
     (if k = ''include'' then (case fld t ''include'' of JArr (x # xs) \<Rightarrow> Some (JArr (x # xs)) | _ \<Rightarrow> None) else None)"
  by (simp add: tool_include_def split: jv.split list.split)

lemma map_of_run:
  "map_of (tool_run num t) ''command'' = (if tool_command num t \<noteq> [] then Some (JStr (tool_command num t)) else None)"
  "map_of (tool_run num t) ''args'' =
     (if tool_command num t \<noteq> [] then Some (case fld t ''args'' of JArr as \<Rightarrow> JArr as | _ \<Rightarrow> JArr []) else None)"
  "map_of (tool_run num t) ''transport'' =
     (if tool_command num t \<noteq> [] then Some (tool_transport t ''stdio'')
      else if tool_type t = ''mcp'' \<and> truthy (fld t ''url'') then Some (tool_transport t ''sse'') else None)"
  "map_of (tool_run num t) ''include'' = None"
  by (simp_all add: tool_run_def)

lemma normalize_tool_fields:
  assumes "normalize_tool num t = Inr e"
  shows "fld e ''type'' = JStr (tool_type t)" "fld e ''name'' = js_nullor (fld t ''name'') (JStr (tool_type t))"
    "fld e ''url'' = js_or (fld t ''url'') JUndef" "fld e ''description'' = fld t ''description''"
    "fld e ''auth'' = normalize_auth (fld t ''auth'')"
    "fld e ''include'' = (case fld t ''include'' of JArr (x # xs) \<Rightarrow> JArr (x # xs) | _ \<Rightarrow> JUndef)"
    "fld e ''command'' = (if tool_command num t \<noteq> [] then JStr (tool_command num t) else JUndef)"
    "fld e ''args'' = (if tool_command num t \<noteq> [] then (case fld t ''args'' of JArr as \<Rightarrow> JArr as | _ \<Rightarrow> JArr []) else JUndef)"
    "fld e ''transport'' = (if tool_command num t \<noteq> [] then tool_transport t ''stdio''
       else if tool_type t = ''mcp'' \<and> truthy (fld t ''url'') then tool_transport t ''sse'' else JUndef)"
  using assms by (simp_all add: normalize_tool_def map_of_include map_of_run split: if_splits)
    (auto simp: map_of_include map_of_run map_add_def split: jv.split list.split)

lemma normalize_tool_again:
  assumes "normalize_tool num t = Inr e" "\<not> nullish u" "\<And>k. fld u k = fld e k"
  shows "normalize_tool num u = Inr e"
proof -
  note f = normalize_tool_fields [OF assms(1)]
  have ty: "tool_type u = tool_type t" by (simp add: tool_type_def assms(3) f(1))
  have tt: "trim (tool_command num t) = tool_command num t"
    by (cases "nullish (fld t ''command'')") (simp_all only: tool_command_def trim_idem if_True if_False, simp add: trim_def trim_start_def)
  have c: "tool_command num u = tool_command num t"
    using tt by (cases "tool_command num t = []") (simp_all add: tool_command_def [of num u] assms(3) f(7))
  have url: "js_or (fld u ''url'') JUndef = js_or (fld t ''url'') JUndef" "truthy (fld u ''url'') = truthy (fld t ''url'')"
    by (auto simp: assms(3) f(3) js_or_def)
  have inc: "tool_include u = tool_include t"
    by (simp add: tool_include_def assms(3) f(6) split: jv.split list.split)
  have run: "tool_run num u = tool_run num t"
  proof (cases "tool_command num t = []")
    case True
    then show ?thesis using url(2) [unfolded assms(3)]
      by (auto simp: tool_run_def c ty tool_transport_def js_or_def assms(3) f(9))
  next
    case False
    then show ?thesis
      by (simp add: tool_run_def c tool_transport_def js_or_def assms(3) f(8,9) split: jv.split)
  qed
  have "e = JObj ([(''name'', js_nullor (fld t ''name'') (JStr (tool_type t))), (''type'', JStr (tool_type t)),
      (''url'', js_or (fld t ''url'') JUndef), (''description'', fld t ''description''), (''auth'', normalize_auth (fld t ''auth''))]
      @ tool_include t @ tool_run num t)"
    using assms(1) by (simp add: normalize_tool_def split: if_splits)
  moreover have "js_nullor (fld u ''name'') (JStr (tool_type t)) = js_nullor (fld t ''name'') (JStr (tool_type t))"
    by (simp add: assms(3) f(2) js_nullor_def)
  moreover have "normalize_auth (fld u ''auth'') = normalize_auth (fld t ''auth'')"
    by (simp add: assms(3) f(5) normalize_auth_def split: jv.split)
  ultimately show ?thesis
    using assms(2) by (simp add: normalize_tool_def ty inc run assms(3) f(3,4) js_or_def)
qed

lemma normalize_tool_stable: "normalize_tool num t = Inr e \<Longrightarrow> normalize_tool num e = Inr e"
  by (rule normalize_tool_again) (auto simp: normalize_tool_def split: if_splits)

lemma normalize_tools_stable:
  "normalize_tools_of num v = Inr (JArr us) \<Longrightarrow> normalize_tools_of num (JArr us) = Inr (JArr us)"
proof (cases v)
  case (JArr ts)
  moreover assume "normalize_tools_of num v = Inr (JArr us)"
  ultimately have "try_map (normalize_tool num) ts = Inr us"
    by (cases "try_map (normalize_tool num) ts") (simp_all add: normalize_tools_of_def)
  then have "try_map (normalize_tool num) us = Inr us"
    by (rule try_map_idem) (rule normalize_tool_stable)
  then show ?thesis by (simp add: normalize_tools_of_def)
qed (simp_all add: normalize_tools_of_def)

lemma home_of_stable: "home_of (home_of hs) = home_of hs"
proof -
  have f: "filter P (take 4 (filter P (take 4 xs))) = filter P (take 4 xs)" for P and xs :: "jv list"
  proof -
    have "length (filter P (take 4 xs)) \<le> 4" using length_filter_le [of P "take 4 xs"] by simp
    then show ?thesis by simp
  qed
  show ?thesis
    by (simp add: home_of_def default_home_def js_nullor_def f split: jv.split)
qed

lemma home_of_default: "home_of default_home = default_home"
  by (simp add: home_of_def default_home_def js_nullor_def)

definition sections_ok :: "(rat \<Rightarrow> string) \<Rightarrow> sections \<Rightarrow> bool" where
  "sections_ok num o1 \<longleftrightarrow> is_obj (sc_llm o1) \<and> is_obj (sc_flags o1) \<and> home_of (sc_home o1) = sc_home o1
     \<and> (\<exists>us. sc_tools o1 = JArr us) \<and> normalize_tools_of num (sc_tools o1) = Inr (sc_tools o1)
     \<and> is_obj (sc_policies o1) \<and> repaired_policies (sc_policies o1) = sc_policies o1"

lemma draft_part_ok:
  assumes "sections_ok num o1"
  shows "draft_part num (JObj [(''version'', JStr ''draft''), (''config'', assemble_config o1)]) = Inr (o1, JStr ''draft'')"
    "shown_sections o1 = o1"
proof -
  have h: "is_obj (sc_home o1)" using assms by (metis sections_ok_def home_of_def is_obj.simps(1))
  have t: "truthy (sc_home o1)" using h by (cases "sc_home o1") simp_all
  have o: "overlay_sections (assemble_config o1) default_sections = o1"
    by (simp add: overlay_sections_def assemble_config_def Let_def)
  have "read_sections num default_sections (assemble_config o1) = Inr o1"
  proof -
    have "fld (assemble_config o1) ''homescreen'' = sc_home o1" by (simp add: assemble_config_def)
    then show ?thesis using assms t o by (simp add: read_sections_def sections_ok_def Let_def)
  qed
  moreover have "truthy (assemble_config o1)" by (simp add: assemble_config_def)
  ultimately show "draft_part num (JObj [(''version'', JStr ''draft''), (''config'', assemble_config o1)]) = Inr (o1, JStr ''draft'')"
    by (simp add: draft_part_def)
  have n: "is_obj v \<Longrightarrow> \<not> nullish v" for v by (cases v) simp_all
  obtain us where "sc_tools o1 = JArr us" using assms by (auto simp: sections_ok_def)
  then show "shown_sections o1 = o1"
    using assms n h by (simp add: shown_sections_def sections_ok_def js_nullor_def)
qed

lemma import_ok:
  assumes "import_sections num raw = Inr o1"
    and "nullish (fld (fld raw ''policies'') ''enablePolicies'') \<or> (\<exists>b. fld (fld raw ''policies'') ''enablePolicies'' = JBool b)"
  shows "sections_ok num o1"
proof -
  obtain ts where ts: "(case fld raw ''tools'' of JArr ts \<Rightarrow> normalize_tools_of num (JArr ts) | _ \<Rightarrow> Inr (JArr [])) = Inr ts"
    and tl: "sc_tools o1 = ts"
    using assms(1) by (cases "(case fld raw ''tools'' of JArr ts \<Rightarrow> normalize_tools_of num (JArr ts) | _ \<Rightarrow> Inr (JArr []))")
      (auto simp: import_sections_def Let_def get_prop_def split: if_splits)
  have o: "is_obj (sc_llm o1)" "is_obj (sc_flags o1)" "home_of (sc_home o1) = sc_home o1"
    using assms(1) ts
    by (auto simp: import_sections_def Let_def get_prop_def obj_with_def default_llm_def default_flags_def home_of_stable
        home_of_default split: if_splits)
  have "\<exists>us. ts = JArr us"
  proof (cases "fld raw ''tools''")
    case (JArr xs)
    then show ?thesis using ts by (cases "try_map (normalize_tool num) xs") (auto simp: normalize_tools_of_def)
  qed (use ts in auto)
  then obtain us where us: "ts = JArr us" by blast
  have st: "normalize_tools_of num ts = Inr ts"
  proof (cases "fld raw ''tools''")
    case (JArr xs)
    then show ?thesis using ts normalize_tools_stable [of num "JArr xs" us] us by simp
  qed (use ts in \<open>auto simp: normalize_tools_of_def\<close>)
  let ?p = "fld raw ''policies''"
  have po: "sc_policies o1 = (case ?p of
       JArr ps \<Rightarrow> JObj [(''enablePolicies'', JBool True), (''policies'', ?p)]
     | JObj fs \<Rightarrow>
         if ''policies'' \<in> fst ` set fs
         then JObj [(''enablePolicies'', js_nullor (fld ?p ''enablePolicies'') (JBool True)),
                    (''policies'', case fld ?p ''policies'' of JArr ps \<Rightarrow> JArr ps | _ \<Rightarrow> JArr [])]
         else no_policies
     | _ \<Rightarrow> no_policies)"
    using assms(1) ts by (auto simp: import_sections_def Let_def get_prop_def split: if_splits)
  obtain b where e: "js_nullor (fld ?p ''enablePolicies'') (JBool True) = JBool b"
    using assms(2) by (auto simp: js_nullor_def)
  obtain ps where "(case fld ?p ''policies'' of JArr ps \<Rightarrow> JArr ps | _ \<Rightarrow> JArr []) = JArr ps"
    by (cases "fld ?p ''policies''") simp_all
  then have "\<exists>b ps. sc_policies o1 = JObj [(''enablePolicies'', JBool b), (''policies'', JArr ps)]"
    unfolding po e no_policies_def by (cases ?p) auto
  then have "is_obj (sc_policies o1) \<and> repaired_policies (sc_policies o1) = sc_policies o1"
    by (auto simp: repaired_policies_def)
  then show ?thesis using o st tl us by (simp add: sections_ok_def)
qed

text \<open>
  A reply to the request for the list of tools that the page can use: a refusal, or an object
  whose tools, if it has any, are a list without missing entries.
\<close>

definition tools_reply_fits :: "http_reply \<Rightarrow> bool" where
  "tools_reply_fits r \<longleftrightarrow>
     \<not> hr_ok r \<or> (\<exists>d. hr_json r = Inr d \<and> \<not> nullish d
        \<and> (nullish (fld d ''tools'') \<or> (\<exists>ts. fld d ''tools'' = JArr ts \<and> list_all (\<lambda>t. \<not> nullish t) ts)))"

lemma tools_list_put:
  assumes "tools_reply_fits r"
  shows "\<exists>apps ts. put_tools_list r s = (None, s\<lparr>mg_apps := apps, mg_tools_list := ts\<rparr>)"
proof (cases "hr_ok r")
  case False
  then show ?thesis by (auto simp: put_tools_list_def)
next
  case True
  have m: "list_all (\<lambda>t. \<not> nullish t) ts \<Longrightarrow> \<exists>us. try_map (\<lambda>t. try_bind (get_prop t ''id'') (\<lambda>_. Inr (connected_tool t))) ts = Inr us" for ts
    by (induction ts) (auto simp: get_prop_def)
  obtain d where d: "hr_json r = Inr d" "\<not> nullish d"
    "nullish (fld d ''tools'') \<or> (\<exists>ts. fld d ''tools'' = JArr ts \<and> list_all (\<lambda>t. \<not> nullish t) ts)"
    using assms True by (auto simp: tools_reply_fits_def)
  have "\<exists>us. listed_tools d = Inr us"
    using d(3) m by (fastforce simp: listed_tools_def js_nullor_def)
  then obtain us where us: "listed_tools d = Inr us" by blast
  show ?thesis
    using True d(1,2) us by (auto simp: put_tools_list_def get_prop_def Let_def)
qed

text \<open>
  C24. An imported configuration whose switch of the policies is a truth value or missing is
  sent to the draft.  When the server gives back the draft it was sent, and the list of tools
  or a refusal of it, the page that loads it shows the sections the import showed, as a draft
  and without an error, and does not save the tools again.
\<close>

theorem imported_draft_loads_back:
  assumes "import_sections num raw = Inr o1"
    and "nullish (fld (fld raw ''policies'') ''enablePolicies'') \<or> (\<exists>b. fld (fld raw ''policies'') ''enablePolicies'' = JBool b)"
    and "hr_ok draft" "hr_json draft = Inr (JObj [(''version'', JStr ''draft''), (''config'', cfg)])" "tools_reply_fits tools_list"
    and "mg_calls (handle_import num (Inr raw) answer s) = mg_calls s @ [PostDraft cfg]"
  shows "mg_sec (handle_import num (Inr raw) answer s) = o1
    \<and> mg_sec (load_latest num (Inr (draft, tools_list)) published u) = o1
    \<and> mg_version (load_latest num (Inr (draft, tools_list)) published u) = JStr ''draft''
    \<and> mg_load_error (load_latest num (Inr (draft, tools_list)) published u) = None
    \<and> mg_timer (load_latest num (Inr (draft, tools_list)) published u) = None"
proof -
  have calls: "mg_calls (draft_answered num r t) = mg_calls t" "mg_sec (draft_answered num r t) = mg_sec t" for r t
    by (simp_all add: draft_answered_def add_toast_def Let_def split: sum.split)
  have "mg_calls (handle_import num (Inr raw) answer s) = mg_calls s @ [PostDraft (assemble_config o1)]"
    and shown: "mg_sec (handle_import num (Inr raw) answer s) = o1"
    using assms(1) by (simp_all add: handle_import_def perform_draft_save_def calls set_sections_def)
  then have cfg: "cfg = assemble_config o1" using assms(6) by simp
  note d = draft_part_ok [OF import_ok [OF assms(1,2)]]
  obtain apps ts where tl: "put_tools_list tools_list u = (None, u\<lparr>mg_apps := apps, mg_tools_list := ts\<rparr>)"
    using tools_list_put [OF assms(5)] by blast
  show ?thesis
    using assms(3,4) d shown by (simp add: load_latest_def cfg Let_def tl)
qed

definition ok_reply :: "jv \<Rightarrow> http_reply" where
  "ok_reply v = \<lparr>hr_ok = True, hr_status = 200, hr_status_text = ''OK'', hr_json = Inr v\<rparr>"

definition no_reply :: http_reply where
  "no_reply = \<lparr>hr_ok = False, hr_status = 500, hr_status_text = [], hr_json = Inl ''no JSON''\<rparr>"

definition demo_sections :: sections where
  "demo_sections = \<lparr>sc_llm = default_llm, sc_tools = JArr [], sc_flags = default_flags, sc_home = default_home, sc_policies = no_policies\<rparr>"

definition demo_tools_list :: jv where
  "demo_tools_list = JObj [(''apps'', JArr []), (''tools'', JArr [JObj [(''name'', JStr ''crm_get'')]])]"

theorem imported_draft_loads_back_witness:
  "mg_sec (load_latest (\<lambda>_. []) (Inr (ok_reply (JObj [(''version'', JStr ''draft''), (''config'', assemble_config demo_sections)]),
       ok_reply demo_tools_list)) (Inl ''gone'') manage_init) = demo_sections"
proof -
  have i: "import_sections (\<lambda>_. []) (JObj []) = Inr demo_sections"
    by (simp add: import_sections_def demo_sections_def)
  have c: "mg_calls (handle_import (\<lambda>_. []) (Inr (JObj [])) (Inl ''gone'') manage_init)
      = mg_calls manage_init @ [PostDraft (assemble_config demo_sections)]"
    by (simp add: handle_import_def i perform_draft_save_def draft_answered_def add_toast_def set_sections_def)
  have t: "tools_reply_fits (ok_reply demo_tools_list)"
    by (simp add: tools_reply_fits_def ok_reply_def demo_tools_list_def)
  show ?thesis
    using imported_draft_loads_back [of "\<lambda>_. []" "JObj []" demo_sections
        "ok_reply (JObj [(''version'', JStr ''draft''), (''config'', assemble_config demo_sections)])"
        "assemble_config demo_sections" "ok_reply demo_tools_list" "Inl ''gone''" manage_init "Inl ''gone''" manage_init] i c t
    by (simp add: ok_reply_def)
qed

text \<open>What the server's draft is asked to be by a list of calls.\<close>

fun asked_draft :: "manage_call \<Rightarrow> jv \<Rightarrow> jv" where
  "asked_draft (PostDraft c) d = c"
| "asked_draft (PatchTools ts) d = obj_with d [(''tools'', ts)]"
| "asked_draft (PatchLlm l) d = obj_with d [(''llm'', l)]"
| "asked_draft (PostPublish c) d = d"

text \<open>
  Switching a flag or the welcome screen saves the draft as it was before: the call
  that follows carries the old value, so the draft and the screen disagree until the next
  save.
\<close>

theorem toggle_saves_old_value:
  assumes "mg_pending s = []" "\<not> nullish (sc_flags (mg_sec s))"
  shows "mg_calls (pending_save num r (toggle_flag k v s)) = mg_calls s @ [PostDraft (assemble_config (mg_sec s))]
    \<and> fld (sc_flags (mg_sec (pending_save num r (toggle_flag k v s)))) k = v
    \<and> fld (fld (fold asked_draft (mg_calls (pending_save num r (toggle_flag k v s))) d) ''feature_flags'') k
        = fld (sc_flags (mg_sec s)) k"
proof -
  have keeps: "mg_calls (draft_answered num r t) = mg_calls t" "mg_sec (draft_answered num r t) = mg_sec t" for t
    by (simp_all add: draft_answered_def add_toast_def Let_def split: sum.split)
  have c: "mg_calls (pending_save num r (toggle_flag k v s)) = mg_calls s @ [PostDraft (assemble_config (mg_sec s))]"
    using assms(1) by (simp add: pending_save_def toggle_flag_def perform_draft_save_def keeps)
  moreover have "fld (sc_flags (mg_sec (pending_save num r (toggle_flag k v s)))) k = v"
    using assms(1) by (simp add: pending_save_def toggle_flag_def perform_draft_save_def keeps obj_with_one)
  ultimately show ?thesis by (simp add: assemble_config_def)
qed

theorem toggle_saves_old_value_witness:
  "mg_calls (pending_save (\<lambda>_. []) (Inl ''gone'') (toggle_flag ''reflection'' (JBool True) manage_init))
     = [PostDraft (assemble_config demo_sections)]"
  using toggle_saves_old_value [of manage_init "\<lambda>_. []" "Inl ''gone''" "''reflection''" "JBool True" JUndef]
  by (simp add: manage_init_def demo_sections_def default_sections_def default_flags_def)

text \<open>
  Loading a version puts all its sections on the screen but sends only its tools to the
  draft, which keeps its other sections; the page then calls what it shows the draft.
\<close>

theorem loaded_version_splits_draft:
  assumes "hr_ok rep" "hr_json rep = Inr (JObj [(''config'', config)])" "put_version num config (JNum (of_nat n)) s = Inr s1"
    and "\<not> mg_skip s" "hr_ok answer" "hr_json answer = Inr (JObj [])"
  shows "mg_sec (load_version num n (Inr rep) s) = mg_sec s1
    \<and> mg_version (load_version num n (Inr rep) s) = JNum (of_nat n)
    \<and> mg_calls (tools_timer num (Inr answer) (load_version num n (Inr rep) s)) = mg_calls s @ [PatchTools (sc_tools (mg_sec s1))]
    \<and> mg_version (tools_timer num (Inr answer) (load_version num n (Inr rep) s)) = JStr ''draft''
    \<and> (\<forall>k d. k \<noteq> ''tools'' \<longrightarrow> fld (asked_draft (PatchTools (sc_tools (mg_sec s1))) (JObj d)) k = fld (JObj d) k)"
proof -
  obtain o1 where s1: "s1 = (set_sections o1 s)\<lparr>mg_version := JNum (of_nat n)\<rparr>"
    using assms(3) by (cases "normalize_tools_of num (sc_tools (overlay_sections config default_sections))") (auto simp: put_version_def Let_def)
  have l: "load_version num n (Inr rep) s = add_toast ''success'' ''Version Loaded'' (JStr (''Loaded version '' @ show_nat n)) s1"
    using assms(1-3) by (simp add: load_version_def Let_def)
  have "mg_timer s1 = Some (sc_tools (mg_sec s1))" using assms(4) by (simp add: s1 set_sections_def)
  then show ?thesis
    unfolding l using assms(5,6) by (simp add: tools_timer_def add_toast_def Let_def s1 set_sections_def)
qed

theorem loaded_version_splits_draft_witness:
  "mg_calls (tools_timer (\<lambda>_. []) (Inr (ok_reply (JObj [])))
     (load_version (\<lambda>_. []) 3 (Inr (ok_reply (JObj [(''config'', JObj [(''llm'', JObj [])])]))) (manage_init\<lparr>mg_skip := False\<rparr>)))
   = [PatchTools (JArr [])]"
proof -
  obtain s1 where s1: "put_version (\<lambda>_. []) (JObj [(''llm'', JObj [])]) (JNum (of_nat 3)) (manage_init\<lparr>mg_skip := False\<rparr>) = Inr s1"
    "sc_tools (mg_sec s1) = JArr []"
    by (simp add: put_version_def overlay_sections_def default_sections_def normalize_tools_of_def shown_sections_def set_sections_def Let_def)
  show ?thesis
    using loaded_version_splits_draft [of "ok_reply (JObj [(''config'', JObj [(''llm'', JObj [])])])" "JObj [(''llm'', JObj [])]"
        "\<lambda>_. []" 3 "manage_init\<lparr>mg_skip := False\<rparr>" s1 "ok_reply (JObj [])"] s1
    by (simp add: ok_reply_def manage_init_def)
qed

end
