(* ===== verification/Tool_Form.thy ===== *)
theory Tool_Form
  imports Manage
begin

text \<open>
  The form that adds or edits a tool, \<open>FW/frontend/src/AddToolModal.tsx\<close> with
  \<open>types/tools.ts\<close>: what it shows of a tool, its templates, its validation, the
  secrets it offers and creates, and the tool a submission makes.  The clock and the
  answers of the server are arguments; a reference in an answer is a text.
\<close>

datatype tool_kind = Mcp | Openapi

datatype auth_type = No_Auth | Header_Auth | Bearer_Auth | Api_Key_Auth | Basic_Auth | Query_Auth

datatype transport = Sse | Stdio | Http

record tool_auth =
  au_type :: auth_type
  au_key :: "string option"
  au_value :: "string option"

record tool_entry =
  te_name :: string
  te_type :: tool_kind
  te_url :: "string option"
  te_description :: "string option"
  te_auth :: "tool_auth option"
  te_include :: "string list option"
  te_command :: "string option"
  te_args :: "string list option"
  te_transport :: "transport option"

fun auth_name :: "auth_type \<Rightarrow> string" where
  "auth_name No_Auth = ''none''"
| "auth_name Header_Auth = ''header''"
| "auth_name Bearer_Auth = ''bearer''"
| "auth_name Api_Key_Auth = ''api-key''"
| "auth_name Basic_Auth = ''basic''"
| "auth_name Query_Auth = ''query''"

fun needs_key :: "auth_type \<Rightarrow> bool" where
  "needs_key Header_Auth = True"
| "needs_key Api_Key_Auth = True"
| "needs_key Query_Auth = True"
| "needs_key _ = False"

datatype mcp_mode = Url_Mode | Url_Http_Mode | Command_Mode

record tool_form =
  tf_name :: string
  tf_type :: tool_kind
  tf_mode :: mcp_mode
  tf_url :: string
  tf_command :: string
  tf_args :: string
  tf_description :: string
  tf_auth :: auth_type
  tf_key :: string
  tf_value :: string
  tf_use_saved :: bool
  tf_save_new :: bool
  tf_save_key :: string
  tf_secrets :: "(string \<times> jv) list"     \<comment> \<open>names and references of the saved secrets\<close>
  tf_inline :: bool
  tf_inline_value :: string
  tf_inline_key :: string
  tf_templates :: bool

section \<open>Opening the form\<close>

definition or_empty :: "string option \<Rightarrow> string" where
  "or_empty v = (case v of Some s \<Rightarrow> s | None \<Rightarrow> [])"

definition line_feed :: string where "line_feed = [CHR 0x0A]"

text \<open>An absent or missing tool has no transport, so one without an address counts as stdio.\<close>

definition shown_transport :: "tool_entry \<Rightarrow> transport" where
  "shown_transport t =
     (case te_transport t of Some x \<Rightarrow> x | None \<Rightarrow> if or_empty (te_url t) \<noteq> [] then Sse else Stdio)"

definition initial_mode :: "tool_entry option \<Rightarrow> mcp_mode" where
  "initial_mode initial =
     (case initial of
        None \<Rightarrow> Url_Mode
      | Some t \<Rightarrow> if trim (or_empty (te_command t)) \<noteq> [] then Command_Mode
                  else if shown_transport t = Http then Url_Http_Mode else Url_Mode)"

definition is_saved_ref :: "string \<Rightarrow> bool" where
  "is_saved_ref v \<longleftrightarrow> starts_with v ''db://'' \<or> starts_with v ''vault://'' \<or> starts_with v ''aws://''"

definition empty_auth :: tool_auth where
  "empty_auth = \<lparr>au_type = No_Auth, au_key = None, au_value = None\<rparr>"

definition init_from_tool :: "tool_entry option \<Rightarrow> tool_form" where
  "init_from_tool initial =
     (let auth = (case initial of Some t \<Rightarrow> (case te_auth t of Some a \<Rightarrow> a | None \<Rightarrow> empty_auth) | None \<Rightarrow> empty_auth);
          text_of = (\<lambda>f. case initial of Some t \<Rightarrow> or_empty (f t) | None \<Rightarrow> []);
          v = or_empty (au_value auth)
      in \<lparr>tf_name = (case initial of Some t \<Rightarrow> te_name t | None \<Rightarrow> []),
          tf_type = (case initial of Some t \<Rightarrow> te_type t | None \<Rightarrow> Mcp),
          tf_mode = initial_mode initial, tf_url = text_of te_url, tf_command = text_of te_command,
          tf_args = (case initial of Some t \<Rightarrow> join line_feed (case te_args t of Some as \<Rightarrow> as | None \<Rightarrow> []) | None \<Rightarrow> []),
          tf_description = text_of te_description, tf_auth = au_type auth, tf_key = or_empty (au_key auth), tf_value = v,
          tf_use_saved = is_saved_ref v, tf_save_new = False, tf_save_key = [], tf_secrets = [], tf_inline = False,
          tf_inline_value = [], tf_inline_key = [], tf_templates = (initial = None)\<rparr>)"

section \<open>Templates\<close>

record tool_template =
  tt_name :: string
  tt_args :: "string list"
  tt_description :: string

text \<open>All templates are MCP servers that \<open>npx\<close> runs, without authentication.\<close>

definition tool_templates :: "tool_template list" where
  "tool_templates =
     [\<lparr>tt_name = ''filesystem'', tt_args = [''-y'', ''@modelcontextprotocol/server-filesystem'', ''./cuga_workspace''],
       tt_description = ''Filesystem access for reading and writing files''\<rparr>,
      \<lparr>tt_name = ''drawio'', tt_args = [''-y'', ''@next-ai-drawio/mcp-server@latest''],
       tt_description = ''Drawio diagram creation and manipulation server''\<rparr>,
      \<lparr>tt_name = ''browser_mcp'', tt_args = [''-y'', ''@agent-infra/mcp-server-browser@latest''],
       tt_description = ''Browser automation and web interaction server''\<rparr>]"

text \<open>The check boxes of the secrets stay as they are.\<close>

definition apply_template :: "tool_template \<Rightarrow> tool_form \<Rightarrow> tool_form" where
  "apply_template tt f =
     f\<lparr>tf_name := tt_name tt, tf_type := Mcp, tf_mode := Command_Mode, tf_url := [], tf_command := ''npx'',
       tf_args := join line_feed (tt_args tt), tf_description := tt_description tt, tf_auth := No_Auth, tf_key := [],
       tf_value := [], tf_templates := False\<rparr>"

section \<open>Validation\<close>

definition lower_letter :: "char \<Rightarrow> bool" where
  "lower_letter c \<longleftrightarrow> 97 \<le> (of_char c :: nat) \<and> (of_char c :: nat) \<le> 122"

definition name_matches :: "string \<Rightarrow> bool" where
  "name_matches s \<longleftrightarrow>
     s \<noteq> [] \<and> lower_letter (hd s) \<and> (\<forall>c \<in> set (tl s). lower_letter c \<or> is_digit c \<or> c = CHR 0x5F)"

definition name_error :: "string \<Rightarrow> string" where
  "name_error name =
     (if trim name = [] then ''Name is required''
      else if \<not> name_matches (trim name) then ''Use lowercase letters, digits, and underscores only (e.g. my_tool)''
      else [])"

definition is_command_mcp :: "tool_form \<Rightarrow> bool" where
  "is_command_mcp f \<longleftrightarrow> tf_type f = Mcp \<and> tf_mode f = Command_Mode"

definition form_valid :: "tool_form \<Rightarrow> bool" where
  "form_valid f \<longleftrightarrow>
     name_error (tf_name f) = [] \<and> trim (tf_description f) \<noteq> []
     \<and> (if tf_type f = Openapi then trim (tf_url f) \<noteq> []
        else if is_command_mcp f then trim (tf_command f) \<noteq> [] else trim (tf_url f) \<noteq> [])"

section \<open>Secrets\<close>

definition typed_slug :: "string \<Rightarrow> string" where
  "typed_slug key = map slug_char (join_blanks (to_lower (trim key)))"

definition made_slug :: "string \<Rightarrow> tool_form \<Rightarrow> string" where
  "made_slug now f =
     map slug_char (to_lower ((if trim (tf_name f) \<noteq> [] then trim (tf_name f) else ''tool'')
       @ ''-'' @ auth_name (tf_auth f) @ ''-'' @ now))"

definition new_secret_slug :: "string \<Rightarrow> string \<Rightarrow> tool_form \<Rightarrow> string" where
  "new_secret_slug now key f = (if trim key \<noteq> [] then typed_slug key else made_slug now f)"

definition db_ref :: "string \<Rightarrow> string" where
  "db_ref slug = ''db://'' @ slug"

definition form_secret_ref :: "(rat \<Rightarrow> string) \<Rightarrow> jv \<Rightarrow> jv \<Rightarrow> jv" where
  "form_secret_ref num mode s =
     (let ident = js_to_string num (fld s ''id'')
      in if fld s ''source'' = JStr ''vault'' \<or> mode = JStr ''vault'' then JStr (''vault://secret/'' @ ident @ ''#value'')
         else if fld s ''source'' = JStr ''env'' then fld s ''id''
         else JStr (db_ref ident))"

text \<open>Loading the secrets: both answers count or neither; what throws is dropped.\<close>

definition secrets_mode :: "http_reply \<Rightarrow> exn + jv" where
  "secrets_mode r =
     (if hr_ok r then try_bind (hr_json r) (\<lambda>c. try_bind (get_prop c ''mode'') (\<lambda>m. Inr (js_or m (JStr ''local''))))
      else Inr (JStr ''local''))"

definition secret_entries :: "jv \<Rightarrow> exn + jv list" where
  "secret_entries data =
     try_bind (get_prop data ''secrets'') (\<lambda>s.
       case js_or s (js_or (fld data ''overrides'') (JArr [])) of
         JArr xs \<Rightarrow> Inr xs
       | _ \<Rightarrow> Inl ''raw.map is not a function'')"

definition form_secrets_loaded ::
  "(rat \<Rightarrow> string) \<Rightarrow> exn + http_reply \<times> http_reply \<Rightarrow> tool_form \<Rightarrow> tool_form" where
  "form_secrets_loaded num rs f =
     (case try_bind rs (\<lambda>(secrets, config). try_bind (secrets_mode config) (\<lambda>mode.
             if hr_ok secrets
             then try_bind (hr_json secrets) (\<lambda>d. try_bind (secret_entries d) (\<lambda>xs.
                    try_bind (try_map (\<lambda>s. try_bind (get_prop s ''id'') (\<lambda>i. Inr (js_to_string num i, form_secret_ref num mode s))) xs)
                      (\<lambda>l. Inr (Some l))))
             else Inr None)) of
        Inr (Some l) \<Rightarrow> f\<lparr>tf_secrets := l\<rparr>
      | _ \<Rightarrow> f)"

text \<open>The answer to a secret made inside the form, with the form as it was on the click.\<close>

definition inline_created :: "string \<Rightarrow> exn + http_reply \<Rightarrow> tool_form \<Rightarrow> tool_form \<Rightarrow> tool_form" where
  "inline_created now r seen f =
     (case r of
        Inr rep \<Rightarrow>
          if hr_ok rep
          then f\<lparr>tf_value := db_ref (new_secret_slug now (tf_inline_key seen) seen), tf_inline := False, tf_inline_key := []\<rparr>
          else f
      | Inl _ \<Rightarrow> f)"

section \<open>Submitting\<close>

datatype secret_call = Create_Secret string string string     \<comment> \<open>name, value, description\<close>

definition saves_secret :: "tool_form \<Rightarrow> bool" where
  "saves_secret f \<longleftrightarrow> tf_auth f \<noteq> No_Auth \<and> tf_save_new f \<and> trim (tf_value f) \<noteq> []"

definition submit_calls :: "string \<Rightarrow> tool_form \<Rightarrow> secret_call list" where
  "submit_calls now f =
     (if saves_secret f
      then [Create_Secret (new_secret_slug now (tf_save_key f) f) (trim (tf_value f))
              (''Auth for '' @ (if trim (tf_name f) \<noteq> [] then trim (tf_name f) else ''tool''))]
      else [])"

text \<open>The value that goes into the tool: what fails leaves the value that was typed.\<close>

definition submitted_value :: "string \<Rightarrow> exn + http_reply \<Rightarrow> tool_form \<Rightarrow> string" where
  "submitted_value now r f =
     (if saves_secret f
      then (case try_bind r (\<lambda>rep. if hr_ok rep then try_bind (hr_json rep) (\<lambda>d. try_bind (get_prop d ''ref'') (\<lambda>v. Inr (Some v)))
                                   else Inr None) of
              Inr (Some v) \<Rightarrow> (case v of JStr t \<Rightarrow> if t \<noteq> [] then t else db_ref (new_secret_slug now (tf_save_key f) f)
                                       | _ \<Rightarrow> db_ref (new_secret_slug now (tf_save_key f) f))
            | _ \<Rightarrow> trim (tf_value f))
      else trim (tf_value f))"

definition filled :: "string \<Rightarrow> string option" where
  "filled s = (if trim s \<noteq> [] then Some (trim s) else None)"

definition arg_lines :: "string \<Rightarrow> string list" where
  "arg_lines s = filter (\<lambda>a. a \<noteq> []) (map trim (split_str line_feed s))"

definition submitted_key :: "tool_form \<Rightarrow> string option" where
  "submitted_key f = (if needs_key (tf_auth f) then filled (tf_key f) else None)"

definition submitted_auth :: "string \<Rightarrow> exn + http_reply \<Rightarrow> tool_entry option \<Rightarrow> tool_form \<Rightarrow> tool_auth option" where
  "submitted_auth now r initial f =
     (if tf_auth f = No_Auth then None
      else if submitted_value now r f \<noteq> []
      then Some \<lparr>au_type = tf_auth f, au_key = submitted_key f, au_value = Some (submitted_value now r f)\<rparr>
      else (case initial of
              Some t \<Rightarrow>
                (case te_auth t of
                   Some a \<Rightarrow>
                     if au_type a \<noteq> No_Auth
                     then Some (a\<lparr>au_type := tf_auth f,
                                  au_key := (case submitted_key f of Some k \<Rightarrow> Some k | None \<Rightarrow> au_key a)\<rparr>)
                     else None
                 | None \<Rightarrow> None)
            | None \<Rightarrow> None))"

definition submitted_tool :: "string \<Rightarrow> exn + http_reply \<Rightarrow> tool_entry option \<Rightarrow> tool_form \<Rightarrow> tool_entry" where
  "submitted_tool now r initial f =
     \<lparr>te_name = trim (tf_name f), te_type = tf_type f,
      te_url = (if is_command_mcp f then None else filled (tf_url f)),
      te_description = filled (tf_description f),
      te_auth = submitted_auth now r initial f,
      te_include = None,
      te_command = (if is_command_mcp f then Some (trim (tf_command f)) else None),
      te_args = (if is_command_mcp f \<and> arg_lines (tf_args f) \<noteq> [] then Some (arg_lines (tf_args f)) else None),
      te_transport = (if is_command_mcp f then Some Stdio
                      else if tf_type f = Mcp \<and> trim (tf_url f) \<noteq> []
                      then Some (if tf_mode f = Url_Http_Mode then Http else Sse) else None)\<rparr>"

text \<open>The button is disabled on an invalid form.\<close>

definition handle_submit :: "string \<Rightarrow> exn + http_reply \<Rightarrow> tool_entry option \<Rightarrow> tool_form \<Rightarrow> secret_call list \<times> tool_entry option" where
  "handle_submit now r initial f =
     (if form_valid f then (submit_calls now f, Some (submitted_tool now r initial f)) else ([], None))"

section \<open>The inputs that are drawn\<close>

datatype form_input =
    Template_Tiles
  | Browse_Templates
  | Name_Input "string option"             \<comment> \<open>what is wrong with the name\<close>
  | Type_Select
  | Mode_Select
  | Command_Input
  | Args_Input
  | Url_Input string bool                  \<comment> \<open>the hint, and whether it is required\<close>
  | Description_Input
  | Auth_Select
  | Key_Input string
  | Use_Saved bool
  | Secret_Select "(string \<times> jv) list"
  | Inline_Button bool
  | Inline_Secret bool                     \<comment> \<open>whether its button is enabled\<close>
  | Value_Input
  | Save_New bool
  | Save_Key
  | Submit_Button string bool

definition template_inputs :: "tool_entry option \<Rightarrow> tool_form \<Rightarrow> form_input list" where
  "template_inputs initial f =
     (if initial = None then (if tf_templates f then [Template_Tiles] else [Browse_Templates]) else [])"

definition url_hint :: "tool_form \<Rightarrow> string" where
  "url_hint f =
     (if tf_type f = Mcp
      then (if tf_mode f = Url_Http_Mode then ''https://example.com/mcp'' else ''http://localhost:8112/sse'')
      else ''http://localhost:8007/openapi.json'')"

definition run_inputs :: "tool_form \<Rightarrow> form_input list" where
  "run_inputs f =
     (if tf_type f = Mcp then [Mode_Select] else [])
     @ (if is_command_mcp f then [Command_Input, Args_Input]
        else [Url_Input (url_hint f) (tf_type f = Openapi \<or> tf_mode f = Url_Mode \<or> tf_mode f = Url_Http_Mode)])"

definition secret_inputs :: "tool_form \<Rightarrow> form_input list" where
  "secret_inputs f =
     (if tf_use_saved f
      then [Secret_Select (tf_secrets f), Inline_Button (tf_inline f)]
           @ (if tf_inline f then [Inline_Secret (trim (tf_inline_value f) \<noteq> [])] else [])
      else [Value_Input, Save_New (tf_save_new f)] @ (if tf_save_new f then [Save_Key] else []))"

definition auth_inputs :: "tool_form \<Rightarrow> form_input list" where
  "auth_inputs f =
     [Auth_Select]
     @ (if needs_key (tf_auth f) then [Key_Input (if tf_auth f = Header_Auth then ''X-API-Key'' else ''api_key'')] else [])
     @ (if tf_auth f \<noteq> No_Auth then Use_Saved (tf_use_saved f) # secret_inputs f else [])"

definition form_inputs :: "tool_entry option \<Rightarrow> tool_form \<Rightarrow> form_input list" where
  "form_inputs initial f =
     template_inputs initial f
     @ [Name_Input (if trim (tf_name f) \<noteq> [] \<and> name_error (tf_name f) \<noteq> [] then Some (name_error (tf_name f)) else None), Type_Select]
     @ run_inputs f @ [Description_Input] @ auth_inputs f
     @ [Submit_Button (if initial = None then ''Add tool'' else ''Save'') (form_valid f)]"

section \<open>The tool as it is passed on\<close>

fun transport_name :: "transport \<Rightarrow> string" where
  "transport_name Sse = ''sse''"
| "transport_name Stdio = ''stdio''"
| "transport_name Http = ''http''"

definition kind_name :: "tool_kind \<Rightarrow> string" where
  "kind_name k = (case k of Mcp \<Rightarrow> ''mcp'' | Openapi \<Rightarrow> ''openapi'')"

definition opt_text :: "string \<Rightarrow> string option \<Rightarrow> (string \<times> jv) list" where
  "opt_text k v = (case v of Some s \<Rightarrow> [(k, JStr s)] | None \<Rightarrow> [])"

definition opt_list :: "string \<Rightarrow> string list option \<Rightarrow> (string \<times> jv) list" where
  "opt_list k v = (case v of Some xs \<Rightarrow> [(k, JArr (map JStr xs))] | None \<Rightarrow> [])"

definition auth_jv :: "tool_auth \<Rightarrow> jv" where
  "auth_jv a = JObj ((''type'', JStr (auth_name (au_type a))) # opt_text ''key'' (au_key a) @ opt_text ''value'' (au_value a))"

definition entry_jv :: "tool_entry \<Rightarrow> jv" where
  "entry_jv t =
     JObj ([(''name'', JStr (te_name t)), (''type'', JStr (kind_name (te_type t)))]
       @ opt_text ''url'' (te_url t) @ opt_text ''description'' (te_description t)
       @ (case te_auth t of Some a \<Rightarrow> [(''auth'', auth_jv a)] | None \<Rightarrow> [])
       @ opt_list ''include'' (te_include t)
       @ opt_text ''command'' (te_command t) @ opt_list ''args'' (te_args t)
       @ opt_text ''transport'' (map_option transport_name (te_transport t)))"


text \<open>The secret made inside the form; its button is disabled on an empty value.\<close>

definition inline_call :: "string \<Rightarrow> tool_form \<Rightarrow> secret_call list" where
  "inline_call now f =
     (if trim (tf_inline_value f) \<noteq> []
      then [Create_Secret (new_secret_slug now (tf_inline_key f) f) (trim (tf_inline_value f))
              (''Auth for '' @ (if trim (tf_name f) \<noteq> [] then trim (tf_name f) else ''tool''))]
      else [])"

section \<open>Well-typed tools\<close>

definition text_ok :: "string \<Rightarrow> bool" where
  "text_ok s \<longleftrightarrow> s \<noteq> [] \<and> trim s = s"

definition auth_wf :: "tool_auth \<Rightarrow> bool" where
  "auth_wf a \<longleftrightarrow> au_type a \<noteq> No_Auth \<and> (\<forall>k. au_key a = Some k \<longrightarrow> text_ok k) \<and> au_value a \<noteq> Some []"

text \<open>How a tool is run: by a command, or at an address.\<close>

definition run_wf :: "tool_entry \<Rightarrow> bool" where
  "run_wf t \<longleftrightarrow>
     (case te_type t of
        Openapi \<Rightarrow> te_command t = None \<and> te_args t = None \<and> te_transport t = None \<and> (\<exists>u. te_url t = Some u \<and> text_ok u)
      | Mcp \<Rightarrow>
          (case te_command t of
             Some c \<Rightarrow> text_ok c \<and> te_url t = None \<and> te_transport t = Some Stdio
               \<and> (\<forall>as. te_args t = Some as \<longrightarrow> (\<forall>a \<in> set as. text_ok a \<and> CHR 0x0A \<notin> set a))
           | None \<Rightarrow> te_args t = None \<and> (\<exists>u. te_url t = Some u \<and> text_ok u)
               \<and> (te_transport t = Some Sse \<or> te_transport t = Some Http)))"

definition named_tool :: "tool_entry \<Rightarrow> bool" where
  "named_tool t \<longleftrightarrow> name_matches (te_name t) \<and> (\<exists>d. te_description t = Some d \<and> text_ok d)"

text \<open>The tool as the page stores it: a command always has a list of arguments.\<close>

definition stored_tool :: "tool_entry \<Rightarrow> tool_entry" where
  "stored_tool t =
     (if te_command t = None then t
      else t\<lparr>te_args := Some (case te_args t of Some as \<Rightarrow> as | None \<Rightarrow> [])\<rparr>)"

text \<open>The authentication of the old tool, when no value is typed: only its type and key change.\<close>

definition kept_auth :: "tool_entry option \<Rightarrow> tool_form \<Rightarrow> tool_auth option" where
  "kept_auth initial f =
     (case map_option te_auth initial of
        Some (Some a) \<Rightarrow>
          if au_type a = No_Auth then None
          else Some (a\<lparr>au_type := tf_auth f, au_key := (case submitted_key f of Some k \<Rightarrow> Some k | None \<Rightarrow> au_key a)\<rparr>)
      | _ \<Rightarrow> None)"

text \<open>What saving it unchanged makes of an authentication.\<close>

definition resaved_auth :: "tool_auth \<Rightarrow> tool_auth option" where
  "resaved_auth a =
     (let key = (if needs_key (au_type a) then filled (or_empty (au_key a)) else None)
      in if au_type a = No_Auth then None
         else if trim (or_empty (au_value a)) \<noteq> []
         then Some (a\<lparr>au_key := key, au_value := Some (trim (or_empty (au_value a)))\<rparr>)
         else Some (a\<lparr>au_key := (if key = None then au_key a else key)\<rparr>))"

lemma text_ok_trim [simp]: "text_ok (trim s) \<longleftrightarrow> trim s \<noteq> []"
  by (simp add: text_ok_def trim_idem)

lemma trim_Nil [simp]: "trim [] = []"
  by (simp add: trim_def trim_start_def)

lemma trim_text_ok: "text_ok s \<Longrightarrow> trim s = s"
  by (simp add: text_ok_def)

lemma filled_text_ok: "text_ok s \<Longrightarrow> filled s = Some s"
  by (simp add: text_ok_def filled_def)

lemma filled_Nil [simp]: "filled [] = None"
  by (simp add: filled_def)

lemma filled_Some: "filled s = Some k \<Longrightarrow> text_ok k"
  by (auto simp: filled_def split: if_splits)

lemma trim_no_ws:
  assumes "\<forall>c \<in> set s. \<not> is_ws c"
  shows "trim s = s"
proof -
  have d: "dropWhile is_ws t = t" if "\<forall>c \<in> set t. \<not> is_ws c" for t using that by (cases t) auto
  show ?thesis using assms by (simp add: trim_def trim_start_def d)
qed

lemma name_matches_trim:
  assumes "name_matches s"
  shows "trim s = s" "s \<noteq> []"
proof -
  have "\<not> is_ws c" if "c \<in> set s" for c
  proof -
    have "lower_letter c \<or> is_digit c \<or> c = CHR 0x5F"
      using assms that by (cases s) (auto simp: name_matches_def)
    then show ?thesis by (elim disjE) (auto simp: lower_letter_def is_ws_def is_digit_def)
  qed
  then show "trim s = s" by (simp add: trim_no_ws)
  show "s \<noteq> []" using assms by (simp add: name_matches_def)
qed

lemma set_trim: "set (trim s) \<subseteq> set s"
  unfolding trim_def trim_start_def by (auto dest!: set_dropWhileD)

lemma arg_lines_ok: "a \<in> set (arg_lines s) \<Longrightarrow> text_ok a \<and> CHR 0x0A \<notin> set a"
proof -
  assume "a \<in> set (arg_lines s)"
  then obtain b where b: "b \<in> set (split_str line_feed s)" "a = trim b" "a \<noteq> []" by (auto simp: arg_lines_def)
  have "CHR 0x0A \<notin> set x" if "x \<in> set (split_str [CHR 0x0A] s)" for x
    using that
  proof (induction "[CHR 0x0A]" s rule: split_str.induct)
    case (1 s)
    have none: "cut_first [CHR 0x0A] t = None \<Longrightarrow> CHR 0x0A \<notin> set t" for t
      by (induction t) (auto split: if_splits)
    have some: "cut_first [CHR 0x0A] t = Some (u, v) \<Longrightarrow> CHR 0x0A \<notin> set u" for t u v
      by (induction t arbitrary: u) (auto split: if_splits)
    show ?case
    proof (cases "cut_first [CHR 0x0A] s")
      case None
      then show ?thesis using none 1 by simp
    next
      case (Some p)
      obtain u v where p: "p = (u, v)" by (cases p)
      then have "x = u \<or> x \<in> set (split_str [CHR 0x0A] v)" using 1(2) Some by simp
      then show ?thesis using 1(1) Some p some by auto
    qed
  qed
  then have "CHR 0x0A \<notin> set b" using b(1) by (simp add: line_feed_def)
  then show ?thesis using b(2,3) set_trim [of b] by auto
qed

lemma arg_lines_Nil [simp]: "arg_lines [] = []"
  by (simp add: arg_lines_def line_feed_def)

lemma arg_lines_join:
  assumes "\<forall>a \<in> set as. text_ok a \<and> CHR 0x0A \<notin> set a"
  shows "arg_lines (join line_feed as) = as"
proof (cases "as = []")
  case False
  have "split_str line_feed (join line_feed as) = as"
    unfolding line_feed_def using assms False by (intro split_join) auto
  moreover have "map trim as = as" using assms by (intro map_idI) (simp add: text_ok_def)
  moreover have "filter (\<lambda>a. a \<noteq> []) as = as" using assms by (intro filter_True) (auto simp: text_ok_def)
  ultimately show ?thesis by (simp add: arg_lines_def)
qed simp

lemma submitted_key_ok: "submitted_key f = Some k \<Longrightarrow> text_ok k"
  by (auto simp: submitted_key_def filled_Some split: if_splits)

lemma submitted_value_typed: "(submitted_value now r f = []) = (trim (tf_value f) = [])"
  by (auto simp: submitted_value_def saves_secret_def db_ref_def split: sum.split jv.split option.split)

lemma submitted_auth_cases:
  "submitted_auth now r initial f =
     (if tf_auth f = No_Auth then None
      else if trim (tf_value f) = [] then kept_auth initial f
      else Some \<lparr>au_type = tf_auth f, au_key = submitted_key f, au_value = Some (submitted_value now r f)\<rparr>)"
  by (simp add: submitted_auth_def submitted_value_typed kept_auth_def split: option.split)

lemma submitted_run_wf:
  assumes "form_valid f"
  shows "run_wf (submitted_tool now r initial f)"
proof (cases "tf_type f")
  case Openapi
  then show ?thesis using assms by (simp add: run_wf_def submitted_tool_def is_command_mcp_def form_valid_def filled_def)
next
  case Mcp
  then show ?thesis
    using assms arg_lines_ok by (auto simp: run_wf_def submitted_tool_def is_command_mcp_def form_valid_def filled_def)
qed

text \<open>A well-typed tool is left as it is by the normalisation of the page that saves it.\<close>

lemma fld_opt [simp]:
  "map_of (opt_text j v) k = (if k = j then map_option JStr v else None)"
  "map_of (opt_list j w) k = (if k = j then map_option (\<lambda>xs. JArr (map JStr xs)) w else None)"
  by (simp_all add: opt_text_def opt_list_def split: option.split)

lemma fld_entry:
  "fld (entry_jv t) ''name'' = JStr (te_name t)"
  "fld (entry_jv t) ''type'' = JStr (kind_name (te_type t))"
  "fld (entry_jv t) ''url'' = (case te_url t of Some u \<Rightarrow> JStr u | None \<Rightarrow> JUndef)"
  "fld (entry_jv t) ''description'' = (case te_description t of Some u \<Rightarrow> JStr u | None \<Rightarrow> JUndef)"
  "fld (entry_jv t) ''auth'' = (case te_auth t of Some a \<Rightarrow> auth_jv a | None \<Rightarrow> JUndef)"
  "fld (entry_jv t) ''include'' = (case te_include t of Some xs \<Rightarrow> JArr (map JStr xs) | None \<Rightarrow> JUndef)"
  "fld (entry_jv t) ''command'' = (case te_command t of Some u \<Rightarrow> JStr u | None \<Rightarrow> JUndef)"
  "fld (entry_jv t) ''args'' = (case te_args t of Some xs \<Rightarrow> JArr (map JStr xs) | None \<Rightarrow> JUndef)"
  "fld (entry_jv t) ''transport'' = (case te_transport t of Some x \<Rightarrow> JStr (transport_name x) | None \<Rightarrow> JUndef)"
  by (auto simp: entry_jv_def map_add_def split: option.split)


lemma normalize_entry:
  assumes "run_wf t" "te_include t \<noteq> Some []"
  shows "\<exists>fs. normalize_tool num (entry_jv t) = Inr (JObj fs)
     \<and> (\<forall>k \<in> {''name'', ''type'', ''url'', ''description'', ''auth'', ''include'', ''command'', ''args'', ''transport''}.
          fld (JObj fs) k = fld (entry_jv (stored_tool t)) k)"
proof -
  have ty: "tool_type (entry_jv t) = kind_name (te_type t)"
    by (cases "te_type t") (simp_all add: tool_type_def fld_entry kind_name_def)
  have au: "normalize_auth (fld (entry_jv t) ''auth'') = fld (entry_jv t) ''auth''"
    by (simp add: fld_entry normalize_auth_def auth_jv_def split: option.split)
  have ur: "js_or (fld (entry_jv t) ''url'') JUndef = fld (entry_jv t) ''url''"
    using assms by (auto simp: fld_entry js_or_def run_wf_def text_ok_def split: option.split tool_kind.splits option.splits)
  have inc: "map_of (tool_include (entry_jv t)) k = (if k = ''include'' then map_option (\<lambda>xs. JArr (map JStr xs)) (te_include t) else None)" for k
    using assms by (cases "te_include t"; cases "the (te_include t)") (auto simp: tool_include_def fld_entry)
  have cmd: "tool_command num (entry_jv t) = (case te_command t of Some c \<Rightarrow> trim c | None \<Rightarrow> [])"
    by (simp add: tool_command_def fld_entry split: option.split)
  have run: "map_of (tool_run num (entry_jv t)) k =
      (if k = ''command'' then map_option JStr (te_command t)
       else if k = ''args'' \<and> te_command t \<noteq> None then Some (JArr (map JStr (case te_args t of Some as \<Rightarrow> as | None \<Rightarrow> [])))
       else if k = ''transport'' then map_option (\<lambda>x. JStr (transport_name x)) (te_transport t) else None)" for k
  proof (cases "te_type t")
    case Openapi
    then show ?thesis
      using assms by (auto simp: tool_run_def cmd ty kind_name_def run_wf_def)
  next
    case Mcp
    show ?thesis
    proof (cases "te_command t")
      case None
      then obtain u where u: "te_url t = Some u" "u \<noteq> []" "te_transport t = Some Sse \<or> te_transport t = Some Http"
        using assms Mcp by (auto simp: run_wf_def text_ok_def)
      then show ?thesis
        using Mcp None by (auto simp: tool_run_def cmd ty kind_name_def fld_entry tool_transport_def js_or_def)
    next
      case (Some c)
      then have "c \<noteq> []" "trim c = c" "te_transport t = Some Stdio"
        using assms Mcp by (auto simp: run_wf_def text_ok_def)
      then show ?thesis
        using Some by (auto simp: tool_run_def cmd fld_entry tool_transport_def js_or_def split: option.split)
    qed
  qed
  have st: "fld (entry_jv (stored_tool t)) k =
      (if k = ''args'' \<and> te_command t \<noteq> None then JArr (map JStr (case te_args t of Some as \<Rightarrow> as | None \<Rightarrow> []))
       else fld (entry_jv t) k)" if "k \<in> {''name'', ''type'', ''url'', ''description'', ''auth'', ''include'', ''command'', ''args'', ''transport''}" for k
    using that by (auto simp: stored_tool_def fld_entry)
  have noargs: "te_command t = None \<Longrightarrow> te_args t = None"
    using assms(1) by (auto simp: run_wf_def split: tool_kind.splits)
  show ?thesis
    unfolding normalize_tool_def ty au ur
    by (simp add: st entry_jv_def [of t, THEN arg_cong [where f = nullish], simplified] map_add_def inc run fld_entry js_nullor_def
        noargs split: option.split)
qed

lemma stored_run_wf: "run_wf t \<Longrightarrow> run_wf (stored_tool t)"
  by (cases "te_type t"; cases "te_args t") (auto simp: run_wf_def stored_tool_def split: option.splits)

section \<open>Properties\<close>

text \<open>
  C4. Whatever tool the form was opened on and whatever is typed into it, a tool that is
  submitted has a proper name and a description, no selection of operations, and exactly one
  way to run: at an address, or by a command with trimmed, non-empty arguments.  Its
  authentication is the one that was chosen, with the value that was typed or the reference
  that replaced it; if no value is typed it is the one of the old tool under the type that was
  chosen, with the old value and, unless another is typed, the old key, however odd they are.
  The page that saves the tool reads it back field by field; only a command without
  arguments gets an empty list of them.
\<close>

theorem submitted_tool_well_typed:
  assumes "handle_submit now r initial f = (calls, Some t)"
  shows "named_tool t \<and> te_include t = None \<and> run_wf t \<and> te_args t \<noteq> Some []
     \<and> te_auth t =
         (if tf_auth f = No_Auth then None
          else if trim (tf_value f) = [] then kept_auth initial f
          else Some \<lparr>au_type = tf_auth f, au_key = submitted_key f, au_value = Some (submitted_value now r f)\<rparr>)
     \<and> (\<forall>a. te_auth t = Some a \<longrightarrow> au_type a = tf_auth f \<and> (trim (tf_value f) \<noteq> [] \<longrightarrow> auth_wf a))
     \<and> run_wf (stored_tool t)
     \<and> (\<exists>fs. normalize_tool num (entry_jv t) = Inr (JObj fs)
          \<and> (\<forall>k \<in> {''name'', ''type'', ''url'', ''description'', ''auth'', ''include'', ''command'', ''args'', ''transport''}.
               fld (JObj fs) k = fld (entry_jv (stored_tool t)) k))"
proof -
  have v: "form_valid f" and t: "t = submitted_tool now r initial f"
    using assms by (auto simp: handle_submit_def split: if_splits)
  have n: "named_tool t" "te_include t = None" "te_args t \<noteq> Some []"
    using v by (auto simp: t named_tool_def submitted_tool_def form_valid_def name_error_def filled_def split: if_splits)
  have a: "te_auth t = submitted_auth now r initial f" by (simp add: t submitted_tool_def)
  have w: "run_wf t" unfolding t by (rule submitted_run_wf [OF v])
  have "au_type b = tf_auth f \<and> (trim (tf_value f) \<noteq> [] \<longrightarrow> auth_wf b)" if "te_auth t = Some b" for b
    using that submitted_key_ok [of f]
    by (auto simp: a submitted_auth_cases kept_auth_def auth_wf_def submitted_value_typed split: if_splits option.splits)
  moreover have "\<exists>fs. normalize_tool num (entry_jv t) = Inr (JObj fs)
      \<and> (\<forall>k \<in> {''name'', ''type'', ''url'', ''description'', ''auth'', ''include'', ''command'', ''args'', ''transport''}.
           fld (JObj fs) k = fld (entry_jv (stored_tool t)) k)"
    using n(2) by (intro normalize_entry [OF w]) simp
  ultimately show ?thesis using n w stored_run_wf [OF w] a by (simp add: submitted_auth_cases)
qed

theorem submitted_tool_well_typed_witness:
  "\<exists>t. handle_submit ''0'' (Inl ''offline'') None (apply_template (hd tool_templates) (init_from_tool None)) = ([], Some t)
     \<and> named_tool t \<and> run_wf t"
proof -
  let ?f = "apply_template (hd tool_templates) (init_from_tool None)"
  have "form_valid ?f"
    by (simp add: form_valid_def apply_template_def tool_templates_def name_error_def trim_def trim_start_def is_ws_def
        name_matches_def lower_letter_def is_command_mcp_def)
  then have "handle_submit ''0'' (Inl ''offline'') None ?f = ([], Some (submitted_tool ''0'' (Inl ''offline'') None ?f))"
    by (simp add: handle_submit_def submit_calls_def saves_secret_def apply_template_def)
  then show ?thesis using submitted_tool_well_typed [where initial = None] by blast
qed




text \<open>
  A value that is to be saved as a secret is in the submitted tool as a reference when the
  server saved it, and as the text that was typed when it did not, without a word; in
  either case it was sent to the server once.
\<close>

theorem unsaved_secret_in_clear:
  assumes "handle_submit now r initial f = (calls, Some t)" "tf_auth f \<noteq> No_Auth" "tf_save_new f" "trim (tf_value f) \<noteq> []"
  shows "calls = [Create_Secret (new_secret_slug now (tf_save_key f) f) (trim (tf_value f)) (''Auth for '' @ te_name t)]
     \<and> (\<exists>a v. te_auth t = Some a \<and> au_type a = tf_auth f \<and> au_value a = Some v
          \<and> ((\<forall>rep. r = Inr rep \<longrightarrow> \<not> hr_ok rep) \<longrightarrow> v = trim (tf_value f))
          \<and> (\<forall>rep fs. r = Inr rep \<and> hr_ok rep \<and> hr_json rep = Inr (JObj fs) \<longrightarrow>
                v = (case map_of fs ''ref'' of Some (JStr (x # xs)) \<Rightarrow> x # xs
                                            | _ \<Rightarrow> db_ref (new_secret_slug now (tf_save_key f) f))))"
proof -
  have v: "form_valid f" and t: "t = submitted_tool now r initial f" and c: "calls = submit_calls now f"
    using assms(1) by (auto simp: handle_submit_def split: if_splits)
  have s: "saves_secret f" using assms by (simp add: saves_secret_def)
  have n: "te_name t = trim (tf_name f)" "trim (tf_name f) \<noteq> []"
    using v by (auto simp: t submitted_tool_def form_valid_def name_error_def split: if_splits)
  have failed: "submitted_value now r f = trim (tf_value f)" if "\<forall>rep. r = Inr rep \<longrightarrow> \<not> hr_ok rep"
    using that by (cases r) (auto simp: submitted_value_def)
  have saved: "submitted_value now r f = (case map_of fs ''ref'' of Some (JStr (x # xs)) \<Rightarrow> x # xs
      | _ \<Rightarrow> db_ref (new_secret_slug now (tf_save_key f) f))"
    if "r = Inr rep" "hr_ok rep" "hr_json rep = Inr (JObj fs)" for rep fs
    using that s by (auto simp: submitted_value_def split: jv.split option.split list.split)
  have "submitted_value now r f \<noteq> []"
    using assms(4) s
    by (auto simp: submitted_value_def db_ref_def split: sum.split jv.split option.split)
  then have "te_auth t = Some \<lparr>au_type = tf_auth f, au_key = submitted_key f, au_value = Some (submitted_value now r f)\<rparr>"
    using assms(2) by (simp add: t submitted_tool_def submitted_auth_def)
  then show ?thesis using c s n failed saved by (auto simp: submit_calls_def)
qed


theorem unsaved_secret_in_clear_witness:
  "\<exists>t a. handle_submit ''0'' (Inl ''offline'') None
       ((init_from_tool None)\<lparr>tf_name := ''crm'', tf_type := Openapi, tf_url := ''u'', tf_description := ''d'',
          tf_auth := Bearer_Auth, tf_value := ''key'', tf_save_new := True\<rparr>) =
       ([Create_Secret ''crm-bearer-0'' ''key'' ''Auth for crm''], Some t)
     \<and> te_auth t = Some a \<and> au_value a = Some ''key''"
proof -
  let ?f = "(init_from_tool None)\<lparr>tf_name := ''crm'', tf_type := Openapi, tf_url := ''u'', tf_description := ''d'',
          tf_auth := Bearer_Auth, tf_value := ''key'', tf_save_new := True\<rparr>"
  have tr: "trim ''crm'' = ''crm''" "trim ''u'' = ''u''" "trim ''d'' = ''d''" "trim ''key'' = ''key''"
    by (simp_all add: trim_def trim_start_def is_ws_def)
  have "form_valid ?f" by (simp add: form_valid_def name_error_def tr name_matches_def lower_letter_def)
  then obtain calls t where h: "handle_submit ''0'' (Inl ''offline'') None ?f = (calls, Some t)"
    by (simp add: handle_submit_def)
  then have n: "te_name t = ''crm''" by (auto simp: handle_submit_def submitted_tool_def tr split: if_splits)
  have "new_secret_slug ''0'' (tf_save_key ?f) ?f = ''crm-bearer-0''"
    by (simp add: new_secret_slug_def made_slug_def tr init_from_tool_def Let_def slug_char_def is_digit_def lower_char_def)
  moreover have "tf_auth ?f \<noteq> No_Auth" "tf_save_new ?f" "trim (tf_value ?f) \<noteq> []" by (simp_all add: tr)
  ultimately show ?thesis using unsaved_secret_in_clear [OF h] h n by (auto simp: tr)
qed

end
