(* ===== verification/Tools_Config.thy ===== *)
theory Tools_Config
  imports Tool_Form
begin

text \<open>
  The list of tools of an agent, \<open>FW/frontend/src/ToolsConfig.tsx\<close>: adding, editing
  and removing, and the dialog that selects the operations of a connected server.  The
  list itself belongs to the page around it: an operation gives the list the page is told.
  A selection is a JavaScript set, a list in the order of insertion.
\<close>

record connected_op =
  co_name :: string
  co_id :: "string option"
  co_app :: string

record tools_dialog =
  td_modal :: bool
  td_secrets :: bool
  td_editing :: "nat option"
  td_server :: "nat option"
  td_app :: "string option"
  td_all :: bool

definition tools_dialog_init :: tools_dialog where
  "tools_dialog_init = \<lparr>td_modal = False, td_secrets = False, td_editing = None, td_server = None, td_app = None, td_all = False\<rparr>"

section \<open>The list\<close>

definition handle_add :: "tool_entry \<Rightarrow> tool_entry list \<Rightarrow> tools_dialog \<Rightarrow> tool_entry list \<times> tools_dialog" where
  "handle_add t ts d = (ts @ [t], d\<lparr>td_modal := False\<rparr>)"

text \<open>Writing past the end of the array would leave a hole; the form is only open on an entry.\<close>

definition handle_edit :: "tool_entry \<Rightarrow> tool_entry list \<Rightarrow> tools_dialog \<Rightarrow> tool_entry list \<times> tools_dialog" where
  "handle_edit t ts d =
     (case td_editing d of
        None \<Rightarrow> (ts, d)
      | Some i \<Rightarrow> (ts[i := t], d\<lparr>td_editing := None\<rparr>))"

definition handle_remove :: "nat \<Rightarrow> tool_entry list \<Rightarrow> tool_entry list" where
  "handle_remove i ts = map snd (filter (\<lambda>(j, t). j \<noteq> i) (zip [0..<length ts] ts))"

text \<open>An empty selection counts as none, and none takes the field away.\<close>

definition with_include :: "string list option \<Rightarrow> tool_entry \<Rightarrow> tool_entry" where
  "with_include sel t = t\<lparr>te_include := (case sel of Some (x # xs) \<Rightarrow> Some (x # xs) | _ \<Rightarrow> None)\<rparr>"

definition update_server_include :: "nat \<Rightarrow> string list option \<Rightarrow> tool_entry list \<Rightarrow> tool_entry list" where
  "update_server_include i sel ts = map (\<lambda>(j, t). if j = i then with_include sel t else t) (zip [0..<length ts] ts)"

text \<open>A server that is connected but not in the list yet goes after the listed ones connected before it.\<close>

definition new_server :: "string \<Rightarrow> string list option \<Rightarrow> tool_entry" where
  "new_server app sel =
     with_include sel \<lparr>te_name = app, te_type = Mcp, te_url = Some [], te_description = Some [], te_auth = None,
       te_include = None, te_command = None, te_args = None, te_transport = None\<rparr>"

definition insert_at :: "string list \<Rightarrow> string \<Rightarrow> tool_entry list \<Rightarrow> nat" where
  "insert_at apps app ts = length (filter (\<lambda>a. \<exists>t \<in> set ts. te_name t = a) (takeWhile (\<lambda>a. a \<noteq> app) apps))"

definition save_by_app_name :: "string list \<Rightarrow> string \<Rightarrow> string list option \<Rightarrow> tool_entry list \<Rightarrow> tool_entry list" where
  "save_by_app_name apps app sel ts =
     (case find_index (\<lambda>t. te_name t = app) ts of
        Some i \<Rightarrow> update_server_include i sel ts
      | None \<Rightarrow>
          if app \<in> set apps
          then take (insert_at apps app ts) ts @ new_server app sel # drop (insert_at apps app ts) ts
          else ts @ [new_server app sel])"

section \<open>What the list shows\<close>

definition display_tools :: "tools_dialog \<Rightarrow> tool_entry list \<Rightarrow> tool_entry list" where
  "display_tools d ts = (if td_all d then ts else take 3 ts)"

definition tool_label :: "tool_entry \<Rightarrow> string" where
  "tool_label t = (if te_name t \<noteq> [] then te_name t else if te_type t = Mcp then ''MCP'' else ''OpenAPI'')"

definition tool_source :: "tool_entry \<Rightarrow> string option" where
  "tool_source t =
     (if or_empty (te_url t) \<noteq> [] then te_url t
      else if or_empty (te_command t) \<noteq> []
      then Some (or_empty (te_command t) @
        (case te_args t of Some (a # as) \<Rightarrow> '' '' @ join '' '' (a # as) | _ \<Rightarrow> []))
      else None)"

text \<open>A tile of the list, and a row of the dialog.\<close>

record tool_tile =
  tl_label :: string
  tl_kind :: string
  tl_connected :: bool
  tl_selected :: "nat option"
  tl_source :: "string option"

definition render_tile :: "connected_op list \<Rightarrow> tool_entry \<Rightarrow> tool_tile" where
  "render_tile ops t =
     \<lparr>tl_label = tool_label t, tl_kind = (if te_type t = Mcp then ''MCP'' else ''OpenAPI''),
      tl_connected = list_ex (\<lambda>c. co_app c = te_name t) ops,
      tl_selected = (case te_include t of Some (x # xs) \<Rightarrow> Some (length (x # xs)) | _ \<Rightarrow> None),
      tl_source = map_option (\<lambda>s. if length s > 60 then take 60 s @ [CHR 0xE2, CHR 0x80, CHR 0xA6] else s) (tool_source t)\<rparr>"

definition server_name :: "tools_dialog \<Rightarrow> tool_entry list \<Rightarrow> string option" where
  "server_name d ts =
     (case td_app d of
        Some a \<Rightarrow> Some a
      | None \<Rightarrow> (case td_server d of Some i \<Rightarrow> if i < length ts then Some (te_name (ts ! i)) else None | None \<Rightarrow> None))"

definition op_id :: "connected_op \<Rightarrow> string" where
  "op_id c = (case co_id c of Some i \<Rightarrow> i | None \<Rightarrow> co_name c)"

definition server_ops :: "connected_op list \<Rightarrow> string \<Rightarrow> string list" where
  "server_ops ops name = map op_id (filter (\<lambda>c. co_app c = name) ops)"

definition current_include :: "string \<Rightarrow> tool_entry list \<Rightarrow> string list option" where
  "current_include name ts = (case List.find (\<lambda>t. te_name t = name) ts of Some t \<Rightarrow> te_include t | None \<Rightarrow> None)"

section \<open>The dialog of a server\<close>

record selection =
  sl_selected :: "string list"
  sl_all :: bool

definition set_of :: "string list \<Rightarrow> string list" where
  "set_of xs = foldl (\<lambda>acc x. if x \<in> set acc then acc else acc @ [x]) [] xs"

definition default_checked :: "string list \<Rightarrow> string list option \<Rightarrow> bool" where
  "default_checked ids inc \<longleftrightarrow> (case inc of None \<Rightarrow> True | Some xs \<Rightarrow> xs = [] \<or> length xs = length ids)"

definition open_selection :: "string list \<Rightarrow> string list option \<Rightarrow> selection" where
  "open_selection ids inc =
     \<lparr>sl_selected = set_of (if default_checked ids inc then ids else (case inc of Some xs \<Rightarrow> xs | None \<Rightarrow> [])),
      sl_all = default_checked ids inc\<rparr>"

datatype selection_event = Toggle string | Select_All bool

fun select :: "string list \<Rightarrow> selection_event \<Rightarrow> selection \<Rightarrow> selection" where
  "select ids (Toggle i) s =
     \<lparr>sl_selected = (if i \<in> set (sl_selected s) then filter (\<lambda>x. x \<noteq> i) (sl_selected s) else sl_selected s @ [i]),
      sl_all = False\<rparr>"
| "select ids (Select_All b) s = \<lparr>sl_selected = (if b then set_of ids else []), sl_all = b\<rparr>"

definition op_checked :: "selection \<Rightarrow> string \<Rightarrow> bool" where
  "op_checked s i \<longleftrightarrow> sl_all s \<or> i \<in> set (sl_selected s)"

text \<open>The rows of the dialog and its box for all of them.\<close>

definition render_ops :: "string list \<Rightarrow> selection \<Rightarrow> (string \<times> bool) list" where
  "render_ops ids s = map (\<lambda>i. (i, op_checked s i)) ids"

definition all_checked :: "string list \<Rightarrow> selection \<Rightarrow> bool" where
  "all_checked ids s \<longleftrightarrow> sl_all s \<or> length (sl_selected s) = length ids"

definition saved_selection :: "string list \<Rightarrow> selection \<Rightarrow> string list option" where
  "saved_selection ids s =
     (if sl_all s \<or> length (sl_selected s) = length ids then None else Some (sl_selected s))"

text \<open>Saving goes to the entry of the index, or to the one of the name, and closes the dialog.\<close>

definition save_server_tools ::
  "string list \<Rightarrow> string list option \<Rightarrow> tool_entry list \<Rightarrow> tools_dialog \<Rightarrow> tool_entry list \<times> tools_dialog" where
  "save_server_tools apps sel ts d =
     (case (td_app d, td_server d) of
        (Some a, _) \<Rightarrow> if a \<noteq> [] then save_by_app_name apps a sel ts
                       else (case td_server d of Some i \<Rightarrow> update_server_include i sel ts | None \<Rightarrow> ts)
      | (None, Some i) \<Rightarrow> update_server_include i sel ts
      | (None, None) \<Rightarrow> ts,
      d\<lparr>td_server := None, td_app := None\<rparr>)"

section \<open>Properties\<close>

text \<open>Which operations are enabled, as the type of a tool documents it.\<close>

definition enabled_ops :: "tool_entry \<Rightarrow> string list \<Rightarrow> string list" where
  "enabled_ops t ids = (case te_include t of Some (x # xs) \<Rightarrow> filter (\<lambda>i. i \<in> set (x # xs)) ids | _ \<Rightarrow> ids)"

lemma set_of_append: "set_of (xs @ [x]) = (if x \<in> set (set_of xs) then set_of xs else set_of xs @ [x])"
  by (simp add: set_of_def)

lemma set_of_props: "distinct (set_of xs)" "set (set_of xs) = set xs"
proof -
  have "distinct (set_of xs) \<and> set (set_of xs) = set xs"
  proof (induction xs rule: rev_induct)
    case Nil
    show ?case by (simp add: set_of_def)
  next
    case (snoc x xs)
    then show ?case by (auto simp: set_of_append)
  qed
  then show "distinct (set_of xs)" "set (set_of xs) = set xs" by simp_all
qed

lemma selection_distinct:
  "distinct (sl_selected (fold (select ids) evs s))" if "distinct (sl_selected s)"
  using that
proof (induction evs arbitrary: s)
  case (Cons e evs)
  have "distinct (sl_selected (select ids e s))" using Cons.prems by (cases e) (simp_all add: set_of_props)
  then show ?case using Cons.IH by simp
qed simp

lemma selection_within:
  assumes "set (sl_selected s) \<subseteq> set ids" "\<forall>e \<in> set evs. \<forall>i. e = Toggle i \<longrightarrow> i \<in> set ids"
  shows "set (sl_selected (fold (select ids) evs s)) \<subseteq> set ids"
  using assms
proof (induction evs arbitrary: s)
  case (Cons e evs)
  have "set (sl_selected (select ids e s)) \<subseteq> set ids" using Cons.prems by (cases e) (auto simp: set_of_props)
  then show ?case using Cons by simp
qed simp

lemma selection_all:
  assumes "sl_all s \<longrightarrow> set ids \<subseteq> set (sl_selected s)"
  shows "sl_all (fold (select ids) evs s) \<longrightarrow> set ids \<subseteq> set (sl_selected (fold (select ids) evs s))"
  using assms
proof (induction evs arbitrary: s)
  case (Cons e evs)
  have "sl_all (select ids e s) \<longrightarrow> set ids \<subseteq> set (sl_selected (select ids e s))"
    by (cases e) (simp_all add: set_of_props)
  then show ?case using Cons.IH by simp
qed simp

lemma enabled_with_include:
  "enabled_ops (with_include sel t) ids = (case sel of Some (x # xs) \<Rightarrow> filter (\<lambda>i. i \<in> set (x # xs)) ids | _ \<Rightarrow> ids)"
  by (cases sel; cases "the sel") (simp_all add: enabled_ops_def with_include_def)

text \<open>
  C10. Saving the dialog of a server enables exactly the operations that are checked, when the
  selection it was opened with names operations of the server, but enables all of them
  when none is checked.  A stored selection with as many names as the server
  has operations counts as all of them, whatever the names are.
\<close>

theorem dialog_saves_what_it_shows:
  assumes "distinct ids" "\<And>xs. inc = Some xs \<Longrightarrow> set xs \<subseteq> set ids \<and> distinct xs"
    "\<forall>e \<in> set evs. \<forall>i. e = Toggle i \<longrightarrow> i \<in> set ids" "s = fold (select ids) evs (open_selection ids inc)"
  shows "enabled_ops (with_include (saved_selection ids s) t) ids =
      (if \<exists>i \<in> set ids. op_checked s i then filter (op_checked s) ids else ids)
    \<and> (length old = length ids \<longrightarrow>
         saved_selection ids (open_selection ids (Some old)) = None
         \<and> enabled_ops (with_include (saved_selection ids (open_selection ids (Some old))) t) ids = ids)"
proof (intro conjI impI)
  let ?s0 = "open_selection ids inc"
  have d: "distinct (sl_selected s)"
    unfolding assms(4) by (rule selection_distinct) (simp add: open_selection_def set_of_props)
  have w: "set (sl_selected s) \<subseteq> set ids"
    unfolding assms(4) using assms(2,3)
    by (intro selection_within) (auto simp: open_selection_def set_of_props split: option.splits)
  have a: "sl_all s \<longrightarrow> set ids \<subseteq> set (sl_selected s)"
    unfolding assms(4) by (rule selection_all) (simp add: open_selection_def set_of_props)
  have full: "set (sl_selected s) = set ids" if "sl_all s \<or> length (sl_selected s) = length ids"
  proof (cases "sl_all s")
    case True
    then show ?thesis using a w by auto
  next
    case False
    then have "card (set (sl_selected s)) = card (set ids)" using that d assms(1) by (simp add: distinct_card)
    then show ?thesis using w by (intro card_subset_eq) simp_all
  qed
  have checked: "op_checked s i \<longleftrightarrow> i \<in> set (sl_selected s)" if "i \<in> set ids" for i
    using that a by (auto simp: op_checked_def)
  show "enabled_ops (with_include (saved_selection ids s) t) ids =
      (if \<exists>i \<in> set ids. op_checked s i then filter (op_checked s) ids else ids)"
  proof (cases "sl_all s \<or> length (sl_selected s) = length ids")
    case True
    then have "filter (op_checked s) ids = ids" using full checked by (intro filter_True) auto
    then show ?thesis using True by (simp add: enabled_with_include saved_selection_def)
  next
    case False
    have "filter (op_checked s) ids = filter (\<lambda>i. i \<in> set (sl_selected s)) ids"
      using checked by (intro filter_cong) auto
    moreover have "(\<exists>i \<in> set ids. op_checked s i) \<longleftrightarrow> sl_selected s \<noteq> []"
      using checked w by (cases "sl_selected s") auto
    ultimately show ?thesis
      using False by (cases "sl_selected s") (simp_all add: enabled_with_include saved_selection_def)
  qed
next
  assume "length old = length ids"
  then show "saved_selection ids (open_selection ids (Some old)) = None"
    "enabled_ops (with_include (saved_selection ids (open_selection ids (Some old))) t) ids = ids"
    by (simp_all add: open_selection_def saved_selection_def default_checked_def enabled_with_include)
qed

theorem dialog_saves_what_it_shows_witness:
  "enabled_ops (with_include (saved_selection [''a'', ''b'']
     (fold (select [''a'', ''b'']) [Toggle ''a'', Toggle ''b''] (open_selection [''a'', ''b''] None))) (new_server ''fs'' None)) [''a'', ''b''] = [''a'', ''b'']"
proof -
  let ?s = "fold (select [''a'', ''b'']) [Toggle ''a'', Toggle ''b''] (open_selection [''a'', ''b''] None)"
  have "\<not> (\<exists>i \<in> set [''a'', ''b'']. op_checked ?s i)"
    by (simp add: op_checked_def open_selection_def default_checked_def set_of_def)
  then show ?thesis
    using dialog_saves_what_it_shows [where ids = "[''a'', ''b'']" and inc = None
        and evs = "[Toggle ''a'', Toggle ''b'']" and s = ?s and t = "new_server ''fs'' None" and old = "[]"] by simp
qed

end
