(* ===== verification/Secrets.thy ===== *)
theory Secrets
  imports Tool_Form
begin

text \<open>
  The dialog of the saved secrets, \<open>FW/frontend/src/SecretsManager.tsx\<close>: loading,
  adding, changing and deleting, and the reference it copies for a secret, against the
  references the form of a tool and the page of the agent make for the same secret.
  An operation starts a request and its answer is an event of its own; loads overlap.
\<close>

section \<open>References\<close>

definition env_name :: "string \<Rightarrow> string" where
  "env_name s = map (\<lambda>c. if c = CHR ''-'' then CHR 0x5F else c) (map upper_char s)"

definition ref_for_secret :: "(rat \<Rightarrow> string) \<Rightarrow> jv \<Rightarrow> jv \<Rightarrow> jv" where
  "ref_for_secret num mode s =
     (let ident = js_to_string num (fld s ''id'')
      in if fld s ''source'' = JStr ''vault'' \<or> mode = JStr ''vault'' then JStr (''vault://secret/'' @ ident @ ''#value'')
         else if fld s ''source'' = JStr ''env'' then JStr (env_name ident)
         else JStr (db_ref ident))"

definition source_tag :: "jv \<Rightarrow> jv \<Rightarrow> string" where
  "source_tag source mode =
     (if source = JStr ''vault'' then ''vault'' else if source = JStr ''env'' then ''env''
      else if source = JStr ''db'' then ''db'' else if mode = JStr ''vault'' then ''vault'' else ''db'')"

section \<open>State\<close>

datatype secret_request =
    Load_Secrets
  | Create_Secret_Req string string "string option"
  | Delete_Secret_Req string
  | Update_Secret_Req string string

record secrets_state =
  sm_open :: bool
  sm_secrets :: "jv list"
  sm_config :: "jv option"
  sm_loading :: bool
  sm_add_id :: string
  sm_add_value :: string
  sm_add_description :: string
  sm_saving :: bool
  sm_error :: "jv option"
  sm_editing :: "string option"
  sm_edit_value :: string
  sm_sent :: "secret_request list"
  sm_wait :: "secret_request list"        \<comment> \<open>requests that are not answered yet\<close>

definition secrets_init :: secrets_state where
  "secrets_init = \<lparr>sm_open = False, sm_secrets = [], sm_config = None, sm_loading = False, sm_add_id = [], sm_add_value = [],
     sm_add_description = [], sm_saving = False, sm_error = None, sm_editing = None, sm_edit_value = [], sm_sent = [],
     sm_wait = []\<rparr>"

definition send_secret :: "secret_request \<Rightarrow> secrets_state \<Rightarrow> secrets_state" where
  "send_secret q s = s\<lparr>sm_sent := sm_sent s @ [q], sm_wait := sm_wait s @ [q]\<rparr>"

definition secrets_load :: "secrets_state \<Rightarrow> secrets_state" where
  "secrets_load s = (if sm_open s then send_secret Load_Secrets (s\<lparr>sm_loading := True, sm_error := None\<rparr>) else s)"

definition open_secrets :: "bool \<Rightarrow> secrets_state \<Rightarrow> secrets_state" where
  "open_secrets b s = (if sm_open s = b then s else secrets_load (s\<lparr>sm_open := b\<rparr>))"

text \<open>Each answer is set as soon as it is read: a bad configuration leaves the new list.\<close>

definition listed_secrets :: "jv \<Rightarrow> exn + jv list" where
  "listed_secrets data =
     try_bind (get_prop data ''secrets'') (\<lambda>v.
       case js_or v (js_or (fld data ''overrides'') (JArr [])) of
         JArr xs \<Rightarrow> Inr xs
       | _ \<Rightarrow> Inl ''allSecrets.filter is not a function'')"

definition secrets_loaded :: "exn + http_reply \<times> http_reply \<Rightarrow> secrets_state \<Rightarrow> secrets_state" where
  "secrets_loaded rs s =
     (let s1 = s\<lparr>sm_wait := remove1 Load_Secrets (sm_wait s), sm_loading := False\<rparr>
      in case rs of
           Inl m \<Rightarrow> s1\<lparr>sm_error := Some (JStr m)\<rparr>
         | Inr (secrets, config) \<Rightarrow>
             (case (if hr_ok secrets then try_bind (hr_json secrets) listed_secrets else Inr (sm_secrets s1)) of
                Inl m \<Rightarrow> s1\<lparr>sm_error := Some (JStr m)\<rparr>
              | Inr xs \<Rightarrow>
                  (let s2 = s1\<lparr>sm_secrets := xs\<rparr>
                   in if hr_ok config
                      then (case hr_json config of
                              Inl m \<Rightarrow> s2\<lparr>sm_error := Some (JStr m)\<rparr>
                            | Inr c \<Rightarrow> s2\<lparr>sm_config := Some c\<rparr>)
                      else s2)))"

definition secrets_mode_of :: "secrets_state \<Rightarrow> jv" where
  "secrets_mode_of s = js_nullor (case sm_config s of Some c \<Rightarrow> opt_prop c ''mode'' | None \<Rightarrow> JUndef) (JStr ''local'')"

definition env_secrets :: "secrets_state \<Rightarrow> jv list" where
  "env_secrets s = filter (\<lambda>x. fld x ''source'' = JStr ''env'') (sm_secrets s)"

definition stored_secrets :: "secrets_state \<Rightarrow> jv list" where
  "stored_secrets s = filter (\<lambda>x. fld x ''source'' \<noteq> JStr ''env'') (sm_secrets s)"

definition initial_tab :: "secrets_state \<Rightarrow> nat" where
  "initial_tab s = (if secrets_mode_of s = JStr ''vault'' \<or> stored_secrets s \<noteq> [] then 1 else 0)"

section \<open>Operations\<close>

definition added_id :: "string \<Rightarrow> string" where
  "added_id s = join_blanks (to_lower (trim s))"

definition secret_add :: "secrets_state \<Rightarrow> secrets_state" where
  "secret_add s =
     (if added_id (sm_add_id s) = [] \<or> trim (sm_add_value s) = [] \<or> sm_saving s then s
      else send_secret (Create_Secret_Req (added_id (sm_add_id s)) (trim (sm_add_value s)) (filled (sm_add_description s)))
             (s\<lparr>sm_saving := True, sm_error := None\<rparr>))"

definition failure_text :: "string \<Rightarrow> http_reply \<Rightarrow> jv" where
  "failure_text d r =
     (let data = (case hr_json r of Inr v \<Rightarrow> v | Inl _ \<Rightarrow> JObj [])
      in if nullish data then JStr (type_error data ''detail'')
         else js_or (fld data ''detail'') (js_or (fld data ''error'') (JStr d)))"

definition secret_added :: "secret_request \<Rightarrow> exn + http_reply \<Rightarrow> secrets_state \<Rightarrow> secrets_state" where
  "secret_added q r s =
     (let s1 = s\<lparr>sm_wait := remove1 q (sm_wait s), sm_saving := False\<rparr>
      in case r of
           Inl m \<Rightarrow> s1\<lparr>sm_error := Some (JStr m)\<rparr>
         | Inr rep \<Rightarrow>
             if hr_ok rep then secrets_load (s1\<lparr>sm_add_id := [], sm_add_value := [], sm_add_description := []\<rparr>)
             else s1\<lparr>sm_error := Some (failure_text ''Failed to create'' rep)\<rparr>)"

definition secret_delete :: "bool \<Rightarrow> string \<Rightarrow> secrets_state \<Rightarrow> secrets_state" where
  "secret_delete confirmed i s = (if confirmed then send_secret (Delete_Secret_Req i) (s\<lparr>sm_error := None\<rparr>) else s)"

definition secret_deleted :: "string \<Rightarrow> exn + http_reply \<Rightarrow> secrets_state \<Rightarrow> secrets_state" where
  "secret_deleted i r s =
     (let s1 = s\<lparr>sm_wait := remove1 (Delete_Secret_Req i) (sm_wait s)\<rparr>
      in case r of
           Inl m \<Rightarrow> s1\<lparr>sm_error := Some (JStr m)\<rparr>
         | Inr rep \<Rightarrow> if hr_ok rep then secrets_load s1 else s1\<lparr>sm_error := Some (failure_text ''Failed to delete'' rep)\<rparr>)"

definition edit_secret :: "string option \<Rightarrow> secrets_state \<Rightarrow> secrets_state" where
  "edit_secret i s = s\<lparr>sm_editing := i, sm_edit_value := []\<rparr>"

definition secret_save_edit :: "string \<Rightarrow> secrets_state \<Rightarrow> secrets_state" where
  "secret_save_edit i s =
     (if trim (sm_edit_value s) = [] \<or> sm_saving s then s
      else send_secret (Update_Secret_Req i (trim (sm_edit_value s))) (s\<lparr>sm_saving := True, sm_error := None\<rparr>))"

definition secret_edited :: "secret_request \<Rightarrow> exn + http_reply \<Rightarrow> secrets_state \<Rightarrow> secrets_state" where
  "secret_edited q r s =
     (let s1 = s\<lparr>sm_wait := remove1 q (sm_wait s), sm_saving := False\<rparr>
      in case r of
           Inl m \<Rightarrow> s1\<lparr>sm_error := Some (JStr m)\<rparr>
         | Inr rep \<Rightarrow>
             if hr_ok rep then secrets_load (s1\<lparr>sm_editing := None, sm_edit_value := []\<rparr>)
             else s1\<lparr>sm_error := Some (failure_text ''Failed to update'' rep)\<rparr>)"

text \<open>A row of the list: its tags, and the buttons an environment variable does not have.\<close>

datatype row_button = Edit_Row | Copy_Row | Delete_Row

record secret_row =
  sr_id :: jv
  sr_tags :: "jv list"
  sr_description :: "jv option"
  sr_buttons :: "row_button list"
  sr_edit :: "bool option"                 \<comment> \<open>the open edit, with its enabled save button\<close>

definition render_secret_row :: "secrets_state \<Rightarrow> jv \<Rightarrow> secret_row" where
  "render_secret_row s x =
     \<lparr>sr_id = fld x ''id'',
      sr_tags = JStr (source_tag (fld x ''source'') (secrets_mode_of s))
        # (if truthy (fld x ''agent_id'') \<and> fld x ''agent_id'' \<noteq> JStr ''*'' then [fld x ''agent_id''] else []),
      sr_description = (if truthy (fld x ''description'') then Some (fld x ''description'') else None),
      sr_buttons = (if fld x ''source'' \<noteq> JStr ''env'' then [Edit_Row, Copy_Row, Delete_Row] else [Copy_Row]),
      sr_edit = (if sm_editing s \<noteq> None \<and> map_option JStr (sm_editing s) = Some (fld x ''id'')
                 then Some (\<not> sm_saving s \<and> trim (sm_edit_value s) \<noteq> []) else None)\<rparr>"

text \<open>What the dialog shows: notices, or the two tabs with their counts and rows.\<close>

record secrets_view =
  sv_error :: "jv option"
  sv_force_env :: bool
  sv_loading :: bool
  sv_tab :: nat
  sv_env :: "secret_row list"
  sv_no_env :: string
  sv_stored_title :: string
  sv_stored :: "secret_row list"
  sv_add :: bool

definition render_secrets :: "secrets_state \<Rightarrow> secrets_view" where
  "render_secrets s =
     \<lparr>sv_error = sm_error s,
      sv_force_env = (case sm_config s of Some c \<Rightarrow> truthy (opt_prop c ''force_env'') | None \<Rightarrow> False),
      sv_loading = sm_loading s, sv_tab = initial_tab s,
      sv_env = map (render_secret_row s) (env_secrets s),
      sv_no_env = (if secrets_mode_of s = JStr ''vault'' then ''Environment variable list is not shown in vault mode.''
                   else ''No known LLM environment variables detected.''),
      sv_stored_title = (if secrets_mode_of s = JStr ''vault'' then ''Vault'' else ''Overrides''),
      sv_stored = map (render_secret_row s) (stored_secrets s),
      sv_add = (\<not> sm_saving s \<and> trim (sm_add_id s) \<noteq> [] \<and> trim (sm_add_value s) \<noteq> [])\<rparr>"

definition writes :: "secret_request \<Rightarrow> bool" where
  "writes q \<longleftrightarrow> (case q of Create_Secret_Req _ _ _ \<Rightarrow> True | Update_Secret_Req _ _ \<Rightarrow> True | _ \<Rightarrow> False)"

inductive secrets_step :: "secrets_state \<Rightarrow> secrets_state \<Rightarrow> bool" where
  opened: "secrets_step s (open_secrets b s)"
| loaded: "Load_Secrets \<in> set (sm_wait s) \<Longrightarrow> secrets_step s (secrets_loaded rs s)"
| typed: "secrets_step s (s\<lparr>sm_add_id := a, sm_add_value := v, sm_add_description := d, sm_edit_value := e\<rparr>)"
| add: "secrets_step s (secret_add s)"
| added: "q \<in> set (sm_wait s) \<Longrightarrow> q = Create_Secret_Req i v d \<Longrightarrow> secrets_step s (secret_added q r s)"
| delete: "secrets_step s (secret_delete b i s)"
| deleted: "Delete_Secret_Req i \<in> set (sm_wait s) \<Longrightarrow> secrets_step s (secret_deleted i r s)"
| edit: "secrets_step s (edit_secret i' s)"
| save: "secrets_step s (secret_save_edit i s)"
| saved: "q \<in> set (sm_wait s) \<Longrightarrow> q = Update_Secret_Req i v \<Longrightarrow> secrets_step s (secret_edited q r s)"
| dismissed: "secrets_step s (s\<lparr>sm_error := None\<rparr>)"

inductive secrets_reachable :: "secrets_state \<Rightarrow> bool" where
  start: "secrets_reachable secrets_init"
| step: "secrets_reachable s \<Longrightarrow> secrets_step s s' \<Longrightarrow> secrets_reachable s'"

section \<open>Properties\<close>

text \<open>A write is under way exactly while the dialog is saving, and never more than one.\<close>

definition writes_accounted :: "secrets_state \<Rightarrow> bool" where
  "writes_accounted s \<longleftrightarrow> length (filter writes (sm_wait s)) = (if sm_saving s then 1 else 0)
     \<and> (sm_loading s \<longrightarrow> Load_Secrets \<in> set (sm_wait s))"

lemma load_writes: "writes_accounted s \<Longrightarrow> writes_accounted (secrets_load s)"
  by (auto simp: writes_accounted_def secrets_load_def send_secret_def writes_def)

lemma fields_writes:
  "writes_accounted (s\<lparr>sm_open := b\<rparr>) = writes_accounted s"
  "writes_accounted (s\<lparr>sm_error := e\<rparr>) = writes_accounted s"
  "writes_accounted (s\<lparr>sm_editing := i, sm_edit_value := v\<rparr>) = writes_accounted s"
  "writes_accounted (s\<lparr>sm_add_id := a, sm_add_value := v, sm_add_description := d\<rparr>) = writes_accounted s"
  "writes_accounted (s\<lparr>sm_add_id := a, sm_add_value := v, sm_add_description := d, sm_edit_value := v'\<rparr>) = writes_accounted s"
  by (simp_all add: writes_accounted_def)

lemma filter_remove1: "filter P (remove1 x xs) = (if P x then remove1 x (filter P xs) else filter P xs)"
  by (induction xs) auto

lemma answered_write:
  assumes "writes_accounted s" "q \<in> set (sm_wait s)" "writes q"
  shows "writes_accounted (s\<lparr>sm_wait := remove1 q (sm_wait s), sm_saving := False\<rparr>)"
proof -
  have q: "q \<in> set (filter writes (sm_wait s))" using assms(2,3) by simp
  then have "length (filter writes (sm_wait s)) = 1"
    using assms(1) length_pos_if_in_set [OF q] by (simp add: writes_accounted_def split: if_splits)
  moreover have "Load_Secrets \<noteq> q" using assms(3) by (auto simp: writes_def)
  ultimately show ?thesis
    using q assms(1,3) by (auto simp: writes_accounted_def filter_remove1 length_remove1 in_set_remove1 simp del: set_filter)
qed

lemma secrets_step_writes:
  assumes "secrets_step s s'" "writes_accounted s"
  shows "writes_accounted s'"
  using assms
proof (cases rule: secrets_step.cases)
  case (loaded rs)
  have w: "writes_accounted (s\<lparr>sm_wait := remove1 Load_Secrets (sm_wait s), sm_loading := False\<rparr>)"
    using assms(2) by (simp add: writes_accounted_def filter_remove1 writes_def)
  then show ?thesis
    unfolding loaded secrets_loaded_def
    by (auto simp: Let_def writes_accounted_def split: sum.split prod.split)
next
  case (added q i v d r)
  note w = answered_write [OF assms(2) added(2)]
  show ?thesis
    unfolding added(1) secret_added_def
    using w added(3) by (auto simp: Let_def writes_def fields_writes intro!: load_writes split: sum.split)
next
  case (saved q i v r)
  note w = answered_write [OF assms(2) saved(2)]
  show ?thesis
    unfolding saved(1) secret_edited_def
    using w saved(3) by (auto simp: Let_def writes_def fields_writes intro!: load_writes split: sum.split)
next
  case (deleted i r)
  have w: "writes_accounted (s\<lparr>sm_wait := remove1 (Delete_Secret_Req i) (sm_wait s)\<rparr>)"
    using assms(2) by (auto simp: writes_accounted_def filter_remove1 writes_def)
  then show ?thesis
    unfolding deleted(1) secret_deleted_def by (auto simp: Let_def fields_writes intro!: load_writes split: sum.split)
next
  case (opened b)
  have "writes_accounted (s\<lparr>sm_open := b\<rparr>)" using assms(2) by (simp add: fields_writes)
  then show ?thesis using assms(2) by (simp add: opened open_secrets_def load_writes)
next
  case (typed a v d e)
  show ?thesis using assms(2) by (simp add: typed fields_writes)
qed (use assms(2) in \<open>auto simp: secret_add_def secret_delete_def edit_secret_def secret_save_edit_def
      send_secret_def writes_accounted_def writes_def\<close>)

lemma secrets_writes: "secrets_reachable s \<Longrightarrow> writes_accounted s"
proof (induction rule: secrets_reachable.induct)
  case start
  then show ?case by (simp add: writes_accounted_def secrets_init_def)
qed (rule secrets_step_writes)

text \<open>
  In every order of clicks and answers the dialog has at most one write under way, while
  its buttons say so, and a write that fails keeps what was typed and shows why.
\<close>

theorem secrets_one_write:
  assumes "secrets_reachable s"
  shows "length (filter writes (sm_wait s)) \<le> 1
     \<and> (sm_saving s \<longleftrightarrow> (\<exists>q \<in> set (sm_wait s). writes q))
     \<and> (sm_loading s \<longrightarrow> Load_Secrets \<in> set (sm_wait s))
     \<and> (\<forall>q r. (\<forall>rep. r = Inr rep \<longrightarrow> \<not> hr_ok rep) \<longrightarrow>
          sm_add_id (secret_added q r s) = sm_add_id s \<and> sm_add_value (secret_added q r s) = sm_add_value s
          \<and> sm_editing (secret_edited q r s) = sm_editing s \<and> sm_edit_value (secret_edited q r s) = sm_edit_value s
          \<and> sm_error (secret_added q r s) \<noteq> None \<and> sm_secrets (secret_added q r s) = sm_secrets s)"
proof -
  have w: "writes_accounted s" by (rule secrets_writes [OF assms])
  then have "sm_saving s \<longleftrightarrow> filter writes (sm_wait s) \<noteq> []" by (auto simp: writes_accounted_def split: if_splits)
  then show ?thesis
    using w by (auto simp: writes_accounted_def filter_empty_conv secret_added_def secret_edited_def Let_def split: sum.split)
qed

theorem secrets_one_write_witness:
  "length (filter writes (sm_wait (open_secrets True secrets_init))) \<le> 1"
proof -
  have "secrets_reachable (open_secrets True secrets_init)"
    by (rule secrets_reachable.step [OF secrets_reachable.start secrets_step.opened])
  then show ?thesis using secrets_one_write by blast
qed

text \<open>
  The three references made for a saved secret are the same for secrets of the vault and
  of the data base, but not for others: of an environment variable the dialog copies
  its name in capitals and the form and the page its identifier, and for a secret of
  AWS only the page makes a reference to AWS.
\<close>

theorem secret_references:
  "(fld x ''source'' \<noteq> JStr ''env'' \<and> fld x ''source'' \<noteq> JStr ''aws'' \<longrightarrow>
      ref_for_secret num (JStr mode) x = form_secret_ref num (JStr mode) x
      \<and> form_secret_ref num (JStr mode) x = secret_ref num mode x)
   \<and> (mode \<noteq> ''vault'' \<and> fld x ''source'' = JStr ''env'' \<and> fld x ''id'' = JStr i \<longrightarrow>
      form_secret_ref num (JStr mode) x = JStr i \<and> secret_ref num mode x = JStr i
      \<and> ref_for_secret num (JStr mode) x = JStr (env_name i))
   \<and> (mode \<noteq> ''vault'' \<and> fld x ''source'' = JStr ''aws'' \<and> fld x ''id'' = JStr i \<longrightarrow>
      secret_ref num mode x = JStr (''aws://'' @ i) \<and> form_secret_ref num (JStr mode) x = JStr (''db://'' @ i)
      \<and> ref_for_secret num (JStr mode) x = JStr (''db://'' @ i))"
  by (auto simp: ref_for_secret_def form_secret_ref_def secret_ref_def db_ref_def Let_def)

theorem secret_references_witness:
  "ref_for_secret (\<lambda>_. []) (JStr ''local'') (JObj [(''id'', JStr ''my-key''), (''source'', JStr ''env'')]) = JStr ''MY_KEY''
   \<and> form_secret_ref (\<lambda>_. []) (JStr ''local'') (JObj [(''id'', JStr ''my-key''), (''source'', JStr ''env'')]) = JStr ''my-key''"
proof -
  have "env_name ''my-key'' = ''MY_KEY''" by code_simp
  then show ?thesis
    using secret_references [of "JObj [(''id'', JStr ''my-key''), (''source'', JStr ''env'')]" "\<lambda>_. []" "''local''" "''my-key''"]
    by simp
qed

end
