(* ===== verification/Threads.thy ===== *)
theory Threads
  imports Chat_Api
begin

text \<open>
  Which conversation the chat is in: the page \<open>FW/frontend/src/ChatLanding.tsx\<close> with its
  list of threads and its selection, and the chat \<open>carbon-chat/CarbonChat.tsx\<close> it
  contains, with the identifier the module keeps and the history it loads.  They share
  the machine: the page passes its selection down, the chat reports its thread when a
  message is done.  A message in progress remembers the selection its handler saw.
  The library of the chat clears its messages on a restart; identifiers that are made
  are arguments.
\<close>

record thread_info =
  ti_id :: string
  ti_first :: string
  ti_updated :: string

datatype shown_item = Sent_To string | History_Of string

datatype page_call = Get_Threads | Delete_Thread string | Stop_Thread string

record threads_state =
  th_ready :: bool                      \<comment> \<open>the chat has an instance\<close>
  th_current :: "string option"         \<comment> \<open>currentThreadId of the module\<close>
  th_skip :: bool                       \<comment> \<open>skipNextHistoryLoadRef\<close>
  th_selected :: "string option"
  th_active :: "string option"
  th_list :: "thread_info list"
  th_loading :: bool
  th_shown :: "shown_item list"         \<comment> \<open>what stands in the chat\<close>
  th_history :: "string list"           \<comment> \<open>histories being loaded\<close>
  th_sending :: "(string \<times> string option) list"   \<comment> \<open>thread of a message, and the selection its handler saw\<close>
  th_refresh :: nat                     \<comment> \<open>timers that refresh the list\<close>
  th_calls :: "page_call list"

definition threads_init :: threads_state where
  "threads_init = \<lparr>th_ready = False, th_current = None, th_skip = False, th_selected = None, th_active = None, th_list = [],
     th_loading = True, th_shown = [], th_history = [], th_sending = [], th_refresh = 0, th_calls = [Get_Threads]\<rparr>"

section \<open>The chat\<close>

text \<open>The effect that runs when the selection that is passed down has changed.\<close>

definition thread_effect :: "threads_state \<Rightarrow> threads_state" where
  "thread_effect s =
     (if \<not> th_ready s then s
      else case th_selected s of
             Some t \<Rightarrow>
               if th_skip s then s\<lparr>th_current := Some t, th_skip := False\<rparr>
               else s\<lparr>th_current := Some t, th_shown := [], th_history := th_history s @ [t]\<rparr>
           | None \<Rightarrow> s\<lparr>th_current := None, th_shown := []\<rparr>)"

definition set_selected :: "string option \<Rightarrow> threads_state \<Rightarrow> threads_state" where
  "set_selected t s = (if th_selected s = t then s else thread_effect (s\<lparr>th_selected := t\<rparr>))"

definition is_readonly :: "threads_state \<Rightarrow> bool" where
  "is_readonly s \<longleftrightarrow> th_selected s \<noteq> None \<and> th_selected s \<noteq> th_active s"

text \<open>A message is posted to the current thread, or to one that is made now.\<close>

definition get_or_create_thread :: "string \<Rightarrow> threads_state \<Rightarrow> string \<times> threads_state" where
  "get_or_create_thread fresh s =
     (case th_current s of
        Some t \<Rightarrow> if t \<noteq> [] then (t, s) else (fresh, s\<lparr>th_current := Some fresh\<rparr>)
      | None \<Rightarrow> (fresh, s\<lparr>th_current := Some fresh\<rparr>))"

definition send_in_thread :: "string \<Rightarrow> threads_state \<Rightarrow> threads_state" where
  "send_in_thread fresh s =
     (if is_readonly s then s
      else let (t, s1) = get_or_create_thread fresh s
           in s1\<lparr>th_shown := th_shown s1 @ [Sent_To t], th_sending := th_sending s1 @ [(t, th_selected s1)]\<rparr>)"

text \<open>The page is told the thread that is current when the message is done.\<close>

definition handle_thread_change :: "string option \<Rightarrow> string \<Rightarrow> threads_state \<Rightarrow> threads_state" where
  "handle_thread_change seen t s =
     (let s1 = s\<lparr>th_active := Some t\<rparr>
      in if Some t \<noteq> seen then set_selected (Some t) (s1\<lparr>th_refresh := Suc (th_refresh s1)\<rparr>) else s1)"

definition message_done :: "string \<times> string option \<Rightarrow> threads_state \<Rightarrow> threads_state" where
  "message_done m s =
     (let s1 = s\<lparr>th_sending := remove1 m (th_sending s)\<rparr>
      in case th_current s1 of
           Some t \<Rightarrow> if t \<noteq> [] then handle_thread_change (snd m) t (s1\<lparr>th_skip := True\<rparr>) else s1
         | None \<Rightarrow> s1)"

definition restart_chat :: "threads_state \<Rightarrow> threads_state" where
  "restart_chat s = s\<lparr>th_current := None, th_shown := []\<rparr>"

definition stop_chat :: "string \<Rightarrow> threads_state \<Rightarrow> threads_state" where
  "stop_chat fresh s = (let (t, s1) = get_or_create_thread fresh s in s1\<lparr>th_calls := th_calls s1 @ [Stop_Thread t]\<rparr>)"

text \<open>A history that has arrived is inserted into whatever the chat shows by then.\<close>

definition history_arrived :: "string \<Rightarrow> bool \<Rightarrow> threads_state \<Rightarrow> threads_state" where
  "history_arrived t found s =
     s\<lparr>th_history := remove1 t (th_history s), th_shown := (if found then th_shown s @ [History_Of t] else th_shown s)\<rparr>"

definition chat_ready :: "threads_state \<Rightarrow> threads_state" where
  "chat_ready s = s\<lparr>th_ready := True\<rparr>"

section \<open>The page\<close>

definition new_conversation :: "threads_state \<Rightarrow> threads_state" where
  "new_conversation s = set_selected None (s\<lparr>th_active := None\<rparr>)"

text \<open>Threads as they come from the server; a refresh that fails changes nothing.\<close>

definition threads_arrived :: "thread_info list option \<Rightarrow> threads_state \<Rightarrow> threads_state" where
  "threads_arrived r s = (case r of Some ts \<Rightarrow> s\<lparr>th_list := ts, th_loading := False\<rparr> | None \<Rightarrow> s\<lparr>th_loading := False\<rparr>)"

definition refresh_due :: "threads_state \<Rightarrow> threads_state" where
  "refresh_due s = s\<lparr>th_refresh := th_refresh s - 1, th_calls := th_calls s @ [Get_Threads]\<rparr>"

text \<open>Every thread is deleted; an answer that is no success still counts as one.\<close>

definition remove_all :: "bool \<Rightarrow> (exn + nat) list \<Rightarrow> threads_state \<Rightarrow> threads_state" where
  "remove_all confirmed answers s =
     (if \<not> confirmed then s
      else let s1 = s\<lparr>th_calls := th_calls s @ map (Delete_Thread \<circ> ti_id) (th_list s)\<rparr>
           in if list_all (\<lambda>a. \<exists>n. a = Inr n) answers
              then set_selected None (s1\<lparr>th_list := [], th_active := None\<rparr>) else s1)"

inductive threads_step :: "threads_state \<Rightarrow> threads_state \<Rightarrow> bool" where
  ready: "threads_step s (chat_ready s)"
| chosen: "t \<in> ti_id ` set (th_list s) \<Longrightarrow> threads_step s (set_selected (Some t) s)"
| fresh: "threads_step s (new_conversation s)"
| send: "new \<noteq> [] \<Longrightarrow> threads_step s (send_in_thread new s)"
| finished: "m \<in> set (th_sending s) \<Longrightarrow> threads_step s (message_done m s)"
| restart: "threads_step s (restart_chat s)"
| stop: "new \<noteq> [] \<Longrightarrow> threads_step s (stop_chat new s)"
| history: "t \<in> set (th_history s) \<Longrightarrow> threads_step s (history_arrived t b s)"
| listed: "threads_step s (threads_arrived r s)"
| refresh: "0 < th_refresh s \<Longrightarrow> threads_step s (refresh_due s)"
| removed: "length answers = length (th_list s) \<Longrightarrow> threads_step s (remove_all b answers s)"

inductive threads_reachable :: "threads_state \<Rightarrow> bool" where
  start: "threads_reachable threads_init"
| step: "threads_reachable s \<Longrightarrow> threads_step s s' \<Longrightarrow> threads_reachable s'"

section \<open>Properties\<close>

text \<open>Nothing is under way and the chat is in its own conversation.\<close>

definition at_rest :: "string \<Rightarrow> threads_state \<Rightarrow> bool" where
  "at_rest a s \<longleftrightarrow> th_ready s \<and> th_current s = Some a \<and> th_selected s = Some a \<and> th_active s = Some a
     \<and> a \<noteq> [] \<and> th_sending s = [] \<and> th_history s = [] \<and> \<not> th_skip s"

definition thread_of :: "shown_item \<Rightarrow> string" where
  "thread_of x = (case x of Sent_To t \<Rightarrow> t | History_Of t \<Rightarrow> t)"

lemma first_message:
  assumes "th_ready s" "th_current s = None" "th_selected s = None" "th_active s = None" "th_sending s = []" "th_shown s = []"
    "new \<noteq> []"
  shows "message_done (new, None) (send_in_thread new s) =
     s\<lparr>th_current := Some new, th_selected := Some new, th_active := Some new, th_skip := False, th_shown := [Sent_To new],
       th_refresh := Suc (th_refresh s)\<rparr>"
  using assms
  by (simp add: send_in_thread_def is_readonly_def get_or_create_thread_def message_done_def handle_thread_change_def
      set_selected_def thread_effect_def)

lemma later_message:
  assumes "at_rest a s"
  shows "message_done (a, Some a) (send_in_thread new s) = s\<lparr>th_shown := th_shown s @ [Sent_To a], th_skip := True\<rparr>"
  using assms
  by (simp add: at_rest_def send_in_thread_def is_readonly_def get_or_create_thread_def message_done_def
      handle_thread_change_def)

text \<open>
  C7. From a new conversation the first message leaves the page and the chat in the thread it
  was posted to, with the message in view.  At rest, choosing another thread clears the
  chat and loads that thread.  But after one more message it does not: the chat keeps the old
  messages under the identifier of the other thread, and nothing is loaded.  Two choices
  in a row leave both histories in the chat when the first arrives late.
\<close>

theorem chat_follows_selection:
  assumes "new \<noteq> []" "a \<noteq> b"
  shows "(th_ready s \<and> th_current s = None \<and> th_selected s = None \<and> th_active s = None \<and> th_sending s = []
        \<and> th_history s = [] \<and> th_shown s = [] \<longrightarrow>
          at_rest new (message_done (new, None) (send_in_thread new s))
          \<and> th_shown (message_done (new, None) (send_in_thread new s)) = [Sent_To new])
     \<and> (at_rest a s \<longrightarrow>
          (let c = set_selected (Some b) s
           in th_current c = Some b \<and> is_readonly c \<and> th_shown c = [] \<and> th_history c = [b]
              \<and> th_shown (history_arrived b True c) = [History_Of b])
          \<and> (let c = set_selected (Some b) (message_done (a, Some a) (send_in_thread new s))
             in th_current c = Some b \<and> is_readonly c \<and> th_shown c = th_shown s @ [Sent_To a] \<and> th_history c = [])
          \<and> (let c = set_selected (Some a) (set_selected (Some b) s)
             in th_shown (history_arrived b True (history_arrived a True c)) = [History_Of a, History_Of b]))"
proof -
  have rest: "\<not> th_skip s" if "at_rest a s" using that by (simp add: at_rest_def)
  have fresh: "at_rest new (message_done (new, None) (send_in_thread new s))
          \<and> th_shown (message_done (new, None) (send_in_thread new s)) = [Sent_To new]"
    if "th_ready s \<and> th_current s = None \<and> th_selected s = None \<and> th_active s = None \<and> th_sending s = []
        \<and> th_history s = [] \<and> th_shown s = []"
    using that assms(1) by (subst first_message; simp add: at_rest_def)+
  show ?thesis
    using fresh assms(2)
    by (auto simp: later_message set_selected_def thread_effect_def is_readonly_def history_arrived_def Let_def at_rest_def
        dest: rest)
qed


theorem chat_follows_selection_witness:
  "\<exists>s. at_rest ''a'' s \<and>
     (let c = set_selected (Some ''b'') (message_done (''a'', Some ''a'') (send_in_thread ''n'' s))
      in th_current c = Some ''b'' \<and> th_shown c = [History_Of ''a'', Sent_To ''a''])"
proof -
  let ?s = "threads_init\<lparr>th_ready := True, th_current := Some ''a'', th_selected := Some ''a'', th_active := Some ''a'',
      th_shown := [History_Of ''a'']\<rparr>"
  have "at_rest ''a'' ?s" by (simp add: at_rest_def threads_init_def)
  moreover have "th_shown ?s = [History_Of ''a'']" by simp
  ultimately show ?thesis
    using chat_follows_selection [of "''n''" "''a''" "''b''" ?s] unfolding Let_def by (intro exI [of _ ?s]) simp
qed

end
