(* ===== verification/Landing.thy ===== *)
theory Landing
  imports Manage
begin

text \<open>
  The rest of the page of the chat, \<open>FW/frontend/src/ChatLanding.tsx\<close>: the configuration
  it loads with the tools grouped by their application, panels, toasts, and files; and
  how long ago something was, there, in \<open>carbon-chat/CarbonChat.tsx\<close> and in
  \<open>agentic_chat/src/LeftSidebar.tsx\<close>.  Times are in milliseconds; the parser of dates
  and the printing of a date are arguments.
\<close>

section \<open>How long ago\<close>

definition whole :: "rat \<Rightarrow> rat \<Rightarrow> int" where
  "whole diff unit = \<lfloor>diff / unit\<rfloor>"

definition second :: rat where "second = 1000"
definition minute :: rat where "minute = 60000"
definition hour :: rat where "hour = 3600000"
definition day :: rat where "day = 86400000"

definition short_ago :: "(rat \<Rightarrow> string) \<Rightarrow> rat \<Rightarrow> rat \<Rightarrow> string" where
  "short_ago locale_date now d =
     (let diff = now - d
      in if whole diff second < 10 then ''Just now''
         else if whole diff second < 60 then show_int (whole diff second) @ ''s ago''
         else if whole diff minute < 60 then show_int (whole diff minute) @ ''m ago''
         else if whole diff hour < 24 then show_int (whole diff hour) @ ''h ago''
         else if whole diff day < 7 then show_int (whole diff day) @ ''d ago''
         else locale_date d)"

text \<open>A date that is no date compares with nothing.\<close>

definition format_timestamp :: "(string \<Rightarrow> rat option) \<Rightarrow> (rat \<Rightarrow> string) \<Rightarrow> rat \<Rightarrow> string \<Rightarrow> string" where
  "format_timestamp parse_date locale_date now stamp =
     (case parse_date (if suffix ''Z'' stamp then stamp else stamp @ ''Z'') of
        Some d \<Rightarrow> short_ago locale_date now d
      | None \<Rightarrow> ''Invalid Date'')"

definition plural :: "int \<Rightarrow> string \<Rightarrow> string" where
  "plural n u = show_int n @ '' '' @ u @ (if n \<noteq> 1 then ''s'' else []) @ '' ago''"

definition format_relative_time :: "rat \<Rightarrow> rat \<Rightarrow> string" where
  "format_relative_time now d =
     (let secs = whole (now - d) second; mins = \<lfloor>of_int secs / (60 :: rat)\<rfloor>; hours = \<lfloor>of_int mins / (60 :: rat)\<rfloor>
      in if secs < 60 then plural secs ''second'' else if mins < 60 then plural mins ''minute'' else plural hours ''hour'')"

definition format_date :: "(rat \<Rightarrow> string) \<Rightarrow> rat \<Rightarrow> rat \<Rightarrow> string" where
  "format_date locale_date now d =
     (let diff = now - d
      in if whole diff minute < 1 then ''1 minute ago''
         else if whole diff minute < 60 then plural (whole diff minute) ''minute''
         else if whole diff hour < 24 then plural (whole diff hour) ''hour''
         else if whole diff day = 1 then ''now''
         else if whole diff day < 7 then plural (whole diff day) ''day''
         else locale_date d)"

definition truncate_text :: "nat \<Rightarrow> string \<Rightarrow> string" where
  "truncate_text n s = (if length s \<le> n then s else take n s @ ''...'')"

section \<open>State\<close>

record app_tool =
  at_name :: jv
  at_description :: jv

record landing =
  la_width :: nat
  la_left :: bool
  la_right :: bool
  la_name :: jv
  la_version :: jv
  la_apps :: "(jv \<times> app_tool list) list"
  la_home :: "jv option"
  la_config_loading :: bool
  la_toasts :: "(nat \<times> toast) list"
  la_next_toast :: nat                    \<comment> \<open>identifiers of toasts\<close>
  la_expanded :: "jv list"
  la_tree :: jv
  la_tree_loading :: bool
  la_modal :: "(string \<times> jv \<times> string) option"     \<comment> \<open>path, content, name\<close>

definition sample_tool :: "string \<Rightarrow> string \<Rightarrow> app_tool" where
  "sample_tool n d = \<lparr>at_name = JStr n, at_description = JStr d\<rparr>"

definition sample_apps :: "(jv \<times> app_tool list) list" where
  "sample_apps =
     [(JStr ''File System'',
       [sample_tool ''read_file'' ''Read contents of a file'', sample_tool ''write_file'' ''Write or update a file'',
        sample_tool ''list_directory'' ''List files in a directory'', sample_tool ''delete_file'' ''Delete a file permanently'']),
      (JStr ''Web Search'',
       [sample_tool ''web_search'' ''Search the web for information'', sample_tool ''fetch_url'' ''Fetch and parse a web page'']),
      (JStr ''Code Execution'',
       [sample_tool ''run_python'' ''Execute a Python snippet'', sample_tool ''run_bash'' ''Execute a Bash command''])]"

definition landing_init :: "nat \<Rightarrow> landing" where
  "landing_init w = \<lparr>la_width = w, la_left = True, la_right = True, la_name = JStr ''CUGA Default Agent'', la_version = JUndef,
     la_apps = sample_apps, la_home = None, la_config_loading = True, la_toasts = [], la_next_toast = 0, la_expanded = [],
     la_tree = JArr [], la_tree_loading = True, la_modal = None\<rparr>"

section \<open>Panels and toasts\<close>

definition hide_right :: nat where "hide_right = 1100"
definition hide_left :: nat where "hide_left = 768"

definition can_show_left :: "landing \<Rightarrow> bool" where "can_show_left s \<longleftrightarrow> hide_left \<le> la_width s"
definition can_show_right :: "landing \<Rightarrow> bool" where "can_show_right s \<longleftrightarrow> hide_right \<le> la_width s"

definition on_resize :: "nat \<Rightarrow> landing \<Rightarrow> landing" where
  "on_resize w s =
     s\<lparr>la_width := w,
       la_left := (if w < hide_left then False else if hide_left \<le> w \<and> hide_right \<le> w then True else la_left s),
       la_right := (if w < hide_right then False else if hide_left \<le> w \<and> hide_right \<le> w then True else la_right s)\<rparr>"

definition toggle_left :: "landing \<Rightarrow> landing" where
  "toggle_left s = (if can_show_left s then s\<lparr>la_left := \<not> la_left s\<rparr> else s)"

definition toggle_right :: "landing \<Rightarrow> landing" where
  "toggle_right s = (if can_show_right s then s\<lparr>la_right := \<not> la_right s\<rparr> else s)"

text \<open>The buttons that open a panel again are drawn only where it can be shown.\<close>

definition reopen_left :: "landing \<Rightarrow> landing" where
  "reopen_left s = (if can_show_left s then s\<lparr>la_left := True\<rparr> else s)"

definition reopen_right :: "landing \<Rightarrow> landing" where
  "reopen_right s = (if can_show_right s then s\<lparr>la_right := True\<rparr> else s)"

definition page_toast :: "string \<Rightarrow> string \<Rightarrow> jv \<Rightarrow> landing \<Rightarrow> landing" where
  "page_toast kind title text1 s =
     s\<lparr>la_toasts := la_toasts s @ [(la_next_toast s, Toast kind title text1)], la_next_toast := Suc (la_next_toast s)\<rparr>"

definition remove_toast :: "nat \<Rightarrow> landing \<Rightarrow> landing" where
  "remove_toast i s = s\<lparr>la_toasts := filter (\<lambda>t. fst t \<noteq> i) (la_toasts s)\<rparr>"

definition toggle_app :: "jv \<Rightarrow> landing \<Rightarrow> landing" where
  "toggle_app a s =
     s\<lparr>la_expanded := (if a \<in> set (la_expanded s) then filter (\<lambda>x. x \<noteq> a) (la_expanded s) else la_expanded s @ [a])\<rparr>"

definition visible_tools :: "landing \<Rightarrow> jv \<times> app_tool list \<Rightarrow> app_tool list" where
  "visible_tools s app = (if fst app \<in> set (la_expanded s) then snd app else take 5 (snd app))"

definition total_tools :: "landing \<Rightarrow> nat" where
  "total_tools s = sum_list (map (length \<circ> snd) (la_apps s))"

section \<open>Loading\<close>

definition app_of :: "jv \<Rightarrow> jv" where
  "app_of t = js_or (fld t ''app'') (JStr ''Unknown App'')"

definition tool_of :: "jv \<Rightarrow> app_tool" where
  "tool_of t = \<lparr>at_name = fld t ''name'', at_description = js_or (fld t ''description'') (JStr ''No description available'')\<rparr>"

text \<open>A JavaScript map keeps the order in which its keys came.\<close>

definition add_tool :: "jv \<Rightarrow> (jv \<times> app_tool list) list \<Rightarrow> (jv \<times> app_tool list) list" where
  "add_tool t m = al_set (app_of t) ((case map_of m (app_of t) of Some ts \<Rightarrow> ts | None \<Rightarrow> []) @ [tool_of t]) m"

definition group_tools :: "jv list \<Rightarrow> (jv \<times> app_tool list) list" where
  "group_tools ts = fold add_tool ts []"

definition loaded_apps :: "jv \<Rightarrow> exn + (jv \<times> app_tool list) list" where
  "loaded_apps data =
     try_bind (get_prop data ''tools'') (\<lambda>v.
       case js_or v (JArr []) of
         JArr ts \<Rightarrow>
           if ts = [] then Inr sample_apps
           else (case List.find nullish ts of Some t \<Rightarrow> Inl (type_error t ''app'') | None \<Rightarrow> Inr (group_tools ts))
       | JStr s \<Rightarrow> Inl ''tools.forEach is not a function''
       | _ \<Rightarrow> Inr sample_apps)"

definition loaded_home :: "jv \<Rightarrow> exn + jv option" where
  "loaded_home data =
     try_bind (get_prop data ''config'') (\<lambda>c.
       let hs = opt_prop c ''homescreen''
       in Inr (case hs of
                 JObj _ \<Rightarrow> Some (JObj [(''isOn'', js_nullor (fld hs ''isOn'') (JBool True)), (''greeting'', fld hs ''greeting''),
                    (''starters'', case fld hs ''starters'' of JArr xs \<Rightarrow> JArr (take 4 xs) | _ \<Rightarrow> JUndef)])
               | JArr _ \<Rightarrow> Some (JObj [(''isOn'', JBool True), (''greeting'', JUndef), (''starters'', JUndef)])
               | _ \<Rightarrow> None))"

definition config_failed :: "string \<Rightarrow> landing \<Rightarrow> landing" where
  "config_failed m s = (page_toast ''error'' ''Configuration Load Error'' (JStr m) s)\<lparr>la_config_loading := False\<rparr>"

text \<open>The three requests fail together; the home screen is set before the rest.\<close>

definition load_agent_config :: "exn + http_reply \<times> http_reply \<times> http_reply \<Rightarrow> landing \<Rightarrow> landing" where
  "load_agent_config rs s =
     (case rs of
        Inl m \<Rightarrow> config_failed m s
      | Inr (context, tools, manage) \<Rightarrow>
          (case (if hr_ok context
                 then try_bind (hr_json context) (\<lambda>d. try_bind (get_prop d ''agent_id'') (\<lambda>i.
                        Inr (js_or i (JStr ''CUGA Default Agent''), js_nullor (fld d ''config_version'') JNull)))
                 else Inr (JStr ''CUGA Default Agent'', JNull)) of
             Inl m \<Rightarrow> config_failed m s
           | Inr (name, version) \<Rightarrow>
               (let s1 = (if hr_ok tools then s
                          else page_toast ''warning'' ''Tools Load Warning'' (JStr (''Failed to load tools list'' @ status_text tools)) s)
                in case (if hr_ok tools then try_bind (hr_json tools) loaded_apps else Inr sample_apps) of
                     Inl m \<Rightarrow> config_failed m s1
                   | Inr apps \<Rightarrow>
                       (case (if hr_ok manage then try_bind (hr_json manage) loaded_home else Inr None) of
                          Inl m \<Rightarrow> config_failed m s1
                        | Inr home \<Rightarrow>
                            s1\<lparr>la_home := (case home of Some h \<Rightarrow> Some h | None \<Rightarrow> la_home s1),
                               la_name := name, la_version := version, la_apps := apps, la_config_loading := False\<rparr>))))"

definition tree_loaded :: "exn + http_reply \<Rightarrow> landing \<Rightarrow> landing" where
  "tree_loaded r s =
     (let s1 = s\<lparr>la_tree_loading := False\<rparr>
      in case r of
           Inr rep \<Rightarrow>
             if hr_ok rep
             then (case try_bind (hr_json rep) (\<lambda>d. get_prop d ''tree'') of
                     Inr t \<Rightarrow> s1\<lparr>la_tree := js_or t (JArr [])\<rparr>
                   | Inl _ \<Rightarrow> s1)
             else s1
         | Inl _ \<Rightarrow> s1)"

section \<open>Files\<close>

definition text_extensions :: "string list" where
  "text_extensions = [''.txt'', ''.md'', ''.json'', ''.yaml'', ''.yml'', ''.log'', ''.csv'', ''.html'', ''.css'', ''.js'', ''.ts'', ''.py'']"

definition is_text_file :: "string \<Rightarrow> bool" where
  "is_text_file name \<longleftrightarrow> list_ex (\<lambda>e. suffix e (to_lower name)) text_extensions"

text \<open>The answer is only asked for when the file is a text.\<close>

definition file_click :: "bool \<Rightarrow> string \<Rightarrow> string \<Rightarrow> exn + http_reply \<Rightarrow> landing \<Rightarrow> landing" where
  "file_click is_file path name r s =
     (if \<not> is_file then s
      else if \<not> is_text_file name
      then page_toast ''info'' ''Preview not available'' (JStr ''Only text and markdown files can be previewed.'') s
      else (case r of
              Inl m \<Rightarrow> page_toast ''error'' ''Error loading file'' (JStr m) s
            | Inr rep \<Rightarrow>
                if hr_ok rep
                then (case try_bind (hr_json rep) (\<lambda>d. get_prop d ''content'') of
                        Inr c \<Rightarrow> s\<lparr>la_modal := Some (path, c, name)\<rparr>
                      | Inl m \<Rightarrow> page_toast ''error'' ''Error loading file'' (JStr m) s)
                else page_toast ''error'' ''Failed to load file'' (JStr (hr_status_text rep)) s))"

definition file_markdown :: "(rat \<Rightarrow> string) \<Rightarrow> string \<Rightarrow> jv \<Rightarrow> string" where
  "file_markdown num name content =
     (let t = js_to_string num content
      in if suffix ''.md'' (to_lower name) then t else ''```'' @ [CHR 0x0A] @ t @ [CHR 0x0A] @ ''```'')"


section \<open>Properties\<close>

text \<open>The tools by application: a reference that looks at the whole list.\<close>

definition apps_in_order :: "jv list \<Rightarrow> jv list" where
  "apps_in_order ts = rev (remdups (rev (map app_of ts)))"

lemma group_snoc: "group_tools (ts @ [t]) = add_tool t (group_tools ts)"
  by (simp add: group_tools_def)

lemma map_fst_al_set: "map fst (al_set k v al) = (if k \<in> fst ` set al then map fst al else map fst al @ [k])"
  by (induction k v al rule: al_set.induct) auto

lemma group_keys: "map fst (group_tools ts) = apps_in_order ts"
proof (induction ts rule: rev_induct)
  case Nil
  show ?case by (simp add: group_tools_def apps_in_order_def)
next
  case (snoc t ts)
  have "fst ` set (group_tools ts) = set (apps_in_order ts)" using snoc by (metis list.set_map)
  then have "fst ` set (group_tools ts) = app_of ` set ts" by (simp add: apps_in_order_def)
  then show ?case using snoc by (simp add: group_snoc add_tool_def map_fst_al_set apps_in_order_def)
qed

lemma group_values:
  "map_of (group_tools ts) a = (let g = filter (\<lambda>t. app_of t = a) ts in if g = [] then None else Some (map tool_of g))"
proof (induction ts rule: rev_induct)
  case (snoc t ts)
  then show ?case by (auto simp: group_snoc add_tool_def Let_def filter_empty_conv split: option.splits if_splits)
qed (simp add: group_tools_def)

lemma distinct_group: "distinct (map fst (group_tools ts))"
  by (simp add: group_keys apps_in_order_def)

lemma group_total: "sum_list (map (length \<circ> snd) (group_tools ts)) = length ts"
proof (induction ts rule: rev_induct)
  case (snoc t ts)
  have upd: "sum_list (map (length \<circ> snd) (al_set k v al)) + (case map_of al k of Some w \<Rightarrow> length w | None \<Rightarrow> 0)
      = sum_list (map (length \<circ> snd) al) + length v" for k and v :: "app_tool list" and al
    by (induction k v al rule: al_set.induct) auto
  show ?case
    using upd [of "app_of t" "(case map_of (group_tools ts) (app_of t) of Some ts \<Rightarrow> ts | None \<Rightarrow> []) @ [tool_of t]" "group_tools ts"] snoc
    by (simp add: group_snoc add_tool_def comp_def split: option.splits)
qed (simp add: group_tools_def)

text \<open>
  The page groups the tools of the agent as a pass over the whole list would: one group per
  application, in the order in which the applications first come, each with its tools
  in order; no tool is lost or shown twice, and the number shown is that of the list.
\<close>

theorem tools_grouped_by_app:
  "group_tools ts = map (\<lambda>a. (a, map tool_of (filter (\<lambda>t. app_of t = a) ts))) (apps_in_order ts)
   \<and> distinct (apps_in_order ts)
   \<and> total_tools (s\<lparr>la_apps := group_tools ts\<rparr>) = length ts"
proof (intro conjI)
  have m: "map fst (map (\<lambda>a. (a, map tool_of (filter (\<lambda>t. app_of t = a) ts))) (apps_in_order ts)) = map fst (group_tools ts)"
    by (simp add: group_keys comp_def)
  have "group_tools ts = map (\<lambda>a. (a, the (map_of (group_tools ts) a))) (map fst (group_tools ts))"
    using distinct_group [of ts] by (auto simp: comp_def intro!: map_idI [symmetric])
  also have "\<dots> = map (\<lambda>a. (a, map tool_of (filter (\<lambda>t. app_of t = a) ts))) (apps_in_order ts)"
    unfolding group_keys by (rule map_cong) (auto simp: group_values Let_def apps_in_order_def filter_empty_conv)
  finally show "group_tools ts = map (\<lambda>a. (a, map tool_of (filter (\<lambda>t. app_of t = a) ts))) (apps_in_order ts)" .
  show "distinct (apps_in_order ts)" by (simp add: apps_in_order_def)
  show "total_tools (s\<lparr>la_apps := group_tools ts\<rparr>) = length ts" using group_total by (simp add: total_tools_def)
qed

text \<open>How much time a whole number of units stands for.\<close>

lemma whole_bounds: "0 < u \<Longrightarrow> of_int (whole diff u) * u \<le> diff \<and> diff < (of_int (whole diff u) + 1) * u"
  unfolding whole_def
  using of_int_floor_le [of "diff / u"] floor_correct [of "diff / u"] by (simp add: pos_le_divide_eq pos_divide_less_eq del: of_int_floor_le)

lemma whole_less: "0 < u \<Longrightarrow> whole diff u < n \<longleftrightarrow> diff < of_int n * u"
  unfolding whole_def by (simp add: floor_less_iff field_simps)

lemmas units = second_def minute_def hour_def day_def

text \<open>
  Between ten seconds and a week the list of conversations says a whole number of one
  unit, and the time that has passed is that number of units and less than one more; the
  list of the older chat says for a day that is at least one and less than two
  that it is now, and a date without an offset is read as UTC.
\<close>


theorem times_are_whole_units:
  "(10 * second \<le> now - d \<and> now - d < 7 * day \<longrightarrow>
      (\<exists>n u name. short_ago locale_date now d = show_int n @ name @ '' ago''
        \<and> (name, u) \<in> {(''s'', second), (''m'', minute), (''h'', hour), (''d'', day)}
        \<and> 1 \<le> n \<and> of_int n * u \<le> now - d \<and> now - d < (of_int n + 1) * u))
   \<and> (day \<le> now - d \<and> now - d < 2 * day \<longrightarrow> format_date locale_date now d = ''now'')
   \<and> (parse_date (stamp @ ''Z'') = Some d \<and> \<not> suffix ''Z'' stamp \<longrightarrow>
        format_timestamp parse_date locale_date now stamp = short_ago locale_date now d)"
proof (intro conjI impI)
  assume a: "10 * second \<le> now - d \<and> now - d < 7 * day"
  have pos: "0 < second" "0 < minute" "0 < hour" "0 < day" by (simp_all add: units)
  have one: "1 \<le> whole (now - d) u" if "u \<le> now - d" "0 < u" for u
    using whole_less [OF that(2), of "now - d" 1] that(1) by simp
  note lt = whole_less [OF pos(1)] whole_less [OF pos(2)] whole_less [OF pos(3)] whole_less [OF pos(4)]
  consider "now - d < 60 * second" | "60 * second \<le> now - d" "now - d < 60 * minute"
    | "60 * minute \<le> now - d" "now - d < 24 * hour" | "24 * hour \<le> now - d" by linarith
  then show "\<exists>n u name. short_ago locale_date now d = show_int n @ name @ '' ago''
        \<and> (name, u) \<in> {(''s'', second), (''m'', minute), (''h'', hour), (''d'', day)}
        \<and> 1 \<le> n \<and> of_int n * u \<le> now - d \<and> now - d < (of_int n + 1) * u"
  proof cases
    case 1
    then have "short_ago locale_date now d = show_int (whole (now - d) second) @ ''s'' @ '' ago''"
      using a by (simp add: short_ago_def lt)
    moreover have "second \<le> now - d" using a by (simp add: units)
    ultimately show ?thesis using whole_bounds [OF pos(1)] one [OF _ pos(1)] by blast
  next
    case 2
    then have "short_ago locale_date now d = show_int (whole (now - d) minute) @ ''m'' @ '' ago''"
      using a by (simp add: short_ago_def lt)
    moreover have "minute \<le> now - d" using 2 by (simp add: units)
    ultimately show ?thesis using whole_bounds [OF pos(2)] one [OF _ pos(2)] by blast
  next
    case 3
    then have "\<not> now - d < 60 * second" by (simp add: units)
    then have "short_ago locale_date now d = show_int (whole (now - d) hour) @ ''h'' @ '' ago''"
      using a 3 by (simp add: short_ago_def lt)
    moreover have "hour \<le> now - d" using 3 by (simp add: units)
    ultimately show ?thesis using whole_bounds [OF pos(3)] one [OF _ pos(3)] by blast
  next
    case 4
    then have "\<not> now - d < 60 * second" "\<not> now - d < 60 * minute" by (simp_all add: units)
    then have "short_ago locale_date now d = show_int (whole (now - d) day) @ ''d'' @ '' ago''"
      using a 4 by (simp add: short_ago_def lt)
    moreover have "day \<le> now - d" using 4 by (simp add: units)
    ultimately show ?thesis using whole_bounds [OF pos(4)] one [OF _ pos(4)] by blast
  qed
next
  assume a: "day \<le> now - d \<and> now - d < 2 * day"
  then have "whole (now - d) day < 2" "\<not> whole (now - d) day < 1" by (simp_all add: whole_less units)
  then have "whole (now - d) day = 1" by simp
  moreover have "\<not> whole (now - d) minute < 1" "\<not> whole (now - d) minute < 60" "\<not> whole (now - d) hour < 24"
    using a by (simp_all add: whole_less units)
  ultimately show "format_date locale_date now d = ''now''" by (simp add: format_date_def)
qed (simp add: format_timestamp_def)

theorem times_are_whole_units_witness:
  "format_date (\<lambda>_. []) (90000000 :: rat) 0 = ''now''"
proof -
  have "day \<le> (90000000 :: rat) - 0 \<and> (90000000 :: rat) - 0 < 2 * day" by (simp add: day_def)
  then show ?thesis using times_are_whole_units [of "90000000" 0] by blast
qed

text \<open>An open panel fits on the screen.\<close>

definition panels_fit :: "landing \<Rightarrow> bool" where
  "panels_fit s \<longleftrightarrow> (la_left s \<longrightarrow> can_show_left s) \<and> (la_right s \<longrightarrow> can_show_right s)"

lemma panels_fit_kept:
  "panels_fit (on_resize w s)"
  "panels_fit s \<Longrightarrow> panels_fit (toggle_left s)" "panels_fit s \<Longrightarrow> panels_fit (toggle_right s)"
  "panels_fit s \<Longrightarrow> panels_fit (reopen_left s)" "panels_fit s \<Longrightarrow> panels_fit (reopen_right s)"
  by (auto simp: panels_fit_def on_resize_def can_show_left_def can_show_right_def hide_left_def hide_right_def toggle_left_def
      toggle_right_def reopen_left_def reopen_right_def)

end
