(* ===== verification/Connection.thy ===== *)
theory Connection
  imports Http_Stream
begin

text \<open>
  The connections of the extension: the content script's port to the worker
  (\<open>content/worker.connection.ts\<close>), the side panel's port with its heartbeat
  (\<open>worker/sidepanel.module.ts\<close>), and the background script that starts and stops the
  worker's modules (\<open>entrypoints/background.ts\<close>).  Ports are numbered in the order they
  are opened; whether a port works is an argument.  Times are milliseconds.
\<close>

section \<open>The content script's port\<close>

record connection =
  cn_port :: "nat option"
  cn_opened :: nat
  cn_listening :: "nat list"          \<comment> \<open>ports whose messages are handled\<close>
  cn_closed :: "nat list"
  cn_checking :: bool
  cn_last_checked :: "rat option"
  cn_unload_handlers :: nat
  cn_state_handlers :: nat            \<comment> \<open>how often each of the five window events is handled\<close>
  cn_posted :: "(nat \<times> jv) list"

definition connection_init :: connection where
  "connection_init = \<lparr>cn_port = None, cn_opened = 0, cn_listening = [], cn_closed = [], cn_checking = False,
     cn_last_checked = None, cn_unload_handlers = 0, cn_state_handlers = 0, cn_posted = []\<rparr>"

definition cn_connect :: "connection \<Rightarrow> connection" where
  "cn_connect s =
     s\<lparr>cn_port := Some (cn_opened s), cn_opened := Suc (cn_opened s),
       cn_listening := cn_listening s @ [cn_opened s],
       cn_unload_handlers := Suc (cn_unload_handlers s), cn_state_handlers := Suc (cn_state_handlers s)\<rparr>"

definition cn_disconnect :: "connection \<Rightarrow> connection" where
  "cn_disconnect s =
     (case cn_port s of
        None \<Rightarrow> s
      | Some p \<Rightarrow> s\<lparr>cn_listening := removeAll p (cn_listening s), cn_closed := cn_closed s @ [p], cn_port := None\<rparr>)"

definition cn_reconnect :: "connection \<Rightarrow> connection" where
  "cn_reconnect s = cn_connect (cn_disconnect s)"

text \<open>\<open>lastChecked\<close> counts as missing when it is 0.\<close>

definition can_retry_checking :: "rat \<Rightarrow> connection \<Rightarrow> bool" where
  "can_retry_checking now s =
     (if cn_checking s then False
      else case cn_last_checked s of
             None \<Rightarrow> True
           | Some t \<Rightarrow> if t = 0 then True else t + 1000 > now)"

text \<open>Posting the probe: the port throws when it is gone.\<close>

definition get_port_closed :: "(nat \<Rightarrow> bool) \<Rightarrow> string \<Rightarrow> connection \<Rightarrow> bool \<times> connection" where
  "get_port_closed works uid s =
     (case cn_port s of
        None \<Rightarrow> (True, s)
      | Some p \<Rightarrow>
          if works p
          then (True, s\<lparr>cn_posted := cn_posted s @ [(p, JObj [(''id'', JStr uid),
                 (''type'', JStr ''nl2ui.page.internal.checkportstatus'')])]\<rparr>)
          else (False, s))"

definition ensure_connected :: "(nat \<Rightarrow> bool) \<Rightarrow> (nat \<Rightarrow> bool) \<Rightarrow> string \<Rightarrow> bool \<Rightarrow> rat \<Rightarrow> connection \<Rightarrow> connection" where
  "ensure_connected works has_error uid force now s =
     (if force \<or> cn_port s = None \<or> (\<exists>p \<in> set_option (cn_port s). has_error p) then cn_reconnect s
      else if can_retry_checking now s then s
      else
        let s1 = s\<lparr>cn_checking := True\<rparr>;
            (status, s2) = get_port_closed works uid s1;
            s3 = s2\<lparr>cn_last_checked := Some now\<rparr>;
            s4 = (if \<not> status then cn_reconnect s3 else s3)
        in s4\<lparr>cn_checking := False\<rparr>)"

text \<open>\<open>handleStateChange\<close>, once for each time it is registered.\<close>

definition state_change :: "(nat \<Rightarrow> bool) \<Rightarrow> (nat \<Rightarrow> bool) \<Rightarrow> string \<Rightarrow> bool \<Rightarrow> bool \<Rightarrow> rat \<Rightarrow> connection \<Rightarrow> connection" where
  "state_change works has_error uid visible focused now s =
     (if visible \<and> focused
      then (ensure_connected works has_error uid False now ^^ cn_state_handlers s) s else s)"

definition page_unload :: "connection \<Rightarrow> connection" where
  "page_unload s = (cn_disconnect ^^ cn_unload_handlers s) s"

text \<open>
  Which errors \<open>safePostMessage\<close> retries, and one attempt of it: \<open>True\<close> when it
  is to be tried again, on a new connection.
\<close>

definition retries_error :: "exn \<Rightarrow> bool" where
  "retries_error m = includes_str (to_lower m) ''Attempting to use a disconnected port object''"

definition safe_post_attempt :: "(nat \<Rightarrow> exn + unit) \<Rightarrow> jv \<Rightarrow> connection \<Rightarrow> bool \<times> connection" where
  "safe_post_attempt post message s =
     (let result = (case cn_port s of None \<Rightarrow> Inl (type_error JUndef ''postMessage'') | Some p \<Rightarrow> post p)
      in case result of
           Inr _ \<Rightarrow> (False, s\<lparr>cn_posted := cn_posted s @ [(the (cn_port s), message)]\<rparr>)
         | Inl m \<Rightarrow> if retries_error m then (True, cn_reconnect s) else (False, s))"

text \<open>
  A command from the worker; executing it is the runtime's, and a response carries the
  identifier of the command and a result or an error.
\<close>

datatype command_reply = NoReply | DirectReply jv "exn + jv" | SafeReply jv

definition on_command :: "(jv \<Rightarrow> exn + jv) \<Rightarrow> (jv \<Rightarrow> string) \<Rightarrow> jv \<Rightarrow> command_reply" where
  "on_command execute stringify command =
     (let ident = fld command ''id''; ty = fld command ''type''
      in case ty of
           JStr t \<Rightarrow>
             if starts_with t ''nl2ui.page.internal.'' then NoReply
             else if ident = JUndef \<or> ident = JStr []
             then DirectReply ident (Inl (''The command '' @ [CHR 0x27] @ ''id'' @ [CHR 0x27]
                    @ '' is required and it was not specified: '' @ stringify command))
             else if t = ''pu.connection.keep-alive'' then DirectReply ident (Inr (JBool True))
             else (case execute command of
                     Inl e \<Rightarrow> DirectReply ident (Inl e)
                   | Inr response \<Rightarrow> SafeReply response)
         | _ \<Rightarrow> DirectReply ident (Inl (if nullish ty then type_error ty ''startsWith''
                                        else ''command.type.startsWith is not a function'')))"

inductive connection_run :: "connection \<Rightarrow> bool" where
  start: "connection_run connection_init"
| connect: "connection_run s \<Longrightarrow> connection_run (cn_connect s)"
| disconnect: "connection_run s \<Longrightarrow> connection_run (cn_disconnect s)"
| ensure: "connection_run s \<Longrightarrow> connection_run (ensure_connected works has_error uid force now s)"
| change: "connection_run s \<Longrightarrow> connection_run (state_change works has_error uid visible focused now s)"
| unload: "connection_run s \<Longrightarrow> connection_run (page_unload s)"
| post: "connection_run s \<Longrightarrow> connection_run (snd (safe_post_attempt poster message s))"

text \<open>The part of the state the checks are about.\<close>

definition never_checked :: "connection \<Rightarrow> bool" where
  "never_checked s \<longleftrightarrow> \<not> cn_checking s \<and> cn_last_checked s = None"

lemma never_checked_connect [simp]:
  "never_checked (cn_connect s) = never_checked s" "never_checked (cn_disconnect s) = never_checked s"
  "never_checked (cn_reconnect s) = never_checked s"
  by (auto simp: never_checked_def cn_reconnect_def cn_connect_def cn_disconnect_def split: option.split)

lemma never_checked_ensure:
  "never_checked s \<Longrightarrow> ensure_connected works has_error uid force now s = s
     \<or> ensure_connected works has_error uid force now s = cn_reconnect s"
  by (auto simp: ensure_connected_def never_checked_def can_retry_checking_def)

lemma never_checked_power: "never_checked s \<Longrightarrow> (\<And>t. never_checked t \<Longrightarrow> never_checked (f t)) \<Longrightarrow> never_checked ((f ^^ n) s)"
  by (induction n) simp_all

lemma lower_char_not_upper: "lower_char c \<noteq> CHR ''A''"
proof
  assume "lower_char c = CHR ''A''"
  then have "(of_char (lower_char c) :: nat) = 65" by simp
  then show False by (auto simp: lower_char_def split: if_splits)
qed

lemma never_retries: "\<not> retries_error m"
proof
  assume "retries_error m"
  then have "sublist ''Attempting to use a disconnected port object'' (to_lower m)"
    by (simp add: retries_error_def includes_str_def)
  from set_mono_sublist [OF this] have "CHR ''A'' \<in> set (to_lower m)" by simp
  then show False using lower_char_not_upper by fastforce
qed

definition connection_ok :: "connection \<Rightarrow> bool" where
  "connection_ok s \<longleftrightarrow> never_checked s \<and> cn_state_handlers s = cn_opened s"

lemma connection_ok_connect [simp]:
  "connection_ok s \<Longrightarrow> connection_ok (cn_connect s)" "connection_ok s \<Longrightarrow> connection_ok (cn_disconnect s)"
  by (auto simp: connection_ok_def) (auto simp: cn_connect_def cn_disconnect_def split: option.split)

lemma connection_ok_reconnect [simp]: "connection_ok s \<Longrightarrow> connection_ok (cn_reconnect s)"
  by (simp add: cn_reconnect_def)

lemma connection_ok_ensure [simp]: "connection_ok s \<Longrightarrow> connection_ok (ensure_connected works has_error uid force now s)"
  using never_checked_ensure [of s works has_error uid force now] connection_ok_reconnect [of s]
  unfolding connection_ok_def by metis

lemma connection_ok_power: "connection_ok s \<Longrightarrow> (\<And>t. connection_ok t \<Longrightarrow> connection_ok (f t)) \<Longrightarrow> connection_ok ((f ^^ n) s)"
  by (induction n) simp_all

text \<open>
  The port is never checked: \<open>ensureConnected\<close> returns when it may check again and
  goes on when it may not, so from the start on the time of the last check is never set, a
  call for a port without an error does nothing, whether the port still works or not, and
  no error is ever retried by \<open>safePostMessage\<close>, whose filter looks for a capital
  letter in a text in lower case.  Every reconnection adds one more handler of each window
  event.
\<close>

theorem connection_never_checked:
  assumes "connection_run s"
  shows "cn_last_checked s = None \<and> cn_state_handlers s = cn_opened s \<and> \<not> retries_error m
     \<and> (cn_port s = Some p \<and> \<not> has_error p \<longrightarrow> ensure_connected works has_error uid False now s = s)"
proof -
  have "connection_ok s"
    using assms
  proof (induction rule: connection_run.induct)
    case start
    then show ?case by (simp add: connection_ok_def never_checked_def connection_init_def)
  next
    case (change s works has_error uid visible focused now)
    then show ?case by (simp add: state_change_def connection_ok_power)
  next
    case (unload s)
    then show ?case by (simp add: page_unload_def connection_ok_power)
  next
    case (post s poster message)
    then show ?case
      by (auto simp: safe_post_attempt_def never_retries Let_def split: sum.split option.split)
        (auto simp: connection_ok_def never_checked_def)
  qed simp_all
  then show ?thesis
    by (auto simp: connection_ok_def never_checked_def ensure_connected_def can_retry_checking_def never_retries)
qed

theorem connection_never_checked_witness:
  "ensure_connected (\<lambda>_. False) (\<lambda>_. False) ''u'' False 9 (cn_connect connection_init) = cn_connect connection_init"
  using connection_never_checked [OF connection_run.connect [OF connection_run.start], of "[]" 0 "\<lambda>_. False" "\<lambda>_. False" "''u''" 9]
  by (simp add: cn_connect_def connection_init_def)

section \<open>The side panel\<close>

record side_panel =
  sp_port :: "nat option"
  sp_heartbeat :: bool
  sp_connect_listener :: bool
  sp_click_listeners :: nat
  sp_sent :: "(nat \<times> jv) list"

definition panel_init :: side_panel where
  "panel_init = \<lparr>sp_port = None, sp_heartbeat = False, sp_connect_listener = False, sp_click_listeners = 0, sp_sent = []\<rparr>"

definition start_heartbeat :: "side_panel \<Rightarrow> side_panel" where
  "start_heartbeat s = (if sp_heartbeat s then s else s\<lparr>sp_heartbeat := True\<rparr>)"

definition stop_heartbeat :: "side_panel \<Rightarrow> side_panel" where
  "stop_heartbeat s = (if sp_heartbeat s then s\<lparr>sp_heartbeat := False\<rparr> else s)"

definition heartbeat_tick :: "side_panel \<Rightarrow> side_panel" where
  "heartbeat_tick s =
     (case sp_port s of
        Some p \<Rightarrow> s\<lparr>sp_sent := sp_sent s @ [(p, JObj [(''type'', JStr ''heartbeat'')])]\<rparr>
      | None \<Rightarrow> s)"

text \<open>The command that makes the panel render is the runtime's.\<close>

definition panel_connect :: "jv \<Rightarrow> string \<Rightarrow> nat \<Rightarrow> side_panel \<Rightarrow> side_panel" where
  "panel_connect render name p s =
     (if name \<noteq> ''sidepanel'' \<or> sp_port s \<noteq> None then s
      else (let s1 = start_heartbeat (s\<lparr>sp_port := Some p\<rparr>)
            in s1\<lparr>sp_sent := sp_sent s1 @ [(p, render)]\<rparr>))"

definition panel_disconnected :: "side_panel \<Rightarrow> side_panel" where
  "panel_disconnected s = (stop_heartbeat s)\<lparr>sp_port := None\<rparr>"

text \<open>Starting adds a new click handler and the bound connect listener, which is added once.\<close>

definition panel_start :: "side_panel \<Rightarrow> side_panel" where
  "panel_start s = s\<lparr>sp_click_listeners := Suc (sp_click_listeners s), sp_connect_listener := True\<rparr>"

definition panel_stop :: "side_panel \<Rightarrow> side_panel" where
  "panel_stop s = (stop_heartbeat s)\<lparr>sp_connect_listener := False\<rparr>"

section \<open>The background script\<close>

text \<open>Its modules are started in order, stopped on suspension, and started again when that is cancelled.\<close>

record background =
  bg_stream :: http_state
  bg_panel :: side_panel

definition background_start :: "background \<Rightarrow> background" where
  "background_start b = b\<lparr>bg_stream := hs_start (bg_stream b), bg_panel := panel_start (bg_panel b)\<rparr>"

definition background_suspend :: "background \<Rightarrow> background" where
  "background_suspend b = b\<lparr>bg_stream := hs_stop (bg_stream b), bg_panel := panel_stop (bg_panel b)\<rparr>"

inductive background_run :: "http_state \<Rightarrow> jv \<Rightarrow> background \<Rightarrow> bool" for h render where
  start: "background_run h render (background_start \<lparr>bg_stream = h, bg_panel = panel_init\<rparr>)"
| connect: "background_run h render b \<Longrightarrow> sp_connect_listener (bg_panel b)
    \<Longrightarrow> background_run h render (b\<lparr>bg_panel := panel_connect render name p (bg_panel b)\<rparr>)"
| disconnected: "background_run h render b \<Longrightarrow> sp_port (bg_panel b) \<noteq> None
    \<Longrightarrow> background_run h render (b\<lparr>bg_panel := panel_disconnected (bg_panel b)\<rparr>)"
| tick: "background_run h render b \<Longrightarrow> sp_heartbeat (bg_panel b)
    \<Longrightarrow> background_run h render (b\<lparr>bg_panel := heartbeat_tick (bg_panel b)\<rparr>)"
| suspend: "background_run h render b \<Longrightarrow> background_run h render (background_suspend b)"
| cancelled: "background_run h render b \<Longrightarrow> background_run h render (background_start b)"

lemmas panel_defs = panel_init_def start_heartbeat_def stop_heartbeat_def heartbeat_tick_def panel_connect_def
  panel_disconnected_def panel_start_def panel_stop_def background_start_def background_suspend_def

text \<open>
  The heartbeat only runs while a panel is connected.  A suspension that is cancelled
  does not bring it back: the port of the connected panel is kept and its heartbeat is off,
  and as long as that port is there no connection of a panel starts it again.
\<close>

theorem heartbeat_needs_port:
  assumes "background_run h render b"
  shows "(sp_heartbeat (bg_panel b) \<longrightarrow> sp_port (bg_panel b) \<noteq> None)
     \<and> (sp_port (bg_panel b) \<noteq> None \<longrightarrow>
         (let p = bg_panel (background_start (background_suspend b))
          in sp_port p = sp_port (bg_panel b) \<and> \<not> sp_heartbeat p \<and> panel_connect render name q p = p))"
proof -
  have "sp_heartbeat (bg_panel b) \<longrightarrow> sp_port (bg_panel b) \<noteq> None"
    using assms
  proof (induction rule: background_run.induct)
    case (tick b)
    then show ?case by (auto simp: heartbeat_tick_def split: option.split)
  qed (auto simp: panel_defs Let_def)
  then show ?thesis by (auto simp: panel_defs Let_def)
qed

definition demo_stream :: http_state where
  "demo_stream = \<lparr>hs_source = False, hs_connected = False, hs_pending = [], hs_listeners = 0\<rparr>"

definition demo_background :: background where
  "demo_background = background_start \<lparr>bg_stream = demo_stream, bg_panel = panel_init\<rparr>"

theorem heartbeat_needs_port_witness:
  "\<not> sp_heartbeat (bg_panel (background_start (background_suspend
      (demo_background\<lparr>bg_panel := panel_connect JNull ''sidepanel'' 0 (bg_panel demo_background)\<rparr>))))"
proof -
  let ?b = "demo_background\<lparr>bg_panel := panel_connect JNull ''sidepanel'' 0 (bg_panel demo_background)\<rparr>"
  have "background_run demo_stream JNull demo_background"
    unfolding demo_background_def by (rule background_run.start)
  then have r: "background_run demo_stream JNull ?b"
    by (rule background_run.connect) (simp add: demo_background_def panel_defs)
  have "sp_port (bg_panel ?b) \<noteq> None" by (simp add: demo_background_def panel_defs Let_def)
  then show ?thesis using heartbeat_needs_port [OF r] unfolding Let_def by blast
qed

end
