(* ===== verification/Status_Bar.thy ===== *)
theory Status_Bar
  imports Chat_Input
begin

text \<open>
  The bar below the older chat, \<open>agentic_chat/src/StatusBar.tsx\<close>: the tools and
  sub-agents the server reports, the switch between them, the items that fit into its width
  and the menu of the others, and the three popups that follow the pointer with timers.
  Replies have the shape the code declares; the widths and the pointer are arguments;
  icons, styles and fixed texts of the popups are left out.
\<close>

datatype tool_status = Connected | Disconnected | Tool_Failed

record bar_tool =
  bt_name :: string
  bt_status :: tool_status
  bt_type :: string

record sub_agent =
  sa_name :: string
  sa_role :: string
  sa_enabled :: bool

datatype agent_mode = Supervisor | Single

section \<open>A popup that follows the pointer\<close>

record hover =
  hv_shown :: bool
  hv_ref :: "nat option"       \<comment> \<open>the timer the reference holds\<close>
  hv_timers :: "nat list"      \<comment> \<open>timers that are pending\<close>
  hv_next :: nat

definition hover_init :: hover where
  "hover_init = \<lparr>hv_shown = False, hv_ref = None, hv_timers = [], hv_next = 0\<rparr>"

definition clear_hide :: "hover \<Rightarrow> hover" where
  "clear_hide h =
     (case hv_ref h of
        Some k \<Rightarrow> h\<lparr>hv_timers := removeAll k (hv_timers h), hv_ref := None\<rparr>
      | None \<Rightarrow> h)"

definition hide_later :: "hover \<Rightarrow> hover" where
  "hide_later h = h\<lparr>hv_timers := hv_timers h @ [hv_next h], hv_ref := Some (hv_next h), hv_next := Suc (hv_next h)\<rparr>"

definition hide_due :: "nat \<Rightarrow> hover \<Rightarrow> hover" where
  "hide_due k h = h\<lparr>hv_timers := removeAll k (hv_timers h), hv_shown := False\<rparr>"

definition item_entered :: "hover \<Rightarrow> hover" where
  "item_entered h = (clear_hide h)\<lparr>hv_shown := True\<rparr>"

text \<open>Leaving the popup hides it, but the popup of the modes is hidden by a timer again.\<close>

datatype popup_kind = Agents_Popup | Examples_Popup | Mode_Popup

definition popup_left :: "popup_kind \<Rightarrow> hover \<Rightarrow> hover" where
  "popup_left p h = (case p of Mode_Popup \<Rightarrow> hide_later h | _ \<Rightarrow> h\<lparr>hv_shown := False\<rparr>)"

section \<open>State and requests\<close>

datatype bar_request =
    Get_Tools
  | Get_Sub_Agents
  | Post_Mode agent_mode "string option"
  | Post_Sub_Agents "sub_agent list" agent_mode "string option"

datatype bar_item = Tools_Item | Mode_Item | Agents_Item | Connection_Item

record status_bar =
  sb_tools :: "bar_tool list"
  sb_internal :: "(string \<times> nat) list"
  sb_fast :: bool
  sb_mode :: agent_mode
  sb_agents :: "sub_agent list"
  sb_selected :: "string option"
  sb_tools_popup :: bool
  sb_agents_popup :: hover
  sb_examples_popup :: hover
  sb_mode_popup :: hover
  sb_selector :: bool
  sb_more :: bool
  sb_input_empty :: bool
  sb_visible :: "bar_item list"
  sb_requests :: "bar_request list"

definition status_bar_init :: status_bar where
  "status_bar_init = \<lparr>sb_tools = [], sb_internal = [], sb_fast = True, sb_mode = Supervisor, sb_agents = [], sb_selected = None,
     sb_tools_popup = False, sb_agents_popup = hover_init, sb_examples_popup = hover_init, sb_mode_popup = hover_init,
     sb_selector = False, sb_more = False, sb_input_empty = True,
     sb_visible = [Tools_Item, Mode_Item, Agents_Item, Connection_Item], sb_requests = [Get_Tools, Get_Sub_Agents]\<rparr>"

definition bar_send :: "bar_request \<Rightarrow> status_bar \<Rightarrow> status_bar" where
  "bar_send r s = s\<lparr>sb_requests := sb_requests s @ [r]\<rparr>"

section \<open>Loading\<close>

record tools_reply =
  tr_tools :: "bar_tool list option"
  tr_internal :: "(string \<times> nat) list option"

record agents_reply =
  ar_agents :: "sub_agent list option"
  ar_mode :: "agent_mode option"
  ar_selected :: "string option"

text \<open>A reply that fails changes nothing.\<close>

definition tools_loaded :: "tools_reply option \<Rightarrow> status_bar \<Rightarrow> status_bar" where
  "tools_loaded r s =
     (case r of
        Some d \<Rightarrow> s\<lparr>sb_tools := case_option [] id (tr_tools d), sb_internal := case_option [] id (tr_internal d)\<rparr>
      | None \<Rightarrow> s)"

definition sub_agents_loaded :: "agents_reply option \<Rightarrow> status_bar \<Rightarrow> status_bar" where
  "sub_agents_loaded r s =
     (case r of
        Some d \<Rightarrow> s\<lparr>sb_agents := case_option [] id (ar_agents d), sb_mode := case_option Supervisor id (ar_mode d),
                      sb_selected := (case ar_selected d of Some n \<Rightarrow> if n \<noteq> [] then Some n else None | None \<Rightarrow> None)\<rparr>
      | None \<Rightarrow> s)"

definition check_input_empty :: "string \<Rightarrow> status_bar \<Rightarrow> status_bar" where
  "check_input_empty t s = s\<lparr>sb_input_empty := (trim t = [])\<rparr>"

text \<open>The items that fit, by the width of the bar.\<close>

definition update_visible_items :: "nat \<Rightarrow> status_bar \<Rightarrow> status_bar" where
  "update_visible_items width s =
     s\<lparr>sb_visible := (if 800 < width then [Tools_Item, Mode_Item, Agents_Item]
        else if 600 < width then [Tools_Item, Mode_Item]
        else if 400 < width then [Tools_Item] else [])\<rparr>"

section \<open>Agents\<close>

definition toggle_mode :: "status_bar \<Rightarrow> status_bar" where
  "toggle_mode s = s"

definition toggle_agent_mode :: "status_bar \<Rightarrow> status_bar" where
  "toggle_agent_mode s =
     (case sb_mode s of
        Supervisor \<Rightarrow> s\<lparr>sb_selector := True\<rparr>
      | Single \<Rightarrow> bar_send (Post_Mode Supervisor None) (s\<lparr>sb_selected := None, sb_mode := Supervisor\<rparr>))"

definition select_agent :: "string \<Rightarrow> status_bar \<Rightarrow> status_bar" where
  "select_agent name s =
     bar_send (Post_Mode Single (Some name)) (s\<lparr>sb_selected := Some name, sb_mode := Single, sb_selector := False\<rparr>)"

definition cancel_agent_selection :: "status_bar \<Rightarrow> status_bar" where
  "cancel_agent_selection s = s\<lparr>sb_selector := False\<rparr>"

definition toggle_agent_enabled :: "string \<Rightarrow> status_bar \<Rightarrow> status_bar" where
  "toggle_agent_enabled name s =
     (let updated = map (\<lambda>a. if sa_name a = name then a\<lparr>sa_enabled := \<not> sa_enabled a\<rparr> else a) (sb_agents s)
      in bar_send (Post_Sub_Agents updated (sb_mode s) (sb_selected s)) (s\<lparr>sb_agents := updated\<rparr>))"

definition active_agents :: "status_bar \<Rightarrow> sub_agent list" where
  "active_agents s = filter sa_enabled (sb_agents s)"

definition connected_tools :: "bar_tool list \<Rightarrow> bar_tool list" where
  "connected_tools ts = filter (\<lambda>t. bt_status t = Connected) ts"

definition error_tools :: "bar_tool list \<Rightarrow> bar_tool list" where
  "error_tools ts = filter (\<lambda>t. bt_status t = Tool_Failed) ts"

definition selected_agent_info :: "status_bar \<Rightarrow> sub_agent option" where
  "selected_agent_info s =
     (case sb_selected s of None \<Rightarrow> None | Some n \<Rightarrow> find (\<lambda>a. sa_name a = n) (sb_agents s))"

text \<open>The tools by their type, in the order in which the types first come.\<close>

record tool_group =
  tg_total :: nat
  tg_connected :: nat
  tg_tools :: "bar_tool list"

definition count_tool :: "bar_tool \<Rightarrow> (string \<times> tool_group) list \<Rightarrow> (string \<times> tool_group) list" where
  "count_tool t m =
     (let g = (case map_of m (bt_type t) of Some g \<Rightarrow> g | None \<Rightarrow> \<lparr>tg_total = 0, tg_connected = 0, tg_tools = []\<rparr>)
      in al_set (bt_type t)
           \<lparr>tg_total = Suc (tg_total g), tg_connected = (if bt_status t = Connected then Suc (tg_connected g) else tg_connected g),
            tg_tools = tg_tools g @ [t]\<rparr> m)"

definition tool_groups :: "bar_tool list \<Rightarrow> (string \<times> tool_group) list" where
  "tool_groups ts = foldl (\<lambda>m t. count_tool t m) [] ts"

section \<open>What is drawn\<close>

definition apostrophe :: string where "apostrophe = [CHR 0x27]"

definition example_texts :: "string list" where
  "example_texts =
     [''From the list of emails in the file contacts.txt, please filter those who exist in the CRM application. For the filtered contacts, retrieve their name and their associated account name, and calculate their account''
        @ apostrophe @ ''s revenue percentile across all accounts. Finally, draft a an email based on email_template.md template summarizing the result and show it to me'',
      ''from contacts.txt show me which users belong to the crm system'',
      ''./cuga_workspace/cuga_playbook.md'',
      ''What is CUGA?'']"

definition overflow_items :: "status_bar \<Rightarrow> (bar_item \<times> string) list" where
  "overflow_items s =
     (if Mode_Item \<notin> set (sb_visible s) then [(Mode_Item, ''Mode: '' @ (if sb_fast s then ''Lite'' else ''Balanced''))] else [])
     @ (if Agents_Item \<notin> set (sb_visible s)
        then [(Agents_Item, case sb_mode s of
                Supervisor \<Rightarrow> ''Supervisor ('' @ show_nat (length (active_agents s)) @ '')''
              | Single \<Rightarrow> ''Single ('' @ (if sb_selected s = None then ''None''
                   else case selected_agent_info s of Some a \<Rightarrow> sa_name a | None \<Rightarrow> ''undefined'') @ '')'')] else [])
     @ (if Tools_Item \<notin> set (sb_visible s)
        then [(Tools_Item, ''Tools: '' @ show_nat (length (connected_tools (sb_tools s))) @ ''/'' @ show_nat (length (sb_tools s)))] else [])"

datatype agents_popup_view =
    All_Agents nat "sub_agent list"
  | One_Agent "string option" "string option"
  | No_Agent

definition agents_panel :: "status_bar \<Rightarrow> agents_popup_view" where
  "agents_panel s =
     (case sb_mode s of
        Supervisor \<Rightarrow> All_Agents (length (active_agents s)) (sb_agents s)
      | Single \<Rightarrow>
          if sb_selected s = None then No_Agent
          else let a = selected_agent_info s in One_Agent (map_option sa_name a) (map_option sa_role a))"

type_synonym group_view = "string \<times> nat \<times> nat \<times> nat option \<times> (string \<times> tool_status) list"

definition group_views :: "status_bar \<Rightarrow> group_view list" where
  "group_views s =
     map (\<lambda>(k, g). (k, tg_connected g, tg_total g, map_of (sb_internal s) (to_lower k),
                     map (\<lambda>t. (bt_name t, bt_status t)) (tg_tools g))) (tool_groups (sb_tools s))"

definition draw_selector :: "status_bar \<Rightarrow> (string \<times> string) list option" where
  "draw_selector s = (if sb_selector s then Some (map (\<lambda>a. (sa_name a, sa_role a)) (active_agents s)) else None)"

definition draw_examples :: "status_bar \<Rightarrow> bool \<times> nat \<times> string list option" where
  "draw_examples s =
     (sb_input_empty s, length example_texts, if hv_shown (sb_examples_popup s) then Some example_texts else None)"

definition draw_tools :: "status_bar \<Rightarrow> (nat \<times> bool \<times> (nat \<times> nat \<times> group_view list) option) option" where
  "draw_tools s =
     (if Tools_Item \<in> set (sb_visible s)
      then Some (length (connected_tools (sb_tools s)), error_tools (sb_tools s) \<noteq> [],
             if sb_tools_popup s then Some (length (connected_tools (sb_tools s)), length (sb_tools s), group_views s) else None)
      else None)"

definition draw_mode :: "status_bar \<Rightarrow> (bool \<times> bool) option" where
  "draw_mode s = (if Mode_Item \<in> set (sb_visible s) then Some (sb_fast s, hv_shown (sb_mode_popup s)) else None)"

definition draw_agents :: "status_bar \<Rightarrow> (agent_mode \<times> nat option \<times> agents_popup_view option) option" where
  "draw_agents s =
     (if Agents_Item \<in> set (sb_visible s)
      then Some (sb_mode s, if sb_mode s = Supervisor then Some (length (active_agents s)) else None,
             if hv_shown (sb_agents_popup s) then Some (agents_panel s) else None)
      else None)"

definition draw_more :: "status_bar \<Rightarrow> (bar_item \<times> string) list option option" where
  "draw_more s = (if overflow_items s = [] then None else Some (if sb_more s then Some (overflow_items s) else None))"

record bar_view =
  bv_selector :: "(string \<times> string) list option"
  bv_examples :: "bool \<times> nat \<times> string list option"
  bv_tools :: "(nat \<times> bool \<times> (nat \<times> nat \<times> group_view list) option) option"
  bv_mode :: "(bool \<times> bool) option"
  bv_agents :: "(agent_mode \<times> nat option \<times> agents_popup_view option) option"
  bv_more :: "(bar_item \<times> string) list option option"

definition draw_bar :: "status_bar \<Rightarrow> bar_view" where
  "draw_bar s = \<lparr>bv_selector = draw_selector s, bv_examples = draw_examples s, bv_tools = draw_tools s, bv_mode = draw_mode s,
     bv_agents = draw_agents s, bv_more = draw_more s\<rparr>"

lemmas draw_defs = draw_bar_def draw_selector_def draw_examples_def draw_tools_def draw_mode_def draw_agents_def draw_more_def

section \<open>Events\<close>

datatype hover_event = Item_Entered | Item_Left | Popup_Entered | Popup_Left | Hide_Due nat

fun hover_do :: "popup_kind \<Rightarrow> hover_event \<Rightarrow> hover \<Rightarrow> hover" where
  "hover_do p Item_Entered h = item_entered h"
| "hover_do p Item_Left h = hide_later h"
| "hover_do p Popup_Entered h = clear_hide h"
| "hover_do p Popup_Left h = popup_left p h"
| "hover_do p (Hide_Due k) h = (if k \<in> set (hv_timers h) then hide_due k h else h)"

fun overflow_action :: "bar_item \<Rightarrow> status_bar \<Rightarrow> status_bar" where
  "overflow_action Mode_Item s = toggle_mode s"
| "overflow_action Agents_Item s = s\<lparr>sb_agents_popup := (sb_agents_popup s)\<lparr>hv_shown := True\<rparr>\<rparr>"
| "overflow_action Tools_Item s = s\<lparr>sb_tools_popup := True\<rparr>"
| "overflow_action Connection_Item s = s"

datatype bar_event =
    Tools_Loaded "tools_reply option"
  | Sub_Agents_Loaded "agents_reply option"
  | Input_Seen string
  | Bar_Resized nat
  | Popup_Hover popup_kind hover_event
  | Tools_Hover bool
  | More_Hover bool
  | More_Click bar_item
  | Supervisor_Click
  | Agent_Click string
  | Selector_Opened
  | Agent_Picked string
  | Selection_Cancelled
  | Example_Picked string

text \<open>
  What the user can do is what is drawn; the selector of an agent is in front of all else.
\<close>

definition agents_shown :: "status_bar \<Rightarrow> bool" where
  "agents_shown s \<longleftrightarrow> Agents_Item \<in> set (sb_visible s) \<and> hv_shown (sb_agents_popup s) \<and> \<not> sb_selector s"

fun bar_allows :: "status_bar \<Rightarrow> bar_event \<Rightarrow> bool" where
  "bar_allows s (Tools_Hover b) \<longleftrightarrow> Tools_Item \<in> set (sb_visible s) \<and> \<not> sb_selector s"
| "bar_allows s (More_Hover b) \<longleftrightarrow> overflow_items s \<noteq> [] \<and> \<not> sb_selector s"
| "bar_allows s (More_Click i) \<longleftrightarrow> i \<in> fst ` set (overflow_items s) \<and> sb_more s \<and> \<not> sb_selector s"
| "bar_allows s Supervisor_Click \<longleftrightarrow> Agents_Item \<in> set (sb_visible s) \<and> \<not> sb_selector s"
| "bar_allows s (Agent_Click n) \<longleftrightarrow> agents_shown s \<and> sb_mode s = Supervisor \<and> n \<in> sa_name ` set (sb_agents s)"
| "bar_allows s Selector_Opened \<longleftrightarrow> agents_shown s \<and> sb_mode s = Single"
| "bar_allows s (Agent_Picked n) \<longleftrightarrow> sb_selector s \<and> n \<in> sa_name ` set (active_agents s)"
| "bar_allows s Selection_Cancelled \<longleftrightarrow> sb_selector s"
| "bar_allows s (Example_Picked t) \<longleftrightarrow> hv_shown (sb_examples_popup s) \<and> t \<in> set example_texts \<and> \<not> sb_selector s"
| "bar_allows s _ \<longleftrightarrow> True"

fun bar_do :: "bar_event \<Rightarrow> status_bar \<Rightarrow> status_bar" where
  "bar_do (Tools_Loaded r) s = tools_loaded r s"
| "bar_do (Sub_Agents_Loaded r) s = sub_agents_loaded r s"
| "bar_do (Input_Seen t) s = check_input_empty t s"
| "bar_do (Bar_Resized w) s = update_visible_items w s"
| "bar_do (Popup_Hover p ev) s =
     (case p of
        Agents_Popup \<Rightarrow> s\<lparr>sb_agents_popup := hover_do p ev (sb_agents_popup s)\<rparr>
      | Examples_Popup \<Rightarrow> s\<lparr>sb_examples_popup := hover_do p ev (sb_examples_popup s)\<rparr>
      | Mode_Popup \<Rightarrow> s\<lparr>sb_mode_popup := hover_do p ev (sb_mode_popup s)\<rparr>)"
| "bar_do (Tools_Hover b) s = s\<lparr>sb_tools_popup := b\<rparr>"
| "bar_do (More_Hover b) s = s\<lparr>sb_more := b\<rparr>"
| "bar_do (More_Click i) s = (overflow_action i s)\<lparr>sb_more := False\<rparr>"
| "bar_do Supervisor_Click s = (if sb_mode s \<noteq> Supervisor then toggle_agent_mode s else s)"
| "bar_do (Agent_Click n) s = toggle_agent_enabled n s"
| "bar_do Selector_Opened s = s\<lparr>sb_selector := True\<rparr>"
| "bar_do (Agent_Picked n) s = select_agent n s"
| "bar_do Selection_Cancelled s = cancel_agent_selection s"
| "bar_do (Example_Picked t) s =
     check_input_empty t (s\<lparr>sb_examples_popup := (sb_examples_popup s)\<lparr>hv_shown := False\<rparr>\<rparr>)"

inductive bar_run :: "status_bar \<Rightarrow> bar_event list \<Rightarrow> status_bar \<Rightarrow> bool" where
  begin_bar: "bar_run s [] s"
| next_event: "bar_run s evs s1 \<Longrightarrow> bar_allows s1 ev \<Longrightarrow> bar_run s (evs @ [ev]) (bar_do ev s1)"

section \<open>Properties\<close>

text \<open>Where the pointer is: the popup is a child of its item.\<close>

datatype pointer = Outside | On_Item | On_Popup

inductive hover_run :: "popup_kind \<Rightarrow> pointer \<Rightarrow> hover \<Rightarrow> bool" for p where
  begin_hover: "hover_run p Outside hover_init"
| enter: "hover_run p Outside h \<Longrightarrow> hover_run p On_Item (hover_do p Item_Entered h)"
| into: "hover_run p On_Item h \<Longrightarrow> hv_shown h \<Longrightarrow> hover_run p On_Popup (hover_do p Popup_Entered h)"
| enter_into: "hover_run p Outside h \<Longrightarrow> hv_shown h \<Longrightarrow>
     hover_run p On_Popup (hover_do p Popup_Entered (hover_do p Item_Entered h))"
| out_of_popup: "hover_run p On_Popup h \<Longrightarrow> hover_run p On_Item (hover_do p Popup_Left h)"
| leave: "hover_run p On_Item h \<Longrightarrow> hover_run p Outside (hover_do p Item_Left h)"
| leave_both: "hover_run p On_Popup h \<Longrightarrow> hover_run p Outside (hover_do p Item_Left (hover_do p Popup_Left h))"
| due: "hover_run p ptr h \<Longrightarrow> k \<in> set (hv_timers h) \<Longrightarrow> ptr \<noteq> On_Popup \<Longrightarrow> hover_run p ptr (hover_do p (Hide_Due k) h)"
| gone: "hover_run p On_Popup h \<Longrightarrow> k \<in> set (hv_timers h) \<Longrightarrow> ptr \<noteq> On_Popup \<Longrightarrow> hover_run p ptr (hover_do p (Hide_Due k) h)"
| forced: "hover_run p Outside h \<Longrightarrow> hover_run p Outside (h\<lparr>hv_shown := True\<rparr>)"

definition timers_held :: "pointer \<Rightarrow> hover \<Rightarrow> bool" where
  "timers_held ptr h \<longleftrightarrow> set (hv_timers h) \<subseteq> set_option (hv_ref h) \<and> (ptr \<noteq> Outside \<longrightarrow> hv_timers h = [])"

lemma clear_held: "timers_held ptr h \<Longrightarrow> hv_timers (clear_hide h) = []"
  by (auto simp: timers_held_def clear_hide_def removeAll_filter_not_eq filter_empty_conv split: option.splits)

lemma hover_held: "hover_run p ptr h \<Longrightarrow> p \<noteq> Mode_Popup \<Longrightarrow> timers_held ptr h"
proof (induction rule: hover_run.induct)
  case (enter h)
  then show ?case using clear_held [of Outside h] by (simp add: timers_held_def item_entered_def)
next
  case (into h)
  then show ?case using clear_held [of On_Item h] by (simp add: timers_held_def)
next
  case (enter_into h)
  have "timers_held Outside (item_entered h)"
    using clear_held [of Outside h] enter_into by (simp add: timers_held_def item_entered_def)
  then show ?case using clear_held [of Outside "item_entered h"] by (simp add: timers_held_def)
next
  case (due ptr h k)
  then show ?case by (auto simp: timers_held_def hide_due_def)
next
  case (gone h k ptr)
  then show ?case by (auto simp: timers_held_def hide_due_def)
qed (auto simp: timers_held_def hover_init_def hide_later_def popup_left_def split: popup_kind.splits)

text \<open>Leaving the popup and its item together starts two timers, of which the reference holds one.\<close>

definition left_twice :: hover where
  "left_twice = foldl (\<lambda>h ev. hover_do Mode_Popup ev h) hover_init
     [Item_Entered, Popup_Entered, Popup_Left, Item_Left, Item_Entered]"

lemma left_twice_run: "hover_run Mode_Popup On_Item left_twice"
proof -
  let ?a = "hover_do Mode_Popup Item_Entered hover_init"
  have "hover_run Mode_Popup On_Popup (hover_do Mode_Popup Popup_Entered ?a)"
    by (rule hover_run.into [OF hover_run.enter [OF hover_run.begin_hover]])
      (simp add: item_entered_def)
  from hover_run.enter [OF hover_run.leave_both [OF this]] show ?thesis by (simp add: left_twice_def)
qed

text \<open>
  While the pointer is on the item of the agents or of the examples, or on its popup, no
  timer is pending that could hide the popup.  The popup of the modes has no such guarantee:
  it can be shown with the pointer on its item and a timer pending that no reference
  holds, so that it will be hidden.
\<close>

theorem popups_under_pointer:
  assumes "hover_run p ptr h" "ptr \<noteq> Outside"
  shows "(p \<noteq> Mode_Popup \<longrightarrow> hv_timers h = [])
     \<and> (\<exists>h' k. hover_run Mode_Popup On_Item h' \<and> hv_shown h' \<and> k \<in> set (hv_timers h') \<and> hv_ref h' \<noteq> Some k
          \<and> \<not> hv_shown (hover_do Mode_Popup (Hide_Due k) h'))"
proof (intro conjI impI)
  assume "p \<noteq> Mode_Popup"
  then show "hv_timers h = []" using hover_held [OF assms(1)] assms(2) by (simp add: timers_held_def)
next
  have "hv_shown left_twice" "0 \<in> set (hv_timers left_twice)" "hv_ref left_twice \<noteq> Some 0"
    "\<not> hv_shown (hover_do Mode_Popup (Hide_Due 0) left_twice)"
    by code_simp+
  with left_twice_run show "\<exists>h' k. hover_run Mode_Popup On_Item h' \<and> hv_shown h' \<and> k \<in> set (hv_timers h') \<and> hv_ref h' \<noteq> Some k
          \<and> \<not> hv_shown (hover_do Mode_Popup (Hide_Due k) h')" by blast
qed

theorem popups_under_pointer_witness:
  "hv_timers (hover_do Agents_Popup Item_Entered (hover_do Agents_Popup Item_Left (hover_do Agents_Popup Item_Entered hover_init))) = []"
proof -
  have "hover_run Agents_Popup On_Item
     (hover_do Agents_Popup Item_Entered (hover_do Agents_Popup Item_Left (hover_do Agents_Popup Item_Entered hover_init)))"
    by (intro hover_run.enter hover_run.leave hover_run.begin_hover)
  from popups_under_pointer [OF this] show ?thesis by simp
qed

lemma bar_fields [simp]:
  "active_agents (s\<lparr>sb_more := b\<rparr>) = active_agents s" "active_agents (s\<lparr>sb_tools_popup := b\<rparr>) = active_agents s"
  "active_agents (s\<lparr>sb_agents_popup := h\<rparr>) = active_agents s" "active_agents (s\<lparr>sb_visible := v\<rparr>) = active_agents s"
  "selected_agent_info (s\<lparr>sb_more := b\<rparr>) = selected_agent_info s" "selected_agent_info (s\<lparr>sb_tools_popup := b\<rparr>) = selected_agent_info s"
  "selected_agent_info (s\<lparr>sb_agents_popup := h\<rparr>) = selected_agent_info s" "selected_agent_info (s\<lparr>sb_visible := v\<rparr>) = selected_agent_info s"
  by (simp_all add: active_agents_def selected_agent_info_def split: option.splits)

lemma panel_fields [simp]:
  "agents_panel (s\<lparr>sb_more := b\<rparr>) = agents_panel s" "agents_panel (s\<lparr>sb_tools_popup := b\<rparr>) = agents_panel s"
  "agents_panel (s\<lparr>sb_agents_popup := h\<rparr>) = agents_panel s" "agents_panel (s\<lparr>sb_visible := v\<rparr>) = agents_panel s"
  "group_views (s\<lparr>sb_more := b\<rparr>) = group_views s" "group_views (s\<lparr>sb_tools_popup := b\<rparr>) = group_views s"
  "group_views (s\<lparr>sb_agents_popup := h\<rparr>) = group_views s" "group_views (s\<lparr>sb_visible := v\<rparr>) = group_views s"
  by (cases "sb_mode s"; simp add: agents_panel_def group_views_def)+

lemma overflow_fields [simp]:
  "overflow_items (s\<lparr>sb_more := b\<rparr>) = overflow_items s" "overflow_items (s\<lparr>sb_tools_popup := b\<rparr>) = overflow_items s"
  "overflow_items (s\<lparr>sb_agents_popup := h\<rparr>) = overflow_items s"
  by (cases "sb_mode s"; simp add: overflow_items_def)+

lemma overflow_complement:
  "Connection_Item \<notin> fst ` set (overflow_items s)"
  "i \<noteq> Connection_Item \<Longrightarrow> i \<in> fst ` set (overflow_items s) \<longleftrightarrow> i \<notin> set (sb_visible s)"
  by (cases i; auto simp: overflow_items_def)+

lemma overflow_distinct: "distinct (map fst (overflow_items s))"
  by (simp add: overflow_items_def)

text \<open>
  Whatever the width, the tools, the mode and the agents are each either in the bar or in
  the menu of the others, once.  Choosing an entry of the menu does nothing but close the
  menu: the popup it asks for is part of an item that is not in the bar.  Only when the bar is
  made wide enough does the popup of the agents appear.
\<close>

theorem more_menu_only_closes:
  assumes "w = update_visible_items width s" "bar_allows m (More_Click i)" "m = w\<lparr>sb_more := True\<rparr>"
  shows "distinct (map fst (overflow_items w))
     \<and> (\<forall>j. j \<noteq> Connection_Item \<longrightarrow> (j \<in> set (sb_visible w) \<longleftrightarrow> j \<notin> fst ` set (overflow_items w)))
     \<and> draw_bar (bar_do (More_Click i) m) = (draw_bar m)\<lparr>bv_more := Some None\<rparr>
     \<and> (i = Agents_Item \<longrightarrow> bv_agents (draw_bar (bar_do (Bar_Resized 801) (bar_do (More_Click i) m)))
          = Some (sb_mode m, if sb_mode m = Supervisor then Some (length (active_agents m)) else None, Some (agents_panel m)))"
proof (intro conjI impI allI)
  have vis: "sb_visible m = sb_visible w" using assms(3) by simp
  have i: "i \<in> fst ` set (overflow_items m)" using assms(2) by simp
  show "draw_bar (bar_do (More_Click i) m) = (draw_bar m)\<lparr>bv_more := Some None\<rparr>"
  proof (cases i)
    case Tools_Item
    then have "Tools_Item \<notin> set (sb_visible m)" using i overflow_complement(2) [of Tools_Item m] by simp
    then show ?thesis using Tools_Item i by (auto simp: draw_defs)
  next
    case Mode_Item
    then have "Mode_Item \<notin> set (sb_visible m)" using i overflow_complement(2) [of Mode_Item m] by simp
    then show ?thesis using Mode_Item i by (auto simp: draw_defs toggle_mode_def)
  next
    case Agents_Item
    then have "Agents_Item \<notin> set (sb_visible m)" using i overflow_complement(2) [of Agents_Item m] by simp
    then show ?thesis using Agents_Item i by (auto simp: draw_defs)
  next
    case Connection_Item
    then show ?thesis using i overflow_complement(1) [of m] by simp
  qed
  assume "i = Agents_Item"
  then show "bv_agents (draw_bar (bar_do (Bar_Resized 801) (bar_do (More_Click i) m)))
      = Some (sb_mode m, if sb_mode m = Supervisor then Some (length (active_agents m)) else None, Some (agents_panel m))"
    by (simp add: draw_defs update_visible_items_def)
qed (auto simp: overflow_distinct overflow_complement(2))

theorem more_menu_only_closes_witness:
  "\<exists>s. Agents_Item \<in> fst ` set (overflow_items s) \<and> draw_bar (bar_do (More_Click Agents_Item) s) = (draw_bar s)\<lparr>bv_more := Some None\<rparr>"
proof -
  let ?w = "update_visible_items 500 status_bar_init"
  let ?m = "?w\<lparr>sb_more := True\<rparr>"
  have a: "bar_allows ?m (More_Click Agents_Item)" by code_simp
  have "draw_bar (bar_do (More_Click Agents_Item) ?m) = (draw_bar ?m)\<lparr>bv_more := Some None\<rparr>"
    using more_menu_only_closes [OF refl a refl] by blast
  moreover have "Agents_Item \<in> fst ` set (overflow_items ?m)" using a by simp
  ultimately show ?thesis by blast
qed

text \<open>Posts of a run: what the server has been told is what the bar shows.\<close>

definition told :: "status_bar \<Rightarrow> bar_request list \<Rightarrow> status_bar \<Rightarrow> bool" where
  "told s new s' \<longleftrightarrow>
     sb_requests s' = sb_requests s @ new
     \<and> (\<forall>r \<in> set new. \<exists>as. r = Post_Sub_Agents as Supervisor (sb_selected s))
     \<and> (if new = [] then sb_agents s' = sb_agents s else last new = Post_Sub_Agents (sb_agents s') Supervisor (sb_selected s))
     \<and> sb_mode s' = Supervisor \<and> sb_selected s' = sb_selected s \<and> \<not> sb_selector s'"

lemma told_step:
  assumes "told s new s1" "bar_allows s1 ev" "\<And>r. ev \<noteq> Sub_Agents_Loaded r"
  shows "\<exists>more. told s more (bar_do ev s1)"
proof (cases "\<exists>n. ev = Agent_Click n")
  case True
  then obtain n where n: "ev = Agent_Click n" by blast
  have "told s (new @ [Post_Sub_Agents (sb_agents (bar_do ev s1)) Supervisor (sb_selected s)]) (bar_do ev s1)"
    using assms(1) by (auto simp: n told_def toggle_agent_enabled_def bar_send_def Let_def)
  then show ?thesis by blast
next
  case False
  have "told s new (bar_do ev s1)"
  proof (cases ev)
    case (Popup_Hover p e)
    then show ?thesis using assms(1) by (cases p) (simp_all add: told_def)
  next
    case (More_Click i)
    then show ?thesis using assms(1) by (cases i) (simp_all add: told_def toggle_mode_def)
  qed (use False assms in \<open>auto simp: told_def agents_shown_def tools_loaded_def check_input_empty_def update_visible_items_def
        cancel_agent_selection_def split: option.splits\<close>)
  then show ?thesis by blast
qed

text \<open>
  From the mode of the supervisor no way leads back to a single agent but another reply of
  the server: whatever the user does, the mode stays, no change of mode is posted, and each
  change of the agents is posted whole, so that what the server was last told is
  what the bar shows.
\<close>

theorem supervisor_mode_stays:
  assumes "bar_run s evs s'" "sb_mode s = Supervisor" "\<not> sb_selector s" "\<forall>r. Sub_Agents_Loaded r \<notin> set evs"
  shows "\<exists>new. told s new s'"
  using assms
proof (induction rule: bar_run.induct)
  case (begin_bar s)
  then have "told s [] s" by (simp add: told_def)
  then show ?case by blast
next
  case (next_event s evs s1 ev)
  then obtain new where "told s new s1" by auto
  then show ?case using told_step [of s new s1 ev] next_event by auto
qed

theorem supervisor_mode_stays_witness:
  "\<exists>new s'. told (status_bar_init\<lparr>sb_agents := [\<lparr>sa_name = ''crm'', sa_role = ''r'', sa_enabled = True\<rparr>]\<rparr>) new s' \<and> length new = 1"
proof -
  let ?a = "\<lparr>sa_name = ''crm'', sa_role = ''r'', sa_enabled = True\<rparr>"
  let ?s = "status_bar_init\<lparr>sb_agents := [?a]\<rparr>"
  let ?evs = "[Popup_Hover Agents_Popup Item_Entered, Agent_Click ''crm'']"
  let ?s' = "bar_do (Agent_Click ''crm'') (bar_do (Popup_Hover Agents_Popup Item_Entered) ?s)"
  have "bar_run ?s ([] @ [Popup_Hover Agents_Popup Item_Entered]) (bar_do (Popup_Hover Agents_Popup Item_Entered) ?s)"
    by (rule bar_run.next_event [OF bar_run.begin_bar]) simp
  then have r: "bar_run ?s (([] @ [Popup_Hover Agents_Popup Item_Entered]) @ [Agent_Click ''crm'']) ?s'"
    by (rule bar_run.next_event) (simp add: agents_shown_def status_bar_init_def item_entered_def)
  obtain new where n: "told ?s new ?s'"
    using supervisor_mode_stays [OF r] by (auto simp: status_bar_init_def)
  have "length (sb_requests ?s') = Suc (length (sb_requests ?s))"
    by (simp add: toggle_agent_enabled_def bar_send_def Let_def)
  then have "length new = 1" using n by (simp add: told_def)
  with n show ?thesis by blast
qed

end
