(* ===== verification/App_Shell.thy ===== *)
theory App_Shell
  imports Chat_Input Card_State
begin

text \<open>
  The page around the older chat, \<open>agentic_chat/src/App.tsx\<close>: when its panels are
  there, what it keeps of the variables, and the left sidebar, \<open>LeftSidebar.tsx\<close>, with
  the list of conversations and \<open>VariablesSidebar.tsx\<close> and \<open>VariablePopup.tsx\<close>.  It
  hears the chat of \<open>Chat_Input\<close> when a message is sent and the cards of \<open>Card_State\<close>
  when their variables change.  Clocks, the printing of times and JSON are arguments.
\<close>

section \<open>The list of conversations\<close>

record conversation =
  cv_id :: string
  cv_title :: string
  cv_time :: rat
  cv_preview :: string

record saved_flow =
  sf_id :: string
  sf_name :: string

datatype side_tab = Conversations_Tab | Variables_Tab | Flows_Tab

datatype side_request =
    Get_Conversations
  | Get_Flows
  | Post_Conversation string rat
  | Delete_Conversation string

record left_sidebar =
  ls_expanded :: bool
  ls_conversations :: "conversation list"
  ls_selected :: "string option"
  ls_flows :: "saved_flow list"
  ls_panel :: bool                       \<comment> \<open>the variables are expanded\<close>
  ls_variable :: "(string \<times> jv) list option"   \<comment> \<open>the variable whose details are open\<close>
  ls_requests :: "side_request list"

definition enable_chat_history :: bool where "enable_chat_history = False"
definition enable_saved_flows :: bool where "enable_saved_flows = False"

definition sidebar_mounted :: "bool \<Rightarrow> left_sidebar" where
  "sidebar_mounted collapsed = \<lparr>ls_expanded = \<not> collapsed, ls_conversations = [], ls_selected = None, ls_flows = [],
     ls_panel = True, ls_variable = None, ls_requests = [Get_Conversations, Get_Flows]\<rparr>"

text \<open>The panel of the variables starts anew when it was not drawn.\<close>

definition expand_sidebar :: "bool \<Rightarrow> left_sidebar \<Rightarrow> left_sidebar" where
  "expand_sidebar b l = l\<lparr>ls_expanded := b, ls_panel := True, ls_variable := None\<rparr>"

definition conversations_loaded :: "conversation list option \<Rightarrow> left_sidebar \<Rightarrow> left_sidebar" where
  "conversations_loaded r l = (case r of Some cs \<Rightarrow> l\<lparr>ls_conversations := cs\<rparr> | None \<Rightarrow> l)"

definition flows_loaded :: "saved_flow list option option \<Rightarrow> left_sidebar \<Rightarrow> left_sidebar" where
  "flows_loaded r l = l\<lparr>ls_flows := (case r of Some (Some fs) \<Rightarrow> fs | _ \<Rightarrow> [])\<rparr>"

definition new_title :: "string \<Rightarrow> string" where
  "new_title t = (if t \<noteq> [] then t else ''New Conversation'')"

definition create_conversation :: "(rat \<Rightarrow> string) \<Rightarrow> rat \<Rightarrow> string \<Rightarrow> left_sidebar \<Rightarrow> left_sidebar" where
  "create_conversation num now title l =
     (let c = \<lparr>cv_id = ''conv-'' @ num now, cv_title = new_title title, cv_time = now, cv_preview = []\<rparr>
      in l\<lparr>ls_conversations := c # ls_conversations l, ls_selected := Some (cv_id c),
           ls_requests := ls_requests l @ [Post_Conversation (new_title title) now]\<rparr>)"

text \<open>The server's conversation takes the place of the local one, under the local identifier.\<close>

definition conversation_synced :: "string \<Rightarrow> conversation option \<Rightarrow> left_sidebar \<Rightarrow> left_sidebar" where
  "conversation_synced ident r l =
     (case r of
        Some c \<Rightarrow> l\<lparr>ls_conversations := map (\<lambda>x. if cv_id x = ident then c\<lparr>cv_id := ident\<rparr> else x) (ls_conversations l)\<rparr>
      | None \<Rightarrow> l)"

definition ask_deletion :: "string \<Rightarrow> left_sidebar \<Rightarrow> left_sidebar" where
  "ask_deletion ident l = l\<lparr>ls_requests := ls_requests l @ [Delete_Conversation ident]\<rparr>"

text \<open>The answer writes the list the click has seen, without the deleted one.\<close>

definition conversation_deleted ::
  "string \<Rightarrow> conversation list \<Rightarrow> string option \<Rightarrow> bool \<Rightarrow> left_sidebar \<Rightarrow> left_sidebar" where
  "conversation_deleted ident seen seen_selected ok l =
     (if ok
      then l\<lparr>ls_conversations := filter (\<lambda>c. cv_id c \<noteq> ident) seen,
             ls_selected := (if seen_selected = Some ident then None else ls_selected l)\<rparr>
      else l)"

section \<open>The variables\<close>

record variable_env =
  ve_num :: "rat \<Rightarrow> string"
  ve_time :: "rat \<Rightarrow> string"
  ve_parse :: "string \<Rightarrow> exn + jv"
  ve_pretty :: "jv \<Rightarrow> string"
  ve_marked :: "string \<Rightarrow> string"

record shown_variable =
  vr_name :: string
  vr_type :: jv
  vr_description :: jv
  vr_items :: jv
  vr_preview :: string

definition value_preview :: "jv \<Rightarrow> exn + string" where
  "value_preview v =
     (if \<not> truthy v then Inr []
      else case v of
             JStr s \<Rightarrow> Inr (take 80 s @ (if 80 < length s then ''...'' else []))
           | _ \<Rightarrow> Inl ''variable.value_preview.substring is not a function'')"

definition variable_row :: "string \<times> jv \<Rightarrow> exn + shown_variable" where
  "variable_row x =
     (case x of (n, v) \<Rightarrow>
        try_bind (get_prop v ''type'') (\<lambda>t.
        try_bind (value_preview (fld v ''value_preview'')) (\<lambda>p.
          let items = fld v ''count_items''
          in Inr \<lparr>vr_name = n, vr_type = t,
                  vr_description = (if truthy (fld v ''description'') then fld v ''description'' else JUndef),
                  vr_items = (if items \<noteq> JUndef \<and> 1 < js_num items then items else JUndef), vr_preview = p\<rparr>)))"

definition turn_label :: "variable_env \<Rightarrow> turn \<Rightarrow> string" where
  "turn_label V e =
     (let n = length (obj_fields (tu_variables e))
      in tu_title e @ '' - '' @ show_nat n @ '' variable'' @ (if n \<noteq> 1 then ''s'' else []) @ '' ('' @ ve_time V (tu_time e) @ '')'')"

datatype variables_body = No_Variables | Variable_Rows "shown_variable list"

record variables_view =
  vv_count :: nat
  vv_turns :: "(string \<times> string) list"
  vv_viewing :: "(string \<times> nat) option"
  vv_body :: "variables_body option"
  vv_toggle :: bool

definition viewing_title :: "turn list \<Rightarrow> string option \<Rightarrow> string" where
  "viewing_title history selected =
     (case find (\<lambda>h. Some (tu_id h) = selected) history of
        Some h \<Rightarrow> if tu_title h \<noteq> [] then tu_title h else ''Latest turn''
      | None \<Rightarrow> ''Latest turn'')"

text \<open>\<open>VariablesSidebar\<close>; nothing when there is neither a variable nor a turn.\<close>

definition draw_variables ::
  "variable_env \<Rightarrow> jv \<Rightarrow> turn list \<Rightarrow> string option \<Rightarrow> bool \<Rightarrow> exn + variables_view option" where
  "draw_variables V vars history selected expanded =
     (let fs = obj_fields vars
      in if fs = [] \<and> history = [] then Inr None
         else if \<not> expanded
         then Inr (Some \<lparr>vv_count = length fs, vv_turns = [], vv_viewing = None, vv_body = None, vv_toggle = True\<rparr>)
         else try_bind (if fs = [] then Inr No_Variables
                        else try_bind (try_map variable_row fs) (\<lambda>rows. Inr (Variable_Rows rows))) (\<lambda>b.
           Inr (Some \<lparr>vv_count = length fs, vv_turns = map (\<lambda>e. (tu_id e, turn_label V e)) history,
             vv_viewing = (if history \<noteq> [] then Some (viewing_title history selected, length history) else None),
             vv_body = Some b, vv_toggle = False\<rparr>)))"

text \<open>The details of a variable and its download; a dictionary that is no JSON goes as Markdown.\<close>

definition nl2 :: string where "nl2 = [newline, newline]"

definition variable_text :: "variable_env \<Rightarrow> string \<Rightarrow> string \<Rightarrow> jv \<Rightarrow> string" where
  "variable_text V head_line type_line v =
     head_line @ nl2 @ type_line @ nl2
     @ (if truthy (fld v ''description'')
        then ''**Description:** '' @ js_to_string (ve_num V) (fld v ''description'') @ nl2 else [])
     @ ''**Value:**'' @ [newline] @ ''```'' @ [newline] @ js_to_string (ve_num V) (fld v ''value_preview'') @ [newline] @ ''```''"

definition popup_html :: "variable_env \<Rightarrow> jv \<Rightarrow> string" where
  "popup_html V v =
     (let s = (\<lambda>k. js_to_string (ve_num V) (fld v k))
      in ve_marked V (variable_text V (''## '' @ s ''name'')
           (''**Type:** `'' @ s ''type'' @ ''`'' @ (if truthy (fld v ''count_items'') then '' ('' @ s ''count_items'' @ '' items)'' else [])) v))"

definition variable_download :: "variable_env \<Rightarrow> jv \<Rightarrow> string \<times> string" where
  "variable_download V v =
     (let s = (\<lambda>k. js_to_string (ve_num V) (fld v k));
          markdown = (s ''name'' @ ''.md'', variable_text V (''# Variable: '' @ s ''name'') (''**Type:** '' @ s ''type'') v)
      in if fld v ''type'' = JStr ''dict''
         then (case ve_parse V (s ''value_preview'') of
                 Inr data \<Rightarrow> (s ''name'' @ ''.json'', ve_pretty V data)
               | Inl e \<Rightarrow> markdown)
         else markdown)"

definition open_variable :: "string \<times> jv \<Rightarrow> left_sidebar \<Rightarrow> left_sidebar" where
  "open_variable x l = l\<lparr>ls_variable := Some (spread [(''name'', JStr (fst x))] (snd x))\<rparr>"

section \<open>The left sidebar\<close>

datatype sidebar_body =
    Conversation_List "(string \<times> string \<times> string \<times> bool) list"
  | Variables_Body "variables_view option"
  | Flow_List "(string \<times> string) list"
  | Blank_Body

datatype sidebar_view =
    Collapsed_Sidebar nat
  | Open_Sidebar "side_tab list" sidebar_body "string option"

definition draw_sidebar ::
  "variable_env \<Rightarrow> side_tab \<Rightarrow> jv \<Rightarrow> turn list \<Rightarrow> string option \<Rightarrow> left_sidebar \<Rightarrow> exn + sidebar_view" where
  "draw_sidebar V tab vars history selected l =
     (if \<not> ls_expanded l then Inr (Collapsed_Sidebar (length (ls_conversations l)))
      else
        let tabs = (if enable_chat_history then [Conversations_Tab] else []) @ [Variables_Tab]
                   @ (if enable_saved_flows then [Flows_Tab] else []);
            details = map_option (\<lambda>v. popup_html V (JObj v)) (ls_variable l)
        in if enable_chat_history \<and> tab = Conversations_Tab
           then Inr (Open_Sidebar tabs (Conversation_List
                  (map (\<lambda>c. (cv_id c, cv_title c, cv_preview c, ls_selected l = Some (cv_id c))) (ls_conversations l))) None)
           else if tab = Variables_Tab
           then try_bind (draw_variables V vars history selected (ls_panel l)) (\<lambda>b.
                  Inr (Open_Sidebar tabs (Variables_Body b) (if b = None then None else details)))
           else if enable_saved_flows \<and> tab = Flows_Tab
           then Inr (Open_Sidebar tabs (Flow_List (map (\<lambda>f. (sf_id f, sf_name f)) (ls_flows l))) None)
           else Inr (Open_Sidebar tabs Blank_Body None))"

section \<open>The page\<close>

record shell =
  sh_started :: bool
  sh_url_advanced :: bool
  sh_tab :: side_tab
  sh_globals :: jv
  sh_history :: "turn list"
  sh_selected :: "string option"
  sh_previous :: "nat \<times> nat"          \<comment> \<open>variables and turns of the last update\<close>
  sh_heard :: "nat \<times> nat"             \<comment> \<open>what the handler the chat listens with has seen of them\<close>
  sh_workspace :: bool
  sh_collapsed :: bool
  sh_highlighted :: "string option"
  sh_thread :: string
  sh_side :: "left_sidebar option"     \<comment> \<open>there once the chat has started\<close>

definition mount_side :: "bool \<Rightarrow> bool \<Rightarrow> left_sidebar option \<Rightarrow> left_sidebar option" where
  "mount_side started collapsed side =
     (if started then (case side of Some l \<Rightarrow> Some l | None \<Rightarrow> Some (sidebar_mounted collapsed)) else None)"

definition shell_init :: "bool \<Rightarrow> shell" where
  "shell_init advanced = \<lparr>sh_started = advanced, sh_url_advanced = advanced, sh_tab = Conversations_Tab, sh_globals = JObj [],
     sh_history = [], sh_selected = None, sh_previous = (0, 0), sh_heard = (0, 0), sh_workspace = True, sh_collapsed = False,
     sh_highlighted = None, sh_thread = [], sh_side = mount_side advanced False None\<rparr>"

text \<open>The tab changes when there is more than the callback has seen.\<close>

definition handle_variables_update :: "nat \<times> nat \<Rightarrow> jv \<Rightarrow> turn list \<Rightarrow> shell \<Rightarrow> shell" where
  "handle_variables_update seen vars history s =
     (let nv = length (obj_fields vars); nh = length history
      in s\<lparr>sh_globals := vars, sh_history := history,
           sh_tab := (if fst seen < nv \<or> snd seen < nh then Variables_Tab else sh_tab s),
           sh_previous := (nv, nh)\<rparr>)"

text \<open>The chat listens with the callback of its first rendering.\<close>

definition variables_event :: "jv \<Rightarrow> turn list \<Rightarrow> shell \<Rightarrow> shell" where
  "variables_event vars history s = handle_variables_update (sh_heard s) vars history s"

definition message_title :: "string \<Rightarrow> string" where
  "message_title m = (if 50 < length m then take 50 m @ ''...'' else m)"

definition handle_message_sent :: "(rat \<Rightarrow> string) \<Rightarrow> rat \<Rightarrow> string \<Rightarrow> shell \<Rightarrow> shell" where
  "handle_message_sent num now m s =
     s\<lparr>sh_side := map_option (create_conversation num now (message_title m)) (sh_side s), sh_tab := Conversations_Tab\<rparr>"

definition handle_chat_started :: "bool \<Rightarrow> shell \<Rightarrow> shell" where
  "handle_chat_started b s =
     s\<lparr>sh_started := b, sh_url_advanced := sh_url_advanced s \<or> b, sh_side := mount_side b (sh_collapsed s) (sh_side s)\<rparr>"

definition toggle_left_sidebar :: "shell \<Rightarrow> shell" where
  "toggle_left_sidebar s =
     s\<lparr>sh_collapsed := \<not> sh_collapsed s, sh_side := map_option (expand_sidebar (sh_collapsed s)) (sh_side s)\<rparr>"

definition toggle_workspace :: "shell \<Rightarrow> shell" where
  "toggle_workspace s = s\<lparr>sh_workspace := \<not> sh_workspace s\<rparr>"

definition autocomplete_opened :: "shell \<Rightarrow> shell" where
  "autocomplete_opened s = s\<lparr>sh_workspace := True\<rparr>"

definition select_answer :: "string \<Rightarrow> shell \<Rightarrow> shell" where
  "select_answer i s = s\<lparr>sh_selected := Some i\<rparr>"

definition choose_tab :: "side_tab \<Rightarrow> shell \<Rightarrow> shell" where
  "choose_tab t s = s\<lparr>sh_tab := t, sh_side := map_option (\<lambda>l. if t = Variables_Tab then l else expand_sidebar (ls_expanded l) l) (sh_side s)\<rparr>"

definition draw_side :: "variable_env \<Rightarrow> shell \<Rightarrow> exn + sidebar_view option" where
  "draw_side V s =
     (case sh_side s of
        None \<Rightarrow> Inr None
      | Some l \<Rightarrow> try_bind (draw_sidebar V (sh_tab s) (sh_globals s) (sh_history s) (sh_selected s) l) (\<lambda>v. Inr (Some v)))"

text \<open>The cards of a new message tell that they have no variables.\<close>

definition cards_mounted :: "shell \<Rightarrow> shell" where
  "cards_mounted s = variables_event (JObj []) [] s"

text \<open>
  A message that is sent: the chat tells the page while the page is still as it was.  When the
  chat has been rendered again, with the cards of the answer, the effects of the cards and
  the one that says the chat has started run.
\<close>

definition send_and_tell ::
  "(rat \<Rightarrow> string) \<Rightarrow> rat \<Rightarrow> bool \<Rightarrow> string \<Rightarrow> chat_state \<times> shell \<Rightarrow> chat_state \<times> shell" where
  "send_and_tell num now seen thread cs =
     (let (c, s) = cs; c1 = handle_send seen thread c
      in if trim (content_text (ch_input c)) = [] \<or> seen then (c1, s)
         else (c1, (if ch_started c1 \<noteq> ch_started c then handle_chat_started (ch_started c1) else id)
                     (cards_mounted (handle_message_sent num now (processed_text (ch_input c)) s))))"

text \<open>The cards of a message tell their variables after each change of their steps.\<close>

definition cards_tell ::
  "(string \<Rightarrow> exn + jv) \<Rightarrow> (jv \<Rightarrow> string) \<Rightarrow> card_step list \<Rightarrow> variable_state \<times> shell \<Rightarrow> variable_state \<times> shell" where
  "cards_tell parse stringify sts vs =
     (let v1 = update_variables parse stringify sts (fst vs)
      in (v1, if v1 = fst vs then snd vs else variables_event (va_global v1) (va_history v1) (snd vs)))"

section \<open>Properties\<close>

lemma mounted_requests: "ls_requests (sidebar_mounted b) = [Get_Conversations, Get_Flows]"
  "ls_conversations (sidebar_mounted b) = []"
  by (simp_all add: sidebar_mounted_def)

text \<open>
  A message sent in a chat that has started is put at the front of the conversations, under
  its first fifty characters, and posted; the first message, which starts the chat, is
  not, because the sidebar that keeps them is not there yet.  Either way the page forgets
  the variables of the earlier answers, and its sidebar shows the tab of the
  conversations, which draws nothing.
\<close>

theorem sent_message_listed:
  assumes "trim (content_text (ch_input c)) \<noteq> []" "ch_started c = sh_started s"
    and side: "sh_side s = (if sh_started s then Some l else None)"
    and out: "send_and_tell num now False thread (c, s) = (c', s')"
  shows "ch_started c' \<and> sh_started s' \<and> sh_tab s' = Conversations_Tab \<and> sh_globals s' = JObj [] \<and> sh_history s' = []
     \<and> (sh_started s \<longrightarrow> sh_side s' = Some (create_conversation num now (message_title (processed_text (ch_input c))) l)
          \<and> draw_side V s' = Inr (Some (if ls_expanded l then Open_Sidebar [Variables_Tab] Blank_Body None
               else Collapsed_Sidebar (Suc (length (ls_conversations l))))))
     \<and> (\<not> sh_started s \<longrightarrow> sh_side s' = Some (sidebar_mounted (sh_collapsed s))
          \<and> (\<forall>x \<in> set_option (sh_side s'). ls_conversations x = [] \<and> (\<forall>t n. Post_Conversation t n \<notin> set (ls_requests x))))"
proof -
  have c': "c' = handle_send False thread c" "ch_started c'"
    using assms(1) out by (auto simp: send_and_tell_def handle_send_def Let_def)
  have s': "s' = (if sh_started s then id else handle_chat_started True)
      (cards_mounted (handle_message_sent num now (processed_text (ch_input c)) s))"
    using assms(1,2) out c' by (auto simp: send_and_tell_def Let_def)
  show ?thesis
  proof (cases "sh_started s")
    case True
    then show ?thesis using c' s' side
      by (simp add: handle_message_sent_def cards_mounted_def variables_event_def handle_variables_update_def draw_side_def draw_sidebar_def create_conversation_def Let_def
          enable_chat_history_def enable_saved_flows_def)
  next
    case False
    then show ?thesis using c' s' side
      by (simp add: handle_message_sent_def cards_mounted_def variables_event_def handle_variables_update_def handle_chat_started_def mount_side_def mounted_requests)
  qed
qed

theorem sent_message_listed_witness:
  "sh_side (snd (send_and_tell (\<lambda>_. ''0'') 0 False ''t'' (chat_init ''t'' False\<lparr>ch_input := [Txt ''hi'']\<rparr>, shell_init False)))
     = Some (sidebar_mounted False)"
proof -
  let ?c = "chat_init ''t'' False\<lparr>ch_input := [Txt ''hi'']\<rparr>" and ?s = "shell_init False"
  obtain c' s' where o: "send_and_tell (\<lambda>_. ''0'') 0 False ''t'' (?c, ?s) = (c', s')" by fastforce
  have "trim (content_text (ch_input ?c)) \<noteq> []" by (simp add: content_text_def trim_def trim_start_def is_ws_def)
  from sent_message_listed [OF this _ _ o, of "sidebar_mounted False"] have "sh_side s' = Some (sidebar_mounted False)"
    by (simp add: chat_init_def shell_init_def mount_side_def)
  then show ?thesis by (simp only: o snd_conv)
qed

text \<open>The first update of the cards selects their last turn, which later updates keep.\<close>

definition cards_start :: variable_state where
  "cards_start = \<lparr>va_history = [], va_selected = None, va_global = JObj []\<rparr>"

definition viewed :: "exn + sidebar_view option \<Rightarrow> variables_view option" where
  "viewed d = (case d of Inr (Some (Open_Sidebar _ (Variables_Body b) _)) \<Rightarrow> b | _ \<Rightarrow> None)"

lemma turns_from_append:
  "turns_from parse k (xs @ ys) = turns_from parse k xs @ turns_from parse (k + length (turns_from parse k xs)) ys"
  by (induction xs arbitrary: k) (auto split: option.splits)

lemma turns_have_variables: "e \<in> set (turns_from parse k sts) \<Longrightarrow> obj_fields (tu_variables e) \<noteq> []"
  by (induction sts arbitrary: k) (auto simp: step_variables_def Let_def split: option.splits if_splits)

lemma first_with_id:
  "distinct (map tu_id hs) \<Longrightarrow> e \<in> set hs \<Longrightarrow> find (\<lambda>h. Some (tu_id h) = Some (tu_id e)) hs = Some e"
  by (induction hs) auto

lemma filter_with_id: "distinct (map tu_id hs) \<Longrightarrow> e \<in> set hs \<Longrightarrow> filter (\<lambda>h. tu_id h = tu_id e) hs = [e]"
  by (induction hs) (auto simp: filter_empty_conv, metis imageI)

lemma distinct_turns: "distinct (map kd_id sts) \<Longrightarrow> distinct (map tu_id (turns_from parse k sts))"
  unfolding turns_from_ids by (rule distinct_map_filter)

lemma turn_titles_filled: "e \<in> set (turns_from parse k sts) \<Longrightarrow> tu_title e \<noteq> []"
  by (induction sts arbitrary: k) (auto split: option.splits)

lemma first_update:
  assumes "turns_from parse 0 sts \<noteq> []" "distinct (map kd_id sts)"
  shows "fst (cards_tell parse stringify sts (cards_start, s)) =
     \<lparr>va_history = turns_from parse 0 sts, va_selected = Some (tu_id (last (turns_from parse 0 sts))),
      va_global = tu_variables (last (turns_from parse 0 sts))\<rparr>"
proof -
  let ?n = "turns_from parse 0 sts"
  have d: "distinct (map tu_id ?n)" using assms(2) by (rule distinct_turns)
  have "history_changed stringify [] ?n" using assms(1) by (simp add: history_changed_def)
  moreover have "select_turn ?n [] None = Some (tu_id (last ?n))" using assms(1) by (simp add: select_turn_def)
  ultimately show ?thesis using filter_with_id [OF d last_in_set [OF assms(1)]]
    by (simp add: cards_tell_def update_variables_def cards_start_def global_variables_def Let_def)
qed

lemma later_update:
  assumes "turns_from parse 0 sts \<noteq> []" "distinct (map kd_id (sts @ later_sts))"
    "v1 = fst (cards_tell parse stringify sts (cards_start, s))" "v2 = update_variables parse stringify (sts @ later_sts) v1"
  shows "va_global v2 = tu_variables (last (turns_from parse 0 sts))"
    "va_selected v2 = Some (tu_id (last (turns_from parse 0 sts)))"
    "length (va_history v2) = length (turns_from parse 0 (sts @ later_sts))"
    "va_history v2 = turns_from parse 0 (sts @ later_sts) \<or> va_history v2 = turns_from parse 0 sts"
proof -
  let ?n = "turns_from parse 0 sts" and ?m = "turns_from parse 0 (sts @ later_sts)"
  have v1: "v1 = \<lparr>va_history = ?n, va_selected = Some (tu_id (last ?n)), va_global = tu_variables (last ?n)\<rparr>"
    using first_update [of parse sts stringify s] assms by simp
  have d: "distinct (map tu_id ?n)" "distinct (map tu_id ?m)"
    using distinct_turns [OF assms(2)] assms(2) by (auto intro: distinct_turns)
  have l: "last ?n \<in> set ?n" "last ?n \<in> set ?m" using assms(1) by (simp_all add: turns_from_append)
  then have "list_ex (\<lambda>e. tu_id e = tu_id (last ?n)) ?m" "?m \<noteq> []" by (auto simp: list_ex_iff)
  then have sel: "select_turn ?m ?n (Some (tu_id (last ?n))) = Some (tu_id (last ?n))" by (simp add: select_turn_def)
  then show "va_selected v2 = Some (tu_id (last ?n))" by (simp add: assms(4) v1 update_variables_def Let_def)
  show "va_global v2 = tu_variables (last ?n)"
    using filter_with_id [OF d(1) l(1)] filter_with_id [OF d(2) l(2)] sel
    by (simp add: assms(4) v1 update_variables_def global_variables_def Let_def)
  show "va_history v2 = ?m \<or> va_history v2 = ?n" by (simp add: assms(4) v1 update_variables_def Let_def)
  show "length (va_history v2) = length ?m" by (simp add: assms(4) v1 update_variables_def Let_def history_changed_def)
qed

text \<open>
  However many turns with variables follow the first update of the cards, the sidebar shows
  the variables of the turn that was the last one then: under the title ``Latest turn''
  before a choice, and under the title of whichever turn the user chooses.  And every
  update with a variable changes to the tab of the variables, whether it is new or not.
\<close>

theorem sidebar_variables_stay:
  assumes turns: "turns_from parse 0 sts \<noteq> []" "distinct (map kd_id (sts @ later_sts))"
    and steps: "cards_tell parse stringify sts (cards_start, s) = (v1, s1)"
      "cards_tell parse stringify (sts @ later_sts) (v1, s1) = (v2, s2)"
    and heard: "sh_heard s = (0, 0)"
    and side: "sh_side s = Some l" "ls_expanded l" "ls_panel l"
    and rows: "try_map variable_row (obj_fields (tu_variables (last (turns_from parse 0 sts)))) = Inr rows"
  shows "(\<forall>u \<in> set (sh_history s2). \<exists>view. viewed (draw_side V (select_answer (tu_id u) s2)) = Some view
          \<and> vv_viewing view = Some (tu_title u, length (turns_from parse 0 (sts @ later_sts)))
          \<and> vv_body view = Some (Variable_Rows rows))
     \<and> (sh_selected s = None \<longrightarrow> (\<exists>view. viewed (draw_side V s2) = Some view
          \<and> vv_viewing view = Some (''Latest turn'', length (turns_from parse 0 (sts @ later_sts)))
          \<and> vv_body view = Some (Variable_Rows rows)))
     \<and> (\<forall>t. sh_tab (variables_event (sh_globals s2) (sh_history s2) (choose_tab t s2)) = Variables_Tab)"
proof -
  let ?n = "turns_from parse 0 sts" and ?m = "turns_from parse 0 (sts @ later_sts)"
  have v1: "v1 = fst (cards_tell parse stringify sts (cards_start, s))" using steps(1) by simp
  have v2: "v2 = update_variables parse stringify (sts @ later_sts) v1" using steps(2) by (simp add: cards_tell_def Let_def)
  note later = later_update [OF turns v1 v2]
  have "v1 = \<lparr>va_history = ?n, va_selected = Some (tu_id (last ?n)), va_global = tu_variables (last ?n)\<rparr>"
    using first_update [of parse sts stringify s] turns v1 by simp
  then have s1: "s1 = variables_event (tu_variables (last ?n)) ?n s" and v1g: "va_global v1 = tu_variables (last ?n)" "va_history v1 = ?n"
    using steps(1) turns(1) by (auto simp: cards_tell_def cards_start_def Let_def split: if_splits)
  have filled: "obj_fields (tu_variables (last ?n)) \<noteq> []"
    using turns_have_variables [OF last_in_set [OF turns(1)]] .
  have s2: "sh_globals s2 = tu_variables (last ?n)" "sh_history s2 = va_history v2" "sh_tab s2 = Variables_Tab" "sh_side s2 = Some l"
      "sh_heard s2 = (0, 0)" "sh_selected s2 = sh_selected s"
    using steps(2) v2 later(1) v1g filled heard side(1)
    by (auto simp: cards_tell_def Let_def s1 variables_event_def handle_variables_update_def)
  have "distinct (map tu_id ?m)" "distinct (map tu_id ?n)"
    using distinct_turns [OF turns(2)] turns(2) by (auto intro: distinct_turns)
  then have hist: "distinct (map tu_id (va_history v2))" "\<forall>u \<in> set (va_history v2). tu_title u \<noteq> []" "va_history v2 \<noteq> []"
    using later(4) turns(1) turn_titles_filled by (auto simp: turns_from_append)
  have view: "viewed (draw_side V (s2\<lparr>sh_selected := sel\<rparr>)) = Some \<lparr>vv_count = length (obj_fields (tu_variables (last ?n))),
      vv_turns = map (\<lambda>e. (tu_id e, turn_label V e)) (va_history v2),
      vv_viewing = Some (viewing_title (va_history v2) sel, length (va_history v2)), vv_body = Some (Variable_Rows rows), vv_toggle = False\<rparr>" for sel
    using s2 side filled rows hist(3)
    by (simp add: viewed_def draw_side_def draw_sidebar_def draw_variables_def enable_chat_history_def enable_saved_flows_def Let_def)
  have titles: "viewing_title (va_history v2) (Some (tu_id u)) = tu_title u" if "u \<in> set (va_history v2)" for u
    using first_with_id [OF hist(1) that] hist(2) that by (simp add: viewing_title_def)
  have "find (\<lambda>h. False) hs = None" for hs :: "turn list" by (induction hs) auto
  then have latest: "viewing_title (va_history v2) None = ''Latest turn''" by (simp add: viewing_title_def)
  show ?thesis
  proof (intro conjI ballI impI allI)
    fix u assume "u \<in> set (sh_history s2)"
    then have "viewing_title (va_history v2) (Some (tu_id u)) = tu_title u" using titles s2(2) by simp
    then show "\<exists>view. viewed (draw_side V (select_answer (tu_id u) s2)) = Some view
        \<and> vv_viewing view = Some (tu_title u, length ?m) \<and> vv_body view = Some (Variable_Rows rows)"
      using view [of "Some (tu_id u)"] later(3) by (simp add: select_answer_def)
  next
    assume "sh_selected s = None"
    moreover have "s2\<lparr>sh_selected := sh_selected s2\<rparr> = s2" by simp
    ultimately have "s2\<lparr>sh_selected := None\<rparr> = s2" using s2(6) by metis
    note none = view [of None, unfolded this]
    show "\<exists>view. viewed (draw_side V s2) = Some view
        \<and> vv_viewing view = Some (''Latest turn'', length ?m) \<and> vv_body view = Some (Variable_Rows rows)"
      unfolding none using later(3) latest by simp
  next
    fix t show "sh_tab (variables_event (sh_globals s2) (sh_history s2) (choose_tab t s2)) = Variables_Tab"
      using s2 filled by (simp add: variables_event_def handle_variables_update_def choose_tab_def)
  qed
qed

theorem sidebar_variables_stay_witness:
  "\<exists>V s view. viewed (draw_side V s) = Some view \<and> vv_viewing view = Some (''Turn 1'', 2)
     \<and> (\<exists>r. vv_body view = Some (Variable_Rows [r]) \<and> vr_name r = ''x'')"
proof -
  let ?parse = "\<lambda>_ :: string. (Inl ''no JSON'' :: exn + jv)" and ?str = "\<lambda>_ :: jv. ([] :: string)"
  let ?V = "\<lparr>ve_num = \<lambda>_. ''0'', ve_time = \<lambda>_. ''now'', ve_parse = ?parse, ve_pretty = ?str, ve_marked = id\<rparr>"
  let ?x = "JObj [(''x'', JObj [(''type'', JStr ''int'')])]" and ?y = "JObj [(''y'', JObj [(''type'', JStr ''str'')])]"
  let ?a = "\<lparr>kd_id = ''a'', kd_title = ''Answer'', kd_content = JObj [(''variables'', ?x)], kd_time = 0, kd_completed = False\<rparr>"
  let ?b = "\<lparr>kd_id = ''b'', kd_title = ''Answer'', kd_content = JObj [(''variables'', ?y)], kd_time = 1, kd_completed = False\<rparr>"
  let ?r = "\<lparr>vr_name = ''x'', vr_type = JStr ''int'', vr_description = JUndef, vr_items = JUndef, vr_preview = []\<rparr>"
  let ?u = "\<lparr>tu_id = ''b'', tu_title = ''Turn 1'', tu_time = 1, tu_variables = ?y\<rparr>"
  let ?one = "cards_tell ?parse ?str [?a] (cards_start, shell_init True)"
  let ?two = "cards_tell ?parse ?str ([?a] @ [?b]) (fst ?one, snd ?one)"
  let ?s2 = "snd ?two"
  have o1: "?one = (fst ?one, snd ?one)" and o2: "?two = (fst ?two, ?s2)" by (rule prod.collapse [symmetric])+
  have t: "turns_from ?parse 0 [?a] \<noteq> []" "length (turns_from ?parse 0 ([?a] @ [?b])) = 2"
    by (simp_all add: step_variables_def content_variables_def)
  have d: "distinct (map kd_id ([?a] @ [?b]))" "sh_heard (shell_init True) = (0, 0)"
    "sh_side (shell_init True) = Some (sidebar_mounted False)" "ls_expanded (sidebar_mounted False)" "ls_panel (sidebar_mounted False)"
    by (simp_all add: shell_init_def mount_side_def sidebar_mounted_def)
  have rows: "try_map variable_row (obj_fields (tu_variables (last (turns_from ?parse 0 [?a])))) = Inr [?r]"
    by (simp add: step_variables_def content_variables_def variable_row_def value_preview_def)
  have "sh_history ?s2 = [\<lparr>tu_id = ''a'', tu_title = ''Turn 0'', tu_time = 0, tu_variables = ?x\<rparr>, ?u]" by code_simp
  then have u: "?u \<in> set (sh_history ?s2)" by simp
  from sidebar_variables_stay [where V = ?V, OF t(1) d(1) o1 o2 d(2-5) rows, THEN conjunct1, THEN bspec, OF u]
  obtain view where "viewed (draw_side ?V (select_answer (tu_id ?u) ?s2)) = Some view"
    "vv_viewing view = Some (tu_title ?u, 2)" "vv_body view = Some (Variable_Rows [?r])"
    unfolding t(2) by blast
  then show ?thesis
    by (intro exI [of _ ?V] exI [of _ "select_answer (tu_id ?u) ?s2"] exI [of _ view]) simp
qed

end
