(* ===== verification/Tour.thy ===== *)
theory Tour
  imports Dom
begin

text \<open>
  The guided tours of the older chat: \<open>agentic_chat/src/GuidedTour.tsx\<close>, which shows the
  steps of a tour next to the elements they are about, \<open>AdvancedTourButton.tsx\<close>, its menu
  and its tours, and \<open>useTour.ts\<close>, what is kept of a tour that was seen.  The document is
  a function from selectors to rectangles; clicks and the focus that a step asks for are effects.
\<close>

datatype placement = Top | Bottom | To_Left | To_Right

datatype tour_effect = Focus_Input | Open_Workspace | Open_Sidebar | Scroll_To string

record tour_step =
  tu_target :: string
  tu_head :: string
  tu_content :: string
  tu_placement :: "placement option"
  tu_padding :: "rat option"
  tu_before :: "tour_effect list"

record tour_page =
  tp_query :: "string \<Rightarrow> rect option"     \<comment> \<open>\<open>querySelector\<close> and its bounding rectangle\<close>
  tp_width :: rat
  tp_height :: rat

record guided =
  gt_step :: nat
  gt_tooltip :: "rat \<times> rat"                    \<comment> \<open>top and left\<close>
  gt_highlight :: "rat \<times> rat \<times> rat \<times> rat"  \<comment> \<open>top, left, width and height\<close>
  gt_effects :: "tour_effect list"

definition guided_init :: guided where
  "guided_init = \<lparr>gt_step = 0, gt_tooltip = (0, 0), gt_highlight = (0, 0, 0, 0), gt_effects = []\<rparr>"

section \<open>Positions\<close>

definition tooltip_width :: rat where "tooltip_width = 320"
definition tooltip_height :: rat where "tooltip_height = 200"
definition spacing :: rat where "spacing = 16"

definition tour_target :: "tour_page \<Rightarrow> tour_step \<Rightarrow> (string \<times> rect) option" where
  "tour_target P st =
     (case find (\<lambda>x. tp_query P x \<noteq> None) (map trim (split_str '','' (tu_target st))) of
        Some x \<Rightarrow> map_option (Pair x) (tp_query P x)
      | None \<Rightarrow> None)"

definition placed :: "placement \<Rightarrow> rect \<Rightarrow> rat \<times> rat" where
  "placed p r =
     (case p of
        Top \<Rightarrow> (rtop r - tooltip_height - spacing, rleft r + rwidth r / 2 - tooltip_width / 2)
      | Bottom \<Rightarrow> (rtop r + rheight r + spacing, rleft r + rwidth r / 2 - tooltip_width / 2)
      | To_Left \<Rightarrow> (rtop r + rheight r / 2 - tooltip_height / 2, rleft r - tooltip_width - spacing)
      | To_Right \<Rightarrow> (rtop r + rheight r / 2 - tooltip_height / 2, rleft r + rwidth r + spacing))"

text \<open>First away from the near edge, then from the far one.\<close>

definition clamp :: "rat \<Rightarrow> rat \<Rightarrow> rat \<Rightarrow> rat" where
  "clamp extent window x =
     (let y = (if x < spacing then spacing else x)
      in if window - spacing < y + extent then window - extent - spacing else y)"

definition padding_of :: "tour_step \<Rightarrow> rat" where
  "padding_of st = (case tu_padding st of Some p \<Rightarrow> if p = 0 then 8 else p | None \<Rightarrow> 8)"

definition calculate_positions :: "tour_page \<Rightarrow> tour_step list \<Rightarrow> bool \<Rightarrow> guided \<Rightarrow> guided" where
  "calculate_positions P sts active g =
     (if \<not> active \<or> length sts \<le> gt_step g then g
      else let st = sts ! gt_step g
           in case tour_target P st of
                None \<Rightarrow> g
              | Some (x, r) \<Rightarrow>
                  (let p = padding_of st; (t, l) = placed (case_option Bottom id (tu_placement st)) r
                   in g\<lparr>gt_highlight := (rtop r - p, rleft r - p, rwidth r + p * 2, rheight r + p * 2),
                        gt_tooltip := (clamp tooltip_height (tp_height P) t, clamp tooltip_width (tp_width P) l),
                        gt_effects := gt_effects g @ [Scroll_To x]\<rparr>))"

text \<open>The effect of a new step: it is placed, and what it asks for is done.\<close>

definition show_step :: "tour_page \<Rightarrow> tour_step list \<Rightarrow> bool \<Rightarrow> guided \<Rightarrow> guided" where
  "show_step P sts active g =
     (if \<not> active then g
      else let g1 = calculate_positions P sts active g
           in if gt_step g < length sts then g1\<lparr>gt_effects := gt_effects g1 @ tu_before (sts ! gt_step g)\<rparr> else g1)"

section \<open>The button and its tours\<close>

definition apostrophe_mark :: string where "apostrophe_mark = [CHR 0x27]"

text \<open>The tours; a step may first open the panel it is about, or put the cursor into the input.\<close>

definition workspace_tour_steps :: "tour_step list" where
  "workspace_tour_steps =
     [tour_step.make ''.workspace-toggle-btn, .workspace-panel'' ''Workspace Panel''
        ''This is the workspace panel. It shows all files in your workspace that CUGA can access and work with.''
        (Some To_Left) (Some 10) [Open_Workspace],
      tour_step.make ''.workspace-panel-header'' ''Workspace Tools''
        (''Use the refresh button to reload files, or close the panel when you'' @ apostrophe_mark @ ''re done browsing.'')
        (Some To_Left) (Some 8) [],
      tour_step.make ''.workspace-panel-content'' ''File Browser''
        ''Click on any file to preview it. You can also download or delete files using the action buttons.''
        (Some To_Left) (Some 10) [],
      tour_step.make ''.workspace-panel'' ''Drag & Drop Upload''
        ''Drag and drop files directly into the workspace panel to upload them for CUGA to use.''
        (Some To_Left) (Some 12) []]"

definition chat_tour_steps :: "tour_step list" where
  "chat_tour_steps =
     [tour_step.make ''.custom-chat-header'' ''Chat Header''
        ''See your active conversation with CUGA here. Use the restart button to begin a new conversation.''
        (Some Bottom) (Some 10) [],
      tour_step.make ''.custom-chat-messages'' ''Agent Responses''
        (''CUGA'' @ apostrophe_mark @ ''s responses appear here, showing its reasoning, tool usage, and results in an interactive card format.'')
        (Some Top) (Some 10) [],
      tour_step.make ''.chat-input-container'' ''File Tagging with @''
        ''Type @ in the chat input to see file autocomplete. This lets you reference specific files from your workspace in your messages.''
        (Some Top) (Some 10) [Focus_Input],
      tour_step.make ''.left-sidebar, .sidebar-toggle-btn'' ''Conversations & Variables''
        ''Track your conversation history and view variables that CUGA has created or extracted during your interactions.''
        (Some To_Right) (Some 10) [Open_Sidebar]]"

definition full_tour_steps :: "tour_step list" where
  "full_tour_steps = chat_tour_steps @ workspace_tour_steps @
     [tour_step.make ''.chat-send-btn'' ''Ready to Start!''
        (''You'' @ apostrophe_mark @ ''re all set! Try sending a message to CUGA and see the magic happen. Remember to use @ to tag files and explore all the features.'')
        (Some Top) (Some 10) []]"

record tour_button =
  tb_active :: bool
  tb_menu :: bool
  tb_steps :: "tour_step list"
  tb_hint :: bool
  tb_guided :: guided

definition tour_button_init :: tour_button where
  "tour_button_init = \<lparr>tb_active = False, tb_menu = False, tb_steps = [], tb_hint = True, tb_guided = guided_init\<rparr>"

definition shown_again :: "tour_page \<Rightarrow> tour_button \<Rightarrow> tour_button" where
  "shown_again P b = b\<lparr>tb_guided := show_step P (tb_steps b) (tb_active b) (tb_guided b)\<rparr>"

definition start_tour :: "tour_page \<Rightarrow> tour_step list \<Rightarrow> tour_button \<Rightarrow> tour_button" where
  "start_tour P sts b = shown_again P (b\<lparr>tb_steps := sts, tb_menu := False, tb_active := True\<rparr>)"

text \<open>Completing and skipping do the same.\<close>

definition end_tour :: "tour_page \<Rightarrow> tour_button \<Rightarrow> tour_button" where
  "end_tour P b =
     shown_again P (b\<lparr>tb_active := False, tb_steps := [], tb_guided := (tb_guided b)\<lparr>gt_step := 0\<rparr>\<rparr>)"

definition handle_next :: "tour_page \<Rightarrow> tour_button \<Rightarrow> tour_button" where
  "handle_next P b =
     (let g = tb_guided b
      in if int (gt_step g) < int (length (tb_steps b)) - 1
         then shown_again P (b\<lparr>tb_guided := g\<lparr>gt_step := gt_step g + 1\<rparr>\<rparr>)
         else end_tour P b)"

definition handle_previous :: "tour_page \<Rightarrow> tour_button \<Rightarrow> tour_button" where
  "handle_previous P b =
     (let g = tb_guided b
      in if 0 < gt_step g then shown_again P (b\<lparr>tb_guided := g\<lparr>gt_step := gt_step g - 1\<rparr>\<rparr>) else b)"

definition toggle_menu :: "tour_button \<Rightarrow> tour_button" where
  "toggle_menu b = b\<lparr>tb_menu := \<not> tb_menu b, tb_hint := False\<rparr>"

record tour_view =
  tv_counter :: "nat \<times> nat"
  tv_title :: string
  tv_text :: string
  tv_progress :: rat
  tv_previous :: bool
  tv_finish :: bool

definition draw_tour :: "tour_button \<Rightarrow> tour_view option" where
  "draw_tour b =
     (let k = gt_step (tb_guided b); n = length (tb_steps b)
      in if \<not> tb_active b \<or> n \<le> k then None
         else Some \<lparr>tv_counter = (k + 1, n), tv_title = tu_head (tb_steps b ! k), tv_text = tu_content (tb_steps b ! k),
                tv_progress = of_nat (k + 1) / of_nat n * 100, tv_previous = (k \<noteq> 0), tv_finish = (k = n - 1)\<rparr>)"

definition hint_shown :: "tour_button \<Rightarrow> bool" where
  "hint_shown b \<longleftrightarrow> tb_hint b \<and> \<not> tb_menu b"

section \<open>A tour that was seen\<close>

record use_tour =
  ut_active :: bool
  ut_seen :: bool
  ut_stored :: "string option"       \<comment> \<open>in the local storage\<close>

definition tour_mounted :: "string option \<Rightarrow> use_tour" where
  "tour_mounted stored = \<lparr>ut_active = False, ut_seen = (stored = Some ''true''), ut_stored = stored\<rparr>"

definition ut_start :: "use_tour \<Rightarrow> use_tour" where
  "ut_start u = u\<lparr>ut_active := True\<rparr>"

definition complete_tour :: "use_tour \<Rightarrow> use_tour" where
  "complete_tour u = u\<lparr>ut_active := False, ut_seen := True, ut_stored := Some ''true''\<rparr>"

definition skip_tour :: "use_tour \<Rightarrow> use_tour" where
  "skip_tour u = u\<lparr>ut_active := False, ut_seen := True, ut_stored := Some ''true''\<rparr>"

definition reset_tour :: "use_tour \<Rightarrow> use_tour" where
  "reset_tour u = u\<lparr>ut_active := True, ut_seen := False, ut_stored := None\<rparr>"

section \<open>Properties\<close>

lemma clamp_fits: "extent + 2 * spacing \<le> window \<Longrightarrow> spacing \<le> clamp extent window x \<and> clamp extent window x + extent \<le> window - spacing"
  by (auto simp: clamp_def Let_def)

lemma clamp_far: "extent + 2 * spacing \<le> window \<Longrightarrow> window - extent - spacing \<le> x \<Longrightarrow> clamp extent window x = window - extent - spacing"
  by (auto simp: clamp_def Let_def spacing_def)

text \<open>
  C37. In a window wider than 640 pixels, where the style sheet leaves the position alone and makes the box
  of the text 320 pixels wide, the box keeps sixteen pixels to the left and the right edge,
  wherever the element of the step is.  Its upper edge is sixteen pixels or more below that of a window at least 232 high, and 216
  or more above the lower one, so a box of at most 216 pixels in height is inside.  But the style sheet leaves
  the height open: a higher one, placed for an element so low that this bound takes effect, is cut by all it is
  higher than that.  The spotlight is set to reach beyond the element by the padding on every side.
\<close>

theorem tooltip_in_window:
  assumes "gt_step g < length sts" "tour_target P (sts ! gt_step g) = Some (x, r)"
    and "640 < tp_width P" "232 \<le> tp_height P"
    and "g' = calculate_positions P sts True g" "gt_tooltip g' = (t, l)" "gt_highlight g' = (ht, hl, hw, hh)"
    and "pad = padding_of (sts ! gt_step g)"
  shows "16 \<le> l \<and> l + 320 \<le> tp_width P - 16
     \<and> 16 \<le> t \<and> t \<le> tp_height P - 216
     \<and> (\<forall>height. height \<le> 216 \<longrightarrow> t + height \<le> tp_height P)
     \<and> (\<forall>height. tp_height P - 216 \<le> fst (placed (case_option Bottom id (tu_placement (sts ! gt_step g))) r) \<longrightarrow>
           t + height = tp_height P + (height - 216))
     \<and> hl = rleft r - pad \<and> hl + hw = rleft r + rwidth r + pad \<and> ht = rtop r - pad \<and> ht + hh = rtop r + rheight r + pad"
proof -
  obtain y z where p: "placed (case_option Bottom id (tu_placement (sts ! gt_step g))) r = (y, z)" by fastforce
  have t: "t = clamp 200 (tp_height P) y" "l = clamp 320 (tp_width P) z"
    and h: "ht = rtop r - pad" "hl = rleft r - pad" "hw = rwidth r + pad * 2" "hh = rheight r + pad * 2"
    using assms p by (auto simp: calculate_positions_def Let_def tooltip_height_def tooltip_width_def)
  have l: "16 \<le> l \<and> l + 320 \<le> tp_width P - 16"
    using clamp_fits [of 320 "tp_width P" z] assms(3) by (simp add: t spacing_def)
  have v: "16 \<le> t \<and> t + 200 \<le> tp_height P - 16"
    using clamp_fits [of 200 "tp_height P" y] assms(4) by (simp add: t spacing_def)
  have low: "t = tp_height P - 216" if "tp_height P - 216 \<le> y"
    using clamp_far [of 200 "tp_height P" y] assms(4) that by (simp add: t spacing_def)
  show ?thesis using l v low p h by auto
qed

theorem tooltip_in_window_witness:
  "\<exists>l. gt_tooltip (calculate_positions \<lparr>tp_query = \<lambda>_. Some \<lparr>rleft = 10, rtop = 10, rwidth = 50, rheight = 20\<rparr>, tp_width = 700, tp_height = 300\<rparr>
     [\<lparr>tu_target = ''a'', tu_head = [], tu_content = [], tu_placement = None, tu_padding = None, tu_before = []\<rparr>] True guided_init) = l
     \<and> 16 \<le> snd l"
proof -
  let ?r = "\<lparr>rleft = 10, rtop = 10, rwidth = 50, rheight = 20\<rparr>"
  let ?P = "\<lparr>tp_query = \<lambda>_. Some ?r, tp_width = 700, tp_height = 300\<rparr>"
  let ?sts = "[\<lparr>tu_target = ''a'', tu_head = [], tu_content = [], tu_placement = None, tu_padding = None, tu_before = []\<rparr>]"
  obtain t l ht hl hw hh where o: "gt_tooltip (calculate_positions ?P ?sts True guided_init) = (t, l)"
    "gt_highlight (calculate_positions ?P ?sts True guided_init) = (ht, hl, hw, hh)" by (metis surj_pair)
  have "tour_target ?P (?sts ! gt_step guided_init) = Some (''a'', ?r)"
    by (simp add: tour_target_def guided_init_def split_str.simps cut_first.simps trim_def trim_start_def is_ws_def)
  from tooltip_in_window [OF _ this _ _ refl o refl] have "16 \<le> l" by (simp add: guided_init_def)
  then show ?thesis using o by simp
qed

lemma show_keeps [simp]: "gt_step (show_step P sts a g) = gt_step g"
  by (auto simp: show_step_def calculate_positions_def Let_def split_beta split: option.splits)

lemma shown_keeps [simp]:
  "tb_active (shown_again P b) = tb_active b" "tb_steps (shown_again P b) = tb_steps b" "tb_menu (shown_again P b) = tb_menu b"
  "tb_hint (shown_again P b) = tb_hint b" "gt_step (tb_guided (shown_again P b)) = gt_step (tb_guided b)"
  by (simp_all add: shown_again_def)

lemma nexts_advance:
  assumes "tb_active b" "gt_step (tb_guided b) + k < length (tb_steps b)"
  shows "tb_active ((handle_next P ^^ k) b) \<and> tb_steps ((handle_next P ^^ k) b) = tb_steps b
     \<and> gt_step (tb_guided ((handle_next P ^^ k) b)) = gt_step (tb_guided b) + k"
  using assms(2) by (induction k) (auto simp: assms(1) handle_next_def Let_def)

text \<open>
  A tour that is started from its first step shows its steps in order, one for every press of
  the button for the next one, and says at the last that the next press finishes it; that press
  ends the tour, and another tour starts from its first step again.
\<close>

theorem tour_goes_through:
  assumes "gt_step (tb_guided b) = 0" "sts \<noteq> []"
  shows "(\<forall>k < length sts. \<exists>v. draw_tour ((handle_next P ^^ k) (start_tour P sts b)) = Some v
          \<and> tv_counter v = (k + 1, length sts) \<and> tv_title v = tu_head (sts ! k) \<and> (tv_finish v \<longleftrightarrow> k + 1 = length sts))
     \<and> draw_tour ((handle_next P ^^ length sts) (start_tour P sts b)) = None
     \<and> gt_step (tb_guided ((handle_next P ^^ length sts) (start_tour P sts b))) = 0"
proof -
  let ?b = "start_tour P sts b"
  have b: "tb_active ?b" "tb_steps ?b = sts" "gt_step (tb_guided ?b) = 0"
    using assms(1) by (simp_all add: start_tour_def)
  have at: "tb_active ((handle_next P ^^ k) ?b) \<and> tb_steps ((handle_next P ^^ k) ?b) = sts
      \<and> gt_step (tb_guided ((handle_next P ^^ k) ?b)) = k" if "k < length sts" for k
    using nexts_advance [of ?b k P] b that by simp
  obtain m where m: "length sts = Suc m" using assms(2) by (cases sts) auto
  have "(handle_next P ^^ length sts) ?b = end_tour P ((handle_next P ^^ m) ?b)"
    using at [of m] m by (simp add: handle_next_def Let_def)
  then have fin: "\<not> tb_active ((handle_next P ^^ length sts) ?b)" "gt_step (tb_guided ((handle_next P ^^ length sts) ?b)) = 0"
    by (simp_all add: end_tour_def)
  show ?thesis
  proof (intro conjI allI impI)
    fix k assume "k < length sts"
    then show "\<exists>v. draw_tour ((handle_next P ^^ k) ?b) = Some v \<and> tv_counter v = (k + 1, length sts)
        \<and> tv_title v = tu_head (sts ! k) \<and> (tv_finish v \<longleftrightarrow> k + 1 = length sts)"
      using at [of k] by (auto simp: draw_tour_def Let_def)
  qed (use fin in \<open>simp_all add: draw_tour_def\<close>)
qed

theorem tour_goes_through_witness:
  "draw_tour ((handle_next \<lparr>tp_query = \<lambda>_. None, tp_width = 400, tp_height = 300\<rparr> ^^ 1)
     (start_tour \<lparr>tp_query = \<lambda>_. None, tp_width = 400, tp_height = 300\<rparr>
       [\<lparr>tu_target = ''a'', tu_head = ''A'', tu_content = [], tu_placement = None, tu_padding = None, tu_before = []\<rparr>] tour_button_init)) = None"
  using tour_goes_through [of tour_button_init
      "[\<lparr>tu_target = ''a'', tu_head = ''A'', tu_content = [], tu_placement = None, tu_padding = None, tu_before = []\<rparr>]"
      "\<lparr>tp_query = \<lambda>_. None, tp_width = 400, tp_height = 300\<rparr>"]
  by (simp add: tour_button_init_def guided_init_def)

end
