(* ===== verification/Workspace_Panel.thy ===== *)
theory Workspace_Panel
  imports Workspace Chat_Api File_Reference
begin

text \<open>
  The panel of the workspace, \<open>agentic_chat/src/WorkspacePanel.tsx\<close>, over the service of
  \<open>Workspace\<close> and the requests of \<open>Chat_Api\<close>: the tree it draws and polls, the preview and
  the download of files, and the deletion that is switched off.  Replies of the server and
  the reading of a tree from JSON are arguments; the upload, which nothing calls, is left out.
\<close>

section \<open>The tree\<close>

fun nd_path :: "file_node \<Rightarrow> string" where "nd_path (FileNode f n p c) = p"

fun toggled_path :: "string \<Rightarrow> string list \<Rightarrow> string list" where
  "toggled_path p xs = (if p \<in> set xs then removeAll p xs else xs @ [p])"

record tree_row =
  rw_file :: bool
  rw_name :: string
  rw_path :: string
  rw_expanded :: bool
  rw_highlighted :: bool

text \<open>The element of a node: its margin to the left in pixels, its row, and the elements inside it.\<close>

datatype tree_div = Tree_Div nat tree_row "tree_div list"

text \<open>\<open>renderFileTree\<close>: an element per node, around those of the children of an expanded folder.\<close>

fun render_file_tree :: "string list \<Rightarrow> string option \<Rightarrow> nat \<Rightarrow> file_node list \<Rightarrow> tree_div list" where
  "render_file_tree expanded hl level [] = []"
| "render_file_tree expanded hl level (FileNode is_file name path children # ns) =
     Tree_Div (level * 16)
       \<lparr>rw_file = is_file, rw_name = name, rw_path = path,
        rw_expanded = (\<not> is_file \<and> path \<in> set expanded), rw_highlighted = (hl = Some path)\<rparr>
       (if \<not> is_file \<and> path \<in> set expanded
        then (case children of Some cs \<Rightarrow> render_file_tree expanded hl (Suc level) cs | None \<Rightarrow> []) else [])
     # render_file_tree expanded hl level ns"

text \<open>The rows from top to bottom, with their distances from the left edge; margins of nested elements add up.\<close>

fun laid_out :: "nat \<Rightarrow> tree_div list \<Rightarrow> (nat \<times> tree_row) list" where
  "laid_out left [] = []"
| "laid_out left (Tree_Div m row inner # ds) = (left + m, row) # laid_out (left + m) inner @ laid_out left ds"

section \<open>The panel\<close>

record shown_file =
  sf_path :: string
  sf_content :: jv
  sf_file :: string

record panel =
  wp_open :: bool
  wp_polling :: bool                     \<comment> \<open>the interval is set\<close>
  wp_tree :: "file_node list"
  wp_expanded :: "string list"
  wp_selected :: "shown_file option"
  wp_loading :: bool
  wp_error :: "string option"
  wp_delete :: "file_node option"
  wp_asked :: "(string \<times> string) list"   \<comment> \<open>files that are being loaded: path and name\<close>
  wp_tree_calls :: nat                    \<comment> \<open>calls of the service that are under way\<close>
  wp_requests :: "request list"
  wp_alerts :: "string list"
  wp_saved :: "string list"               \<comment> \<open>names of the downloads\<close>

definition load_workspace_tree :: "panel \<Rightarrow> panel" where
  "load_workspace_tree s = s\<lparr>wp_error := None, wp_tree_calls := Suc (wp_tree_calls s)\<rparr>"

definition set_open :: "bool \<Rightarrow> panel \<Rightarrow> panel" where
  "set_open b s =
     (let s1 = s\<lparr>wp_open := b, wp_polling := b\<rparr> in if b then load_workspace_tree s1 else s1)"

definition panel_mounted :: "bool \<Rightarrow> panel" where
  "panel_mounted b = set_open b \<lparr>wp_open = b, wp_polling = False, wp_tree = [], wp_expanded = [], wp_selected = None,
     wp_loading = False, wp_error = None, wp_delete = None, wp_asked = [], wp_tree_calls = 0, wp_requests = [], wp_alerts = [],
     wp_saved = []\<rparr>"

definition poll_due :: "panel \<Rightarrow> panel" where
  "poll_due s = (if wp_polling s then load_workspace_tree s else s)"

text \<open>The answer of the service, or an error when the module could not be loaded.\<close>

definition tree_arrived :: "(jv \<Rightarrow> file_node list) \<Rightarrow> exn + workspace_data \<Rightarrow> panel \<Rightarrow> panel" where
  "tree_arrived nodes r s =
     (let s1 = s\<lparr>wp_tree_calls := wp_tree_calls s - 1\<rparr>
      in case r of
           Inr d \<Rightarrow> s1\<lparr>wp_tree := nodes (js_or (wd_tree d) (JArr []))\<rparr>
         | Inl e \<Rightarrow> s1\<lparr>wp_error := Some ''Error loading workspace''\<rparr>)"

definition preview_extensions :: "string list" where
  "preview_extensions = [''.txt'', ''.md'', ''.json'', ''.yaml'', ''.yml'', ''.log'', ''.csv'', ''.html'', ''.css'', ''.js'', ''.ts'', ''.py'']"

definition ends_with :: "string \<Rightarrow> string \<Rightarrow> bool" where
  "ends_with s e \<longleftrightarrow> length e \<le> length s \<and> drop (length s - length e) s = e"

definition is_previewed :: "string \<Rightarrow> bool" where
  "is_previewed name \<longleftrightarrow> list_ex (ends_with (to_lower name)) preview_extensions"

definition panel_alert :: "string \<Rightarrow> panel \<Rightarrow> panel" where
  "panel_alert m s = s\<lparr>wp_alerts := wp_alerts s @ [m]\<rparr>"

definition toggle_folder :: "string \<Rightarrow> panel \<Rightarrow> panel" where
  "toggle_folder path s = s\<lparr>wp_expanded := toggled_path path (wp_expanded s)\<rparr>"

definition handle_file_click :: "bool \<Rightarrow> string \<Rightarrow> string \<Rightarrow> panel \<Rightarrow> panel" where
  "handle_file_click is_file name path s =
     (if \<not> is_file then toggle_folder path s
      else if \<not> is_previewed name then panel_alert ''Only text and markdown files can be previewed'' s
      else s\<lparr>wp_loading := True, wp_asked := wp_asked s @ [(path, name)],
             wp_requests := wp_requests s @ [get_workspace_file path]\<rparr>)"

text \<open>The reply: an error, a status that is none of success, or JSON.\<close>

definition file_arrived :: "string \<times> string \<Rightarrow> exn + jv option \<Rightarrow> panel \<Rightarrow> panel" where
  "file_arrived f r s =
     (let s1 = s\<lparr>wp_loading := False, wp_asked := remove1 f (wp_asked s)\<rparr>
      in case r of
           Inr (Some data) \<Rightarrow>
             (case get_prop data ''content'' of
                Inr c \<Rightarrow> s1\<lparr>wp_selected := Some \<lparr>sf_path = fst f, sf_content = c, sf_file = snd f\<rparr>\<rparr>
              | Inl e \<Rightarrow> panel_alert ''Error loading file'' s1)
         | Inr None \<Rightarrow> panel_alert ''Failed to load file'' s1
         | Inl e \<Rightarrow> panel_alert ''Error loading file'' s1)"

definition close_file :: "panel \<Rightarrow> panel" where
  "close_file s = s\<lparr>wp_selected := None\<rparr>"

definition handle_download :: "string \<Rightarrow> panel \<Rightarrow> panel" where
  "handle_download path s = s\<lparr>wp_requests := wp_requests s @ [get_workspace_download path]\<rparr>"

definition download_arrived :: "string \<Rightarrow> exn + bool \<Rightarrow> panel \<Rightarrow> panel" where
  "download_arrived name r s =
     (case r of
        Inr True \<Rightarrow> s\<lparr>wp_saved := wp_saved s @ [name]\<rparr>
      | Inr False \<Rightarrow> panel_alert ''Failed to download file'' s
      | Inl e \<Rightarrow> panel_alert ''Error downloading file'' s)"

text \<open>Deletion: the first step is switched off, the others wait for what it would set.\<close>

definition handle_delete_click :: "file_node \<Rightarrow> panel \<Rightarrow> panel" where
  "handle_delete_click f s = s"

definition handle_delete_confirm :: "panel \<Rightarrow> panel" where
  "handle_delete_confirm s =
     (case wp_delete s of
        None \<Rightarrow> s
      | Some f \<Rightarrow> s\<lparr>wp_loading := True,
          wp_requests := wp_requests s @ [(get_workspace_file (nd_path f))\<lparr>rq_method := ''DELETE''\<rparr>]\<rparr>)"

definition delete_arrived :: "file_node \<Rightarrow> exn + bool \<Rightarrow> panel \<Rightarrow> panel" where
  "delete_arrived f r s =
     (let s1 = s\<lparr>wp_loading := False, wp_delete := None\<rparr>
      in case r of
           Inr True \<Rightarrow> (load_workspace_tree s1)\<lparr>wp_selected := (case wp_selected s of
                Some x \<Rightarrow> if sf_path x = nd_path f then None else Some x | None \<Rightarrow> None)\<rparr>
         | Inr False \<Rightarrow> panel_alert ''Failed to delete file'' s1
         | Inl e \<Rightarrow> panel_alert ''Error deleting file'' s1)"

definition handle_delete_cancel :: "panel \<Rightarrow> panel" where
  "handle_delete_cancel s = s\<lparr>wp_delete := None\<rparr>"

text \<open>Dragging and dropping do nothing.\<close>

definition handle_drop :: "panel \<Rightarrow> panel" where
  "handle_drop s = s"

section \<open>What is drawn\<close>

datatype panel_contents = Panel_Error string | Empty_Panel | Panel_Tree "tree_div list"

definition panel_body :: "string option \<Rightarrow> panel \<Rightarrow> panel_contents" where
  "panel_body hl s =
     (case wp_error s of
        Some e \<Rightarrow> if e \<noteq> [] then Panel_Error e
                  else if wp_tree s = [] then Empty_Panel else Panel_Tree (render_file_tree (wp_expanded s) hl 0 (wp_tree s))
      | None \<Rightarrow> if wp_tree s = [] then Empty_Panel else Panel_Tree (render_file_tree (wp_expanded s) hl 0 (wp_tree s)))"

definition panel_rows :: "panel \<Rightarrow> tree_row list" where
  "panel_rows s = (case panel_body None s of Panel_Tree ds \<Rightarrow> map snd (laid_out 0 ds) | _ \<Rightarrow> [])"

text \<open>The file on view and the sign that one is loading cover the window.\<close>

definition panel_covered :: "panel \<Rightarrow> bool" where
  "panel_covered s \<longleftrightarrow> wp_loading s \<or> wp_selected s \<noteq> None"

inductive panel_run :: "(jv \<Rightarrow> file_node list) \<Rightarrow> panel \<Rightarrow> bool" for nodes where
  mounted: "panel_run nodes (panel_mounted b)"
| opened: "panel_run nodes s \<Longrightarrow> b \<noteq> wp_open s \<Longrightarrow> panel_run nodes (set_open b s)"
| polled: "panel_run nodes s \<Longrightarrow> panel_run nodes (poll_due s)"
| refreshed: "panel_run nodes s \<Longrightarrow> \<not> panel_covered s \<Longrightarrow> panel_run nodes (load_workspace_tree s)"
| listed: "panel_run nodes s \<Longrightarrow> 0 < wp_tree_calls s \<Longrightarrow> panel_run nodes (tree_arrived nodes r s)"
| clicked: "panel_run nodes s \<Longrightarrow> \<not> panel_covered s \<Longrightarrow> x \<in> set (panel_rows s)
    \<Longrightarrow> panel_run nodes (handle_file_click (rw_file x) (rw_name x) (rw_path x) s)"
| arrived: "panel_run nodes s \<Longrightarrow> f \<in> set (wp_asked s) \<Longrightarrow> panel_run nodes (file_arrived f r s)"
| closed: "panel_run nodes s \<Longrightarrow> panel_run nodes (close_file s)"
| download: "panel_run nodes s \<Longrightarrow> \<not> panel_covered s \<Longrightarrow> x \<in> set (panel_rows s) \<Longrightarrow> rw_file x
    \<Longrightarrow> panel_run nodes (handle_download (rw_path x) s)"
| download_shown: "panel_run nodes s \<Longrightarrow> wp_selected s = Some f \<Longrightarrow> panel_run nodes (handle_download (sf_path f) s)"
| downloaded: "panel_run nodes s \<Longrightarrow> panel_run nodes (download_arrived name ok s)"
| delete_click: "panel_run nodes s \<Longrightarrow> panel_run nodes (handle_delete_click n s)"
| delete_confirm: "panel_run nodes s \<Longrightarrow> panel_run nodes (handle_delete_confirm s)"
| delete_cancel: "panel_run nodes s \<Longrightarrow> panel_run nodes (handle_delete_cancel s)"
| dropped: "panel_run nodes s \<Longrightarrow> panel_run nodes (handle_drop s)"

section \<open>Properties\<close>

text \<open>The nodes of a tree from the top, each with the folders it is in.\<close>

fun walk_tree :: "file_node list \<Rightarrow> file_node list \<Rightarrow> (file_node list \<times> file_node) list" where
  "walk_tree up [] = []"
| "walk_tree up (FileNode f name path children # ns) =
     (up, FileNode f name path children)
     # (case children of Some cs \<Rightarrow> if f then [] else walk_tree (up @ [FileNode f name path children]) cs | None \<Rightarrow> [])
     @ walk_tree up ns"

fun row_of :: "string list \<Rightarrow> string option \<Rightarrow> file_node list \<times> file_node \<Rightarrow> tree_row" where
  "row_of expanded hl (up, FileNode f name path children) =
     \<lparr>rw_file = f, rw_name = name, rw_path = path, rw_expanded = (\<not> f \<and> path \<in> set expanded),
      rw_highlighted = (hl = Some path)\<rparr>"

definition unfolded :: "string list \<Rightarrow> file_node list \<times> file_node \<Rightarrow> bool" where
  "unfolded expanded x \<longleftrightarrow> (\<forall>a \<in> set (fst x). nd_path a \<in> set expanded)"

lemma walk_folded: "\<exists>a \<in> set up. nd_path a \<notin> set expanded \<Longrightarrow> filter (unfolded expanded) (walk_tree up ns) = []"
  by (induction up ns rule: walk_tree.induct) (auto simp: unfolded_def split: option.splits)

lemma walk_ups: "x \<in> set (walk_tree up ns) \<Longrightarrow> set up \<subseteq> set (fst x)"
  by (induction up ns rule: walk_tree.induct) (auto split: option.splits if_splits)

definition depth :: "file_node list \<times> file_node \<Rightarrow> nat" where
  "depth x = length (fst x)"

lemma margins_add_up: "8 * ((d - 1) * d) + d * 16 = 8 * (d * Suc d)"
  by (cases d) (simp_all add: algebra_simps)

text \<open>
  C32. The tree shows exactly the nodes all of whose folders are expanded, in the order of a
  walk from the top.  The margins of nested elements add up, so a node inside d folders does not stand
  16 times d pixels from the left but 8 times d times d + 1: 16, 48, 96 and so on.
\<close>

theorem tree_shows_unfolded:
  "laid_out 0 (render_file_tree expanded hl 0 ns) =
     map (\<lambda>x. (8 * (depth x * Suc (depth x)), row_of expanded hl x)) (filter (unfolded expanded) (walk_tree [] ns))"
proof -
  let ?g = "\<lambda>x. (8 * (depth x * Suc (depth x)), row_of expanded hl x)"
  have "laid_out (8 * ((length up - 1) * length up)) (render_file_tree expanded hl (length up) ns)
      = map ?g (filter (unfolded expanded) (walk_tree up ns))"
    if "\<forall>a \<in> set up. nd_path a \<in> set expanded" for up
    using that
  proof (induction up ns rule: walk_tree.induct)
    case (2 up f name path children ns)
    let ?n = "FileNode f name path children"
    have here: "unfolded expanded (up, ?n)" using 2(3) by (simp add: unfolded_def)
    have d: "depth (up, n) = length up" for n by (simp add: depth_def)
    note left = margins_add_up [of "length up"]
    show ?case
    proof (cases "\<not> f \<and> path \<in> set expanded")
      case True
      have "laid_out (8 * (length up * Suc (length up))) (render_file_tree expanded hl (Suc (length up)) cs) =
          map ?g (filter (unfolded expanded) (walk_tree (up @ [?n]) cs))" if "children = Some cs" for cs
        using 2(1) [OF that] True 2(3) by (simp add: mult.commute)
      then show ?thesis
        using 2(2,3) here True left by (simp add: d split: option.split del: mult_Suc_right)
    next
      case False
      then have "filter (unfolded expanded) (walk_tree (up @ [?n]) cs) = []" if "\<not> f" for cs
        using that by (intro walk_folded) auto
      then show ?thesis
        using 2(2,3) here False left by (auto simp: d split: option.split simp del: mult_Suc_right)
    qed
  qed simp
  from this [of "[]"] show ?thesis by simp
qed

definition reads_only :: "request list \<Rightarrow> bool" where
  "reads_only rs \<longleftrightarrow> (\<forall>r \<in> set rs. \<exists>p. r = get_workspace_file p \<or> r = get_workspace_download p)"

definition panel_ok :: "panel \<Rightarrow> bool" where
  "panel_ok s \<longleftrightarrow> reads_only (wp_requests s) \<and> wp_delete s = None \<and> length (wp_asked s) \<le> 1
     \<and> (wp_loading s \<longleftrightarrow> wp_asked s \<noteq> []) \<and> (wp_polling s \<longleftrightarrow> wp_open s)"

lemmas panel_defs = panel_ok_def reads_only_def load_workspace_tree_def set_open_def poll_due_def tree_arrived_def panel_alert_def
  toggle_folder_def handle_file_click_def file_arrived_def close_file_def handle_download_def download_arrived_def
  handle_delete_click_def handle_delete_confirm_def handle_delete_cancel_def handle_drop_def panel_covered_def

lemma panel_run_ok: "panel_run nodes s \<Longrightarrow> panel_ok s"
proof (induction rule: panel_run.induct)
  case (mounted b)
  then show ?case by (simp add: panel_mounted_def panel_defs Let_def)
next
  case (arrived s f r)
  then have "wp_asked s = [f]" by (auto simp: panel_ok_def length_Suc_conv le_Suc_eq)
  then show ?case using arrived(3) by (auto simp: panel_defs Let_def split: sum.splits option.splits)
next
  case (clicked s x)
  then show ?case by (auto simp: panel_defs)
next
  case (downloaded s name ok)
  then show ?case by (auto simp: panel_defs split: sum.splits bool.splits)
qed (auto simp: panel_defs Let_def split: sum.splits)

text \<open>
  All the panel ever asks of the server is to read: the contents of files, one at a time,
  and downloads, both by the encoded path; nothing is deleted.  The sign that something
  is loading is there exactly while a file is, and the tree is polled exactly while
  the panel is open.
\<close>

theorem panel_only_reads:
  assumes "panel_run nodes s"
  shows "(\<forall>r \<in> set (wp_requests s). rq_method r = ''GET'' \<and> rq_body r = None
          \<and> (\<exists>p. rq_url r = ''/api/workspace/file?path='' @ encode_uri_component p
               \<or> rq_url r = ''/api/workspace/download?path='' @ encode_uri_component p))
     \<and> length (wp_asked s) \<le> 1 \<and> (wp_loading s \<longleftrightarrow> wp_asked s \<noteq> []) \<and> (wp_polling s \<longleftrightarrow> wp_open s)"
  using panel_run_ok [OF assms]
  by (auto simp: panel_ok_def reads_only_def get_workspace_file_def get_workspace_download_def get_request_def dest!: bspec)

theorem panel_only_reads_witness:
  "\<exists>s. panel_run (\<lambda>_. [FileNode True ''a.md'' ''w/a.md'' None]) s \<and> map rq_method (wp_requests s) = [''GET''] \<and> wp_loading s"
proof -
  let ?n = "\<lambda>_ :: jv. [FileNode True ''a.md'' ''w/a.md'' None]"
  let ?m = "tree_arrived ?n (Inr \<lparr>wd_tree = JArr [], wd_time = 0\<rparr>) (panel_mounted True)"
  let ?r = "\<lparr>rw_file = True, rw_name = ''a.md'', rw_path = ''w/a.md'', rw_expanded = False, rw_highlighted = False\<rparr>"
  have m: "panel_run ?n ?m"
    by (rule panel_run.listed [OF panel_run.mounted]) (simp add: panel_mounted_def set_open_def load_workspace_tree_def)
  have "\<not> panel_covered ?m" "?r \<in> set (panel_rows ?m)"
    by (simp_all add: panel_covered_def panel_rows_def panel_body_def tree_arrived_def panel_mounted_def set_open_def load_workspace_tree_def)
  from panel_run.clicked [OF m this] have r: "panel_run ?n (handle_file_click True ''a.md'' ''w/a.md'' ?m)" by simp
  have l: "wp_requests (handle_file_click True ''a.md'' ''w/a.md'' ?m) = [get_workspace_file ''w/a.md'']"
    by (simp add: handle_file_click_def is_previewed_def preview_extensions_def ends_with_def lower_char_def tree_arrived_def
        panel_mounted_def set_open_def load_workspace_tree_def)
  then have "wp_loading (handle_file_click True ''a.md'' ''w/a.md'' ?m)"
    using panel_only_reads [OF r] by (simp add: handle_file_click_def is_previewed_def preview_extensions_def ends_with_def lower_char_def)
  then show ?thesis using r l panel_only_reads [OF r] by auto
qed

text \<open>
  The service never fails: when the request for the tree does, it gives the tree it has, or
  none, so the panel shows the old tree or says that the workspace is empty, and its message
  of an error is for a module that could not be loaded only.
\<close>

theorem failed_load_looks_empty:
  assumes "nodes (JArr []) = []" "wp_error s = None"
  shows "panel_body hl (tree_arrived nodes (Inr (fetched_data (Inl e) now None)) s) = Empty_Panel
     \<and> panel_body hl (tree_arrived nodes (Inr (fetched_data (Inl e) now (Some d))) s) = panel_body hl (tree_arrived nodes (Inr d) s)
     \<and> panel_body hl (tree_arrived nodes (Inl e) s) = Panel_Error ''Error loading workspace''
     \<and> (\<forall>answer cache. wp_error (tree_arrived nodes (Inr (fetched_data answer now cache)) s) = None)"
  using assms by (simp add: tree_arrived_def fetched_data_def panel_body_def)

theorem failed_load_looks_empty_witness:
  "panel_body None (tree_arrived (\<lambda>_. []) (Inr (fetched_data (Inl ''down'') 0 None)) (panel_mounted True)) = Empty_Panel"
  using failed_load_looks_empty [of "\<lambda>_. []" "panel_mounted True" None "''down''" 0]
  by (simp add: panel_mounted_def set_open_def load_workspace_tree_def)

end
