(* ===== verification/Config_Dialog.thy ===== *)
theory Config_Dialog
  imports Policies
begin

text \<open>
  What the configuration dialogs of \<open>agentic_chat/src\<close> have in common: each asks for
  its configuration when it is mounted, shows its own until the reply is there, edits
  what it shows, and posts it.  A kind of dialog is a record of its parts, the steps are
  functions of a kind, and the laws a kind has to keep are a locale.  Replies have their
  declared shape; a number that is no number (NaN) is the \<open>null\<close> it is posted as.
\<close>

section \<open>Steps\<close>

datatype config_request = Get_Config string | Post_Config string jv

text \<open>
  A kind of dialog over states \<open>'c\<close> (the configuration and the fields of the dialog) and
  edits \<open>'e\<close>: where its configuration is kept, its first state, what a reply makes of a
  state, which edits its controls allow and make, and what it posts.
\<close>

record ('c, 'e) dialog_kind =
  dk_url :: string
  dk_first :: 'c
  dk_reads :: "jv \<Rightarrow> 'c \<Rightarrow> exn + 'c"
  dk_allows :: "'c \<Rightarrow> 'e \<Rightarrow> bool"
  dk_edit :: "'e \<Rightarrow> 'c \<Rightarrow> 'c"
  dk_body :: "'c \<Rightarrow> jv"

record 'c dialog =
  dg_state :: 'c
  dg_status :: save_status
  dg_loading :: bool              \<comment> \<open>the reply to the first request is awaited\<close>
  dg_saving :: nat                \<comment> \<open>posts without a reply\<close>
  dg_timers :: nat                \<comment> \<open>timers that reset the status\<close>
  dg_requests :: "config_request list"

definition dialog_opened :: "('c, 'e) dialog_kind \<Rightarrow> 'c dialog" where
  "dialog_opened D =
     \<lparr>dg_state = dk_first D, dg_status = SaveIdle, dg_loading = True, dg_saving = 0, dg_timers = 0,
      dg_requests = [Get_Config (dk_url D)]\<rparr>"

text \<open>The reply: an error, a status that is none of success, or JSON.  Errors are logged.\<close>

definition dialog_loaded :: "('c, 'e) dialog_kind \<Rightarrow> exn + jv option \<Rightarrow> 'c dialog \<Rightarrow> 'c dialog" where
  "dialog_loaded D r s =
     (let s1 = s\<lparr>dg_loading := False\<rparr>
      in case r of
           Inr (Some data) \<Rightarrow>
             (case dk_reads D data (dg_state s) of Inr c \<Rightarrow> s1\<lparr>dg_state := c\<rparr> | Inl _ \<Rightarrow> s1)
         | _ \<Rightarrow> s1)"

definition dialog_edit :: "('c, 'e) dialog_kind \<Rightarrow> 'e \<Rightarrow> 'c dialog \<Rightarrow> 'c dialog" where
  "dialog_edit D e s = s\<lparr>dg_state := dk_edit D e (dg_state s)\<rparr>"

definition dialog_save :: "('c, 'e) dialog_kind \<Rightarrow> 'c dialog \<Rightarrow> 'c dialog" where
  "dialog_save D s =
     s\<lparr>dg_status := Saving, dg_saving := Suc (dg_saving s),
       dg_requests := dg_requests s @ [Post_Config (dk_url D) (dk_body D (dg_state s))]\<rparr>"

text \<open>The reply to a post, and the timer it starts.\<close>

definition dialog_answered :: "bool \<Rightarrow> 'c dialog \<Rightarrow> 'c dialog" where
  "dialog_answered fine s =
     s\<lparr>dg_status := (if fine then SaveSuccess else SaveError), dg_saving := dg_saving s - 1, dg_timers := Suc (dg_timers s)\<rparr>"

definition dialog_idle :: "'c dialog \<Rightarrow> 'c dialog" where
  "dialog_idle s = s\<lparr>dg_status := SaveIdle, dg_timers := dg_timers s - 1\<rparr>"

definition save_enabled :: "'c dialog \<Rightarrow> bool" where
  "save_enabled s \<longleftrightarrow> dg_status s \<noteq> Saving"

definition save_label :: "save_status \<Rightarrow> string" where
  "save_label st =
     (case st of SaveIdle \<Rightarrow> ''Save Changes'' | Saving \<Rightarrow> ''Saving...'' | SaveSuccess \<Rightarrow> ''Saved!'' | SaveError \<Rightarrow> ''Error!'')"

text \<open>All orders of replies, edits, saves and timers.  \<open>served\<close> is what the server may give.\<close>

inductive dialog_run :: "('c, 'e) dialog_kind \<Rightarrow> (jv \<Rightarrow> bool) \<Rightarrow> 'c dialog \<Rightarrow> bool" for D served where
  begun: "dialog_run D served (dialog_opened D)"
| loaded: "dialog_run D served s \<Longrightarrow> dg_loading s \<Longrightarrow> (\<And>v. r = Inr (Some v) \<Longrightarrow> served v) \<Longrightarrow>
     dialog_run D served (dialog_loaded D r s)"
| edited: "dialog_run D served s \<Longrightarrow> dk_allows D (dg_state s) e \<Longrightarrow> dialog_run D served (dialog_edit D e s)"
| saved: "dialog_run D served s \<Longrightarrow> save_enabled s \<Longrightarrow> dialog_run D served (dialog_save D s)"
| replied: "dialog_run D served s \<Longrightarrow> 0 < dg_saving s \<Longrightarrow> dialog_run D served (dialog_answered b s)"
| idled: "dialog_run D served s \<Longrightarrow> 0 < dg_timers s \<Longrightarrow> dialog_run D served (dialog_idle s)"

lemmas dialog_defs = dialog_opened_def dialog_loaded_def dialog_edit_def dialog_save_def dialog_answered_def
  dialog_idle_def save_enabled_def

section \<open>What every kind of dialog does\<close>

text \<open>The label of the button is that of a post under way, or a timer is going to reset it.\<close>

lemma status_covered:
  "dialog_run D served s \<Longrightarrow>
     (dg_status s = Saving \<longrightarrow> 0 < dg_saving s) \<and> (dg_status s \<in> {SaveSuccess, SaveError} \<longrightarrow> 0 < dg_timers s)"
  by (induction rule: dialog_run.induct) (auto simp: dialog_defs Let_def split: sum.splits option.splits)

text \<open>A dialog whose loading failed posts its own first configuration.\<close>

lemma blank_post:
  "dialog_run D served (dialog_save D (dialog_loaded D (Inl e) (dialog_opened D)))"
  "dialog_run D served (dialog_save D (dialog_loaded D (Inr None) (dialog_opened D)))"
  "dg_requests (dialog_save D (dialog_loaded D (Inl e) (dialog_opened D)))
     = [Get_Config (dk_url D), Post_Config (dk_url D) (dk_body D (dk_first D))]"
  "dg_requests (dialog_save D (dialog_loaded D (Inr None) (dialog_opened D)))
     = [Get_Config (dk_url D), Post_Config (dk_url D) (dk_body D (dk_first D))]"
proof -
  have "dialog_run D served (dialog_loaded D r (dialog_opened D))" if "\<And>v. r \<noteq> Inr (Some v)" for r
    using that by (intro dialog_run.loaded dialog_run.begun) (auto simp: dialog_opened_def)
  moreover have "save_enabled (dialog_loaded D r (dialog_opened D))" for r
    by (auto simp: dialog_defs Let_def split: sum.splits option.splits)
  ultimately show "dialog_run D served (dialog_save D (dialog_loaded D (Inl e) (dialog_opened D)))"
    "dialog_run D served (dialog_save D (dialog_loaded D (Inr None) (dialog_opened D)))"
    by (auto intro!: dialog_run.saved)
qed (simp_all add: dialog_defs)

lemma failed_load:
  assumes "r = Inl e \<or> r = Inr None"
  shows "dialog_run D served (dialog_save D (dialog_loaded D r (dialog_opened D)))"
    "dg_requests (dialog_save D (dialog_loaded D r (dialog_opened D))) = [Get_Config (dk_url D), Post_Config (dk_url D) (dk_body D (dk_first D))]"
    "save_enabled (dialog_loaded D r (dialog_opened D))"
  using assms blank_post(1) [where D = D and served = served] blank_post(2) [where D = D and served = served] blank_post(3,4) [where D = D] by (elim disjE; simp add: save_enabled_def dialog_loaded_def dialog_opened_def)+

text \<open>
  The timer of an earlier post enables the button while the next post is under way, so that two
  posts can be.
\<close>

definition twice_saved :: "('c, 'e) dialog_kind \<Rightarrow> 'c dialog" where
  "twice_saved D =
     dialog_save D (dialog_idle (dialog_save D (dialog_answered True (dialog_save D (dialog_opened D)))))"

lemma two_posts: "dialog_run D served (twice_saved D)" "dg_saving (twice_saved D) = 2"
proof -
  have "dialog_run D served (dialog_save D (dialog_opened D))"
    by (intro dialog_run.saved dialog_run.begun) (simp add: dialog_defs)
  then have "dialog_run D served (dialog_answered True (dialog_save D (dialog_opened D)))"
    by (rule dialog_run.replied) (simp add: dialog_defs)
  then have "dialog_run D served (dialog_save D (dialog_answered True (dialog_save D (dialog_opened D))))"
    by (rule dialog_run.saved) (simp add: dialog_defs)
  then have "dialog_run D served (dialog_idle (dialog_save D (dialog_answered True (dialog_save D (dialog_opened D)))))"
    by (rule dialog_run.idled) (simp add: dialog_defs)
  then show "dialog_run D served (twice_saved D)"
    unfolding twice_saved_def by (rule dialog_run.saved) (simp add: dialog_defs)
qed (simp add: twice_saved_def dialog_defs)

section \<open>The laws of a kind\<close>

text \<open>\<open>ok\<close> is what the controls keep of the state, \<open>served\<close> what the server keeps of what it was sent.\<close>

locale config_dialog =
  fixes D :: "('c, 'e) dialog_kind" and ok :: "'c \<Rightarrow> bool" and served :: "jv \<Rightarrow> bool"
  assumes first_ok: "ok (dk_first D)"
    and reads_ok: "served v \<Longrightarrow> ok c \<Longrightarrow> dk_reads D v c = Inr c' \<Longrightarrow> ok c'"
    and edit_ok: "ok c \<Longrightarrow> dk_allows D c e \<Longrightarrow> ok (dk_edit D e c)"
begin

lemma run_ok:
  assumes "dialog_run D served s"
  shows "ok (dg_state s) \<and> (\<forall>u b. Post_Config u b \<in> set (dg_requests s) \<longrightarrow> u = dk_url D \<and> (\<exists>c. ok c \<and> b = dk_body D c))"
  using assms
proof (induction rule: dialog_run.induct)
  case (loaded s r)
  then show ?case
    by (cases r) (auto simp: dialog_loaded_def Let_def split: sum.splits option.splits intro: reads_ok)
qed (auto simp: dialog_defs first_ok edit_ok)

lemmas run_state = run_ok [THEN conjunct1]

lemma posts_ok: "dialog_run D served s \<Longrightarrow> Post_Config u b \<in> set (dg_requests s) \<Longrightarrow> \<exists>c. ok c \<and> b = dk_body D c"
  using run_ok by blast

end

text \<open>
  A dialog that shows what it posted when it is opened again, up to what \<open>renewed\<close> makes of it;
  the second time nothing changes any more.
\<close>

locale reopening = config_dialog +
  fixes renewed :: "'a \<Rightarrow> 'a"
  assumes body_served: "ok c \<Longrightarrow> served (dk_body D c)"
    and reads_body: "ok c \<Longrightarrow> dk_reads D (dk_body D c) (dk_first D) = Inr (renewed c)"
    and renewed_again: "ok c \<Longrightarrow> renewed (renewed c) = renewed c"
begin

lemma renewed_ok: "ok c \<Longrightarrow> ok (renewed c)"
  using reads_ok [OF body_served first_ok reads_body] .

lemma reopened:
  assumes "dialog_run D served s"
  shows "dg_state (dialog_loaded D (Inr (Some (dk_body D (dg_state s)))) (dialog_opened D)) = renewed (dg_state s)"
  using reads_body [OF run_state [OF assms]] by (simp add: dialog_loaded_def dialog_opened_def)

lemma reopened_again:
  assumes "dialog_run D served s"
  shows "dg_state (dialog_loaded D (Inr (Some (dk_body D (renewed (dg_state s))))) (dialog_opened D)) = renewed (dg_state s)"
  using reads_body [OF renewed_ok [OF run_state [OF assms]]] renewed_again [OF run_state [OF assms]]
  by (simp add: dialog_loaded_def dialog_opened_def)

end

section \<open>Fields of a configuration\<close>

text \<open>\<open>{ ...c, [k]: v }\<close>, and an array of the declared shape.\<close>

definition put :: "string \<Rightarrow> jv \<Rightarrow> jv \<Rightarrow> jv" where
  "put k v c = obj_with c [(k, v)]"

definition items :: "jv \<Rightarrow> jv list" where
  "items v = (case v of JArr xs \<Rightarrow> xs | _ \<Rightarrow> [])"

lemma put_obj [simp]: "put k v (JObj fs) = JObj (al_set k v fs)"
  by (simp add: put_def obj_with_one)

lemma fld_put [simp]: "fld (put k v c) j = (if j = k then v else if is_obj c then fld c j else fld (JObj (obj_fields c)) j)"
  by (cases c) (auto simp: put_def obj_with_one split: option.splits)

lemma is_obj_put [simp]: "is_obj (put k v c)"
  by (simp add: put_def obj_with_one)

lemma items_arr [simp]: "items (JArr xs) = xs"
  by (simp add: items_def)

text \<open>\<open>parseInt\<close> and \<open>parseFloat\<close> of what an input of numbers holds, which has no hexadecimal prefix.\<close>

definition signed :: "string \<Rightarrow> bool \<times> string" where
  "signed s = (case s of c # cs \<Rightarrow> if c = CHR ''-'' then (True, cs) else if c = CHR ''+'' then (False, cs) else (False, s) | [] \<Rightarrow> (False, []))"

definition int_digits :: "string \<Rightarrow> (int \<times> string) option" where
  "int_digits s =
     (let (neg, t) = signed s; ds = takeWhile is_digit t
      in if ds = [] then None
         else Some (if neg then - int (read_nat ds) else int (read_nat ds), drop (length ds) t))"

definition parse_int :: "string \<Rightarrow> int option" where
  "parse_int s = map_option fst (int_digits (trim_start s))"

definition exponent :: "string \<Rightarrow> int" where
  "exponent s =
     (case s of c # cs \<Rightarrow> if c = CHR ''e'' \<or> c = CHR ''E'' then (case int_digits cs of Some (e, _) \<Rightarrow> e | None \<Rightarrow> 0) else 0
      | [] \<Rightarrow> 0)"

definition scaled :: "rat \<Rightarrow> int \<Rightarrow> rat" where
  "scaled q e = (if 0 \<le> e then q * 10 ^ nat e else q / 10 ^ nat (- e))"

definition parse_float :: "string \<Rightarrow> rat option" where
  "parse_float s =
     (let (neg, t) = signed (trim_start s); ip = takeWhile is_digit t; t1 = drop (length ip) t;
          fp = (case t1 of c # cs \<Rightarrow> if c = CHR ''.'' then takeWhile is_digit cs else [] | [] \<Rightarrow> []);
          t2 = (case t1 of c # cs \<Rightarrow> if c = CHR ''.'' then drop (length fp) cs else t1 | [] \<Rightarrow> []);
          q = scaled (of_nat (read_nat (ip @ fp))) (exponent t2 - int (length fp))
      in if ip @ fp = [] then None else Some (if neg then - q else q))"

definition int_value :: "string \<Rightarrow> jv" where
  "int_value s = (case parse_int s of Some i \<Rightarrow> JNum (of_int i) | None \<Rightarrow> JNull)"

definition float_value :: "string \<Rightarrow> jv" where
  "float_value s = (case parse_float s of Some q \<Rightarrow> JNum q | None \<Rightarrow> JNull)"

lemma signed_digits: "xs \<noteq> [] \<Longrightarrow> is_digit (hd xs) \<Longrightarrow> signed xs = (False, xs)"
  by (cases xs) (auto simp: signed_def is_digit_def)

lemma parse_int_show: "parse_int (show_nat n @ s) = Some (int (read_nat (show_nat n @ takeWhile is_digit s)))"
proof -
  have d: "\<forall>c \<in> set (show_nat n). is_digit c" using show_nat_digits by blast
  then have h: "is_digit (hd (show_nat n))" by simp
  then have "\<not> is_ws (hd (show_nat n))" using is_ws_not_digit by blast
  then have t: "trim_start (show_nat n @ s) = show_nat n @ s"
    by (cases "show_nat n") (auto simp: trim_start_def)
  show ?thesis
    using d h by (simp add: parse_int_def t int_digits_def signed_digits Let_def takeWhile_append)
qed

text \<open>\<open>{ k: data.k ?? default, ... }\<close>.\<close>

definition read_fields :: "(string \<times> jv) list \<Rightarrow> jv \<Rightarrow> jv" where
  "read_fields ds data = JObj (map (\<lambda>(k, d). (k, js_nullor (fld data k) d)) ds)"

lemma fld_read: "distinct (map fst ds) \<Longrightarrow> (k, d) \<in> set ds \<Longrightarrow> fld (read_fields ds v) k = js_nullor (fld v k) d"
proof -
  assume "distinct (map fst ds)" "(k, d) \<in> set ds"
  then have "map_of (map (\<lambda>(k, d). (k, js_nullor (fld v k) d)) ds) k = Some (js_nullor (fld v k) d)"
    by (intro map_of_is_SomeI) (force simp: comp_def split_beta)+
  then show ?thesis by (simp add: read_fields_def)
qed

lemma js_nullor_fine: "\<not> nullish d \<Longrightarrow> \<not> nullish (js_nullor v d)"
  by (simp add: js_nullor_def)

lemma obj_with_two: "obj_with v [(k, x), (j, y)] = put j y (put k x v)"
  by (cases v) (simp_all add: obj_with_def spread_def put_def)


lemma al_set_map: "distinct ks \<Longrightarrow> k \<in> set ks \<Longrightarrow> al_set k v (map (\<lambda>j. (j, f j)) ks) = map (\<lambda>j. (j, if j = k then v else f j)) ks"
  by (induction ks) auto

lemma map_fst_al_set_in: "k \<in> fst ` set al \<Longrightarrow> map fst (al_set k v al) = map fst al"
  by (induction k v al rule: al_set.induct) auto

lemma fields_by_key: "distinct (map fst fs) \<Longrightarrow> map (\<lambda>k. (k, fld (JObj fs) k)) (map fst fs) = fs"
proof -
  assume d: "distinct (map fst fs)"
  have "(fst p, fld (JObj fs) (fst p)) = p" if "p \<in> set fs" for p
    using map_of_is_SomeI [OF d, of "fst p" "snd p"] that by simp
  then show ?thesis by (simp add: comp_def map_idI)
qed

lemma put_same: "distinct (map fst fs) \<Longrightarrow> k \<in> fst ` set fs \<Longrightarrow> put k (fld (JObj fs) k) (JObj fs) = JObj fs"
  by (subst (2) fields_by_key [symmetric], assumption)
    (simp only: put_obj jv.inject, subst fields_by_key [symmetric, of fs], assumption, subst al_set_map, auto simp: if_distrib cong: if_cong)

text \<open>Reading a configuration that has all fields but one.\<close>

lemma read_fields_one:
  assumes "map fst fs = map fst ds" "distinct (map fst ds)" "(m, d) \<in> set ds"
    "\<forall>k \<in> fst ` set ds. k \<noteq> m \<longrightarrow> \<not> nullish (fld (JObj fs) k)"
  shows "read_fields ds (JObj fs) = put m (js_nullor (fld (JObj fs) m) d) (JObj fs)"
proof -
  let ?c = "JObj fs"
  have "read_fields ds ?c = JObj (map (\<lambda>k. (k, if k = m then js_nullor (fld ?c m) d else fld ?c k)) (map fst ds))"
    using assms by (auto simp: read_fields_def js_nullor_def comp_def eq_key_imp_eq_value)
  moreover have "al_set m v fs = map (\<lambda>k. (k, if k = m then v else fld ?c k)) (map fst ds)" for v
    using al_set_map [of "map fst ds" m v "fld ?c"] fields_by_key [of fs] assms(1-3)
    by (metis (no_types, lifting) fst_conv image_eqI list.set_map)
  ultimately show ?thesis by simp
qed

end
