(* ===== verification/Memory_Config.thy ===== *)
theory Memory_Config
  imports Config_Dialog
begin

text \<open>
  The dialog of the memory, \<open>agentic_chat/src/MemoryConfig.tsx\<close>: it rebuilds the configuration
  from the fields it knows, with defaults for the missing ones.
\<close>

section \<open>The configuration\<close>

definition default_reuse :: jv where
  "default_reuse =
     JObj [(''enabled'', JBool False), (''autoGeneralize'', JBool False), (''minSuccessfulRuns'', JNum 3),
           (''requireApproval'', JBool True), (''savedTrajectories'', JArr [])]"

definition memory_defaults :: "(string \<times> jv) list" where
  "memory_defaults =
     [(''enableMemory'', JBool True), (''disableMemory'', JBool False), (''memoryType'', JStr ''both''),
      (''contextWindow'', JNum 4096), (''maxMemoryItems'', JNum 100), (''semanticSearch'', JBool True),
      (''autoSummarization'', JBool True), (''factStorage'', JBool False), (''learningFromFailures'', JBool False),
      (''blockedMemoryItems'', JArr []), (''saveAndReuse'', default_reuse)]"

record memory_state =
  me_config :: jv
  me_item :: string              \<comment> \<open>the text of a new blocked item\<close>
  me_expanded :: "jv option"

definition memory_first :: memory_state where
  "memory_first = \<lparr>me_config = JObj memory_defaults, me_item = [], me_expanded = None\<rparr>"

definition read_memory :: "jv \<Rightarrow> memory_state \<Rightarrow> exn + memory_state" where
  "read_memory data s =
     try_bind (get_prop data ''enableMemory'') (\<lambda>_. Inr (s\<lparr>me_config := read_fields memory_defaults data\<rparr>))"

section \<open>Edits\<close>

definition blocked :: "memory_state \<Rightarrow> jv list" where
  "blocked s = items (fld (me_config s) ''blockedMemoryItems'')"

definition reuse :: "memory_state \<Rightarrow> jv" where
  "reuse s = fld (me_config s) ''saveAndReuse''"

definition trajectories :: "memory_state \<Rightarrow> jv list" where
  "trajectories s = items (fld (reuse s) ''savedTrajectories'')"

definition put_memory :: "string \<Rightarrow> jv \<Rightarrow> memory_state \<Rightarrow> memory_state" where
  "put_memory k v s = s\<lparr>me_config := put k v (me_config s)\<rparr>"

definition put_reuse :: "string \<Rightarrow> jv \<Rightarrow> memory_state \<Rightarrow> memory_state" where
  "put_reuse k v s = put_memory ''saveAndReuse'' (put k v (reuse s)) s"

definition disable_memory :: "bool \<Rightarrow> memory_state \<Rightarrow> memory_state" where
  "disable_memory off s =
     s\<lparr>me_config := obj_with (me_config s)
         [(''disableMemory'', JBool off), (''enableMemory'', if off then JBool False else fld (me_config s) ''enableMemory'')]\<rparr>"

definition add_blocked_item :: "memory_state \<Rightarrow> memory_state" where
  "add_blocked_item s =
     (let t = trim (me_item s)
      in if t \<noteq> [] \<and> JStr t \<notin> set (blocked s)
         then (put_memory ''blockedMemoryItems'' (JArr (blocked s @ [JStr t])) s)\<lparr>me_item := []\<rparr> else s)"

definition remove_blocked_item :: "jv \<Rightarrow> memory_state \<Rightarrow> memory_state" where
  "remove_blocked_item x s = put_memory ''blockedMemoryItems'' (JArr (filter (\<lambda>y. y \<noteq> x) (blocked s))) s"

definition toggle_trajectory :: "jv \<Rightarrow> memory_state \<Rightarrow> memory_state" where
  "toggle_trajectory i s =
     put_reuse ''savedTrajectories''
       (JArr (map (\<lambda>t. if fld t ''id'' = i then put ''enabled'' (JBool (\<not> truthy (fld t ''enabled''))) t else t) (trajectories s))) s"

definition delete_trajectory :: "jv \<Rightarrow> memory_state \<Rightarrow> memory_state" where
  "delete_trajectory i s = put_reuse ''savedTrajectories'' (JArr (filter (\<lambda>t. fld t ''id'' \<noteq> i) (trajectories s))) s"

datatype memory_edit =
    Disable_Memory bool | Enable_Memory bool | Max_Items string | Memory_Flag string bool
  | Item_Text string | Add_Item | Remove_Item jv
  | Reuse_Enabled bool | Reuse_Flag string bool | Min_Runs string
  | Toggle_Trajectory jv | Delete_Trajectory jv | Expand_Trajectory jv

definition memory_flags :: "string list" where
  "memory_flags = [''semanticSearch'', ''autoSummarization'', ''factStorage'', ''learningFromFailures'']"

definition reuse_flags :: "string list" where
  "reuse_flags = [''autoGeneralize'', ''requireApproval'']"

definition memory_off :: "memory_state \<Rightarrow> bool" where
  "memory_off s \<longleftrightarrow> truthy (fld (me_config s) ''disableMemory'')"

definition memory_on :: "memory_state \<Rightarrow> bool" where
  "memory_on s \<longleftrightarrow> truthy (fld (me_config s) ''enableMemory'') \<and> \<not> memory_off s"

definition reuse_on :: "memory_state \<Rightarrow> bool" where
  "reuse_on s \<longleftrightarrow> truthy (fld (reuse s) ''enabled'') \<and> \<not> memory_off s"

text \<open>The controls that are not disabled; the Enter key adds an item as the button does.\<close>

definition memory_allows :: "memory_state \<Rightarrow> memory_edit \<Rightarrow> bool" where
  "memory_allows s e =
     (case e of
        Enable_Memory b \<Rightarrow> \<not> memory_off s
      | Max_Items t \<Rightarrow> memory_on s
      | Memory_Flag k b \<Rightarrow> memory_on s \<and> k \<in> set memory_flags
      | Item_Text t \<Rightarrow> \<not> memory_off s
      | Add_Item \<Rightarrow> \<not> memory_off s
      | Remove_Item x \<Rightarrow> \<not> memory_off s \<and> x \<in> set (blocked s)
      | Reuse_Enabled b \<Rightarrow> \<not> memory_off s
      | Reuse_Flag k b \<Rightarrow> reuse_on s \<and> k \<in> set reuse_flags
      | Min_Runs t \<Rightarrow> reuse_on s
      | Toggle_Trajectory i \<Rightarrow> reuse_on s \<and> i \<in> (\<lambda>t. fld t ''id'') ` set (trajectories s)
      | Delete_Trajectory i \<Rightarrow> reuse_on s \<and> i \<in> (\<lambda>t. fld t ''id'') ` set (trajectories s)
      | Expand_Trajectory i \<Rightarrow> i \<in> (\<lambda>t. fld t ''id'') ` set (trajectories s)
      | _ \<Rightarrow> True)"

definition memory_do :: "memory_edit \<Rightarrow> memory_state \<Rightarrow> memory_state" where
  "memory_do e s =
     (case e of
        Disable_Memory b \<Rightarrow> disable_memory b s
      | Enable_Memory b \<Rightarrow> put_memory ''enableMemory'' (JBool b) s
      | Max_Items t \<Rightarrow> put_memory ''maxMemoryItems'' (int_value t) s
      | Memory_Flag k b \<Rightarrow> put_memory k (JBool b) s
      | Item_Text t \<Rightarrow> s\<lparr>me_item := t\<rparr>
      | Add_Item \<Rightarrow> add_blocked_item s
      | Remove_Item x \<Rightarrow> remove_blocked_item x s
      | Reuse_Enabled b \<Rightarrow> put_reuse ''enabled'' (JBool b) s
      | Reuse_Flag k b \<Rightarrow> put_reuse k (JBool b) s
      | Min_Runs t \<Rightarrow> put_reuse ''minSuccessfulRuns'' (int_value t) s
      | Toggle_Trajectory i \<Rightarrow> toggle_trajectory i s
      | Delete_Trajectory i \<Rightarrow> delete_trajectory i s
      | Expand_Trajectory i \<Rightarrow> s\<lparr>me_expanded := (if me_expanded s = Some i then None else Some i)\<rparr>)"

definition memory_dialog :: "(memory_state, memory_edit) dialog_kind" where
  "memory_dialog = \<lparr>dk_url = ''/api/config/memory'', dk_first = memory_first, dk_reads = read_memory,
     dk_allows = memory_allows, dk_edit = memory_do, dk_body = me_config\<rparr>"

section \<open>What is drawn\<close>

record trajectory_view =
  tv_on :: bool
  tv_name :: jv
  tv_description :: jv
  tv_confidence :: jv
  tv_params :: nat
  tv_details :: "((jv \<times> jv \<times> bool \<times> jv option) list \<times> jv \<times> string) option"

definition param_row :: "jv \<Rightarrow> jv \<times> jv \<times> bool \<times> jv option" where
  "param_row p = (fld p ''name'', fld p ''type'', truthy (fld p ''required''),
     if truthy (fld p ''description'') then Some (fld p ''description'') else None)"

definition draw_trajectory :: "(jv \<Rightarrow> string) \<Rightarrow> jv option \<Rightarrow> jv \<Rightarrow> trajectory_view" where
  "draw_trajectory date expanded t =
     \<lparr>tv_on = truthy (fld t ''enabled''), tv_name = fld t ''name'', tv_description = fld t ''description'',
      tv_confidence = fld t ''confidence'', tv_params = length (items (fld t ''parameters'')),
      tv_details = (if expanded = Some (fld t ''id'')
        then Some (map param_row (items (fld t ''parameters'')), fld t ''minInteractions'', date (fld t ''createdAt'')) else None)\<rparr>"

definition draw_memory :: "(jv \<Rightarrow> string) \<Rightarrow> memory_state \<Rightarrow> jv list \<times> trajectory_view list" where
  "draw_memory date s = (blocked s, map (draw_trajectory date (me_expanded s)) (trajectories s))"

section \<open>What the controls keep\<close>

definition memory_fine :: "jv \<Rightarrow> bool" where
  "memory_fine c \<longleftrightarrow>
     \<not> (truthy (fld c ''enableMemory'') \<and> truthy (fld c ''disableMemory''))
     \<and> distinct (items (fld c ''blockedMemoryItems''))
     \<and> (\<forall>x \<in> set (items (fld c ''blockedMemoryItems'')). \<exists>t. x = JStr t \<and> t \<noteq> [] \<and> trim t = t)"

definition memory_shape :: "jv \<Rightarrow> bool" where
  "memory_shape c \<longleftrightarrow> (\<exists>fs. c = JObj fs \<and> map fst fs = map fst memory_defaults
     \<and> (\<forall>k \<in> fst ` set memory_defaults. k \<noteq> ''maxMemoryItems'' \<longrightarrow> \<not> nullish (fld c k))
     \<and> fld c ''maxMemoryItems'' \<noteq> JUndef)"

definition memory_ok :: "memory_state \<Rightarrow> bool" where
  "memory_ok s \<longleftrightarrow> memory_shape (me_config s) \<and> memory_fine (me_config s)"

text \<open>What the server may give: a value whose fields, with the defaults, are as the dialog leaves them.\<close>

definition memory_served :: "jv \<Rightarrow> bool" where
  "memory_served v \<longleftrightarrow> \<not> nullish v \<and> memory_fine (read_fields memory_defaults v)"

lemma defaults_distinct: "distinct (map fst memory_defaults)"
  by (simp add: memory_defaults_def)

lemma defaults_fine: "(k, d) \<in> set memory_defaults \<Longrightarrow> \<not> nullish d"
  by (auto simp: memory_defaults_def default_reuse_def)

lemma read_shape: "memory_shape (read_fields memory_defaults v)"
proof -
  have "\<not> nullish (fld (read_fields memory_defaults v) k)" if k: "(k, d) \<in> set memory_defaults" for k d
    using fld_read [OF defaults_distinct k] js_nullor_fine [OF defaults_fine [OF k]] by metis
  moreover have "fld (read_fields memory_defaults v) ''maxMemoryItems'' \<noteq> JUndef"
    using fld_read [OF defaults_distinct, of "''maxMemoryItems''" "JNum 100" v] js_nullor_fine [of "JNum 100" "fld v ''maxMemoryItems''"]
    by (auto simp: memory_defaults_def)
  ultimately show ?thesis
    unfolding memory_shape_def by (auto simp: read_fields_def comp_def split_beta)
qed

lemma put_shape:
  assumes "memory_shape c" "k \<in> fst ` set memory_defaults" "k = ''maxMemoryItems'' \<or> \<not> nullish v" "v \<noteq> JUndef"
  shows "memory_shape (put k v c)"
proof -
  obtain fs where fs: "c = JObj fs" "map fst fs = map fst memory_defaults" using assms(1) by (auto simp: memory_shape_def)
  then have "k \<in> fst ` set fs" using assms(2) by (metis list.set_map)
  then have k: "map fst (al_set k v fs) = map fst memory_defaults" using fs(2) by (simp add: map_fst_al_set_in)
  have "\<not> nullish (fld (JObj (al_set k v fs)) j)" if "j \<in> fst ` set memory_defaults" "j \<noteq> ''maxMemoryItems''" for j
    using that assms(1,3) by (auto simp: memory_shape_def fs(1))
  moreover have "fld (JObj (al_set k v fs)) ''maxMemoryItems'' \<noteq> JUndef"
    using assms(1,4) by (auto simp: memory_shape_def fs(1))
  ultimately show ?thesis using k by (auto simp: memory_shape_def fs(1))
qed

definition with_limit :: "jv \<Rightarrow> jv" where
  "with_limit c = (if fld c ''maxMemoryItems'' = JNull then put ''maxMemoryItems'' (JNum 100) c else c)"

lemma read_again:
  assumes "memory_shape c"
  shows "read_fields memory_defaults c = with_limit c"
proof -
  obtain fs where fs: "c = JObj fs" "map fst fs = map fst memory_defaults"
    and full: "\<forall>k \<in> fst ` set memory_defaults. k \<noteq> ''maxMemoryItems'' \<longrightarrow> \<not> nullish (fld c k)"
    and lim: "fld c ''maxMemoryItems'' \<noteq> JUndef"
    using assms by (auto simp: memory_shape_def)
  have "(''maxMemoryItems'', JNum 100) \<in> set memory_defaults" by (simp add: memory_defaults_def)
  from read_fields_one [OF fs(2) defaults_distinct this] full
  have "read_fields memory_defaults c = put ''maxMemoryItems'' (js_nullor (fld c ''maxMemoryItems'') (JNum 100)) c"
    by (simp add: fs(1))
  moreover have "put ''maxMemoryItems'' (fld c ''maxMemoryItems'') c = c"
  proof -
    have "''maxMemoryItems'' \<in> set (map fst fs)" unfolding fs(2) by (simp add: memory_defaults_def)
    moreover have "distinct (map fst fs)" unfolding fs(2) by (rule defaults_distinct)
    ultimately show ?thesis using put_same [of fs "''maxMemoryItems''"] by (simp only: fs(1) list.set_map)
  qed
  ultimately show ?thesis using lim by (cases "fld c ''maxMemoryItems''") (auto simp: with_limit_def js_nullor_def)
qed


lemma shape_obj: "memory_shape c \<Longrightarrow> is_obj c"
  by (auto simp: memory_shape_def)

lemma put_memory_ok:
  assumes "memory_ok s" "k \<in> fst ` set memory_defaults" "k = ''maxMemoryItems'' \<or> \<not> nullish v" "v \<noteq> JUndef"
    "memory_fine (put k v (me_config s))"
  shows "memory_ok (put_memory k v s)"
  using assms put_shape [of "me_config s" k v] by (simp add: memory_ok_def put_memory_def)

lemma put_plain_ok:
  assumes "memory_ok s" "k \<in> fst ` set memory_defaults" "k = ''maxMemoryItems'' \<or> \<not> nullish v" "v \<noteq> JUndef"
    "k \<notin> {''enableMemory'', ''disableMemory'', ''blockedMemoryItems''}"
  shows "memory_ok (put_memory k v s)"
  using assms shape_obj by (intro put_memory_ok) (auto simp: memory_ok_def memory_fine_def)

lemma int_value_defined: "int_value t \<noteq> JUndef"
  by (simp add: int_value_def split: option.splits)

lemma put_reuse_ok: "memory_ok s \<Longrightarrow> memory_ok (put_reuse k v s)"
  unfolding put_reuse_def by (rule put_plain_ok) (auto simp: memory_defaults_def put_def obj_with_one)

lemma disable_ok: "memory_ok s \<Longrightarrow> memory_ok (disable_memory off s)"
proof -
  assume ok: "memory_ok s"
  let ?c = "me_config s" and ?v = "if off then JBool False else fld (me_config s) ''enableMemory''"
  have sh: "memory_shape ?c" "is_obj ?c" using ok shape_obj by (auto simp: memory_ok_def)
  have v: "\<not> nullish ?v" using sh(1) by (auto simp: memory_shape_def memory_defaults_def)
  have keys: "''disableMemory'' \<in> fst ` set memory_defaults" "''enableMemory'' \<in> fst ` set memory_defaults"
    by (simp_all add: memory_defaults_def)
  have "memory_shape (put ''disableMemory'' (JBool off) ?c)" using put_shape [OF sh(1) keys(1)] by simp
  then have "memory_shape (put ''enableMemory'' ?v (put ''disableMemory'' (JBool off) ?c))"
    using put_shape [OF _ keys(2)] v by (metis nullish.simps(1))
  then show ?thesis using ok sh(2) by (auto simp: memory_ok_def disable_memory_def obj_with_two memory_fine_def)
qed

lemma add_blocked_ok: "memory_ok s \<Longrightarrow> memory_ok (add_blocked_item s)"
proof -
  assume ok: "memory_ok s"
  let ?t = "trim (me_item s)"
  have "memory_ok (put_memory ''blockedMemoryItems'' (JArr (blocked s @ [JStr ?t])) s)" if "?t \<noteq> []" "JStr ?t \<notin> set (blocked s)"
  proof (rule put_memory_ok [OF ok])
    show "memory_fine (put ''blockedMemoryItems'' (JArr (blocked s @ [JStr ?t])) (me_config s))"
      using ok that shape_obj [of "me_config s"] by (auto simp: memory_ok_def memory_fine_def blocked_def trim_idem)
  qed (simp_all add: memory_defaults_def)
  then show ?thesis using ok by (auto simp: add_blocked_item_def Let_def memory_ok_def)
qed

lemma remove_blocked_ok: "memory_ok s \<Longrightarrow> memory_ok (remove_blocked_item x s)"
proof -
  assume ok: "memory_ok s"
  show ?thesis unfolding remove_blocked_item_def
  proof (rule put_memory_ok [OF ok])
    show "memory_fine (put ''blockedMemoryItems'' (JArr (filter (\<lambda>y. y \<noteq> x) (blocked s))) (me_config s))"
      using ok shape_obj [of "me_config s"] by (auto simp: memory_ok_def memory_fine_def blocked_def)
  qed (simp_all add: memory_defaults_def)
qed

lemma enable_ok: "memory_ok s \<Longrightarrow> \<not> memory_off s \<Longrightarrow> memory_ok (put_memory ''enableMemory'' (JBool b) s)"
proof -
  assume ok: "memory_ok s" "\<not> memory_off s"
  show ?thesis
  proof (rule put_memory_ok [OF ok(1)])
    show "memory_fine (put ''enableMemory'' (JBool b) (me_config s))"
      using ok shape_obj [of "me_config s"] by (auto simp: memory_ok_def memory_fine_def memory_off_def)
  qed (simp_all add: memory_defaults_def)
qed

lemma memory_ok_fields [simp]: "memory_ok (s\<lparr>me_item := t\<rparr>) = memory_ok s" "memory_ok (s\<lparr>me_expanded := i\<rparr>) = memory_ok s"
  by (simp_all add: memory_ok_def)

lemmas memory_edits_ok = put_reuse_ok disable_ok add_blocked_ok remove_blocked_ok enable_ok

interpretation memory: reopening memory_dialog memory_ok memory_served "\<lambda>s. memory_first\<lparr>me_config := with_limit (me_config s)\<rparr>"
proof
  show "memory_ok (dk_first memory_dialog)"
    using read_shape [of "JObj []"]
    by (simp add: memory_dialog_def memory_first_def memory_ok_def memory_fine_def read_fields_def js_nullor_def memory_defaults_def default_reuse_def)
next
  fix v c c' assume "memory_served v" "dk_reads memory_dialog v c = Inr c'"
  then show "memory_ok c'"
    using read_shape [of v] by (auto simp: memory_dialog_def read_memory_def get_prop_def memory_served_def memory_ok_def)
next
  fix c e assume "memory_ok c" "dk_allows memory_dialog c e"
  then show "memory_ok (dk_edit memory_dialog e c)"
    by (cases e) (auto simp: memory_dialog_def memory_do_def memory_allows_def toggle_trajectory_def delete_trajectory_def
        memory_edits_ok int_value_defined memory_defaults_def memory_flags_def intro!: put_plain_ok)
next
  fix c assume ok: "memory_ok c"
  then have sh: "memory_shape (me_config c)" "is_obj (me_config c)" using shape_obj by (auto simp: memory_ok_def)
  then show "dk_reads memory_dialog (dk_body memory_dialog c) (dk_first memory_dialog)
      = Inr (memory_first\<lparr>me_config := with_limit (me_config c)\<rparr>)"
    using read_again [of "me_config c"] by (cases "me_config c") (auto simp: memory_dialog_def read_memory_def)
  show "memory_served (dk_body memory_dialog c)"
    using ok sh read_again [of "me_config c"]
    by (cases "me_config c") (auto simp: memory_dialog_def memory_served_def memory_ok_def with_limit_def memory_fine_def)
  show "memory_first\<lparr>me_config := with_limit (me_config (memory_first\<lparr>me_config := with_limit (me_config c)\<rparr>))\<rparr>
      = memory_first\<lparr>me_config := with_limit (me_config c)\<rparr>"
    using sh by (simp add: with_limit_def)
qed

end
