(* ===== verification/Settings_Dialogs.thy ===== *)
theory Settings_Dialogs
  imports Config_Dialog
begin

text \<open>
  The dialogs of \<open>agentic_chat/src\<close> that keep the configuration as the server gives it, with
  the fields they do not know: \<open>ModelConfig.tsx\<close>, \<open>AgentBehaviorConfig.tsx\<close> and
  \<open>KnowledgeConfig.tsx\<close>.
\<close>

definition in_range :: "rat \<Rightarrow> rat \<Rightarrow> jv \<Rightarrow> bool" where
  "in_range lo hi v = (case v of JNum q \<Rightarrow> lo \<le> q \<and> q \<le> hi | _ \<Rightarrow> False)"

text \<open>An input of a range: the browser keeps its text within the bounds.\<close>

definition range_text :: "rat \<Rightarrow> rat \<Rightarrow> string \<Rightarrow> bool" where
  "range_text lo hi s = in_range lo hi (float_value s)"

section \<open>The language model\<close>

definition model_first :: jv where
  "model_first =
     JObj [(''provider'', JStr ''watsonx''), (''model'', JStr ''openai/gpt-oss-120b''), (''temperature'', JNum (7 / 10)),
           (''maxTokens'', JNum 4096), (''topP'', JNum 1)]"

definition model_providers :: "string list" where
  "model_providers = [''anthropic'', ''openai'', ''azure'', ''watsonx'', ''ollama'']"

datatype model_edit =
    Set_Provider string | Set_Model string | Set_Temperature string | Set_Max_Tokens string | Set_Top_P string | Set_Api_Key string

definition model_allows :: "jv \<Rightarrow> model_edit \<Rightarrow> bool" where
  "model_allows c e =
     (case e of
        Set_Provider p \<Rightarrow> p \<in> set model_providers
      | Set_Temperature t \<Rightarrow> range_text 0 2 t
      | Set_Top_P t \<Rightarrow> range_text 0 1 t
      | Set_Api_Key k \<Rightarrow> fld c ''provider'' \<noteq> JStr ''ollama''
      | _ \<Rightarrow> True)"

definition model_do :: "model_edit \<Rightarrow> jv \<Rightarrow> jv" where
  "model_do e c =
     (case e of
        Set_Provider p \<Rightarrow> put ''provider'' (JStr p) c
      | Set_Model m \<Rightarrow> put ''model'' (JStr m) c
      | Set_Temperature t \<Rightarrow> put ''temperature'' (float_value t) c
      | Set_Max_Tokens t \<Rightarrow> put ''maxTokens'' (int_value t) c
      | Set_Top_P t \<Rightarrow> put ''topP'' (float_value t) c
      | Set_Api_Key k \<Rightarrow> put ''apiKey'' (JStr k) c)"

definition keep_data :: "jv \<Rightarrow> jv \<Rightarrow> exn + jv" where
  "keep_data data c = Inr data"

definition model_dialog :: "(jv, model_edit) dialog_kind" where
  "model_dialog = \<lparr>dk_url = ''/api/config/model'', dk_first = model_first, dk_reads = keep_data,
     dk_allows = model_allows, dk_edit = model_do, dk_body = (\<lambda>c. c)\<rparr>"

text \<open>What the dialog shows: the labels name the values of the ranges.\<close>

record model_view =
  mv_provider :: jv
  mv_model :: jv
  mv_temperature :: jv
  mv_tokens :: jv
  mv_top :: jv
  mv_key :: "jv option"

definition draw_model :: "jv \<Rightarrow> model_view" where
  "draw_model c =
     \<lparr>mv_provider = fld c ''provider'', mv_model = fld c ''model'', mv_temperature = fld c ''temperature'',
      mv_tokens = fld c ''maxTokens'', mv_top = fld c ''topP'',
      mv_key = (if fld c ''provider'' \<noteq> JStr ''ollama'' then Some (js_or (fld c ''apiKey'') (JStr [])) else None)\<rparr>"

section \<open>The behaviour of the agent\<close>

definition behavior_first :: jv where
  "behavior_first =
     JObj [(''useVisionOnUI'', JBool True), (''useSOMOnWeb'', JBool True), (''decompositionStrategy'', JStr ''adaptive'')]"

definition strategies :: "string list" where
  "strategies = [''sequential'', ''parallel'', ''hierarchical'', ''adaptive'']"

datatype behavior_edit = Use_Vision bool | Use_Som bool | Set_Strategy string

definition behavior_allows :: "jv \<Rightarrow> behavior_edit \<Rightarrow> bool" where
  "behavior_allows c e = (case e of Set_Strategy s \<Rightarrow> s \<in> set strategies | _ \<Rightarrow> True)"

definition behavior_do :: "behavior_edit \<Rightarrow> jv \<Rightarrow> jv" where
  "behavior_do e c =
     (case e of
        Use_Vision b \<Rightarrow> put ''useVisionOnUI'' (JBool b) c
      | Use_Som b \<Rightarrow> put ''useSOMOnWeb'' (JBool b) c
      | Set_Strategy s \<Rightarrow> put ''decompositionStrategy'' (JStr s) c)"

definition behavior_dialog :: "(jv, behavior_edit) dialog_kind" where
  "behavior_dialog = \<lparr>dk_url = ''/api/agent/behavior'', dk_first = behavior_first, dk_reads = keep_data,
     dk_allows = behavior_allows, dk_edit = behavior_do, dk_body = (\<lambda>c. c)\<rparr>"

definition draw_behavior :: "jv \<Rightarrow> bool \<times> bool \<times> jv" where
  "draw_behavior c = (truthy (fld c ''useVisionOnUI''), truthy (fld c ''useSOMOnWeb''), fld c ''decompositionStrategy'')"

section \<open>The knowledge of the agent\<close>

definition knowledge_first :: jv where
  "knowledge_first =
     JObj [(''sources'', JArr []), (''embeddingModel'', JStr ''text-embedding-3-small''), (''chunkSize'', JNum 1000),
           (''chunkOverlap'', JNum 200)]"

definition embedding_models :: "string list" where
  "embedding_models = [''text-embedding-3-small'', ''text-embedding-3-large'', ''text-embedding-ada-002'']"

definition source_types :: "string list" where
  "source_types = [''file'', ''url'', ''database'']"

definition sources_of :: "jv \<Rightarrow> jv list" where
  "sources_of c = items (fld c ''sources'')"

definition source_ids :: "jv \<Rightarrow> jv list" where
  "source_ids c = map (\<lambda>x. fld x ''id'') (sources_of c)"

definition add_source :: "string \<Rightarrow> jv \<Rightarrow> jv" where
  "add_source now c =
     put ''sources'' (JArr (sources_of c @
       [JObj [(''id'', JStr now), (''name'', JStr ''New Source''), (''type'', JStr ''file''), (''enabled'', JBool True)]])) c"

definition update_source :: "jv \<Rightarrow> string \<Rightarrow> jv \<Rightarrow> jv \<Rightarrow> jv" where
  "update_source ident k v c =
     put ''sources'' (JArr (map (\<lambda>x. if fld x ''id'' = ident then put k v x else x) (sources_of c))) c"

definition remove_source :: "jv \<Rightarrow> jv \<Rightarrow> jv" where
  "remove_source ident c = put ''sources'' (JArr (filter (\<lambda>x. fld x ''id'' \<noteq> ident) (sources_of c))) c"

datatype knowledge_edit =
    Set_Embedding string | Set_Chunk_Size string | Set_Overlap string | Add_Source string
  | Source_Enabled jv bool | Source_Name jv string | Source_Type jv string | Source_Path jv string | Source_Url jv string
  | Remove_Source jv

text \<open>
  A source is added under the text of the clock, which moves on between two presses of the
  button; the inputs of a path and of an address are those of sources of that type.
\<close>

definition knowledge_allows :: "jv \<Rightarrow> knowledge_edit \<Rightarrow> bool" where
  "knowledge_allows c e =
     (case e of
        Set_Embedding m \<Rightarrow> m \<in> set embedding_models
      | Add_Source now \<Rightarrow> JStr now \<notin> set (source_ids c)
      | Source_Enabled i b \<Rightarrow> i \<in> set (source_ids c)
      | Source_Name i s \<Rightarrow> i \<in> set (source_ids c)
      | Source_Type i t \<Rightarrow> i \<in> set (source_ids c) \<and> t \<in> set source_types
      | Source_Path i p \<Rightarrow> (\<exists>x \<in> set (sources_of c). fld x ''id'' = i \<and> fld x ''type'' = JStr ''file'')
      | Source_Url i u \<Rightarrow> (\<exists>x \<in> set (sources_of c). fld x ''id'' = i \<and> fld x ''type'' = JStr ''url'')
      | Remove_Source i \<Rightarrow> i \<in> set (source_ids c)
      | _ \<Rightarrow> True)"

definition knowledge_do :: "knowledge_edit \<Rightarrow> jv \<Rightarrow> jv" where
  "knowledge_do e c =
     (case e of
        Set_Embedding m \<Rightarrow> put ''embeddingModel'' (JStr m) c
      | Set_Chunk_Size t \<Rightarrow> put ''chunkSize'' (int_value t) c
      | Set_Overlap t \<Rightarrow> put ''chunkOverlap'' (int_value t) c
      | Add_Source now \<Rightarrow> add_source now c
      | Source_Enabled i b \<Rightarrow> update_source i ''enabled'' (JBool b) c
      | Source_Name i s \<Rightarrow> update_source i ''name'' (JStr s) c
      | Source_Type i t \<Rightarrow> update_source i ''type'' (JStr t) c
      | Source_Path i p \<Rightarrow> update_source i ''path'' (JStr p) c
      | Source_Url i u \<Rightarrow> update_source i ''url'' (JStr u) c
      | Remove_Source i \<Rightarrow> remove_source i c)"

definition knowledge_dialog :: "(jv, knowledge_edit) dialog_kind" where
  "knowledge_dialog = \<lparr>dk_url = ''/api/config/knowledge'', dk_first = knowledge_first, dk_reads = keep_data,
     dk_allows = knowledge_allows, dk_edit = knowledge_do, dk_body = (\<lambda>c. c)\<rparr>"

record source_view =
  sv_enabled :: bool
  sv_name :: jv
  sv_type :: jv
  sv_path :: "jv option"
  sv_url :: "jv option"

definition draw_source :: "jv \<Rightarrow> source_view" where
  "draw_source x =
     \<lparr>sv_enabled = truthy (fld x ''enabled''), sv_name = fld x ''name'', sv_type = fld x ''type'',
      sv_path = (if fld x ''type'' = JStr ''file'' then Some (js_or (fld x ''path'') (JStr [])) else None),
      sv_url = (if fld x ''type'' = JStr ''url'' then Some (js_or (fld x ''url'') (JStr [])) else None)\<rparr>"

text \<open>The empty state is shown below the list when there is no source.\<close>

definition draw_knowledge :: "jv \<Rightarrow> jv \<times> jv \<times> jv \<times> source_view list \<times> bool" where
  "draw_knowledge c =
     (fld c ''embeddingModel'', fld c ''chunkSize'', fld c ''chunkOverlap'', map draw_source (sources_of c), sources_of c = [])"

section \<open>What the controls keep\<close>

definition model_ok :: "jv \<Rightarrow> bool" where
  "model_ok c \<longleftrightarrow> is_obj c \<and> in_range 0 2 (fld c ''temperature'') \<and> in_range 0 1 (fld c ''topP'')"

interpretation model: reopening model_dialog model_ok model_ok "\<lambda>c. c"
proof
  fix c e assume "model_ok c" "dk_allows model_dialog c e"
  then show "model_ok (dk_edit model_dialog e c)"
    by (cases e) (auto simp: model_dialog_def model_do_def model_allows_def model_ok_def range_text_def)
qed (auto simp: model_dialog_def keep_data_def model_ok_def model_first_def in_range_def)

definition behavior_ok :: "jv \<Rightarrow> bool" where
  "behavior_ok c \<longleftrightarrow> is_obj c \<and> fld c ''decompositionStrategy'' \<in> JStr ` set strategies"

interpretation behavior: reopening behavior_dialog behavior_ok behavior_ok "\<lambda>c. c"
proof
  fix c e assume "behavior_ok c" "dk_allows behavior_dialog c e"
  then show "behavior_ok (dk_edit behavior_dialog e c)"
    by (cases e) (auto simp: behavior_dialog_def behavior_do_def behavior_allows_def behavior_ok_def)
qed (auto simp: behavior_dialog_def keep_data_def behavior_ok_def behavior_first_def strategies_def)

definition knowledge_ok :: "jv \<Rightarrow> bool" where
  "knowledge_ok c \<longleftrightarrow> is_obj c \<and> distinct (source_ids c) \<and> (\<forall>x \<in> set (sources_of c). is_obj x \<and> fld x ''type'' \<in> JStr ` set source_types)"

lemma sources_put [simp]:
  "is_obj c \<Longrightarrow> sources_of (put k v c) = (if k = ''sources'' then items v else sources_of c)"
  by (simp add: sources_of_def)

lemma update_source_ids: "k \<noteq> ''id'' \<Longrightarrow> is_obj c \<Longrightarrow> \<forall>x \<in> set (sources_of c). is_obj x \<Longrightarrow> source_ids (update_source i k v c) = source_ids c"
  by (auto simp: source_ids_def update_source_def)

lemma update_source_ok:
  assumes "knowledge_ok c" "k \<noteq> ''id''" "k = ''type'' \<Longrightarrow> v \<in> JStr ` set source_types"
  shows "knowledge_ok (update_source i k v c)"
  using assms update_source_ids [of k c i v] by (auto simp: knowledge_ok_def) (auto simp: update_source_def)

interpretation knowledge: reopening knowledge_dialog knowledge_ok knowledge_ok "\<lambda>c. c"
proof
  fix c e assume ok: "knowledge_ok c" and al: "dk_allows knowledge_dialog c e"
  show "knowledge_ok (dk_edit knowledge_dialog e c)"
  proof (cases e)
    case (Add_Source now)
    then show ?thesis using ok al
      by (auto simp: knowledge_dialog_def knowledge_do_def knowledge_allows_def add_source_def knowledge_ok_def source_ids_def source_types_def)
  next
    case (Remove_Source i)
    then show ?thesis using ok
      by (auto simp: knowledge_dialog_def knowledge_do_def remove_source_def knowledge_ok_def source_ids_def distinct_map inj_on_def)
  qed (use ok al in \<open>auto simp: knowledge_dialog_def knowledge_do_def knowledge_allows_def intro!: update_source_ok\<close>,
       (auto simp: knowledge_ok_def source_ids_def)?)
qed (auto simp: knowledge_dialog_def keep_data_def knowledge_ok_def knowledge_first_def source_ids_def sources_of_def)

end
