(* ===== verification/Human_Config.thy ===== *)
theory Human_Config
  imports Memory_Config Settings_Dialogs
begin

text \<open>
  The dialog of the interaction with the user, \<open>agentic_chat/src/AgentHumanConfig.tsx\<close>: the
  autonomy of the agent, what needs a confirmation, and the rules of when to ask.
\<close>

section \<open>The configuration\<close>

definition default_confirmations :: jv where
  "default_confirmations =
     JObj [(''approvalOfPlans'', JBool True), (''criticalActions'', JBool True), (''financialTransactions'', JBool True),
           (''dataModification'', JBool False), (''externalCommunication'', JBool True), (''longRunningTasks'', JBool False)]"

definition default_learning :: jv where
  "default_learning =
     JObj [(''enabled'', JBool False), (''startWithHighOversight'', JBool True), (''learningRate'', JNum 50),
           (''confidenceThreshold'', JNum 85), (''memoryBased'', JBool True), (''trackSuccessRate'', JBool True),
           (''minInteractionsBeforeLearning'', JNum 10)]"

definition human_defaults :: "(string \<times> jv) list" where
  "human_defaults =
     [(''autonomyLevel'', JNum 2), (''humanInTheLoop'', JBool True), (''requireConfirmationFor'', default_confirmations),
      (''interventionRules'', JArr []), (''clarificationThreshold'', JNum 70), (''autoApproveSimpleTasks'', JBool True),
      (''escalationEnabled'', JBool True), (''adaptiveLearning'', default_learning)]"

record human_state =
  hu_config :: jv
  hu_rule :: string

definition human_first :: human_state where
  "human_first = \<lparr>hu_config = JObj human_defaults, hu_rule = []\<rparr>"

definition read_human :: "jv \<Rightarrow> human_state \<Rightarrow> exn + human_state" where
  "read_human data s =
     try_bind (get_prop data ''autonomyLevel'') (\<lambda>_. Inr (s\<lparr>hu_config := read_fields human_defaults data\<rparr>))"

section \<open>Edits\<close>

definition put_human :: "string \<Rightarrow> jv \<Rightarrow> human_state \<Rightarrow> human_state" where
  "put_human k v s = s\<lparr>hu_config := put k v (hu_config s)\<rparr>"

definition rules :: "human_state \<Rightarrow> jv list" where
  "rules s = items (fld (hu_config s) ''interventionRules'')"

definition put_part :: "string \<Rightarrow> string \<Rightarrow> jv \<Rightarrow> human_state \<Rightarrow> human_state" where
  "put_part part k v s = put_human part (put k v (fld (hu_config s) part)) s"

definition add_rule :: "string \<Rightarrow> human_state \<Rightarrow> human_state" where
  "add_rule now s =
     (let t = trim (hu_rule s)
      in if t \<noteq> []
         then (put_human ''interventionRules'' (JArr (rules s @
                 [JObj [(''id'', JStr now), (''condition'', JStr t), (''enabled'', JBool True)]])) s)\<lparr>hu_rule := []\<rparr>
         else s)"

definition remove_rule :: "jv \<Rightarrow> human_state \<Rightarrow> human_state" where
  "remove_rule i s = put_human ''interventionRules'' (JArr (filter (\<lambda>r. fld r ''id'' \<noteq> i) (rules s))) s"

definition toggle_rule :: "jv \<Rightarrow> human_state \<Rightarrow> human_state" where
  "toggle_rule i s =
     put_human ''interventionRules''
       (JArr (map (\<lambda>r. if fld r ''id'' = i then put ''enabled'' (JBool (\<not> truthy (fld r ''enabled''))) r else r) (rules s))) s"

definition confirmation_keys :: "string list" where
  "confirmation_keys = map fst (obj_fields default_confirmations)"

definition learning_flags :: "string list" where
  "learning_flags = [''startWithHighOversight'', ''memoryBased'', ''trackSuccessRate'']"

datatype human_edit =
    Set_Autonomy string | Human_In_Loop bool | Auto_Approve bool | Escalation bool | Confirm string bool
  | Rule_Text string | Add_Rule string | Remove_Rule jv | Toggle_Rule jv
  | Learning_Enabled bool | Learning_Flag string bool | Min_Interactions string

definition in_loop :: "human_state \<Rightarrow> bool" where
  "in_loop s \<longleftrightarrow> truthy (fld (hu_config s) ''humanInTheLoop'')"

definition learns :: "human_state \<Rightarrow> bool" where
  "learns s \<longleftrightarrow> truthy (fld (fld (hu_config s) ''adaptiveLearning'') ''enabled'')"

text \<open>The range of the autonomy has three steps.\<close>

definition human_allows :: "human_state \<Rightarrow> human_edit \<Rightarrow> bool" where
  "human_allows s e =
     (case e of
        Set_Autonomy t \<Rightarrow> t \<in> {''1'', ''2'', ''3''}
      | Human_In_Loop b \<Rightarrow> True
      | Confirm k b \<Rightarrow> in_loop s \<and> k \<in> set confirmation_keys
      | Remove_Rule i \<Rightarrow> in_loop s \<and> i \<in> (\<lambda>r. fld r ''id'') ` set (rules s)
      | Toggle_Rule i \<Rightarrow> in_loop s \<and> i \<in> (\<lambda>r. fld r ''id'') ` set (rules s)
      | Learning_Flag k b \<Rightarrow> in_loop s \<and> learns s \<and> k \<in> set learning_flags
      | Min_Interactions t \<Rightarrow> in_loop s \<and> learns s
      | _ \<Rightarrow> in_loop s)"

definition human_do :: "human_edit \<Rightarrow> human_state \<Rightarrow> human_state" where
  "human_do e s =
     (case e of
        Set_Autonomy t \<Rightarrow> put_human ''autonomyLevel'' (int_value t) s
      | Human_In_Loop b \<Rightarrow> put_human ''humanInTheLoop'' (JBool b) s
      | Auto_Approve b \<Rightarrow> put_human ''autoApproveSimpleTasks'' (JBool b) s
      | Escalation b \<Rightarrow> put_human ''escalationEnabled'' (JBool b) s
      | Confirm k b \<Rightarrow> put_part ''requireConfirmationFor'' k (JBool b) s
      | Rule_Text t \<Rightarrow> s\<lparr>hu_rule := t\<rparr>
      | Add_Rule now \<Rightarrow> add_rule now s
      | Remove_Rule i \<Rightarrow> remove_rule i s
      | Toggle_Rule i \<Rightarrow> toggle_rule i s
      | Learning_Enabled b \<Rightarrow> put_part ''adaptiveLearning'' ''enabled'' (JBool b) s
      | Learning_Flag k b \<Rightarrow> put_part ''adaptiveLearning'' k (JBool b) s
      | Min_Interactions t \<Rightarrow> put_part ''adaptiveLearning'' ''minInteractionsBeforeLearning'' (int_value t) s)"

definition human_dialog :: "(human_state, human_edit) dialog_kind" where
  "human_dialog = \<lparr>dk_url = ''/api/config/agent-human'', dk_first = human_first, dk_reads = read_human,
     dk_allows = human_allows, dk_edit = human_do, dk_body = hu_config\<rparr>"

definition autonomy_label :: "jv \<Rightarrow> string" where
  "autonomy_label level =
     (if level = JNum 1 then ''Safe - Always Asks'' else if level = JNum 3 then ''Risky - Rarely Asks''
      else ''Balanced - Sometimes Asks'')"

definition autonomy_color :: "jv \<Rightarrow> string" where
  "autonomy_color level =
     (if level = JNum 1 then ''#10b981'' else if level = JNum 3 then ''#ef4444'' else ''#f59e0b'')"

text \<open>The icons beside the range are coloured at its ends only.\<close>

record human_view =
  hv_label :: string
  hv_color :: string
  hv_icons :: "string \<times> string"
  hv_confirm :: "(string \<times> bool) list"
  hv_rules :: "(bool \<times> jv) list"
  hv_locked :: bool
  hv_learning_locked :: bool
  hv_add_locked :: bool

definition draw_human :: "human_state \<Rightarrow> human_view" where
  "draw_human s =
     (let level = fld (hu_config s) ''autonomyLevel'' in
      \<lparr>hv_label = autonomy_label level, hv_color = autonomy_color level,
       hv_icons = (if level = JNum 1 then autonomy_color level else ''#cbd5e1'', if level = JNum 3 then autonomy_color level else ''#cbd5e1''),
       hv_confirm = map (\<lambda>k. (k, truthy (fld (fld (hu_config s) ''requireConfirmationFor'') k))) confirmation_keys,
       hv_rules = map (\<lambda>r. (truthy (fld r ''enabled''), fld r ''condition'')) (rules s),
       hv_locked = (\<not> in_loop s), hv_learning_locked = (\<not> learns s \<or> \<not> in_loop s),
       hv_add_locked = (\<not> in_loop s \<or> trim (hu_rule s) = [])\<rparr>)"

section \<open>What the controls keep\<close>

definition human_fine :: "jv \<Rightarrow> bool" where
  "human_fine c \<longleftrightarrow> fld c ''autonomyLevel'' \<in> {JNum 1, JNum 2, JNum 3}
     \<and> (\<forall>r \<in> set (items (fld c ''interventionRules'')). is_obj r \<and> (\<exists>t. fld r ''condition'' = JStr t \<and> t \<noteq> [] \<and> trim t = t))"

definition human_shape :: "jv \<Rightarrow> bool" where
  "human_shape c \<longleftrightarrow> (\<exists>fs. c = JObj fs \<and> map fst fs = map fst human_defaults \<and> (\<forall>k \<in> fst ` set human_defaults. \<not> nullish (fld c k)))"

definition human_ok :: "human_state \<Rightarrow> bool" where
  "human_ok s \<longleftrightarrow> human_shape (hu_config s) \<and> human_fine (hu_config s)"

definition human_served :: "jv \<Rightarrow> bool" where
  "human_served v \<longleftrightarrow> \<not> nullish v \<and> human_fine (read_fields human_defaults v)"

lemma human_distinct: "distinct (map fst human_defaults)"
  by (simp add: human_defaults_def)

lemma human_defaults_set: "(k, d) \<in> set human_defaults \<Longrightarrow> \<not> nullish d"
  by (auto simp: human_defaults_def default_confirmations_def default_learning_def)

lemma human_read_shape: "human_shape (read_fields human_defaults v)"
proof -
  have "\<not> nullish (fld (read_fields human_defaults v) k)" if k: "(k, d) \<in> set human_defaults" for k d
    using fld_read [OF human_distinct k] js_nullor_fine [OF human_defaults_set [OF k]] by metis
  then show ?thesis unfolding human_shape_def by (auto simp: read_fields_def comp_def split_beta)
qed

lemma human_read_again:
  assumes "human_shape c"
  shows "read_fields human_defaults c = c"
proof -
  obtain fs where fs: "c = JObj fs" "map fst fs = map fst human_defaults" "\<forall>k \<in> fst ` set human_defaults. \<not> nullish (fld c k)"
    using assms by (auto simp: human_shape_def)
  have m: "(''autonomyLevel'', JNum 2) \<in> set human_defaults" by (simp add: human_defaults_def)
  then have k: "''autonomyLevel'' \<in> fst ` set human_defaults" by (metis fst_conv image_eqI)
  have "''autonomyLevel'' \<in> set (map fst fs)" "distinct (map fst fs)"
    unfolding fs(2) using k human_distinct by simp_all
  then have "put ''autonomyLevel'' (fld c ''autonomyLevel'') c = c" by (simp only: fs(1) put_same list.set_map)
  moreover have "js_nullor (fld c ''autonomyLevel'') (JNum 2) = fld c ''autonomyLevel''"
    using bspec [OF fs(3) k] by (simp add: js_nullor_def)
  ultimately show ?thesis
    using read_fields_one [OF fs(2) human_distinct m] fs(1,3) by simp
qed

lemma human_put_shape:
  assumes "human_shape c" "k \<in> fst ` set human_defaults" "\<not> nullish v"
  shows "human_shape (put k v c)"
proof -
  obtain fs where fs: "c = JObj fs" "map fst fs = map fst human_defaults" using assms(1) by (auto simp: human_shape_def)
  then have "k \<in> fst ` set fs" using assms(2) by (metis list.set_map)
  then have "map fst (al_set k v fs) = map fst human_defaults" using fs(2) by (simp add: map_fst_al_set_in)
  then show ?thesis using assms by (auto simp: human_shape_def fs(1))
qed

lemma put_human_ok:
  assumes "human_ok s" "k \<in> fst ` set human_defaults" "\<not> nullish v" "human_fine (put k v (hu_config s))"
  shows "human_ok (put_human k v s)"
  using assms human_put_shape by (simp add: human_ok_def put_human_def)

lemma put_human_plain:
  assumes "human_ok s" "k \<in> fst ` set human_defaults" "\<not> nullish v" "k \<notin> {''autonomyLevel'', ''interventionRules''}"
  shows "human_ok (put_human k v s)"
  using assms by (intro put_human_ok) (auto simp: human_ok_def human_fine_def human_shape_def)

lemma put_rules_ok:
  assumes "human_ok s" "\<forall>r \<in> set rs. is_obj r \<and> (\<exists>t. fld r ''condition'' = JStr t \<and> t \<noteq> [] \<and> trim t = t)"
  shows "human_ok (put_human ''interventionRules'' (JArr rs) s)"
  using assms by (intro put_human_ok) (auto simp: human_ok_def human_fine_def human_shape_def human_defaults_def)

lemma rules_fine: "human_ok s \<Longrightarrow> r \<in> set (rules s) \<Longrightarrow> is_obj r \<and> (\<exists>t. fld r ''condition'' = JStr t \<and> t \<noteq> [] \<and> trim t = t)"
  by (auto simp: human_ok_def human_fine_def rules_def)

lemma add_rule_ok: "human_ok s \<Longrightarrow> human_ok (add_rule now s)"
proof -
  assume ok: "human_ok s"
  have "human_ok (put_human ''interventionRules'' (JArr (rules s @ [JObj [(''id'', JStr now), (''condition'', JStr (trim (hu_rule s))), (''enabled'', JBool True)]])) s)"
    if "trim (hu_rule s) \<noteq> []"
    using that rules_fine [OF ok] by (intro put_rules_ok [OF ok]) (auto simp: trim_idem)
  then show ?thesis using ok by (auto simp: add_rule_def Let_def human_ok_def)
qed

lemma other_rules_ok: "human_ok s \<Longrightarrow> human_ok (remove_rule i s)" "human_ok s \<Longrightarrow> human_ok (toggle_rule i s)"
  unfolding remove_rule_def toggle_rule_def using rules_fine by (auto intro!: put_rules_ok)

lemma put_part_ok:
  assumes "human_ok s" "part \<in> {''requireConfirmationFor'', ''adaptiveLearning''}"
  shows "human_ok (put_part part k v s)"
  unfolding put_part_def using assms by (intro put_human_plain) (auto simp: human_defaults_def put_def obj_with_one)

lemma autonomy_ok: "human_ok s \<Longrightarrow> t \<in> {''1'', ''2'', ''3''} \<Longrightarrow> human_ok (put_human ''autonomyLevel'' (int_value t) s)"
proof -
  assume ok: "human_ok s" "t \<in> {''1'', ''2'', ''3''}"
  then have v: "int_value t \<in> {JNum 1, JNum 2, JNum 3}"
    by (auto simp: int_value_def parse_int_def int_digits_def signed_def trim_start_def is_ws_def is_digit_def read_nat_def digit_val_def)
  then show ?thesis
    using ok(1) by (intro put_human_ok) (auto simp: human_ok_def human_fine_def human_shape_def human_defaults_def)
qed

lemma human_ok_rule [simp]: "human_ok (s\<lparr>hu_rule := t\<rparr>) = human_ok s"
  by (simp add: human_ok_def)

interpretation human: reopening human_dialog human_ok human_served "\<lambda>s. human_first\<lparr>hu_config := hu_config s\<rparr>"
proof
  show "human_ok (dk_first human_dialog)"
    using human_read_shape [of "JObj []"]
    by (simp add: human_dialog_def human_first_def human_ok_def human_fine_def read_fields_def js_nullor_def human_defaults_def
        default_confirmations_def default_learning_def)
next
  fix v c c' assume "human_served v" "dk_reads human_dialog v c = Inr c'"
  then show "human_ok c'"
    using human_read_shape [of v] by (auto simp: human_dialog_def read_human_def get_prop_def human_served_def human_ok_def)
next
  fix c e assume "human_ok c" "dk_allows human_dialog c e"
  then show "human_ok (dk_edit human_dialog e c)"
    by (cases e) (auto simp: human_dialog_def human_do_def human_allows_def add_rule_ok other_rules_ok put_part_ok autonomy_ok
        human_defaults_def intro!: put_human_plain)
next
  fix c assume ok: "human_ok c"
  then have sh: "human_shape (hu_config c)" "is_obj (hu_config c)" by (auto simp: human_ok_def human_shape_def)
  then show "dk_reads human_dialog (dk_body human_dialog c) (dk_first human_dialog) = Inr (human_first\<lparr>hu_config := hu_config c\<rparr>)"
    using human_read_again [of "hu_config c"] by (cases "hu_config c") (auto simp: human_dialog_def read_human_def)
  show "human_served (dk_body human_dialog c)"
    using ok sh human_read_again [of "hu_config c"]
    by (cases "hu_config c") (auto simp: human_dialog_def human_served_def human_ok_def)
qed (simp_all add: human_first_def)


section \<open>Properties of the dialogs\<close>

text \<open>
  C26. What the dialogs of the memory and of the interaction post, and they post nothing else,
  keeps their rules, if what the server gave did: memory is not enabled and disabled at once;
  the blocked items are trimmed, not empty and different from each other; the
  autonomy is 1, 2 or 3; no rule is empty.  The model keeps its ranges, the sources
  of knowledge keep different identifiers.
\<close>

theorem posted_settings_consistent:
  assumes "dialog_run memory_dialog memory_served m" "dialog_run human_dialog human_served h"
    "dialog_run model_dialog model_ok l" "dialog_run knowledge_dialog knowledge_ok k"
  shows "(\<forall>u b. Post_Config u b \<in> set (dg_requests m) \<longrightarrow> u = ''/api/config/memory'' \<and> memory_fine b)
     \<and> (\<forall>u b. Post_Config u b \<in> set (dg_requests h) \<longrightarrow> u = ''/api/config/agent-human'' \<and> human_fine b)
     \<and> (\<forall>u b. Post_Config u b \<in> set (dg_requests l) \<longrightarrow> u = ''/api/config/model'' \<and> model_ok b)
     \<and> (\<forall>u b. Post_Config u b \<in> set (dg_requests k) \<longrightarrow> u = ''/api/config/knowledge'' \<and> knowledge_ok b)"
  using memory.run_ok [OF assms(1)] human.run_ok [OF assms(2)] model.run_ok [OF assms(3)] knowledge.run_ok [OF assms(4)]
  by (auto simp: memory_dialog_def human_dialog_def model_dialog_def knowledge_dialog_def memory_ok_def human_ok_def)

theorem posted_settings_consistent_witness:
  "Post_Config ''/api/config/memory'' (JObj memory_defaults) \<in> set (dg_requests (dialog_save memory_dialog (dialog_opened memory_dialog)))
     \<and> memory_fine (JObj memory_defaults)"
proof -
  have m: "dialog_run memory_dialog memory_served (dialog_save memory_dialog (dialog_opened memory_dialog))"
    by (rule dialog_run.saved [OF dialog_run.begun]) (simp add: dialog_defs)
  have "Post_Config ''/api/config/memory'' (JObj memory_defaults)
      \<in> set (dg_requests (dialog_save memory_dialog (dialog_opened memory_dialog)))"
    by (simp add: dialog_defs memory_dialog_def memory_first_def)
  then show ?thesis
    using posted_settings_consistent [OF m dialog_run.begun dialog_run.begun dialog_run.begun] by blast
qed

text \<open>
  A configuration of the memory or of the interaction that was posted is shown again as it was
  when the dialog is opened next, except that a limit of the memory that is no number has
  become 100; posting that once more changes nothing.
\<close>

theorem settings_load_back:
  assumes "dialog_run memory_dialog memory_served m" "dialog_run human_dialog human_served h"
    "b = me_config (dg_state m)" "d = hu_config (dg_state h)"
  shows "me_config (dg_state (dialog_loaded memory_dialog (Inr (Some b)) (dialog_opened memory_dialog)))
       = (if fld b ''maxMemoryItems'' = JNull then put ''maxMemoryItems'' (JNum 100) b else b)
     \<and> me_config (dg_state (dialog_loaded memory_dialog (Inr (Some (with_limit b))) (dialog_opened memory_dialog))) = with_limit b
     \<and> hu_config (dg_state (dialog_loaded human_dialog (Inr (Some d)) (dialog_opened human_dialog))) = d"
  using memory.reopened [OF assms(1)] memory.reopened_again [OF assms(1)] human.reopened [OF assms(2)]
  by (simp add: assms(3,4) memory_dialog_def human_dialog_def with_limit_def)

theorem settings_load_back_witness:
  "let s = memory_do (Max_Items []) memory_first
   in fld (me_config s) ''maxMemoryItems'' = JNull
      \<and> me_config (dg_state (dialog_loaded memory_dialog (Inr (Some (me_config s))) (dialog_opened memory_dialog))) = JObj memory_defaults"
proof -
  let ?s = "dialog_edit memory_dialog (Max_Items []) (dialog_opened memory_dialog)"
  have m: "dialog_run memory_dialog memory_served ?s"
    by (rule dialog_run.edited [OF dialog_run.begun])
      (simp add: dialog_defs memory_dialog_def memory_allows_def memory_on_def memory_off_def memory_first_def memory_defaults_def)
  have n: "dg_state ?s = memory_do (Max_Items []) memory_first" by (simp add: dialog_defs memory_dialog_def)
  have f: "fld (me_config (memory_do (Max_Items []) memory_first)) ''maxMemoryItems'' = JNull"
    by (simp add: memory_do_def put_memory_def memory_first_def memory_defaults_def int_value_def parse_int_def int_digits_def
        signed_def trim_start_def)
  moreover have "put ''maxMemoryItems'' (JNum 100) (me_config (memory_do (Max_Items []) memory_first)) = JObj memory_defaults"
    by (simp add: memory_do_def put_memory_def memory_first_def memory_defaults_def)
  ultimately show ?thesis
    using settings_load_back [OF m dialog_run.begun refl refl] by (simp only: n Let_def simp_thms if_True)
qed

text \<open>
  A dialog whose loading failed is no different from one that loaded its defaults: its button
  saves, and what it posts in the place of the configuration of the server are the defaults.
\<close>

theorem failed_load_posts_defaults:
  assumes "r = Inl e \<or> r = Inr None"
  shows "dg_requests (dialog_save memory_dialog (dialog_loaded memory_dialog r (dialog_opened memory_dialog)))
       = [Get_Config ''/api/config/memory'', Post_Config ''/api/config/memory'' (JObj memory_defaults)]
     \<and> dg_requests (dialog_save human_dialog (dialog_loaded human_dialog r (dialog_opened human_dialog)))
       = [Get_Config ''/api/config/agent-human'', Post_Config ''/api/config/agent-human'' (JObj human_defaults)]
     \<and> dg_requests (dialog_save model_dialog (dialog_loaded model_dialog r (dialog_opened model_dialog)))
       = [Get_Config ''/api/config/model'', Post_Config ''/api/config/model'' model_first]
     \<and> dg_requests (dialog_save behavior_dialog (dialog_loaded behavior_dialog r (dialog_opened behavior_dialog)))
       = [Get_Config ''/api/agent/behavior'', Post_Config ''/api/agent/behavior'' behavior_first]
     \<and> dg_requests (dialog_save knowledge_dialog (dialog_loaded knowledge_dialog r (dialog_opened knowledge_dialog)))
       = [Get_Config ''/api/config/knowledge'', Post_Config ''/api/config/knowledge'' knowledge_first]
     \<and> save_enabled (dialog_loaded memory_dialog r (dialog_opened memory_dialog))
     \<and> dialog_run memory_dialog memory_served (dialog_save memory_dialog (dialog_loaded memory_dialog r (dialog_opened memory_dialog)))"
  by (simp add: failed_load [OF assms] memory_dialog_def human_dialog_def model_dialog_def behavior_dialog_def knowledge_dialog_def
      memory_first_def human_first_def)

theorem failed_load_posts_defaults_witness:
  "dg_requests (dialog_save model_dialog (dialog_loaded model_dialog (Inl ''down'') (dialog_opened model_dialog)))
     = [Get_Config ''/api/config/model'', Post_Config ''/api/config/model'' model_first]"
  using failed_load_posts_defaults [of "Inl ''down''"] by blast

text \<open>
  While the memory is switched off, and while the user is not in the loop, the other controls
  are without effect on what is posted: only the switch itself, and the autonomy, change it.
\<close>

theorem switched_off_locks:
  assumes "memory_off m" "memory_allows m e" "\<not> in_loop h" "human_allows h d" "is_obj (hu_config h)"
  shows "((\<forall>b. e \<noteq> Disable_Memory b) \<longrightarrow> me_config (memory_do e m) = me_config m)
     \<and> (\<forall>k. k \<notin> {''autonomyLevel'', ''humanInTheLoop''} \<longrightarrow> fld (hu_config (human_do d h)) k = fld (hu_config h) k)"
proof (rule conjI)
  show "(\<forall>b. e \<noteq> Disable_Memory b) \<longrightarrow> me_config (memory_do e m) = me_config m"
    using assms(1,2) by (cases e) (auto simp: memory_allows_def memory_do_def memory_on_def reuse_on_def)
  show "\<forall>k. k \<notin> {''autonomyLevel'', ''humanInTheLoop''} \<longrightarrow> fld (hu_config (human_do d h)) k = fld (hu_config h) k"
    using assms(3-5) by (cases d) (auto simp: human_allows_def human_do_def put_human_def)
qed

theorem switched_off_locks_witness:
  "fld (hu_config (human_do (Set_Autonomy ''3'') (human_do (Human_In_Loop False) human_first))) ''escalationEnabled'' = JBool True"
proof -
  let ?m = "memory_do (Disable_Memory True) memory_first" and ?h = "human_do (Human_In_Loop False) human_first"
  have "memory_off ?m" "memory_allows ?m (Disable_Memory False)" "\<not> in_loop ?h" "human_allows ?h (Set_Autonomy ''3'')" "is_obj (hu_config ?h)"
    by code_simp+
  from switched_off_locks [OF this] have "fld (hu_config (human_do (Set_Autonomy ''3'') ?h)) ''escalationEnabled'' = fld (hu_config ?h) ''escalationEnabled''"
    by simp
  also have "\<dots> = JBool True" by code_simp
  finally show ?thesis .
qed

end
