(* ===== verification/Sub_Agents.thy ===== *)
theory Sub_Agents
  imports Config_Dialog
begin

text \<open>
  The dialog of the sub-agents, \<open>agentic_chat/src/SubAgentsConfig.tsx\<close>.  An app is assigned in two
  parts: the press, which captures the configuration of that moment, and the reply with the tools
  of the app, which writes that configuration back with the app added.
\<close>

section \<open>The configuration\<close>

record agents_state =
  ag_config :: jv
  ag_expanded :: "jv option"
  ag_apps :: "jv list"
  ag_cache :: "(string \<times> jv list) list"
  ag_loading :: bool
  ag_modal :: bool
  ag_source :: string
  ag_url :: string
  ag_name :: string
  ag_vars :: "(string \<times> string) list"
  ag_stream :: string
  ag_pending :: "(jv \<times> jv \<times> string) list"      \<comment> \<open>captured configuration, agent and app\<close>
  ag_asked :: "string list"                         \<comment> \<open>apps whose tools were requested\<close>

definition agents_first :: agents_state where
  "agents_first =
     \<lparr>ag_config = JObj [(''mode'', JStr ''supervisor''), (''subAgents'', JArr []), (''supervisorStrategy'', JStr ''adaptive''),
        (''availableTools'', JArr [])],
      ag_expanded = None, ag_apps = [], ag_cache = [], ag_loading = True, ag_modal = False, ag_source = ''direct'', ag_url = [],
      ag_name = [], ag_vars = [], ag_stream = ''http'', ag_pending = [], ag_asked = []\<rparr>"

definition agents_of :: "jv \<Rightarrow> jv list" where
  "agents_of c = items (fld c ''subAgents'')"

definition read_sub_agent :: "jv \<Rightarrow> exn + jv" where
  "read_sub_agent a =
     try_bind (get_prop a ''assignedApps'') (\<lambda>apps.
       Inr (obj_with a [(''assignedApps'', js_or apps (JArr [])),
                        (''source'', js_or (fld a ''source'') (JObj [(''type'', JStr ''direct'')]))]))"

definition read_agents :: "jv \<Rightarrow> agents_state \<Rightarrow> exn + agents_state" where
  "read_agents data s =
     try_bind (get_prop data ''subAgents'') (\<lambda>v.
     try_bind (mapped_array ''data.subAgents'' v) (\<lambda>as.
     try_bind (try_map read_sub_agent as) (\<lambda>as.
       Inr (s\<lparr>ag_config := obj_with data [(''subAgents'', JArr as)]\<rparr>))))"

definition apps_loaded :: "jv option \<Rightarrow> agents_state \<Rightarrow> agents_state" where
  "apps_loaded r s =
     (case r of Some data \<Rightarrow> s\<lparr>ag_apps := items (fld data ''apps''), ag_loading := False\<rparr> | None \<Rightarrow> s\<lparr>ag_loading := False\<rparr>)"

section \<open>Changing an agent\<close>

definition update_agent :: "jv \<Rightarrow> string \<Rightarrow> jv \<Rightarrow> jv \<Rightarrow> jv" where
  "update_agent i k v c =
     put ''subAgents'' (JArr (map (\<lambda>a. if fld a ''id'' = i then put k v a else a) (agents_of c))) c"

definition remove_agent :: "jv \<Rightarrow> jv \<Rightarrow> jv" where
  "remove_agent i c = put ''subAgents'' (JArr (filter (\<lambda>a. fld a ''id'' \<noteq> i) (agents_of c))) c"

definition find_agent :: "jv \<Rightarrow> jv \<Rightarrow> jv option" where
  "find_agent i c = find (\<lambda>a. fld a ''id'' = i) (agents_of c)"

definition assigned :: "jv \<Rightarrow> jv list" where
  "assigned a = items (fld a ''assignedApps'')"

definition app_name :: "jv \<Rightarrow> jv" where
  "app_name x = fld x ''appName''"

definition with_agent :: "jv \<Rightarrow> string \<Rightarrow> (jv \<Rightarrow> jv) \<Rightarrow> jv \<Rightarrow> jv" where
  "with_agent i k f c = (case find_agent i c of Some a \<Rightarrow> update_agent i k (f a) c | None \<Rightarrow> c)"

definition toggled :: "jv \<Rightarrow> jv list \<Rightarrow> jv" where
  "toggled name ts =
     JArr (map (\<lambda>t. if fld t ''name'' = name then put ''enabled'' (JBool (\<not> truthy (fld t ''enabled''))) t else t) ts)"

definition toggle_tool :: "jv \<Rightarrow> jv \<Rightarrow> jv \<Rightarrow> jv" where
  "toggle_tool i name c = with_agent i ''tools'' (\<lambda>a. toggled name (items (fld a ''tools''))) c"

definition unassign_app :: "jv \<Rightarrow> jv \<Rightarrow> jv \<Rightarrow> jv" where
  "unassign_app i app c = with_agent i ''assignedApps'' (\<lambda>a. JArr (filter (\<lambda>x. app_name x \<noteq> app) (assigned a))) c"

definition toggle_app_tool :: "jv \<Rightarrow> jv \<Rightarrow> jv \<Rightarrow> jv \<Rightarrow> jv" where
  "toggle_app_tool i app name c =
     with_agent i ''assignedApps''
       (\<lambda>a. JArr (map (\<lambda>x. if app_name x = app then put ''tools'' (toggled name (items (fld x ''tools''))) x else x) (assigned a))) c"

definition policies_of :: "jv \<Rightarrow> jv list" where
  "policies_of a = items (fld a ''policies'')"

definition add_agent_policy :: "jv \<Rightarrow> jv \<Rightarrow> jv" where
  "add_agent_policy i c = with_agent i ''policies'' (\<lambda>a. JArr (policies_of a @ [JStr []])) c"

definition update_agent_policy :: "jv \<Rightarrow> nat \<Rightarrow> string \<Rightarrow> jv \<Rightarrow> jv" where
  "update_agent_policy i n t c = with_agent i ''policies'' (\<lambda>a. JArr ((policies_of a)[n := JStr t])) c"

definition remove_agent_policy :: "jv \<Rightarrow> nat \<Rightarrow> jv \<Rightarrow> jv" where
  "remove_agent_policy i n c = with_agent i ''policies'' (\<lambda>a. JArr (take n (policies_of a) @ drop (Suc n) (policies_of a))) c"

text \<open>The text of the capabilities is split at commas as it is typed, and shown joined.\<close>

definition parse_capabilities :: "string \<Rightarrow> string list" where
  "parse_capabilities t = filter (\<lambda>x. x \<noteq> []) (map trim (split_str '','' t))"

definition shown_capabilities :: "string list \<Rightarrow> string" where
  "shown_capabilities cs = join '', '' cs"

definition set_capabilities :: "jv \<Rightarrow> string \<Rightarrow> jv \<Rightarrow> jv" where
  "set_capabilities i t c = update_agent i ''capabilities'' (JArr (map JStr (parse_capabilities t))) c"

section \<open>Assigning an app\<close>

definition assigned_app :: "string \<Rightarrow> jv list \<Rightarrow> jv" where
  "assigned_app app ts =
     JObj [(''appName'', JStr app), (''tools'', JArr (map (\<lambda>t. JObj [(''name'', fld t ''name''), (''enabled'', JBool True)]) ts))]"

text \<open>What the captured configuration becomes.\<close>

definition assign_into :: "jv \<times> jv \<times> string \<Rightarrow> jv list \<Rightarrow> jv" where
  "assign_into p ts =
     (case p of (c, i, app) \<Rightarrow> with_agent i ''assignedApps'' (\<lambda>a. JArr (assigned a @ [assigned_app app ts])) c)"

definition assign_app :: "jv \<Rightarrow> string \<Rightarrow> agents_state \<Rightarrow> agents_state" where
  "assign_app i app s =
     (case find_agent i (ag_config s) of
        None \<Rightarrow> s
      | Some a \<Rightarrow>
          if JStr app \<in> set (map app_name (assigned a)) then s
          else case map_of (ag_cache s) app of
                 Some ts \<Rightarrow> s\<lparr>ag_config := assign_into (ag_config s, i, app) ts\<rparr>
               | None \<Rightarrow> s\<lparr>ag_pending := ag_pending s @ [(ag_config s, i, app)], ag_asked := ag_asked s @ [app]\<rparr>)"

text \<open>The reply to the request of a pending assignment; only a success is kept in the cache.\<close>

definition tools_arrived :: "nat \<Rightarrow> jv option \<Rightarrow> agents_state \<Rightarrow> agents_state" where
  "tools_arrived n r s =
     (if n < length (ag_pending s)
      then let p = ag_pending s ! n; ts = (case r of Some data \<Rightarrow> items (fld data ''tools'') | None \<Rightarrow> [])
           in s\<lparr>ag_pending := take n (ag_pending s) @ drop (Suc n) (ag_pending s),
                ag_cache := (if r = None then ag_cache s else al_set (snd (snd p)) ts (ag_cache s)),
                ag_config := assign_into p ts\<rparr>
      else s)"

section \<open>A new agent\<close>

definition open_modal :: "agents_state \<Rightarrow> agents_state" where
  "open_modal s = s\<lparr>ag_source := ''direct'', ag_url := [], ag_name := [], ag_vars := [], ag_stream := ''http'', ag_modal := True\<rparr>"

definition remove_var :: "nat \<Rightarrow> agents_state \<Rightarrow> agents_state" where
  "remove_var n s = s\<lparr>ag_vars := take n (ag_vars s) @ drop (Suc n) (ag_vars s)\<rparr>"

definition env_object :: "(string \<times> string) list \<Rightarrow> (string \<times> jv) list" where
  "env_object vs = foldl (\<lambda>al (k, v). if trim k \<noteq> [] then al_set (trim k) (JStr v) al else al) [] vs"

definition source_config :: "agents_state \<Rightarrow> jv" where
  "source_config s =
     JObj ([(''type'', JStr (ag_source s))]
       @ (if ag_source s = ''a2a'' then [(''url'', JStr (ag_url s)), (''name'', JStr (ag_name s))]
          else if ag_source s = ''mcp'' then [(''url'', JStr (ag_url s)), (''streamType'', JStr (ag_stream s))] else [])
       @ (if ag_source s \<in> {''a2a'', ''mcp''} \<and> env_object (ag_vars s) \<noteq> [] then [(''envVars'', JObj (env_object (ag_vars s)))] else []))"

definition new_agent :: "string \<Rightarrow> jv list \<Rightarrow> agents_state \<Rightarrow> jv" where
  "new_agent now tools s =
     JObj [(''id'', JStr now),
           (''name'', JStr (if ag_source s = ''a2a'' \<and> ag_name s \<noteq> [] then ag_name s else ''New Agent'')),
           (''role'', JStr ''Assistant''), (''description'', JStr []), (''enabled'', JBool True), (''capabilities'', JArr []),
           (''tools'', JArr (map (\<lambda>t. JObj [(''name'', t), (''enabled'', JBool False)]) tools)),
           (''assignedApps'', JArr []), (''policies'', JArr []), (''source'', source_config s)]"

text \<open>A configuration without the list of tools makes the handler throw, which leaves all as it is.\<close>

definition create_agent :: "string \<Rightarrow> agents_state \<Rightarrow> agents_state" where
  "create_agent now s =
     (case mapped_array ''config.availableTools'' (fld (ag_config s) ''availableTools'') of
        Inl _ \<Rightarrow> s
      | Inr tools \<Rightarrow>
          s\<lparr>ag_config := put ''subAgents'' (JArr (agents_of (ag_config s) @ [new_agent now tools s])) (ag_config s), ag_modal := False\<rparr>)"

definition create_enabled :: "agents_state \<Rightarrow> bool" where
  "create_enabled s \<longleftrightarrow>
     \<not> (ag_source s = ''a2a'' \<and> (ag_url s = [] \<or> ag_name s = [])) \<and> \<not> (ag_source s = ''mcp'' \<and> ag_url s = [])"

section \<open>The dialog\<close>

datatype agents_edit =
    Agent_Enabled jv bool | Agent_Field jv string string | Expand_Agent jv | Remove_Agent jv
  | Capabilities_Text jv string | Assign_App jv string | Tools_Arrived nat "jv option" | Unassign_App jv jv
  | Toggle_App_Tool jv jv jv | Toggle_Tool jv jv | Add_Policy jv | Update_Policy jv nat string | Remove_Policy jv nat
  | Apps_Arrived "jv option" | Open_Modal | Close_Modal | New_Source string | New_Url string | New_Name string
  | New_Stream string | Add_Var | Update_Var nat string string | Remove_Var nat | Create_Agent string

definition agents_shown_ids :: "agents_state \<Rightarrow> jv list" where
  "agents_shown_ids s = (if fld (ag_config s) ''mode'' = JStr ''supervisor'' then map (\<lambda>a. fld a ''id'') (agents_of (ag_config s)) else [])"

definition agent_open :: "agents_state \<Rightarrow> jv \<Rightarrow> bool" where
  "agent_open s i \<longleftrightarrow> \<not> ag_modal s \<and> i \<in> set (agents_shown_ids s) \<and> ag_expanded s = Some i"

text \<open>The apps an agent can be given are those it does not have.\<close>

definition app_options :: "agents_state \<Rightarrow> jv \<Rightarrow> jv list" where
  "app_options s a = filter (\<lambda>x. fld x ''name'' \<notin> set (map app_name (assigned a))) (ag_apps s)"

definition agents_allows :: "agents_state \<Rightarrow> agents_edit \<Rightarrow> bool" where
  "agents_allows s e =
     (case e of
        Agent_Enabled i b \<Rightarrow> \<not> ag_modal s \<and> i \<in> set (agents_shown_ids s)
      | Agent_Field i k t \<Rightarrow> \<not> ag_modal s \<and> i \<in> set (agents_shown_ids s)
          \<and> (k \<in> {''name'', ''role''} \<or> k = ''description'' \<and> ag_expanded s = Some i)
      | Expand_Agent i \<Rightarrow> \<not> ag_modal s \<and> i \<in> set (agents_shown_ids s)
      | Remove_Agent i \<Rightarrow> \<not> ag_modal s \<and> i \<in> set (agents_shown_ids s)
      | Capabilities_Text i t \<Rightarrow> agent_open s i
      | Assign_App i app \<Rightarrow> agent_open s i \<and> app \<noteq> []
          \<and> (\<exists>a \<in> set (agents_of (ag_config s)). fld a ''id'' = i \<and> JStr app \<in> (\<lambda>x. fld x ''name'') ` set (app_options s a))
      | Tools_Arrived n r \<Rightarrow> n < length (ag_pending s)
      | Unassign_App i app \<Rightarrow> agent_open s i
      | Toggle_App_Tool i app t \<Rightarrow> agent_open s i
      | Toggle_Tool i t \<Rightarrow> agent_open s i
      | Add_Policy i \<Rightarrow> agent_open s i
      | Update_Policy i n t \<Rightarrow> agent_open s i
      | Remove_Policy i n \<Rightarrow> agent_open s i
      | Apps_Arrived r \<Rightarrow> ag_loading s
      | Open_Modal \<Rightarrow> \<not> ag_modal s \<and> fld (ag_config s) ''mode'' = JStr ''supervisor''
      | New_Source t \<Rightarrow> ag_modal s \<and> t \<in> {''direct'', ''a2a'', ''mcp''}
      | New_Stream t \<Rightarrow> ag_modal s \<and> ag_source s = ''mcp'' \<and> t \<in> {''http'', ''sse''}
      | New_Name t \<Rightarrow> ag_modal s \<and> ag_source s = ''a2a''
      | Create_Agent now \<Rightarrow> ag_modal s \<and> create_enabled s \<and> JStr now \<notin> set (map (\<lambda>a. fld a ''id'') (agents_of (ag_config s)))
      | Close_Modal \<Rightarrow> ag_modal s
      | _ \<Rightarrow> ag_modal s \<and> ag_source s \<in> {''a2a'', ''mcp''})"

definition on_config :: "(jv \<Rightarrow> jv) \<Rightarrow> agents_state \<Rightarrow> agents_state" where
  "on_config f s = s\<lparr>ag_config := f (ag_config s)\<rparr>"

fun agents_do :: "agents_edit \<Rightarrow> agents_state \<Rightarrow> agents_state" where
  "agents_do (Agent_Enabled i b) s = on_config (update_agent i ''enabled'' (JBool b)) s"
| "agents_do (Agent_Field i k t) s = on_config (update_agent i k (JStr t)) s"
| "agents_do (Expand_Agent i) s = s\<lparr>ag_expanded := (if ag_expanded s = Some i then None else Some i)\<rparr>"
| "agents_do (Remove_Agent i) s = on_config (remove_agent i) s"
| "agents_do (Capabilities_Text i t) s = on_config (set_capabilities i t) s"
| "agents_do (Assign_App i app) s = assign_app i app s"
| "agents_do (Tools_Arrived n r) s = tools_arrived n r s"
| "agents_do (Unassign_App i app) s = on_config (unassign_app i app) s"
| "agents_do (Toggle_App_Tool i app t) s = on_config (toggle_app_tool i app t) s"
| "agents_do (Toggle_Tool i t) s = on_config (toggle_tool i t) s"
| "agents_do (Add_Policy i) s = on_config (add_agent_policy i) s"
| "agents_do (Update_Policy i n t) s = on_config (update_agent_policy i n t) s"
| "agents_do (Remove_Policy i n) s = on_config (remove_agent_policy i n) s"
| "agents_do (Apps_Arrived r) s = apps_loaded r s"
| "agents_do Open_Modal s = open_modal s"
| "agents_do Close_Modal s = s\<lparr>ag_modal := False\<rparr>"
| "agents_do (New_Source t) s = s\<lparr>ag_source := t\<rparr>"
| "agents_do (New_Url t) s = s\<lparr>ag_url := t\<rparr>"
| "agents_do (New_Name t) s = s\<lparr>ag_name := t\<rparr>"
| "agents_do (New_Stream t) s = s\<lparr>ag_stream := t\<rparr>"
| "agents_do Add_Var s = s\<lparr>ag_vars := ag_vars s @ [([], [])]\<rparr>"
| "agents_do (Update_Var n k v) s = s\<lparr>ag_vars := (ag_vars s)[n := (k, v)]\<rparr>"
| "agents_do (Remove_Var n) s = remove_var n s"
| "agents_do (Create_Agent now) s = create_agent now s"

definition agents_dialog :: "(agents_state, agents_edit) dialog_kind" where
  "agents_dialog = \<lparr>dk_url = ''/api/config/subagents'', dk_first = agents_first, dk_reads = read_agents,
     dk_allows = agents_allows, dk_edit = agents_do, dk_body = ag_config\<rparr>"


section \<open>What is drawn\<close>

definition plural_of :: "nat \<Rightarrow> string \<Rightarrow> string \<Rightarrow> string \<Rightarrow> string" where
  "plural_of n stem one many = show_nat n @ '' '' @ stem @ (if n \<noteq> 1 then many else one)"

definition enabled_count :: "jv list \<Rightarrow> nat" where
  "enabled_count ts = length (filter (\<lambda>t. truthy (fld t ''enabled'')) ts)"

definition app_tool_count :: "jv \<Rightarrow> nat" where
  "app_tool_count a = sum_list (map (\<lambda>x. enabled_count (items (fld x ''tools''))) (assigned a))"

definition source_label :: "jv \<Rightarrow> string \<Rightarrow> string \<Rightarrow> string" where
  "source_label src peer server =
     (if fld src ''type'' = JStr ''direct'' then ''Direct'' else if fld src ''type'' = JStr ''a2a'' then peer else server)"

definition agent_summary :: "jv \<Rightarrow> string list" where
  "agent_summary a =
     (let n = app_tool_count a + enabled_count (items (fld a ''tools''))
      in (if truthy (fld a ''source'') then [source_label (fld a ''source'') ''A2A'' ''MCP''] else [])
         @ [plural_of (length (assigned a)) ''app'' [] ''s'', plural_of n ''tool'' [] ''s'', plural_of (length (policies_of a)) ''polic'' ''y'' ''ies''])"

definition source_rows :: "jv \<Rightarrow> (string \<times> jv) list" where
  "source_rows src =
     [(''Type:'', JStr (source_label src ''A2A Protocol'' ''MCP Server''))]
     @ concat (map (\<lambda>(k, l). if truthy (fld src k) then [(l, fld src k)] else [])
         [(''url'', ''URL:''), (''name'', ''Name:''), (''streamType'', ''Stream Type:'')])
     @ (if truthy (fld src ''envVars'') \<and> obj_fields (fld src ''envVars'') \<noteq> []
        then (''Environment Variables:'', JNull) # obj_fields (fld src ''envVars'') else [])"

definition app_section :: "jv list \<Rightarrow> jv \<Rightarrow> jv \<times> jv option \<times> string \<times> (jv \<times> bool) list" where
  "app_section apps x =
     (app_name x,
      (case find (\<lambda>a. fld a ''name'' = app_name x) apps of
         Some a \<Rightarrow> if truthy (fld a ''description'') then Some (fld a ''description'') else None | None \<Rightarrow> None),
      ''Tools ('' @ show_nat (enabled_count (items (fld x ''tools''))) @ ''/'' @ show_nat (length (items (fld x ''tools''))) @ '' enabled)'',
      map (\<lambda>t. (fld t ''name'', truthy (fld t ''enabled''))) (items (fld x ''tools'')))"

datatype agent_body =
    Agent_Summary "string list"
  | Agent_Details "(string \<times> jv) list" "jv list" "(jv \<times> jv option \<times> string \<times> (jv \<times> bool) list) list" "(jv \<times> bool) list" "jv list"

definition draw_agent :: "agents_state \<Rightarrow> jv \<Rightarrow> bool \<times> jv \<times> jv \<times> agent_body" where
  "draw_agent s a =
     (truthy (fld a ''enabled''), fld a ''name'', fld a ''role'',
      if ag_expanded s = Some (fld a ''id'')
      then Agent_Details (if truthy (fld a ''source'') then source_rows (fld a ''source'') else [])
             (map (\<lambda>x. fld x ''name'') (app_options s a)) (map (app_section (ag_apps s)) (assigned a))
             (map (\<lambda>t. (fld t ''name'', truthy (fld t ''enabled''))) (items (fld a ''tools''))) (policies_of a)
      else Agent_Summary (agent_summary a))"

text \<open>In another mode than that of the supervisor the dialog shows nothing.\<close>

definition draw_sub_agents :: "agents_state \<Rightarrow> ((bool \<times> jv \<times> jv \<times> agent_body) list \<times> bool) option" where
  "draw_sub_agents s =
     (if fld (ag_config s) ''mode'' = JStr ''supervisor''
      then Some (map (draw_agent s) (agents_of (ag_config s)), agents_of (ag_config s) = []) else None)"

section \<open>What the controls keep\<close>

definition clean_capability :: "string \<Rightarrow> bool" where
  "clean_capability x \<longleftrightarrow> x \<noteq> [] \<and> trim x = x \<and> CHR '','' \<notin> set x"

definition agent_fine :: "jv \<Rightarrow> bool" where
  "agent_fine a \<longleftrightarrow> is_obj a \<and> distinct (map app_name (assigned a))
     \<and> (\<forall>x \<in> set (assigned a). is_obj x)
     \<and> (\<forall>x \<in> set (items (fld a ''capabilities'')). \<exists>t. x = JStr t \<and> clean_capability t)"

definition agents_fine :: "jv \<Rightarrow> bool" where
  "agents_fine c \<longleftrightarrow> is_obj c \<and> (\<forall>a \<in> set (agents_of c). agent_fine a)"

text \<open>A captured configuration is fine, and its first agent of the identifier does not have the app.\<close>

definition capture_fine :: "jv \<times> jv \<times> string \<Rightarrow> bool" where
  "capture_fine p \<longleftrightarrow>
     (case p of (c, i, app) \<Rightarrow> agents_fine c \<and> (\<forall>a. find_agent i c = Some a \<longrightarrow> JStr app \<notin> set (map app_name (assigned a))))"

definition agents_ok :: "agents_state \<Rightarrow> bool" where
  "agents_ok s \<longleftrightarrow> agents_fine (ag_config s) \<and> (\<forall>p \<in> set (ag_pending s). capture_fine p)"

definition agents_served :: "jv \<Rightarrow> bool" where
  "agents_served v \<longleftrightarrow> is_obj v \<and> (\<forall>a \<in> set (agents_of v). agent_fine (obj_with a [(''assignedApps'', js_or (fld a ''assignedApps'') (JArr []))]))"

lemma agents_of_put [simp]: "is_obj c \<Longrightarrow> agents_of (put k v c) = (if k = ''subAgents'' then items v else agents_of c)"
  by (simp add: agents_of_def)

lemma put_agent_fine:
  assumes "agent_fine a" "k = ''assignedApps'' \<Longrightarrow> distinct (map app_name (items v)) \<and> (\<forall>x \<in> set (items v). is_obj x)"
    "k = ''capabilities'' \<Longrightarrow> \<forall>x \<in> set (items v). \<exists>t. x = JStr t \<and> clean_capability t"
  shows "agent_fine (put k v a)"
  using assms by (auto simp: agent_fine_def assigned_def)

lemma update_agent_fine:
  assumes "agents_fine c" "k = ''assignedApps'' \<Longrightarrow> distinct (map app_name (items v)) \<and> (\<forall>x \<in> set (items v). is_obj x)"
    "k = ''capabilities'' \<Longrightarrow> \<forall>x \<in> set (items v). \<exists>t. x = JStr t \<and> clean_capability t"
  shows "agents_fine (update_agent i k v c)"
  using assms put_agent_fine [of _ k v] by (auto simp: agents_fine_def update_agent_def)

lemma found_fine: "agents_fine c \<Longrightarrow> find_agent i c = Some a \<Longrightarrow> agent_fine a"
  by (auto simp: find_agent_def find_Some_iff agents_fine_def)

lemma with_agent_fine:
  assumes "agents_fine c" "k \<noteq> ''capabilities''"
    "\<And>a. find_agent i c = Some a \<Longrightarrow> agent_fine a \<Longrightarrow> k = ''assignedApps'' \<Longrightarrow>
       distinct (map app_name (items (f a))) \<and> (\<forall>x \<in> set (items (f a)). is_obj x)"
  shows "agents_fine (with_agent i k f c)"
  unfolding with_agent_def using assms found_fine [OF assms(1)]
  by (auto split: option.split intro!: update_agent_fine)

lemma assign_fine: "capture_fine p \<Longrightarrow> agents_fine (assign_into p ts)"
  unfolding assign_into_def
  by (cases p) (auto simp: capture_fine_def agent_fine_def assigned_app_def app_name_def intro!: with_agent_fine)

lemma trim_no: "x \<notin> set s \<Longrightarrow> x \<notin> set (trim s)"
  by (auto simp: trim_def trim_start_def dest!: set_dropWhileD)

lemma split_no: "x \<in> set (split_str [c] s) \<Longrightarrow> c \<notin> set x"
proof (induction "[c]" s rule: split_str.induct)
  case (1 s)
  show ?case
  proof (cases "c \<in> set s")
    case True
    then obtain a b where s: "s = a @ c # b" "c \<notin> set a" by (meson split_list_first)
    then have cf: "cut_first [c] s = Some (a, b)" by (simp add: cut_first_char)
    then show ?thesis using 1 s by auto
  next
    case False
    then show ?thesis using 1 by (simp add: cut_first_char)
  qed
qed

lemma parsed_clean: "x \<in> set (parse_capabilities t) \<Longrightarrow> clean_capability x"
  by (auto simp: parse_capabilities_def clean_capability_def trim_idem trim_no dest: split_no)


lemma read_agents_fine:
  assumes "agents_served v" "read_agents v s = Inr s'"
  shows "agents_fine (ag_config s') \<and> ag_pending s' = ag_pending s"
proof -
  have v: "is_obj v" using assms(1) by (simp add: agents_served_def)
  then obtain as bs where as: "mapped_array ''data.subAgents'' (fld v ''subAgents'') = Inr as" "try_map read_sub_agent as = Inr bs"
    and s': "s' = s\<lparr>ag_config := obj_with v [(''subAgents'', JArr bs)]\<rparr>"
    using assms(2) by (cases v) (auto simp: read_agents_def try_bind_def split: sum.splits)
  have src: "agents_of v = as" using as(1) by (auto simp: mapped_array_def agents_of_def items_def split: jv.splits if_splits)
  have "agent_fine b" if bin: "b \<in> set bs" for b
  proof -
    obtain a where a: "a \<in> set as" "read_sub_agent a = Inr b"
      using as(2) bin by (fastforce simp: try_map_Inr list_all2_conv_all_nth in_set_conv_nth)
    define w where "w = put ''assignedApps'' (js_or (fld a ''assignedApps'') (JArr [])) a"
    have f: "agent_fine w" using assms(1) a(1) src by (simp add: agents_served_def put_def w_def)
    obtain x where b: "b = put ''source'' x w"
      using a(2) by (auto simp: read_sub_agent_def get_prop_def obj_with_two w_def split: if_splits)
    show ?thesis using put_agent_fine [OF f, of "''source''" x] by (simp add: b)
  qed
  then show ?thesis using v by (cases v) (auto simp: s' agents_fine_def agents_of_def obj_with_one)
qed

lemma assign_app_ok: "agents_ok s \<Longrightarrow> agents_ok (assign_app i app s)"
proof -
  assume ok: "agents_ok s"
  show ?thesis
  proof (cases "find_agent i (ag_config s)")
    case (Some a)
    have cap: "capture_fine (ag_config s, i, app)" if "JStr app \<notin> set (map app_name (assigned a))"
      using ok that Some by (auto simp: agents_ok_def capture_fine_def)
    then show ?thesis using ok Some assign_fine [of "(ag_config s, i, app)"]
      by (auto simp: assign_app_def agents_ok_def split: option.split)
  qed (simp add: assign_app_def ok)
qed

lemma tools_arrived_ok: "agents_ok s \<Longrightarrow> agents_ok (tools_arrived n r s)"
  by (auto simp: tools_arrived_def agents_ok_def Let_def assign_fine dest!: in_set_takeD in_set_dropD)

lemma on_config_ok: "agents_ok s \<Longrightarrow> agents_fine (f (ag_config s)) \<Longrightarrow> agents_ok (on_config f s)"
  by (simp add: agents_ok_def on_config_def)

lemma agents_ok_config: "agents_ok s \<Longrightarrow> agents_fine (ag_config s)"
  by (simp add: agents_ok_def)

lemma remove_agent_fine: "agents_fine c \<Longrightarrow> agents_fine (remove_agent i c)"
  by (auto simp: agents_fine_def remove_agent_def)

lemma unassign_fine: "agents_fine c \<Longrightarrow> agents_fine (unassign_app i app c)"
  unfolding unassign_app_def
  by (rule with_agent_fine) (auto simp: agent_fine_def distinct_map inj_on_def)

lemma toggle_app_fine: "agents_fine c \<Longrightarrow> agents_fine (toggle_app_tool i app t c)"
  unfolding toggle_app_tool_def
proof (rule with_agent_fine, assumption, simp)
  fix a assume a: "agent_fine a"
  let ?f = "\<lambda>x. if app_name x = app then put ''tools'' (toggled t (items (fld x ''tools''))) x else x"
  have "map (app_name \<circ> ?f) (assigned a) = map app_name (assigned a)"
    using a by (auto simp: agent_fine_def app_name_def)
  then have "distinct (map app_name (map ?f (assigned a)))" using a by (simp only: agent_fine_def map_map)
  then show "distinct (map app_name (items (JArr (map ?f (assigned a))))) \<and> (\<forall>x \<in> set (items (JArr (map ?f (assigned a)))). is_obj x)"
    using a by (simp only: items_arr) (auto simp: agent_fine_def)
qed

lemma plain_with_fine: "agents_fine c \<Longrightarrow> k \<notin> {''assignedApps'', ''capabilities''} \<Longrightarrow> agents_fine (with_agent i k f c)"
  by (rule with_agent_fine) auto

lemma capabilities_fine: "agents_fine c \<Longrightarrow> agents_fine (set_capabilities i t c)"
  unfolding set_capabilities_def by (rule update_agent_fine) (auto dest: parsed_clean)

lemma create_ok: "agents_ok s \<Longrightarrow> agents_ok (create_agent now s)"
  by (auto simp: create_agent_def agents_ok_def agents_fine_def new_agent_def agent_fine_def assigned_def split: sum.split)

lemma agents_edit_ok: "agents_ok s \<Longrightarrow> agents_allows s e \<Longrightarrow> agents_ok (agents_do e s)"
  by (cases e)
    (auto simp: agents_ok_config remove_agent_fine capabilities_fine assign_app_ok tools_arrived_ok unassign_fine toggle_app_fine
      toggle_tool_def add_agent_policy_def update_agent_policy_def remove_agent_policy_def plain_with_fine create_ok agents_allows_def
      open_modal_def remove_var_def apps_loaded_def agents_ok_def [of "_\<lparr>ag_expanded := _\<rparr>"]
      intro!: on_config_ok update_agent_fine split: option.split, auto simp: agents_ok_def)

interpretation agents: config_dialog agents_dialog agents_ok agents_served
proof
  show "agents_ok (dk_first agents_dialog)"
    by (simp add: agents_dialog_def agents_first_def agents_ok_def agents_fine_def agents_of_def)
next
  fix v c c' assume "agents_served v" "agents_ok c" "dk_reads agents_dialog v c = Inr c'"
  then show "agents_ok c'" using read_agents_fine [of v c c'] by (auto simp: agents_dialog_def agents_ok_def)
qed (simp add: agents_dialog_def agents_edit_ok)


section \<open>Capabilities as they are typed\<close>

lemma trim_ws: "is_ws c \<Longrightarrow> trim (c # s) = trim s" "is_ws c \<Longrightarrow> trim (s @ [c]) = trim s"
proof -
  show "is_ws c \<Longrightarrow> trim (c # s) = trim s" by (simp add: trim_def trim_start_def)
  assume c: "is_ws c"
  show "trim (s @ [c]) = trim s"
  proof (cases "\<forall>x \<in> set s. is_ws x")
    case True
    then have d: "dropWhile is_ws (s @ [c]) = []" "dropWhile is_ws s = []" using c by auto
    show ?thesis by (simp only: trim_def trim_start_def d)
  next
    case False
    then have "dropWhile is_ws (s @ [c]) = dropWhile is_ws s @ [c]" by (auto simp: dropWhile_append)
    then show ?thesis using c by (simp add: trim_def trim_start_def)
  qed
qed

lemma split_comma: "CHR '','' \<notin> set x \<Longrightarrow> split_str '','' (x @ CHR '','' # rest) = x # split_str '','' rest"
  by (simp add: cut_first_char)

lemma trim_clean_last: "clean_capability (x @ [c]) \<Longrightarrow> trim (CHR 0x20 # x @ [c]) = x @ [c]"
  by (simp add: clean_capability_def trim_ws is_ws_def)

text \<open>What is shown is read back, also behind a comma or a blank.\<close>

lemma parse_shown_tail:
  assumes "\<forall>x \<in> set cs. clean_capability x" "CHR '','' \<notin> set t"
  shows "cs \<noteq> [] \<Longrightarrow> parse_capabilities (shown_capabilities cs @ t)
           = butlast cs @ filter (\<lambda>x. x \<noteq> []) [trim (last cs @ t)]"
    and "parse_capabilities (CHR 0x20 # shown_capabilities cs @ t)
           = (if cs = [] then filter (\<lambda>x. x \<noteq> []) [trim t] else butlast cs @ filter (\<lambda>x. x \<noteq> []) [trim (last cs @ t)])"
  using assms
proof (induction cs rule: induct_list012)
  case 1
  { case 1
    then show ?case by simp
  next
    case 2
    then show ?case by (simp add: parse_capabilities_def shown_capabilities_def cut_first_char trim_ws is_ws_def)
  }
next
  case (2 x)
  { case 1
    then show ?case by (simp add: parse_capabilities_def shown_capabilities_def cut_first_char clean_capability_def)
  next
    case 2
    then show ?case
      by (simp add: parse_capabilities_def shown_capabilities_def cut_first_char clean_capability_def trim_ws is_ws_def)
  }
next
  case (3 x y zs)
  { case 1
    then show ?case
      using 3(3,4) by (auto simp: parse_capabilities_def shown_capabilities_def clean_capability_def split_comma)
  next
    case 2
    then have "split_str '','' (CHR 0x20 # shown_capabilities (x # y # zs) @ t)
        = (CHR 0x20 # x) # split_str '','' (CHR 0x20 # shown_capabilities (y # zs) @ t)"
      using split_comma [of "CHR 0x20 # x"] by (simp add: shown_capabilities_def clean_capability_def)
    then show ?case
      using 2 3(3,4) by (auto simp: parse_capabilities_def clean_capability_def trim_ws is_ws_def)
  }
qed


lemma clean_append: "clean_capability x \<Longrightarrow> \<not> is_ws c \<Longrightarrow> c \<noteq> CHR '','' \<Longrightarrow> trim (x @ [c]) = x @ [c] \<and> clean_capability (x @ [c])"
proof -
  assume x: "clean_capability x" "\<not> is_ws c" "c \<noteq> CHR '',''"
  have "\<not> is_ws (hd x)"
  proof
    assume "is_ws (hd x)"
    then have "trim (hd x # tl x) = trim (tl x)" by (rule trim_ws)
    moreover have "length (trim s) \<le> length s" for s
      unfolding trim_def trim_start_def using length_dropWhile_le le_trans by (metis length_rev)
    ultimately show False using x(1) by (cases x) (auto simp: clean_capability_def, metis Suc_n_not_le_n length_Cons)
  qed
  then have "dropWhile is_ws (x @ [c]) = x @ [c]" using x(1) by (cases x) (auto simp: clean_capability_def)
  then have t: "trim (x @ [c]) = x @ [c]" using x(2) by (simp add: trim_def trim_start_def)
  then show ?thesis using x(1,3) by (simp add: clean_capability_def)
qed

lemma single_clean: "\<not> is_ws c \<Longrightarrow> c \<noteq> CHR '','' \<Longrightarrow> trim [c] = [c] \<and> clean_capability [c]"
  by (simp add: trim_def trim_start_def clean_capability_def)

text \<open>Typing at the end of the input, one character after the other.\<close>

definition typed_at_end :: "string list \<Rightarrow> string \<Rightarrow> string list" where
  "typed_at_end cs t = foldl (\<lambda>cs c. parse_capabilities (shown_capabilities cs @ [c])) cs t"

definition kept_char :: "char \<Rightarrow> bool" where
  "kept_char c \<longleftrightarrow> \<not> is_ws c \<and> c \<noteq> CHR '',''"

lemma parse_shown:
  assumes "\<forall>x \<in> set cs. clean_capability x"
  shows "parse_capabilities (shown_capabilities cs) = cs" "parse_capabilities (shown_capabilities cs @ '','') = cs"
proof -
  show p: "parse_capabilities (shown_capabilities cs) = cs"
  proof (cases cs rule: rev_cases)
    case Nil
    then show ?thesis by (simp add: parse_capabilities_def shown_capabilities_def cut_first_char trim_def trim_start_def)
  next
    case (snoc ys y)
    then show ?thesis using parse_shown_tail(1) [of cs "[]"] assms by (simp add: clean_capability_def)
  qed
  have "split_str '','' (s @ '','') = split_str '','' s @ [[]]" for s
    using split_str_append [of "'',''" s "'',''"] split_no [of "last (split_str '','' s)" "CHR '',''" s]
    by (simp add: split_comma cut_first_char)
  then show "parse_capabilities (shown_capabilities cs @ '','') = cs"
    using p by (simp add: parse_capabilities_def trim_def trim_start_def)
qed

lemma type_one:
  assumes "\<forall>x \<in> set cs. clean_capability x"
  shows "parse_capabilities (shown_capabilities cs @ [c])
     = (if kept_char c then (if cs = [] then [[c]] else butlast cs @ [last cs @ [c]]) else cs)"
    "\<forall>x \<in> set (parse_capabilities (shown_capabilities cs @ [c])). clean_capability x"
proof -
  consider "c = CHR '',''" | "c \<noteq> CHR '',''" "is_ws c" | "kept_char c" by (auto simp: kept_char_def)
  then show "parse_capabilities (shown_capabilities cs @ [c])
     = (if kept_char c then (if cs = [] then [[c]] else butlast cs @ [last cs @ [c]]) else cs)"
  proof cases
    case 1
    then show ?thesis using parse_shown(2) [OF assms] by (simp add: kept_char_def)
  next
    case 2
    then have "cs \<noteq> [] \<Longrightarrow> trim (last cs @ [c]) = last cs \<and> last cs \<noteq> []" using assms by (simp add: trim_ws clean_capability_def)
    moreover have "trim [c] = []" using 2 trim_ws(1) [of c "[]"] by (simp add: trim_def trim_start_def)
    ultimately show ?thesis
      using 2 parse_shown_tail(1) [OF assms, of "[c]"]
      by (cases "cs = []") (simp_all add: kept_char_def parse_capabilities_def shown_capabilities_def cut_first_char)
  next
    case 3
    show ?thesis
    proof (cases "cs = []")
      case True
      have "split_str '','' [c] = [[c]]" using 3 cut_first_char(2) [of "CHR '',''" "[c]"] by (auto simp: kept_char_def)
      then show ?thesis using 3 True single_clean [of c] by (simp add: kept_char_def parse_capabilities_def shown_capabilities_def)
    next
      case False
      then have "trim (last cs @ [c]) = last cs @ [c]" using assms clean_append 3 by (simp add: kept_char_def)
      moreover have "CHR '','' \<notin> set [c]" using 3 by (auto simp: kept_char_def)
      ultimately show ?thesis using 3 False parse_shown_tail(1) [OF assms, of "[c]"] by simp
    qed
  qed
qed (simp add: parsed_clean)

text \<open>
  In the input of the capabilities a comma or a blank typed at the end is gone at once, so that
  typing continues the last capability: however long the text is, no second one comes of it.  A
  text that is put in whole is split, and what is shown is read back as it was.
\<close>

theorem capabilities_lose_commas:
  assumes "\<forall>x \<in> set cs. clean_capability x"
  shows "typed_at_end cs t =
       (if filter kept_char t = [] then cs
        else if cs = [] then [filter kept_char t] else butlast cs @ [last cs @ filter kept_char t])
     \<and> parse_capabilities (shown_capabilities cs) = cs"
proof (rule conjI)
  show "typed_at_end cs t =
       (if filter kept_char t = [] then cs
        else if cs = [] then [filter kept_char t] else butlast cs @ [last cs @ filter kept_char t])"
    using assms
  proof (induction t arbitrary: cs)
    case (Cons c t)
    obtain ds where ds: "ds = parse_capabilities (shown_capabilities cs @ [c])" by blast
    have "typed_at_end cs (c # t) = typed_at_end ds t" by (simp add: typed_at_end_def ds)
    moreover have "\<forall>x \<in> set ds. clean_capability x" using type_one(2) [OF Cons.prems] by (simp only: ds)
    moreover have "ds = (if kept_char c then (if cs = [] then [[c]] else butlast cs @ [last cs @ [c]]) else cs)"
      using type_one(1) [OF Cons.prems] by (simp only: ds)
    ultimately show ?case using Cons.IH [of ds] by (auto split: if_splits)
  qed (simp add: typed_at_end_def)
qed (rule parse_shown(1) [OF assms])

theorem capabilities_lose_commas_witness:
  "typed_at_end [] ''code, plan'' = [''codeplan''] \<and> parse_capabilities ''code, plan'' = [''code'', ''plan'']"
proof -
  have "typed_at_end [] ''code, plan'' = [''codeplan'']"
    using capabilities_lose_commas [of "[]" "''code, plan''"] by (simp add: kept_char_def is_ws_def)
  moreover have "parse_capabilities ''code, plan'' = [''code'', ''plan'']"
    by (simp add: parse_capabilities_def split_str.simps cut_first.simps trim_def trim_start_def is_ws_def)
  ultimately show ?thesis by blast
qed


section \<open>Assignments\<close>

definition no_arrival :: "agents_edit \<Rightarrow> bool" where
  "no_arrival e \<longleftrightarrow> (case e of Tools_Arrived n r \<Rightarrow> False | _ \<Rightarrow> True)"

lemma pending_kept:
  assumes "n < length (ag_pending s)" "no_arrival e"
  shows "n < length (ag_pending (agents_do e s)) \<and> ag_pending (agents_do e s) ! n = ag_pending s ! n"
  using assms
  by (cases e) (auto simp: no_arrival_def on_config_def open_modal_def remove_var_def apps_loaded_def assign_app_def create_agent_def
      nth_append split: option.split sum.split)

lemma pending_kept_run:
  assumes "n < length (ag_pending s)" "\<forall>e \<in> set evs. no_arrival e"
  shows "n < length (ag_pending (foldl (\<lambda>s e. agents_do e s) s evs))
     \<and> ag_pending (foldl (\<lambda>s e. agents_do e s) s evs) ! n = ag_pending s ! n"
  using assms by (induction evs arbitrary: s) (use pending_kept in fastforce)+

lemma agents_run:
  assumes "dialog_run agents_dialog agents_served s"
  shows "agents_ok (dg_state s) \<and> (\<forall>u b. Post_Config u b \<in> set (dg_requests s) \<longrightarrow> agents_fine b)"
  using agents.run_ok [OF assms] by (auto simp: agents_dialog_def agents_ok_def)

text \<open>
  C15. The reply with the tools of an app writes back the configuration of the time when the app was
  chosen: whatever was edited, added or removed in between is undone.  An app whose tools could not
  be loaded is assigned without any.
\<close>

theorem assignment_undoes_edits:
  assumes "find_agent i (ag_config s) = Some a" "JStr app \<notin> set (map app_name (assigned a))" "map_of (ag_cache s) app = None"
    "\<forall>e \<in> set evs. no_arrival e"
    "s' = foldl (\<lambda>s e. agents_do e s) (agents_do (Assign_App i app) s) evs" "n = length (ag_pending s)"
  shows "ag_config (agents_do (Tools_Arrived n (Some data)) s')
       = update_agent i ''assignedApps'' (JArr (assigned a @ [assigned_app app (items (fld data ''tools''))])) (ag_config s)
     \<and> ag_config (agents_do (Tools_Arrived n None) s')
       = update_agent i ''assignedApps'' (JArr (assigned a @ [assigned_app app []])) (ag_config s)"
proof -
  let ?s1 = "agents_do (Assign_App i app) s"
  have p: "ag_pending ?s1 = ag_pending s @ [(ag_config s, i, app)]" using assms(1-3) by (auto simp: assign_app_def)
  then have "n < length (ag_pending s') \<and> ag_pending s' ! n = (ag_config s, i, app)"
    using pending_kept_run [of n ?s1 evs] assms(4-6) by simp
  then show ?thesis using assms(1) by (simp add: tools_arrived_def Let_def assign_into_def with_agent_def)
qed

theorem assignment_undoes_edits_witness:
  "let a = JObj [(''id'', JStr ''1''), (''assignedApps'', JArr []), (''name'', JStr ''old'')];
       s = agents_first\<lparr>ag_config := JObj [(''mode'', JStr ''supervisor''), (''subAgents'', JArr [a])]\<rparr>
   in ag_config (foldl (\<lambda>s e. agents_do e s) s [Assign_App (JStr ''1'') ''crm'', Agent_Field (JStr ''1'') ''name'' ''new'', Tools_Arrived 0 None])
      = JObj [(''mode'', JStr ''supervisor''), (''subAgents'', JArr [JObj [(''id'', JStr ''1''),
          (''assignedApps'', JArr [JObj [(''appName'', JStr ''crm''), (''tools'', JArr [])]]), (''name'', JStr ''old'')]])]"
proof -
  let ?a = "JObj [(''id'', JStr ''1''), (''assignedApps'', JArr []), (''name'', JStr ''old'')]"
  let ?s = "agents_first\<lparr>ag_config := JObj [(''mode'', JStr ''supervisor''), (''subAgents'', JArr [?a])]\<rparr>"
  have f: "find_agent (JStr ''1'') (ag_config ?s) = Some ?a" by (simp add: find_agent_def agents_of_def)
  have "JStr ''crm'' \<notin> set (map app_name (assigned ?a))" "map_of (ag_cache ?s) ''crm'' = None"
    "\<forall>e \<in> set [Agent_Field (JStr ''1'') ''name'' ''new'']. no_arrival e" "0 = length (ag_pending ?s)"
    by (simp_all add: assigned_def agents_first_def no_arrival_def)
  from assignment_undoes_edits [OF f this(1,2,3) refl this(4)]
  show ?thesis by (simp add: update_agent_def agents_of_def assigned_def assigned_app_def)
qed

text \<open>
  Whatever the order of edits, assignments and replies: every configuration that is posted gives
  each agent an app at most once, and keeps its capabilities free of commas, not empty and trimmed,
  if what the server gave did; the same holds of all that is captured.
\<close>

theorem posted_agents_fine:
  assumes "dialog_run agents_dialog agents_served s"
  shows "(\<forall>u b. Post_Config u b \<in> set (dg_requests s) \<longrightarrow> (\<forall>a \<in> set (agents_of b). distinct (map app_name (assigned a))
           \<and> (\<forall>x \<in> set (items (fld a ''capabilities'')). \<exists>t. x = JStr t \<and> clean_capability t)))
     \<and> (\<forall>p \<in> set (ag_pending (dg_state s)). capture_fine p)"
  using agents_run [OF assms] by (auto simp: agents_ok_def agents_fine_def agent_fine_def)

theorem posted_agents_fine_witness:
  "\<exists>s. dialog_run agents_dialog agents_served s \<and> Post_Config ''/api/config/subagents'' (ag_config agents_first) \<in> set (dg_requests s)
     \<and> (\<forall>p \<in> set (ag_pending (dg_state s)). capture_fine p)"
proof -
  have r: "dialog_run agents_dialog agents_served (dialog_save agents_dialog (dialog_opened agents_dialog))"
    by (rule dialog_run.saved [OF dialog_run.begun]) (simp add: dialog_defs)
  moreover have "Post_Config ''/api/config/subagents'' (ag_config agents_first)
      \<in> set (dg_requests (dialog_save agents_dialog (dialog_opened agents_dialog)))"
    by (simp add: dialog_defs agents_dialog_def)
  ultimately show ?thesis using posted_agents_fine [OF r] by blast
qed

end
