(* ===== verification/Manage_Forms.thy ===== *)
theory Manage_Forms
  imports Manage Config_Dialog
begin

text \<open>
  The forms of the manage page, \<open>frontend/src/ManagePage.tsx\<close>: the settings of the
  language model with its saved secrets and its list of models, the welcome screen and the
  flags, the summary of the policies, the versions with their viewer, the toasts with their
  timers, and what the save bar says.  Replies have their declared shape.  A rendering comes
  before the timers of the event that caused it.
\<close>

section \<open>Toasts\<close>

datatype toast_event = Toast_Added string toast | Toast_Timed_Out string | Toast_Closed string

fun toast_do :: "toast_event \<Rightarrow> (string \<times> toast) list \<Rightarrow> (string \<times> toast) list" where
  "toast_do (Toast_Added i t) ts = ts @ [(i, t)]"
| "toast_do (Toast_Timed_Out i) ts = filter (\<lambda>p. fst p \<noteq> i) ts"
| "toast_do (Toast_Closed i) ts = filter (\<lambda>p. fst p \<noteq> i) ts"

section \<open>The agent, its versions and its secrets\<close>

text \<open>The context shown in the header; an answer that cannot be used changes nothing.\<close>

definition agent_context :: "exn + http_reply \<Rightarrow> (jv \<times> jv) option \<Rightarrow> (jv \<times> jv) option" where
  "agent_context r old =
     (case r of
        Inr rep \<Rightarrow>
          if hr_ok rep
          then (case hr_json rep of
                  Inr d \<Rightarrow> if truthy d
                           then Some (js_nullor (fld d ''agent_id'') (JStr ''cuga-default''), js_nullor (fld d ''config_version'') JNull)
                           else old
                | Inl _ \<Rightarrow> old)
          else old
      | Inl _ \<Rightarrow> old)"

definition load_versions :: "exn + http_reply \<Rightarrow> manage_state \<Rightarrow> manage_state" where
  "load_versions r s =
     (case r of
        Inl _ \<Rightarrow> s\<lparr>mg_history := JArr []\<rparr>
      | Inr rep \<Rightarrow>
          if hr_ok rep
          then (case try_bind (hr_json rep) (\<lambda>d. get_prop d ''versions'') of
                  Inr vs \<Rightarrow> s\<lparr>mg_history := js_or vs (JArr [])\<rparr>
                | Inl _ \<Rightarrow> s\<lparr>mg_history := JArr []\<rparr>)
          else s)"

text \<open>The viewer of a version, and its two buttons.\<close>

definition view_version :: "jv \<Rightarrow> exn + http_reply \<Rightarrow> (jv \<times> jv) option \<Rightarrow> (jv \<times> jv) option" where
  "view_version v r old =
     (case r of
        Inr rep \<Rightarrow>
          if hr_ok rep
          then (case hr_json rep of
                  Inr d \<Rightarrow> if truthy d then Some (v, js_nullor (fld d ''config'') (JObj [])) else old
                | Inl _ \<Rightarrow> old)
          else old
      | Inl _ \<Rightarrow> old)"

definition viewer_title :: "(rat \<Rightarrow> string) \<Rightarrow> (jv \<times> jv) option \<Rightarrow> string" where
  "viewer_title num w = (case w of Some (v, c) \<Rightarrow> ''Version '' @ js_to_string num v | None \<Rightarrow> [])"

definition viewer_text :: "(jv \<Rightarrow> string) \<Rightarrow> jv \<times> jv \<Rightarrow> string" where
  "viewer_text pretty w = ''```json'' @ [newline] @ pretty (mask_secrets (snd w)) @ [newline] @ ''```''"

definition download_viewed :: "(rat \<Rightarrow> string) \<Rightarrow> (jv \<Rightarrow> string) \<Rightarrow> jv \<times> jv \<Rightarrow> string \<times> string" where
  "download_viewed num pretty w =
     (''config-v'' @ js_to_string num (fst w) @ ''.json'', pretty (mask_secrets (snd w)))"

text \<open>What throws in the handler leaves the page and the viewer as they are.\<close>

definition use_viewed ::
  "(rat \<Rightarrow> string) \<Rightarrow> jv \<times> jv \<Rightarrow> manage_state \<Rightarrow> (jv \<times> jv) option \<times> manage_state" where
  "use_viewed num w s =
     (case put_version num (snd w) (fst w) s of
        Inl _ \<Rightarrow> (Some w, s)
      | Inr s1 \<Rightarrow>
          (None, add_toast ''success'' ''Version loaded''
             (JStr (''Version '' @ js_to_string num (fst w) @ '' is now your current configuration'')) s1))"


section \<open>The language model\<close>

datatype llm_call = Get_Secrets | Create_Secret string string | Get_Models jv bool jv

record llm_panel =
  lp_page :: manage_state
  lp_use_saved :: bool
  lp_secrets :: "jv list"
  lp_force_env :: bool
  lp_mode :: string
  lp_create :: bool                     \<comment> \<open>the form for a new secret is open\<close>
  lp_key :: string
  lp_value :: string
  lp_fetching :: nat                    \<comment> \<open>lists of secrets without an answer, those after a creation apart\<close>
  lp_asked :: "string list"             \<comment> \<open>names of secrets whose creation has no answer yet\<close>
  lp_made :: "jv list"                  \<comment> \<open>references that are chosen once the list has come\<close>
  lp_loading :: bool
  lp_error :: "string option"
  lp_models :: "jv list"
  lp_soon :: nat                        \<comment> \<open>saves that are made at once\<close>
  lp_blur :: bool                       \<comment> \<open>the save a tenth of a second after a field was left\<close>
  lp_calls :: "llm_call list"

abbreviation llm_of :: "llm_panel \<Rightarrow> jv" where
  "llm_of p \<equiv> sc_llm (mg_sec (lp_page p))"

definition llm_panel_init :: "manage_state \<Rightarrow> llm_panel" where
  "llm_panel_init s = \<lparr>lp_page = s, lp_use_saved = False, lp_secrets = [], lp_force_env = False, lp_mode = ''local'',
     lp_create = False, lp_key = [], lp_value = [], lp_fetching = 1, lp_asked = [], lp_made = [], lp_loading = False, lp_error = None,
     lp_models = [], lp_soon = 0, lp_blur = False, lp_calls = [Get_Secrets]\<rparr>"

text \<open>The effect that follows the key: a reference to a store ticks the box.\<close>

definition saved_key :: "jv \<Rightarrow> bool" where
  "saved_key llm =
     (case js_nullor (opt_prop llm ''api_key'') (JStr []) of
        JStr s \<Rightarrow> starts_with s ''db://'' \<or> starts_with s ''vault://'' \<or> starts_with s ''aws://''
      | _ \<Rightarrow> False)"

definition set_llm :: "jv \<Rightarrow> llm_panel \<Rightarrow> llm_panel" where
  "set_llm c p = p\<lparr>lp_page := (lp_page p)\<lparr>mg_sec := (mg_sec (lp_page p))\<lparr>sc_llm := c\<rparr>\<rparr>,
     lp_use_saved := (if opt_prop c ''api_key'' = opt_prop (llm_of p) ''api_key'' then lp_use_saved p else saved_key c)\<rparr>"

definition update_key :: "string \<Rightarrow> jv \<Rightarrow> llm_panel \<Rightarrow> llm_panel" where
  "update_key k v p = set_llm (obj_with (llm_of p) [(k, v)]) p"

text \<open>\<open>refreshSecrets\<close>: both replies, or an error that is dropped.\<close>

definition mode_text :: "jv \<Rightarrow> string" where
  "mode_text cfg = (case fld cfg ''mode'' of JStr m \<Rightarrow> if m = [] then ''local'' else m | _ \<Rightarrow> ''local'')"

definition saved_secrets :: "(rat \<Rightarrow> string) \<Rightarrow> string \<Rightarrow> jv \<Rightarrow> exn + jv list" where
  "saved_secrets num mode raw =
     (case raw of
        JArr xs \<Rightarrow>
          try_map (\<lambda>s. try_bind (get_prop s ''id'') (\<lambda>i.
            Inr (JObj [(''id'', i), (''description'', fld s ''description''), (''ref'', secret_ref num mode s)]))) xs
      | _ \<Rightarrow> Inl ''raw.map is not a function'')"

definition refresh_secrets :: "(rat \<Rightarrow> string) \<Rightarrow> exn + http_reply \<times> http_reply \<Rightarrow> llm_panel \<Rightarrow> llm_panel" where
  "refresh_secrets num r p =
     (case r of
        Inl _ \<Rightarrow> p
      | Inr (secrets, config) \<Rightarrow>
          (case (if hr_ok config
                 then try_bind (hr_json config) (\<lambda>c. try_bind (get_prop c ''force_env'') (\<lambda>f. Inr (truthy f, mode_text c)))
                 else Inr (lp_force_env p, ''local'')) of
             Inl _ \<Rightarrow> p
           | Inr (force, mode) \<Rightarrow>
               let p1 = p\<lparr>lp_force_env := force, lp_mode := mode\<rparr>
               in if \<not> hr_ok secrets then p1
                  else case try_bind (hr_json secrets) (\<lambda>d. try_bind (get_prop d ''secrets'') (\<lambda>ss.
                              saved_secrets num mode (js_or ss (js_or (fld d ''overrides'') (JArr []))))) of
                         Inl _ \<Rightarrow> p1
                       | Inr ss \<Rightarrow> p1\<lparr>lp_secrets := ss\<rparr>))"

text \<open>
  \<open>Number\<close> of what a numeric input passes on, a number or the text of one; the forms with a
  prefix of the base and \<open>Infinity\<close> are left out.
\<close>

definition exponent_text :: "string \<Rightarrow> bool" where
  "exponent_text s =
     (case s of
        [] \<Rightarrow> True
      | c # cs \<Rightarrow> (c = CHR ''e'' \<or> c = CHR ''E'') \<and> snd (signed cs) \<noteq> [] \<and> list_all is_digit (snd (signed cs)))"

definition decimal_text :: "string \<Rightarrow> bool" where
  "decimal_text s =
     (let t = snd (signed s); ip = takeWhile is_digit t; t1 = drop (length ip) t;
          dot = (t1 \<noteq> [] \<and> hd t1 = CHR ''.''); fp = (if dot then takeWhile is_digit (tl t1) else [])
      in ip @ fp \<noteq> [] \<and> exponent_text (if dot then drop (length fp) (tl t1) else t1))"

definition number_of_input :: "jv \<Rightarrow> rat option" where
  "number_of_input v =
     (case v of
        JNum q \<Rightarrow> Some q
      | JStr s \<Rightarrow> (let t = trim s in if t = [] then Some 0 else if decimal_text t then parse_float t else None)
      | _ \<Rightarrow> None)"

text \<open>\<open>Number(value) || d\<close>: zero and what is no number become the default.\<close>

definition number_or :: "jv \<Rightarrow> rat \<Rightarrow> jv" where
  "number_or v d = (case number_of_input v of Some q \<Rightarrow> JNum (if q = 0 then d else q) | None \<Rightarrow> JNum d)"

datatype llm_event =
    Provider_Chosen string
  | Auth_Chosen string
  | Header_Typed string
  | Saved_Ticked bool
  | Secret_Chosen string
  | Create_Toggled
  | Key_Name_Typed string
  | Secret_Value_Typed string
  | Create_Pressed string                       \<comment> \<open>the clock\<close>
  | Api_Key_Typed string
  | Base_Typed string
  | Ssl_Ticked bool
  | Model_Typed string
  | Model_Chosen string
  | Temperature_Set jv
  | Field_Left
  | Models_Asked
  | Secret_Made nat "exn + http_reply"
  | Manager_Closed
  | Secrets_Came "exn + http_reply \<times> http_reply"
  | Made_Listed nat "exn + http_reply \<times> http_reply"
  | Models_Came "exn + http_reply"
  | Saved_Soon "exn + http_reply"
  | Saved_After_Blur "exn + http_reply"

definition models_text :: "(rat \<Rightarrow> string) \<Rightarrow> http_reply \<Rightarrow> string" where
  "models_text num rep =
     (let err = (case hr_json rep of Inr e \<Rightarrow> e | Inl _ \<Rightarrow> JObj [])
      in if nullish err then type_error err ''detail''
         else js_to_string num (js_nullor (fld err ''detail'') (js_nullor (fld err ''message'')
                (JStr (show_nat (hr_status rep) @ '' '' @ hr_status_text rep)))))"

definition models_came :: "(rat \<Rightarrow> string) \<Rightarrow> exn + http_reply \<Rightarrow> llm_panel \<Rightarrow> llm_panel" where
  "models_came num r p =
     (let p1 = p\<lparr>lp_loading := False\<rparr>
      in case r of
           Inl m \<Rightarrow> p1\<lparr>lp_error := Some m\<rparr>
         | Inr rep \<Rightarrow>
             if \<not> hr_ok rep then p1\<lparr>lp_error := Some (models_text num rep)\<rparr>
             else (case try_bind (hr_json rep) (\<lambda>d. get_prop d ''models'') of
                     Inl m \<Rightarrow> p1\<lparr>lp_error := Some m\<rparr>
                   | Inr ms \<Rightarrow> p1\<lparr>lp_models := (case ms of JArr xs \<Rightarrow> xs | _ \<Rightarrow> [])\<rparr>))"


definition without :: "nat \<Rightarrow> 'a list \<Rightarrow> 'a list" where
  "without n xs = take n xs @ drop (Suc n) xs"

text \<open>The answer to a creation: the form is closed, and the list is fetched before the reference is chosen.\<close>

definition secret_made :: "(rat \<Rightarrow> string) \<Rightarrow> nat \<Rightarrow> exn + http_reply \<Rightarrow> llm_panel \<Rightarrow> llm_panel" where
  "secret_made num n r p =
     (let p1 = p\<lparr>lp_asked := without n (lp_asked p)\<rparr>
      in case r of
           Inl _ \<Rightarrow> p1
         | Inr rep \<Rightarrow>
             if \<not> hr_ok rep then p1
             else (case try_bind (hr_json rep) (\<lambda>d. get_prop d ''ref'') of
                     Inl _ \<Rightarrow> p1
                   | Inr ref \<Rightarrow>
                       p1\<lparr>lp_create := False, lp_value := [], lp_key := [],
                          lp_made := lp_made p @ [js_or ref (JStr (''db://'' @ lp_asked p ! n))],
                          lp_calls := lp_calls p @ [Get_Secrets]\<rparr>))"

definition soon :: "llm_panel \<Rightarrow> llm_panel" where
  "soon p = p\<lparr>lp_soon := Suc (lp_soon p)\<rparr>"

fun llm_do :: "(rat \<Rightarrow> string) \<Rightarrow> llm_event \<Rightarrow> llm_panel \<Rightarrow> llm_panel" where
  "llm_do num (Provider_Chosen v) p = soon (set_llm (select_provider (if v = [] then ''openai'' else v) (llm_of p)) p)"
| "llm_do num (Auth_Chosen v) p = soon (update_key ''auth_type'' (JStr v) p)"
| "llm_do num (Header_Typed v) p = update_key ''auth_header_name'' (JStr v) p"
| "llm_do num (Saved_Ticked b) p = p\<lparr>lp_use_saved := b, lp_create := False\<rparr>"
| "llm_do num (Secret_Chosen v) p = soon (update_key ''api_key'' (JStr v) p)"
| "llm_do num Create_Toggled p = p\<lparr>lp_create := \<not> lp_create p\<rparr>"
| "llm_do num (Key_Name_Typed v) p = p\<lparr>lp_key := v\<rparr>"
| "llm_do num (Secret_Value_Typed v) p = p\<lparr>lp_value := v\<rparr>"
| "llm_do num (Create_Pressed now) p =
     p\<lparr>lp_asked := lp_asked p @ [secret_slug now (lp_key p)],
       lp_calls := lp_calls p @ [Create_Secret (secret_slug now (lp_key p)) (trim (lp_value p))]\<rparr>"
| "llm_do num (Api_Key_Typed v) p = update_key ''api_key'' (JStr v) p"
| "llm_do num (Base_Typed v) p = update_key ''base_url'' (JStr v) p"
| "llm_do num (Ssl_Ticked b) p = soon (update_key ''disable_ssl'' (JBool b) p)"
| "llm_do num (Model_Typed v) p = update_key ''model'' (JStr v) p"
| "llm_do num (Model_Chosen v) p = soon (update_key ''model'' (JStr v) p)"
| "llm_do num (Temperature_Set v) p = update_key ''temperature'' (number_or v (1 / 10)) p"
| "llm_do num Field_Left p = p\<lparr>lp_blur := True\<rparr>"
| "llm_do num Models_Asked p =
     p\<lparr>lp_error := None, lp_models := [], lp_loading := True,
       lp_calls := lp_calls p @ [Get_Models (js_nullor (opt_prop (llm_of p) ''api_key'') (JStr []))
         (truthy (opt_prop (llm_of p) ''disable_ssl'')) (opt_prop (llm_of p) ''provider'')]\<rparr>"
| "llm_do num (Secret_Made n r) p = secret_made num n r p"
| "llm_do num Manager_Closed p = p\<lparr>lp_fetching := Suc (lp_fetching p), lp_calls := lp_calls p @ [Get_Secrets]\<rparr>"
| "llm_do num (Secrets_Came r) p = refresh_secrets num r (p\<lparr>lp_fetching := lp_fetching p - 1\<rparr>)"
| "llm_do num (Made_Listed n r) p =
     soon (update_key ''api_key'' (lp_made p ! n) (refresh_secrets num r (p\<lparr>lp_made := without n (lp_made p)\<rparr>)))"
| "llm_do num (Models_Came r) p = models_came num r p"
| "llm_do num (Saved_Soon r) p = p\<lparr>lp_soon := lp_soon p - 1, lp_page := save_llm_draft r (lp_page p)\<rparr>"
| "llm_do num (Saved_After_Blur r) p = p\<lparr>lp_blur := False, lp_page := save_llm_draft r (lp_page p)\<rparr>"

text \<open>What the form draws.\<close>

datatype llm_control =
    Env_Notice
  | Provider_Box jv
  | Auth_Box jv
  | Header_Box jv
  | Saved_Box bool
  | Secret_Box string jv "(jv \<times> jv) list"
  | Create_Button string
  | Create_Form string string bool             \<comment> \<open>the last: whether it can be sent\<close>
  | Key_Box string jv
  | Base_Box jv string string
  | Ssl_Box bool
  | Model_Box jv
  | Models_Button string bool
  | Models_Progress
  | Models_Problem string
  | Models_Box jv "jv list"
  | Temperature_Box jv

definition llm_providers :: "string list" where
  "llm_providers = [''groq'', ''openai'', ''litellm'']"

definition env_managed :: "llm_panel \<Rightarrow> bool" where
  "env_managed p \<longleftrightarrow> lp_mode p = ''local'' \<and> lp_force_env p"

definition llm_field :: "llm_panel \<Rightarrow> string \<Rightarrow> jv \<Rightarrow> jv" where
  "llm_field p k d = js_nullor (opt_prop (llm_of p) k) d"

definition secret_label :: "jv \<Rightarrow> jv" where
  "secret_label s =
     (if truthy (fld s ''description'')
      then (case (fld s ''id'', fld s ''description'') of
              (JStr i, JStr d) \<Rightarrow> JStr (i @ '' '' @ [CHR 0xE2, CHR 0x80, CHR 0x94] @ '' '' @ d)
            | _ \<Rightarrow> fld s ''id'')
      else fld s ''id'')"

definition draw_key :: "llm_panel \<Rightarrow> llm_control list" where
  "draw_key p =
     (let header = (opt_prop (llm_of p) ''auth_type'' = JStr ''auth_header''); key = llm_field p ''api_key'' (JStr [])
      in if lp_use_saved p
         then [Secret_Box (if header then ''Header value (saved secret)'' else ''API Key (saved secret)'') key
                 ((JStr [], JStr ''Select a secret'') # map (\<lambda>s. (fld s ''ref'', secret_label s)) (lp_secrets p)),
               Create_Button (if lp_create p then ''Cancel'' else ''Create new secret'')]
              @ (if lp_create p then [Create_Form (lp_key p) (lp_value p) (trim (lp_value p) \<noteq> [])] else [])
         else [Key_Box (if header then ''Header value'' else ''API Key'')
                 (case key of JStr s \<Rightarrow> if starts_with s ''db://'' then JStr [] else key | _ \<Rightarrow> key)])"

definition draw_base :: "llm_panel \<Rightarrow> llm_control list" where
  "draw_base p =
     (let provider = opt_prop (llm_of p) ''provider''
      in if js_nullor provider (JStr []) = JStr ''groq'' then []
         else [Base_Box (llm_field p ''base_url'' (JStr []))
                 (if provider = JStr ''litellm'' then ''http://localhost:4000'' else ''https://api.openai.com/v1'')
                 (if provider = JStr ''litellm'' then ''Required for LiteLLM proxy'' else ''Optional; leave empty for default'')])"

definition draw_models :: "llm_panel \<Rightarrow> llm_control list" where
  "draw_models p =
     [Model_Box (llm_field p ''model'' (JStr [])),
      Models_Button (if lp_loading p then ''Loading'' @ [CHR 0xE2, CHR 0x80, CHR 0xA6] else ''List models'') (\<not> lp_loading p)]
     @ (if lp_loading p then [Models_Progress] else [])
     @ (case lp_error p of Some m \<Rightarrow> if m = [] then [] else [Models_Problem m] | None \<Rightarrow> [])
     @ (if lp_models p = [] then [] else [Models_Box (llm_field p ''model'' (JStr [])) (JStr [] # lp_models p)])"

definition draw_llm :: "llm_panel \<Rightarrow> llm_control list" where
  "draw_llm p =
     (if env_managed p then [Env_Notice]
      else [Provider_Box (llm_field p ''provider'' (JStr ''openai'')), Auth_Box (llm_field p ''auth_type'' (JStr ''api_key''))]
           @ (if llm_field p ''auth_type'' (JStr ''api_key'') = JStr ''auth_header''
              then [Header_Box (llm_field p ''auth_header_name'' (JStr ''Authorization''))] else [])
           @ [Saved_Box (lp_use_saved p)] @ draw_key p @ draw_base p
           @ [Ssl_Box (truthy (opt_prop (llm_of p) ''disable_ssl''))] @ draw_models p
           @ [Temperature_Box (llm_field p ''temperature'' (JNum (1 / 10)))])"

text \<open>Which events there can be: those of the drawn and enabled controls, and the replies and timers awaited.\<close>

definition offers :: "llm_event \<Rightarrow> llm_control \<Rightarrow> bool" where
  "offers e c =
     (case c of
        Env_Notice \<Rightarrow> False
      | Provider_Box _ \<Rightarrow> (case e of Provider_Chosen v \<Rightarrow> v \<in> set llm_providers | _ \<Rightarrow> False)
      | Auth_Box _ \<Rightarrow> (case e of Auth_Chosen v \<Rightarrow> v = ''api_key'' \<or> v = ''auth_header'' | _ \<Rightarrow> False)
      | Header_Box _ \<Rightarrow> (case e of Header_Typed _ \<Rightarrow> True | Field_Left \<Rightarrow> True | _ \<Rightarrow> False)
      | Saved_Box _ \<Rightarrow> (case e of Saved_Ticked _ \<Rightarrow> True | _ \<Rightarrow> False)
      | Secret_Box _ _ os \<Rightarrow> (case e of Secret_Chosen v \<Rightarrow> JStr v \<in> fst ` set os | _ \<Rightarrow> False)
      | Create_Button _ \<Rightarrow> e = Create_Toggled
      | Create_Form _ _ b \<Rightarrow>
          (case e of Key_Name_Typed _ \<Rightarrow> True | Secret_Value_Typed _ \<Rightarrow> True | Create_Pressed _ \<Rightarrow> b | _ \<Rightarrow> False)
      | Key_Box _ _ \<Rightarrow> (case e of Api_Key_Typed _ \<Rightarrow> True | Field_Left \<Rightarrow> True | _ \<Rightarrow> False)
      | Base_Box _ _ _ \<Rightarrow> (case e of Base_Typed _ \<Rightarrow> True | Field_Left \<Rightarrow> True | _ \<Rightarrow> False)
      | Ssl_Box _ \<Rightarrow> (case e of Ssl_Ticked _ \<Rightarrow> True | _ \<Rightarrow> False)
      | Model_Box _ \<Rightarrow> (case e of Model_Typed _ \<Rightarrow> True | Field_Left \<Rightarrow> True | _ \<Rightarrow> False)
      | Models_Button _ b \<Rightarrow> e = Models_Asked \<and> b
      | Models_Progress \<Rightarrow> False
      | Models_Problem _ \<Rightarrow> False
      | Models_Box _ os \<Rightarrow> (case e of Model_Chosen v \<Rightarrow> JStr v \<in> set os | _ \<Rightarrow> False)
      | Temperature_Box _ \<Rightarrow> (case e of Temperature_Set _ \<Rightarrow> True | Field_Left \<Rightarrow> True | _ \<Rightarrow> False))"

fun llm_allows :: "llm_panel \<Rightarrow> llm_event \<Rightarrow> bool" where
  "llm_allows p (Secret_Made n _) = (n < length (lp_asked p))"
| "llm_allows p Manager_Closed = True"
| "llm_allows p (Secrets_Came _) = (lp_fetching p > 0)"
| "llm_allows p (Made_Listed n _) = (n < length (lp_made p))"
| "llm_allows p (Models_Came _) = lp_loading p"
| "llm_allows p (Saved_Soon _) = (lp_soon p > 0)"
| "llm_allows p (Saved_After_Blur _) = lp_blur p"
| "llm_allows p e = list_ex (offers e) (draw_llm p)"

inductive llm_run :: "(rat \<Rightarrow> string) \<Rightarrow> llm_panel \<Rightarrow> llm_event list \<Rightarrow> llm_panel \<Rightarrow> bool" for num p where
  opened: "llm_run num p [] p"
| stepped: "llm_run num p es q \<Longrightarrow> llm_allows q e \<Longrightarrow> llm_run num p (es @ [e]) (llm_do num e q)"


section \<open>The welcome screen, the flags and the policies\<close>

datatype page_event =
    Greeting_Typed string
  | Starter_Typed nat string
  | Welcome_Toggled bool
  | Flag_Toggled string bool
  | Steps_Set jv
  | Threshold_Set jv
  | Policies_Set jv
  | Saved_Here                 \<comment> \<open>a field is left, or the button of its section is pressed\<close>
  | Toggle_Saved               \<comment> \<open>the timer of a toggle\<close>
  | Import_Over

definition put_home :: "jv \<Rightarrow> manage_state \<Rightarrow> manage_state" where
  "put_home h s = s\<lparr>mg_sec := (mg_sec s)\<lparr>sc_home := h\<rparr>\<rparr>"

definition put_flag :: "string \<Rightarrow> jv \<Rightarrow> manage_state \<Rightarrow> manage_state" where
  "put_flag k v s = s\<lparr>mg_sec := (mg_sec s)\<lparr>sc_flags := obj_with (sc_flags (mg_sec s)) [(k, v)]\<rparr>\<rparr>"

text \<open>While an import is announced every edit makes the effect that saves run again.\<close>

definition import_effect :: "(rat \<Rightarrow> string) \<Rightarrow> exn + http_reply \<Rightarrow> manage_state \<Rightarrow> manage_state" where
  "import_effect num r s = (if mg_importing s then perform_draft_save num r (mg_sec s) s else s)"

text \<open>The reply is that to the save the event makes, if it makes one.\<close>

fun page_do :: "(rat \<Rightarrow> string) \<Rightarrow> exn + http_reply \<Rightarrow> page_event \<Rightarrow> manage_state \<Rightarrow> manage_state" where
  "page_do num r (Greeting_Typed t) s =
     import_effect num r (put_home (obj_with (js_nullor (sc_home (mg_sec s)) default_home) [(''greeting'', JStr t)]) s)"
| "page_do num r (Starter_Typed i t) s = import_effect num r (put_home (update_starter i t (sc_home (mg_sec s))) s)"
| "page_do num r (Welcome_Toggled b) s = import_effect num r (toggle_home (JBool b) s)"
| "page_do num r (Flag_Toggled k b) s = import_effect num r (toggle_flag k (JBool b) s)"
| "page_do num r (Steps_Set v) s = import_effect num r (put_flag ''max_steps'' (number_or v 70) s)"
| "page_do num r (Threshold_Set v) s = import_effect num r (put_flag ''shortlisting_tool_threshold'' (number_or v 35) s)"
| "page_do num r (Policies_Set c) s = import_effect num r (s\<lparr>mg_sec := (mg_sec s)\<lparr>sc_policies := c\<rparr>\<rparr>)"
| "page_do num r Saved_Here s = perform_draft_save num r (mg_sec s) s"
| "page_do num r Toggle_Saved s = pending_save num r s"
| "page_do num r Import_Over s = s\<lparr>mg_importing := False\<rparr>"

definition starter_boxes :: "jv \<Rightarrow> (string \<times> jv \<times> string) list" where
  "starter_boxes home =
     (let starters = js_nullor (opt_prop home ''starters'') (JArr [])
      in map (\<lambda>i. (''Starter '' @ show_nat (Suc i),
                   js_nullor (case starters of JArr xs \<Rightarrow> if i < length xs then xs ! i else JUndef | _ \<Rightarrow> JUndef) (JStr []),
                   if i = 0 then ''Hi, what can you do for me?'' else ''Optional'')) [0..<4])"

record welcome_view =
  wv_shown :: jv
  wv_greeting :: jv
  wv_starters :: "(string \<times> jv \<times> string) list"
  wv_button :: "string \<times> bool"            \<comment> \<open>the label, and whether it can be pressed\<close>

definition saving_label :: "string \<Rightarrow> bool \<Rightarrow> string \<times> bool" where
  "saving_label label saving = (if saving then ''Saving'' @ [CHR 0xE2, CHR 0x80, CHR 0xA6] else label, \<not> saving)"

definition draw_welcome :: "bool \<Rightarrow> manage_state \<Rightarrow> welcome_view" where
  "draw_welcome saving s =
     (let home = sc_home (mg_sec s)
      in \<lparr>wv_shown = js_nullor (opt_prop home ''isOn'') (JBool True),
          wv_greeting = js_nullor (opt_prop home ''greeting'') (fld default_home ''greeting''),
          wv_starters = starter_boxes home, wv_button = saving_label ''Save welcome screen'' saving\<rparr>)"

record flags_view =
  fv_todos :: jv
  fv_reflection :: jv
  fv_steps :: jv
  fv_threshold :: jv
  fv_button :: "string \<times> bool"

definition draw_flags :: "bool \<Rightarrow> manage_state \<Rightarrow> flags_view" where
  "draw_flags saving s =
     (let flag = (\<lambda>k d. js_nullor (opt_prop (sc_flags (mg_sec s)) k) d)
      in \<lparr>fv_todos = flag ''enable_todos'' (JBool True), fv_reflection = flag ''reflection'' (JBool False),
          fv_steps = flag ''max_steps'' (JNum 70), fv_threshold = flag ''shortlisting_tool_threshold'' (JNum 35),
          fv_button = saving_label ''Save Flags'' saving\<rparr>)"

text \<open>The summary of the policies, with their number by type.\<close>

definition policy_type_label :: "(rat \<Rightarrow> string) \<Rightarrow> jv \<Rightarrow> string" where
  "policy_type_label num t =
     (let k = js_to_string num t
      in case map_of [(''intent_guard'', ''Intent guards''), (''playbook'', ''Playbooks''), (''tool_guide'', ''Tool guides''),
                      (''tool_approval'', ''Tool approval''), (''output_formatter'', ''Output formatters'')] k of
           Some l \<Rightarrow> l
         | None \<Rightarrow> k)"

definition policies_section :: "(rat \<Rightarrow> string) \<Rightarrow> jv \<Rightarrow> string \<times> (string \<times> nat) list" where
  "policies_section num ps =
     (let listed = (case js_nullor (opt_prop ps ''policies'') (JArr []) of JArr xs \<Rightarrow> xs | _ \<Rightarrow> []);
          total = length listed;
          on = truthy (js_nullor (opt_prop ps ''enablePolicies'') (JBool False))
      in (if on then show_nat total @ '' '' @ (if total \<noteq> 1 then ''policies'' else ''policy'') @ '' defined'' else ''Policies disabled'',
          if on \<and> total > 0 then map (\<lambda>(t, n). (policy_type_label num t, n)) (policies_by_type listed) else []))"

section \<open>The save bar and the variables\<close>

record save_bar =
  sb_publish :: "string \<times> bool"            \<comment> \<open>the label, and whether it can be pressed\<close>
  sb_saving :: bool
  sb_notice :: "(string \<times> string) option" \<comment> \<open>title and subtitle\<close>
  sb_version :: "string option"

text \<open>
  The arguments say whether a draft is being saved, what became of the last import, and how
  a date is written.
\<close>

datatype import_status = Import_Idle | Import_Ok | Import_Error "string option"

definition publish_label :: "nat \<Rightarrow> string" where
  "publish_label st =
     (if st = 0 then ''Publish'' else if st = 1 then ''Publishing'' @ [CHR 0xE2, CHR 0x80, CHR 0xA6]
      else if st = 2 then ''Published'' else ''Error'')"

definition version_line :: "(rat \<Rightarrow> string) \<Rightarrow> (string \<Rightarrow> string) \<Rightarrow> manage_state \<Rightarrow> string" where
  "version_line num date s =
     ''Version: '' @ (if mg_version s = JStr ''draft'' then ''draft'' else ''v'' @ js_to_string num (mg_version s))
     @ (case mg_history s of
          JArr (v # _) \<Rightarrow>
            '' '' @ [CHR 0xC2, CHR 0xB7] @ '' Last publish: v'' @ js_to_string num (fld v ''version'')
            @ (case fld v ''created_at'' of JStr c \<Rightarrow> '' ('' @ date c @ '')'' | _ \<Rightarrow> [])
        | _ \<Rightarrow> [])"

definition draw_save_bar ::
  "(rat \<Rightarrow> string) \<Rightarrow> (string \<Rightarrow> string) \<Rightarrow> bool \<Rightarrow> import_status \<Rightarrow> manage_state \<Rightarrow> save_bar" where
  "draw_save_bar num date saving imported s =
     (let err = (case mg_load_error s of Some m \<Rightarrow> m | None \<Rightarrow> [])
      in \<lparr>sb_publish = (publish_label (mg_status s), mg_status s \<noteq> 1), sb_saving = saving,
          sb_notice =
            (if err \<noteq> [] then Some (''Error'', err)
             else case imported of
                    Import_Idle \<Rightarrow> None
                  | Import_Ok \<Rightarrow> Some (''Success'', ''Config imported'')
                  | Import_Error m \<Rightarrow> Some (''Import failed'', case m of Some t \<Rightarrow> t | None \<Rightarrow> ''Import failed'')),
          sb_version = (if err = [] \<and> \<not> saving \<and> \<not> nullish (mg_version s) then Some (version_line num date s) else None)\<rparr>)"

text \<open>The variables of the turns.  The clock and random number of a turn without both are an argument.\<close>

record variables_panel =
  vp_variables :: "(string \<times> jv) list"
  vp_history :: "jv list"
  vp_chosen :: jv
  vp_open :: bool

definition turn_entry :: "(rat \<Rightarrow> string) \<Rightarrow> string \<Rightarrow> jv \<Rightarrow> jv" where
  "turn_entry num rnd h =
     JObj [(''id'', js_nullor (fld h ''id'') (JStr (if nullish (fld h ''timestamp'') then rnd else js_to_string num (fld h ''timestamp'')))),
           (''title'', js_nullor (fld h ''title'') (JStr ''Turn'')),
           (''timestamp'', js_nullor (fld h ''timestamp'') (JNum 0)),
           (''variables'', js_nullor (fld h ''variables'') (JObj []))]"

definition variables_update ::
  "(rat \<Rightarrow> string) \<Rightarrow> string \<Rightarrow> (string \<times> jv) list \<Rightarrow> jv list \<Rightarrow> variables_panel \<Rightarrow> variables_panel" where
  "variables_update num rnd vars hs p =
     p\<lparr>vp_variables := vars, vp_history := map (turn_entry num rnd) hs,
       vp_chosen := (if hs \<noteq> [] \<and> \<not> truthy (vp_chosen p) then js_nullor (opt_prop (hd hs) ''id'') JNull else vp_chosen p)\<rparr>"

definition variables_first :: variables_panel where
  "variables_first = \<lparr>vp_variables = [], vp_history = [], vp_chosen = JNull, vp_open = False\<rparr>"

text \<open>The title of the toggle, its count, and whether the panel is shown.\<close>

definition draw_turns :: "variables_panel \<Rightarrow> (string \<times> nat option \<times> bool) option" where
  "draw_turns p =
     (if vp_history p \<noteq> [] \<or> vp_variables p \<noteq> []
      then Some (if vp_open p then ''Close variables'' else ''Open variables'',
                 if vp_open p then None
                 else Some (if vp_variables p \<noteq> [] then length (vp_variables p) else length (vp_history p)),
                 vp_open p)
      else None)"


section \<open>Lemmas\<close>

lemmas llm_setters = set_llm_def update_key_def soon_def

lemma set_llm_simps [simp]:
  "llm_of (set_llm c p) = c" "mg_calls (lp_page (set_llm c p)) = mg_calls (lp_page p)"
  "lp_soon (set_llm c p) = lp_soon p" "lp_blur (set_llm c p) = lp_blur p"
  by (simp_all add: set_llm_def)

lemma update_key_simps [simp]:
  "llm_of (update_key k v p) = obj_with (llm_of p) [(k, v)]" "mg_calls (lp_page (update_key k v p)) = mg_calls (lp_page p)"
  "lp_soon (update_key k v p) = lp_soon p" "lp_blur (update_key k v p) = lp_blur p"
  by (simp_all add: update_key_def)

lemma soon_simps [simp]:
  "lp_page (soon p) = lp_page p" "lp_soon (soon p) = Suc (lp_soon p)" "lp_blur (soon p) = lp_blur p"
  by (simp_all add: soon_def)

text \<open>The replies about secrets and models touch neither the page nor the timers.\<close>

lemma refresh_simps [simp]:
  "lp_page (refresh_secrets num r p) = lp_page p" "lp_soon (refresh_secrets num r p) = lp_soon p"
  "lp_blur (refresh_secrets num r p) = lp_blur p"
  by (auto simp: refresh_secrets_def Let_def split: sum.split prod.split)

lemma made_simps [simp]:
  "lp_page (secret_made num n r p) = lp_page p" "lp_soon (secret_made num n r p) = lp_soon p"
  "lp_blur (secret_made num n r p) = lp_blur p"
  by (auto simp: secret_made_def Let_def split: sum.split)

lemma models_simps [simp]:
  "lp_page (models_came num r p) = lp_page p" "lp_soon (models_came num r p) = lp_soon p"
  "lp_blur (models_came num r p) = lp_blur p"
  by (auto simp: models_came_def Let_def split: sum.split)

lemma save_llm_simps [simp]:
  "mg_sec (save_llm_draft r s) = mg_sec s" "mg_calls (save_llm_draft r s) = mg_calls s @ [PatchLlm (sc_llm (mg_sec s))]"
  by (auto simp: save_llm_draft_def add_toast_def Let_def split: sum.split)

lemma draft_simps [simp]:
  "mg_sec (perform_draft_save num r seen s) = mg_sec s"
  "mg_calls (perform_draft_save num r seen s) = mg_calls s @ [PostDraft (assemble_config seen)]"
  "mg_pending (perform_draft_save num r seen s) = mg_pending s"
  by (auto simp: perform_draft_save_def draft_answered_def add_toast_def Let_def split: sum.split)

text \<open>The settings a form starts from and what every event keeps of them.\<close>

definition llm_fine :: "jv \<Rightarrow> bool" where
  "llm_fine c \<longleftrightarrow> is_obj c
     \<and> js_nullor (fld c ''provider'') (JStr ''openai'') \<in> JStr ` set llm_providers
     \<and> (fld c ''provider'' = JStr ''groq'' \<longrightarrow> fld c ''base_url'' = JStr [])
     \<and> js_nullor (fld c ''auth_type'') (JStr ''api_key'') \<in> {JStr ''api_key'', JStr ''auth_header''}
     \<and> fld c ''temperature'' \<noteq> JNum 0"

lemma fld_edited [simp]: "is_obj c \<Longrightarrow> fld (obj_with c [(k, v)]) j = (if j = k then v else fld c j)"
  by (cases c) simp_all

lemma is_obj_edited [simp]: "is_obj (obj_with c us)"
  by (simp add: obj_with_def)

lemma number_or_not_zero: "d \<noteq> 0 \<Longrightarrow> number_or v d \<noteq> JNum 0"
  by (simp add: number_or_def split: option.split)

lemma fine_other:
  "llm_fine c \<Longrightarrow> ''provider'' \<noteq> k \<Longrightarrow> ''base_url'' \<noteq> k \<Longrightarrow> ''auth_type'' \<noteq> k \<Longrightarrow> ''temperature'' \<noteq> k
   \<Longrightarrow> llm_fine (obj_with c [(k, v)])"
  by (simp add: llm_fine_def)

lemma fine_base: "llm_fine c \<Longrightarrow> js_nullor (fld c ''provider'') (JStr []) \<noteq> JStr ''groq'' \<Longrightarrow> llm_fine (obj_with c [(''base_url'', v)])"
  by (auto simp: llm_fine_def js_nullor_def split: if_splits)

lemma fine_auth: "llm_fine c \<Longrightarrow> v = ''api_key'' \<or> v = ''auth_header'' \<Longrightarrow> llm_fine (obj_with c [(''auth_type'', JStr v)])"
  by (auto simp: llm_fine_def js_nullor_def)

lemma fine_temperature: "llm_fine c \<Longrightarrow> llm_fine (obj_with c [(''temperature'', number_or v (1 / 10))])"
  using number_or_not_zero [of "1 / 10" v] by (simp add: llm_fine_def)

lemma obj_with_two_fields: "is_obj c \<Longrightarrow> fld (obj_with c [(k, x), (j, y)]) i = (if i = j then y else if i = k then x else fld c i)"
  by (cases c) (simp_all add: obj_with_def spread_def)

lemma obj_with_none: "is_obj c \<Longrightarrow> obj_with c [] = c"
  by (cases c) (simp_all add: obj_with_def spread_def)

text \<open>A provider sets its name, perhaps a model, and a base that is empty for Groq.\<close>

lemma provider_fields:
  assumes "is_obj c"
  shows "is_obj (select_provider v c)" "fld (select_provider v c) ''provider'' = JStr v"
    "fld (select_provider v c) ''auth_type'' = fld c ''auth_type''" "fld (select_provider v c) ''temperature'' = fld c ''temperature''"
    "v = ''groq'' \<Longrightarrow> fld (select_provider v c) ''base_url'' = JStr []"
  using assms by (simp_all add: select_provider_def Let_def obj_with_two_fields obj_with_none)

lemma fine_provider: "llm_fine c \<Longrightarrow> v \<in> set llm_providers \<Longrightarrow> llm_fine (select_provider v c)"
  unfolding llm_fine_def by (simp add: provider_fields js_nullor_def)


lemmas drawn = draw_llm_def draw_key_def draw_base_def draw_models_def offers_def Let_def

lemma offered_provider: "list_ex (offers (Provider_Chosen v)) (draw_llm q) \<Longrightarrow> v \<in> set llm_providers"
  by (auto simp: drawn split: if_splits option.splits)

lemma offered_auth: "list_ex (offers (Auth_Chosen v)) (draw_llm q) \<Longrightarrow> v = ''api_key'' \<or> v = ''auth_header''"
  by (auto simp: drawn split: if_splits option.splits)

lemma offered_base: "list_ex (offers (Base_Typed v)) (draw_llm q) \<Longrightarrow> js_nullor (opt_prop (llm_of q) ''provider'') (JStr []) \<noteq> JStr ''groq''"
  by (auto simp: drawn split: if_splits option.splits)

lemma fine_opt: "llm_fine c \<Longrightarrow> opt_prop c k = fld c k"
  by (cases c) (simp_all add: llm_fine_def opt_prop_def)

lemma fine_step: "llm_fine (llm_of q) \<Longrightarrow> llm_allows q e \<Longrightarrow> llm_fine (llm_of (llm_do num e q))"
proof (cases e)
  case (Provider_Chosen v)
  moreover assume "llm_fine (llm_of q)" "llm_allows q e"
  ultimately show ?thesis using offered_provider [of v q] by (auto simp: llm_providers_def fine_provider)
next
  case (Auth_Chosen v)
  moreover assume "llm_fine (llm_of q)" "llm_allows q e"
  ultimately show ?thesis using offered_auth [of v q] by (simp add: fine_auth)
next
  case (Base_Typed v)
  moreover assume "llm_fine (llm_of q)" "llm_allows q e"
  ultimately show ?thesis using offered_base [of v q] by (simp add: fine_base fine_opt)
qed (simp_all add: fine_other fine_temperature)

section \<open>Properties\<close>

text \<open>
  Over all events the drawn controls, the replies and the timers allow, the settings of
  the model stay those of an offered provider, without a base for Groq, with an offered
  way of authentication; and the temperature is never zero, although the input allows it.
\<close>

theorem llm_settings_stay_fine:
  assumes "llm_run num p es q" "llm_fine (llm_of p)"
  shows "llm_fine (llm_of q) \<and> fld (llm_of (llm_do num (Temperature_Set (JNum 0)) q)) ''temperature'' = JNum (1 / 10)"
proof -
  have "llm_fine (llm_of q)" using assms by (induction rule: llm_run.induct) (simp_all add: fine_step)
  then show ?thesis by (simp add: number_or_def number_of_input_def llm_fine_def)
qed

definition demo_panel :: llm_panel where
  "demo_panel = llm_panel_init manage_init"

lemma demo_llm [simp]: "llm_of demo_panel = default_llm"
  by (simp add: demo_panel_def llm_panel_init_def manage_init_def default_sections_def)

lemma demo_fine: "llm_fine default_llm"
  by (simp add: llm_fine_def default_llm_def llm_providers_def js_nullor_def)

lemma demo_run: "llm_run (\<lambda>_. []) demo_panel [Provider_Chosen ''groq''] (llm_do (\<lambda>_. []) (Provider_Chosen ''groq'') demo_panel)"
proof -
  have "llm_allows demo_panel (Provider_Chosen ''groq'')"
    by (simp add: drawn env_managed_def demo_panel_def llm_panel_init_def llm_providers_def)
  from llm_run.stepped [OF llm_run.opened this] show ?thesis by simp
qed

theorem llm_settings_stay_fine_witness:
  "llm_fine (llm_of (llm_do (\<lambda>_. []) (Provider_Chosen ''groq'') demo_panel))"
  using llm_settings_stay_fine [OF demo_run] demo_fine by simp

text \<open>Whether a typed edit waits for its field to be left.\<close>

fun typing :: "llm_event \<Rightarrow> bool \<Rightarrow> bool" where
  "typing (Header_Typed _) b = True"
| "typing (Api_Key_Typed _) b = True"
| "typing (Base_Typed _) b = True"
| "typing (Model_Typed _) b = True"
| "typing (Temperature_Set _) b = True"
| "typing Field_Left b = False"
| "typing e b = b"

definition open_edit :: "llm_event list \<Rightarrow> bool" where
  "open_edit es = fold typing es False"

lemma open_edit_snoc [simp]: "open_edit (es @ [e]) = typing e (open_edit es)"
  by (simp add: open_edit_def)

text \<open>The draft the page has asked for since some state of the server.\<close>

definition drafted :: "jv \<Rightarrow> llm_panel \<Rightarrow> jv" where
  "drafted d p = fold asked_draft (mg_calls (lp_page p)) d"

lemma fld_patched [simp]: "fld (obj_with d [(k, v)]) k = v"
  by (simp add: obj_with_one)

text \<open>
  C12. Every edit of the model's settings reaches the draft: once the fields are left and no
  timer is running, what the page has asked the draft to be has the settings it shows.
\<close>

theorem llm_edits_reach_draft:
  assumes "llm_run num p es q" "fld (drafted d p) ''llm'' = llm_of p"
    and "\<not> open_edit es" "lp_soon q = 0" "\<not> lp_blur q"
  shows "fld (drafted d q) ''llm'' = llm_of q"
proof -
  have "open_edit es \<or> lp_soon q > 0 \<or> lp_blur q \<or> fld (drafted d q) ''llm'' = llm_of q"
    using assms(1,2)
  proof (induction rule: llm_run.induct)
    case (stepped es q e)
    then show ?case by (cases e) (auto simp: drafted_def)
  qed (simp add: open_edit_def)
  then show ?thesis using assms(3-5) by simp
qed

theorem llm_edits_reach_draft_witness:
  "fld (drafted (JObj [(''llm'', default_llm)])
     (llm_do (\<lambda>_. []) (Saved_Soon (Inl ''gone'')) (llm_do (\<lambda>_. []) (Provider_Chosen ''groq'') demo_panel))) ''llm''
   = select_provider ''groq'' default_llm"
proof -
  have "llm_allows (llm_do (\<lambda>_. []) (Provider_Chosen ''groq'') demo_panel) (Saved_Soon (Inl ''gone''))" by simp
  note llm_run.stepped [OF demo_run this]
  from llm_edits_reach_draft [OF this, of "JObj [(''llm'', default_llm)]"]
  show ?thesis by (simp add: drafted_def open_edit_def demo_panel_def llm_panel_init_def manage_init_def default_sections_def)
qed


lemma map_of_values: "map_of (map (\<lambda>p. (fst p, g p)) fs) k = map_option (\<lambda>v. g (k, v)) (map_of fs k)"
  by (induction fs) auto

lemma mask_key:
  assumes "is_obj c" "fld c ''api_key'' = JStr t"
  shows "fld (mask_secrets c) ''api_key'' = (if plain_secret (JStr t) then JStr bullets else JStr t)"
proof -
  obtain fs where c: "c = JObj fs" using assms(1) by (cases c) auto
  then have "map_of fs ''api_key'' = Some (JStr t)" using assms(2) by (simp split: option.splits)
  moreover have "sensitive_key fs ''api_key''" by (simp add: sensitive_key_def lower_char_def)
  ultimately show ?thesis by (simp add: c mask_obj map_of_values masked_def)
qed

lemma listed_ref:
  assumes "saved_secrets num mode (JArr raw) = Inr ss" "s \<in> set raw"
  shows "\<exists>x \<in> set ss. fld x ''ref'' = secret_ref num mode s"
proof -
  let ?f = "\<lambda>s. try_bind (get_prop s ''id'') (\<lambda>i.
    Inr (JObj [(''id'', i), (''description'', fld s ''description''), (''ref'', secret_ref num mode s)]))"
  obtain n where n: "n < length raw" "raw ! n = s" using assms(2) by (auto simp: in_set_conv_nth)
  have all: "list_all2 (\<lambda>x y. ?f x = Inr y) raw ss" using assms(1) by (simp add: saved_secrets_def try_map_Inr)
  then have "?f s = Inr (ss ! n)" using n list_all2_nthD [OF all n(1)] by simp
  moreover have "ss ! n \<in> set ss" using n list_all2_lengthD [OF all] by simp
  ultimately show ?thesis by (cases "get_prop s ''id''") (auto intro!: bexI [of _ "ss ! n"] dest: sym)
qed

lemma key_effect:
  assumes "is_obj (llm_of p)" "opt_prop (llm_of p) ''api_key'' \<noteq> v"
  shows "lp_use_saved (update_key ''api_key'' v p) = saved_key (obj_with (llm_of p) [(''api_key'', v)])"
proof -
  have "opt_prop (obj_with (llm_of p) [(''api_key'', v)]) ''api_key'' = v"
    by (simp add: opt_prop_def obj_with_one)
  then show ?thesis using assms(2) by (simp add: update_key_def set_llm_def)
qed

text \<open>
  C14. A saved secret that is chosen stays chosen: the box remains ticked and the list shows it.
  One that comes from the environment does not: its reference is its bare name, so the box
  is unticked, the name stands in the field of the key, and a download masks it as a key.
\<close>

theorem chosen_secret_shown:
  assumes "saved_secrets num (lp_mode p) (JArr raw) = Inr (lp_secrets p)" "s \<in> set raw" "fld s ''id'' = JStr i"
    and "secret_ref num (lp_mode p) s = JStr r" "lp_use_saved p" "\<not> env_managed p"
    and "opt_prop (llm_of p) ''api_key'' \<noteq> JStr r" "is_obj (llm_of p)" "i \<noteq> []" "\<not> is_secret_ref (JStr i)"
  shows "llm_allows p (Secret_Chosen r)
    \<and> (if lp_mode p \<noteq> ''vault'' \<and> fld s ''source'' = JStr ''env''
       then \<not> lp_use_saved (llm_do num (Secret_Chosen r) p)
          \<and> (\<exists>l. Key_Box l (JStr i) \<in> set (draw_llm (llm_do num (Secret_Chosen r) p)))
          \<and> fld (mask_secrets (llm_of (llm_do num (Secret_Chosen r) p))) ''api_key'' = JStr bullets
       else lp_use_saved (llm_do num (Secret_Chosen r) p)
          \<and> (\<exists>l os. Secret_Box l (JStr r) os \<in> set (draw_llm (llm_do num (Secret_Chosen r) p)) \<and> JStr r \<in> fst ` set os)
          \<and> fld (mask_secrets (llm_of (llm_do num (Secret_Chosen r) p))) ''api_key'' = JStr r)"
proof -
  define c where "c = obj_with (llm_of p) [(''api_key'', JStr r)]"
  define q where "q = llm_do num (Secret_Chosen r) p"
  obtain x where x: "x \<in> set (lp_secrets p)" "fld x ''ref'' = JStr r" using listed_ref [OF assms(1,2)] assms(4) by auto
  then have listed: "JStr r \<in> (\<lambda>s. fld s ''ref'') ` set (lp_secrets p)" by force
  have allowed: "llm_allows p (Secret_Chosen r)"
    using assms(5,6) listed by (auto simp: drawn image_image)
  have after: "llm_of q = c" "lp_use_saved q = saved_key c" "env_managed q = env_managed p" "lp_secrets q = lp_secrets p"
    using key_effect [OF assms(8,7)] by (simp_all add: c_def q_def soon_def env_managed_def update_key_def set_llm_def)
  have key: "opt_prop c ''api_key'' = JStr r" "fld c ''api_key'' = JStr r" by (simp_all add: c_def opt_prop_def obj_with_one)
  have masked: "fld (mask_secrets c) ''api_key'' = (if plain_secret (JStr r) then JStr bullets else JStr r)"
    using mask_key [of c r] key(2) by (simp add: c_def)
  show ?thesis
  proof (cases "lp_mode p \<noteq> ''vault'' \<and> fld s ''source'' = JStr ''env''")
    case True
    then have r: "r = i" using assms(3,4) by (simp add: secret_ref_def Let_def)
    then have "\<not> saved_key c" "\<not> starts_with r ''db://''"
      using assms(10) key(1) by (simp_all add: saved_key_def is_secret_ref_def js_nullor_def)
    then have "Key_Box (if opt_prop c ''auth_type'' = JStr ''auth_header'' then ''Header value'' else ''API Key'') (JStr i) \<in> set (draw_llm q)"
      using assms(6) r by (simp add: drawn after llm_field_def key js_nullor_def)
    moreover have "plain_secret (JStr r)" using assms(9,10) r by (simp add: plain_secret_def)
    ultimately show ?thesis using True allowed masked after \<open>\<not> saved_key c\<close>
      unfolding q_def [symmetric] by auto
  next
    case False
    then have "is_secret_ref (JStr r) \<and> \<not> starts_with r ''env://''"
      using assms(3,4) by (auto simp: secret_ref_def Let_def is_secret_ref_def starts_with_def split: if_splits)
    then have "saved_key c" "\<not> plain_secret (JStr r)"
      using key(1) by (auto simp: saved_key_def is_secret_ref_def plain_secret_def js_nullor_def)
    moreover have "\<exists>l os. Secret_Box l (JStr r) os \<in> set (draw_llm q) \<and> JStr r \<in> fst ` set os"
      using assms(6) listed \<open>saved_key c\<close> by (auto simp: drawn after llm_field_def key js_nullor_def image_image)
    ultimately show ?thesis using False allowed masked after
      unfolding q_def [symmetric] by auto
  qed
qed


definition env_panel :: llm_panel where
  "env_panel = demo_panel\<lparr>lp_use_saved := True, lp_secrets := [JObj [(''id'', JStr ''OPENAI_KEY''), (''description'', JUndef), (''ref'', JStr ''OPENAI_KEY'')]]\<rparr>"

theorem chosen_secret_shown_witness:
  "\<not> lp_use_saved (llm_do (\<lambda>_. []) (Secret_Chosen ''OPENAI_KEY'') env_panel)"
proof -
  have llm: "llm_of env_panel = default_llm" by (simp add: env_panel_def)
  have "lp_mode env_panel = ''local''" "\<not> env_managed env_panel" "lp_use_saved env_panel"
    by (simp_all add: env_panel_def demo_panel_def llm_panel_init_def env_managed_def)
  moreover have "saved_secrets (\<lambda>_. []) (lp_mode env_panel) (JArr [JObj [(''id'', JStr ''OPENAI_KEY''), (''source'', JStr ''env'')]]) = Inr (lp_secrets env_panel)"
    by (simp add: saved_secrets_def secret_ref_def env_panel_def demo_panel_def llm_panel_init_def)
  moreover have "opt_prop (llm_of env_panel) ''api_key'' \<noteq> JStr ''OPENAI_KEY''" "is_obj (llm_of env_panel)"
    unfolding llm by (simp_all add: opt_prop_def default_llm_def)
  ultimately show ?thesis
    using chosen_secret_shown [of "\<lambda>_. []" env_panel "[JObj [(''id'', JStr ''OPENAI_KEY''), (''source'', JStr ''env'')]]"
        "JObj [(''id'', JStr ''OPENAI_KEY''), (''source'', JStr ''env'')]" "''OPENAI_KEY''" "''OPENAI_KEY''"]
    by (simp add: secret_ref_def is_secret_ref_def starts_with_def del: llm_do.simps)
qed

text \<open>
  Viewing a version and using it does to the page what loading it does, up to the text of
  the toast; a version that cannot be read leaves the page as it is and, unlike loading,
  reports nothing.
\<close>

definition without_toasts :: "manage_state \<Rightarrow> manage_state" where
  "without_toasts s = s\<lparr>mg_toasts := []\<rparr>"

theorem used_version_as_loaded:
  assumes "hr_ok rep" "hr_json rep = Inr (JObj d)"
  shows "\<exists>w. view_version (JNum (of_nat n)) (Inr rep) None = Some w
    \<and> (case put_version num (fld (JObj d) ''config'') (JNum (of_nat n)) s of
         Inr s1 \<Rightarrow> fst (use_viewed num w s) = None
           \<and> without_toasts (snd (use_viewed num w s)) = without_toasts (load_version num n (Inr rep) s)
       | Inl m \<Rightarrow> use_viewed num w s = (Some w, s)
           \<and> without_toasts (load_version num n (Inr rep) s) = without_toasts (s\<lparr>mg_status := 3\<rparr>)
           \<and> mg_toasts (load_version num n (Inr rep) s) = mg_toasts s @ [Toast ''error'' ''Load Error'' (JStr m)])"
proof -
  have over: "put_version num (js_nullor c (JObj [])) v s = put_version num c v s" for c v
    by (cases c) (simp_all add: js_nullor_def put_version_def overlay_sections_def)
  show ?thesis
    by (auto simp: view_version_def assms use_viewed_def over load_version_def Let_def without_toasts_def add_toast_def
        split: sum.split)
qed

theorem used_version_as_loaded_witness:
  "\<exists>w. view_version (JNum (of_nat 3)) (Inr (ok_reply (JObj [(''config'', JObj [])]))) None = Some w
    \<and> fst (use_viewed (\<lambda>_. []) w manage_init) = None
    \<and> without_toasts (snd (use_viewed (\<lambda>_. []) w manage_init))
        = without_toasts (load_version (\<lambda>_. []) 3 (Inr (ok_reply (JObj [(''config'', JObj [])]))) manage_init)"
  using used_version_as_loaded [of "ok_reply (JObj [(''config'', JObj [])])" "[(''config'', JObj [])]" 3 "\<lambda>_. []" manage_init]
  by (simp add: ok_reply_def put_version_def overlay_sections_def default_sections_def normalize_tools_of_def)

text \<open>The configuration of the last request, if that request is for a draft.\<close>

definition asked_last :: "manage_state \<Rightarrow> jv option" where
  "asked_last s = (if mg_calls s = [] then None else case last (mg_calls s) of PostDraft c \<Rightarrow> Some c | _ \<Rightarrow> None)"

definition home_shown :: "manage_state \<Rightarrow> jv" where
  "home_shown s = js_nullor (sc_home (mg_sec s)) default_home"

definition starters_of :: "jv \<Rightarrow> jv list" where
  "starters_of home = (case js_nullor (opt_prop home ''starters'') (fld default_home ''starters'') of JArr xs \<Rightarrow> xs | _ \<Rightarrow> [])"

lemma asked_saved [simp]: "asked_last (perform_draft_save num r seen s) = Some (assemble_config seen)"
  by (simp add: asked_last_def)

lemma import_simps [simp]:
  "mg_sec (import_effect num r s) = mg_sec s" "mg_pending (import_effect num r s) = mg_pending s"
  by (simp_all add: import_effect_def)

lemma starter_updated:
  assumes "i < 4"
  shows "\<exists>xs. update_starter i t home = obj_with (js_nullor home default_home) [(''starters'', JArr xs)] \<and> i < length xs
    \<and> xs ! i = JStr t \<and> (\<forall>j < 4. j \<noteq> i \<and> j < length (starters_of home) \<longrightarrow> j < length xs \<and> xs ! j = starters_of home ! j)"
  using assms
  by (intro exI [of _ "take 4 ((starters_of home @ replicate (Suc i - length (starters_of home)) (JStr []))[i := JStr t])"])
    (auto simp: update_starter_def starters_of_def Let_def nth_append)

text \<open>
  C13. When no earlier toggle waits for its save: a text or a number that is typed is in the configuration the page asks the server to
  store as the draft once the field is left, in its place, and the rest of the
  configuration is as it was: the greeting, a starter, the number of steps, the threshold.
  A toggle is not: the page shows its new value, but the save that follows it, also while an
  import is announced, asks for the configuration from before, and only a later save asks for
  the new one.  Whether a request succeeds does not matter for what it asks.
\<close>

theorem toggles_saved_late:
  assumes "mg_pending s = []"
  shows "asked_last (page_do num r2 Saved_Here (page_do num r (Greeting_Typed g) s)) =
      Some (assemble_config ((mg_sec s)\<lparr>sc_home := obj_with (home_shown s) [(''greeting'', JStr g)]\<rparr>))
    \<and> (i < 4 \<longrightarrow> (\<exists>xs. asked_last (page_do num r2 Saved_Here (page_do num r (Starter_Typed i g) s)) =
          Some (assemble_config ((mg_sec s)\<lparr>sc_home := obj_with (home_shown s) [(''starters'', JArr xs)]\<rparr>))
        \<and> i < length xs \<and> xs ! i = JStr g
        \<and> (\<forall>j < 4. j \<noteq> i \<and> j < length (starters_of (sc_home (mg_sec s))) \<longrightarrow>
             j < length xs \<and> xs ! j = starters_of (sc_home (mg_sec s)) ! j)))
    \<and> asked_last (page_do num r2 Saved_Here (page_do num r (Steps_Set v) s)) =
      Some (assemble_config ((mg_sec s)\<lparr>sc_flags := obj_with (sc_flags (mg_sec s)) [(''max_steps'', number_or v 70)]\<rparr>))
    \<and> asked_last (page_do num r2 Saved_Here (page_do num r (Threshold_Set v) s)) =
      Some (assemble_config ((mg_sec s)\<lparr>sc_flags := obj_with (sc_flags (mg_sec s)) [(''shortlisting_tool_threshold'', number_or v 35)]\<rparr>))
    \<and> (let t = page_do num r2 Toggle_Saved (page_do num r (Flag_Toggled k b) s);
           new = (mg_sec s)\<lparr>sc_flags := obj_with (sc_flags (mg_sec s)) [(k, JBool b)]\<rparr>
       in mg_sec t = new \<and> asked_last t = Some (assemble_config (mg_sec s))
          \<and> asked_last (page_do num r3 Saved_Here t) = Some (assemble_config new))
    \<and> (let t = page_do num r2 Toggle_Saved (page_do num r (Welcome_Toggled b) s);
           new = (mg_sec s)\<lparr>sc_home := obj_with (home_shown s) [(''isOn'', JBool b)]\<rparr>
       in mg_sec t = new \<and> asked_last t = Some (assemble_config (mg_sec s))
          \<and> asked_last (page_do num r3 Saved_Here t) = Some (assemble_config new))"
proof -
  have starter: "\<exists>xs. asked_last (page_do num r2 Saved_Here (page_do num r (Starter_Typed i g) s)) =
          Some (assemble_config ((mg_sec s)\<lparr>sc_home := obj_with (home_shown s) [(''starters'', JArr xs)]\<rparr>))
        \<and> i < length xs \<and> xs ! i = JStr g
        \<and> (\<forall>j < 4. j \<noteq> i \<and> j < length (starters_of (sc_home (mg_sec s))) \<longrightarrow>
             j < length xs \<and> xs ! j = starters_of (sc_home (mg_sec s)) ! j)" if i: "i < 4"
    using starter_updated [OF i, of g "sc_home (mg_sec s)"] by (auto simp: put_home_def home_shown_def)
  show ?thesis
    using assms starter
    by (simp add: toggle_flag_def toggle_home_def pending_save_def put_home_def put_flag_def home_shown_def Let_def)
qed

theorem toggles_saved_late_witness:
  "asked_last (page_do (\<lambda>_. []) (Inl ''gone'') Toggle_Saved (page_do (\<lambda>_. []) (Inl ''gone'') (Flag_Toggled ''reflection'' True) manage_init))
     = Some (assemble_config (mg_sec manage_init))
   \<and> (\<exists>xs. asked_last (page_do (\<lambda>_. []) (Inl ''gone'') Saved_Here (page_do (\<lambda>_. []) (Inl ''gone'') (Starter_Typed 2 ''Hi'') manage_init)) =
        Some (assemble_config ((mg_sec manage_init)\<lparr>sc_home := obj_with (home_shown manage_init) [(''starters'', JArr xs)]\<rparr>))
        \<and> xs ! 2 = JStr ''Hi'')"
proof -
  have "mg_pending manage_init = []" by (simp add: manage_init_def)
  from toggles_saved_late [OF this, of "\<lambda>_. []" "Inl ''gone''" "Inl ''gone''" "''Hi''" 2 JUndef "''reflection''" True "Inl ''gone''"]
  show ?thesis by (auto simp: Let_def simp del: page_do.simps)
qed

text \<open>The tags of the policies add up to the number said above them, and every tag counts one at least.\<close>

lemma counts_grow:
  "sum_list (map snd (al_set t (Suc (case map_of al t of Some n \<Rightarrow> n | None \<Rightarrow> 0)) al)) = Suc (sum_list (map snd (al :: (jv \<times> nat) list)))"
  by (induction al) auto

lemma counts_add_up: "sum_list (map snd (policies_by_type ps)) = length ps"
proof (induction ps rule: rev_induct)
  case (snoc p ps)
  then show ?case by (simp add: policies_by_type_def Let_def counts_grow del: map_map)
qed (simp add: policies_by_type_def)

lemma policy_tags_add_up:
  assumes "truthy (fld ps ''enablePolicies'')" "fld ps ''policies'' = JArr xs" "is_obj ps"
  shows "sum_list (map snd (snd (policies_section num ps))) = length xs"
proof -
  have o: "opt_prop ps k = fld ps k" for k using assms(3) by (cases ps) (simp_all add: opt_prop_def)
  have "\<not> nullish (fld ps ''enablePolicies'')" using assms(1) by (cases "fld ps ''enablePolicies''") simp_all
  then show ?thesis
    using assms(1,2) counts_add_up [of xs] by (simp add: policies_section_def o js_nullor_def Let_def comp_def case_prod_beta)
qed

text \<open>Toasts with different names: those shown are those added and neither timed out nor closed since.\<close>

fun removes :: "toast_event \<Rightarrow> string \<Rightarrow> bool" where
  "removes (Toast_Timed_Out i) j = (i = j)"
| "removes (Toast_Closed i) j = (i = j)"
| "removes _ _ = False"

lemma toasts_shown:
  "(i, t) \<in> set (fold toast_do es []) \<longleftrightarrow> (\<exists>as bs. es = as @ Toast_Added i t # bs \<and> (\<forall>e \<in> set bs. \<not> removes e i))"
proof (induction es rule: rev_induct)
  case (snoc e es)
  have "(i, t) \<in> set (toast_do e ts) \<longleftrightarrow> e = Toast_Added i t \<or> (i, t) \<in> set ts \<and> \<not> removes e i" for ts
    by (cases e) auto
  moreover have "(\<exists>as bs. es @ [e] = as @ Toast_Added i t # bs \<and> (\<forall>e \<in> set bs. \<not> removes e i))
      \<longleftrightarrow> e = Toast_Added i t \<or> (\<exists>as bs. es = as @ Toast_Added i t # bs \<and> (\<forall>e \<in> set bs. \<not> removes e i)) \<and> \<not> removes e i"
    (is "?l \<longleftrightarrow> ?r")
  proof
    assume ?l
    then obtain as bs where "es @ [e] = as @ Toast_Added i t # bs" "\<forall>e \<in> set bs. \<not> removes e i" by blast
    then show ?r by (cases bs rule: rev_cases) auto
  next
    assume ?r
    then show ?l
    proof
      assume "e = Toast_Added i t"
      then show ?l by (intro exI [of _ es] exI [of _ "[]"]) simp
    next
      assume "(\<exists>as bs. es = as @ Toast_Added i t # bs \<and> (\<forall>e \<in> set bs. \<not> removes e i)) \<and> \<not> removes e i"
      then obtain as bs where "es = as @ Toast_Added i t # bs" "\<forall>e \<in> set bs. \<not> removes e i" "\<not> removes e i" by blast
      then show ?l by (intro exI [of _ as] exI [of _ "bs @ [e]"]) auto
    qed
  qed
  ultimately show ?case using snoc.IH by simp
qed simp

end
