(* ===== verification/Debug_Panel.thy ===== *)
theory Debug_Panel
  imports Manage
begin

text \<open>
  The debug panel, \<open>agentic_chat/src/DebugPanel.tsx\<close>: it asks for the state of the agent
  when it is opened, when the thread changes, on request and every two seconds, and shows the
  last answer.  Printing of numbers and JSON are arguments.
\<close>

section \<open>State and events\<close>

record debug_panel =
  db_thread :: string
  db_open :: bool
  db_data :: jv
  db_loading :: bool
  db_error :: "string option"
  db_auto :: bool
  db_copied :: bool
  db_pending :: "string list"       \<comment> \<open>the threads of the requests without an answer\<close>
  db_sent :: "string list"          \<comment> \<open>the threads of all requests\<close>
  db_timers :: nat                  \<comment> \<open>timers of the copy button\<close>
  db_clipboard :: "string list"

definition empty_thread :: string where
  "empty_thread = ''Not initialized''"

definition debug_init :: "string \<Rightarrow> debug_panel" where
  "debug_init t = \<lparr>db_thread = t, db_open = False, db_data = JNull, db_loading = False, db_error = None, db_auto = False,
     db_copied = False, db_pending = [], db_sent = [], db_timers = 0, db_clipboard = []\<rparr>"

text \<open>\<open>fetchAgentState\<close>, up to its request.\<close>

definition fetch_state :: "debug_panel \<Rightarrow> debug_panel" where
  "fetch_state s =
     (if db_thread s = [] \<or> db_thread s = empty_thread
      then s\<lparr>db_error := Some ''No thread ID available'', db_data := JNull\<rparr>
      else s\<lparr>db_loading := True, db_error := None, db_pending := db_pending s @ [db_thread s], db_sent := db_sent s @ [db_thread s]\<rparr>)"

definition not_initialized :: "string \<Rightarrow> jv" where
  "not_initialized t = JObj [(''thread_id'', JStr t), (''state'', JNull), (''variables'', JObj []), (''variables_count'', JNum 0),
     (''message'', JStr ''Agent graph not initialized'')]"

text \<open>Its answer, to the request at a place among those that wait.\<close>

definition state_came :: "nat \<Rightarrow> exn + http_reply \<Rightarrow> debug_panel \<Rightarrow> debug_panel" where
  "state_came n r s =
     (let t = db_pending s ! n;
          s1 = s\<lparr>db_loading := False, db_pending := take n (db_pending s) @ drop (Suc n) (db_pending s)\<rparr>
      in case r of
           Inl m \<Rightarrow> s1\<lparr>db_error := Some m\<rparr>
         | Inr rep \<Rightarrow>
             if hr_status rep = 503 then s1\<lparr>db_data := not_initialized t\<rparr>
             else if \<not> hr_ok rep
             then s1\<lparr>db_error := Some (''Failed to fetch state: '' @ show_nat (hr_status rep) @ '' '' @ hr_status_text rep)\<rparr>
             else (case hr_json rep of Inr d \<Rightarrow> s1\<lparr>db_data := d\<rparr> | Inl m \<Rightarrow> s1\<lparr>db_error := Some m\<rparr>))"

text \<open>The effect after a change of the thread or of what is open.\<close>

definition open_effect :: "debug_panel \<Rightarrow> debug_panel" where
  "open_effect s = (if db_open s \<and> db_thread s \<noteq> [] then fetch_state s else s)"

datatype debug_event =
    Panel_Toggled
  | State_Refreshed
  | Auto_Ticked bool
  | Thread_Given string
  | Interval_Over
  | State_Came nat "exn + http_reply"
  | Id_Copied
  | Copied_Over

fun debug_do :: "debug_event \<Rightarrow> debug_panel \<Rightarrow> debug_panel" where
  "debug_do Panel_Toggled s = open_effect (s\<lparr>db_open := \<not> db_open s\<rparr>)"
| "debug_do State_Refreshed s = fetch_state s"
| "debug_do (Auto_Ticked b) s = s\<lparr>db_auto := b\<rparr>"
| "debug_do (Thread_Given t) s = (if t = db_thread s then s else open_effect (s\<lparr>db_thread := t\<rparr>))"
| "debug_do Interval_Over s = fetch_state s"
| "debug_do (State_Came n r) s = state_came n r s"
| "debug_do Id_Copied s =
     s\<lparr>db_copied := True, db_timers := Suc (db_timers s), db_clipboard := db_clipboard s @ [db_thread s]\<rparr>"
| "debug_do Copied_Over s = s\<lparr>db_copied := False, db_timers := db_timers s - 1\<rparr>"

fun debug_allows :: "debug_panel \<Rightarrow> debug_event \<Rightarrow> bool" where
  "debug_allows s State_Refreshed = (db_open s \<and> \<not> db_loading s)"
| "debug_allows s (Auto_Ticked _) = db_open s"
| "debug_allows s Interval_Over = (db_auto s \<and> db_open s \<and> db_thread s \<noteq> [])"
| "debug_allows s (State_Came n _) = (n < length (db_pending s))"
| "debug_allows s Id_Copied = (db_open s \<and> db_thread s \<noteq> [] \<and> db_thread s \<noteq> empty_thread)"
| "debug_allows s Copied_Over = (db_timers s > 0)"
| "debug_allows s _ = True"

inductive debug_run :: "debug_panel \<Rightarrow> debug_event list \<Rightarrow> debug_panel \<Rightarrow> bool" for s where
  shown: "debug_run s [] s"
| stepped: "debug_run s es t \<Longrightarrow> debug_allows t e \<Longrightarrow> debug_run s (es @ [e]) (debug_do e t)"

section \<open>Drawing\<close>

text \<open>A line is a label and a value; the drawing throws where the answer has no variables.\<close>

definition lite_mode_text :: "jv \<Rightarrow> string" where
  "lite_mode_text v = (if v = JNull then ''Not Set (using settings)'' else if truthy v then ''True (Fast/Lite)'' else ''False (Balanced)'')"

definition state_lines :: "jv \<Rightarrow> (string \<times> jv) list" where
  "state_lines d =
     (let st = fld d ''state''
      in if truthy st
         then [(''Lite Mode:'', JStr (lite_mode_text (fld st ''lite_mode''))),
               (''Current App:'', js_or (fld st ''current_app'') (JStr ''N/A'')),
               (''Chat Messages Count:'', js_or (fld st ''chat_messages_count'') (JNum 0)),
               (''URL:'', js_or (fld st ''url'') (JStr ''N/A''))]
              @ (if truthy (fld st ''input'') then [(''Input:'', fld st ''input'')] else [])
         else [(''State:'', js_or (fld d ''message'') (JStr ''No state available''))])"

definition data_lines :: "(jv \<Rightarrow> string) \<Rightarrow> jv \<Rightarrow> exn + (string \<times> jv) list" where
  "data_lines pretty d =
     (if \<not> truthy d then Inr []
      else if nullish (fld d ''variables'') then Inl ''Cannot convert undefined or null to object''
      else Inr ([(''Thread ID:'', fld d ''thread_id''), (''Variables Count:'', fld d ''variables_count'')] @ state_lines d
             @ (if obj_fields (fld d ''variables'') \<noteq> [] then [(''Variables:'', JStr (pretty (fld d ''variables'')))] else [])))"

record debug_view =
  dv_refresh :: bool                \<comment> \<open>whether the button can be pressed\<close>
  dv_auto :: bool
  dv_copy :: "bool option"          \<comment> \<open>the copy button, and whether it shows a tick\<close>
  dv_thread :: string
  dv_progress :: bool
  dv_problem :: "string option"
  dv_lines :: "(string \<times> jv) list"

definition draw_debug :: "(jv \<Rightarrow> string) \<Rightarrow> debug_panel \<Rightarrow> exn + debug_view option" where
  "draw_debug pretty s =
     (if \<not> db_open s then Inr None
      else try_bind (data_lines pretty (db_data s)) (\<lambda>ls.
        Inr (Some \<lparr>dv_refresh = (\<not> db_loading s), dv_auto = db_auto s,
          dv_copy = (if db_thread s \<noteq> [] \<and> db_thread s \<noteq> empty_thread then Some (db_copied s) else None),
          dv_thread = (if db_thread s = [] then empty_thread else db_thread s), dv_progress = db_loading s,
          dv_problem = (case db_error s of Some m \<Rightarrow> if m = [] then None else Some (''Error: '' @ m) | None \<Rightarrow> None),
          dv_lines = ls\<rparr>)))"

section \<open>Properties\<close>

text \<open>Requests are made for the thread of their time, only while the panel is open, and a progress has a request.\<close>

definition debug_ok :: "debug_panel \<Rightarrow> bool" where
  "debug_ok s \<longleftrightarrow> set (db_pending s) \<subseteq> set (db_sent s) \<and> [] \<notin> set (db_sent s) \<and> empty_thread \<notin> set (db_sent s)
     \<and> (db_loading s \<longrightarrow> db_pending s \<noteq> [])"

lemma debug_ok_step: "debug_ok s \<Longrightarrow> debug_allows s e \<Longrightarrow> debug_ok (debug_do e s)"
proof -
  have fetch: "debug_ok s \<Longrightarrow> debug_ok (fetch_state s)" for s by (auto simp: debug_ok_def fetch_state_def)
  have came: "debug_ok s \<Longrightarrow> debug_ok (state_came n r s)" for s n r
    using set_take_subset [of n "db_pending s"] set_drop_subset [of "Suc n" "db_pending s"]
    by (auto simp: debug_ok_def state_came_def Let_def split: sum.split)
  assume "debug_ok s" "debug_allows s e"
  then show ?thesis by (cases e) (auto simp: fetch came open_effect_def, auto simp: debug_ok_def fetch_state_def)
qed

theorem debug_asks_while_open:
  assumes "debug_run (debug_init t0) es s" "debug_allows s e"
  shows "debug_ok s \<and> (db_sent (debug_do e s) \<noteq> db_sent s \<longrightarrow>
    db_open (debug_do e s) \<and> db_sent (debug_do e s) = db_sent s @ [db_thread (debug_do e s)])"
proof
  show "debug_ok s" using assms(1)
    by (induction rule: debug_run.induct) (simp_all add: debug_ok_step, simp add: debug_ok_def debug_init_def)
  show "db_sent (debug_do e s) \<noteq> db_sent s \<longrightarrow>
      db_open (debug_do e s) \<and> db_sent (debug_do e s) = db_sent s @ [db_thread (debug_do e s)]"
    using assms(2)
    by (cases e) (auto simp: fetch_state_def open_effect_def state_came_def Let_def split: sum.splits if_splits)
qed

theorem debug_asks_while_open_witness:
  "db_sent (debug_do Panel_Toggled (debug_init ''t'')) = [''t'']"
  using debug_asks_while_open [OF debug_run.shown, of "''t''" Panel_Toggled]
  by (simp add: debug_init_def open_effect_def fetch_state_def empty_thread_def)

text \<open>
  After a change of the thread the panel shows the state of the old one: until an answer
  comes, for good when the answer is an error, and again when an answer to the old thread
  comes after the answer to the new one.
\<close>

theorem debug_shows_other_thread:
  assumes "db_open s" "db_pending s = []" "t \<noteq> db_thread s" "t \<noteq> []" "t \<noteq> empty_thread" "db_thread s \<noteq> []" "db_thread s \<noteq> empty_thread"
    and "hr_ok good" "hr_status good = 200" "hr_json good = Inr d"
  shows "db_data (debug_do (Thread_Given t) s) = db_data s \<and> db_thread (debug_do (Thread_Given t) s) = t
    \<and> db_data (debug_do (State_Came 0 (Inl m)) (debug_do (Thread_Given t) s)) = db_data s
    \<and> db_data (debug_do (State_Came 0 (Inr good)) (debug_do (Thread_Given t) s)) = d
    \<and> (let late = debug_do (State_Came 0 (Inr good)) (debug_do (State_Came 1 r) (debug_do (Thread_Given t) (debug_do State_Refreshed s)))
       in db_thread late = t \<and> db_data late = d \<and> \<not> db_loading late \<and> db_sent late = db_sent s @ [db_thread s, t])"
  using assms by (auto simp: open_effect_def fetch_state_def state_came_def Let_def split: sum.split)

theorem debug_shows_other_thread_witness:
  "db_data (debug_do (State_Came 0 (Inr (ok_reply (JObj [(''thread_id'', JStr ''a'')]))))
     (debug_do (State_Came 1 (Inl ''gone'')) (debug_do (Thread_Given ''b'') (debug_do State_Refreshed (debug_init ''a''\<lparr>db_open := True\<rparr>)))))
   = JObj [(''thread_id'', JStr ''a'')]"
  using debug_shows_other_thread [of "debug_init ''a''\<lparr>db_open := True\<rparr>" "''b''" "ok_reply (JObj [(''thread_id'', JStr ''a'')])"
      "JObj [(''thread_id'', JStr ''a'')]" "''x''" "Inl ''gone''"]
  by (simp add: debug_init_def empty_thread_def ok_reply_def Let_def del: debug_do.simps)

end
