(* ===== verification/Headers.thy ===== *)
theory Headers
  imports Manage
begin

text \<open>
  The headers: \<open>CugaHeader.tsx\<close> of \<open>agentic_chat/src\<close>, with its copy in
  \<open>frontend/src\<close> that differs in labels, and \<open>ConfigHeader.tsx\<close>, which opens the
  configuration dialogs.  Letters are ASCII.
\<close>

section \<open>Initials\<close>

text \<open>\<open>s.split(/\\s+/)\<close>.\<close>

function split_blanks :: "string \<Rightarrow> string list" where
  "split_blanks s =
     (let w = takeWhile (\<lambda>c. \<not> is_ws c) s; r = dropWhile (\<lambda>c. \<not> is_ws c) s
      in if r = [] then [w] else w # split_blanks (dropWhile is_ws r))"
  by pat_completeness auto
termination
proof (relation "measure length")
  fix s w r :: string
  assume "w = takeWhile (\<lambda>c. \<not> is_ws c) s" "r = dropWhile (\<lambda>c. \<not> is_ws c) s" "r \<noteq> []"
  then have "is_ws (hd r)" "length r \<le> length s" using hd_dropWhile [of "\<lambda>c. \<not> is_ws c" s] length_dropWhile_le by auto
  then show "(dropWhile is_ws r, s) \<in> measure length"
    using \<open>r \<noteq> []\<close> length_dropWhile_le [of is_ws "tl r"] by (cases r) auto
qed simp

declare split_blanks.simps [simp del]

text \<open>The parts of a trimmed name are not empty when there are two, so their first letters are there.\<close>

definition get_initials :: "string option \<Rightarrow> string option \<Rightarrow> string" where
  "get_initials name email =
     (case name of
        Some n \<Rightarrow> if n \<noteq> []
          then (let parts = split_blanks (trim n)
                in if length parts \<ge> 2 then map upper_char (take 1 (hd parts) @ take 1 (last parts))
                   else map upper_char (take 2 (hd parts)))
          else (case email of Some e \<Rightarrow> if e \<noteq> [] then [upper_char (hd e)] else ''?'' | None \<Rightarrow> ''?'')
      | None \<Rightarrow> (case email of Some e \<Rightarrow> if e \<noteq> [] then [upper_char (hd e)] else ''?'' | None \<Rightarrow> ''?''))"

section \<open>The header\<close>

text \<open>Where an entry of the navigation leads, the first that applies.\<close>

record nav_item =
  ni_label :: string
  ni_href :: "string option"
  ni_to :: "string option"
  ni_click :: "string option"        \<comment> \<open>the name of the callback\<close>

datatype nav_view = Nav_Route string string | Nav_Link string string | Nav_Button string "string option"

definition given_text :: "string option \<Rightarrow> bool" where
  "given_text s \<longleftrightarrow> s \<noteq> None \<and> s \<noteq> Some []"

definition render_nav_item :: "bool \<Rightarrow> nav_item \<Rightarrow> nav_view" where
  "render_nav_item link_component i =
     (if given_text (ni_to i) \<and> link_component then Nav_Route (ni_label i) (the (ni_to i))
      else if given_text (ni_href i) \<and> ni_click i = None then Nav_Link (ni_label i) (the (ni_href i))
      else Nav_Button (ni_label i) (ni_click i))"

record header_state =
  hd_auth :: bool
  hd_panel :: bool
  hd_user :: "(jv \<times> jv \<times> jv) option"   \<comment> \<open>name, email and subject\<close>
  hd_asks :: nat                         \<comment> \<open>requests for the user without an answer\<close>
  hd_secrets :: nat                      \<comment> \<open>calls of the callback that opens the secrets\<close>
  hd_logouts :: nat

definition header_init :: header_state where
  "header_init = \<lparr>hd_auth = False, hd_panel = False, hd_user = None, hd_asks = 0, hd_secrets = 0, hd_logouts = 0\<rparr>"

definition auth_came :: "exn + bool \<Rightarrow> header_state \<Rightarrow> header_state" where
  "auth_came r s =
     (case r of Inr b \<Rightarrow> s\<lparr>hd_auth := b, hd_asks := (if b then Suc (hd_asks s) else hd_asks s)\<rparr> | Inl _ \<Rightarrow> s)"

definition user_came :: "exn + http_reply \<Rightarrow> header_state \<Rightarrow> header_state" where
  "user_came r s =
     (let s1 = s\<lparr>hd_asks := hd_asks s - 1\<rparr>
      in case r of
           Inr rep \<Rightarrow>
             if hr_ok rep
             then (case hr_json rep of
                     Inr d \<Rightarrow> if truthy d then s1\<lparr>hd_user := Some (fld d ''name'', fld d ''email'', fld d ''sub'')\<rparr> else s1
                   | Inl _ \<Rightarrow> s1)
             else s1
         | Inl _ \<Rightarrow> s1)"

text \<open>
  The button of the mouse goes down, inside the panel or not: the listener is there while
  the panel is open.  The avatar is outside the panel.
\<close>

definition mouse_down :: "bool \<Rightarrow> header_state \<Rightarrow> header_state" where
  "mouse_down inside s = (if hd_panel s \<and> \<not> inside then s\<lparr>hd_panel := False\<rparr> else s)"

datatype header_event =
    Auth_Known "exn + bool"
  | User_Came "exn + http_reply"
  | Avatar_Pressed
  | Elsewhere_Pressed
  | Bar_Secrets_Pressed
  | Panel_Secrets_Pressed
  | Sign_Out_Pressed

fun header_do :: "header_event \<Rightarrow> header_state \<Rightarrow> header_state" where
  "header_do (Auth_Known r) s = auth_came r s"
| "header_do (User_Came r) s = user_came r s"
| "header_do Avatar_Pressed s = (let s1 = mouse_down False s in s1\<lparr>hd_panel := \<not> hd_panel s1\<rparr>)"
| "header_do Elsewhere_Pressed s = mouse_down False s"
| "header_do Bar_Secrets_Pressed s = (mouse_down False s)\<lparr>hd_secrets := Suc (hd_secrets s)\<rparr>"
| "header_do Panel_Secrets_Pressed s = (mouse_down True s)\<lparr>hd_secrets := Suc (hd_secrets s), hd_panel := False\<rparr>"
| "header_do Sign_Out_Pressed s = (mouse_down True s)\<lparr>hd_logouts := Suc (hd_logouts s)\<rparr>"

definition display_name :: "header_state \<Rightarrow> string" where
  "display_name s = (case hd_user s of Some (n, _, _) \<Rightarrow> (case the_str n of Some t \<Rightarrow> t | None \<Rightarrow> []) | None \<Rightarrow> [])"

definition display_email :: "header_state \<Rightarrow> string" where
  "display_email s =
     (case hd_user s of Some (_, e, u) \<Rightarrow> (case the_str (js_nullor e u) of Some t \<Rightarrow> t | None \<Rightarrow> []) | None \<Rightarrow> [])"

definition initials :: "header_state \<Rightarrow> string" where
  "initials s =
     (case hd_user s of
        Some (n, e, u) \<Rightarrow> get_initials (the_str n) (the_str (js_nullor e u))
      | None \<Rightarrow> get_initials None None)"

record header_view =
  hv_title :: string
  hv_context :: "(string \<times> string) option"    \<comment> \<open>the text and its tooltip\<close>
  hv_nav :: "nav_view list"
  hv_secrets :: bool
  hv_avatar :: "(string \<times> string) option"     \<comment> \<open>the tooltip and the initials\<close>
  hv_panel :: bool
  hv_lines :: "string list"
  hv_panel_secrets :: bool

text \<open>The context is the agent with the version of its configuration; a missing version is a dash.\<close>

definition context_text :: "(rat \<Rightarrow> string) \<Rightarrow> jv \<times> jv \<Rightarrow> string \<times> string" where
  "context_text num c =
     (js_to_string num (fst c) @ (if nullish (snd c) then [] else '' '' @ [CHR 0xC2, CHR 0xB7] @ '' v'' @ js_to_string num (snd c)),
      ''Config v'' @ (if nullish (snd c) then [CHR 0xE2, CHR 0x80, CHR 0x94] else js_to_string num (snd c)))"

definition draw_header ::
  "(rat \<Rightarrow> string) \<Rightarrow> string \<Rightarrow> (jv \<times> jv) option \<Rightarrow> bool \<Rightarrow> nav_item list \<Rightarrow> bool \<Rightarrow> header_state \<Rightarrow> header_view" where
  "draw_header num title ctx link_component items with_secrets s =
     \<lparr>hv_title = title, hv_context = map_option (context_text num) ctx, hv_nav = map (render_nav_item link_component) items,
      hv_secrets = (\<not> hd_auth s \<and> with_secrets),
      hv_avatar = (if hd_auth s
                   then Some (if display_email s \<noteq> [] then display_email s
                              else if display_name s \<noteq> [] then display_name s else ''User profile'', initials s)
                   else None),
      hv_panel = hd_panel s, hv_lines = filter (\<lambda>l. l \<noteq> []) [display_name s, display_email s], hv_panel_secrets = with_secrets\<rparr>"

section \<open>The header of the chat\<close>

definition chat_nav :: "nav_item list" where
  "chat_nav =
     map (\<lambda>l. \<lparr>ni_label = l, ni_href = None, ni_to = None, ni_click = Some l\<rparr>)
       [''Sidebar'', ''Workspace'', ''Sub Agents'', ''Tools'', ''Policies'']
     @ [\<lparr>ni_label = ''Manage'', ni_href = Some ''/manage'', ni_to = None, ni_click = None\<rparr>]"

record config_header =
  ch_modal :: "string option"
  ch_sidebar :: nat
  ch_workspace :: nat

definition config_header_init :: config_header where
  "config_header_init = \<lparr>ch_modal = None, ch_sidebar = 0, ch_workspace = 0\<rparr>"

definition nav_press :: "string \<Rightarrow> config_header \<Rightarrow> config_header" where
  "nav_press l s =
     (if l = ''Sidebar'' then s\<lparr>ch_sidebar := Suc (ch_sidebar s)\<rparr>
      else if l = ''Workspace'' then s\<lparr>ch_workspace := Suc (ch_workspace s)\<rparr>
      else if l = ''Sub Agents'' then s\<lparr>ch_modal := Some ''subagents''\<rparr>
      else if l = ''Tools'' then s\<lparr>ch_modal := Some ''tools''\<rparr>
      else if l = ''Policies'' then s\<lparr>ch_modal := Some ''policies''\<rparr>
      else s)"

definition modal_closed :: "config_header \<Rightarrow> config_header" where
  "modal_closed s = s\<lparr>ch_modal := None\<rparr>"

text \<open>The dialog that is mounted for the name of a modal.\<close>

definition mounted_dialog :: "config_header \<Rightarrow> string option" where
  "mounted_dialog s =
     (case ch_modal s of
        None \<Rightarrow> None
      | Some m \<Rightarrow>
          map_of [(''knowledge'', ''KnowledgeConfig''), (''memory'', ''MemoryConfig''), (''subagents'', ''SubAgentsConfig''),
                  (''tools'', ''ToolsConfig''), (''model'', ''ModelConfig''), (''policies'', ''PoliciesConfig''),
                  (''agenthuman'', ''AgentHumanConfig'')] m)"

inductive config_header_run :: "config_header \<Rightarrow> bool" where
  mounted: "config_header_run config_header_init"
| pressed: "config_header_run s \<Longrightarrow> Nav_Button l (Some l) \<in> set (map (render_nav_item False) chat_nav) \<Longrightarrow> config_header_run (nav_press l s)"
| closed: "config_header_run s \<Longrightarrow> config_header_run (modal_closed s)"

section \<open>Properties\<close>

text \<open>The initials of a user are one or two characters, unless the name is blank.\<close>

lemma split_first: "split_blanks s \<noteq> [] \<and> hd (split_blanks s) = takeWhile (\<lambda>c. \<not> is_ws c) s"
  by (simp add: split_blanks.simps [of s] Let_def)

lemma length_trim: "length (trim s) \<le> length s"
  using length_dropWhile_le [of is_ws "rev (dropWhile is_ws s)"] length_dropWhile_le [of is_ws s]
  by (simp add: trim_def trim_start_def)

lemma trim_first: "trim s = c # cs \<Longrightarrow> \<not> is_ws c"
proof
  assume t: "trim s = c # cs" and "is_ws c"
  then have "trim (trim s) = trim cs" by (simp add: trim_def trim_start_def)
  then show False using t trim_idem [of s] length_trim [of cs] by simp
qed

theorem initials_short:
  assumes "n = None \<or> n = Some [] \<or> (\<exists>t. n = Some t \<and> trim t \<noteq> [])"
  shows "length (get_initials n e) \<in> {1, 2}"
proof (cases "n = None \<or> n = Some []")
  case True
  then show ?thesis by (cases e) (auto simp: get_initials_def)
next
  case False
  then obtain t where t: "n = Some t" "trim t \<noteq> []" "t \<noteq> []" using assms by auto
  obtain c cs where c: "trim t = c # cs" using t(2) by (cases "trim t") auto
  have "\<not> is_ws c" using c trim_first by blast
  then have "hd (split_blanks (trim t)) \<noteq> []" using split_first [of "trim t"] by (simp add: c)
  then have h: "1 \<le> length (hd (split_blanks (trim t)))" by (cases "hd (split_blanks (trim t))") auto
  show ?thesis using t(1,3) h by (auto simp: get_initials_def Let_def min_def le_Suc_eq)
qed

theorem initials_short_witness: "length (get_initials (Some ''Ada Lovelace'') None) \<in> {1, 2}"
  by (rule initials_short) (simp add: trim_def trim_start_def is_ws_def)

text \<open>
  The avatar opens the panel of the user but cannot close it: the press of the mouse is
  outside the panel and closes it, and the click that follows opens it again.  Any other
  press outside closes it.
\<close>

theorem avatar_never_closes:
  "hd_panel (header_do Avatar_Pressed s) \<and> \<not> hd_panel (header_do Elsewhere_Pressed s)
   \<and> header_do Avatar_Pressed (header_do Avatar_Pressed s) = header_do Avatar_Pressed s"
  by (simp add: mouse_down_def Let_def)

text \<open>Of the seven dialogs the header of the chat can mount, its entries open three.\<close>

theorem reachable_dialogs:
  assumes "config_header_run s"
  shows "mounted_dialog s \<in> {None, Some ''SubAgentsConfig'', Some ''ToolsConfig'', Some ''PoliciesConfig''}
    \<and> (\<forall>d \<in> {''SubAgentsConfig'', ''ToolsConfig'', ''PoliciesConfig''}. \<exists>l. Nav_Button l (Some l) \<in> set (map (render_nav_item False) chat_nav)
         \<and> mounted_dialog (nav_press l s) = Some d)"
proof -
  have "ch_modal s \<in> {None, Some ''subagents'', Some ''tools'', Some ''policies''}"
    using assms by (induction rule: config_header_run.induct) (auto simp: config_header_init_def nav_press_def modal_closed_def)
  then have "mounted_dialog s \<in> {None, Some ''SubAgentsConfig'', Some ''ToolsConfig'', Some ''PoliciesConfig''}"
    by (auto simp: mounted_dialog_def)
  moreover have "\<exists>l. Nav_Button l (Some l) \<in> set (map (render_nav_item False) chat_nav) \<and> mounted_dialog (nav_press l s) = Some d"
    if "(l, d) \<in> {(''Sub Agents'', ''SubAgentsConfig''), (''Tools'', ''ToolsConfig''), (''Policies'', ''PoliciesConfig'')}" for l d
    using that by (intro exI [of _ l]) (auto simp: chat_nav_def render_nav_item_def given_text_def nav_press_def mounted_dialog_def)
  ultimately show ?thesis by simp
qed

theorem reachable_dialogs_witness: "mounted_dialog config_header_init = None"
  using reachable_dialogs [OF config_header_run.mounted] by (simp add: config_header_init_def mounted_dialog_def)

end
