(* ===== verification/Dashboard.thy ===== *)
theory Dashboard
  imports Chat_Api Headers
begin

text \<open>
  The entrance of the web client: the gate of \<open>frontend/src/App.tsx\<close> that lets nobody past
  without a session, over the requests of \<^theory_text>\<open>Chat_Api\<close>, and the list of agents of
  \<open>ManageDashboard.tsx\<close>.
\<close>

section \<open>The gate\<close>

definition login_page :: "location option \<Rightarrow> jv" where
  "login_page l = JStr (get_api_base_url l @ ''/auth/login'')"

definition to_login :: "location option \<Rightarrow> api_state \<Rightarrow> bool \<times> api_state" where
  "to_login l s = (False, s\<lparr>ap_href := Some (login_page l)\<rparr>)"

definition query_value :: "(string \<times> string) list \<Rightarrow> string \<Rightarrow> string" where
  "query_value params k = (case map_of params k of Some v \<Rightarrow> v | None \<Rightarrow> [])"

text \<open>Whether the page is shown, for the path and the parameters of its address.\<close>

definition auth_gate ::
  "location option \<Rightarrow> network \<Rightarrow> string \<Rightarrow> (string \<times> string) list \<Rightarrow> api_state \<Rightarrow> bool \<times> api_state" where
  "auth_gate l net path params s =
     (case get_auth_config l net s of
        (Inl e, s1) \<Rightarrow> to_login l s1
      | (Inr enabled, s1) \<Rightarrow>
          if \<not> enabled then (True, s1)
          else if query_value params ''code'' \<noteq> [] \<and> query_value params ''state'' \<noteq> []
          then (case handle_oidc_callback l net path params (query_value params ''code'') (query_value params ''state'') s1 of
                  (Inl e, s2) \<Rightarrow> to_login l s2
                | (Inr _, s2) \<Rightarrow> (True, s2))
          else (case check_auth_status l net s1 of
                  (Inl e, s2) \<Rightarrow> to_login l s2
                | (Inr _, s2) \<Rightarrow> (True, s2)))"

datatype route = To_Chat | Dashboard_Page | Manage_Agent string | Chat_Page | No_Page

text \<open>The routes, for the segments of a path.\<close>

definition route_of :: "string list \<Rightarrow> route" where
  "route_of segs =
     (if segs = [] then To_Chat
      else if segs = [''manage''] then Dashboard_Page
      else if segs = [''chat''] then Chat_Page
      else if length segs = 2 \<and> hd segs = ''manage'' then Manage_Agent (segs ! 1)
      else No_Page)"

section \<open>The list of agents\<close>

text \<open>
  The effect that asks for the agents runs again when the sign-in is over; an answer to an
  earlier run is dropped.  Runs are numbered.
\<close>

record dashboard =
  da_agents :: jv
  da_loading :: bool
  da_error :: "string option"
  da_context :: "(jv \<times> jv) option"
  da_signing :: bool
  da_run :: "nat option"            \<comment> \<open>the run that is not cancelled\<close>
  da_asked :: nat                   \<comment> \<open>the number of requests for the agents\<close>
  da_waiting :: "nat list"          \<comment> \<open>those of them without an answer\<close>
  da_contexts :: nat                \<comment> \<open>requests for the context without an answer\<close>

definition ask_agents :: "dashboard \<Rightarrow> dashboard" where
  "ask_agents s = s\<lparr>da_loading := True, da_error := None, da_run := Some (da_asked s), da_asked := Suc (da_asked s),
     da_waiting := da_waiting s @ [da_asked s], da_contexts := Suc (da_contexts s)\<rparr>"

text \<open>Mounted with a code in the address, the first run is cancelled at once.\<close>

definition dashboard_init :: "(string \<times> string) list \<Rightarrow> dashboard" where
  "dashboard_init params =
     (let s = ask_agents \<lparr>da_agents = JArr [], da_loading = True, da_error = None, da_context = None, da_signing = False,
                da_run = None, da_asked = 0, da_waiting = [], da_contexts = 0\<rparr>
      in if query_value params ''code'' \<noteq> [] \<and> query_value params ''state'' \<noteq> []
         then s\<lparr>da_signing := True, da_run := None\<rparr> else s)"

text \<open>
  The first effect: the sign-in with the code of the address, whose outcome is awaited, or a
  request for the user that leads to the login when there is no session.
\<close>

definition dashboard_session ::
  "location option \<Rightarrow> network \<Rightarrow> string \<Rightarrow> (string \<times> string) list \<Rightarrow> api_state \<Rightarrow> (exn + unit) option \<times> api_state" where
  "dashboard_session l net path params s =
     (if query_value params ''code'' \<noteq> [] \<and> query_value params ''state'' \<noteq> []
      then (case handle_oidc_callback l net path params (query_value params ''code'') (query_value params ''state'') s of
              (r, s1) \<Rightarrow> (Some r, s1))
      else (case get_auth_config l net s of
              (Inr True, s1) \<Rightarrow>
                (case api_fetch l net (get_request (get_api_base_url l @ ''/auth/userinfo'')) s1 of
                   (Inr res, s2) \<Rightarrow> (None, if rs_status res = 401 then s2\<lparr>ap_href := Some (login_page l)\<rparr> else s2)
                 | (Inl e, s2) \<Rightarrow> (None, s2))
            | (_, s1) \<Rightarrow> (None, s1)))"

text \<open>The sign-in is over: its error is set, and the effects run again.\<close>

definition signed_in :: "exn + unit \<Rightarrow> dashboard \<Rightarrow> dashboard" where
  "signed_in r s =
     ask_agents ((case r of Inl m \<Rightarrow> s\<lparr>da_error := Some m\<rparr> | Inr _ \<Rightarrow> s)\<lparr>da_signing := False\<rparr>)"

definition agents_came :: "nat \<Rightarrow> exn + http_reply \<Rightarrow> dashboard \<Rightarrow> dashboard" where
  "agents_came n r s =
     (let s0 = s\<lparr>da_waiting := filter (\<lambda>m. m \<noteq> n) (da_waiting s)\<rparr>
      in if da_run s \<noteq> Some n then s0
      else
        let s1 = s0\<lparr>da_loading := False\<rparr>
        in case r of
             Inl m \<Rightarrow> s1\<lparr>da_error := Some m\<rparr>
           | Inr rep \<Rightarrow>
               if \<not> hr_ok rep then s1\<lparr>da_error := Some (hr_status_text rep)\<rparr>
               else (case try_bind (hr_json rep) (\<lambda>d. get_prop d ''agents'') of
                       Inl m \<Rightarrow> s1\<lparr>da_error := Some m\<rparr>
                     | Inr v \<Rightarrow> s1\<lparr>da_agents := js_nullor v (JArr [])\<rparr>))"

definition context_came :: "exn + http_reply \<Rightarrow> dashboard \<Rightarrow> dashboard" where
  "context_came r s =
     (let s1 = s\<lparr>da_contexts := da_contexts s - 1\<rparr>
      in case r of
           Inr rep \<Rightarrow>
             if hr_ok rep
             then (case hr_json rep of
                     Inr d \<Rightarrow> if truthy d
                              then s1\<lparr>da_context := Some (js_nullor (fld d ''agent_id'') (JStr ''cuga-default''),
                                                         js_nullor (fld d ''config_version'') JNull)\<rparr>
                              else s1
                   | Inl _ \<Rightarrow> s1)
             else s1
         | Inl _ \<Rightarrow> s1)"

text \<open>What is drawn.  A tile leads to the page of its agent; so does its button.\<close>

record agent_tile =
  at_id :: jv
  at_page :: string
  at_tools :: string
  at_version :: "(string \<times> string option) option"   \<comment> \<open>the tag and its tooltip\<close>
  at_description :: jv
  at_logs :: "jv \<times> string"                          \<comment> \<open>the link and its tooltip\<close>

definition draw_tile :: "(rat \<Rightarrow> string) \<Rightarrow> (jv \<Rightarrow> string) \<Rightarrow> jv \<Rightarrow> agent_tile" where
  "draw_tile num date a =
     \<lparr>at_id = fld a ''id'', at_page = ''/manage/'' @ encode_uri_component (js_to_string num (fld a ''id'')),
      at_tools = js_to_string num (fld a ''tools_count'') @ '' tool'' @ (if fld a ''tools_count'' \<noteq> JNum 1 then ''s'' else []),
      at_version =
        (if nullish (fld a ''latest_version'') then None
         else Some (''v'' @ js_to_string num (fld a ''latest_version''),
                    if truthy (fld a ''latest_version_created_at'') then Some (date (fld a ''latest_version_created_at'')) else None)),
      at_description = (if truthy (fld a ''description'') then fld a ''description'' else JUndef),
      at_logs = (js_nullor (fld a ''logs_url'') (JStr ''#''),
                 if truthy (fld a ''logs_url'') then ''Open logs in Loki''
                 else ''Set CUGA_LOKI_LOGS_URL or LOKI_URL for your Loki dashboard'')\<rparr>"

record dashboard_view =
  dw_header :: header_view
  dw_progress :: "string option"
  dw_error :: "string option"
  dw_tiles :: "agent_tile list"
  dw_empty :: bool

definition draw_dashboard :: "(rat \<Rightarrow> string) \<Rightarrow> (jv \<Rightarrow> string) \<Rightarrow> header_state \<Rightarrow> dashboard \<Rightarrow> dashboard_view" where
  "draw_dashboard num date h s =
     (let agents = (case da_agents s of JArr xs \<Rightarrow> xs | _ \<Rightarrow> []);
          problem = (case da_error s of Some m \<Rightarrow> if m = [] then None else Some m | None \<Rightarrow> None);
          dots = [CHR 0xE2, CHR 0x80, CHR 0xA6]
      in \<lparr>dw_header = draw_header num ''CUGA Agent'' (da_context s) False
            [\<lparr>ni_label = ''Chat'', ni_href = Some ''/chat'', ni_to = None, ni_click = None\<rparr>] False h,
          dw_progress = (if da_signing s then Some (''Completing sign-in'' @ dots)
                         else if da_loading s then Some (''Loading agents'' @ dots) else None),
          dw_error = problem,
          dw_tiles = (if \<not> da_loading s \<and> problem = None then map (draw_tile num date) agents else []),
          dw_empty = (\<not> da_loading s \<and> problem = None \<and> agents = [])\<rparr>)"

datatype dashboard_event = Signed_In "exn + unit" | Agents_Came nat "exn + http_reply" | Context_Came "exn + http_reply"

fun dashboard_do :: "dashboard_event \<Rightarrow> dashboard \<Rightarrow> dashboard" where
  "dashboard_do (Signed_In r) s = signed_in r s"
| "dashboard_do (Agents_Came n r) s = agents_came n r s"
| "dashboard_do (Context_Came r) s = context_came r s"

fun dashboard_allows :: "dashboard \<Rightarrow> dashboard_event \<Rightarrow> bool" where
  "dashboard_allows s (Signed_In _) = da_signing s"
| "dashboard_allows s (Agents_Came n _) = (n \<in> set (da_waiting s))"
| "dashboard_allows s (Context_Came _) = (da_contexts s > 0)"

inductive dashboard_run :: "(string \<times> string) list \<Rightarrow> dashboard \<Rightarrow> bool" for params where
  mounted: "dashboard_run params (dashboard_init params)"
| stepped: "dashboard_run params s \<Longrightarrow> dashboard_allows s e \<Longrightarrow> dashboard_run params (dashboard_do e s)"

section \<open>Properties\<close>

lemma api_fetch_last:
  assumes "api_fetch l net rq s = (Inr res, s')" "rs_status res \<noteq> 401"
  shows "net (butlast (ap_sent s')) (last (ap_sent s')) = Inr res \<and> ap_auth s' = ap_auth s"
  using assms by (auto simp: api_fetch_def net_fetch_def Let_def split: sum.splits prod.splits if_splits)

lemma callback_last:
  assumes "handle_oidc_callback l net path params c st s = (Inr u, s')"
  shows "\<exists>res. net (butlast (ap_sent s')) (last (ap_sent s')) = Inr res \<and> rs_status res \<noteq> 401"
proof -
  obtain res s1 where f: "api_fetch l net (post_auth_callback (get_api_base_url l) c st) s = (Inr res, s1)" and ok: "rs_ok res"
    using assms by (auto simp: handle_oidc_callback_def split: prod.splits sum.splits if_splits)
  then have n: "rs_status res \<noteq> 401" by (auto simp: rs_ok_def)
  moreover have "ap_sent s' = ap_sent s1" using assms f ok by (auto simp: handle_oidc_callback_def Let_def)
  ultimately show ?thesis using api_fetch_last [OF f n] by metis
qed

lemma status_last:
  assumes "check_auth_status l net s = (Inr u, s')"
  shows "\<exists>res. net (butlast (ap_sent s')) (last (ap_sent s')) = Inr res \<and> rs_status res \<noteq> 401"
proof -
  obtain res where f: "api_fetch l net get_agent_context s = (Inr res, s')" and n: "rs_status res \<noteq> 401"
    using assms by (auto simp: check_auth_status_def split: prod.splits sum.splits if_splits)
  then show ?thesis using api_fetch_last by blast
qed

text \<open>
  C5. Whoever is not let in is sent to the login page; whoever is let in while there is a login
  has just had an answer that is not a refusal.  An answer about the login that is no JSON,
  such as an error page, lets everybody in, and from then on no refusal leads to the login.
\<close>

theorem gate_outcome:
  assumes "auth_gate l net path params s = (ready, s')"
  shows "(\<not> ready \<longrightarrow> ap_href s' = Some (login_page l))
    \<and> (ready \<longrightarrow> get_auth_config l net s = (Inr False, s')
         \<or> (\<exists>res. net (butlast (ap_sent s')) (last (ap_sent s')) = Inr res \<and> rs_status res \<noteq> 401))
    \<and> (\<forall>res m. ap_auth s = None \<and> net (ap_sent s) (get_request (get_api_base_url l @ ''/api/auth/config'')) = Inr res
         \<and> rs_json res = Inl m \<longrightarrow> ready \<and> (\<forall>rq. ap_href (snd (api_fetch l net rq s')) = ap_href s'))"
proof -
  have kept: "ap_href (snd (api_fetch l net rq t)) = ap_href t" if "ap_auth t = Some False" for rq t
    using that by (auto simp: api_fetch_def net_fetch_def get_auth_config_def Let_def split: sum.splits prod.splits)
  show ?thesis
  proof (intro conjI allI impI)
    show "ap_href s' = Some (login_page l)" if "\<not> ready"
      using assms that by (auto simp: auth_gate_def to_login_def split: sum.splits prod.splits if_splits)
    show "get_auth_config l net s = (Inr False, s')
        \<or> (\<exists>res. net (butlast (ap_sent s')) (last (ap_sent s')) = Inr res \<and> rs_status res \<noteq> 401)" if "ready"
      using assms that
      by (auto simp: auth_gate_def to_login_def split: sum.splits prod.splits if_splits dest: callback_last status_last)
    show "ready" if "ap_auth s = None \<and> net (ap_sent s) (get_request (get_api_base_url l @ ''/api/auth/config'')) = Inr res \<and> rs_json res = Inl m" for res m
      using assms that by (auto simp: auth_gate_def get_auth_config_def net_fetch_def)
    show "ap_href (snd (api_fetch l net rq s')) = ap_href s'"
      if "ap_auth s = None \<and> net (ap_sent s) (get_request (get_api_base_url l @ ''/api/auth/config'')) = Inr res \<and> rs_json res = Inl m" for res m rq
      using assms that by (intro kept) (auto simp: auth_gate_def get_auth_config_def net_fetch_def)
  qed
qed

definition error_page_net :: network where
  "error_page_net sent rq = Inr \<lparr>rs_status = 500, rs_json = Inl ''no JSON'', rs_text = []\<rparr>"

theorem gate_outcome_witness:
  "fst (auth_gate None error_page_net [] [] \<lparr>ap_auth = None, ap_href = None, ap_shown = [], ap_sent = []\<rparr>)"
  using gate_outcome [OF prod.collapse [symmetric], of None error_page_net "[]" "[]" "\<lparr>ap_auth = None, ap_href = None, ap_shown = [], ap_sent = []\<rparr>"]
  by (simp add: error_page_net_def)


text \<open>
  In every run: the sign-in shows its progress, the run that counts is the last one, and
  of progress, error, tiles and the word that there are none exactly one is drawn, where a
  sign-in may show an error next to its progress.
\<close>

definition dashboard_ok :: "dashboard \<Rightarrow> bool" where
  "dashboard_ok s \<longleftrightarrow> (da_signing s \<longrightarrow> da_loading s \<and> da_run s = None)
     \<and> (\<forall>n. da_run s = Some n \<longrightarrow> Suc n = da_asked s)
     \<and> (da_loading s \<longrightarrow> da_error s = None)
     \<and> (\<forall>n \<in> set (da_waiting s). n < da_asked s)
     \<and> (\<not> da_signing s \<and> da_loading s \<longrightarrow> da_run s \<noteq> None \<and> the (da_run s) \<in> set (da_waiting s))"

lemma dashboard_ok_init: "dashboard_ok (dashboard_init params)"
  by (simp add: dashboard_ok_def dashboard_init_def ask_agents_def Let_def)

lemma dashboard_ok_step: "dashboard_ok s \<Longrightarrow> dashboard_allows s e \<Longrightarrow> dashboard_ok (dashboard_do e s)"
  by (cases e) (auto simp: dashboard_ok_def signed_in_def ask_agents_def agents_came_def context_came_def Let_def split: sum.split)

lemma dashboard_run_ok: "dashboard_run params s \<Longrightarrow> dashboard_ok s"
  by (induction rule: dashboard_run.induct) (simp_all add: dashboard_ok_init dashboard_ok_step)

theorem dashboard_shows_one:
  assumes "dashboard_run params s"
  shows "(case draw_dashboard num date h s of v \<Rightarrow>
      length (filter id [dw_progress v \<noteq> None, dw_error v \<noteq> None, dw_tiles v \<noteq> [], dw_empty v]) = 1)
    \<and> (da_loading s \<and> \<not> da_signing s \<longrightarrow> (\<exists>n \<in> set (da_waiting s). da_run s = Some n))"
  using dashboard_run_ok [OF assms]
  by (auto simp: dashboard_ok_def draw_dashboard_def Let_def split: option.splits if_splits)

theorem dashboard_shows_one_witness:
  "length (filter id [dw_progress (draw_dashboard (\<lambda>_. []) (\<lambda>_. []) header_init (dashboard_init [])) \<noteq> None,
     dw_error (draw_dashboard (\<lambda>_. []) (\<lambda>_. []) header_init (dashboard_init [])) \<noteq> None,
     dw_tiles (draw_dashboard (\<lambda>_. []) (\<lambda>_. []) header_init (dashboard_init [])) \<noteq> [],
     dw_empty (draw_dashboard (\<lambda>_. []) (\<lambda>_. []) header_init (dashboard_init []))]) = 1"
  using dashboard_shows_one [OF dashboard_run.mounted] by blast

text \<open>
  Two errors are never read: the error of a failed sign-in is cleared by the effect that
  asks for the agents next, and a failed list without a text of the status, as HTTP/2 has
  none, is drawn as a list of no agents.
\<close>

theorem dashboard_hides_errors:
  assumes "da_signing s" "\<not> hr_ok rep" "hr_status_text rep = []" "da_agents s = JArr []"
  shows "da_error (dashboard_do (Signed_In (Inl m)) s) = None
    \<and> (let t = dashboard_do (Agents_Came (da_asked s) (Inr rep)) (dashboard_do (Signed_In r) s)
       in da_error t = Some [] \<and> dw_error (draw_dashboard num date h t) = None \<and> dw_empty (draw_dashboard num date h t))"
  using assms
  by (auto simp: signed_in_def ask_agents_def agents_came_def draw_dashboard_def Let_def split: sum.split)

theorem dashboard_hides_errors_witness:
  "da_error (dashboard_do (Signed_In (Inl ''refused'')) (dashboard_init [(''code'', ''1''), (''state'', ''2'')])) = None"
proof -
  have "da_signing (dashboard_init [(''code'', ''1''), (''state'', ''2'')])" "da_agents (dashboard_init [(''code'', ''1''), (''state'', ''2'')]) = JArr []"
    by (simp_all add: dashboard_init_def ask_agents_def query_value_def)
  then show ?thesis
    using dashboard_hides_errors [of "dashboard_init [(''code'', ''1''), (''state'', ''2'')]" no_reply "''refused''" "Inr ()"]
    by (simp add: no_reply_def)
qed

end
