(* ===== verification/Tools_Dialog.thy ===== *)
theory Tools_Dialog
  imports Manage
begin

text \<open>
  The tools dialog of \<open>agentic_chat/src/ToolsConfig.tsx\<close>: it loads the configured services
  and servers, the apps and the tools of every app, and draws them in three tabs.  Its
  handlers edit the servers, but every input that calls them is disabled.
\<close>

section \<open>Loading\<close>

record tools_data =
  td_services :: jv
  td_servers :: jv
  td_apps :: jv
  td_tools :: "(string \<times> jv) list"        \<comment> \<open>by the name of the app\<close>

definition no_tools :: tools_data where
  "no_tools = \<lparr>td_services = JArr [], td_servers = JObj [], td_apps = JArr [], td_tools = []\<rparr>"

text \<open>The three stages; an error ends the loading and nothing that came before is shown.\<close>

definition read_tools_config :: "http_reply \<Rightarrow> exn + tools_data" where
  "read_tools_config rep =
     (if \<not> hr_ok rep then Inr no_tools
      else try_bind (hr_json rep) (\<lambda>d. try_bind (get_prop d ''services'') (\<lambda>ss.
        Inr (no_tools\<lparr>td_services := js_or ss (JArr []), td_servers := js_or (fld d ''mcpServers'') (JObj [])\<rparr>))))"

definition tool_app_name :: "(rat \<Rightarrow> string) \<Rightarrow> jv \<Rightarrow> string" where
  "tool_app_name num a = js_to_string num (fld a ''name'')"

text \<open>The tools of an app: an error gives it none, a refusal leaves it without an entry.\<close>

definition add_app_tools :: "(rat \<Rightarrow> string) \<Rightarrow> (string \<Rightarrow> exn + http_reply) \<Rightarrow> jv \<Rightarrow> (string \<times> jv) list \<Rightarrow> (string \<times> jv) list" where
  "add_app_tools num tools a al =
     (case tools (tool_app_name num a) of
        Inl _ \<Rightarrow> al_set (tool_app_name num a) (JArr []) al
      | Inr rep \<Rightarrow>
          if \<not> hr_ok rep then al
          else (case try_bind (hr_json rep) (\<lambda>d. get_prop d ''tools'') of
                  Inl _ \<Rightarrow> al_set (tool_app_name num a) (JArr []) al
                | Inr ts \<Rightarrow> al_set (tool_app_name num a) (js_or ts (JArr [])) al))"

definition read_apps ::
  "(rat \<Rightarrow> string) \<Rightarrow> (string \<Rightarrow> exn + http_reply) \<Rightarrow> http_reply \<Rightarrow> tools_data \<Rightarrow> exn + tools_data" where
  "read_apps num tools rep d =
     (if \<not> hr_ok rep then Inr d
      else try_bind (hr_json rep) (\<lambda>v. try_bind (get_prop v ''apps'') (\<lambda>as.
        (case js_or as (JArr []) of
           JArr xs \<Rightarrow>
             if list_ex nullish xs then Inl ''app is null''
             else Inr (d\<lparr>td_apps := JArr xs, td_tools := fold (add_app_tools num tools) xs []\<rparr>)
         | _ \<Rightarrow> Inl ''apps is not iterable''))))"

datatype tools_tab = Apps_Tab | Services_Tab | Servers_Tab

datatype tools_request = Get_Tools_Config | Get_Apps | Get_App_Tools string | Post_Tools_Config tools_data

record app_tools_dialog =
  tg_data :: tools_data
  tg_tab :: tools_tab
  tg_loading :: bool
  tg_status :: nat                  \<comment> \<open>0 idle, 1 saving, 2 success, 3 error\<close>
  tg_asked :: "tools_request list"

definition app_tools_init :: app_tools_dialog where
  "app_tools_init = \<lparr>tg_data = no_tools, tg_tab = Apps_Tab, tg_loading = True, tg_status = 0, tg_asked = [Get_Tools_Config]\<rparr>"

text \<open>The requests for the tools of the apps, one after the other up to an app that is null.\<close>

definition app_requests :: "(rat \<Rightarrow> string) \<Rightarrow> exn + http_reply \<Rightarrow> tools_request list" where
  "app_requests num apps =
     (case try_bind apps (\<lambda>rep. if hr_ok rep then try_bind (hr_json rep) (\<lambda>v. get_prop v ''apps'') else Inr JNull) of
        Inr (JArr xs) \<Rightarrow> map (\<lambda>a. Get_App_Tools (tool_app_name num a)) (takeWhile (\<lambda>a. \<not> nullish a) xs)
      | _ \<Rightarrow> [])"

text \<open>The whole of \<open>loadConfig\<close>, with the replies to its requests.\<close>

definition load_tools_config ::
  "(rat \<Rightarrow> string) \<Rightarrow> exn + http_reply \<Rightarrow> exn + http_reply \<Rightarrow> (string \<Rightarrow> exn + http_reply) \<Rightarrow> app_tools_dialog \<Rightarrow> app_tools_dialog" where
  "load_tools_config num config apps tools s =
     (let s1 = s\<lparr>tg_loading := False\<rparr>
      in case try_bind config read_tools_config of
           Inl _ \<Rightarrow> s1
         | Inr d \<Rightarrow>
             let s2 = s1\<lparr>tg_asked := tg_asked s1 @ [Get_Apps] @ app_requests num apps\<rparr>
             in case try_bind apps (\<lambda>rep. read_apps num tools rep d) of
                  Inl _ \<Rightarrow> s2
                | Inr d1 \<Rightarrow> s2\<lparr>tg_data := d1\<rparr>)"

section \<open>The handlers\<close>

definition server_of :: "string \<Rightarrow> tools_data \<Rightarrow> jv" where
  "server_of k d = opt_prop (td_servers d) k"

definition add_server :: "string \<Rightarrow> tools_data \<Rightarrow> tools_data" where
  "add_server k d =
     (if k \<noteq> [] \<and> \<not> truthy (server_of k d)
      then d\<lparr>td_servers := obj_with (td_servers d)
        [(k, JObj [(''command'', JStr ''uv''), (''args'', JArr []), (''transport'', JStr ''stdio''), (''description'', JStr []), (''env'', JObj [])])]\<rparr>
      else d)"

definition remove_server :: "string \<Rightarrow> tools_data \<Rightarrow> tools_data" where
  "remove_server k d = d\<lparr>td_servers := JObj (filter (\<lambda>p. fst p \<noteq> k) (obj_fields (td_servers d)))\<rparr>"

definition update_server :: "string \<Rightarrow> string \<Rightarrow> jv \<Rightarrow> tools_data \<Rightarrow> tools_data" where
  "update_server k f v d = d\<lparr>td_servers := obj_with (td_servers d) [(k, obj_with (server_of k d) [(f, v)])]\<rparr>"

definition args_of :: "string \<Rightarrow> tools_data \<Rightarrow> jv list" where
  "args_of k d = (case opt_prop (server_of k d) ''args'' of JArr xs \<Rightarrow> xs | _ \<Rightarrow> [])"

definition add_arg :: "string \<Rightarrow> tools_data \<Rightarrow> tools_data" where
  "add_arg k d = update_server k ''args'' (JArr (args_of k d @ [JStr []])) d"

text \<open>An index past the end leaves holes, which are undefined.\<close>

definition update_arg :: "string \<Rightarrow> nat \<Rightarrow> string \<Rightarrow> tools_data \<Rightarrow> tools_data" where
  "update_arg k i v d =
     (let xs = args_of k d in update_server k ''args'' (JArr ((xs @ replicate (Suc i - length xs) JUndef)[i := JStr v])) d)"

definition remove_arg :: "string \<Rightarrow> nat \<Rightarrow> tools_data \<Rightarrow> tools_data" where
  "remove_arg k i d = update_server k ''args'' (JArr (take i (args_of k d) @ drop (Suc i) (args_of k d))) d"

definition env_of :: "string \<Rightarrow> tools_data \<Rightarrow> (string \<times> jv) list" where
  "env_of k d = obj_fields (opt_prop (server_of k d) ''env'')"

definition set_env :: "string \<Rightarrow> string \<Rightarrow> string \<Rightarrow> tools_data \<Rightarrow> tools_data" where
  "set_env k e v d = update_server k ''env'' (obj_with (JObj (env_of k d)) [(e, JStr v)]) d"

definition add_env :: "string \<Rightarrow> string \<Rightarrow> tools_data \<Rightarrow> tools_data" where
  "add_env k e d = (if e \<noteq> [] then set_env k e [] d else d)"

definition remove_env :: "string \<Rightarrow> string \<Rightarrow> tools_data \<Rightarrow> tools_data" where
  "remove_env k e d = update_server k ''env'' (JObj (filter (\<lambda>p. fst p \<noteq> e) (env_of k d))) d"

definition save_tools :: "exn + http_reply \<Rightarrow> app_tools_dialog \<Rightarrow> app_tools_dialog" where
  "save_tools r s =
     s\<lparr>tg_asked := tg_asked s @ [Post_Tools_Config (tg_data s)],
       tg_status := (case r of Inr rep \<Rightarrow> if hr_ok rep then 2 else 3 | Inl _ \<Rightarrow> 3)\<rparr>"

text \<open>The file is read as YAML, whatever its shape; the parser is an argument.\<close>

definition import_tools :: "(string \<Rightarrow> exn + tools_data) \<Rightarrow> string \<Rightarrow> app_tools_dialog \<Rightarrow> string list \<times> app_tools_dialog" where
  "import_tools yaml t s =
     (case yaml t of Inr d \<Rightarrow> ([], s\<lparr>tg_data := d\<rparr>) | Inl _ \<Rightarrow> ([''Failed to parse YAML file''], s))"

section \<open>Drawing\<close>

datatype tools_action =
    Dialog_Closed
  | Tab_Shown tools_tab
  | Yaml_Imported
  | Yaml_Exported
  | Server_Added
  | Server_Removed string
  | Server_Field string string
  | Arg_Added string
  | Arg_Typed string nat
  | Arg_Removed string nat
  | Env_Added string
  | Env_Typed string string
  | Env_Removed string string
  | Changes_Saved

text \<open>The controls of a server, none of which can be used, each with what it shows.\<close>

definition by_url :: "jv \<Rightarrow> bool" where
  "by_url server \<longleftrightarrow> fld server ''transport'' = JStr ''sse'' \<or> fld server ''transport'' = JStr ''http''"

definition draw_server :: "string \<times> jv \<Rightarrow> (tools_action \<times> jv) list" where
  "draw_server p =
     (let k = fst p; server = snd p;
          args = (case js_or (fld server ''args'') (JArr []) of JArr xs \<Rightarrow> xs | _ \<Rightarrow> []);
          env = obj_fields (js_or (fld server ''env'') (JObj []))
      in [(Server_Removed k, JStr k), (Server_Field k ''description'', js_or (fld server ''description'') (JStr [])),
          (Server_Field k ''command'', js_or (fld server ''command'') (JStr [])),
          (Server_Field k ''transport'', js_or (fld server ''transport'') (JStr ''stdio''))]
         @ (if by_url server then [(Server_Field k ''url'', js_or (fld server ''url'') (JStr []))]
            else (Arg_Added k, JUndef)
                 # concat (map (\<lambda>(i, a). [(Arg_Typed k i, a), (Arg_Removed k i, JUndef)]) (zip [0..<length args] args)))
         @ (Env_Added k, JUndef)
         # concat (map (\<lambda>(e, v). [(Env_Typed k e, v), (Env_Removed k e, JStr e)]) env))"

record app_card =
  ac_name :: jv
  ac_type :: jv
  ac_description :: jv
  ac_url :: "jv option"
  ac_tools :: "(jv \<times> jv) list"

definition draw_app :: "(rat \<Rightarrow> string) \<Rightarrow> (string \<times> jv) list \<Rightarrow> jv \<Rightarrow> app_card" where
  "draw_app num tools a =
     \<lparr>ac_name = fld a ''name'', ac_type = fld a ''type'',
      ac_description = js_or (fld a ''description'') (JStr ''No description available''),
      ac_url = (if truthy (fld a ''url'') then Some (fld a ''url'') else None),
      ac_tools = (case map_of tools (tool_app_name num a) of
                    Some (JArr ts) \<Rightarrow> map (\<lambda>t. (fld t ''name'', js_or (fld t ''description'') (JStr ''No description''))) ts
                  | _ \<Rightarrow> [])\<rparr>"

text \<open>A service is an object with one key; one without a key throws.\<close>

definition draw_service :: "jv \<Rightarrow> exn + (string \<times> jv \<times> jv)" where
  "draw_service v =
     (case obj_fields v of
        [] \<Rightarrow> Inl (type_error JUndef ''description'')
      | (k, service) # _ \<Rightarrow>
          try_bind (get_prop service ''description'') (\<lambda>d.
            Inr (k, js_or d (JStr ''No description available''), fld service ''url'')))"

record tools_view =
  tw_apps :: "app_card list"
  tw_servers :: "(tools_action \<times> jv) list list"
  tw_services :: "(string \<times> jv \<times> jv) list"
  tw_progress :: bool
  tw_notice :: "string option"

definition array_of :: "jv \<Rightarrow> jv list" where
  "array_of v = (case v of JArr xs \<Rightarrow> xs | _ \<Rightarrow> [])"

definition draw_tools_dialog :: "(rat \<Rightarrow> string) \<Rightarrow> app_tools_dialog \<Rightarrow> exn + tools_view" where
  "draw_tools_dialog num s =
     (let d = tg_data s; none = \<lparr>tw_apps = [], tw_servers = [], tw_services = [], tw_progress = False, tw_notice = None\<rparr>
      in case tg_tab s of
           Apps_Tab \<Rightarrow>
             Inr (none\<lparr>tw_apps := map (draw_app num (td_tools d)) (array_of (td_apps d)), tw_progress := tg_loading s,
               tw_notice := (if array_of (td_apps d) = [] \<and> \<not> tg_loading s
                             then Some ''No apps available. Make sure the registry service is running.'' else None)\<rparr>)
         | Servers_Tab \<Rightarrow>
             Inr (none\<lparr>tw_servers := map draw_server (obj_fields (td_servers d)),
               tw_notice := (if obj_fields (td_servers d) = []
                             then Some ''No MCP servers configured. Click \"Add Server\" to get started.'' else None)\<rparr>)
         | Services_Tab \<Rightarrow>
             try_bind (try_map draw_service (array_of (td_services d))) (\<lambda>ss.
               Inr (none\<lparr>tw_services := ss, tw_progress := tg_loading s,
                 tw_notice := (if array_of (td_services d) = [] \<and> \<not> tg_loading s
                               then Some ''No services configured. Services are defined in the YAML configuration file.'' else None)\<rparr>)))"

text \<open>All controls of the dialog, and whether they can be used.\<close>

definition tools_controls :: "app_tools_dialog \<Rightarrow> (tools_action \<times> bool) list" where
  "tools_controls s =
     [(Dialog_Closed, True), (Tab_Shown Apps_Tab, True), (Tab_Shown Servers_Tab, True), (Tab_Shown Services_Tab, True),
      (Yaml_Imported, False), (Yaml_Exported, False), (Changes_Saved, False)]
     @ (if tg_tab s = Servers_Tab
        then (Server_Added, False) # map (\<lambda>(a, v). (a, False)) (concat (map draw_server (obj_fields (td_servers (tg_data s)))))
        else [])"

text \<open>What an action does, with the text that is typed or prompted for, the file and the reply to a save.\<close>

fun tools_act ::
  "(string \<Rightarrow> exn + tools_data) \<Rightarrow> string \<Rightarrow> exn + http_reply \<Rightarrow> tools_action \<Rightarrow> app_tools_dialog \<Rightarrow> app_tools_dialog" where
  "tools_act yaml t r Dialog_Closed s = s"
| "tools_act yaml t r (Tab_Shown b) s = s\<lparr>tg_tab := b\<rparr>"
| "tools_act yaml t r Yaml_Imported s = snd (import_tools yaml t s)"
| "tools_act yaml t r Yaml_Exported s = s"
| "tools_act yaml t r Server_Added s = s\<lparr>tg_data := add_server t (tg_data s)\<rparr>"
| "tools_act yaml t r (Server_Removed k) s = s\<lparr>tg_data := remove_server k (tg_data s)\<rparr>"
| "tools_act yaml t r (Server_Field k f) s = s\<lparr>tg_data := update_server k f (JStr t) (tg_data s)\<rparr>"
| "tools_act yaml t r (Arg_Added k) s = s\<lparr>tg_data := add_arg k (tg_data s)\<rparr>"
| "tools_act yaml t r (Arg_Typed k i) s = s\<lparr>tg_data := update_arg k i t (tg_data s)\<rparr>"
| "tools_act yaml t r (Arg_Removed k i) s = s\<lparr>tg_data := remove_arg k i (tg_data s)\<rparr>"
| "tools_act yaml t r (Env_Added k) s = s\<lparr>tg_data := add_env k t (tg_data s)\<rparr>"
| "tools_act yaml t r (Env_Typed k e) s = s\<lparr>tg_data := set_env k e t (tg_data s)\<rparr>"
| "tools_act yaml t r (Env_Removed k e) s = s\<lparr>tg_data := remove_env k e (tg_data s)\<rparr>"
| "tools_act yaml t r Changes_Saved s = save_tools r s"

inductive tools_dialog_run :: "(rat \<Rightarrow> string) \<Rightarrow> app_tools_dialog \<Rightarrow> bool" for num where
  mounted: "tools_dialog_run num app_tools_init"
| loaded: "tools_dialog_run num s \<Longrightarrow> tg_loading s \<Longrightarrow> tools_dialog_run num (load_tools_config num config apps tools s)"
| acted: "tools_dialog_run num s \<Longrightarrow> (a, True) \<in> set (tools_controls s) \<Longrightarrow> tools_dialog_run num (tools_act yaml t r a s)"


section \<open>Properties\<close>

text \<open>
  The dialog only reads: in every run it posts nothing, and what it holds is empty or what
  one loading made of its replies.
\<close>

lemma enabled_actions: "(a, True) \<in> set (tools_controls s) \<Longrightarrow> a = Dialog_Closed \<or> (\<exists>b. a = Tab_Shown b)"
  by (auto simp: tools_controls_def split: if_splits)

lemma load_posts: "Post_Tools_Config d \<in> set (tg_asked (load_tools_config num config apps tools s)) \<Longrightarrow> Post_Tools_Config d \<in> set (tg_asked s)"
  by (auto simp: load_tools_config_def app_requests_def Let_def split: sum.splits jv.splits if_splits)

lemma load_data: "tg_loading (load_tools_config num config apps tools s) = False
   \<and> (tg_data s = no_tools \<longrightarrow> tg_data (load_tools_config num config apps tools s) = tg_data (load_tools_config num config apps tools app_tools_init))"
  by (auto simp: load_tools_config_def app_tools_init_def Let_def split: sum.split)

theorem tools_dialog_reads_only:
  assumes "tools_dialog_run num s"
  shows "(\<forall>d. Post_Tools_Config d \<notin> set (tg_asked s))
    \<and> (tg_data s = no_tools \<or> (\<exists>config apps tools. tg_data s = tg_data (load_tools_config num config apps tools app_tools_init)))"
proof -
  have "(\<forall>d. Post_Tools_Config d \<notin> set (tg_asked s)) \<and> (tg_loading s \<longrightarrow> tg_data s = no_tools)
    \<and> (tg_data s = no_tools \<or> (\<exists>config apps tools. tg_data s = tg_data (load_tools_config num config apps tools app_tools_init)))"
    using assms
  proof (induction rule: tools_dialog_run.induct)
    case mounted
    then show ?case by (simp add: app_tools_init_def)
  next
    case (loaded s config apps tools)
    then show ?case using load_posts [of _ num config apps tools s] load_data [of num config apps tools s] by blast
  next
    case (acted s a yaml t r)
    have "tg_asked (tools_act yaml t r a s) = tg_asked s" "tg_loading (tools_act yaml t r a s) = tg_loading s"
      "tg_data (tools_act yaml t r a s) = tg_data s"
      using enabled_actions [OF acted.hyps(2)] by auto
    then show ?case using acted.IH by metis
  qed
  then show ?thesis by blast
qed

theorem tools_dialog_reads_only_witness: "Post_Tools_Config no_tools \<notin> set (tg_asked app_tools_init)"
  using tools_dialog_reads_only [OF tools_dialog_run.mounted] by blast

text \<open>
  A failed request for the apps hides the configuration that was loaded before it, while a
  refused one shows it without apps.
\<close>

theorem failed_apps_hide_config:
  assumes "hr_ok rep" "hr_json rep = Inr (JObj fs)" "\<not> hr_ok refused"
  shows "tg_data (load_tools_config num (Inr rep) (Inl m) tools app_tools_init) = no_tools
    \<and> tg_data (load_tools_config num (Inr rep) (Inr refused) tools app_tools_init)
        = no_tools\<lparr>td_services := js_or (fld (JObj fs) ''services'') (JArr []), td_servers := js_or (fld (JObj fs) ''mcpServers'') (JObj [])\<rparr>"
  using assms by (simp add: load_tools_config_def read_tools_config_def read_apps_def app_tools_init_def Let_def)

theorem failed_apps_hide_config_witness:
  "tg_data (load_tools_config (\<lambda>_. []) (Inr (ok_reply (JObj [(''mcpServers'', JObj [(''a'', JObj [])])]))) (Inl ''gone'') (\<lambda>_. Inl []) app_tools_init)
     = no_tools"
  using failed_apps_hide_config [of "ok_reply (JObj [(''mcpServers'', JObj [(''a'', JObj [])])])" "[(''mcpServers'', JObj [(''a'', JObj [])])]" no_reply]
  by (simp add: ok_reply_def no_reply_def)

text \<open>The tools of an app: those of its last request that was not refused.\<close>

lemma fold_app_tools:
  "map_of (fold (add_app_tools num tools) as al) k =
     (if \<exists>a \<in> set as. tool_app_name num a = k \<and> (case tools k of Inr rep \<Rightarrow> hr_ok rep | Inl _ \<Rightarrow> True)
      then Some (case tools k of Inr rep \<Rightarrow> (case try_bind (hr_json rep) (\<lambda>d. get_prop d ''tools'') of Inr ts \<Rightarrow> js_or ts (JArr []) | Inl _ \<Rightarrow> JArr [])
                 | Inl _ \<Rightarrow> JArr [])
      else map_of al k)"
  by (induction as arbitrary: al) (auto simp: add_app_tools_def split: sum.splits)

text \<open>An edit of a server leaves the others alone, and an argument that is added and removed is gone.\<close>

lemma server_updated: "is_obj (td_servers d) \<Longrightarrow> server_of j (update_server k f v d) = (if j = k then obj_with (server_of k d) [(f, v)] else server_of j d)"
  by (cases "td_servers d") (auto simp: server_of_def update_server_def obj_with_one opt_prop_def split: option.splits)

lemma args_updated: "is_obj (td_servers d) \<Longrightarrow> args_of k (update_server k ''args'' (JArr xs) d) = xs"
  by (auto simp: args_of_def server_updated opt_prop_def obj_with_one)

theorem argument_added_and_removed:
  assumes "is_obj (td_servers d)"
  shows "args_of k (remove_arg k (length (args_of k d)) (add_arg k d)) = args_of k d
    \<and> args_of k (update_arg k (length (args_of k d)) t (add_arg k d)) = args_of k d @ [JStr t]
    \<and> (\<forall>j. j \<noteq> k \<longrightarrow> server_of j (remove_arg k i d) = server_of j d \<and> server_of j (add_arg k d) = server_of j d)"
proof -
  have o: "is_obj (td_servers (add_arg k d))" by (simp add: add_arg_def update_server_def obj_with_def)
  have "args_of k (add_arg k d) = args_of k d @ [JStr []]" using assms by (simp add: add_arg_def args_updated)
  then show ?thesis
    using assms o by (simp add: remove_arg_def update_arg_def args_updated server_updated add_arg_def Let_def)
qed

theorem argument_added_and_removed_witness:
  "args_of ''a'' (remove_arg ''a'' 0 (add_arg ''a'' no_tools)) = []"
  using argument_added_and_removed [of no_tools "''a''" "[]" 0]
  by (simp add: no_tools_def args_of_def server_of_def opt_prop_def)

end
