(* ===== verification/Card_Parts.thy ===== *)
theory Card_Parts
  imports Card_Details Streaming
begin

text \<open>
  The components of \<open>agentic_chat/src\<close> that draw the content of a step inside its card, one
  for each kind of detail of \<^theory_text>\<open>Card_Details\<close>, and the stop button.  Each is a list of
  parts of its content and of its toggles; colours and constant decorations are left out.
  The content has the shape of the agent that made it: reading a field of what is not there
  throws, and other texts, numbers and lists are as declared.
\<close>

section \<open>Parts\<close>

datatype part =
    Label string string               \<comment> \<open>a label or icon, and a text\<close>
  | Note string
  | Chips "string list"
  | More nat                          \<comment> \<open>how many are not drawn\<close>
  | Toggle string
  | Bar "rat option"                  \<comment> \<open>a width in percent, not a number when it is missing\<close>
  | Steps "(string \<times> string) list"
  | Card_Row "part list"

definition text_at :: "jv \<Rightarrow> string" where
  "text_at v = (case v of JStr s \<Rightarrow> s | _ \<Rightarrow> [])"

definition list_at :: "jv \<Rightarrow> jv list" where
  "list_at v = (case v of JArr xs \<Rightarrow> xs | _ \<Rightarrow> [])"

text \<open>\<open>text.substring(0, n) + "..."\<close> of a text that is longer.\<close>

definition clip :: "nat \<Rightarrow> string \<Rightarrow> string" where
  "clip n s = (if length s \<le> n then s else take n s @ ''...'')"

definition up_arrow :: string where "up_arrow = [CHR 0xE2, CHR 0x96, CHR 0xB2]"
definition down_arrow :: string where "down_arrow = [CHR 0xE2, CHR 0x96, CHR 0xBC]"

definition arrow :: "bool \<Rightarrow> string" where
  "arrow open1 = (if open1 then up_arrow else down_arrow)"

definition first_text :: "jv list \<Rightarrow> string" where
  "first_text xs = (case xs of x # _ \<Rightarrow> text_at x | [] \<Rightarrow> [])"

text \<open>The collapsible thoughts: all of them numbered, or a summary.\<close>

definition thoughts_part :: "string \<Rightarrow> string \<Rightarrow> bool \<Rightarrow> jv list \<Rightarrow> part list" where
  "thoughts_part title summary show1 ths =
     [Note (title @ '' ('' @ show_nat (length ths) @ '')''), Toggle (arrow show1)]
     @ (if show1 then [Steps (map (\<lambda>(i, t). (show_nat (Suc i) @ ''.'', text_at t)) (zip [0..<length ths] ths))] else [Note summary])"

definition thoughts_summary :: "string \<Rightarrow> jv list \<Rightarrow> string" where
  "thoughts_summary none ths = (if ths = [] then none else clip 100 (first_text ths))"

definition thoughts_start :: "jv list \<Rightarrow> string" where
  "thoughts_start ths = clip 80 (first_text ths)"

text \<open>A list that is drawn up to some length, with the number of those left out.\<close>

definition folded :: "nat \<Rightarrow> bool \<Rightarrow> 'a list \<Rightarrow> 'a list \<times> nat" where
  "folded n all1 xs = (if all1 then (xs, 0) else (take n xs, length xs - n))"

locale fold_out =
  fixes view :: "bool \<Rightarrow> 'a list \<Rightarrow> 'a list \<times> nat" and bound :: nat
  assumes opened: "view True xs = (xs, 0)"
    and start: "prefix (fst (view b xs)) xs"
    and rest: "length (fst (view b xs)) + snd (view b xs) = length xs"
    and bounded: "length (fst (view False xs)) \<le> bound"
begin

lemma none_hidden: "snd (view b xs) = 0 \<longleftrightarrow> fst (view b xs) = xs"
proof
  assume "snd (view b xs) = 0"
  then have "length (fst (view b xs)) = length xs" using rest [of b xs] by simp
  then show "fst (view b xs) = xs" using start [of b xs] by (metis append_Nil2 append_eq_append_conv prefix_def)
next
  assume "fst (view b xs) = xs"
  then show "snd (view b xs) = 0" using rest [of b xs] by simp
qed

lemma hidden_over_bound: "length xs > bound \<Longrightarrow> snd (view False xs) > 0"
  using rest [of False xs] bounded [of xs] by linarith

end

interpretation folds: fold_out "folded n" n for n
  by unfold_locales (simp_all add: folded_def take_is_prefix min_def)

section \<open>Plans and actions\<close>

definition status_icon :: "jv \<Rightarrow> string" where
  "status_icon s =
     (if s = JStr ''completed'' then [CHR 0xE2, CHR 0x9C, CHR 0x85] else if s = JStr ''in-progress'' then [CHR 0xF0, CHR 0x9F, CHR 0x94, CHR 0x84]
      else if s = JStr ''not-started'' then [CHR 0xE2, CHR 0x8F, CHR 0xB3] else [CHR 0xE2, CHR 0x9D, CHR 0x93])"

definition wrench_icon :: string where "wrench_icon = [CHR 0xF0, CHR 0x9F, CHR 0x94, CHR 0xA7]"

definition task_app_icon :: "string \<Rightarrow> string" where
  "task_app_icon app =
     (case map_of [(''gmail'', [CHR 0xF0, CHR 0x9F, CHR 0x93, CHR 0xA7]), (''calendar'', [CHR 0xF0, CHR 0x9F, CHR 0x93, CHR 0x85]), (''drive'', [CHR 0xF0, CHR 0x9F, CHR 0x93, CHR 0x81]), (''sheets'', [CHR 0xF0, CHR 0x9F, CHR 0x93, CHR 0x8A])] (to_lower app) of
        Some i \<Rightarrow> i | None \<Rightarrow> wrench_icon)"

text \<open>The share of the completed subtasks; none of none is not a number.\<close>

definition completed_count :: "jv list \<Rightarrow> nat" where
  "completed_count ss = length (filter (\<lambda>s. s = JStr ''completed'') ss)"

definition progress_percentage :: "jv list \<Rightarrow> rat option" where
  "progress_percentage ss = (if ss = [] then None else Some (of_nat (completed_count ss) / of_nat (length ss) * 100))"

definition spaced_hyphen :: "string \<Rightarrow> string" where
  "spaced_hyphen s = (case cut_first ''-'' s of Some (a, b) \<Rightarrow> a @ '' '' @ b | None \<Rightarrow> s)"

definition draw_task_status :: "bool \<Rightarrow> jv \<Rightarrow> exn + part list" where
  "draw_task_status show1 d =
     try_bind (get_prop d ''subtasks_progress'') (\<lambda>progress. try_bind (get_prop progress ''length'') (\<lambda>_.
     try_bind (get_prop (fld d ''thoughts'') ''length'') (\<lambda>_.
       let ss = list_at progress; ths = list_at (fld d ''thoughts'')
       in Inr ([Label ''Task Progress'' (if truthy (fld d ''conclude_task'') then ''Complete'' else ''Active''),
                Label ''Subtasks'' (show_nat (completed_count ss) @ ''/'' @ show_nat (length ss)), Bar (progress_percentage ss),
                Steps (map (\<lambda>(i, s). (''Task '' @ show_nat (Suc i) @ '': '' @ spaced_hyphen (text_at s), status_icon s))
                         (zip [0..<length ss] ss)),
                Label ''Next:'' (text_at (fld d ''next_subtask_type''))]
              @ (if truthy (fld d ''next_subtask_app'')
                 then [Label (task_app_icon (text_at (fld d ''next_subtask_app''))) (text_at (fld d ''next_subtask_app''))] else [])
              @ [Note (text_at (fld d ''next_subtask''))]
              @ (if truthy (fld d ''conclude_final_answer'') then [Label ''Result'' (text_at (fld d ''conclude_final_answer''))] else [])
              @ thoughts_part ''Analysis'' (thoughts_summary ''No thoughts recorded'' ths) show1 ths))))"

definition action_icon :: "string \<Rightarrow> string" where
  "action_icon a =
     (if a = ''CoderAgent'' then [CHR 0xF0, CHR 0x9F, CHR 0x91, CHR 0xA8, CHR 0xE2, CHR 0x80, CHR 0x8D, CHR 0xF0, CHR 0x9F, CHR 0x92, CHR 0xBB] else if a = ''ShortlistingAgent'' then [CHR 0xF0, CHR 0x9F, CHR 0x93, CHR 0x8B]
      else if a = ''conclude_task'' then [CHR 0xF0, CHR 0x9F, CHR 0x8E, CHR 0xAF] else [CHR 0xE2, CHR 0x9A, CHR 0xA1])"

definition chips_part :: "string \<Rightarrow> nat \<Rightarrow> (jv \<Rightarrow> string) \<Rightarrow> jv \<Rightarrow> part list" where
  "chips_part title n f v =
     (case v of
        JArr xs \<Rightarrow>
          if xs = [] then []
          else let (shown, more) = folded n False xs
               in [Note title, Chips (map f shown)] @ (if more > 0 then [More more] else [])
      | _ \<Rightarrow> [])"

definition coder_task :: "jv \<Rightarrow> part list" where
  "coder_task c =
     [Label ''Coder Agent Task'' (text_at (fld c ''task_description''))]
     @ chips_part ''Context:'' 3 text_at (fld c ''context_variables_from_history'')
     @ chips_part ''APIs:'' 2 (\<lambda>a. text_at (fld a ''api_name'')) (fld c ''relevant_apis'')"

definition activity :: "string \<Rightarrow> jv \<Rightarrow> part" where
  "activity name v = Label name (if truthy v then ''Active'' else ''Inactive'')"

definition draw_action_status :: "bool \<Rightarrow> jv \<Rightarrow> exn + part list" where
  "draw_action_status show1 d =
     try_bind (get_prop d ''thoughts'') (\<lambda>ts. try_bind (get_prop ts ''length'') (\<lambda>_.
       let ths = list_at ts; a = text_at (fld d ''action'');
           coder = fld d ''action_input_coder_agent''; short = fld d ''action_input_shortlisting_agent'';
           conclude = fld d ''action_input_conclude_task''
       in Inr ([Label (action_icon a) a]
              @ (if truthy coder then coder_task coder else [])
              @ (if truthy short then [Label ''Shortlisting Agent Task'' (text_at (fld short ''task_description''))] else [])
              @ (if truthy conclude then [Label ''Task Conclusion'' (text_at (fld conclude ''final_response''))] else [])
              @ [activity ''Coder'' coder, activity ''Shortlister'' short, activity ''Conclude'' conclude]
              @ thoughts_part ''Analysis'' (thoughts_summary ''No thoughts recorded'' ths) show1 ths)))"

text \<open>The steps of a plan, numbered with two digits at least.\<close>

definition step_number :: "nat \<Rightarrow> string" where
  "step_number i = (let s = show_nat (Suc i) in if length s < 2 then ''0'' @ s else s)"

definition app_icons :: "(string \<times> string) list" where
  "app_icons = [(''gmail'', [CHR 0xF0, CHR 0x9F, CHR 0x93, CHR 0xA7]), (''phone'', [CHR 0xF0, CHR 0x9F, CHR 0x93, CHR 0xB1]), (''venmo'', [CHR 0xF0, CHR 0x9F, CHR 0x92, CHR 0xB0]), (''calendar'', [CHR 0xF0, CHR 0x9F, CHR 0x93, CHR 0x85]), (''drive'', [CHR 0xF0, CHR 0x9F, CHR 0x93, CHR 0x81]),
     (''sheets'', [CHR 0xF0, CHR 0x9F, CHR 0x93, CHR 0x8A]), (''slack'', [CHR 0xF0, CHR 0x9F, CHR 0x92, CHR 0xAC])]"

definition plan_app_icon :: "jv \<Rightarrow> string" where
  "plan_app_icon v = (case map_of app_icons (to_lower (text_at v)) of Some i \<Rightarrow> i | None \<Rightarrow> wrench_icon)"

definition draw_plan_steps :: "bool \<Rightarrow> jv \<Rightarrow> exn + part list" where
  "draw_plan_steps show1 d =
     try_bind (get_prop d ''task_decomposition'') (\<lambda>v. try_bind (get_prop v ''length'') (\<lambda>_.
       let ts = list_at v; thoughts = fld d ''thoughts'';
           rows = map (\<lambda>(i, t). Card_Row [Note (step_number i), Label (plan_app_icon (fld t ''app'')) (text_at (fld t ''app'')),
                                      Note (text_at (fld t ''type'')), Note (text_at (fld t ''task''))]) (zip [0..<length ts] ts)
       in if \<not> show1 \<and> nullish thoughts then Inl (type_error thoughts ''length'')
          else if list_ex nullish ts then Inl (type_error (the (List.find nullish ts)) ''app'')
          else Inr ([Label ''Task Breakdown'' (show_nat (length ts) @ '' steps planned'')] @ rows
                    @ [Note ''Analysis'', Toggle (arrow show1),
                       Note (if show1 then text_at thoughts else clip 80 (text_at thoughts))])))"

section \<open>Answers, code and lists\<close>

definition answer_icon :: "string \<Rightarrow> string" where
  "answer_icon a = (if length a < 50 then [CHR 0xF0, CHR 0x9F, CHR 0x92, CHR 0xA1] else if length a < 200 then [CHR 0xF0, CHR 0x9F, CHR 0x93, CHR 0x9D] else [CHR 0xF0, CHR 0x9F, CHR 0x93, CHR 0x84])"

definition word_count :: "string \<Rightarrow> nat" where
  "word_count a = length (split_str '' '' a)"

text \<open>The answer of a question, of which only texts have a length.\<close>

definition draw_qa :: "bool \<Rightarrow> bool \<Rightarrow> jv \<Rightarrow> exn + part list" where
  "draw_qa show1 full d =
     try_bind (get_prop d ''answer'') (\<lambda>av. try_bind (get_prop av ''length'') (\<lambda>_.
     try_bind (get_prop (fld d ''thoughts'') ''length'') (\<lambda>_.
       let a = text_at av; ths = list_at (fld d ''thoughts'')
       in Inr ([Label ''Question:'' (text_at (fld d ''name'')), Label (answer_icon a) ''Answer'',
                Label ''chars'' (show_nat (length a)), Label ''words'' (show_nat (word_count a)),
                Note (if full then a else clip 500 a)]
              @ (if length a > 500 then [Toggle (if full then ''Show less'' else ''Show full answer'')] else [])
              @ [Label ''Analysis Steps'' (show_nat (length ths)), Label ''Answer Length'' (show_nat (length a)),
                 Label ''Words'' (show_nat (word_count a))]
              @ thoughts_part ''QA Analysis'' (thoughts_start ths) show1 ths))))"

text \<open>Scores are numbers; \<open>toFixed(0)\<close> of a number that is not negative rounds halves up.\<close>

definition percent :: "rat \<Rightarrow> int" where
  "percent q = js_round (q * 100)"

definition score_icon :: "rat \<Rightarrow> string" where
  "score_icon q = (if q \<ge> 95 / 100 then [CHR 0xF0, CHR 0x9F, CHR 0x8E, CHR 0xAF] else if q \<ge> 9 / 10 then [CHR 0xE2, CHR 0x9C, CHR 0x85] else if q \<ge> 8 / 10 then [CHR 0xF0, CHR 0x9F, CHR 0x91, CHR 0x8D] else [CHR 0xF0, CHR 0x9F, CHR 0x93, CHR 0x9D])"

definition scores :: "jv list \<Rightarrow> rat list" where
  "scores rs = map (\<lambda>r. js_num (fld r ''relevance_score'')) rs"

definition average_score :: "jv list \<Rightarrow> rat option" where
  "average_score rs = (if rs = [] then None else Some (sum_list (scores rs) / of_nat (length rs)))"

definition show_int :: "int \<Rightarrow> string" where
  "show_int i = (if i < 0 then ''-'' @ show_nat (nat (- i)) else show_nat (nat i))"

definition percent_text :: "rat option \<Rightarrow> string" where
  "percent_text q = (case q of Some r \<Rightarrow> show_int (percent r) | None \<Rightarrow> ''NaN'') @ ''%''"

definition draw_shortlister :: "bool \<Rightarrow> bool \<Rightarrow> jv \<Rightarrow> exn + part list" where
  "draw_shortlister show1 all1 d =
     try_bind (get_prop d ''result'') (\<lambda>v. try_bind (get_prop v ''length'') (\<lambda>_.
     try_bind (get_prop (fld d ''thoughts'') ''length'') (\<lambda>_.
       let rs = list_at v; ths = list_at (fld d ''thoughts''); (shown, more) = folded 2 all1 rs;
           rows = map (\<lambda>(i, r). Card_Row [Label (score_icon (js_num (fld r ''relevance_score''))) (clip 25 (text_at (fld r ''name''))),
                       Label ''#'' (show_nat (Suc i)), Note (percent_text (Some (js_num (fld r ''relevance_score'')))),
                       Note (text_at (fld r ''reasoning''))]) (zip [0..<length shown] shown)
       in if list_ex nullish rs then Inl (type_error (the (List.find nullish rs)) ''relevance_score'')
          else Inr ([Label ''API Shortlist'' (show_nat (length rs) @ '' APIs selected'')] @ rows
                    @ (if length rs > 2
                       then [Toggle (if all1 then ''Show less'' else ''Show '' @ show_nat (length rs - 2) @ '' more'')] else [])
                    @ [Label ''High Priority'' (show_nat (length (filter (\<lambda>q. q \<ge> 95 / 100) (scores rs)))),
                       Label ''Avg Score'' (percent_text (average_score rs)), Label ''APIs Found'' (show_nat (length rs))]
                    @ thoughts_part ''Analysis'' (thoughts_start ths) show1 ths))))"

text \<open>The code with its first lines, the output and the variables.\<close>

definition code_snippet :: "string \<Rightarrow> string" where
  "code_snippet c =
     (let ls = split_str newline c in if length ls \<le> 4 then c else join newline (take 4 ls) @ newline @ ''...'')"

definition variable_line :: "(jv \<Rightarrow> string) \<Rightarrow> string \<times> jv \<Rightarrow> string \<times> string" where
  "variable_line stringify p = (fst p, clip 60 (stringify (snd p)))"

text \<open>A variable whose value has no JSON throws: \<open>JSON.stringify\<close> of it is undefined.\<close>

definition draw_coder :: "(jv \<Rightarrow> string) \<Rightarrow> bool \<Rightarrow> bool \<Rightarrow> jv \<Rightarrow> exn + part list" where
  "draw_coder stringify full_code full_output d =
     (let code = text_at (with_default (fld d ''code'') (JStr []));
          out = text_at (js_or (fld d ''execution_output'') (js_or (fld d ''summary'') (JStr [])));
          vars = (if truthy (fld d ''variables'') then obj_fields (fld d ''variables'') else []);
          n = (if code = [] then 0 else length (split_str newline code));
          state = (if out \<noteq> [] then ''Complete'' else ''In Progress'');
          (shown, more) = folded 3 False vars
      in if nullish d then Inl (type_error d ''code'')
         else if list_ex (\<lambda>p. snd p = JUndef) shown then Inl (type_error JUndef ''substring'')
         else Inr ([Label ''Coder Agent'' state]
                @ (if code = [] then []
                   else [Note (''Code ('' @ show_nat n @ '' lines)'')]
                        @ (if n > 4 then [Toggle (if full_code then up_arrow @ '' Less'' else down_arrow @ '' More'')] else [])
                        @ [Note (if full_code then code else code_snippet code)])
                @ (if out = [] then []
                   else [Note (''Execution Output ('' @ show_nat (length out) @ '' chars)'')]
                        @ (if length out > 400 then [Toggle (if full_output then up_arrow @ '' Less'' else down_arrow @ '' More'')] else [])
                        @ [Note (if full_output then out else clip 400 out)])
                @ (if vars = [] then []
                   else [Note (''Variables Created ('' @ show_nat (length vars) @ '')''), Steps (map (variable_line stringify) shown)]
                        @ (if more > 0 then [More more] else []))
                @ (if code = [] then [] else [Note (show_nat n @ '' lines'')])
                @ (if out = [] then [] else [Note (show_nat (length out) @ '' chars'')])
                @ (if vars = [] then [] else [Note (show_nat (length vars) @ '' vars'')])
                @ [Note state]))"

definition agent_icon :: "string \<Rightarrow> string" where
  "agent_icon a = (if a = ''ActionAgent'' then [CHR 0xF0, CHR 0x9F, CHR 0x8E, CHR 0xAF] else if a = ''QaAgent'' then [CHR 0xF0, CHR 0x9F, CHR 0x94, CHR 0x8D] else [CHR 0xF0, CHR 0x9F, CHR 0xA4, CHR 0x96])"

definition draw_action_agent :: "bool \<Rightarrow> jv \<Rightarrow> exn + part list" where
  "draw_action_agent show1 d =
     try_bind (get_prop d ''instruction'') (\<lambda>iv. try_bind (get_prop iv ''length'') (\<lambda>_.
     try_bind (get_prop (fld d ''thoughts'') ''length'') (\<lambda>_.
       let ths = list_at (fld d ''thoughts''); a = text_at (fld d ''next_agent'')
       in Inr ([Label (agent_icon a) a, Label ''Current Instruction'' (clip 100 (text_at iv))]
               @ thoughts_part ''Analysis'' (thoughts_start ths) show1 ths))))"

definition analyzer_icons :: "(string \<times> string) list" where
  "analyzer_icons = app_icons @ [(''spotify'', [CHR 0xF0, CHR 0x9F, CHR 0x8E, CHR 0xB5]), (''uber'', [CHR 0xF0, CHR 0x9F, CHR 0x9A, CHR 0x97]), (''weather'', [CHR 0xF0, CHR 0x9F, CHR 0x8C, CHR 0xA4, CHR 0xEF, CHR 0xB8, CHR 0x8F])]"

definition draw_app_analyzer :: "bool \<Rightarrow> jv \<Rightarrow> exn + part list" where
  "draw_app_analyzer all1 d =
     (let xs = list_at d; (shown, more) = folded 4 all1 xs
      in try_bind (try_map (\<lambda>a. try_bind (get_prop a ''name'') (\<lambda>v. try_bind (get_prop v ''toLowerCase'') (\<lambda>_.
               Inr (Label (case map_of analyzer_icons (to_lower (text_at v)) of Some i \<Rightarrow> i | None \<Rightarrow> wrench_icon) (text_at v))))) shown)
           (\<lambda>rows. Inr ([Label ''App Analysis'' (show_nat (length xs) @ '' apps'')] @ rows
              @ (if length xs > 4
                 then [Toggle (if all1 then up_arrow @ '' Less'' else down_arrow @ '' +'' @ show_nat (length xs - 4) @ '' more'')] else [])
              @ [Note (''Ready to use '' @ show_nat (length xs) @ '' integrated services'')])))"

definition draw_final_answer :: "bool \<Rightarrow> bool \<Rightarrow> jv \<Rightarrow> exn + part list" where
  "draw_final_answer show1 full d =
     try_bind (get_prop d ''thoughts'') (\<lambda>ts. try_bind (get_prop ts ''length'') (\<lambda>_.
       let ths = list_at ts; a = fld d ''final_answer''
       in if \<not> full \<and> nullish a then Inl (type_error a ''length'')
          else Inr ([Note ''Final Answer Ready'', Toggle (if full then up_arrow @ '' Collapse'' else down_arrow @ '' Expand''),
                     Note (if full then text_at a else clip 150 (text_at a))]
                    @ thoughts_part ''Final Analysis'' (thoughts_summary ''No analysis recorded'' ths) show1 ths)))"

text \<open>Only a text can be too long; other content goes to the Markdown library as it is.\<close>

definition draw_expandable :: "bool \<Rightarrow> string \<Rightarrow> jv \<Rightarrow> exn + part list" where
  "draw_expandable open1 title content =
     try_bind (get_prop content ''length'') (\<lambda>_.
       let s = text_at content; long = length s > 600
       in Inr ([Note title, Note (if open1 \<or> \<not> long then s else clip 600 s)]
               @ (if long then [Toggle (if open1 then ''Show less'' else ''Read more'')] else [])))"

section \<open>Policies and tools\<close>

definition confidence_percent :: "jv \<Rightarrow> rat option" where
  "confidence_percent m =
     (case fld m ''policy_confidence'' of JNum q \<Rightarrow> Some (of_int (js_round (q * 100))) | JNull \<Rightarrow> Some 0 | _ \<Rightarrow> None)"

definition bar_text :: "rat option \<Rightarrow> string" where
  "bar_text q = (case q of Some r \<Rightarrow> show_int \<lfloor>r\<rfloor> | None \<Rightarrow> ''NaN'') @ ''%''"

definition policy_lines :: "string \<Rightarrow> jv \<Rightarrow> part list" where
  "policy_lines name_label m =
     [Label name_label (text_at (fld m ''policy_name'')), Label ''Policy ID:'' (text_at (fld m ''policy_id'')),
      Bar (confidence_percent m), Label ''Match Confidence:'' (bar_text (confidence_percent m))]"

definition draw_policy_block :: "jv \<Rightarrow> exn + part list" where
  "draw_policy_block d =
     try_bind (get_prop d ''metadata'') (\<lambda>m. try_bind (get_prop m ''policy_confidence'') (\<lambda>_.
       Inr ([Note (text_at (fld d ''content''))] @ policy_lines ''Policy Name:'' m
            @ [Label ''Reasoning'' (text_at (fld m ''policy_reasoning''))])))"

definition playbook_step :: "(rat \<Rightarrow> string) \<Rightarrow> jv \<Rightarrow> exn + part" where
  "playbook_step num st =
     try_bind (get_prop st ''step_number'') (\<lambda>n.
       Inr (Card_Row ([Label (js_to_string num n) (text_at (fld st ''instruction''))]
         @ (if truthy (fld st ''expected_outcome'') then [Label ''Expected:'' (text_at (fld st ''expected_outcome''))] else [])
         @ (case fld st ''tools_allowed'' of
              JArr xs \<Rightarrow> if xs = [] then [] else [Label ''Tools:'' (join '', '' (map text_at xs))]
            | _ \<Rightarrow> []))))"

definition draw_policy_playbook :: "(rat \<Rightarrow> string) \<Rightarrow> jv \<Rightarrow> exn + part list" where
  "draw_policy_playbook num d =
     try_bind (get_prop d ''metadata'') (\<lambda>m. try_bind (get_prop m ''policy_confidence'') (\<lambda>_.
       let steps = list_at (js_or (fld m ''playbook_steps'') (JArr []))
       in try_bind (try_map (playbook_step num) steps) (\<lambda>rows.
            Inr ([Note (text_at (js_or (fld d ''content'')
                     (JStr (''I'' @ [CHR 0x27] @ ''ll guide you through this process step by step.''))))]
                 @ policy_lines ''Playbook Name:'' m
                 @ (if steps = [] then [] else Note (''Workflow Steps ('' @ show_nat (length steps) @ '')'') # rows)
                 @ (if truthy (fld m ''playbook_guidance'') then [Label ''Guidance'' (text_at (fld m ''playbook_guidance''))] else [])))))"

definition type_of :: "jv \<Rightarrow> string" where
  "type_of v = (case v of JUndef \<Rightarrow> ''undefined'' | JBool _ \<Rightarrow> ''boolean'' | JNum _ \<Rightarrow> ''number'' | JStr _ \<Rightarrow> ''string'' | _ \<Rightarrow> ''object'')"

definition arg_text :: "(rat \<Rightarrow> string) \<Rightarrow> jv \<Rightarrow> string" where
  "arg_text num v = (case v of JStr s \<Rightarrow> [CHR 0x22] @ s @ [CHR 0x22] | _ \<Rightarrow> js_to_string num v)"

text \<open>The button opens a page at a name that this module does not have, so what it shows is its message.\<close>

definition flow_explained :: string where
  "flow_explained = ''Local server not running. Please start your development server.''"

definition draw_tool_flow :: "(rat \<Rightarrow> string) \<Rightarrow> jv \<Rightarrow> exn + part list" where
  "draw_tool_flow num d =
     try_bind (get_prop d ''name'') (\<lambda>n. 
       if nullish (fld d ''args'') then Inl ''Cannot convert undefined or null to object''
       else
         let trusted = (n \<noteq> JStr ''run_new_flow'')
         in Inr ((if trusted then [Note ''trusted''] else []) @ [Label ''Flow Name'' (text_at n)]
             @ map (\<lambda>(k, v). Card_Row [Label (k @ '':'') (arg_text num v), Note (type_of v)]) (obj_fields (fld d ''args''))
             @ (if trusted then [Note ''Verified and trusted flow'', Toggle ''Flow explained''] else [])))"

section \<open>A detail of a card\<close>

text \<open>What the toggles of the components are: the thoughts, and the answer, list, code or output.\<close>

record toggles =
  tg_thoughts :: bool
  tg_full :: bool
  tg_output :: bool

definition toggles_init :: toggles where
  "toggles_init = \<lparr>tg_thoughts = False, tg_full = False, tg_output = False\<rparr>"

text \<open>The details without a component of their own are drawn by the card itself.\<close>

definition draw_detail :: "(rat \<Rightarrow> string) \<Rightarrow> (jv \<Rightarrow> string) \<Rightarrow> toggles \<Rightarrow> detail \<Rightarrow> exn + part list" where
  "draw_detail num stringify t d =
     (case d of
        Tool_Flow v \<Rightarrow> draw_tool_flow num v
      | Task_Status v \<Rightarrow> draw_task_status (tg_thoughts t) v
      | Task_Steps v \<Rightarrow> draw_plan_steps (tg_thoughts t) v
      | Action_Status v \<Rightarrow> draw_action_status (tg_thoughts t) v
      | Expandable title v \<Rightarrow> draw_expandable (tg_full t) title v
      | Coder_Output v \<Rightarrow> draw_coder stringify (tg_full t) (tg_output t) v
      | Policy_Block v \<Rightarrow> draw_policy_block v
      | Policy_Playbook v \<Rightarrow> draw_policy_playbook num v
      | Shortlister v \<Rightarrow> draw_shortlister (tg_thoughts t) (tg_full t) v
      | App_Analyzer v \<Rightarrow> draw_app_analyzer (tg_full t) v
      | Action_Agent v \<Rightarrow> draw_action_agent (tg_thoughts t) v
      | Qa_Agent v \<Rightarrow> draw_qa (tg_thoughts t) (tg_full t) v
      | _ \<Rightarrow> Inr [])"

section \<open>The stop button\<close>

text \<open>It listens to the shared state under its own name, and shows while there is a stream.\<close>

record stop_button =
  sp_me :: nat
  sp_streaming :: bool

definition stop_mount :: "nat \<Rightarrow> stream_state \<Rightarrow> stop_button \<times> stream_state" where
  "stop_mount me s = (\<lparr>sp_me = me, sp_streaming = tm_streaming s\<rparr>, tm_subscribe me s)"

definition stop_told :: "stream_state \<Rightarrow> stream_state \<Rightarrow> stop_button \<Rightarrow> stop_button" where
  "stop_told old new b =
     (case filter (\<lambda>p. fst p = sp_me b) (drop (length (tm_told old)) (tm_told new)) of
        [] \<Rightarrow> b | ps \<Rightarrow> b\<lparr>sp_streaming := snd (last ps)\<rparr>)"

definition stop_label :: "bool \<Rightarrow> stop_button \<Rightarrow> string option" where
  "stop_label in_line b = (if sp_streaming b then Some (if in_line then ''Stop'' else ''Stop Processing'') else None)"

text \<open>A press stops the stream and then tells the cards to stop and that they are complete.\<close>

datatype stop_effect = Cards_Stopped | Cards_Complete

definition stop_press :: "bool \<Rightarrow> stream_state \<Rightarrow> stream_state \<times> stop_effect list" where
  "stop_press cards s = (tm_stop_stream s, if cards then [Cards_Stopped, Cards_Complete] else [])"


section \<open>Properties\<close>

lemma clip_fits: "length (clip n s) \<le> n + 3 \<and> (length s \<le> n \<longrightarrow> clip n s = s) \<and> prefix (take n s) (clip n s)"
  by (auto simp: clip_def take_is_prefix)

text \<open>
  The bar of a plan has a width between 0 and 100 percent, full exactly when all subtasks
  are completed, except that a plan without subtasks has none; the average score of a list
  of APIs is between the bounds of its scores.
\<close>

lemma average_between:
  assumes "rs \<noteq> []" "\<forall>q \<in> set (scores rs). lo \<le> q \<and> q \<le> hi"
  shows "\<exists>a. average_score rs = Some a \<and> lo \<le> a \<and> a \<le> hi"
proof -
  have "of_nat (length qs) * lo \<le> sum_list qs \<and> sum_list qs \<le> of_nat (length qs) * hi"
    if "\<forall>q \<in> set qs. lo \<le> q \<and> q \<le> hi" for qs
    using that by (induction qs) (auto simp: algebra_simps)
  from this [OF assms(2)] have "of_nat (length rs) * lo \<le> sum_list (scores rs)" "sum_list (scores rs) \<le> of_nat (length rs) * hi"
    by (simp_all add: scores_def)
  moreover have "of_nat (length rs) > (0 :: rat)" using assms(1) by simp
  ultimately show ?thesis using assms(1)
    by (intro exI [of _ "sum_list (scores rs) / of_nat (length rs)"]) (simp add: average_score_def field_simps)
qed

lemma all_kept: "length (filter P xs) = length xs \<longleftrightarrow> (\<forall>x \<in> set xs. P x)"
proof (induction xs)
  case (Cons x xs)
  have "length (filter P xs) \<noteq> Suc (length xs)" using length_filter_le [of P xs] by linarith
  then show ?case using Cons by auto
qed simp

theorem bars_in_range:
  assumes "\<forall>r \<in> set rs. \<exists>q. fld r ''relevance_score'' = JNum q \<and> 0 \<le> q \<and> q \<le> 1"
  shows "(progress_percentage ss = None \<longleftrightarrow> ss = [])
    \<and> (\<forall>q. progress_percentage ss = Some q \<longrightarrow> 0 \<le> q \<and> q \<le> 100 \<and> (q = 100 \<longleftrightarrow> (\<forall>s \<in> set ss. s = JStr ''completed'')))
    \<and> (\<forall>q. average_score rs = Some q \<longrightarrow> 0 \<le> percent q \<and> percent q \<le> 100)"
proof (intro conjI allI impI)
  show "progress_percentage ss = None \<longleftrightarrow> ss = []" by (simp add: progress_percentage_def)
next
  fix q assume q: "progress_percentage ss = Some q"
  then have ne: "ss \<noteq> []" and q1: "q = of_nat (completed_count ss) / of_nat (length ss) * 100"
    by (auto simp: progress_percentage_def split: if_splits)
  have le: "completed_count ss \<le> length ss" by (simp add: completed_count_def)
  have pos: "of_nat (length ss) > (0 :: rat)" using ne by simp
  show "0 \<le> q" "q \<le> 100" using le pos by (simp_all add: q1 field_simps)
  have "q = 100 \<longleftrightarrow> completed_count ss = length ss" using pos by (simp add: q1 field_simps)
  also have "\<dots> \<longleftrightarrow> (\<forall>s \<in> set ss. s = JStr ''completed'')"
    unfolding completed_count_def by (rule all_kept)
  finally show "q = 100 \<longleftrightarrow> (\<forall>s \<in> set ss. s = JStr ''completed'')" .
next
  fix q assume a: "average_score rs = Some q"
  have "\<forall>q \<in> set (scores rs). 0 \<le> q \<and> q \<le> 1" using assms by (fastforce simp: scores_def js_num_def)
  then have "0 \<le> q \<and> q \<le> 1" using average_between [of rs 0 1] a by (auto simp: average_score_def split: if_splits)
  then have m: "js_round 0 \<le> js_round (q * 100)" "js_round (q * 100) \<le> js_round 100" by (simp_all add: js_round_mono)
  have "js_round 0 = 0" "js_round 100 = 100" by (simp_all add: js_round_def floor_eq_iff)
  then show "0 \<le> percent q" "percent q \<le> 100" using m by (simp_all add: percent_def)
qed

theorem bars_in_range_witness:
  "\<exists>q. progress_percentage [JStr ''completed'', JStr ''not-started''] = Some q \<and> 0 \<le> q \<and> q \<le> 100 \<and> q \<noteq> 100"
proof -
  obtain q where q: "progress_percentage [JStr ''completed'', JStr ''not-started''] = Some q" by (simp add: progress_percentage_def)
  then show ?thesis using bars_in_range [of "[]" "[JStr ''completed'', JStr ''not-started'']"] by auto
qed

text \<open>The shape an agent gives the content of a detail.\<close>

definition is_list :: "jv \<Rightarrow> bool" where
  "is_list v \<longleftrightarrow> (\<exists>xs. v = JArr xs)"

fun content_fine :: "detail \<Rightarrow> bool" where
  "content_fine (Tool_Flow v) = (is_obj v \<and> is_obj (fld v ''args''))"
| "content_fine (Task_Status v) = (is_obj v \<and> is_list (fld v ''subtasks_progress'') \<and> is_list (fld v ''thoughts''))"
| "content_fine (Task_Steps v) =
     (is_obj v \<and> (\<exists>ts. fld v ''task_decomposition'' = JArr ts \<and> list_all is_obj ts) \<and> (\<exists>s. fld v ''thoughts'' = JStr s))"
| "content_fine (Action_Status v) = (is_obj v \<and> is_list (fld v ''thoughts''))"
| "content_fine (Expandable title v) = (\<not> nullish v)"
| "content_fine (Coder_Output v) = (is_obj v \<and> (is_obj (fld v ''variables'') \<and> JUndef \<notin> snd ` set (obj_fields (fld v ''variables'')) \<or> nullish (fld v ''variables'')))"
| "content_fine (Policy_Block v) = (is_obj v \<and> is_obj (fld v ''metadata''))"
| "content_fine (Policy_Playbook v) =
     (is_obj v \<and> is_obj (fld v ''metadata'') \<and> list_all is_obj (list_at (fld (fld v ''metadata'') ''playbook_steps'')))"
| "content_fine (Shortlister v) =
     (is_obj v \<and> (\<exists>rs. fld v ''result'' = JArr rs \<and> list_all is_obj rs) \<and> is_list (fld v ''thoughts''))"
| "content_fine (App_Analyzer v) = (\<exists>xs. v = JArr xs \<and> list_all (\<lambda>a. is_obj a \<and> \<not> nullish (fld a ''name'')) xs)"
| "content_fine (Action_Agent v) = (is_obj v \<and> (\<exists>s. fld v ''instruction'' = JStr s) \<and> is_list (fld v ''thoughts''))"
| "content_fine (Qa_Agent v) = (is_obj v \<and> (\<exists>s. fld v ''answer'' = JStr s) \<and> is_list (fld v ''thoughts''))"
| "content_fine d = True"

lemma obj_not_nullish: "is_obj v \<Longrightarrow> \<not> nullish v"
  by (cases v) simp_all

lemma objs_not_nullish: "list_all is_obj xs \<Longrightarrow> \<not> list_ex nullish xs"
  by (induction xs) (auto simp: obj_not_nullish)

lemma get_prop_list [simp]: "get_prop (JArr xs) k = Inr (fld (JArr xs) k)" "get_prop (JStr s) k = Inr (fld (JStr s) k)"
  by (simp_all add: get_prop_def)

lemma get_obj: "is_obj v \<Longrightarrow> get_prop v k = Inr (fld v k)"
  by (simp add: get_prop_def obj_not_nullish)

lemma try_map_total: "(\<And>x. x \<in> set xs \<Longrightarrow> \<exists>y. f x = Inr y) \<Longrightarrow> \<exists>ys. try_map f xs = Inr ys"
proof (induction xs)
  case (Cons x xs)
  then obtain y ys where "f x = Inr y" "try_map f xs = Inr ys" by (meson list.set_intros)
  then show ?case by simp
qed simp

text \<open>Content of the shape its agent gives it is drawn whatever the toggles are.\<close>

theorem fine_details_drawn:
  assumes "content_fine d"
  shows "\<exists>ps. draw_detail num stringify t d = Inr ps"
proof (cases d)
  case (App_Analyzer v)
  then obtain xs where xs: "v = JArr xs" "\<forall>a \<in> set xs. is_obj a \<and> \<not> nullish (fld a ''name'')"
    using assms by (auto simp: list_all_iff)
  let ?f = "\<lambda>a. try_bind (get_prop a ''name'') (\<lambda>v. try_bind (get_prop v ''toLowerCase'') (\<lambda>_.
     Inr (Label (case map_of analyzer_icons (to_lower (text_at v)) of Some i \<Rightarrow> i | None \<Rightarrow> wrench_icon) (text_at v))))"
  have "\<exists>ys. try_map ?f (fst (folded 4 (tg_full t) xs)) = Inr ys"
  proof (rule try_map_total)
    fix a assume "a \<in> set (fst (folded 4 (tg_full t) xs))"
    then have "a \<in> set xs" using set_mono_prefix [OF folds.start [of 4 "tg_full t" xs]] by blast
    then show "\<exists>y. ?f a = Inr y" using xs(2) by (simp add: get_prop_not_nullish obj_not_nullish)
  qed
  then show ?thesis
    by (auto simp: App_Analyzer draw_detail_def draw_app_analyzer_def xs list_at_def Let_def case_prod_beta)
next
  case (Policy_Playbook v)
  then have v: "is_obj v" "is_obj (fld v ''metadata'')" "\<forall>a \<in> set (list_at (fld (fld v ''metadata'') ''playbook_steps'')). is_obj a"
    using assms by (auto simp: list_all_iff)
  have steps: "list_at (js_or x (JArr [])) = list_at x" for x by (cases x) (auto simp: js_or_def list_at_def)
  have "\<exists>ys. try_map (playbook_step num) (list_at (fld (fld v ''metadata'') ''playbook_steps'')) = Inr ys"
    by (rule try_map_total) (simp add: playbook_step_def get_obj v(3))
  then show ?thesis
    using v(1,2) by (auto simp: Policy_Playbook draw_detail_def draw_policy_playbook_def get_obj steps Let_def)
next
  case (Coder_Output v)
  have "\<not> list_ex (\<lambda>p. snd p = JUndef) (fst (folded 3 False vars))" if "JUndef \<notin> snd ` set vars" for vars
    using that set_mono_prefix [OF folds.start [of 3 False vars]]
    unfolding list_ex_iff by (metis image_eqI subsetD)
  moreover have "JUndef \<notin> snd ` set (if truthy (fld v ''variables'') then obj_fields (fld v ''variables'') else [])"
    using assms Coder_Output by (cases "fld v ''variables''") auto
  ultimately show ?thesis
    using assms Coder_Output by (auto simp: draw_detail_def draw_coder_def Let_def case_prod_beta obj_not_nullish)
qed (use assms in \<open>auto simp: draw_detail_def draw_tool_flow_def draw_task_status_def draw_plan_steps_def draw_action_status_def
       draw_expandable_def draw_policy_block_def draw_shortlister_def draw_action_agent_def draw_qa_def
       get_obj obj_not_nullish objs_not_nullish is_list_def list_at_def get_prop_not_nullish Let_def case_prod_beta\<close>)

theorem fine_details_drawn_witness:
  "\<exists>ps. draw_detail (\<lambda>_. []) (\<lambda>_. []) toggles_init (Qa_Agent (JObj [(''answer'', JStr ''42''), (''thoughts'', JArr [])])) = Inr ps"
  by (rule fine_details_drawn) (simp add: is_list_def)

definition thinking_titles :: "string list" where
  "thinking_titles = [''PlanControllerAgent'', ''TaskDecompositionAgent'', ''ShortlisterAgent'', ''PlannerAgent'', ''QaAgent'']"

text \<open>
  C17. Content without thoughts is not drawn, for the kinds of steps that show them: the
  element is made without an error, inside a try block, but the component throws when it is
  drawn.
\<close>

theorem missing_thoughts_throw:
  assumes "title \<in> set thinking_titles" "main_element parse num pretty marked sts title p = Inr (Some d)"
    and "nullish (fld p ''thoughts'')"
  shows "\<exists>m. draw_detail num stringify toggles_init d = Inl m"
proof -
  have thoughts: "get_prop (fld p ''thoughts'') k = Inl (type_error (fld p ''thoughts'') k)" for k using assms(3) by (simp add: get_prop_def)
  have first: "\<exists>m. try_bind x (\<lambda>a. Inl (f a)) = Inl m" for x :: "exn + jv" and f by (cases x) auto
  have two: "\<exists>m. try_bind x (\<lambda>a. try_bind (g a) (\<lambda>b. Inl (f a b))) = Inl m" for x :: "exn + jv" and g :: "jv \<Rightarrow> exn + jv" and f
    by (cases x; cases "g (projr x)") auto
  have "d \<in> {Task_Status p, Task_Steps p, Shortlister p, Action_Agent p, Qa_Agent p}"
    using assms(1,2) by (auto simp: thinking_titles_def main_element_def when_truthy_def split: if_splits)
      (cases "get_prop p ''subtasks_progress''", auto split: if_splits)
  then show ?thesis
    using assms(3) two
    by (auto simp: draw_detail_def toggles_init_def draw_task_status_def draw_plan_steps_def draw_shortlister_def
        draw_action_agent_def draw_qa_def thoughts Let_def)
qed

theorem missing_thoughts_throw_witness:
  "\<exists>m. draw_detail (\<lambda>_. []) (\<lambda>_. []) toggles_init (Qa_Agent (JObj [(''answer'', JStr ''42'')])) = Inl m"
  using missing_thoughts_throw [where title = "''QaAgent''" and p = "JObj [(''answer'', JStr ''42'')]"
      and d = "Qa_Agent (JObj [(''answer'', JStr ''42'')])" and num = "\<lambda>_. []" and stringify = "\<lambda>_. []"]
  by (simp add: thinking_titles_def main_element_def when_truthy_def)

text \<open>The stop button shows exactly while there is a stream, and a press takes it away.\<close>

theorem stop_button_follows:
  assumes "stop_mount me s = (b, s1)"
  shows "(stop_label i b \<noteq> None \<longleftrightarrow> tm_streaming s1)
    \<and> (let s2 = set_streaming v s1 in stop_label i (stop_told s1 s2 b) \<noteq> None \<longleftrightarrow> tm_streaming s2)
    \<and> stop_label i (stop_told s1 (fst (stop_press cards s1)) b) = None"
proof -
  have told: "stop_told t (set_streaming w u) b = b\<lparr>sp_streaming := w\<rparr>"
    if "sp_me b \<in> set (tm_listeners u)" "tm_told u = tm_told t" for t u w
  proof -
    have "filter (\<lambda>p. fst p = sp_me b) (map (\<lambda>k. (k, w)) (tm_listeners u)) \<noteq> []" (is "?ps \<noteq> []")
      using that(1) by (auto simp: filter_empty_conv)
    moreover from this have "snd (last ?ps) = w" using last_in_set [of ?ps] by auto
    ultimately show ?thesis using that(2)
      by (cases ?ps) (simp_all add: stop_told_def set_streaming_def del: last.simps)
  qed
  have b: "b = \<lparr>sp_me = me, sp_streaming = tm_streaming s\<rparr>" "s1 = tm_subscribe me s" using assms by (simp_all add: stop_mount_def)
  have "sp_me b \<in> set (tm_listeners s1)" by (simp add: b tm_subscribe_def)
  then show ?thesis
    using told [of s1 s1] told [of "case tm_controller s1 of Some c \<Rightarrow> s1\<lparr>tm_aborted := tm_aborted s1 @ [c]\<rparr> | None \<Rightarrow> s1" s1]
    by (auto simp: stop_label_def stop_press_def tm_stop_stream_def Let_def b(1) set_streaming_def tm_subscribe_def b(2) split: option.splits)
qed

end
