(* ===== verification/Landing_View.thy ===== *)
theory Landing_View
  imports Landing Threads Card_Parts
begin

text \<open>
  What the page of the chat draws, \<open>FW/frontend/src/ChatLanding.tsx\<close>: the list of
  conversations, the panel of the agent with its tools and the tree of its workspace, the
  buttons that open a closed panel, and the file on view with its download.  The
  page of \<^theory_text>\<open>Landing\<close> and the conversations of \<^theory_text>\<open>Threads\<close> are one state here, which
  changes by what is drawn and by what arrives.  Texts that come from the server are drawn as
  they are; colours, spacing and constant decorations are left out.
\<close>

section \<open>The tree of the workspace\<close>

datatype file_item =
  File_Item (fi_id: jv) (fi_name: jv) (fi_pressed: bool) (fi_open: bool) (fi_items: "file_item list")

lemma try_bind_cong [fundef_cong]:
  "m = m' \<Longrightarrow> (\<And>x. m' = Inr x \<Longrightarrow> f x = g x) \<Longrightarrow> try_bind m f = try_bind m' g"
  by (simp add: try_bind_def split: sum.split)

lemma try_map_cong [fundef_cong]:
  "xs = ys \<Longrightarrow> (\<And>x. x \<in> set ys \<Longrightarrow> f x = g x) \<Longrightarrow> try_map f xs = try_map g ys"
  by (induction xs arbitrary: ys) auto

lemma field_smaller: "fld n k = JArr cs \<Longrightarrow> c \<in> set cs \<Longrightarrow> size c < size n"
proof (induction n k rule: fld.induct)
  case (1 fs k)
  then have "(k, JArr cs) \<in> set fs" by (auto split: option.splits dest: map_of_SomeD)
  then have "size (JArr cs) < size (JObj fs)"
    by (auto simp: less_Suc_eq_le dest!: size_list_estimation' [of _ _ _ "size_prod (\<lambda>_. 0) size", OF _ order_refl])
  moreover have "size c < size (JArr cs)" using 1(2) by (simp add: size_list_estimation less_Suc_eq_le size_list_estimation')
  ultimately show ?case by simp
qed (auto split: if_splits)

text \<open>A folder is drawn open; its children are asked for a \<open>map\<close> when there are any.\<close>

function render_file_node :: "jv \<Rightarrow> exn + file_item" where
  "render_file_node n =
     try_bind (get_prop n ''path'') (\<lambda>path.
       let file = fld n ''type'' = JStr ''file''; folder = fld n ''type'' = JStr ''directory''
       in try_bind (if \<not> folder then Inr []
                    else case fld n ''children'' of
                           JArr cs \<Rightarrow> try_map render_file_node cs
                         | v \<Rightarrow> if nullish v then Inr [] else Inl ''node.children.map is not a function'')
            (\<lambda>items. Inr (File_Item path (fld n ''name'') file folder items)))"
  by pat_completeness auto
termination
  by (relation "measure size") (auto intro: field_smaller)

declare render_file_node.simps [simp del]

datatype tree_tab = Tree_Skeleton | No_Files | File_Tree "file_item list"

definition draw_tree_tab :: "landing \<Rightarrow> exn + tree_tab" where
  "draw_tree_tab s =
     (if la_tree_loading s then Inr Tree_Skeleton
      else case la_tree s of
             JArr ns \<Rightarrow> if ns = [] then Inr No_Files else try_bind (try_map render_file_node ns) (\<lambda>xs. Inr (File_Tree xs))
           | t \<Rightarrow> if fld t ''length'' = JNum 0 then Inr No_Files else Inl ''workspaceTree.map is not a function'')"


section \<open>The tools of the agent\<close>

text \<open>
  \<open>truncateText\<close> on what came as a description: a list or an object with a length that
  is small goes through as it is, and what has no \<open>substring\<close> throws.  A length that
  is itself a text or an object counts as large.
\<close>

definition truncate_value :: "nat \<Rightarrow> jv \<Rightarrow> exn + jv" where
  "truncate_value n v =
     (case v of
        JStr s \<Rightarrow> Inr (JStr (truncate_text n s))
      | _ \<Rightarrow> try_bind (get_prop v ''length'') (\<lambda>l.
               if (case l of JNum q \<Rightarrow> q \<le> of_nat n | JNull \<Rightarrow> True | JBool _ \<Rightarrow> True | _ \<Rightarrow> False) then Inr v
               else Inl ''text.substring is not a function''))"

record tool_row =
  tr_name :: jv
  tr_text :: jv
  tr_title :: jv
  tr_border :: bool

record app_view =
  av_name :: jv
  av_count :: string
  av_rows :: "tool_row list"
  av_button :: "string option"

definition count_text :: "nat \<Rightarrow> string \<Rightarrow> string" where
  "count_text n u = show_nat n @ '' '' @ u @ (if n \<noteq> 1 then ''s'' else [])"

definition draw_tool :: "bool \<Rightarrow> app_tool \<Rightarrow> exn + tool_row" where
  "draw_tool border t =
     try_bind (truncate_value 120 (at_description t)) (\<lambda>d.
       Inr \<lparr>tr_name = at_name t, tr_text = d, tr_title = at_description t, tr_border = border\<rparr>)"

definition draw_app_view :: "landing \<Rightarrow> jv \<times> app_tool list \<Rightarrow> exn + app_view" where
  "draw_app_view s app =
     (let shown = visible_tools s app; more = length (snd app) > 5; open1 = fst app \<in> set (la_expanded s)
      in try_bind (try_map (\<lambda>(i, t). draw_tool (i < length shown - 1 \<or> more) t) (zip [0..<length shown] shown)) (\<lambda>rows.
           Inr \<lparr>av_name = fst app, av_count = count_text (length (snd app)) ''tool'', av_rows = rows,
                av_button = (if \<not> more then None else if open1 then Some ''Show less''
                             else Some (''Show '' @ show_nat (length (snd app) - 5) @ '' more''))\<rparr>))"

record agent_panel =
  ap_name :: jv
  ap_version :: "string option"
  ap_total :: nat
  ap_files :: jv                        \<comment> \<open>the number beside the tab of the workspace\<close>
  ap_apps :: "app_view list"
  ap_tree :: tree_tab
  ap_visible :: bool                    \<comment> \<open>moved out of the window otherwise\<close>

definition draw_right :: "(rat \<Rightarrow> string) \<Rightarrow> landing \<Rightarrow> exn + agent_panel option" where
  "draw_right num s =
     (if \<not> can_show_right s then Inr None
      else try_bind (get_prop (la_tree s) ''length'') (\<lambda>files.
           try_bind (try_map (draw_app_view s) (la_apps s)) (\<lambda>apps.
           try_bind (draw_tree_tab s) (\<lambda>tree.
             Inr (Some \<lparr>ap_name = la_name s,
                ap_version = (if nullish (la_version s) then None else Some (''Config v'' @ js_to_string num (la_version s))),
                ap_total = total_tools s, ap_files = files, ap_apps = apps, ap_tree = tree, ap_visible = la_right s\<rparr>)))))"

section \<open>The conversations\<close>

record thread_row =
  rw_thread :: string
  rw_title :: string
  rw_time :: string
  rw_active :: bool

datatype thread_list = Threads_Skeleton | No_Threads | Thread_Rows "thread_row list"

record left_panel =
  lp_count :: string
  lp_can_remove :: bool
  lp_selected :: "string option"
  lp_list :: thread_list
  lp_visible :: bool

definition loading_text :: string where
  "loading_text = ''Loading'' @ [CHR 0xE2, CHR 0x80, CHR 0xA6]"

definition draw_thread :: "(string \<Rightarrow> string) \<Rightarrow> threads_state \<Rightarrow> thread_info \<Rightarrow> thread_row" where
  "draw_thread stamp t i =
     \<lparr>rw_thread = ti_id i, rw_title = (if ti_first i = [] then ''Untitled conversation'' else ti_first i),
      rw_time = stamp (ti_updated i), rw_active = (th_selected t = Some (ti_id i))\<rparr>"

definition draw_thread_list :: "(string \<Rightarrow> string) \<Rightarrow> threads_state \<Rightarrow> thread_list" where
  "draw_thread_list stamp t =
     (if th_loading t then Threads_Skeleton else if th_list t = [] then No_Threads
      else Thread_Rows (map (draw_thread stamp t) (th_list t)))"

definition draw_left :: "(string \<Rightarrow> string) \<Rightarrow> landing \<Rightarrow> threads_state \<Rightarrow> left_panel option" where
  "draw_left stamp s t =
     (if \<not> can_show_left s then None
      else Some \<lparr>lp_count = (if th_loading t then loading_text else count_text (length (th_list t)) ''thread''),
         lp_can_remove = (th_list t \<noteq> []),
         lp_selected = (case th_selected t of Some i \<Rightarrow> if i \<noteq> [] then Some i else None | None \<Rightarrow> None),
         lp_list = draw_thread_list stamp t, lp_visible = la_left s\<rparr>)"

section \<open>The page\<close>

record page_view =
  pg_thread :: "string option"          \<comment> \<open>what the chat is given\<close>
  pg_readonly :: bool
  pg_home :: "jv option"
  pg_header :: "bool \<times> bool"           \<comment> \<open>left panel collapsed, workspace open\<close>
  pg_left :: "left_panel option"
  pg_right :: "agent_panel option"
  pg_reopen_left :: bool
  pg_reopen_right :: bool
  pg_modal :: "(string \<times> string) option"     \<comment> \<open>title and contents\<close>
  pg_toasts :: "(nat \<times> toast) list"

definition draw_modal :: "(rat \<Rightarrow> string) \<Rightarrow> landing \<Rightarrow> (string \<times> string) option" where
  "draw_modal num s = map_option (\<lambda>(path, content, name). (name, file_markdown num name content)) (la_modal s)"

definition draw_page ::
  "(rat \<Rightarrow> string) \<Rightarrow> (string \<Rightarrow> string) \<Rightarrow> landing \<Rightarrow> threads_state \<Rightarrow> exn + page_view" where
  "draw_page num stamp s t =
     try_bind (draw_right num s) (\<lambda>right.
       Inr \<lparr>pg_thread = th_selected t, pg_readonly = is_readonly t, pg_home = la_home s,
            pg_header = (\<not> la_left s, la_right s), pg_left = draw_left stamp s t, pg_right = right,
            pg_reopen_left = (can_show_left s \<and> \<not> la_left s), pg_reopen_right = (can_show_right s \<and> \<not> la_right s),
            pg_modal = draw_modal num s, pg_toasts = la_toasts s\<rparr>)"

section \<open>What can happen on the page\<close>

definition close_left :: "landing \<Rightarrow> landing" where
  "close_left s = s\<lparr>la_left := False\<rparr>"

definition close_right :: "landing \<Rightarrow> landing" where
  "close_right s = s\<lparr>la_right := False\<rparr>"

definition close_modal :: "landing \<Rightarrow> landing" where
  "close_modal s = s\<lparr>la_modal := None\<rparr>"

text \<open>The answer to a download, with its bytes or an error in their place; a refusal says nothing.\<close>

definition file_downloaded ::
  "exn + bool \<times> (exn + string) \<Rightarrow> string \<Rightarrow> landing \<Rightarrow> (string \<times> string) option \<times> landing" where
  "file_downloaded r name s =
     (let failed = (\<lambda>m. (None, page_toast ''error'' ''Download failed'' (JStr m) s))
      in case r of
           Inl m \<Rightarrow> failed m
         | Inr (ok, body) \<Rightarrow>
             if ok then (case body of Inr b \<Rightarrow> (Some (name, b), s) | Inl m \<Rightarrow> failed m) else (None, s))"

text \<open>The first list of conversations, with its warnings; the shape of an item is an argument.\<close>

definition first_threads ::
  "(jv \<Rightarrow> thread_info list) \<Rightarrow> exn + http_reply \<Rightarrow> landing \<times> threads_state \<Rightarrow> landing \<times> threads_state" where
  "first_threads infos r w =
     (let none = threads_arrived None (snd w);
          failed = (\<lambda>m. (page_toast ''error'' ''Threads Load Error'' (JStr m) (fst w), none))
      in case r of
           Inl m \<Rightarrow> failed m
         | Inr rep \<Rightarrow>
             if \<not> hr_ok rep
             then (page_toast ''warning'' ''Threads Load Warning'' (JStr (''Failed to load conversation threads'' @ status_text rep))
                     (fst w), none)
             else (case try_bind (hr_json rep) (\<lambda>d. get_prop d ''threads'') of
                     Inl m \<Rightarrow> failed m
                   | Inr v \<Rightarrow> (fst w, threads_arrived (Some (infos (js_or v (JArr [])))) (snd w))))"


text \<open>What the rows of the tree are: the row and those below it, and the nodes they stand for.\<close>

fun items_of :: "file_item \<Rightarrow> file_item list" where
  "items_of (File_Item p n b d xs) = File_Item p n b d xs # concat (map items_of xs)"

definition shown_files :: "landing \<Rightarrow> file_item list" where
  "shown_files s =
     (case draw_tree_tab s of Inr (File_Tree xs) \<Rightarrow> if can_show_right s then concat (map items_of xs) else [] | _ \<Rightarrow> [])"

text \<open>
  A press on a file asks for it when it is a text; the answer comes later, to the page as it is
  by then.  The third component holds the files that are asked for.
\<close>

definition file_press :: "string \<Rightarrow> string \<Rightarrow> landing \<times> threads_state \<times> (string \<times> string) list \<Rightarrow>
    landing \<times> threads_state \<times> (string \<times> string) list" where
  "file_press path name w =
     (case w of (s, t, asked) \<Rightarrow>
        if is_text_file name then (s, t, asked @ [(path, name)]) else (file_click True path name (Inl []) s, t, asked))"

inductive page_run :: "(jv \<Rightarrow> thread_info list) \<Rightarrow> landing \<times> threads_state \<times> (string \<times> string) list \<Rightarrow> bool" for infos where
  mounted: "page_run infos (on_resize w (landing_init w), threads_init, [])"
| resized: "page_run infos (s, u) \<Longrightarrow> page_run infos (on_resize w s, u)"
| left_toggled: "page_run infos (s, u) \<Longrightarrow> page_run infos (toggle_left s, u)"
| right_toggled: "page_run infos (s, u) \<Longrightarrow> page_run infos (toggle_right s, u)"
| left_closed: "page_run infos (s, u) \<Longrightarrow> page_run infos (close_left s, u)"
| right_closed: "page_run infos (s, u) \<Longrightarrow> page_run infos (close_right s, u)"
| left_opened: "page_run infos (s, u) \<Longrightarrow> page_run infos (reopen_left s, u)"
| right_opened: "page_run infos (s, u) \<Longrightarrow> page_run infos (reopen_right s, u)"
| app_toggled: "page_run infos (s, u) \<Longrightarrow> app \<in> set (la_apps s) \<Longrightarrow> length (snd app) > 5 \<Longrightarrow> page_run infos (toggle_app (fst app) s, u)"
| toast_gone: "page_run infos (s, u) \<Longrightarrow> page_run infos (remove_toast i s, u)"
| modal_closed: "page_run infos (s, u) \<Longrightarrow> page_run infos (close_modal s, u)"
| configured: "page_run infos (s, u) \<Longrightarrow> page_run infos (load_agent_config r s, u)"
| tree_came: "page_run infos (s, u) \<Longrightarrow> page_run infos (tree_loaded tr s, u)"
| file_pressed: "page_run infos (s, u) \<Longrightarrow> x \<in> set (shown_files s) \<Longrightarrow> fi_pressed x \<Longrightarrow> fi_id x = JStr path \<Longrightarrow> fi_name x = JStr name
    \<Longrightarrow> page_run infos (file_press path name (s, u))"
| file_came: "page_run infos (s, t, asked) \<Longrightarrow> (path, name) \<in> set asked
    \<Longrightarrow> page_run infos (file_click True path name rep s, t, remove1 (path, name) asked)"
| downloaded: "page_run infos (s, u) \<Longrightarrow> la_modal s = Some (path, c, name) \<Longrightarrow> page_run infos (snd (file_downloaded dr name s), u)"
| threads_came: "page_run infos (s, t, asked) \<Longrightarrow> first_threads infos fr (s, t) = (s', t') \<Longrightarrow> page_run infos (s', t', asked)"
| thread_step: "page_run infos (s, t, asked) \<Longrightarrow> threads_step t t' \<Longrightarrow> page_run infos (s, t', asked)"

section \<open>Properties\<close>

definition toasts_fine :: "landing \<Rightarrow> bool" where
  "toasts_fine s \<longleftrightarrow> distinct (map fst (la_toasts s)) \<and> (\<forall>t \<in> set (la_toasts s). fst t < la_next_toast s)"

definition modal_fine :: "landing \<Rightarrow> bool" where
  "modal_fine s \<longleftrightarrow> (\<forall>p c n. la_modal s = Some (p, c, n) \<longrightarrow> is_text_file n)"

definition sound :: "landing \<Rightarrow> bool" where
  "sound s \<longleftrightarrow> panels_fit s \<and> toasts_fine s \<and> modal_fine s"

lemmas sound_defs = sound_def panels_fit_def can_show_left_def can_show_right_def toasts_fine_def modal_fine_def

lemma sound_other [simp]:
  "sound (s\<lparr>la_config_loading := b\<rparr>) = sound s" "sound (s\<lparr>la_home := h\<rparr>) = sound s" "sound (s\<lparr>la_name := n\<rparr>) = sound s"
  "sound (s\<lparr>la_version := n\<rparr>) = sound s" "sound (s\<lparr>la_apps := a\<rparr>) = sound s" "sound (s\<lparr>la_tree := n\<rparr>) = sound s"
  "sound (s\<lparr>la_tree_loading := b\<rparr>) = sound s" "sound (s\<lparr>la_expanded := e\<rparr>) = sound s"
  by (simp_all add: sound_defs)

lemma sound_toast [simp]: "sound s \<Longrightarrow> sound (page_toast k ti x s)" "sound s \<Longrightarrow> sound (remove_toast i s)"
  by (auto simp: sound_defs page_toast_def remove_toast_def less_Suc_eq distinct_map_filter)

lemma sound_modal: "sound s \<Longrightarrow> is_text_file n \<Longrightarrow> sound (s\<lparr>la_modal := Some (p, c, n)\<rparr>)" "sound s \<Longrightarrow> sound (close_modal s)"
  by (simp_all add: sound_defs close_modal_def)

lemma sound_panels:
  "sound s \<Longrightarrow> sound (on_resize w s)" "sound s \<Longrightarrow> sound (toggle_left s)" "sound s \<Longrightarrow> sound (toggle_right s)"
  "sound s \<Longrightarrow> sound (reopen_left s)" "sound s \<Longrightarrow> sound (reopen_right s)" "sound s \<Longrightarrow> sound (close_left s)"
  "sound s \<Longrightarrow> sound (close_right s)"
  by (auto simp: sound_defs on_resize_def hide_left_def hide_right_def toggle_left_def toggle_right_def reopen_left_def
      reopen_right_def close_left_def close_right_def)

lemma sound_file_click: "sound s \<Longrightarrow> sound (file_click True path name r s)"
  by (cases r) (simp_all add: file_click_def sound_modal split: sum.split)

lemma sound_tree: "sound s \<Longrightarrow> sound (tree_loaded r s)"
  by (cases r) (simp_all add: tree_loaded_def Let_def split: sum.split)

lemma sound_failed: "sound s \<Longrightarrow> sound (config_failed m s)"
  by (simp add: config_failed_def)

lemma sound_config: "sound s \<Longrightarrow> sound (load_agent_config r s)"
  by (cases r) (simp_all add: load_agent_config_def Let_def sound_failed split: sum.split prod.split option.split)

lemma sound_download: "sound s \<Longrightarrow> sound (snd (file_downloaded r name s))"
  by (simp add: file_downloaded_def Let_def split: sum.split prod.split)

lemma first_threads_parts:
  "sound s \<Longrightarrow> sound (fst (first_threads infos r (s, t)))"
  "\<exists>x. snd (first_threads infos r (s, t)) = threads_arrived x t"
  by (cases r; auto simp: first_threads_def Let_def split: sum.split)+

fun page_fine :: "landing \<times> threads_state \<times> (string \<times> string) list \<Rightarrow> bool" where
  "page_fine (s, t, asked) \<longleftrightarrow> sound s \<and> (\<forall>f \<in> set asked. is_text_file (snd f)) \<and> threads_reachable t"

lemma page_run_fine: "page_run infos w \<Longrightarrow> page_fine w"
proof (induction rule: page_run.induct)
  case (mounted w)
  have "panels_fit (on_resize w (landing_init w))" by (rule panels_fit_kept)
  then show ?case by (simp add: sound_def toasts_fine_def modal_fine_def threads_reachable.start) (simp add: on_resize_def landing_init_def)
next
  case (threads_came s t asked fr s' t')
  then show ?case
    using first_threads_parts [where infos = infos and s = s and r = fr and t = t]
    by (auto intro: threads_reachable.step threads_step.listed dest: arg_cong [of _ _ fst] arg_cong [of _ _ snd])
next
  case (file_came s t asked path name rep)
  then show ?case using sound_file_click by (auto dest: in_set_remove1 [THEN iffD1, rotated] set_remove1_subset [THEN subsetD])
next
  case (thread_step s t asked t')
  then show ?case by (auto intro: threads_reachable.step)
qed (auto simp: sound_panels sound_modal sound_tree sound_config sound_download sound_file_click toggle_app_def file_press_def)


text \<open>What is in view of the two panels.\<close>

definition left_in_view :: "page_view \<Rightarrow> bool" where
  "left_in_view v \<longleftrightarrow> (case pg_left v of Some p \<Rightarrow> lp_visible p | None \<Rightarrow> False)"

definition right_in_view :: "page_view \<Rightarrow> bool" where
  "right_in_view v \<longleftrightarrow> (case pg_right v of Some p \<Rightarrow> ap_visible p | None \<Rightarrow> False)"

lemma draw_right_cases:
  assumes "draw_right num s = Inr r"
  shows "r = None \<and> \<not> can_show_right s \<or> (\<exists>p. r = Some p \<and> can_show_right s \<and> ap_visible p = la_right s)"
  using assms by (auto simp: draw_right_def try_bind_def split: if_splits sum.splits)

text \<open>
  On every page that can come about the header says what is in view of the panels, a
  panel that fits is either in view or has its button to open it, the toasts have
  different names, so a close closes one of them, and the file on view is a text.
\<close>

theorem header_tells_panels:
  assumes "page_run infos (s, t, asked)" "draw_page num stamp s t = Inr v"
  shows "pg_header v = (\<not> left_in_view v, right_in_view v)
     \<and> (pg_reopen_left v \<longleftrightarrow> pg_left v \<noteq> None \<and> \<not> left_in_view v)
     \<and> (pg_reopen_right v \<longleftrightarrow> pg_right v \<noteq> None \<and> \<not> right_in_view v)
     \<and> distinct (map fst (pg_toasts v))
     \<and> (\<forall>title text1. pg_modal v = Some (title, text1) \<longrightarrow> is_text_file title)"
proof -
  have fine: "sound s" using page_run_fine [OF assms(1)] by simp
  obtain r where r: "draw_right num s = Inr r"
    and v: "v = \<lparr>pg_thread = th_selected t, pg_readonly = is_readonly t, pg_home = la_home s,
            pg_header = (\<not> la_left s, la_right s), pg_left = draw_left stamp s t, pg_right = r,
            pg_reopen_left = (can_show_left s \<and> \<not> la_left s), pg_reopen_right = (can_show_right s \<and> \<not> la_right s),
            pg_modal = draw_modal num s, pg_toasts = la_toasts s\<rparr>"
    using assms(2) by (auto simp: draw_page_def try_bind_def split: sum.splits)
  have left: "left_in_view v = la_left s" "pg_left v \<noteq> None \<longleftrightarrow> can_show_left s"
    using fine by (auto simp: v left_in_view_def draw_left_def sound_def panels_fit_def)
  have right: "right_in_view v = la_right s" "pg_right v \<noteq> None \<longleftrightarrow> can_show_right s"
    using fine draw_right_cases [OF r] by (auto simp: v right_in_view_def sound_def panels_fit_def)
  have modal: "\<forall>title text1. pg_modal v = Some (title, text1) \<longrightarrow> is_text_file title"
    using fine by (auto simp: v draw_modal_def sound_def modal_fine_def)
  show ?thesis using fine modal unfolding left right by (simp add: v sound_def toasts_fine_def)
qed

theorem header_tells_panels_witness:
  "\<exists>s v. page_run (\<lambda>_. []) (s, threads_init, []) \<and> draw_page (\<lambda>_. []) id s threads_init = Inr v
     \<and> pg_reopen_left v \<and> \<not> left_in_view v \<and> pg_header v = (True, right_in_view v)"
proof -
  let ?s = "close_left (on_resize 800 (landing_init 800))"
  have run: "page_run (\<lambda>_. []) (?s, threads_init, [])" by (intro page_run.intros)
  obtain v where v: "draw_page (\<lambda>_. []) id ?s threads_init = Inr v"
    by (simp add: draw_page_def draw_right_def can_show_right_def close_left_def on_resize_def hide_right_def)
  have "pg_reopen_left v" using v
    by (auto simp: draw_page_def draw_right_def can_show_right_def close_left_def on_resize_def hide_right_def
        can_show_left_def hide_left_def)
  then show ?thesis using header_tells_panels [OF run v] run v by (intro exI [of _ ?s] exI [of _ v]) simp
qed

text \<open>The tools of an application are folded after the fifth.\<close>

lemma visible_folded: "visible_tools s app = fst (folded 5 (fst app \<in> set (la_expanded s)) (snd app))"
  by (simp add: visible_tools_def folded_def)

lemma draw_app_rows:
  assumes "draw_app_view s app = Inr v"
  shows "map tr_name (av_rows v) = map at_name (visible_tools s app)"
proof -
  obtain rows where rows: "try_map (\<lambda>(i, t). draw_tool (i < length (visible_tools s app) - 1 \<or> length (snd app) > 5) t)
      (zip [0..<length (visible_tools s app)] (visible_tools s app)) = Inr rows" and v: "av_rows v = rows"
    using assms by (auto simp: draw_app_view_def Let_def try_bind_def split: sum.splits)
  have "tr_name r = at_name t" if "draw_tool b t = Inr r" for b t r
    using that by (auto simp: draw_tool_def try_bind_def split: sum.splits)
  then show ?thesis using rows by (auto simp: v try_map_Inr list_all2_conv_all_nth split: prod.splits intro!: nth_equalityI)
qed

text \<open>
  Of an application the page draws its tools in order from the first, and the button says
  how many of them are left out: there is none when it has five at most, it
  counts those that are hidden while folded, and it offers to fold again when nothing is.
  A press on it draws all of them, and one more the first five again.
\<close>

theorem tools_folded:
  assumes "draw_app_view s app = Inr v"
  shows "prefix (map tr_name (av_rows v)) (map at_name (snd app))
     \<and> (av_button v = None \<longleftrightarrow> length (snd app) \<le> 5)
     \<and> (av_button v = Some (''Show '' @ show_nat (length (snd app) - length (av_rows v)) @ '' more'')
          \<longleftrightarrow> length (av_rows v) < length (snd app))
     \<and> (av_button v = Some ''Show less'' \<longrightarrow> map tr_name (av_rows v) = map at_name (snd app))
     \<and> visible_tools (toggle_app (fst app) s) app = (if fst app \<in> set (la_expanded s) then take 5 (snd app) else snd app)
     \<and> visible_tools (toggle_app (fst app) (toggle_app (fst app) s)) app = visible_tools s app"
proof -
  let ?o = "fst app \<in> set (la_expanded s)" and ?n = "length (snd app)"
  have rows: "map tr_name (av_rows v) = map at_name (fst (folded 5 ?o (snd app)))"
    using draw_app_rows [OF assms] by (simp add: visible_folded)
  have len: "length (av_rows v) = (if ?o then ?n else min 5 ?n)"
    using arg_cong [OF rows, of length] by (simp add: folded_def min_def)
  have button: "av_button v = (if ?n \<le> 5 then None else if ?o then Some ''Show less'' else Some (''Show '' @ show_nat (?n - 5) @ '' more''))"
    using assms by (auto simp: draw_app_view_def Let_def try_bind_def split: sum.splits)
  have "prefix (map tr_name (av_rows v)) (map at_name (snd app))"
    unfolding rows using folds.start [of 5 ?o "snd app"] by (rule map_mono_prefix)
  moreover have "av_button v = Some ''Show less'' \<longrightarrow> map tr_name (av_rows v) = map at_name (snd app)"
    unfolding rows button by (simp add: folded_def)
  moreover have "av_button v = Some (''Show '' @ show_nat (?n - length (av_rows v)) @ '' more'') \<longleftrightarrow> length (av_rows v) < ?n"
    unfolding button len by auto
  ultimately show ?thesis by (auto simp: button visible_tools_def toggle_app_def)
qed


text \<open>The nodes of a tree from the top, whatever is drawn, and the nodes that can be drawn.\<close>

function nodes_of :: "jv \<Rightarrow> jv list" where
  "nodes_of n =
     n # (if fld n ''type'' = JStr ''directory''
          then (case fld n ''children'' of JArr cs \<Rightarrow> concat (map nodes_of cs) | _ \<Rightarrow> []) else [])"
  by pat_completeness auto
termination
  by (relation "measure size") (auto intro: field_smaller)

declare nodes_of.simps [simp del]

definition node_drawable :: "jv \<Rightarrow> bool" where
  "node_drawable n \<longleftrightarrow> \<not> nullish n
     \<and> (fld n ''type'' = JStr ''directory'' \<longrightarrow> nullish (fld n ''children'') \<or> (\<exists>cs. fld n ''children'' = JArr cs))"

definition item_of :: "file_item \<Rightarrow> jv \<Rightarrow> bool" where
  "item_of i n \<longleftrightarrow> fi_id i = fld n ''path'' \<and> fi_name i = fld n ''name'' \<and> fi_pressed i = (fld n ''type'' = JStr ''file'')
     \<and> fi_open i = (fld n ''type'' = JStr ''directory'')"

lemma try_map_fails: "(\<exists>ys. try_map f xs = Inr ys) \<longleftrightarrow> (\<forall>x \<in> set xs. \<exists>y. f x = Inr y)"
proof (induction xs)
  case (Cons x xs)
  then show ?case by (cases "f x"; cases "try_map f xs") auto
qed simp

lemma all2_concat: "list_all2 (\<lambda>x y. list_all2 P (f x) (g y)) xs ys \<Longrightarrow> list_all2 P (concat (map f xs)) (concat (map g ys))"
  by (induction rule: list_all2_induct) (auto intro: list_all2_appendI)

lemma render_items: "render_file_node n = Inr x \<Longrightarrow> list_all2 item_of (items_of x) (nodes_of n)"
proof (induction "size n" arbitrary: n x rule: less_induct)
  case less
  have step: "list_all2 item_of (concat (map items_of xs)) (concat (map nodes_of cs))"
    if "fld n ''children'' = JArr cs" "try_map render_file_node cs = Inr xs" for cs xs
  proof -
    have "list_all2 (\<lambda>c y. render_file_node c = Inr y \<and> c \<in> set cs) cs xs"
      using that(2) by (auto simp: try_map_Inr list_all2_conv_all_nth)
    then have "list_all2 (\<lambda>c y. list_all2 item_of (items_of y) (nodes_of c)) cs xs"
      by (rule list_all2_mono) (use less.hyps field_smaller [OF that(1)] in blast)
    then show ?thesis by (intro all2_concat) (auto simp: list_all2_conv_all_nth)
  qed
  show ?case
    using less.prems step
    by (auto simp: render_file_node.simps [of n] nodes_of.simps [of n] get_prop_def Let_def item_of_def try_bind_def
        split: if_splits sum.splits jv.splits)
qed

lemma render_fails: "(\<exists>x. render_file_node n = Inr x) \<longleftrightarrow> (\<forall>m \<in> set (nodes_of n). node_drawable m)"
proof (induction "size n" arbitrary: n rule: less_induct)
  case less
  have step: "(\<exists>xs. try_map render_file_node cs = Inr xs) \<longleftrightarrow> (\<forall>m \<in> set (concat (map nodes_of cs)). node_drawable m)"
    if "fld n ''children'' = JArr cs" for cs
    unfolding try_map_fails using less.hyps field_smaller [OF that] by auto
  show ?case
  proof (cases "\<not> nullish n \<and> fld n ''type'' = JStr ''directory''")
    case True
    then show ?thesis
      using step
      by (cases "fld n ''children''")
        (auto simp: render_file_node.simps [of n] nodes_of.simps [of n] get_prop_def Let_def node_drawable_def try_bind_def
          split: sum.splits)
  next
    case False
    then have "render_file_node n = (if nullish n then Inl (type_error n ''path'')
        else Inr (File_Item (fld n ''path'') (fld n ''name'') (fld n ''type'' = JStr ''file'') (fld n ''type'' = JStr ''directory'') []))"
      using False by (cases "nullish n") (simp_all add: render_file_node.simps [of n] get_prop_def Let_def)
    moreover have "\<not> nullish n \<Longrightarrow> nodes_of n = [n]" using False by (subst nodes_of.simps) simp
    moreover have "n \<in> set (nodes_of n)" by (subst nodes_of.simps) (rule list.set_intros)
    ultimately show ?thesis using False by (auto simp: node_drawable_def)
  qed
qed

text \<open>
  The tree of the workspace is drawn whole or not at all: one row for each node, in the order
  of a walk from the top, with every folder open and exactly the files to be
  pressed.  It is drawn unless a node is missing or the children of a folder are something other
  than a list; then the page throws, but not in a window too narrow for the panel.
\<close>

theorem tree_drawn_whole:
  shows "(\<forall>xs. draw_tree_tab (s\<lparr>la_tree := JArr ns, la_tree_loading := False\<rparr>) = Inr (File_Tree xs) \<longrightarrow>
            list_all2 item_of (concat (map items_of xs)) (concat (map nodes_of ns)))
     \<and> ((\<exists>d. draw_tree_tab (s\<lparr>la_tree := JArr ns, la_tree_loading := False\<rparr>) = Inr d)
          \<longleftrightarrow> (\<forall>m \<in> set (concat (map nodes_of ns)). node_drawable m))
     \<and> (\<not> can_show_right s \<longrightarrow> (\<exists>v. draw_page num stamp s t = Inr v))"
proof (intro conjI allI impI)
  fix xs
  assume "draw_tree_tab (s\<lparr>la_tree := JArr ns, la_tree_loading := False\<rparr>) = Inr (File_Tree xs)"
  then have "try_map render_file_node ns = Inr xs" by (auto simp: draw_tree_tab_def try_bind_def split: if_splits sum.splits)
  then have "list_all2 (\<lambda>n x. list_all2 item_of (items_of x) (nodes_of n)) ns xs"
    by (auto simp: try_map_Inr intro: list_all2_mono render_items)
  then show "list_all2 item_of (concat (map items_of xs)) (concat (map nodes_of ns))"
    by (intro all2_concat) (auto simp: list_all2_conv_all_nth)
next
  have "(\<exists>d. draw_tree_tab (s\<lparr>la_tree := JArr ns, la_tree_loading := False\<rparr>) = Inr d)
      \<longleftrightarrow> (\<exists>xs. try_map render_file_node ns = Inr xs)"
    by (auto simp: draw_tree_tab_def try_bind_def split: sum.splits)
  then show "(\<exists>d. draw_tree_tab (s\<lparr>la_tree := JArr ns, la_tree_loading := False\<rparr>) = Inr d)
      \<longleftrightarrow> (\<forall>m \<in> set (concat (map nodes_of ns)). node_drawable m)"
    by (auto simp: try_map_fails render_fails)
qed (simp add: draw_page_def draw_right_def)

end
