(* ===== verification/Chat_Element.thy ===== *)
theory Chat_Element
  imports Landing_View Chat_Send
begin

text \<open>
  The rest of the chat of the page, \<open>FW/frontend/src/carbon-chat/CarbonChat.tsx\<close>: the home
  screen and the other settings the library's element is given, the answers its custom buttons
  send, and its debug panel, which shares the current thread of \<^theory_text>\<open>Threads\<close>.  The
  element itself is the library's; clocks, new identifiers and printing are arguments.
\<close>

section \<open>The element\<close>

definition element_default_home :: jv where
  "element_default_home = JObj [(''isOn'', JBool True), (''greeting'', JStr ''Hello, how can I help you today?''),
     (''starters'', JArr [JStr ''Hi, what can you do for me?''])]"

definition element_home :: "jv option \<Rightarrow> jv" where
  "element_home home = (case home of Some h \<Rightarrow> js_nullor h element_default_home | None \<Rightarrow> element_default_home)"

definition starter_labels :: "jv \<Rightarrow> jv list" where
  "starter_labels hs = take 4 (filter truthy (list_at (js_nullor (fld hs ''starters'') (fld element_default_home ''starters''))))"

record chat_element =
  el_class :: string
  el_dark :: bool
  el_readonly :: bool
  el_home_on :: jv
  el_greeting :: jv
  el_starters :: "jv list"             \<comment> \<open>on when there is one\<close>

definition draw_element :: "bool \<Rightarrow> string \<Rightarrow> bool \<Rightarrow> bool \<Rightarrow> jv option \<Rightarrow> chat_element" where
  "draw_element boxed class_name dark readonly home =
     (let hs = element_home home
      in \<lparr>el_class = (if boxed then ''carbon-chat-contained'' else ''carbon-chat-fullscreen'') @ '' '' @ class_name,
          el_dark = dark, el_readonly = readonly,
          el_home_on = (if readonly then JBool False else js_nullor (fld hs ''isOn'') (JBool True)),
          el_greeting = js_nullor (fld hs ''greeting'') (fld element_default_home ''greeting''),
          el_starters = (if readonly then [] else starter_labels hs)\<rparr>)"

text \<open>The history the element asks for itself.\<close>

definition element_history :: "bool \<Rightarrow> string option \<Rightarrow> string option" where
  "element_history disable_history thread =
     (if disable_history then None else case thread of Some t \<Rightarrow> if t \<noteq> [] then Some t else None | None \<Rightarrow> None)"

section \<open>Custom buttons\<close>

text \<open>A press on a custom button answers an action, when the button stands for one.\<close>

definition item_answer :: "string \<Rightarrow> jv \<Rightarrow> jv option" where
  "item_answer now item =
     (if \<not> truthy item then None
      else let event = fld item ''custom_event_name''; user = js_nullor (fld item ''user_defined'') (JObj [])
           in if event = JStr ''tool_approval_response'' \<or> event = JStr ''suggest_human_action'' \<or> truthy (fld user ''action_id'')
              then Some (JObj [(''action_id'', fld user ''action_id''), (''response_type'', JStr ''confirmation''),
                     (''timestamp'', JStr now), (''confirmed'', JBool (fld user ''approved'' = JBool True))])
              else None)"

definition item_pressed ::
  "chat_env \<Rightarrow> string \<Rightarrow> string \<Rightarrow> string \<Rightarrow> string \<Rightarrow> bool \<Rightarrow> bool \<Rightarrow> stream_reply \<Rightarrow> jv \<Rightarrow> chat_effect list" where
  "item_pressed E url tid rid now use_draft disable_history reply item =
     (case item_answer now item of
        None \<Rightarrow> []
      | Some a \<Rightarrow> custom_send_message E url tid rid [] a use_draft disable_history None reply)"

section \<open>The debug panel\<close>

record chat_debug =
  cd_open :: bool
  cd_data :: jv
  cd_loading :: bool
  cd_error :: "string option"
  cd_last :: "rat option"
  cd_pending :: "string list"          \<comment> \<open>the threads of the requests without an answer\<close>
  cd_sent :: "request list"

definition chat_debug_init :: chat_debug where
  "chat_debug_init = \<lparr>cd_open = False, cd_data = JNull, cd_loading = False, cd_error = None, cd_last = None, cd_pending = [],
     cd_sent = []\<rparr>"

definition fetch_debug :: "string \<Rightarrow> chat_debug \<times> threads_state \<Rightarrow> chat_debug \<times> threads_state" where
  "fetch_debug fresh w =
     (let (d, t) = w; (tid, t1) = get_or_create_thread fresh t
      in (d\<lparr>cd_loading := True, cd_error := None, cd_pending := cd_pending d @ [tid], cd_sent := cd_sent d @ [get_agent_state tid]\<rparr>, t1))"

definition refused_text :: "(rat \<Rightarrow> string) \<Rightarrow> http_reply \<Rightarrow> string" where
  "refused_text num rep =
     (let data = (case hr_json rep of Inr d \<Rightarrow> d | Inl _ \<Rightarrow> JObj [])
      in case get_prop data ''detail'' of
           Inl m \<Rightarrow> m
         | Inr v \<Rightarrow> js_to_string num (js_or v (JStr (''HTTP error! status: '' @ show_nat (hr_status rep)))))"

definition debug_failed :: "string \<Rightarrow> chat_debug \<Rightarrow> chat_debug" where
  "debug_failed m d = d\<lparr>cd_error := Some m, cd_loading := False\<rparr>"

definition debug_came :: "(rat \<Rightarrow> string) \<Rightarrow> rat \<Rightarrow> string \<Rightarrow> exn + http_reply \<Rightarrow> chat_debug \<Rightarrow> chat_debug" where
  "debug_came num now tid r d =
     (let d1 = d\<lparr>cd_pending := remove1 tid (cd_pending d)\<rparr>
      in case r of
           Inl m \<Rightarrow> debug_failed m d1
         | Inr rep \<Rightarrow>
             if \<not> hr_ok rep then debug_failed (refused_text num rep) d1
             else (case hr_json rep of
                     Inl m \<Rightarrow> debug_failed m d1
                   | Inr v \<Rightarrow> d1\<lparr>cd_data := v, cd_last := Some now, cd_loading := False\<rparr>))"

definition debug_toggled :: "string \<Rightarrow> chat_debug \<times> threads_state \<Rightarrow> chat_debug \<times> threads_state" where
  "debug_toggled fresh w =
     (if cd_open (fst w) then ((fst w)\<lparr>cd_open := False\<rparr>, snd w)
      else fetch_debug fresh ((fst w)\<lparr>cd_open := True\<rparr>, snd w))"

definition debug_closed :: "chat_debug \<Rightarrow> chat_debug" where
  "debug_closed d = d\<lparr>cd_open := False\<rparr>"

record chat_debug_view =
  cv_loading :: bool
  cv_error :: "string option"
  cv_data :: "(string \<times> string option \<times> string) option"     \<comment> \<open>thread, time of the last answer, state\<close>
  cv_refresh :: bool
  cv_footer :: string

definition bullet :: string where
  "bullet = [CHR 0xE2, CHR 0x80, CHR 0xA2]"

definition draw_chat_debug ::
  "(jv \<Rightarrow> string) \<Rightarrow> rat \<Rightarrow> chat_debug \<times> threads_state \<Rightarrow> chat_debug_view option" where
  "draw_chat_debug pretty now w =
     (let (d, t) = w; ago = map_option (format_relative_time now) (cd_last d)
      in if \<not> cd_open d then None
         else Some \<lparr>cv_loading = cd_loading d,
           cv_error = (case cd_error d of Some m \<Rightarrow> if m \<noteq> [] then Some m else None | None \<Rightarrow> None),
           cv_data = (if truthy (cd_data d)
              then Some (case th_current t of Some i \<Rightarrow> if i \<noteq> [] then i else ''None'' | None \<Rightarrow> ''None'', ago, pretty (cd_data d))
              else None),
           cv_refresh = (\<not> cd_loading d),
           cv_footer = ''Auto-refresh: 3s'' @ (case ago of Some a \<Rightarrow> '' '' @ bullet @ '' Updated '' @ a | None \<Rightarrow> [])\<rparr>)"

text \<open>The panel and the chat: what the chat does to its thread goes on beside the panel.\<close>

inductive chat_debug_run :: "(rat \<Rightarrow> string) \<Rightarrow> chat_debug \<times> threads_state \<Rightarrow> bool" for num where
  mounted: "chat_debug_run num (chat_debug_init, threads_init)"
| toggled: "chat_debug_run num w \<Longrightarrow> fresh \<noteq> [] \<Longrightarrow> chat_debug_run num (debug_toggled fresh w)"
| closed: "chat_debug_run num (d, t) \<Longrightarrow> cd_open d \<Longrightarrow> chat_debug_run num (debug_closed d, t)"
| refreshed: "chat_debug_run num (d, t) \<Longrightarrow> cd_open d \<Longrightarrow> \<not> cd_loading d \<Longrightarrow> fresh \<noteq> [] \<Longrightarrow> chat_debug_run num (fetch_debug fresh (d, t))"
| interval: "chat_debug_run num (d, t) \<Longrightarrow> cd_open d \<Longrightarrow> fresh \<noteq> [] \<Longrightarrow> chat_debug_run num (fetch_debug fresh (d, t))"
| came: "chat_debug_run num (d, t) \<Longrightarrow> tid \<in> set (cd_pending d) \<Longrightarrow> chat_debug_run num (debug_came num now tid r d, t)"
| chat: "chat_debug_run num (d, t) \<Longrightarrow> threads_step t t' \<Longrightarrow> chat_debug_run num (d, t')"

section \<open>Properties\<close>

text \<open>
  The home screen of a thread that cannot be written to is off and without starters; otherwise there
  are four starters at most and none is blank.  A page without a configured home screen
  shows the default one, and of a configured list of starters those are shown that are
  not blank among its first four, even when there are more.
\<close>

theorem home_screen_shown:
  "length (el_starters (draw_element c n dark ro home)) \<le> 4 \<and> list_all truthy (el_starters (draw_element c n dark ro home))
   \<and> \<not> truthy (el_home_on (draw_element c n dark True home)) \<and> el_starters (draw_element c n dark True home) = []
   \<and> el_starters (draw_element c n dark False None) = [JStr ''Hi, what can you do for me?'']
   \<and> (loaded_home (JObj [(''config'', JObj [(''homescreen'', JObj [(''isOn'', on), (''starters'', JArr xs)])])]) = Inr home' \<longrightarrow>
        el_starters (draw_element c n dark False home') = filter truthy (take 4 xs)
        \<and> truthy (el_home_on (draw_element c n dark False home')) = (nullish on \<or> truthy on))"
proof (intro conjI impI)
  show "list_all truthy (el_starters (draw_element c n dark ro home))"
    by (auto simp: draw_element_def starter_labels_def Let_def list_all_iff dest: in_set_takeD)
next
  assume h: "loaded_home (JObj [(''config'', JObj [(''homescreen'', JObj [(''isOn'', on), (''starters'', JArr xs)])])]) = Inr home'"
  have few: "take 4 (filter truthy (take 4 xs)) = filter truthy (take 4 xs)"
    using length_filter_le [of truthy "take 4 xs"] by (intro take_all) simp
  show "el_starters (draw_element c n dark False home') = filter truthy (take 4 xs)"
    using h few by (auto simp: draw_element_def starter_labels_def element_home_def loaded_home_def opt_prop_def js_nullor_def list_at_def Let_def)
  show "truthy (el_home_on (draw_element c n dark False home')) = (nullish on \<or> truthy on)"
    using h by (cases on) (auto simp: draw_element_def element_home_def loaded_home_def opt_prop_def js_nullor_def Let_def)
qed (simp_all add: draw_element_def starter_labels_def element_home_def element_default_home_def js_nullor_def list_at_def Let_def)

theorem home_screen_shown_witness:
  "\<exists>h. loaded_home (JObj [(''config'', JObj [(''homescreen'', JObj [(''isOn'', JNull), (''starters'',
       JArr [JStr [], JStr ''a'', JStr ''b'', JStr [], JStr ''c''])])])]) = Inr h
     \<and> el_starters (draw_element True [] False False h) = [JStr ''a'', JStr ''b'']"
proof -
  let ?xs = "[JStr [], JStr ''a'', JStr ''b'', JStr [], JStr ''c'']"
  obtain h where "loaded_home (JObj [(''config'', JObj [(''homescreen'', JObj [(''isOn'', JNull), (''starters'', JArr ?xs)])])]) = Inr h"
    by (simp add: loaded_home_def opt_prop_def Let_def)
  then show ?thesis
    using home_screen_shown [of True "[]" False False None JNull ?xs h] by (intro exI [of _ h]) (simp add: numeral_eq_Suc)
qed

text \<open>The names a value has once it is printed: what is undefined is left out.\<close>

definition json_keys :: "jv \<Rightarrow> string list" where
  "json_keys v = map fst (filter (\<lambda>f. snd f \<noteq> JUndef) (obj_fields v))"

text \<open>
  C8. A press on a button the chat made for an action opens a message and posts the answer to the
  current thread, whatever thread the button names: it names the action, and
  confirms it exactly when the button approves.  The answer of the buttons of a tool
  approval names no action, so what is posted has no such field; a button of
  something else posts nothing.
\<close>

theorem buttons_answer:
  "(fld action ''action_id'' \<noteq> JUndef \<longrightarrow>
      (\<exists>rest. item_pressed E url tid rid now draft nohist reply (action_button E kind label approved other action) =
         shell_chunk E rid # PostStream (JObj [(''action_id'', fld action ''action_id''), (''response_type'', JStr ''confirmation''),
           (''timestamp'', JStr now), (''confirmed'', JBool approved)]) tid draft nohist # rest))
   \<and> (\<exists>a rest. item_pressed E url tid rid now draft nohist reply (approval_button E kind text1 approved other) =
         shell_chunk E rid # PostStream a tid draft nohist # rest
        \<and> json_keys a = [''response_type'', ''timestamp'', ''confirmed''] \<and> fld a ''confirmed'' = JBool approved)
   \<and> item_pressed E url tid rid now draft nohist reply (JObj [(''custom_event_name'', JStr ''other''), (''user_defined'', JObj [])]) = []"
  by (simp add: item_pressed_def item_answer_def action_button_def approval_button_def custom_send_message_def json_keys_def Let_def
      js_nullor_def split: prod.split)

theorem buttons_answer_witness:
  "\<exists>rest. item_pressed demo_chat [] ''t'' ''r'' ''now'' False False NoBody (action_button demo_chat ''primary'' (JStr ''Run'') True ''old'' (JObj [(''action_id'', JStr ''a1'')])) =
     shell_chunk demo_chat ''r'' # PostStream (JObj [(''action_id'', JStr ''a1''), (''response_type'', JStr ''confirmation''),
       (''timestamp'', JStr ''now''), (''confirmed'', JBool True)]) ''t'' False False # rest"
  using buttons_answer [of "JObj [(''action_id'', JStr ''a1'')]" demo_chat "[]" "''t''" "''r''" "''now''" False False NoBody] by simp

text \<open>Requests are for threads, in their order, and a sign of loading has a request.\<close>

definition chat_debug_ok :: "chat_debug \<Rightarrow> bool" where
  "chat_debug_ok d \<longleftrightarrow> [] \<notin> set (cd_pending d) \<and> (\<forall>r \<in> set (cd_sent d). \<exists>t. t \<noteq> [] \<and> r = get_agent_state t)
     \<and> (cd_loading d \<longrightarrow> cd_pending d \<noteq> [])"

lemma thread_made: "fresh \<noteq> [] \<Longrightarrow> fst (get_or_create_thread fresh t) \<noteq> []"
  by (simp add: get_or_create_thread_def split: option.split)

lemma fetch_debug_ok: "chat_debug_ok d \<Longrightarrow> fresh \<noteq> [] \<Longrightarrow> chat_debug_ok (fst (fetch_debug fresh (d, t)))"
  using thread_made [of fresh t] by (auto simp: fetch_debug_def chat_debug_ok_def split: prod.split)

lemma debug_came_ok: "chat_debug_ok d \<Longrightarrow> chat_debug_ok (debug_came num now tid r d)"
  by (auto simp: debug_came_def debug_failed_def chat_debug_ok_def Let_def dest: set_remove1_subset [THEN subsetD] split: sum.split)

lemma chat_debug_run_ok: "chat_debug_run num w \<Longrightarrow> chat_debug_ok (fst w)"
proof (induction rule: chat_debug_run.induct)
  case mounted
  then show ?case by (simp add: chat_debug_init_def chat_debug_ok_def)
next
  case (toggled w fresh)
  then show ?case
    using fetch_debug_ok [of "(fst w)\<lparr>cd_open := True\<rparr>" fresh "snd w"] by (auto simp: debug_toggled_def) (auto simp: chat_debug_ok_def)
qed (simp_all add: fetch_debug_ok debug_came_ok, simp add: debug_closed_def chat_debug_ok_def)

text \<open>
  The debug panel asks for the state of named threads only, and while it says that it is
  loading there is a request.  Opened in a new chat it makes the thread that the first
  message is posted to.  But what it shows under the name of the current thread is the last
  answer for any thread: after another one is chosen, that of the old one.
\<close>

theorem debug_makes_thread:
  assumes "fresh \<noteq> []"
  shows "(chat_debug_run num (d, t) \<longrightarrow>
            (\<forall>r \<in> set (cd_sent d). \<exists>i. i \<noteq> [] \<and> r = get_agent_state i) \<and> (cd_loading d \<longrightarrow> cd_pending d \<noteq> []))
     \<and> (\<not> cd_open d \<and> th_current t = None \<and> \<not> is_readonly t \<longrightarrow>
          (let (d1, t1) = debug_toggled fresh (d, t)
           in cd_sent d1 = cd_sent d @ [get_agent_state fresh] \<and> th_shown (send_in_thread other t1) = th_shown t @ [Sent_To fresh]))
     \<and> (cd_open d \<and> truthy (cd_data d) \<and> th_ready t \<and> th_selected t \<noteq> Some b \<and> b \<noteq> [] \<longrightarrow>
          (\<exists>v ago. draw_chat_debug pretty now (d, set_selected (Some b) t) = Some v \<and> cv_data v = Some (b, ago, pretty (cd_data d))))"
proof (intro conjI impI)
  assume "chat_debug_run num (d, t)"
  then show "\<forall>r \<in> set (cd_sent d). \<exists>i. i \<noteq> [] \<and> r = get_agent_state i" "cd_loading d \<Longrightarrow> cd_pending d \<noteq> []"
    using chat_debug_run_ok [of num "(d, t)"] by (auto simp: chat_debug_ok_def)
qed (use assms in \<open>auto simp: debug_toggled_def fetch_debug_def get_or_create_thread_def send_in_thread_def is_readonly_def
    draw_chat_debug_def set_selected_def thread_effect_def Let_def\<close>)

theorem debug_makes_thread_witness:
  "th_shown (send_in_thread ''m'' (snd (debug_toggled ''n'' (chat_debug_init, threads_init)))) = [Sent_To ''n'']"
proof -
  have "\<not> cd_open chat_debug_init \<and> th_current threads_init = None \<and> \<not> is_readonly threads_init"
    by (simp add: chat_debug_init_def threads_init_def is_readonly_def)
  then show ?thesis
    using debug_makes_thread [of "''n''" "\<lambda>_. []" chat_debug_init threads_init "''m''"]
    by (auto simp: threads_init_def split: prod.splits)
qed

end
