(* ===== verification/Chat_View.thy ===== *)
theory Chat_View
  imports Chat_Input
begin

text \<open>
  What the chat container draws, \<open>agentic_chat/src/CustomChat.tsx\<close>: its first screen with the
  examples of \<open>exampleUtterances.ts\<close>, and the conversation with its messages, suggestions,
  input and list of files; pasting into the input, clicks in it, and the file the workspace panel
  is told to point at.  The links and the constant texts of the first screen are left out.
\<close>

section \<open>Examples\<close>

definition example_utterances :: "(string \<times> string) list" where
  "example_utterances =
     [(''From the list of emails in the file contacts.txt, please filter those who exist in the CRM application. For the filtered contacts, retrieve their name and their associated account name, and calculate their account'' @ [CHR 0x27] @ ''s revenue percentile across all accounts. Finally, draft a an email based on email_template.md template summarizing the result and show it to me'',
       ''Multi-step workflow: file reading, API filtering, data analysis, and content generation''),
      (''from contacts.txt show me which users belong to the crm system'',
       ''Iterative task execution with dynamic followup planning''),
      (''./cuga_workspace/cuga_playbook.md'',
       ''Driving agent behavior from playbooks: learn how CUGA uses tools and variables in this demo''),
      (''What is CUGA?'', ''CUGA answers questions about itself from documentation'')]"

section \<open>What is drawn\<close>

record input_view =
  iv_editable :: bool
  iv_pieces :: "piece list"
  iv_can_send :: bool

datatype drawn_message = Drawn_User "piece list" | Drawn_Card string     \<comment> \<open>the thread of the cards\<close>

record file_row =
  fr_name :: string
  fr_path :: string
  fr_selected :: bool

record first_screen =
  wv_contacts :: bool               \<comment> \<open>the file on view is unfolded\<close>
  wv_examples :: "(string \<times> string) list"
  wv_input :: input_view

record conversation_view =
  cn_empty :: bool
  cn_messages :: "drawn_message list"
  cn_followups :: "string list"
  cn_input :: input_view
  cn_menu :: "file_row list"        \<comment> \<open>not drawn when it is empty\<close>

datatype chat_screen = Welcome first_screen | Conversation conversation_view

definition draw_input :: "chat_state \<Rightarrow> input_view" where
  "draw_input s = \<lparr>iv_editable = (\<not> ch_processing s), iv_pieces = ch_input s, iv_can_send = (trim (ch_value s) \<noteq> [] \<and> \<not> ch_processing s)\<rparr>"

definition draw_message :: "string \<Rightarrow> chat_message \<Rightarrow> drawn_message" where
  "draw_message thread m = (case m of UserMessage ps \<Rightarrow> Drawn_User ps | CardMessage \<Rightarrow> Drawn_Card thread)"

definition draw_menu :: "chat_state \<Rightarrow> file_row list" where
  "draw_menu s =
     (if ch_open s
      then map (\<lambda>(i, f). \<lparr>fr_name = fe_name f, fr_path = ''./'' @ fe_path f, fr_selected = (i = ch_index s)\<rparr>) (enumerate 0 (ch_filtered s))
      else [])"

text \<open>\<open>forced\<close> is the mode without a first screen.\<close>

definition effective_started :: "bool \<Rightarrow> chat_state \<Rightarrow> bool" where
  "effective_started forced s \<longleftrightarrow> forced \<or> ch_started s"

definition draw_chat :: "bool \<Rightarrow> string list \<Rightarrow> chat_state \<Rightarrow> chat_screen" where
  "draw_chat forced expanded s =
     (if \<not> effective_started forced s
      then Welcome \<lparr>wv_contacts = (''contacts.txt'' \<in> set expanded),
             wv_examples = (if ch_examples s \<and> trim (ch_value s) = [] then example_utterances else []), wv_input = draw_input s\<rparr>
      else Conversation \<lparr>cn_empty = (ch_messages s = []), cn_messages = map (draw_message (ch_thread s)) (ch_messages s),
             cn_followups = (if ch_processing s then [] else ch_followups s), cn_input = draw_input s, cn_menu = draw_menu s\<rparr>)"

definition toggle_file_expand :: "string \<Rightarrow> string list \<Rightarrow> string list" where
  "toggle_file_expand f expanded = (if f \<in> set expanded then filter (\<lambda>x. x \<noteq> f) expanded else expanded @ [f])"

section \<open>Pasting, clicks and the file pointed at\<close>

text \<open>
  What is pasted takes the place of the selection, which leaves the pieces before and after it; the
  cursor goes to its end.
\<close>

definition handle_paste :: "(nat \<Rightarrow> string) \<Rightarrow> piece list \<Rightarrow> string \<Rightarrow> piece list \<Rightarrow> chat_state \<Rightarrow> chat_state" where
  "handle_paste fresh before text1 after s = handle_content_input fresh (before @ Txt text1 # after) s"

text \<open>A click on a reference: on its sign it removes it, elsewhere it makes room for the cursor after it.\<close>

definition content_click :: "(nat \<Rightarrow> string) \<Rightarrow> nat \<Rightarrow> bool \<Rightarrow> chat_state \<Rightarrow> chat_state" where
  "content_click fresh k on_sign s =
     (if on_sign then remove_chip fresh k s
      else case drop k (ch_input s) of
             Chip p n inner # Txt t # rest \<Rightarrow> s
           | Chip p n inner # rest \<Rightarrow> s\<lparr>ch_input := take k (ch_input s) @ Chip p n inner # Txt [] # rest\<rparr>
           | _ \<Rightarrow> s)"

text \<open>The effect that tells the file pointed at, if it tells one.\<close>

definition hover_effect :: "chat_state \<Rightarrow> string option option" where
  "hover_effect s =
     (if ch_open s \<and> ch_filtered s \<noteq> [] \<and> ch_index s < length (ch_filtered s) then Some (Some (fe_path (ch_filtered s ! ch_index s)))
      else if \<not> ch_open s then Some None else None)"

definition started_told :: "bool \<Rightarrow> chat_state \<Rightarrow> bool" where
  "started_told forced s = effective_started forced s"

section \<open>Properties\<close>

text \<open>There are messages only in a chat that has started.\<close>

definition messages_started :: "chat_state \<Rightarrow> bool" where
  "messages_started s \<longleftrightarrow> (ch_messages s \<noteq> [] \<longrightarrow> ch_started s)"

lemma input_started [simp]:
  "ch_started (handle_content_input fresh ps s) = ch_started s" "ch_started (set_search b q s) = ch_started s"
  "ch_started (handle_file_select fresh path s) = ch_started s" "ch_started (remove_chip fresh k s) = ch_started s"
  by (simp_all add: handle_content_input_def set_search_def refilter_def handle_file_select_def remove_chip_def Let_def
      split: option.split prod.split list.split piece.split)

lemma started_same: "ch_messages s' = ch_messages s \<and> ch_started s' = ch_started s \<Longrightarrow> messages_started s \<Longrightarrow> messages_started s'"
  by (simp add: messages_started_def)

lemma started_send: "messages_started s \<Longrightarrow> messages_started (handle_send seen t s)"
  by (simp add: handle_send_def messages_started_def Let_def)

lemma started_key: "messages_started s \<Longrightarrow> messages_started (snd (handle_key_press fresh t inside key ctrl shift s))"
  by (rule key_cases) (auto intro: started_send started_same [of _ s])

lemma started_do: "messages_started s \<Longrightarrow> messages_started (chat_do fresh thread k ev s)"
proof (cases ev)
  case (PressKey i key c sh)
  then show "messages_started s \<Longrightarrow> ?thesis" by (simp add: chat_do_def started_key)
next
  case SendClick
  then show "messages_started s \<Longrightarrow> ?thesis" by (simp add: chat_do_def started_send)
next
  case FollowupTimer
  assume "messages_started s"
  then have "messages_started (s\<lparr>ch_timers := ts\<rparr>)" for ts by (simp add: messages_started_def)
  then show ?thesis using \<open>messages_started s\<close> FollowupTimer
    by (simp add: chat_do_def followup_timer_def started_send split: list.split)
next
  case (FinishRestart advanced)
  then show "messages_started s \<Longrightarrow> ?thesis" by (simp add: chat_do_def finish_restart_def messages_started_def)
qed (erule started_same [rotated], simp add: chat_do_def begin_restart_def load_files_def refilter_def settle_run_def
      final_answer_complete_def example_click_def followup_click_def input_focus_def Let_def)+

lemma chat_ok_run: "chat_ok s \<Longrightarrow> chat_ok (chat_run_events fresh thread k evs s)"
  by (induction evs arbitrary: k s) (simp_all add: ok_do)

lemma chat_ok_init: "chat_ok (chat_init t started)"
  by (simp add: chat_ok_def menu_ok_def chosen_ok_def runs_ok_def chat_init_def file_chips_def)

lemma started_run: "messages_started s \<Longrightarrow> messages_started (chat_run_events fresh thread k evs s)"
  by (induction evs arbitrary: k s) (simp_all add: started_do)

lemma draw_menu_selected:
  assumes "menu_ok s" "draw_menu s \<noteq> []"
  shows "map fr_selected (draw_menu s) = map (\<lambda>i. i = ch_index s) [0..<length (ch_filtered s)]
    \<and> ch_index s < length (draw_menu s) \<and> hover_effect s = Some (Some (drop 2 (fr_path (draw_menu s ! ch_index s))))"
proof -
  have o: "ch_open s" "ch_filtered s \<noteq> []" using assms(2) by (auto simp: draw_menu_def enumerate_eq_zip split: if_splits)
  then have i: "ch_index s < length (ch_filtered s)" using assms(1) by (simp add: menu_ok_def)
  show ?thesis
    using o i by (auto simp: draw_menu_def hover_effect_def enumerate_eq_zip comp_def split_def intro!: nth_equalityI)
qed

text \<open>
  Whatever happens in the chat, its first screen hides no message, and the conversation shows each
  with every card in the current thread; the list of files has ten rows at most, one of which is selected,
  and that is the file the workspace panel is pointed at.
\<close>

theorem chat_screen_shows:
  fixes fresh thread evs t started forced expanded
  defines "s \<equiv> chat_run_events fresh thread 0 evs (chat_init t started)"
  shows "(\<exists>w. draw_chat forced expanded s = Welcome w \<and> ch_messages s = [])
       \<or> (\<exists>c. draw_chat forced expanded s = Conversation c \<and> cn_messages c = map (draw_message (ch_thread s)) (ch_messages s)
            \<and> cn_empty c = (cn_messages c = []) \<and> length (cn_menu c) \<le> 10
            \<and> (cn_menu c = [] \<or> (\<exists>i < length (cn_menu c). (\<forall>j < length (cn_menu c). fr_selected (cn_menu c ! j) = (j = i))
                 \<and> hover_effect s = Some (Some (drop 2 (fr_path (cn_menu c ! i)))))))"
proof -
  have ok: "menu_ok s" using chat_ok_run [OF chat_ok_init] by (simp add: s_def chat_ok_def)
  have m: "messages_started s"
    unfolding s_def by (rule started_run) (simp add: messages_started_def chat_init_def)
  have len: "length (draw_menu s) = (if ch_open s then length (ch_filtered s) else 0)" by (simp add: draw_menu_def)
  have ten: "length (draw_menu s) \<le> 10" using ok by (simp add: len menu_ok_def)
  have sel: "\<exists>i < length (draw_menu s). (\<forall>j < length (draw_menu s). fr_selected (draw_menu s ! j) = (j = i))
      \<and> hover_effect s = Some (Some (drop 2 (fr_path (draw_menu s ! i))))" if "draw_menu s \<noteq> []"
  proof (intro exI [of _ "ch_index s"] conjI allI impI)
    note d = draw_menu_selected [OF ok that]
    show "ch_index s < length (draw_menu s)" "hover_effect s = Some (Some (drop 2 (fr_path (draw_menu s ! ch_index s))))"
      using d by simp_all
    fix j assume j: "j < length (draw_menu s)"
    then have "fr_selected (draw_menu s ! j) = map fr_selected (draw_menu s) ! j" by simp
    then show "fr_selected (draw_menu s ! j) = (j = ch_index s)" using d j len by (simp split: if_splits)
  qed
  show ?thesis
    using m ten sel by (auto simp: draw_chat_def effective_started_def messages_started_def)
qed

text \<open>
  C9. On the first screen a search opens a list of files that is not drawn there, and Enter goes to that
  list: nothing is sent, whatever the examples or the text, while the button sends.
\<close>

theorem unseen_list_takes_enter:
  assumes "\<not> ch_started s" "ch_open s" "ch_filtered s \<noteq> []" "trim (ch_value s) \<noteq> []" "ch_value s = content_text (ch_input s)" "\<not> ch_processing s"
  shows "(\<exists>w. draw_chat False expanded s = Welcome w \<and> iv_can_send (wv_input w))
    \<and> ch_messages (chat_do fresh thread k (PressKey None ''Enter'' False False) s) = ch_messages s
    \<and> ch_runs (chat_do fresh thread k (PressKey None ''Enter'' False False) s) = ch_runs s
    \<and> ch_messages (chat_do fresh thread k SendClick s) = ch_messages s @ [UserMessage (ch_input s), CardMessage]"
  using assms
  by (simp add: draw_chat_def effective_started_def draw_input_def chat_do_def handle_key_press_def key_outside_def Let_def)
    (simp add: handle_send_def Let_def)

theorem unseen_list_takes_enter_witness:
  "\<exists>s. s = chat_run_events (\<lambda>_. []) (\<lambda>_. []) 0 [FilesLoaded [FileNode True ''a.txt'' ''a.txt'' None], EditTo [Txt ''read @a'']] (chat_init ''t'' False)
     \<and> ch_messages (chat_do (\<lambda>_. []) (\<lambda>_. []) 0 (PressKey None ''Enter'' False False) s) = ch_messages s
     \<and> ch_messages s = []"
proof -
  let ?s = "chat_run_events (\<lambda>_. []) (\<lambda>_. []) 0 [FilesLoaded [FileNode True ''a.txt'' ''a.txt'' None], EditTo [Txt ''read @a'']] (chat_init ''t'' False)"
  have v: "\<not> ch_started ?s" "ch_value ?s = content_text (ch_input ?s)" "\<not> ch_processing ?s" "ch_messages ?s = []" "trim (ch_value ?s) \<noteq> []"
    by (simp_all add: chat_do_def load_files_def refilter_def chat_init_def)
      (simp add: content_text_def trim_def trim_start_def is_ws_def)
  have "ch_open ?s" "ch_filtered ?s \<noteq> []"
    by (simp_all add: chat_do_def load_files_def refilter_def chat_init_def handle_content_input_def content_text_def
        file_trigger_def search_term_def is_ws_def set_search_def offered_files_def matches_file_def includes_str_def Let_def lower_char_def sublist_code)
  then show ?thesis
    using unseen_list_takes_enter [of ?s "[]" "\<lambda>_. []" "\<lambda>_. []" 0] v by (intro exI [of _ ?s]) simp
qed


text \<open>An example that is chosen is what is sent, as it stands, and opens no list of files.\<close>

lemma examples_plain: "list_all (\<lambda>(u, r). trim u = u \<and> u \<noteq> [] \<and> CHR ''@'' \<notin> set u) example_utterances"
  by code_simp

theorem examples_sent:
  assumes "(u, r) \<in> set example_utterances" "\<not> ch_processing s"
  shows "(let s1 = chat_do fresh thread k (ExampleClick u) s; s2 = chat_do fresh thread j SendClick s1
     in draw_menu s1 = [] \<and> ch_messages s2 = ch_messages s @ [UserMessage [Txt u], CardMessage]
        \<and> map cr_text (ch_runs s2) = map cr_text (ch_runs s) @ [u])"
proof -
  have u: "trim u = u" "u \<noteq> []" "CHR ''@'' \<notin> set u" using examples_plain assms(1) by (auto simp: list_all_iff)
  have "cut_last_at u = None" using u(3) by (cases "cut_last_at u") (auto simp: cut_last_at_iff)
  then have "file_trigger u = None" by (simp add: file_trigger_def)
  then have "\<not> ch_open (handle_content_input fresh [Txt u] s)"
    by (simp add: handle_content_input_def content_text_def set_search_def refilter_def Let_def)
  then show ?thesis
    using u assms(2) by (simp add: chat_do_def example_click_def draw_menu_def handle_send_def content_text_def processed_text_def
        file_chips_def Let_def)
qed

theorem examples_sent_witness:
  "map cr_text (ch_runs (chat_do (\<lambda>_. []) (\<lambda>_. ''n'') 0 SendClick (chat_do (\<lambda>_. []) (\<lambda>_. ''n'') 0 (ExampleClick ''What is CUGA?'')
     (chat_init ''t'' False)))) = [''What is CUGA?'']"
  using examples_sent [of "''What is CUGA?''" "''CUGA answers questions about itself from documentation''" "chat_init ''t'' False"
      "\<lambda>_. []" "\<lambda>_. ''n''" 0 0]
  by (simp add: example_utterances_def chat_init_def Let_def)

end
