(* ===== verification/Spec2Isabelle.thy ===== *)
theory Spec2Isabelle
  imports Frame_Bids Frame_Mark Dom_Module Agent_Query Chat_History Chat_Api Workspace Followup Chat_Input Policy_Forms Tools_Config Secrets Threads Landing Connection Status_Bar App_Shell Tour Workspace_Panel Human_Config Sub_Agents Manage_Forms Debug_Panel Dashboard Tools_Dialog Card_Parts Chat_Element Chat_View
begin

text \<open>
  A model of the browser and chat side of the repository: the scripts that number the
  elements of a page, the extension's content script and worker, and the web client.
  Paths are below \<open>src/frontend_workspaces\<close> (FW) or
  \<open>src/cuga/backend/browser_env\<close> (BE).

  The parts and how they interact.  An agent on the server looks at a page and acts
  on it.  For that the elements of the page are numbered, either by a script injected into
  a frame or by the content script of the extension; the content script also builds a tree
  of the page and highlights its interactive elements.  The extension's worker listens to a
  stream of commands from the server, executes each against the browser and its content
  script, and posts the result; it also forwards the queries of its popup.  The chat client
  posts a query, shows the events of the answer as they arrive, and replays the stored
  events later.  The side panel shows a workspace tree that is fetched sparingly.

  Which theory models what.
  Prelude: JavaScript strings, splitting, decimal printing, insertion-ordered records, and
  the contract of identifier counters (locale fresh_source).  Js_Value: dynamic values.
  Dom: the DOM as rose trees with shadow roots and frames, and attributes.  Page: styles,
  rectangles and the other answers of a page, all arguments.
  Frame_Bids: BE/browser/gym_obs/javascript/frame_mark_elements.js and
  frame_unmark_elements.js (the copies under BE/page_understanding differ in comments only).
  Frame_Mark: FW/extension/src/content/frame.mark.elements.ts, marking and message handler.
  Dom_Cache, Xpath, Node_Helper, Node_Collector, Element_Highlighter, Page_Highlighter,
  Dom_Tree and Dom_Module: the files of the same names under
  FW/extension/src/content/page_analysis (Xpath: CachedXPathBuilder.ts, Node_Collector:
  NodeElementCollector.ts, Dom_Module: dom_tree_module.ts); the caches share the locale
  memo_table.  Throttle: the contract rate_gate of everything that is rate limited.
  Chrome_Io and Http_Stream: FW/extension/src/worker/http.stream.module.ts up to its event
  listeners, over a trace of the calls made to the browser.  Stream_Framing: the contract
  chunked of a reader that splits a text arriving in pieces.  Agent_Query: the popup's
  messages and the agent query of http.stream.module.ts.  Connection:
  FW/extension/src/content/worker.connection.ts, worker/sidepanel.module.ts and
  entrypoints/background.ts.
  Chat_Events, Chat_Send and Chat_History: FW/frontend/src/carbon-chat (parseCugaStream and
  carbonChatHelpers.ts, customSendMessage.ts, customLoadHistory.ts).  Chat_Api:
  FW/frontend/src/api.ts and auth.ts.  Workspace: FW/agentic_chat/src/workspaceService.ts
  and workspaceThrottle.ts.  Streaming: StreamingManager.ts and StreamManager.tsx there.
  Card_State: the state of FW/agentic_chat/src/CardManager.tsx and the variables it collects;
  Card_Text: how it reads the content of a step, the descriptions and headings; Card_Details:
  the details of a card with the answer and its policies; Card_View: the lists, cards and
  sections it draws of its state, and the states its handlers reach; Card_Parts: the components
  that draw the content of a step, and the stop button, with the locale fold_out of lists
  drawn in part.
  Workflow_Stream: StreamingWorkflow.ts of that directory, customSendMessage.ts and
  renderUserDefinedResponse.tsx there, whose cards those are; its listener hears what
  Agent_Query forwards.  Followup: Followup.tsx there, the form for an action of the user, and
  the forms mounted in the cards.  App_Shell: App.tsx there with its left sidebar,
  LeftSidebar.tsx, VariablesSidebar.tsx and VariablePopup.tsx; Status_Bar, Tour and
  Workspace_Panel: StatusBar.tsx, GuidedTour.tsx with AdvancedTourButton.tsx and useTour.ts,
  and WorkspacePanel.tsx.  File_Reference and Chat_Input: FileAutocomplete.tsx and
  CustomChat.tsx there, the search for files and the chat's input and state; Chat_View: its two
  screens, with the examples of exampleUtterances.ts.  Policies:
  PoliciesConfig.tsx there, the dialog with its loading and saving, and Policy_Forms, its forms
  for the kinds of policies.  Config_Dialog: what the other configuration dialogs share, with
  the locales config_dialog and reopening; Settings_Dialogs: ModelConfig.tsx,
  AgentBehaviorConfig.tsx and KnowledgeConfig.tsx; Memory_Config, Human_Config and Sub_Agents:
  MemoryConfig.tsx, AgentHumanConfig.tsx and SubAgentsConfig.tsx, each an interpretation of
  those locales or a step relation of its own.  Manage: FW/frontend/src/ManagePage.tsx, the
  configuration of an agent with its draft and its versions; Manage_Forms: the forms of that
  page, first of all that of the language model.  Tool_Form, Tools_Config and Secrets:
  AddToolModal.tsx, ToolsConfig.tsx and SecretsManager.tsx of FW/frontend/src, which
  edit its tools and the secrets they use.  Threads and Landing: ChatLanding.tsx there with
  carbon-chat/CarbonChat.tsx, the selection of conversations and the page around the chat;
  Landing_View: what that page draws, with the states its events reach; Chat_Element: the settings
  of the chat's element, the answers of its buttons and its debug panel.
  Dashboard: App.tsx and ManageDashboard.tsx there, the gate before all pages and the list of
  agents; Headers, Debug_Panel and Tools_Dialog: CugaHeader.tsx with ConfigHeader.tsx,
  DebugPanel.tsx and ToolsConfig.tsx of FW/agentic_chat/src.

  What is shown.  Numbering: the elements a frame marks carry pairwise different
  identifiers, also over repeated passes, and unmarking restores what marking wrote; in the
  extension this holds of a first marking only, since each message resets the counter.
  Page analysis: the result is a tree, its highlight indices are consecutive, a path selects the element it was made for,
  the rules of interactivity and numbering.  Worker: every command has a reply, and a click
  and a typed text come to exactly the right input events, the click at the place the
  browser's answers give.  Streams: what a reader hands on
  does not depend on how the network cut the text.  Chat: a request ends exactly once, a
  replay shows every event, and replay and live chat show the same answer unless it
  holds the sign of an event's data; what is typed is what is sent, up to its line breaks.  Workspace,
  streaming and connections: invariants over all orders of calls, timers and answers.
  Configuration: what is typed keeps its declared types and rules, what is saved is loaded
  back as it was, masking changes the secrets and nothing else, and which edits the page asks
  the server to store and when.  A hypothesis on the state or on a reply of a server is named
  in the text before the theorem.
  Several properties state behaviour the code should not have; they are marked in the
  manifest as findings.

  Machines and steps.  The module of the page analysis, the workspace service, the streaming
  manager, the connection and the background script are inductive step relations with
  invariants by rule induction; the other parts are functions.  Exceptions are the left
  values of sums; a list of effects or calls is the trace of what is done to the outside.

  Bounds and fuel.  No fuel is used: loops are structural recursions or have a measure
  (the work list of the marking scripts shrinks by the size of the elements left), the wait
  of the marking script is total for a positive interval.

  Arguments of the model.  Layout, styles, hit testing, event listeners, the browser's answers,
  JSON.parse and JSON.stringify, number printing, clocks, random suffixes, the constants of
  the chat library and the replies of servers.  Numbers are rationals: rounding of doubles,
  NaN and infinities are not modelled; characters are 8-bit and other literals are written
  by their UTF-8 bytes.

  Not modelled.  Styles, icons, fixed labels and the markup that only passes on what other
  parts hold; test data and demonstrations; the bundles and build configuration; and the
  Python back end and trading pipeline, which is not the language this development covers.
\<close>

end
